(* ===== verification/Prelude.thy ===== *)
theory Prelude
  imports Main "HOL-Library.Word" "HOL-Library.Char_ord" "HOL-Library.List_Lexorder"
begin

text \<open>
  Shared vocabulary of the development: the machine types of the C++ sources under their
  usual names, the convention for executions that do not return, the theorem collections
  that carry the automation of the component theories, and general facts about lists and
  words that several components use.

  Conventions.  A C++ function that can fail by returning \<open>false\<close> or \<open>NULL\<close> returns an
  option or a pair with a boolean, as the source does.  A function whose execution may
  leave the defined behaviour of the program (an unbounded loop, a trap, a read of an
  object that was never written) returns \<open>Some r\<close> when it returns \<open>r\<close> and
  \<open>None\<close> when it does not return normally.
\<close>

unbundle bit_operations_syntax

type_synonym u8 = "8 word"
type_synonym u16 = "16 word"
type_synonym u32 = "32 word"
type_synonym u64 = "64 word"

text \<open>An execution that may not return: \<open>None\<close> is "does not return normally".\<close>

type_synonym 'a run = "'a option"

text \<open>The terminator of C strings.\<close>

abbreviation NUL :: char where "NUL \<equiv> CHR 0x00"

named_theorems range_simps \<open>facts about range maps\<close>
named_theorems index_simps \<open>facts about ordered indexes\<close>
named_theorems invar_intros \<open>introduction rules for the component invariants\<close>

subsection \<open>Lists\<close>

lemma takeWhile_length_nth:
  "i < length (takeWhile P xs) \<Longrightarrow> P (xs ! i)"
  by (metis nth_mem set_takeWhileD takeWhile_nth)

lemma takeWhile_length_stop:
  "length (takeWhile P xs) < length xs \<Longrightarrow> \<not> P (xs ! length (takeWhile P xs))"
  by (rule nth_length_takeWhile)

lemma take_eq_takeWhile_length:
  "take (length (takeWhile P xs)) xs = takeWhile P xs"
  by (metis takeWhile_eq_take)

lemma drop_eq_dropWhile_length:
  "drop (length (takeWhile P xs)) xs = dropWhile P xs"
  by (metis dropWhile_eq_drop)

lemma dropWhile_nonempty_hd:
  "dropWhile P xs = y # ys \<Longrightarrow> \<not> P y"
  by (metis hd_dropWhile list.distinct(1) list.sel(1))

lemma dropWhile_nil_length:
  "(length (takeWhile P xs) = length xs) = (dropWhile P xs = [])"
  by (metis append_Nil2 length_append length_greater_0_conv less_add_same_cancel1
      less_irrefl takeWhile_dropWhile_id)

lemma nth_length_takeWhile_hd:
  "dropWhile P xs = y # ys \<Longrightarrow> xs ! length (takeWhile P xs) = y"
  by (metis nth_append_length takeWhile_dropWhile_id)

lemma set_tl_subset: "set (tl xs) \<subseteq> set xs"
  by (cases xs) auto

lemma take_slice_drop:
  "i \<le> j \<Longrightarrow> xs = take i xs @ take (j - i) (drop i xs) @ drop j xs"
  by (metis append_take_drop_id drop_drop le_add_diff_inverse2)

lemma in_set_take_nth:
  assumes "x \<in> set (take j xs)"
  obtains i where "i < j" "i < length xs" "x = xs ! i"
  using assms by (auto simp: in_set_conv_nth)

lemma in_set_drop_nth:
  assumes "x \<in> set (drop j xs)"
  obtains i where "j \<le> i" "i < length xs" "x = xs ! i"
proof -
  from assms obtain k where "k < length (drop j xs)" "drop j xs ! k = x"
    by (auto simp: in_set_conv_nth)
  then show ?thesis by (intro that [of "j + k"]) auto
qed

lemma in_set_slice_nth:
  assumes "x \<in> set (take (k - j) (drop j xs))"
  obtains i where "j \<le> i" "i < k" "i < length xs" "x = xs ! i"
proof -
  from assms obtain l where "l < length (take (k - j) (drop j xs))" "take (k - j) (drop j xs) ! l = x"
    by (auto simp: in_set_conv_nth)
  then show ?thesis by (intro that [of "j + l"]) auto
qed

subsection \<open>Words\<close>

lemma word_unat_minus_one: "(0 :: 'a::len word) < b \<Longrightarrow> unat (b - 1) = unat b - 1"
  by (simp add: unat_minus_one word_greater_zero_iff)

lemma word_le_minus_one_iff:
  assumes "(0 :: 'a::len word) < b"
  shows "(a \<le> b - 1) = (a < b)"
proof -
  have "0 < unat b" using assms by (simp add: word_less_nat_alt)
  then show ?thesis
    by (auto simp: word_le_nat_alt word_less_nat_alt word_unat_minus_one [OF assms])
qed

lemma word_minus_one_less:
  assumes "a < (b :: 'a::len word)"
  shows "b - 1 < b"
proof -
  have "0 < b" using assms by (metis word_zero_le order_le_less_trans)
  then show ?thesis by (metis word_le_minus_one_iff order_refl)
qed

lemma word_less_imp_le_minus_one: "a < (b :: 'a::len word) \<Longrightarrow> a \<le> b - 1"
  by (metis word_le_minus_one_iff word_zero_le order_le_less_trans)

lemma word_unat_plus_one:
  assumes "a < (b :: 'a::len word)"
  shows "unat (a + 1) = unat a + 1"
proof -
  have "unat a + 1 \<le> unat b" using assms by (simp add: word_less_nat_alt)
  also have "\<dots> < 2 ^ LENGTH('a)" by (rule unsigned_less)
  finally show ?thesis by (simp add: unat_word_ariths)
qed

lemma word_plus_one_le: "a < (b :: 'a::len word) \<Longrightarrow> a + 1 \<le> b"
  by (simp add: word_le_nat_alt word_unat_plus_one word_less_nat_alt)

lemma word_less_plus_one: "a < (b :: 'a::len word) \<Longrightarrow> a < a + 1"
  by (simp add: word_less_nat_alt [of a "a + 1"] word_unat_plus_one)

lemma word_plus_one_le_iff: "a < (b :: 'a::len word) \<Longrightarrow> (a + 1 \<le> c) = (a < c)"
  by (simp add: word_le_nat_alt word_unat_plus_one word_less_nat_alt Suc_le_eq)

subsection \<open>Widening 32-bit words\<close>

lemma unat_u32 [simp]: "unat (ucast x :: u64) = unat x" for x :: u32
  using unsigned_less [of x, where ?'a = nat] by (simp add: unsigned_ucast_eq take_bit_nat_eq_self)

lemma ucast_u32_order:
  fixes x y :: u32
  shows "((ucast x :: u64) < ucast y) = (x < y)" "((ucast x :: u64) \<le> ucast y) = (x \<le> y)"
    "(ucast x < (0x1000 :: u64)) = (x < 0x1000)"
  by (simp_all add: word_less_nat_alt word_le_nat_alt)

end
