(* ===== verification/C_String.thy ===== *)
theory C_String
  imports Prelude
begin

text \<open>
  The parts of the C and C++ library the parsers of the program use on text, as functions
  on character lists (no list holds a NUL): \<open>strtok_r\<close>, extraction of words and of
  unsigned integers from an \<open>istringstream\<close>, insertion of an integer into an
  \<open>ostringstream\<close>, \<open>strtol\<close> and \<open>strtoul\<close>.
\<close>

subsection \<open>Characters\<close>

definition isspace :: "char \<Rightarrow> bool" where
  "isspace c = (c \<in> {CHR '' '', CHR 0x09, CHR 0x0A, CHR 0x0B, CHR 0x0C, CHR 0x0D})"

definition digit_char :: "nat \<Rightarrow> char" where
  "digit_char n = (if n < 10 then char_of (48 + n) else char_of (87 + n))"

text \<open>The value of a digit in bases up to sixteen, upper or lower case.\<close>

definition digit_value :: "char \<Rightarrow> nat option" where
  "digit_value c =
     (let n = of_char c in
      if 48 \<le> n \<and> n \<le> 57 then Some (n - 48)
      else if 97 \<le> n \<and> n \<le> 102 then Some (n - 87)
      else if 65 \<le> n \<and> n \<le> 70 then Some (n - 55)
      else None)"

definition is_digit :: "nat \<Rightarrow> char \<Rightarrow> bool" where
  "is_digit base c = (case digit_value c of None \<Rightarrow> False | Some d \<Rightarrow> d < base)"

lemma digit_char_eval [simp]:
  "digit_char 0 = CHR ''0''"
  "digit_char (Suc 0) = CHR ''1''"
  "digit_char 2 = CHR ''2''"
  "digit_char 3 = CHR ''3''"
  "digit_char 4 = CHR ''4''"
  "digit_char 5 = CHR ''5''"
  "digit_char 6 = CHR ''6''"
  "digit_char 7 = CHR ''7''"
  "digit_char 8 = CHR ''8''"
  "digit_char 9 = CHR ''9''"
  "digit_char 10 = CHR ''a''"
  "digit_char 11 = CHR ''b''"
  "digit_char 12 = CHR ''c''"
  "digit_char 13 = CHR ''d''"
  "digit_char 14 = CHR ''e''"
  "digit_char 15 = CHR ''f''"
  "digit_char 1 = CHR ''1''"
  by (simp_all add: digit_char_def char_of_def bit_0)

subsection \<open>Numbers in positional notation\<close>

definition digits_value :: "nat \<Rightarrow> string \<Rightarrow> nat" where
  "digits_value base s = foldl (\<lambda>n c. base * n + the (digit_value c)) 0 s"

fun digits_of :: "nat \<Rightarrow> nat \<Rightarrow> string" where
  "digits_of base n =
     (if base \<le> 1 \<or> n < base then [digit_char n]
      else digits_of base (n div base) @ [digit_char (n mod base)])"

declare digits_of.simps [simp del]

lemma digit_value_char [simp]: "n < 16 \<Longrightarrow> digit_value (digit_char n) = Some n"
  by (auto simp: digit_value_def digit_char_def Let_def)

lemma is_digit_char [simp]: "n < base \<Longrightarrow> base \<le> 16 \<Longrightarrow> is_digit base (digit_char n)"
  by (simp add: is_digit_def)

lemma digits_value_snoc [simp]:
  "digits_value base (s @ [c]) = base * digits_value base s + the (digit_value c)"
  by (simp add: digits_value_def)

lemma digits_of_value:
  "1 < base \<Longrightarrow> base \<le> 16 \<Longrightarrow> digits_value base (digits_of base n) = n"
proof (induction base n rule: digits_of.induct)
  case (1 base n)
  show ?case
  proof (cases "n < base")
    case True
    with 1 show ?thesis by (subst digits_of.simps) (simp add: digits_value_def)
  next
    case False
    with 1 have "digits_value base (digits_of base (n div base)) = n div base" by simp
    moreover have "n mod base < 16"
      using 1(2,3) by (intro less_le_trans [OF mod_less_divisor]) auto
    ultimately show ?thesis using False 1(2) by (subst digits_of.simps) simp
  qed
qed

lemma digits_of_digits:
  "1 < base \<Longrightarrow> base \<le> 16 \<Longrightarrow> c \<in> set (digits_of base n) \<Longrightarrow> is_digit base c"
proof (induction base n arbitrary: c rule: digits_of.induct)
  case (1 base n)
  show ?case
  proof (cases "n < base")
    case True
    with 1(4) have "c = digit_char n" by (subst (asm) digits_of.simps) simp
    with True 1(3) show ?thesis by simp
  next
    case False
    with 1(2,4) have "c \<in> set (digits_of base (n div base)) \<or> c = digit_char (n mod base)"
      by (subst (asm) digits_of.simps) auto
    then show ?thesis
    proof
      assume "c \<in> set (digits_of base (n div base))"
      with False 1 show ?thesis by simp
    next
      assume "c = digit_char (n mod base)"
      with 1(2,3) show ?thesis by simp
    qed
  qed
qed

lemma digits_of_nonempty [simp]: "digits_of base n \<noteq> []"
  by (subst digits_of.simps) simp

lemma takeWhile_digits_of:
  "1 < base \<Longrightarrow> base \<le> 16 \<Longrightarrow> takeWhile (is_digit base) (digits_of base n) = digits_of base n"
  by (simp add: takeWhile_eq_all_conv digits_of_digits)

lemma digits_not_space: "is_digit base c \<Longrightarrow> \<not> isspace c"
  by (auto simp: is_digit_def digit_value_def isspace_def Let_def split: if_splits)

subsection \<open>Streams\<close>

text \<open>\<open>stream >> token\<close>: skip white space, then take characters up to the next.\<close>

function words_of :: "string \<Rightarrow> string list" where
  "words_of s =
     (let s' = dropWhile isspace s in
      if s' = [] then []
      else takeWhile (\<lambda>c. \<not> isspace c) s' # words_of (dropWhile (\<lambda>c. \<not> isspace c) s'))"
  by pat_completeness auto
termination
proof (relation "measure length", goal_cases)
  case (2 s s')
  from 2(2) obtain c cs where s': "s' = c # cs" by (meson list.exhaust)
  then have "\<not> isspace c" using 2(1) dropWhile_nonempty_hd by metis
  then have "length (dropWhile (\<lambda>c. \<not> isspace c) s') \<le> length cs"
    using s' length_dropWhile_le [of "\<lambda>c. \<not> isspace c" cs] by simp
  also have "\<dots> < length s'" using s' by simp
  also have "\<dots> \<le> length s" using 2(1) length_dropWhile_le by metis
  finally show ?case by simp
qed simp

declare words_of.simps [simp del]

text \<open>
  \<open>stream >> n\<close> for an unsigned integer of the width of the result, followed by a
  check that the whole text was read: white space is skipped, one sign is allowed, at
  least one decimal digit is needed, a number that does not fit fails, and a negative
  sign negates modulo the width.
\<close>

definition read_unsigned :: "string \<Rightarrow> 'a::len word option" where
  "read_unsigned text =
     (let s = dropWhile isspace text;
          negative = (s \<noteq> [] \<and> hd s = CHR ''-'');
          ds = (if s \<noteq> [] \<and> (hd s = CHR ''-'' \<or> hd s = CHR ''+'') then tl s else s);
          n = digits_value 10 ds in
      if ds = [] \<or> \<not> list_all (is_digit 10) ds \<or> 2 ^ LENGTH('a) \<le> n then None
      else Some (if negative then - of_nat n else of_nat n))"

text \<open>\<open>stream << n\<close> for an unsigned integer: decimal, without leading zeros.\<close>

definition print_unsigned :: "'a::len word \<Rightarrow> string" where
  "print_unsigned w = digits_of 10 (unat w)"

lemma dropWhile_isspace_digit:
  "s = [] \<or> \<not> isspace (hd s) \<Longrightarrow> dropWhile isspace s = s"
  by (cases s) auto

lemma print_unsigned_hd:
  "print_unsigned w \<noteq> [] \<and> is_digit 10 (hd (print_unsigned w))"
  using digits_of_digits [of 10 "hd (digits_of 10 (unat w))" "unat w"]
  by (simp add: print_unsigned_def)

lemma read_print_unsigned [simp]: "read_unsigned (print_unsigned w) = Some (w :: 'a::len word)"
proof -
  let ?s = "print_unsigned w"
  have hd: "is_digit 10 (hd ?s)" using print_unsigned_hd by blast
  have sp: "dropWhile isspace ?s = ?s"
    using digits_not_space [OF hd] by (intro dropWhile_isspace_digit) blast
  have nosign: "hd ?s \<noteq> CHR ''-''" "hd ?s \<noteq> CHR ''+''"
    using hd by (auto simp: is_digit_def digit_value_def Let_def)
  have "list_all (is_digit 10) ?s"
    by (auto simp: list_all_iff print_unsigned_def intro: digits_of_digits)
  moreover have "digits_value 10 ?s = unat w" by (simp add: print_unsigned_def digits_of_value)
  moreover have "\<not> 2 ^ LENGTH('a) \<le> unat w" by (simp add: not_le)
  ultimately show ?thesis
    using nosign print_unsigned_hd [of w] by (simp add: read_unsigned_def sp Let_def)
qed

text \<open>Words joined by single blanks are read back one by one.\<close>

fun unwords :: "string list \<Rightarrow> string" where
  "unwords [] = []"
| "unwords [w] = w"
| "unwords (w # v # ws) = w @ CHR '' '' # unwords (v # ws)"

definition is_word :: "string \<Rightarrow> bool" where
  "is_word w = (w \<noteq> [] \<and> list_all (\<lambda>c. \<not> isspace c) w)"

lemma isspace_blank [simp]: "isspace (CHR '' '')"
  by (simp add: isspace_def)

lemma words_of_Nil [simp]: "words_of [] = []"
  by (subst words_of.simps) simp

lemma words_of_blank [simp]: "isspace c \<Longrightarrow> words_of (c # s) = words_of s"
  by (subst (1 2) words_of.simps) simp

lemma words_of_word:
  assumes "is_word w" and "s = [] \<or> isspace (hd s)"
  shows "words_of (w @ s) = w # words_of s"
proof -
  obtain c cs where w: "w = c # cs" "\<not> isspace c" "list_all (\<lambda>c. \<not> isspace c) cs"
    using assms(1) by (cases w) (auto simp: is_word_def)
  have d: "dropWhile (\<lambda>c. \<not> isspace c) s = s" "takeWhile (\<lambda>c. \<not> isspace c) s = []"
    using assms(2) by (cases s; auto)+
  have "\<forall>x\<in>set cs. \<not> isspace x" using w(3) by (simp add: list_all_iff)
  then have "takeWhile (\<lambda>c. \<not> isspace c) (cs @ s) = cs"
    "dropWhile (\<lambda>c. \<not> isspace c) (cs @ s) = s"
    using d by (simp_all add: takeWhile_append2 dropWhile_append2)
  then show ?thesis using w by (subst words_of.simps) simp
qed

lemma words_of_unwords: "\<forall>w\<in>set ws. is_word w \<Longrightarrow> words_of (unwords ws) = ws"
proof (induction ws rule: unwords.induct)
  case (2 w)
  then show ?case using words_of_word [of w "[]"] by simp
next
  case (3 w v ws)
  then show ?case using words_of_word [of w "CHR '' '' # unwords (v # ws)"] by simp
qed simp

lemma is_word_print_unsigned [simp]: "is_word (print_unsigned w)"
  by (auto simp: is_word_def print_unsigned_def list_all_iff
      dest!: digits_of_digits [rotated 2] dest: digits_not_space)

subsection \<open>\<open>strtok_r\<close>\<close>

text \<open>
  \<open>strtok_r\<close> on a text yields the first token and the text left for the next call.  A text
  without a token leaves the empty text.
\<close>

definition strtok :: "string \<Rightarrow> string \<Rightarrow> string option \<times> string" where
  "strtok seps s =
     (case dropWhile (\<lambda>c. c \<in> set seps) s of
        [] \<Rightarrow> (None, [])
      | s' \<Rightarrow> (Some (takeWhile (\<lambda>c. c \<notin> set seps) s'),
               drop 1 (dropWhile (\<lambda>c. c \<notin> set seps) s')))"

definition is_token :: "string \<Rightarrow> string \<Rightarrow> bool" where
  "is_token seps w = (w \<noteq> [] \<and> list_all (\<lambda>c. c \<notin> set seps) w)"

lemma strtok_token:
  assumes "is_token seps w" and "s = [] \<or> hd s \<in> set seps"
  shows "strtok seps (w @ s) = (Some w, drop 1 s)"
proof -
  obtain c cs where w: "w = c # cs" "c \<notin> set seps" "\<forall>x\<in>set cs. x \<notin> set seps"
    using assms(1) by (cases w) (auto simp: is_token_def list_all_iff)
  have d: "dropWhile (\<lambda>c. c \<notin> set seps) s = s" "takeWhile (\<lambda>c. c \<notin> set seps) s = []"
    using assms(2) by (cases s; auto)+
  have "takeWhile (\<lambda>c. c \<notin> set seps) (cs @ s) = cs"
    "dropWhile (\<lambda>c. c \<notin> set seps) (cs @ s) = s"
    using d w(3) by (simp_all add: takeWhile_append2 dropWhile_append2)
  then show ?thesis using w by (simp add: strtok_def)
qed

lemma strtok_skip: "c \<in> set seps \<Longrightarrow> strtok seps (c # s) = strtok seps s"
  by (simp add: strtok_def)

lemma strtok_Nil [simp]: "strtok seps [] = (None, [])"
  by (simp add: strtok_def)

lemma strtok_is_token: "strtok seps s = (Some w, s') \<Longrightarrow> is_token seps w"
  by (auto simp: strtok_def is_token_def list_all_iff dest: dropWhile_nonempty_hd set_takeWhileD
      split: list.splits)

subsection \<open>\<open>strtol\<close> and \<open>strtoul\<close>\<close>

text \<open>
  The common part of \<open>strtol\<close>, \<open>strtoul\<close> and \<open>strtoull\<close>: white space, a sign, for base
  16 a prefix \<open>0x\<close> that a digit follows, then the longest run of digits.  No digit means no
  conversion: the value is zero and the end pointer is the start of the text.
  \<open>long\<close> and \<open>unsigned long\<close> have 64 bits.
\<close>

definition scan_number :: "nat \<Rightarrow> string \<Rightarrow> (bool \<times> nat \<times> string) option" where
  "scan_number base text =
     (let s = dropWhile isspace text;
          negative = (s \<noteq> [] \<and> hd s = CHR ''-'');
          s = (if s \<noteq> [] \<and> (hd s = CHR ''-'' \<or> hd s = CHR ''+'') then tl s else s);
          s = (if base = 16 \<and> 2 < length s \<and> s ! 0 = CHR ''0'' \<and>
                  (s ! 1 = CHR ''x'' \<or> s ! 1 = CHR ''X'') \<and> is_digit 16 (s ! 2)
               then drop 2 s else s);
          ds = takeWhile (is_digit base) s in
      if ds = [] then None
      else Some (negative, digits_value base ds, dropWhile (is_digit base) s))"

definition LONG_MAX :: int where "LONG_MAX = 2 ^ 63 - 1"

definition strtol :: "nat \<Rightarrow> string \<Rightarrow> int \<times> string" where
  "strtol base text =
     (case scan_number base text of
        None \<Rightarrow> (0, text)
      | Some (negative, n, after) \<Rightarrow>
          (max (- LONG_MAX - 1) (min LONG_MAX (if negative then - int n else int n)), after))"

definition strtoull :: "nat \<Rightarrow> string \<Rightarrow> u64 \<times> string" where
  "strtoull base text =
     (case scan_number base text of
        None \<Rightarrow> (0, text)
      | Some (negative, n, after) \<Rightarrow>
          (if 2 ^ 64 \<le> n then - 1 else if negative then - of_nat n else of_nat n, after))"

definition hex :: "nat \<Rightarrow> string" where
  "hex n = digits_of 16 n"

lemma digits_of_hd: "digits_of base n = c # cs \<Longrightarrow> 1 < base \<Longrightarrow> base \<le> 16 \<Longrightarrow> is_digit base c"
  using digits_of_digits [of base c n] by simp

lemma is_digit_not_sign:
  "is_digit base c \<Longrightarrow> c \<noteq> CHR ''-'' \<and> c \<noteq> CHR ''+'' \<and> c \<noteq> CHR ''x'' \<and> c \<noteq> CHR ''X''"
  by (auto simp: is_digit_def digit_value_def Let_def)

text \<open>Digits are read up to the first character that is not one.\<close>

lemma scan_digit_text:
  assumes "ds \<noteq> []" and digits: "\<forall>c\<in>set ds. is_digit base c"
    and "after = [] \<or> \<not> is_digit base (hd after) \<and> hd after \<noteq> CHR ''x'' \<and> hd after \<noteq> CHR ''X''"
  shows "scan_number base (ds @ after) = Some (False, digits_value base ds, after)"
proof -
  obtain c cs where d: "ds = c # cs" using assms(1) by (cases ds) auto
  have c: "is_digit base c" and cs: "\<And>x. x \<in> set cs \<Longrightarrow> is_digit base x" using digits d by auto
  let ?s = "ds @ after"
  have sp: "dropWhile isspace ?s = ?s"
    using digits_not_space [OF c] d by simp
  have nox: "\<not> (2 < length ?s \<and> (?s ! 1 = CHR ''x'' \<or> ?s ! 1 = CHR ''X''))"
  proof (cases cs)
    case Nil
    with d assms(3) show ?thesis by (cases after) auto
  next
    case (Cons x xs)
    with cs [of x] is_digit_not_sign [of base x] d show ?thesis by auto
  qed
  have tw: "takeWhile (is_digit base) after = []" "dropWhile (is_digit base) after = after"
    using assms(3) by (cases after; auto)+
  have "takeWhile (is_digit base) ?s = ds" "dropWhile (is_digit base) ?s = after"
    using tw digits by (simp_all add: takeWhile_append2 dropWhile_append2)
  then show ?thesis
    using sp nox is_digit_not_sign [OF c] d by (auto simp: scan_number_def Let_def)
qed

text \<open>A printed number is read back.\<close>

lemma scan_digits:
  assumes "1 < base" and "base \<le> 16"
    and "after = [] \<or> \<not> is_digit base (hd after) \<and> hd after \<noteq> CHR ''x'' \<and> hd after \<noteq> CHR ''X''"
  shows "scan_number base (digits_of base n @ after) = Some (False, n, after)"
  using scan_digit_text [of "digits_of base n" base after] digits_of_digits [OF assms(1,2)]
    digits_of_value [OF assms(1,2), of n] assms(3) by auto

text \<open>Zeros in front, as \<open>printf\<close> pads a number with them, change nothing.\<close>

definition padded :: "nat \<Rightarrow> string \<Rightarrow> string" where
  "padded width s = replicate (width - length s) (CHR ''0'') @ s"

lemma digits_value_zeros: "digits_value base (replicate k (CHR ''0'') @ s) = digits_value base s"
proof -
  have "foldl (\<lambda>n c. base * n + the (digit_value c)) 0 (replicate k (CHR ''0'')) = 0"
    by (induction k) (simp_all add: digit_value_def)
  then show ?thesis by (simp add: digits_value_def)
qed

lemma padded_digits:
  assumes "1 < base" and "base \<le> 16" and "c \<in> set (padded width (digits_of base n))"
  shows "is_digit base c"
  using assms digits_of_digits [OF assms(1,2)] by (auto simp: padded_def is_digit_def digit_value_def)

lemma scan_padded:
  assumes "1 < base" and "base \<le> 16"
    and "after = [] \<or> \<not> is_digit base (hd after) \<and> hd after \<noteq> CHR ''x'' \<and> hd after \<noteq> CHR ''X''"
  shows "scan_number base (padded width (digits_of base n) @ after) = Some (False, n, after)"
proof -
  have "padded width (digits_of base n) \<noteq> []" by (simp add: padded_def)
  moreover have "digits_value base (padded width (digits_of base n)) = n"
    using digits_of_value [OF assms(1,2)] by (simp add: padded_def digits_value_zeros)
  ultimately show ?thesis
    using scan_digit_text [of "padded width (digits_of base n)" base after] padded_digits [OF assms(1,2)] assms(3) by auto
qed

lemma strtoull_digits:
  "1 < base \<Longrightarrow> base \<le> 16 \<Longrightarrow>
     after = [] \<or> \<not> is_digit base (hd after) \<and> hd after \<noteq> CHR ''x'' \<and> hd after \<noteq> CHR ''X'' \<Longrightarrow>
     strtoull base (digits_of base n @ after) = (if 2 ^ 64 \<le> n then - 1 else of_nat n, after)"
  by (simp add: strtoull_def scan_digits)

lemma strtoull_padded:
  "1 < base \<Longrightarrow> base \<le> 16 \<Longrightarrow>
     after = [] \<or> \<not> is_digit base (hd after) \<and> hd after \<noteq> CHR ''x'' \<and> hd after \<noteq> CHR ''X'' \<Longrightarrow>
     strtoull base (padded width (digits_of base n) @ after) = (if 2 ^ 64 \<le> n then - 1 else of_nat n, after)"
  by (simp add: strtoull_def scan_padded)

lemma strtol_digits:
  "1 < base \<Longrightarrow> base \<le> 16 \<Longrightarrow>
     after = [] \<or> \<not> is_digit base (hd after) \<and> hd after \<noteq> CHR ''x'' \<and> hd after \<noteq> CHR ''X'' \<Longrightarrow>
     strtol base (digits_of base n @ after) = (min LONG_MAX (int n), after)"
  by (simp add: strtol_def scan_digits LONG_MAX_def)

lemma strtoull_hex: "strtoull 16 (hex n) = (if 2 ^ 64 \<le> n then - 1 else of_nat n, [])"
  using strtoull_digits [of 16 "[]" n] by (simp add: hex_def)

lemma strtol_hex: "strtol 16 (hex n) = (min LONG_MAX (int n), [])"
  using strtol_digits [of 16 "[]" n] by (simp add: hex_def)

lemma hex_token: "list_all (\<lambda>c. \<not> is_digit 16 c) seps \<Longrightarrow> is_token seps (hex n)"
  using digits_of_digits [of 16 _ n] by (auto simp: is_token_def hex_def list_all_iff)

lemma strtol_bounds: "- LONG_MAX - 1 \<le> fst (strtol base s) \<and> fst (strtol base s) \<le> LONG_MAX"
  by (auto simp: strtol_def LONG_MAX_def split: option.split)

text \<open>Rules that evaluate the functions above on concrete text.\<close>

lemmas text_eval = words_of.simps isspace_def read_unsigned_def is_digit_def digit_value_def
  digits_value_def print_unsigned_def digits_of.simps

lemmas number_eval = strtol_def strtoull_def scan_number_def LONG_MAX_def

end
