(* ===== verification/Tokenize.thy ===== *)
theory Tokenize
  imports C_String
begin

text \<open>
  \<open>Tokenize\<close> (\<open>processor/tokenize.cc\<close>): splits a line of a symbol file into at most
  \<open>max_tokens\<close> fields, the last of which is the rest of the line.  A negative
  \<open>max_tokens\<close> (\<open>reserve\<close> throws) is outside the model; the callers pass constants.
\<close>

text \<open>The loop, on the token, the text left for \<open>strtok_r\<close>, \<open>remaining\<close> and \<open>tokens\<close>.\<close>

function tokenize_loop ::
  "string \<Rightarrow> string option \<Rightarrow> string \<Rightarrow> int \<Rightarrow> string list \<Rightarrow> string \<times> int \<times> string list" where
  "tokenize_loop separators token save_ptr remaining tokens =
     (case token of
        None \<Rightarrow> (save_ptr, remaining, tokens)
      | Some t \<Rightarrow>
          if remaining - 1 > 0 then
            (if remaining - 1 > 1 then
               (case strtok separators save_ptr of (token', save_ptr') \<Rightarrow>
                  tokenize_loop separators token' save_ptr' (remaining - 1) (tokens @ [t]))
             else tokenize_loop separators token save_ptr (remaining - 1) (tokens @ [t]))
          else (save_ptr, remaining - 1, tokens))"
  by pat_completeness auto
termination by (relation "measure (\<lambda>(_, _, _, remaining, _). nat remaining)") auto

declare tokenize_loop.simps [simp del]

definition Tokenize :: "string \<Rightarrow> string \<Rightarrow> int \<Rightarrow> bool \<times> string list" where
  "Tokenize line separators max_tokens =
     (case strtok separators line of (token, save_ptr) \<Rightarrow>
        (case tokenize_loop separators token save_ptr max_tokens [] of
           (save_ptr, remaining, tokens) \<Rightarrow>
             let tokens = (if remaining = 0
                           then (case strtok [CHR 0x0D, CHR 0x0A] save_ptr of
                                   (None, _) \<Rightarrow> tokens
                                 | (Some t, _) \<Rightarrow> tokens @ [t])
                           else tokens) in
             (int (length tokens) = max_tokens mod 2 ^ 32, tokens)))"

subsection \<open>Fields\<close>

text \<open>Fields joined by a separator, then the text that ends the line.\<close>

fun join_fields :: "char \<Rightarrow> string list \<Rightarrow> string" where
  "join_fields c [] = []"
| "join_fields c [f] = f"
| "join_fields c (f # g # fs) = f @ c # join_fields c (g # fs)"

lemma join_fields_Cons: "fs \<noteq> [] \<Longrightarrow> join_fields c (f # fs) = f @ c # join_fields c fs"
  by (cases fs) auto

abbreviation newline :: string where
  "newline \<equiv> [CHR 0x0D, CHR 0x0A]"

lemma tokenize_loop_fields:
  assumes "c \<in> set separators" and "\<forall>f\<in>set fs. is_token separators f"
    and "is_token separators t" and "1 < n"
    and "length fs + 2 = nat n"
  shows "tokenize_loop separators (Some t) (join_fields c (fs @ [rest]) ) n tokens =
    (rest, 0, tokens @ t # fs)"
  using assms
proof (induction fs arbitrary: t n tokens)
  case Nil
  then have n: "n = 2" by auto
  show ?case unfolding n
    by (subst tokenize_loop.simps) (simp, subst tokenize_loop.simps, simp)
next
  case (Cons f fs)
  then have n: "n - 1 > 1" "length fs + 2 = nat (n - 1)" by auto
  have "strtok separators (join_fields c ((f # fs) @ [rest])) = (Some f, join_fields c (fs @ [rest]))"
    using Cons.prems by (simp add: join_fields_Cons strtok_token)
  then have "tokenize_loop separators (Some t) (join_fields c ((f # fs) @ [rest])) n tokens =
      tokenize_loop separators (Some f) (join_fields c (fs @ [rest])) (n - 1) (tokens @ [t])"
    using n(1) by (subst tokenize_loop.simps) simp
  also have "\<dots> = (rest, 0, tokens @ t # f # fs)"
    using Cons.IH [of f "n - 1" "tokens @ [t]"] Cons.prems n by simp
  finally show ?case .
qed

lemma tokenize_loop_short:
  assumes "c \<in> set separators" and "\<forall>f\<in>set fs. is_token separators f"
    and "length fs + 1 < nat n"
  shows "\<exists>s k. tokenize_loop separators (Some t) (join_fields c fs) n tokens = (s, k, tokens @ t # fs) \<and>
     (0 < k \<or> s = [])"
  using assms
proof (induction fs arbitrary: t n tokens)
  case Nil
  show ?case
  proof (cases "n - 1 > 1")
    case True
    then show ?thesis
      by (subst tokenize_loop.simps) (simp, subst tokenize_loop.simps, simp)
  next
    case False
    with Nil have "n = 2" by simp
    then show ?thesis
      by (subst tokenize_loop.simps) (simp, subst tokenize_loop.simps, simp)
  qed
next
  case (Cons f fs)
  then have n: "n - 1 > 1" "length fs + 1 < nat (n - 1)" by auto
  have "strtok separators (join_fields c (f # fs)) = (Some f, join_fields c fs)"
    using Cons.prems by (cases fs) (simp_all add: strtok_token [of _ _ "[]", simplified] strtok_token)
  then have "tokenize_loop separators (Some t) (join_fields c (f # fs)) n tokens =
      tokenize_loop separators (Some f) (join_fields c fs) (n - 1) (tokens @ [t])"
    using n(1) by (subst tokenize_loop.simps) simp
  then show ?case
    using Cons.IH [of "n - 1" f "tokens @ [t]"] Cons.prems n by auto
qed

lemma Tokenize_join:
  assumes "c \<in> set separators" and "\<forall>f\<in>set (f0 # fs). is_token separators f"
    and "is_token newline rest" and "nl = [] \<or> hd nl \<in> set newline"
    and "length fs + 2 < 2 ^ 31"
  shows "Tokenize (join_fields c (f0 # fs @ [rest @ nl])) separators (int (length fs + 2)) =
    (True, f0 # fs @ [rest])"
proof -
  have "strtok separators (join_fields c (f0 # fs @ [rest @ nl])) =
      (Some f0, join_fields c (fs @ [rest @ nl]))"
    using assms(1,2) by (simp add: join_fields_Cons strtok_token)
  moreover have "tokenize_loop separators (Some f0) (join_fields c (fs @ [rest @ nl]))
      (int (length fs + 2)) [] = (rest @ nl, 0, [] @ f0 # fs)"
    using assms(1,2) by (intro tokenize_loop_fields) auto
  moreover have "strtok newline (rest @ nl) = (Some rest, drop 1 nl)"
    using assms(3,4) by (intro strtok_token) auto
  moreover have "(2 + int (length fs)) mod 4294967296 = 2 + int (length fs)"
    using assms(5) by simp
  ultimately show ?thesis by (simp add: Tokenize_def)
qed

text \<open>A line of fewer fields gives them all and the result \<open>false\<close>.\<close>

lemma Tokenize_short:
  assumes "c \<in> set separators" and "\<forall>f\<in>set fs. is_token separators f"
    and "int (length fs) < max_tokens" and "1 < max_tokens" and "max_tokens < 2 ^ 31"
  shows "Tokenize (join_fields c fs) separators max_tokens = (False, fs)"
proof (cases fs)
  case Nil
  with assms(4,5) show ?thesis
    by (simp add: Tokenize_def tokenize_loop.simps)
next
  case (Cons f fs')
  have "strtok separators (join_fields c fs) = (Some f, join_fields c fs')"
    using assms(1,2) Cons
    by (cases fs') (simp_all add: strtok_token [of _ _ "[]", simplified] strtok_token)
  moreover have "length fs' + 1 < nat max_tokens" using assms(3) Cons by (simp add: zless_nat_eq_int_zless)
  then obtain s k where
    "tokenize_loop separators (Some f) (join_fields c fs') max_tokens [] = (s, k, [] @ f # fs')"
    "0 < k \<or> s = []"
    using tokenize_loop_short [of c separators fs' max_tokens f "[]"] assms(1,2) Cons by auto
  moreover have "max_tokens mod 4294967296 = max_tokens" using assms(4,5) by simp
  ultimately show ?thesis using assms(3) Cons by (auto simp: Tokenize_def)
qed

text \<open>
  A line of exactly \<open>max_tokens\<close> fields comes back field by field.  The last field may
  hold separators and ends at the end of the line.
\<close>

theorem Tokenize_fields:
  assumes "c \<in> set separators" and "\<forall>f\<in>set (f0 # fs). is_token separators f"
    and "is_token newline rest" and "nl = [] \<or> hd nl \<in> set newline"
    and "length fs + 2 < 2 ^ 31"
  shows "Tokenize (join_fields c (f0 # fs @ [rest @ nl])) separators (int (length fs + 2)) =
    (True, f0 # fs @ [rest])"
  using assms by (rule Tokenize_join)

theorem Tokenize_fields_witness:
  "Tokenize ''1000 10 23 foo bar'' '' '' 4 = (True, [''1000'', ''10'', ''23'', ''foo bar''])"
  using Tokenize_fields [of "CHR '' ''" "'' ''" "''1000''" "[''10'', ''23'']" "''foo bar''" "[]"]
  by (simp add: is_token_def)

end
