(* ===== verification/Windows_Frame_Info.thy ===== *)
theory Windows_Frame_Info
  imports Tokenize
begin

text \<open>
  \<open>WindowsFrameInfo\<close> (\<open>processor/windows_frame_info.h\<close>): the frame data of a
  \<open>STACK WIN\<close> record and its parser.
\<close>

datatype StackInfoTypes =
  STACK_INFO_FPO | STACK_INFO_TRAP | STACK_INFO_TSS | STACK_INFO_STANDARD
| STACK_INFO_FRAME_DATA | STACK_INFO_UNKNOWN

definition STACK_INFO_LAST :: int where "STACK_INFO_LAST = 5"

definition stack_info_type :: "int \<Rightarrow> StackInfoTypes" where
  "stack_info_type t =
     (if t = 0 then STACK_INFO_FPO else if t = 1 then STACK_INFO_TRAP
      else if t = 2 then STACK_INFO_TSS else if t = 3 then STACK_INFO_STANDARD
      else if t = 4 then STACK_INFO_FRAME_DATA else STACK_INFO_UNKNOWN)"

definition VALID_NONE :: u32 where "VALID_NONE = 0"
definition VALID_PARAMETER_SIZE :: u32 where "VALID_PARAMETER_SIZE = 1"
definition VALID_ALL :: u32 where "VALID_ALL = - 1"

record WindowsFrameInfo =
  type_of :: StackInfoTypes
  valid :: u32
  prolog_size :: u32
  epilog_size :: u32
  parameter_size :: u32
  saved_register_size :: u32
  local_size :: u32
  max_stack_size :: u32
  allocates_base_pointer :: bool
  program_string :: string

definition new_WindowsFrameInfo :: WindowsFrameInfo where
  "new_WindowsFrameInfo = \<lparr>type_of = STACK_INFO_UNKNOWN, valid = VALID_NONE, prolog_size = 0,
     epilog_size = 0, parameter_size = 0, saved_register_size = 0, local_size = 0,
     max_stack_size = 0, allocates_base_pointer = False, program_string = []\<rparr>"

text \<open>The constructor with arguments; \<open>set_allocates_base_pointer\<close> is an \<open>int\<close> there.\<close>

definition make_WindowsFrameInfo ::
  "StackInfoTypes \<Rightarrow> u32 \<Rightarrow> u32 \<Rightarrow> u32 \<Rightarrow> u32 \<Rightarrow> u32 \<Rightarrow> u32 \<Rightarrow> u32 \<Rightarrow> string \<Rightarrow> WindowsFrameInfo" where
  "make_WindowsFrameInfo t prolog epilog params saved locals max_stack allocates program =
     \<lparr>type_of = t, valid = VALID_ALL, prolog_size = prolog, epilog_size = epilog,
      parameter_size = params, saved_register_size = saved, local_size = locals,
      max_stack_size = max_stack, allocates_base_pointer = (allocates \<noteq> 0),
      program_string = program\<rparr>"

definition WindowsFrameInfo_CopyFrom :: "WindowsFrameInfo \<Rightarrow> WindowsFrameInfo \<Rightarrow> WindowsFrameInfo" where
  "WindowsFrameInfo_CopyFrom that this = this\<lparr>type_of := type_of that, valid := valid that,
     prolog_size := prolog_size that, epilog_size := epilog_size that,
     parameter_size := parameter_size that, saved_register_size := saved_register_size that,
     local_size := local_size that, max_stack_size := max_stack_size that,
     allocates_base_pointer := allocates_base_pointer that,
     program_string := program_string that\<rparr>"

definition WindowsFrameInfo_Clear :: "WindowsFrameInfo \<Rightarrow> WindowsFrameInfo" where
  "WindowsFrameInfo_Clear this =
     this\<lparr>type_of := STACK_INFO_UNKNOWN, valid := VALID_NONE, program_string := []\<rparr>"

definition kWhitespace :: string where
  "kWhitespace = [CHR '' '', CHR 0x0D, CHR 0x0A]"

text \<open>The conversion of a \<open>long\<close> to an \<open>int\<close>, and of an \<open>unsigned long\<close> to 32 bits.\<close>

definition int_of_long :: "int \<Rightarrow> int" where
  "int_of_long v = signed_take_bit 31 v"

definition strtoul32 :: "string \<Rightarrow> u32" where
  "strtoul32 token = ucast (fst (strtoull 16 token))"

text \<open>
  \<open>ParseFromString\<close> yields the frame info with \<open>type\<close>, \<open>rva\<close> and
  \<open>code_size\<close>, or nothing for NULL.
\<close>

definition ParseFromString :: "string \<Rightarrow> (WindowsFrameInfo \<times> int \<times> u64 \<times> u64) option" where
  "ParseFromString str =
     (case Tokenize str kWhitespace 11 of (ok, tokens) \<Rightarrow>
        if \<not> ok then None
        else
          let t = int_of_long (fst (strtol 16 (tokens ! 0))) in
          if t < 0 \<or> STACK_INFO_LAST - 1 < t then None
          else
            let rva = fst (strtoull 16 (tokens ! 1));
                code_size = fst (strtoull 16 (tokens ! 2));
                has_program_string = strtoul32 (tokens ! 9);
                program = (if has_program_string \<noteq> 0 then tokens ! 10 else []);
                allocates = (if has_program_string \<noteq> 0 then 0 else strtoul32 (tokens ! 10)) in
            Some (make_WindowsFrameInfo (stack_info_type t)
                    (strtoul32 (tokens ! 3)) (strtoul32 (tokens ! 4)) (strtoul32 (tokens ! 5))
                    (strtoul32 (tokens ! 6)) (strtoul32 (tokens ! 7)) (strtoul32 (tokens ! 8))
                    allocates program,
                  t, rva, code_size))"

subsection \<open>Printing and parsing\<close>

text \<open>The line of a record in the format that \<open>docs/symbol_files.md\<close> describes.\<close>

definition type_number :: "StackInfoTypes \<Rightarrow> nat" where
  "type_number t = (case t of STACK_INFO_FPO \<Rightarrow> 0 | STACK_INFO_TRAP \<Rightarrow> 1 | STACK_INFO_TSS \<Rightarrow> 2
     | STACK_INFO_STANDARD \<Rightarrow> 3 | STACK_INFO_FRAME_DATA \<Rightarrow> 4 | STACK_INFO_UNKNOWN \<Rightarrow> 5)"

definition stack_win_text :: "WindowsFrameInfo \<Rightarrow> u64 \<Rightarrow> u64 \<Rightarrow> string" where
  "stack_win_text f rva code_size = join_fields (CHR '' '')
     [hex (type_number (type_of f)), hex (unat rva), hex (unat code_size),
      hex (unat (prolog_size f)), hex (unat (epilog_size f)), hex (unat (parameter_size f)),
      hex (unat (saved_register_size f)), hex (unat (local_size f)), hex (unat (max_stack_size f)),
      if program_string f = [] then ''0'' else ''1'',
      if program_string f = [] then (if allocates_base_pointer f then ''1'' else ''0'')
      else program_string f]"

lemma strtoull_hex_u64 [simp]: "fst (strtoull 16 (hex (unat (w :: u64)))) = w"
proof -
  have "unat w < 2 ^ LENGTH(64)" by (rule unsigned_less)
  then show ?thesis by (simp add: strtoull_hex)
qed

lemma strtoul32_hex [simp]: "strtoul32 (hex (unat (w :: u32))) = w"
proof -
  have "unat w < 2 ^ LENGTH(32)" by (rule unsigned_less)
  then have "unat (ucast (of_nat (unat w) :: u64) :: u32) = unat w"
    by (simp add: unsigned_ucast_eq unsigned_of_nat take_bit_nat_eq_self take_bit_word_eq_self)
  then have "(ucast (of_nat (unat w) :: u64) :: u32) = w" by (simp only: word_unat_eq_iff)
  with \<open>unat w < 2 ^ LENGTH(32)\<close> show ?thesis by (simp add: strtoul32_def strtoull_hex)
qed

lemma hex_is_token [simp]: "is_token kWhitespace (hex n)" "is_token newline (hex n)"
  by (auto intro!: hex_token simp: kWhitespace_def is_digit_def digit_value_def)

lemma type_number_roundtrip:
  assumes "t \<noteq> STACK_INFO_UNKNOWN"
  shows "int_of_long (fst (strtol 16 (hex (type_number t)))) = int (type_number t) \<and>
    type_number t \<le> 4 \<and> stack_info_type (int (type_number t)) = t"
  using assms
  by (cases t) (simp_all add: strtol_hex LONG_MAX_def int_of_long_def type_number_def stack_info_type_def
      signed_take_bit_eq_if_positive)

text \<open>
  Parsing the text of a \<open>STACK WIN\<close> record gives back the frame info, the type, the
  address and the size it was written from; with a program string the base-pointer flag is
  not kept, without one the flag is.
\<close>

theorem ParseFromString_text:
  assumes "type_of f \<noteq> STACK_INFO_UNKNOWN" and "valid f = VALID_ALL"
    and "program_string f = [] \<or> is_token newline (program_string f) \<and> \<not> allocates_base_pointer f"
  shows "ParseFromString (stack_win_text f rva code_size) =
    Some (f, int (type_number (type_of f)), rva, code_size)"
proof -
  define final where "final = (if program_string f = []
      then (if allocates_base_pointer f then ''1'' else ''0'') else program_string f)"
  define flag where "flag = (if program_string f = [] then ''0'' else ''1'')"
  have final: "is_token newline final" using assms(3) by (auto simp: is_token_def final_def)
  have flag: "is_token kWhitespace flag" by (auto simp: is_token_def kWhitespace_def flag_def)
  have blank: "CHR '' '' \<in> set kWhitespace" by (simp add: kWhitespace_def)
  have tok: "Tokenize (stack_win_text f rva code_size) kWhitespace 11 =
      (True, [hex (type_number (type_of f)), hex (unat rva), hex (unat code_size),
      hex (unat (prolog_size f)), hex (unat (epilog_size f)), hex (unat (parameter_size f)),
      hex (unat (saved_register_size f)), hex (unat (local_size f)), hex (unat (max_stack_size f)),
      flag, final])"
    unfolding stack_win_text_def flag_def [symmetric] final_def [symmetric]
    using Tokenize_join [OF blank, of "hex (type_number (type_of f))"
        "[hex (unat rva), hex (unat code_size),
      hex (unat (prolog_size f)), hex (unat (epilog_size f)), hex (unat (parameter_size f)),
      hex (unat (saved_register_size f)), hex (unat (local_size f)), hex (unat (max_stack_size f)),
      flag]" final "[]"] final flag
    by simp
  have flags: "strtoul32 ''0'' = 0" "strtoul32 ''1'' = 1"
    by (simp_all add: strtoul32_def number_eval text_eval)
  have t: "int_of_long (fst (strtol 16 (hex (type_number (type_of f))))) = int (type_number (type_of f))"
    "type_number (type_of f) \<le> 4" "stack_info_type (int (type_number (type_of f))) = type_of f"
    using type_number_roundtrip [OF assms(1)] by auto
  show ?thesis
    using assms(2,3) t
    by (auto simp: ParseFromString_def tok flags flag_def final_def STACK_INFO_LAST_def make_WindowsFrameInfo_def Let_def)
qed

definition sample_frame_info :: WindowsFrameInfo where
  "sample_frame_info = make_WindowsFrameInfo STACK_INFO_FRAME_DATA 1 0 12 4 16 0 0 ''$eip 4 + ^ =''"

theorem ParseFromString_text_witness:
  "ParseFromString ''4 1000 2a 1 0 c 4 10 0 1 $eip 4 + ^ ='' = Some (sample_frame_info, 4, 0x1000, 0x2a)"
  using ParseFromString_text [of sample_frame_info "0x1000" "0x2a"]
  by (simp add: sample_frame_info_def make_WindowsFrameInfo_def stack_win_text_def type_number_def
      hex_def digits_of.simps is_token_def)

end
