(* ===== verification/Symbol_Parse_Helper.thy ===== *)
theory Symbol_Parse_Helper
  imports Windows_Frame_Info
begin

text \<open>
  \<open>SymbolParseHelper\<close> (\<open>processor/basic_source_line_resolver.cc\<close>): the parsers of
  single \<open>FILE\<close>, \<open>FUNC\<close>, line and \<open>PUBLIC\<close> records of a symbol file.  A result
  \<open>false\<close> is \<open>None\<close>.  A \<open>long\<close> is an \<open>int\<close> of HOL within its bounds.
\<close>

definition TokenizeWithOptionalField ::
  "string \<Rightarrow> string \<Rightarrow> string \<Rightarrow> int \<Rightarrow> bool \<times> string list" where
  "TokenizeWithOptionalField line optional_field separators max_tokens =
     (case Tokenize line separators (max_tokens - 1) of (ok, tokens) \<Rightarrow>
        if \<not> ok then (False, tokens)
        else if hd tokens = optional_field then
          (case Tokenize (last tokens) separators 2 of (ok2, last_tokens) \<Rightarrow>
             if \<not> ok2 then (False, tokens)
             else (True, butlast tokens @ [last_tokens ! 0, last_tokens ! 1]))
        else (True, tokens))"

definition IsValidAfterNumber :: "string \<Rightarrow> bool" where
  "IsValidAfterNumber after_number = (after_number = [] \<or> hd after_number \<in> set kWhitespace)"

definition Helper_ParseFile :: "string \<Rightarrow> (int \<times> string) option" where
  "Helper_ParseFile file_line =
     (case Tokenize (drop 5 file_line) kWhitespace 2 of (ok, tokens) \<Rightarrow>
        if \<not> ok then None
        else (case strtol 10 (tokens ! 0) of (index, after_number) \<Rightarrow>
          if \<not> IsValidAfterNumber after_number \<or> index < 0 \<or> index = LONG_MAX then None
          else Some (index, tokens ! 1)))"

definition Helper_ParseFunction :: "string \<Rightarrow> (bool \<times> u64 \<times> u64 \<times> int \<times> string) option" where
  "Helper_ParseFunction function_line =
     (case TokenizeWithOptionalField (drop 5 function_line) ''m'' kWhitespace 5 of (ok, tokens) \<Rightarrow>
        if \<not> ok then None
        else
          let is_multiple = (tokens ! 0 = ''m'');
              next_token = (if is_multiple then 1 else 0) in
          (case strtoull 16 (tokens ! next_token) of (address, after_number) \<Rightarrow>
             if \<not> IsValidAfterNumber after_number \<or> address = - 1 then None
             else
               (case strtoull 16 (tokens ! (next_token + 1)) of (sz, after_number) \<Rightarrow>
                  if \<not> IsValidAfterNumber after_number \<or> sz = - 1 then None
                  else
                    (case strtol 16 (tokens ! (next_token + 2)) of (stack_param_size, after_number) \<Rightarrow>
                       if \<not> IsValidAfterNumber after_number \<or> stack_param_size = LONG_MAX \<or>
                          stack_param_size < 0
                       then None
                       else Some (is_multiple, address, sz, stack_param_size,
                                  tokens ! (next_token + 3))))))"

definition Helper_ParseLine :: "string \<Rightarrow> (u64 \<times> u64 \<times> int \<times> int) option" where
  "Helper_ParseLine line_line =
     (case Tokenize line_line kWhitespace 4 of (ok, tokens) \<Rightarrow>
        if \<not> ok then None
        else
          (case strtoull 16 (tokens ! 0) of (address, after_number) \<Rightarrow>
             if \<not> IsValidAfterNumber after_number \<or> address = - 1 then None
             else
               (case strtoull 16 (tokens ! 1) of (sz, after_number) \<Rightarrow>
                  if \<not> IsValidAfterNumber after_number \<or> sz = - 1 then None
                  else
                    (case strtol 10 (tokens ! 2) of (line_number, after_number) \<Rightarrow>
                       if \<not> IsValidAfterNumber after_number \<or> line_number = LONG_MAX then None
                       else
                         (case strtol 10 (tokens ! 3) of (source_file, after_number) \<Rightarrow>
                            if \<not> IsValidAfterNumber after_number \<or> source_file < 0 \<or>
                               source_file = LONG_MAX then None
                            else if line_number < 0 then None
                            else Some (address, sz, line_number, source_file))))))"

definition Helper_ParsePublicSymbol :: "string \<Rightarrow> (bool \<times> u64 \<times> int \<times> string) option" where
  "Helper_ParsePublicSymbol public_line =
     (case TokenizeWithOptionalField (drop 7 public_line) ''m'' kWhitespace 4 of (ok, tokens) \<Rightarrow>
        if \<not> ok then None
        else
          let is_multiple = (tokens ! 0 = ''m'');
              next_token = (if is_multiple then 1 else 0) in
          (case strtoull 16 (tokens ! next_token) of (address, after_number) \<Rightarrow>
             if \<not> IsValidAfterNumber after_number \<or> address = - 1 then None
             else
               (case strtol 16 (tokens ! (next_token + 1)) of (stack_param_size, after_number) \<Rightarrow>
                  if \<not> IsValidAfterNumber after_number \<or> stack_param_size = LONG_MAX \<or>
                     stack_param_size < 0
                  then None
                  else Some (is_multiple, address, stack_param_size, tokens ! (next_token + 2)))))"

subsection \<open>Fields with an optional first one\<close>

lemma kWhitespace_blank [simp]: "CHR '' '' \<in> set kWhitespace"
  by (simp add: kWhitespace_def)

lemma IsValidAfterNumber_Nil [simp]: "IsValidAfterNumber []"
  by (simp add: IsValidAfterNumber_def)

lemma join_pair: "is_token newline (f @ CHR '' '' # g)"
  if "is_token kWhitespace f" "is_token newline g"
  using that by (auto simp: is_token_def kWhitespace_def list_all_iff)

lemma Tokenize_join_max:
  assumes "\<forall>f\<in>set (f0 # fs). is_token kWhitespace f" and "is_token newline rest"
    and "int (length fs) + 2 = k" and "k < 2 ^ 31"
  shows "Tokenize (join_fields (CHR '' '') (f0 # fs @ [rest])) kWhitespace k = (True, f0 # fs @ [rest])"
proof -
  have k: "int (length fs + 2) = k" using assms(3) by simp
  have "length fs + 2 < 2 ^ 31" using k assms(4) by auto
  from Tokenize_join [OF kWhitespace_blank assms(1,2) _ this, of "[]"] show ?thesis
    unfolding k [symmetric] by simp
qed

lemma join_fields_last2:
  "join_fields c (f0 # fs @ [g @ c # h]) = join_fields c (f0 # fs @ [g, h])"
proof (induction fs arbitrary: f0)
  case (Cons f fs)
  then show ?case by (simp add: join_fields_Cons)
qed simp

lemma optional_absent:
  assumes "\<forall>f\<in>set (f0 # fs). is_token kWhitespace f" and "is_token newline rest"
    and "int (length fs) + 3 = k" and "k < 2 ^ 31" and "f0 \<noteq> field"
  shows "TokenizeWithOptionalField (join_fields (CHR '' '') (f0 # fs @ [rest])) field kWhitespace k =
    (True, f0 # fs @ [rest])"
  using Tokenize_join_max [OF assms(1,2), of "k - 1"] assms(3-)
  by (simp add: TokenizeWithOptionalField_def)

lemma optional_present:
  assumes "\<forall>f\<in>set (f0 # fs @ [g]). is_token kWhitespace f" and "is_token newline rest"
    and "int (length fs) + 3 = k" and "k < 2 ^ 31"
  shows "TokenizeWithOptionalField (join_fields (CHR '' '') (f0 # fs @ [g, rest])) f0 kWhitespace k =
    (True, f0 # fs @ [g, rest])"
proof -
  have g: "is_token kWhitespace g" using assms(1) by simp
  have "Tokenize (join_fields (CHR '' '') (f0 # fs @ [g @ CHR '' '' # rest])) kWhitespace (k - 1) =
      (True, f0 # fs @ [g @ CHR '' '' # rest])"
    using assms join_pair [OF g assms(2)] by (intro Tokenize_join_max) auto
  moreover have "Tokenize (g @ CHR '' '' # rest) kWhitespace 2 = (True, [g, rest])"
    using Tokenize_join_max [of g "[]" rest 2] g assms(2) by simp
  ultimately show ?thesis
    by (simp add: TokenizeWithOptionalField_def join_fields_last2)
qed

subsection \<open>Printing and parsing of the records\<close>

definition func_fields :: "bool \<Rightarrow> string list" where
  "func_fields is_multiple = (if is_multiple then [''m''] else [])"

definition func_text :: "bool \<Rightarrow> u64 \<Rightarrow> u64 \<Rightarrow> nat \<Rightarrow> string \<Rightarrow> string" where
  "func_text is_multiple address sz params name = ''FUNC '' @ join_fields (CHR '' '')
     (func_fields is_multiple @ [hex (unat address), hex (unat sz), hex params, name])"

definition public_text :: "bool \<Rightarrow> u64 \<Rightarrow> nat \<Rightarrow> string \<Rightarrow> string" where
  "public_text is_multiple address params name = ''PUBLIC '' @ join_fields (CHR '' '')
     (func_fields is_multiple @ [hex (unat address), hex params, name])"

definition line_text :: "u64 \<Rightarrow> u64 \<Rightarrow> nat \<Rightarrow> nat \<Rightarrow> string" where
  "line_text address sz line source_file = join_fields (CHR '' '')
     [hex (unat address), hex (unat sz), digits_of 10 line, digits_of 10 source_file]"

definition file_text :: "nat \<Rightarrow> string \<Rightarrow> string" where
  "file_text index name = ''FILE '' @ join_fields (CHR '' '') [digits_of 10 index, name]"

lemma hex_not_m [simp]: "hex n \<noteq> ''m''"
  using digits_of_digits [of 16 "CHR ''m''" n]
  by (auto simp: hex_def is_digit_def digit_value_def)

lemma m_token [simp]: "is_token kWhitespace ''m''"
  by (simp add: is_token_def kWhitespace_def)

lemma strtoull_hex_u64_pair: "strtoull 16 (hex (unat (w :: u64))) = (w, [])"
  using strtoull_hex_u64 [of w] by (simp add: strtoull_hex)

lemma decimal_token [simp]: "is_token kWhitespace (digits_of 10 n)" "is_token newline (digits_of 10 n)"
proof -
  have "c \<notin> set kWhitespace \<and> c \<notin> set newline" if "c \<in> set (digits_of 10 n)" for c
    using digits_of_digits [of 10 c n] that
    by (auto simp: kWhitespace_def is_digit_def digit_value_def)
  then show "is_token kWhitespace (digits_of 10 n)" "is_token newline (digits_of 10 n)"
    by (auto simp: is_token_def list_all_iff)
qed

lemma strtol_decimal: "strtol 10 (digits_of 10 n) = (min LONG_MAX (int n), [])"
  using strtol_digits [of 10 "[]" n] by simp

lemma ParseFunction_roundtrip:
  assumes "address \<noteq> - 1" and "sz \<noteq> - 1" and "int params < LONG_MAX" and "is_token newline name"
  shows "Helper_ParseFunction (func_text is_multiple address sz params name) =
    Some (is_multiple, address, sz, int params, name)"
proof (cases is_multiple)
  case True
  have "TokenizeWithOptionalField (join_fields (CHR '' '')
      (''m'' # [hex (unat address), hex (unat sz)] @ [hex params, name])) ''m'' kWhitespace 5 =
      (True, ''m'' # [hex (unat address), hex (unat sz)] @ [hex params, name])"
    using assms(4) by (intro optional_present) auto
  with assms True show ?thesis
    by (simp add: Helper_ParseFunction_def func_text_def func_fields_def strtoull_hex_u64_pair
        strtol_hex min_absorb2)
next
  case False
  have "TokenizeWithOptionalField (join_fields (CHR '' '')
      (hex (unat address) # [hex (unat sz), hex params] @ [name])) ''m'' kWhitespace 5 =
      (True, hex (unat address) # [hex (unat sz), hex params] @ [name])"
    using assms(4) by (intro optional_absent) auto
  with assms False show ?thesis
    by (simp add: Helper_ParseFunction_def func_text_def func_fields_def strtoull_hex_u64_pair
        strtol_hex min_absorb2)
qed

text \<open>
  A \<open>FUNC\<close> record, with or without the \<open>m\<close> field, parses to the values it was written
  from, provided that neither number is the greatest of its type, which the parser takes for
  an overflow.
\<close>

theorem ParseFunction_text:
  assumes "address \<noteq> - 1" and "sz \<noteq> - 1" and "int params < LONG_MAX" and "is_token newline name"
  shows "Helper_ParseFunction (func_text is_multiple address sz params name) =
    Some (is_multiple, address, sz, int params, name)"
  using assms by (rule ParseFunction_roundtrip)

theorem ParseFunction_text_witness:
  "Helper_ParseFunction ''FUNC m 1a2b 20 8 f(int, char)'' = Some (True, 0x1a2b, 0x20, 8, ''f(int, char)'')"
  using ParseFunction_text [of "0x1a2b" "0x20" 8 "''f(int, char)''" True]
  by (simp add: func_text_def func_fields_def hex_def digits_of.simps LONG_MAX_def is_token_def)

lemma ParsePublicSymbol_roundtrip:
  assumes "address \<noteq> - 1" and "int params < LONG_MAX" and "is_token newline name"
  shows "Helper_ParsePublicSymbol (public_text is_multiple address params name) =
    Some (is_multiple, address, int params, name)"
proof (cases is_multiple)
  case True
  have "TokenizeWithOptionalField (join_fields (CHR '' '')
      (''m'' # [hex (unat address)] @ [hex params, name])) ''m'' kWhitespace 4 =
      (True, ''m'' # [hex (unat address)] @ [hex params, name])"
    using assms(3) by (intro optional_present) auto
  with assms True show ?thesis
    by (simp add: Helper_ParsePublicSymbol_def public_text_def func_fields_def strtoull_hex_u64_pair
        strtol_hex min_absorb2)
next
  case False
  have "TokenizeWithOptionalField (join_fields (CHR '' '')
      (hex (unat address) # [hex params] @ [name])) ''m'' kWhitespace 4 =
      (True, hex (unat address) # [hex params] @ [name])"
    using assms(3) by (intro optional_absent) auto
  with assms False show ?thesis
    by (simp add: Helper_ParsePublicSymbol_def public_text_def func_fields_def strtoull_hex_u64_pair
        strtol_hex min_absorb2)
qed

lemma ParseRecords_roundtrip:
  assumes "address \<noteq> - 1" and "sz \<noteq> - 1" and "int params < LONG_MAX" and "is_token newline name"
    and "int line < LONG_MAX" and "int source_file < LONG_MAX"
  shows "Helper_ParsePublicSymbol (public_text is_multiple address params name) =
      Some (is_multiple, address, int params, name) \<and>
    Helper_ParseLine (line_text address sz line source_file) =
      Some (address, sz, int line, int source_file) \<and>
    Helper_ParseFile (file_text source_file name) = Some (int source_file, name)"
proof (intro conjI)
  show "Helper_ParsePublicSymbol (public_text is_multiple address params name) =
      Some (is_multiple, address, int params, name)"
    using assms by (intro ParsePublicSymbol_roundtrip)
  have "Tokenize (line_text address sz line source_file) kWhitespace 4 =
      (True, [hex (unat address), hex (unat sz), digits_of 10 line, digits_of 10 source_file])"
    using Tokenize_join_max [of "hex (unat address)" "[hex (unat sz), digits_of 10 line]"
        "digits_of 10 source_file" 4] by (simp add: line_text_def)
  with assms show "Helper_ParseLine (line_text address sz line source_file) =
      Some (address, sz, int line, int source_file)"
    by (simp add: Helper_ParseLine_def strtoull_hex_u64_pair strtol_decimal min_absorb2)
  have "Tokenize (digits_of 10 source_file @ CHR '' '' # name) kWhitespace 2 =
      (True, [digits_of 10 source_file, name])"
    using Tokenize_join_max [of "digits_of 10 source_file" "[]" name 2] assms(4) by simp
  with assms show "Helper_ParseFile (file_text source_file name) = Some (int source_file, name)"
    by (simp add: Helper_ParseFile_def file_text_def strtol_decimal min_absorb2)
qed

text \<open>
  \<open>PUBLIC\<close>, line and \<open>FILE\<close> records parse to the values they were written from.
\<close>

theorem ParseRecords_text:
  assumes "address \<noteq> - 1" and "sz \<noteq> - 1" and "int params < LONG_MAX" and "is_token newline name"
    and "int line < LONG_MAX" and "int source_file < LONG_MAX"
  shows "Helper_ParsePublicSymbol (public_text is_multiple address params name) =
      Some (is_multiple, address, int params, name) \<and>
    Helper_ParseLine (line_text address sz line source_file) =
      Some (address, sz, int line, int source_file) \<and>
    Helper_ParseFile (file_text source_file name) = Some (int source_file, name)"
  using assms by (rule ParseRecords_roundtrip)

theorem ParseRecords_text_witness:
  "Helper_ParsePublicSymbol ''PUBLIC 4f 0 _start'' = Some (False, 0x4f, 0, ''_start'') \<and>
   Helper_ParseLine ''4f 10 42 7'' = Some (0x4f, 0x10, 42, 7) \<and>
   Helper_ParseFile ''FILE 7 _start'' = Some (7, ''_start'')"
  using ParseRecords_text [of "0x4f" "0x10" 0 "''_start''" 42 7 False]
  by (simp add: public_text_def line_text_def file_text_def func_fields_def hex_def digits_of.simps
      LONG_MAX_def is_token_def)

text \<open>Accepted records hold values below the limits that mark an overflow.\<close>

lemma strtol_le: "strtol base s = (v, r) \<Longrightarrow> v \<le> LONG_MAX"
  using strtol_bounds [of base s] by simp

lemma ParseFunction_bounds:
  "Helper_ParseFunction l = Some (m, address, sz, params, name) \<Longrightarrow>
     address \<noteq> - 1 \<and> sz \<noteq> - 1 \<and> 0 \<le> params \<and> params < LONG_MAX"
  by (auto simp: Helper_ParseFunction_def Let_def dest!: strtol_le
      split: prod.split_asm if_split_asm)

end
