(* ===== verification/Std_Map.thy ===== *)
theory Std_Map
  imports Prelude
begin

text \<open>
  The C++ \<open>std::map\<close> as the sources use it: an association list whose keys
  increase strictly.  An iterator is an index into the list, \<open>begin()\<close> is \<open>0\<close> and
  \<open>end()\<close> is the length.  \<open>insert\<close> does not replace an existing entry, assignment
  through \<open>operator[]\<close> does.

  The locale \<open>ordered_index\<close> is the contract the address lookups of the program rely
  on (\<open>lower_bound\<close>, \<open>upper_bound\<close> over increasing keys).  It is interpreted
  here on \<open>std::map\<close>, and in theory \<open>Static_Map\<close> on the serialized map.
\<close>

type_synonym ('k, 'v) smap = "('k \<times> 'v) list"

definition ordered :: "('k::linorder, 'v) smap \<Rightarrow> bool" where
  "ordered m = sorted_wrt (<) (map fst m)"

definition lower_bound :: "('k::linorder, 'v) smap \<Rightarrow> 'k \<Rightarrow> nat" where
  "lower_bound m k = length (takeWhile (\<lambda>p. fst p < k) m)"

definition upper_bound :: "('k::linorder, 'v) smap \<Rightarrow> 'k \<Rightarrow> nat" where
  "upper_bound m k = length (takeWhile (\<lambda>p. fst p \<le> k) m)"

fun smap_insert :: "'k::linorder \<Rightarrow> 'v \<Rightarrow> ('k, 'v) smap \<Rightarrow> ('k, 'v) smap" where
  "smap_insert k v [] = [(k, v)]"
| "smap_insert k v ((k', v') # m) =
     (if k < k' then (k, v) # (k', v') # m
      else if k = k' then (k', v') # m
      else (k', v') # smap_insert k v m)"

fun smap_put :: "'k::linorder \<Rightarrow> 'v \<Rightarrow> ('k, 'v) smap \<Rightarrow> ('k, 'v) smap" where
  "smap_put k v [] = [(k, v)]"
| "smap_put k v ((k', v') # m) =
     (if k < k' then (k, v) # (k', v') # m
      else if k = k' then (k, v) # m
      else (k', v') # smap_put k v m)"

definition smap_erase :: "nat \<Rightarrow> ('k, 'v) smap \<Rightarrow> ('k, 'v) smap" where
  "smap_erase i m = take i m @ drop (Suc i) m"

subsection \<open>Order\<close>

lemma ordered_Nil [simp]: "ordered []"
  by (simp add: ordered_def)

lemma ordered_Cons [simp]:
  "ordered (p # m) = ((\<forall>q\<in>set m. fst p < fst q) \<and> ordered m)"
  by (auto simp: ordered_def)

lemma ordered_append:
  "ordered (m @ m') = (ordered m \<and> ordered m' \<and> (\<forall>p\<in>set m. \<forall>q\<in>set m'. fst p < fst q))"
  by (auto simp: ordered_def sorted_wrt_append)

lemma ordered_nth_less:
  "ordered m \<Longrightarrow> i < j \<Longrightarrow> j < length m \<Longrightarrow> fst (m ! i) < fst (m ! j)"
  using sorted_wrt_nth_less [of "(<)" "map fst m" i j] by (simp add: ordered_def)

lemma ordered_distinct: "ordered m \<Longrightarrow> distinct (map fst m)"
  by (simp add: ordered_def strict_sorted_iff)

lemma ordered_nth_le:
  "ordered m \<Longrightarrow> i \<le> j \<Longrightarrow> j < length m \<Longrightarrow> fst (m ! i) \<le> fst (m ! j)"
  by (cases "i = j") (auto dest: ordered_nth_less [of m i j])

lemma set_smap_insert:
  "set (smap_insert k v m) = (if k \<in> fst ` set m then set m else insert (k, v) (set m))"
  if "ordered m"
  using that by (induction m) (force split: if_splits)+

lemma smap_insert_subset: "set (smap_insert k v m) \<subseteq> insert (k, v) (set m)"
  by (induction m) (auto split: if_splits)

lemma ordered_smap_insert: "ordered m \<Longrightarrow> ordered (smap_insert k v m)"
proof (induction m)
  case (Cons p m)
  then show ?case
    using smap_insert_subset [of k v m] by (cases p) auto
qed simp

lemma map_of_smap_insert:
  "ordered m \<Longrightarrow> map_of (smap_insert k v m) =
     (if k \<in> fst ` set m then map_of m else (map_of m)(k \<mapsto> v))"
proof (induction m)
  case (Cons p m)
  have "k \<notin> fst ` set m" if "k < fst p"
    using that Cons.prems by (auto dest: less_trans)
  with Cons show ?case
    by (cases p) (auto simp: fun_eq_iff)
qed simp

lemma smap_insert_present: "ordered m \<Longrightarrow> k \<in> fst ` set m \<Longrightarrow> smap_insert k v m = m"
  by (induction m) (force split: if_splits)+

lemma smap_put_subset: "set (smap_put k v m) \<subseteq> insert (k, v) (set m)"
  by (induction m) (auto split: if_splits)

lemma ordered_smap_put: "ordered m \<Longrightarrow> ordered (smap_put k v m)"
proof (induction m)
  case (Cons p m)
  then show ?case
    using smap_put_subset [of k v m] by (cases p) auto
qed simp

lemma map_of_smap_put [simp]: "map_of (smap_put k v m) = (map_of m)(k \<mapsto> v)"
  by (induction m) (auto simp: fun_eq_iff)

lemma smap_insert_split:
  assumes "\<forall>p\<in>set xs. fst p < k" and "\<forall>p\<in>set ys. k < fst p"
  shows "smap_insert k v (xs @ ys) = xs @ (k, v) # ys"
  using assms
proof (induction xs)
  case Nil
  then show ?case by (cases ys) auto
next
  case (Cons p xs)
  then show ?case by (cases p) auto
qed

lemma lower_bound_append:
  "\<forall>p\<in>set xs. fst p < k \<Longrightarrow> (case ys of [] \<Rightarrow> True | p # _ \<Rightarrow> \<not> fst p < k) \<Longrightarrow>
     lower_bound (xs @ ys) k = length xs"
  by (auto simp: lower_bound_def takeWhile_append2 split: list.splits)

lemma upper_bound_append:
  "\<forall>p\<in>set xs. fst p \<le> k \<Longrightarrow> (case ys of [] \<Rightarrow> True | p # _ \<Rightarrow> \<not> fst p \<le> k) \<Longrightarrow>
     upper_bound (xs @ ys) k = length xs"
  by (auto simp: upper_bound_def takeWhile_append2 split: list.splits)

lemma map_of_ordered_nth:
  "ordered m \<Longrightarrow> i < length m \<Longrightarrow> map_of m (fst (m ! i)) = Some (snd (m ! i))"
  by (metis map_of_eq_Some_iff nth_mem ordered_distinct prod.collapse)

lemma map_of_index:
  assumes "ordered m"
  shows "map_of m c = Some v \<longleftrightarrow> (\<exists>i. i < length m \<and> m ! i = (c, v))"
  using assms by (auto simp: ordered_distinct in_set_conv_nth)

lemma map_of_index_ex:
  "ordered m \<Longrightarrow> map_of m c \<noteq> None \<longleftrightarrow> (\<exists>i. i < length m \<and> fst (m ! i) = c)"
  using map_of_index [of m c] by (metis fst_conv not_None_eq prod.collapse)

subsection \<open>The contract of an ordered index\<close>

locale ordered_index =
  fixes good :: "'m \<Rightarrow> bool"
    and size_of :: "'m \<Rightarrow> nat"
    and key :: "'m \<Rightarrow> nat \<Rightarrow> 'k::linorder"
    and lb :: "'m \<Rightarrow> 'k \<Rightarrow> nat"
    and ub :: "'m \<Rightarrow> 'k \<Rightarrow> nat"
  assumes keys_increase: "good m \<Longrightarrow> i < j \<Longrightarrow> j < size_of m \<Longrightarrow> key m i < key m j"
    and lb_le: "good m \<Longrightarrow> lb m k \<le> size_of m"
    and lb_below: "good m \<Longrightarrow> i < lb m k \<Longrightarrow> key m i < k"
    and lb_above: "good m \<Longrightarrow> lb m k \<le> i \<Longrightarrow> i < size_of m \<Longrightarrow> k \<le> key m i"
    and ub_le: "good m \<Longrightarrow> ub m k \<le> size_of m"
    and ub_below: "good m \<Longrightarrow> i < ub m k \<Longrightarrow> key m i \<le> k"
    and ub_above: "good m \<Longrightarrow> ub m k \<le> i \<Longrightarrow> i < size_of m \<Longrightarrow> k < key m i"
begin

lemma keys_mono: "good m \<Longrightarrow> i \<le> j \<Longrightarrow> j < size_of m \<Longrightarrow> key m i \<le> key m j"
  by (cases "i = j") (auto dest: keys_increase [of m i j])

lemma keys_inj: "good m \<Longrightarrow> i < size_of m \<Longrightarrow> j < size_of m \<Longrightarrow> key m i = key m j \<Longrightarrow> i = j"
  by (metis keys_increase less_irrefl linorder_neqE_nat)

lemma lb_unique:
  assumes "good m" and "i < size_of m" and "k \<le> key m i"
    and below: "\<And>j. j < i \<Longrightarrow> key m j < k"
  shows "lb m k = i"
proof (rule linorder_cases [of "lb m k" i])
  assume "lb m k < i"
  then have "k \<le> key m (lb m k)" and "key m (lb m k) < k"
    using assms(1,2) lb_above [of m k "lb m k"] below by auto
  then show ?thesis by simp
next
  assume "i < lb m k"
  then have "key m i < k" using assms(1) by (rule lb_below [rotated])
  with assms(3) show ?thesis by simp
qed

lemma lb_eqI:
  assumes "good m" and "i \<le> size_of m" and "\<And>j. j < i \<Longrightarrow> key m j < k"
    and "i < size_of m \<Longrightarrow> k \<le> key m i"
  shows "lb m k = i"
proof (cases "i < size_of m")
  case True
  with assms show ?thesis by (intro lb_unique) auto
next
  case False
  then have "\<not> lb m k < i"
    using assms lb_above [of m k "lb m k"] by (metis leD le_neq_implies_less order_refl)
  with False assms(2) lb_le [OF assms(1), of k] show ?thesis by simp
qed

lemma ub_eqI:
  assumes "good m" and "i \<le> size_of m" and "\<And>j. j < i \<Longrightarrow> key m j \<le> k"
    and "i < size_of m \<Longrightarrow> k < key m i"
  shows "ub m k = i"
proof (rule antisym)
  show "ub m k \<le> i"
  proof (rule ccontr)
    assume "\<not> ub m k \<le> i"
    then have "i < ub m k" by simp
    then have "key m i \<le> k" and "i < size_of m"
      using ub_below [OF assms(1)] ub_le [OF assms(1), of k] by auto
    with assms(4) show False by simp
  qed
  show "i \<le> ub m k"
  proof (rule ccontr)
    assume "\<not> i \<le> ub m k"
    then have "ub m k < i" by simp
    then have "key m (ub m k) \<le> k" and "k < key m (ub m k)"
      using assms ub_above [OF assms(1), of k "ub m k"] by auto
    then show False by simp
  qed
qed

lemma lb_key [index_simps]: "good m \<Longrightarrow> i < size_of m \<Longrightarrow> lb m (key m i) = i"
  by (rule lb_unique) (auto intro: keys_increase)

lemma ub_key [index_simps]:
  assumes "good m" and "i < size_of m"
  shows "ub m (key m i) = Suc i"
proof (rule linorder_cases [of "ub m (key m i)" "Suc i"])
  assume "ub m (key m i) < Suc i"
  then have "key m i < key m i" using assms by (intro ub_above) auto
  then show ?thesis by simp
next
  assume i: "Suc i < ub m (key m i)"
  then have "key m (Suc i) \<le> key m i" and "Suc i < size_of m"
    using assms ub_below ub_le [of m "key m i"] by auto
  with assms keys_increase [of m i "Suc i"] show ?thesis by simp
qed

text \<open>\<open>upper_bound\<close> minus one is the last entry whose key is at most \<open>k\<close>.\<close>

lemma predecessor_iff:
  assumes "good m"
  shows "(0 < ub m k \<and> i = ub m k - 1) =
    (i < size_of m \<and> key m i \<le> k \<and>
       (\<forall>j. j < size_of m \<longrightarrow> key m j \<le> k \<longrightarrow> j \<le> i))"
    (is "?l = ?r")
proof
  assume ?l
  then have i: "ub m k = Suc i" by auto
  then have "key m i \<le> k" using ub_below [OF assms] by auto
  moreover have "i < size_of m" using i ub_le [OF assms, of k] by simp
  moreover have "j \<le> i" if "j < size_of m" "key m j \<le> k" for j
  proof (rule ccontr)
    assume "\<not> j \<le> i"
    then have "k < key m j" using i that(1) by (intro ub_above [OF assms]) auto
    with that(2) show False by simp
  qed
  ultimately show ?r by blast
next
  assume r: ?r
  have "\<not> ub m k \<le> i" using r ub_above [OF assms, of k i] by auto
  moreover have "ub m k \<le> Suc i"
  proof (rule ccontr)
    assume "\<not> ub m k \<le> Suc i"
    then have "Suc i < ub m k" by simp
    then have "key m (Suc i) \<le> k" "Suc i < size_of m"
      using ub_below [OF assms] ub_le [OF assms, of k] by auto
    with r show False by auto
  qed
  ultimately show ?l by auto
qed

lemma no_predecessor_iff:
  assumes "good m"
  shows "(ub m k = 0) = (\<forall>j. j < size_of m \<longrightarrow> k < key m j)"
proof
  assume "ub m k = 0"
  then show "\<forall>j. j < size_of m \<longrightarrow> k < key m j" using ub_above [OF assms, of k] by simp
next
  assume all: "\<forall>j. j < size_of m \<longrightarrow> k < key m j"
  show "ub m k = 0"
  proof (rule ccontr)
    assume "ub m k \<noteq> 0"
    then have "key m 0 \<le> k" "0 < size_of m"
      using ub_below [OF assms, of 0 k] ub_le [OF assms, of k] by auto
    with all show False by auto
  qed
qed

end

interpretation std: ordered_index ordered length "\<lambda>m i. fst (m ! i)" lower_bound upper_bound
proof
  fix m :: "('k::linorder, 'v) smap" and k :: 'k and i j :: nat
  assume m: "ordered m"
  show "i < j \<Longrightarrow> j < length m \<Longrightarrow> fst (m ! i) < fst (m ! j)"
    using m by (rule ordered_nth_less)
  show "lower_bound m k \<le> length m" by (simp add: lower_bound_def length_takeWhile_le)
  show "upper_bound m k \<le> length m" by (simp add: upper_bound_def length_takeWhile_le)
  show "i < lower_bound m k \<Longrightarrow> fst (m ! i) < k"
    by (auto simp: lower_bound_def dest: takeWhile_length_nth)
  show "i < upper_bound m k \<Longrightarrow> fst (m ! i) \<le> k"
    by (auto simp: upper_bound_def dest: takeWhile_length_nth)
  show "k \<le> fst (m ! i)" if lb: "lower_bound m k \<le> i" and i: "i < length m"
  proof -
    have "\<not> fst (m ! lower_bound m k) < k"
      using lb i unfolding lower_bound_def by (intro takeWhile_length_stop) simp
    with ordered_nth_le [OF m lb i] show ?thesis by simp
  qed
  show "k < fst (m ! i)" if ub: "upper_bound m k \<le> i" and i: "i < length m"
  proof -
    have "\<not> fst (m ! upper_bound m k) \<le> k"
      using ub i unfolding upper_bound_def by (intro takeWhile_length_stop) simp
    with ordered_nth_le [OF m ub i] show ?thesis by simp
  qed
qed

end
