(* ===== verification/Range_Map.thy ===== *)
theory Range_Map
  imports Std_Map
begin

text \<open>
  \<open>RangeMap\<close> (\<open>processor/range_map.h\<close>, \<open>processor/range_map-inl.h\<close>): disjoint
  address ranges, each stored under its high address.  The state is a record with the two
  fields \<open>merge_strategy_\<close> and \<open>map_\<close>; a stored \<open>Range\<close> is a record of its
  base, its delta and its entry.

  \<open>StoreRangeInternal\<close> calls itself after each adjustment it makes, so it is a partial
  function: the theorem that it returns on every well-formed map is
  \<open>StoreRangeInternal_total\<close>.
\<close>

datatype MergeRangeStrategy = kExclusiveRanges | kTruncateLower | kTruncateUpper

record ('a, 'e) Range =
  r_base :: 'a
  r_delta :: 'a
  r_entry :: 'e

record ('a, 'e) range_map =
  merge_strategy :: MergeRangeStrategy
  rmap :: "('a, ('a, 'e) Range) smap"

text \<open>\<open>RetrieveRange\<close> yields the entry, its base, its delta and its size.\<close>

definition range_outputs ::
  "'a::len word \<times> ('a word, 'e) Range \<Rightarrow> 'e \<times> 'a word \<times> 'a word \<times> 'a word" where
  "range_outputs p = (r_entry (snd p), r_base (snd p), r_delta (snd p),
     fst p - r_base (snd p) + 1)"

definition RetrieveRange ::
  "('a::len word, 'e) range_map \<Rightarrow> 'a word \<Rightarrow> ('e \<times> 'a word \<times> 'a word \<times> 'a word) option" where
  "RetrieveRange m address =
     (let iterator = lower_bound (rmap m) address in
      if iterator = length (rmap m) then None
      else if address < r_base (snd (rmap m ! iterator)) then None
      else Some (range_outputs (rmap m ! iterator)))"

definition RetrieveNearestRange ::
  "('a::len word, 'e) range_map \<Rightarrow> 'a word \<Rightarrow> ('e \<times> 'a word \<times> 'a word \<times> 'a word) option" where
  "RetrieveNearestRange m address =
     (case RetrieveRange m address of
        Some r \<Rightarrow> Some r
      | None \<Rightarrow>
          (let iterator = upper_bound (rmap m) address in
           if iterator = 0 then None
           else Some (range_outputs (rmap m ! (iterator - 1)))))"

definition GetCount :: "('a::len word, 'e) range_map \<Rightarrow> int" where
  "GetCount m = int (length (rmap m))"

definition RetrieveRangeAtIndex ::
  "('a::len word, 'e) range_map \<Rightarrow> int \<Rightarrow>
     ('e \<times> 'a word \<times> 'a word \<times> 'a word) option run" where
  "RetrieveRangeAtIndex m index =
     (if GetCount m \<le> index then Some None
      else if rmap m = [] then None \<comment> \<open>negative index, empty map: \<open>*end()\<close>\<close>
      else Some (Some (range_outputs (rmap m ! nat index))))"

definition RangeMap_Clear :: "('a::len word, 'e) range_map \<Rightarrow> ('a word, 'e) range_map" where
  "RangeMap_Clear m = m\<lparr>rmap := []\<rparr>"

partial_function (option) StoreRangeInternal ::
  "('a::len word, 'e) range_map \<Rightarrow> 'a word \<Rightarrow> 'a word \<Rightarrow> 'a word \<Rightarrow> 'e \<Rightarrow>
     (('a word, 'e) range_map \<times> bool) run" where
  "StoreRangeInternal m base delta sz entry =
    (let high = base + (sz - 1) in
     if sz = 0 \<or> high < base then Some (m, False)
     else
       let iterator_base = lower_bound (rmap m) base;
           iterator_high = lower_bound (rmap m) high in
       if iterator_base \<noteq> iterator_high then
         (if merge_strategy m = kTruncateLower then
            let other_base = r_base (snd (rmap m ! iterator_base)) in
            if base < other_base then
              StoreRangeInternal m base delta (other_base - base) entry
            else if other_base < base then
              (case RetrieveRange m (fst (rmap m ! iterator_base)) of
                 None \<Rightarrow> None
               | Some (other_entry, ob, other_delta, other_size) \<Rightarrow>
                   StoreRangeInternal
                     (m\<lparr>rmap := smap_insert (base - 1)
                                 \<lparr>r_base = ob, r_delta = other_delta, r_entry = other_entry\<rparr>
                                 (smap_erase iterator_base (rmap m))\<rparr>)
                     base delta sz entry)
            else Some (m, False)
          else if merge_strategy m = kTruncateUpper then
            let additional_delta = fst (rmap m ! iterator_base) - base + 1 in
            StoreRangeInternal m (base + additional_delta) (delta + additional_delta)
              (sz - additional_delta) entry
          else Some (m, False))
       else if iterator_high \<noteq> length (rmap m) \<and>
               r_base (snd (rmap m ! iterator_high)) \<le> high then
         (if merge_strategy m = kTruncateLower then
            let other_base = r_base (snd (rmap m ! iterator_high)) in
            if base < other_base then
              StoreRangeInternal m base delta (other_base - base) entry
            else if other_base < base then
              (case RetrieveRange m (fst (rmap m ! iterator_high)) of
                 None \<Rightarrow> None
               | Some (other_entry, ob, other_delta, other_size) \<Rightarrow>
                   StoreRangeInternal
                     (m\<lparr>rmap := smap_insert (base - 1)
                                 \<lparr>r_base = ob, r_delta = other_delta, r_entry = other_entry\<rparr>
                                 (smap_erase iterator_high (rmap m))\<rparr>)
                     base delta sz entry)
            else Some (m, False)
          else if merge_strategy m = kTruncateUpper \<and>
                  high < fst (rmap m ! iterator_high) then
            let other_high = fst (rmap m ! iterator_high);
                additional_delta = high - r_base (snd (rmap m ! iterator_high)) + 1 in
            (case RetrieveRange m other_high of
               None \<Rightarrow> None
             | Some (other_entry, ob, other_delta, other_size) \<Rightarrow>
                 StoreRangeInternal
                   (m\<lparr>rmap := smap_insert other_high
                               \<lparr>r_base = ob + additional_delta,
                                r_delta = other_delta + additional_delta,
                                r_entry = other_entry\<rparr>
                               (smap_erase iterator_high (rmap m))\<rparr>)
                   base delta sz entry)
          else Some (m, False))
       else
         Some (m\<lparr>rmap := smap_insert high
                           \<lparr>r_base = base, r_delta = delta, r_entry = entry\<rparr> (rmap m)\<rparr>, True))"

definition StoreRange ::
  "('a::len word, 'e) range_map \<Rightarrow> 'a word \<Rightarrow> 'a word \<Rightarrow> 'e \<Rightarrow> (('a word, 'e) range_map \<times> bool) run"
  where "StoreRange m base sz entry = StoreRangeInternal m base 0 sz entry"

subsection \<open>The contract of an index of disjoint ranges\<close>

locale range_index = ordered_index good size_of key lb ub
  for good :: "'m \<Rightarrow> bool" and size_of and key :: "'m \<Rightarrow> nat \<Rightarrow> 'k::linorder" and lb and ub +
  fixes low :: "'m \<Rightarrow> nat \<Rightarrow> 'k"
  assumes low_le_key: "good m \<Longrightarrow> i < size_of m \<Longrightarrow> low m i \<le> key m i"
    and disjoint_ranges: "good m \<Longrightarrow> i < j \<Longrightarrow> j < size_of m \<Longrightarrow> key m i < low m j"
begin

lemma containing_range_unique:
  assumes "good m" and "i < size_of m" and "j < size_of m"
    and "low m i \<le> a" and "a \<le> key m i" and "low m j \<le> a" and "a \<le> key m j"
  shows "i = j"
proof (rule linorder_cases [of i j])
  assume "i < j"
  with assms disjoint_ranges [of m i j] show ?thesis by auto
next
  assume "j < i"
  with assms disjoint_ranges [of m j i] show ?thesis by auto
qed

text \<open>A range contains \<open>a\<close> exactly when \<open>lower_bound\<close> finds it and its base allows.\<close>

lemma containing_range_iff:
  assumes "good m"
  shows "(lb m a = i \<and> i < size_of m \<and> low m i \<le> a) =
    (i < size_of m \<and> low m i \<le> a \<and> a \<le> key m i)"
proof
  assume l: "lb m a = i \<and> i < size_of m \<and> low m i \<le> a"
  then have "a \<le> key m i" using lb_above [OF assms, of a i] by simp
  with l show "i < size_of m \<and> low m i \<le> a \<and> a \<le> key m i" by simp
next
  assume r: "i < size_of m \<and> low m i \<le> a \<and> a \<le> key m i"
  have "key m j < a" if "j < i" for j
    using disjoint_ranges [OF assms that] r by auto
  then have "lb m a = i" using assms r by (intro lb_unique) auto
  with r show "lb m a = i \<and> i < size_of m \<and> low m i \<le> a" by simp
qed

lemma no_containing_range_iff:
  assumes "good m"
  shows "(lb m a = size_of m \<or> a < low m (lb m a)) =
    (\<forall>i. i < size_of m \<longrightarrow> \<not> (low m i \<le> a \<and> a \<le> key m i))"
  using containing_range_iff [OF assms, of a] lb_le [OF assms, of a]
  by (metis le_neq_implies_less not_le less_irrefl)

end

subsection \<open>Well-formed range maps\<close>

definition ranges_ok :: "('a::len word, ('a word, 'e) Range) smap \<Rightarrow> bool" where
  "ranges_ok xs = ((\<forall>p\<in>set xs. r_base (snd p) \<le> fst p) \<and>
     sorted_wrt (\<lambda>p q. fst p < r_base (snd q)) xs)"

definition range_map_ok :: "('a::len word, 'e) range_map \<Rightarrow> bool" where
  "range_map_ok m = ranges_ok (rmap m)"

lemma ranges_ok_Nil [simp]: "ranges_ok []"
  by (simp add: ranges_ok_def)

lemma ranges_ok_Cons:
  "ranges_ok (p # xs) =
     (r_base (snd p) \<le> fst p \<and> (\<forall>q\<in>set xs. fst p < r_base (snd q)) \<and> ranges_ok xs)"
  by (auto simp: ranges_ok_def)

lemma ranges_ok_append:
  "ranges_ok (xs @ ys) =
     (ranges_ok xs \<and> ranges_ok ys \<and> (\<forall>p\<in>set xs. \<forall>q\<in>set ys. fst p < r_base (snd q)))"
  by (auto simp: ranges_ok_def sorted_wrt_append)

lemma ranges_okD: "ranges_ok xs \<Longrightarrow> p \<in> set xs \<Longrightarrow> r_base (snd p) \<le> fst p"
  by (simp add: ranges_ok_def)

lemma ranges_ok_ordered: "ranges_ok xs \<Longrightarrow> ordered xs"
  by (induction xs) (auto simp: ranges_ok_Cons ranges_ok_def[of "_ # _"] intro: order_less_le_trans
      dest: bspec simp: ranges_ok_def)

interpretation rm: range_index "\<lambda>m. range_map_ok m" "\<lambda>m. length (rmap m)"
  "\<lambda>m i. fst (rmap m ! i)" "\<lambda>m. lower_bound (rmap m)" "\<lambda>m. upper_bound (rmap m)"
  "\<lambda>m i. r_base (snd (rmap m ! i))"
proof
  fix m :: "('a::len word, 'e) range_map" and k :: "'a word" and i j :: nat
  assume m: "range_map_ok m"
  then have o: "ordered (rmap m)"
    by (auto simp: range_map_ok_def intro: ranges_ok_ordered)
  show "i < j \<Longrightarrow> j < length (rmap m) \<Longrightarrow> fst (rmap m ! i) < fst (rmap m ! j)"
    using o by (rule std.keys_increase)
  show "lower_bound (rmap m) k \<le> length (rmap m)" using o by (rule std.lb_le)
  show "i < lower_bound (rmap m) k \<Longrightarrow> fst (rmap m ! i) < k" using o by (rule std.lb_below)
  show "lower_bound (rmap m) k \<le> i \<Longrightarrow> i < length (rmap m) \<Longrightarrow> k \<le> fst (rmap m ! i)"
    using o by (rule std.lb_above)
  show "upper_bound (rmap m) k \<le> length (rmap m)" using o by (rule std.ub_le)
  show "i < upper_bound (rmap m) k \<Longrightarrow> fst (rmap m ! i) \<le> k" using o by (rule std.ub_below)
  show "upper_bound (rmap m) k \<le> i \<Longrightarrow> i < length (rmap m) \<Longrightarrow> k < fst (rmap m ! i)"
    using o by (rule std.ub_above)
  show "i < length (rmap m) \<Longrightarrow> r_base (snd (rmap m ! i)) \<le> fst (rmap m ! i)"
    using m by (simp add: range_map_ok_def ranges_ok_def)
  show "i < j \<Longrightarrow> j < length (rmap m) \<Longrightarrow> fst (rmap m ! i) < r_base (snd (rmap m ! j))"
    using m sorted_wrt_nth_less [of "\<lambda>p q. fst p < r_base (snd q)" "rmap m" i j]
    by (simp add: range_map_ok_def ranges_ok_def)
qed

subsection \<open>Looking an address up\<close>

text \<open>
  The abstract view of a range map: for each address, the range that contains it.
  \<open>offset_at\<close> is what a lookup tells a client about an address: the entry, and the
  distance from the address at which the entry's range was first stored (the range's
  delta counts what truncation removed from its lower end).
\<close>

definition range_of :: "('a::len word, ('a word, 'e) Range) smap \<Rightarrow> 'a word \<Rightarrow>
    ('a word \<times> ('a word, 'e) Range) option" where
  "range_of xs a = find (\<lambda>p. r_base (snd p) \<le> a \<and> a \<le> fst p) xs"

definition offset_at :: "('a::len word, 'e) range_map \<Rightarrow> 'a word \<Rightarrow> ('e \<times> 'a word) option" where
  "offset_at m a = map_option (\<lambda>(e, b, d, s). (e, a - b + d)) (RetrieveRange m a)"

lemma range_of_Nil [simp]: "range_of [] a = None"
  by (simp add: range_of_def)

lemma range_of_Cons [simp]:
  "range_of (p # xs) a = (if r_base (snd p) \<le> a \<and> a \<le> fst p then Some p else range_of xs a)"
  by (simp add: range_of_def)

lemma range_of_append [simp]:
  "range_of (xs @ ys) a = (case range_of xs a of None \<Rightarrow> range_of ys a | Some p \<Rightarrow> Some p)"
  by (induction xs) auto

lemma range_of_None:
  "range_of xs a = None \<longleftrightarrow> (\<forall>p\<in>set xs. \<not> (r_base (snd p) \<le> a \<and> a \<le> fst p))"
  by (auto simp: range_of_def find_None_iff)

lemma range_of_SomeD:
  "range_of xs a = Some p \<Longrightarrow> p \<in> set xs \<and> r_base (snd p) \<le> a \<and> a \<le> fst p"
  by (auto simp: range_of_def find_Some_iff)

lemma range_of_iff:
  "ranges_ok xs \<Longrightarrow> range_of xs a = Some p \<longleftrightarrow>
     p \<in> set xs \<and> r_base (snd p) \<le> a \<and> a \<le> fst p"
proof (induction xs)
  case (Cons q xs)
  then show ?case
    by (auto simp: ranges_ok_Cons dest: range_of_SomeD)
qed simp

lemma RetrieveRange_range_of:
  assumes "range_map_ok m"
  shows "RetrieveRange m a = map_option range_outputs (range_of (rmap m) a)"
proof (cases "range_of (rmap m) a")
  case None
  then have "\<forall>i. i < length (rmap m) \<longrightarrow>
      \<not> (r_base (snd (rmap m ! i)) \<le> a \<and> a \<le> fst (rmap m ! i))"
    by (auto simp: range_of_None)
  then have "lower_bound (rmap m) a = length (rmap m) \<or>
      a < r_base (snd (rmap m ! lower_bound (rmap m) a))"
    using rm.no_containing_range_iff [OF assms] by blast
  with None show ?thesis by (auto simp: RetrieveRange_def Let_def)
next
  case (Some p)
  then obtain i where i: "i < length (rmap m)" "rmap m ! i = p"
    by (auto dest!: range_of_SomeD simp: in_set_conv_nth)
  then have "lower_bound (rmap m) a = i \<and> i < length (rmap m) \<and> r_base (snd (rmap m ! i)) \<le> a"
    unfolding rm.containing_range_iff [OF assms] using range_of_SomeD [OF Some] by simp
  with i Some show ?thesis by (auto simp: RetrieveRange_def)
qed

lemma RetrieveRange_at_key:
  assumes "range_map_ok m" and "i < length (rmap m)"
  shows "RetrieveRange m (fst (rmap m ! i)) = Some (range_outputs (rmap m ! i))"
  using rm.lb_key [OF assms] rm.low_le_key [OF assms] assms(2)
  by (auto simp: RetrieveRange_def)

lemma offset_at_range_of:
  "range_map_ok m \<Longrightarrow> offset_at m a =
     map_option (\<lambda>p. (r_entry (snd p), a - r_base (snd p) + r_delta (snd p))) (range_of (rmap m) a)"
  by (simp add: offset_at_def RetrieveRange_range_of range_outputs_def option.map_comp comp_def)

subsection \<open>One call of \<open>StoreRangeInternal\<close>\<close>

text \<open>
  Below, the map is split at the iterator \<open>lower_bound base\<close>: \<open>L\<close> are the ranges
  that end before \<open>base\<close>.
\<close>

definition split_at_base :: "('a::len word, ('a word, 'e) Range) smap \<Rightarrow> 'a word \<Rightarrow>
    ('a word, ('a word, 'e) Range) smap \<Rightarrow> ('a word, ('a word, 'e) Range) smap \<Rightarrow> bool" where
  "split_at_base xs base L R = (xs = L @ R \<and> ranges_ok xs \<and> (\<forall>p\<in>set L. fst p < base) \<and>
     (\<forall>p\<in>set R. base \<le> fst p))"

lemma split_at_base_exists:
  assumes "ranges_ok xs"
  shows "\<exists>L R. split_at_base xs base L R"
proof -
  let ?L = "takeWhile (\<lambda>p. fst p < base) xs" and ?R = "dropWhile (\<lambda>p. fst p < base) xs"
  have "\<forall>p\<in>set ?R. base \<le> fst p"
  proof (cases ?R)
    case Nil
    then show ?thesis by (simp del: dropWhile_eq_Nil_conv)
  next
    case (Cons q R)
    then have "\<not> fst q < base" by (rule dropWhile_nonempty_hd)
    moreover have "ordered ?R"
      using ranges_ok_ordered [OF assms] by (metis ordered_append takeWhile_dropWhile_id)
    ultimately show ?thesis using Cons by auto
  qed
  then show ?thesis
    using assms set_takeWhileD [of _ "\<lambda>p. fst p < base" xs]
    by (intro exI [of _ ?L] exI [of _ ?R]) (auto simp: split_at_base_def)
qed

lemma split_lower_bound_base:
  "split_at_base xs base L R \<Longrightarrow> lower_bound xs base = length L"
  by (auto simp: split_at_base_def leD intro!: lower_bound_append split: list.splits)

lemma split_lower_bound_high:
  assumes "split_at_base xs base L R" and "base \<le> high"
  shows "lower_bound xs high = length L \<longleftrightarrow> (case R of [] \<Rightarrow> True | p # _ \<Rightarrow> high \<le> fst p)"
proof -
  have L: "\<forall>p\<in>set L. fst p < high" and xs: "xs = L @ R"
    using assms by (auto simp: split_at_base_def)
  then have "lower_bound xs high = length L + length (takeWhile (\<lambda>p. fst p < high) R)"
    by (simp add: lower_bound_def)
  then show ?thesis by (auto split: list.splits)
qed

lemma split_insert_high:
  assumes "split_at_base xs base L R" and "base \<le> high"
    and "case R of [] \<Rightarrow> True | p # _ \<Rightarrow> high < r_base (snd p)"
  shows "smap_insert high r xs = L @ (high, r) # R"
    and "ranges_ok (L @ (high, r) # R) = (r_base r \<le> high \<and> (\<forall>p\<in>set L. fst p < r_base r))"
proof -
  have above: "\<forall>p\<in>set R. high < r_base (snd p) \<and> r_base (snd p) \<le> fst p"
  proof (cases R)
    case (Cons p R')
    then have "ranges_ok (L @ p # R')" using assms(1) by (auto simp: split_at_base_def)
    then have "ranges_ok R'" "\<forall>q\<in>set R'. fst p < r_base (snd q)" "r_base (snd p) \<le> fst p"
      by (simp_all add: ranges_ok_append ranges_ok_Cons)
    moreover have "high < r_base (snd p)" using assms(3) Cons by simp
    moreover have "high < r_base (snd q) \<and> r_base (snd q) \<le> fst q" if "q \<in> set R'" for q
      using calculation that ranges_okD [of R' q] by fastforce
    ultimately show ?thesis using Cons by auto
  qed simp
  then have R: "\<forall>p\<in>set R. high < fst p" by auto
  show "smap_insert high r xs = L @ (high, r) # R"
    using assms(1,2) R by (auto simp: split_at_base_def intro!: smap_insert_split
        intro: order_less_le_trans)
  show "ranges_ok (L @ (high, r) # R) = (r_base r \<le> high \<and> (\<forall>p\<in>set L. fst p < r_base r))"
    using assms(1) above by (force simp: split_at_base_def ranges_ok_append ranges_ok_Cons)
qed

text \<open>The range the new one meets first, cut so that it ends before \<open>base\<close>.\<close>

lemma split_cut_lower:
  assumes "split_at_base xs base L ((k, r) # R)" and "r_base r < base"
  shows "smap_insert (base - 1) r (smap_erase (length L) xs) = L @ (base - 1, r) # R"
    and "split_at_base (L @ (base - 1, r) # R) base (L @ [(base - 1, r)]) R"
proof -
  have ok: "ranges_ok (L @ (k, r) # R)" and xs: "xs = L @ (k, r) # R" and k: "base \<le> k"
    using assms(1) by (auto simp: split_at_base_def)
  have "0 < base" using assms(2) by (metis word_zero_le order_le_less_trans)
  then have b: "r_base r \<le> base - 1" "base - 1 < base"
    using assms(2) word_minus_one_less [OF assms(2)] by (auto simp: word_le_minus_one_iff)
  have L: "\<forall>p\<in>set L. fst p < r_base r" and R: "\<forall>p\<in>set R. k < r_base (snd p)"
    using ok by (auto simp: ranges_ok_append ranges_ok_Cons)
  have L': "\<forall>p\<in>set L. fst p < base - 1"
    using L b by (auto intro: order_less_le_trans)
  have R': "\<forall>p\<in>set R. base \<le> r_base (snd p) \<and> base - 1 < r_base (snd p) \<and> base \<le> fst p"
  proof
    fix p
    assume p: "p \<in> set R"
    have "r_base (snd p) \<le> fst p" using ok p by (auto simp: ranges_ok_append ranges_ok_Cons dest: ranges_okD)
    moreover have "k < r_base (snd p)" using R p by blast
    ultimately show "base \<le> r_base (snd p) \<and> base - 1 < r_base (snd p) \<and> base \<le> fst p"
      using b k by auto
  qed
  then have R'': "\<forall>p\<in>set R. base - 1 < fst p" using b by (auto intro: order_less_le_trans)
  show "smap_insert (base - 1) r (smap_erase (length L) xs) = L @ (base - 1, r) # R"
    using L' R'' by (auto simp: smap_erase_def xs intro!: smap_insert_split)
  show "split_at_base (L @ (base - 1, r) # R) base (L @ [(base - 1, r)]) R"
    using ok b L R' by (auto simp: split_at_base_def ranges_ok_append ranges_ok_Cons
        intro: less_trans order_less_le_trans)
qed

text \<open>The same range, cut so that it begins after \<open>high\<close>.\<close>

lemma split_cut_upper:
  assumes "split_at_base xs base L ((k, r) # R)" and "base \<le> high" and "high < k"
    and "r_base r' = high + 1"
  shows "smap_insert k r' (smap_erase (length L) xs) = L @ (k, r') # R"
    and "split_at_base (L @ (k, r') # R) base L ((k, r') # R)"
proof -
  have ok: "ranges_ok (L @ (k, r) # R)" and xs: "xs = L @ (k, r) # R" and k: "base \<le> k"
    and Lb: "\<forall>p\<in>set L. fst p < base"
    using assms(1) by (auto simp: split_at_base_def)
  have h: "high < high + 1" "high + 1 \<le> k"
    using assms(3) by (auto intro: word_less_plus_one word_plus_one_le)
  have L: "\<forall>p\<in>set L. fst p < k" and R: "\<forall>p\<in>set R. k < fst p"
    using ok ranges_ok_ordered [OF ok] by (auto simp: ordered_append)
  show "smap_insert k r' (smap_erase (length L) xs) = L @ (k, r') # R"
    using L R by (auto simp: smap_erase_def xs intro!: smap_insert_split)
  show "split_at_base (L @ (k, r') # R) base L ((k, r') # R)"
    using ok h Lb assms k R
    by (auto simp: split_at_base_def ranges_ok_append ranges_ok_Cons
        intro: less_trans order_less_le_trans order_le_less_trans)
qed

text \<open>The branches of \<open>StoreRangeInternal\<close>, one lemma each.\<close>

lemma store_invalid:
  "sz = 0 \<or> base + (sz - 1) < base \<Longrightarrow> StoreRangeInternal m base delta sz e = Some (m, False)"
  by (subst StoreRangeInternal.simps) (simp add: Let_def)

lemma store_free:
  assumes "split_at_base (rmap m) base L R" and "sz \<noteq> 0" and "base \<le> base + (sz - 1)"
    and "case R of [] \<Rightarrow> True | p # _ \<Rightarrow> base + (sz - 1) < r_base (snd p)"
  shows "StoreRangeInternal m base delta sz e = Some (m\<lparr>rmap :=
    L @ (base + (sz - 1), \<lparr>r_base = base, r_delta = delta, r_entry = e\<rparr>) # R\<rparr>, True)"
proof -
  let ?h = "base + (sz - 1)"
  have "lower_bound (rmap m) ?h = length L"
    using assms by (subst split_lower_bound_high [OF assms(1,3)])
      (auto simp: split_at_base_def ranges_ok_append ranges_ok_Cons split: list.splits
        intro: less_imp_le order_less_le_trans)
  moreover have "?h < r_base (snd (rmap m ! length L))" if "length L \<noteq> length (rmap m)"
    using assms(1,4) that by (auto simp: split_at_base_def nth_append split: list.splits)
  ultimately show ?thesis
    using assms(2,3) split_lower_bound_base [OF assms(1)] split_insert_high(1) [OF assms(1,3,4)]
    by (subst StoreRangeInternal.simps) (auto simp: Let_def)
qed

lemma split_nth:
  "split_at_base xs base L (p # R) \<Longrightarrow> xs ! length L = p \<and> length L < length xs"
  by (auto simp: split_at_base_def)

lemma Range_eta: "\<lparr>r_base = r_base r, r_delta = r_delta r, r_entry = r_entry r\<rparr> = r"
  by (cases r) simp

lemma store_meet:
  assumes split: "split_at_base (rmap m) base L ((k, r) # R)"
    and "sz \<noteq> 0" and "base \<le> high" and high: "high = base + (sz - 1)" and "r_base r \<le> high"
  shows "merge_strategy m = kExclusiveRanges \<Longrightarrow>
      StoreRangeInternal m base delta sz e = Some (m, False)"
    and "merge_strategy m = kTruncateLower \<Longrightarrow> r_base r = base \<Longrightarrow>
      StoreRangeInternal m base delta sz e = Some (m, False)"
    and "merge_strategy m = kTruncateLower \<Longrightarrow> base < r_base r \<Longrightarrow>
      StoreRangeInternal m base delta sz e = StoreRangeInternal m base delta (r_base r - base) e"
    and "merge_strategy m = kTruncateLower \<Longrightarrow> r_base r < base \<Longrightarrow>
      StoreRangeInternal m base delta sz e =
        StoreRangeInternal (m\<lparr>rmap := L @ (base - 1, r) # R\<rparr>) base delta sz e"
    and "merge_strategy m = kTruncateUpper \<Longrightarrow> k < high \<Longrightarrow>
      StoreRangeInternal m base delta sz e =
        StoreRangeInternal m (k + 1) (delta + (k - base + 1)) (sz - (k - base + 1)) e"
    and "merge_strategy m = kTruncateUpper \<Longrightarrow> k = high \<Longrightarrow>
      StoreRangeInternal m base delta sz e = Some (m, False)"
    and "merge_strategy m = kTruncateUpper \<Longrightarrow> high < k \<Longrightarrow>
      StoreRangeInternal m base delta sz e =
        StoreRangeInternal (m\<lparr>rmap := L @ (k, \<lparr>r_base = high + 1,
           r_delta = r_delta r + (high - r_base r + 1), r_entry = r_entry r\<rparr>) # R\<rparr>) base delta sz e"
proof -
  have ok: "range_map_ok m" using split by (auto simp: split_at_base_def range_map_ok_def)
  have lb: "lower_bound (rmap m) base = length L" by (rule split_lower_bound_base [OF split])
  have lh: "(lower_bound (rmap m) high = length L) = (high \<le> k)"
    using split_lower_bound_high [OF split assms(3)] by simp
  have nth: "rmap m ! length L = (k, r)" and len: "length L < length (rmap m)"
    using split_nth [OF split] by auto
  have get: "RetrieveRange m k = Some (r_entry r, r_base r, r_delta r, k - r_base r + 1)"
    using RetrieveRange_at_key [OF ok len] nth by (simp add: range_outputs_def)
  have nlt: "\<not> high < base" using assms(3) by simp
  have eqs: "base + (k - base + 1) = k + 1" "r_base r + (high - r_base r + 1) = high + 1"
    by (simp_all add: algebra_simps)
  note * = Let_def high [symmetric] lb eqs
  show "merge_strategy m = kExclusiveRanges \<Longrightarrow>
      StoreRangeInternal m base delta sz e = Some (m, False)"
    using assms(2,5) nlt nth len lh by (subst StoreRangeInternal.simps, cases "high \<le> k") (simp_all add: *)
  show "merge_strategy m = kTruncateLower \<Longrightarrow> r_base r = base \<Longrightarrow>
      StoreRangeInternal m base delta sz e = Some (m, False)"
    using assms(2,5) nlt nth len lh by (subst StoreRangeInternal.simps, cases "high \<le> k") (simp_all add: *)
  show "merge_strategy m = kTruncateLower \<Longrightarrow> base < r_base r \<Longrightarrow>
      StoreRangeInternal m base delta sz e = StoreRangeInternal m base delta (r_base r - base) e"
    using assms(2,5) nlt nth len lh by (subst StoreRangeInternal.simps, cases "high \<le> k") (simp_all add: *)
  show "merge_strategy m = kTruncateLower \<Longrightarrow> r_base r < base \<Longrightarrow>
      StoreRangeInternal m base delta sz e =
        StoreRangeInternal (m\<lparr>rmap := L @ (base - 1, r) # R\<rparr>) base delta sz e"
    using assms(2,5) nlt nth len lh get split_cut_lower(1) [OF split]
    by (subst StoreRangeInternal.simps, cases "high \<le> k")
      (auto simp: * Range_eta dest: less_asym)
  show "StoreRangeInternal m base delta sz e =
        StoreRangeInternal m (k + 1) (delta + (k - base + 1)) (sz - (k - base + 1)) e"
    if "merge_strategy m = kTruncateUpper" and "k < high"
  proof -
    have "lower_bound (rmap m) high \<noteq> length L" using lh that(2) by simp
    then show ?thesis
      using that(1) assms(2) nlt nth by (subst StoreRangeInternal.simps) (simp add: *)
  qed
  show "merge_strategy m = kTruncateUpper \<Longrightarrow> k = high \<Longrightarrow>
      StoreRangeInternal m base delta sz e = Some (m, False)"
    using assms(2,5) nlt nth len lh by (subst StoreRangeInternal.simps) (simp add: *)
  show "StoreRangeInternal m base delta sz e =
        StoreRangeInternal (m\<lparr>rmap := L @ (k, \<lparr>r_base = high + 1,
           r_delta = r_delta r + (high - r_base r + 1), r_entry = r_entry r\<rparr>) # R\<rparr>) base delta sz e"
    if "merge_strategy m = kTruncateUpper" and "high < k"
  proof -
    have "lower_bound (rmap m) high = length L" using lh that(2) by simp
    then show ?thesis
      using that assms(2,5) nlt nth len get split_cut_upper(1) [OF split assms(3) that(2)]
      by (subst StoreRangeInternal.simps) (simp add: *)
  qed
qed

subsection \<open>The result of \<open>StoreRangeInternal\<close>\<close>

definition lower_cut_high :: "('a::len word, ('a word, 'e) Range) smap \<Rightarrow> 'a word \<Rightarrow> 'a word" where
  "lower_cut_high R high = (case R of [] \<Rightarrow> high
     | p # _ \<Rightarrow> if r_base (snd p) \<le> high then r_base (snd p) - 1 else high)"

lemma lower_cut_high:
  assumes "split_at_base xs base L R" and "base \<le> high"
    and "case R of [] \<Rightarrow> True | p # _ \<Rightarrow> base < r_base (snd p)"
  shows "base \<le> lower_cut_high R high" and "lower_cut_high R high \<le> high"
    and "case R of [] \<Rightarrow> True | p # _ \<Rightarrow> lower_cut_high R high < r_base (snd p)"
  using assms
  by (auto simp: lower_cut_high_def word_less_imp_le_minus_one split: list.splits
      dest: word_minus_one_less)

lemma store_truncate_lower_gap:
  assumes split: "split_at_base (rmap m) base L R" and "merge_strategy m = kTruncateLower"
    and "sz \<noteq> 0" and "base \<le> base + (sz - 1)"
    and gap: "case R of [] \<Rightarrow> True | p # _ \<Rightarrow> base < r_base (snd p)"
  shows "StoreRangeInternal m base delta sz e = Some (m\<lparr>rmap :=
    L @ (lower_cut_high R (base + (sz - 1)), \<lparr>r_base = base, r_delta = delta, r_entry = e\<rparr>) # R\<rparr>, True)"
proof (cases "case R of [] \<Rightarrow> True | p # _ \<Rightarrow> base + (sz - 1) < r_base (snd p)")
  case True
  then have "lower_cut_high R (base + (sz - 1)) = base + (sz - 1)"
    by (auto simp: lower_cut_high_def split: list.splits)
  with store_free [OF split assms(3,4) True] show ?thesis by simp
next
  case False
  then obtain k r R' where R: "R = (k, r) # R'" and le: "r_base r \<le> base + (sz - 1)"
    by (auto split: list.splits)
  have less: "base < r_base r" using gap R by simp
  let ?sz = "r_base r - base"
  have high: "base + (?sz - 1) = r_base r - 1" by simp
  have "?sz \<noteq> 0" "base \<le> r_base r - 1" "r_base r - 1 < r_base r"
    using less word_minus_one_less [OF less] word_less_imp_le_minus_one [OF less] by auto
  then have "StoreRangeInternal m base delta ?sz e = Some (m\<lparr>rmap :=
    L @ (r_base r - 1, \<lparr>r_base = base, r_delta = delta, r_entry = e\<rparr>) # R\<rparr>, True)"
    using store_free [OF split, of ?sz] R high by simp
  then show ?thesis
    using store_meet(3) [OF split [unfolded R] assms(3,4) refl le assms(2) less] R le
    by (simp add: lower_cut_high_def)
qed

lemma store_truncate_upper_skip:
  assumes "split_at_base (rmap m) base L (M @ R)" and "merge_strategy m = kTruncateUpper"
    and "sz \<noteq> 0" and "base \<le> high" and "high = base + (sz - 1)"
    and "\<forall>p\<in>set M. fst p < high" and "nb = (if M = [] then base else fst (last M) + 1)"
  shows "StoreRangeInternal m base delta sz e =
      StoreRangeInternal m nb (delta + (nb - base)) (sz - (nb - base)) e \<and>
    split_at_base (rmap m) nb (L @ M) R \<and> base \<le> nb \<and> nb \<le> high \<and>
    high = nb + (sz - (nb - base) - 1) \<and> sz - (nb - base) \<noteq> 0"
  using assms
proof (induction M arbitrary: base delta sz L)
  case Nil
  then show ?case by simp
next
  case (Cons p M)
  obtain k r where p: "p = (k, r)" by (cases p)
  have k: "base \<le> k" "k < high" and ok: "ranges_ok (L @ (k, r) # M @ R)"
    and L: "\<forall>q\<in>set L. fst q < base"
    using Cons.prems by (auto simp: split_at_base_def p)
  have r: "r_base r \<le> high" using ok k by (auto simp: ranges_ok_append ranges_ok_Cons)
  have k1: "k < k + 1" "k + 1 \<le> high" using k by (auto intro: word_less_plus_one word_plus_one_le)
  let ?sz = "sz - (k - base + 1)"
  have high: "high = (k + 1) + (?sz - 1)" using Cons.prems by (simp add: algebra_simps)
  have sz: "?sz \<noteq> 0"
  proof
    assume "?sz = 0"
    then have "high = k" using high by simp
    with k show False by simp
  qed
  have above: "\<forall>q\<in>set (M @ R). k + 1 \<le> fst q"
    using ranges_ok_ordered [OF ok] by (auto simp: ordered_append word_plus_one_le)
  have split: "split_at_base (rmap m) (k + 1) (L @ [(k, r)]) (M @ R)"
    using Cons.prems(1) above L k k1 unfolding split_at_base_def p
    by (auto intro: order_less_le_trans order_le_less_trans)
  have step: "StoreRangeInternal m base delta sz e =
      StoreRangeInternal m (k + 1) (delta + (k - base + 1)) ?sz e"
    using store_meet(5) [of m base L k r "M @ R"] Cons.prems p k r by simp
  have nb: "nb = (if M = [] then k + 1 else fst (last M) + 1)"
    using Cons.prems(7) p by simp
  have M: "\<forall>q\<in>set M. fst q < high" using Cons.prems(6) by simp
  have "base \<le> k + 1" using k k1 by simp
  with Cons.IH [OF split Cons.prems(2) sz k1(2) high M nb, of "delta + (k - base + 1)"] step p
  show ?case by (auto simp: algebra_simps)
qed

text \<open>
  The map after a successful store, for each strategy, and the cases in which the store
  fails.  \<open>upper_skip\<close> are the ranges a \<open>kTruncateUpper\<close> store steps over.
\<close>

definition upper_skip :: "('a::len word, ('a word, 'e) Range) smap \<Rightarrow> 'a word \<Rightarrow>
    ('a word, ('a word, 'e) Range) smap" where
  "upper_skip R high = takeWhile (\<lambda>p. fst p < high) R"

lemma store_exclusive:
  assumes split: "split_at_base (rmap m) base L R" and "merge_strategy m = kExclusiveRanges"
    and "sz \<noteq> 0" and "base \<le> base + (sz - 1)"
  shows "StoreRangeInternal m base delta sz e =
    (if (case R of [] \<Rightarrow> True | p # _ \<Rightarrow> base + (sz - 1) < r_base (snd p))
     then Some (m\<lparr>rmap := L @ (base + (sz - 1), \<lparr>r_base = base, r_delta = delta, r_entry = e\<rparr>) # R\<rparr>, True)
     else Some (m, False))"
proof (cases "case R of [] \<Rightarrow> True | p # _ \<Rightarrow> base + (sz - 1) < r_base (snd p)")
  case True
  with store_free [OF split assms(3,4)] show ?thesis by simp
next
  case False
  then obtain k r R' where R: "R = (k, r) # R'" and le: "r_base r \<le> base + (sz - 1)"
    by (auto split: list.splits)
  then show ?thesis
    using store_meet(1) [OF split [unfolded R] assms(3,4) refl le assms(2)] by simp
qed

lemma store_truncate_lower:
  assumes split: "split_at_base (rmap m) base L R" and strategy: "merge_strategy m = kTruncateLower"
    and sz: "sz \<noteq> 0" and valid: "base \<le> base + (sz - 1)"
  shows "StoreRangeInternal m base delta sz e =
    (case R of
       [] \<Rightarrow> Some (m\<lparr>rmap := L @ [(base + (sz - 1), \<lparr>r_base = base, r_delta = delta, r_entry = e\<rparr>)]\<rparr>, True)
     | p # R' \<Rightarrow>
         if r_base (snd p) = base then Some (m, False)
         else if base < r_base (snd p) then
           Some (m\<lparr>rmap := L @ (lower_cut_high R (base + (sz - 1)),
                       \<lparr>r_base = base, r_delta = delta, r_entry = e\<rparr>) # R\<rparr>, True)
         else Some (m\<lparr>rmap := L @ (base - 1, snd p) # (lower_cut_high R' (base + (sz - 1)),
                       \<lparr>r_base = base, r_delta = delta, r_entry = e\<rparr>) # R'\<rparr>, True))"
proof (cases R)
  case Nil
  with store_free [OF split sz valid] show ?thesis by simp
next
  case (Cons p R')
  obtain k r where p: "p = (k, r)" by (cases p)
  note split' = split [unfolded Cons p]
  show ?thesis
  proof (cases "r_base r" base rule: linorder_cases)
    case equal
    with store_meet(2) [OF split' sz valid refl _ strategy] valid Cons p show ?thesis by simp
  next
    case greater
    with store_truncate_lower_gap [OF split strategy sz valid] Cons p show ?thesis
      by (simp add: less_imp_neq [symmetric])
  next
    case less
    note cut = split_cut_lower [OF split' less]
    let ?m = "m\<lparr>rmap := L @ (base - 1, r) # R'\<rparr>"
    have split2: "split_at_base (rmap ?m) base (L @ [(base - 1, r)]) R'"
      using cut(2) by simp
    have "base \<le> k" "ranges_ok (L @ (k, r) # R')"
      using split' by (auto simp: split_at_base_def)
    then have "case R' of [] \<Rightarrow> True | p # _ \<Rightarrow> base < r_base (snd p)"
      by (auto simp: ranges_ok_append ranges_ok_Cons split: list.splits)
    from store_truncate_lower_gap [OF split2 _ sz valid this] strategy
    show ?thesis
      using store_meet(4) [OF split' sz valid refl _ strategy less] less valid Cons p
      by (simp add: less_imp_neq less_asym')
  qed
qed

lemma store_truncate_upper:
  fixes m :: "('a::len word, 'e) range_map"
  assumes split: "split_at_base (rmap m) base L (M @ R)" and strategy: "merge_strategy m = kTruncateUpper"
    and sz: "sz \<noteq> 0" and valid: "base \<le> high" and high: "high = base + (sz - 1)"
    and M: "\<forall>p\<in>set M. fst p < high" and R: "\<forall>p\<in>set R. high \<le> fst p"
    and nb: "nb = (if M = [] then base else fst (last M) + 1)"
    and new: "new = (high, \<lparr>r_base = nb, r_delta = delta + (nb - base), r_entry = e\<rparr>)"
  shows "StoreRangeInternal m base delta sz e =
    (case R of
       [] \<Rightarrow> Some (m\<lparr>rmap := L @ M @ [new]\<rparr>, True)
     | p # R' \<Rightarrow>
         if high < r_base (snd p) then Some (m\<lparr>rmap := L @ M @ new # p # R'\<rparr>, True)
         else if fst p = high then Some (m, False)
         else Some (m\<lparr>rmap := L @ M @ new #
           (fst p, \<lparr>r_base = high + 1, r_delta = r_delta (snd p) + (high - r_base (snd p) + 1),
                    r_entry = r_entry (snd p)\<rparr>) # R'\<rparr>, True))"
proof -
  let ?sz = "sz - (nb - base)" and ?d = "delta + (nb - base)"
  have skip: "StoreRangeInternal m base delta sz e = StoreRangeInternal m nb ?d ?sz e"
    and split2: "split_at_base (rmap m) nb (L @ M) R"
    and nbh: "nb \<le> high" and high2: "high = nb + (?sz - 1)" and sz2: "?sz \<noteq> 0"
    using store_truncate_upper_skip [OF split strategy sz valid high M nb] by blast+
  show ?thesis
  proof (cases R)
    case Nil
    with store_free [OF split2 sz2] nbh skip new show ?thesis by (simp add: high2 [symmetric])
  next
    case (Cons p R')
    obtain k r where p: "p = (k, r)" by (cases p)
    note split3 = split2 [unfolded Cons p]
    have k: "high \<le> k" using R Cons p by simp
    show ?thesis
    proof (cases "high < r_base r")
      case True
      with store_free [OF split2 sz2] nbh skip new Cons p show ?thesis
        by (simp add: high2 [symmetric])
    next
      case False
      then have le: "r_base r \<le> high" by simp
      show ?thesis
      proof (cases "k = high")
        case True
        with store_meet(6) [OF split3 sz2 nbh high2 le strategy] skip Cons p le show ?thesis
          by simp
      next
        case False
        then have hk: "high < k" using k by simp
        let ?r = "\<lparr>r_base = high + 1, r_delta = r_delta r + (high - r_base r + 1),
          r_entry = r_entry r\<rparr>"
        let ?m = "m\<lparr>rmap := (L @ M) @ (k, ?r) # R'\<rparr>"
        have "split_at_base (rmap ?m) nb (L @ M) ((k, ?r) # R')"
          using split_cut_upper(2) [OF split3 nbh hk] by simp
        moreover have "high < high + 1" using hk by (rule word_less_plus_one)
        ultimately have "StoreRangeInternal ?m nb ?d ?sz e = Some (?m\<lparr>rmap :=
            (L @ M) @ new # (k, ?r) # R'\<rparr>, True)"
          using store_free [of ?m nb "L @ M" "(k, ?r) # R'" ?sz ?d e] sz2 nbh new
          by (simp add: high2 [symmetric])
        then show ?thesis
          using store_meet(7) [OF split3 sz2 nbh high2 le strategy hk] skip Cons p le False
          by simp
      qed
    qed
  qed
qed

lemma split_take_drop_high:
  assumes split: "split_at_base xs base L R"
  shows "split_at_base xs base L (upper_skip R high @ dropWhile (\<lambda>p. fst p < high) R)"
    and "\<forall>p\<in>set (upper_skip R high). fst p < high"
    and "\<forall>p\<in>set (dropWhile (\<lambda>p. fst p < high) R). high \<le> fst p"
proof -
  show "split_at_base xs base L (upper_skip R high @ dropWhile (\<lambda>p. fst p < high) R)"
    using split by (simp add: upper_skip_def)
  show "\<forall>p\<in>set (upper_skip R high). fst p < high"
    by (auto simp: upper_skip_def dest: set_takeWhileD)
  show "\<forall>p\<in>set (dropWhile (\<lambda>p. fst p < high) R). high \<le> fst p"
  proof (cases "dropWhile (\<lambda>p. fst p < high) R")
    case (Cons q R')
    then have "\<not> fst q < high" by (rule dropWhile_nonempty_hd)
    moreover have "ordered R"
      using split ranges_ok_ordered [of xs] by (auto simp: split_at_base_def ordered_append)
    then have "ordered (takeWhile (\<lambda>p. fst p < high) R @ dropWhile (\<lambda>p. fst p < high) R)"
      by simp
    then have "ordered (q # R')" unfolding Cons by (simp add: ordered_append)
    ultimately show ?thesis using Cons by auto
  qed (simp del: dropWhile_eq_Nil_conv)
qed

lemma split_ok: "split_at_base xs base L R \<Longrightarrow> ranges_ok (L @ R)"
  by (auto simp: split_at_base_def)

lemma ranges_ok_insert:
  assumes "ranges_ok (L @ R)" and "r_base r \<le> high"
    and "\<forall>p\<in>set L. fst p < r_base r" and "case R of [] \<Rightarrow> True | p # _ \<Rightarrow> high < r_base (snd p)"
  shows "ranges_ok (L @ (high, r) # R)"
proof -
  have "high < r_base (snd q)" if "q \<in> set R" for q
  proof (cases R)
    case (Cons p R')
    then have "ranges_ok (p # R')" "high < r_base (snd p)" using assms by (auto simp: ranges_ok_append)
    then show ?thesis using that Cons by (fastforce simp: ranges_ok_Cons)
  qed (use that in simp)
  then show ?thesis using assms by (auto simp: ranges_ok_append ranges_ok_Cons)
qed

text \<open>
  Every call on a well-formed map returns, keeps the map well-formed and its strategy, and
  changes nothing when it reports failure.
\<close>

definition store_outcome ::
  "('a::len word, 'e) range_map \<Rightarrow> (('a word, 'e) range_map \<times> bool) run \<Rightarrow> bool" where
  "store_outcome m r = (case r of None \<Rightarrow> False
     | Some (m', stored) \<Rightarrow> range_map_ok m' \<and> merge_strategy m' = merge_strategy m \<and>
         (\<not> stored \<longrightarrow> m' = m))"

lemma store_outcome_False [simp]: "store_outcome m (Some (m, False)) = range_map_ok m"
  by (simp add: store_outcome_def)

lemma store_outcome_True [simp]:
  "store_outcome m (Some (m\<lparr>rmap := xs\<rparr>, True)) = ranges_ok xs"
  by (simp add: store_outcome_def range_map_ok_def)

lemma outcome_truncate_lower:
  fixes m :: "('a::len word, 'e) range_map"
  assumes ok: "range_map_ok m" and split: "split_at_base (rmap m) base L R"
    and strategy: "merge_strategy m = kTruncateLower"
    and sz: "sz \<noteq> 0" and valid: "base \<le> base + (sz - 1)"
  shows "store_outcome m (StoreRangeInternal m base delta sz e)"
proof (cases R)
  case Nil
  have "ranges_ok (L @ (base + (sz - 1), \<lparr>r_base = base, r_delta = delta, r_entry = e\<rparr>) # R)"
    using split valid Nil by (intro ranges_ok_insert) (auto simp: split_at_base_def)
  with store_truncate_lower [OF split strategy sz valid] Nil show ?thesis by simp
next
  case (Cons p R')
  have okLR: "ranges_ok (L @ R)" and L: "\<forall>q\<in>set L. fst q < base" and k: "base \<le> fst p"
    using split Cons by (auto simp: split_at_base_def)
  note eq = store_truncate_lower [OF split strategy sz valid, of delta e]
  consider "r_base (snd p) = base" | "base < r_base (snd p)" | "r_base (snd p) < base"
    by (metis linorder_less_linear)
  then show ?thesis
  proof cases
    case 1
    with eq Cons ok show ?thesis by simp
  next
    case 2
    then have "ranges_ok (L @ (lower_cut_high R (base + (sz - 1)),
        \<lparr>r_base = base, r_delta = delta, r_entry = e\<rparr>) # R)"
      using lower_cut_high [OF split valid] Cons okLR L by (intro ranges_ok_insert) auto
    with 2 eq Cons show ?thesis by (simp add: less_imp_neq [symmetric])
  next
    case 3
    obtain k r where p: "p = (k, r)" by (cases p)
    have r: "r_base r < base" using 3 p by simp
    note split2 = split_cut_lower(2) [OF split [unfolded Cons p] r]
    have "case R' of [] \<Rightarrow> True | p # _ \<Rightarrow> base < r_base (snd p)"
      using okLR Cons p k by (auto simp: ranges_ok_append ranges_ok_Cons split: list.splits)
    note cut2 = lower_cut_high [OF split2 valid this]
    have "ranges_ok ((L @ [(base - 1, r)]) @ (lower_cut_high R' (base + (sz - 1)),
        \<lparr>r_base = base, r_delta = delta, r_entry = e\<rparr>) # R')"
      using cut2 split2 L word_minus_one_less [OF r]
      by (intro ranges_ok_insert) (auto simp: split_at_base_def)
    moreover have "\<not> base < r_base r" using r by simp
    ultimately show ?thesis using 3 eq Cons p by (simp add: less_imp_neq)
  qed
qed

lemma outcome_truncate_upper:
  fixes m :: "('a::len word, 'e) range_map"
  assumes ok: "range_map_ok m" and split: "split_at_base (rmap m) base L (M @ R)"
    and strategy: "merge_strategy m = kTruncateUpper"
    and sz: "sz \<noteq> 0" and valid: "base \<le> high" and high: "high = base + (sz - 1)"
    and M: "\<forall>p\<in>set M. fst p < high" and R: "\<forall>p\<in>set R. high \<le> fst p"
  shows "store_outcome m (StoreRangeInternal m base delta sz e)"
proof -
  define nb where "nb = (if M = [] then base else fst (last M) + 1)"
  define new where "new = \<lparr>r_base = nb, r_delta = delta + (nb - base), r_entry = e\<rparr>"
  note eq = store_truncate_upper [OF split strategy sz valid high M R nb_def refl, of delta e,
      folded new_def]
  have split2: "split_at_base (rmap m) nb (L @ M) R" and nbh: "nb \<le> high"
    using store_truncate_upper_skip [OF split strategy sz valid high M nb_def] by blast+
  have below: "\<forall>p\<in>set (L @ M). fst p < r_base new"
    using split2 by (simp add: split_at_base_def new_def)
  have base: "r_base new \<le> high" using nbh by (simp add: new_def)
  note ins = ranges_ok_insert [OF _ base below]
  show ?thesis
  proof (cases R)
    case Nil
    with eq ins [of R] split_ok [OF split2] show ?thesis by simp
  next
    case (Cons p R')
    obtain k r where p: "p = (k, r)" by (cases p)
    consider "high < r_base r" | "\<not> high < r_base r" "k = high" | "\<not> high < r_base r" "high < k"
      using R Cons p by fastforce
    then show ?thesis
    proof cases
      case 1
      with eq ins [of R] split_ok [OF split2] Cons p show ?thesis by simp
    next
      case 2
      with eq ok Cons p show ?thesis by simp
    next
      case 3
      let ?r = "\<lparr>r_base = high + 1, r_delta = r_delta r + (high - r_base r + 1),
        r_entry = r_entry r\<rparr>"
      have "ranges_ok ((L @ M) @ (k, ?r) # R')"
        using split_ok [OF split_cut_upper(2) [OF split2 [unfolded Cons p] nbh 3(2), of ?r]]
        by simp
      with eq ins [of "(k, ?r) # R'"] word_less_plus_one [OF 3(2)] Cons p 3(1) less_imp_neq [OF 3(2)]
      show ?thesis by simp
    qed
  qed
qed

lemma StoreRangeInternal_outcome:
  fixes m :: "('a::len word, 'e) range_map"
  assumes ok: "range_map_ok m"
  shows "store_outcome m (StoreRangeInternal m base delta sz e)"
proof (cases "sz = 0 \<or> base + (sz - 1) < base")
  case True
  then have "StoreRangeInternal m base delta sz e = Some (m, False)" by (rule store_invalid)
  with ok show ?thesis by simp
next
  case False
  then have sz: "sz \<noteq> 0" and valid: "base \<le> base + (sz - 1)" by auto
  from ok obtain L R where split: "split_at_base (rmap m) base L R"
    using split_at_base_exists unfolding range_map_ok_def by blast
  show ?thesis
  proof (cases "merge_strategy m")
    case kExclusiveRanges
    have "ranges_ok (L @ (base + (sz - 1), \<lparr>r_base = base, r_delta = delta, r_entry = e\<rparr>) # R)"
      if "case R of [] \<Rightarrow> True | p # _ \<Rightarrow> base + (sz - 1) < r_base (snd p)"
      using split valid that by (intro ranges_ok_insert) (auto simp: split_at_base_def)
    then show ?thesis
      unfolding store_exclusive [OF split kExclusiveRanges sz valid] using ok by auto
  next
    case kTruncateLower
    with ok split sz valid show ?thesis by (intro outcome_truncate_lower)
  next
    case kTruncateUpper
    with ok split_take_drop_high [OF split] sz valid show ?thesis
      by (intro outcome_truncate_upper [OF _ _ _ _ _ refl])
  qed
qed

subsection \<open>What a store does to lookups\<close>

definition offset_in :: "('a::len word, ('a word, 'e) Range) smap \<Rightarrow> 'a word \<Rightarrow> ('e \<times> 'a word) option" where
  "offset_in xs a =
     map_option (\<lambda>p. (r_entry (snd p), a - r_base (snd p) + r_delta (snd p))) (range_of xs a)"

lemma offset_at_in: "range_map_ok m \<Longrightarrow> offset_at m a = offset_in (rmap m) a"
  by (simp add: offset_at_range_of offset_in_def)

lemma offset_in_None: "offset_in xs a = None \<longleftrightarrow> range_of xs a = None"
  by (simp add: offset_in_def)

lemma range_of_below: "\<forall>p\<in>set L. fst p < base \<Longrightarrow> base \<le> a \<Longrightarrow> range_of L a = None"
  by (auto simp: range_of_None)

lemma range_of_above: "\<forall>p\<in>set R. c \<le> r_base (snd p) \<Longrightarrow> a < c \<Longrightarrow> range_of R a = None"
  by (auto simp: range_of_None)

lemma store_result:
  assumes "range_map_ok m" and "StoreRangeInternal m base delta sz e = Some (m', stored)"
  shows "range_map_ok m'" and "merge_strategy m' = merge_strategy m" and "\<not> stored \<Longrightarrow> m' = m"
  using StoreRangeInternal_outcome [OF assms(1), of base delta sz e] assms(2)
  by (auto simp: store_outcome_def)

text \<open>
  \<open>kExclusiveRanges\<close>: a store succeeds when no stored range overlaps the new one, and then
  changes the lookups of exactly the addresses in it.
\<close>

lemma exclusive_free_iff:
  assumes split: "split_at_base xs base L R" and valid: "base \<le> high"
  shows "(case R of [] \<Rightarrow> True | p # _ \<Rightarrow> high < r_base (snd p)) =
    (\<forall>a. base \<le> a \<and> a \<le> high \<longrightarrow> range_of xs a = None)"
proof (cases R)
  case Nil
  with split show ?thesis by (auto simp: split_at_base_def intro: range_of_below)
next
  case (Cons p R')
  have ok: "ranges_ok (L @ p # R')" and L: "\<forall>q\<in>set L. fst q < base" and k: "base \<le> fst p"
    and xs: "xs = L @ p # R'"
    using split Cons by (auto simp: split_at_base_def)
  have p: "r_base (snd p) \<le> fst p" and R: "\<forall>q\<in>set (p # R'). r_base (snd p) \<le> r_base (snd q)"
    using ok by (auto simp: ranges_ok_append ranges_ok_Cons)
  show ?thesis
  proof (cases "high < r_base (snd p)")
    case True
    have "range_of (L @ p # R') a = None" if "base \<le> a" "a \<le> high" for a
      using that range_of_below [OF L that(1)] range_of_above [OF R, of a] True by simp
    with True Cons xs show ?thesis by simp
  next
    case False
    let ?a = "max base (r_base (snd p))"
    have a: "base \<le> ?a \<and> ?a \<le> high" using False valid by simp
    have "p \<in> set xs" and "r_base (snd p) \<le> ?a \<and> ?a \<le> fst p" using xs k p by auto
    then have hit: "range_of xs ?a \<noteq> None" unfolding range_of_None by blast
    have "\<not> (\<forall>a. base \<le> a \<and> a \<le> high \<longrightarrow> range_of xs a = None)"
    proof
      assume "\<forall>a. base \<le> a \<and> a \<le> high \<longrightarrow> range_of xs a = None"
      from this [rule_format, OF a] hit show False by simp
    qed
    then show ?thesis unfolding Cons list.case using False by blast
  qed
qed

lemma store_exclusive_effect:
  fixes m :: "('a::len word, 'e) range_map"
  assumes ok: "range_map_ok m" and strategy: "merge_strategy m = kExclusiveRanges"
    and valid: "sz \<noteq> 0" "base \<le> base + (sz - 1)"
    and ret: "StoreRange m base sz e = Some (m', stored)"
  shows "stored = (\<forall>a. base \<le> a \<and> a \<le> base + (sz - 1) \<longrightarrow> offset_at m a = None)"
    and "offset_at m' a =
       (if stored \<and> base \<le> a \<and> a \<le> base + (sz - 1) then Some (e, a - base) else offset_at m a)"
proof -
  obtain L R where split: "split_at_base (rmap m) base L R"
    using ok split_at_base_exists unfolding range_map_ok_def by blast
  note eq = ret [unfolded StoreRange_def store_exclusive [OF split strategy valid]]
  note ok' = store_result(1) [OF ok ret [unfolded StoreRange_def]]
  show stored: "stored = (\<forall>a. base \<le> a \<and> a \<le> base + (sz - 1) \<longrightarrow> offset_at m a = None)"
    using eq exclusive_free_iff [OF split valid(2)]
    by (simp add: offset_at_in [OF ok] offset_in_None split: if_splits)
  show "offset_at m' a =
       (if stored \<and> base \<le> a \<and> a \<le> base + (sz - 1) then Some (e, a - base) else offset_at m a)"
  proof (cases stored)
    case True
    then have m': "m' = m\<lparr>rmap := L @ (base + (sz - 1), \<lparr>r_base = base, r_delta = 0, r_entry = e\<rparr>) # R\<rparr>"
      using eq by (simp split: if_splits)
    have L: "\<forall>p\<in>set L. fst p < base" and xs: "rmap m = L @ R"
      using split by (auto simp: split_at_base_def)
    show ?thesis
      unfolding offset_at_in [OF ok] offset_at_in [OF ok']
      using True range_of_below [OF L, of a] by (auto simp: m' xs offset_in_def split: option.splits)
  next
    case False
    with store_result(3) [OF ok ret [unfolded StoreRange_def]] show ?thesis by simp
  qed
qed

text \<open>
  \<open>kTruncateLower\<close>: of two overlapping ranges the one with the lower base ends where the
  other begins.  The new range therefore stops before the next stored base, and a stored
  range that reaches into the new one loses everything from \<open>base\<close> on.  The store fails
  exactly when a stored range has the same base.
\<close>

lemma lower_cut_high_iff:
  assumes split: "split_at_base xs base L R" and "base \<le> a"
    and gap: "case R of [] \<Rightarrow> True | p # _ \<Rightarrow> base < r_base (snd p)"
  shows "a \<le> lower_cut_high R high \<longleftrightarrow>
    a \<le> high \<and> \<not> (\<exists>p\<in>set xs. base < r_base (snd p) \<and> r_base (snd p) \<le> a)"
proof -
  have ok: "ranges_ok (L @ R)" and L: "\<forall>q\<in>set L. fst q < base" and xs: "xs = L @ R"
    using split by (auto simp: split_at_base_def)
  have notL: "\<not> base < r_base (snd q)" if "q \<in> set L" for q
    using ok L that by (auto simp: ranges_ok_append dest!: ranges_okD)
  show ?thesis
  proof (cases R)
    case (Cons p R')
    have R: "\<forall>q\<in>set (p # R'). r_base (snd p) \<le> r_base (snd q)"
      using ok Cons by (auto simp: ranges_ok_append ranges_ok_Cons)
    then have "(\<exists>q\<in>set xs. base < r_base (snd q) \<and> r_base (snd q) \<le> a) = (r_base (snd p) \<le> a)"
      using notL gap Cons xs by (auto intro: order_trans)
    moreover have "0 < r_base (snd p)" using gap Cons by (auto intro: order_le_less_trans)
    ultimately show ?thesis
      using Cons by (auto simp: lower_cut_high_def word_le_minus_one_iff)
  qed (use notL xs in \<open>auto simp: lower_cut_high_def\<close>)
qed

lemma base_in_map_iff:
  assumes split: "split_at_base xs base L R"
  shows "(\<exists>p\<in>set xs. r_base (snd p) = base) =
    (case R of [] \<Rightarrow> False | p # _ \<Rightarrow> r_base (snd p) = base)"
proof -
  have ok: "ranges_ok (L @ R)" and L: "\<forall>q\<in>set L. fst q < base" and xs: "xs = L @ R"
    and R: "\<forall>q\<in>set R. base \<le> fst q"
    using split by (auto simp: split_at_base_def)
  have "r_base (snd q) \<noteq> base" if "q \<in> set L" for q
    using ok L that by (auto simp: ranges_ok_append dest!: ranges_okD)
  moreover have "r_base (snd q) \<noteq> base" if "R = p # R'" "q \<in> set R'" for p R' q
    using ok R that by (auto simp: ranges_ok_append ranges_ok_Cons)
  ultimately show ?thesis using xs by (cases R) fastforce+
qed

lemma truncate_lower_gap_offset:
  assumes split: "split_at_base xs base L R" and "base \<le> high"
    and gap: "case R of [] \<Rightarrow> True | p # _ \<Rightarrow> base < r_base (snd p)"
  shows "offset_in (L @ (lower_cut_high R high, \<lparr>r_base = base, r_delta = d, r_entry = e\<rparr>) # R) a =
    (if base \<le> a \<and> a \<le> high \<and> \<not> (\<exists>p\<in>set xs. base < r_base (snd p) \<and> r_base (snd p) \<le> a)
     then Some (e, a - base + d) else offset_in xs a)"
proof -
  have L: "\<forall>p\<in>set L. fst p < base" and xs: "xs = L @ R"
    using split by (auto simp: split_at_base_def)
  show ?thesis
  proof (cases "base \<le> a")
    case True
    have new: "range_of (L @ (lower_cut_high R high, \<lparr>r_base = base, r_delta = d, r_entry = e\<rparr>) # R) a =
        (if a \<le> lower_cut_high R high
         then Some (lower_cut_high R high, \<lparr>r_base = base, r_delta = d, r_entry = e\<rparr>)
         else range_of xs a)"
      using range_of_below [OF L True] True xs by simp
    show ?thesis
      unfolding offset_in_def new lower_cut_high_iff [OF split True gap, of high] using True by auto
  next
    case False
    with xs show ?thesis by (auto simp: offset_in_def split: option.splits)
  qed
qed

text \<open>After the range that reaches over \<open>base\<close> was cut.\<close>

lemma truncate_lower_cut_offset:
  assumes split: "split_at_base xs base L ((k, r) # R)" and r: "r_base r < base"
  shows "offset_in (L @ (base - 1, r) # R) a =
    (if base \<le> a \<and> r_base r \<le> a \<and> a \<le> k then None else offset_in xs a)"
proof -
  have ok: "ranges_ok (L @ (k, r) # R)" and L: "\<forall>p\<in>set L. fst p < base" and k: "base \<le> k"
    and xs: "xs = L @ (k, r) # R"
    using split by (auto simp: split_at_base_def)
  have R: "\<forall>q\<in>set R. k < r_base (snd q)"
    using ok by (auto simp: ranges_ok_append ranges_ok_Cons)
  have b: "0 < base" using r by (auto intro: order_le_less_trans)
  show ?thesis
  proof (cases "base \<le> a")
    case True
    have "range_of R a = None" if "a \<le> k"
      using R that by (auto simp: range_of_None)
    with True b range_of_below [OF L True] xs r show ?thesis
      by (auto simp: offset_in_def word_le_minus_one_iff)
  next
    case False
    then have "a \<le> base - 1 \<and> a \<le> k" using b k by (auto simp: word_le_minus_one_iff)
    with xs False show ?thesis by (auto simp: offset_in_def split: option.splits)
  qed
qed

lemma store_truncate_lower_effect:
  fixes m :: "('a::len word, 'e) range_map"
  assumes ok: "range_map_ok m" and strategy: "merge_strategy m = kTruncateLower"
    and valid: "sz \<noteq> 0" "base \<le> base + (sz - 1)"
    and ret: "StoreRange m base sz e = Some (m', stored)"
  shows "stored = (\<not> (\<exists>p\<in>set (rmap m). r_base (snd p) = base))"
    and "stored \<Longrightarrow> offset_at m' a =
       (if base \<le> a \<and> a \<le> base + (sz - 1) \<and>
           \<not> (\<exists>p\<in>set (rmap m). base < r_base (snd p) \<and> r_base (snd p) \<le> a)
        then Some (e, a - base)
        else if base \<le> a \<and> (\<exists>p. range_of (rmap m) a = Some p \<and> r_base (snd p) < base)
        then None else offset_at m a)"
proof -
  obtain L R where split: "split_at_base (rmap m) base L R"
    using ok split_at_base_exists unfolding range_map_ok_def by blast
  note eq = ret [unfolded StoreRange_def store_truncate_lower [OF split strategy valid]]
  note ok' = store_result(1) [OF ok ret [unfolded StoreRange_def]]
  have xs: "rmap m = L @ R" and okLR: "ranges_ok (L @ R)" and L: "\<forall>p\<in>set L. fst p < base"
    and Rk: "\<forall>p\<in>set R. base \<le> fst p"
    using split by (auto simp: split_at_base_def)
  show "stored = (\<not> (\<exists>p\<in>set (rmap m). r_base (snd p) = base))"
    unfolding base_in_map_iff [OF split] using eq by (auto split: list.splits if_splits)
  assume stored: stored
  show "offset_at m' a =
       (if base \<le> a \<and> a \<le> base + (sz - 1) \<and>
           \<not> (\<exists>p\<in>set (rmap m). base < r_base (snd p) \<and> r_base (snd p) \<le> a)
        then Some (e, a - base)
        else if base \<le> a \<and> (\<exists>p. range_of (rmap m) a = Some p \<and> r_base (snd p) < base)
        then None else offset_at m a)"
  proof (cases "case R of [] \<Rightarrow> True | p # _ \<Rightarrow> base < r_base (snd p)")
    case True
    then have m': "rmap m' = L @ (lower_cut_high R (base + (sz - 1)),
        \<lparr>r_base = base, r_delta = 0, r_entry = e\<rparr>) # R"
      using eq stored by (auto simp: lower_cut_high_def split: list.splits if_splits)
    have "\<not> r_base (snd p) < base" if "base \<le> a" "range_of (rmap m) a = Some p" for p
    proof -
      have "p \<in> set R" using that range_of_below [OF L that(1)] xs
        by (auto dest: range_of_SomeD)
      then show ?thesis using True okLR
        by (cases R) (auto simp: ranges_ok_append ranges_ok_Cons dest!: ranges_okD)
    qed
    then show ?thesis
      unfolding offset_at_in [OF ok] offset_at_in [OF ok'] m'
        truncate_lower_gap_offset [OF split valid(2) True] by auto
  next
    case False
    then obtain k r R' where R: "R = (k, r) # R'" by (auto split: list.splits)
    have r: "r_base r < base" using False R eq stored by (auto split: if_splits)
    note split1 = split [unfolded R]
    note split2 = split_cut_lower(2) [OF split1 r]
    have gap: "case R' of [] \<Rightarrow> True | p # _ \<Rightarrow> base < r_base (snd p)"
      using okLR R Rk by (auto simp: ranges_ok_append ranges_ok_Cons split: list.splits)
    have m': "rmap m' = (L @ [(base - 1, r)]) @ (lower_cut_high R' (base + (sz - 1)),
        \<lparr>r_base = base, r_delta = 0, r_entry = e\<rparr>) # R'"
      using eq stored R r by (auto split: if_splits)
    have bases: "(\<exists>p\<in>set (L @ (base - 1, r) # R'). base < r_base (snd p) \<and> r_base (snd p) \<le> a) =
        (\<exists>p\<in>set (rmap m). base < r_base (snd p) \<and> r_base (snd p) \<le> a)"
      using xs R by auto
    have hit: "(\<exists>p. range_of (rmap m) a = Some p \<and> r_base (snd p) < base) =
        (r_base r \<le> a \<and> a \<le> k)" if "base \<le> a"
      using that range_of_below [OF L that] xs R r okLR Rk
      by (auto simp: ranges_ok_append ranges_ok_Cons dest!: range_of_SomeD)
    show ?thesis
      unfolding offset_at_in [OF ok] offset_at_in [OF ok'] m'
        truncate_lower_gap_offset [OF split2 valid(2) gap]
        truncate_lower_cut_offset [OF split1 r] bases using hit by auto
  qed
qed

text \<open>
  \<open>kTruncateUpper\<close>: of two overlapping ranges the one that ends higher begins after the
  other ends.  The new range begins after the stored ranges that end in it, and a stored
  range that ends above it loses everything up to \<open>high\<close>.  The store fails exactly when
  a stored range ends where the new one does.
\<close>

lemma high_in_map_iff:
  assumes split: "split_at_base xs base L R" and "base \<le> high" and "\<forall>p\<in>set R. high \<le> fst p"
  shows "(\<exists>p\<in>set xs. fst p = high) = (case R of [] \<Rightarrow> False | p # _ \<Rightarrow> fst p = high)"
proof -
  have ok: "ranges_ok (L @ R)" and L: "\<forall>q\<in>set L. fst q < base" and xs: "xs = L @ R"
    using split by (auto simp: split_at_base_def)
  have "fst q \<noteq> high" if "q \<in> set L" for q using L assms(2) that by fastforce
  moreover have "fst q \<noteq> high" if "R = p # R'" "q \<in> set R'" for p R' q
    using ranges_ok_ordered [OF ok] assms(3) that by (fastforce simp: ordered_append)
  ultimately show ?thesis using xs by (cases R) fastforce+
qed

lemma upper_begin_iff:
  assumes split: "split_at_base xs base L (M @ R)" and split2: "split_at_base xs nb (L @ M) R"
    and M: "\<forall>p\<in>set M. fst p < high" and R: "\<forall>p\<in>set R. high \<le> fst p"
    and nb: "nb = (if M = [] then base else fst (last M) + 1)" and "base \<le> nb"
  shows "nb \<le> a \<longleftrightarrow> base \<le> a \<and> \<not> (\<exists>p\<in>set xs. a \<le> fst p \<and> fst p < high)" (is "_ = ?r")
proof
  have xs: "xs = (L @ M) @ R" and below: "\<forall>p\<in>set (L @ M). fst p < nb"
    using split2 by (auto simp: split_at_base_def)
  assume "nb \<le> a"
  then have "\<forall>p\<in>set (L @ M). fst p < a" using below by (auto intro: order_less_le_trans)
  then have "high \<le> fst p" if "p \<in> set xs" "a \<le> fst p" for p
    using that R unfolding xs by (metis Un_iff leD set_append)
  then show ?r using \<open>nb \<le> a\<close> assms(6) by (meson leD order_trans)
next
  assume r: ?r
  show "nb \<le> a"
  proof (cases "M = []")
    case False
    then have "last M \<in> set xs" and "fst (last M) < high"
      using split M by (auto simp: split_at_base_def)
    with r False nb show ?thesis by (auto simp: word_plus_one_le_iff not_le)
  qed (use r nb in simp)
qed

lemma truncate_upper_offset:
  assumes split2: "split_at_base xs nb B R" and "nb \<le> high" and R: "\<forall>p\<in>set R. high \<le> fst p"
    and new: "new = (high, \<lparr>r_base = nb, r_delta = nb - base, r_entry = e\<rparr>)"
    and R2: "R2 = (case R of [] \<Rightarrow> [] | (k, r) # R' \<Rightarrow> if high < r_base r then R
        else (k, \<lparr>r_base = high + 1, r_delta = r_delta r + (high - r_base r + 1),
                  r_entry = r_entry r\<rparr>) # R')"
    and neq: "case R of [] \<Rightarrow> True | (k, r) # _ \<Rightarrow> high < k"
  shows "offset_in (B @ new # R2) a =
    (if nb \<le> a \<and> a \<le> high then Some (e, a - base)
     else if a \<le> high \<and> (\<exists>p. range_of xs a = Some p \<and> high < fst p) then None
     else offset_in xs a)"
proof -
  have xs: "xs = B @ R" and ok: "ranges_ok (B @ R)" and B: "\<forall>p\<in>set B. fst p < nb"
    using split2 by (auto simp: split_at_base_def)
  have Bh: "\<not> high < fst p" if "p \<in> set B" for p using B assms(2) that by fastforce
  have newr: "range_of (new # R2) a = (if nb \<le> a \<and> a \<le> high then Some new else range_of R2 a)"
    using new by simp
  have R2_low: "range_of R2 a = None" if "a \<le> high"
  proof (cases R)
    case (Cons p R')
    obtain k r where p: "p = (k, r)" by (cases p)
    have "high < k" using neq Cons p by simp
    then have "high < high + 1" by (rule word_less_plus_one)
    moreover have "\<forall>q\<in>set R'. k < r_base (snd q)"
      using ok Cons p by (auto simp: ranges_ok_append ranges_ok_Cons)
    ultimately show ?thesis
      using that R2 Cons p \<open>high < k\<close> by (auto simp: range_of_None)
  qed (simp add: R2)
  have R2_high: "offset_in R2 a = offset_in R a" if "high < a"
  proof (cases R)
    case (Cons p R')
    obtain k r where p: "p = (k, r)" by (cases p)
    have "(high + 1 \<le> a) = (high < a)" using neq Cons p by (simp add: word_plus_one_le_iff)
    then show ?thesis using that R2 Cons p
      by (auto simp: offset_in_def split: if_splits)
  qed (simp add: R2)
  have hR: "high < fst p" if "p \<in> set R" for p
    using that neq ranges_ok_ordered [OF ok] by (cases R) (auto simp: ordered_append)
  have old: "(\<exists>p. range_of xs a = Some p \<and> high < fst p) = (range_of B a = None \<and> range_of R a \<noteq> None)"
  proof (cases "range_of B a")
    case None
    then have "range_of xs a = range_of R a" by (simp add: xs)
    then show ?thesis using None by (cases "range_of R a") (auto dest: range_of_SomeD hR)
  next
    case (Some p)
    with Bh [of p] show ?thesis unfolding xs by (auto dest!: range_of_SomeD)
  qed
  show ?thesis
  proof (cases "nb \<le> a")
    case True
    then have "range_of B a = None" using B by (intro range_of_below)
    with True R2_high newr xs new show ?thesis
      by (cases "a \<le> high") (auto simp: offset_in_def not_le)
  next
    case False
    then have a: "a \<le> high" using assms(2) by simp
    with False R2_low newr xs old show ?thesis
      by (auto simp: offset_in_def split: option.splits)
  qed
qed

lemma store_truncate_upper_effect:
  fixes m :: "('a::len word, 'e) range_map"
  assumes ok: "range_map_ok m" and strategy: "merge_strategy m = kTruncateUpper"
    and valid: "sz \<noteq> 0" "base \<le> base + (sz - 1)"
    and ret: "StoreRange m base sz e = Some (m', stored)"
  shows "stored = (\<not> (\<exists>p\<in>set (rmap m). fst p = base + (sz - 1)))"
    and "stored \<Longrightarrow> offset_at m' a =
       (if base \<le> a \<and> a \<le> base + (sz - 1) \<and>
           \<not> (\<exists>p\<in>set (rmap m). a \<le> fst p \<and> fst p < base + (sz - 1))
        then Some (e, a - base)
        else if a \<le> base + (sz - 1) \<and>
                (\<exists>p. range_of (rmap m) a = Some p \<and> base + (sz - 1) < fst p)
        then None else offset_at m a)"
proof -
  define high where "high = base + (sz - 1)"
  have bh: "base \<le> high" using valid by (simp add: high_def)
  obtain L R0 where split0: "split_at_base (rmap m) base L R0"
    using ok split_at_base_exists unfolding range_map_ok_def by blast
  obtain M R where split: "split_at_base (rmap m) base L (M @ R)"
    and M: "\<forall>p\<in>set M. fst p < high" and R: "\<forall>p\<in>set R. high \<le> fst p"
    using split_take_drop_high [OF split0, of high] by blast
  define nb where "nb = (if M = [] then base else fst (last M) + 1)"
  define new where "new = (high, \<lparr>r_base = nb, r_delta = nb - base, r_entry = e\<rparr>)"
  note eq = ret [unfolded StoreRange_def
      store_truncate_upper [OF split strategy valid(1) bh high_def M R nb_def refl, of 0 e]
      add_0, folded new_def]
  note ok' = store_result(1) [OF ok ret [unfolded StoreRange_def]]
  have split2: "split_at_base (rmap m) nb (L @ M) R" and nbh: "nb \<le> high" and bnb: "base \<le> nb"
    using store_truncate_upper_skip [OF split strategy valid(1) bh high_def M nb_def] by blast+
  have hit: "(case R of [] \<Rightarrow> False | p # _ \<Rightarrow> fst p = high) = (\<exists>p\<in>set (rmap m). fst p = high)"
    using high_in_map_iff [OF split2 nbh R] by simp
  have okR: "ranges_ok R" using split_ok [OF split2] by (simp add: ranges_ok_append)
  show "stored = (\<not> (\<exists>p\<in>set (rmap m). fst p = base + (sz - 1)))"
    unfolding high_def [symmetric] hit [symmetric]
    using eq okR by (auto simp: ranges_ok_Cons split: list.splits if_splits)
  assume stored: stored
  have neq: "case R of [] \<Rightarrow> True | (k, r) # _ \<Rightarrow> high < k"
    using eq stored R okR by (force simp: ranges_ok_Cons split: list.splits if_splits)
  define R2 where "R2 = (case R of [] \<Rightarrow> [] | (k, r) # R' \<Rightarrow> if high < r_base r then R
        else (k, \<lparr>r_base = high + 1, r_delta = r_delta r + (high - r_base r + 1),
                  r_entry = r_entry r\<rparr>) # R')"
  have m': "rmap m' = (L @ M) @ new # R2"
    using eq stored by (auto simp: R2_def split: list.splits if_splits)
  show "offset_at m' a =
       (if base \<le> a \<and> a \<le> base + (sz - 1) \<and>
           \<not> (\<exists>p\<in>set (rmap m). a \<le> fst p \<and> fst p < base + (sz - 1))
        then Some (e, a - base)
        else if a \<le> base + (sz - 1) \<and>
                (\<exists>p. range_of (rmap m) a = Some p \<and> base + (sz - 1) < fst p)
        then None else offset_at m a)"
    unfolding high_def [symmetric] offset_at_in [OF ok] offset_at_in [OF ok'] m'
      truncate_upper_offset [OF split2 nbh R new_def R2_def neq]
      upper_begin_iff [OF split split2 M R nb_def bnb] by auto
qed

subsection \<open>The nearest range\<close>

text \<open>
  \<open>RetrieveNearestRange\<close> finds the last range that begins at or below the address,
  whether or not the range reaches the address.
\<close>

lemma range_of_last:
  assumes ok: "ranges_ok xs" and p: "range_of xs a = Some p" and q: "q \<in> set xs" "r_base (snd q) \<le> a"
  shows "fst q \<le> fst p"
proof (rule ccontr)
  assume "\<not> fst q \<le> fst p"
  moreover obtain i j where "i < length xs" "xs ! i = p" "j < length xs" "xs ! j = q"
    using p q(1) by (auto dest!: range_of_SomeD simp: in_set_conv_nth)
  moreover have "range_map_ok \<lparr>merge_strategy = kExclusiveRanges, rmap = xs\<rparr>"
    using ok by (simp add: range_map_ok_def)
  ultimately have "fst p < r_base (snd q)"
    using rm.keys_mono [of "\<lparr>merge_strategy = kExclusiveRanges, rmap = xs\<rparr>" j i]
      rm.disjoint_ranges [of "\<lparr>merge_strategy = kExclusiveRanges, rmap = xs\<rparr>" i j]
    by (cases "j \<le> i") auto
  moreover have "r_base (snd q) \<le> fst p"
    using range_of_SomeD [OF p] q(2) by (auto intro: order_trans)
  ultimately show False by simp
qed

lemma RetrieveNearestRange_greatest:
  assumes ok: "range_map_ok m"
  shows "RetrieveNearestRange m a = Some out \<longleftrightarrow>
    (\<exists>p\<in>set (rmap m). out = range_outputs p \<and> r_base (snd p) \<le> a \<and>
       (\<forall>q\<in>set (rmap m). r_base (snd q) \<le> a \<longrightarrow> fst q \<le> fst p))" (is "_ = ?r out")
proof -
  have okm: "ranges_ok (rmap m)" using ok by (simp add: range_map_ok_def)
  have inj: "p = q" if "p \<in> set (rmap m)" "q \<in> set (rmap m)" "fst p = fst q" for p q
    using that ordered_distinct [OF ranges_ok_ordered [OF okm]] by (metis eq_key_imp_eq_value prod.collapse)
  have uniq: "?r out \<longleftrightarrow> out = range_outputs p"
    if "p \<in> set (rmap m)" "r_base (snd p) \<le> a"
      "\<forall>q\<in>set (rmap m). r_base (snd q) \<le> a \<longrightarrow> fst q \<le> fst p" for p
    using that inj by (metis antisym)
  show ?thesis
  proof (cases "range_of (rmap m) a")
    case (Some p)
    then have "p \<in> set (rmap m)" "r_base (snd p) \<le> a"
      "\<forall>q\<in>set (rmap m). r_base (snd q) \<le> a \<longrightarrow> fst q \<le> fst p"
      using range_of_last [OF okm Some] by (auto dest: range_of_SomeD)
    from uniq [OF this] show ?thesis
      using Some by (auto simp: RetrieveNearestRange_def RetrieveRange_range_of [OF ok])
  next
    case None
    have free: "fst q < a" if "q \<in> set (rmap m)" "r_base (snd q) \<le> a" for q
      using None that by (auto simp: range_of_None)
    have eq: "RetrieveNearestRange m a = (if upper_bound (rmap m) a = 0 then None
        else Some (range_outputs (rmap m ! (upper_bound (rmap m) a - 1))))"
      using None by (simp add: RetrieveNearestRange_def RetrieveRange_range_of [OF ok] Let_def)
    show ?thesis
    proof (cases "upper_bound (rmap m) a")
      case 0
      then have "\<forall>j. j < length (rmap m) \<longrightarrow> a < fst (rmap m ! j)"
        by (simp add: rm.no_predecessor_iff [OF ok])
      then have "\<not> ?r out" using free by (metis in_set_conv_nth less_asym)
      with eq 0 show ?thesis by simp
    next
      case (Suc i)
      then have "0 < upper_bound (rmap m) a \<and> i = upper_bound (rmap m) a - 1" by simp
      then have i: "i < length (rmap m)" "fst (rmap m ! i) \<le> a"
        "\<forall>j. j < length (rmap m) \<longrightarrow> fst (rmap m ! j) \<le> a \<longrightarrow> j \<le> i"
        unfolding rm.predecessor_iff [OF ok] by blast+
      have "fst q \<le> fst (rmap m ! i)" if "q \<in> set (rmap m)" "r_base (snd q) \<le> a" for q
      proof -
        from that(1) obtain j where j: "j < length (rmap m)" "rmap m ! j = q"
          by (auto simp: in_set_conv_nth)
        with free [OF that] i(3) have "j \<le> i" by (simp add: less_imp_le)
        with rm.keys_mono [OF ok this i(1)] j show ?thesis by simp
      qed
      moreover have "r_base (snd (rmap m ! i)) \<le> a"
        using rm.low_le_key [OF ok i(1)] i(2) by simp
      ultimately have "?r out \<longleftrightarrow> out = range_outputs (rmap m ! i)"
        using i(1) by (intro uniq) auto
      with eq Suc show ?thesis by auto
    qed
  qed
qed

text \<open>What a client that stores exclusive ranges needs: every store returns, with its ranges.\<close>

lemma store_exclusive_run:
  fixes m :: "('a::len word, 'e) range_map"
  assumes ok: "range_map_ok m" and strategy: "merge_strategy m = kExclusiveRanges"
  shows "\<exists>m' stored. StoreRange m base sz e = Some (m', stored) \<and> range_map_ok m' \<and>
    merge_strategy m' = kExclusiveRanges \<and>
    (if stored then sz \<noteq> 0 \<and> base \<le> base + (sz - 1) \<and>
       set (rmap m') = insert (base + (sz - 1), \<lparr>r_base = base, r_delta = 0, r_entry = e\<rparr>) (set (rmap m))
     else m' = m)"
proof (cases "sz = 0 \<or> base + (sz - 1) < base")
  case True
  then show ?thesis using store_invalid [OF True, of m 0 e] ok strategy by (auto simp: StoreRange_def)
next
  case False
  then have v: "sz \<noteq> 0" "base \<le> base + (sz - 1)" by auto
  obtain L R where split: "split_at_base (rmap m) base L R"
    using ok split_at_base_exists unfolding range_map_ok_def by blast
  have run: "\<exists>m' stored. StoreRange m base sz e = Some (m', stored)"
    "\<And>m' stored. StoreRange m base sz e = Some (m', stored) \<Longrightarrow>
       range_map_ok m' \<and> merge_strategy m' = merge_strategy m"
    using StoreRangeInternal_outcome [OF ok, of base 0 sz e]
    by (auto simp: store_outcome_def StoreRange_def split: option.split_asm)
  have sets: "set (rmap m) = set L \<union> set R" using split by (auto simp: split_at_base_def)
  have "if stored then set (rmap m') =
         insert (base + (sz - 1), \<lparr>r_base = base, r_delta = 0, r_entry = e\<rparr>) (set (rmap m))
       else m' = m"
    if st: "StoreRange m base sz e = Some (m', stored)" for m' stored
  proof (cases "case R of [] \<Rightarrow> True | p # _ \<Rightarrow> base + (sz - 1) < r_base (snd p)")
    case True
    with st have "stored" and
      "m' = m\<lparr>rmap := L @ (base + (sz - 1), \<lparr>r_base = base, r_delta = 0, r_entry = e\<rparr>) # R\<rparr>"
      unfolding StoreRange_def store_exclusive [OF split strategy v] by simp_all
    then show ?thesis unfolding sets by simp
  next
    case False
    with st have "\<not> stored" and "m' = m"
      unfolding StoreRange_def store_exclusive [OF split strategy v] by simp_all
    then show ?thesis by simp
  qed
  moreover obtain m' stored where st: "StoreRange m base sz e = Some (m', stored)"
    using run(1) by blast
  ultimately have "if stored then set (rmap m') =
         insert (base + (sz - 1), \<lparr>r_base = base, r_delta = 0, r_entry = e\<rparr>) (set (rmap m))
       else m' = m" by blast
  with st run(2) [OF st] strategy v show ?thesis
    by (intro exI [of _ m'] exI [of _ stored]) (cases stored; simp)
qed

subsection \<open>Properties\<close>

text \<open>
  C2: Under the exclusive strategy a store of a valid range succeeds exactly when no address
  of the range is already covered; a successful store makes every address of the range look
  up the new entry at its offset from the base, and no other lookup changes.
\<close>

theorem StoreRange_exclusive:
  assumes "range_map_ok m" and "merge_strategy m = kExclusiveRanges"
    and "sz \<noteq> 0" and "base \<le> base + (sz - 1)"
    and "StoreRange m base sz e = Some (m', stored)"
  shows "stored = (\<forall>a. base \<le> a \<and> a \<le> base + (sz - 1) \<longrightarrow> offset_at m a = None) \<and>
    (\<forall>a. offset_at m' a =
       (if stored \<and> base \<le> a \<and> a \<le> base + (sz - 1) then Some (e, a - base) else offset_at m a))"
  using store_exclusive_effect [OF assms] by blast

definition sample_map :: "MergeRangeStrategy \<Rightarrow> (u32, char) range_map" where
  "sample_map strategy = \<lparr>merge_strategy = strategy,
     rmap = [(19, \<lparr>r_base = 10, r_delta = 0, r_entry = CHR ''a''\<rparr>)]\<rparr>"

lemma sample_map_ok: "range_map_ok (sample_map strategy)"
  by (simp add: sample_map_def range_map_ok_def ranges_ok_def)

lemmas store_eval = StoreRange_def StoreRangeInternal.simps lower_bound_def RetrieveRange_def
  range_outputs_def smap_erase_def Let_def sample_map_def

theorem StoreRange_exclusive_witness:
  "offset_at (sample_map kExclusiveRanges\<lparr>rmap :=
      [(19, \<lparr>r_base = 10, r_delta = 0, r_entry = CHR ''a''\<rparr>),
       (29, \<lparr>r_base = 20, r_delta = 0, r_entry = CHR ''b''\<rparr>)]\<rparr>) 22 = Some (CHR ''b'', 2)"
proof -
  have "StoreRange (sample_map kExclusiveRanges) 20 10 (CHR ''b'') =
      Some (sample_map kExclusiveRanges\<lparr>rmap :=
        [(19, \<lparr>r_base = 10, r_delta = 0, r_entry = CHR ''a''\<rparr>),
         (29, \<lparr>r_base = 20, r_delta = 0, r_entry = CHR ''b''\<rparr>)]\<rparr>, True)"
    by (simp add: store_eval)
  from StoreRange_exclusive [OF sample_map_ok _ _ _ this] show ?thesis
    by (simp add: sample_map_def)
qed

text \<open>
  C3: Under \<open>kTruncateLower\<close> a store of a valid range fails only when an existing range
  has the same base.  A successful store gives the new entry every address of the range below
  the first existing range that starts inside it, cuts the tail of a range that starts below
  and reaches into the new one, and changes no other lookup.
\<close>

theorem StoreRange_truncate_lower:
  assumes "range_map_ok m" and "merge_strategy m = kTruncateLower"
    and "sz \<noteq> 0" and "base \<le> base + (sz - 1)"
    and "StoreRange m base sz e = Some (m', stored)"
  shows "stored = (\<not> (\<exists>p\<in>set (rmap m). r_base (snd p) = base)) \<and>
    (stored \<longrightarrow> (\<forall>a. offset_at m' a =
       (if base \<le> a \<and> a \<le> base + (sz - 1) \<and>
           \<not> (\<exists>p\<in>set (rmap m). base < r_base (snd p) \<and> r_base (snd p) \<le> a)
        then Some (e, a - base)
        else if base \<le> a \<and> (\<exists>p. range_of (rmap m) a = Some p \<and> r_base (snd p) < base)
        then None else offset_at m a)))"
  using store_truncate_lower_effect [OF assms] by blast

theorem StoreRange_truncate_lower_witness:
  "offset_at (sample_map kTruncateLower\<lparr>rmap :=
      [(14, \<lparr>r_base = 10, r_delta = 0, r_entry = CHR ''a''\<rparr>),
       (24, \<lparr>r_base = 15, r_delta = 0, r_entry = CHR ''b''\<rparr>)]\<rparr>) 17 = Some (CHR ''b'', 2)"
proof -
  have "StoreRange (sample_map kTruncateLower) 15 10 (CHR ''b'') =
      Some (sample_map kTruncateLower\<lparr>rmap :=
        [(14, \<lparr>r_base = 10, r_delta = 0, r_entry = CHR ''a''\<rparr>),
         (24, \<lparr>r_base = 15, r_delta = 0, r_entry = CHR ''b''\<rparr>)]\<rparr>, True)"
    by (simp add: store_eval)
  from StoreRange_truncate_lower [OF sample_map_ok _ _ _ this] show ?thesis
    by (simp add: sample_map_def)
qed

text \<open>
  C4: Under \<open>kTruncateUpper\<close> a store of a valid range fails only when an existing range
  has the same high address.  A successful store gives the new entry every address of the
  range above the last existing range that ends inside it (its offset still counted from the
  base asked for), cuts the head of a range that reaches above, and changes no other lookup.
\<close>

theorem StoreRange_truncate_upper:
  assumes "range_map_ok m" and "merge_strategy m = kTruncateUpper"
    and "sz \<noteq> 0" and "base \<le> base + (sz - 1)"
    and "StoreRange m base sz e = Some (m', stored)"
  shows "stored = (\<not> (\<exists>p\<in>set (rmap m). fst p = base + (sz - 1))) \<and>
    (stored \<longrightarrow> (\<forall>a. offset_at m' a =
       (if base \<le> a \<and> a \<le> base + (sz - 1) \<and>
           \<not> (\<exists>p\<in>set (rmap m). a \<le> fst p \<and> fst p < base + (sz - 1))
        then Some (e, a - base)
        else if a \<le> base + (sz - 1) \<and>
                (\<exists>p. range_of (rmap m) a = Some p \<and> base + (sz - 1) < fst p)
        then None else offset_at m a)))"
  using store_truncate_upper_effect [OF assms] by blast

theorem StoreRange_truncate_upper_witness:
  "offset_at (sample_map kTruncateUpper\<lparr>rmap :=
      [(19, \<lparr>r_base = 10, r_delta = 0, r_entry = CHR ''a''\<rparr>),
       (24, \<lparr>r_base = 20, r_delta = 5, r_entry = CHR ''b''\<rparr>)]\<rparr>) 22 = Some (CHR ''b'', 7)"
proof -
  have "StoreRange (sample_map kTruncateUpper) 15 10 (CHR ''b'') =
      Some (sample_map kTruncateUpper\<lparr>rmap :=
        [(19, \<lparr>r_base = 10, r_delta = 0, r_entry = CHR ''a''\<rparr>),
         (24, \<lparr>r_base = 20, r_delta = 5, r_entry = CHR ''b''\<rparr>)]\<rparr>, True)"
    by (simp add: store_eval)
  from StoreRange_truncate_upper [OF sample_map_ok _ _ _ this] show ?thesis
    by (simp add: sample_map_def)
qed

text \<open>
  C1: Storing a range returns for every strategy, base and size, however many recursive
  truncations it takes; the ranges stay disjoint and ordered, the strategy is kept, and a
  failed store leaves the map as it was.
\<close>

theorem StoreRange_total:
  assumes "range_map_ok m"
  shows "\<exists>m' stored. StoreRange m base sz e = Some (m', stored) \<and> range_map_ok m' \<and>
    merge_strategy m' = merge_strategy m \<and> (\<not> stored \<longrightarrow> m' = m)"
  using StoreRangeInternal_outcome [OF assms, of base 0 sz e]
  by (auto simp: store_outcome_def StoreRange_def split: option.split_asm)

theorem StoreRange_total_witness:
  "\<exists>m' stored. StoreRange (sample_map kTruncateUpper) 5 100 (CHR ''b'') = Some (m', stored)"
  using StoreRange_total [OF sample_map_ok, of kTruncateUpper 5 100 "CHR ''b''"] by blast

text \<open>
  \<open>RetrieveNearestRange\<close> yields the range that contains the address or, when none
  does, the last range below it: among the ranges that start at or below the address, the one
  with the greatest high address.
\<close>

theorem RetrieveNearestRange_iff:
  assumes "range_map_ok m"
  shows "RetrieveNearestRange m a = Some out \<longleftrightarrow>
    (\<exists>p\<in>set (rmap m). out = range_outputs p \<and> r_base (snd p) \<le> a \<and>
       (\<forall>q\<in>set (rmap m). r_base (snd q) \<le> a \<longrightarrow> fst q \<le> fst p))"
  using assms by (rule RetrieveNearestRange_greatest)

theorem RetrieveNearestRange_iff_witness:
  "RetrieveNearestRange (sample_map kExclusiveRanges) 30 = Some (CHR ''a'', 10, 0, 10)"
  by (subst RetrieveNearestRange_iff [OF sample_map_ok])
    (simp add: sample_map_def range_outputs_def)

end
