(* ===== verification/Contained_Range_Map.thy ===== *)
theory Contained_Range_Map
  imports Range_Map
begin

text \<open>
  \<open>ContainedRangeMap\<close> (\<open>processor/contained_range_map.h\<close>,
  \<open>processor/contained_range_map-inl.h\<close>): a tree of address ranges in which every range
  lies inside its parent.  A node is its base, its entry and the map of its children, keyed
  by the high address of each child.  A NULL \<open>map_\<close> and an empty one are the same
  empty list here: every operation treats them alike.
\<close>

datatype ('a, 'e) contained_range_map =
  CNode (c_base: 'a) (c_entry: 'e) (c_map: "('a \<times> ('a, 'e) contained_range_map) list")

lemma size_child:
  assumes "i < length m"
  shows "size (snd (m ! i)) < Suc (size_list (size_prod (\<lambda>_. 0) size) m)"
proof -
  have "size (snd (m ! i)) \<le> size_prod (\<lambda>_. 0) size (m ! i)"
    by (cases "m ! i") simp
  also have "\<dots> \<le> size_list (size_prod (\<lambda>_. 0) size) m"
    by (rule size_list_estimation' [OF nth_mem [OF assms] order_refl])
  finally show ?thesis by simp
qed

function contained_StoreRange ::
  "('a::len word, 'e) contained_range_map \<Rightarrow> 'a word \<Rightarrow> 'a word \<Rightarrow> 'e \<Rightarrow>
     ('a word, 'e) contained_range_map \<times> bool" where
  "contained_StoreRange (CNode b0 e0 m) base sz entry =
    (let high = base + sz - 1 in
     if sz = 0 \<or> high < base then (CNode b0 e0 m, False)
     else
       let iterator_base = lower_bound m base;
           iterator_high = lower_bound m high in
       if iterator_base = iterator_high \<and> iterator_base < length m \<and>
          c_base (snd (m ! iterator_base)) \<le> base then
         (if c_base (snd (m ! iterator_base)) = base \<and> fst (m ! iterator_base) = high
          then (CNode b0 e0 m, False)
          else (case contained_StoreRange (snd (m ! iterator_base)) base sz entry of
                  (child, stored) \<Rightarrow>
                    (CNode b0 e0 (m[iterator_base := (fst (m ! iterator_base), child)]), stored)))
       else
         let contains_high = (iterator_high < length m \<and>
                              c_base (snd (m ! iterator_high)) \<le> high) in
         if (iterator_base < length m \<and> c_base (snd (m ! iterator_base)) < base) \<or>
            (contains_high \<and> high < fst (m ! iterator_high))
         then (CNode b0 e0 m, False)
         else
           let iterator_high' = (if contains_high then Suc iterator_high else iterator_high);
               child_map = take (iterator_high' - iterator_base) (drop iterator_base m) in
           (CNode b0 e0 (smap_insert high (CNode base entry child_map)
              (take iterator_base m @ drop iterator_high' m)), True))"
  by pat_completeness auto
termination
  by (relation "measure (\<lambda>(n, _, _, _). size n)") (auto simp: size_child)

function contained_RetrieveRange ::
  "('a::len word, 'e) contained_range_map \<Rightarrow> 'a word \<Rightarrow> 'e option" where
  "contained_RetrieveRange (CNode b0 e0 m) address =
    (let iterator = lower_bound m address in
     if \<not> iterator < length m \<or> address < c_base (snd (m ! iterator)) then None
     else (case contained_RetrieveRange (snd (m ! iterator)) address of
             Some entry \<Rightarrow> Some entry
           | None \<Rightarrow> Some (c_entry (snd (m ! iterator)))))"
  by pat_completeness auto
termination
  by (relation "measure (\<lambda>(n, _). size n)") (auto simp: size_child)

definition contained_Clear ::
  "('a::len word, 'e) contained_range_map \<Rightarrow> ('a word, 'e) contained_range_map" where
  "contained_Clear n = CNode (c_base n) (c_entry n) []"

declare contained_StoreRange.simps [simp del] contained_RetrieveRange.simps [simp del]

subsection \<open>Well-formed trees\<close>

definition children_ok ::
  "('a::len word \<times> ('a word, 'e) contained_range_map) list \<Rightarrow> bool" where
  "children_ok m = ((\<forall>p\<in>set m. c_base (snd p) \<le> fst p) \<and>
     sorted_wrt (\<lambda>p q. fst p < c_base (snd q)) m)"

text \<open>\<open>strictly_inside b k lo hi\<close>: the range \<open>[b, k]\<close> is a proper part of \<open>[lo, hi]\<close>.\<close>

definition strictly_inside :: "'a::len word \<Rightarrow> 'a word \<Rightarrow> 'a word \<Rightarrow> 'a word \<Rightarrow> bool" where
  "strictly_inside b k lo hi = (lo \<le> b \<and> k \<le> hi \<and> \<not> (b = lo \<and> k = hi))"

fun tree_ok :: "('a::len word, 'e) contained_range_map \<Rightarrow> bool" where
  "tree_ok (CNode b0 e0 m) = (children_ok m \<and>
     (\<forall>p\<in>set m. tree_ok (snd p) \<and>
        (\<forall>q\<in>set (c_map (snd p)). strictly_inside (c_base (snd q)) (fst q) (c_base (snd p)) (fst p))))"

text \<open>All ranges of the tree, each as base, high address and entry.\<close>

fun ranges_of :: "('a::len word, 'e) contained_range_map \<Rightarrow> ('a word \<times> 'a word \<times> 'e) set" where
  "ranges_of (CNode b0 e0 m) =
     (\<Union>p\<in>set m. insert (c_base (snd p), fst p, c_entry (snd p)) (ranges_of (snd p)))"

definition hull :: "'a::len word \<times> ('a word, 'e) contained_range_map \<Rightarrow> ('a word \<times> 'a word \<times> 'e) set" where
  "hull p = insert (c_base (snd p), fst p, c_entry (snd p)) (ranges_of (snd p))"

lemma ranges_of_hull: "ranges_of (CNode b0 e0 m) = (\<Union>p\<in>set m. hull p)"
  by (simp add: hull_def)

lemma children_ok_Nil [simp]: "children_ok []"
  by (simp add: children_ok_def)

lemma children_ok_Cons:
  "children_ok (p # m) =
     (c_base (snd p) \<le> fst p \<and> (\<forall>q\<in>set m. fst p < c_base (snd q)) \<and> children_ok m)"
  by (auto simp: children_ok_def)

lemma children_ok_append:
  "children_ok (m @ m') = (children_ok m \<and> children_ok m' \<and>
     (\<forall>p\<in>set m. \<forall>q\<in>set m'. fst p < c_base (snd q)))"
  by (auto simp: children_ok_def sorted_wrt_append)

lemma children_okD: "children_ok m \<Longrightarrow> p \<in> set m \<Longrightarrow> c_base (snd p) \<le> fst p"
  by (simp add: children_ok_def)

lemma children_ok_ordered: "children_ok m \<Longrightarrow> ordered m"
proof (induction m)
  case (Cons p m)
  then have "fst p < fst q" if "q \<in> set m" for q
    using that children_okD [of m q] by (fastforce simp: children_ok_Cons)
  with Cons show ?case by (simp add: children_ok_Cons)
qed simp

interpretation cm: range_index children_ok length "\<lambda>m i. fst (m ! i)" lower_bound upper_bound
  "\<lambda>m i. c_base (snd (m ! i))"
proof
  fix m :: "('a::len word \<times> ('a word, 'e) contained_range_map) list"
    and k :: "'a word" and i j :: nat
  assume m: "children_ok m"
  then have o: "ordered m" by (rule children_ok_ordered)
  show "i < j \<Longrightarrow> j < length m \<Longrightarrow> fst (m ! i) < fst (m ! j)" using o by (rule std.keys_increase)
  show "lower_bound m k \<le> length m" using o by (rule std.lb_le)
  show "i < lower_bound m k \<Longrightarrow> fst (m ! i) < k" using o by (rule std.lb_below)
  show "lower_bound m k \<le> i \<Longrightarrow> i < length m \<Longrightarrow> k \<le> fst (m ! i)" using o by (rule std.lb_above)
  show "upper_bound m k \<le> length m" using o by (rule std.ub_le)
  show "i < upper_bound m k \<Longrightarrow> fst (m ! i) \<le> k" using o by (rule std.ub_below)
  show "upper_bound m k \<le> i \<Longrightarrow> i < length m \<Longrightarrow> k < fst (m ! i)" using o by (rule std.ub_above)
  show "i < length m \<Longrightarrow> c_base (snd (m ! i)) \<le> fst (m ! i)"
    using m by (simp add: children_ok_def)
  show "i < j \<Longrightarrow> j < length m \<Longrightarrow> fst (m ! i) < c_base (snd (m ! j))"
    using m sorted_wrt_nth_less [of "\<lambda>p q. fst p < c_base (snd q)" m i j]
    by (simp add: children_ok_def)
qed

text \<open>Every range below a child lies in the child.\<close>

lemma ranges_of_inside:
  assumes "tree_ok n" and "\<forall>q\<in>set (c_map n). strictly_inside (c_base (snd q)) (fst q) lo hi"
    and "(b, k, e) \<in> ranges_of n"
  shows "strictly_inside b k lo hi \<and> b \<le> k"
  using assms
proof (induction n arbitrary: lo hi)
  case (CNode b0 e0 m)
  then obtain p where p: "p \<in> set m" "(b, k, e) \<in> hull p"
    unfolding ranges_of_hull by blast
  have pin: "strictly_inside (c_base (snd p)) (fst p) lo hi" and ok: "tree_ok (snd p)"
    and inner: "\<forall>q\<in>set (c_map (snd p)). strictly_inside (c_base (snd q)) (fst q) (c_base (snd p)) (fst p)"
    and le: "c_base (snd p) \<le> fst p"
    using CNode.prems p(1) by (auto dest: children_okD)
  show ?case
  proof (cases "(b, k, e) \<in> ranges_of (snd p)")
    case True
    from CNode.IH [OF p(1) _ ok inner True] have "strictly_inside b k (c_base (snd p)) (fst p) \<and> b \<le> k"
      by (simp add: snds.simps)
    with pin show ?thesis by (auto simp: strictly_inside_def)
  next
    case False
    with p pin le show ?thesis by (auto simp: hull_def)
  qed
qed

lemma hull_inside:
  assumes "tree_ok (CNode b0 e0 m)" and "p \<in> set m" and "(b, k, e) \<in> hull p"
  shows "c_base (snd p) \<le> b \<and> b \<le> k \<and> k \<le> fst p"
proof -
  have "tree_ok (snd p)" and "c_base (snd p) \<le> fst p"
    and "\<forall>q\<in>set (c_map (snd p)). strictly_inside (c_base (snd q)) (fst q) (c_base (snd p)) (fst p)"
    using assms(1,2) by (auto dest: children_okD)
  then show ?thesis
    using assms(3) ranges_of_inside [of "snd p" "c_base (snd p)" "fst p" b k e]
    by (auto simp: hull_def strictly_inside_def)
qed

subsection \<open>Retrieval\<close>

text \<open>
  \<open>RetrieveRange\<close> returns the entry of the smallest range that contains the address: a
  range that lies inside every other range containing it.
\<close>

definition smallest_at ::
  "('a::len word, 'e) contained_range_map \<Rightarrow> 'a word \<Rightarrow> 'a word \<times> 'a word \<times> 'e \<Rightarrow> bool" where
  "smallest_at n a r = (case r of (b, k, e) \<Rightarrow> r \<in> ranges_of n \<and> b \<le> a \<and> a \<le> k \<and>
     (\<forall>(b', k', e')\<in>ranges_of n. b' \<le> a \<longrightarrow> a \<le> k' \<longrightarrow> b' \<le> b \<and> k \<le> k'))"

lemma retrieve_smallest_range:
  assumes "tree_ok n"
  shows "(case contained_RetrieveRange n a of
      Some e \<Rightarrow> \<exists>b k. smallest_at n a (b, k, e)
    | None \<Rightarrow> \<forall>(b, k, e)\<in>ranges_of n. \<not> (b \<le> a \<and> a \<le> k))"
  using assms
proof (induction n a rule: contained_RetrieveRange.induct)
  case (1 b0 e0 m a)
  let ?i = "lower_bound m a"
  let ?p = "m ! ?i"
  have cok: "children_ok m" using "1.prems" by simp
  show ?case
  proof (cases "?i < length m \<and> c_base (snd ?p) \<le> a")
    case False
    then have "lower_bound m a = length m \<or> a < c_base (snd (m ! lower_bound m a))"
      using cm.lb_le [OF cok, of a] by auto
    then have no: "\<forall>i. i < length m \<longrightarrow> \<not> (c_base (snd (m ! i)) \<le> a \<and> a \<le> fst (m ! i))"
      by (simp add: cm.no_containing_range_iff [OF cok])
    have "\<not> (b \<le> a \<and> a \<le> k)" if "(b, k, e) \<in> ranges_of (CNode b0 e0 m)" for b k e
    proof -
      from that obtain p where p: "p \<in> set m" "(b, k, e) \<in> hull p"
        unfolding ranges_of_hull by blast
      from p(1) obtain i where "i < length m" "m ! i = p" by (auto simp: in_set_conv_nth)
      with no hull_inside [OF "1.prems" p] show ?thesis by (metis order_trans)
    qed
    moreover have "contained_RetrieveRange (CNode b0 e0 m) a = None"
      using False by (subst contained_RetrieveRange.simps) (auto simp: Let_def)
    ultimately show ?thesis by auto
  next
    case True
    then have i: "?i < length m" and lo: "c_base (snd ?p) \<le> a" by auto
    have hi: "a \<le> fst ?p" using cm.lb_above [OF cok order_refl i] .
    have pm: "?p \<in> set m" using i by simp
    have only: "p = ?p" if "p \<in> set m" "(b, k, e) \<in> hull p" "b \<le> a" "a \<le> k" for p b k e
    proof -
      from that(1) obtain j where j: "j < length m" "m ! j = p" by (auto simp: in_set_conv_nth)
      from hull_inside [OF "1.prems" that(1,2)] that(3,4) j
      have "c_base (snd (m ! j)) \<le> a" "a \<le> fst (m ! j)" by (auto intro: order_trans)
      from cm.containing_range_unique [OF cok j(1) i this lo hi] j(2) show ?thesis by simp
    qed
    have okp: "tree_ok (snd ?p)" using "1.prems" pm by simp
    note IH = "1.IH" [OF refl _ okp]
    have eq: "contained_RetrieveRange (CNode b0 e0 m) a =
        (case contained_RetrieveRange (snd ?p) a of Some e \<Rightarrow> Some e | None \<Rightarrow> Some (c_entry (snd ?p)))"
      using i lo by (subst contained_RetrieveRange.simps) (simp add: Let_def linorder_not_less [THEN iffD2, OF lo])
    show ?thesis
    proof (cases "contained_RetrieveRange (snd ?p) a")
      case None
      have no: "\<forall>(b, k, e)\<in>ranges_of (snd ?p). \<not> (b \<le> a \<and> a \<le> k)"
        using IH None i lo by (simp add: linorder_not_less [THEN iffD2, OF lo])
      let ?r = "(c_base (snd ?p), fst ?p, c_entry (snd ?p))"
      have "b' \<le> c_base (snd ?p) \<and> fst ?p \<le> k'"
        if r: "(b', k', e') \<in> ranges_of (CNode b0 e0 m)" "b' \<le> a" "a \<le> k'" for b' k' e'
      proof -
        from r(1) obtain p where p: "p \<in> set m" "(b', k', e') \<in> hull p"
          unfolding ranges_of_hull by blast
        from only [OF p r(2,3)] p(2) have "(b', k', e') \<in> hull ?p" by simp
        then have "(b', k', e') = ?r \<or> (b', k', e') \<in> ranges_of (snd ?p)"
          unfolding hull_def by (rule insertE) auto
        with no r(2,3) show ?thesis by fast
      qed
      moreover have "?r \<in> ranges_of (CNode b0 e0 m)"
        unfolding ranges_of_hull using pm by (intro UN_I [of ?p]) (auto simp: hull_def)
      ultimately have "smallest_at (CNode b0 e0 m) a ?r"
        using lo hi unfolding smallest_at_def prod.case by fast
      with eq None show ?thesis by auto
    next
      case (Some e)
      then obtain b k where s: "smallest_at (snd ?p) a (b, k, e)"
        using IH i lo by (auto simp: not_less)
      then have mem: "(b, k, e) \<in> hull ?p" "b \<le> a" "a \<le> k"
        by (auto simp: smallest_at_def hull_def)
      have "b' \<le> b \<and> k \<le> k'"
        if r: "(b', k', e') \<in> ranges_of (CNode b0 e0 m)" "b' \<le> a" "a \<le> k'" for b' k' e'
      proof -
        from r(1) obtain p where p: "p \<in> set m" "(b', k', e') \<in> hull p"
          unfolding ranges_of_hull by blast
        with only r(2,3) have "(b', k', e') \<in> hull ?p" by blast
        with s r(2,3) hull_inside [OF "1.prems" pm mem(1)] show ?thesis
          by (auto simp: hull_def smallest_at_def)
      qed
      then have "smallest_at (CNode b0 e0 m) a (b, k, e)"
        using mem pm unfolding smallest_at_def ranges_of_hull by blast
      with eq Some show ?thesis by auto
    qed
  qed
qed

subsection \<open>Insertion\<close>

text \<open>
  A range may be stored beside \<open>r\<close> when the two are disjoint or one lies properly
  inside the other.
\<close>

definition compatible :: "'a::len word \<Rightarrow> 'a word \<Rightarrow> 'a word \<times> 'a word \<times> 'e \<Rightarrow> bool" where
  "compatible b k r = (case r of (b', k', e') \<Rightarrow>
     k < b' \<or> k' < b \<or>
     ((b, k) \<noteq> (b', k') \<and> ((b \<le> b' \<and> k' \<le> k) \<or> (b' \<le> b \<and> k \<le> k'))))"

lemma incompatible_self: "b \<le> k \<Longrightarrow> \<not> compatible b k (b, k, e)"
  by (auto simp: compatible_def)

lemma hull_apart:
  assumes "tree_ok (CNode b0 e0 m)" and "p \<in> set m" and "r \<in> hull p"
    and "fst p < b \<or> k < c_base (snd p)"
  shows "compatible b k r"
proof -
  obtain b' k' e' where r: "r = (b', k', e')" by (cases r)
  from hull_inside [OF assms(1,2), of b' k' e'] assms(3,4) r show ?thesis
    by (auto simp: compatible_def intro: le_less_trans less_le_trans)
qed

lemma hull_within:
  assumes "tree_ok (CNode b0 e0 m)" and "p \<in> set m" and "r \<in> hull p"
    and "b \<le> c_base (snd p)" and "fst p \<le> k" and "\<not> (c_base (snd p) = b \<and> fst p = k)"
  shows "compatible b k r"
proof -
  obtain b' k' e' where r: "r = (b', k', e')" by (cases r)
  from hull_inside [OF assms(1,2), of b' k' e'] assms(3-) r show ?thesis
    by (auto simp: compatible_def)
qed

lemma hull_mem: "(c_base (snd p), fst p, c_entry (snd p)) \<in> hull p"
  by (simp add: hull_def)

lemma tree_ok_child:
  "tree_ok (CNode b0 e0 m) \<Longrightarrow> p \<in> set m \<Longrightarrow> tree_ok (snd p) \<and> c_base (snd p) \<le> fst p \<and>
     (\<forall>q\<in>set (c_map (snd p)). strictly_inside (c_base (snd q)) (fst q) (c_base (snd p)) (fst p))"
  by (auto dest: children_okD)

lemma child_in_ranges:
  "q \<in> set (c_map n) \<Longrightarrow> (c_base (snd q), fst q, c_entry (snd q)) \<in> ranges_of n"
  by (cases n) auto

definition contained_outcome ::
  "('a::len word, 'e) contained_range_map \<Rightarrow> 'a word \<Rightarrow> 'a word \<Rightarrow> 'e \<Rightarrow>
     ('a word, 'e) contained_range_map \<times> bool \<Rightarrow> bool" where
  "contained_outcome n base sz entry r = (case r of (n', stored) \<Rightarrow>
     tree_ok n' \<and> c_base n' = c_base n \<and> c_entry n' = c_entry n \<and>
     stored = (0 < sz \<and> base \<le> base + sz - 1 \<and>
               (\<forall>r\<in>ranges_of n. compatible base (base + sz - 1) r)) \<and>
     ranges_of n' = (if stored then insert (base, base + sz - 1, entry) (ranges_of n) else ranges_of n))"

text \<open>The three ways an insertion can go at one node of the tree.\<close>

lemma contained_descend:
  assumes ok: "tree_ok (CNode b0 e0 (L @ p # R))"
    and v: "0 < sz" "base \<le> base + sz - 1"
    and lo: "c_base (snd p) \<le> base" and hi: "base + sz - 1 \<le> fst p"
    and neq: "\<not> (c_base (snd p) = base \<and> fst p = base + sz - 1)"
    and IH: "contained_outcome (snd p) base sz e (child, stored)"
  shows "contained_outcome (CNode b0 e0 (L @ p # R)) base sz e
           (CNode b0 e0 (L @ (fst p, child) # R), stored)"
proof -
  let ?high = "base + sz - 1"
  let ?p' = "(fst p, child)"
  have child: "tree_ok child" "c_base child = c_base (snd p)" "c_entry child = c_entry (snd p)"
    and st: "stored = (\<forall>r\<in>ranges_of (snd p). compatible base ?high r)"
    and rs: "ranges_of child = (if stored then insert (base, ?high, e) (ranges_of (snd p))
                                else ranges_of (snd p))"
    using IH v by (auto simp: contained_outcome_def)
  have p: "tree_ok (snd p)" "c_base (snd p) \<le> fst p"
    "\<forall>q\<in>set (c_map (snd p)). strictly_inside (c_base (snd q)) (fst q) (c_base (snd p)) (fst p)"
    using tree_ok_child [OF ok, of p] by auto
  have inner: "strictly_inside (c_base (snd q)) (fst q) (c_base (snd p)) (fst p)"
    if "q \<in> set (c_map child)" for q
  proof -
    have "(c_base (snd q), fst q, c_entry (snd q)) \<in> insert (base, ?high, e) (ranges_of (snd p))"
      using child_in_ranges [OF that] rs by (auto split: if_splits)
    then show ?thesis
      using ranges_of_inside [OF p(1,3), of "c_base (snd q)" "fst q"] lo hi neq
      by (auto simp: strictly_inside_def)
  qed
  have ok': "tree_ok (CNode b0 e0 (L @ ?p' # R))"
    using ok child inner by (auto simp: children_ok_append children_ok_Cons)
  have hull': "hull ?p' = (if stored then insert (base, ?high, e) (hull p) else hull p)"
    using child rs by (auto simp: hull_def)
  have others: "compatible base ?high r" if "r \<in> hull q" "q \<in> set L \<union> set R" for r q
  proof -
    from ok that(2) have "fst q < c_base (snd p) \<or> fst p < c_base (snd q)"
      by (auto simp: children_ok_append children_ok_Cons)
    then have "fst q < base \<or> ?high < c_base (snd q)"
      using lo hi by (auto intro: less_le_trans le_less_trans)
    with that hull_apart [OF ok, of q r base ?high] show ?thesis by auto
  qed
  have "compatible base ?high (c_base (snd p), fst p, c_entry (snd p))"
    using lo hi neq by (auto simp: compatible_def)
  then have "(\<forall>r\<in>hull p. compatible base ?high r) = stored"
    unfolding st by (auto simp: hull_def)
  then have "(\<forall>r\<in>ranges_of (CNode b0 e0 (L @ p # R)). compatible base ?high r) = stored"
    unfolding ranges_of_hull using others by auto
  moreover have "ranges_of (CNode b0 e0 (L @ ?p' # R)) =
      (if stored then insert (base, ?high, e) (ranges_of (CNode b0 e0 (L @ p # R)))
       else ranges_of (CNode b0 e0 (L @ p # R)))"
    unfolding ranges_of_hull using hull' by auto
  ultimately show ?thesis
    unfolding contained_outcome_def prod.case using ok' v by simp
qed

lemma contained_place:
  assumes ok: "tree_ok (CNode b0 e0 (L @ M @ R))"
    and v: "0 < sz" "base \<le> base + sz - 1"
    and L: "\<forall>p\<in>set L. fst p < base"
    and M: "\<forall>p\<in>set M. strictly_inside (c_base (snd p)) (fst p) base (base + sz - 1)"
    and R: "\<forall>p\<in>set R. base + sz - 1 < c_base (snd p)"
  shows "contained_outcome (CNode b0 e0 (L @ M @ R)) base sz e
           (CNode b0 e0 (smap_insert (base + sz - 1) (CNode base e M) (L @ R)), True)"
proof -
  let ?high = "base + sz - 1"
  let ?new = "(?high, CNode base e M)"
  have "\<forall>p\<in>set R. ?high < fst p"
    using R tree_ok_child [OF ok] by (auto intro: less_le_trans)
  moreover have "\<forall>p\<in>set L. fst p < ?high"
    using L v(2) by (auto intro: less_le_trans)
  ultimately have ins: "smap_insert ?high (CNode base e M) (L @ R) = L @ ?new # R"
    by (simp add: smap_insert_split)
  have ok': "tree_ok (CNode b0 e0 (L @ ?new # R))"
    using ok L M R v(2) by (auto simp: children_ok_append children_ok_Cons)
  have "compatible base ?high r" if "r \<in> hull q" "q \<in> set L \<union> set M \<union> set R" for r q
  proof (cases "q \<in> set M")
    case True
    with M that(1) hull_within [OF ok, of q r base ?high] show ?thesis
      by (auto simp: strictly_inside_def)
  next
    case False
    with that L R hull_apart [OF ok, of q r base ?high] show ?thesis by auto
  qed
  then have "\<forall>r\<in>ranges_of (CNode b0 e0 (L @ M @ R)). compatible base ?high r"
    unfolding ranges_of_hull by auto
  moreover have "ranges_of (CNode b0 e0 (L @ ?new # R)) =
      insert (base, ?high, e) (ranges_of (CNode b0 e0 (L @ M @ R)))"
    by auto
  ultimately show ?thesis
    unfolding contained_outcome_def prod.case ins using ok' v by simp
qed

lemma contained_reject:
  assumes "tree_ok n" and "0 < sz \<Longrightarrow> base \<le> base + sz - 1 \<Longrightarrow>
      \<exists>r\<in>ranges_of n. \<not> compatible base (base + sz - 1) r"
  shows "contained_outcome n base sz e (n, False)"
  using assms unfolding contained_outcome_def prod.case by auto

lemma contained_StoreRange_outcome:
  assumes "tree_ok n"
  shows "contained_outcome n base sz e (contained_StoreRange n base sz e)"
  using assms
proof (induction n base sz e rule: contained_StoreRange.induct)
  case (1 b0 e0 m base sz e)
  note ok = "1.prems"
  let ?n = "CNode b0 e0 m"
  let ?high = "base + sz - 1"
  let ?ib = "lower_bound m base" and ?ih = "lower_bound m ?high"
  have cok: "children_ok m" using ok by simp
  have below: "fst (m ! i) < base" if "i < ?ib" for i using cm.lb_below [OF cok that] .
  have above: "base \<le> fst (m ! i)" if "?ib \<le> i" "i < length m" for i
    using cm.lb_above [OF cok that] .
  have hbelow: "fst (m ! i) < ?high" if "i < ?ih" for i using cm.lb_below [OF cok that] .
  have habove: "?high \<le> fst (m ! i)" if "?ih \<le> i" "i < length m" for i
    using cm.lb_above [OF cok that] .
  have gap: "fst (m ! i) < c_base (snd (m ! j))" if "i < j" "j < length m" for i j
    using cm.disjoint_ranges [OF cok that] .
  have proper: "c_base (snd (m ! i)) \<le> fst (m ! i)" if "i < length m" for i
    using cm.low_le_key [OF cok that] .
  show ?case
  proof (cases "sz = 0 \<or> ?high < base")
    case True
    then have "contained_StoreRange ?n base sz e = (?n, False)"
      by (subst contained_StoreRange.simps) (simp add: Let_def)
    with True show ?thesis by (auto intro!: contained_reject ok)
  next
    case valid: False
    then have v: "0 < sz" "base \<le> ?high" by (auto simp: word_greater_zero_iff)
    show ?thesis
    proof (cases "?ib = ?ih \<and> ?ib < length m \<and> c_base (snd (m ! ?ib)) \<le> base")
      case down: True
      then have i: "?ib < length m" and lo: "c_base (snd (m ! ?ib)) \<le> base" by auto
      have hi: "?high \<le> fst (m ! ?ib)" using habove [of ?ib] down by simp
      have split: "m = take ?ib m @ m ! ?ib # drop (Suc ?ib) m" using i by (rule id_take_nth_drop)
      have ok2: "tree_ok (CNode b0 e0 (take ?ib m @ m ! ?ib # drop (Suc ?ib) m))"
        using ok by (simp only: split [symmetric])
      show ?thesis
      proof (cases "c_base (snd (m ! ?ib)) = base \<and> fst (m ! ?ib) = ?high")
        case True
        have "contained_StoreRange ?n base sz e = (?n, False)"
          by (simp only: contained_StoreRange.simps Let_def if_not_P [OF valid] if_P [OF down]
              if_P [OF True])
        moreover have "(base, ?high, c_entry (snd (m ! ?ib))) \<in> ranges_of ?n"
          using True child_in_ranges [of "m ! ?ib" ?n] i by simp
        then have "\<exists>r\<in>ranges_of ?n. \<not> compatible base ?high r"
          by (rule bexI [rotated]) (rule incompatible_self [OF v(2)])
        ultimately show ?thesis using contained_reject [OF ok, of sz base e] by (simp only:)
      next
        case False
        obtain child stored where st: "contained_StoreRange (snd (m ! ?ib)) base sz e = (child, stored)"
          by fastforce
        have "tree_ok (snd (m ! ?ib))" using tree_ok_child [OF ok] i by simp
        with "1.IH" [OF refl valid refl refl down False] st
        have IH: "contained_outcome (snd (m ! ?ib)) base sz e (child, stored)" by simp
        have "contained_StoreRange ?n base sz e =
            (CNode b0 e0 (m[?ib := (fst (m ! ?ib), child)]), stored)"
          by (simp only: contained_StoreRange.simps Let_def if_not_P [OF valid] if_P [OF down]
              if_not_P [OF False] st prod.case)
        then show ?thesis
          using contained_descend [OF ok2 v lo hi False IH]
          by (simp only: split [symmetric] upd_conv_take_nth_drop [OF i])
      qed
    next
      case here: False
      let ?ch = "?ih < length m \<and> c_base (snd (m ! ?ih)) \<le> ?high"
      have le: "?ib \<le> ?ih"
      proof (rule ccontr)
        assume "\<not> ?ib \<le> ?ih"
        then have "?ih < ?ib" by simp
        with below [of ?ih] habove [of ?ih] cm.lb_le [OF cok, of base] v(2) show False
          by (auto dest: le_less_trans)
      qed
      have same: "?ib = ?ih" if "?ih < length m" "c_base (snd (m ! ?ih)) \<le> base"
      proof (rule ccontr)
        assume "?ib \<noteq> ?ih"
        with le have "?ib < ?ih" by simp
        with gap [of ?ib ?ih] above [of ?ib] that show False by (auto dest: le_less_trans)
      qed
      show ?thesis
      proof (cases "(?ib < length m \<and> c_base (snd (m ! ?ib)) < base) \<or> (?ch \<and> ?high < fst (m ! ?ih))")
        case True
        have "\<exists>i<length m. \<not> compatible base ?high
                 (c_base (snd (m ! i)), fst (m ! i), c_entry (snd (m ! i)))"
        proof (cases "?ib < length m \<and> c_base (snd (m ! ?ib)) < base")
          case T: True
          then have "c_base (snd (m ! ?ib)) \<le> base" by (blast intro: less_imp_le)
          with here T have "?ib \<noteq> ?ih" by blast
          with le have "?ib < ?ih" by simp
          with T v hbelow [of ?ib] above [of ?ib] show ?thesis
            by (intro exI [of _ ?ib]) (auto simp: compatible_def)
        next
          case F: False
          with True have c: "?ih < length m" "c_base (snd (m ! ?ih)) \<le> ?high" "?high < fst (m ! ?ih)"
            by auto
          have "\<not> c_base (snd (m ! ?ih)) \<le> base" using same [OF c(1)] here c(1) by auto
          with c v show ?thesis by (intro exI [of _ ?ih]) (auto simp: compatible_def)
        qed
        then have "\<exists>r\<in>ranges_of ?n. \<not> compatible base ?high r"
          using child_in_ranges [of _ ?n] by (fastforce simp del: ranges_of.simps)
        moreover have "contained_StoreRange ?n base sz e = (?n, False)"
          by (simp only: contained_StoreRange.simps Let_def if_not_P [OF valid] if_not_P [OF here]
              if_P [OF True])
        ultimately show ?thesis using contained_reject [OF ok, of sz base e] by (simp only:)
      next
        case False
        let ?j = "if ?ch then Suc ?ih else ?ih"
        let ?L = "take ?ib m" and ?M = "take (?j - ?ib) (drop ?ib m)" and ?R = "drop ?j m"
        have leq: "?ib \<le> ?j" using le by simp
        have split: "m = ?L @ ?M @ ?R"
          by (rule take_slice_drop [OF leq])
        have L: "\<forall>p\<in>set ?L. fst p < base" by (blast elim: in_set_take_nth intro: below)
        have R: "\<forall>p\<in>set ?R. ?high < c_base (snd p)"
        proof
          fix p assume "p \<in> set ?R"
          then obtain i where i: "?j \<le> i" "i < length m" "p = m ! i"
            by (rule in_set_drop_nth)
          show "?high < c_base (snd p)"
          proof (cases "i = ?ih")
            case True
            with i(1) have "\<not> ?ch" by (cases ?ch) simp_all
            moreover have "?ih < length m" using True i(2) by simp
            ultimately show ?thesis using True i(3) by (simp add: not_le)
          next
            case False
            moreover have "?ih \<le> i" using i(1) by (cases ?ch) simp_all
            ultimately have "?ih < i" by simp
            then have "fst (m ! ?ih) < c_base (snd p)" and "?ih < length m"
              using gap i(2,3) by auto
            then show ?thesis using habove [of ?ih] by (blast intro: le_less_trans)
          qed
        qed
        have M: "\<forall>p\<in>set ?M. strictly_inside (c_base (snd p)) (fst p) base ?high"
        proof
          fix p assume "p \<in> set ?M"
          then obtain i where i: "?ib \<le> i" "i < ?j" "p = m ! i" and len: "i < length m"
            by (rule in_set_slice_nth)
          have "base \<le> c_base (snd (m ! ?ib))" using False i(1) len by auto
          moreover have "c_base (snd (m ! ?ib)) \<le> c_base (snd (m ! i))"
            using gap [of ?ib i] proper [of ?ib] i(1) len by (cases "?ib = i") auto
          ultimately have lo: "base \<le> c_base (snd p)" using i by simp
          have hi: "fst p \<le> ?high"
          proof (cases "i = ?ih")
            case True
            with i(2,3) False show ?thesis by (auto split: if_splits)
          next
            case False
            with i(2) have "i < ?ih" by (auto split: if_splits)
            from hbelow [OF this] i show ?thesis by simp
          qed
          have "\<not> (c_base (snd p) = base \<and> fst p = ?high)"
          proof
            assume eq: "c_base (snd p) = base \<and> fst p = ?high"
            have "i = ?ih"
            proof (rule ccontr)
              assume "i \<noteq> ?ih"
              with i(2) have "i < ?ih" by (auto split: if_splits)
              from hbelow [OF this] eq i show False by simp
            qed
            with same eq i len here show False by auto
          qed
          with lo hi show "strictly_inside (c_base (snd p)) (fst p) base ?high"
            by (simp add: strictly_inside_def)
        qed
        have "contained_StoreRange ?n base sz e =
            (CNode b0 e0 (smap_insert ?high (CNode base e ?M) (?L @ ?R)), True)"
          by (simp only: contained_StoreRange.simps Let_def if_not_P [OF valid] if_not_P [OF here]
              if_not_P [OF False])
        moreover have "tree_ok (CNode b0 e0 (?L @ ?M @ ?R))"
          using ok by (simp only: split [symmetric])
        from contained_place [OF this v L M R]
        have "contained_outcome ?n base sz e
            (CNode b0 e0 (smap_insert ?high (CNode base e ?M) (?L @ ?R)), True)"
          by (simp only: split [symmetric])
        ultimately show ?thesis by (simp only:)
      qed
    qed
  qed
qed

subsection \<open>Properties\<close>

text \<open>
  C5: Storing a range in a tree of nested ranges succeeds exactly when the range is valid and
  every stored range is disjoint from it or properly nested with it.  Nesting is kept, a
  success adds exactly the new range, and a failure changes no range.
\<close>

theorem contained_StoreRange_correct:
  assumes "tree_ok n" and "contained_StoreRange n base sz e = (n', stored)"
  shows "tree_ok n' \<and>
    stored = (0 < sz \<and> base \<le> base + sz - 1 \<and>
              (\<forall>r\<in>ranges_of n. compatible base (base + sz - 1) r)) \<and>
    ranges_of n' = (if stored then insert (base, base + sz - 1, e) (ranges_of n) else ranges_of n)"
  using contained_StoreRange_outcome [OF assms(1), of base sz e] assms(2)
  by (simp add: contained_outcome_def)

definition sample_tree :: "(u32, char) contained_range_map" where
  "sample_tree = CNode 0 (CHR ''r'') [(19, CNode 10 (CHR ''a'') [(15, CNode 12 (CHR ''b'') [])])]"

lemma sample_tree_ok: "tree_ok sample_tree"
  by (simp add: sample_tree_def children_ok_def strictly_inside_def)

theorem contained_StoreRange_correct_witness:
  "(5, 24, CHR ''c'') \<in> ranges_of
     (CNode 0 (CHR ''r'') [(24, CNode 5 (CHR ''c'')
        [(19, CNode 10 (CHR ''a'') [(15, CNode 12 (CHR ''b'') [])])])] :: (u32, char) contained_range_map)"
proof -
  have "contained_StoreRange sample_tree 5 20 (CHR ''c'') =
      (CNode 0 (CHR ''r'') [(24, CNode 5 (CHR ''c'')
        [(19, CNode 10 (CHR ''a'') [(15, CNode 12 (CHR ''b'') [])])])], True)"
    by (simp add: sample_tree_def contained_StoreRange.simps lower_bound_def)
  from contained_StoreRange_correct [OF sample_tree_ok this] show ?thesis by simp
qed

text \<open>
  C6: \<open>RetrieveRange\<close> returns the entry of the innermost range around an address: one
  that contains the address and lies inside every other range that does; it finds nothing
  exactly when no range contains the address.
\<close>

theorem contained_RetrieveRange_innermost:
  assumes "tree_ok n"
  shows "case contained_RetrieveRange n a of
      Some e \<Rightarrow> \<exists>b k. smallest_at n a (b, k, e)
    | None \<Rightarrow> \<forall>(b, k, e)\<in>ranges_of n. \<not> (b \<le> a \<and> a \<le> k)"
  using assms by (rule retrieve_smallest_range)

theorem contained_RetrieveRange_innermost_witness:
  "contained_RetrieveRange sample_tree 13 = Some (CHR ''b'') \<and>
   (\<exists>b k. smallest_at sample_tree 13 (b, k, CHR ''b''))"
proof -
  have r: "contained_RetrieveRange sample_tree 13 = Some (CHR ''b'')"
    by (simp add: sample_tree_def contained_RetrieveRange.simps lower_bound_def)
  with contained_RetrieveRange_innermost [OF sample_tree_ok, of 13] show ?thesis by simp
qed

end
