(* ===== verification/Address_Map.thy ===== *)
theory Address_Map
  imports Std_Map
begin

text \<open>
  \<open>AddressMap\<close> (\<open>processor/address_map-inl.h\<close>): entries stored at single
  addresses; a lookup finds the entry at the highest address not above the one asked for.
  The state is the \<open>map_\<close> field.
\<close>

type_synonym ('k, 'e) address_map = "('k, 'e) smap"

definition Store ::
  "('k::linorder, 'e) address_map \<Rightarrow> 'k \<Rightarrow> 'e \<Rightarrow> ('k, 'e) address_map \<times> bool" where
  "Store m address entry =
     (if map_of m address \<noteq> None then (m, False)
      else (smap_insert address entry m, True))"

definition Retrieve :: "('k::linorder, 'e) address_map \<Rightarrow> 'k \<Rightarrow> ('e \<times> 'k) option" where
  "Retrieve m address =
     (let iterator = upper_bound m address in
      if iterator = 0 then None
      else (let it = iterator - 1 in Some (snd (m ! it), fst (m ! it))))"

definition AddressMap_Clear :: "('k::linorder, 'e) address_map \<Rightarrow> ('k, 'e) address_map" where
  "AddressMap_Clear m = []"

lemma ordered_Store [invar_intros]: "ordered m \<Longrightarrow> ordered (fst (Store m a e))"
  by (simp add: Store_def ordered_smap_insert)

lemma map_of_Store:
  "ordered m \<Longrightarrow> map_of (fst (Store m a e)) =
     (if snd (Store m a e) then (map_of m)(a \<mapsto> e) else map_of m)"
  by (auto simp: Store_def map_of_smap_insert map_of_eq_None_iff)

lemma Store_result: "snd (Store m a e) = (map_of m a = None)"
  by (simp add: Store_def)

text \<open>\<open>Retrieve\<close> is the greatest stored address at or below the argument.\<close>

lemma Retrieve_Some:
  assumes "ordered m"
  shows "Retrieve m a = Some (e, b) \<longleftrightarrow>
    map_of m b = Some e \<and> b \<le> a \<and> (\<forall>c. map_of m c \<noteq> None \<longrightarrow> c \<le> a \<longrightarrow> c \<le> b)"
    (is "?l = ?r")
proof
  assume ?l
  then obtain i where i: "0 < upper_bound m a \<and> i = upper_bound m a - 1"
    and eb: "m ! i = (b, e)"
    by (auto simp: Retrieve_def Let_def split: if_splits)
  have p: "i < length m" "fst (m ! i) \<le> a"
    "\<forall>j. j < length m \<longrightarrow> fst (m ! j) \<le> a \<longrightarrow> j \<le> i"
    using i unfolding std.predecessor_iff [OF assms] by blast+
  have "c \<le> b" if "map_of m c \<noteq> None" "c \<le> a" for c
  proof -
    from that(1) obtain j where "j < length m" "fst (m ! j) = c"
      by (auto simp: map_of_index_ex [OF assms] simp del: not_None_eq)
    with that(2) p eb std.keys_mono [OF assms, of j i] show ?thesis by auto
  qed
  moreover have "map_of m b = Some e"
    using map_of_ordered_nth [OF assms p(1)] eb by simp
  ultimately show ?r using p(2) eb by auto
next
  assume r: ?r
  then obtain i where i: "i < length m" "m ! i = (b, e)"
    unfolding map_of_index [OF assms] by blast
  have "j \<le> i" if "j < length m" "fst (m ! j) \<le> a" for j
  proof (rule ccontr)
    assume "\<not> j \<le> i"
    then have "b < fst (m ! j)"
      using std.keys_increase [OF assms, of i j] that(1) i(2) by simp
    moreover have "fst (m ! j) \<le> b"
      using r that map_of_ordered_nth [OF assms that(1)] by blast
    ultimately show False by simp
  qed
  then have "0 < upper_bound m a \<and> i = upper_bound m a - 1"
    unfolding std.predecessor_iff [OF assms] using i r by auto
  then show ?l using i by (auto simp: Retrieve_def Let_def)
qed

lemma Retrieve_None:
  assumes "ordered m"
  shows "Retrieve m a = None \<longleftrightarrow> (\<forall>c. map_of m c \<noteq> None \<longrightarrow> a < c)"
proof -
  have "Retrieve m a = None \<longleftrightarrow> (\<forall>j. j < length m \<longrightarrow> a < fst (m ! j))"
    unfolding std.no_predecessor_iff [OF assms, symmetric] by (simp add: Retrieve_def Let_def)
  also have "\<dots> \<longleftrightarrow> (\<forall>c. map_of m c \<noteq> None \<longrightarrow> a < c)"
    unfolding map_of_index_ex [OF assms] by blast
  finally show ?thesis .
qed

subsection \<open>Properties\<close>

text \<open>
  After a store, \<open>Retrieve\<close> finds the entry at the greatest stored address that is
  not above the argument, the new address included; a second store at an address is refused
  and changes nothing.
\<close>

theorem Retrieve_after_Store:
  assumes "ordered m" and "Store m addr e = (m', stored)"
  shows "ordered m' \<and> stored = (map_of m addr = None) \<and>
    (\<forall>a e' b. Retrieve m' a = Some (e', b) \<longleftrightarrow>
       (if stored then (map_of m)(addr \<mapsto> e) else map_of m) b = Some e' \<and> b \<le> a \<and>
       (\<forall>c. map_of m c \<noteq> None \<or> c = addr \<longrightarrow> c \<le> a \<longrightarrow> c \<le> b))"
proof -
  have m': "m' = fst (Store m addr e)" and stored: "stored = (map_of m addr = None)"
    using assms(2) Store_result [of m addr e] by auto
  have o: "ordered m'" unfolding m' using assms(1) by (rule ordered_Store)
  have f: "map_of m' = (if stored then (map_of m)(addr \<mapsto> e) else map_of m)"
    using map_of_Store [OF assms(1), of addr e] unfolding assms(2) by simp
  have dom: "(map_of m' c \<noteq> None) = (map_of m c \<noteq> None \<or> c = addr)" for c
    using f stored by auto
  have "Retrieve m' a = Some (e', b) \<longleftrightarrow>
      (if stored then (map_of m)(addr \<mapsto> e) else map_of m) b = Some e' \<and> b \<le> a \<and>
      (\<forall>c. map_of m c \<noteq> None \<or> c = addr \<longrightarrow> c \<le> a \<longrightarrow> c \<le> b)" for a e' b
    unfolding Retrieve_Some [OF o] dom by (subst f) (rule refl)
  with o stored show ?thesis by blast
qed

theorem Retrieve_after_Store_witness:
  "Retrieve [(16 :: nat, CHR ''a''), (32, CHR ''b'')] 40 = Some (CHR ''b'', 32)"
proof -
  have "Store [(16 :: nat, CHR ''a'')] 32 (CHR ''b'') = ([(16, CHR ''a''), (32, CHR ''b'')], True)"
    by (simp add: Store_def)
  from Retrieve_after_Store [OF _ this] show ?thesis by auto
qed

end
