(* ===== verification/Postfix_Evaluator.thy ===== *)
theory Postfix_Evaluator
  imports C_String "HOL-Library.Monad_Syntax"
begin

text \<open>
  \<open>PostfixEvaluator\<close> (\<open>processor/postfix_evaluator.h\<close>,
  \<open>processor/postfix_evaluator-inl.h\<close>): the stack machine that runs the program strings of
  MSVC frame data and the rules of CFI records.

  The state is the dictionary, the optional record of assigned names and the stack of
  tokens, top first.  The evaluator is used with a dictionary (a NULL one is outside the
  model).  \<open>memory_\<close> is an argument: \<open>None\<close> for NULL, otherwise the
  \<open>GetMemoryAtAddress\<close> of the region for the value type.  An evaluation that traps (division
  by zero, a store through NULL) does not return: \<open>None\<close>.
\<close>

type_synonym 'w memory = "u64 \<Rightarrow> 'w word option"

record 'v evaluator =
  dictionary :: "string \<rightharpoonup> 'v"
  assigned :: "(string \<rightharpoonup> bool) option"
  stack :: "string list"

datatype 'v pop_result =
  POP_RESULT_FAIL | POP_RESULT_VALUE 'v | POP_RESULT_IDENTIFIER string

datatype BinaryOperation =
  BINARY_OP_NONE | BINARY_OP_ADD | BINARY_OP_SUBTRACT | BINARY_OP_MULTIPLY
| BINARY_OP_DIVIDE_QUOTIENT | BINARY_OP_DIVIDE_MODULUS | BINARY_OP_ALIGN

definition binary_operation :: "string \<Rightarrow> BinaryOperation" where
  "binary_operation token =
     (if token = ''+'' then BINARY_OP_ADD
      else if token = ''-'' then BINARY_OP_SUBTRACT
      else if token = ''*'' then BINARY_OP_MULTIPLY
      else if token = ''/'' then BINARY_OP_DIVIDE_QUOTIENT
      else if token = ''%'' then BINARY_OP_DIVIDE_MODULUS
      else if token = ''@'' then BINARY_OP_ALIGN
      else BINARY_OP_NONE)"

text \<open>The switch over the operations; division by zero traps.\<close>

fun perform_operation ::
  "BinaryOperation \<Rightarrow> 'w::len word \<Rightarrow> 'w word \<Rightarrow> 'w word run" where
  "perform_operation BINARY_OP_ADD operand1 operand2 = Some (operand1 + operand2)"
| "perform_operation BINARY_OP_SUBTRACT operand1 operand2 = Some (operand1 - operand2)"
| "perform_operation BINARY_OP_MULTIPLY operand1 operand2 = Some (operand1 * operand2)"
| "perform_operation BINARY_OP_DIVIDE_QUOTIENT operand1 operand2 =
     (if operand2 = 0 then None else Some (operand1 div operand2))"
| "perform_operation BINARY_OP_DIVIDE_MODULUS operand1 operand2 =
     (if operand2 = 0 then None else Some (operand1 mod operand2))"
| "perform_operation BINARY_OP_ALIGN operand1 operand2 =
     Some (operand1 AND (- 1 XOR (operand2 - 1)))"
| "perform_operation BINARY_OP_NONE operand1 operand2 = None"

subsection \<open>The stack\<close>

text \<open>
  \<open>PopValueOrIdentifier value identifier\<close>: the first argument tells whether the caller
  passed a \<open>value\<close> pointer.  A negative literal is negated through that pointer whether
  it is there or not.
\<close>

definition PopValueOrIdentifier ::
  "bool \<Rightarrow> string list \<Rightarrow> ('w::len word pop_result \<times> string list) run" where
  "PopValueOrIdentifier has_value stk =
     (case stk of
        [] \<Rightarrow> Some (POP_RESULT_FAIL, [])
      | token # stk' \<Rightarrow>
          let negative = (token \<noteq> [] \<and> hd token = CHR ''-'');
              token_stream = (if negative then tl token else token) in
          (case read_unsigned token_stream of
             Some literal \<Rightarrow>
               if negative then
                 (if has_value then Some (POP_RESULT_VALUE (- literal), stk') else None)
               else Some (POP_RESULT_VALUE literal, stk')
           | None \<Rightarrow> Some (POP_RESULT_IDENTIFIER token, stk')))"

text \<open>\<open>PopValue\<close> and \<open>PopValues\<close>: the inner option is the boolean result with the value.\<close>

definition PopValue ::
  "(string \<rightharpoonup> 'w::len word) \<Rightarrow> string list \<Rightarrow> ('w word option \<times> string list) run" where
  "PopValue dict stk = do {
     (result, stk') \<leftarrow> PopValueOrIdentifier True stk;
     case result of
       POP_RESULT_FAIL \<Rightarrow> Some (None, stk')
     | POP_RESULT_VALUE literal \<Rightarrow> Some (Some literal, stk')
     | POP_RESULT_IDENTIFIER token \<Rightarrow> Some (dict token, stk')
   }"

definition PopValues ::
  "(string \<rightharpoonup> 'w::len word) \<Rightarrow> string list \<Rightarrow> (('w word \<times> 'w word) option \<times> string list) run" where
  "PopValues dict stk = do {
     (value2, stk) \<leftarrow> PopValue dict stk;
     case value2 of
       None \<Rightarrow> Some (None, stk)
     | Some v2 \<Rightarrow> do {
         (value1, stk) \<leftarrow> PopValue dict stk;
         Some (map_option (\<lambda>v1. (v1, v2)) value1, stk)
       }
   }"

definition PushValue :: "'w::len word \<Rightarrow> string list \<Rightarrow> string list" where
  "PushValue v stk = print_unsigned v # stk"

subsection \<open>Evaluation\<close>

definition EvaluateToken ::
  "'w::len memory option \<Rightarrow> string \<Rightarrow> 'w word evaluator \<Rightarrow> (bool \<times> 'w word evaluator) run" where
  "EvaluateToken memory token st =
     (if binary_operation token \<noteq> BINARY_OP_NONE then do {
        (operands, stk) \<leftarrow> PopValues (dictionary st) (stack st);
        (case operands of
           None \<Rightarrow> Some (False, st\<lparr>stack := stk\<rparr>)
         | Some (operand1, operand2) \<Rightarrow> do {
             result \<leftarrow> perform_operation (binary_operation token) operand1 operand2;
             Some (True, st\<lparr>stack := PushValue result stk\<rparr>)
           })
      }
      else if token = ''^'' then
        (case memory of
           None \<Rightarrow> Some (False, st)
         | Some GetMemoryAtAddress \<Rightarrow> do {
             (address, stk) \<leftarrow> PopValue (dictionary st) (stack st);
             (case address of
                None \<Rightarrow> Some (False, st\<lparr>stack := stk\<rparr>)
              | Some a \<Rightarrow>
                  (case GetMemoryAtAddress (ucast a) of
                     None \<Rightarrow> Some (False, st\<lparr>stack := stk\<rparr>)
                   | Some value \<Rightarrow> Some (True, st\<lparr>stack := PushValue value stk\<rparr>)))
           })
      else if token = ''='' then do {
        (value, stk) \<leftarrow> PopValue (dictionary st) (stack st);
        (case value of
           None \<Rightarrow> Some (False, st\<lparr>stack := stk\<rparr>)
         | Some v \<Rightarrow> do {
             (target :: 'w word pop_result, stk) \<leftarrow> PopValueOrIdentifier False stk;
             (case target of
                POP_RESULT_IDENTIFIER identifier \<Rightarrow>
                  if identifier = [] \<or> hd identifier \<noteq> CHR ''$''
                  then Some (False, st\<lparr>stack := stk\<rparr>)
                  else Some (True, st\<lparr>dictionary := (dictionary st)(identifier \<mapsto> v),
                               assigned := map_option (\<lambda>a. a(identifier \<mapsto> True)) (assigned st),
                               stack := stk\<rparr>)
              | _ \<Rightarrow> Some (False, st\<lparr>stack := stk\<rparr>))
           })
      }
      else Some (True, st\<lparr>stack := token # stack st\<rparr>))"

text \<open>The loop of \<open>EvaluateInternal\<close> over the words of the expression.\<close>

fun evaluate_words ::
  "'w::len memory option \<Rightarrow> string list \<Rightarrow> 'w word evaluator \<Rightarrow> (bool \<times> 'w word evaluator) run" where
  "evaluate_words memory [] st = Some (True, st)"
| "evaluate_words memory (token # rest) st =
     (if length token > 1 \<and> hd token = CHR ''='' then do {
        (ok, st) \<leftarrow> EvaluateToken memory ''='' st;
        if \<not> ok then Some (False, st)
        else do {
          (ok, st) \<leftarrow> EvaluateToken memory (tl token) st;
          if \<not> ok then Some (False, st) else evaluate_words memory rest st
        }
      }
      else do {
        (ok, st) \<leftarrow> EvaluateToken memory token st;
        if \<not> ok then Some (False, st) else evaluate_words memory rest st
      })"

definition EvaluateInternal ::
  "'w::len memory option \<Rightarrow> string \<Rightarrow> 'w word evaluator \<Rightarrow> (bool \<times> 'w word evaluator) run" where
  "EvaluateInternal memory expression st = evaluate_words memory (words_of expression) st"

definition Evaluate ::
  "'w::len memory option \<Rightarrow> string \<Rightarrow> 'w word evaluator \<Rightarrow> (bool \<times> 'w word evaluator) run" where
  "Evaluate memory expression st = do {
     (ok, st) \<leftarrow> EvaluateInternal memory expression st;
     Some (ok \<and> stack st = [], st\<lparr>stack := []\<rparr>)
   }"

text \<open>\<open>EvaluateForValue\<close> passes no record of assigned names; the caller's is kept.\<close>

definition EvaluateForValue ::
  "'w::len memory option \<Rightarrow> string \<Rightarrow> 'w word evaluator \<Rightarrow> ('w word option \<times> 'w word evaluator) run" where
  "EvaluateForValue memory expression st0 = do {
     (ok, st) \<leftarrow> EvaluateInternal memory expression (st0\<lparr>assigned := None\<rparr>);
     let st' = st\<lparr>assigned := assigned st0, stack := []\<rparr> in
     if \<not> ok \<or> length (stack st) \<noteq> 1 then Some (None, st')
     else do {
       (value, _) \<leftarrow> PopValue (dictionary st) (stack st);
       Some (value, st')
     }
   }"

subsection \<open>Tokens and their values\<close>

text \<open>What a token on the stack denotes: a literal, otherwise the dictionary's value.\<close>

definition literal_of :: "string \<Rightarrow> 'w::len word option" where
  "literal_of token =
     (if token \<noteq> [] \<and> hd token = CHR ''-'' then map_option uminus (read_unsigned (tl token))
      else read_unsigned token)"

definition token_value :: "(string \<rightharpoonup> 'w::len word) \<Rightarrow> string \<Rightarrow> 'w word option" where
  "token_value dict token = (case literal_of token of Some v \<Rightarrow> Some v | None \<Rightarrow> dict token)"

lemma PopValue_Nil [simp]: "PopValue dict [] = Some (None, [])"
  by (simp add: PopValue_def PopValueOrIdentifier_def)

lemma PopValue_Cons [simp]: "PopValue dict (t # stk) = Some (token_value dict t, stk)"
  by (auto simp: PopValue_def PopValueOrIdentifier_def token_value_def literal_of_def Let_def
      split: option.split)

lemma PopValues_Cons2 [simp]:
  "PopValues dict (t2 # t1 # stk) =
     (case token_value dict t2 of
        None \<Rightarrow> Some (None, t1 # stk)
      | Some v2 \<Rightarrow> Some (map_option (\<lambda>v1. (v1, v2)) (token_value dict t1), stk))"
  by (simp add: PopValues_def split: option.split)

lemma PopValueOrIdentifier_cases:
  fixes r :: "'w::len word pop_result"
  assumes "PopValueOrIdentifier has stk = Some (r, stk')"
  shows "stk' = tl stk \<and> (\<forall>x. r = POP_RESULT_IDENTIFIER x \<longrightarrow>
     stk = x # stk' \<and> (literal_of x :: 'w word option) = None)"
  using assms
  by (auto simp: PopValueOrIdentifier_def literal_of_def Let_def split: list.splits option.splits if_splits)

lemma PopValueOrIdentifier_identifier:
  "(literal_of x :: 'w::len word option) = None \<Longrightarrow>
     PopValueOrIdentifier has (x # stk) = Some (POP_RESULT_IDENTIFIER x :: 'w word pop_result, stk)"
  by (auto simp: PopValueOrIdentifier_def literal_of_def Let_def split: option.splits if_splits)

lemma literal_of_print [simp]: "literal_of (print_unsigned v) = Some (v :: 'w::len word)"
proof -
  have "is_digit 10 (hd (print_unsigned v))" using print_unsigned_hd by blast
  then have "hd (print_unsigned v) \<noteq> CHR ''-''"
    by (auto simp: is_digit_def digit_value_def Let_def)
  then show ?thesis by (simp add: literal_of_def)
qed

lemma token_value_print [simp]: "token_value dict (print_unsigned v) = Some v"
  by (simp add: token_value_def)

definition is_variable :: "string \<Rightarrow> bool" where
  "is_variable x = (x \<noteq> [] \<and> hd x = CHR ''$'')"

lemma literal_of_variable: "is_variable x \<Longrightarrow> (literal_of x :: 'w::len word option) = None"
  by (cases x) (auto simp: is_variable_def literal_of_def read_unsigned_def isspace_def
      is_digit_def digit_value_def Let_def)

lemma PopValue_run: "\<exists>v stk'. PopValue dict stk = Some (v, stk')"
  by (cases stk) auto

lemma PopValues_run: "\<exists>v stk'. PopValues dict stk = Some (v, stk')"
proof -
  obtain v stk1 where 1: "PopValue dict stk = Some (v, stk1)" using PopValue_run by blast
  obtain u stk2 where 2: "PopValue dict stk1 = Some (u, stk2)" using PopValue_run by blast
  from 1 2 show ?thesis by (cases v) (auto simp: PopValues_def)
qed

subsection \<open>The program as a sequence of tokens\<close>

definition expand_word :: "string \<Rightarrow> string list" where
  "expand_word w = (if length w > 1 \<and> hd w = CHR ''='' then [''='', tl w] else [w])"

definition tokens_of :: "string \<Rightarrow> string list" where
  "tokens_of expression = concat (map expand_word (words_of expression))"

fun evaluate_tokens ::
  "'w::len memory option \<Rightarrow> string list \<Rightarrow> 'w word evaluator \<Rightarrow> (bool \<times> 'w word evaluator) run" where
  "evaluate_tokens memory [] st = Some (True, st)"
| "evaluate_tokens memory (token # rest) st = do {
     (ok, st) \<leftarrow> EvaluateToken memory token st;
     if \<not> ok then Some (False, st) else evaluate_tokens memory rest st
   }"

lemma evaluate_words_tokens:
  "evaluate_words memory ws st = evaluate_tokens memory (concat (map expand_word ws)) st"
proof (induction ws arbitrary: st)
  case (Cons w ws)
  then show ?case
    by (auto simp: expand_word_def intro!: Option.bind_cong)
qed simp

lemma EvaluateInternal_tokens:
  "EvaluateInternal memory s st = evaluate_tokens memory (tokens_of s) st"
  by (simp add: EvaluateInternal_def evaluate_words_tokens tokens_of_def)

lemma evaluate_tokens_append:
  "evaluate_tokens memory (ts @ us) st = do {
     (ok, st) \<leftarrow> evaluate_tokens memory ts st;
     if \<not> ok then Some (False, st) else evaluate_tokens memory us st
   }"
proof (induction ts arbitrary: st)
  case (Cons t ts)
  show ?case
  proof (cases "EvaluateToken memory t st")
    case (Some r)
    with Cons show ?thesis by (cases r) simp
  qed simp
qed simp

text \<open>Facts that every token keeps, whatever its result.\<close>

lemma EvaluateToken_induct:
  assumes run: "EvaluateToken memory t st = Some (ok, st')"
    and stk: "\<And>stk. P (st\<lparr>stack := stk\<rparr>)"
    and assign: "\<And>x v stk. is_variable x \<Longrightarrow>
      P (st\<lparr>dictionary := (dictionary st)(x \<mapsto> v),
           assigned := map_option (\<lambda>a. a(x \<mapsto> True)) (assigned st), stack := stk\<rparr>)"
  shows "P st'"
proof (cases "binary_operation t \<noteq> BINARY_OP_NONE")
  case True
  obtain ops stk' where p: "PopValues (dictionary st) (stack st) = Some (ops, stk')"
    using PopValues_run by blast
  from run True p stk show ?thesis
    by (cases ops; cases "the ops")
      (auto simp: EvaluateToken_def bind_eq_Some_conv)
next
  case notop: False
  obtain v stk' where p: "PopValue (dictionary st) (stack st) = Some (v, stk')"
    using PopValue_run by blast
  show ?thesis
  proof (cases "t = ''^''")
    case True
    with run notop p stk stk [of "stack st"] show ?thesis
      by (cases memory; cases v; cases "the memory (ucast (the v))")
        (auto simp: EvaluateToken_def)
  next
    case notderef: False
    show ?thesis
    proof (cases "t = ''=''")
      case True
      show ?thesis
      proof (cases v)
        case None
        with True run notop p stk show ?thesis by (auto simp: EvaluateToken_def)
      next
        case (Some w)
        then obtain r :: "'a word pop_result" and stk2 where
          r: "PopValueOrIdentifier False stk' = Some (r, stk2)"
          using True run notop p by (auto simp: EvaluateToken_def bind_eq_Some_conv)
        with Some True run notop p stk assign show ?thesis
          by (cases r) (auto simp: EvaluateToken_def is_variable_def split: if_split_asm)
      qed
    next
      case False
      with run notop notderef stk show ?thesis by (auto simp: EvaluateToken_def)
    qed
  qed
qed

lemma evaluate_tokens_induct:
  assumes run: "evaluate_tokens memory ts st = Some (ok, st')"
    and start: "P st"
    and stk: "\<And>st stk. P st \<Longrightarrow> P (st\<lparr>stack := stk\<rparr>)"
    and assign: "\<And>st x v stk. P st \<Longrightarrow> is_variable x \<Longrightarrow>
      P (st\<lparr>dictionary := (dictionary st)(x \<mapsto> v),
           assigned := map_option (\<lambda>a. a(x \<mapsto> True)) (assigned st), stack := stk\<rparr>)"
  shows "P st'"
  using run start
proof (induction ts arbitrary: st)
  case (Cons t ts)
  then obtain ok1 st1 where 1: "EvaluateToken memory t st = Some (ok1, st1)"
    and 2: "(if \<not> ok1 then Some (False, st1) else evaluate_tokens memory ts st1) = Some (ok, st')"
    by (auto simp: bind_eq_Some_conv)
  have "P st1" using 1 by (rule EvaluateToken_induct) (auto intro: stk assign Cons.prems)
  with 2 Cons.IH show ?case by (auto split: if_splits)
qed simp

subsection \<open>Expressions and programs\<close>

text \<open>
  What a postfix text means: expressions over operands (a literal or an identifier), binary
  operations and dereferences, and programs that assign expressions to variables.  A value
  is missing when an identifier is unknown, memory cannot be read or a division is by zero.
\<close>

datatype expr =
  Operand string | Binary BinaryOperation expr expr | Deref expr

definition op_token :: "BinaryOperation \<Rightarrow> string" where
  "op_token oper = (case oper of
     BINARY_OP_ADD \<Rightarrow> ''+'' | BINARY_OP_SUBTRACT \<Rightarrow> ''-'' | BINARY_OP_MULTIPLY \<Rightarrow> ''*''
   | BINARY_OP_DIVIDE_QUOTIENT \<Rightarrow> ''/'' | BINARY_OP_DIVIDE_MODULUS \<Rightarrow> ''%''
   | BINARY_OP_ALIGN \<Rightarrow> ''@'' | BINARY_OP_NONE \<Rightarrow> [])"

definition is_operand :: "string \<Rightarrow> bool" where
  "is_operand t = (binary_operation t = BINARY_OP_NONE \<and> t \<noteq> ''^'' \<and> t \<noteq> ''='')"

fun wf_expr :: "expr \<Rightarrow> bool" where
  "wf_expr (Operand t) = is_operand t"
| "wf_expr (Binary oper e1 e2) = (oper \<noteq> BINARY_OP_NONE \<and> wf_expr e1 \<and> wf_expr e2)"
| "wf_expr (Deref e) = wf_expr e"

fun expr_tokens :: "expr \<Rightarrow> string list" where
  "expr_tokens (Operand t) = [t]"
| "expr_tokens (Binary oper e1 e2) = expr_tokens e1 @ expr_tokens e2 @ [op_token oper]"
| "expr_tokens (Deref e) = expr_tokens e @ [''^'']"

fun eval_expr :: "'w::len memory option \<Rightarrow> (string \<rightharpoonup> 'w word) \<Rightarrow> expr \<Rightarrow> 'w word option" where
  "eval_expr memory dict (Operand t) = token_value dict t"
| "eval_expr memory dict (Binary oper e1 e2) = do {
     v1 \<leftarrow> eval_expr memory dict e1;
     v2 \<leftarrow> eval_expr memory dict e2;
     perform_operation oper v1 v2
   }"
| "eval_expr memory dict (Deref e) = do {
     a \<leftarrow> eval_expr memory dict e;
     GetMemoryAtAddress \<leftarrow> memory;
     GetMemoryAtAddress (ucast a)
   }"

type_synonym assignment = "string \<times> expr"

fun program_tokens :: "assignment list \<Rightarrow> string list" where
  "program_tokens [] = []"
| "program_tokens ((x, e) # p) = x # expr_tokens e @ [''=''] @ program_tokens p"

definition wf_program :: "assignment list \<Rightarrow> bool" where
  "wf_program p = (\<forall>(x, e)\<in>set p. is_variable x \<and> wf_expr e)"

fun run_program ::
  "'w::len memory option \<Rightarrow> assignment list \<Rightarrow> (string \<rightharpoonup> 'w word) \<Rightarrow> (string \<rightharpoonup> 'w word) option" where
  "run_program memory [] dict = Some dict"
| "run_program memory ((x, e) # p) dict = do {
     v \<leftarrow> eval_expr memory dict e;
     run_program memory p (dict(x \<mapsto> v))
   }"

definition mark_assigned ::
  "string list \<Rightarrow> (string \<rightharpoonup> bool) option \<Rightarrow> (string \<rightharpoonup> bool) option" where
  "mark_assigned xs a = map_option (\<lambda>m. foldl (\<lambda>m x. m(x \<mapsto> True)) m xs) a"

lemma binary_operation_op_token [simp]: "binary_operation (op_token oper) = oper"
  by (cases oper) (simp_all add: op_token_def binary_operation_def)

lemma is_operand_variable: "is_variable x \<Longrightarrow> is_operand x"
  by (cases x) (simp_all add: is_variable_def is_operand_def binary_operation_def)

lemma EvaluateToken_operand:
  "is_operand t \<Longrightarrow> EvaluateToken memory t st = Some (True, st\<lparr>stack := t # stack st\<rparr>)"
  by (simp add: EvaluateToken_def is_operand_def)

lemma EvaluateToken_op:
  assumes "oper \<noteq> BINARY_OP_NONE" and "stack st = t2 # t1 # stk"
  shows "EvaluateToken memory (op_token oper) st =
    (case token_value (dictionary st) t2 of
       None \<Rightarrow> Some (False, st\<lparr>stack := t1 # stk\<rparr>)
     | Some v2 \<Rightarrow>
        (case token_value (dictionary st) t1 of
           None \<Rightarrow> Some (False, st\<lparr>stack := stk\<rparr>)
         | Some v1 \<Rightarrow> do {
             r \<leftarrow> perform_operation oper v1 v2;
             Some (True, st\<lparr>stack := PushValue r stk\<rparr>) }))"
  using assms by (simp add: EvaluateToken_def split: option.split)

lemma EvaluateToken_deref:
  assumes "stack st = t # stk"
  shows "EvaluateToken memory ''^'' st =
    (case memory of
       None \<Rightarrow> Some (False, st)
     | Some m \<Rightarrow>
        (case token_value (dictionary st) t of
           None \<Rightarrow> Some (False, st\<lparr>stack := stk\<rparr>)
         | Some a \<Rightarrow>
            (case m (ucast a) of
               None \<Rightarrow> Some (False, st\<lparr>stack := stk\<rparr>)
             | Some v \<Rightarrow> Some (True, st\<lparr>stack := PushValue v stk\<rparr>))))"
  using assms by (simp add: EvaluateToken_def binary_operation_def split: option.split)

lemma EvaluateToken_assign:
  fixes st :: "'w::len word evaluator"
  assumes "stack st = t # x # stk" and "is_variable x"
  shows "EvaluateToken memory ''='' st =
    (case token_value (dictionary st) t of
       None \<Rightarrow> Some (False, st\<lparr>stack := x # stk\<rparr>)
     | Some v \<Rightarrow> Some (True, st\<lparr>dictionary := (dictionary st)(x \<mapsto> v),
                 assigned := map_option (\<lambda>a. a(x \<mapsto> True)) (assigned st), stack := stk\<rparr>))"
  using assms literal_of_variable [OF assms(2), where 'w = 'w]
  by (auto simp: EvaluateToken_def binary_operation_def PopValueOrIdentifier_identifier
      is_variable_def split: option.split)

text \<open>
  Running the tokens of an expression: either the run fails, or it leaves one token that
  denotes the value of the expression (and cannot be resolved when there is none).
\<close>

definition succeeds :: "(bool \<times> 'b) run \<Rightarrow> bool" where
  "succeeds r = (\<exists>st. r = Some (True, st))"

lemma succeeds_None [simp]: "\<not> succeeds None"
  and succeeds_False [simp]: "\<not> succeeds (Some (False, st))"
  and succeeds_True [simp]: "succeeds (Some (True, st))"
  by (simp_all add: succeeds_def)

lemma expression_run:
  assumes "wf_expr e"
  shows "(\<not> succeeds (evaluate_tokens memory (expr_tokens e) st) \<and>
            eval_expr memory (dictionary st) e = None) \<or>
         (\<exists>t. evaluate_tokens memory (expr_tokens e) st = Some (True, st\<lparr>stack := t # stack st\<rparr>) \<and>
            token_value (dictionary st) t = eval_expr memory (dictionary st) e)"
  using assms
proof (induction e arbitrary: st)
  case (Operand t)
  then show ?case by (intro disjI2 exI [of _ t]) (simp add: EvaluateToken_operand)
next
  case (Binary oper e1 e2)
  have wf: "wf_expr e1" "wf_expr e2" using Binary.prems by simp_all
  from Binary.IH(1) [OF wf(1), of st] show ?case
  proof (elim disjE conjE exE)
    assume "\<not> succeeds (evaluate_tokens memory (expr_tokens e1) st)"
      and "eval_expr memory (dictionary st) e1 = None"
    then show ?thesis
      by (auto simp: evaluate_tokens_append succeeds_def bind_eq_Some_conv split: if_split_asm)
  next
    fix t1
    assume 1: "evaluate_tokens memory (expr_tokens e1) st = Some (True, st\<lparr>stack := t1 # stack st\<rparr>)"
      and v1: "token_value (dictionary st) t1 = eval_expr memory (dictionary st) e1"
    let ?st1 = "st\<lparr>stack := t1 # stack st\<rparr>"
    from Binary.IH(2) [OF wf(2), of ?st1] show ?thesis
    proof (elim disjE conjE exE)
      assume "\<not> succeeds (evaluate_tokens memory (expr_tokens e2) ?st1)"
        and "eval_expr memory (dictionary ?st1) e2 = None"
      then show ?thesis using 1
        by (auto simp: evaluate_tokens_append succeeds_def bind_eq_Some_conv split: if_split_asm)
    next
      fix t2
      assume 2: "evaluate_tokens memory (expr_tokens e2) ?st1 =
          Some (True, ?st1\<lparr>stack := t2 # stack ?st1\<rparr>)"
        and v2: "token_value (dictionary ?st1) t2 = eval_expr memory (dictionary ?st1) e2"
      let ?st2 = "?st1\<lparr>stack := t2 # stack ?st1\<rparr>"
      have run: "evaluate_tokens memory (expr_tokens (Binary oper e1 e2)) st =
          evaluate_tokens memory [op_token oper] ?st2"
        using 1 2 by (simp add: evaluate_tokens_append)
      have oper: "oper \<noteq> BINARY_OP_NONE" using Binary.prems by simp
      show ?thesis unfolding run using v1 v2
        by (cases "eval_expr memory (dictionary st) e1"; cases "eval_expr memory (dictionary st) e2";
            cases "perform_operation oper (the (eval_expr memory (dictionary st) e1))
                     (the (eval_expr memory (dictionary st) e2))")
          (auto simp: EvaluateToken_op [OF oper] PushValue_def)
    qed
  qed
next
  case (Deref e)
  have wf: "wf_expr e" using Deref.prems by simp
  from Deref.IH [OF wf, of st] show ?case
  proof (elim disjE conjE exE)
    assume "\<not> succeeds (evaluate_tokens memory (expr_tokens e) st)"
      and "eval_expr memory (dictionary st) e = None"
    then show ?thesis
      by (auto simp: evaluate_tokens_append succeeds_def bind_eq_Some_conv split: if_split_asm)
  next
    fix t
    assume 1: "evaluate_tokens memory (expr_tokens e) st = Some (True, st\<lparr>stack := t # stack st\<rparr>)"
      and v: "token_value (dictionary st) t = eval_expr memory (dictionary st) e"
    let ?st1 = "st\<lparr>stack := t # stack st\<rparr>"
    have run: "evaluate_tokens memory (expr_tokens (Deref e)) st =
        evaluate_tokens memory [''^''] ?st1"
      using 1 by (simp add: evaluate_tokens_append)
    show ?thesis unfolding run using v
      by (cases memory; cases "eval_expr memory (dictionary st) e";
          cases "the memory (ucast (the (eval_expr memory (dictionary st) e)))")
        (auto simp: EvaluateToken_deref PushValue_def)
  qed
qed

lemma program_run:
  assumes "wf_program p"
  shows "case run_program memory p (dictionary st) of
      None \<Rightarrow> \<not> succeeds (evaluate_tokens memory (program_tokens p @ ts) st)
    | Some dict \<Rightarrow> evaluate_tokens memory (program_tokens p @ ts) st =
        evaluate_tokens memory ts
          (st\<lparr>dictionary := dict, assigned := mark_assigned (map fst p) (assigned st)\<rparr>)"
  using assms
proof (induction p arbitrary: st)
  case Nil
  then show ?case by (simp add: mark_assigned_def option.map_ident)
next
  case (Cons a p)
  obtain x e where a: "a = (x, e)" by (cases a)
  have x: "is_variable x" and e: "wf_expr e" and p: "wf_program p"
    using Cons.prems a by (auto simp: wf_program_def)
  let ?st0 = "st\<lparr>stack := x # stack st\<rparr>"
  have first: "evaluate_tokens memory (program_tokens (a # p) @ ts) st =
      evaluate_tokens memory (expr_tokens e @ [''=''] @ program_tokens p @ ts) ?st0"
    using a by (simp add: EvaluateToken_operand is_operand_variable x)
  from expression_run [OF e, of memory ?st0] show ?case
  proof (elim disjE conjE exE)
    assume f: "\<not> succeeds (evaluate_tokens memory (expr_tokens e) ?st0)"
      and n: "eval_expr memory (dictionary ?st0) e = None"
    show ?thesis unfolding first using f n a
      by (auto simp: evaluate_tokens_append [of _ "expr_tokens e"] succeeds_def bind_eq_Some_conv
          split: if_split_asm)
  next
    fix t
    assume 1: "evaluate_tokens memory (expr_tokens e) ?st0 = Some (True, ?st0\<lparr>stack := t # stack ?st0\<rparr>)"
      and v: "token_value (dictionary ?st0) t = eval_expr memory (dictionary ?st0) e"
    show ?thesis
    proof (cases "eval_expr memory (dictionary st) e")
      case None
      with 1 v a show ?thesis unfolding first
        by (simp add: evaluate_tokens_append EvaluateToken_assign [OF _ x])
    next
      case (Some w)
      define st1 where "st1 = st\<lparr>dictionary := (dictionary st)(x \<mapsto> w),
                 assigned := map_option (\<lambda>a. a(x \<mapsto> True)) (assigned st)\<rparr>"
      have run: "evaluate_tokens memory (program_tokens (a # p) @ ts) st =
          evaluate_tokens memory (program_tokens p @ ts) st1"
        unfolding first using 1 v Some
        by (simp add: evaluate_tokens_append [of _ "expr_tokens e"] EvaluateToken_assign [OF _ x] st1_def)
      have mark: "mark_assigned (map fst p) (assigned st1) = mark_assigned (map fst (a # p)) (assigned st)"
        using a by (simp add: mark_assigned_def option.map_comp o_def st1_def)
      have prog: "run_program memory (a # p) (dictionary st) = run_program memory p (dictionary st1)"
        using a Some by (simp add: st1_def)
      have rest: "st1\<lparr>dictionary := d, assigned := b\<rparr> = st\<lparr>dictionary := d, assigned := b\<rparr>" for d b
        by (simp add: st1_def)
      show ?thesis
        using Cons.IH [OF p, of st1] by (simp only: run mark prog rest)
    qed
  qed
qed

text \<open>
  C7: \<open>Evaluate\<close> on the text of a program succeeds exactly when every expression of the program
  has a value, and then it has run the assignments in order and marked their variables.
\<close>

theorem Evaluate_program:
  assumes "wf_program p" and "tokens_of s = program_tokens p" and "stack st = []"
  shows "case run_program memory p (dictionary st) of
      None \<Rightarrow> \<not> succeeds (Evaluate memory s st)
    | Some dict \<Rightarrow> Evaluate memory s st =
        Some (True, st\<lparr>dictionary := dict, assigned := mark_assigned (map fst p) (assigned st)\<rparr>)"
  using program_run [OF assms(1), where memory = memory and st = st and ts = "[]"] assms(2,3)
  by (auto simp: Evaluate_def EvaluateInternal_tokens succeeds_def bind_eq_Some_conv
      split: option.split_asm option.split)

text \<open>
  \<open>EvaluateForValue\<close> on a program followed by an expression yields a value exactly
  when every assignment has a value and so has the expression in the final dictionary, and
  then it is that value.
\<close>

theorem EvaluateForValue_program:
  assumes "wf_program p" and "wf_expr e" and "tokens_of s = program_tokens p @ expr_tokens e"
    and "stack st = []"
  shows "(\<exists>st'. EvaluateForValue memory s st = Some (Some v, st')) =
    (\<exists>dict. run_program memory p (dictionary st) = Some dict \<and> eval_expr memory dict e = Some v)"
proof (cases "run_program memory p (dictionary st)")
  case None
  with program_run [OF assms(1), where memory = memory and st = "st\<lparr>assigned := None\<rparr>" and ts = "expr_tokens e"] assms(3)
  show ?thesis
    by (auto simp: EvaluateForValue_def EvaluateInternal_tokens succeeds_def bind_eq_Some_conv Let_def
        split: if_split_asm)
next
  case (Some dict)
  let ?st1 = "st\<lparr>dictionary := dict, assigned := None\<rparr>"
  have run: "EvaluateInternal memory s (st\<lparr>assigned := None\<rparr>) =
      evaluate_tokens memory (expr_tokens e) ?st1"
    using program_run [OF assms(1), where memory = memory and st = "st\<lparr>assigned := None\<rparr>" and ts = "expr_tokens e"] Some assms(3)
    by (simp add: EvaluateInternal_tokens mark_assigned_def)
  from expression_run [OF assms(2), of memory ?st1] show ?thesis
  proof (elim disjE conjE exE)
    assume "\<not> succeeds (evaluate_tokens memory (expr_tokens e) ?st1)"
      and "eval_expr memory (dictionary ?st1) e = None"
    with run Some show ?thesis
      by (auto simp: EvaluateForValue_def succeeds_def bind_eq_Some_conv Let_def split: if_split_asm)
  next
    fix t
    assume "evaluate_tokens memory (expr_tokens e) ?st1 = Some (True, ?st1\<lparr>stack := t # stack ?st1\<rparr>)"
      and "token_value (dictionary ?st1) t = eval_expr memory (dictionary ?st1) e"
    with run Some assms(4) show ?thesis by (simp add: EvaluateForValue_def Let_def)
  qed
qed

subsection \<open>Safety\<close>

text \<open>
  Whatever the expression and the outcome, an evaluation that returns leaves the stack
  empty, changes no name that is not a variable, and marks every variable it changes.
\<close>

theorem Evaluate_frame:
  assumes "Evaluate memory s st = Some (ok, st')"
  shows "stack st' = [] \<and>
    (\<forall>k. \<not> is_variable k \<longrightarrow> dictionary st' k = dictionary st k) \<and>
    (\<forall>k. dictionary st' k \<noteq> dictionary st k \<longrightarrow>
       (case assigned st of None \<Rightarrow> assigned st' = None
        | Some a \<Rightarrow> \<exists>a'. assigned st' = Some a' \<and> a' k = Some True))"
proof -
  let ?P = "\<lambda>st1. (\<forall>k. \<not> is_variable k \<longrightarrow> dictionary st1 k = dictionary st k) \<and>
    (case assigned st of None \<Rightarrow> assigned st1 = None
     | Some a \<Rightarrow> \<exists>a'. assigned st1 = Some a' \<and>
         (\<forall>k. dictionary st1 k \<noteq> dictionary st k \<longrightarrow> a' k = Some True))"
  obtain ok1 st1 where run: "evaluate_tokens memory (tokens_of s) st = Some (ok1, st1)"
    and st': "st' = st1\<lparr>stack := []\<rparr>"
    using assms by (auto simp: Evaluate_def EvaluateInternal_tokens bind_eq_Some_conv)
  have "?P st1" using run
  proof (rule evaluate_tokens_induct)
    show "?P st" by (auto split: option.split)
  next
    fix st2 :: "'a word evaluator" and stk
    assume "?P st2"
    then show "?P (st2\<lparr>stack := stk\<rparr>)" by (cases "assigned st") simp_all
  next
    fix st2 :: "'a word evaluator" and x v stk
    assume P: "?P st2" and x: "is_variable x"
    show "?P (st2\<lparr>dictionary := (dictionary st2)(x \<mapsto> v),
        assigned := map_option (\<lambda>a. a(x \<mapsto> True)) (assigned st2), stack := stk\<rparr>)"
      using P x by (cases "assigned st") auto
  qed
  then show ?thesis by (auto simp: st' split: option.split_asm option.split)
qed

text \<open>
  The only evaluations that do not return are those that divide by zero or that assign to a
  negative literal.
\<close>

definition never_traps :: "string \<Rightarrow> bool" where
  "never_traps t = (t \<noteq> ''/'' \<and> t \<noteq> ''%'' \<and> (t = ''-'' \<or> t = [] \<or> hd t \<noteq> CHR ''-''))"

definition harmless :: "string \<Rightarrow> bool" where
  "harmless t = (t = [] \<or> hd t \<noteq> CHR ''-'')"

lemma harmless_print [simp]: "harmless (print_unsigned v)"
proof -
  have "is_digit 10 (hd (print_unsigned v))" using print_unsigned_hd by blast
  then show ?thesis by (auto simp: harmless_def is_digit_def digit_value_def Let_def)
qed

lemma PopValue_tl: "\<exists>v. PopValue dict stk = Some (v, tl stk)"
  by (cases stk) auto

lemma PopValues_tl:
  "\<exists>v stk'. PopValues dict stk = Some (v, stk') \<and> set stk' \<subseteq> set stk"
proof -
  obtain v where v: "PopValue dict stk = Some (v, tl stk)" using PopValue_tl by blast
  obtain u where u: "PopValue dict (tl stk) = Some (u, tl (tl stk))" using PopValue_tl by blast
  have "set (tl stk) \<subseteq> set stk" "set (tl (tl stk)) \<subseteq> set stk"
    using set_tl_subset [of stk] set_tl_subset [of "tl stk"] by auto
  with v u show ?thesis by (cases v) (auto simp: PopValues_def)
qed

lemma PopValueOrIdentifier_harmless:
  assumes "\<forall>t\<in>set stk. harmless t"
  shows "\<exists>r :: 'w::len word pop_result. PopValueOrIdentifier has stk = Some (r, tl stk)"
  using assms by (cases stk)
    (auto simp: PopValueOrIdentifier_def harmless_def split: option.split)

lemma perform_operation_returns:
  "oper \<noteq> BINARY_OP_DIVIDE_QUOTIENT \<Longrightarrow> oper \<noteq> BINARY_OP_DIVIDE_MODULUS \<Longrightarrow> oper \<noteq> BINARY_OP_NONE \<Longrightarrow>
     \<exists>r. perform_operation oper v1 v2 = Some r"
  by (cases oper) auto

lemma EvaluateToken_returns:
  assumes t: "never_traps t" and h: "\<forall>u\<in>set (stack st). harmless u"
  shows "\<exists>ok st'. EvaluateToken memory t st = Some (ok, st') \<and> (\<forall>u\<in>set (stack st'). harmless u)"
proof (cases "binary_operation t \<noteq> BINARY_OP_NONE")
  case True
  obtain ops stk' where p: "PopValues (dictionary st) (stack st) = Some (ops, stk')"
    and s: "set stk' \<subseteq> set (stack st)" using PopValues_tl by blast
  have "binary_operation t \<noteq> BINARY_OP_DIVIDE_QUOTIENT" "binary_operation t \<noteq> BINARY_OP_DIVIDE_MODULUS"
    using t by (auto simp: never_traps_def binary_operation_def)
  from perform_operation_returns [OF this True] True p s h show ?thesis
    by (cases ops; cases "the ops")
      (fastforce simp: EvaluateToken_def PushValue_def bind_eq_Some_conv)+
next
  case notop: False
  obtain v where p: "PopValue (dictionary st) (stack st) = Some (v, tl (stack st))"
    using PopValue_tl by blast
  have tl: "\<forall>u\<in>set (tl (stack st)). harmless u" using h set_tl_subset [of "stack st"] by blast
  then have tl2: "\<forall>u\<in>set (tl (tl (stack st))). harmless u" using set_tl_subset [of "tl (stack st)"] by blast
  obtain r :: "'a word pop_result" where
    r: "PopValueOrIdentifier False (tl (stack st)) = Some (r, tl (tl (stack st)))"
    using PopValueOrIdentifier_harmless [OF tl] by blast
  show ?thesis
  proof (cases "t = ''^''")
    case True
    with notop p h tl show ?thesis
      by (cases memory; cases v; cases "the memory (ucast (the v))")
        (auto simp: EvaluateToken_def PushValue_def)
  next
    case notderef: False
    show ?thesis
    proof (cases "t = ''=''")
      case True
      with notop p r tl tl2 show ?thesis
        by (cases v; cases r) (auto simp: EvaluateToken_def)
    next
      case False
      have "harmless t"
        using t notop by (auto simp: never_traps_def harmless_def binary_operation_def)
      with False notop notderef h show ?thesis by (auto simp: EvaluateToken_def)
    qed
  qed
qed

lemma evaluate_tokens_returns:
  assumes "\<forall>t\<in>set ts. never_traps t" and "\<forall>u\<in>set (stack st). harmless u"
  shows "evaluate_tokens memory ts st \<noteq> None"
  using assms
proof (induction ts arbitrary: st)
  case (Cons t ts)
  then obtain ok st' where "EvaluateToken memory t st = Some (ok, st')"
    and "\<forall>u\<in>set (stack st'). harmless u"
    using EvaluateToken_returns [of t st memory] by auto
  with Cons show ?case by (cases ok) simp_all
qed simp

text \<open>
  An expression without division tokens and without words that start with a minus sign
  (other than the operator) is always evaluated to a result, whatever its syntax, its
  identifiers and the memory.
\<close>

theorem Evaluate_returns:
  assumes "\<forall>t\<in>set (tokens_of s). never_traps t" and "stack st = []"
  shows "\<exists>ok st'. Evaluate memory s st = Some (ok, st')"
proof -
  obtain ok st' where "evaluate_tokens memory (tokens_of s) st = Some (ok, st')"
    using evaluate_tokens_returns [OF assms(1), of st memory] assms(2) by auto
  then show ?thesis by (simp add: Evaluate_def EvaluateInternal_tokens)
qed

text \<open>
  C8: An assignment to a negative literal does not return a failure: it goes through the NULL \<open>value\<close> pointer that the
  \<open>=\<close> token passes to \<open>PopValueOrIdentifier\<close>.
\<close>

theorem Evaluate_negative_target:
  fixes st :: "'w::len word evaluator"
  assumes "tokens_of s = [x, t, ''='']" and "stack st = []"
    and "hd x = CHR ''-''" and "(read_unsigned (tl x) :: 'w word option) = Some v"
    and "is_operand t" and "token_value (dictionary st) t = Some w"
  shows "Evaluate memory s st = None"
proof -
  have "x \<noteq> []" and "x \<noteq> ''-''" using assms(4)
    by (auto simp: read_unsigned_def Let_def)
  moreover from this assms(3) have x: "is_operand x"
    by (cases x) (simp_all add: is_operand_def binary_operation_def)
  ultimately have "EvaluateToken memory ''='' (st\<lparr>stack := [t, x]\<rparr>) = None"
    using assms(3,4,6)
    by (simp add: EvaluateToken_def binary_operation_def PopValueOrIdentifier_def)
  then show ?thesis
    using assms(1,2,5) x by (simp add: Evaluate_def EvaluateInternal_tokens EvaluateToken_operand)
qed

subsection \<open>The properties at work\<close>

lemmas evaluator_eval = EvaluateToken_def binary_operation_def PopValueOrIdentifier_def
  PushValue_def token_value_def literal_of_def

text \<open>The program string of the comment in \<open>EvaluateInternal\<close>, on a region that reads 10.\<close>

definition msvc_program :: "assignment list" where
  "msvc_program =
     [(''$T0'', Binary BINARY_OP_ADD (Operand ''$ebp'') (Operand ''128'')),
      (''$eip'', Deref (Binary BINARY_OP_ADD (Operand ''$T0'') (Operand ''4''))),
      (''$ebp'', Deref (Operand ''$T0''))]"

definition sample_state :: "u32 evaluator" where
  "sample_state = \<lparr>dictionary = [''$ebp'' \<mapsto> 16], assigned = Some Map.empty, stack = []\<rparr>"

lemma msvc_program_tokens:
  "tokens_of ''$T0 $ebp 128 + =$eip $T0 4 + ^ =$ebp $T0 ^ ='' = program_tokens msvc_program"
  by (simp add: tokens_of_def expand_word_def msvc_program_def op_token_def text_eval)

lemma msvc_program_wf: "wf_program msvc_program"
  by (simp add: wf_program_def msvc_program_def is_variable_def is_operand_def binary_operation_def)

theorem Evaluate_program_witness:
  "Evaluate (Some (\<lambda>_. Some 10)) ''$T0 $ebp 128 + =$eip $T0 4 + ^ =$ebp $T0 ^ ='' sample_state =
     Some (True, sample_state\<lparr>
       dictionary := [''$ebp'' \<mapsto> 16, ''$T0'' \<mapsto> 144, ''$eip'' \<mapsto> 10, ''$ebp'' \<mapsto> 10],
       assigned := mark_assigned [''$T0'', ''$eip'', ''$ebp''] (Some Map.empty)\<rparr>)"
proof -
  have "run_program (Some (\<lambda>_. Some 10)) msvc_program (dictionary sample_state) =
      Some [''$ebp'' \<mapsto> 16, ''$T0'' \<mapsto> 144, ''$eip'' \<mapsto> 10, ''$ebp'' \<mapsto> 10]"
    by (simp add: msvc_program_def sample_state_def token_value_def literal_of_def text_eval)
  with Evaluate_program [OF msvc_program_wf msvc_program_tokens,
      of sample_state "Some (\<lambda>_. Some 10)"]
  show ?thesis by (simp add: sample_state_def msvc_program_def)
qed

theorem EvaluateForValue_program_witness:
  "\<exists>st'. EvaluateForValue None ''$ebp -4 +'' sample_state = Some (Some 12, st')"
proof -
  have t: "tokens_of ''$ebp -4 +'' = program_tokens [] @
      expr_tokens (Binary BINARY_OP_ADD (Operand ''$ebp'') (Operand ''-4''))"
    by (simp add: tokens_of_def expand_word_def op_token_def text_eval)
  have e: "wf_expr (Binary BINARY_OP_ADD (Operand ''$ebp'') (Operand ''-4''))"
    by (simp add: is_operand_def binary_operation_def)
  have p: "wf_program []" and st: "stack sample_state = []"
    by (simp_all add: wf_program_def sample_state_def)
  show ?thesis
    unfolding EvaluateForValue_program [OF p e t st]
    by (simp add: sample_state_def token_value_def literal_of_def text_eval)
qed

theorem Evaluate_frame_witness:
  "\<exists>st'. Evaluate None ''$x 2 = k'' sample_state = Some (False, st') \<and> stack st' = [] \<and>
     dictionary st' ''k'' = None"
proof -
  have "Evaluate None ''$x 2 = k'' sample_state =
      Some (False, \<lparr>dictionary = [''$ebp'' \<mapsto> 16, ''$x'' \<mapsto> 2],
        assigned = Some [''$x'' \<mapsto> True], stack = []\<rparr>)"
    by (simp add: Evaluate_def EvaluateInternal_def evaluator_eval sample_state_def text_eval)
  with Evaluate_frame [OF this] show ?thesis
    by (simp add: is_variable_def sample_state_def)
qed

theorem Evaluate_returns_witness:
  "\<exists>ok st'. Evaluate None ''+ = $x 1 ^'' sample_state = Some (ok, st')"
  by (rule Evaluate_returns)
    (simp_all add: tokens_of_def expand_word_def never_traps_def sample_state_def text_eval)

theorem Evaluate_negative_target_witness:
  "Evaluate None ''-5 3 ='' sample_state = None"
  by (rule Evaluate_negative_target [of _ "''-5''" "''3''" _ 5 3])
    (simp_all add: tokens_of_def expand_word_def is_operand_def sample_state_def evaluator_eval text_eval)

end
