(* ===== verification/CFI_Frame_Info.thy ===== *)
theory CFI_Frame_Info
  imports Postfix_Evaluator Std_Map
begin

text \<open>
  \<open>CFIFrameInfo\<close>, \<open>CFIRuleParser\<close> and \<open>SimpleCFIWalker\<close>
  (\<open>processor/cfi_frame_info.h\<close>, \<open>cfi_frame_info.cc\<close>,
  \<open>cfi_frame_info-inl.h\<close>): the recovery rules in effect at an instruction, their text
  form, and the step from a callee's registers to its caller's.
\<close>

record CFIFrameInfo =
  cfa_rule :: string
  ra_rule :: string
  register_rules :: "(string, string) smap"

definition empty_cfi :: CFIFrameInfo where
  "empty_cfi = \<lparr>cfa_rule = [], ra_rule = [], register_rules = []\<rparr>"

definition SetCFARule :: "string \<Rightarrow> CFIFrameInfo \<Rightarrow> CFIFrameInfo" where
  "SetCFARule expression f = f\<lparr>cfa_rule := expression\<rparr>"

definition SetRARule :: "string \<Rightarrow> CFIFrameInfo \<Rightarrow> CFIFrameInfo" where
  "SetRARule expression f = f\<lparr>ra_rule := expression\<rparr>"

definition SetRegisterRule :: "string \<Rightarrow> string \<Rightarrow> CFIFrameInfo \<Rightarrow> CFIFrameInfo" where
  "SetRegisterRule register_name expression f =
     f\<lparr>register_rules := smap_put register_name expression (register_rules f)\<rparr>"

subsection \<open>Applying the rules\<close>

text \<open>The loop over \<open>register_rules_\<close>; every rule starts from a fresh working dictionary.\<close>

fun apply_register_rules ::
  "'w::len memory \<Rightarrow> (string \<rightharpoonup> 'w word) \<Rightarrow> 'w word \<Rightarrow> (string \<times> string) list \<Rightarrow>
     (string \<rightharpoonup> 'w word) \<Rightarrow> (bool \<times> (string \<rightharpoonup> 'w word)) run" where
  "apply_register_rules memory registers cfa [] caller_registers = Some (True, caller_registers)"
| "apply_register_rules memory registers cfa ((reg, rule) # rules) caller_registers = do {
     (v, _) \<leftarrow> EvaluateForValue (Some memory) rule
       \<lparr>dictionary = registers(''.cfa'' \<mapsto> cfa), assigned = None, stack = []\<rparr>;
     (case v of
        None \<Rightarrow> Some (False, caller_registers)
      | Some v \<Rightarrow> apply_register_rules memory registers cfa rules (caller_registers(reg \<mapsto> v)))
   }"

definition FindCallerRegs ::
  "CFIFrameInfo \<Rightarrow> (string \<rightharpoonup> 'w::len word) \<Rightarrow> 'w memory \<Rightarrow> (string \<rightharpoonup> 'w word) \<Rightarrow>
     (bool \<times> (string \<rightharpoonup> 'w word)) run" where
  "FindCallerRegs f registers memory caller_registers =
     (if cfa_rule f = [] \<or> ra_rule f = [] then Some (False, caller_registers)
      else do {
        (cfa, _) \<leftarrow> EvaluateForValue (Some memory) (cfa_rule f)
          \<lparr>dictionary = registers, assigned = None, stack = []\<rparr>;
        (case cfa of
           None \<Rightarrow> Some (False, Map.empty)
         | Some cfa \<Rightarrow> do {
             (ra, _) \<leftarrow> EvaluateForValue (Some memory) (ra_rule f)
               \<lparr>dictionary = registers(''.cfa'' \<mapsto> cfa), assigned = None, stack = []\<rparr>;
             (case ra of
                None \<Rightarrow> Some (False, Map.empty)
              | Some ra \<Rightarrow> do {
                  (ok, regs) \<leftarrow> apply_register_rules memory registers cfa (register_rules f) Map.empty;
                  if \<not> ok then Some (False, regs)
                  else Some (True, regs(''.ra'' \<mapsto> ra, ''.cfa'' \<mapsto> cfa))
                })
           })
      })"

subsection \<open>Text form\<close>

text \<open>
  \<open>Serialize\<close> writes to a stream; a blank is written before a rule when the stream is not
  empty.
\<close>

definition stream_rule :: "string \<Rightarrow> string \<Rightarrow> string \<Rightarrow> string" where
  "stream_rule stream name rule =
     stream @ (if stream \<noteq> [] then '' '' else []) @ name @ '': '' @ rule"

definition Serialize :: "CFIFrameInfo \<Rightarrow> string" where
  "Serialize f =
     (let stream = (if cfa_rule f \<noteq> [] then ''.cfa: '' @ cfa_rule f else []);
          stream = (if ra_rule f \<noteq> [] then stream_rule stream ''.ra'' (ra_rule f) else stream) in
      foldl (\<lambda>stream (reg, rule). stream_rule stream reg rule) stream (register_rules f))"

text \<open>The parser reports each rule to a handler.\<close>

datatype rule = CFARule string | RARule string | RegisterRule string string

text \<open>\<open>Report\<close>: \<open>None\<close> stands for the result \<open>false\<close>.\<close>

definition Report :: "(rule \<Rightarrow> 's \<Rightarrow> 's) \<Rightarrow> string \<Rightarrow> string \<Rightarrow> 's \<Rightarrow> 's option" where
  "Report handler name expression st =
     (if name = [] \<or> expression = [] then None
      else if name = ''.cfa'' then Some (handler (CFARule expression) st)
      else if name = ''.ra'' then Some (handler (RARule expression) st)
      else Some (handler (RegisterRule name expression) st))"

definition token_breaks :: string where
  "token_breaks = [CHR '' '', CHR 0x09, CHR 0x0D, CHR 0x0A]"

text \<open>The tokens that successive calls of \<open>strtok_r\<close> yield.\<close>

function strtok_all :: "string \<Rightarrow> string \<Rightarrow> string list" where
  "strtok_all seps s =
     (case strtok seps s of (None, _) \<Rightarrow> [] | (Some t, s') \<Rightarrow> t # strtok_all seps s')"
  by pat_completeness auto
termination
proof (relation "measure (\<lambda>(_, s). length s)", goal_cases)
  case (2 seps s x1 s' t)
  then have st: "strtok seps s = (Some t, s')" by simp
  then obtain c cs where d: "dropWhile (\<lambda>c. c \<in> set seps) s = c # cs"
    by (auto simp: strtok_def split: list.splits)
  then have c: "c \<notin> set seps" using dropWhile_nonempty_hd by metis
  have "s' = drop 1 (dropWhile (\<lambda>c. c \<notin> set seps) (c # cs))"
    using st d by (simp add: strtok_def)
  then have "length s' \<le> length cs"
    using c length_dropWhile_le [of "\<lambda>c. c \<notin> set seps" cs] by simp
  also have "\<dots> < length s" using d length_dropWhile_le [of "\<lambda>c. c \<in> set seps" s] by simp
  finally show ?case by simp
qed simp

declare strtok_all.simps [simp del]

text \<open>The loop of \<open>Parse\<close> on the tokens, with \<open>name_\<close> and \<open>expression_\<close>.\<close>

fun parse_rules ::
  "(rule \<Rightarrow> 's \<Rightarrow> 's) \<Rightarrow> string list \<Rightarrow> string \<Rightarrow> string \<Rightarrow> 's \<Rightarrow> bool \<times> 's" where
  "parse_rules handler [] name expression st =
     (case Report handler name expression st of None \<Rightarrow> (False, st) | Some st' \<Rightarrow> (True, st'))"
| "parse_rules handler (token # tokens) name expression st =
     (if token \<noteq> [] \<and> last token = CHR '':'' then
        (if length token < 2 then (False, st)
         else if name \<noteq> [] \<or> expression \<noteq> [] then
           (case Report handler name expression st of
              None \<Rightarrow> (False, st)
            | Some st' \<Rightarrow> parse_rules handler tokens (butlast token) [] st')
         else parse_rules handler tokens (butlast token) [] st)
      else
        parse_rules handler tokens name
          (if expression \<noteq> [] then expression @ '' '' @ token else token) st)"

definition CFIRuleParser_Parse :: "(rule \<Rightarrow> 's \<Rightarrow> 's) \<Rightarrow> string \<Rightarrow> 's \<Rightarrow> bool \<times> 's" where
  "CFIRuleParser_Parse handler rule_set st =
     parse_rules handler (strtok_all token_breaks rule_set) [] [] st"

text \<open>\<open>CFIFrameInfoParseHandler\<close>.\<close>

fun frame_info_handler :: "rule \<Rightarrow> CFIFrameInfo \<Rightarrow> CFIFrameInfo" where
  "frame_info_handler (CFARule expression) f = SetCFARule expression f"
| "frame_info_handler (RARule expression) f = SetRARule expression f"
| "frame_info_handler (RegisterRule name expression) f = SetRegisterRule name expression f"

subsection \<open>The walker step\<close>

text \<open>
  \<open>SimpleCFIWalker::RegisterSet\<close>: a register is known by its name, possibly by an
  alternate one, and a pointer to member of the raw context is a getter and a setter.
\<close>

record ('w, 'c) RegisterSet =
  rs_name :: string
  rs_alternate_name :: "string option"
  rs_callee_saves :: bool
  rs_validity_flag :: u32
  rs_get :: "'c \<Rightarrow> 'w"
  rs_set :: "'w \<Rightarrow> 'c \<Rightarrow> 'c"

definition register_entry ::
  "string \<Rightarrow> string option \<Rightarrow> bool \<Rightarrow> u32 \<Rightarrow> ('c \<Rightarrow> 'w) \<Rightarrow> (('w \<Rightarrow> 'w) \<Rightarrow> 'c \<Rightarrow> 'c) \<Rightarrow>
     ('w, 'c) RegisterSet" where
  "register_entry name alternate callee_saves flag get upd =
     \<lparr>rs_name = name, rs_alternate_name = alternate, rs_callee_saves = callee_saves,
      rs_validity_flag = flag, rs_get = get, rs_set = (\<lambda>v. upd (\<lambda>_. v))\<rparr>"

definition callee_registers ::
  "('w::len word, 'c) RegisterSet list \<Rightarrow> 'c \<Rightarrow> u32 \<Rightarrow> (string \<rightharpoonup> 'w word)" where
  "callee_registers register_map callee_context callee_validity =
     foldl (\<lambda>m r. if callee_validity AND rs_validity_flag r \<noteq> 0
                  then m(rs_name r \<mapsto> rs_get r callee_context) else m)
       Map.empty register_map"

definition recover_register ::
  "(string \<rightharpoonup> 'w::len word) \<Rightarrow> 'c \<Rightarrow> u32 \<Rightarrow> ('w word, 'c) RegisterSet \<Rightarrow> 'c \<times> u32 \<Rightarrow> 'c \<times> u32" where
  "recover_register caller_registers callee_context callee_validity r cv =
     (case cv of (caller_context, caller_validity) \<Rightarrow>
        (case caller_registers (rs_name r) of
           Some v \<Rightarrow> (rs_set r v caller_context, caller_validity OR rs_validity_flag r)
         | None \<Rightarrow>
             (case (case rs_alternate_name r of None \<Rightarrow> None | Some n \<Rightarrow> caller_registers n) of
                Some v \<Rightarrow> (rs_set r v caller_context, caller_validity OR rs_validity_flag r)
              | None \<Rightarrow>
                  if rs_callee_saves r \<and> callee_validity AND rs_validity_flag r \<noteq> 0
                  then (rs_set r (rs_get r callee_context) caller_context,
                        caller_validity OR rs_validity_flag r)
                  else (caller_context, caller_validity))))"

text \<open>
  \<open>FindCallerRegisters\<close>: the result \<open>false\<close> is the inner \<open>None\<close>.
  \<open>poison\<close> is the context \<open>memset\<close> fills with \<open>0xda\<close>.
\<close>

definition FindCallerRegisters ::
  "('w::len word, 'c) RegisterSet list \<Rightarrow> 'c \<Rightarrow> 'w memory \<Rightarrow> CFIFrameInfo \<Rightarrow> 'c \<Rightarrow> u32 \<Rightarrow>
     ('c \<times> u32) option run" where
  "FindCallerRegisters register_map poison memory cfi_frame_info callee_context callee_validity = do {
     (ok, caller_registers) \<leftarrow>
       FindCallerRegs cfi_frame_info
         (callee_registers register_map callee_context callee_validity) memory Map.empty;
     if \<not> ok then Some None
     else Some (Some
       (foldl (\<lambda>cv r. recover_register caller_registers callee_context callee_validity r cv)
          (poison, 0) register_map))
   }"

subsection \<open>The recovered values\<close>

definition rule_value ::
  "'w::len memory \<Rightarrow> (string \<rightharpoonup> 'w word) \<Rightarrow> string \<Rightarrow> 'w word option run" where
  "rule_value memory dict rule =
     map_option fst (EvaluateForValue (Some memory) rule \<lparr>dictionary = dict, assigned = None, stack = []\<rparr>)"

lemma rule_value_Some:
  "rule_value memory dict rule = Some v \<longleftrightarrow>
     (\<exists>st. EvaluateForValue (Some memory) rule \<lparr>dictionary = dict, assigned = None, stack = []\<rparr> = Some (v, st))"
  by (auto simp: rule_value_def)

lemma apply_register_rules_Cons:
  "apply_register_rules memory registers cfa ((reg, rule) # rules) m =
     (case rule_value memory (registers(''.cfa'' \<mapsto> cfa)) rule of
        None \<Rightarrow> None
      | Some None \<Rightarrow> Some (False, m)
      | Some (Some v) \<Rightarrow> apply_register_rules memory registers cfa rules (m(reg \<mapsto> v)))"
  by (cases "EvaluateForValue (Some memory) rule
        \<lparr>dictionary = registers(''.cfa'' \<mapsto> cfa), assigned = None, stack = []\<rparr>")
    (auto simp: rule_value_def)

lemma apply_register_rules_iff:
  assumes "distinct (map fst rules)"
  shows "apply_register_rules memory registers cfa rules m0 = Some (True, m) \<longleftrightarrow>
    (\<forall>(reg, rule)\<in>set rules. \<exists>v. rule_value memory (registers(''.cfa'' \<mapsto> cfa)) rule = Some (Some v)) \<and>
    m = (\<lambda>reg. case map_of rules reg of
           Some rule \<Rightarrow> the (rule_value memory (registers(''.cfa'' \<mapsto> cfa)) rule)
         | None \<Rightarrow> m0 reg)"
  using assms
proof (induction rules arbitrary: m0)
  case Nil
  then show ?case by auto
next
  case (Cons a rules)
  obtain reg rule where a: "a = (reg, rule)" by (cases a)
  let ?v = "rule_value memory (registers(''.cfa'' \<mapsto> cfa)) rule"
  show ?case
  proof (cases "\<exists>v. ?v = Some (Some v)")
    case False
    then have "apply_register_rules memory registers cfa (a # rules) m0 \<noteq> Some (True, m)"
      unfolding a apply_register_rules_Cons by (auto split: option.split)
    moreover have "(reg, rule) \<in> set (a # rules)" by (simp add: a)
    ultimately show ?thesis using False by blast
  next
    case True
    then obtain v where v: "?v = Some (Some v)" by blast
    have "map_of rules reg = None" using Cons.prems a by (auto simp: map_of_eq_None_iff)
    then have m: "(\<lambda>r. case map_of rules r of
           Some rule \<Rightarrow> the (rule_value memory (registers(''.cfa'' \<mapsto> cfa)) rule)
         | None \<Rightarrow> (m0(reg \<mapsto> v)) r) =
        (\<lambda>r. case map_of (a # rules) r of
           Some rule \<Rightarrow> the (rule_value memory (registers(''.cfa'' \<mapsto> cfa)) rule)
         | None \<Rightarrow> m0 r)"
      using v a by (auto simp: fun_eq_iff split: option.split)
    have "apply_register_rules memory registers cfa (a # rules) m0 =
        apply_register_rules memory registers cfa rules (m0(reg \<mapsto> v))"
      unfolding a apply_register_rules_Cons v by simp
    moreover have "(\<forall>(reg, rule)\<in>set (a # rules).
          \<exists>v. rule_value memory (registers(''.cfa'' \<mapsto> cfa)) rule = Some (Some v)) =
        (\<forall>(reg, rule)\<in>set rules.
          \<exists>v. rule_value memory (registers(''.cfa'' \<mapsto> cfa)) rule = Some (Some v))"
      using v by (simp add: a)
    moreover have "distinct (map fst rules)" using Cons.prems by simp
    ultimately show ?thesis
      using Cons.IH [of "m0(reg \<mapsto> v)"] m by (simp only:)
  qed
qed

text \<open>
  C9: The caller's registers are found exactly when there are rules for \<open>.cfa\<close> and
  \<open>.ra\<close> and every rule has a value: the CFA in the callee's registers, the others in
  those registers with \<open>.cfa\<close>, each from its own fresh dictionary.
\<close>

theorem FindCallerRegs_iff:
  assumes "ordered (register_rules f)"
  shows "FindCallerRegs f registers memory m0 = Some (True, m) \<longleftrightarrow>
    cfa_rule f \<noteq> [] \<and> ra_rule f \<noteq> [] \<and>
    (\<exists>cfa ra. rule_value memory registers (cfa_rule f) = Some (Some cfa) \<and>
       rule_value memory (registers(''.cfa'' \<mapsto> cfa)) (ra_rule f) = Some (Some ra) \<and>
       (\<forall>(reg, rule)\<in>set (register_rules f).
          \<exists>v. rule_value memory (registers(''.cfa'' \<mapsto> cfa)) rule = Some (Some v)) \<and>
       m = (\<lambda>reg. if reg = ''.cfa'' then Some cfa else if reg = ''.ra'' then Some ra
              else case map_of (register_rules f) reg of
                Some rule \<Rightarrow> the (rule_value memory (registers(''.cfa'' \<mapsto> cfa)) rule)
              | None \<Rightarrow> None))"
    (is "?l = ?r")
proof
  assume ?l
  then obtain cfa st1 ra st2 regs where
    ne: "cfa_rule f \<noteq> []" "ra_rule f \<noteq> []"
    and cfa: "EvaluateForValue (Some memory) (cfa_rule f)
          \<lparr>dictionary = registers, assigned = None, stack = []\<rparr> = Some (Some cfa, st1)"
    and ra: "EvaluateForValue (Some memory) (ra_rule f)
          \<lparr>dictionary = registers(''.cfa'' \<mapsto> cfa), assigned = None, stack = []\<rparr> = Some (Some ra, st2)"
    and regs: "apply_register_rules memory registers cfa (register_rules f) Map.empty = Some (True, regs)"
    and m: "m = regs(''.ra'' \<mapsto> ra, ''.cfa'' \<mapsto> cfa)"
    by (auto simp: FindCallerRegs_def bind_eq_Some_conv split: if_split_asm option.split_asm)
  have "rule_value memory registers (cfa_rule f) = Some (Some cfa)"
    "rule_value memory (registers(''.cfa'' \<mapsto> cfa)) (ra_rule f) = Some (Some ra)"
    using cfa ra by (simp_all add: rule_value_def)
  with ne regs m show ?r
    unfolding apply_register_rules_iff [OF ordered_distinct [OF assms]] by auto
next
  assume ?r
  then obtain cfa ra where ne: "cfa_rule f \<noteq> []" "ra_rule f \<noteq> []"
    and cfa: "rule_value memory registers (cfa_rule f) = Some (Some cfa)"
    and ra: "rule_value memory (registers(''.cfa'' \<mapsto> cfa)) (ra_rule f) = Some (Some ra)"
    and regs: "\<forall>(reg, rule)\<in>set (register_rules f).
          \<exists>v. rule_value memory (registers(''.cfa'' \<mapsto> cfa)) rule = Some (Some v)"
    and m: "m = (\<lambda>reg. if reg = ''.cfa'' then Some cfa else if reg = ''.ra'' then Some ra
              else case map_of (register_rules f) reg of
                Some rule \<Rightarrow> the (rule_value memory (registers(''.cfa'' \<mapsto> cfa)) rule)
              | None \<Rightarrow> None)"
    by blast
  let ?regs = "\<lambda>reg. case map_of (register_rules f) reg of
      Some rule \<Rightarrow> the (rule_value memory (registers(''.cfa'' \<mapsto> cfa)) rule) | None \<Rightarrow> None"
  have "apply_register_rules memory registers cfa (register_rules f) Map.empty = Some (True, ?regs)"
    unfolding apply_register_rules_iff [OF ordered_distinct [OF assms]] using regs by simp
  moreover have "m = ?regs(''.ra'' \<mapsto> ra, ''.cfa'' \<mapsto> cfa)"
    unfolding m by (auto simp: fun_eq_iff)
  ultimately show ?l using ne cfa ra
    unfolding rule_value_Some by (auto simp: FindCallerRegs_def)
qed

subsection \<open>Serializing and parsing\<close>

text \<open>
  A rule's text is its tokens joined by blanks, none of them ending in a colon; a rule set is
  a sequence of sections, each a name and a rule.
\<close>

definition is_component :: "string \<Rightarrow> bool" where
  "is_component w = (is_token token_breaks w \<and> last w \<noteq> CHR '':'')"

definition wf_rule :: "string \<Rightarrow> bool" where
  "wf_rule r = (\<exists>ws. ws \<noteq> [] \<and> (\<forall>w\<in>set ws. is_component w) \<and> r = unwords ws)"

definition wf_name :: "string \<Rightarrow> bool" where
  "wf_name n = is_token token_breaks n"

definition wf_cfi :: "CFIFrameInfo \<Rightarrow> bool" where
  "wf_cfi f = ((cfa_rule f = [] \<or> wf_rule (cfa_rule f)) \<and> (ra_rule f = [] \<or> wf_rule (ra_rule f)) \<and>
     ordered (register_rules f) \<and>
     (\<forall>(n, r)\<in>set (register_rules f). wf_name n \<and> n \<noteq> ''.cfa'' \<and> n \<noteq> ''.ra'' \<and> wf_rule r))"

definition sections :: "CFIFrameInfo \<Rightarrow> (string \<times> string) list" where
  "sections f = (if cfa_rule f = [] then [] else [(''.cfa'', cfa_rule f)]) @
     (if ra_rule f = [] then [] else [(''.ra'', ra_rule f)]) @ register_rules f"

definition section_event :: "string \<times> string \<Rightarrow> rule" where
  "section_event s = (case s of (n, r) \<Rightarrow>
     if n = ''.cfa'' then CFARule r else if n = ''.ra'' then RARule r else RegisterRule n r)"

definition wf_section :: "string \<times> string \<Rightarrow> bool" where
  "wf_section s = (wf_name (fst s) \<and> wf_rule (snd s))"

lemma unwords_append:
  "ws \<noteq> [] \<Longrightarrow> vs \<noteq> [] \<Longrightarrow> unwords (ws @ vs) = unwords ws @ CHR '' '' # unwords vs"
proof (induction ws rule: unwords.induct)
  case (2 w)
  then show ?case by (cases vs) auto
qed auto

lemma unwords_Cons: "vs \<noteq> [] \<Longrightarrow> unwords (w # vs) = w @ CHR '' '' # unwords vs"
  by (cases vs) auto

lemma unwords_nonempty: "ws \<noteq> [] \<Longrightarrow> \<forall>w\<in>set ws. w \<noteq> [] \<Longrightarrow> unwords ws \<noteq> []"
  by (cases ws rule: unwords.cases) auto

lemma wf_rule_nonempty: "wf_rule r \<Longrightarrow> r \<noteq> []"
  by (auto simp: wf_rule_def is_component_def is_token_def dest: unwords_nonempty)

lemma strtok_all_Nil [simp]: "strtok_all seps [] = []"
  by (subst strtok_all.simps) simp

lemma strtok_all_token:
  "is_token seps w \<Longrightarrow> s = [] \<or> hd s \<in> set seps \<Longrightarrow> strtok_all seps (w @ s) = w # strtok_all seps (drop 1 s)"
  by (subst strtok_all.simps) (simp add: strtok_token)

lemma strtok_all_unwords:
  "CHR '' '' \<in> set seps \<Longrightarrow> \<forall>w\<in>set ws. is_token seps w \<Longrightarrow> strtok_all seps (unwords ws) = ws"
proof (induction ws rule: unwords.induct)
  case (2 w)
  then show ?case using strtok_all_token [of seps w "[]"] by simp
next
  case (3 w v ws)
  then show ?case using strtok_all_token [of seps w "CHR '' '' # unwords (v # ws)"] by simp
qed simp

text \<open>The text of a rule set is the words of its sections.\<close>

definition section_text :: "string \<times> string \<Rightarrow> string" where
  "section_text s = fst s @ '': '' @ snd s"

lemma stream_sections:
  assumes "ss \<noteq> []"
  shows "foldl (\<lambda>stream (reg, rule). stream_rule stream reg rule) s ss =
    (if s = [] then [] else s @ '' '') @ unwords (map section_text ss)"
  using assms
proof (induction ss arbitrary: s)
  case (Cons a ss)
  obtain n r where a: "a = (n, r)" by (cases a)
  have one: "stream_rule s n r = (if s = [] then [] else s @ '' '') @ section_text a"
    by (simp add: stream_rule_def section_text_def a)
  show ?case
  proof (cases ss)
    case Nil
    then show ?thesis using one a by simp
  next
    case (Cons b bs)
    have "stream_rule s n r \<noteq> []" by (simp add: stream_rule_def)
    then show ?thesis using Cons.IH [of "stream_rule s n r"] Cons one a by (simp add: unwords_Cons)
  qed
qed simp

lemma Serialize_sections:
  assumes "sections f \<noteq> []"
  shows "Serialize f = unwords (map section_text (sections f))"
proof -
  have "Serialize f = foldl (\<lambda>stream (reg, rule). stream_rule stream reg rule) [] (sections f)"
    by (auto simp: Serialize_def sections_def stream_rule_def Let_def)
  with stream_sections [OF assms, of "[]"] show ?thesis by simp
qed

definition rule_words :: "string \<Rightarrow> string list" where
  "rule_words r = strtok_all token_breaks r"

lemma blank_breaks [simp]: "CHR '' '' \<in> set token_breaks"
  by (simp add: token_breaks_def)

lemma wf_rule_words:
  assumes "wf_rule r"
  shows "rule_words r \<noteq> []" and "\<forall>w\<in>set (rule_words r). is_component w" and "unwords (rule_words r) = r"
proof -
  from assms obtain ws where ws: "ws \<noteq> []" "\<forall>w\<in>set ws. is_component w" "r = unwords ws"
    by (auto simp: wf_rule_def)
  then have "rule_words r = ws"
    by (simp add: rule_words_def strtok_all_unwords is_component_def)
  with ws show "rule_words r \<noteq> []" and "\<forall>w\<in>set (rule_words r). is_component w"
    and "unwords (rule_words r) = r" by auto
qed

definition section_words :: "string \<times> string \<Rightarrow> string list" where
  "section_words s = (fst s @ '':'') # rule_words (snd s)"

lemma unwords_concat:
  "\<forall>ws\<in>set wss. ws \<noteq> [] \<Longrightarrow> unwords (map unwords wss) = unwords (concat wss)"
proof (induction wss)
  case (Cons ws wss)
  show ?case
  proof (cases wss)
    case (Cons vs vss)
    then have "concat wss \<noteq> []" using Cons.prems by auto
    then show ?thesis using Cons.IH Cons.prems Cons by (simp add: unwords_Cons unwords_append)
  qed simp
qed simp

lemma section_text_words:
  "wf_section s \<Longrightarrow> section_text s = unwords (section_words s)"
  using wf_rule_words [of "snd s"]
  by (simp add: section_text_def section_words_def wf_section_def unwords_Cons)

lemma section_words_tokens:
  assumes "wf_section s" and "w \<in> set (section_words s)"
  shows "is_token token_breaks w"
proof (cases "w = fst s @ '':''")
  case True
  with assms(1) show ?thesis by (auto simp: wf_section_def wf_name_def is_token_def token_breaks_def)
next
  case False
  with assms wf_rule_words(2) [of "snd s"] show ?thesis
    by (auto simp: section_words_def wf_section_def is_component_def)
qed

lemma strtok_sections:
  assumes "\<forall>s\<in>set ss. wf_section s"
  shows "strtok_all token_breaks (unwords (map section_text ss)) = concat (map section_words ss)"
proof -
  have "map section_text ss = map unwords (map section_words ss)"
    using assms by (simp add: section_text_words)
  then have "unwords (map section_text ss) = unwords (concat (map section_words ss))"
    by (simp add: unwords_concat section_words_def del: map_map)
  moreover have "strtok_all token_breaks (unwords (concat (map section_words ss))) =
      concat (map section_words ss)"
    using assms section_words_tokens by (intro strtok_all_unwords) auto
  ultimately show ?thesis by simp
qed

lemma parse_component:
  "is_component w \<Longrightarrow> parse_rules h (w # toks) name expr st =
     parse_rules h toks name (if expr \<noteq> [] then expr @ '' '' @ w else w) st"
  by (simp add: is_component_def)

lemma parse_components:
  assumes "\<forall>w\<in>set ws. is_component w" and "expr \<noteq> []"
  shows "parse_rules h (ws @ toks) name expr st = parse_rules h toks name (unwords (expr # ws)) st"
  using assms
proof (induction ws arbitrary: expr)
  case (Cons w ws)
  then have "parse_rules h (w # ws @ toks) name expr st = parse_rules h (ws @ toks) name (expr @ '' '' @ w) st"
    by (simp add: parse_component del: parse_rules.simps)
  also have "\<dots> = parse_rules h toks name (unwords ((expr @ '' '' @ w) # ws)) st"
    using Cons by simp
  also have "unwords ((expr @ '' '' @ w) # ws) = unwords (expr # w # ws)"
    by (cases ws) simp_all
  finally show ?case by simp
qed simp

lemma parse_section:
  assumes "wf_rule r"
  shows "parse_rules h (rule_words r @ toks) name [] st = parse_rules h toks name r st"
proof -
  obtain w ws where ws: "rule_words r = w # ws" using wf_rule_words(1) [OF assms] by (meson neq_Nil_conv)
  have w: "is_component w" "\<forall>v\<in>set ws. is_component v" using wf_rule_words(2) [OF assms] ws by auto
  then have "w \<noteq> []" by (simp add: is_component_def is_token_def)
  with w ws parse_components [of ws w h toks name st] wf_rule_words(3) [OF assms] show ?thesis
    by (simp add: parse_component del: parse_rules.simps)
qed

lemma Report_section:
  "name \<noteq> [] \<Longrightarrow> r \<noteq> [] \<Longrightarrow> Report h name r st = Some (h (section_event (name, r)) st)"
  by (simp add: Report_def section_event_def)

lemma parse_sections:
  assumes "\<forall>s\<in>set ss. wf_section s" and "name \<noteq> []" and "r \<noteq> []"
  shows "parse_rules h (concat (map section_words ss)) name r st =
    (True, foldl (\<lambda>st s. h (section_event s) st) st ((name, r) # ss))"
  using assms
proof (induction ss arbitrary: name r st)
  case Nil
  then show ?case by (simp add: Report_section)
next
  case (Cons s ss)
  have s: "fst s \<noteq> []" "wf_rule (snd s)"
    using Cons.prems(1) by (auto simp: wf_section_def wf_name_def is_token_def)
  then have len: "\<not> length (fst s @ '':'') < 2" by (cases "fst s") auto
  have "parse_rules h (concat (map section_words (s # ss))) name r st =
      parse_rules h (rule_words (snd s) @ concat (map section_words ss)) (fst s) []
        (h (section_event (name, r)) st)"
    using len Cons.prems by (simp add: section_words_def Report_section)
  also have "\<dots> = parse_rules h (concat (map section_words ss)) (fst s) (snd s)
        (h (section_event (name, r)) st)"
    using s(2) by (rule parse_section)
  also have "\<dots> = (True, foldl (\<lambda>st s. h (section_event s) st) (h (section_event (name, r)) st) (s # ss))"
    using Cons.IH [of "fst s" "snd s" "h (section_event (name, r)) st"] Cons.prems(1) s(1) wf_rule_nonempty [OF s(2)]
    by simp
  finally show ?case by simp
qed

lemma parse_first_section:
  assumes "\<forall>s\<in>set ss. wf_section s" and "ss \<noteq> []"
  shows "parse_rules h (concat (map section_words ss)) [] [] st =
    (True, foldl (\<lambda>st s. h (section_event s) st) st ss)"
proof -
  obtain s ss' where ss: "ss = s # ss'" using assms(2) by (meson neq_Nil_conv)
  have s: "fst s \<noteq> []" "wf_rule (snd s)"
    using assms(1) ss by (auto simp: wf_section_def wf_name_def is_token_def)
  then have len: "\<not> length (fst s @ '':'') < 2" by (cases "fst s") auto
  have "parse_rules h (concat (map section_words ss)) [] [] st =
      parse_rules h (rule_words (snd s) @ concat (map section_words ss')) (fst s) [] st"
    using len ss by (simp add: section_words_def)
  also have "\<dots> = parse_rules h (concat (map section_words ss')) (fst s) (snd s) st"
    using s(2) by (rule parse_section)
  also have "\<dots> = (True, foldl (\<lambda>st s. h (section_event s) st) st ss)"
    using parse_sections [of ss' "fst s" "snd s" h st] assms(1) ss s(1) wf_rule_nonempty [OF s(2)] by simp
  finally show ?thesis .
qed

lemma smap_put_last: "\<forall>p\<in>set m. fst p < k \<Longrightarrow> smap_put k v m = m @ [(k, v)]"
  by (induction m) auto

lemma fold_register_rules:
  assumes "ordered (m @ rules)" and "\<forall>(n, r)\<in>set rules. n \<noteq> ''.cfa'' \<and> n \<noteq> ''.ra''"
    and "register_rules f = m"
  shows "foldl (\<lambda>st s. frame_info_handler (section_event s) st) f rules = f\<lparr>register_rules := m @ rules\<rparr>"
  using assms
proof (induction rules arbitrary: m f)
  case Nil
  then show ?case by simp
next
  case (Cons a rules)
  obtain n r where a: "a = (n, r)" by (cases a)
  have "\<forall>p\<in>set m. fst p < n" using Cons.prems(1) a by (auto simp: ordered_append)
  then have "frame_info_handler (section_event a) f = f\<lparr>register_rules := m @ [(n, r)]\<rparr>"
    using Cons.prems a by (simp add: section_event_def SetRegisterRule_def smap_put_last)
  then show ?case
    using Cons.IH [of "m @ [(n, r)]" "f\<lparr>register_rules := m @ [(n, r)]\<rparr>"] Cons.prems a by simp
qed

lemma fold_sections:
  assumes "wf_cfi f"
  shows "foldl (\<lambda>st s. frame_info_handler (section_event s) st) empty_cfi (sections f) = f"
proof -
  let ?g = "\<lparr>cfa_rule = cfa_rule f, ra_rule = ra_rule f, register_rules = []\<rparr>"
  have "foldl (\<lambda>st s. frame_info_handler (section_event s) st) empty_cfi (sections f) =
      foldl (\<lambda>st s. frame_info_handler (section_event s) st) ?g (register_rules f)"
    by (auto simp: sections_def section_event_def SetCFARule_def SetRARule_def empty_cfi_def)
  also have "\<dots> = ?g\<lparr>register_rules := [] @ register_rules f\<rparr>"
    using assms by (intro fold_register_rules) (auto simp: wf_cfi_def)
  also have "\<dots> = f" by simp
  finally show ?thesis .
qed

lemma wf_sections:
  assumes "wf_cfi f" and "s \<in> set (sections f)"
  shows "wf_section s"
proof -
  have "wf_name ''.cfa''" "wf_name ''.ra''" by (simp_all add: wf_name_def is_token_def token_breaks_def)
  with assms show ?thesis
    by (auto simp: sections_def wf_section_def wf_cfi_def split: if_split_asm)
qed

text \<open>
  C10: Parsing the text that \<open>Serialize\<close> writes for a well-formed rule set with at least
  one rule gives the rule set back.
\<close>

theorem Parse_Serialize:
  assumes "wf_cfi f" and "f \<noteq> empty_cfi"
  shows "CFIRuleParser_Parse frame_info_handler (Serialize f) empty_cfi = (True, f)"
proof -
  have ne: "sections f \<noteq> []" using assms(2) by (cases f) (auto simp: sections_def empty_cfi_def split: if_split_asm)
  have "strtok_all token_breaks (Serialize f) = concat (map section_words (sections f))"
    using wf_sections [OF assms(1)] strtok_sections [of "sections f"] by (simp add: Serialize_sections ne)
  then show ?thesis
    using parse_first_section [of "sections f" frame_info_handler empty_cfi] ne wf_sections [OF assms(1)]
      fold_sections [OF assms(1)]
    by (simp add: CFIRuleParser_Parse_def)
qed

text \<open>Whatever the parser is given, the rule set it fills stays well formed.\<close>

lemma wf_rule_snoc: "wf_rule r \<Longrightarrow> is_component w \<Longrightarrow> wf_rule (r @ '' '' @ w)"
proof -
  assume "wf_rule r" and w: "is_component w"
  then obtain ws where "ws \<noteq> []" "\<forall>w\<in>set ws. is_component w" "r = unwords ws"
    by (auto simp: wf_rule_def)
  with w show ?thesis
    unfolding wf_rule_def by (intro exI [of _ "ws @ [w]"]) (simp add: unwords_append)
qed

lemma wf_rule_single: "is_component w \<Longrightarrow> wf_rule w"
  unfolding wf_rule_def by (intro exI [of _ "[w]"]) simp

lemma wf_cfi_handler:
  "wf_cfi f \<Longrightarrow> wf_name n \<Longrightarrow> wf_rule r \<Longrightarrow> wf_cfi (frame_info_handler (section_event (n, r)) f)"
  using smap_put_subset [of n r "register_rules f"]
  by (auto simp: wf_cfi_def section_event_def SetCFARule_def SetRARule_def SetRegisterRule_def
      intro: ordered_smap_put)

lemma parse_rules_wf:
  assumes "\<forall>t\<in>set toks. is_token token_breaks t" and "wf_cfi f"
    and "name = [] \<or> wf_name name" and "expr = [] \<or> wf_rule expr"
  shows "wf_cfi (snd (parse_rules frame_info_handler toks name expr f))"
  using assms
proof (induction toks arbitrary: name expr f)
  case Nil
  then show ?case
    using wf_cfi_handler [of f name expr] by (auto simp: Report_section Report_def section_event_def)
next
  case (Cons t toks)
  have t: "is_token token_breaks t" using Cons.prems(1) by simp
  show ?case
  proof (cases "t \<noteq> [] \<and> last t = CHR '':''")
    case True
    show ?thesis
    proof (cases "length t < 2")
      case True
      with \<open>t \<noteq> [] \<and> last t = CHR '':''\<close> Cons.prems show ?thesis by simp
    next
      case False
      then have n: "wf_name (butlast t)"
        using t by (auto simp: wf_name_def is_token_def list_all_iff dest: in_set_butlastD
            simp flip: length_0_conv)
      show ?thesis
      proof (cases "name \<noteq> [] \<or> expr \<noteq> []")
        case p: True
        show ?thesis
        proof (cases "Report frame_info_handler name expr f")
          case None
          with True False p Cons.prems show ?thesis by simp
        next
          case (Some f')
          then have "wf_cfi f'"
            using wf_cfi_handler [of f name expr] Cons.prems
            by (auto simp: Report_def section_event_def split: if_split_asm)
          with True False p Some Cons n show ?thesis by simp
        qed
      next
        case f: False
        with True False Cons n show ?thesis by simp
      qed
    qed
  next
    case False
    then have c: "is_component t" using t by (auto simp: is_component_def is_token_def)
    then have "wf_rule (if expr \<noteq> [] then expr @ '' '' @ t else t)"
      using Cons.prems(4) wf_rule_snoc [of expr t] by (auto intro: wf_rule_single)
    with Cons show ?thesis by (simp add: parse_component [OF c] del: parse_rules.simps)
  qed
qed

lemma strtok_all_tokens: "t \<in> set (strtok_all seps s) \<Longrightarrow> is_token seps t"
proof (induction seps s rule: strtok_all.induct)
  case (1 seps s)
  obtain t' s' where st: "strtok seps s = (t', s')" by fastforce
  show ?case
  proof (cases t')
    case None
    with "1.prems" st show ?thesis by (simp add: strtok_all.simps [of seps s])
  next
    case (Some u)
    with "1.prems" st have "t = u \<or> t \<in> set (strtok_all seps s')"
      by (simp add: strtok_all.simps [of seps s])
    with "1.IH" [OF st [symmetric] Some] st Some show ?thesis by (auto intro: strtok_is_token)
  qed
qed

text \<open>
  Whatever text the parser is given and whether it accepts it or not, the rule set it
  fills stays well formed: rules without stray separators, keys in order, \<open>.cfa\<close> and
  \<open>.ra\<close> kept apart from the register rules.
\<close>

theorem Parse_wf:
  assumes "wf_cfi f"
  shows "wf_cfi (snd (CFIRuleParser_Parse frame_info_handler s f))"
  unfolding CFIRuleParser_Parse_def
  using strtok_all_tokens [of _ token_breaks s] assms by (intro parse_rules_wf) auto

subsection \<open>The caller's context\<close>

text \<open>
  The contract of a register table: its names differ, its members are independent parts of
  the raw context, and its validity flags share no bit.  Every table of the stack walkers
  satisfies it.
\<close>

locale register_table =
  fixes register_map :: "('w::len word, 'c) RegisterSet list"
  assumes distinct_names: "distinct (map rs_name register_map)"
    and get_set: "r \<in> set register_map \<Longrightarrow> rs_get r (rs_set r v c) = v"
    and get_set_other: "r \<in> set register_map \<Longrightarrow> r' \<in> set register_map \<Longrightarrow> rs_name r \<noteq> rs_name r' \<Longrightarrow>
      rs_get r (rs_set r' v c) = rs_get r c"
    and flag_nonzero: "r \<in> set register_map \<Longrightarrow> rs_validity_flag r \<noteq> 0"
    and flags_disjoint: "r \<in> set register_map \<Longrightarrow> r' \<in> set register_map \<Longrightarrow> rs_name r \<noteq> rs_name r' \<Longrightarrow>
      rs_validity_flag r AND rs_validity_flag r' = 0"
begin

definition recovered ::
  "(string \<rightharpoonup> 'w word) \<Rightarrow> 'c \<Rightarrow> u32 \<Rightarrow> ('w word, 'c) RegisterSet \<Rightarrow> 'w word option" where
  "recovered caller_regs ctx validity r =
     (case caller_regs (rs_name r) of
        Some v \<Rightarrow> Some v
      | None \<Rightarrow>
          (case (case rs_alternate_name r of None \<Rightarrow> None | Some n \<Rightarrow> caller_regs n) of
             Some v \<Rightarrow> Some v
           | None \<Rightarrow> if rs_callee_saves r \<and> validity AND rs_validity_flag r \<noteq> 0
                     then Some (rs_get r ctx) else None))"

lemma recover_register_recovered:
  "recover_register caller_regs ctx validity r (c, v) =
     (case recovered caller_regs ctx validity r of
        None \<Rightarrow> (c, v) | Some x \<Rightarrow> (rs_set r x c, v OR rs_validity_flag r))"
  by (auto simp: recover_register_def recovered_def split: option.split)

lemma fold_recover:
  assumes "set rs \<subseteq> set register_map" and "distinct (map rs_name rs)"
    and "foldl (\<lambda>cv r. recover_register caller_regs ctx validity r cv) (c, v) rs = (c', v')"
    and "r \<in> set register_map"
  shows "(r \<in> set rs \<longrightarrow> recovered caller_regs ctx validity r \<noteq> None \<longrightarrow>
            rs_get r c' = the (recovered caller_regs ctx validity r) \<and>
            v' AND rs_validity_flag r = rs_validity_flag r) \<and>
         (\<not> (r \<in> set rs \<and> recovered caller_regs ctx validity r \<noteq> None) \<longrightarrow>
            rs_get r c' = rs_get r c \<and> v' AND rs_validity_flag r = v AND rs_validity_flag r)"
  using assms
proof (induction rs arbitrary: c v)
  case Nil
  then show ?case by simp
next
  case (Cons q rs)
  have q: "q \<in> set register_map" using Cons.prems(1) by simp
  obtain c1 v1 where step: "recover_register caller_regs ctx validity q (c, v) = (c1, v1)" by fastforce
  have IH: "(r \<in> set rs \<longrightarrow> recovered caller_regs ctx validity r \<noteq> None \<longrightarrow>
            rs_get r c' = the (recovered caller_regs ctx validity r) \<and>
            v' AND rs_validity_flag r = rs_validity_flag r) \<and>
         (\<not> (r \<in> set rs \<and> recovered caller_regs ctx validity r \<noteq> None) \<longrightarrow>
            rs_get r c' = rs_get r c1 \<and> v' AND rs_validity_flag r = v1 AND rs_validity_flag r)"
    using Cons.IH [of c1 v1] Cons.prems step by simp
  show ?case
  proof (cases "rs_name r = rs_name q")
    case True
    then have "r = q"
      using distinct_names q Cons.prems(4) by (simp add: distinct_map inj_on_def)
    moreover have "r \<notin> set rs"
      using Cons.prems(2) True imageI [of r "set rs" rs_name] by auto
    ultimately show ?thesis
      using IH step get_set [OF q]
      by (auto simp: recover_register_recovered bit.conj_disj_distrib2 split: option.split_asm)
  next
    case False
    have "rs_get r c1 = rs_get r c \<and> v1 AND rs_validity_flag r = v AND rs_validity_flag r"
      using step get_set_other [OF Cons.prems(4) q False]
        flags_disjoint [OF q Cons.prems(4)] False
      by (auto simp: recover_register_recovered bit.conj_disj_distrib2 split: option.split_asm)
    with IH False show ?thesis by auto
  qed
qed

text \<open>
  The caller's context: a register is valid exactly when a rule gives it a value, under
  its name or its alternate name, or when the callee preserves it and knows it; and then it
  holds that value.
\<close>

lemma recovered_context:
  assumes "foldl (\<lambda>cv r. recover_register caller_regs ctx validity r cv) (poison, 0) register_map = (c', v')"
    and "r \<in> set register_map"
  shows "(v' AND rs_validity_flag r \<noteq> 0) = (recovered caller_regs ctx validity r \<noteq> None) \<and>
    (\<forall>x. recovered caller_regs ctx validity r = Some x \<longrightarrow> rs_get r c' = x) \<and>
    (recovered caller_regs ctx validity r = None \<longrightarrow> rs_get r c' = rs_get r poison)"
  using fold_recover [OF subset_refl distinct_names assms] flag_nonzero [OF assms(2)] assms(2)
  by auto

text \<open>The dictionary the rules see holds exactly the valid registers of the callee.\<close>

lemma fold_callee:
  assumes "distinct (map rs_name rs)"
  shows "foldl (\<lambda>m r. if validity AND rs_validity_flag r \<noteq> 0
                  then m(rs_name r \<mapsto> rs_get r ctx) else m) m0 rs n =
    (case find (\<lambda>r. rs_name r = n \<and> validity AND rs_validity_flag r \<noteq> 0) rs of
       Some r \<Rightarrow> Some (rs_get r ctx) | None \<Rightarrow> m0 n)"
  using assms
proof (induction rs arbitrary: m0)
  case (Cons q rs)
  have "find (\<lambda>r. rs_name r = n \<and> validity AND rs_validity_flag r \<noteq> 0) rs = None"
    if "rs_name q = n"
  proof -
    have "rs_name x \<noteq> n" if "x \<in> set rs" for x
      using \<open>rs_name q = n\<close> Cons.prems imageI [OF that, of rs_name] by auto
    then show ?thesis by (auto simp: find_None_iff)
  qed
  with Cons show ?case by (auto split: option.split)
qed simp

lemma callee_registers_iff:
  "callee_registers register_map ctx validity n = Some x \<longleftrightarrow>
     (\<exists>r\<in>set register_map. rs_name r = n \<and> validity AND rs_validity_flag r \<noteq> 0 \<and> x = rs_get r ctx)"
proof -
  have uniq: "r = r'" if "r \<in> set register_map" "r' \<in> set register_map" "rs_name r = rs_name r'" for r r'
    using that distinct_names by (simp add: distinct_map inj_on_def)
  show ?thesis
  proof (cases "find (\<lambda>r. rs_name r = n \<and> validity AND rs_validity_flag r \<noteq> 0) register_map")
    case None
    then have "\<not> (\<exists>r\<in>set register_map. rs_name r = n \<and> validity AND rs_validity_flag r \<noteq> 0)"
      by (auto simp: find_None_iff)
    with None show ?thesis
      by (auto simp: callee_registers_def fold_callee [OF distinct_names])
  next
    case (Some r)
    then have "r \<in> set register_map" "rs_name r = n" "validity AND rs_validity_flag r \<noteq> 0"
      by (auto simp: find_Some_iff)
    with Some uniq show ?thesis
      by (auto simp: callee_registers_def fold_callee [OF distinct_names])
  qed
qed

end

subsection \<open>The properties at work\<close>

definition sample_cfi :: CFIFrameInfo where
  "sample_cfi = \<lparr>cfa_rule = ''$esp 4 +'', ra_rule = ''.cfa 4 - ^'',
     register_rules = [(''$ebp'', ''$ebp'')]\<rparr>"

lemma sample_cfi_wf: "wf_cfi sample_cfi"
proof -
  have "wf_rule ''$esp 4 +''" and "wf_rule ''.cfa 4 - ^''" and "wf_rule ''$ebp''"
    unfolding wf_rule_def
    by (rule exI [of _ "[''$esp'', ''4'', ''+'']"] exI [of _ "[''.cfa'', ''4'', ''-'', ''^'']"]
          exI [of _ "[''$ebp'']"],
        simp add: is_component_def is_token_def token_breaks_def)+
  then show ?thesis
    by (simp add: wf_cfi_def sample_cfi_def wf_name_def is_token_def token_breaks_def)
qed

theorem FindCallerRegs_iff_witness:
  "\<exists>m. FindCallerRegs sample_cfi [''$esp'' \<mapsto> 100, ''$ebp'' \<mapsto> 7 :: u32] (\<lambda>_. Some 55) Map.empty = Some (True, m) \<and>
     m ''.cfa'' = Some 104 \<and> m ''.ra'' = Some 55 \<and> m ''$ebp'' = Some 7"
proof -
  let ?regs = "[''$esp'' \<mapsto> 100, ''$ebp'' \<mapsto> 7 :: u32]" and ?mem = "\<lambda>_ :: u64. Some (55 :: u32)"
  have v: "rule_value ?mem ?regs ''$esp 4 +'' = Some (Some 104)"
    "rule_value ?mem (?regs(''.cfa'' \<mapsto> 104)) ''.cfa 4 - ^'' = Some (Some 55)"
    "rule_value ?mem (?regs(''.cfa'' \<mapsto> 104)) ''$ebp'' = Some (Some 7)"
    by (simp_all add: rule_value_def EvaluateForValue_def EvaluateInternal_def evaluator_eval text_eval)
  have o: "ordered (register_rules sample_cfi)" by (simp add: sample_cfi_def)
  show ?thesis
    unfolding FindCallerRegs_iff [OF o] using v
    by (simp add: sample_cfi_def)
qed

theorem Parse_Serialize_witness:
  "CFIRuleParser_Parse frame_info_handler ''.cfa: $esp 4 + .ra: .cfa 4 - ^ $ebp: $ebp'' empty_cfi =
     (True, sample_cfi)"
proof -
  have "Serialize sample_cfi = ''.cfa: $esp 4 + .ra: .cfa 4 - ^ $ebp: $ebp''"
    by (simp add: Serialize_def sample_cfi_def stream_rule_def)
  moreover have "sample_cfi \<noteq> empty_cfi" by (simp add: sample_cfi_def empty_cfi_def)
  ultimately show ?thesis using Parse_Serialize [OF sample_cfi_wf] by simp
qed

theorem Parse_wf_witness:
  "wf_cfi (snd (CFIRuleParser_Parse frame_info_handler ''.cfa: : x'' sample_cfi))"
  by (rule Parse_wf [OF sample_cfi_wf])

end
