(* ===== verification/Stack_Frame.thy ===== *)
theory Stack_Frame
  imports Prelude
begin

text \<open>
  The records that the resolver, the symbolizer and the stack walkers pass around:
  \<open>CodeModule\<close> (\<open>google_breakpad/processor/code_module.h\<close>) and \<open>StackFrame\<close>
  (\<open>google_breakpad/processor/stack_frame.h\<close>).
\<close>

datatype FrameTrust =
  FRAME_TRUST_NONE | FRAME_TRUST_SCAN | FRAME_TRUST_CFI_SCAN | FRAME_TRUST_FP
| FRAME_TRUST_CFI | FRAME_TRUST_PREWALKED | FRAME_TRUST_CONTEXT

text \<open>The enumerators are ordered by their trust metric.\<close>

primrec trust_value :: "FrameTrust \<Rightarrow> nat" where
  "trust_value FRAME_TRUST_NONE = 0"
| "trust_value FRAME_TRUST_SCAN = 1"
| "trust_value FRAME_TRUST_CFI_SCAN = 2"
| "trust_value FRAME_TRUST_FP = 3"
| "trust_value FRAME_TRUST_CFI = 4"
| "trust_value FRAME_TRUST_PREWALKED = 5"
| "trust_value FRAME_TRUST_CONTEXT = 6"

lemma trust_value_inject: "trust_value s = trust_value t \<Longrightarrow> s = t"
  by (cases s; cases t) simp_all

instantiation FrameTrust :: linorder
begin

definition less_eq_FrameTrust :: "FrameTrust \<Rightarrow> FrameTrust \<Rightarrow> bool" where
  "s \<le> t \<longleftrightarrow> trust_value s \<le> trust_value t"

definition less_FrameTrust :: "FrameTrust \<Rightarrow> FrameTrust \<Rightarrow> bool" where
  "s < t \<longleftrightarrow> trust_value s < trust_value t"

instance
  by standard (auto simp: less_eq_FrameTrust_def less_FrameTrust_def intro: trust_value_inject)

end

text \<open>
  A code module; \<open>module_object\<close> is the address of the object, by which the sources
  compare modules.
\<close>

record CodeModule =
  module_object :: nat
  base_address :: u64
  module_size :: u64
  shrink_down_delta :: u64
  code_file :: string
  code_ident :: string
  debug_file :: string
  debug_ident :: string
  module_version :: string
  is_unloaded :: bool

record StackFrame =
  instruction :: u64
  frame_module :: "CodeModule option"
  function_name :: string
  function_base :: u64
  source_file_name :: string
  source_line :: u32
  source_line_base :: u64
  trust :: FrameTrust

definition new_StackFrame :: StackFrame where
  "new_StackFrame = \<lparr>instruction = 0, frame_module = None, function_name = [], function_base = 0,
     source_file_name = [], source_line = 0, source_line_base = 0, trust = FRAME_TRUST_NONE\<rparr>"

definition trust_description :: "StackFrame \<Rightarrow> string" where
  "trust_description f = (case trust f of
     FRAME_TRUST_CONTEXT \<Rightarrow> ''given as instruction pointer in context''
   | FRAME_TRUST_PREWALKED \<Rightarrow> ''recovered by external stack walker''
   | FRAME_TRUST_CFI \<Rightarrow> ''call frame info''
   | FRAME_TRUST_CFI_SCAN \<Rightarrow> ''call frame info with scanning''
   | FRAME_TRUST_FP \<Rightarrow> ''previous frame'' @ [CHR 0x27] @ ''s frame pointer''
   | FRAME_TRUST_SCAN \<Rightarrow> ''stack scanning''
   | FRAME_TRUST_NONE \<Rightarrow> ''unknown'')"

end
