(* ===== verification/Basic_Resolver.thy ===== *)
theory Basic_Resolver
  imports Symbol_Parse_Helper Range_Map Contained_Range_Map Address_Map CFI_Frame_Info Stack_Frame
begin

text \<open>
  \<open>BasicSourceLineResolver::Module\<close> (\<open>processor/basic_source_line_resolver.cc\<close>,
  \<open>basic_source_line_resolver_types.h\<close>, \<open>source_line_resolver_base_types.h\<close>): loading
  a symbol file and looking up addresses in it.

  A \<open>Function\<close> is shared between \<open>functions_\<close> and the parser, which goes on adding
  lines to it, so functions live in a list of objects and \<open>functions_\<close> holds their
  indices.  The other objects are not changed after they are stored and are held by value.
\<close>

record Line =
  l_address :: u64
  l_size :: u64
  source_file_id :: u32
  line_number :: u32

record Function =
  f_name :: string
  f_address :: u64
  f_size :: u64
  f_parameter_size :: u32
  f_is_multiple :: bool
  f_lines :: "(u64, Line) range_map"

record PublicSymbol =
  p_name :: string
  p_address :: u64
  p_parameter_size :: u32
  p_is_multiple :: bool

record Module =
  files :: "(int, string) smap"
  function_objects :: "Function list"
  function_ranges :: "(u64, nat) range_map"
  public_symbols :: "(u64, PublicSymbol) address_map"
  is_corrupt :: bool
  windows_frame_info :: "(u64, WindowsFrameInfo) contained_range_map list"
  cfi_initial_rules :: "(u64, string) range_map"
  cfi_delta_rules :: "(u64, string) smap"

definition empty_range_map :: "('a, 'e) range_map" where
  "empty_range_map = \<lparr>merge_strategy = kExclusiveRanges, rmap = []\<rparr>"

definition new_Module :: Module where
  "new_Module = \<lparr>files = [], function_objects = [], function_ranges = empty_range_map,
     public_symbols = [], is_corrupt = False,
     windows_frame_info = replicate 5 (CNode 0 new_WindowsFrameInfo []),
     cfi_initial_rules = empty_range_map, cfi_delta_rules = []\<rparr>"

subsection \<open>Parsing records into the module\<close>

definition Module_ParseFile :: "string \<Rightarrow> Module \<Rightarrow> bool \<times> Module" where
  "Module_ParseFile file_line m =
     (case Helper_ParseFile file_line of
        None \<Rightarrow> (False, m)
      | Some (index, filename) \<Rightarrow>
          (True, m\<lparr>files := smap_insert (int_of_long index) filename (files m)\<rparr>))"

definition Module_ParseFunction :: "string \<Rightarrow> Function option" where
  "Module_ParseFunction function_line =
     map_option (\<lambda>(is_multiple, address, sz, stack_param_size, name).
         \<lparr>f_name = name, f_address = address, f_size = sz,
          f_parameter_size = word_of_int stack_param_size, f_is_multiple = is_multiple,
          f_lines = empty_range_map\<rparr>)
       (Helper_ParseFunction function_line)"

definition Module_ParseLine :: "string \<Rightarrow> Line option" where
  "Module_ParseLine line_line =
     map_option (\<lambda>(address, sz, line, source_file).
         \<lparr>l_address = address, l_size = sz, source_file_id = word_of_int source_file,
          line_number = word_of_int line\<rparr>)
       (Helper_ParseLine line_line)"

definition Module_ParsePublicSymbol :: "string \<Rightarrow> Module \<Rightarrow> bool \<times> Module" where
  "Module_ParsePublicSymbol public_line m =
     (case Helper_ParsePublicSymbol public_line of
        None \<Rightarrow> (False, m)
      | Some (is_multiple, address, stack_param_size, name) \<Rightarrow>
          if address = 0 then (True, m)
          else
            (case Store (public_symbols m) address
                    \<lparr>p_name = name, p_address = address,
                     p_parameter_size = word_of_int stack_param_size, p_is_multiple = is_multiple\<rparr> of
               (symbols, stored) \<Rightarrow> (stored, m\<lparr>public_symbols := symbols\<rparr>)))"

definition ParseCFIFrameInfo :: "string \<Rightarrow> Module \<Rightarrow> (bool \<times> Module) run" where
  "ParseCFIFrameInfo stack_info_line m =
     (case strtok kWhitespace stack_info_line of
        (None, _) \<Rightarrow> Some (False, m)
      | (Some init_or_address, cursor) \<Rightarrow>
          if init_or_address = ''INIT'' then
            (case strtok kWhitespace cursor of
               (None, _) \<Rightarrow> Some (False, m)
             | (Some address_field, cursor) \<Rightarrow>
                 (case strtok kWhitespace cursor of
                    (None, _) \<Rightarrow> Some (False, m)
                  | (Some size_field, cursor) \<Rightarrow>
                      (case strtok newline cursor of
                         (None, _) \<Rightarrow> Some (False, m)
                       | (Some initial_rules, _) \<Rightarrow> do {
                           (rules, _) \<leftarrow> StoreRange (cfi_initial_rules m)
                             (fst (strtoull 16 address_field)) (fst (strtoull 16 size_field))
                             initial_rules;
                           Some (True, m\<lparr>cfi_initial_rules := rules\<rparr>)
                         })))
          else
            (case strtok newline cursor of
               (None, _) \<Rightarrow> Some (False, m)
             | (Some delta_rules, _) \<Rightarrow>
                 Some (True, m\<lparr>cfi_delta_rules :=
                   smap_put (fst (strtoull 16 init_or_address)) delta_rules (cfi_delta_rules m)\<rparr>)))"

text \<open>
  \<open>ParseStackInfo\<close> ends the platform token by writing a terminator and steps past it.  When
  the token is ended by a blank, what follows is the rest of the line.  When it is ended by
  the end of the line, the step leaves the line, and what is parsed is the text behind it in
  the buffer: \<open>rest\<close>, or nothing that may be read when the line was the end of the
  buffer.  \<open>strtok_r\<close> in \<open>ParseCFIFrameInfo\<close> then cuts the buffer after the first
  token it finds there.  The result carries the text that is left for the next line.
\<close>

definition ParseStackInfo ::
  "string \<Rightarrow> string option \<Rightarrow> Module \<Rightarrow> (bool \<times> string option \<times> Module) run" where
  "ParseStackInfo stack_info_line rest m =
     (let s = dropWhile (\<lambda>c. c = CHR '' '') (drop 6 stack_info_line);
          platform = takeWhile (\<lambda>c. c \<notin> set kWhitespace) s;
          overrun = (dropWhile (\<lambda>c. c \<notin> set kWhitespace) s = []);
          body = (if overrun then rest
                  else Some (drop 1 (dropWhile (\<lambda>c. c \<notin> set kWhitespace) s))) in
      if platform = ''WIN'' then
        (case body of
           None \<Rightarrow> None
         | Some text \<Rightarrow>
             (case ParseFromString text of
                None \<Rightarrow> Some (False, rest, m)
              | Some (frame_info, t, rva, code_size) \<Rightarrow>
                  (let node = windows_frame_info m ! nat t in
                   Some (True, rest, m\<lparr>windows_frame_info := (windows_frame_info m)
                     [nat t := fst (contained_StoreRange node rva code_size frame_info)]\<rparr>))))
      else if platform = ''CFI'' then
        (case body of
           None \<Rightarrow> None
         | Some text \<Rightarrow> do {
             (ok, m') \<leftarrow> ParseCFIFrameInfo text m;
             Some (ok,
               if overrun
               then Some (takeWhile (\<lambda>c. c \<in> set kWhitespace) text @
                          (case strtok kWhitespace text of (None, _) \<Rightarrow> [] | (Some t, _) \<Rightarrow> t))
               else rest,
               m')
           })
      else Some (False, rest, m))"

subsection \<open>Loading a symbol file\<close>

text \<open>
  The next line for \<open>strtok_r\<close> and the text behind its terminator.  A last line without a
  line break has nothing behind it, or an empty text when the buffer has further terminators.
\<close>

definition next_line :: "bool \<Rightarrow> string \<Rightarrow> (string \<times> string option) option" where
  "next_line extra text =
     (case dropWhile (\<lambda>c. c \<in> set newline) text of
        [] \<Rightarrow> None
      | s \<Rightarrow> Some (takeWhile (\<lambda>c. c \<notin> set newline) s,
          (case dropWhile (\<lambda>c. c \<notin> set newline) s of
             [] \<Rightarrow> if extra then Some [] else None
           | _ # rest \<Rightarrow> Some rest)))"

definition starts_with :: "string \<Rightarrow> string \<Rightarrow> bool" where
  "starts_with prefix s = (take (length prefix) s = prefix)"

definition kMaxErrorsBeforeBailing :: nat where "kMaxErrorsBeforeBailing = 100"

text \<open>
  One turn of the loop: the text left, the module, the current function and the number of
  errors.  \<open>LogParseError\<close> only counts here.
\<close>

definition load_line ::
  "string \<Rightarrow> string option \<Rightarrow> Module \<Rightarrow> nat option \<Rightarrow> nat \<Rightarrow>
     (string option \<times> Module \<times> nat option \<times> nat) run" where
  "load_line buffer rest m cur_func num_errors =
     (if starts_with ''FILE '' buffer then
        (case Module_ParseFile buffer m of (ok, m') \<Rightarrow>
           Some (rest, m', cur_func, if ok then num_errors else num_errors + 1))
      else if starts_with ''STACK '' buffer then do {
        (ok, rest', m') \<leftarrow> ParseStackInfo buffer rest m;
        Some (rest', m', cur_func, if ok then num_errors else num_errors + 1)
      }
      else if starts_with ''FUNC '' buffer then
        (case Module_ParseFunction buffer of
           None \<Rightarrow> Some (rest, m, None, num_errors + 1)
         | Some f \<Rightarrow> do {
             (fs, _) \<leftarrow> StoreRange (function_ranges m) (f_address f) (f_size f) (length (function_objects m));
             Some (rest, m\<lparr>function_objects := function_objects m @ [f], function_ranges := fs\<rparr>,
                   Some (length (function_objects m)), num_errors)
           })
      else if starts_with ''PUBLIC '' buffer then
        (case Module_ParsePublicSymbol buffer m of (ok, m') \<Rightarrow>
           Some (rest, m', None, if ok then num_errors else num_errors + 1))
      else if starts_with ''MODULE '' buffer then Some (rest, m, cur_func, num_errors)
      else if starts_with ''INFO '' buffer then Some (rest, m, cur_func, num_errors)
      else
        (case cur_func of
           None \<Rightarrow> Some (rest, m, cur_func, num_errors + 1)
         | Some f \<Rightarrow>
             (case Module_ParseLine buffer of
                None \<Rightarrow> Some (rest, m, cur_func, num_errors + 1)
              | Some line \<Rightarrow> do {
                  (ls, _) \<leftarrow> StoreRange (f_lines (function_objects m ! f)) (l_address line) (l_size line) line;
                  Some (rest, m\<lparr>function_objects := (function_objects m)
                          [f := (function_objects m ! f)\<lparr>f_lines := ls\<rparr>]\<rparr>, cur_func, num_errors)
                })))"

fun text_left :: "string option \<Rightarrow> nat" where
  "text_left None = 0"
| "text_left (Some s) = Suc (length s)"

lemma strtok_length:
  "strtok seps buf = (Some t, s) \<Longrightarrow>
     length (takeWhile (\<lambda>c. c \<in> set seps) buf @ t) \<le> length buf"
proof -
  assume "strtok seps buf = (Some t, s)"
  then have "t = takeWhile (\<lambda>c. c \<notin> set seps) (dropWhile (\<lambda>c. c \<in> set seps) buf)"
    by (auto simp: strtok_def split: list.splits)
  then have "length t \<le> length (dropWhile (\<lambda>c. c \<in> set seps) buf)"
    by (simp add: length_takeWhile_le)
  moreover have "length (takeWhile (\<lambda>c. c \<in> set seps) buf) + length (dropWhile (\<lambda>c. c \<in> set seps) buf) =
      length buf"
    by (metis length_append takeWhile_dropWhile_id)
  ultimately show ?thesis by simp
qed

lemma ParseStackInfo_left:
  assumes "ParseStackInfo l rest m = Some (ok, rest', m')"
  shows "text_left rest' \<le> text_left rest"
proof -
  have cut: "length (takeWhile (\<lambda>c. c \<in> set kWhitespace) buf) \<le> length buf" for buf
    by (rule length_takeWhile_le)
  have "strtok kWhitespace buf = (Some t, s) \<Longrightarrow>
      length (takeWhile (\<lambda>c. c \<in> set kWhitespace) buf) + length t \<le> length buf" for buf t s
    using strtok_length [of kWhitespace buf t s] by simp
  with cut assms show ?thesis
    by (auto simp: ParseStackInfo_def Let_def bind_eq_Some_conv
        split: if_split_asm option.split_asm prod.split_asm)
qed

lemma load_line_left:
  assumes "load_line l rest m cur errs = Some (rest', m', cur', errs')"
  shows "text_left rest' \<le> text_left rest"
  using assms
  by (auto simp: load_line_def bind_eq_Some_conv dest: ParseStackInfo_left
      split: if_split_asm option.split_asm prod.split_asm)

lemma next_line_left:
  assumes "next_line extra buf = Some (l, rest)"
  shows "text_left rest < text_left (Some buf)"
proof -
  obtain c cs where s: "dropWhile (\<lambda>c. c \<in> set newline) buf = c # cs"
    and rest: "rest = (case dropWhile (\<lambda>c. c \<notin> set newline) (c # cs) of
        [] \<Rightarrow> if extra then Some [] else None | _ # r \<Rightarrow> Some r)"
    using assms by (auto simp: next_line_def split: list.split_asm)
  have "Suc (length cs) \<le> length buf"
    using length_dropWhile_le [of "\<lambda>c. c \<in> set newline" buf] s by simp
  moreover obtain r where "length r \<le> Suc (length cs)"
    and "rest = (case r of [] \<Rightarrow> if extra then Some [] else None | _ # r \<Rightarrow> Some r)"
    using length_dropWhile_le [of "\<lambda>c. c \<notin> set newline" "c # cs"] rest
    by (metis length_Cons)
  ultimately show ?thesis by (cases r) auto
qed

text \<open>The loop: the module and the number of errors at its end.\<close>

function load_lines ::
  "bool \<Rightarrow> string option \<Rightarrow> Module \<Rightarrow> nat option \<Rightarrow> nat \<Rightarrow> (Module \<times> nat) run" where
  "load_lines extra rest m cur_func num_errors =
     (case rest of
        None \<Rightarrow> Some (m, num_errors)
      | Some text \<Rightarrow>
          (case next_line extra text of
             None \<Rightarrow> Some (m, num_errors)
           | Some (buffer, rest') \<Rightarrow>
               (case load_line buffer rest' m cur_func num_errors of
                  None \<Rightarrow> None
                | Some (rest'', m', cur_func', num_errors') \<Rightarrow>
                    if kMaxErrorsBeforeBailing < num_errors' then Some (m', num_errors')
                    else load_lines extra rest'' m' cur_func' num_errors')))"
  by pat_completeness auto
termination
  by (relation "measure (\<lambda>(_, rest, _). text_left rest)")
    (auto dest!: load_line_left next_line_left)

declare load_lines.simps [simp del]

lemma load_lines_step:
  assumes "is_token newline l"
    and "load_line l (Some rest) m cur errs = Some (rest', m', cur', errs')"
    and "errs' \<le> kMaxErrorsBeforeBailing"
  shows "load_lines extra (Some (l @ CHR 0x0A # rest)) m cur errs = load_lines extra rest' m' cur' errs'"
proof -
  obtain c cs where l: "l = c # cs" "c \<notin> set newline" "\<forall>c\<in>set l. c \<notin> set newline"
    using assms(1) by (cases l) (auto simp: is_token_def list_all_iff)
  have "next_line extra (l @ CHR 0x0A # rest) = Some (l, Some rest)"
    using l by (simp add: next_line_def takeWhile_append2 dropWhile_append2)
  with assms(2,3) show ?thesis by (subst load_lines.simps) simp
qed

text \<open>
  \<open>LoadMapFromMemory\<close>: the buffer is terminated, terminators at its end are skipped and
  those in the middle become underscores, which counts as an error.
\<close>

definition LoadMapFromMemory :: "char list \<Rightarrow> Module \<Rightarrow> (bool \<times> Module) run" where
  "LoadMapFromMemory memory_buffer m =
     (if memory_buffer = [] then Some (True, m)
      else
        let body = rev (dropWhile (\<lambda>c. c = NUL) (rev (butlast memory_buffer)));
            extra = (length body + 1 < length memory_buffer);
            num_errors = (if NUL \<in> set body then 1 else 0);
            text = map (\<lambda>c. if c = NUL then CHR ''_'' else c) body in
        do {
          (m', num_errors) \<leftarrow> load_lines extra (Some text) m None num_errors;
          Some (True, m'\<lparr>is_corrupt := (0 < num_errors)\<rparr>)
        })"

subsection \<open>Lookups\<close>

text \<open>\<open>base\<close> is \<open>frame->module->base_address()\<close>.\<close>

definition LookupAddress ::
  "Module \<Rightarrow> u64 \<Rightarrow> 'a StackFrame_scheme \<Rightarrow> 'a StackFrame_scheme" where
  "LookupAddress m base frame =
     (let address = instruction frame - base;
          nearest = RetrieveNearestRange (function_ranges m) address in
      case (case nearest of
              None \<Rightarrow> None
            | Some (f, f_base, _, f_sz) \<Rightarrow>
                if f_base \<le> address \<and> address - f_base < f_sz then Some (f, f_base) else None) of
        Some (f, f_base) \<Rightarrow>
          (let func = function_objects m ! f;
               frame = frame\<lparr>function_name := f_name func, function_base := base + f_base\<rparr> in
           case RetrieveRange (f_lines func) address of
             None \<Rightarrow> frame
           | Some (line, line_base, _, _) \<Rightarrow>
               (case map_of (files m) (sint (source_file_id line)) of
                  None \<Rightarrow> frame | Some file \<Rightarrow> frame\<lparr>source_file_name := file\<rparr>)
                 \<lparr>source_line := line_number line, source_line_base := base + line_base\<rparr>)
      | None \<Rightarrow>
          (case Retrieve (public_symbols m) address of
             None \<Rightarrow> frame
           | Some (public_symbol, public_address) \<Rightarrow>
               if (case nearest of None \<Rightarrow> True | Some (_, f_base, _, _) \<Rightarrow> f_base < public_address)
               then frame\<lparr>function_name := p_name public_symbol, function_base := base + public_address\<rparr>
               else frame))"

text \<open>
  \<open>FindWindowsFrameInfo\<close> on the address relative to the module.  The parameter size of a
  public symbol goes into \<open>result\<close>, which is then dropped.
\<close>

definition Module_FindWindowsFrameInfo :: "Module \<Rightarrow> u64 \<Rightarrow> WindowsFrameInfo option" where
  "Module_FindWindowsFrameInfo m address =
     (let result = new_WindowsFrameInfo in
      case (case contained_RetrieveRange (windows_frame_info m ! 4) address of
              Some frame_info \<Rightarrow> Some frame_info
            | None \<Rightarrow> contained_RetrieveRange (windows_frame_info m ! 0) address) of
        Some frame_info \<Rightarrow> Some (WindowsFrameInfo_CopyFrom frame_info result)
      | None \<Rightarrow>
          (case RetrieveNearestRange (function_ranges m) address of
             Some (f, f_base, _, f_sz) \<Rightarrow>
               if f_base \<le> address \<and> address - f_base < f_sz
               then Some (result\<lparr>parameter_size := f_parameter_size (function_objects m ! f),
                            valid := valid result OR VALID_PARAMETER_SIZE\<rparr>)
               else None
           | None \<Rightarrow> None))"

fun apply_delta_rules ::
  "u64 \<Rightarrow> (u64 \<times> string) list \<Rightarrow> CFIFrameInfo \<Rightarrow> CFIFrameInfo" where
  "apply_delta_rules address [] rules = rules"
| "apply_delta_rules address ((a, rule) # deltas) rules =
     (if a \<le> address
      then apply_delta_rules address deltas (snd (CFIRuleParser_Parse frame_info_handler rule rules))
      else rules)"

definition Module_FindCFIFrameInfo :: "Module \<Rightarrow> u64 \<Rightarrow> CFIFrameInfo option" where
  "Module_FindCFIFrameInfo m address =
     (case RetrieveRange (cfi_initial_rules m) address of
        None \<Rightarrow> None
      | Some (initial_rules, initial_base, _, _) \<Rightarrow>
          (case CFIRuleParser_Parse frame_info_handler initial_rules empty_cfi of (ok, rules) \<Rightarrow>
             if \<not> ok then None
             else Some (apply_delta_rules address
               (drop (lower_bound (cfi_delta_rules m) initial_base) (cfi_delta_rules m)) rules)))"

subsection \<open>The module invariant\<close>

definition exclusive_map :: "('a::len word, 'e) range_map \<Rightarrow> bool" where
  "exclusive_map m = (range_map_ok m \<and> merge_strategy m = kExclusiveRanges \<and>
     (\<forall>p\<in>set (rmap m). fst p - r_base (snd p) + 1 \<noteq> 0))"

definition module_ok :: "Module \<Rightarrow> bool" where
  "module_ok m = (ordered (files m) \<and> exclusive_map (function_ranges m) \<and>
     (\<forall>p\<in>set (rmap (function_ranges m)). r_entry (snd p) < length (function_objects m)) \<and>
     (\<forall>f\<in>set (function_objects m). exclusive_map (f_lines f)) \<and>
     ordered (public_symbols m) \<and>
     length (windows_frame_info m) = 5 \<and> (\<forall>n\<in>set (windows_frame_info m). tree_ok n) \<and>
     exclusive_map (cfi_initial_rules m) \<and> ordered (cfi_delta_rules m))"

lemma exclusive_empty [simp]: "exclusive_map empty_range_map"
  by (simp add: exclusive_map_def empty_range_map_def range_map_ok_def)

lemma module_ok_new: "module_ok new_Module"
  by (auto simp: module_ok_def new_Module_def) (simp add: empty_range_map_def)

lemma exclusive_store:
  assumes "exclusive_map m" and "StoreRange m base sz e = Some (m', stored)"
  shows "exclusive_map m' \<and> set (rmap m') \<subseteq>
    insert (base + (sz - 1), \<lparr>r_base = base, r_delta = 0, r_entry = e\<rparr>) (set (rmap m))"
  using store_exclusive_run [of m base sz e] assms
  by (auto simp: exclusive_map_def split: if_split_asm)

lemma exclusive_store_runs:
  "exclusive_map m \<Longrightarrow> \<exists>m' stored. StoreRange m base sz e = Some (m', stored)"
  using store_exclusive_run [of m base sz e] by (auto simp: exclusive_map_def)

lemma ParseFile_ok: "module_ok m \<Longrightarrow> module_ok (snd (Module_ParseFile l m))"
  by (auto simp: module_ok_def Module_ParseFile_def ordered_smap_insert split: option.split)

lemma ParsePublicSymbol_ok:
  "module_ok m \<Longrightarrow> module_ok (snd (Module_ParsePublicSymbol l m))"
proof -
  assume "module_ok m"
  then have "ordered (fst (Store (public_symbols m) a e))" for a e
    by (simp add: ordered_Store module_ok_def)
  with \<open>module_ok m\<close> show ?thesis
    by (auto simp: Module_ParsePublicSymbol_def module_ok_def split: option.split prod.split)
      (metis fst_conv)
qed

lemma ParseCFIFrameInfo_ok:
  assumes "module_ok m" and "ParseCFIFrameInfo l m = Some (ok, m')"
  shows "module_ok m'"
proof -
  have init: "exclusive_map rs \<Longrightarrow> module_ok (m\<lparr>cfi_initial_rules := rs\<rparr>)" for rs
    using assms(1) by (simp add: module_ok_def)
  have delta: "module_ok (m\<lparr>cfi_delta_rules := smap_put k v (cfi_delta_rules m)\<rparr>)" for k v
    using assms(1) by (simp add: module_ok_def ordered_smap_put)
  have "exclusive_map (cfi_initial_rules m)" using assms(1) by (simp add: module_ok_def)
  with init delta assms show ?thesis
    by (auto simp: ParseCFIFrameInfo_def bind_eq_Some_conv dest: exclusive_store
        split: prod.split_asm option.split_asm if_split_asm)
qed

lemma ParseCFIFrameInfo_runs:
  assumes "module_ok m"
  shows "ParseCFIFrameInfo l m \<noteq> None"
proof -
  have "exclusive_map (cfi_initial_rules m)" using assms by (simp add: module_ok_def)
  then have "\<forall>b z e. \<exists>p. StoreRange (cfi_initial_rules m) b z e = Some p"
    using exclusive_store_runs [of "cfi_initial_rules m"] by blast
  then obtain p where p: "\<forall>b z e. StoreRange (cfi_initial_rules m) b z e = Some (p b z e)"
    by metis
  obtain t1 s1 where 1: "strtok kWhitespace l = (t1, s1)" by fastforce
  obtain t2 s2 where 2: "strtok kWhitespace s1 = (t2, s2)" by fastforce
  obtain t3 s3 where 3: "strtok kWhitespace s2 = (t3, s3)" by fastforce
  obtain t4 s4 where 4: "strtok newline s3 = (t4, s4)" by fastforce
  obtain t5 s5 where 5: "strtok newline s1 = (t5, s5)" by fastforce
  show ?thesis
    by (cases t1; cases t2; cases t3; cases t4; cases t5)
      (auto simp: ParseCFIFrameInfo_def 1 2 3 4 5 p split: prod.split)
qed

lemma ParseFromString_type:
  assumes "ParseFromString l = Some (f, t, rva, code_size)"
  shows "0 \<le> t \<and> t < 5"
  using assms by (auto simp: ParseFromString_def Let_def STACK_INFO_LAST_def
      split: prod.split_asm if_split_asm)

lemma store_frame_info_ok:
  assumes "module_ok m" and "0 \<le> t" and "t < 5"
  shows "module_ok (m\<lparr>windows_frame_info := (windows_frame_info m)
    [nat t := fst (contained_StoreRange (windows_frame_info m ! nat t) rva code_size frame_info)]\<rparr>)"
proof -
  have "nat t < length (windows_frame_info m)" using assms by (simp add: module_ok_def)
  then have "tree_ok (windows_frame_info m ! nat t)" using assms(1) by (simp add: module_ok_def)
  then have "tree_ok (fst (contained_StoreRange (windows_frame_info m ! nat t) rva code_size frame_info))"
    using contained_StoreRange_outcome [of "windows_frame_info m ! nat t" rva code_size frame_info]
    by (auto simp: contained_outcome_def split: prod.split_asm)
  with assms(1) show ?thesis
    by (auto simp: module_ok_def dest!: subsetD [OF set_update_subset_insert])
qed

lemma ParseStackInfo_ok:
  assumes "module_ok m" and "ParseStackInfo l rest m = Some (ok, rest', m')"
  shows "module_ok m'"
  using assms
  by (auto simp: ParseStackInfo_def Let_def bind_eq_Some_conv intro: ParseCFIFrameInfo_ok
      intro!: store_frame_info_ok dest!: ParseFromString_type
      split: if_split_asm option.split_asm prod.split_asm)

lemma add_function_ok:
  assumes ok: "module_ok m" and f: "exclusive_map (f_lines f)"
    and st: "StoreRange (function_ranges m) a z (length (function_objects m)) = Some (fs, stored)"
  shows "module_ok (m\<lparr>function_objects := function_objects m @ [f], function_ranges := fs\<rparr>)"
proof -
  have x: "exclusive_map (function_ranges m)" using ok by (simp add: module_ok_def)
  have "\<forall>p\<in>set (rmap fs). r_entry (snd p) < length (function_objects m @ [f])"
  proof
    fix p assume "p \<in> set (rmap fs)"
    then have "p = (a + (z - 1), \<lparr>r_base = a, r_delta = 0, r_entry = length (function_objects m)\<rparr>) \<or>
        p \<in> set (rmap (function_ranges m))"
      using exclusive_store [OF x st] by auto
    then show "r_entry (snd p) < length (function_objects m @ [f])"
    proof
      assume "p \<in> set (rmap (function_ranges m))"
      then have "r_entry (snd p) < length (function_objects m)" using ok by (simp add: module_ok_def)
      then show ?thesis by simp
    qed simp
  qed
  then show ?thesis using ok f exclusive_store [OF x st] by (simp add: module_ok_def)
qed

lemma add_line_ok:
  assumes ok: "module_ok m" and f: "f < length (function_objects m)"
    and st: "StoreRange (f_lines (function_objects m ! f)) a z line = Some (ls, stored)"
  shows "module_ok (m\<lparr>function_objects := (function_objects m)
    [f := (function_objects m ! f)\<lparr>f_lines := ls\<rparr>]\<rparr>)"
proof -
  have "exclusive_map (f_lines (function_objects m ! f))" using ok f by (simp add: module_ok_def)
  then have ls: "exclusive_map ls" using exclusive_store [OF _ st] by simp
  have "exclusive_map (f_lines g)"
    if "g \<in> set ((function_objects m)[f := (function_objects m ! f)\<lparr>f_lines := ls\<rparr>])" for g
    using subsetD [OF set_update_subset_insert that] ok ls by (auto simp: module_ok_def)
  with ok show ?thesis by (simp add: module_ok_def)
qed

text \<open>The cases of a line, with what each does to the module.\<close>

lemma Module_ParseFunction_lines: "Module_ParseFunction l = Some f \<Longrightarrow> f_lines f = empty_range_map"
  by (auto simp: Module_ParseFunction_def)

lemma load_line_ok:
  assumes ok: "module_ok m" and cur: "\<forall>f. cur = Some f \<longrightarrow> f < length (function_objects m)"
    and run: "load_line l rest m cur errs = Some (rest', m', cur', errs')"
  shows "module_ok m' \<and> (\<forall>f. cur' = Some f \<longrightarrow> f < length (function_objects m'))"
proof -
  consider (file_line) "starts_with ''FILE '' l" | (stack) "\<not> starts_with ''FILE '' l" "starts_with ''STACK '' l"
    | (func) "\<not> starts_with ''FILE '' l" "\<not> starts_with ''STACK '' l" "starts_with ''FUNC '' l"
    | (pub) "\<not> starts_with ''FILE '' l" "\<not> starts_with ''STACK '' l" "\<not> starts_with ''FUNC '' l"
        "starts_with ''PUBLIC '' l"
    | (other) "\<not> starts_with ''FILE '' l" "\<not> starts_with ''STACK '' l" "\<not> starts_with ''FUNC '' l"
        "\<not> starts_with ''PUBLIC '' l" by blast
  then show ?thesis
  proof cases
    case file_line
    have "function_objects (snd (Module_ParseFile l m)) = function_objects m"
      by (auto simp: Module_ParseFile_def split: option.split)
    with file_line run cur ParseFile_ok [OF ok, of l] show ?thesis
      by (auto simp: load_line_def split: prod.split_asm)
  next
    case stack
    then obtain st where "ParseStackInfo l rest m = Some st"
      using run by (auto simp: load_line_def bind_eq_Some_conv)
    moreover obtain ok' r' m1 where "st = (ok', r', m1)" by (cases st)
    ultimately have p: "ParseStackInfo l rest m = Some (ok', r', m1)" by simp
    have "function_objects m1 = function_objects m"
      using p by (auto simp: ParseStackInfo_def Let_def bind_eq_Some_conv ParseCFIFrameInfo_def
          split: if_split_asm option.split_asm prod.split_asm)
    with stack run cur p ParseStackInfo_ok [OF ok p] show ?thesis
      by (auto simp: load_line_def)
  next
    case func
    show ?thesis
    proof (cases "Module_ParseFunction l")
      case None
      with func run ok show ?thesis by (auto simp: load_line_def)
    next
      case (Some f)
      then obtain fs stored where
        st: "StoreRange (function_ranges m) (f_address f) (f_size f) (length (function_objects m)) = Some (fs, stored)"
        using func run by (auto simp: load_line_def bind_eq_Some_conv)
      have "exclusive_map (f_lines f)" using Module_ParseFunction_lines [OF Some] by simp
      from add_function_ok [OF ok this st] func run Some st show ?thesis
        by (auto simp: load_line_def)
    qed
  next
    case pub
    with run ParsePublicSymbol_ok [OF ok, of l] show ?thesis
      by (auto simp: load_line_def split: prod.split_asm)
  next
    case other
    show ?thesis
    proof (cases "starts_with ''MODULE '' l \<or> starts_with ''INFO '' l")
      case True
      with other run ok cur show ?thesis
        by (cases "starts_with ''MODULE '' l") (auto simp: load_line_def)
    next
      case False
      show ?thesis
      proof (cases cur)
        case None
        with False other run ok show ?thesis by (auto simp: load_line_def)
      next
        case (Some f)
        show ?thesis
        proof (cases "Module_ParseLine l")
          case None
          with Some False other run ok cur show ?thesis by (auto simp: load_line_def)
        next
          case (Some line)
          then obtain ls stored where
            st: "StoreRange (f_lines (function_objects m ! f)) (l_address line) (l_size line) line = Some (ls, stored)"
            using \<open>cur = Some f\<close> False other run by (auto simp: load_line_def bind_eq_Some_conv)
          from cur \<open>cur = Some f\<close> have f: "f < length (function_objects m)" by simp
          from add_line_ok [OF ok f st] Some st \<open>cur = Some f\<close> False other run f show ?thesis
            by (auto simp: load_line_def)
        qed
      qed
    qed
  qed
qed

lemma load_lines_ok:
  assumes "module_ok m" and "\<forall>f. cur = Some f \<longrightarrow> f < length (function_objects m)"
    and "load_lines extra rest m cur errs = Some (m', errs')"
  shows "module_ok m'"
  using assms
proof (induction extra rest m cur errs rule: load_lines.induct)
  case (1 extra rest m cur errs)
  show ?case
  proof (cases "\<exists>s l rest1. rest = Some s \<and> next_line extra s = Some (l, rest1)")
    case False
    with "1.prems"(1,3) show ?thesis
      by (subst (asm) load_lines.simps) (auto split: option.split_asm)
  next
    case True
    then obtain s l rest1 where s: "rest = Some s" and n: "next_line extra s = Some (l, rest1)" by blast
    with "1.prems"(3) obtain r where r: "load_line l rest1 m cur errs = Some r"
      by (subst (asm) load_lines.simps) (auto split: option.split_asm)
    obtain rest2 m2 cur2 errs2 where r2: "r = (rest2, m2, cur2, errs2)" by (cases r)
    have ok: "module_ok m2 \<and> (\<forall>f. cur2 = Some f \<longrightarrow> f < length (function_objects m2))"
      using load_line_ok [OF "1.prems"(1,2)] r r2 by blast
    show ?thesis
    proof (cases "kMaxErrorsBeforeBailing < errs2")
      case True
      with "1.prems"(3) s n r r2 ok show ?thesis
        by (subst (asm) load_lines.simps) simp
    next
      case False
      with "1.prems"(3) s n r r2 have "load_lines extra rest2 m2 cur2 errs2 = Some (m', errs')"
        by (subst (asm) load_lines.simps) simp
      from "1.IH" [OF s n refl r r2 [symmetric] refl refl False _ _ this] ok
      show ?thesis by blast
    qed
  qed
qed

lemma LoadMapFromMemory_invariant:
  assumes "module_ok m" and "LoadMapFromMemory buf m = Some (ok, m')"
  shows "ok \<and> module_ok m'"
proof (cases "buf = []")
  case True
  with assms show ?thesis by (simp add: LoadMapFromMemory_def)
next
  case False
  let ?body = "rev (dropWhile (\<lambda>c. c = NUL) (rev (butlast buf)))"
  obtain m1 errs where
    run: "load_lines (length ?body + 1 < length buf)
        (Some (map (\<lambda>c. if c = NUL then CHR ''_'' else c) ?body)) m None
        (if NUL \<in> set ?body then 1 else 0) = Some (m1, errs)"
    and m': "ok" "m' = m1\<lparr>is_corrupt := (0 < errs)\<rparr>"
    using False assms(2) by (auto simp: LoadMapFromMemory_def Let_def bind_eq_Some_conv)
  from load_lines_ok [OF assms(1) _ run] m' show ?thesis by (simp add: module_ok_def)
qed

text \<open>
  C12: Whatever the buffer holds, loading it into a module keeps the module's invariant: the
  ranges of functions, lines and initial CFI rules stay disjoint, frame data stays nested,
  and every stored function index is the index of a function object.
\<close>

theorem LoadMapFromMemory_ok:
  assumes "module_ok m" and "LoadMapFromMemory buf m = Some (ok, m')"
  shows "ok \<and> module_ok m'"
  using assms by (rule LoadMapFromMemory_invariant)

subsection \<open>Loading returns\<close>

text \<open>
  The only execution that does not return reads past the end of the buffer, behind a last
  \<open>STACK WIN\<close> or \<open>STACK CFI\<close> line that ends right after the platform.  A text is
  safe when its last line is ended by a line break (or a spare terminator), or when it is
  what \<open>strtok_r\<close> left of a text it cut: separators and one token.
\<close>

definition safe_text :: "bool \<Rightarrow> string \<Rightarrow> bool" where
  "safe_text extra s = (extra \<or> s = [] \<or> last s \<in> set newline \<or>
     (\<exists>w t. s = w @ t \<and> (\<forall>c\<in>set w. c \<in> set kWhitespace) \<and> (\<forall>c\<in>set t. c \<notin> set kWhitespace)))"

definition safe_rest :: "bool \<Rightarrow> string option \<Rightarrow> bool" where
  "safe_rest extra rest = (case rest of None \<Rightarrow> True | Some s \<Rightarrow> safe_text extra s)"

lemma safe_cut:
  "\<forall>c\<in>set w. c \<in> set kWhitespace \<Longrightarrow> \<forall>c\<in>set t. c \<notin> set kWhitespace \<Longrightarrow> safe_text extra (w @ t)"
  unfolding safe_text_def by blast

lemma last_dropWhile: "dropWhile P xs \<noteq> [] \<Longrightarrow> last (dropWhile P xs) = last xs"
  by (induction xs) (auto split: if_splits)

lemma dropWhile_append_word:
  "\<exists>w' t'. dropWhile P (w @ t) = w' @ t' \<and> set w' \<subseteq> set w \<and> set t' \<subseteq> set t"
proof (induction w)
  case Nil
  show ?case by (rule exI [of _ "[]"], rule exI [of _ "dropWhile P t"]) (auto dest: set_dropWhileD)
next
  case (Cons c w)
  then obtain w' t' where IH: "dropWhile P (w @ t) = w' @ t'" "set w' \<subseteq> set w" "set t' \<subseteq> set t"
    by blast
  show ?case
  proof (cases "P c")
    case True
    with IH show ?thesis by (intro exI [of _ w'] exI [of _ t']) auto
  next
    case False
    then show ?thesis by (intro exI [of _ "c # w"] exI [of _ t]) auto
  qed
qed

lemma cut_not_stack:
  assumes "\<forall>c\<in>set w. c \<in> set kWhitespace" and "\<forall>c\<in>set t. c \<notin> set kWhitespace"
  shows "\<not> starts_with ''STACK '' (takeWhile P (w @ t))"
proof
  assume st: "starts_with ''STACK '' (takeWhile P (w @ t))"
  show False
  proof (cases w)
    case Nil
    have "take 6 (takeWhile P t) = ''STACK ''"
      using st Nil by (simp add: starts_with_def eval_nat_numeral)
    then have "CHR '' '' \<in> set (take 6 (takeWhile P t))" by simp
    then have "CHR '' '' \<in> set t" by (meson in_set_takeD set_takeWhileD)
    with assms(2) show False by (meson kWhitespace_blank)
  next
    case (Cons c w')
    then have "c \<in> set kWhitespace" using assms(1) by simp
    with st Cons show False
      by (cases "P c") (auto simp: starts_with_def kWhitespace_def)
  qed
qed

lemma next_line_SomeD:
  assumes "next_line extra s = Some (l, rest)"
  shows "dropWhile (\<lambda>c. c \<in> set newline) s \<noteq> []"
    and "l = takeWhile (\<lambda>c. c \<notin> set newline) (dropWhile (\<lambda>c. c \<in> set newline) s)"
    and "rest = (case dropWhile (\<lambda>c. c \<notin> set newline) (dropWhile (\<lambda>c. c \<in> set newline) s) of
      [] \<Rightarrow> if extra then Some [] else None | _ # r \<Rightarrow> Some r)"
proof -
  have "dropWhile (\<lambda>c. c \<in> set newline) s \<noteq> []"
  proof
    assume Nil: "dropWhile (\<lambda>c. c \<in> set newline) s = []"
    have "next_line extra s = None" unfolding next_line_def Nil list.case by (rule refl)
    with assms show False by simp
  qed
  then obtain c cs where s: "dropWhile (\<lambda>c. c \<in> set newline) s = c # cs"
    by (meson neq_Nil_conv)
  show "dropWhile (\<lambda>c. c \<in> set newline) s \<noteq> []" unfolding s by simp
  show "l = takeWhile (\<lambda>c. c \<notin> set newline) (dropWhile (\<lambda>c. c \<in> set newline) s)"
    and "rest = (case dropWhile (\<lambda>c. c \<notin> set newline) (dropWhile (\<lambda>c. c \<in> set newline) s) of
      [] \<Rightarrow> if extra then Some [] else None | _ # r \<Rightarrow> Some r)"
    using assms unfolding next_line_def s list.case option.inject prod.inject by blast+
qed

lemma next_line_safe:
  assumes "next_line extra s = Some (l, rest)" and "safe_text extra s"
  shows "safe_rest extra rest \<and> (rest \<noteq> None \<or> \<not> starts_with ''STACK '' l)"
proof -
  let ?s = "dropWhile (\<lambda>c. c \<in> set newline) s"
  let ?r = "dropWhile (\<lambda>c. c \<notin> set newline) ?s"
  have s: "?s \<noteq> []" and l: "l = takeWhile (\<lambda>c. c \<notin> set newline) ?s"
    and rest: "rest = (case ?r of [] \<Rightarrow> if extra then Some [] else None | _ # r \<Rightarrow> Some r)"
    using next_line_SomeD [OF assms(1)] by blast+
  consider (extra) extra | (empty) "s = []" | (br) "last s \<in> set newline"
    | (cut) w t where "s = w @ t" "\<forall>c\<in>set w. c \<in> set kWhitespace" "\<forall>c\<in>set t. c \<notin> set kWhitespace"
    using assms(2) unfolding safe_text_def by blast
  then show ?thesis
  proof cases
    case empty
    with s show ?thesis by simp
  next
    case extra
    have "\<exists>r'. (case r of [] \<Rightarrow> if extra then Some [] else None | _ # r \<Rightarrow> Some r) = Some r'"
      for r :: string using extra by (cases r) auto
    then have "rest \<noteq> None" unfolding rest by (metis option.distinct(1))
    moreover have "safe_rest extra rest"
      using extra by (simp add: safe_rest_def safe_text_def split: option.split)
    ultimately show ?thesis by blast
  next
    case br
    have ls: "last ?s = last s" using last_dropWhile [OF s] .
    have "last s \<in> set ?s" using s ls last_in_set by metis
    then have "?r \<noteq> []" using br by (auto simp: dropWhile_eq_Nil_conv)
    then obtain c cs where r: "?r = c # cs" by (meson neq_Nil_conv)
    have "last ?r = last s" using last_dropWhile [OF \<open>?r \<noteq> []\<close>] ls by simp
    with r br have "cs = [] \<or> last cs \<in> set newline" by auto
    then show ?thesis using rest r by (auto simp: safe_rest_def safe_text_def)
  next
    case cut
    obtain w1 t1 where 1: "?s = w1 @ t1" "set w1 \<subseteq> set w" "set t1 \<subseteq> set t"
      using dropWhile_append_word [of "\<lambda>c. c \<in> set newline" w t] cut(1) by metis
    obtain w2 t2 where 2: "?r = w2 @ t2" "set w2 \<subseteq> set w1" "set t2 \<subseteq> set t1"
      using dropWhile_append_word [of "\<lambda>c. c \<notin> set newline" w1 t1] 1(1) by metis
    have "\<not> starts_with ''STACK '' l"
      unfolding l 1(1) using cut(2,3) 1(2,3) by (intro cut_not_stack) auto
    moreover have "safe_rest extra rest"
    proof (cases ?r)
      case (Cons c cs)
      have "\<exists>w t. cs = w @ t \<and> (\<forall>c\<in>set w. c \<in> set kWhitespace) \<and> (\<forall>c\<in>set t. c \<notin> set kWhitespace)"
      proof (cases w2)
        case Nil
        with 1 2 Cons cut(3) show ?thesis by (intro exI [of _ "[]"] exI [of _ cs]) auto
      next
        case (Cons d ds)
        with 1 2 \<open>?r = c # cs\<close> cut(2,3) show ?thesis by (intro exI [of _ ds] exI [of _ t2]) auto
      qed
      then show ?thesis
        using rest unfolding Cons list.case safe_rest_def safe_text_def by simp
    next
      case Nil
      have "rest = (if extra then Some [] else None)" using rest unfolding Nil list.case .
      then show ?thesis by (simp add: safe_rest_def safe_text_def)
    qed
    ultimately show ?thesis by blast
  qed
qed

lemma ParseStackInfo_safe:
  assumes "module_ok m" and "rest \<noteq> None" and "safe_rest extra rest"
  shows "\<exists>ok rest' m'. ParseStackInfo l rest m = Some (ok, rest', m') \<and> safe_rest extra rest'"
proof -
  obtain s where rest: "rest = Some s" using assms(2) by blast
  have tok: "\<forall>c\<in>set t. c \<notin> set kWhitespace"
    if "strtok kWhitespace b = (Some t, r)" for b t r
    using strtok_is_token [OF that] by (auto simp: is_token_def list_all_iff)
  have cut: "safe_text extra (takeWhile (\<lambda>c. c \<in> set kWhitespace) b @
      (case strtok kWhitespace b of (None, _) \<Rightarrow> [] | (Some t, _) \<Rightarrow> t))" for b
  proof (rule safe_cut)
    obtain u r where st: "strtok kWhitespace b = (u, r)" by fastforce
    then show "\<forall>c\<in>set (case strtok kWhitespace b of (None, _) \<Rightarrow> [] | (Some t, _) \<Rightarrow> t).
        c \<notin> set kWhitespace"
      using tok [of b] by (cases u) auto
    show "\<forall>c\<in>set (takeWhile (\<lambda>c. c \<in> set kWhitespace) b). c \<in> set kWhitespace"
      by (auto dest: set_takeWhileD)
  qed
  have cfi: "\<exists>ok m'. ParseCFIFrameInfo b m = Some (ok, m')" for b
    using ParseCFIFrameInfo_runs [OF assms(1), of b] by auto
  let ?s = "dropWhile (\<lambda>c. c = CHR '' '') (drop 6 l)"
  let ?over = "dropWhile (\<lambda>c. c \<notin> set kWhitespace) ?s = []"
  let ?platform = "takeWhile (\<lambda>c. c \<notin> set kWhitespace) ?s"
  define body where "body = (if ?over then s else drop 1 (dropWhile (\<lambda>c. c \<notin> set kWhitespace) ?s))"
  have body: "(if ?over then rest else Some (drop 1 (dropWhile (\<lambda>c. c \<notin> set kWhitespace) ?s))) = Some body"
    by (simp add: body_def rest)
  obtain ok m' where c: "ParseCFIFrameInfo body m = Some (ok, m')" using cfi by blast
  note run = ParseStackInfo_def [of l rest m, unfolded Let_def body option.case]
  consider (win) "?platform = ''WIN''" | (cfi) "?platform \<noteq> ''WIN''" "?platform = ''CFI''"
    | (none) "?platform \<noteq> ''WIN''" "?platform \<noteq> ''CFI''" by blast
  then show ?thesis
  proof cases
    case win
    show ?thesis unfolding run if_P [OF win]
      using assms(3) by (cases "ParseFromString body") (auto split: prod.split)
  next
    case cfi
    show ?thesis unfolding run if_not_P [OF cfi(1)] if_P [OF cfi(2)] c
      using assms(3) cut [of body] by (auto simp: safe_rest_def)
  next
    case none
    show ?thesis unfolding run if_not_P [OF none(1)] if_not_P [OF none(2)] using assms(3) by blast
  qed
qed

lemma load_line_safe:
  assumes ok: "module_ok m" and cur: "\<forall>f. cur = Some f \<longrightarrow> f < length (function_objects m)"
    and safe: "safe_rest extra rest" and st: "rest \<noteq> None \<or> \<not> starts_with ''STACK '' l"
  shows "\<exists>rest' m' cur' errs'. load_line l rest m cur errs = Some (rest', m', cur', errs') \<and>
    safe_rest extra rest'"
proof -
  consider (stack) "\<not> starts_with ''FILE '' l" "starts_with ''STACK '' l"
    | (func) "\<not> starts_with ''FILE '' l" "\<not> starts_with ''STACK '' l" "starts_with ''FUNC '' l"
    | (line) "\<not> starts_with ''FILE '' l" "\<not> starts_with ''STACK '' l" "\<not> starts_with ''FUNC '' l"
        "\<not> starts_with ''PUBLIC '' l" "\<not> starts_with ''MODULE '' l" "\<not> starts_with ''INFO '' l"
    | (easy) "starts_with ''FILE '' l \<or> \<not> starts_with ''STACK '' l \<and> \<not> starts_with ''FUNC '' l \<and>
        (starts_with ''PUBLIC '' l \<or> starts_with ''MODULE '' l \<or> starts_with ''INFO '' l)" by blast
  then show ?thesis
  proof cases
    case stack
    with st obtain ok' rest' m' where "ParseStackInfo l rest m = Some (ok', rest', m')" "safe_rest extra rest'"
      using ParseStackInfo_safe [OF ok _ safe, of l] by blast
    with stack show ?thesis by (simp add: load_line_def)
  next
    case func
    have "exclusive_map (function_ranges m)" using ok by (simp add: module_ok_def)
    then have run: "\<exists>fs stored. StoreRange (function_ranges m) a z (length (function_objects m)) = Some (fs, stored)"
      for a z by (rule exclusive_store_runs)
    show ?thesis
    proof (cases "Module_ParseFunction l")
      case (Some f)
      with run [of "f_address f" "f_size f"] func safe show ?thesis by (auto simp: load_line_def)
    qed (use func safe in \<open>auto simp: load_line_def\<close>)
  next
    case line
    show ?thesis
    proof (cases cur)
      case (Some f)
      with cur have "f < length (function_objects m)" by simp
      with ok have "exclusive_map (f_lines (function_objects m ! f))" by (simp add: module_ok_def)
      then have run: "\<exists>ls stored. StoreRange (f_lines (function_objects m ! f)) a z e = Some (ls, stored)"
        for a z and e :: Line by (rule exclusive_store_runs)
      show ?thesis
      proof (cases "Module_ParseLine l")
        case (Some ln)
        with run [of "l_address ln" "l_size ln" ln] line safe \<open>cur = Some f\<close> show ?thesis
          by (auto simp: load_line_def)
      qed (use line safe \<open>cur = Some f\<close> in \<open>auto simp: load_line_def\<close>)
    qed (use line safe in \<open>auto simp: load_line_def\<close>)
  next
    case easy
    with safe show ?thesis by (auto simp: load_line_def split: prod.split)
  qed
qed

lemma load_lines_returns:
  assumes "module_ok m" and "\<forall>f. cur = Some f \<longrightarrow> f < length (function_objects m)"
    and "safe_rest extra rest"
  shows "load_lines extra rest m cur errs \<noteq> None"
  using assms
proof (induction extra rest m cur errs rule: load_lines.induct)
  case (1 extra rest m cur errs)
  show ?case
  proof (cases "\<exists>s l rest1. rest = Some s \<and> next_line extra s = Some (l, rest1)")
    case False
    then show ?thesis by (subst load_lines.simps) (auto split: option.split)
  next
    case True
    then obtain s l rest1 where s: "rest = Some s" and n: "next_line extra s = Some (l, rest1)" by blast
    have safe: "safe_rest extra rest1" "rest1 \<noteq> None \<or> \<not> starts_with ''STACK '' l"
      using next_line_safe [OF n] "1.prems"(3) s by (auto simp: safe_rest_def)
    obtain rest2 m2 cur2 errs2 where r: "load_line l rest1 m cur errs = Some (rest2, m2, cur2, errs2)"
      and safe2: "safe_rest extra rest2"
      using load_line_safe [OF "1.prems"(1,2) safe] by blast
    have ok: "module_ok m2" "\<forall>f. cur2 = Some f \<longrightarrow> f < length (function_objects m2)"
      using load_line_ok [OF "1.prems"(1,2) r] by auto
    have eq: "load_lines extra rest m cur errs =
        (if kMaxErrorsBeforeBailing < errs2 then Some (m2, errs2) else load_lines extra rest2 m2 cur2 errs2)"
      by (subst load_lines.simps) (simp add: s n r)
    show ?thesis
    proof (cases "kMaxErrorsBeforeBailing < errs2")
      case False
      from "1.IH" [OF s n refl r refl refl refl False ok safe2] False show ?thesis by (simp add: eq)
    qed (simp add: eq)
  qed
qed

lemma LoadMapFromMemory_terminated:
  assumes "module_ok m" and "s = [] \<or> last s = NUL \<or> last s \<in> set newline"
  shows "\<exists>m'. LoadMapFromMemory (s @ [NUL]) m = Some (True, m')"
proof -
  let ?body = "rev (dropWhile (\<lambda>c. c = NUL) (rev s))"
  let ?text = "map (\<lambda>c. if c = NUL then CHR ''_'' else c) ?body"
  let ?extra = "length ?body + 1 < length (s @ [NUL])"
  have len: "length (dropWhile (\<lambda>c. c = NUL) (rev s)) < length s" if "s \<noteq> []" "last s = NUL"
    using that length_dropWhile_le [of "\<lambda>c. c = NUL" "rev (butlast s)"]
    by (cases s rule: rev_cases) auto
  have "safe_text ?extra ?text"
  proof (cases "s = [] \<or> last s = NUL")
    case True
    then show ?thesis
    proof (cases "s = []")
      case False
      with True len have ?extra by simp
      then show ?thesis unfolding safe_text_def by (rule disjI1)
    qed (simp add: safe_text_def)
  next
    case False
    then have "?body = s" by (cases s rule: rev_cases) auto
    moreover have "last ?text \<in> set newline" if "?body = s"
      unfolding that using False assms(2) by (auto simp: last_map)
    ultimately show ?thesis by (simp add: safe_text_def)
  qed
  then have "safe_rest ?extra (Some ?text)" by (simp add: safe_rest_def)
  then obtain m1 errs where "load_lines ?extra (Some ?text) m None
      (if NUL \<in> set ?body then 1 else 0) = Some (m1, errs)"
    using load_lines_returns [OF assms(1), of None ?extra "Some ?text"] by fastforce
  then show ?thesis by (simp add: LoadMapFromMemory_def Let_def)
qed

text \<open>
  C13: Loading returns, with the result \<open>true\<close>, for every buffer whose text ends in a line
  break (or that ends in more than one terminator), whatever else it holds.
\<close>

theorem LoadMapFromMemory_returns:
  assumes "module_ok m" and "s = [] \<or> last s = NUL \<or> last s \<in> set newline"
  shows "\<exists>m'. LoadMapFromMemory (s @ [NUL]) m = Some (True, m')"
  using assms by (rule LoadMapFromMemory_terminated)

text \<open>
  C14: A \<open>STACK CFI\<close> line that ends right after the platform makes the parser read past
  the line.  At the end of the buffer that is out of bounds; otherwise the text behind the
  line is consumed: everything after its first token is dropped from the file.
\<close>

theorem load_line_overrun:
  assumes "is_token kWhitespace t" and "c \<in> set kWhitespace" and "t \<noteq> ''INIT''"
  shows "load_line ''STACK CFI'' None m cur errs = None \<and>
    (\<exists>m' errs'. load_line ''STACK CFI'' (Some (t @ c # behind)) m cur errs = Some (Some t, m', cur, errs'))"
proof -
  have tok: "strtok kWhitespace (t @ c # behind) = (Some t, behind)"
    using strtok_token [OF assms(1), of "c # behind"] assms(2) by simp
  have p: "ParseStackInfo ''STACK CFI'' rest m =
      (case rest of None \<Rightarrow> None | Some s \<Rightarrow> do {
         (ok, m') \<leftarrow> ParseCFIFrameInfo s m;
         Some (ok, Some (takeWhile (\<lambda>c. c \<in> set kWhitespace) s @
           (case strtok kWhitespace s of (None, _) \<Rightarrow> [] | (Some t, _) \<Rightarrow> t)), m') })" for rest
    by (simp add: ParseStackInfo_def kWhitespace_def cong: option.case_cong)
  have hd: "takeWhile (\<lambda>c. c \<in> set kWhitespace) (t @ c # behind) = []"
    using assms(1) by (cases t) (auto simp: is_token_def)
  have "\<exists>ok m'. ParseCFIFrameInfo (t @ c # behind) m = Some (ok, m')"
    using assms(3) by (auto simp: ParseCFIFrameInfo_def tok split: prod.split option.split)
  then show ?thesis
    by (auto simp: load_line_def starts_with_def p tok hd)
qed

subsection \<open>What the lookups find\<close>

lemma within_size:
  fixes a b high :: "'a::len word"
  assumes "b \<le> a" and "b \<le> high" and "high - b + 1 \<noteq> 0"
  shows "(a - b < high - b + 1) = (a \<le> high)"
proof -
  have "unat (high - b + 1) = unat (high - b) + 1"
    using assms(3) by (metis Suc_eq_plus1 add.commute unatSuc)
  moreover have "unat (a - b) = unat a - unat b" "unat (high - b) = unat high - unat b"
    using assms(1,2) by (simp_all add: unat_sub)
  moreover have "unat b \<le> unat a" "unat b \<le> unat high"
    using assms(1,2) by (simp_all add: word_le_nat_alt)
  ultimately show ?thesis by (auto simp: word_less_nat_alt word_le_nat_alt)
qed

lemma nearest_covers:
  assumes "exclusive_map m"
  shows "(case RetrieveNearestRange m a of
       None \<Rightarrow> None
     | Some (f, f_base, _, f_sz) \<Rightarrow>
         if f_base \<le> a \<and> a - f_base < f_sz then Some (f, f_base) else None) =
    map_option (\<lambda>p. (r_entry (snd p), r_base (snd p))) (range_of (rmap m) a)"
proof -
  have ok: "range_map_ok m" and ranges: "ranges_ok (rmap m)"
    using assms by (auto simp: exclusive_map_def range_map_ok_def)
  have fits: "(a - r_base (snd p) < fst p - r_base (snd p) + 1) = (a \<le> fst p)"
    if "p \<in> set (rmap m)" "r_base (snd p) \<le> a" for p
    using that assms ranges_okD [OF ranges that(1)] by (intro within_size) (auto simp: exclusive_map_def)
  show ?thesis
  proof (cases "range_of (rmap m) a")
    case (Some p)
    then have p: "p \<in> set (rmap m)" "r_base (snd p) \<le> a" "a \<le> fst p" by (auto dest: range_of_SomeD)
    have "RetrieveNearestRange m a = Some (range_outputs p)"
      using Some by (simp add: RetrieveNearestRange_def RetrieveRange_range_of [OF ok])
    with Some p fits [OF p(1,2)] show ?thesis by (simp add: range_outputs_def)
  next
    case None
    have "\<not> (b \<le> a \<and> a - b < z)" if near: "RetrieveNearestRange m a = Some (f, b, d, z)" for f b d z
    proof -
      obtain p where p: "p \<in> set (rmap m)" "(f, b, d, z) = range_outputs p" "r_base (snd p) \<le> a"
        using near unfolding RetrieveNearestRange_greatest [OF ok] by blast
      have "\<not> a \<le> fst p" using None p(1,3) by (auto simp: range_of_None)
      with p fits [OF p(1,3)] show ?thesis by (simp add: range_outputs_def)
    qed
    with None show ?thesis by (auto split: option.split)
  qed
qed

lemma nearest_bounds:
  assumes "exclusive_map m"
  shows "(case RetrieveNearestRange m a of None \<Rightarrow> True | Some (_, f_base, _, _) \<Rightarrow> f_base < c) =
    (\<forall>q\<in>set (rmap m). r_base (snd q) \<le> a \<longrightarrow> r_base (snd q) < c)"
proof -
  have ok: "range_map_ok m" and ranges: "ranges_ok (rmap m)"
    using assms by (auto simp: exclusive_map_def range_map_ok_def)
  let ?S = "{q \<in> set (rmap m). r_base (snd q) \<le> a}"
  show ?thesis
  proof (cases "?S = {}")
    case True
    have "RetrieveNearestRange m a = None"
    proof (cases "RetrieveNearestRange m a")
      case (Some out)
      then obtain p where "p \<in> set (rmap m)" "r_base (snd p) \<le> a"
        unfolding RetrieveNearestRange_greatest [OF ok] by blast
      then have "p \<in> ?S" by simp
      with True show ?thesis by blast
    qed simp
    with True show ?thesis by auto
  next
    case False
    then have "Max (fst ` ?S) \<in> fst ` ?S" by (intro Max_in) auto
    then obtain p where p: "p \<in> ?S" "fst p = Max (fst ` ?S)" by auto
    have max: "\<forall>q\<in>set (rmap m). r_base (snd q) \<le> a \<longrightarrow> fst q \<le> fst p"
      unfolding p(2) by (auto intro!: Max_ge)
    have near: "RetrieveNearestRange m a = Some (range_outputs p)"
      unfolding RetrieveNearestRange_greatest [OF ok] using p(1) max by blast
    have "r_base (snd q) \<le> r_base (snd p)" if q: "q \<in> ?S" for q
    proof (rule ccontr)
      assume less: "\<not> r_base (snd q) \<le> r_base (snd p)"
      have "r_base (snd q) \<le> fst q" using ranges_okD [OF ranges] q by simp
      moreover have "fst q \<le> fst p" using max q by simp
      ultimately have "range_of (rmap m) (r_base (snd q)) = Some p"
        using less p(1) by (auto simp: range_of_iff [OF ranges] intro: order_trans)
      moreover have "range_of (rmap m) (r_base (snd q)) = Some q"
        using q \<open>r_base (snd q) \<le> fst q\<close> by (simp add: range_of_iff [OF ranges])
      ultimately show False using less by simp
    qed
    with p(1) near show ?thesis by (auto simp: range_outputs_def intro: le_less_trans)
  qed
qed

lemma LookupAddress_ranges:
  assumes "module_ok m"
  shows "LookupAddress m base frame =
    (let a = instruction frame - base in
     case range_of (rmap (function_ranges m)) a of
       Some p \<Rightarrow>
         (let func = function_objects m ! r_entry (snd p);
              frame = frame\<lparr>function_name := f_name func, function_base := base + r_base (snd p)\<rparr> in
          case range_of (rmap (f_lines func)) a of
            None \<Rightarrow> frame
          | Some q \<Rightarrow>
              (case map_of (files m) (sint (source_file_id (r_entry (snd q)))) of
                 None \<Rightarrow> frame | Some file \<Rightarrow> frame\<lparr>source_file_name := file\<rparr>)
                \<lparr>source_line := line_number (r_entry (snd q)), source_line_base := base + r_base (snd q)\<rparr>)
     | None \<Rightarrow>
         (case Retrieve (public_symbols m) a of
            Some (symbol, public_address) \<Rightarrow>
              if \<forall>q\<in>set (rmap (function_ranges m)). r_base (snd q) \<le> a \<longrightarrow> r_base (snd q) < public_address
              then frame\<lparr>function_name := p_name symbol, function_base := base + public_address\<rparr>
              else frame
          | None \<Rightarrow> frame))"
proof -
  have fr: "exclusive_map (function_ranges m)" using assms by (simp add: module_ok_def)
  let ?a = "instruction frame - base"
  show ?thesis
  proof (cases "range_of (rmap (function_ranges m)) ?a")
    case None
    then show ?thesis
      unfolding LookupAddress_def Let_def nearest_covers [OF fr] nearest_bounds [OF fr] by simp
  next
    case (Some p)
    then have "r_entry (snd p) < length (function_objects m)"
      using assms by (auto dest!: range_of_SomeD simp: module_ok_def)
    then have "range_map_ok (f_lines (function_objects m ! r_entry (snd p)))"
      using assms by (simp add: module_ok_def exclusive_map_def)
    then show ?thesis
      using Some unfolding LookupAddress_def Let_def nearest_covers [OF fr]
      by (auto simp: RetrieveRange_range_of range_outputs_def split: option.split)
  qed
qed

text \<open>
  C15: \<open>LookupAddress\<close> names the function whose range covers the address, with the source
  line whose range covers it; when no function covers it, it names the last public symbol at
  or below the address, but only if no function starts between that symbol and the address.
\<close>

theorem LookupAddress_correct:
  assumes "module_ok m"
  shows "LookupAddress m base frame =
    (let a = instruction frame - base in
     case range_of (rmap (function_ranges m)) a of
       Some p \<Rightarrow>
         (let func = function_objects m ! r_entry (snd p);
              frame = frame\<lparr>function_name := f_name func, function_base := base + r_base (snd p)\<rparr> in
          case range_of (rmap (f_lines func)) a of
            None \<Rightarrow> frame
          | Some q \<Rightarrow>
              (case map_of (files m) (sint (source_file_id (r_entry (snd q)))) of
                 None \<Rightarrow> frame | Some file \<Rightarrow> frame\<lparr>source_file_name := file\<rparr>)
                \<lparr>source_line := line_number (r_entry (snd q)), source_line_base := base + r_base (snd q)\<rparr>)
     | None \<Rightarrow>
         (case Retrieve (public_symbols m) a of
            Some (symbol, public_address) \<Rightarrow>
              if \<forall>q\<in>set (rmap (function_ranges m)). r_base (snd q) \<le> a \<longrightarrow> r_base (snd q) < public_address
              then frame\<lparr>function_name := p_name symbol, function_base := base + public_address\<rparr>
              else frame
          | None \<Rightarrow> frame))"
  using assms by (rule LookupAddress_ranges)

lemma ordered_filter:
  assumes "ordered m"
  shows "filter (\<lambda>p. k \<le> fst p \<and> fst p \<le> a) m =
    takeWhile (\<lambda>p. fst p \<le> a) (drop (lower_bound m k) m)"
  using assms
proof (induction m)
  case Nil
  then show ?case by (simp add: lower_bound_def)
next
  case (Cons p m)
  have gt: "fst p < fst q" if "q \<in> set m" for q using Cons.prems that by simp
  show ?case
  proof (cases "fst p < k")
    case True
    then have "\<not> k \<le> fst p" by simp
    with True Cons show ?thesis by (simp add: lower_bound_def)
  next
    case False
    have all: "\<forall>q\<in>set m. k \<le> fst q" using False gt by (meson le_less_trans less_imp_le not_less)
    have "lower_bound m k = 0" using all by (cases m) (auto simp: lower_bound_def leD)
    with Cons have IH: "filter (\<lambda>p. k \<le> fst p \<and> fst p \<le> a) m = takeWhile (\<lambda>p. fst p \<le> a) m" by simp
    have "\<not> fst p \<le> a \<Longrightarrow> filter (\<lambda>p. k \<le> fst p \<and> fst p \<le> a) m = []"
      using gt by (fastforce simp: filter_empty_conv dest: less_le_trans)
    with IH False show ?thesis by (auto simp: lower_bound_def not_less)
  qed
qed

lemma apply_delta_fold:
  "apply_delta_rules a deltas rules =
     foldl (\<lambda>f (k, rule). snd (CFIRuleParser_Parse frame_info_handler rule f)) rules
       (takeWhile (\<lambda>p. fst p \<le> a) deltas)"
  by (induction deltas arbitrary: rules) auto

lemma FindCFIFrameInfo_deltas:
  assumes "module_ok m"
  shows "Module_FindCFIFrameInfo m a =
    (case range_of (rmap (cfi_initial_rules m)) a of
       None \<Rightarrow> None
     | Some p \<Rightarrow>
         (case CFIRuleParser_Parse frame_info_handler (r_entry (snd p)) empty_cfi of (ok, rules) \<Rightarrow>
            if \<not> ok then None
            else Some (foldl (\<lambda>f (k, rule). snd (CFIRuleParser_Parse frame_info_handler rule f)) rules
              (filter (\<lambda>d. r_base (snd p) \<le> fst d \<and> fst d \<le> a) (cfi_delta_rules m)))))"
proof -
  have ok: "range_map_ok (cfi_initial_rules m)" and o: "ordered (cfi_delta_rules m)"
    using assms by (auto simp: module_ok_def exclusive_map_def)
  show ?thesis
    unfolding Module_FindCFIFrameInfo_def RetrieveRange_range_of [OF ok] ordered_filter [OF o] apply_delta_fold
    by (simp add: range_outputs_def split: option.split)
qed

text \<open>
  C16: \<open>FindCFIFrameInfo\<close> yields the rules of the \<open>STACK CFI INIT\<close> record whose range
  covers the address, changed by exactly the delta records between the start of that range
  and the address, in the order of their addresses.
\<close>

theorem FindCFIFrameInfo_correct:
  assumes "module_ok m"
  shows "Module_FindCFIFrameInfo m a =
    (case range_of (rmap (cfi_initial_rules m)) a of
       None \<Rightarrow> None
     | Some p \<Rightarrow>
         (case CFIRuleParser_Parse frame_info_handler (r_entry (snd p)) empty_cfi of (ok, rules) \<Rightarrow>
            if \<not> ok then None
            else Some (foldl (\<lambda>f (k, rule). snd (CFIRuleParser_Parse frame_info_handler rule f)) rules
              (filter (\<lambda>d. r_base (snd p) \<le> fst d \<and> fst d \<le> a) (cfi_delta_rules m)))))"
  using assms by (rule FindCFIFrameInfo_deltas)

subsection \<open>A sample file\<close>

definition sample_symbols :: string where
  "sample_symbols = ''FILE 0 a.c'' @ CHR 0x0A # ''FUNC 1000 10 0 main'' @ CHR 0x0A #
     ''1000 4 7 0'' @ CHR 0x0A # ''PUBLIC 2000 0 end'' @ CHR 0x0A #
     ''STACK CFI INIT 1000 10 .cfa: $rsp 8 +'' @ CHR 0x0A # ''STACK CFI 1001 .cfa: $rsp 16 +'' @ [CHR 0x0A]"

definition sample_module :: Module where
  "sample_module = new_Module\<lparr>files := [(0, ''a.c'')],
     function_objects := [\<lparr>f_name = ''main'', f_address = 0x1000, f_size = 0x10, f_parameter_size = 0,
       f_is_multiple = False, f_lines = \<lparr>merge_strategy = kExclusiveRanges, rmap = [(0x1003,
         \<lparr>r_base = 0x1000, r_delta = 0,
          r_entry = \<lparr>l_address = 0x1000, l_size = 4, source_file_id = 0, line_number = 7\<rparr>\<rparr>)]\<rparr>\<rparr>],
     function_ranges := \<lparr>merge_strategy = kExclusiveRanges,
       rmap = [(0x100F, \<lparr>r_base = 0x1000, r_delta = 0, r_entry = 0\<rparr>)]\<rparr>,
     public_symbols := [(0x2000,
       \<lparr>p_name = ''end'', p_address = 0x2000, p_parameter_size = 0, p_is_multiple = False\<rparr>)],
     cfi_initial_rules := \<lparr>merge_strategy = kExclusiveRanges,
       rmap = [(0x100F, \<lparr>r_base = 0x1000, r_delta = 0, r_entry = ''.cfa: $rsp 8 +''\<rparr>)]\<rparr>,
     cfi_delta_rules := [(0x1001, ''.cfa: $rsp 16 +'')]\<rparr>"

lemmas load_eval = load_lines.simps next_line_def load_line_def starts_with_def Module_ParseFile_def
  Module_ParseFunction_def Module_ParseLine_def Module_ParsePublicSymbol_def ParseStackInfo_def
  ParseCFIFrameInfo_def Helper_ParseFile_def Helper_ParseFunction_def Helper_ParseLine_def
  Helper_ParsePublicSymbol_def Tokenize_def tokenize_loop.simps TokenizeWithOptionalField_def
  strtok_def kWhitespace_def number_eval text_eval new_Module_def kMaxErrorsBeforeBailing_def
  StoreRange_def StoreRangeInternal.simps empty_range_map_def Store_def lower_bound_def Let_def
  IsValidAfterNumber_def

abbreviation sample_function :: "(u64, Line) range_map \<Rightarrow> Function" where
  "sample_function lines \<equiv> \<lparr>f_name = ''main'', f_address = 0x1000, f_size = 0x10,
     f_parameter_size = 0, f_is_multiple = False, f_lines = lines\<rparr>"

definition sample_steps :: "Module list" where
  "sample_steps =
     (let m1 = new_Module\<lparr>files := [(0, ''a.c'')]\<rparr>;
          m2 = m1\<lparr>function_objects := [sample_function empty_range_map],
                 function_ranges := function_ranges sample_module\<rparr>;
          m3 = m2\<lparr>function_objects := function_objects sample_module\<rparr>;
          m4 = m3\<lparr>public_symbols := public_symbols sample_module\<rparr>;
          m5 = m4\<lparr>cfi_initial_rules := cfi_initial_rules sample_module\<rparr>
      in [new_Module, m1, m2, m3, m4, m5])"

lemma sample_lines:
  "load_line ''FILE 0 a.c'' rest (sample_steps ! 0) None 0 = Some (rest, sample_steps ! 1, None, 0)"
  "load_line ''FUNC 1000 10 0 main'' rest (sample_steps ! 1) None 0 =
     Some (rest, sample_steps ! 2, Some 0, 0)"
  "load_line ''1000 4 7 0'' rest (sample_steps ! 2) (Some 0) 0 = Some (rest, sample_steps ! 3, Some 0, 0)"
  "load_line ''PUBLIC 2000 0 end'' rest (sample_steps ! 3) (Some 0) 0 =
     Some (rest, sample_steps ! 4, None, 0)"
  "load_line ''STACK CFI INIT 1000 10 .cfa: $rsp 8 +'' rest (sample_steps ! 4) None 0 =
     Some (rest, sample_steps ! 5, None, 0)"
  "load_line ''STACK CFI 1001 .cfa: $rsp 16 +'' rest (sample_steps ! 5) None 0 =
     Some (rest, sample_module, None, 0)"
  by (simp_all add: load_eval int_of_long_def sample_steps_def sample_module_def)

lemma sample_load: "LoadMapFromMemory (sample_symbols @ [NUL]) new_Module = Some (True, sample_module)"
proof -
  have tokens: "is_token newline ''FILE 0 a.c''" "is_token newline ''FUNC 1000 10 0 main''"
    "is_token newline ''1000 4 7 0''" "is_token newline ''PUBLIC 2000 0 end''"
    "is_token newline ''STACK CFI INIT 1000 10 .cfa: $rsp 8 +''"
    "is_token newline ''STACK CFI 1001 .cfa: $rsp 16 +''"
    by (simp_all add: is_token_def)
  have "load_lines False (Some sample_symbols) (sample_steps ! 0) None 0 =
      load_lines False (Some []) sample_module None 0"
    by (simp only: sample_symbols_def load_lines_step [OF tokens(1) sample_lines(1)] load_lines_step [OF tokens(2) sample_lines(2)]
        load_lines_step [OF tokens(3) sample_lines(3)] load_lines_step [OF tokens(4) sample_lines(4)]
        load_lines_step [OF tokens(5) sample_lines(5)] load_lines_step [OF tokens(6) sample_lines(6)]
        kMaxErrorsBeforeBailing_def le0)
  also have "\<dots> = Some (sample_module, 0)"
    by (simp add: load_lines.simps [of _ "Some []"] next_line_def)
  finally have "load_lines False (Some sample_symbols) new_Module None 0 = Some (sample_module, 0)"
    by (simp add: sample_steps_def Let_def)
  then show ?thesis
    by (simp add: LoadMapFromMemory_def) (simp add: sample_symbols_def sample_module_def new_Module_def)
qed

lemma sample_module_ok: "module_ok sample_module"
  using LoadMapFromMemory_invariant [OF module_ok_new sample_load] by simp

theorem LoadMapFromMemory_ok_witness: "True \<and> module_ok sample_module"
  by (rule LoadMapFromMemory_ok [OF module_ok_new sample_load])

theorem LoadMapFromMemory_returns_witness:
  "\<exists>m'. LoadMapFromMemory (''STACK CFI'' @ [CHR 0x0A] @ [NUL]) new_Module = Some (True, m')"
  using LoadMapFromMemory_returns [OF module_ok_new, of "''STACK CFI'' @ [CHR 0x0A]"] by simp

theorem load_line_overrun_witness:
  "\<exists>m' errs'. load_line ''STACK CFI'' (Some (''FUNC 1 2 3 f'')) new_Module None 0 =
     Some (Some ''FUNC'', m', None, errs')"
  using load_line_overrun [of "''FUNC''" "CHR '' ''" new_Module None 0 "''1 2 3 f''"]
  by (simp add: is_token_def kWhitespace_def)

theorem LookupAddress_correct_witness:
  "LookupAddress sample_module 0x400000 (new_StackFrame\<lparr>instruction := 0x401002\<rparr>) =
     new_StackFrame\<lparr>instruction := 0x401002, function_name := ''main'', function_base := 0x401000,
       source_file_name := ''a.c'', source_line := 7, source_line_base := 0x401000\<rparr>"
  unfolding LookupAddress_correct [OF sample_module_ok]
  by (simp add: sample_module_def new_StackFrame_def)

theorem FindCFIFrameInfo_correct_witness:
  "Module_FindCFIFrameInfo sample_module 0x1001 =
     Some (empty_cfi\<lparr>cfa_rule := ''$rsp 16 +''\<rparr>)"
  unfolding FindCFIFrameInfo_correct [OF sample_module_ok]
  by (simp add: sample_module_def CFIRuleParser_Parse_def strtok_all.simps strtok_def
      token_breaks_def Report_def SetCFARule_def empty_cfi_def)

end
