(* ===== verification/Symbol_File.thy ===== *)
theory Symbol_File
  imports Basic_Resolver
begin

text \<open>
  What a symbol file means: the text that a list of functions with their lines is written as,
  and the answers \<open>LookupAddress\<close> gives after that text was loaded.
\<close>

record line_spec =
  ls_address :: u64
  ls_size :: u64
  ls_line :: nat
  ls_file :: nat

record func_spec =
  fs_multiple :: bool
  fs_address :: u64
  fs_size :: u64
  fs_params :: nat
  fs_name :: string
  fs_lines :: "line_spec list"

definition line_block :: "line_spec \<Rightarrow> string" where
  "line_block l = line_text (ls_address l) (ls_size l) (ls_line l) (ls_file l) @ [CHR 0x0A]"

definition func_block :: "func_spec \<Rightarrow> string" where
  "func_block f = func_text (fs_multiple f) (fs_address f) (fs_size f) (fs_params f) (fs_name f) @
     CHR 0x0A # concat (map line_block (fs_lines f))"

definition symbol_text :: "func_spec list \<Rightarrow> string" where
  "symbol_text fs = concat (map func_block fs)"

definition covers :: "u64 \<Rightarrow> u64 \<Rightarrow> u64 \<Rightarrow> bool" where
  "covers base sz a = (base \<le> a \<and> a \<le> base + (sz - 1))"

definition range_fits :: "u64 \<Rightarrow> u64 \<Rightarrow> bool" where
  "range_fits base sz = (sz \<noteq> 0 \<and> base \<le> base + (sz - 1))"

definition apart :: "u64 \<times> u64 \<Rightarrow> u64 \<times> u64 \<Rightarrow> bool" where
  "apart r s = (fst r + (snd r - 1) < fst s \<or> fst s + (snd s - 1) < fst r)"

definition line_spec_ok :: "line_spec \<Rightarrow> bool" where
  "line_spec_ok l = (range_fits (ls_address l) (ls_size l) \<and> ls_address l \<noteq> - 1 \<and> ls_size l \<noteq> - 1 \<and>
     int (ls_line l) < LONG_MAX \<and> int (ls_file l) < LONG_MAX)"

definition func_spec_ok :: "func_spec \<Rightarrow> bool" where
  "func_spec_ok f = (range_fits (fs_address f) (fs_size f) \<and> fs_address f \<noteq> - 1 \<and> fs_size f \<noteq> - 1 \<and>
     int (fs_params f) < LONG_MAX \<and> is_token newline (fs_name f) \<and> NUL \<notin> set (fs_name f) \<and>
     (\<forall>l\<in>set (fs_lines f). line_spec_ok l) \<and>
     sorted_wrt apart (map (\<lambda>l. (ls_address l, ls_size l)) (fs_lines f)))"

definition symbol_spec_ok :: "func_spec list \<Rightarrow> bool" where
  "symbol_spec_ok fs = ((\<forall>f\<in>set fs. func_spec_ok f) \<and>
     sorted_wrt apart (map (\<lambda>f. (fs_address f, fs_size f)) fs))"

subsection \<open>Stores of ranges that are apart\<close>

definition range_entry :: "u64 \<Rightarrow> u64 \<Rightarrow> 'e \<Rightarrow> u64 \<times> (u64, 'e) Range" where
  "range_entry base sz e = (base + (sz - 1), \<lparr>r_base = base, r_delta = 0, r_entry = e\<rparr>)"

lemma store_apart:
  assumes "exclusive_map m" and "range_fits base sz"
    and apart: "\<forall>p\<in>set (rmap m). fst p < base \<or> base + (sz - 1) < r_base (snd p)"
  shows "\<exists>m'. StoreRange m base sz e = Some (m', True) \<and> exclusive_map m' \<and>
    set (rmap m') = insert (range_entry base sz e) (set (rmap m))"
proof -
  have ok: "range_map_ok m" "merge_strategy m = kExclusiveRanges" using assms(1) by (auto simp: exclusive_map_def)
  have v: "sz \<noteq> 0" "base \<le> base + (sz - 1)" using assms(2) by (auto simp: range_fits_def)
  obtain m' stored where run: "StoreRange m base sz e = Some (m', stored)" "range_map_ok m'"
      "merge_strategy m' = kExclusiveRanges"
    and m': "stored \<Longrightarrow> set (rmap m') = insert (range_entry base sz e) (set (rmap m))"
    using store_exclusive_run [OF ok, of base sz e] by (auto simp: range_entry_def split: if_split_asm)
  have "offset_at m a = None" if "base \<le> a" "a \<le> base + (sz - 1)" for a
  proof -
    have "range_of (rmap m) a = None"
      unfolding range_of_None
    proof
      fix p assume "p \<in> set (rmap m)"
      with apart have "fst p < base \<or> base + (sz - 1) < r_base (snd p)" by blast
      then show "\<not> (r_base (snd p) \<le> a \<and> a \<le> fst p)" using that by auto
    qed
    then show ?thesis by (simp add: offset_at_range_of [OF ok(1)])
  qed
  then have stored using store_exclusive_effect(1) [OF ok v run(1)] by simp
  moreover have "fst (range_entry base sz e) - r_base (snd (range_entry base sz e)) + 1 \<noteq> 0"
    using v by (simp add: range_entry_def)
  ultimately show ?thesis using run m' assms(1) by (auto simp: exclusive_map_def)
qed

subsection \<open>One line of text\<close>

definition line_object :: "line_spec \<Rightarrow> Line" where
  "line_object l = \<lparr>l_address = ls_address l, l_size = ls_size l,
     source_file_id = of_nat (ls_file l), line_number = of_nat (ls_line l)\<rparr>"

lemma hex_head: "\<exists>c cs. hex n = c # cs \<and> is_digit 16 c"
proof -
  have "is_token [] (hex n)" by (rule hex_token) simp
  then obtain c cs where "hex n = c # cs" by (cases "hex n") (auto simp: is_token_def)
  moreover from this have "is_digit 16 c" using digits_of_digits [of 16 c n] by (simp add: hex_def)
  ultimately show ?thesis by blast
qed

lemma line_text_head: "\<exists>c cs. line_text a s l f = c # cs \<and> is_digit 16 c"
  using hex_head [of "unat a"] by (auto simp: line_text_def)

lemma digits_of_chars:
  "1 < base \<Longrightarrow> base \<le> 16 \<Longrightarrow> c \<in> set (digits_of base n) \<Longrightarrow> \<exists>k<16. c = digit_char k"
proof (induction base n rule: digits_of.induct)
  case (1 base n)
  have "n mod base < base" using 1(2) by simp
  with 1(3) have "n mod base < 16" by (rule less_le_trans [rotated])
  then show ?case
    using 1 by (cases "n < base") (auto simp: digits_of.simps [of base n] dest: less_le_trans)
qed

lemma hex_lower: "c \<in> set (hex n) \<Longrightarrow> c \<noteq> CHR ''F''"
proof -
  assume "c \<in> set (hex n)"
  then obtain k where k: "k < 16" "c = digit_char k" using digits_of_chars [of 16 c n] by (auto simp: hex_def)
  have "of_char (digit_char k) \<noteq> (70 :: nat)" using k(1) by (simp add: digit_char_def take_bit_eq_mod)
  then show ?thesis using k(2) by auto
qed

lemma line_not_keyword:
  "\<not> starts_with ''FILE '' (line_text a s l f)" "\<not> starts_with ''STACK '' (line_text a s l f)"
  "\<not> starts_with ''FUNC '' (line_text a s l f)" "\<not> starts_with ''PUBLIC '' (line_text a s l f)"
  "\<not> starts_with ''MODULE '' (line_text a s l f)" "\<not> starts_with ''INFO '' (line_text a s l f)"
proof -
  have F: "is_digit 16 c \<Longrightarrow> c \<noteq> CHR ''S'' \<and> c \<noteq> CHR ''P'' \<and> c \<noteq> CHR ''M'' \<and> c \<noteq> CHR ''I''" for c
    by (auto simp: is_digit_def digit_value_def Let_def)
  obtain c cs where t: "line_text a s l f = c # cs" and d: "is_digit 16 c" using line_text_head by blast
  show "\<not> starts_with ''STACK '' (line_text a s l f)" "\<not> starts_with ''PUBLIC '' (line_text a s l f)"
    "\<not> starts_with ''MODULE '' (line_text a s l f)" "\<not> starts_with ''INFO '' (line_text a s l f)"
    using F [OF d] by (simp_all add: t starts_with_def)
  have lower: "is_digit 16 c \<Longrightarrow> hex n = c # cs \<Longrightarrow> c \<noteq> CHR ''F''" for c cs n
    using hex_lower [of c n] by auto
  obtain c' cs' where h: "hex (unat a) = c' # cs'" "c' \<noteq> CHR ''F''"
    using hex_head [of "unat a"] lower by blast
  show "\<not> starts_with ''FILE '' (line_text a s l f)" "\<not> starts_with ''FUNC '' (line_text a s l f)"
    using h by (simp_all add: line_text_def starts_with_def)
qed

lemma token_join:
  "is_token newline f \<Longrightarrow> is_token newline g \<Longrightarrow> is_token newline (f @ CHR '' '' # g)"
  by (simp add: is_token_def)

lemma hex_newline [simp]: "is_token newline (hex n)"
  by (rule hex_token) (simp add: is_digit_def digit_value_def)

lemma decimal_newline [simp]: "is_token newline (digits_of 10 n)"
proof -
  have "digits_of 10 n \<noteq> []" by (simp add: digits_of.simps)
  moreover have "c \<in> set (digits_of 10 n) \<Longrightarrow> c \<notin> set newline" for c
    using digits_of_digits [of 10 c n] by (auto simp: is_digit_def digit_value_def)
  ultimately show ?thesis by (auto simp: is_token_def list_all_iff)
qed

lemma line_text_token: "is_token newline (line_text a s l f)"
  by (simp add: line_text_def token_join)

lemma func_text_token: "is_token newline name \<Longrightarrow> is_token newline (func_text mu a s p name)"
proof -
  assume "is_token newline name"
  then have "is_token newline (join_fields (CHR '' '') (func_fields mu @ [hex (unat a), hex (unat s), hex p, name]))"
    using token_join [of "''m''"] by (simp add: func_fields_def token_join is_token_def [of _ "''m''"])
  then show ?thesis by (simp add: func_text_def is_token_def)
qed

subsection \<open>The records of one function\<close>

definition line_range :: "line_spec \<Rightarrow> u64 \<times> (u64, Line) Range" where
  "line_range l = range_entry (ls_address l) (ls_size l) (line_object l)"

lemma Module_ParseLine_text:
  assumes "line_spec_ok l"
  shows "Module_ParseLine (line_text (ls_address l) (ls_size l) (ls_line l) (ls_file l)) = Some (line_object l)"
proof -
  have "is_token newline ''x''" by (simp add: is_token_def)
  with assms ParseRecords_roundtrip [of "ls_address l" "ls_size l" 0 "''x''" "ls_line l" "ls_file l"]
  show ?thesis by (simp add: Module_ParseLine_def line_spec_ok_def line_object_def LONG_MAX_def)
qed

lemma load_line_line:
  assumes "module_ok m" and "f < length (function_objects m)" and "line_spec_ok l"
    and "\<forall>p\<in>set (rmap (f_lines (function_objects m ! f))).
      fst p < ls_address l \<or> ls_address l + (ls_size l - 1) < r_base (snd p)"
  shows "\<exists>ls. load_line (line_text (ls_address l) (ls_size l) (ls_line l) (ls_file l)) rest m (Some f) errs =
      Some (rest, m\<lparr>function_objects := (function_objects m)
        [f := (function_objects m ! f)\<lparr>f_lines := ls\<rparr>]\<rparr>, Some f, errs) \<and>
    exclusive_map ls \<and>
    set (rmap ls) = insert (line_range l) (set (rmap (f_lines (function_objects m ! f))))"
proof -
  have "exclusive_map (f_lines (function_objects m ! f))" and "range_fits (ls_address l) (ls_size l)"
    using assms(1-3) by (auto simp: module_ok_def line_spec_ok_def)
  from store_apart [OF this assms(4), of "line_object l"]
  obtain ls where "StoreRange (f_lines (function_objects m ! f)) (ls_address l) (ls_size l) (line_object l) =
      Some (ls, True)" "exclusive_map ls"
    "set (rmap ls) = insert (line_range l) (set (rmap (f_lines (function_objects m ! f))))"
    by (auto simp: line_range_def)
  moreover have "l_address (line_object l) = ls_address l" "l_size (line_object l) = ls_size l"
    by (simp_all add: line_object_def)
  ultimately show ?thesis
    unfolding load_line_def
    by (intro exI [of _ ls]) (simp add: line_not_keyword Module_ParseLine_text [OF assms(3)])
qed

abbreviation set_lines :: "nat \<Rightarrow> (u64, Line) range_map \<Rightarrow> Module \<Rightarrow> Module" where
  "set_lines f ls m \<equiv> m\<lparr>function_objects := (function_objects m)
     [f := (function_objects m ! f)\<lparr>f_lines := ls\<rparr>]\<rparr>"

lemma module_ok_set_lines:
  "module_ok m \<Longrightarrow> exclusive_map ls \<Longrightarrow> module_ok (set_lines f ls m)"
  by (auto simp: module_ok_def dest!: set_update_subset_insert [THEN subsetD])

lemma load_line_blocks:
  assumes "module_ok m" and "f < length (function_objects m)"
    and "\<forall>l\<in>set lines. line_spec_ok l"
    and "sorted_wrt apart (map (\<lambda>l. (ls_address l, ls_size l)) lines)"
    and "\<forall>l\<in>set lines. \<forall>p\<in>set (rmap (f_lines (function_objects m ! f))).
      fst p < ls_address l \<or> ls_address l + (ls_size l - 1) < r_base (snd p)"
  shows "\<exists>ls. load_lines extra (Some (concat (map line_block lines) @ rest)) m (Some f) 0 =
      load_lines extra (Some rest) (set_lines f ls m) (Some f) 0 \<and>
    exclusive_map ls \<and>
    set (rmap ls) = line_range ` set lines \<union> set (rmap (f_lines (function_objects m ! f)))"
  using assms
proof (induction lines arbitrary: m)
  case Nil
  then have "set_lines f (f_lines (function_objects m ! f)) m = m" by simp
  with Nil show ?case by (intro exI [of _ "f_lines (function_objects m ! f)"]) (auto simp: module_ok_def)
next
  case (Cons l lines)
  have near: "\<forall>p\<in>set (rmap (f_lines (function_objects m ! f))).
      fst p < ls_address l \<or> ls_address l + (ls_size l - 1) < r_base (snd p)"
    and l: "line_spec_ok l" using Cons.prems by auto
  let ?rest = "concat (map line_block lines) @ rest"
  obtain ls1 where one: "load_line (line_text (ls_address l) (ls_size l) (ls_line l) (ls_file l))
        (Some ?rest) m (Some f) 0 = Some (Some ?rest, set_lines f ls1 m, Some f, 0)"
    and ls1: "exclusive_map ls1"
      "set (rmap ls1) = insert (line_range l) (set (rmap (f_lines (function_objects m ! f))))"
    using load_line_line [OF Cons.prems(1,2) l near] by blast
  let ?m = "set_lines f ls1 m"
  have first: "load_lines extra (Some (concat (map line_block (l # lines)) @ rest)) m (Some f) 0 =
      load_lines extra (Some ?rest) ?m (Some f) 0"
    using load_lines_step [OF line_text_token one, of extra] by (simp add: line_block_def)
  have sub: "f_lines (function_objects ?m ! f) = ls1" using Cons.prems(2) by simp
  have apart: "\<forall>k\<in>set lines. \<forall>p\<in>set (rmap (f_lines (function_objects ?m ! f))).
      fst p < ls_address k \<or> ls_address k + (ls_size k - 1) < r_base (snd p)"
    using Cons.prems(4,5) unfolding sub ls1(2)
    by (auto simp: line_range_def range_entry_def apart_def)
  have "module_ok ?m" using module_ok_set_lines [OF Cons.prems(1) ls1(1)] .
  moreover have "f < length (function_objects ?m)" using Cons.prems(2) by simp
  ultimately obtain ls where "load_lines extra (Some ?rest) ?m (Some f) 0 =
      load_lines extra (Some rest) (set_lines f ls ?m) (Some f) 0" "exclusive_map ls"
    "set (rmap ls) = line_range ` set lines \<union> set (rmap (f_lines (function_objects ?m ! f)))"
    using Cons.IH [OF _ _ _ _ apart] Cons.prems(3,4) by auto
  moreover have "set_lines f ls ?m = set_lines f ls m" using Cons.prems(2) by simp
  ultimately show ?case using first sub ls1(2) by auto
qed

subsection \<open>The functions of a file\<close>

definition spec_object :: "func_spec \<Rightarrow> Function \<Rightarrow> bool" where
  "spec_object s f = (f_name f = fs_name s \<and> f_address f = fs_address s \<and> f_size f = fs_size s \<and>
     f_parameter_size f = of_nat (fs_params s) \<and> f_is_multiple f = fs_multiple s \<and>
     set (rmap (f_lines f)) = line_range ` set (fs_lines s))"

definition func_range :: "nat \<Rightarrow> func_spec \<Rightarrow> u64 \<times> (u64, nat) Range" where
  "func_range i s = range_entry (fs_address s) (fs_size s) i"

text \<open>What functions and lines leave as it is.\<close>

abbreviation rest_of_module ::
  "Module \<Rightarrow> (int, string) smap \<times> (u64, PublicSymbol) address_map \<times> (u64, string) range_map \<times> (u64, string) smap"
where
  "rest_of_module m \<equiv> (files m, public_symbols m, cfi_initial_rules m, cfi_delta_rules m)"

lemma load_line_func:
  assumes "module_ok m" and "func_spec_ok s"
    and apart: "\<forall>p\<in>set (rmap (function_ranges m)).
      fst p < fs_address s \<or> fs_address s + (fs_size s - 1) < r_base (snd p)"
    and f: "f = \<lparr>f_name = fs_name s, f_address = fs_address s, f_size = fs_size s,
      f_parameter_size = of_nat (fs_params s), f_is_multiple = fs_multiple s, f_lines = empty_range_map\<rparr>"
  shows "\<exists>m'. load_line (func_text (fs_multiple s) (fs_address s) (fs_size s) (fs_params s) (fs_name s))
      rest m cur errs = Some (rest, m', Some (length (function_objects m)), errs) \<and>
    function_objects m' = function_objects m @ [f] \<and> rest_of_module m' = rest_of_module m \<and>
    set (rmap (function_ranges m')) =
      insert (func_range (length (function_objects m)) s) (set (rmap (function_ranges m)))"
proof -
  let ?t = "func_text (fs_multiple s) (fs_address s) (fs_size s) (fs_params s) (fs_name s)"
  have kw: "starts_with ''FUNC '' ?t" "\<not> starts_with ''FILE '' ?t" "\<not> starts_with ''STACK '' ?t"
    by (simp_all add: starts_with_def func_text_def)
  have parse: "Module_ParseFunction ?t = Some f"
    using assms(2) ParseFunction_roundtrip [of "fs_address s" "fs_size s" "fs_params s" "fs_name s" "fs_multiple s"]
    by (simp add: Module_ParseFunction_def func_spec_ok_def f)
  have "exclusive_map (function_ranges m)" "range_fits (fs_address s) (fs_size s)"
    using assms(1,2) by (auto simp: module_ok_def func_spec_ok_def)
  from store_apart [OF this apart, of "length (function_objects m)"] obtain fr where
    "StoreRange (function_ranges m) (fs_address s) (fs_size s) (length (function_objects m)) = Some (fr, True)"
    "set (rmap fr) = insert (func_range (length (function_objects m)) s) (set (rmap (function_ranges m)))"
    by (auto simp: func_range_def)
  then show ?thesis
    unfolding load_line_def by (simp add: kw parse) (simp add: f)
qed

lemma load_func_block:
  assumes ok: "module_ok m" and cur: "\<forall>f. cur = Some f \<longrightarrow> f < length (function_objects m)"
    and s: "func_spec_ok s"
    and apart: "\<forall>p\<in>set (rmap (function_ranges m)).
      fst p < fs_address s \<or> fs_address s + (fs_size s - 1) < r_base (snd p)"
  shows "\<exists>m' cur'. load_lines extra (Some (func_block s @ rest)) m cur 0 =
      load_lines extra (Some rest) m' cur' 0 \<and> module_ok m' \<and>
    (\<forall>f. cur' = Some f \<longrightarrow> f < length (function_objects m')) \<and>
    (\<exists>f. function_objects m' = function_objects m @ [f] \<and> spec_object s f) \<and>
    rest_of_module m' = rest_of_module m \<and>
    set (rmap (function_ranges m')) =
      insert (func_range (length (function_objects m)) s) (set (rmap (function_ranges m)))"
proof -
  let ?t = "func_text (fs_multiple s) (fs_address s) (fs_size s) (fs_params s) (fs_name s)"
  let ?n = "length (function_objects m)"
  let ?rest = "concat (map line_block (fs_lines s)) @ rest"
  define f where f: "f = \<lparr>f_name = fs_name s, f_address = fs_address s, f_size = fs_size s,
      f_parameter_size = of_nat (fs_params s), f_is_multiple = fs_multiple s, f_lines = empty_range_map\<rparr>"
  obtain m1 where one: "load_line ?t (Some ?rest) m cur 0 = Some (Some ?rest, m1, Some ?n, 0)"
    and others: "rest_of_module m1 = rest_of_module m"
    and m1: "function_objects m1 = function_objects m @ [f]"
      "set (rmap (function_ranges m1)) = insert (func_range ?n s) (set (rmap (function_ranges m)))"
    using load_line_func [OF ok s apart f, of "Some ?rest" cur 0] by blast
  have tok: "is_token newline ?t" using s by (intro func_text_token) (simp add: func_spec_ok_def)
  have first: "load_lines extra (Some (func_block s @ rest)) m cur 0 = load_lines extra (Some ?rest) m1 (Some ?n) 0"
    using load_lines_step [OF tok one, of extra] by (simp add: func_block_def)
  have ok1: "module_ok m1" using load_line_ok [OF ok cur one] by simp
  obtain ls where second: "load_lines extra (Some ?rest) m1 (Some ?n) 0 =
      load_lines extra (Some rest) (set_lines ?n ls m1) (Some ?n) 0"
    and ls: "exclusive_map ls" "set (rmap ls) = line_range ` set (fs_lines s)"
    using load_line_blocks [OF ok1, of ?n "fs_lines s" extra rest] s
    by (auto simp: m1(1) f func_spec_ok_def empty_range_map_def)
  show ?thesis
  proof (intro exI conjI)
    show "load_lines extra (Some (func_block s @ rest)) m cur 0 =
        load_lines extra (Some rest) (set_lines ?n ls m1) (Some ?n) 0"
      using first second by (rule trans)
    show "module_ok (set_lines ?n ls m1)" by (rule module_ok_set_lines [OF ok1 ls(1)])
    show "\<forall>f. Some ?n = Some f \<longrightarrow> f < length (function_objects (set_lines ?n ls m1))"
      by (simp add: m1(1))
    show "function_objects (set_lines ?n ls m1) = function_objects m @ [f\<lparr>f_lines := ls\<rparr>]"
      by (simp add: m1(1))
    show "spec_object s (f\<lparr>f_lines := ls\<rparr>)" by (simp add: f spec_object_def ls(2))
    show "rest_of_module (set_lines ?n ls m1) = rest_of_module m" using others by simp
    show "set (rmap (function_ranges (set_lines ?n ls m1))) =
        insert (func_range ?n s) (set (rmap (function_ranges m)))"
      using m1(2) by simp
  qed
qed

lemma load_func_blocks_rest:
  assumes "module_ok m" and "\<forall>f. cur = Some f \<longrightarrow> f < length (function_objects m)"
    and "\<forall>s\<in>set fs. func_spec_ok s"
    and "sorted_wrt apart (map (\<lambda>s. (fs_address s, fs_size s)) fs)"
    and "\<forall>s\<in>set fs. \<forall>p\<in>set (rmap (function_ranges m)).
      fst p < fs_address s \<or> fs_address s + (fs_size s - 1) < r_base (snd p)"
  shows "\<exists>m' cur'. load_lines extra (Some (symbol_text fs @ rest)) m cur 0 =
      load_lines extra (Some rest) m' cur' 0 \<and> module_ok m' \<and>
    (\<forall>f. cur' = Some f \<longrightarrow> f < length (function_objects m')) \<and>
    (\<exists>objs. function_objects m' = function_objects m @ objs \<and> list_all2 spec_object fs objs) \<and>
    rest_of_module m' = rest_of_module m \<and>
    set (rmap (function_ranges m')) = set (rmap (function_ranges m)) \<union>
      {func_range (length (function_objects m) + i) (fs ! i) |i. i < length fs}"
  using assms
proof (induction fs arbitrary: m cur)
  case Nil
  then show ?case by (intro exI [of _ m] exI [of _ cur]) (simp add: symbol_text_def)
next
  case (Cons s fs)
  have near: "\<forall>p\<in>set (rmap (function_ranges m)).
      fst p < fs_address s \<or> fs_address s + (fs_size s - 1) < r_base (snd p)"
    and s: "func_spec_ok s" using Cons.prems by auto
  obtain m1 cur1 f where first: "load_lines extra (Some (symbol_text (s # fs) @ rest)) m cur 0 =
      load_lines extra (Some (symbol_text fs @ rest)) m1 cur1 0"
    and m1: "module_ok m1" "\<forall>f. cur1 = Some f \<longrightarrow> f < length (function_objects m1)"
    and f: "function_objects m1 = function_objects m @ [f]" "spec_object s f"
      "rest_of_module m1 = rest_of_module m"
    and r: "set (rmap (function_ranges m1)) =
      insert (func_range (length (function_objects m)) s) (set (rmap (function_ranges m)))"
    using load_func_block [OF Cons.prems(1,2) s near, of extra "symbol_text fs @ rest"]
    by (auto simp: symbol_text_def)
  have "\<forall>k\<in>set fs. \<forall>p\<in>set (rmap (function_ranges m1)).
      fst p < fs_address k \<or> fs_address k + (fs_size k - 1) < r_base (snd p)"
    using Cons.prems(4,5) unfolding r by (auto simp: func_range_def range_entry_def apart_def)
  then obtain m' cur' objs where m': "load_lines extra (Some (symbol_text fs @ rest)) m1 cur1 0 =
        load_lines extra (Some rest) m' cur' 0"
      "module_ok m'" "\<forall>f. cur' = Some f \<longrightarrow> f < length (function_objects m')" "function_objects m' = function_objects m1 @ objs" "list_all2 spec_object fs objs"
      "rest_of_module m' = rest_of_module m1"
    and r': "set (rmap (function_ranges m')) = set (rmap (function_ranges m1)) \<union>
      {func_range (length (function_objects m1) + i) (fs ! i) |i. i < length fs}"
    using Cons.IH [OF m1] Cons.prems(3,4) by auto
  have "{func_range (length (function_objects m) + i) ((s # fs) ! i) |i. i < length (s # fs)} =
      insert (func_range (length (function_objects m)) s)
        {func_range (length (function_objects m1) + i) (fs ! i) |i. i < length fs}" (is "?A = ?B")
  proof
    show "?A \<subseteq> ?B" by (auto simp: f(1) less_Suc_eq_0_disj)
    show "?B \<subseteq> ?A" by (auto simp: f(1) intro: exI [of _ 0] exI [of _ "Suc _"])
  qed
  with r r' m' first f show ?case by (intro exI [of _ m'] exI [of _ cur']) auto
qed

lemma load_end: "load_lines extra (Some []) m cur errs = Some (m, errs)"
  by (subst load_lines.simps) (simp add: next_line_def)


subsection \<open>From the text to the answers\<close>

lemma set_join_fields: "set (join_fields c fs) \<subseteq> insert c (\<Union> (set ` set fs))"
  by (induction c fs rule: join_fields.induct) auto

lemma digits_no_NUL: "1 < base \<Longrightarrow> base \<le> 16 \<Longrightarrow> NUL \<notin> set (digits_of base n)"
  using digits_of_digits [of base NUL n] by (auto simp: is_digit_def digit_value_def)

lemma line_block_no_NUL: "NUL \<notin> set (line_block l)"
  using set_join_fields [of "CHR '' ''" "[hex (unat (ls_address l)), hex (unat (ls_size l)),
      digits_of 10 (ls_line l), digits_of 10 (ls_file l)]"]
  by (auto simp: line_block_def line_text_def hex_def digits_no_NUL)

lemma func_block_no_NUL: "NUL \<notin> set (fs_name s) \<Longrightarrow> NUL \<notin> set (func_block s)"
  using set_join_fields [of "CHR '' ''" "func_fields (fs_multiple s) @ [hex (unat (fs_address s)),
      hex (unat (fs_size s)), hex (fs_params s), fs_name s]"] line_block_no_NUL
  by (auto simp: func_block_def func_text_def func_fields_def hex_def digits_no_NUL split: if_split_asm)

lemma LoadMapFromMemory_plain:
  assumes nul: "NUL \<notin> set t" and run: "load_lines False (Some t) new_Module None 0 = Some (m, 0)"
  shows "LoadMapFromMemory (t @ [NUL]) new_Module = Some (True, m\<lparr>is_corrupt := False\<rparr>)"
proof -
  have last: "t = [] \<or> last t \<noteq> NUL" using nul by (metis last_in_set)
  have body: "rev (dropWhile (\<lambda>c. c = NUL) (rev t)) = t"
    using last by (cases t rule: rev_cases) auto
  have map: "map (\<lambda>c. if c = NUL then CHR ''_'' else c) t = t"
    using nul by (auto intro: map_idI)
  show ?thesis using run by (simp add: LoadMapFromMemory_def Let_def body map nul)
qed

lemma load_symbol_text:
  assumes "symbol_spec_ok fs"
  shows "\<exists>m. LoadMapFromMemory (symbol_text fs @ [NUL]) new_Module = Some (True, m) \<and> \<not> is_corrupt m \<and>
    module_ok m \<and> list_all2 spec_object fs (function_objects m) \<and> public_symbols m = [] \<and>
    set (rmap (function_ranges m)) = {func_range i (fs ! i) |i. i < length fs}"
proof -
  let ?t = "symbol_text fs"
  have nul: "NUL \<notin> set ?t"
    using assms func_block_no_NUL by (auto simp: symbol_text_def symbol_spec_ok_def func_spec_ok_def)
  obtain m cur where "load_lines False (Some ?t) new_Module None 0 = load_lines False (Some []) m cur 0" "module_ok m"
    "list_all2 spec_object fs (function_objects m)" "public_symbols m = []"
    "set (rmap (function_ranges m)) = {func_range i (fs ! i) |i. i < length fs}"
    using load_func_blocks_rest [OF module_ok_new, of None fs False "[]"] assms
    by (auto simp: symbol_spec_ok_def new_Module_def empty_range_map_def)
  with LoadMapFromMemory_plain [OF nul] show ?thesis
    by (intro exI [of _ "m\<lparr>is_corrupt := False\<rparr>"]) (simp add: load_end module_ok_def)
qed

definition loaded :: "func_spec list \<Rightarrow> Module \<Rightarrow> bool" where
  "loaded fs m = (module_ok m \<and> list_all2 spec_object fs (function_objects m) \<and>
     set (rmap (function_ranges m)) = {func_range i (fs ! i) |i. i < length fs})"

lemma lookup_covered:
  assumes "loaded fs m" and s: "s \<in> set fs" "covers (fs_address s) (fs_size s) (instruction frame - base)"
  shows "(\<forall>l\<in>set (fs_lines s). covers (ls_address l) (ls_size l) (instruction frame - base) \<longrightarrow>
      LookupAddress m base frame =
        (let frame = frame\<lparr>function_name := fs_name s, function_base := base + fs_address s\<rparr> in
         (case map_of (files m) (sint (source_file_id (line_object l))) of
            None \<Rightarrow> frame | Some srcfile \<Rightarrow> frame\<lparr>source_file_name := srcfile\<rparr>)
           \<lparr>source_line := of_nat (ls_line l), source_line_base := base + ls_address l\<rparr>)) \<and>
    function_name (LookupAddress m base frame) = fs_name s \<and>
    function_base (LookupAddress m base frame) = base + fs_address s"
proof -
  let ?a = "instruction frame - base"
  have ok: "module_ok m" and objs: "list_all2 spec_object fs (function_objects m)"
    and fr: "set (rmap (function_ranges m)) = {func_range i (fs ! i) |i. i < length fs}"
    using assms(1) by (simp_all add: loaded_def)
  obtain i where i: "i < length fs" "fs ! i = s" using s(1) by (auto simp: in_set_conv_nth)
  then have obj: "spec_object s (function_objects m ! i)" and "i < length (function_objects m)"
    using objs by (auto simp: list_all2_conv_all_nth)
  then have ranges: "ranges_ok (rmap (function_ranges m))" "ranges_ok (rmap (f_lines (function_objects m ! i)))"
    using ok by (auto simp: module_ok_def exclusive_map_def range_map_ok_def)
  have f: "range_of (rmap (function_ranges m)) ?a = Some (func_range i s)"
    using s(2) i unfolding range_of_iff [OF ranges(1)] fr
    by (auto simp: func_range_def range_entry_def covers_def)
  have l: "range_of (rmap (f_lines (function_objects m ! i))) ?a = Some (line_range l)"
    if "l \<in> set (fs_lines s)" "covers (ls_address l) (ls_size l) ?a" for l
    using that obj unfolding range_of_iff [OF ranges(2)] spec_object_def
    by (auto simp: line_range_def range_entry_def covers_def)
  show ?thesis
    using obj unfolding LookupAddress_ranges [OF ok] Let_def f
    by (auto simp: func_range_def range_entry_def spec_object_def l line_range_def line_object_def
        split: option.split)
qed

lemma lookup_outside:
  assumes "loaded fs m" and "\<forall>s\<in>set fs. \<not> covers (fs_address s) (fs_size s) (instruction frame - base)"
  shows "LookupAddress m base frame =
    (case Retrieve (public_symbols m) (instruction frame - base) of
       Some (symbol, public_address) \<Rightarrow>
         if \<forall>s\<in>set fs. fs_address s \<le> instruction frame - base \<longrightarrow> fs_address s < public_address
         then frame\<lparr>function_name := p_name symbol, function_base := base + public_address\<rparr> else frame
     | None \<Rightarrow> frame)"
proof -
  let ?a = "instruction frame - base"
  have ok: "module_ok m" and fr: "set (rmap (function_ranges m)) = {func_range i (fs ! i) |i. i < length fs}"
    using assms(1) by (simp_all add: loaded_def)
  have none: "range_of (rmap (function_ranges m)) ?a = None"
    using assms(2) unfolding range_of_None fr by (auto simp: func_range_def range_entry_def covers_def)
  have bounds: "(\<forall>q\<in>set (rmap (function_ranges m)). r_base (snd q) \<le> ?a \<longrightarrow> r_base (snd q) < c) =
      (\<forall>s\<in>set fs. fs_address s \<le> ?a \<longrightarrow> fs_address s < c)" for c
  proof -
    have "(\<forall>q\<in>{func_range i (fs ! i) |i. i < length fs}. P q) = (\<forall>i<length fs. P (func_range i (fs ! i)))" for P
      by blast
    from this [of "\<lambda>q. r_base (snd q) \<le> ?a \<longrightarrow> r_base (snd q) < c"] show ?thesis
      unfolding fr by (simp only:) (simp add: func_range_def range_entry_def all_set_conv_all_nth)
  qed
  show ?thesis unfolding LookupAddress_ranges [OF ok] Let_def none bounds by simp
qed

text \<open>
  C11: A symbol file with functions and lines whose ranges are pairwise disjoint loads without
  errors, and afterwards every address gets the answer the file states: inside a function its
  name and start, inside one of its lines that line's number and start, and outside all
  functions nothing.
\<close>

theorem symbol_file_lookup:
  assumes "symbol_spec_ok fs"
  shows "\<exists>m. LoadMapFromMemory (symbol_text fs @ [NUL]) new_Module = Some (True, m) \<and> \<not> is_corrupt m \<and>
    (\<forall>base frame. let a = instruction frame - base; r = LookupAddress m base frame in
      (\<forall>s\<in>set fs. covers (fs_address s) (fs_size s) a \<longrightarrow>
         function_name r = fs_name s \<and> function_base r = base + fs_address s \<and>
         (\<forall>l\<in>set (fs_lines s). covers (ls_address l) (ls_size l) a \<longrightarrow>
            source_line r = of_nat (ls_line l) \<and> source_line_base r = base + ls_address l)) \<and>
      ((\<forall>s\<in>set fs. \<not> covers (fs_address s) (fs_size s) a) \<longrightarrow> r = frame))"
proof -
  obtain m where load: "LoadMapFromMemory (symbol_text fs @ [NUL]) new_Module = Some (True, m)"
    and clean: "\<not> is_corrupt m" and ok: "module_ok m"
    and objs: "list_all2 spec_object fs (function_objects m)" and pub: "public_symbols m = []"
    and fr: "set (rmap (function_ranges m)) = {func_range i (fs ! i) |i. i < length fs}"
    using load_symbol_text [OF assms] by blast
  have m: "loaded fs m" using ok objs fr by (simp add: loaded_def)
  have covered: "function_name (LookupAddress m base frame) = fs_name s \<and>
      function_base (LookupAddress m base frame) = base + fs_address s \<and>
      (\<forall>l\<in>set (fs_lines s). covers (ls_address l) (ls_size l) (instruction frame - base) \<longrightarrow>
        source_line (LookupAddress m base frame) = of_nat (ls_line l) \<and>
        source_line_base (LookupAddress m base frame) = base + ls_address l)"
    if "s \<in> set fs" "covers (fs_address s) (fs_size s) (instruction frame - base)" for s base frame
    using lookup_covered [OF m that] by (auto simp: Let_def split: option.split)
  have outside: "LookupAddress m base frame = frame"
    if "\<forall>s\<in>set fs. \<not> covers (fs_address s) (fs_size s) (instruction frame - base)" for base frame
    using lookup_outside [OF m that] by (simp add: pub Retrieve_def upper_bound_def)
  show ?thesis
    using load clean covered outside unfolding Let_def by blast
qed

definition sample_spec :: "func_spec list" where
  "sample_spec =
     [\<lparr>fs_multiple = False, fs_address = 0x1000, fs_size = 0x10, fs_params = 0, fs_name = ''main'',
       fs_lines = [\<lparr>ls_address = 0x1000, ls_size = 4, ls_line = 7, ls_file = 0\<rparr>,
                   \<lparr>ls_address = 0x1004, ls_size = 12, ls_line = 8, ls_file = 0\<rparr>]\<rparr>,
      \<lparr>fs_multiple = True, fs_address = 0x800, fs_size = 0x20, fs_params = 8, fs_name = ''f(int)'',
       fs_lines = []\<rparr>]"

lemma sample_spec_ok: "symbol_spec_ok sample_spec"
  by (simp add: symbol_spec_ok_def func_spec_ok_def line_spec_ok_def range_fits_def apart_def
      sample_spec_def LONG_MAX_def is_token_def)

theorem symbol_file_lookup_witness:
  "\<exists>m. LoadMapFromMemory (symbol_text sample_spec @ [NUL]) new_Module = Some (True, m) \<and>
     source_line (LookupAddress m 0x400000 (new_StackFrame\<lparr>instruction := 0x401005\<rparr>)) = 8 \<and>
     function_name (LookupAddress m 0x400000 (new_StackFrame\<lparr>instruction := 0x40081F\<rparr>)) = ''f(int)''"
proof -
  obtain m where m: "LoadMapFromMemory (symbol_text sample_spec @ [NUL]) new_Module = Some (True, m)"
    and look: "\<forall>base (frame :: StackFrame). let a = instruction frame - base; r = LookupAddress m base frame in
      (\<forall>s\<in>set sample_spec. covers (fs_address s) (fs_size s) a \<longrightarrow>
         function_name r = fs_name s \<and> function_base r = base + fs_address s \<and>
         (\<forall>l\<in>set (fs_lines s). covers (ls_address l) (ls_size l) a \<longrightarrow>
            source_line r = of_nat (ls_line l) \<and> source_line_base r = base + ls_address l)) \<and>
      ((\<forall>s\<in>set sample_spec. \<not> covers (fs_address s) (fs_size s) a) \<longrightarrow> r = frame)"
    using symbol_file_lookup [OF sample_spec_ok] by blast
  show ?thesis
    using m look [rule_format, of "new_StackFrame\<lparr>instruction := 0x401005\<rparr>" "0x400000"]
      look [rule_format, of "new_StackFrame\<lparr>instruction := 0x40081F\<rparr>" "0x400000"]
    by (auto simp: sample_spec_def covers_def Let_def)
qed

end
