(* ===== verification/Resolver_Base.thy ===== *)
theory Resolver_Base
  imports Basic_Resolver
begin

text \<open>
  \<open>SourceLineResolverBase\<close> (\<open>processor/source_line_resolver_base.cc\<close>) as the basic
  resolver uses it: the loaded modules by code file, and which of them are corrupt.  Memory
  buffers are never kept, since \<open>ShouldDeleteMemoryBufferAfterLoadModule\<close> is true here.
  \<open>ReadSymbolFile\<close> is an argument: the contents of a file, or \<open>None\<close>.  A null module
  is \<open>None\<close>.
\<close>

record resolver =
  resolver_modules :: "string \<rightharpoonup> Module"
  corrupt_modules :: "string set"

definition new_resolver :: resolver where
  "new_resolver = \<lparr>resolver_modules = Map.empty, corrupt_modules = {}\<rparr>"

text \<open>\<open>CompareString\<close> compares the keys with \<open>strcmp\<close>.\<close>

definition module_key :: "CodeModule \<Rightarrow> string" where
  "module_key module = takeWhile (\<lambda>c. c \<noteq> NUL) (code_file module)"

definition LoadModuleUsingMemoryBuffer ::
  "CodeModule option \<Rightarrow> char list \<Rightarrow> resolver \<Rightarrow> (bool \<times> resolver) run" where
  "LoadModuleUsingMemoryBuffer module memory_buffer r =
     (case module of
        None \<Rightarrow> Some (False, r)
      | Some module \<Rightarrow>
          if resolver_modules r (module_key module) \<noteq> None then Some (False, r)
          else do {
            (_, basic_module) \<leftarrow> LoadMapFromMemory memory_buffer new_Module;
            let r' = r\<lparr>resolver_modules := (resolver_modules r)(module_key module \<mapsto> basic_module)\<rparr>;
            Some (True,
              if is_corrupt basic_module
              then r'\<lparr>corrupt_modules := insert (module_key module) (corrupt_modules r')\<rparr> else r')
          })"

definition LoadModuleUsingMapBuffer ::
  "CodeModule option \<Rightarrow> char list \<Rightarrow> resolver \<Rightarrow> (bool \<times> resolver) run" where
  "LoadModuleUsingMapBuffer module map_buffer r =
     (case module of
        None \<Rightarrow> Some (False, r)
      | Some m \<Rightarrow>
          if resolver_modules r (module_key m) \<noteq> None then Some (False, r)
          else LoadModuleUsingMemoryBuffer module (map_buffer @ [NUL]) r)"

definition LoadModule ::
  "(string \<Rightarrow> char list option) \<Rightarrow> CodeModule option \<Rightarrow> string \<Rightarrow> resolver \<Rightarrow>
     (bool \<times> resolver) run" where
  "LoadModule read_file module map_file r =
     (case module of
        None \<Rightarrow> Some (False, r)
      | Some m \<Rightarrow>
          if resolver_modules r (module_key m) \<noteq> None then Some (False, r)
          else
            (case read_file map_file of
               None \<Rightarrow> Some (False, r)
             | Some contents \<Rightarrow> LoadModuleUsingMemoryBuffer module (contents @ [NUL]) r))"

definition UnloadModule :: "CodeModule option \<Rightarrow> resolver \<Rightarrow> resolver" where
  "UnloadModule code_module r =
     (case code_module of
        None \<Rightarrow> r
      | Some m \<Rightarrow>
          if resolver_modules r (module_key m) \<noteq> None
          then r\<lparr>resolver_modules := (resolver_modules r)(module_key m := None),
                 corrupt_modules := corrupt_modules r - {module_key m}\<rparr>
          else r)"

definition HasModule :: "CodeModule option \<Rightarrow> resolver \<Rightarrow> bool" where
  "HasModule module r =
     (case module of None \<Rightarrow> False | Some m \<Rightarrow> resolver_modules r (module_key m) \<noteq> None)"

definition IsModuleCorrupt :: "CodeModule option \<Rightarrow> resolver \<Rightarrow> bool" where
  "IsModuleCorrupt module r =
     (case module of None \<Rightarrow> False | Some m \<Rightarrow> module_key m \<in> corrupt_modules r)"

definition Resolver_FillSourceLineInfo ::
  "resolver \<Rightarrow> 'a StackFrame_scheme \<Rightarrow> 'a StackFrame_scheme" where
  "Resolver_FillSourceLineInfo r frame =
     (case frame_module frame of
        None \<Rightarrow> frame
      | Some m \<Rightarrow>
          (case resolver_modules r (module_key m) of
             None \<Rightarrow> frame
           | Some symbols \<Rightarrow> LookupAddress symbols (base_address m) frame))"

definition Resolver_FindWindowsFrameInfo ::
  "resolver \<Rightarrow> 'a StackFrame_scheme \<Rightarrow> WindowsFrameInfo option" where
  "Resolver_FindWindowsFrameInfo r frame =
     (case frame_module frame of
        None \<Rightarrow> None
      | Some m \<Rightarrow>
          (case resolver_modules r (module_key m) of
             None \<Rightarrow> None
           | Some symbols \<Rightarrow> Module_FindWindowsFrameInfo symbols (instruction frame - base_address m)))"

definition Resolver_FindCFIFrameInfo ::
  "resolver \<Rightarrow> 'a StackFrame_scheme \<Rightarrow> CFIFrameInfo option" where
  "Resolver_FindCFIFrameInfo r frame =
     (case frame_module frame of
        None \<Rightarrow> None
      | Some m \<Rightarrow>
          (case resolver_modules r (module_key m) of
             None \<Rightarrow> None
           | Some symbols \<Rightarrow> Module_FindCFIFrameInfo symbols (instruction frame - base_address m)))"

subsection \<open>The interface of a resolver\<close>

text \<open>
  What a client may rely on: which modules are loaded and which are corrupt after each
  operation.  The states the laws speak of are those that satisfy \<open>ok\<close>.
\<close>

locale line_resolver =
  fixes ok :: "'r \<Rightarrow> bool"
    and has :: "CodeModule option \<Rightarrow> 'r \<Rightarrow> bool"
    and corrupt :: "CodeModule option \<Rightarrow> 'r \<Rightarrow> bool"
    and load :: "CodeModule option \<Rightarrow> char list \<Rightarrow> 'r \<Rightarrow> (bool \<times> 'r) run"
    and unload :: "CodeModule option \<Rightarrow> 'r \<Rightarrow> 'r"
  assumes load_ok: "ok r \<Longrightarrow> load m buf r = Some (b, r') \<Longrightarrow> ok r'"
    and load_loaded: "has m r \<Longrightarrow> load m buf r = Some (False, r)"
    and load_new: "load m buf r = Some (b, r') \<Longrightarrow> \<not> has m r \<Longrightarrow> m \<noteq> None \<Longrightarrow> b \<and> has m r'"
    and load_keeps: "load m buf r = Some (b, r') \<Longrightarrow> has n r \<Longrightarrow> has n r'"
    and load_keeps_corrupt: "ok r \<Longrightarrow> load m buf r = Some (b, r') \<Longrightarrow> has n r \<Longrightarrow> corrupt n r' = corrupt n r"
    and corrupt_has: "ok r \<Longrightarrow> corrupt m r \<Longrightarrow> has m r"
    and unload_ok: "ok r \<Longrightarrow> ok (unload m r)"
    and unload_has: "\<not> has m (unload m r)"
begin

lemma load_twice:
  assumes "load m buf r = Some (True, r')" and "m \<noteq> None"
  shows "load m buf' r' = Some (False, r')"
proof -
  have "\<not> has m r" using assms(1) load_loaded [of m r buf] by auto
  then show ?thesis using load_new [OF assms(1)] assms(2) load_loaded by blast
qed

lemma unload_not_corrupt: "ok r \<Longrightarrow> \<not> corrupt m (unload m r)"
  using corrupt_has [OF unload_ok] unload_has by blast

end

text \<open>The basic resolver provides it.\<close>

definition resolver_ok :: "resolver \<Rightarrow> bool" where
  "resolver_ok r = ((\<forall>k m. resolver_modules r k = Some m \<longrightarrow>
       module_ok m \<and> (k \<in> corrupt_modules r \<longleftrightarrow> is_corrupt m)) \<and>
     corrupt_modules r \<subseteq> dom (resolver_modules r))"

lemma resolver_ok_new [simp]: "resolver_ok new_resolver"
  by (simp add: resolver_ok_def new_resolver_def)

lemma load_SomeD:
  assumes "LoadModuleUsingMemoryBuffer m buf r = Some (b, r')"
  obtains "b = False" "r' = r" "m = None \<or> HasModule m r"
  | cm basic where "m = Some cm" "\<not> HasModule m r" "b" "module_ok basic"
      "resolver_modules r' = (resolver_modules r)(module_key cm \<mapsto> basic)"
      "corrupt_modules r' =
        (if is_corrupt basic then insert (module_key cm) (corrupt_modules r) else corrupt_modules r)"
proof (cases m)
  case None
  with assms that(1) show ?thesis by (simp add: LoadModuleUsingMemoryBuffer_def)
next
  case (Some cm)
  show ?thesis
  proof (cases "HasModule m r")
    case True
    with assms that(1) Some show ?thesis by (simp add: LoadModuleUsingMemoryBuffer_def HasModule_def)
  next
    case False
    then have new: "resolver_modules r (module_key cm) = None" using Some by (simp add: HasModule_def)
    obtain loaded basic where load: "LoadMapFromMemory buf new_Module = Some (loaded, basic)"
      using assms Some new by (auto simp: LoadModuleUsingMemoryBuffer_def bind_eq_Some_conv)
    have "b" and r': "r' = (let r' = r\<lparr>resolver_modules := (resolver_modules r)(module_key cm \<mapsto> basic)\<rparr> in
        if is_corrupt basic
        then r'\<lparr>corrupt_modules := insert (module_key cm) (corrupt_modules r')\<rparr> else r')"
      using assms Some new load by (simp_all add: LoadModuleUsingMemoryBuffer_def Let_def)
    have "module_ok basic" using LoadMapFromMemory_invariant [OF module_ok_new load] by simp
    moreover have "resolver_modules r' = (resolver_modules r)(module_key cm \<mapsto> basic)"
      by (simp add: r' Let_def)
    moreover have "corrupt_modules r' =
        (if is_corrupt basic then insert (module_key cm) (corrupt_modules r) else corrupt_modules r)"
      by (simp add: r' Let_def)
    ultimately show ?thesis by (rule that(2) [OF Some False \<open>b\<close>])
  qed
qed

lemma load_resolver_ok:
  assumes "resolver_ok r" and "LoadModuleUsingMemoryBuffer m buf r = Some (b, r')"
  shows "resolver_ok r'"
  using assms(2)
proof (cases rule: load_SomeD)
  case (2 cm basic)
  then have new: "module_key cm \<notin> corrupt_modules r" using assms(1) by (auto simp: resolver_ok_def HasModule_def)
  have "module_ok m \<and> (k \<in> corrupt_modules r') = is_corrupt m" if "resolver_modules r' k = Some m" for k m
    using that 2 assms(1) new by (auto simp: resolver_ok_def split: if_split_asm)
  moreover have "corrupt_modules r' \<subseteq> dom (resolver_modules r')"
    using 2 assms(1) by (auto simp: resolver_ok_def)
  ultimately show ?thesis by (simp add: resolver_ok_def)
next
  case 1
  with assms(1) show ?thesis by simp
qed

lemma unload_resolver_ok: "resolver_ok r \<Longrightarrow> resolver_ok (UnloadModule m r)"
  by (auto simp: UnloadModule_def resolver_ok_def split: option.split)

interpretation basic: line_resolver resolver_ok HasModule IsModuleCorrupt
  LoadModuleUsingMemoryBuffer UnloadModule
proof
  show "resolver_ok r \<Longrightarrow> LoadModuleUsingMemoryBuffer m buf r = Some (b, r') \<Longrightarrow> resolver_ok r'"
    for r r' m buf b by (rule load_resolver_ok)
  show "HasModule m r \<Longrightarrow> LoadModuleUsingMemoryBuffer m buf r = Some (False, r)" for m r buf
    by (auto simp: HasModule_def LoadModuleUsingMemoryBuffer_def split: option.split_asm)
  show "LoadModuleUsingMemoryBuffer m buf r = Some (b, r') \<Longrightarrow> \<not> HasModule m r \<Longrightarrow> m \<noteq> None \<Longrightarrow>
      b \<and> HasModule m r'" for m buf r r' b
    by (erule load_SomeD) (auto simp: HasModule_def)
  show "LoadModuleUsingMemoryBuffer m buf r = Some (b, r') \<Longrightarrow> HasModule n r \<Longrightarrow> HasModule n r'"
    for m buf r r' b n
    by (erule load_SomeD) (auto simp: HasModule_def split: option.splits)
  show "resolver_ok r \<Longrightarrow> LoadModuleUsingMemoryBuffer m buf r = Some (b, r') \<Longrightarrow> HasModule n r \<Longrightarrow>
      IsModuleCorrupt n r' = IsModuleCorrupt n r" for m buf r r' b n
    by (erule load_SomeD) (auto simp: HasModule_def IsModuleCorrupt_def split: option.split_asm if_split_asm)
  show "resolver_ok r \<Longrightarrow> IsModuleCorrupt m r \<Longrightarrow> HasModule m r" for r m
    by (auto simp: HasModule_def IsModuleCorrupt_def resolver_ok_def split: option.split_asm)
  show "resolver_ok r \<Longrightarrow> resolver_ok (UnloadModule m r)" for r m by (rule unload_resolver_ok)
  show "\<not> HasModule m (UnloadModule m r)" for m r
    by (simp add: HasModule_def UnloadModule_def split: option.split)
qed

text \<open>
  C17: Loading a module that is loaded already is refused and changes nothing; a first load
  succeeds, keeps the resolver's invariant, and makes the module known; unloading forgets it.
\<close>

theorem LoadModule_lifecycle:
  assumes "resolver_ok r"
    and "LoadModuleUsingMapBuffer (Some m) buf r = Some (loaded, r')"
  shows "loaded = (\<not> HasModule (Some m) r) \<and> HasModule (Some m) r' \<and> resolver_ok r' \<and>
    LoadModuleUsingMapBuffer (Some m) buf' r' = Some (False, r') \<and>
    \<not> HasModule (Some m) (UnloadModule (Some m) r') \<and>
    \<not> IsModuleCorrupt (Some m) (UnloadModule (Some m) r')"
proof -
  have map_buffer: "LoadModuleUsingMapBuffer (Some m) t s =
      (if HasModule (Some m) s then Some (False, s)
       else LoadModuleUsingMemoryBuffer (Some m) (t @ [NUL]) s)" for t s
    by (simp add: LoadModuleUsingMapBuffer_def HasModule_def)
  have run: "LoadModuleUsingMemoryBuffer (Some m) (buf @ [NUL]) r = Some (loaded, r')"
    using assms(2) basic.load_loaded [of "Some m" r] by (auto simp: map_buffer split: if_split_asm)
  have "loaded = (\<not> HasModule (Some m) r) \<and> HasModule (Some m) r'"
    using run basic.load_loaded [of "Some m" r "buf @ [NUL]"] basic.load_new [OF run] by auto
  moreover have "resolver_ok r'" by (rule basic.load_ok [OF assms(1) run])
  ultimately show ?thesis
    using basic.unload_has [of "Some m" r'] basic.unload_not_corrupt [of r' "Some m"] by (auto simp: map_buffer)
qed

definition sample_exe :: CodeModule where
  "sample_exe = \<lparr>module_object = 1, base_address = 0x400000, module_size = 0x10000,
     shrink_down_delta = 0, code_file = ''exe'', code_ident = [], debug_file = ''exe'',
     debug_ident = [], module_version = [], is_unloaded = False\<rparr>"

definition sample_resolver :: resolver where
  "sample_resolver = \<lparr>resolver_modules = [''exe'' \<mapsto> sample_module], corrupt_modules = {}\<rparr>"

lemma sample_resolver_load:
  "LoadModuleUsingMapBuffer (Some sample_exe) sample_symbols new_resolver = Some (True, sample_resolver)"
  by (simp add: LoadModuleUsingMapBuffer_def LoadModuleUsingMemoryBuffer_def new_resolver_def
      module_key_def sample_exe_def sample_load sample_resolver_def)
    (simp add: sample_module_def new_Module_def)

theorem LoadModule_lifecycle_witness:
  "LoadModuleUsingMapBuffer (Some sample_exe) sample_symbols sample_resolver = Some (False, sample_resolver)"
  using LoadModule_lifecycle [OF resolver_ok_new sample_resolver_load] by blast

end
