(* ===== verification/Code_Modules.thy ===== *)
theory Code_Modules
  imports "HOL-Library.Monad_Syntax" Range_Map Stack_Frame
begin

text \<open>
  \<open>BasicCodeModules\<close> (\<open>processor/basic_code_modules.cc\<close>, \<open>basic_code_module.h\<close>): a
  copy of a list of modules, indexed by address with a \<open>RangeMap\<close>.  The \<open>CodeModules\<close>
  object that is copied is its modules in the order of \<open>GetModuleAtIndex\<close> and its main
  module.
\<close>

record basic_code_modules =
  main_address :: u64
  code_map :: "(u64, CodeModule) range_map"
  shrunk_range_modules :: "CodeModule list"

text \<open>\<open>BasicCodeModule::Copy\<close>: all fields are copied into a new object.\<close>

definition CodeModule_Copy :: "nat \<Rightarrow> CodeModule \<Rightarrow> CodeModule" where
  "CodeModule_Copy fresh m = m\<lparr>module_object := fresh\<rparr>"

definition SetShrinkDownDelta :: "u64 \<Rightarrow> CodeModule \<Rightarrow> CodeModule" where
  "SetShrinkDownDelta delta m = m\<lparr>shrink_down_delta := delta\<rparr>"

text \<open>The two loops of the constructor; \<open>fresh\<close> numbers the objects.\<close>

fun store_modules ::
  "nat \<Rightarrow> CodeModule list \<Rightarrow> (u64, CodeModule) range_map \<Rightarrow> (u64, CodeModule) range_map run" where
  "store_modules fresh [] m = Some m"
| "store_modules fresh (that # rest) m = do {
     (m', _) \<leftarrow> StoreRange m (base_address that) (module_size that) (CodeModule_Copy fresh that);
     store_modules (fresh + 1) rest m'
   }"

fun shrunk_modules ::
  "nat \<Rightarrow> CodeModule list \<Rightarrow> (u64, CodeModule) range_map \<Rightarrow> CodeModule list" where
  "shrunk_modules fresh [] m = []"
| "shrunk_modules fresh (that # rest) m =
     (case RetrieveRange m (base_address that + module_size that - 1) of
        Some (module, _, delta, _) \<Rightarrow>
          (if 0 < delta then [SetShrinkDownDelta delta (CodeModule_Copy fresh module)] else [])
      | None \<Rightarrow> []) @ shrunk_modules (fresh + 1) rest m"

definition BasicCodeModules ::
  "CodeModule list \<Rightarrow> CodeModule option \<Rightarrow> MergeRangeStrategy \<Rightarrow> basic_code_modules run" where
  "BasicCodeModules modules main_module strategy = do {
     m \<leftarrow> store_modules 0 modules \<lparr>merge_strategy = strategy, rmap = []\<rparr>;
     Some \<lparr>main_address = (case main_module of None \<Rightarrow> 0 | Some mm \<Rightarrow> base_address mm),
       code_map = m, shrunk_range_modules = shrunk_modules (length modules) modules m\<rparr>
   }"

definition module_count :: "basic_code_modules \<Rightarrow> u32" where
  "module_count cm = word_of_int (GetCount (code_map cm))"

definition GetModuleForAddress :: "basic_code_modules \<Rightarrow> u64 \<Rightarrow> CodeModule option" where
  "GetModuleForAddress cm address = map_option fst (RetrieveRange (code_map cm) address)"

definition GetMainModule :: "basic_code_modules \<Rightarrow> CodeModule option" where
  "GetMainModule cm = GetModuleForAddress cm (main_address cm)"

definition GetModuleAtSequence :: "basic_code_modules \<Rightarrow> u32 \<Rightarrow> CodeModule option run" where
  "GetModuleAtSequence cm sequence =
     map_option (map_option fst) (RetrieveRangeAtIndex (code_map cm) (sint sequence))"

definition GetModuleAtIndex :: "basic_code_modules \<Rightarrow> u32 \<Rightarrow> CodeModule option run" where
  "GetModuleAtIndex cm index = GetModuleAtSequence cm index"

subsection \<open>Every module is found inside its own range\<close>

text \<open>
  The invariant of the copies: a lookup yields a module of the list and the address's true
  offset in that module, whatever the other modules cut off.
\<close>

definition in_module :: "CodeModule \<Rightarrow> u64 \<Rightarrow> bool" where
  "in_module m a = (module_size m \<noteq> 0 \<and> base_address m \<le> a \<and> a \<le> base_address m + (module_size m - 1))"

definition offsets_sound :: "(u64, CodeModule) range_map \<Rightarrow> bool" where
  "offsets_sound m = (\<forall>a e off. offset_at m a = Some (e, off) \<longrightarrow> in_module e a \<and> off = a - base_address e)"

lemma store_offsets:
  fixes m :: "('a::len word, 'e) range_map"
  assumes ok: "range_map_ok m" and run: "StoreRange m base sz e = Some (m', stored)"
    and "offset_at m' a = Some (x, off)"
  shows "offset_at m a = Some (x, off) \<or>
    x = e \<and> off = a - base \<and> sz \<noteq> 0 \<and> base \<le> a \<and> a \<le> base + (sz - 1)"
proof (cases "sz \<noteq> 0 \<and> base \<le> base + (sz - 1)")
  case False
  then have "m' = m" using run store_invalid [of sz base m 0 e] by (auto simp: StoreRange_def not_le)
  with assms(3) show ?thesis by simp
next
  case True
  then have v: "sz \<noteq> 0" "base \<le> base + (sz - 1)" by auto
  have "\<not> stored \<Longrightarrow> m' = m" using store_result [OF ok] run by (auto simp: StoreRange_def)
  then show ?thesis
    using assms(3) store_exclusive_effect(2) [OF ok _ v run, of a] v
      store_truncate_lower_effect(2) [OF ok _ v run, of a]
      store_truncate_upper_effect(2) [OF ok _ v run, of a]
    by (cases "merge_strategy m"; cases stored) (auto split: if_split_asm)
qed

lemma store_modules_outcome:
  assumes "range_map_ok m"
  shows "\<exists>m'. store_modules fresh rest m = Some m' \<and> range_map_ok m' \<and>
    merge_strategy m' = merge_strategy m \<and>
    (\<forall>a x off. offset_at m' a = Some (x, off) \<longrightarrow> offset_at m a = Some (x, off) \<or>
       (\<exists>i<length rest. x = CodeModule_Copy (fresh + i) (rest ! i) \<and> in_module (rest ! i) a \<and>
          off = a - base_address (rest ! i)))"
  using assms
proof (induction rest arbitrary: m fresh)
  case (Cons that rest)
  obtain m1 stored where run: "StoreRange m (base_address that) (module_size that)
      (CodeModule_Copy fresh that) = Some (m1, stored)"
    and m1: "range_map_ok m1" "merge_strategy m1 = merge_strategy m"
    using StoreRangeInternal_outcome [OF Cons.prems, of "base_address that" 0 "module_size that"]
      store_result [OF Cons.prems]
    by (fastforce simp: StoreRange_def store_outcome_def split: option.split_asm)
  obtain m' where m': "store_modules (fresh + 1) rest m1 = Some m'" "range_map_ok m'"
      "merge_strategy m' = merge_strategy m1"
    and off: "\<And>a x off. offset_at m' a = Some (x, off) \<Longrightarrow> offset_at m1 a = Some (x, off) \<or>
       (\<exists>i<length rest. x = CodeModule_Copy (fresh + 1 + i) (rest ! i) \<and> in_module (rest ! i) a \<and>
          off = a - base_address (rest ! i))"
    using Cons.IH [OF m1(1), of "fresh + 1"] by blast
  have "offset_at m a = Some (x, off) \<or>
      (\<exists>i<length (that # rest). x = CodeModule_Copy (fresh + i) ((that # rest) ! i) \<and>
         in_module ((that # rest) ! i) a \<and> off = a - base_address ((that # rest) ! i))"
    if "offset_at m' a = Some (x, off)" for a x off
    using off [OF that]
  proof (elim disjE exE conjE)
    assume "offset_at m1 a = Some (x, off)"
    from store_offsets [OF Cons.prems run this] show ?thesis
      by (auto simp: in_module_def intro!: exI [of _ 0])
  next
    fix i assume "i < length rest" "x = CodeModule_Copy (fresh + 1 + i) (rest ! i)"
      "in_module (rest ! i) a" "off = a - base_address (rest ! i)"
    then show ?thesis by (intro disjI2 exI [of _ "Suc i"]) simp
  qed
  with run m' m1 show ?case by auto
qed (auto)

lemma GetModuleForAddress_offset:
  "GetModuleForAddress cm a = map_option fst (offset_at (code_map cm) a)"
  by (auto simp: GetModuleForAddress_def offset_at_def option.map_comp comp_def intro: map_option_cong)

lemma empty_map_facts:
  "range_map_ok (\<lparr>merge_strategy = strategy, rmap = []\<rparr> :: ('a::len word, 'e) range_map)"
  "offset_at (\<lparr>merge_strategy = strategy, rmap = []\<rparr> :: ('a::len word, 'e) range_map) a = None"
  by (simp_all add: range_map_ok_def offset_at_range_of)

text \<open>
  Copying any list of modules returns, for every strategy; a lookup in the copy yields only
  a module of the list whose own address range contains the address, even when overlapping
  modules were truncated.
\<close>

theorem GetModuleForAddress_sound:
  "\<exists>cm. BasicCodeModules modules main_module strategy = Some cm \<and>
     (\<forall>a m. GetModuleForAddress cm a = Some m \<longrightarrow>
        (\<exists>i<length modules. m = CodeModule_Copy i (modules ! i) \<and> in_module (modules ! i) a))"
proof -
  obtain m where "store_modules 0 modules \<lparr>merge_strategy = strategy, rmap = []\<rparr> = Some m"
    and "\<And>a x off. offset_at m a = Some (x, off) \<Longrightarrow>
      \<exists>i<length modules. x = CodeModule_Copy i (modules ! i) \<and> in_module (modules ! i) a"
    using store_modules_outcome [OF empty_map_facts(1), of 0 modules strategy]
    by (fastforce simp: empty_map_facts(2))
  then show ?thesis
    by (fastforce simp: BasicCodeModules_def GetModuleForAddress_offset)
qed

subsection \<open>Modules that do not overlap\<close>

lemma store_apart_offsets:
  fixes m :: "('a::len word, 'e) range_map"
  assumes ok: "range_map_ok m" and v: "sz \<noteq> 0" "base \<le> base + (sz - 1)"
    and apart: "\<forall>p\<in>set (rmap m). fst p < base \<or> base + (sz - 1) < r_base (snd p)"
    and run: "StoreRange m base sz e = Some (m', stored)"
  shows "offset_at m' a =
    (if base \<le> a \<and> a \<le> base + (sz - 1) then Some (e, a - base) else offset_at m a)"
proof -
  have ranges: "ranges_ok (rmap m)" using ok by (simp add: range_map_ok_def)
  have p: "r_base (snd p) \<le> fst p" if "p \<in> set (rmap m)" for p using ranges_okD [OF ranges that] by simp
  have none: "range_of (rmap m) x = None" if "base \<le> x" "x \<le> base + (sz - 1)" for x
    unfolding range_of_None
  proof
    fix q assume "q \<in> set (rmap m)"
    with apart have "fst q < base \<or> base + (sz - 1) < r_base (snd q)" by blast
    then show "\<not> (r_base (snd q) \<le> x \<and> x \<le> fst q)" using that by auto
  qed
  show ?thesis
  proof (cases "merge_strategy m")
    case kExclusiveRanges
    then show ?thesis
      using store_exclusive_effect [OF ok _ v run] none by (simp add: offset_at_range_of [OF ok])
  next
    case kTruncateLower
    have "\<forall>q\<in>set (rmap m). r_base (snd q) \<noteq> base"
      using apart p v(2) by (metis leD)
    moreover have "\<forall>q\<in>set (rmap m). base < r_base (snd q) \<longrightarrow> base + (sz - 1) < r_base (snd q)"
      using apart p by (meson less_asym' less_le_trans)
    moreover have "\<not> (base \<le> a \<and> (\<exists>q. range_of (rmap m) a = Some q \<and> r_base (snd q) < base))"
      using apart v(2) by (auto dest!: range_of_SomeD)
    ultimately show ?thesis
      using store_truncate_lower_effect [OF ok kTruncateLower v run]
      by auto
  next
    case kTruncateUpper
    have "\<forall>q\<in>set (rmap m). fst q \<noteq> base + (sz - 1)"
      using apart p v(2) by (metis leD)
    moreover have "\<forall>q\<in>set (rmap m). fst q < base + (sz - 1) \<longrightarrow> fst q < base"
      using apart p by (meson less_asym' le_less_trans)
    moreover have "\<not> (a \<le> base + (sz - 1) \<and> (\<exists>q. range_of (rmap m) a = Some q \<and> base + (sz - 1) < fst q))"
      using apart v(2) by (auto dest!: range_of_SomeD)
    ultimately show ?thesis
      using store_truncate_upper_effect [OF ok kTruncateUpper v run]
      by auto
  qed
qed

definition modules_apart :: "CodeModule list \<Rightarrow> bool" where
  "modules_apart ms = ((\<forall>m\<in>set ms. module_size m \<noteq> 0 \<and>
       base_address m \<le> base_address m + (module_size m - 1)) \<and>
     sorted_wrt (\<lambda>m n. base_address m + (module_size m - 1) < base_address n \<or>
       base_address n + (module_size n - 1) < base_address m) ms)"

lemma stored_offsets:
  assumes "range_map_ok m" and "p \<in> set (rmap m)"
  shows "\<exists>off off'. offset_at m (fst p) = Some (r_entry (snd p), off) \<and>
    offset_at m (r_base (snd p)) = Some (r_entry (snd p), off')"
proof -
  have ranges: "ranges_ok (rmap m)" using assms(1) by (simp add: range_map_ok_def)
  have "range_of (rmap m) (fst p) = Some p" "range_of (rmap m) (r_base (snd p)) = Some p"
    using assms(2) ranges_okD [OF ranges assms(2)] by (auto simp: range_of_iff [OF ranges])
  then show ?thesis by (simp add: offset_at_range_of [OF assms(1)])
qed

lemma store_modules_apart:
  assumes "range_map_ok m" and "modules_apart those_modules"
    and "\<forall>a x off. offset_at m a = Some (x, off) \<longrightarrow> in_module x a \<and>
      (\<forall>n\<in>set those_modules. base_address x + (module_size x - 1) < base_address n \<or>
         base_address n + (module_size n - 1) < base_address x)"
    and "store_modules fresh those_modules m = Some m'"
  shows "map_option fst (offset_at m' a) = Some x \<longleftrightarrow>
    map_option fst (offset_at m a) = Some x \<or>
    (\<exists>i<length those_modules. x = CodeModule_Copy (fresh + i) (those_modules ! i) \<and>
       in_module (those_modules ! i) a)"
  using assms
proof (induction those_modules arbitrary: m fresh)
  case (Cons that rest)
  let ?b = "base_address that" and ?z = "module_size that"
  let ?e = "CodeModule_Copy fresh that"
  obtain m1 stored where run: "StoreRange m ?b ?z ?e = Some (m1, stored)"
    and m': "store_modules (fresh + 1) rest m1 = Some m'"
    using Cons.prems(4) by (auto simp: bind_eq_Some_conv)
  have ok1: "range_map_ok m1" using store_result(1) [OF Cons.prems(1)] run by (simp add: StoreRange_def)
  have v: "?z \<noteq> 0" "?b \<le> ?b + (?z - 1)" using Cons.prems(2) by (auto simp: modules_apart_def)
  have apart: "\<forall>p\<in>set (rmap m). fst p < ?b \<or> ?b + (?z - 1) < r_base (snd p)"
  proof
    fix p assume "p \<in> set (rmap m)"
    then obtain off off' where "offset_at m (fst p) = Some (r_entry (snd p), off)"
      "offset_at m (r_base (snd p)) = Some (r_entry (snd p), off')"
      using stored_offsets [OF Cons.prems(1)] by blast
    with Cons.prems(3) have "in_module (r_entry (snd p)) (fst p)" "in_module (r_entry (snd p)) (r_base (snd p))"
      "base_address (r_entry (snd p)) + (module_size (r_entry (snd p)) - 1) < ?b \<or>
       ?b + (?z - 1) < base_address (r_entry (snd p))"
      by (auto 0 4)
    then show "fst p < ?b \<or> ?b + (?z - 1) < r_base (snd p)"
      by (auto simp: in_module_def)
  qed
  have m1: "offset_at m1 a = (if ?b \<le> a \<and> a \<le> ?b + (?z - 1) then Some (?e, a - ?b) else offset_at m a)" for a
    by (rule store_apart_offsets [OF Cons.prems(1) v apart run])
  have none: "offset_at m a = None" if "?b \<le> a" "a \<le> ?b + (?z - 1)" for a
    using that apart by (force simp: offset_at_range_of [OF Cons.prems(1)] range_of_None)
  have inv: "\<forall>a x off. offset_at m1 a = Some (x, off) \<longrightarrow> in_module x a \<and>
      (\<forall>n\<in>set rest. base_address x + (module_size x - 1) < base_address n \<or>
         base_address n + (module_size n - 1) < base_address x)"
    using Cons.prems(2,3) v unfolding m1
    by (auto simp: modules_apart_def in_module_def CodeModule_Copy_def split: if_split_asm)
  have "modules_apart rest" using Cons.prems(2) by (simp add: modules_apart_def)
  from Cons.IH [OF ok1 this inv m'] have IH: "map_option fst (offset_at m' a) = Some x \<longleftrightarrow>
      map_option fst (offset_at m1 a) = Some x \<or>
      (\<exists>i<length rest. x = CodeModule_Copy (fresh + 1 + i) (rest ! i) \<and> in_module (rest ! i) a)" .
  have first: "map_option fst (offset_at m1 a) = Some x \<longleftrightarrow>
      map_option fst (offset_at m a) = Some x \<or> x = ?e \<and> in_module that a"
    using none [of a] v by (auto simp: m1 in_module_def)
  have ex: "(\<exists>i<length (that # rest). x = CodeModule_Copy (fresh + i) ((that # rest) ! i) \<and>
        in_module ((that # rest) ! i) a) \<longleftrightarrow>
      x = ?e \<and> in_module that a \<or>
      (\<exists>i<length rest. x = CodeModule_Copy (fresh + 1 + i) (rest ! i) \<and> in_module (rest ! i) a)"
    by (simp add: Ex_less_Suc2)
  show ?case unfolding IH first ex by blast
qed simp

text \<open>
  When the modules do not overlap, an address is found exactly in the module whose range
  contains it, under every strategy.
\<close>

theorem GetModuleForAddress_apart:
  assumes "modules_apart modules" and "BasicCodeModules modules main_module strategy = Some cm"
  shows "GetModuleForAddress cm a = Some m \<longleftrightarrow>
    (\<exists>i<length modules. m = CodeModule_Copy i (modules ! i) \<and> in_module (modules ! i) a)"
proof -
  have "store_modules 0 modules \<lparr>merge_strategy = strategy, rmap = []\<rparr> = Some (code_map cm)"
    using assms(2) by (auto simp: BasicCodeModules_def bind_eq_Some_conv)
  from store_modules_apart [OF empty_map_facts(1) assms(1) _ this, of a m]
  show ?thesis by (simp add: GetModuleForAddress_offset empty_map_facts(2))
qed

definition sample_code_module :: "u64 \<Rightarrow> u64 \<Rightarrow> string \<Rightarrow> CodeModule" where
  "sample_code_module base sz name = \<lparr>module_object = 0, base_address = base, module_size = sz,
     shrink_down_delta = 0, code_file = name, code_ident = [], debug_file = name, debug_ident = [],
     module_version = [], is_unloaded = False\<rparr>"

lemmas modules_eval = BasicCodeModules_def StoreRange_def StoreRangeInternal.simps lower_bound_def
  RetrieveRange_def range_outputs_def CodeModule_Copy_def sample_code_module_def Let_def

text \<open>A library that overlaps the executable is cut off below it.\<close>

theorem GetModuleForAddress_sound_witness:
  "\<exists>cm. BasicCodeModules [sample_code_module 0x1000 0x1000 ''exe'', sample_code_module 0x800 0x1000 ''lib'']
       None kTruncateLower = Some cm \<and>
     (\<forall>m. GetModuleForAddress cm 0x1100 = Some m \<longrightarrow> code_file m \<in> {''exe'', ''lib''})"
  using GetModuleForAddress_sound [of "[sample_code_module 0x1000 0x1000 ''exe'', sample_code_module 0x800 0x1000 ''lib'']"
      None kTruncateLower]
  by (fastforce simp: CodeModule_Copy_def sample_code_module_def less_Suc_eq)

theorem GetModuleForAddress_apart_witness:
  "\<exists>cm. BasicCodeModules [sample_code_module 0x1000 0x1000 ''exe'', sample_code_module 0x800 0x100 ''lib'']
       None kTruncateUpper = Some cm \<and>
     GetModuleForAddress cm 0x8FF = Some ((sample_code_module 0x800 0x100 ''lib'')\<lparr>module_object := 1\<rparr>)"
proof -
  obtain cm where cm: "BasicCodeModules [sample_code_module 0x1000 0x1000 ''exe'',
      sample_code_module 0x800 0x100 ''lib''] None kTruncateUpper = Some cm"
    by (simp add: modules_eval)
  have "modules_apart [sample_code_module 0x1000 0x1000 ''exe'', sample_code_module 0x800 0x100 ''lib'']"
    by (simp add: modules_apart_def sample_code_module_def)
  from GetModuleForAddress_apart [OF this cm] cm show ?thesis
    by (auto simp: CodeModule_Copy_def in_module_def sample_code_module_def less_Suc_eq)
qed

end
