(* ===== verification/Stack_Frame_Symbolizer.thy ===== *)
theory Stack_Frame_Symbolizer
  imports Resolver_Base Code_Modules
begin

text \<open>
  \<open>StackFrameSymbolizer\<close> (\<open>processor/stack_frame_symbolizer.cc\<close>): finds the module of a
  frame, fetches its symbols once, and fills in the source information.  The supplier is an
  argument of the model, a function from modules to results; \<open>modules\<close> and
  \<open>unloaded_modules\<close> are the \<open>GetModuleForAddress\<close> of the two module lists.
\<close>

datatype SymbolResult = NOT_FOUND | FOUND (symbol_data: "char list") | INTERRUPT

datatype SymbolizerResult = kNoError | kError | kInterrupt | kWarningCorruptSymbols

type_synonym module_lookup = "u64 \<Rightarrow> CodeModule option"

record symbolizer =
  sym_supplier :: "(CodeModule \<Rightarrow> SymbolResult) option"
  sym_resolver :: "resolver option"
  no_symbol_modules :: "string set"

definition HasImplementation :: "symbolizer \<Rightarrow> bool" where
  "HasImplementation s = (sym_resolver s \<noteq> None \<and> sym_supplier s \<noteq> None)"

definition symbolizer_Reset :: "symbolizer \<Rightarrow> symbolizer" where
  "symbolizer_Reset s = s\<lparr>no_symbol_modules := {}\<rparr>"

definition module_of :: "module_lookup option \<Rightarrow> module_lookup option \<Rightarrow> u64 \<Rightarrow> CodeModule option" where
  "module_of modules unloaded_modules address =
     (case (case modules of None \<Rightarrow> None | Some get_module \<Rightarrow> get_module address) of
        Some m \<Rightarrow> Some m
      | None \<Rightarrow> (case unloaded_modules of None \<Rightarrow> None | Some get_module \<Rightarrow> get_module address))"

definition FillSourceLineInfo ::
  "module_lookup option \<Rightarrow> module_lookup option \<Rightarrow> symbolizer \<Rightarrow> 'a StackFrame_scheme \<Rightarrow>
     (SymbolizerResult \<times> symbolizer \<times> 'a StackFrame_scheme) run" where
  "FillSourceLineInfo modules unloaded_modules s frame =
     (case module_of modules unloaded_modules (instruction frame) of
        None \<Rightarrow> Some (kError, s, frame)
      | Some module \<Rightarrow>
          (let frame = frame\<lparr>frame_module := Some module\<rparr> in
           case sym_resolver s of
             None \<Rightarrow> Some (kError, s, frame)
           | Some resolver \<Rightarrow>
               if code_file module \<in> no_symbol_modules s then Some (kError, s, frame)
               else if HasModule (Some module) resolver then
                 Some (if IsModuleCorrupt (Some module) resolver then kWarningCorruptSymbols else kNoError,
                       s, Resolver_FillSourceLineInfo resolver frame)
               else
                 (case sym_supplier s of
                    None \<Rightarrow> Some (kError, s, frame)
                  | Some supplier \<Rightarrow>
                      (case supplier module of
                         FOUND data \<Rightarrow> do {
                           (load_success, resolver) \<leftarrow> LoadModuleUsingMemoryBuffer (Some module) data resolver;
                           let s = s\<lparr>sym_resolver := Some resolver\<rparr>;
                           if load_success then
                             Some (if IsModuleCorrupt (Some module) resolver
                                   then kWarningCorruptSymbols else kNoError,
                                   s, Resolver_FillSourceLineInfo resolver frame)
                           else
                             Some (kError,
                                   s\<lparr>no_symbol_modules := insert (code_file module) (no_symbol_modules s)\<rparr>,
                                   frame)
                         }
                       | NOT_FOUND \<Rightarrow>
                           Some (kError,
                             s\<lparr>no_symbol_modules := insert (code_file module) (no_symbol_modules s)\<rparr>, frame)
                       | INTERRUPT \<Rightarrow> Some (kInterrupt, s, frame)))))"

definition Symbolizer_FindWindowsFrameInfo ::
  "symbolizer \<Rightarrow> 'a StackFrame_scheme \<Rightarrow> WindowsFrameInfo option" where
  "Symbolizer_FindWindowsFrameInfo s frame =
     (case sym_resolver s of None \<Rightarrow> None | Some resolver \<Rightarrow> Resolver_FindWindowsFrameInfo resolver frame)"

definition Symbolizer_FindCFIFrameInfo ::
  "symbolizer \<Rightarrow> 'a StackFrame_scheme \<Rightarrow> CFIFrameInfo option" where
  "Symbolizer_FindCFIFrameInfo s frame =
     (case sym_resolver s of None \<Rightarrow> None | Some resolver \<Rightarrow> Resolver_FindCFIFrameInfo resolver frame)"

subsection \<open>What symbolizing a frame changes\<close>

definition symbolizer_ok :: "symbolizer \<Rightarrow> bool" where
  "symbolizer_ok s = (case sym_resolver s of None \<Rightarrow> True | Some r \<Rightarrow> resolver_ok r)"

text \<open>The parts of a frame that symbolizing keeps.\<close>

definition same_machine_state :: "'a StackFrame_scheme \<Rightarrow> 'a StackFrame_scheme \<Rightarrow> bool" where
  "same_machine_state f g = (instruction g = instruction f \<and> trust g = trust f \<and>
     StackFrame.more g = StackFrame.more f)"

lemma LookupAddress_keeps:
  "instruction (LookupAddress m base f) = instruction f"
  "trust (LookupAddress m base f) = trust f"
  "frame_module (LookupAddress m base f) = frame_module f"
  "StackFrame.more (LookupAddress m base f) = StackFrame.more f"
  by (auto simp: LookupAddress_def Let_def split: option.split)

lemma Resolver_Fill_keeps [simp]:
  "instruction (Resolver_FillSourceLineInfo r f) = instruction f"
  "trust (Resolver_FillSourceLineInfo r f) = trust f"
  "frame_module (Resolver_FillSourceLineInfo r f) = frame_module f"
  "StackFrame.more (Resolver_FillSourceLineInfo r f) = StackFrame.more f"
  by (auto simp: Resolver_FillSourceLineInfo_def LookupAddress_keeps split: option.split)

lemma FillSourceLineInfo_keeps:
  assumes "FillSourceLineInfo modules unloaded s frame = Some (res, s', frame')"
  shows "same_machine_state frame frame' \<and> sym_supplier s' = sym_supplier s \<and>
    (sym_resolver s' = None) = (sym_resolver s = None) \<and>
    frame_module frame' = (case module_of modules unloaded (instruction frame) of
       None \<Rightarrow> frame_module frame | Some m \<Rightarrow> Some m)"
  using assms
  by (auto simp: FillSourceLineInfo_def same_machine_state_def Let_def bind_eq_Some_conv
      split: option.split_asm if_split_asm SymbolResult.split_asm prod.split_asm)

lemma FillSourceLineInfo_ok:
  assumes "symbolizer_ok s" and "FillSourceLineInfo modules unloaded s frame = Some (res, s', frame')"
  shows "symbolizer_ok s'"
  using assms
  by (auto simp: FillSourceLineInfo_def symbolizer_ok_def Let_def bind_eq_Some_conv
      dest: basic.load_ok
      split: option.split_asm if_split_asm SymbolResult.split_asm prod.split_asm)

text \<open>
  Symbolizing a frame keeps its instruction, its trust and the machine state of its
  architecture, and it names the module whose range holds the instruction; the resolver stays
  well-formed.
\<close>

theorem FillSourceLineInfo_frame:
  assumes "symbolizer_ok s" and "FillSourceLineInfo modules unloaded s frame = Some (res, s', frame')"
  shows "same_machine_state frame frame' \<and> symbolizer_ok s' \<and>
    (\<forall>m. module_of modules unloaded (instruction frame) = Some m \<longrightarrow> frame_module frame' = Some m)"
  using FillSourceLineInfo_keeps [OF assms(2)] FillSourceLineInfo_ok [OF assms] by simp

text \<open>Filling in the source information twice is the same as once.\<close>

lemma LookupAddress_update:
  fixes f :: "'a StackFrame_scheme"
  shows "\<exists>u :: 'a StackFrame_scheme \<Rightarrow> 'a StackFrame_scheme. (\<forall>g. instruction g = instruction f \<longrightarrow> LookupAddress m base g = u g) \<and>
     (\<forall>g. u (u g) = u g) \<and> (\<forall>g. instruction (u g) = instruction g)"
proof -
  let ?a = "instruction f - base"
  let ?near = "RetrieveNearestRange (function_ranges m) ?a"
  let ?hit = "case ?near of None \<Rightarrow> None
     | Some (f, f_base, _, f_sz) \<Rightarrow> if f_base \<le> ?a \<and> ?a - f_base < f_sz then Some (f, f_base) else None"
  show ?thesis
  proof (cases ?hit)
    case None
    define u where "u = (\<lambda>g :: 'a StackFrame_scheme. case Retrieve (public_symbols m) ?a of
        None \<Rightarrow> g
      | Some (public_symbol, public_address) \<Rightarrow>
          if (case ?near of None \<Rightarrow> True | Some (_, f_base, _, _) \<Rightarrow> f_base < public_address)
          then g\<lparr>function_name := p_name public_symbol, function_base := base + public_address\<rparr> else g)"
    have "LookupAddress m base g = u g" if "instruction g = instruction f" for g
      unfolding LookupAddress_def Let_def that None option.case u_def by (rule refl)
    moreover have "u (u g) = u g" "instruction (u g) = instruction g" for g
      unfolding u_def by (cases "Retrieve (public_symbols m) ?a"; simp split: prod.split)+
    ultimately show ?thesis by blast
  next
    case (Some p)
    then obtain h hb where p: "?hit = Some (h, hb)" by (cases p) auto
    define u where "u = (\<lambda>g :: 'a StackFrame_scheme.
      (let func = function_objects m ! h;
           frame = g\<lparr>function_name := f_name func, function_base := base + hb\<rparr> in
       case RetrieveRange (f_lines func) ?a of
         None \<Rightarrow> frame
       | Some (line, line_base, _, _) \<Rightarrow>
           (case map_of (files m) (sint (source_file_id line)) of
              None \<Rightarrow> frame | Some file \<Rightarrow> frame\<lparr>source_file_name := file\<rparr>)
             \<lparr>source_line := line_number line, source_line_base := base + line_base\<rparr>))"
    have "LookupAddress m base g = u g" if "instruction g = instruction f" for g
      unfolding LookupAddress_def Let_def that p option.case prod.case u_def by (rule refl)
    moreover have "u (u g) = u g" "instruction (u g) = instruction g" for g
      unfolding u_def Let_def
      by (cases "RetrieveRange (f_lines (function_objects m ! h)) ?a"; simp split: prod.split option.split)+
    ultimately show ?thesis by blast
  qed
qed

lemma LookupAddress_twice:
  fixes f :: "'a StackFrame_scheme"
  shows "LookupAddress m base (LookupAddress m base f) = LookupAddress m base f"
proof -
  obtain u :: "'a StackFrame_scheme \<Rightarrow> 'a StackFrame_scheme" where u: "(\<forall>g. instruction g = instruction f \<longrightarrow> LookupAddress m base g = u g) \<and>
      (\<forall>g. u (u g) = u g) \<and> (\<forall>g. instruction (u g) = instruction g)"
    using LookupAddress_update [of f m base] by (elim exE)
  then have "LookupAddress m base f = u f" by simp
  moreover from u have "LookupAddress m base (u f) = u (u f)" by simp
  moreover from u have "u (u f) = u f" by simp
  ultimately show ?thesis by (simp only:)
qed

lemma Resolver_Fill_twice:
  "Resolver_FillSourceLineInfo r (Resolver_FillSourceLineInfo r f) = Resolver_FillSourceLineInfo r f"
  by (auto simp: Resolver_FillSourceLineInfo_def LookupAddress_keeps LookupAddress_twice split: option.split)

text \<open>
  C18: The outcome for a module is settled the first time: unless the supplier interrupts, the
  same frame symbolized again gives the same result and the same frame, changes nothing, and
  does not depend on the supplier any more.
\<close>

theorem FillSourceLineInfo_settled:
  assumes "FillSourceLineInfo modules unloaded s frame = Some (res, s', frame')"
    and "res \<noteq> kInterrupt" and "sym_supplier s \<noteq> None"
  shows "FillSourceLineInfo modules unloaded (s'\<lparr>sym_supplier := supplier\<rparr>) frame' =
    Some (res, s'\<lparr>sym_supplier := supplier\<rparr>, frame')"
proof (cases "module_of modules unloaded (instruction frame)")
  case None
  with assms(1) show ?thesis by (auto simp: FillSourceLineInfo_def)
next
  case (Some m)
  let ?f = "frame\<lparr>frame_module := Some m\<rparr>"
  have fm: "g\<lparr>frame_module := Some m\<rparr> = g" if "frame_module g = Some m" for g :: "'a StackFrame_scheme"
    using that by simp
  note fill = assms(1) [unfolded FillSourceLineInfo_def Some option.case Let_def]
  show ?thesis
  proof (cases "sym_resolver s")
    case None
    with fill Some show ?thesis by (auto simp: FillSourceLineInfo_def)
  next
    case (Some r)
    note res = Some
    consider (missing) "code_file m \<in> no_symbol_modules s" | (known) "code_file m \<notin> no_symbol_modules s" "HasModule (Some m) r"
      | (fetch) "code_file m \<notin> no_symbol_modules s" "\<not> HasModule (Some m) r" by blast
    then show ?thesis
    proof cases
      case missing
      with fill res \<open>module_of _ _ _ = Some m\<close> show ?thesis by (auto simp: FillSourceLineInfo_def)
    next
      case known
      with fill res have "s' = s" "frame' = Resolver_FillSourceLineInfo r ?f"
        "res = (if IsModuleCorrupt (Some m) r then kWarningCorruptSymbols else kNoError)" by auto
      with known res \<open>module_of _ _ _ = Some m\<close> show ?thesis
        by (simp add: FillSourceLineInfo_def Let_def Resolver_Fill_twice fm)
    next
      case fetch
      obtain supplier0 where sup: "sym_supplier s = Some supplier0" using assms(3) by blast
      show ?thesis
      proof (cases "supplier0 m")
        case NOT_FOUND
        with fetch fill res sup have "s' = s\<lparr>no_symbol_modules := insert (code_file m) (no_symbol_modules s)\<rparr>"
          "frame' = ?f" "res = kError" by auto
        with res \<open>module_of _ _ _ = Some m\<close> show ?thesis
          by (simp add: FillSourceLineInfo_def Let_def)
      next
        case (FOUND data)
        with fetch fill res sup obtain success r' where
          load: "LoadModuleUsingMemoryBuffer (Some m) data r = Some (success, r')"
          by (auto simp: bind_eq_Some_conv)
        have new: "success" "HasModule (Some m) r'" using basic.load_new [OF load fetch(2)] by auto
        with FOUND fetch fill res sup load have "s' = s\<lparr>sym_resolver := Some r'\<rparr>"
          "frame' = Resolver_FillSourceLineInfo r' ?f"
          "res = (if IsModuleCorrupt (Some m) r' then kWarningCorruptSymbols else kNoError)" by auto
        with new fetch(1) \<open>module_of _ _ _ = Some m\<close> show ?thesis
          by (simp add: FillSourceLineInfo_def Let_def Resolver_Fill_twice fm)
      next
        case INTERRUPT
        with fetch fill res sup assms(2) show ?thesis by auto
      qed
    qed
  qed
qed

subsection \<open>A sample symbolizer\<close>

definition sample_lookup :: module_lookup where
  "sample_lookup a = (if 0x400000 \<le> a \<and> a < 0x410000 then Some sample_exe else None)"

definition sample_symbolizer :: symbolizer where
  "sample_symbolizer = \<lparr>sym_supplier = Some (\<lambda>_. FOUND (sample_symbols @ [NUL])),
     sym_resolver = Some new_resolver, no_symbol_modules = {}\<rparr>"

abbreviation sample_frame :: StackFrame where
  "sample_frame \<equiv> new_StackFrame\<lparr>instruction := 0x401002\<rparr>"

abbreviation filled_frame :: StackFrame where
  "filled_frame \<equiv> sample_frame\<lparr>frame_module := Some sample_exe, function_name := ''main'',
     function_base := 0x401000, source_file_name := ''a.c'', source_line := 7, source_line_base := 0x401000\<rparr>"

lemma sample_memory_load:
  "LoadModuleUsingMemoryBuffer (Some sample_exe) (sample_symbols @ [NUL]) new_resolver =
     Some (True, sample_resolver)"
  using sample_resolver_load by (simp add: LoadModuleUsingMapBuffer_def new_resolver_def)

lemma sample_lookup_line:
  "LookupAddress sample_module 0x400000 (sample_frame\<lparr>frame_module := Some sample_exe\<rparr>) = filled_frame"
  by (simp add: LookupAddress_ranges [OF sample_module_ok]) (simp add: sample_module_def new_StackFrame_def)

lemma sample_fill:
  "FillSourceLineInfo (Some sample_lookup) None sample_symbolizer sample_frame =
     Some (kNoError, sample_symbolizer\<lparr>sym_resolver := Some sample_resolver\<rparr>, filled_frame)"
proof -
  have "Resolver_FillSourceLineInfo sample_resolver (sample_frame\<lparr>frame_module := Some sample_exe\<rparr>) =
      filled_frame"
    using sample_lookup_line
    by (simp add: Resolver_FillSourceLineInfo_def sample_resolver_def module_key_def sample_exe_def)
  moreover have "module_of (Some sample_lookup) None 0x401002 = Some sample_exe"
    by (simp add: module_of_def sample_lookup_def)
  moreover have "\<not> HasModule (Some sample_exe) new_resolver" "\<not> IsModuleCorrupt (Some sample_exe) sample_resolver"
    by (simp_all add: HasModule_def IsModuleCorrupt_def new_resolver_def sample_resolver_def)
  ultimately show ?thesis
    by (simp add: FillSourceLineInfo_def sample_symbolizer_def sample_memory_load Let_def)
qed

theorem FillSourceLineInfo_frame_witness:
  "same_machine_state sample_frame filled_frame \<and>
   symbolizer_ok (sample_symbolizer\<lparr>sym_resolver := Some sample_resolver\<rparr>)"
proof -
  have "symbolizer_ok sample_symbolizer" by (simp add: symbolizer_ok_def sample_symbolizer_def)
  from FillSourceLineInfo_frame [OF this sample_fill] show ?thesis by blast
qed

text \<open>Once loaded, the symbols are used without the supplier.\<close>

theorem FillSourceLineInfo_settled_witness:
  "FillSourceLineInfo (Some sample_lookup) None
     (sample_symbolizer\<lparr>sym_resolver := Some sample_resolver, sym_supplier := None\<rparr>) filled_frame =
   Some (kNoError, sample_symbolizer\<lparr>sym_resolver := Some sample_resolver, sym_supplier := None\<rparr>, filled_frame)"
  using FillSourceLineInfo_settled [OF sample_fill, of None] by (simp add: sample_symbolizer_def)

end
