(* ===== verification/Stackwalker.thy ===== *)
theory Stackwalker
  imports Stack_Frame_Symbolizer
begin

text \<open>
  The parts of \<open>Stackwalker\<close> (\<open>processor/stackwalker.cc\<close>,
  \<open>google_breakpad/processor/stackwalker.h\<close>) that all processors share: the walk itself,
  the test that ends it, and the scan for a return address.  What a processor adds,
  \<open>GetContextFrame\<close> and \<open>GetCallerFrame\<close>, are arguments of \<open>Walk\<close>; the locale
  \<open>frame_walker\<close> states what the walk needs of them.  A caller is computed from the frames
  walked so far; it may change the last of them, which is returned with it.  What a walk does is
  stated as its history, from which the lemmas of the locales follow.

  The stack memory is a record of the \<open>MemoryRegion\<close> interface: its bounds and its reads.
\<close>

record memory_region =
  region_base :: u64
  region_size :: u32
  read_u32 :: "32 memory"
  read_u64 :: "64 memory"

record stackwalker =
  walker_modules :: "module_lookup option"
  walker_unloaded_modules :: "module_lookup option"
  max_frames :: u32
  max_frames_scanned :: u32

definition kRASearchWords :: nat where "kRASearchWords = 40"

text \<open>The module lists are set by the caller, the limits are the static defaults.\<close>

definition new_stackwalker :: "module_lookup option \<Rightarrow> module_lookup option \<Rightarrow> stackwalker" where
  "new_stackwalker modules unloaded_modules =
     \<lparr>walker_modules = modules, walker_unloaded_modules = unloaded_modules,
      max_frames = push_bit 20 1, max_frames_scanned = push_bit 14 1\<rparr>"

definition set_max_frames :: "u32 \<Rightarrow> stackwalker \<Rightarrow> stackwalker" where
  "set_max_frames n w = w\<lparr>max_frames := n\<rparr>"

definition set_max_frames_scanned :: "u32 \<Rightarrow> stackwalker \<Rightarrow> stackwalker" where
  "set_max_frames_scanned n w = w\<lparr>max_frames_scanned := n\<rparr>"

text \<open>Reading a dictionary with \<open>operator[]\<close>.\<close>

definition dict_value :: "(string \<rightharpoonup> 'v::zero) \<Rightarrow> string \<Rightarrow> 'v" where
  "dict_value d name = (case d name of None \<Rightarrow> 0 | Some v \<Rightarrow> v)"

subsection \<open>Ending a walk, and plausible addresses\<close>

definition TerminateWalk :: "u64 \<Rightarrow> u64 \<Rightarrow> u64 \<Rightarrow> bool \<Rightarrow> bool" where
  "TerminateWalk caller_ip caller_sp callee_sp first_unwind =
     (if caller_ip < push_bit 12 1 then True
      else if (if first_unwind then caller_sp < callee_sp else caller_sp \<le> callee_sp) then True
      else False)"

definition InstructionAddressSeemsValid ::
  "stackwalker \<Rightarrow> u64 \<Rightarrow> symbolizer \<Rightarrow> (bool \<times> symbolizer) run" where
  "InstructionAddressSeemsValid w address s = do {
     (symbolizer_result, s, frame) \<leftarrow>
       FillSourceLineInfo (walker_modules w) (walker_unloaded_modules w) s
         (new_StackFrame\<lparr>instruction := address\<rparr>);
     Some (if frame_module frame = None then False
           else if \<not> HasImplementation s then True
           else if symbolizer_result \<noteq> kNoError \<and> symbolizer_result \<noteq> kWarningCorruptSymbols then True
           else function_name frame \<noteq> [], s)
   }"

subsection \<open>Scanning for a return address\<close>

text \<open>
  The loop of \<open>ScanForReturnAddress\<close> for an instruction type of width \<open>'w\<close>.  The bound
  is computed in \<open>size_t\<close>, 64 bits; the location is of the instruction type and wraps there.
\<close>

definition word_bytes :: "'w::len word itself \<Rightarrow> nat" where
  "word_bytes t = LENGTH('w) div 8"

partial_function (option) scan_words ::
  "stackwalker \<Rightarrow> 'w::len memory \<Rightarrow> u64 \<Rightarrow> 'w word \<Rightarrow> symbolizer \<Rightarrow>
     (('w word \<times> 'w word) option \<times> symbolizer) run" where
  "scan_words w read bound location s =
     (if bound < ucast location then Some (None, s)
      else
        (case read (ucast location) of
           None \<Rightarrow> Some (None, s)
         | Some ip \<Rightarrow>
             (if (case walker_modules w of None \<Rightarrow> True | Some get_module \<Rightarrow> get_module (ucast (ip - 1)) = None)
              then scan_words w read bound (location + of_nat (word_bytes TYPE('w word))) s
              else
                (case InstructionAddressSeemsValid w (ucast (ip - 1)) s of
                   None \<Rightarrow> None
                 | Some (ok, s') \<Rightarrow>
                     (if ok then Some (Some (location, ip), s')
                      else scan_words w read bound (location + of_nat (word_bytes TYPE('w word))) s')))))"

text \<open>The result is the location and the address found there.\<close>

definition ScanForReturnAddress ::
  "stackwalker \<Rightarrow> 'w::len memory \<Rightarrow> 'w word \<Rightarrow> nat \<Rightarrow> symbolizer \<Rightarrow>
     (('w word \<times> 'w word) option \<times> symbolizer) run" where
  "ScanForReturnAddress w read location_start searchwords s =
     scan_words w read (ucast location_start + of_nat (searchwords * word_bytes TYPE('w word)))
       location_start s"

definition search_words :: "bool \<Rightarrow> nat" where
  "search_words is_context_frame = (if is_context_frame then kRASearchWords * 4 else kRASearchWords)"

subsection \<open>The call stack and the walk\<close>

record 'f call_stack =
  frames :: "'f list"
  tid :: u32

text \<open>\<open>Clear\<close> deletes the frames but keeps the vector of pointers to them.\<close>

definition CallStack_Clear :: "'f call_stack \<Rightarrow> 'f call_stack" where
  "CallStack_Clear cs = cs\<lparr>tid := 0\<rparr>"

abbreviation empty_stack :: "'f call_stack" where
  "empty_stack \<equiv> \<lparr>frames = [], tid = 0\<rparr>"

definition InsertSpecialAttentionModule :: "CodeModule option \<Rightarrow> CodeModule list \<Rightarrow> CodeModule list" where
  "InsertSpecialAttentionModule module modules =
     (case module of
        None \<Rightarrow> modules
      | Some m \<Rightarrow>
          if \<exists>x\<in>set modules. module_object x = module_object m then modules else modules @ [m])"

definition dubious :: "FrameTrust \<Rightarrow> bool" where
  "dubious t = (t \<in> {FRAME_TRUST_NONE, FRAME_TRUST_SCAN, FRAME_TRUST_CFI_SCAN})"

text \<open>The state of the loop beside the frame in hand.\<close>

record 'f walk_state =
  walked :: "'f list"
  scanned_frames :: u32
  modules_without_symbols :: "CodeModule list"
  modules_with_corrupt_symbols :: "CodeModule list"
  walk_symbolizer :: symbolizer

type_synonym ('f) caller_of =
  "'f list \<Rightarrow> bool \<Rightarrow> symbolizer \<Rightarrow> ('f option \<times> 'f \<times> symbolizer) run"

text \<open>The frame is symbolized, counted and added; the first component is false on an interrupt.\<close>

definition add_frame ::
  "stackwalker \<Rightarrow> 'a StackFrame_scheme \<Rightarrow> 'a StackFrame_scheme walk_state \<Rightarrow>
     (bool \<times> 'a StackFrame_scheme walk_state) run" where
  "add_frame w frame st = do {
     (symbolizer_result, s, frame) \<leftarrow>
       FillSourceLineInfo (walker_modules w) (walker_unloaded_modules w) (walk_symbolizer st) frame;
     let st = st\<lparr>walk_symbolizer := s\<rparr>;
     if symbolizer_result = kInterrupt then Some (False, st)
     else
       let st = (if symbolizer_result = kError
                 then st\<lparr>modules_without_symbols :=
                        InsertSpecialAttentionModule (frame_module frame) (modules_without_symbols st)\<rparr>
                 else if symbolizer_result = kWarningCorruptSymbols
                 then st\<lparr>modules_with_corrupt_symbols :=
                        InsertSpecialAttentionModule (frame_module frame) (modules_with_corrupt_symbols st)\<rparr>
                 else st);
           st = (if dubious (trust frame) then st\<lparr>scanned_frames := scanned_frames st + 1\<rparr> else st)
       in Some (True, st\<lparr>walked := walked st @ [frame]\<rparr>)
   }"

lemma add_frame_walked:
  "add_frame w frame st = Some (True, st') \<Longrightarrow> \<exists>f. walked st' = walked st @ [f]"
  by (auto simp: add_frame_def Let_def bind_eq_Some_conv split: if_split_asm)

function walk_loop ::
  "stackwalker \<Rightarrow> 'a StackFrame_scheme caller_of \<Rightarrow> 'a StackFrame_scheme option \<Rightarrow>
     'a StackFrame_scheme walk_state \<Rightarrow> (bool \<times> 'a StackFrame_scheme walk_state) run" where
  "walk_loop w get_caller frame st =
     (case frame of
        None \<Rightarrow> Some (True, st)
      | Some frame \<Rightarrow>
          (case add_frame w frame st of
             None \<Rightarrow> None
           | Some (ok, st) \<Rightarrow>
               if \<not> ok then Some (False, st)
               else if unat (max_frames w) < length (walked st) then Some (True, st)
               else
                 (case get_caller (walked st) (scanned_frames st < max_frames_scanned w)
                         (walk_symbolizer st) of
                    None \<Rightarrow> None
                  | Some (next_frame, last_frame, s) \<Rightarrow>
                      walk_loop w get_caller next_frame
                        (st\<lparr>walked := butlast (walked st) @ [last_frame], walk_symbolizer := s\<rparr>))))"
  by pat_completeness auto
termination
  by (relation "measure (\<lambda>(w, _, _, st). unat (max_frames w) + 1 - length (walked st))")
    (auto dest!: add_frame_walked)

declare walk_loop.simps [simp del]

definition Walk ::
  "stackwalker \<Rightarrow> 'a StackFrame_scheme caller_of \<Rightarrow> 'a StackFrame_scheme option \<Rightarrow>
     'a StackFrame_scheme call_stack \<Rightarrow> CodeModule list \<Rightarrow> CodeModule list \<Rightarrow> symbolizer \<Rightarrow>
     (bool \<times> 'a StackFrame_scheme call_stack \<times> CodeModule list \<times> CodeModule list \<times> symbolizer) run" where
  "Walk w get_caller context_frame cs missing corrupt s = do {
     let cs = CallStack_Clear cs;
     (ok, st) \<leftarrow> walk_loop w get_caller context_frame
       \<lparr>walked = frames cs, scanned_frames = 0, modules_without_symbols = missing,
        modules_with_corrupt_symbols = corrupt, walk_symbolizer = s\<rparr>;
     Some (ok, cs\<lparr>frames := walked st\<rparr>, modules_without_symbols st, modules_with_corrupt_symbols st,
           walk_symbolizer st)
   }"

subsection \<open>What a scan finds\<close>

text \<open>
  A scan result lies on the stack at a word distance from the start, holds the address found,
  and that address is in a module.
\<close>

lemma scan_words_found:
  fixes location :: "'w::len word"
  assumes "scan_words w read bound location s = Some r" and "fst r = Some (loc, ip)"
  shows "read (ucast loc) = Some ip \<and> (\<exists>get_module. walker_modules w = Some get_module \<and>
      get_module (ucast (ip - 1)) \<noteq> None) \<and> ucast loc \<le> bound \<and>
    (\<exists>k. loc = location + of_nat (k * word_bytes TYPE('w word)))"
  using assms(2)
proof (induction rule: scan_words.raw_induct [rotated, OF assms(1), consumes 0])
  case (1 scan w read bound location s r)
  let ?next = "location + of_nat (word_bytes TYPE('w word))"
  have step: "\<exists>k. loc = ?next + of_nat (k * word_bytes TYPE('w word)) \<Longrightarrow>
      \<exists>k. loc = location + of_nat (k * word_bytes TYPE('w word))"
    by (metis add.assoc mult_Suc of_nat_add)
  have here: "\<exists>k. location = location + of_nat (k * word_bytes TYPE('w word))" by (rule exI [of _ 0]) simp
  show ?case
  proof (cases "read (ucast location)")
    case None
    with 1(2,3) show ?thesis by (auto split: if_split_asm)
  next
    case (Some found)
    note read = Some
    have bound: "\<not> bound < ucast location" using 1(2,3) by (auto split: if_split_asm)
    have again: ?thesis if "scan w read bound ?next s' = Some r" for s'
      using 1(1) [OF that 1(3)] step by blast
    show ?thesis
    proof (cases "case walker_modules w of None \<Rightarrow> True | Some get_module \<Rightarrow> get_module (ucast (found - 1)) = None")
      case True
      with 1(2) read bound again show ?thesis by simp
    next
      case False
      then obtain get_module where gm: "walker_modules w = Some get_module" "get_module (ucast (found - 1)) \<noteq> None"
        by (auto split: option.split_asm)
      obtain ok s' where valid: "InstructionAddressSeemsValid w (ucast (found - 1)) s = Some (ok, s')"
        using 1(2) read bound False by (auto split: option.split_asm)
      show ?thesis
      proof (cases ok)
        case True
        with 1(2,3) read bound False valid have "loc = location" "ip = found" by auto
        with read bound gm here show ?thesis by (auto simp: not_less)
      next
        case False
        with 1(2) read bound \<open>\<not> (case walker_modules w of None \<Rightarrow> True | _ \<Rightarrow> _)\<close> valid again
        show ?thesis by simp
      qed
    qed
  qed
qed

text \<open>
  The law of a memory region: only words inside its bounds can be read.  A region does not
  reach around the address space, so a scan comes to its end.
\<close>

definition reads_within :: "'w::len memory \<Rightarrow> u64 \<Rightarrow> u32 \<Rightarrow> bool" where
  "reads_within read base sz = (\<forall>a v. read a = Some v \<longrightarrow>
     unat base \<le> unat a \<and> unat a + word_bytes TYPE('w word) \<le> unat base + unat sz)"

definition symbolizer_returns :: "stackwalker \<Rightarrow> (symbolizer \<Rightarrow> bool) \<Rightarrow> bool" where
  "symbolizer_returns w keeps = (\<forall>s a. keeps s \<longrightarrow>
     (\<exists>ok s'. InstructionAddressSeemsValid w a s = Some (ok, s') \<and> keeps s'))"

lemma scan_words_returns:
  fixes location :: "'w::len word"
  assumes within: "reads_within read base sz" and fits: "unat base + unat sz \<le> 2 ^ LENGTH('w)"
    and width: "32 \<le> LENGTH('w)" "LENGTH('w) \<le> 64"
    and sym: "symbolizer_returns w keeps" and "keeps s"
  shows "\<exists>r s'. scan_words w read bound location s = Some (r, s') \<and> keeps s'"
  using \<open>keeps s\<close>
proof (induction "unat base + unat sz - unat location" arbitrary: location s rule: less_induct)
  case less
  let ?B = "word_bytes TYPE('w word)" and ?next = "location + of_nat (word_bytes TYPE('w word))"
  have B: "0 < ?B" "?B < 2 ^ LENGTH('w)"
    using width le_less_trans [OF div_le_dividend less_exp, of "LENGTH('w)" 8]
    by (auto simp: word_bytes_def)
  have up: "unat (ucast x :: u64) = unat x" for x :: "'w word"
  proof -
    have "(2 :: nat) ^ LENGTH('w) \<le> 2 ^ 64" using width(2) by (intro power_increasing) auto
    then have "unat x < 2 ^ 64" using unsigned_less [of x] by (rule less_le_trans [rotated])
    then show ?thesis by (simp add: unsigned_ucast_eq take_bit_nat_eq_self)
  qed
  show ?case
  proof (cases "read (ucast location)")
    case None
    with less.prems show ?thesis by (subst scan_words.simps) simp
  next
    case (Some ip)
    then have inside: "unat base \<le> unat location" "unat location + ?B \<le> unat base + unat sz"
      using within up [of location] by (auto simp: reads_within_def)
    have again: "\<exists>r s2. scan_words w read bound ?next s1 = Some (r, s2) \<and> keeps s2" if "keeps s1" for s1
    proof (cases "unat location + ?B < 2 ^ LENGTH('w)")
      case True
      then have "unat ?next = unat location + ?B"
        using B by (simp add: unat_word_ariths unat_of_nat)
      then show ?thesis using inside B by (intro less.hyps that) simp
    next
      case False
      then have top: "unat location + ?B = 2 ^ LENGTH('w)" using inside fits by simp
      have "?next = of_nat (unat location + ?B)" by simp
      also have "\<dots> = 0" unfolding top by simp
      finally have zero: "?next = 0" .
      have "(2 :: nat) ^ 32 \<le> 2 ^ LENGTH('w)" using width by (intro power_increasing) auto
      moreover have "unat sz < 2 ^ 32" using unsigned_less [of sz, where ?'a = nat] by simp
      ultimately have "0 < unat base" using top inside by simp
      then have "read (0 :: u64) = None"
        using within by (cases "read 0") (auto simp: reads_within_def)
      then show ?thesis using that unfolding zero by (subst scan_words.simps) simp
    qed
    obtain ok s' where "InstructionAddressSeemsValid w (ucast (ip - 1)) s = Some (ok, s')" "keeps s'"
      using sym less.prems unfolding symbolizer_returns_def by blast
    with Some again less.prems show ?thesis by (subst scan_words.simps) auto
  qed
qed

text \<open>
  C19: A scan for a return address returns, over any stack memory that can only be read inside
  its bounds; and what it finds is a word on the stack, between the start and the search limit,
  that points into a module.
\<close>

theorem ScanForReturnAddress_correct:
  fixes location_start :: "'w::len word"
  assumes "reads_within read base sz" and "unat base + unat sz \<le> 2 ^ LENGTH('w)"
    and "32 \<le> LENGTH('w)" "LENGTH('w) \<le> 64"
    and "symbolizer_returns w keeps" and "keeps s"
  shows "\<exists>r s'. ScanForReturnAddress w read location_start n s = Some (r, s') \<and> keeps s' \<and>
    (\<forall>loc ip. r = Some (loc, ip) \<longrightarrow>
       read (ucast loc) = Some ip \<and>
       (\<exists>get_module. walker_modules w = Some get_module \<and> get_module (ucast (ip - 1)) \<noteq> None) \<and>
       ucast loc \<le> (ucast location_start + of_nat (n * word_bytes TYPE('w word)) :: u64) \<and>
       (\<exists>k. loc = location_start + of_nat (k * word_bytes TYPE('w word))))"
proof -
  obtain r s' where run: "ScanForReturnAddress w read location_start n s = Some (r, s')" "keeps s'"
    unfolding ScanForReturnAddress_def using scan_words_returns [OF assms] by blast
  from scan_words_found [OF run(1) [unfolded ScanForReturnAddress_def]] run show ?thesis by auto
qed

definition sample_walker :: stackwalker where
  "sample_walker = new_stackwalker (Some sample_lookup) None"

text \<open>Four words of stack, the third of which points into the sample module.\<close>

definition sample_stack :: "32 memory" where
  "sample_stack a = (if a \<in> {0x1000, 0x1004, 0x100C} then Some 0
     else if a = 0x1008 then Some 0x401006 else None)"

abbreviation no_symbols :: symbolizer where
  "no_symbols \<equiv> \<lparr>sym_supplier = None, sym_resolver = None, no_symbol_modules = {}\<rparr>"

lemma sample_stack_within: "reads_within sample_stack 0x1000 0x10"
  by (auto simp: reads_within_def sample_stack_def word_bytes_def split: if_split_asm)

lemma no_resolver_returns: "symbolizer_returns w (\<lambda>s. sym_resolver s = None)"
  by (auto simp: symbolizer_returns_def InstructionAddressSeemsValid_def FillSourceLineInfo_def
      split: option.split)

theorem ScanForReturnAddress_correct_witness:
  "\<exists>r s'. ScanForReturnAddress sample_walker sample_stack 0x1000 3 no_symbols = Some (r, s') \<and>
     (\<forall>loc ip. r = Some (loc, ip) \<longrightarrow> sample_stack (ucast loc) = Some ip \<and> ucast loc \<le> (0x100C :: u64))"
  using ScanForReturnAddress_correct [OF sample_stack_within _ _ _ no_resolver_returns,
      where w = sample_walker and s = no_symbols and location_start = "0x1000" and n = 3]
  by (auto simp: word_bytes_def)

subsection \<open>The history of a walk\<close>

text \<open>
  A visit is one round of the walk: the frame as it was found, what symbolizing it gave, and the
  symbolizer before and after.  The history of a walk is the list of its visits.
\<close>

record 'f visit =
  visit_frame :: 'f
  visit_before :: symbolizer
  visit_result :: SymbolizerResult
  visit_symbolized :: 'f
  visit_after :: symbolizer

definition dubious_visits :: "'a StackFrame_scheme visit list \<Rightarrow> nat" where
  "dubious_visits vs = length (filter (\<lambda>v. trust (visit_symbolized v) \<in>
     {FRAME_TRUST_NONE, FRAME_TRUST_SCAN, FRAME_TRUST_CFI_SCAN}) vs)"

text \<open>
  What the walk has in hand after some visits: at first the frame of the context; then the caller
  of the last frame, looked for with the frames walked so far, and by scanning only while
  fewer than \<open>max_frames_scanned\<close> of them are dubious.
\<close>

definition after_visits ::
  "stackwalker \<Rightarrow> 'a StackFrame_scheme caller_of \<Rightarrow> 'a StackFrame_scheme option \<Rightarrow> symbolizer \<Rightarrow>
     'a StackFrame_scheme visit list \<Rightarrow> 'a StackFrame_scheme list \<Rightarrow>
     'a StackFrame_scheme option \<Rightarrow> symbolizer \<Rightarrow> bool" where
  "after_visits w get_caller context_frame s vs fs in_hand s' =
     (if vs = [] then in_hand = context_frame \<and> s' = s
      else get_caller (butlast fs @ [visit_symbolized (last vs)])
             (dubious_visits vs < unat (max_frames_scanned w)) (visit_after (last vs)) =
           Some (in_hand, last fs, s'))"

text \<open>Every visit symbolizes the frame in hand, and none of these was interrupted.\<close>

definition walk_history ::
  "stackwalker \<Rightarrow> 'a StackFrame_scheme caller_of \<Rightarrow> 'a StackFrame_scheme option \<Rightarrow> symbolizer \<Rightarrow>
     'a StackFrame_scheme visit list \<Rightarrow> 'a StackFrame_scheme list \<Rightarrow> bool" where
  "walk_history w get_caller context_frame s vs fs =
     (length vs = length fs \<and>
      (\<forall>i<length vs. let v = vs ! i in
         after_visits w get_caller context_frame s (take i vs) (take i fs) (Some (visit_frame v)) (visit_before v) \<and>
         FillSourceLineInfo (walker_modules w) (walker_unloaded_modules w) (visit_before v) (visit_frame v) =
           Some (visit_result v, visit_after v, visit_symbolized v) \<and>
         visit_result v \<noteq> kInterrupt))"

text \<open>
  How a walk ends: without a frame in hand, on the interrupt of the next frame, or with one
  frame more than the limit, whose caller is not looked for.
\<close>

definition walk_finish ::
  "stackwalker \<Rightarrow> 'a StackFrame_scheme caller_of \<Rightarrow> 'a StackFrame_scheme option \<Rightarrow> symbolizer \<Rightarrow>
     'a StackFrame_scheme visit list \<Rightarrow> 'a StackFrame_scheme list \<Rightarrow> bool \<Rightarrow> symbolizer \<Rightarrow> bool" where
  "walk_finish w get_caller context_frame s vs fs completed s' =
     (length fs \<le> unat (max_frames w) \<and> completed \<and>
        after_visits w get_caller context_frame s vs fs None s' \<or>
      length fs \<le> unat (max_frames w) \<and> \<not> completed \<and>
        (\<exists>f s0 g. after_visits w get_caller context_frame s vs fs (Some f) s0 \<and>
           FillSourceLineInfo (walker_modules w) (walker_unloaded_modules w) s0 f = Some (kInterrupt, s', g)) \<or>
      length fs = Suc (unat (max_frames w)) \<and> completed \<and>
        last fs = visit_symbolized (last vs) \<and> s' = visit_after (last vs))"

text \<open>The modules reported with one result: those of the frames, each object once, behind the earlier ones.\<close>

definition modules_with :: "SymbolizerResult \<Rightarrow> 'a StackFrame_scheme visit list \<Rightarrow> CodeModule set" where
  "modules_with res vs = {m. \<exists>v\<in>set vs. visit_result v = res \<and> frame_module (visit_symbolized v) = Some m}"

definition modules_reported ::
  "SymbolizerResult \<Rightarrow> 'a StackFrame_scheme visit list \<Rightarrow> CodeModule list \<Rightarrow> CodeModule list \<Rightarrow> bool" where
  "modules_reported res vs ms ms' =
     (\<exists>new. ms' = ms @ new \<and> distinct (map module_object new) \<and> set new \<subseteq> modules_with res vs \<and>
        module_object ` set new = module_object ` modules_with res vs - module_object ` set ms)"

lemma after_visits_snoc:
  "after_visits w get_caller context_frame s (vs @ [v]) (fs @ [f]) in_hand s' =
     (get_caller (fs @ [visit_symbolized v]) (dubious_visits (vs @ [v]) < unat (max_frames_scanned w)) (visit_after v) =
        Some (in_hand, f, s'))"
  by (simp add: after_visits_def)

lemma walk_history_snoc:
  assumes "length vs = length fs"
  shows "walk_history w get_caller context_frame s (vs @ [v]) (fs @ [f]) \<longleftrightarrow>
    walk_history w get_caller context_frame s vs fs \<and>
    after_visits w get_caller context_frame s vs fs (Some (visit_frame v)) (visit_before v) \<and>
    FillSourceLineInfo (walker_modules w) (walker_unloaded_modules w) (visit_before v) (visit_frame v) =
      Some (visit_result v, visit_after v, visit_symbolized v) \<and>
    visit_result v \<noteq> kInterrupt"
proof -
  have "length (vs @ [v]) = Suc (length vs)" by simp
  then show ?thesis
    unfolding walk_history_def \<open>length (vs @ [v]) = Suc (length vs)\<close> All_less_Suc
    using assms by (auto simp: nth_append)
qed

lemma modules_reported_Nil [simp]: "modules_reported res [] ms ms"
  by (simp add: modules_reported_def modules_with_def)

lemma modules_reported_other:
  "visit_result v \<noteq> res \<Longrightarrow> modules_reported res (vs @ [v]) ms ms' = modules_reported res vs ms ms'"
  by (simp add: modules_reported_def modules_with_def)

lemma modules_reported_insert:
  assumes "modules_reported res vs ms ms'" and "visit_result v = res"
  shows "modules_reported res (vs @ [v]) ms (InsertSpecialAttentionModule (frame_module (visit_symbolized v)) ms')"
proof -
  obtain new where new: "ms' = ms @ new" "distinct (map module_object new)" "set new \<subseteq> modules_with res vs"
      "module_object ` set new = module_object ` modules_with res vs - module_object ` set ms"
    using assms(1) by (auto simp: modules_reported_def)
  show ?thesis
  proof (cases "frame_module (visit_symbolized v)")
    case None
    with assms(2) have "modules_with res (vs @ [v]) = modules_with res vs" by (auto simp: modules_with_def)
    with assms(1) None show ?thesis by (simp add: modules_reported_def InsertSpecialAttentionModule_def)
  next
    case (Some m)
    with assms(2) have more: "modules_with res (vs @ [v]) = insert m (modules_with res vs)"
      by (auto simp: modules_with_def)
    have known: "(\<exists>x\<in>set ms'. module_object x = module_object m) \<longleftrightarrow>
        module_object m \<in> module_object ` set ms \<union> module_object ` set new"
      unfolding new(1) by (auto simp: image_iff eq_commute [of _ "module_object m"])
    show ?thesis
    proof (cases "\<exists>x\<in>set ms'. module_object x = module_object m")
      case True
      then have "module_object m \<in> module_object ` set ms \<union> module_object ` set new" by (simp only: known)
      then have objects: "module_object ` set new =
          module_object ` modules_with res (vs @ [v]) - module_object ` set ms"
        unfolding more image_insert new(4) by blast
      have same: "InsertSpecialAttentionModule (Some m) ms' = ms'"
        using True by (simp add: InsertSpecialAttentionModule_def)
      have "set new \<subseteq> modules_with res (vs @ [v])" using new(3) more by blast
      with new(1,2) objects show ?thesis
        unfolding modules_reported_def Some same by blast
    next
      case False
      with known have fresh: "module_object m \<notin> module_object ` set ms" by simp
      have objects: "module_object ` set (new @ [m]) =
          module_object ` modules_with res (vs @ [v]) - module_object ` set ms"
        by (simp only: more image_insert set_append list.set image_Un image_empty new(4) insert_Diff_if fresh if_False) simp
      have "distinct (map module_object (new @ [m]))" using False known new(2) by auto
      moreover have added: "InsertSpecialAttentionModule (Some m) ms' = ms @ new @ [m]"
        using False new(1) by (simp add: InsertSpecialAttentionModule_def)
      moreover have "set (new @ [m]) \<subseteq> modules_with res (vs @ [v])" using new(3) more by auto
      ultimately show ?thesis
        using objects unfolding modules_reported_def Some added by blast
    qed
  qed
qed

text \<open>One round of the loop is one visit.\<close>

definition history_of ::
  "stackwalker \<Rightarrow> 'a StackFrame_scheme caller_of \<Rightarrow> 'a StackFrame_scheme option \<Rightarrow> symbolizer \<Rightarrow>
     CodeModule list \<Rightarrow> CodeModule list \<Rightarrow> 'a StackFrame_scheme visit list \<Rightarrow>
     'a StackFrame_scheme walk_state \<Rightarrow> bool" where
  "history_of w get_caller context_frame s missing corrupt vs st =
     (walk_history w get_caller context_frame s vs (walked st) \<and>
      modules_reported kError vs missing (modules_without_symbols st) \<and>
      modules_reported kWarningCorruptSymbols vs corrupt (modules_with_corrupt_symbols st))"

lemma add_frame_visit:
  assumes history: "history_of w get_caller context_frame s missing corrupt vs st"
    and hand: "after_visits w get_caller context_frame s vs (walked st) (Some f) (walk_symbolizer st)"
    and add: "add_frame w f st = Some (ok, st')"
  shows "if ok then \<exists>v. walked st' = walked st @ [visit_symbolized v] \<and> walk_symbolizer st' = visit_after v \<and>
      (\<forall>x. history_of w get_caller context_frame s missing corrupt (vs @ [v]) (st'\<lparr>walked := walked st @ [x]\<rparr>)) \<and>
      scanned_frames st' = scanned_frames st + of_nat (dubious_visits [v])
    else history_of w get_caller context_frame s missing corrupt vs st' \<and> walked st' = walked st \<and>
      (\<exists>g. FillSourceLineInfo (walker_modules w) (walker_unloaded_modules w) (walk_symbolizer st) f =
         Some (kInterrupt, walk_symbolizer st', g))"
proof -
  obtain res s' g where fill: "FillSourceLineInfo (walker_modules w) (walker_unloaded_modules w)
      (walk_symbolizer st) f = Some (res, s', g)"
    using add by (auto simp: add_frame_def bind_eq_Some_conv)
  show ?thesis
  proof (cases "res = kInterrupt")
    case True
    with add fill have "\<not> ok" "st' = st\<lparr>walk_symbolizer := s'\<rparr>" by (simp_all add: add_frame_def)
    with history fill True show ?thesis by (simp add: history_of_def)
  next
    case False
    define v where "v = \<lparr>visit_frame = f, visit_before = walk_symbolizer st, visit_result = res,
      visit_symbolized = g, visit_after = s'\<rparr>"
    have st': "ok" "walked st' = walked st @ [g]" "walk_symbolizer st' = s'"
      "modules_without_symbols st' = (if res = kError
         then InsertSpecialAttentionModule (frame_module g) (modules_without_symbols st) else modules_without_symbols st)"
      "modules_with_corrupt_symbols st' = (if res = kWarningCorruptSymbols
         then InsertSpecialAttentionModule (frame_module g) (modules_with_corrupt_symbols st)
         else modules_with_corrupt_symbols st)"
      "scanned_frames st' = (if dubious (trust g) then scanned_frames st + 1 else scanned_frames st)"
      using add fill False by (auto simp: add_frame_def Let_def)
    have same: "length vs = length (walked st)" using history by (simp add: history_of_def walk_history_def)
    have reported: "modules_reported kError (vs @ [v]) missing (modules_without_symbols st')"
      "modules_reported kWarningCorruptSymbols (vs @ [v]) corrupt (modules_with_corrupt_symbols st')"
      using history modules_reported_insert [of kError vs missing "modules_without_symbols st" v]
        modules_reported_insert [of kWarningCorruptSymbols vs corrupt "modules_with_corrupt_symbols st" v]
      by (auto simp: st'(4,5) history_of_def modules_reported_other v_def)
    have "walk_history w get_caller context_frame s (vs @ [v]) (walked st @ [x])" for x
      unfolding walk_history_snoc [OF same] using history hand fill False by (simp add: history_of_def v_def)
    then show ?thesis
      using st' reported unfolding if_P [OF st'(1)]
      by (intro exI [of _ v]) (auto simp: history_of_def v_def dubious_visits_def dubious_def)
  qed
qed

lemma dubious_visits_snoc: "dubious_visits (vs @ [v]) = dubious_visits vs + dubious_visits [v]"
  by (simp add: dubious_visits_def)

lemma dubious_visits_le: "dubious_visits vs \<le> length vs"
  by (simp add: dubious_visits_def)

lemma walk_loop_history:
  assumes "walk_loop w get_caller frame st = Some (b, st')"
    and "history_of w get_caller context_frame s missing corrupt vs st"
    and "after_visits w get_caller context_frame s vs (walked st) frame (walk_symbolizer st)"
    and "length vs \<le> unat (max_frames w)" and "scanned_frames st = of_nat (dubious_visits vs)"
  shows "\<exists>vs'. history_of w get_caller context_frame s missing corrupt vs' st' \<and>
    walk_finish w get_caller context_frame s vs' (walked st') b (walk_symbolizer st')"
  using assms
proof (induction w get_caller frame st arbitrary: vs rule: walk_loop.induct)
  case (1 w get_caller frame st)
  note history = "1.prems"(2) and hand = "1.prems"(3)
  have same: "length vs = length (walked st)" using history by (simp add: history_of_def walk_history_def)
  show ?case
  proof (cases frame)
    case None
    then have "b" "st' = st" using "1.prems"(1) by (simp_all add: walk_loop.simps)
    with None "1.prems"(4) same history hand show ?thesis
      by (intro exI [of _ vs]) (simp add: walk_finish_def)
  next
    case (Some f)
    then obtain ok st1 where add: "add_frame w f st = Some (ok, st1)"
      using "1.prems"(1) by (subst (asm) walk_loop.simps) (auto split: option.split_asm)
    note visit = add_frame_visit [OF history hand [unfolded Some] add]
    show ?thesis
    proof (cases ok)
      case False
      then have "\<not> b" "st' = st1" using "1.prems"(1) Some add by (simp_all add: walk_loop.simps)
      with False visit Some "1.prems"(4) same hand show ?thesis
        by (intro exI [of _ vs]) (auto simp: walk_finish_def)
    next
      case True
      then obtain v where v: "walked st1 = walked st @ [visit_symbolized v]" "walk_symbolizer st1 = visit_after v"
        "scanned_frames st1 = of_nat (dubious_visits (vs @ [v]))"
        and more: "\<And>x. history_of w get_caller context_frame s missing corrupt (vs @ [v]) (st1\<lparr>walked := walked st @ [x]\<rparr>)"
        using visit "1.prems"(5) by (auto simp: dubious_visits_snoc)
      have more1: "history_of w get_caller context_frame s missing corrupt (vs @ [v]) st1"
        using more [of "visit_symbolized v"] v(1) by (simp add: history_of_def)
      show ?thesis
      proof (cases "unat (max_frames w) < length (walked st1)")
        case full: True
        then have "b" "st' = st1" using "1.prems"(1) Some add True by (simp_all add: walk_loop.simps)
        with full v more1 "1.prems"(4) same show ?thesis
          by (intro exI [of _ "vs @ [v]"]) (auto simp: walk_finish_def)
      next
        case go: False
        obtain nxt lst s1 where gc: "get_caller (walked st1) (scanned_frames st1 < max_frames_scanned w)
            (walk_symbolizer st1) = Some (nxt, lst, s1)"
          using "1.prems"(1) Some add go True by (subst (asm) walk_loop.simps) (auto split: option.split_asm)
        let ?st = "st1\<lparr>walked := butlast (walked st1) @ [lst], walk_symbolizer := s1\<rparr>"
        have loop: "walk_loop w get_caller nxt ?st = Some (b, st')"
          using "1.prems"(1) Some add go gc True by (subst (asm) walk_loop.simps) simp
        have "dubious_visits (vs @ [v]) < 2 ^ 32"
          using dubious_visits_le [of "vs @ [v]"] go v(1) same unsigned_less [of "max_frames w", where ?'a = nat] by simp
        then have "(scanned_frames st1 < max_frames_scanned w) =
            (dubious_visits (vs @ [v]) < unat (max_frames_scanned w))"
          by (simp add: v(3) word_less_nat_alt unat_of_nat)
        with gc v have hand': "after_visits w get_caller context_frame s (vs @ [v]) (walked ?st) nxt (walk_symbolizer ?st)"
          by (simp add: after_visits_snoc)
        have "history_of w get_caller context_frame s missing corrupt (vs @ [v]) ?st"
          using more [of lst] v(1) by (simp add: history_of_def)
        from "1.IH" [OF Some add refl _ go gc refl refl loop this hand'] True go v same
        show ?thesis by simp
      qed
    qed
  qed
qed

lemma Walk_visits:
  assumes "Walk w get_caller context_frame cs missing corrupt s = Some (b, cs', missing', corrupt', s')"
    and "frames cs = []"
  shows "\<exists>vs. walk_history w get_caller context_frame s vs (frames cs') \<and>
    walk_finish w get_caller context_frame s vs (frames cs') b s' \<and>
    modules_reported kError vs missing missing' \<and> modules_reported kWarningCorruptSymbols vs corrupt corrupt'"
proof -
  let ?st = "\<lparr>walked = [], scanned_frames = 0, modules_without_symbols = missing,
    modules_with_corrupt_symbols = corrupt, walk_symbolizer = s\<rparr>"
  obtain st where loop: "walk_loop w get_caller context_frame ?st = Some (b, st)"
    and st: "frames cs' = walked st" "missing' = modules_without_symbols st"
      "corrupt' = modules_with_corrupt_symbols st" "s' = walk_symbolizer st"
    using assms by (auto simp: Walk_def CallStack_Clear_def bind_eq_Some_conv)
  have "history_of w get_caller context_frame s missing corrupt [] ?st"
    by (simp add: history_of_def walk_history_def)
  from walk_loop_history [OF loop this] obtain vs where
    "history_of w get_caller context_frame s missing corrupt vs st"
    "walk_finish w get_caller context_frame s vs (walked st) b (walk_symbolizer st)"
    by (auto simp: after_visits_def dubious_visits_def)
  with st show ?thesis by (auto simp: history_of_def)
qed

text \<open>
  C20: A walk has a history.  Its first frame is that of the context, every other one is the caller
  of the one before it, found with the frames walked so far, and scanning is allowed exactly
  while fewer dubious frames than the limit were walked.  Each frame is symbolized once, by the
  symbolizer the step before it left; the walk ends where no caller is found, at the limit of frames,
  or, incomplete, on an interrupt; and the modules reported without symbols, or with corrupt
  ones, are those of the frames that were symbolized with that result, each once.
\<close>

theorem Walk_history:
  assumes "Walk w get_caller context_frame cs missing corrupt s = Some (b, cs', missing', corrupt', s')"
    and "frames cs = []"
  shows "\<exists>vs. walk_history w get_caller context_frame s vs (frames cs') \<and>
    walk_finish w get_caller context_frame s vs (frames cs') b s' \<and>
    modules_reported kError vs missing missing' \<and> modules_reported kWarningCorruptSymbols vs corrupt corrupt'"
  by (rule Walk_visits [OF assms])

text \<open>What a history tells of the frames.\<close>

lemma history_visit:
  assumes "walk_history w get_caller context_frame s vs fs" and "i < length fs"
  shows "same_machine_state (visit_frame (vs ! i)) (visit_symbolized (vs ! i))"
  using assms FillSourceLineInfo_keeps by (fastforce simp: walk_history_def Let_def)

lemma history_context:
  assumes "walk_history w get_caller context_frame s vs fs" and "fs \<noteq> []"
  shows "context_frame = Some (visit_frame (vs ! 0))"
  using assms by (auto simp: walk_history_def Let_def after_visits_def)

lemma history_caller:
  assumes "walk_history w get_caller context_frame s vs fs" and "Suc i < length fs"
  shows "get_caller (take i fs @ [visit_symbolized (vs ! i)])
      (dubious_visits (take (Suc i) vs) < unat (max_frames_scanned w)) (visit_after (vs ! i)) =
    Some (Some (visit_frame (vs ! Suc i)), fs ! i, visit_before (vs ! Suc i))"
proof -
  have "after_visits w get_caller context_frame s (take (Suc i) vs) (take (Suc i) fs)
      (Some (visit_frame (vs ! Suc i))) (visit_before (vs ! Suc i))" and len: "length vs = length fs"
    using assms by (auto simp: walk_history_def Let_def)
  moreover have "take (Suc i) vs = take i vs @ [vs ! i]" "take (Suc i) fs = take i fs @ [fs ! i]"
    using assms(2) len by (simp_all add: take_Suc_conv_app_nth)
  ultimately show ?thesis by (simp add: after_visits_snoc)
qed

lemma history_frame:
  assumes "walk_history w get_caller context_frame s vs fs" and "walk_finish w get_caller context_frame s vs fs b s'"
    and "i < length fs"
  shows "fs ! i = visit_symbolized (vs ! i) \<or>
    (\<exists>scan s1 nxt s2. get_caller (take i fs @ [visit_symbolized (vs ! i)]) scan s1 = Some (nxt, fs ! i, s2))"
proof (cases "Suc i < length fs")
  case True
  with history_caller [OF assms(1)] show ?thesis by blast
next
  case False
  then have i: "Suc i = length fs" and len: "length vs = length fs" using assms(1,3) by (simp_all add: walk_history_def)
  then have ne: "vs \<noteq> []" "fs \<noteq> []" by auto
  have lasts: "last vs = vs ! i" "last fs = fs ! i" "butlast fs = take i fs"
    using i len ne by (simp_all add: last_conv_nth butlast_conv_take flip: i)
  have "last fs = visit_symbolized (last vs) \<or> (\<exists>nxt s1. after_visits w get_caller context_frame s vs fs nxt s1)"
    using assms(2) by (auto simp: walk_finish_def)
  with ne(1) lasts show ?thesis by (auto simp: after_visits_def)
qed

lemma history_length:
  "walk_finish w get_caller context_frame s vs fs b s' \<Longrightarrow> length fs \<le> unat (max_frames w) + 1"
  by (auto simp: walk_finish_def)

text \<open>Without a resolver a frame is added as it is, and a walk of two frames is easy to follow.\<close>

lemma no_resolver_add_frame:
  fixes f :: "'a StackFrame_scheme"
  assumes "sym_resolver (walk_symbolizer st) = None"
  shows "\<exists>g st1. add_frame w f st = Some (True, st1) \<and> walked st1 = walked st @ [g] \<and>
    same_machine_state f g \<and> walk_symbolizer st1 = walk_symbolizer st \<and>
    scanned_frames st1 = (if dubious (trust f) then scanned_frames st + 1 else scanned_frames st)"
  using assms
  by (auto simp: add_frame_def FillSourceLineInfo_def same_machine_state_def Let_def split: option.split)

lemma no_resolver_lookups:
  assumes "sym_resolver s = None"
  shows "Symbolizer_FindWindowsFrameInfo s f = None" "Symbolizer_FindCFIFrameInfo s f = None"
  using assms by (simp_all add: Symbolizer_FindWindowsFrameInfo_def Symbolizer_FindCFIFrameInfo_def)

lemma Walk_two_frames:
  assumes "sym_resolver s = None" and "2 \<le> unat (max_frames w)" and "1 < max_frames_scanned w"
    and "\<not> dubious (trust f)"
    and first: "\<And>g. same_machine_state f g \<Longrightarrow> get_caller [g] True s = Some (Some h, g, s)"
    and second: "\<And>g k. same_machine_state f g \<Longrightarrow> same_machine_state h k \<Longrightarrow>
      get_caller [g, k] True s = Some (None, k, s)"
  shows "\<exists>stk' missing' corrupt' g k.
    Walk w get_caller (Some f) empty_stack [] [] s = Some (True, stk', missing', corrupt', s) \<and>
    frames stk' = [g, k] \<and> same_machine_state f g \<and> same_machine_state h k"
proof -
  let ?st = "\<lparr>walked = [], scanned_frames = 0, modules_without_symbols = [],
    modules_with_corrupt_symbols = [], walk_symbolizer = s\<rparr> :: 'a StackFrame_scheme walk_state"
  obtain g st1 where 1: "add_frame w f ?st = Some (True, st1)" "walked st1 = [g]" "same_machine_state f g"
      "walk_symbolizer st1 = s" "scanned_frames st1 = 0"
    using no_resolver_add_frame [of ?st w f] assms(1,4) by auto
  let ?st1 = "st1\<lparr>walked := [g], walk_symbolizer := s\<rparr>"
  obtain k st2 where 2: "add_frame w h ?st1 = Some (True, st2)" "walked st2 = [g, k]" "same_machine_state h k"
      "walk_symbolizer st2 = s" "scanned_frames st2 \<le> 1"
    using no_resolver_add_frame [of ?st1 w h] assms(1) 1(5) by (auto split: if_split_asm)
  have scan: "scanned_frames st1 < max_frames_scanned w" "scanned_frames st2 < max_frames_scanned w"
    using 1(5) 2(5) assms(3) by (auto simp: word_gt_0 intro: le_less_trans less_trans [of 0 1])
  have "walk_loop w get_caller (Some f) ?st = walk_loop w get_caller (Some h) ?st1"
    using 1 assms(2) first [OF 1(3)] scan by (subst walk_loop.simps) simp
  also have "\<dots> = walk_loop w get_caller None (st2\<lparr>walked := [g, k], walk_symbolizer := s\<rparr>)"
    using 2 assms(2) second [OF 1(3) 2(3)] scan by (subst walk_loop.simps) simp
  also have "\<dots> = Some (True, st2\<lparr>walked := [g, k], walk_symbolizer := s\<rparr>)"
    by (subst walk_loop.simps) simp
  finally show ?thesis using 1(3) 2(3) by (simp add: Walk_def CallStack_Clear_def)
qed

text \<open>A walk of two frames, the second of which is found by scanning.\<close>

definition sample_caller :: "StackFrame caller_of" where
  "sample_caller fs scan s = Some (if length fs = 1 \<and> scan
     then Some (new_StackFrame\<lparr>trust := FRAME_TRUST_SCAN, instruction := 0x401005\<rparr>) else None, last fs, s)"

definition sample_context_frame :: StackFrame where
  "sample_context_frame = new_StackFrame\<lparr>trust := FRAME_TRUST_CONTEXT, instruction := 0x401002\<rparr>"

theorem Walk_history_witness:
  "\<exists>stk' missing' corrupt' vs.
    Walk sample_walker sample_caller (Some sample_context_frame) empty_stack [] [] no_symbols =
      Some (True, stk', missing', corrupt', no_symbols) \<and> length vs = 2 \<and>
    walk_history sample_walker sample_caller (Some sample_context_frame) no_symbols vs (frames stk') \<and>
    walk_finish sample_walker sample_caller (Some sample_context_frame) no_symbols vs (frames stk') True no_symbols \<and>
    modules_reported kError vs [] missing'"
proof -
  let ?h = "new_StackFrame\<lparr>trust := FRAME_TRUST_SCAN, instruction := 0x401005\<rparr>"
  have "2 \<le> unat (max_frames sample_walker)" "1 < max_frames_scanned sample_walker"
    by (simp_all add: sample_walker_def new_stackwalker_def)
  from Walk_two_frames [where get_caller = sample_caller and f = sample_context_frame and h = ?h and s = no_symbols,
      OF _ this]
  obtain stk' missing' corrupt' g k where
    run: "Walk sample_walker sample_caller (Some sample_context_frame) empty_stack [] [] no_symbols =
      Some (True, stk', missing', corrupt', no_symbols)" "frames stk' = [g, k]"
    by (auto simp: sample_context_frame_def dubious_def sample_caller_def)
  from Walk_history [OF run(1)] obtain vs where
    "walk_history sample_walker sample_caller (Some sample_context_frame) no_symbols vs (frames stk')"
    "walk_finish sample_walker sample_caller (Some sample_context_frame) no_symbols vs (frames stk') True no_symbols"
    "modules_reported kError vs [] missing'" by auto
  with run show ?thesis
    by (intro exI [of _ stk'] exI [of _ missing'] exI [of _ corrupt'] exI [of _ vs])
      (simp add: walk_history_def)
qed

subsection \<open>What consecutive frames have in common\<close>

text \<open>
  Every frame of a list is linked to the one before it; the link may be another one for the
  first frame of the list, whose caller is found by the first unwind.
\<close>

definition linked :: "(bool \<Rightarrow> 'k \<Rightarrow> 'k \<Rightarrow> bool) \<Rightarrow> 'k list \<Rightarrow> bool" where
  "linked R ks = (\<forall>i<length ks - 1. R (i = 0) (ks ! i) (ks ! Suc i))"

lemma linked_Nil [simp]: "linked R []" and linked_single [simp]: "linked R [a]"
  by (simp_all add: linked_def)

lemma linked_snoc:
  assumes "ks \<noteq> []"
  shows "linked R (ks @ [b]) \<longleftrightarrow> linked R ks \<and> R (length ks = 1) (last ks) b"
proof -
  obtain ys a where ks: "ks = ys @ [a]" using assms by (cases ks rule: rev_cases) auto
  let ?P = "\<lambda>zs i. R (i = 0) (zs ! i) (zs ! Suc i)"
  have same: "?P (ys @ [a] @ [b]) i = ?P (ys @ [a]) i" if "i < length ys" for i
    using that by (auto simp: nth_append less_Suc_eq)
  have "linked R (ks @ [b]) = (\<forall>i<Suc (length ys). ?P (ys @ [a] @ [b]) i)"
    by (simp add: linked_def ks)
  also have "\<dots> = (?P (ys @ [a] @ [b]) (length ys) \<and> (\<forall>i<length ys. ?P (ys @ [a] @ [b]) i))"
    by (rule All_less_Suc)
  also have "(\<forall>i<length ys. ?P (ys @ [a] @ [b]) i) = linked R ks"
    using same by (simp add: linked_def ks)
  also have "?P (ys @ [a] @ [b]) (length ys) = R (length ks = 1) (last ks) b"
    by (simp add: ks nth_append)
  finally show ?thesis by blast
qed

text \<open>
  The stack pointers of a walk: from the second frame on they rise strictly, and the second is
  not below the first (a leaf function may keep its return address in a register).
\<close>

definition above :: "bool \<Rightarrow> u64 \<Rightarrow> u64 \<Rightarrow> bool" where
  "above first_unwind a b = (if first_unwind then a \<le> b else a < b)"

definition rising :: "u64 list \<Rightarrow> bool" where
  "rising sps = linked above sps"

lemma rising_sorted:
  assumes "rising (a # sps)"
  shows "sorted_wrt (<) sps \<and> (\<forall>b\<in>set sps. a \<le> b)"
proof -
  have step: "sps ! i < sps ! Suc i" if "Suc i < length sps" for i
    using assms that by (force simp: rising_def linked_def above_def dest!: spec [of _ "Suc i"])
  have sorted: "sorted_wrt (<) sps"
    by (rule iffD2 [OF sorted_wrt_iff_nth_Suc_transp]) (auto simp: step intro: less_trans transpI)
  have "a \<le> b" if b: "b \<in> set sps" for b
  proof -
    obtain c cs where sps: "sps = c # cs" using b by (cases sps) auto
    have "a \<le> c" using assms by (force simp: rising_def linked_def above_def sps dest!: spec [of _ 0])
    also have "c \<le> b" using b sorted by (auto simp: sps)
    finally show ?thesis .
  qed
  with sorted show ?thesis by blast
qed

text \<open>The two validity masks every kind of frame has: none and all of the flags.\<close>

definition CONTEXT_VALID_NONE :: u32 where "CONTEXT_VALID_NONE = 0"
definition CONTEXT_VALID_ALL :: u32 where "CONTEXT_VALID_ALL = - 1"

text \<open>
  The end of every \<open>GetCallerFrame\<close>: a caller that breaks the invariant of the walk ends it,
  any other gets its instruction.
\<close>

definition accept_caller ::
  "u64 \<Rightarrow> u64 \<Rightarrow> u64 \<Rightarrow> bool \<Rightarrow> u64 \<Rightarrow> 'a StackFrame_scheme \<Rightarrow> 'a StackFrame_scheme option" where
  "accept_caller caller_ip caller_sp callee_sp first_unwind address frame =
     (if TerminateWalk caller_ip caller_sp callee_sp first_unwind then None
      else Some (frame\<lparr>instruction := address\<rparr>))"

lemma accept_caller_SomeD:
  assumes "accept_caller caller_ip caller_sp callee_sp first_unwind address frame = Some f"
  shows "f = frame\<lparr>instruction := address\<rparr> \<and> 0x1000 \<le> caller_ip \<and> above first_unwind callee_sp caller_sp"
  using assms by (auto simp: accept_caller_def TerminateWalk_def above_def not_less not_le split: if_split_asm)

text \<open>
  What a walk of linked frames relies on, for a core of the frame that its machine state
  determines: finding a caller keeps the core and the trust of the last frame, and the caller
  is linked to it.
\<close>

locale linked_walker =
  fixes w :: stackwalker
    and get_caller :: "'a StackFrame_scheme caller_of"
    and core :: "'a StackFrame_scheme \<Rightarrow> 'k"
    and link :: "bool \<Rightarrow> 'k \<Rightarrow> 'k \<Rightarrow> bool"
  assumes caller_keeps: "get_caller fs scan s = Some (nxt, lst, s') \<Longrightarrow> fs \<noteq> [] \<Longrightarrow>
      core lst = core (last fs) \<and> trust lst = trust (last fs)"
    and caller_linked: "get_caller fs scan s = Some (Some f, lst, s') \<Longrightarrow> fs \<noteq> [] \<Longrightarrow>
      link (length fs = 1) (core (last fs)) (core f)"
    and core_machine: "same_machine_state f g \<Longrightarrow> core f = core g"
begin

text \<open>Symbolizing a frame keeps its core and its trust, and so does finding its caller.\<close>

lemma history_core:
  assumes "walk_history w get_caller context_frame s vs fs" and "walk_finish w get_caller context_frame s vs fs b s'"
    and "i < length fs"
  shows "core (visit_frame (vs ! i)) = core (fs ! i) \<and> core (visit_symbolized (vs ! i)) = core (fs ! i) \<and>
    trust (visit_frame (vs ! i)) = trust (fs ! i) \<and> trust (visit_symbolized (vs ! i)) = trust (fs ! i)"
proof -
  have kept: "core (fs ! i) = core (visit_symbolized (vs ! i)) \<and> trust (fs ! i) = trust (visit_symbolized (vs ! i))"
    using history_frame [OF assms] by (auto dest!: caller_keeps)
  with history_visit [OF assms(1,3)] core_machine [OF history_visit [OF assms(1,3)]] show ?thesis
    by (simp add: same_machine_state_def)
qed

lemma history_linked:
  assumes "walk_history w get_caller context_frame s vs fs" and "walk_finish w get_caller context_frame s vs fs b s'"
  shows "linked link (map core fs)"
proof -
  have "link (i = 0) (core (fs ! i)) (core (fs ! Suc i))" if i: "Suc i < length fs" for i
  proof -
    have "link (length (take i fs @ [visit_symbolized (vs ! i)]) = 1)
        (core (last (take i fs @ [visit_symbolized (vs ! i)]))) (core (visit_frame (vs ! Suc i)))"
      by (rule caller_linked [OF history_caller [OF assms(1) i]]) simp
    then show ?thesis
      using history_core [OF assms, of i] history_core [OF assms i] i by simp
  qed
  then show ?thesis by (simp add: linked_def)
qed

lemma Walk_linked:
  assumes "Walk w get_caller context_frame cs missing corrupt s = Some (b, cs', missing', corrupt', s')"
    and "frames cs = []"
  shows "linked link (map core (frames cs')) \<and> length (frames cs') \<le> unat (max_frames w) + 1"
  using Walk_visits [OF assms] history_linked history_length by blast

end

text \<open>The link every processor keeps: the stack pointers rise.\<close>

locale frame_walker = linked_walker w get_caller sp above
  for w :: stackwalker and get_caller :: "'a StackFrame_scheme caller_of"
    and sp :: "'a StackFrame_scheme \<Rightarrow> u64"
begin

lemma Walk_rising:
  assumes "Walk w get_caller context_frame cs missing corrupt s = Some (b, cs', missing', corrupt', s')"
    and "frames cs = []"
  shows "rising (map sp (frames cs')) \<and> length (frames cs') \<le> unat (max_frames w) + 1"
  using Walk_linked [OF assms] by (simp add: rising_def)

end

text \<open>
  A walker that finds no dubious frame when scanning is not allowed, except among its first
  \<open>unlimited\<close> callers, keeps the limit of scanned frames.
\<close>

definition dubious_frames :: "'a StackFrame_scheme list \<Rightarrow> nat" where
  "dubious_frames fs = length (filter (\<lambda>f. dubious (trust f)) fs)"

locale scan_limited_walker = frame_walker +
  fixes unlimited :: nat
  assumes caller_scanned: "get_caller fs False s = Some (Some f, lst, s') \<Longrightarrow> fs \<noteq> [] \<Longrightarrow>
      dubious (trust f) \<Longrightarrow> length fs \<le> unlimited"
begin

lemma dubious_frames_visits:
  assumes "walk_history w get_caller context_frame s vs fs" and "walk_finish w get_caller context_frame s vs fs b s'"
  shows "dubious_frames (take k fs) = dubious_visits (take k vs)"
proof -
  have len: "length vs = length fs" using assms(1) by (simp add: walk_history_def)
  have "map (\<lambda>f. trust f) fs = map (\<lambda>v. trust (visit_symbolized v)) vs"
    using len history_core [OF assms] by (intro nth_equalityI) simp_all
  then have "map (\<lambda>f. trust f) (take k fs) = map (\<lambda>v. trust (visit_symbolized v)) (take k vs)"
    by (metis take_map)
  then have "length (filter dubious (map (\<lambda>f. trust f) (take k fs))) =
      length (filter dubious (map (\<lambda>v. trust (visit_symbolized v)) (take k vs)))"
    by (simp only:)
  then show ?thesis
    by (simp add: dubious_frames_def dubious_visits_def dubious_def filter_map comp_def)
qed

text \<open>One more frame: it is dubious only if scanning was allowed, or among the first callers.\<close>

lemma history_scanned:
  assumes "walk_history w get_caller context_frame s vs fs" and "walk_finish w get_caller context_frame s vs fs b s'"
    and ctx: "\<And>f. context_frame = Some f \<Longrightarrow> \<not> dubious (trust f)" and "k \<le> length fs"
  shows "dubious_frames (take k fs) \<le> max (unat (max_frames_scanned w)) unlimited \<and>
    dubious_frames (take k fs) \<le> k - 1"
  using \<open>k \<le> length fs\<close>
proof (induction k)
  case 0
  show ?case by (simp add: dubious_frames_def)
next
  case (Suc k)
  then have k: "k < length fs" by simp
  have count: "dubious_frames (take (Suc k) fs) = dubious_frames (take k fs) + (if dubious (trust (fs ! k)) then 1 else 0)"
    using k by (simp add: dubious_frames_def take_Suc_conv_app_nth)
  show ?case
  proof (cases "dubious (trust (fs ! k))")
    case False
    with Suc k count show ?thesis by auto
  next
    case True
    have "\<not> dubious (trust (fs ! 0))"
      using ctx history_context [OF assms(1)] history_core [OF assms(1,2), of 0] k by (cases "fs = []") auto
    with True have "k \<noteq> 0" by metis
    then obtain j where j: "k = Suc j" by (cases k) auto
    have "dubious_visits (take (Suc j) vs) < unat (max_frames_scanned w) \<or> Suc j \<le> unlimited"
    proof (rule disjCI)
      let ?fs = "take j fs @ [visit_symbolized (vs ! j)]"
      assume "\<not> Suc j \<le> unlimited"
      show "dubious_visits (take (Suc j) vs) < unat (max_frames_scanned w)"
      proof (rule ccontr)
        assume "\<not> dubious_visits (take (Suc j) vs) < unat (max_frames_scanned w)"
        with history_caller [OF assms(1) k [unfolded j]]
        have caller: "get_caller ?fs False (visit_after (vs ! j)) =
            Some (Some (visit_frame (vs ! Suc j)), fs ! j, visit_before (vs ! Suc j))" by simp
        have "length ?fs \<le> unlimited"
          by (rule caller_scanned [OF caller]) (use True history_core [OF assms(1,2) k] j in auto)
        with \<open>\<not> Suc j \<le> unlimited\<close> k j show False by simp
      qed
    qed
    then have "dubious_frames (take k fs) < unat (max_frames_scanned w) \<or> k \<le> unlimited"
      using dubious_frames_visits [OF assms(1,2), of k] by (simp add: j)
    with Suc k count True \<open>k \<noteq> 0\<close> show ?thesis by auto
  qed
qed

lemma Walk_scanned:
  assumes "Walk w get_caller context_frame cs missing corrupt s = Some (b, cs', missing', corrupt', s')"
    and "frames cs = []" and "\<And>f. context_frame = Some f \<Longrightarrow> \<not> dubious (trust f)"
  shows "dubious_frames (frames cs') \<le> max (unat (max_frames_scanned w)) unlimited"
proof -
  obtain vs where "walk_history w get_caller context_frame s vs (frames cs')"
    "walk_finish w get_caller context_frame s vs (frames cs') b s'"
    using Walk_visits [OF assms(1,2)] by blast
  from history_scanned [OF this assms(3) order_refl] show ?thesis by simp
qed

end

end
