(* ===== verification/Stackwalker_X86.thy ===== *)
theory Stackwalker_X86
  imports Stackwalker
begin

text \<open>
  \<open>StackwalkerX86\<close> (\<open>processor/stackwalker_x86.cc\<close>): the callers of x86 frames, from
  Windows frame data, from CFI rules, or from the saved frame pointer, with a scan of the stack
  as the last resort.  The raw context has the fields of \<open>MDRawContextX86\<close>; its two
  floating-point areas are byte lists that are only copied.
\<close>

record MDRawContextX86 =
  context_flags :: u32
  dr0 :: u32
  dr1 :: u32
  dr2 :: u32
  dr3 :: u32
  dr6 :: u32
  dr7 :: u32
  float_save :: "u8 list"
  seg_gs :: u32
  seg_fs :: u32
  seg_es :: u32
  seg_ds :: u32
  edi :: u32
  esi :: u32
  ebx :: u32
  edx :: u32
  ecx :: u32
  eax :: u32
  ebp :: u32
  eip :: u32
  seg_cs :: u32
  eflags :: u32
  esp :: u32
  seg_ss :: u32
  extended_registers :: "u8 list"

text \<open>A context whose bytes are all \<open>b\<close>, as a new frame or \<open>memset\<close> makes it.\<close>

definition filled_x86_context :: "u8 \<Rightarrow> MDRawContextX86" where
  "filled_x86_context b = (let v = word_rcat [b, b, b, b] in
     \<lparr>context_flags = v, dr0 = v, dr1 = v, dr2 = v, dr3 = v, dr6 = v, dr7 = v,
      float_save = replicate 112 b, seg_gs = v, seg_fs = v, seg_es = v, seg_ds = v,
      edi = v, esi = v, ebx = v, edx = v, ecx = v, eax = v, ebp = v, eip = v, seg_cs = v,
      eflags = v, esp = v, seg_ss = v, extended_registers = replicate 512 b\<rparr>)"

definition CONTEXT_VALID_EIP :: u32 where "CONTEXT_VALID_EIP = push_bit 0 1"
definition CONTEXT_VALID_ESP :: u32 where "CONTEXT_VALID_ESP = push_bit 1 1"
definition CONTEXT_VALID_EBP :: u32 where "CONTEXT_VALID_EBP = push_bit 2 1"
definition CONTEXT_VALID_EAX :: u32 where "CONTEXT_VALID_EAX = push_bit 3 1"
definition CONTEXT_VALID_EBX :: u32 where "CONTEXT_VALID_EBX = push_bit 4 1"
definition CONTEXT_VALID_ECX :: u32 where "CONTEXT_VALID_ECX = push_bit 5 1"
definition CONTEXT_VALID_EDX :: u32 where "CONTEXT_VALID_EDX = push_bit 6 1"
definition CONTEXT_VALID_ESI :: u32 where "CONTEXT_VALID_ESI = push_bit 7 1"
definition CONTEXT_VALID_EDI :: u32 where "CONTEXT_VALID_EDI = push_bit 8 1"

lemmas x86_flags = CONTEXT_VALID_NONE_def CONTEXT_VALID_EIP_def CONTEXT_VALID_ESP_def
  CONTEXT_VALID_EBP_def CONTEXT_VALID_EAX_def CONTEXT_VALID_EBX_def CONTEXT_VALID_ECX_def
  CONTEXT_VALID_EDX_def CONTEXT_VALID_ESI_def CONTEXT_VALID_EDI_def CONTEXT_VALID_ALL_def

record StackFrameX86 = StackFrame +
  x86_context :: MDRawContextX86
  x86_validity :: u32
  x86_windows_frame_info :: "WindowsFrameInfo option"
  x86_cfi_frame_info :: "CFIFrameInfo option"

definition new_StackFrameX86 :: StackFrameX86 where
  "new_StackFrameX86 = StackFrame.extend new_StackFrame
     \<lparr>x86_context = filled_x86_context 0, x86_validity = CONTEXT_VALID_NONE,
      x86_windows_frame_info = None, x86_cfi_frame_info = None\<rparr>"

definition x86_ReturnAddress :: "StackFrameX86 \<Rightarrow> u64" where
  "x86_ReturnAddress frame = ucast (eip (x86_context frame))"

abbreviation x86_valid :: "StackFrameX86 \<Rightarrow> u32 \<Rightarrow> bool" where
  "x86_valid frame flag \<equiv> x86_validity frame AND flag \<noteq> 0"

definition x86_register_map :: "(u32, MDRawContextX86) RegisterSet list" where
  "x86_register_map =
     [register_entry ''$eip'' (Some ''.ra'') False CONTEXT_VALID_EIP eip eip_update,
      register_entry ''$esp'' (Some ''.cfa'') False CONTEXT_VALID_ESP esp esp_update,
      register_entry ''$ebp'' None True CONTEXT_VALID_EBP ebp ebp_update,
      register_entry ''$eax'' None False CONTEXT_VALID_EAX eax eax_update,
      register_entry ''$ebx'' None True CONTEXT_VALID_EBX ebx ebx_update,
      register_entry ''$ecx'' None False CONTEXT_VALID_ECX ecx ecx_update,
      register_entry ''$edx'' None False CONTEXT_VALID_EDX edx edx_update,
      register_entry ''$esi'' None True CONTEXT_VALID_ESI esi esi_update,
      register_entry ''$edi'' None True CONTEXT_VALID_EDI edi edi_update]"

interpretation x86_registers: register_table x86_register_map
  by unfold_locales (auto simp: x86_register_map_def register_entry_def x86_flags)

text \<open>The constructor drops a stack memory that reaches beyond 32 bits.\<close>

definition x86_memory :: "memory_region option \<Rightarrow> memory_region option" where
  "x86_memory memory =
     (case memory of
        None \<Rightarrow> None
      | Some r \<Rightarrow> if 0xFFFFFFFF < region_base r + ucast (region_size r) - 1 then None else Some r)"

definition x86_GetContextFrame :: "MDRawContextX86 option \<Rightarrow> StackFrameX86 option" where
  "x86_GetContextFrame context =
     map_option (\<lambda>c. new_StackFrameX86\<lparr>x86_context := c, x86_validity := CONTEXT_VALID_ALL,
         trust := FRAME_TRUST_CONTEXT, instruction := ucast (eip c)\<rparr>) context"

subsection \<open>Callers from Windows frame data\<close>

definition callee_parameter_size :: "StackFrameX86 list \<Rightarrow> u32" where
  "callee_parameter_size walked_frames =
     (if 2 \<le> length walked_frames then
        (case x86_windows_frame_info (walked_frames ! (length walked_frames - 2)) of
           None \<Rightarrow> 0
         | Some info \<Rightarrow>
             if valid info AND VALID_PARAMETER_SIZE \<noteq> 0 then parameter_size info else 0)
      else 0)"

definition windows_dictionary ::
  "StackFrameX86 \<Rightarrow> WindowsFrameInfo \<Rightarrow> u32 \<Rightarrow> (string \<rightharpoonup> u32)" where
  "windows_dictionary last_frame info callee_params =
     (let d = [''$ebp'' \<mapsto> ebp (x86_context last_frame), ''$esp'' \<mapsto> esp (x86_context last_frame)];
          d = (if x86_valid last_frame CONTEXT_VALID_EBX
               then d(''$ebx'' \<mapsto> ebx (x86_context last_frame)) else d)
      in d(''.cbCalleeParams'' \<mapsto> callee_params, ''.cbSavedRegs'' \<mapsto> saved_register_size info,
           ''.cbLocals'' \<mapsto> local_size info))"

text \<open>Where the return address is searched, adjusted by a scan of three words.\<close>

definition ra_search_start ::
  "stackwalker \<Rightarrow> memory_region \<Rightarrow> StackFrameX86 \<Rightarrow> WindowsFrameInfo \<Rightarrow> u32 \<Rightarrow> symbolizer \<Rightarrow>
     (u32 \<times> symbolizer) run" where
  "ra_search_start w memory last_frame info callee_params s = do {
     let start = esp (x86_context last_frame) + callee_params + local_size info + saved_register_size info;
     (found, s) \<leftarrow> ScanForReturnAddress w (read_u32 memory) start 3 s;
     (case found of
        None \<Rightarrow> Some (start, s)
      | Some (location, address) \<Rightarrow>
          if trust last_frame = FRAME_TRUST_CONTEXT \<and> type_of info = STACK_INFO_FPO \<and>
             start = location \<and> address = eip (x86_context last_frame)
          then do {
            (again, s) \<leftarrow> ScanForReturnAddress w (read_u32 memory) (location + 4) 3 s;
            Some (case again of None \<Rightarrow> location + 4 | Some (location, _) \<Rightarrow> location, s)
          }
          else Some (location, s))
   }"

text \<open>The program to run and whether it leaves the frame pointer to be recovered.\<close>

definition windows_program :: "StackFrameX86 \<Rightarrow> WindowsFrameInfo \<Rightarrow> string \<times> bool" where
  "windows_program last_frame info =
     (if program_string info \<noteq> [] then (program_string info, True)
      else if allocates_base_pointer info then
        (''$eip .raSearchStart ^ = $ebp $esp .cbCalleeParams + .cbSavedRegs + 8 - ^ = '' @
         ''$esp .raSearchStart 4 + ='', True)
      else
        (''$eip .raSearchStart ^ = $esp .raSearchStart 4 + ='' @
         (if x86_valid last_frame CONTEXT_VALID_EBX then '' $ebx $ebx ='' else []), False))"

text \<open>What the evaluation leaves: the dictionary, the names it assigned, and the trust.\<close>

record windows_result =
  wr_dictionary :: "string \<rightharpoonup> u32"
  wr_validity :: "string \<rightharpoonup> bool"
  wr_trust :: FrameTrust

definition run_windows_program ::
  "stackwalker \<Rightarrow> memory_region \<Rightarrow> StackFrameX86 \<Rightarrow> bool \<Rightarrow> bool \<Rightarrow> string \<Rightarrow> (string \<rightharpoonup> u32) \<Rightarrow>
     symbolizer \<Rightarrow> (windows_result option \<times> symbolizer) run" where
  "run_windows_program w memory last_frame is_context_frame stack_scan_allowed program dict s = do {
     (ok, st) \<leftarrow> Evaluate (Some (read_u32 memory)) program
       \<lparr>dictionary = dict, assigned = Some Map.empty, stack = []\<rparr>;
     let validity = (case assigned st of None \<Rightarrow> Map.empty | Some names \<Rightarrow> names);
     if \<not> ok \<or> validity ''$eip'' = None \<or> validity ''$esp'' = None then
       (if \<not> stack_scan_allowed then Some (None, s)
        else do {
          (found, s) \<leftarrow> ScanForReturnAddress w (read_u32 memory) (esp (x86_context last_frame))
            (search_words is_context_frame) s;
          Some (case found of
                  None \<Rightarrow> None
                | Some (location, address) \<Rightarrow>
                    Some \<lparr>wr_dictionary = (dictionary st)(''$eip'' \<mapsto> address, ''$esp'' \<mapsto> location + 4),
                          wr_validity = validity, wr_trust = FRAME_TRUST_SCAN\<rparr>, s)
        })
     else Some (Some \<lparr>wr_dictionary = dictionary st, wr_validity = validity, wr_trust = FRAME_TRUST_CFI\<rparr>, s)
   }"

text \<open>A better return address when the one found is in no module, and the offset it lies at.\<close>

definition better_return_address ::
  "stackwalker \<Rightarrow> memory_region \<Rightarrow> bool \<Rightarrow> bool \<Rightarrow> windows_result \<Rightarrow> symbolizer \<Rightarrow>
     ((windows_result \<times> u32) \<times> symbolizer) run" where
  "better_return_address w memory is_context_frame stack_scan_allowed r s =
     (let address = dict_value (wr_dictionary r) ''$eip'' in
      if (case walker_modules w of None \<Rightarrow> False | Some get_module \<Rightarrow> get_module (ucast address) = None) \<and>
         stack_scan_allowed
      then do {
        let location_start = dict_value (wr_dictionary r) ''.raSearchStart'' + 4;
        (found, s) \<leftarrow> ScanForReturnAddress w (read_u32 memory) location_start
          (search_words is_context_frame) s;
        Some (case found of
                None \<Rightarrow> (r, 0)
              | Some (location, address) \<Rightarrow>
                  (r\<lparr>wr_dictionary := (wr_dictionary r)(''$eip'' \<mapsto> address, ''$esp'' \<mapsto> location + 4),
                     wr_trust := FRAME_TRUST_CFI_SCAN\<rparr>,
                   location - location_start), s)
      }
      else Some ((r, 0), s))"

text \<open>The search for a saved frame pointer, from the highest location down.\<close>

partial_function (option) find_saved_ebp ::
  "32 memory \<Rightarrow> u32 \<Rightarrow> u32 \<Rightarrow> u32 option run" where
  "find_saved_ebp read location_end location =
     (if location < location_end then Some None
      else
        (case read (ucast location) of
           None \<Rightarrow> Some None
         | Some candidate \<Rightarrow>
             (if read (ucast candidate) \<noteq> None then Some (Some candidate)
              else find_saved_ebp read location_end (location - 4))))"

definition recover_saved_ebp ::
  "memory_region \<Rightarrow> StackFrameX86 \<Rightarrow> WindowsFrameInfo \<Rightarrow> u32 \<Rightarrow> u32 \<Rightarrow> u32 \<Rightarrow> windows_result \<Rightarrow>
     windows_result run" where
  "recover_saved_ebp memory last_frame info callee_params search_start offset r =
     (let candidate = dict_value (wr_dictionary r) ''$ebp'';
          has_skipped_frames = (wr_trust r \<noteq> FRAME_TRUST_CFI \<and> candidate \<le> search_start + offset) in
      if has_skipped_frames \<or> read_u32 memory (ucast candidate) = None then do {
        let location_end = esp (x86_context last_frame) + callee_params;
        found \<leftarrow> find_saved_ebp (read_u32 memory) location_end
          (location_end + (saved_register_size info + offset));
        Some (case found of
                None \<Rightarrow> r
              | Some v \<Rightarrow> r\<lparr>wr_dictionary := (wr_dictionary r)(''$ebp'' \<mapsto> v)\<rparr>)
      }
      else Some r)"

definition windows_caller_frame :: "StackFrameX86 \<Rightarrow> windows_result \<Rightarrow> StackFrameX86" where
  "windows_caller_frame last_frame r =
     (let d = wr_dictionary r;
          f = new_StackFrameX86\<lparr>trust := wr_trust r,
                x86_context := (x86_context last_frame)\<lparr>eip := dict_value d ''$eip'',
                  esp := dict_value d ''$esp'', ebp := dict_value d ''$ebp''\<rparr>,
                x86_validity := CONTEXT_VALID_EIP OR CONTEXT_VALID_ESP OR CONTEXT_VALID_EBP\<rparr>;
          f = (if wr_validity r ''$ebx'' \<noteq> None
               then f\<lparr>x86_context := (x86_context f)\<lparr>ebx := dict_value d ''$ebx''\<rparr>,
                      x86_validity := x86_validity f OR CONTEXT_VALID_EBX\<rparr> else f);
          f = (if wr_validity r ''$esi'' \<noteq> None
               then f\<lparr>x86_context := (x86_context f)\<lparr>esi := dict_value d ''$esi''\<rparr>,
                      x86_validity := x86_validity f OR CONTEXT_VALID_ESI\<rparr> else f)
      in if wr_validity r ''$edi'' \<noteq> None
         then f\<lparr>x86_context := (x86_context f)\<lparr>edi := dict_value d ''$edi''\<rparr>,
                x86_validity := x86_validity f OR CONTEXT_VALID_EDI\<rparr> else f)"

text \<open>
  The adjustments after the program has run, which trust a result of zero in both registers
  to be the end of the stack.
\<close>

definition finish_windows_caller ::
  "stackwalker \<Rightarrow> memory_region \<Rightarrow> bool \<Rightarrow> bool \<Rightarrow> StackFrameX86 \<Rightarrow> WindowsFrameInfo \<Rightarrow> u32 \<Rightarrow> bool \<Rightarrow>
     u32 \<Rightarrow> windows_result \<Rightarrow> symbolizer \<Rightarrow> (StackFrameX86 \<times> symbolizer) run" where
  "finish_windows_caller w memory is_context_frame stack_scan_allowed last_frame info callee_params
       recover_ebp search_start r s =
     (if dict_value (wr_dictionary r) ''$eip'' \<noteq> 0 \<or> dict_value (wr_dictionary r) ''$ebp'' \<noteq> 0
      then do {
        ((r, offset), s) \<leftarrow> better_return_address w memory is_context_frame stack_scan_allowed r s;
        r \<leftarrow> (if recover_ebp
              then recover_saved_ebp memory last_frame info callee_params search_start offset r
              else Some r);
        Some (windows_caller_frame last_frame r, s)
      }
      else Some (windows_caller_frame last_frame r, s))"

text \<open>\<open>last_frame\<close> is the last of the frames with its \<open>windows_frame_info\<close> already set.\<close>

definition GetCallerByWindowsFrameInfo ::
  "stackwalker \<Rightarrow> memory_region \<Rightarrow> StackFrameX86 list \<Rightarrow> StackFrameX86 \<Rightarrow> WindowsFrameInfo \<Rightarrow> bool \<Rightarrow>
     symbolizer \<Rightarrow> (StackFrameX86 option \<times> symbolizer) run" where
  "GetCallerByWindowsFrameInfo w memory walked_frames last_frame info stack_scan_allowed s =
     (if valid info \<noteq> VALID_ALL then Some (None, s)
      else do {
        let callee_params = callee_parameter_size walked_frames;
        let is_context_frame = (length walked_frames = 1);
        (search_start, s) \<leftarrow> ra_search_start w memory last_frame info callee_params s;
        let (program, recover_ebp) = windows_program last_frame info;
        let search_start = (if x86_valid last_frame CONTEXT_VALID_EBP \<and> CHR ''@'' \<in> set program
                            then ebp (x86_context last_frame) + 4 else search_start);
        let dict = (windows_dictionary last_frame info callee_params)
          (''.cbParams'' \<mapsto> parameter_size info,
           ''.raSearchStart'' \<mapsto> search_start, ''.raSearch'' \<mapsto> search_start);
        (result, s) \<leftarrow> run_windows_program w memory last_frame is_context_frame stack_scan_allowed
          program dict s;
        (case result of
           None \<Rightarrow> Some (None, s)
         | Some r \<Rightarrow>
             map_option (\<lambda>(f, s). (Some f, s))
               (finish_windows_caller w memory is_context_frame stack_scan_allowed last_frame info
                  callee_params recover_ebp search_start r s))
      })"

subsection \<open>Callers from CFI rules and from the frame pointer\<close>

definition x86_GetCallerByCFIFrameInfo ::
  "memory_region \<Rightarrow> StackFrameX86 \<Rightarrow> CFIFrameInfo \<Rightarrow> StackFrameX86 option run" where
  "x86_GetCallerByCFIFrameInfo memory last_frame cfi = do {
     found \<leftarrow> FindCallerRegisters x86_register_map (filled_x86_context 0xDA) (read_u32 memory) cfi
       (x86_context last_frame) (x86_validity last_frame);
     Some (case found of
             None \<Rightarrow> None
           | Some (caller_context, caller_validity) \<Rightarrow>
               let essentials = CONTEXT_VALID_EIP OR CONTEXT_VALID_ESP OR CONTEXT_VALID_EBP in
               if caller_validity AND essentials \<noteq> essentials then None
               else Some (new_StackFrameX86\<lparr>x86_context := caller_context,
                      x86_validity := caller_validity, trust := FRAME_TRUST_CFI\<rparr>))
   }"

definition kMaxReasonableGapBetweenFrames :: u32 where
  "kMaxReasonableGapBetweenFrames = 128 * 1024"

text \<open>The return address, stack pointer, frame pointer and trust of the caller.\<close>

definition ebp_at_base ::
  "stackwalker \<Rightarrow> memory_region \<Rightarrow> bool \<Rightarrow> StackFrameX86 \<Rightarrow> bool \<Rightarrow> symbolizer \<Rightarrow>
     ((u32 \<times> u32 \<times> u32 \<times> FrameTrust) option \<times> symbolizer) run" where
  "ebp_at_base w memory is_context_frame last_frame stack_scan_allowed s =
     (let last_esp = esp (x86_context last_frame);
          last_ebp = ebp (x86_context last_frame);
          read = read_u32 memory in
      case (read (ucast (last_ebp + 4)), read (ucast last_ebp)) of
        (Some caller_eip, Some caller_ebp) \<Rightarrow>
          Some (Some (caller_eip, last_ebp + 8, caller_ebp, FRAME_TRUST_FP), s)
      | _ \<Rightarrow>
          if \<not> stack_scan_allowed then Some (None, s)
          else do {
            (found, s) \<leftarrow> ScanForReturnAddress w read last_esp (search_words is_context_frame) s;
            Some (case found of
                    None \<Rightarrow> None
                  | Some (location, caller_eip) \<Rightarrow>
                      let caller_esp = location + 4;
                          restored_ebp_chain = caller_esp - 8;
                          caller_ebp =
                            (case read (ucast restored_ebp_chain) of
                               None \<Rightarrow> last_ebp
                             | Some v \<Rightarrow>
                                 if v \<le> restored_ebp_chain \<or>
                                    kMaxReasonableGapBetweenFrames < v - restored_ebp_chain
                                 then last_ebp else v)
                      in Some (caller_eip, caller_esp, caller_ebp, FRAME_TRUST_SCAN), s)
          })"

definition GetCallerByEBPAtBase ::
  "stackwalker \<Rightarrow> memory_region \<Rightarrow> StackFrameX86 list \<Rightarrow> StackFrameX86 \<Rightarrow> bool \<Rightarrow> symbolizer \<Rightarrow>
     (StackFrameX86 option \<times> symbolizer) run" where
  "GetCallerByEBPAtBase w memory walked_frames last_frame stack_scan_allowed s = do {
     (found, s) \<leftarrow> ebp_at_base w memory (length walked_frames = 1) last_frame stack_scan_allowed s;
     Some (map_option (\<lambda>(caller_eip, caller_esp, caller_ebp, t).
             new_StackFrameX86\<lparr>trust := t,
               x86_context := (x86_context last_frame)\<lparr>eip := caller_eip, esp := caller_esp, ebp := caller_ebp\<rparr>,
               x86_validity := CONTEXT_VALID_EIP OR CONTEXT_VALID_ESP OR CONTEXT_VALID_EBP\<rparr>) found, s)
   }"

subsection \<open>\<open>GetCallerFrame\<close>\<close>

text \<open>
  The three strategies in their order.  A strategy that is tried leaves its frame data in the
  last frame, whether or not it succeeds.
\<close>

definition x86_try_windows ::
  "stackwalker \<Rightarrow> memory_region \<Rightarrow> StackFrameX86 list \<Rightarrow> StackFrameX86 \<Rightarrow> bool \<Rightarrow> symbolizer \<Rightarrow>
     (StackFrameX86 option \<times> StackFrameX86 \<times> symbolizer) run" where
  "x86_try_windows w memory walked_frames last_frame stack_scan_allowed s =
     (case Symbolizer_FindWindowsFrameInfo s last_frame of
        None \<Rightarrow> Some (None, last_frame, s)
      | Some info \<Rightarrow>
          let last_frame = last_frame\<lparr>x86_windows_frame_info := Some info\<rparr> in
          map_option (\<lambda>(f, s). (f, last_frame, s))
            (GetCallerByWindowsFrameInfo w memory walked_frames last_frame info stack_scan_allowed s))"

definition x86_try_cfi ::
  "memory_region \<Rightarrow> StackFrameX86 \<Rightarrow> symbolizer \<Rightarrow> (StackFrameX86 option \<times> StackFrameX86) run" where
  "x86_try_cfi memory last_frame s =
     (case Symbolizer_FindCFIFrameInfo s last_frame of
        None \<Rightarrow> Some (None, last_frame)
      | Some cfi \<Rightarrow>
          map_option (\<lambda>f. (f, last_frame\<lparr>x86_cfi_frame_info := Some cfi\<rparr>))
            (x86_GetCallerByCFIFrameInfo memory last_frame cfi))"

definition x86_new_frame ::
  "stackwalker \<Rightarrow> memory_region \<Rightarrow> StackFrameX86 list \<Rightarrow> bool \<Rightarrow> symbolizer \<Rightarrow>
     (StackFrameX86 option \<times> StackFrameX86 \<times> symbolizer) run" where
  "x86_new_frame w memory walked_frames stack_scan_allowed s = do {
     (new_frame, last_frame, s) \<leftarrow>
       x86_try_windows w memory walked_frames (last walked_frames) stack_scan_allowed s;
     (new_frame, last_frame) \<leftarrow>
       (if new_frame = None then x86_try_cfi memory last_frame s else Some (new_frame, last_frame));
     (if new_frame = None
      then map_option (\<lambda>(f, s). (f, last_frame, s))
        (GetCallerByEBPAtBase w memory walked_frames last_frame stack_scan_allowed s)
      else Some (new_frame, last_frame, s))
   }"

definition x86_GetCallerFrame ::
  "stackwalker \<Rightarrow> memory_region option \<Rightarrow> StackFrameX86 caller_of" where
  "x86_GetCallerFrame w memory walked_frames stack_scan_allowed s =
     (case memory of
        None \<Rightarrow> Some (None, last walked_frames, s)
      | Some memory \<Rightarrow> do {
          (new_frame, last_frame, s) \<leftarrow> x86_new_frame w memory walked_frames stack_scan_allowed s;
          (case new_frame of
             None \<Rightarrow> Some (None, last_frame, s)
           | Some f \<Rightarrow>
               Some (accept_caller (ucast (eip (x86_context f))) (ucast (esp (x86_context f)))
                       (ucast (esp (x86_context last_frame))) (length walked_frames = 1)
                       (ucast (eip (x86_context f) - 1)) f, last_frame, s))
        })"

subsection \<open>The walk over x86 frames\<close>

definition x86_sp :: "StackFrameX86 \<Rightarrow> u64" where
  "x86_sp f = ucast (esp (x86_context f))"

lemma x86_sp_more: "StackFrame.more f = StackFrame.more g \<Longrightarrow> x86_sp f = x86_sp g"
  by (cases f; cases g) (simp add: x86_sp_def)

lemma x86_try_windows_last:
  assumes "x86_try_windows w memory walked_frames lf scan s = Some (nf, lf', s')"
  shows "x86_context lf' = x86_context lf \<and> trust lf' = trust lf"
  using assms by (auto simp: x86_try_windows_def Let_def split: option.split_asm)

lemma x86_try_cfi_last:
  assumes "x86_try_cfi memory lf s = Some (nf, lf')"
  shows "x86_context lf' = x86_context lf \<and> trust lf' = trust lf"
  using assms by (auto simp: x86_try_cfi_def split: option.split_asm)

lemma x86_new_frame_last:
  assumes "x86_new_frame w memory walked_frames scan s = Some (nf, lf', s')"
  shows "x86_context lf' = x86_context (last walked_frames) \<and> trust lf' = trust (last walked_frames)"
  using assms
  by (auto simp: x86_new_frame_def bind_eq_Some_conv dest!: x86_try_windows_last x86_try_cfi_last
      split: if_split_asm)

text \<open>Without scanning, a frame is found by CFI, by a frame data program, or by the frame pointer.\<close>

lemma windows_unscanned:
  assumes "GetCallerByWindowsFrameInfo w memory walked_frames lf info False s = Some (Some f, s')"
  shows "trust f = FRAME_TRUST_CFI"
proof -
  have prog: "wr_trust r = FRAME_TRUST_CFI"
    if "run_windows_program w memory lf c False program d s0 = Some (Some r, s1)" for c program d s0 r s1
    using that by (auto simp: run_windows_program_def Let_def bind_eq_Some_conv split: if_split_asm)
  have better: "r' = r" if "better_return_address w memory c False r s0 = Some ((r', off), s1)" for c r s0 r' off s1
    using that by (simp add: better_return_address_def Let_def)
  have saved: "wr_trust r' = wr_trust r" if "recover_saved_ebp memory lf info cp st off r = Some r'" for cp st off r r'
    using that by (auto simp: recover_saved_ebp_def Let_def bind_eq_Some_conv split: if_split_asm option.split_asm)
  have frame: "trust (windows_caller_frame lf r) = wr_trust r" for r
    by (simp add: windows_caller_frame_def Let_def)
  have finish: "trust g = wr_trust r"
    if "finish_windows_caller w memory c False lf info cp rec st r s0 = Some (g, s1)" for c cp rec st r s0 g s1
    using that by (auto simp: finish_windows_caller_def bind_eq_Some_conv frame
        dest!: better saved split: if_split_asm)
  obtain program rec where p: "windows_program lf info = (program, rec)" by fastforce
  obtain c d s0 r s1 cp st where "run_windows_program w memory lf c False program d s0 = Some (Some r, s1)"
    and "finish_windows_caller w memory c False lf info cp rec st r s1 = Some (f, s')"
    using assms
    by (auto simp: GetCallerByWindowsFrameInfo_def Let_def bind_eq_Some_conv p
        split: if_split_asm option.split_asm)
  with prog finish show ?thesis by metis
qed

lemma x86_cfi_frame:
  assumes "x86_GetCallerByCFIFrameInfo memory lf cfi = Some (Some f)"
  shows "\<exists>caller_context caller_validity.
    FindCallerRegisters x86_register_map (filled_x86_context 0xDA) (read_u32 memory) cfi
      (x86_context lf) (x86_validity lf) = Some (Some (caller_context, caller_validity)) \<and>
    caller_validity AND (CONTEXT_VALID_EIP OR CONTEXT_VALID_ESP OR CONTEXT_VALID_EBP) =
      CONTEXT_VALID_EIP OR CONTEXT_VALID_ESP OR CONTEXT_VALID_EBP \<and>
    f = new_StackFrameX86\<lparr>x86_context := caller_context, x86_validity := caller_validity,
      trust := FRAME_TRUST_CFI\<rparr>"
proof -
  obtain found where run: "FindCallerRegisters x86_register_map (filled_x86_context 0xDA) (read_u32 memory)
      cfi (x86_context lf) (x86_validity lf) = Some found"
    using assms by (auto simp: x86_GetCallerByCFIFrameInfo_def bind_eq_Some_conv)
  with assms obtain c v where "found = Some (c, v)"
    by (cases found) (auto simp: x86_GetCallerByCFIFrameInfo_def)
  with assms run show ?thesis
    by (auto simp: x86_GetCallerByCFIFrameInfo_def Let_def split: if_split_asm)
qed

lemma x86_new_frame_unscanned:
  assumes "x86_new_frame w memory walked_frames False s = Some (Some f, lf', s')"
  shows "\<not> dubious (trust f)"
proof -
  have win: "trust f = FRAME_TRUST_CFI" if "x86_try_windows w memory walked_frames lf False s = Some (Some f, l, s1)"
    for lf f l s1
    using that by (auto simp: x86_try_windows_def Let_def split: option.split_asm dest!: windows_unscanned)
  have cfi: "trust f = FRAME_TRUST_CFI" if "x86_try_cfi memory lf s1 = Some (Some f, l)" for lf s1 f l
    using that by (auto simp: x86_try_cfi_def dest!: x86_cfi_frame split: option.split_asm)
  have fp: "trust f = FRAME_TRUST_FP" if "GetCallerByEBPAtBase w memory walked_frames lf False s1 = Some (Some f, s2)"
    for lf s1 f s2
    using that by (auto simp: GetCallerByEBPAtBase_def ebp_at_base_def Let_def bind_eq_Some_conv
        split: option.split_asm)
  show ?thesis
    using assms win cfi fp
    by (fastforce simp: x86_new_frame_def bind_eq_Some_conv dubious_def split: if_split_asm)
qed

lemma x86_GetCallerFrame_SomeD:
  assumes "x86_GetCallerFrame w memory walked_frames scan s = Some (nxt, lf, s')"
  shows "x86_context lf = x86_context (last walked_frames) \<and> trust lf = trust (last walked_frames) \<and>
    (\<forall>f. nxt = Some f \<longrightarrow>
       push_bit 12 1 \<le> (ucast (eip (x86_context f)) :: u64) \<and> instruction f = ucast (eip (x86_context f) - 1) \<and>
       above (length walked_frames = 1) (x86_sp (last walked_frames)) (x86_sp f) \<and>
       (\<not> scan \<longrightarrow> \<not> dubious (trust f)))"
proof (cases memory)
  case None
  with assms show ?thesis by (simp add: x86_GetCallerFrame_def)
next
  case (Some m)
  obtain nf lf0 s0 where run: "x86_new_frame w m walked_frames scan s = Some (nf, lf0, s0)"
    using assms Some by (auto simp: x86_GetCallerFrame_def bind_eq_Some_conv)
  have nxt: "lf0 = lf \<and> nxt = (case nf of None \<Rightarrow> None | Some f \<Rightarrow>
      accept_caller (ucast (eip (x86_context f))) (x86_sp f) (x86_sp lf) (length walked_frames = 1)
        (ucast (eip (x86_context f) - 1)) f)"
    using assms Some run
    by (cases nf) (auto simp: x86_GetCallerFrame_def x86_sp_def split: if_split_asm)
  with run have run: "x86_new_frame w m walked_frames scan s = Some (nf, lf, s0)" by simp
  have keep: "x86_context lf = x86_context (last walked_frames)" "trust lf = trust (last walked_frames)"
    using x86_new_frame_last [OF run] by auto
  then have sp: "x86_sp lf = x86_sp (last walked_frames)" by (simp add: x86_sp_def)
  have "\<not> dubious (trust f)" if "\<not> scan" "nf = Some f" for f
    using x86_new_frame_unscanned [of w m walked_frames s f lf s0] run that by simp
  with keep nxt sp show ?thesis
    by (auto simp: x86_sp_def dest!: accept_caller_SomeD split: option.split_asm)
qed

interpretation x86: scan_limited_walker w "x86_GetCallerFrame w memory" x86_sp 0
proof
  fix walked_frames scan s nxt lf s'
  assume run: "x86_GetCallerFrame w memory walked_frames scan s = Some (nxt, lf, s')" and "walked_frames \<noteq> []"
  from x86_GetCallerFrame_SomeD [OF run]
  show "x86_sp lf = x86_sp (last walked_frames) \<and> trust lf = trust (last walked_frames)"
    by (simp add: x86_sp_def)
next
  fix walked_frames scan s f lf s'
  assume run: "x86_GetCallerFrame w memory walked_frames scan s = Some (Some f, lf, s')"
  from x86_GetCallerFrame_SomeD [OF run]
  show "above (length walked_frames = 1) (x86_sp (last walked_frames)) (x86_sp f)" by simp
next
  fix f g :: StackFrameX86
  assume "same_machine_state f g"
  then show "x86_sp f = x86_sp g" by (intro x86_sp_more) (simp add: same_machine_state_def)
next
  fix walked_frames s f lf s'
  assume run: "x86_GetCallerFrame w memory walked_frames False s = Some (Some f, lf, s')" and "dubious (trust f)"
  with x86_GetCallerFrame_SomeD [OF run] show "length walked_frames \<le> 0" by simp
qed

definition x86_Walk ::
  "stackwalker \<Rightarrow> memory_region option \<Rightarrow> MDRawContextX86 option \<Rightarrow> StackFrameX86 call_stack \<Rightarrow>
     CodeModule list \<Rightarrow> CodeModule list \<Rightarrow> symbolizer \<Rightarrow>
     (bool \<times> StackFrameX86 call_stack \<times> CodeModule list \<times> CodeModule list \<times> symbolizer) run" where
  "x86_Walk w memory context stk missing corrupt s =
     Walk w (x86_GetCallerFrame w (x86_memory memory)) (x86_GetContextFrame context) stk missing corrupt s"

text \<open>
  The stack pointers of an x86 walk rise, and its length and its scanned frames are limited.
\<close>

lemma x86_Walk_rising:
  assumes "x86_Walk w memory context stk missing corrupt s = Some (b, stk', missing', corrupt', s')"
    and "frames stk = []"
  shows "rising (map x86_sp (frames stk')) \<and> length (frames stk') \<le> unat (max_frames w) + 1 \<and>
    dubious_frames (frames stk') \<le> unat (max_frames_scanned w)"
proof -
  have "\<not> dubious (trust f)" if "x86_GetContextFrame context = Some f" for f
    using that by (auto simp: x86_GetContextFrame_def dubious_def)
  from x86.Walk_scanned [OF assms [unfolded x86_Walk_def] this] x86.Walk_rising [OF assms [unfolded x86_Walk_def]]
  show ?thesis by simp
qed

subsection \<open>The frames of a frame-pointer chain\<close>

text \<open>
  The classical stack layout: at the frame pointer lies the caller's frame pointer, above it
  the return address.  \<open>ebp_chain read sp bp callers\<close> says that the memory holds the chain
  of the given return addresses and frame pointers, each frame above the last, ended by a
  return address in the first page.
\<close>

fun ebp_chain :: "32 memory \<Rightarrow> u32 \<Rightarrow> u32 \<Rightarrow> (u32 \<times> u32) list \<Rightarrow> bool" where
  "ebp_chain read sp bp [] =
     ((case read (ucast (bp + 4)) of None \<Rightarrow> False | Some ret \<Rightarrow> ret < 0x1000) \<and> read (ucast bp) \<noteq> None)"
| "ebp_chain read sp bp ((ret, bp') # callers) =
     (read (ucast (bp + 4)) = Some ret \<and> read (ucast bp) = Some bp' \<and> 0x1000 \<le> ret \<and> sp < bp + 8 \<and>
      ebp_chain read (bp + 8) bp' callers)"

text \<open>What the walk shows of a frame: instruction, trust, return address, stack and frame pointer.\<close>

definition shown :: "StackFrameX86 \<Rightarrow> u64 \<times> FrameTrust \<times> u32 \<times> u32 \<times> u32" where
  "shown f = (instruction f, trust f, eip (x86_context f), esp (x86_context f), ebp (x86_context f))"

fun chain_shown :: "u32 \<Rightarrow> (u32 \<times> u32) list \<Rightarrow> (u64 \<times> FrameTrust \<times> u32 \<times> u32 \<times> u32) list" where
  "chain_shown bp [] = []"
| "chain_shown bp ((ret, bp') # callers) =
     (ucast (ret - 1), FRAME_TRUST_FP, ret, bp + 8, bp') # chain_shown bp' callers"

lemma shown_machine: "same_machine_state f g \<Longrightarrow> shown g = shown f"
  by (cases f; cases g) (simp add: same_machine_state_def shown_def)

lemma ebp_caller:
  assumes "sym_resolver s = None" and "g = last walked_frames"
    and "read_u32 m (ucast (ebp (x86_context g) + 4)) = Some ret" and "read_u32 m (ucast (ebp (x86_context g))) = Some bp'"
  shows "x86_GetCallerFrame w (Some m) walked_frames scan s =
    (let f = new_StackFrameX86\<lparr>trust := FRAME_TRUST_FP,
           x86_context := (x86_context g)\<lparr>eip := ret, esp := ebp (x86_context g) + 8, ebp := bp'\<rparr>,
           x86_validity := CONTEXT_VALID_EIP OR CONTEXT_VALID_ESP OR CONTEXT_VALID_EBP\<rparr>
     in if TerminateWalk (ucast ret) (ucast (ebp (x86_context g) + 8)) (ucast (esp (x86_context g)))
            (length walked_frames = 1)
        then Some (None, g, s) else Some (Some (f\<lparr>instruction := ucast (ret - 1)\<rparr>), g, s))"
  using assms
  by (simp add: x86_GetCallerFrame_def x86_new_frame_def x86_try_windows_def x86_try_cfi_def
      no_resolver_lookups GetCallerByEBPAtBase_def ebp_at_base_def accept_caller_def Let_def)

lemma ebp_chain_loop:
  assumes "sym_resolver (walk_symbolizer st) = None"
    and "ebp_chain (read_u32 m) (esp (x86_context f)) (ebp (x86_context f)) callers"
    and "length (walked st) + 1 + length callers \<le> unat (max_frames w)"
  shows "\<exists>st'. walk_loop w (x86_GetCallerFrame w (Some m)) (Some f) st = Some (True, st') \<and>
    map shown (walked st') = map shown (walked st) @ shown f # chain_shown (ebp (x86_context f)) callers"
  using assms
proof (induction callers arbitrary: f st)
  case Nil
  obtain g st1 where add: "add_frame w f st = Some (True, st1)" "walked st1 = walked st @ [g]"
      "shown g = shown f" "walk_symbolizer st1 = walk_symbolizer st"
    using no_resolver_add_frame [OF Nil.prems(1)] shown_machine by blast
  obtain ret bp' where mem: "read_u32 m (ucast (ebp (x86_context g) + 4)) = Some ret" "ret < 0x1000"
      "read_u32 m (ucast (ebp (x86_context g))) = Some bp'"
    using Nil.prems(2) add(3) by (auto simp: shown_def split: option.split_asm)
  have "(ucast ret :: u64) < push_bit 12 1" using mem(2) by (simp add: word_less_nat_alt unsigned_ucast_eq take_bit_nat_eq_self)
  then have "x86_GetCallerFrame w (Some m) (walked st1) b (walk_symbolizer st1) =
      Some (None, g, walk_symbolizer st1)" for b
    using Nil.prems(1) add by (subst ebp_caller [OF _ _ mem(1,3)]) (simp_all add: TerminateWalk_def)
  with add Nil.prems(3) have "walk_loop w (x86_GetCallerFrame w (Some m)) (Some f) st =
      walk_loop w (x86_GetCallerFrame w (Some m)) None (st1\<lparr>walked := walked st @ [g], walk_symbolizer := walk_symbolizer st\<rparr>)"
    by (subst walk_loop.simps) simp
  then show ?case using add(3) by (subst (asm) (2) walk_loop.simps) simp
next
  case (Cons c callers)
  obtain ret bp' where c: "c = (ret, bp')" by fastforce
  obtain g st1 where add: "add_frame w f st = Some (True, st1)" "walked st1 = walked st @ [g]"
      "shown g = shown f" "walk_symbolizer st1 = walk_symbolizer st"
    using no_resolver_add_frame [OF Cons.prems(1)] shown_machine by blast
  have regs: "esp (x86_context g) = esp (x86_context f)" "ebp (x86_context g) = ebp (x86_context f)"
    using add(3) by (simp_all add: shown_def)
  have mem: "read_u32 m (ucast (ebp (x86_context g) + 4)) = Some ret"
      "read_u32 m (ucast (ebp (x86_context g))) = Some bp'" "0x1000 \<le> ret"
      "esp (x86_context g) < ebp (x86_context g) + 8"
      "ebp_chain (read_u32 m) (ebp (x86_context g) + 8) bp' callers"
    using Cons.prems(2) regs by (auto simp: c)
  have up: "unat (ucast x :: u64) = unat x" for x :: u32
    using unsigned_less [of x, where ?'a = nat] by (simp add: unsigned_ucast_eq take_bit_nat_eq_self)
  have go: "\<not> TerminateWalk (ucast ret) (ucast (ebp (x86_context g) + 8)) (ucast (esp (x86_context g))) b" for b
    using mem(3,4) by (auto simp: TerminateWalk_def word_less_nat_alt word_le_nat_alt up)
  define h where "h = new_StackFrameX86\<lparr>trust := FRAME_TRUST_FP,
      x86_context := (x86_context g)\<lparr>eip := ret, esp := ebp (x86_context g) + 8, ebp := bp'\<rparr>,
      x86_validity := CONTEXT_VALID_EIP OR CONTEXT_VALID_ESP OR CONTEXT_VALID_EBP,
      instruction := ucast (ret - 1)\<rparr>"
  let ?st = "st1\<lparr>walked := walked st @ [g], walk_symbolizer := walk_symbolizer st\<rparr>"
  have "x86_GetCallerFrame w (Some m) (walked st1) b (walk_symbolizer st1) =
      Some (Some h, g, walk_symbolizer st1)" for b
    using Cons.prems(1) add go by (subst ebp_caller [OF _ _ mem(1,2)]) (simp_all add: h_def)
  with add Cons.prems(3) have one: "walk_loop w (x86_GetCallerFrame w (Some m)) (Some f) st =
      walk_loop w (x86_GetCallerFrame w (Some m)) (Some h) ?st"
    by (subst walk_loop.simps) simp
  have "\<exists>st'. walk_loop w (x86_GetCallerFrame w (Some m)) (Some h) ?st = Some (True, st') \<and>
      map shown (walked st') = map shown (walked ?st) @ shown h # chain_shown (ebp (x86_context h)) callers"
    using Cons.prems(1,3) mem(5) by (intro Cons.IH) (simp_all add: h_def)
  moreover have "shown h = (ucast (ret - 1), FRAME_TRUST_FP, ret, ebp (x86_context f) + 8, bp')"
    "ebp (x86_context h) = bp'"
    using regs by (simp_all add: h_def shown_def)
  ultimately show ?case using one add(3) by (simp add: c)
qed

lemma x86_chain_walk:
  assumes "ebp_chain (read_u32 m) (esp c) (ebp c) callers" and "x86_memory (Some m) = Some m"
    and "sym_resolver s = None" and "frames stk = []" and "length callers < unat (max_frames w)"
  shows "\<exists>stk' missing' corrupt' s'.
    x86_Walk w (Some m) (Some c) stk missing corrupt s = Some (True, stk', missing', corrupt', s') \<and>
    map shown (frames stk') =
      (ucast (eip c), FRAME_TRUST_CONTEXT, eip c, esp c, ebp c) # chain_shown (ebp c) callers"
proof -
  define f where "f = new_StackFrameX86\<lparr>x86_context := c, x86_validity := CONTEXT_VALID_ALL,
      trust := FRAME_TRUST_CONTEXT, instruction := ucast (eip c)\<rparr>"
  let ?st = "\<lparr>walked = [], scanned_frames = 0, modules_without_symbols = missing,
    modules_with_corrupt_symbols = corrupt, walk_symbolizer = s\<rparr>"
  have "\<exists>st'. walk_loop w (x86_GetCallerFrame w (Some m)) (Some f) ?st = Some (True, st') \<and>
      map shown (walked st') = map shown (walked ?st) @ shown f # chain_shown (ebp (x86_context f)) callers"
    using assms(1,3,5) by (intro ebp_chain_loop) (simp_all add: f_def)
  then show ?thesis
    using assms(2,4)
    by (auto simp: x86_Walk_def Walk_def CallStack_Clear_def x86_GetContextFrame_def f_def shown_def)
qed

text \<open>
  C21: On a stack with a chain of frame pointers, without symbols, the walk from the context
  yields exactly the frames of the chain: the return addresses, the stack pointers above them
  and the frame pointers, each trusted as a frame-pointer frame, with the instruction inside
  the call.
\<close>

theorem x86_Walk_chain:
  assumes "ebp_chain (read_u32 m) (esp c) (ebp c) callers" and "x86_memory (Some m) = Some m"
    and "sym_resolver s = None" and "frames stk = []" and "length callers < unat (max_frames w)"
  shows "\<exists>stk' missing' corrupt' s'.
    x86_Walk w (Some m) (Some c) stk missing corrupt s = Some (True, stk', missing', corrupt', s') \<and>
    map shown (frames stk') =
      (ucast (eip c), FRAME_TRUST_CONTEXT, eip c, esp c, ebp c) # chain_shown (ebp c) callers"
  using assms by (rule x86_chain_walk)

definition sample_x86_stack :: memory_region where
  "sample_x86_stack = \<lparr>region_base = 0x1000, region_size = 0x100,
     read_u32 = (\<lambda>a. if a = 0x1010 then Some 0x1020 else if a = 0x1014 then Some 0x401006
       else if a = 0x1020 then Some 0 else if a = 0x1024 then Some 0 else None),
     read_u64 = (\<lambda>_. None)\<rparr>"

definition sample_x86_context :: MDRawContextX86 where
  "sample_x86_context = (filled_x86_context 0)\<lparr>eip := 0x401002, esp := 0x1000, ebp := 0x1010\<rparr>"

lemma sample_x86_chain:
  "ebp_chain (read_u32 sample_x86_stack) (esp sample_x86_context) (ebp sample_x86_context) [(0x401006, 0x1020)]"
  "x86_memory (Some sample_x86_stack) = Some sample_x86_stack"
  by (simp_all add: sample_x86_stack_def sample_x86_context_def x86_memory_def)

theorem x86_Walk_chain_witness:
  "\<exists>stk' missing' corrupt' s'.
    x86_Walk sample_walker (Some sample_x86_stack) (Some sample_x86_context) empty_stack [] [] no_symbols =
      Some (True, stk', missing', corrupt', s') \<and>
    map shown (frames stk') =
      [(0x401002, FRAME_TRUST_CONTEXT, 0x401002, 0x1000, 0x1010),
       (0x401005, FRAME_TRUST_FP, 0x401006, 0x1018, 0x1020)]"
proof -
  have limit: "length [(0x401006 :: u32, 0x1020 :: u32)] < unat (max_frames sample_walker)"
    by (simp add: sample_walker_def new_stackwalker_def)
  from x86_Walk_chain [OF sample_x86_chain _ _ limit, of no_symbols empty_stack "[]" "[]"]
  show ?thesis by (simp add: sample_x86_context_def)
qed

subsection \<open>What CFI recovers\<close>

lemma flags_within:
  fixes v m flag :: u32
  assumes "v AND m = m"
  shows "m AND flag = flag \<longrightarrow> v AND flag = flag"
  using assms by (metis and.assoc)

lemma register_value:
  fixes regs :: "string \<rightharpoonup> u32"
  assumes "x86_GetCallerByCFIFrameInfo memory lf cfi = Some (Some f)"
    and "FindCallerRegs cfi (callee_registers x86_register_map (x86_context lf) (x86_validity lf))
      (read_u32 memory) Map.empty = Some (True, regs)"
    and "r \<in> set x86_register_map"
  shows "(x86_valid f (rs_validity_flag r)) =
      (x86_registers.recovered regs (x86_context lf) (x86_validity lf) r \<noteq> None) \<and>
    (\<forall>v. x86_registers.recovered regs (x86_context lf) (x86_validity lf) r = Some v \<longrightarrow>
      rs_get r (x86_context f) = v)"
proof -
  obtain ctx v where found: "FindCallerRegisters x86_register_map (filled_x86_context 0xDA) (read_u32 memory)
      cfi (x86_context lf) (x86_validity lf) = Some (Some (ctx, v))"
    and f: "f = new_StackFrameX86\<lparr>x86_context := ctx, x86_validity := v, trust := FRAME_TRUST_CFI\<rparr>"
    using x86_cfi_frame [OF assms(1)] by blast
  have "foldl (\<lambda>cv r. recover_register regs (x86_context lf) (x86_validity lf) r cv)
      (filled_x86_context 0xDA, 0) x86_register_map = (ctx, v)"
    using found assms(2) by (simp add: FindCallerRegisters_def)
  from x86_registers.recovered_context [OF this assms(3)] show ?thesis by (simp add: f)
qed

text \<open>
  C22: A caller found by CFI has the instruction and stack pointer the rules compute (or what a
  rule for the register itself says), and each preserved register is valid exactly when a rule
  gives it or the callee knew it, with that value.
\<close>

theorem x86_CFI_caller:
  fixes regs :: "string \<rightharpoonup> u32"
  assumes "x86_GetCallerByCFIFrameInfo memory lf cfi = Some (Some f)"
    and "FindCallerRegs cfi (callee_registers x86_register_map (x86_context lf) (x86_validity lf))
      (read_u32 memory) Map.empty = Some (True, regs)"
  shows "Some (eip (x86_context f)) = (case regs ''$eip'' of Some v \<Rightarrow> Some v | None \<Rightarrow> regs ''.ra'') \<and>
    Some (esp (x86_context f)) = (case regs ''$esp'' of Some v \<Rightarrow> Some v | None \<Rightarrow> regs ''.cfa'') \<and>
    (\<forall>(name, flag, value) \<in> set [(''$ebp'', CONTEXT_VALID_EBP, ebp), (''$ebx'', CONTEXT_VALID_EBX, ebx),
        (''$esi'', CONTEXT_VALID_ESI, esi), (''$edi'', CONTEXT_VALID_EDI, edi)].
      x86_valid f flag = (regs name \<noteq> None \<or> x86_valid lf flag) \<and>
      (x86_valid f flag \<longrightarrow>
        value (x86_context f) = (case regs name of Some v \<Rightarrow> v | None \<Rightarrow> value (x86_context lf))))"
proof -
  have valid: "x86_valid f CONTEXT_VALID_EIP" "x86_valid f CONTEXT_VALID_ESP"
  proof -
    let ?m = "CONTEXT_VALID_EIP OR CONTEXT_VALID_ESP OR CONTEXT_VALID_EBP"
    have m: "x86_validity f AND ?m = ?m" using x86_cfi_frame [OF assms(1)] by auto
    have "?m AND CONTEXT_VALID_EIP = CONTEXT_VALID_EIP" "?m AND CONTEXT_VALID_ESP = CONTEXT_VALID_ESP"
      by (simp_all add: x86_flags)
    with flags_within [OF m] show "x86_valid f CONTEXT_VALID_EIP" "x86_valid f CONTEXT_VALID_ESP"
      by (simp_all add: x86_flags)
  qed
  note reg = register_value [OF assms]
  have saved: "x86_valid f flag = (regs name \<noteq> None \<or> x86_valid lf flag) \<and>
      (x86_valid f flag \<longrightarrow>
        get (x86_context f) = (case regs name of Some v \<Rightarrow> v | None \<Rightarrow> get (x86_context lf)))"
    if "register_entry name None True flag get upd \<in> set x86_register_map" for name flag get upd
    using reg [OF that]
    by (cases "regs name") (auto simp: register_entry_def x86_registers.recovered_def split: if_split_asm)
  have computed: "Some (get (x86_context f)) = (case regs name of Some v \<Rightarrow> Some v | None \<Rightarrow> regs alt)"
    if "register_entry name (Some alt) False flag get upd \<in> set x86_register_map" "x86_valid f flag"
    for name alt flag get upd
    using reg [OF that(1)] that(2)
    by (cases "regs name"; cases "regs alt") (auto simp: register_entry_def x86_registers.recovered_def)
  have "register_entry ''$eip'' (Some ''.ra'') False CONTEXT_VALID_EIP eip eip_update \<in> set x86_register_map"
    "register_entry ''$esp'' (Some ''.cfa'') False CONTEXT_VALID_ESP esp esp_update \<in> set x86_register_map"
    by (simp_all add: x86_register_map_def)
  note both = computed [OF this(1) valid(1)] computed [OF this(2) valid(2)]
  have "register_entry ''$ebp'' None True CONTEXT_VALID_EBP ebp ebp_update \<in> set x86_register_map"
    "register_entry ''$ebx'' None True CONTEXT_VALID_EBX ebx ebx_update \<in> set x86_register_map"
    "register_entry ''$esi'' None True CONTEXT_VALID_ESI esi esi_update \<in> set x86_register_map"
    "register_entry ''$edi'' None True CONTEXT_VALID_EDI edi edi_update \<in> set x86_register_map"
    by (simp_all add: x86_register_map_def)
  note four = saved [OF this(1)] saved [OF this(2)] saved [OF this(3)] saved [OF this(4)]
  show ?thesis
    unfolding list.set ball_simps prod.case by (intro conjI TrueI both four)
qed

definition sample_cfi_frame :: StackFrameX86 where
  "sample_cfi_frame = new_StackFrameX86\<lparr>x86_context := (filled_x86_context 0)\<lparr>esp := 0x1014, ebp := 0x1010\<rparr>,
     x86_validity := CONTEXT_VALID_ESP OR CONTEXT_VALID_EBP\<rparr>"

definition sample_cfi_regs :: "string \<rightharpoonup> u32" where
  "sample_cfi_regs = [''$ebp'' \<mapsto> 0x1010, ''.ra'' \<mapsto> 0x401006, ''.cfa'' \<mapsto> 0x1018]"

lemma sample_cfi_found:
  "FindCallerRegs sample_cfi (callee_registers x86_register_map (x86_context sample_cfi_frame)
     (x86_validity sample_cfi_frame)) (read_u32 sample_x86_stack) Map.empty = Some (True, sample_cfi_regs)"
proof -
  have regs: "callee_registers x86_register_map (x86_context sample_cfi_frame) (x86_validity sample_cfi_frame) =
      [''$esp'' \<mapsto> 0x1014, ''$ebp'' \<mapsto> 0x1010]"
    by (simp add: callee_registers_def x86_register_map_def register_entry_def sample_cfi_frame_def x86_flags)
  show ?thesis
    unfolding regs
    by (simp add: FindCallerRegs_def sample_cfi_def EvaluateForValue_def EvaluateInternal_def evaluator_eval
        PopValue_def sample_x86_stack_def sample_cfi_regs_def text_eval fun_eq_iff)
qed

theorem x86_CFI_caller_witness:
  "\<exists>f. x86_GetCallerByCFIFrameInfo sample_x86_stack sample_cfi_frame sample_cfi = Some (Some f) \<and>
     eip (x86_context f) = 0x401006 \<and> esp (x86_context f) = 0x1018 \<and> ebp (x86_context f) = 0x1010 \<and>
     \<not> x86_valid f CONTEXT_VALID_EBX"
proof -
  have "\<exists>f. x86_GetCallerByCFIFrameInfo sample_x86_stack sample_cfi_frame sample_cfi = Some (Some f)"
    unfolding x86_GetCallerByCFIFrameInfo_def FindCallerRegisters_def sample_cfi_found
    by (simp add: x86_register_map_def register_entry_def recover_register_def sample_cfi_regs_def
        sample_cfi_frame_def x86_flags)
  then obtain f where f: "x86_GetCallerByCFIFrameInfo sample_x86_stack sample_cfi_frame sample_cfi = Some (Some f)"
    by blast
  from x86_CFI_caller [OF f sample_cfi_found] f show ?thesis
    by (auto simp: sample_cfi_regs_def sample_cfi_frame_def x86_flags)
qed

end
