(* ===== verification/Stackwalker_AMD64.thy ===== *)
theory Stackwalker_AMD64
  imports Stackwalker
begin

text \<open>
  \<open>StackwalkerAMD64\<close> (\<open>processor/stackwalker_amd64.cc\<close>): the callers of x86-64 frames,
  from CFI rules, from the saved frame pointer when it is plausible, or by scanning the stack.
  The raw context has the fields of \<open>MDRawContextAMD64\<close>; the floating-point and vector
  areas are byte lists that are only copied.  Whether the system is Native Client is an
  argument of \<open>GetCallerFrame\<close>.
\<close>

record MDRawContextAMD64 =
  p1_home :: u64
  p2_home :: u64
  p3_home :: u64
  p4_home :: u64
  p5_home :: u64
  p6_home :: u64
  amd64_context_flags :: u32
  mx_csr :: u32
  amd64_cs :: u16
  amd64_ds :: u16
  amd64_es :: u16
  amd64_fs :: u16
  amd64_gs :: u16
  amd64_ss :: u16
  amd64_eflags :: u32
  amd64_dr0 :: u64
  amd64_dr1 :: u64
  amd64_dr2 :: u64
  amd64_dr3 :: u64
  amd64_dr6 :: u64
  amd64_dr7 :: u64
  rax :: u64
  rcx :: u64
  rdx :: u64
  rbx :: u64
  rsp :: u64
  rbp :: u64
  rsi :: u64
  rdi :: u64
  r8 :: u64
  r9 :: u64
  r10 :: u64
  r11 :: u64
  r12 :: u64
  r13 :: u64
  r14 :: u64
  r15 :: u64
  rip :: u64
  flt_save :: "u8 list"
  vector_register :: "u8 list"
  vector_control :: u64
  debug_control :: u64
  last_branch_to_rip :: u64
  last_branch_from_rip :: u64
  last_exception_to_rip :: u64
  last_exception_from_rip :: u64

text \<open>A context whose bytes are all \<open>b\<close>.\<close>

definition filled_amd64_context :: "u8 \<Rightarrow> MDRawContextAMD64" where
  "filled_amd64_context b =
     (let h = word_rcat [b, b]; v = word_rcat [b, b, b, b]; q = word_rcat [b, b, b, b, b, b, b, b] in
     \<lparr>p1_home = q, p2_home = q, p3_home = q, p4_home = q, p5_home = q, p6_home = q,
      amd64_context_flags = v, mx_csr = v, amd64_cs = h, amd64_ds = h, amd64_es = h,
      amd64_fs = h, amd64_gs = h, amd64_ss = h, amd64_eflags = v, amd64_dr0 = q, amd64_dr1 = q,
      amd64_dr2 = q, amd64_dr3 = q, amd64_dr6 = q, amd64_dr7 = q, rax = q, rcx = q, rdx = q,
      rbx = q, rsp = q, rbp = q, rsi = q, rdi = q, r8 = q, r9 = q, r10 = q, r11 = q, r12 = q,
      r13 = q, r14 = q, r15 = q, rip = q, flt_save = replicate 512 b,
      vector_register = replicate 416 b, vector_control = q, debug_control = q,
      last_branch_to_rip = q, last_branch_from_rip = q, last_exception_to_rip = q,
      last_exception_from_rip = q\<rparr>)"

definition CONTEXT_VALID_RAX :: u32 where "CONTEXT_VALID_RAX = push_bit 0 1"
definition CONTEXT_VALID_RDX :: u32 where "CONTEXT_VALID_RDX = push_bit 1 1"
definition CONTEXT_VALID_RCX :: u32 where "CONTEXT_VALID_RCX = push_bit 2 1"
definition CONTEXT_VALID_RBX :: u32 where "CONTEXT_VALID_RBX = push_bit 3 1"
definition CONTEXT_VALID_RSI :: u32 where "CONTEXT_VALID_RSI = push_bit 4 1"
definition CONTEXT_VALID_RDI :: u32 where "CONTEXT_VALID_RDI = push_bit 5 1"
definition CONTEXT_VALID_RBP :: u32 where "CONTEXT_VALID_RBP = push_bit 6 1"
definition CONTEXT_VALID_RSP :: u32 where "CONTEXT_VALID_RSP = push_bit 7 1"
definition CONTEXT_VALID_R8 :: u32 where "CONTEXT_VALID_R8 = push_bit 8 1"
definition CONTEXT_VALID_R9 :: u32 where "CONTEXT_VALID_R9 = push_bit 9 1"
definition CONTEXT_VALID_R10 :: u32 where "CONTEXT_VALID_R10 = push_bit 10 1"
definition CONTEXT_VALID_R11 :: u32 where "CONTEXT_VALID_R11 = push_bit 11 1"
definition CONTEXT_VALID_R12 :: u32 where "CONTEXT_VALID_R12 = push_bit 12 1"
definition CONTEXT_VALID_R13 :: u32 where "CONTEXT_VALID_R13 = push_bit 13 1"
definition CONTEXT_VALID_R14 :: u32 where "CONTEXT_VALID_R14 = push_bit 14 1"
definition CONTEXT_VALID_R15 :: u32 where "CONTEXT_VALID_R15 = push_bit 15 1"
definition CONTEXT_VALID_RIP :: u32 where "CONTEXT_VALID_RIP = push_bit 16 1"

lemmas amd64_flags = CONTEXT_VALID_RAX_def CONTEXT_VALID_RDX_def CONTEXT_VALID_RCX_def CONTEXT_VALID_RBX_def
  CONTEXT_VALID_RSI_def CONTEXT_VALID_RDI_def CONTEXT_VALID_RBP_def CONTEXT_VALID_RSP_def
  CONTEXT_VALID_R8_def CONTEXT_VALID_R9_def CONTEXT_VALID_R10_def CONTEXT_VALID_R11_def
  CONTEXT_VALID_R12_def CONTEXT_VALID_R13_def CONTEXT_VALID_R14_def CONTEXT_VALID_R15_def
  CONTEXT_VALID_RIP_def

record StackFrameAMD64 = StackFrame +
  amd64_context :: MDRawContextAMD64
  amd64_validity :: u32

definition new_StackFrameAMD64 :: StackFrameAMD64 where
  "new_StackFrameAMD64 = StackFrame.extend new_StackFrame
     \<lparr>amd64_context = filled_amd64_context 0, amd64_validity = CONTEXT_VALID_NONE\<rparr>"

definition amd64_ReturnAddress :: "StackFrameAMD64 \<Rightarrow> u64" where
  "amd64_ReturnAddress frame = rip (amd64_context frame)"

definition amd64_register_map :: "(u64, MDRawContextAMD64) RegisterSet list" where
  "amd64_register_map =
     [register_entry ''$rax'' None False CONTEXT_VALID_RAX rax rax_update,
      register_entry ''$rdx'' None False CONTEXT_VALID_RDX rdx rdx_update,
      register_entry ''$rcx'' None False CONTEXT_VALID_RCX rcx rcx_update,
      register_entry ''$rbx'' None True CONTEXT_VALID_RBX rbx rbx_update,
      register_entry ''$rsi'' None False CONTEXT_VALID_RSI rsi rsi_update,
      register_entry ''$rdi'' None False CONTEXT_VALID_RDI rdi rdi_update,
      register_entry ''$rbp'' None True CONTEXT_VALID_RBP rbp rbp_update,
      register_entry ''$rsp'' (Some ''.cfa'') False CONTEXT_VALID_RSP rsp rsp_update,
      register_entry ''$r8'' None False CONTEXT_VALID_R8 r8 r8_update,
      register_entry ''$r9'' None False CONTEXT_VALID_R9 r9 r9_update,
      register_entry ''$r10'' None False CONTEXT_VALID_R10 r10 r10_update,
      register_entry ''$r11'' None False CONTEXT_VALID_R11 r11 r11_update,
      register_entry ''$r12'' None True CONTEXT_VALID_R12 r12 r12_update,
      register_entry ''$r13'' None True CONTEXT_VALID_R13 r13 r13_update,
      register_entry ''$r14'' None True CONTEXT_VALID_R14 r14 r14_update,
      register_entry ''$r15'' None True CONTEXT_VALID_R15 r15 r15_update,
      register_entry ''$rip'' (Some ''.ra'') False CONTEXT_VALID_RIP rip rip_update]"

definition amd64_GetContextFrame :: "MDRawContextAMD64 option \<Rightarrow> StackFrameAMD64 option" where
  "amd64_GetContextFrame context =
     map_option (\<lambda>c. new_StackFrameAMD64\<lparr>amd64_context := c, amd64_validity := CONTEXT_VALID_ALL,
         trust := FRAME_TRUST_CONTEXT, instruction := rip c\<rparr>) context"

definition amd64_GetCallerByCFIFrameInfo ::
  "memory_region \<Rightarrow> StackFrameAMD64 \<Rightarrow> CFIFrameInfo \<Rightarrow> StackFrameAMD64 option run" where
  "amd64_GetCallerByCFIFrameInfo memory last_frame cfi = do {
     found \<leftarrow> FindCallerRegisters amd64_register_map (filled_amd64_context 0xDA) (read_u64 memory) cfi
       (amd64_context last_frame) (amd64_validity last_frame);
     Some (case found of
             None \<Rightarrow> None
           | Some (caller_context, caller_validity) \<Rightarrow>
               let essentials = CONTEXT_VALID_RIP OR CONTEXT_VALID_RSP in
               if caller_validity AND essentials \<noteq> essentials then None
               else if rip caller_context = 0 \<or> rsp caller_context = 0 then None
               else Some (new_StackFrameAMD64\<lparr>amd64_context := caller_context,
                      amd64_validity := caller_validity, trust := FRAME_TRUST_CFI\<rparr>))
   }"

definition is_non_canonical :: "u64 \<Rightarrow> bool" where
  "is_non_canonical ptr = (0x7FFFFFFFFFFF < ptr \<and> ptr < 0xFFFF800000000000)"

definition GetCallerByFramePointerRecovery ::
  "memory_region \<Rightarrow> StackFrameAMD64 \<Rightarrow> StackFrameAMD64 option" where
  "GetCallerByFramePointerRecovery memory last_frame =
     (let last_rbp = rbp (amd64_context last_frame); read = read_u64 memory in
      if last_rbp mod 8 \<noteq> 0 then None
      else
        (case (read (last_rbp + 8), read last_rbp) of
           (Some caller_rip, Some caller_rbp) \<Rightarrow>
             let caller_rsp = last_rbp + 16 in
             if is_non_canonical caller_rip then None
             else if caller_rsp \<le> last_rbp \<or> caller_rbp < caller_rsp then None
             else if read caller_rbp = None then None
             else Some (new_StackFrameAMD64\<lparr>trust := FRAME_TRUST_FP,
               amd64_context := (amd64_context last_frame)\<lparr>rip := caller_rip, rsp := caller_rsp, rbp := caller_rbp\<rparr>,
               amd64_validity := CONTEXT_VALID_RIP OR CONTEXT_VALID_RSP OR CONTEXT_VALID_RBP\<rparr>)
         | _ \<Rightarrow> None))"

text \<open>A value for the frame pointer of a caller found by scanning.\<close>

definition scanned_rbp :: "64 memory \<Rightarrow> StackFrameAMD64 \<Rightarrow> u64 \<Rightarrow> u64 option" where
  "scanned_rbp read last_frame caller_rip_address =
     (let last_rbp = rbp (amd64_context last_frame) in
      if amd64_validity last_frame AND CONTEXT_VALID_RBP = 0 then None
      else if caller_rip_address - 8 = last_rbp then
        (case read last_rbp of
           None \<Rightarrow> None
         | Some caller_rbp \<Rightarrow> if caller_rip_address < caller_rbp then Some caller_rbp else None)
      else if caller_rip_address + 8 \<le> last_rbp then Some last_rbp
      else None)"

definition amd64_GetCallerByStackScan ::
  "stackwalker \<Rightarrow> memory_region \<Rightarrow> StackFrameAMD64 list \<Rightarrow> symbolizer \<Rightarrow>
     (StackFrameAMD64 option \<times> symbolizer) run" where
  "amd64_GetCallerByStackScan w memory walked_frames s = do {
     let last_frame = last walked_frames;
     (found, s) \<leftarrow> ScanForReturnAddress w (read_u64 memory) (rsp (amd64_context last_frame))
       (search_words (length walked_frames = 1)) s;
     Some (map_option (\<lambda>(caller_rip_address, caller_rip).
         let frame = new_StackFrameAMD64\<lparr>trust := FRAME_TRUST_SCAN,
               amd64_context := (amd64_context last_frame)\<lparr>rip := caller_rip, rsp := caller_rip_address + 8\<rparr>,
               amd64_validity := CONTEXT_VALID_RIP OR CONTEXT_VALID_RSP\<rparr> in
         case scanned_rbp (read_u64 memory) last_frame caller_rip_address of
           None \<Rightarrow> frame
         | Some v \<Rightarrow> frame\<lparr>amd64_context := (amd64_context frame)\<lparr>rbp := v\<rparr>,
                        amd64_validity := amd64_validity frame OR CONTEXT_VALID_RBP\<rparr>) found, s)
   }"

text \<open>The strategies in their order, and the truncation for Native Client.\<close>

definition amd64_new_frame ::
  "stackwalker \<Rightarrow> memory_region \<Rightarrow> StackFrameAMD64 list \<Rightarrow> bool \<Rightarrow> symbolizer \<Rightarrow>
     (StackFrameAMD64 option \<times> symbolizer) run" where
  "amd64_new_frame w memory walked_frames stack_scan_allowed s = do {
     let last_frame = last walked_frames;
     new_frame \<leftarrow> (case Symbolizer_FindCFIFrameInfo s last_frame of
                     None \<Rightarrow> Some None
                   | Some cfi \<Rightarrow> amd64_GetCallerByCFIFrameInfo memory last_frame cfi);
     let new_frame = (if new_frame = None then GetCallerByFramePointerRecovery memory last_frame
                      else new_frame);
     (if stack_scan_allowed \<and> new_frame = None
      then amd64_GetCallerByStackScan w memory walked_frames s
      else Some (new_frame, s))
   }"

definition nacl_frame :: "StackFrameAMD64 \<Rightarrow> StackFrameAMD64" where
  "nacl_frame f = (let c = amd64_context f; low = (\<lambda>v. ucast (ucast v :: u32)) in
     f\<lparr>amd64_context := c\<lparr>rip := low (rip c), rsp := low (rsp c), rbp := low (rbp c)\<rparr>\<rparr>)"

definition amd64_GetCallerFrame ::
  "bool \<Rightarrow> stackwalker \<Rightarrow> memory_region option \<Rightarrow> StackFrameAMD64 caller_of" where
  "amd64_GetCallerFrame nacl w memory walked_frames stack_scan_allowed s =
     (case memory of
        None \<Rightarrow> Some (None, last walked_frames, s)
      | Some memory \<Rightarrow> do {
          let last_frame = last walked_frames;
          (new_frame, s) \<leftarrow> amd64_new_frame w memory walked_frames stack_scan_allowed s;
          (case new_frame of
             None \<Rightarrow> Some (None, last_frame, s)
           | Some f \<Rightarrow>
               let f = (if nacl then nacl_frame f else f) in
               Some (accept_caller (rip (amd64_context f)) (rsp (amd64_context f))
                       (rsp (amd64_context last_frame)) (length walked_frames = 1)
                       (rip (amd64_context f) - 1) f, last_frame, s))
        })"

definition amd64_Walk ::
  "bool \<Rightarrow> stackwalker \<Rightarrow> memory_region option \<Rightarrow> MDRawContextAMD64 option \<Rightarrow> StackFrameAMD64 call_stack \<Rightarrow>
     CodeModule list \<Rightarrow> CodeModule list \<Rightarrow> symbolizer \<Rightarrow>
     (bool \<times> StackFrameAMD64 call_stack \<times> CodeModule list \<times> CodeModule list \<times> symbolizer) run" where
  "amd64_Walk nacl w memory context stk missing corrupt s =
     Walk w (amd64_GetCallerFrame nacl w memory) (amd64_GetContextFrame context) stk missing corrupt s"

interpretation amd64_registers: register_table amd64_register_map
  by unfold_locales (auto simp: amd64_register_map_def register_entry_def amd64_flags)

subsection \<open>What a walk over x86-64 frames keeps\<close>

definition amd64_sp :: "StackFrameAMD64 \<Rightarrow> u64" where
  "amd64_sp f = rsp (amd64_context f)"

definition amd64_core :: "StackFrameAMD64 \<Rightarrow> FrameTrust \<times> MDRawContextAMD64" where
  "amd64_core f = (trust f, amd64_context f)"

lemma amd64_machine:
  assumes "same_machine_state f g"
  shows "amd64_core f = amd64_core g" "amd64_sp f = amd64_sp g" "amd64_validity f = amd64_validity g"
  using assms by (cases f; cases g; simp add: same_machine_state_def amd64_core_def amd64_sp_def)+

text \<open>
  The three ways to find a caller, as relations between a frame \<open>f\<close> and the registers \<open>c\<close> of its
  caller with their validity \<open>v\<close>.  By CFI: the instruction and stack pointer have a rule of
  their own or the values of the return address and the canonical frame address; a register that
  calls preserve is valid exactly when it has a rule or the callee knows it, any other when it
  has a rule; and the two pointers are not zero.
\<close>

definition amd64_preserved :: "(string \<times> u32 \<times> (MDRawContextAMD64 \<Rightarrow> u64)) list" where
  "amd64_preserved =
     [(''$rbx'', CONTEXT_VALID_RBX, rbx), (''$rbp'', CONTEXT_VALID_RBP, rbp), (''$r12'', CONTEXT_VALID_R12, r12),
      (''$r13'', CONTEXT_VALID_R13, r13), (''$r14'', CONTEXT_VALID_R14, r14), (''$r15'', CONTEXT_VALID_R15, r15)]"

definition amd64_scratch :: "(string \<times> u32 \<times> (MDRawContextAMD64 \<Rightarrow> u64)) list" where
  "amd64_scratch =
     [(''$rax'', CONTEXT_VALID_RAX, rax), (''$rdx'', CONTEXT_VALID_RDX, rdx), (''$rcx'', CONTEXT_VALID_RCX, rcx),
      (''$rsi'', CONTEXT_VALID_RSI, rsi), (''$rdi'', CONTEXT_VALID_RDI, rdi), (''$r8'', CONTEXT_VALID_R8, r8),
      (''$r9'', CONTEXT_VALID_R9, r9), (''$r10'', CONTEXT_VALID_R10, r10), (''$r11'', CONTEXT_VALID_R11, r11)]"

definition amd64_CFI_caller ::
  "64 memory \<Rightarrow> CFIFrameInfo \<Rightarrow> StackFrameAMD64 \<Rightarrow> MDRawContextAMD64 \<Rightarrow> u32 \<Rightarrow> bool" where
  "amd64_CFI_caller read cfi f c v =
     (\<exists>regs. FindCallerRegs cfi (callee_registers amd64_register_map (amd64_context f) (amd64_validity f))
          read Map.empty = Some (True, regs) \<and>
        Some (rip c) = (case regs ''$rip'' of Some x \<Rightarrow> Some x | None \<Rightarrow> regs ''.ra'') \<and>
        Some (rsp c) = (case regs ''$rsp'' of Some x \<Rightarrow> Some x | None \<Rightarrow> regs ''.cfa'') \<and>
        v AND CONTEXT_VALID_RIP \<noteq> 0 \<and> v AND CONTEXT_VALID_RSP \<noteq> 0 \<and>
        (\<forall>(name, flag, register)\<in>set amd64_preserved.
           (v AND flag \<noteq> 0) = (regs name \<noteq> None \<or> amd64_validity f AND flag \<noteq> 0) \<and>
           (v AND flag \<noteq> 0 \<longrightarrow>
              register c = (case regs name of Some x \<Rightarrow> x | None \<Rightarrow> register (amd64_context f)))) \<and>
        (\<forall>(name, flag, register)\<in>set amd64_scratch.
           (v AND flag \<noteq> 0) = (regs name \<noteq> None) \<and> (v AND flag \<noteq> 0 \<longrightarrow> Some (register c) = regs name)) \<and>
        rip c \<noteq> 0 \<and> rsp c \<noteq> 0)"

text \<open>
  By the frame pointer: it is aligned and points to the caller's frame pointer, which is readable
  memory not below the new stack pointer, with the return address, a canonical one, above it.
\<close>

definition amd64_FP_caller :: "64 memory \<Rightarrow> StackFrameAMD64 \<Rightarrow> MDRawContextAMD64 \<Rightarrow> u32 \<Rightarrow> bool" where
  "amd64_FP_caller read f c v =
     (let fp = rbp (amd64_context f) in
      \<exists>ip bp. read (fp + 8) = Some ip \<and> read fp = Some bp \<and> fp mod 8 = 0 \<and>
        (ip \<le> 0x7FFFFFFFFFFF \<or> 0xFFFF800000000000 \<le> ip) \<and> fp < fp + 16 \<and> fp + 16 \<le> bp \<and> read bp \<noteq> None \<and>
        c = (amd64_context f)\<lparr>rip := ip, rsp := fp + 16, rbp := bp\<rparr> \<and>
        v = CONTEXT_VALID_RIP OR CONTEXT_VALID_RSP OR CONTEXT_VALID_RBP)"

text \<open>
  By scanning: a word on the stack, at most 160 words up for the first frame and 40 for the
  others, holds an address in a module.  A frame pointer the callee knows is the caller's if
  it lies above that word; if the word lies just above where it points to, what is saved there is,
  if that lies above; else it is not known.
\<close>

definition amd64_scan_caller ::
  "stackwalker \<Rightarrow> 64 memory \<Rightarrow> bool \<Rightarrow> StackFrameAMD64 \<Rightarrow> MDRawContextAMD64 \<Rightarrow> u32 \<Rightarrow> bool" where
  "amd64_scan_caller w read first f c v =
     (let sp = rsp (amd64_context f); fp = rbp (amd64_context f);
          known = (amd64_validity f AND CONTEXT_VALID_RBP \<noteq> 0) in
      \<exists>k slot ip get_module bp.
        slot = sp + of_nat (k * 8) \<and> slot \<le> sp + (if first then 160 * 8 else 40 * 8) \<and> read slot = Some ip \<and>
        walker_modules w = Some get_module \<and> get_module (ip - 1) \<noteq> None \<and>
        (\<forall>x. bp = Some x \<longleftrightarrow> known \<and>
           (slot = fp + 8 \<and> read fp = Some x \<and> slot < x \<or> slot \<noteq> fp + 8 \<and> slot + 8 \<le> fp \<and> x = fp)) \<and>
        c = (amd64_context f)\<lparr>rip := ip, rsp := slot + 8, rbp := (case bp of None \<Rightarrow> fp | Some x \<Rightarrow> x)\<rparr> \<and>
        v = CONTEXT_VALID_RIP OR CONTEXT_VALID_RSP OR (if bp = None then 0 else CONTEXT_VALID_RBP))"

text \<open>
  A frame \<open>g\<close> is justified by its callee \<open>f\<close>, the memory and the symbolizer in use: the first
  of the three ways that finds a caller is the one its trust names.  For Native Client the
  pointers are cut to 32 bits.
\<close>

definition amd64_truncated :: "bool \<Rightarrow> MDRawContextAMD64 \<Rightarrow> MDRawContextAMD64" where
  "amd64_truncated nacl c = (if nacl
     then c\<lparr>rip := rip c AND 0xFFFFFFFF, rsp := rsp c AND 0xFFFFFFFF, rbp := rbp c AND 0xFFFFFFFF\<rparr> else c)"

definition amd64_by_CFI :: "64 memory \<Rightarrow> symbolizer \<Rightarrow> StackFrameAMD64 \<Rightarrow> MDRawContextAMD64 \<Rightarrow> u32 \<Rightarrow> bool" where
  "amd64_by_CFI read s f c v =
     (\<exists>cfi. Symbolizer_FindCFIFrameInfo s f = Some cfi \<and> amd64_CFI_caller read cfi f c v)"

definition amd64_found ::
  "stackwalker \<Rightarrow> 64 memory \<Rightarrow> symbolizer \<Rightarrow> bool \<Rightarrow> StackFrameAMD64 \<Rightarrow>
     FrameTrust \<Rightarrow> MDRawContextAMD64 \<Rightarrow> u32 \<Rightarrow> bool" where
  "amd64_found w read s first f t c v =
     (case t of
        FRAME_TRUST_CFI \<Rightarrow> amd64_by_CFI read s f c v
      | FRAME_TRUST_FP \<Rightarrow> (\<nexists>c v. amd64_by_CFI read s f c v) \<and> amd64_FP_caller read f c v
      | FRAME_TRUST_SCAN \<Rightarrow> (\<nexists>c v. amd64_by_CFI read s f c v) \<and> (\<nexists>c v. amd64_FP_caller read f c v) \<and>
          amd64_scan_caller w read first f c v
      | _ \<Rightarrow> False)"

definition amd64_justified ::
  "bool \<Rightarrow> stackwalker \<Rightarrow> 64 memory \<Rightarrow> symbolizer \<Rightarrow> bool \<Rightarrow> StackFrameAMD64 \<Rightarrow> StackFrameAMD64 \<Rightarrow> bool" where
  "amd64_justified nacl w read s first f g =
     (above first (amd64_sp f) (amd64_sp g) \<and> 0x1000 \<le> rip (amd64_context g) \<and>
      instruction g = rip (amd64_context g) - 1 \<and>
      (\<exists>c. amd64_found w read s first f (trust g) c (amd64_validity g) \<and> amd64_context g = amd64_truncated nacl c))"

subsection \<open>Every way finds what it should\<close>

text \<open>The registers recovered by CFI.\<close>

lemma amd64_recovered:
  assumes "foldl (\<lambda>cv r. recover_register regs ctx validity r cv) (filled_amd64_context 0xDA, 0) amd64_register_map = (c, v)"
  shows "(v AND CONTEXT_VALID_RIP \<noteq> 0) = (regs ''$rip'' \<noteq> None \<or> regs ''.ra'' \<noteq> None)"
    and "v AND CONTEXT_VALID_RIP \<noteq> 0 \<Longrightarrow> Some (rip c) = (case regs ''$rip'' of Some x \<Rightarrow> Some x | None \<Rightarrow> regs ''.ra'')"
    and "(v AND CONTEXT_VALID_RSP \<noteq> 0) = (regs ''$rsp'' \<noteq> None \<or> regs ''.cfa'' \<noteq> None)"
    and "v AND CONTEXT_VALID_RSP \<noteq> 0 \<Longrightarrow> Some (rsp c) = (case regs ''$rsp'' of Some x \<Rightarrow> Some x | None \<Rightarrow> regs ''.cfa'')"
    and "\<forall>(name, flag, register)\<in>set amd64_preserved.
      (v AND flag \<noteq> 0) = (regs name \<noteq> None \<or> validity AND flag \<noteq> 0) \<and>
      (v AND flag \<noteq> 0 \<longrightarrow> register c = (case regs name of Some x \<Rightarrow> x | None \<Rightarrow> register ctx))"
    and "\<forall>(name, flag, register)\<in>set amd64_scratch.
      (v AND flag \<noteq> 0) = (regs name \<noteq> None) \<and> (v AND flag \<noteq> 0 \<longrightarrow> Some (register c) = regs name)"
proof -
  note reg = amd64_registers.recovered_context [OF assms]
  have pointer: "(v AND flag \<noteq> 0) = (regs name \<noteq> None \<or> regs alt \<noteq> None)"
    "v AND flag \<noteq> 0 \<Longrightarrow> Some (get c) = (case regs name of Some x \<Rightarrow> Some x | None \<Rightarrow> regs alt)"
    if "register_entry name (Some alt) False flag get upd \<in> set amd64_register_map" for name alt flag get upd
    using reg [OF that]
    by (cases "regs name"; cases "regs alt"; simp add: register_entry_def amd64_registers.recovered_def)+
  have "register_entry ''$rip'' (Some ''.ra'') False CONTEXT_VALID_RIP rip rip_update \<in> set amd64_register_map"
    "register_entry ''$rsp'' (Some ''.cfa'') False CONTEXT_VALID_RSP rsp rsp_update \<in> set amd64_register_map"
    by (simp_all add: amd64_register_map_def)
  note both = this
  from pointer [OF both(1)] show "(v AND CONTEXT_VALID_RIP \<noteq> 0) = (regs ''$rip'' \<noteq> None \<or> regs ''.ra'' \<noteq> None)"
    and "v AND CONTEXT_VALID_RIP \<noteq> 0 \<Longrightarrow> Some (rip c) = (case regs ''$rip'' of Some x \<Rightarrow> Some x | None \<Rightarrow> regs ''.ra'')" .
  from pointer [OF both(2)] show "(v AND CONTEXT_VALID_RSP \<noteq> 0) = (regs ''$rsp'' \<noteq> None \<or> regs ''.cfa'' \<noteq> None)"
    and "v AND CONTEXT_VALID_RSP \<noteq> 0 \<Longrightarrow> Some (rsp c) = (case regs ''$rsp'' of Some x \<Rightarrow> Some x | None \<Rightarrow> regs ''.cfa'')" .
  have saved: "(v AND flag \<noteq> 0) = (regs name \<noteq> None \<or> validity AND flag \<noteq> 0) \<and>
      (v AND flag \<noteq> 0 \<longrightarrow> get c = (case regs name of Some x \<Rightarrow> x | None \<Rightarrow> get ctx))"
    if entry: "\<exists>upd. register_entry name None True flag get upd \<in> set amd64_register_map" for name flag get
  proof -
    from entry obtain upd where "register_entry name None True flag get upd \<in> set amd64_register_map" ..
    from reg [OF this] show ?thesis
      by (cases "regs name") (auto simp: register_entry_def amd64_registers.recovered_def split: if_split_asm)
  qed
  have "\<forall>(name, flag, register)\<in>set amd64_preserved.
      \<exists>upd. register_entry name None True flag register upd \<in> set amd64_register_map"
    unfolding amd64_preserved_def amd64_register_map_def list.set ball_simps prod.case by blast
  with saved show "\<forall>(name, flag, register)\<in>set amd64_preserved.
      (v AND flag \<noteq> 0) = (regs name \<noteq> None \<or> validity AND flag \<noteq> 0) \<and>
      (v AND flag \<noteq> 0 \<longrightarrow> register c = (case regs name of Some x \<Rightarrow> x | None \<Rightarrow> register ctx))"
    by blast
  have scratch: "(v AND flag \<noteq> 0) = (regs name \<noteq> None) \<and> (v AND flag \<noteq> 0 \<longrightarrow> Some (get c) = regs name)"
    if entry: "\<exists>upd. register_entry name None False flag get upd \<in> set amd64_register_map" for name flag get
  proof -
    from entry obtain upd where "register_entry name None False flag get upd \<in> set amd64_register_map" ..
    from reg [OF this] show ?thesis
      by (cases "regs name") (auto simp: register_entry_def amd64_registers.recovered_def)
  qed
  have "\<forall>(name, flag, register)\<in>set amd64_scratch.
      \<exists>upd. register_entry name None False flag register upd \<in> set amd64_register_map"
    unfolding amd64_scratch_def amd64_register_map_def list.set ball_simps prod.case by blast
  with scratch show "\<forall>(name, flag, register)\<in>set amd64_scratch.
      (v AND flag \<noteq> 0) = (regs name \<noteq> None) \<and> (v AND flag \<noteq> 0 \<longrightarrow> Some (register c) = regs name)"
    by blast
qed

lemma both_pointers:
  fixes v :: u32
  shows "v AND (CONTEXT_VALID_RIP OR CONTEXT_VALID_RSP) = CONTEXT_VALID_RIP OR CONTEXT_VALID_RSP \<longleftrightarrow>
    v AND CONTEXT_VALID_RIP \<noteq> 0 \<and> v AND CONTEXT_VALID_RSP \<noteq> 0"
proof -
  have flags: "CONTEXT_VALID_RIP = 2 ^ 16" "CONTEXT_VALID_RSP = 2 ^ 7" by (simp_all add: amd64_flags)
  have two: "bit (2 ^ 16 OR 2 ^ 7 :: u32) n \<longleftrightarrow> n = 16 \<or> n = 7" for n
    unfolding bit_or_iff bit_exp_iff by auto
  have "v AND (2 ^ 16 OR 2 ^ 7) = 2 ^ 16 OR 2 ^ 7 \<longleftrightarrow> bit v 16 \<and> bit v 7"
  proof
    assume "v AND (2 ^ 16 OR 2 ^ 7) = 2 ^ 16 OR 2 ^ 7"
    then have "bit (v AND (2 ^ 16 OR 2 ^ 7)) n = bit (2 ^ 16 OR 2 ^ 7 :: u32) n" for n by simp
    from this [of 16] this [of 7] show "bit v 16 \<and> bit v 7" by (simp only: bit_and_iff two) simp
  next
    assume "bit v 16 \<and> bit v 7"
    then show "v AND (2 ^ 16 OR 2 ^ 7) = 2 ^ 16 OR 2 ^ 7" by (intro bit_eqI, unfold bit_and_iff two) auto
  qed
  then show ?thesis unfolding flags and_exp_eq_0_iff_not_bit by simp
qed

lemma amd64_cfi_found:
  assumes "amd64_GetCallerByCFIFrameInfo m lf cfi = Some found"
  shows "case found of None \<Rightarrow> \<nexists>c v. amd64_CFI_caller (read_u64 m) cfi lf c v
    | Some f \<Rightarrow> trust f = FRAME_TRUST_CFI \<and> frame_module f = None \<and>
        amd64_CFI_caller (read_u64 m) cfi lf (amd64_context f) (amd64_validity f)"
proof -
  let ?dict = "callee_registers amd64_register_map (amd64_context lf) (amd64_validity lf)"
  obtain ok regs where run: "FindCallerRegs cfi ?dict (read_u64 m) Map.empty = Some (ok, regs)"
    using assms by (auto simp: amd64_GetCallerByCFIFrameInfo_def FindCallerRegisters_def bind_eq_Some_conv)
  show ?thesis
  proof (cases ok)
    case False
    with run assms have "found = None"
      by (simp add: amd64_GetCallerByCFIFrameInfo_def FindCallerRegisters_def)
    with run False show ?thesis by (simp add: amd64_CFI_caller_def)
  next
    case True
    obtain c v where recovered: "foldl (\<lambda>cv r. recover_register regs (amd64_context lf) (amd64_validity lf) r cv)
        (filled_amd64_context 0xDA, 0) amd64_register_map = (c, v)" by fastforce
    note reg = amd64_recovered [OF recovered]
    have result: "found = (if \<not> (v AND CONTEXT_VALID_RIP \<noteq> 0 \<and> v AND CONTEXT_VALID_RSP \<noteq> 0) \<or> rip c = 0 \<or> rsp c = 0 then None
        else Some (new_StackFrameAMD64\<lparr>amd64_context := c, amd64_validity := v, trust := FRAME_TRUST_CFI\<rparr>))"
      using assms run True recovered
      by (simp only: amd64_GetCallerByCFIFrameInfo_def FindCallerRegisters_def bind.bind_lunit prod.case option.case
          simp_thms if_True if_False Let_def option.inject flip: both_pointers) (simp split: if_split_asm)
    show ?thesis
    proof (cases found)
      case (Some f)
      then have f: "f = new_StackFrameAMD64\<lparr>amd64_context := c, amd64_validity := v, trust := FRAME_TRUST_CFI\<rparr>"
        and ok: "v AND CONTEXT_VALID_RIP \<noteq> 0" "v AND CONTEXT_VALID_RSP \<noteq> 0" "rip c \<noteq> 0" "rsp c \<noteq> 0"
        using result by (auto split: if_split_asm)
      have "amd64_CFI_caller (read_u64 m) cfi lf c v"
        unfolding amd64_CFI_caller_def
        by (intro exI [of _ regs] conjI reg(2,4,5,6) ok) (simp add: run True)
      with Some f show ?thesis by (simp add: new_StackFrameAMD64_def new_StackFrame_def StackFrame.extend_def)
    next
      case None
      then have bad: "\<not> (v AND CONTEXT_VALID_RIP \<noteq> 0 \<and> v AND CONTEXT_VALID_RSP \<noteq> 0) \<or> rip c = 0 \<or> rsp c = 0"
        using result by (simp split: if_split_asm)
      have False if "amd64_CFI_caller (read_u64 m) cfi lf c' v'" for c' v'
      proof -
        from that run True have ptr: "Some (rip c') = (case regs ''$rip'' of Some x \<Rightarrow> Some x | None \<Rightarrow> regs ''.ra'')"
            "Some (rsp c') = (case regs ''$rsp'' of Some x \<Rightarrow> Some x | None \<Rightarrow> regs ''.cfa'')"
            "rip c' \<noteq> 0" "rsp c' \<noteq> 0"
          by (auto simp: amd64_CFI_caller_def)
        then have "v AND CONTEXT_VALID_RIP \<noteq> 0" "v AND CONTEXT_VALID_RSP \<noteq> 0"
          using reg(1,3) by (auto split: option.split_asm)
        then have "Some (rip c) = Some (rip c')" "Some (rsp c) = Some (rsp c')"
          using ptr(1,2) reg(2,4) by simp_all
        with bad ptr(3,4) \<open>v AND CONTEXT_VALID_RIP \<noteq> 0\<close> \<open>v AND CONTEXT_VALID_RSP \<noteq> 0\<close> show False by simp
      qed
      with None show ?thesis by auto
    qed
  qed
qed

lemma amd64_fp_found:
  "case GetCallerByFramePointerRecovery m lf of None \<Rightarrow> \<nexists>c v. amd64_FP_caller (read_u64 m) lf c v
    | Some f \<Rightarrow> trust f = FRAME_TRUST_FP \<and> frame_module f = None \<and>
        amd64_FP_caller (read_u64 m) lf (amd64_context f) (amd64_validity f)"
  by (auto simp: GetCallerByFramePointerRecovery_def amd64_FP_caller_def is_non_canonical_def Let_def not_less not_le
      new_StackFrameAMD64_def new_StackFrame_def StackFrame.extend_def split: option.split)

lemma scanned_rbp_iff:
  "scanned_rbp read lf slot = Some x \<longleftrightarrow> amd64_validity lf AND CONTEXT_VALID_RBP \<noteq> 0 \<and>
     (slot = rbp (amd64_context lf) + 8 \<and> read (rbp (amd64_context lf)) = Some x \<and> slot < x \<or>
      slot \<noteq> rbp (amd64_context lf) + 8 \<and> slot + 8 \<le> rbp (amd64_context lf) \<and> x = rbp (amd64_context lf))"
  by (auto simp: scanned_rbp_def Let_def diff_eq_eq split: option.split if_split_asm)

lemma amd64_scan_found:
  assumes "amd64_GetCallerByStackScan w m walked_frames s = Some (Some f, s')"
  shows "trust f = FRAME_TRUST_SCAN \<and> frame_module f = None \<and>
    amd64_scan_caller w (read_u64 m) (length walked_frames = 1) (last walked_frames) (amd64_context f) (amd64_validity f)"
proof -
  let ?lf = "last walked_frames" and ?first = "length walked_frames = 1"
  obtain slot ip where scan: "ScanForReturnAddress w (read_u64 m) (rsp (amd64_context ?lf)) (search_words ?first) s =
      Some (Some (slot, ip), s')"
    and f: "f = (let frame = new_StackFrameAMD64\<lparr>trust := FRAME_TRUST_SCAN,
               amd64_context := (amd64_context ?lf)\<lparr>rip := ip, rsp := slot + 8\<rparr>,
               amd64_validity := CONTEXT_VALID_RIP OR CONTEXT_VALID_RSP\<rparr> in
         case scanned_rbp (read_u64 m) ?lf slot of
           None \<Rightarrow> frame
         | Some v \<Rightarrow> frame\<lparr>amd64_context := (amd64_context frame)\<lparr>rbp := v\<rparr>,
                        amd64_validity := amd64_validity frame OR CONTEXT_VALID_RBP\<rparr>)"
    using assms by (auto simp: amd64_GetCallerByStackScan_def Let_def bind_eq_Some_conv)
  have bound: "(ucast (rsp (amd64_context ?lf)) + of_nat (search_words ?first * word_bytes TYPE(u64)) :: u64) =
      rsp (amd64_context ?lf) + (if ?first then 160 * 8 else 40 * 8)"
    by (simp add: search_words_def kRASearchWords_def word_bytes_def)
  obtain k get_module where "slot = rsp (amd64_context ?lf) + of_nat (k * 8)" "read_u64 m slot = Some ip"
    "slot \<le> rsp (amd64_context ?lf) + (if ?first then 160 * 8 else 40 * 8)"
    "walker_modules w = Some get_module" "get_module (ip - 1) \<noteq> None"
    using scan_words_found [OF scan [unfolded ScanForReturnAddress_def bound]] by (auto simp: word_bytes_def)
  moreover have "amd64_context f = (amd64_context ?lf)\<lparr>rip := ip, rsp := slot + 8,
      rbp := (case scanned_rbp (read_u64 m) ?lf slot of None \<Rightarrow> rbp (amd64_context ?lf) | Some x \<Rightarrow> x)\<rparr>"
    "amd64_validity f = CONTEXT_VALID_RIP OR CONTEXT_VALID_RSP OR
      (if scanned_rbp (read_u64 m) ?lf slot = None then 0 else CONTEXT_VALID_RBP)"
    "trust f = FRAME_TRUST_SCAN" "frame_module f = None"
    by (simp_all add: f Let_def or.assoc new_StackFrameAMD64_def new_StackFrame_def StackFrame.extend_def split: option.split)
  moreover note scanned_rbp_iff [of "read_u64 m" ?lf slot]
  ultimately show ?thesis unfolding amd64_scan_caller_def Let_def by blast
qed

lemma amd64_new_frame_found:
  assumes "amd64_new_frame w m walked_frames scan s = Some (Some f, s')"
  shows "amd64_found w (read_u64 m) s (length walked_frames = 1) (last walked_frames)
      (trust f) (amd64_context f) (amd64_validity f) \<and> frame_module f = None \<and> (\<not> scan \<longrightarrow> \<not> dubious (trust f))"
proof -
  let ?lf = "last walked_frames"
  obtain nf where cfi: "(case Symbolizer_FindCFIFrameInfo s ?lf of None \<Rightarrow> Some None
      | Some cfi \<Rightarrow> amd64_GetCallerByCFIFrameInfo m ?lf cfi) = Some nf"
    and run: "(let nf = (if nf = None then GetCallerByFramePointerRecovery m ?lf else nf) in
      if scan \<and> nf = None then amd64_GetCallerByStackScan w m walked_frames s else Some (nf, s)) = Some (Some f, s')"
    using assms by (auto simp: amd64_new_frame_def Let_def bind_eq_Some_conv)
  have by_cfi: "case nf of None \<Rightarrow> \<nexists>c v. amd64_by_CFI (read_u64 m) s ?lf c v
    | Some g \<Rightarrow> trust g = FRAME_TRUST_CFI \<and> frame_module g = None \<and>
        amd64_by_CFI (read_u64 m) s ?lf (amd64_context g) (amd64_validity g)"
    using cfi by (cases "Symbolizer_FindCFIFrameInfo s ?lf"; cases nf)
      (auto simp: amd64_by_CFI_def dest!: amd64_cfi_found)
  show ?thesis
  proof (cases nf)
    case (Some g)
    then have "g = f" using run by (simp add: Let_def)
    with Some by_cfi show ?thesis by (simp add: amd64_found_def dubious_def)
  next
    case None
    with by_cfi have no_cfi: "\<nexists>c v. amd64_by_CFI (read_u64 m) s ?lf c v" by simp
    note fp = amd64_fp_found [of m ?lf]
    show ?thesis
    proof (cases "GetCallerByFramePointerRecovery m ?lf")
      case (Some g)
      then have "g = f" using run None by (simp add: Let_def)
      with Some fp no_cfi show ?thesis by (simp add: amd64_found_def dubious_def)
    next
      case none: None
      with None run have scan: "scan" "amd64_GetCallerByStackScan w m walked_frames s = Some (Some f, s')"
        by (auto simp: Let_def split: if_split_asm)
      from none fp have no_fp: "\<nexists>c v. amd64_FP_caller (read_u64 m) ?lf c v" by simp
      from amd64_scan_found [OF scan(2)] scan(1) no_cfi no_fp show ?thesis by (simp add: amd64_found_def)
    qed
  qed
qed

lemma low_word: "ucast (ucast (x :: u64) :: u32) = x AND 0xFFFFFFFF"
proof -
  have "(0xFFFFFFFF :: u64) = mask 32" by (simp add: mask_eq_exp_minus_1)
  then show ?thesis by (simp add: bit_eq_iff bit_simps) auto
qed

lemma amd64_GetCallerFrame_SomeD:
  assumes "amd64_GetCallerFrame nacl w memory walked_frames scan s = Some (nxt, lf, s')"
  shows "lf = last walked_frames \<and>
    (\<forall>f. nxt = Some f \<longrightarrow> (\<not> scan \<longrightarrow> \<not> dubious (trust f)) \<and> frame_module f = None \<and>
       (\<exists>m. memory = Some m \<and> amd64_justified nacl w (read_u64 m) s (length walked_frames = 1) lf f))"
proof (cases memory)
  case None
  with assms show ?thesis by (simp add: amd64_GetCallerFrame_def)
next
  case (Some m)
  obtain nf s0 where run: "amd64_new_frame w m walked_frames scan s = Some (nf, s0)"
    using assms Some by (auto simp: amd64_GetCallerFrame_def Let_def bind_eq_Some_conv)
  show ?thesis
  proof (cases nf)
    case None
    with assms Some run show ?thesis by (simp add: amd64_GetCallerFrame_def)
  next
    case f: (Some f)
    define g where "g = (if nacl then nacl_frame f else f)"
    have lf: "lf = last walked_frames" and nxt: "nxt = accept_caller (rip (amd64_context g)) (rsp (amd64_context g))
        (rsp (amd64_context lf)) (length walked_frames = 1) (rip (amd64_context g) - 1) g"
      using assms Some run f by (auto simp: amd64_GetCallerFrame_def g_def Let_def)
    have g: "trust g = trust f" "frame_module g = frame_module f" "amd64_validity g = amd64_validity f"
      "amd64_context g = amd64_truncated nacl (amd64_context f)"
      by (simp_all add: g_def nacl_frame_def amd64_truncated_def low_word Let_def)
    have "amd64_justified nacl w (read_u64 m) s (length walked_frames = 1) lf h \<and> trust h = trust f \<and>
        frame_module h = frame_module f" if "nxt = Some h" for h
    proof -
      have h: "h = g\<lparr>instruction := rip (amd64_context g) - 1\<rparr>" "0x1000 \<le> rip (amd64_context g)"
        "above (length walked_frames = 1) (rsp (amd64_context lf)) (rsp (amd64_context g))"
        using accept_caller_SomeD [OF nxt [symmetric, unfolded that]] by simp_all
      have "amd64_found w (read_u64 m) s (length walked_frames = 1) lf (trust h) (amd64_context f) (amd64_validity h)"
        using amd64_new_frame_found [OF run [unfolded f]] lf g h(1) by simp
      with g h show ?thesis unfolding amd64_justified_def by (auto simp: amd64_sp_def)
    qed
    with amd64_new_frame_found [OF run [unfolded f]] Some lf show ?thesis by auto
  qed
qed

interpretation amd64: scan_limited_walker w "amd64_GetCallerFrame nacl w memory" amd64_sp 0
  by unfold_locales (auto simp: amd64_justified_def dest: amd64_GetCallerFrame_SomeD amd64_machine(2))

text \<open>
  C24: Every frame of a walk over x86-64 frames is justified, for Native Client too.  The first is the
  context; any other is what the first of the three ways that finds a caller gives for the frame
  before it: the registers that the CFI rules in force there recover from that frame and
  the stack, or the saved frame pointer and the return address above it, or a return address
  found on the stack; with exactly those registers marked valid.  Its instruction lies before its
  return address, and its stack pointer above that of its callee.
\<close>

theorem amd64_Walk_justified:
  assumes "amd64_Walk nacl w (Some m) ctx stk missing corrupt s = Some (b, stk', missing', corrupt', s')"
    and "frames stk = []"
  shows "\<exists>vs. walk_history w (amd64_GetCallerFrame nacl w (Some m)) (amd64_GetContextFrame ctx) s vs (frames stk') \<and>
    (\<forall>i<length (frames stk'). let f = frames stk' ! i in
       f = visit_symbolized (vs ! i) \<and>
       (case i of
          0 \<Rightarrow> trust f = FRAME_TRUST_CONTEXT \<and> ctx = Some (amd64_context f) \<and>
            amd64_validity f = CONTEXT_VALID_ALL \<and> instruction f = rip (amd64_context f)
        | Suc j \<Rightarrow> amd64_justified nacl w (read_u64 m) (visit_after (vs ! j)) (j = 0) (frames stk' ! j) f))"
proof -
  let ?gc = "amd64_GetCallerFrame nacl w (Some m)" and ?fs = "frames stk'"
  obtain vs where history: "walk_history w ?gc (amd64_GetContextFrame ctx) s vs ?fs"
    and finish: "walk_finish w ?gc (amd64_GetContextFrame ctx) s vs ?fs b s'"
    using Walk_visits [OF assms [unfolded amd64_Walk_def]] by blast
  have same: "?fs ! i = visit_symbolized (vs ! i)" if "i < length ?fs" for i
    using history_frame [OF history finish that] by (auto dest: amd64_GetCallerFrame_SomeD)
  have kept: "trust (?fs ! i) = trust (visit_frame (vs ! i)) \<and> instruction (?fs ! i) = instruction (visit_frame (vs ! i)) \<and>
      amd64_context (?fs ! i) = amd64_context (visit_frame (vs ! i)) \<and>
      amd64_validity (?fs ! i) = amd64_validity (visit_frame (vs ! i))" if i: "i < length ?fs" for i
    using history_visit [OF history i] amd64_machine [OF history_visit [OF history i]]
    by (simp add: same [OF i] amd64_core_def same_machine_state_def)
  have first: "trust (?fs ! 0) = FRAME_TRUST_CONTEXT \<and> ctx = Some (amd64_context (?fs ! 0)) \<and>
      amd64_validity (?fs ! 0) = CONTEXT_VALID_ALL \<and> instruction (?fs ! 0) = rip (amd64_context (?fs ! 0))"
    if ne: "0 < length ?fs"
  proof -
    obtain c where ctx: "ctx = Some c" and c: "new_StackFrameAMD64\<lparr>amd64_context := c, amd64_validity := CONTEXT_VALID_ALL,
        trust := FRAME_TRUST_CONTEXT, instruction := rip c\<rparr> = visit_frame (vs ! 0)"
      using history_context [OF history] ne by (auto simp: amd64_GetContextFrame_def)
    have "trust (visit_frame (vs ! 0)) = FRAME_TRUST_CONTEXT \<and> amd64_context (visit_frame (vs ! 0)) = c \<and>
        amd64_validity (visit_frame (vs ! 0)) = CONTEXT_VALID_ALL \<and> instruction (visit_frame (vs ! 0)) = rip c"
      unfolding c [symmetric] by simp
    with kept [OF ne] ctx show ?thesis by simp
  qed
  have next_frame: "amd64_justified nacl w (read_u64 m) (visit_after (vs ! j)) (j = 0) (?fs ! j) (?fs ! Suc j)"
    if j: "Suc j < length ?fs" for j
  proof -
    let ?walked = "take j ?fs @ [visit_symbolized (vs ! j)]"
    have "amd64_justified nacl w (read_u64 m) (visit_after (vs ! j)) (length ?walked = 1) (?fs ! j) (visit_frame (vs ! Suc j))"
      using amd64_GetCallerFrame_SomeD [OF history_caller [OF history j]] by blast
    moreover have "length ?walked = 1 \<longleftrightarrow> j = 0" using j by simp
    ultimately show ?thesis using kept [OF j] by (simp only: amd64_justified_def amd64_sp_def)
  qed
  show ?thesis
    using history same first next_frame by (intro exI [of _ vs]) (auto simp: Let_def split: nat.split)
qed

text \<open>
  The stack pointers of a walk over x86-64 frames rise, for Native Client too, and its length
  and its scanned frames are limited.
\<close>

lemma amd64_Walk_rising:
  assumes "amd64_Walk nacl w memory ctx stk missing corrupt s = Some (b, stk', missing', corrupt', s')"
    and "frames stk = []"
  shows "rising (map amd64_sp (frames stk')) \<and> length (frames stk') \<le> unat (max_frames w) + 1 \<and>
    dubious_frames (frames stk') \<le> unat (max_frames_scanned w)"
proof -
  have "\<not> dubious (trust f)" if "amd64_GetContextFrame ctx = Some f" for f
    using that by (auto simp: amd64_GetContextFrame_def dubious_def)
  from amd64.Walk_scanned [OF assms [unfolded amd64_Walk_def] this]
    amd64.Walk_rising [OF assms [unfolded amd64_Walk_def]]
  show ?thesis by simp
qed

subsection \<open>A sample walk\<close>

text \<open>One saved frame pointer with its return address, and nothing above.\<close>

definition sample_amd64_stack :: memory_region where
  "sample_amd64_stack = \<lparr>region_base = 0x1000, region_size = 0x100, read_u32 = (\<lambda>_. None),
     read_u64 = (\<lambda>a. if a = 0x1010 then Some 0x1020 else if a = 0x1018 then Some 0x401006
       else if a = 0x1020 then Some 0 else None)\<rparr>"

definition sample_amd64_context :: MDRawContextAMD64 where
  "sample_amd64_context = (filled_amd64_context 0)\<lparr>rip := 0x401002, rsp := 0x1000, rbp := 0x1010\<rparr>"

lemma sample_amd64_walk:
  "\<exists>stk' missing' corrupt' g k.
    amd64_Walk False sample_walker (Some sample_amd64_stack) (Some sample_amd64_context) empty_stack [] [] no_symbols =
      Some (True, stk', missing', corrupt', no_symbols) \<and> frames stk' = [g, k] \<and>
    amd64_core g = (FRAME_TRUST_CONTEXT, sample_amd64_context) \<and>
    amd64_core k = (FRAME_TRUST_FP, sample_amd64_context\<lparr>rip := 0x401006, rsp := 0x1020, rbp := 0x1020\<rparr>)"
proof -
  let ?gc = "amd64_GetCallerFrame False sample_walker (Some sample_amd64_stack)"
  define f where "f = new_StackFrameAMD64\<lparr>amd64_context := sample_amd64_context,
    amd64_validity := CONTEXT_VALID_ALL, trust := FRAME_TRUST_CONTEXT, instruction := 0x401002\<rparr>"
  define h where "h = new_StackFrameAMD64\<lparr>trust := FRAME_TRUST_FP,
    amd64_context := sample_amd64_context\<lparr>rip := 0x401006, rsp := 0x1020, rbp := 0x1020\<rparr>,
    amd64_validity := CONTEXT_VALID_RIP OR CONTEXT_VALID_RSP OR CONTEXT_VALID_RBP, instruction := 0x401005\<rparr>"
  note unfold = amd64_GetCallerFrame_def amd64_new_frame_def no_resolver_lookups Let_def
    GetCallerByFramePointerRecovery_def amd64_GetCallerByStackScan_def ScanForReturnAddress_def
    sample_amd64_stack_def sample_amd64_context_def is_non_canonical_def accept_caller_def TerminateWalk_def
  have ctx: "amd64_context g = sample_amd64_context" if "same_machine_state f g" for g
    using amd64_machine(1) [OF that] by (simp add: amd64_core_def f_def)
  have first: "?gc [g] True no_symbols = Some (Some h, g, no_symbols)" if "same_machine_state f g" for g
    by (simp add: ctx [OF that] unfold h_def)
  have second: "?gc [g, k] True no_symbols = Some (None, k, no_symbols)" if "same_machine_state h k" for g k
  proof -
    have "amd64_context k = amd64_context h" using amd64_machine(1) [OF that] by (simp add: amd64_core_def)
    moreover have "scan_words sample_walker (read_u64 sample_amd64_stack) bound 0x1020 no_symbols = Some (None, no_symbols)"
      if "bound = 0x1160" for bound
      unfolding that
      by (subst scan_words.simps, subst scan_words.simps)
        (simp add: sample_amd64_stack_def sample_walker_def new_stackwalker_def word_bytes_def sample_lookup_def)
    ultimately show ?thesis
      by (simp add: unfold h_def search_words_def kRASearchWords_def word_bytes_def)
  qed
  have "2 \<le> unat (max_frames sample_walker)" "1 < max_frames_scanned sample_walker"
    by (simp_all add: sample_walker_def new_stackwalker_def)
  from Walk_two_frames [where get_caller = ?gc and f = f and h = h and s = no_symbols, OF _ this _ first second]
  obtain stk' missing' corrupt' g k where
    run: "Walk sample_walker ?gc (Some f) empty_stack [] [] no_symbols = Some (True, stk', missing', corrupt', no_symbols)"
      "frames stk' = [g, k]" "same_machine_state f g" "same_machine_state h k"
    by (auto simp: f_def dubious_def)
  have "amd64_GetContextFrame (Some sample_amd64_context) = Some f"
    by (simp add: amd64_GetContextFrame_def f_def sample_amd64_context_def)
  with run amd64_machine(1) [OF run(3)] amd64_machine(1) [OF run(4)] show ?thesis
    by (intro exI [of _ stk'] exI [of _ missing'] exI [of _ corrupt'] exI [of _ g] exI [of _ k])
      (simp add: amd64_Walk_def amd64_core_def f_def h_def)
qed

theorem amd64_Walk_justified_witness:
  "\<exists>stk' missing' corrupt' s' f g.
    amd64_Walk False sample_walker (Some sample_amd64_stack) (Some sample_amd64_context) empty_stack [] [] no_symbols =
      Some (True, stk', missing', corrupt', s') \<and> frames stk' = [f, g] \<and>
    amd64_context f = sample_amd64_context \<and> trust g = FRAME_TRUST_FP \<and>
    amd64_FP_caller (read_u64 sample_amd64_stack) f (amd64_context g) (amd64_validity g) \<and>
    instruction g = rip (amd64_context g) - 1"
proof -
  obtain stk' missing' corrupt' f g where
    run: "amd64_Walk False sample_walker (Some sample_amd64_stack) (Some sample_amd64_context) empty_stack [] [] no_symbols =
      Some (True, stk', missing', corrupt', no_symbols)" "frames stk' = [f, g]" "trust g = FRAME_TRUST_FP"
    using sample_amd64_walk by (auto simp: amd64_core_def)
  have "frames (empty_stack :: StackFrameAMD64 call_stack) = []" by simp
  from amd64_Walk_justified [OF run(1) this] obtain vs :: "StackFrameAMD64 visit list" where
    frames: "\<forall>i<length (frames stk'). let f = frames stk' ! i in
       f = visit_symbolized (vs ! i) \<and>
       (case i of
          0 \<Rightarrow> trust f = FRAME_TRUST_CONTEXT \<and> Some sample_amd64_context = Some (amd64_context f) \<and>
            amd64_validity f = CONTEXT_VALID_ALL \<and> instruction f = rip (amd64_context f)
        | Suc j \<Rightarrow> amd64_justified False sample_walker (read_u64 sample_amd64_stack) (visit_after (vs ! j)) (j = 0)
            (frames stk' ! j) f)" by (elim exE conjE)
  have "amd64_context f = sample_amd64_context"
    using frames [rule_format, of 0] run(2) by (auto simp: Let_def)
  moreover have "amd64_justified False sample_walker (read_u64 sample_amd64_stack) (visit_after (vs ! 0)) True f g"
    using frames [rule_format, of 1] by (auto simp: run(2) Let_def)
  then have "amd64_FP_caller (read_u64 sample_amd64_stack) f (amd64_context g) (amd64_validity g)"
    "instruction g = rip (amd64_context g) - 1"
    using run(3) by (simp_all add: amd64_justified_def amd64_found_def amd64_truncated_def)
  ultimately show ?thesis using run by blast
qed

end
