(* ===== verification/Stackwalker_Chain.thy ===== *)
theory Stackwalker_Chain
  imports Stackwalker "HOL-Library.Sublist"
begin

text \<open>
  The walkers that only follow the chain of saved stack pointers: \<open>StackwalkerPPC\<close>,
  \<open>StackwalkerPPC64\<close> and \<open>StackwalkerSPARC\<close> (\<open>processor/stackwalker_ppc.cc\<close>,
  \<open>stackwalker_ppc64.cc\<close>, \<open>stackwalker_sparc.cc\<close>).  They use no symbol data, so their
  walks are the chains themselves: the locale \<open>chain_walker\<close> says this once.  Arrays of
  registers are functions from their indices, save areas that are only copied are byte lists.
\<close>

subsection \<open>PowerPC\<close>

record MDRawContextPPC =
  ppc_context_flags :: u32
  ppc_srr0 :: u32
  ppc_srr1 :: u32
  ppc_gpr :: "nat \<Rightarrow> u32"
  ppc_cr :: u32
  ppc_xer :: u32
  ppc_lr :: u32
  ppc_ctr :: u32
  ppc_mq :: u32
  ppc_vrsave :: u32
  ppc_float_save :: "u8 list"
  ppc_vector_save :: "u8 list"

definition CONTEXT_VALID_SRR0 :: u32 where "CONTEXT_VALID_SRR0 = push_bit 0 1"
definition CONTEXT_VALID_GPR1 :: u32 where "CONTEXT_VALID_GPR1 = push_bit 1 1"

record StackFramePPC = StackFrame +
  ppc_context :: MDRawContextPPC
  ppc_validity :: u32

definition new_StackFramePPC :: StackFramePPC where
  "new_StackFramePPC = StackFrame.extend new_StackFrame
     \<lparr>ppc_context = \<lparr>ppc_context_flags = 0, ppc_srr0 = 0, ppc_srr1 = 0, ppc_gpr = (\<lambda>_. 0), ppc_cr = 0,
        ppc_xer = 0, ppc_lr = 0, ppc_ctr = 0, ppc_mq = 0, ppc_vrsave = 0,
        ppc_float_save = replicate 264 0, ppc_vector_save = replicate 576 0\<rparr>,
      ppc_validity = CONTEXT_VALID_NONE\<rparr>"

text \<open>The constructor drops a stack memory that reaches beyond 32 bits.\<close>

definition ppc_memory :: "memory_region option \<Rightarrow> memory_region option" where
  "ppc_memory memory =
     (case memory of
        None \<Rightarrow> None
      | Some r \<Rightarrow> if 0xFFFFFFFF < region_base r + ucast (region_size r) - 1 then None else Some r)"

definition ppc_GetContextFrame :: "MDRawContextPPC option \<Rightarrow> StackFramePPC option" where
  "ppc_GetContextFrame context =
     map_option (\<lambda>c. new_StackFramePPC\<lparr>ppc_context := c, ppc_validity := CONTEXT_VALID_ALL,
         trust := FRAME_TRUST_CONTEXT, instruction := ucast (ppc_srr0 c)\<rparr>) context"

definition ppc_GetCallerFrame :: "memory_region option \<Rightarrow> StackFramePPC caller_of" where
  "ppc_GetCallerFrame memory walked_frames stack_scan_allowed s =
     (let last_frame = last walked_frames; c = ppc_context last_frame in
      Some (case memory of
          None \<Rightarrow> None
        | Some memory \<Rightarrow>
            (case read_u32 memory (ucast (ppc_gpr c 1)) of
               None \<Rightarrow> None
             | Some stack_pointer \<Rightarrow>
                 if stack_pointer \<le> ppc_gpr c 1 then None
                 else
                   (case read_u32 memory (ucast (stack_pointer + 8)) of
                      None \<Rightarrow> None
                    | Some address \<Rightarrow>
                        if address \<le> 1 then None
                        else accept_caller (ucast address) (ucast stack_pointer) (ucast (ppc_gpr c 1))
                          (length walked_frames = 1) (ucast (address - 4))
                          (new_StackFramePPC\<lparr>ppc_context := c\<lparr>ppc_srr0 := address,
                               ppc_gpr := (ppc_gpr c)(1 := stack_pointer)\<rparr>,
                             ppc_validity := CONTEXT_VALID_SRR0 OR CONTEXT_VALID_GPR1,
                             trust := FRAME_TRUST_FP\<rparr>))),
        last_frame, s))"

definition ppc_Walk ::
  "stackwalker \<Rightarrow> memory_region option \<Rightarrow> MDRawContextPPC option \<Rightarrow> StackFramePPC call_stack \<Rightarrow>
     CodeModule list \<Rightarrow> CodeModule list \<Rightarrow> symbolizer \<Rightarrow>
     (bool \<times> StackFramePPC call_stack \<times> CodeModule list \<times> CodeModule list \<times> symbolizer) run" where
  "ppc_Walk w memory context stk missing corrupt s =
     Walk w (ppc_GetCallerFrame (ppc_memory memory)) (ppc_GetContextFrame context) stk missing corrupt s"

subsection \<open>64-bit PowerPC\<close>

record MDRawContextPPC64 =
  ppc64_context_flags :: u64
  ppc64_srr0 :: u64
  ppc64_srr1 :: u64
  ppc64_gpr :: "nat \<Rightarrow> u64"
  ppc64_cr :: u64
  ppc64_xer :: u64
  ppc64_lr :: u64
  ppc64_ctr :: u64
  ppc64_vrsave :: u64
  ppc64_float_save :: "u8 list"
  ppc64_vector_save :: "u8 list"

record StackFramePPC64 = StackFrame +
  ppc64_context :: MDRawContextPPC64
  ppc64_validity :: u32

definition new_StackFramePPC64 :: StackFramePPC64 where
  "new_StackFramePPC64 = StackFrame.extend new_StackFrame
     \<lparr>ppc64_context = \<lparr>ppc64_context_flags = 0, ppc64_srr0 = 0, ppc64_srr1 = 0, ppc64_gpr = (\<lambda>_. 0),
        ppc64_cr = 0, ppc64_xer = 0, ppc64_lr = 0, ppc64_ctr = 0, ppc64_vrsave = 0,
        ppc64_float_save = replicate 264 0, ppc64_vector_save = replicate 576 0\<rparr>,
      ppc64_validity = CONTEXT_VALID_NONE\<rparr>"

definition ppc64_GetContextFrame :: "MDRawContextPPC64 option \<Rightarrow> StackFramePPC64 option" where
  "ppc64_GetContextFrame context =
     map_option (\<lambda>c. new_StackFramePPC64\<lparr>ppc64_context := c, ppc64_validity := CONTEXT_VALID_ALL,
         trust := FRAME_TRUST_CONTEXT, instruction := ppc64_srr0 c\<rparr>) context"

definition ppc64_GetCallerFrame :: "memory_region option \<Rightarrow> StackFramePPC64 caller_of" where
  "ppc64_GetCallerFrame memory walked_frames stack_scan_allowed s =
     (let last_frame = last walked_frames; c = ppc64_context last_frame in
      Some (case memory of
          None \<Rightarrow> None
        | Some memory \<Rightarrow>
            (case read_u64 memory (ppc64_gpr c 1) of
               None \<Rightarrow> None
             | Some stack_pointer \<Rightarrow>
                 if stack_pointer \<le> ppc64_gpr c 1 then None
                 else
                   (case read_u64 memory (stack_pointer + 16) of
                      None \<Rightarrow> None
                    | Some address \<Rightarrow>
                        if address \<le> 1 then None
                        else accept_caller address stack_pointer (ppc64_gpr c 1)
                          (length walked_frames = 1) (address - 8)
                          (new_StackFramePPC64\<lparr>ppc64_context := c\<lparr>ppc64_srr0 := address,
                               ppc64_gpr := (ppc64_gpr c)(1 := stack_pointer)\<rparr>,
                             ppc64_validity := CONTEXT_VALID_SRR0 OR CONTEXT_VALID_GPR1,
                             trust := FRAME_TRUST_FP\<rparr>))),
        last_frame, s))"

definition ppc64_Walk ::
  "stackwalker \<Rightarrow> memory_region option \<Rightarrow> MDRawContextPPC64 option \<Rightarrow> StackFramePPC64 call_stack \<Rightarrow>
     CodeModule list \<Rightarrow> CodeModule list \<Rightarrow> symbolizer \<Rightarrow>
     (bool \<times> StackFramePPC64 call_stack \<times> CodeModule list \<times> CodeModule list \<times> symbolizer) run" where
  "ppc64_Walk w memory context stk missing corrupt s =
     Walk w (ppc64_GetCallerFrame memory) (ppc64_GetContextFrame context) stk missing corrupt s"

subsection \<open>SPARC\<close>

record MDRawContextSPARC =
  sparc_context_flags :: u32
  sparc_flag_pad :: u32
  g_r :: "nat \<Rightarrow> u64"
  sparc_ccr :: u64
  sparc_pc :: u64
  sparc_npc :: u64
  sparc_y :: u64
  sparc_asi :: u64
  sparc_fprs :: u64
  sparc_float_save :: "u8 list"

definition SPARC_VALID_PC :: u32 where "SPARC_VALID_PC = push_bit 0 1"
definition SPARC_VALID_SP :: u32 where "SPARC_VALID_SP = push_bit 1 1"
definition SPARC_VALID_FP :: u32 where "SPARC_VALID_FP = push_bit 2 1"

record StackFrameSPARC = StackFrame +
  sparc_context :: MDRawContextSPARC
  sparc_validity :: u32

definition new_StackFrameSPARC :: StackFrameSPARC where
  "new_StackFrameSPARC = StackFrame.extend new_StackFrame
     \<lparr>sparc_context = \<lparr>sparc_context_flags = 0, sparc_flag_pad = 0, g_r = (\<lambda>_. 0), sparc_ccr = 0,
        sparc_pc = 0, sparc_npc = 0, sparc_y = 0, sparc_asi = 0, sparc_fprs = 0,
        sparc_float_save = replicate 272 0\<rparr>,
      sparc_validity = CONTEXT_VALID_NONE\<rparr>"

definition sparc_GetContextFrame :: "MDRawContextSPARC option \<Rightarrow> StackFrameSPARC option" where
  "sparc_GetContextFrame context =
     map_option (\<lambda>c. new_StackFrameSPARC\<lparr>sparc_context := c, sparc_validity := CONTEXT_VALID_ALL,
         trust := FRAME_TRUST_CONTEXT, instruction := sparc_pc c\<rparr>) context"

text \<open>
  The caller's stack pointer is the frame pointer of the callee; its frame pointer and the
  return address are 32-bit words read above it.  The address \<open>instruction + 8\<close> is computed
  in 32 bits.
\<close>

definition sparc_GetCallerFrame :: "memory_region option \<Rightarrow> StackFrameSPARC caller_of" where
  "sparc_GetCallerFrame memory walked_frames stack_scan_allowed s =
     (let last_frame = last walked_frames; c = sparc_context last_frame; stack_pointer = g_r c 30 in
      Some (case memory of
          None \<Rightarrow> None
        | Some memory \<Rightarrow>
            if stack_pointer \<le> g_r c 14 then None
            else
              (case read_u32 memory (stack_pointer + 60) of
                 None \<Rightarrow> None
               | Some address \<Rightarrow>
                   if address \<le> 1 then None
                   else
                     (case read_u32 memory (stack_pointer + 56) of
                        None \<Rightarrow> None
                      | Some stack_base \<Rightarrow>
                          if stack_base \<le> 1 then None
                          else accept_caller (ucast address) stack_pointer (g_r c 14)
                            (length walked_frames = 1) (ucast address)
                            (new_StackFrameSPARC\<lparr>sparc_context := c\<lparr>
                                 g_r := (g_r c)(14 := stack_pointer, 30 := ucast stack_base),
                                 sparc_pc := ucast (address + 8)\<rparr>,
                               sparc_validity := SPARC_VALID_PC OR SPARC_VALID_SP OR SPARC_VALID_FP,
                               trust := FRAME_TRUST_FP\<rparr>))),
        last_frame, s))"

definition sparc_Walk ::
  "stackwalker \<Rightarrow> memory_region option \<Rightarrow> MDRawContextSPARC option \<Rightarrow> StackFrameSPARC call_stack \<Rightarrow>
     CodeModule list \<Rightarrow> CodeModule list \<Rightarrow> symbolizer \<Rightarrow>
     (bool \<times> StackFrameSPARC call_stack \<times> CodeModule list \<times> CodeModule list \<times> symbolizer) run" where
  "sparc_Walk w memory context stk missing corrupt s =
     Walk w (sparc_GetCallerFrame memory) (sparc_GetContextFrame context) stk missing corrupt s"

subsection \<open>A walk that depends on no symbols is a chain\<close>

fun chain :: "('k \<Rightarrow> 'k option) \<Rightarrow> nat \<Rightarrow> 'k \<Rightarrow> 'k list" where
  "chain succ 0 k = []"
| "chain succ (Suc n) k = (case succ k of None \<Rightarrow> [] | Some k' \<Rightarrow> k' # chain succ n k')"

text \<open>
  The caller is a function of the core of the last frame, and finding it changes nothing.
\<close>

locale chain_walker =
  fixes get_caller :: "'a StackFrame_scheme caller_of"
    and core :: "'a StackFrame_scheme \<Rightarrow> 'k"
    and succ :: "'k \<Rightarrow> 'k option"
  assumes caller_succ: "fs \<noteq> [] \<Longrightarrow>
      \<exists>f. get_caller fs scan s = Some (f, last fs, s) \<and> map_option core f = succ (core (last fs))"
    and core_machine: "same_machine_state f g \<Longrightarrow> core f = core g"
begin

lemma add_frame_core:
  assumes "add_frame w f st = Some (ok, st')"
  shows "if ok then \<exists>g. walked st' = walked st @ [g] \<and> core g = core f else walked st' = walked st"
proof -
  obtain res s g where fill: "FillSourceLineInfo (walker_modules w) (walker_unloaded_modules w)
      (walk_symbolizer st) f = Some (res, s, g)"
    using assms by (auto simp: add_frame_def bind_eq_Some_conv)
  from FillSourceLineInfo_keeps [OF this] have "core f = core g" by (intro core_machine) simp
  with assms fill show ?thesis
    by (auto simp: add_frame_def Let_def split: if_split_asm)
qed

lemma chain_loop:
  assumes "walk_loop w get_caller (Some f) st = Some (b, st')"
    and "length (walked st) + n = unat (max_frames w)"
  shows "prefix (map core (walked st')) (map core (walked st) @ core f # chain succ n (core f)) \<and>
    (b \<longrightarrow> map core (walked st') = map core (walked st) @ core f # chain succ n (core f))"
  using assms
proof (induction n arbitrary: f st)
  case 0
  obtain ok st1 where add: "add_frame w f st = Some (ok, st1)"
    using "0.prems"(1) by (subst (asm) walk_loop.simps) (auto split: option.split_asm)
  with "0.prems" add_frame_core [OF add] show ?case
    by (subst (asm) walk_loop.simps) (auto split: if_split_asm)
next
  case (Suc n)
  obtain ok st1 where add: "add_frame w f st = Some (ok, st1)"
    using Suc.prems(1) by (subst (asm) walk_loop.simps) (auto split: option.split_asm)
  show ?case
  proof (cases ok)
    case False
    with Suc.prems add add_frame_core [OF add] show ?thesis
      by (subst (asm) walk_loop.simps) (auto split: if_split_asm)
  next
    case True
    then obtain g where g: "walked st1 = walked st @ [g]" "core g = core f"
      using add_frame_core [OF add] by auto
    let ?scan = "scanned_frames st1 < max_frames_scanned w"
    obtain nxt where gc: "get_caller (walked st1) ?scan (walk_symbolizer st1) = Some (nxt, g, walk_symbolizer st1)"
        "map_option core nxt = succ (core f)"
      using caller_succ [of "walked st1" ?scan "walk_symbolizer st1"] g by auto
    have loop: "walk_loop w get_caller nxt (st1\<lparr>walked := walked st @ [g], walk_symbolizer := walk_symbolizer st1\<rparr>) =
        Some (b, st')"
      using Suc.prems add True g gc(1) by (subst (asm) walk_loop.simps) simp
    show ?thesis
    proof (cases nxt)
      case None
      with loop gc(2) g show ?thesis by (subst (asm) walk_loop.simps) auto
    next
      case (Some h)
      have "prefix (map core (walked st')) (map core (walked st @ [g]) @ core h # chain succ n (core h)) \<and>
          (b \<longrightarrow> map core (walked st') = map core (walked st @ [g]) @ core h # chain succ n (core h))"
        using Suc.IH [of h "st1\<lparr>walked := walked st @ [g], walk_symbolizer := walk_symbolizer st1\<rparr>"]
          loop Some Suc.prems(2) by simp
      moreover have "succ (core f) = Some (core h)" using gc(2) Some by simp
      ultimately show ?thesis using g(2) by simp
    qed
  qed
qed

lemma Walk_chain:
  assumes "Walk w get_caller (Some f) stk missing corrupt s = Some (b, stk', missing', corrupt', s')"
    and "frames stk = []"
  shows "prefix (map core (frames stk')) (core f # chain succ (unat (max_frames w)) (core f)) \<and>
    (b \<longrightarrow> map core (frames stk') = core f # chain succ (unat (max_frames w)) (core f))"
proof -
  obtain st where run: "walk_loop w get_caller (Some f) \<lparr>walked = [], scanned_frames = 0,
      modules_without_symbols = missing, modules_with_corrupt_symbols = corrupt, walk_symbolizer = s\<rparr> = Some (b, st)"
    and stk': "frames stk' = walked st"
    using assms by (auto simp: Walk_def CallStack_Clear_def bind_eq_Some_conv)
  from chain_loop [OF run, of "unat (max_frames w)"] stk' show ?thesis by simp
qed

end

text \<open>The successors: instruction, program counter and stack pointer, for SPARC the frame pointer too.\<close>

fun ppc_next :: "memory_region option \<Rightarrow> u64 \<times> u32 \<times> u32 \<Rightarrow> (u64 \<times> u32 \<times> u32) option" where
  "ppc_next None _ = None"
| "ppc_next (Some m) (_, _, sp) =
     (case read_u32 m (ucast sp) of
        None \<Rightarrow> None
      | Some sp' \<Rightarrow>
          (case read_u32 m (ucast (sp' + 8)) of
             None \<Rightarrow> None
           | Some pc' \<Rightarrow> if sp < sp' \<and> 0x1000 \<le> pc' then Some (ucast (pc' - 4), pc', sp') else None))"

fun ppc64_next :: "memory_region option \<Rightarrow> u64 \<times> u64 \<times> u64 \<Rightarrow> (u64 \<times> u64 \<times> u64) option" where
  "ppc64_next None _ = None"
| "ppc64_next (Some m) (_, _, sp) =
     (case read_u64 m sp of
        None \<Rightarrow> None
      | Some sp' \<Rightarrow>
          (case read_u64 m (sp' + 16) of
             None \<Rightarrow> None
           | Some pc' \<Rightarrow> if sp < sp' \<and> 0x1000 \<le> pc' then Some (pc' - 8, pc', sp') else None))"

fun sparc_next :: "memory_region option \<Rightarrow> u64 \<times> u64 \<times> u64 \<times> u64 \<Rightarrow> (u64 \<times> u64 \<times> u64 \<times> u64) option" where
  "sparc_next None _ = None"
| "sparc_next (Some m) (_, _, sp, fp) =
     (case (read_u32 m (fp + 60), read_u32 m (fp + 56)) of
        (Some pc', Some fp') \<Rightarrow>
          if sp < fp \<and> 0x1000 \<le> pc' \<and> 1 < fp'
          then Some (ucast pc', ucast (pc' + 8), fp, ucast fp') else None
      | _ \<Rightarrow> None)"

definition ppc_core :: "StackFramePPC \<Rightarrow> u64 \<times> u32 \<times> u32" where
  "ppc_core f = (instruction f, ppc_srr0 (ppc_context f), ppc_gpr (ppc_context f) 1)"

definition ppc64_core :: "StackFramePPC64 \<Rightarrow> u64 \<times> u64 \<times> u64" where
  "ppc64_core f = (instruction f, ppc64_srr0 (ppc64_context f), ppc64_gpr (ppc64_context f) 1)"

definition sparc_core :: "StackFrameSPARC \<Rightarrow> u64 \<times> u64 \<times> u64 \<times> u64" where
  "sparc_core f =
     (let c = sparc_context f in (instruction f, sparc_pc c, g_r c 14, g_r c 30))"

lemma chain_machine:
  "same_machine_state f g \<Longrightarrow> ppc_core f = ppc_core g"
  "same_machine_state f' g' \<Longrightarrow> ppc64_core f' = ppc64_core g'"
  "same_machine_state f'' g'' \<Longrightarrow> sparc_core f'' = sparc_core g''"
    apply (cases f; cases g; simp add: same_machine_state_def ppc_core_def)
   apply (cases f'; cases g'; simp add: same_machine_state_def ppc64_core_def)
  apply (cases f''; cases g''; simp add: same_machine_state_def sparc_core_def Let_def)
  done

lemma above_first_page: "(0x1000 :: 'w::len word) \<le> x \<Longrightarrow> 12 < LENGTH('w) \<Longrightarrow> \<not> x \<le> 1"
proof
  assume "0x1000 \<le> x" "x \<le> 1" "12 < LENGTH('w)"
  then have "(0x1000 :: 'w word) \<le> 1" by simp
  moreover have "(2 :: nat) ^ 13 \<le> 2 ^ LENGTH('w)" using \<open>12 < LENGTH('w)\<close> by (intro power_increasing) auto
  then have "take_bit LENGTH('w) (0x1000 :: nat) = 0x1000" by (intro take_bit_nat_eq_self) simp
  ultimately show False by (simp add: word_le_nat_alt)
qed

interpretation ppc: chain_walker "ppc_GetCallerFrame memory" ppc_core "ppc_next memory"
proof
  fix fs :: "StackFramePPC list" and scan s
  show "\<exists>f. ppc_GetCallerFrame memory fs scan s = Some (f, last fs, s) \<and>
      map_option ppc_core f = ppc_next memory (ppc_core (last fs))"
    by (cases memory)
      (auto simp: ppc_GetCallerFrame_def ppc_core_def accept_caller_def TerminateWalk_def ucast_u32_order Let_def
        dest: above_first_page split: option.split)
qed (rule chain_machine)

interpretation ppc64: chain_walker "ppc64_GetCallerFrame memory" ppc64_core "ppc64_next memory"
proof
  fix fs :: "StackFramePPC64 list" and scan s
  show "\<exists>f. ppc64_GetCallerFrame memory fs scan s = Some (f, last fs, s) \<and>
      map_option ppc64_core f = ppc64_next memory (ppc64_core (last fs))"
    by (cases memory)
      (auto simp: ppc64_GetCallerFrame_def ppc64_core_def accept_caller_def TerminateWalk_def Let_def
        dest: above_first_page split: option.split)
qed (rule chain_machine)

interpretation sparc: chain_walker "sparc_GetCallerFrame memory" sparc_core "sparc_next memory"
proof
  fix fs :: "StackFrameSPARC list" and scan s
  show "\<exists>f. sparc_GetCallerFrame memory fs scan s = Some (f, last fs, s) \<and>
      map_option sparc_core f = sparc_next memory (sparc_core (last fs))"
    by (cases memory)
      (auto simp: sparc_GetCallerFrame_def sparc_core_def accept_caller_def TerminateWalk_def ucast_u32_order Let_def
        not_less dest: above_first_page split: option.split)
qed (rule chain_machine)

text \<open>The walk and its chain, for each of the three processors.\<close>

lemma ppc64_Walk_is_chain:
  assumes "ppc64_Walk w memory (Some c) stk missing corrupt s = Some (b, stk', missing', corrupt', s')"
    and "frames stk = []"
  shows "let first = (ppc64_srr0 c, ppc64_srr0 c, ppc64_gpr c 1);
      full = first # chain (ppc64_next memory) (unat (max_frames w)) first in
    prefix (map ppc64_core (frames stk')) full \<and> (b \<longrightarrow> map ppc64_core (frames stk') = full)"
  using ppc64.Walk_chain [of w _ _ stk] assms
  by (fastforce simp: ppc64_Walk_def ppc64_GetContextFrame_def ppc64_core_def Let_def)

lemma sparc_Walk_is_chain:
  assumes "sparc_Walk w memory (Some c) stk missing corrupt s = Some (b, stk', missing', corrupt', s')"
    and "frames stk = []"
  shows "let first = (sparc_pc c, sparc_pc c, g_r c 14, g_r c 30);
      full = first # chain (sparc_next memory) (unat (max_frames w)) first in
    prefix (map sparc_core (frames stk')) full \<and> (b \<longrightarrow> map sparc_core (frames stk') = full)"
  using sparc.Walk_chain [of w _ _ stk] assms
  by (fastforce simp: sparc_Walk_def sparc_GetContextFrame_def sparc_core_def Let_def)

text \<open>
  C25: A PowerPC walk is the chain of saved stack pointers: from the context, each frame has the
  stack pointer saved at the one before, if it is higher, and the return address saved above
  it, up to the limit of frames.  Symbol data can only interrupt the walk, which leaves a
  beginning of the chain.
\<close>

theorem ppc_Walk_is_chain:
  assumes "ppc_Walk w memory (Some c) stk missing corrupt s = Some (b, stk', missing', corrupt', s')"
    and "frames stk = []"
  shows "let first = (ucast (ppc_srr0 c), ppc_srr0 c, ppc_gpr c 1);
      full = first # chain (ppc_next (ppc_memory memory)) (unat (max_frames w)) first in
    prefix (map ppc_core (frames stk')) full \<and> (b \<longrightarrow> map ppc_core (frames stk') = full)"
  using ppc.Walk_chain [of w _ _ stk] assms
  by (fastforce simp: ppc_Walk_def ppc_GetContextFrame_def ppc_core_def Let_def)

text \<open>A stack with one saved stack pointer and its return address.\<close>

definition sample_ppc_stack :: memory_region where
  "sample_ppc_stack = \<lparr>region_base = 0x1000, region_size = 0x100,
     read_u32 = (\<lambda>a. if a = 0x1010 then Some 0x1020 else if a = 0x1028 then Some 0x401008
       else if a = 0x1020 then Some 0 else None), read_u64 = (\<lambda>_. None)\<rparr>"

definition sample_ppc_context :: MDRawContextPPC where
  "sample_ppc_context = (ppc_context new_StackFramePPC)\<lparr>ppc_srr0 := 0x401004, ppc_gpr := (\<lambda>_. 0x1010)\<rparr>"

lemma sample_ppc_chain:
  "chain (ppc_next (ppc_memory (Some sample_ppc_stack))) n (0x401004, 0x401004, 0x1010) =
     (if n = 0 then [] else [(0x401004, 0x401008, 0x1020)])"
proof (cases n)
  case (Suc m)
  then show ?thesis
    by (cases m) (simp_all add: ppc_memory_def sample_ppc_stack_def)
qed simp

text \<open>The walk of the sample, for any walker whose limits allow it.\<close>

lemma sample_ppc_walk:
  assumes "2 \<le> unat (max_frames w)" and "1 < max_frames_scanned w"
  shows "\<exists>stk' missing' corrupt'.
    ppc_Walk w (Some sample_ppc_stack) (Some sample_ppc_context) empty_stack [] [] no_symbols =
      Some (True, stk', missing', corrupt', no_symbols) \<and> length (frames stk') = 2"
proof -
  let ?gc = "ppc_GetCallerFrame (ppc_memory (Some sample_ppc_stack))"
  define f where "f = new_StackFramePPC\<lparr>ppc_context := sample_ppc_context, ppc_validity := CONTEXT_VALID_ALL,
    trust := FRAME_TRUST_CONTEXT, instruction := 0x401004\<rparr>"
  define h where "h = new_StackFramePPC\<lparr>ppc_context := sample_ppc_context\<lparr>ppc_srr0 := 0x401008,
      ppc_gpr := (\<lambda>_. 0x1010)(1 := 0x1020)\<rparr>,
    ppc_validity := CONTEXT_VALID_SRR0 OR CONTEXT_VALID_GPR1, trust := FRAME_TRUST_FP, instruction := 0x401004\<rparr>"
  have ctx: "ppc_context g' = ppc_context g" if "same_machine_state g g'" for g g'
    using that by (cases g; cases g') (simp add: same_machine_state_def)
  have big: "\<not> (0x401008 :: u32) \<le> 1" by (simp add: word_le_nat_alt)
  have first: "?gc [g] True no_symbols = Some (Some h, g, no_symbols)" if "same_machine_state f g" for g
    using ctx [OF that] big
    by (simp add: ppc_GetCallerFrame_def accept_caller_def TerminateWalk_def f_def h_def sample_ppc_context_def
        sample_ppc_stack_def ppc_memory_def Let_def)
  have second: "?gc [g, k] True no_symbols = Some (None, k, no_symbols)" if "same_machine_state h k" for g k
    using ctx [OF that]
    by (simp add: ppc_GetCallerFrame_def h_def sample_ppc_stack_def ppc_memory_def Let_def)
  from Walk_two_frames [where get_caller = ?gc and f = f and h = h and s = no_symbols, OF _ assms _ first second]
  obtain stk' missing' corrupt' where
    run: "Walk w ?gc (Some f) empty_stack [] [] no_symbols = Some (True, stk', missing', corrupt', no_symbols)"
      "length (frames stk') = 2"
    by (auto simp: f_def dubious_def)
  then show ?thesis
    by (simp add: ppc_Walk_def ppc_GetContextFrame_def f_def sample_ppc_context_def)
qed

theorem ppc_Walk_is_chain_witness:
  "\<exists>stk' missing' corrupt' s'.
    ppc_Walk sample_walker (Some sample_ppc_stack) (Some sample_ppc_context) empty_stack [] [] no_symbols =
      Some (True, stk', missing', corrupt', s') \<and>
    map ppc_core (frames stk') = [(0x401004, 0x401004, 0x1010), (0x401004, 0x401008, 0x1020)]"
proof -
  obtain stk' missing' corrupt' where
    run: "ppc_Walk sample_walker (Some sample_ppc_stack) (Some sample_ppc_context) empty_stack [] [] no_symbols =
      Some (True, stk', missing', corrupt', no_symbols)"
    using sample_ppc_walk [of sample_walker] by (auto simp: sample_walker_def new_stackwalker_def)
  from ppc_Walk_is_chain [OF run] run show ?thesis
    by (simp add: Let_def sample_ppc_context_def sample_ppc_chain sample_walker_def new_stackwalker_def)
qed

end
