(* ===== verification/Stackwalker_ARM.thy ===== *)
theory Stackwalker_ARM
  imports Stackwalker
begin

text \<open>
  \<open>StackwalkerARM\<close> (\<open>processor/stackwalker_arm.cc\<close>): callers from CFI rules, from a
  frame pointer when one is configured, from the link register of the first frame, or by
  scanning.  The loop over an array of registers, which the 64-bit walker repeats, is modelled
  for any width.

  The code reads and writes \<open>iregs\<close> under 26 names, but the array has 16 entries:
  \<open>arm_iregs\<close> is the memory from the array on, so its indices from 16 are the words behind
  it, \<open>cpsr\<close> and the beginning of \<open>float_save\<close>.
\<close>

subsection \<open>Arrays of registers\<close>

definition RegisterValidFlag :: "nat \<Rightarrow> 'v::len word" where
  "RegisterValidFlag n = push_bit n 1"

abbreviation reg_valid :: "'v::len word \<Rightarrow> nat \<Rightarrow> bool" where
  "reg_valid validity i \<equiv> validity AND RegisterValidFlag i \<noteq> 0"

definition array_callee_registers ::
  "string list \<Rightarrow> (nat \<Rightarrow> 'w::len word) \<Rightarrow> 'v::len word \<Rightarrow> (string \<rightharpoonup> 'w word)" where
  "array_callee_registers register_names iregs validity =
     foldl (\<lambda>m i. if reg_valid validity i then m(register_names ! i \<mapsto> iregs i) else m)
       Map.empty [0..<length register_names]"

definition array_recover ::
  "string list \<Rightarrow> (nat \<Rightarrow> bool) \<Rightarrow> (string \<rightharpoonup> 'w::len word) \<Rightarrow> (nat \<Rightarrow> 'w word) \<Rightarrow> 'v::len word \<Rightarrow>
     nat \<Rightarrow> (nat \<Rightarrow> 'w word) \<times> 'v word \<Rightarrow> (nat \<Rightarrow> 'w word) \<times> 'v word" where
  "array_recover register_names callee_saves caller_registers last_iregs last_validity i state =
     (case state of (iregs, validity) \<Rightarrow>
        (case caller_registers (register_names ! i) of
           Some v \<Rightarrow> (iregs(i := v), validity OR RegisterValidFlag i)
         | None \<Rightarrow>
             if callee_saves i \<and> reg_valid last_validity i
             then (iregs(i := last_iregs i), validity OR RegisterValidFlag i)
             else (iregs, validity)))"

definition array_recover_all ::
  "string list \<Rightarrow> (nat \<Rightarrow> bool) \<Rightarrow> (string \<rightharpoonup> 'w::len word) \<Rightarrow> (nat \<Rightarrow> 'w word) \<Rightarrow> 'v::len word \<Rightarrow>
     (nat \<Rightarrow> 'w word) \<times> 'v word" where
  "array_recover_all register_names callee_saves caller_registers last_iregs last_validity =
     foldl (\<lambda>state i. array_recover register_names callee_saves caller_registers last_iregs last_validity i state)
       (\<lambda>_. 0, 0) [0..<length register_names]"

text \<open>A register missing after the loop is taken from another entry of the rules.\<close>

definition array_default ::
  "(string \<rightharpoonup> 'w::len word) \<Rightarrow> string \<Rightarrow> nat \<Rightarrow> (nat \<Rightarrow> 'w word) \<times> 'v::len word \<Rightarrow> (nat \<Rightarrow> 'w word) \<times> 'v word" where
  "array_default caller_registers name i state =
     (case state of (iregs, validity) \<Rightarrow>
        if reg_valid validity i then state
        else
          (case caller_registers name of
             None \<Rightarrow> state
           | Some v \<Rightarrow> (iregs(i := v), validity OR RegisterValidFlag i)))"

lemma reg_valid_bit: "reg_valid v i = bit v i"
  unfolding RegisterValidFlag_def bit_iff_and_push_bit_not_eq_0 ..

lemma bit_RegisterValidFlag: "bit (RegisterValidFlag i :: 'v::len word) j = (i = j \<and> j < LENGTH('v))"
  by (auto simp: RegisterValidFlag_def bit_simps)

text \<open>
  Each register of the caller: given by a rule, or preserved by the callee that knows it, or
  unknown; the registers behind the named ones are left alone.
\<close>

lemma fold_array_recover:
  fixes validity :: "'v::len word"
  assumes "foldl (\<lambda>state i. array_recover names saves regs last_iregs last_validity i state) (iregs, validity) js =
      (iregs', validity')"
    and "distinct js" and "\<And>j. j \<in> set js \<Longrightarrow> j < LENGTH('v)"
  shows "(\<forall>i. iregs' i = (if i \<notin> set js then iregs i else case regs (names ! i) of Some v \<Rightarrow> v
      | None \<Rightarrow> if saves i \<and> bit last_validity i then last_iregs i else iregs i)) \<and>
    (\<forall>i. bit validity' i = (bit validity i \<or>
      i \<in> set js \<and> (regs (names ! i) \<noteq> None \<or> saves i \<and> bit last_validity i)))"
  using assms
proof (induction js arbitrary: iregs validity)
  case Nil
  then show ?case by simp
next
  case (Cons j js)
  obtain iregs1 validity1 where step: "array_recover names saves regs last_iregs last_validity j (iregs, validity) =
      (iregs1, validity1)" by fastforce
  then have one: "iregs1 = iregs(j := iregs1 j)" "bit validity1 i = (bit validity i \<or>
      i = j \<and> (regs (names ! j) \<noteq> None \<or> saves j \<and> bit last_validity j))"
    "iregs1 j = (case regs (names ! j) of Some v \<Rightarrow> v
      | None \<Rightarrow> if saves j \<and> bit last_validity j then last_iregs j else iregs j)" for i
    using Cons.prems(3) [of j]
    by (auto simp: array_recover_def reg_valid_bit bit_or_iff bit_RegisterValidFlag
        split: option.split_asm if_split_asm)
  have "foldl (\<lambda>state i. array_recover names saves regs last_iregs last_validity i state) (iregs1, validity1) js =
      (iregs', validity')" using Cons.prems(1) step by simp
  note IH = Cons.IH [OF this] 
  have all: "iregs' i = (if i \<notin> set js then iregs1 i else case regs (names ! i) of Some v \<Rightarrow> v
      | None \<Rightarrow> if saves i \<and> bit last_validity i then last_iregs i else iregs1 i)"
    "bit validity' i = (bit validity1 i \<or>
      i \<in> set js \<and> (regs (names ! i) \<noteq> None \<or> saves i \<and> bit last_validity i))" for i
    using IH Cons.prems(2,3) by simp_all
  have other: "iregs1 i = iregs i" if "i \<noteq> j" for i using one(1) that by (metis fun_upd_other)
  have ne: "i \<noteq> j" if "i \<in> set js" for i using Cons.prems(2) that by auto
  show ?case
    using Cons.prems(2) by (auto simp: all one(2,3) other ne split: option.split)
qed

lemma array_recover_all_correct:
  assumes "array_recover_all names saves regs last_iregs (last_validity :: 'v::len word) = (iregs, validity)"
    and "length names \<le> LENGTH('v)"
  shows "iregs i = (if i \<ge> length names then 0 else case regs (names ! i) of Some v \<Rightarrow> v
      | None \<Rightarrow> if saves i \<and> bit last_validity i then last_iregs i else 0)"
    and "bit validity i = (i < length names \<and> (regs (names ! i) \<noteq> None \<or> saves i \<and> bit last_validity i))"
proof -
  have len: "j < LENGTH('v)" if "j \<in> set [0..<length names]" for j using assms(2) that by simp
  from fold_array_recover [OF assms(1) [unfolded array_recover_all_def] distinct_upt len]
  show "iregs i = (if i \<ge> length names then 0 else case regs (names ! i) of Some v \<Rightarrow> v
      | None \<Rightarrow> if saves i \<and> bit last_validity i then last_iregs i else 0)"
    and "bit validity i = (i < length names \<and> (regs (names ! i) \<noteq> None \<or> saves i \<and> bit last_validity i))"
    by (simp_all add: not_le)
qed

subsection \<open>Contexts and frames\<close>

record MDRawContextARM =
  arm_context_flags :: u32
  arm_iregs :: "nat \<Rightarrow> u32"

text \<open>The walker: the shared part, the frame pointer if one is used, and the system.\<close>

record arm_walker =
  arm_base :: stackwalker
  fp_register :: "nat option"
  arm_context_frame_validity :: u32
  arm_os_is_iOS :: bool

definition new_StackwalkerARM :: "stackwalker \<Rightarrow> nat option \<Rightarrow> bool \<Rightarrow> arm_walker" where
  "new_StackwalkerARM base fp ios = \<lparr>arm_base = base, fp_register = fp,
     arm_context_frame_validity = CONTEXT_VALID_ALL, arm_os_is_iOS = ios\<rparr>"

definition ARM_REG_SP :: nat where "ARM_REG_SP = 13"
definition ARM_REG_LR :: nat where "ARM_REG_LR = 14"
definition ARM_REG_PC :: nat where "ARM_REG_PC = 15"

lemmas arm_regs = ARM_REG_SP_def ARM_REG_LR_def ARM_REG_PC_def

record StackFrameARM = StackFrame +
  arm_context :: MDRawContextARM
  arm_validity :: u32

definition new_StackFrameARM :: StackFrameARM where
  "new_StackFrameARM = StackFrame.extend new_StackFrame
     \<lparr>arm_context = \<lparr>arm_context_flags = 0, arm_iregs = (\<lambda>_. 0)\<rparr>, arm_validity = CONTEXT_VALID_NONE\<rparr>"

definition arm_GetContextFrame :: "arm_walker \<Rightarrow> MDRawContextARM option \<Rightarrow> StackFrameARM option" where
  "arm_GetContextFrame w context =
     map_option (\<lambda>c. new_StackFrameARM\<lparr>arm_context := c, arm_validity := arm_context_frame_validity w,
         trust := FRAME_TRUST_CONTEXT, instruction := ucast (arm_iregs c ARM_REG_PC)\<rparr>) context"

subsection \<open>The strategies\<close>

definition arm_register_names :: "string list" where
  "arm_register_names =
     [''r0'', ''r1'', ''r2'', ''r3'', ''r4'', ''r5'', ''r6'', ''r7'',
      ''r8'', ''r9'', ''r10'', ''r11'', ''r12'', ''sp'', ''lr'', ''pc'',
      ''f0'', ''f1'', ''f2'', ''f3'', ''f4'', ''f5'', ''f6'', ''f7'',
      ''fps'', ''cpsr'']"

definition arm_callee_saves :: "nat \<Rightarrow> bool" where
  "arm_callee_saves i = (4 \<le> i \<and> i \<le> 11)"

text \<open>
  The return address of the rules is the program counter; with a frame pointer it is the link
  register, whose old value is the program counter.
\<close>

definition arm_program_counter ::
  "nat option \<Rightarrow> (string \<rightharpoonup> u32) \<Rightarrow> (nat \<Rightarrow> u32) \<Rightarrow> (nat \<Rightarrow> u32) \<times> u32 \<Rightarrow> (nat \<Rightarrow> u32) \<times> u32" where
  "arm_program_counter fp caller_registers last_iregs state =
     (case fp of
        None \<Rightarrow> array_default caller_registers ''.ra'' ARM_REG_PC state
      | Some _ \<Rightarrow>
          (case state of (iregs, validity) \<Rightarrow>
             if reg_valid validity ARM_REG_PC then state
             else
               (case caller_registers ''.ra'' of
                  None \<Rightarrow> state
                | Some v \<Rightarrow>
                    (iregs(ARM_REG_LR := v, ARM_REG_PC := last_iregs ARM_REG_LR),
                     validity OR RegisterValidFlag ARM_REG_PC OR RegisterValidFlag ARM_REG_LR))))"

definition arm_GetCallerByCFIFrameInfo ::
  "arm_walker \<Rightarrow> memory_region \<Rightarrow> StackFrameARM \<Rightarrow> CFIFrameInfo \<Rightarrow> StackFrameARM option run" where
  "arm_GetCallerByCFIFrameInfo w memory last_frame cfi = do {
     let last_iregs = arm_iregs (arm_context last_frame);
     let last_validity = arm_validity last_frame;
     (ok, caller_registers) \<leftarrow> FindCallerRegs cfi
       (array_callee_registers arm_register_names last_iregs last_validity) (read_u32 memory) Map.empty;
     if \<not> ok then Some None
     else
       let state = array_recover_all arm_register_names arm_callee_saves caller_registers last_iregs last_validity;
           state = arm_program_counter (fp_register w) caller_registers last_iregs state;
           (iregs, validity) = array_default caller_registers ''.cfa'' ARM_REG_SP state;
           essentials = RegisterValidFlag ARM_REG_SP OR RegisterValidFlag ARM_REG_PC
       in Some (if validity AND essentials \<noteq> essentials then None
                else Some (new_StackFrameARM\<lparr>arm_context := (arm_context new_StackFrameARM)\<lparr>arm_iregs := iregs\<rparr>,
                       arm_validity := validity, trust := FRAME_TRUST_CFI\<rparr>))
   }"

definition arm_GetCallerByStackScan ::
  "arm_walker \<Rightarrow> memory_region \<Rightarrow> StackFrameARM list \<Rightarrow> symbolizer \<Rightarrow> (StackFrameARM option \<times> symbolizer) run" where
  "arm_GetCallerByStackScan w memory walked_frames s = do {
     let c = arm_context (last walked_frames);
     (found, s) \<leftarrow> ScanForReturnAddress (arm_base w) (read_u32 memory) (arm_iregs c ARM_REG_SP)
       (search_words (length walked_frames = 1)) s;
     Some (map_option (\<lambda>(caller_sp, caller_pc).
         new_StackFrameARM\<lparr>trust := FRAME_TRUST_SCAN,
           arm_context := c\<lparr>arm_iregs := (arm_iregs c)(ARM_REG_PC := caller_pc, ARM_REG_SP := caller_sp + 4)\<rparr>,
           arm_validity := RegisterValidFlag ARM_REG_PC OR RegisterValidFlag ARM_REG_SP\<rparr>) found, s)
   }"

definition arm_GetCallerByFramePointer ::
  "memory_region \<Rightarrow> StackFrameARM \<Rightarrow> nat \<Rightarrow> StackFrameARM option" where
  "arm_GetCallerByFramePointer memory last_frame fp =
     (if \<not> reg_valid (arm_validity last_frame) fp then None
      else
        let c = arm_context last_frame; last_fp = arm_iregs c fp;
            read = (\<lambda>a. if last_fp = 0 then Some 0 else read_u32 memory (ucast a)) in
        (case (read last_fp, read (last_fp + 4)) of
           (Some caller_fp, Some caller_lr) \<Rightarrow>
             let caller_sp = (if last_fp = 0 then arm_iregs c ARM_REG_SP else last_fp + 8) in
             Some (new_StackFrameARM\<lparr>trust := FRAME_TRUST_FP,
               arm_context := c\<lparr>arm_iregs := (arm_iregs c)(fp := caller_fp, ARM_REG_SP := caller_sp,
                 ARM_REG_PC := arm_iregs c ARM_REG_LR, ARM_REG_LR := caller_lr)\<rparr>,
               arm_validity := RegisterValidFlag ARM_REG_PC OR RegisterValidFlag ARM_REG_LR OR
                 RegisterValidFlag fp OR RegisterValidFlag ARM_REG_SP\<rparr>)
         | _ \<Rightarrow> None))"

definition arm_GetCallerByLinkRegister ::
  "arm_walker \<Rightarrow> StackFrameARM \<Rightarrow> symbolizer \<Rightarrow> (StackFrameARM option \<times> symbolizer) run" where
  "arm_GetCallerByLinkRegister w last_frame s =
     (let c = arm_context last_frame; last_lr = arm_iregs c ARM_REG_LR in
      if \<not> reg_valid (arm_validity last_frame) ARM_REG_LR then Some (None, s)
      else do {
        (ok, s) \<leftarrow> InstructionAddressSeemsValid (arm_base w) (ucast last_lr) s;
        Some (if \<not> ok then None
              else Some (new_StackFrameARM\<lparr>trust := FRAME_TRUST_SCAN,
                arm_context := c\<lparr>arm_iregs := (arm_iregs c)(ARM_REG_PC := last_lr)\<rparr>,
                arm_validity := arm_context_frame_validity w AND NOT (RegisterValidFlag ARM_REG_LR)\<rparr>), s)
      })"

definition arm_new_frame ::
  "arm_walker \<Rightarrow> memory_region \<Rightarrow> StackFrameARM list \<Rightarrow> bool \<Rightarrow> symbolizer \<Rightarrow>
     (StackFrameARM option \<times> symbolizer) run" where
  "arm_new_frame w memory walked_frames stack_scan_allowed s = do {
     let last_frame = last walked_frames;
     frame \<leftarrow> (if arm_os_is_iOS w then Some None
               else case Symbolizer_FindCFIFrameInfo s last_frame of
                 None \<Rightarrow> Some None
               | Some cfi \<Rightarrow> arm_GetCallerByCFIFrameInfo w memory last_frame cfi);
     let frame = (case fp_register w of
                    Some fp \<Rightarrow> if frame = None then arm_GetCallerByFramePointer memory last_frame fp else frame
                  | None \<Rightarrow> frame);
     (frame, s) \<leftarrow> (if length walked_frames = 1 \<and> frame = None
                    then arm_GetCallerByLinkRegister w last_frame s else Some (frame, s));
     (if stack_scan_allowed \<and> frame = None then arm_GetCallerByStackScan w memory walked_frames s
      else Some (frame, s))
   }"

definition arm_GetCallerFrame :: "arm_walker \<Rightarrow> memory_region option \<Rightarrow> StackFrameARM caller_of" where
  "arm_GetCallerFrame w memory walked_frames stack_scan_allowed s =
     (case memory of
        None \<Rightarrow> Some (None, last walked_frames, s)
      | Some memory \<Rightarrow> do {
          let last_frame = last walked_frames;
          (frame, s) \<leftarrow> arm_new_frame w memory walked_frames stack_scan_allowed s;
          (case frame of
             None \<Rightarrow> Some (None, last_frame, s)
           | Some f \<Rightarrow>
               let iregs = arm_iregs (arm_context f) in
               Some (accept_caller (ucast (iregs ARM_REG_PC)) (ucast (iregs ARM_REG_SP))
                       (ucast (arm_iregs (arm_context last_frame) ARM_REG_SP)) (length walked_frames = 1)
                       (ucast (iregs ARM_REG_PC - 2)) f, last_frame, s))
        })"

definition arm_Walk ::
  "arm_walker \<Rightarrow> memory_region option \<Rightarrow> MDRawContextARM option \<Rightarrow> StackFrameARM call_stack \<Rightarrow>
     CodeModule list \<Rightarrow> CodeModule list \<Rightarrow> symbolizer \<Rightarrow>
     (bool \<times> StackFrameARM call_stack \<times> CodeModule list \<times> CodeModule list \<times> symbolizer) run" where
  "arm_Walk w memory context stk missing corrupt s =
     Walk (arm_base w) (arm_GetCallerFrame w memory) (arm_GetContextFrame w context) stk missing corrupt s"

subsection \<open>What a walk over ARM frames keeps\<close>

definition arm_sp :: "StackFrameARM \<Rightarrow> u64" where
  "arm_sp f = ucast (arm_iregs (arm_context f) ARM_REG_SP)"

lemma arm_machine: "same_machine_state f g \<Longrightarrow> arm_sp f = arm_sp g"
  by (cases f; cases g) (simp add: same_machine_state_def arm_sp_def)

lemma arm_strategy_trust:
  "arm_GetCallerByCFIFrameInfo w m lf cfi = Some (Some f) \<Longrightarrow> trust f = FRAME_TRUST_CFI"
  "arm_GetCallerByFramePointer m lf fp = Some f \<Longrightarrow> trust f = FRAME_TRUST_FP"
  by (auto simp: arm_GetCallerByCFIFrameInfo_def arm_GetCallerByFramePointer_def Let_def bind_eq_Some_conv
      split: prod.split_asm if_split_asm option.split_asm)

text \<open>Without scanning only the link register of the first frame yields a dubious caller.\<close>

lemma arm_new_frame_unscanned:
  assumes "arm_new_frame w m walked_frames False s = Some (Some f, s')" and "dubious (trust f)"
  shows "length walked_frames = 1"
proof (rule ccontr)
  assume "length walked_frames \<noteq> 1"
  with assms(1) obtain cfi where cfi: "(if arm_os_is_iOS w then Some None
      else case Symbolizer_FindCFIFrameInfo s (last walked_frames) of None \<Rightarrow> Some None
        | Some cfi \<Rightarrow> arm_GetCallerByCFIFrameInfo w m (last walked_frames) cfi) = Some cfi"
    and f: "(case fp_register w of Some fp \<Rightarrow>
        if cfi = None then arm_GetCallerByFramePointer m (last walked_frames) fp else cfi
      | None \<Rightarrow> cfi) = Some f"
    by (auto simp: arm_new_frame_def Let_def bind_eq_Some_conv)
  have "trust f = FRAME_TRUST_CFI" if "cfi = Some f"
    using cfi that by (auto split: if_split_asm option.split_asm dest: arm_strategy_trust(1))
  then have "trust f = FRAME_TRUST_CFI \<or> trust f = FRAME_TRUST_FP"
    using f by (auto split: option.split_asm if_split_asm dest: arm_strategy_trust(2))
  with assms(2) show False by (auto simp: dubious_def)
qed

lemma arm_GetCallerFrame_SomeD:
  assumes "arm_GetCallerFrame w memory walked_frames scan s = Some (nxt, lf, s')"
  shows "lf = last walked_frames \<and>
    (\<forall>f. nxt = Some f \<longrightarrow> above (length walked_frames = 1) (arm_sp lf) (arm_sp f) \<and>
       (\<not> scan \<longrightarrow> dubious (trust f) \<longrightarrow> length walked_frames = 1))"
proof (cases memory)
  case None
  with assms show ?thesis by (simp add: arm_GetCallerFrame_def)
next
  case (Some m)
  obtain nf s0 where run: "arm_new_frame w m walked_frames scan s = Some (nf, s0)"
    using assms Some by (auto simp: arm_GetCallerFrame_def Let_def bind_eq_Some_conv)
  have unscanned: "length walked_frames = 1" if "\<not> scan" "nf = Some f" "dubious (trust f)" for f
    using arm_new_frame_unscanned [of w m walked_frames s f s0] run that by simp
  show ?thesis
    using assms Some run unscanned
    by (cases nf) (auto simp: arm_GetCallerFrame_def arm_sp_def Let_def dest!: accept_caller_SomeD)
qed

interpretation arm: scan_limited_walker "arm_base w" "arm_GetCallerFrame w memory" arm_sp 1
  by unfold_locales (auto dest: arm_GetCallerFrame_SomeD arm_machine)

text \<open>
  The walk over ARM frames: its stack pointers rise, and the frames found by scanning keep
  their limit, but for the one the link register may give.
\<close>

lemma arm_Walk_rising:
  assumes "arm_Walk w memory ctx stk missing corrupt s = Some (b, stk', missing', corrupt', s')"
    and "frames stk = []"
  shows "rising (map arm_sp (frames stk')) \<and> length (frames stk') \<le> unat (max_frames (arm_base w)) + 1 \<and>
    dubious_frames (frames stk') \<le> max (unat (max_frames_scanned (arm_base w))) 1"
proof -
  have "\<not> dubious (trust f)" if "arm_GetContextFrame w ctx = Some f" for f
    using that by (auto simp: arm_GetContextFrame_def dubious_def)
  from arm.Walk_scanned [OF assms [unfolded arm_Walk_def] this] arm.Walk_rising [OF assms [unfolded arm_Walk_def]]
  show ?thesis by simp
qed

text \<open>
  C26: A caller found by CFI, without a frame pointer: its program counter and stack pointer are
  what the rules for them say, or else the return address and the frame address; every other
  named register is valid exactly when a rule gives it or the callee saves and knows it, with
  that value.  The names from \<open>f0\<close> on lie behind the array of 16 registers: their rules
  overwrite the words that follow it.
\<close>

theorem arm_CFI_caller:
  assumes "arm_GetCallerByCFIFrameInfo w m last_frame cfi = Some (Some f)"
    and "FindCallerRegs cfi (array_callee_registers arm_register_names (arm_iregs (arm_context last_frame))
      (arm_validity last_frame)) (read_u32 m) Map.empty = Some (True, regs)"
    and "fp_register w = None"
  shows "Some (arm_iregs (arm_context f) ARM_REG_PC) = (case regs ''pc'' of Some v \<Rightarrow> Some v | None \<Rightarrow> regs ''.ra'') \<and>
    Some (arm_iregs (arm_context f) ARM_REG_SP) = (case regs ''sp'' of Some v \<Rightarrow> Some v | None \<Rightarrow> regs ''.cfa'') \<and>
    (\<forall>i<26. i \<notin> {ARM_REG_SP, ARM_REG_PC} \<longrightarrow>
      reg_valid (arm_validity f) i =
        (regs (arm_register_names ! i) \<noteq> None \<or> 4 \<le> i \<and> i \<le> 11 \<and> reg_valid (arm_validity last_frame) i) \<and>
      (reg_valid (arm_validity f) i \<longrightarrow> arm_iregs (arm_context f) i =
        (case regs (arm_register_names ! i) of Some v \<Rightarrow> v | None \<Rightarrow> arm_iregs (arm_context last_frame) i)))"
proof -
  let ?last = "arm_iregs (arm_context last_frame)" and ?lv = "arm_validity last_frame"
  obtain iregs0 v0 where all: "array_recover_all arm_register_names arm_callee_saves regs ?last ?lv = (iregs0, v0)"
    by fastforce
  have len: "length arm_register_names = 26" by (simp add: arm_register_names_def)
  note rec = array_recover_all_correct [OF all, unfolded len, simplified]
  obtain iregs1 v1 where pc: "array_default regs ''.ra'' ARM_REG_PC (iregs0, v0) = (iregs1, v1)" by fastforce
  obtain iregs2 v2 where sp: "array_default regs ''.cfa'' ARM_REG_SP (iregs1, v1) = (iregs2, v2)" by fastforce
  let ?e = "RegisterValidFlag ARM_REG_SP OR RegisterValidFlag ARM_REG_PC :: u32"
  have e: "v2 AND ?e = ?e" and f: "arm_iregs (arm_context f) = iregs2" "arm_validity f = v2"
    using assms(1) by (auto simp: arm_GetCallerByCFIFrameInfo_def assms(2,3) all pc sp arm_program_counter_def
        Let_def split: if_split_asm)
  have "bit ?e ARM_REG_SP" "bit ?e ARM_REG_PC" by (simp_all add: bit_or_iff bit_RegisterValidFlag arm_regs)
  then have valid: "bit v2 ARM_REG_SP" "bit v2 ARM_REG_PC" using e by (metis bit_and_iff)+
  have one: "iregs1 = (if bit v0 ARM_REG_PC then iregs0
        else case regs ''.ra'' of None \<Rightarrow> iregs0 | Some v \<Rightarrow> iregs0(ARM_REG_PC := v))"
      "bit v1 i = (bit v0 i \<or> i = ARM_REG_PC \<and> regs ''.ra'' \<noteq> None)" for i
    using pc by (auto simp: array_default_def reg_valid_bit bit_or_iff bit_RegisterValidFlag arm_regs
        split: if_split_asm option.split_asm)
  have two: "iregs2 = (if bit v1 ARM_REG_SP then iregs1
        else case regs ''.cfa'' of None \<Rightarrow> iregs1 | Some v \<Rightarrow> iregs1(ARM_REG_SP := v))"
      "bit v2 i = (bit v1 i \<or> i = ARM_REG_SP \<and> regs ''.cfa'' \<noteq> None)" for i
    using sp by (auto simp: array_default_def reg_valid_bit bit_or_iff bit_RegisterValidFlag arm_regs
        split: if_split_asm option.split_asm)
  have names: "arm_register_names ! ARM_REG_PC = ''pc''" "arm_register_names ! ARM_REG_SP = ''sp''"
    by (simp_all add: arm_register_names_def arm_regs)
  have other: "iregs2 i = iregs0 i" "bit v2 i = bit v0 i" if "i \<notin> {ARM_REG_SP, ARM_REG_PC}" for i
    using that by (auto simp: one two split: option.split)
  have pc0: "bit v0 ARM_REG_PC = (regs ''pc'' \<noteq> None)" "regs ''pc'' = Some v \<Longrightarrow> iregs0 ARM_REG_PC = v"
    and sp0: "bit v0 ARM_REG_SP = (regs ''sp'' \<noteq> None)" "regs ''sp'' = Some v \<Longrightarrow> iregs0 ARM_REG_SP = v" for v
    using rec [of ARM_REG_PC] rec [of ARM_REG_SP]
    by (simp_all add: names arm_callee_saves_def) (simp_all add: arm_regs)
  have ne: "ARM_REG_SP \<noteq> ARM_REG_PC" by (simp add: arm_regs)
  have "Some (iregs2 ARM_REG_PC) = (case regs ''pc'' of Some v \<Rightarrow> Some v | None \<Rightarrow> regs ''.ra'')"
    using valid(2) pc0 ne
    by (cases "regs ''pc''"; cases "regs ''.ra''"; cases "regs ''.cfa''") (simp_all add: one two)
  moreover have "Some (iregs2 ARM_REG_SP) = (case regs ''sp'' of Some v \<Rightarrow> Some v | None \<Rightarrow> regs ''.cfa'')"
    using valid(1) sp0 ne
    by (cases "regs ''sp''"; cases "regs ''.ra''"; cases "regs ''.cfa''") (simp_all add: one two)
  moreover have "bit v2 i = (regs (arm_register_names ! i) \<noteq> None \<or> 4 \<le> i \<and> i \<le> 11 \<and> bit ?lv i) \<and>
      (bit v2 i \<longrightarrow> iregs2 i = (case regs (arm_register_names ! i) of Some v \<Rightarrow> v | None \<Rightarrow> ?last i))"
    if "i < 26" "i \<notin> {ARM_REG_SP, ARM_REG_PC}" for i
    using rec [of i] that by (auto simp: other [OF that(2)] arm_callee_saves_def split: option.split)
  ultimately show ?thesis by (simp add: f reg_valid_bit)
qed

definition sample_arm_frame :: StackFrameARM where
  "sample_arm_frame = new_StackFrameARM\<lparr>arm_context := \<lparr>arm_context_flags = 0,
       arm_iregs = (\<lambda>_. 0)(4 := 44, 13 := 0x1000, 16 := 0x60000010)\<rparr>,
     arm_validity := RegisterValidFlag 4 OR RegisterValidFlag 13\<rparr>"

text \<open>The rule for \<open>f0\<close> changes word 16, where the context keeps \<open>cpsr\<close>.\<close>

definition sample_arm_cfi :: CFIFrameInfo where
  "sample_arm_cfi = \<lparr>cfa_rule = ''sp 8 +'', ra_rule = ''.cfa 4 - ^'', register_rules = [(''f0'', ''7'')]\<rparr>"

definition sample_arm_region :: memory_region where
  "sample_arm_region = \<lparr>region_base = 0x1000, region_size = 0x10,
     read_u32 = (\<lambda>a. if a = 0x1004 then Some 0x401006 else None), read_u64 = (\<lambda>_. None)\<rparr>"

definition sample_arm_regs :: "string \<rightharpoonup> u32" where
  "sample_arm_regs = [''f0'' \<mapsto> 7, ''.ra'' \<mapsto> 0x401006, ''.cfa'' \<mapsto> 0x1008]"

lemma arm_indices:
  "[0..<length arm_register_names] =
     [0, 1, 2, 3, 4, 5, 6, 7, 8, 9, 10, 11, 12, 13, 14, 15, 16, 17, 18, 19, 20, 21, 22, 23, 24, 25]"
proof -
  have "length arm_register_names = 26" by (simp add: arm_register_names_def)
  then show ?thesis by (simp only:) (simp add: upt_conv_Cons)
qed

lemma sample_arm_found:
  "FindCallerRegs sample_arm_cfi (array_callee_registers arm_register_names
      (arm_iregs (arm_context sample_arm_frame)) (arm_validity sample_arm_frame))
     (read_u32 sample_arm_region) Map.empty = Some (True, sample_arm_regs)"
proof -
  have regs: "array_callee_registers arm_register_names (arm_iregs (arm_context sample_arm_frame))
      (arm_validity sample_arm_frame) = [''r4'' \<mapsto> 44, ''sp'' \<mapsto> 0x1000]"
    unfolding array_callee_registers_def arm_indices
    by (simp add: arm_register_names_def sample_arm_frame_def RegisterValidFlag_def)
  show ?thesis
    unfolding regs
    by (simp add: FindCallerRegs_def sample_arm_cfi_def EvaluateForValue_def EvaluateInternal_def evaluator_eval
        PopValue_def sample_arm_region_def sample_arm_regs_def text_eval fun_eq_iff)
qed

theorem arm_CFI_caller_witness:
  "\<exists>f. arm_GetCallerByCFIFrameInfo (new_StackwalkerARM sample_walker None False) sample_arm_region
      sample_arm_frame sample_arm_cfi = Some (Some f) \<and>
    arm_iregs (arm_context f) ARM_REG_PC = 0x401006 \<and> arm_iregs (arm_context f) ARM_REG_SP = 0x1008 \<and>
    arm_iregs (arm_context f) 4 = 44 \<and> arm_iregs (arm_context f) 16 = 7"
proof -
  let ?w = "new_StackwalkerARM sample_walker None False"
  have fp: "fp_register ?w = None" by (simp add: new_StackwalkerARM_def)
  have "\<exists>f. arm_GetCallerByCFIFrameInfo ?w sample_arm_region sample_arm_frame sample_arm_cfi = Some (Some f)"
    unfolding arm_GetCallerByCFIFrameInfo_def Let_def sample_arm_found fp array_recover_all_def arm_indices
    by (simp add: array_recover_def arm_register_names_def arm_callee_saves_def
        sample_arm_regs_def sample_arm_frame_def arm_program_counter_def array_default_def arm_regs
        RegisterValidFlag_def)
  then obtain f where f: "arm_GetCallerByCFIFrameInfo ?w sample_arm_region sample_arm_frame sample_arm_cfi =
      Some (Some f)" by blast
  note c = arm_CFI_caller [OF f sample_arm_found fp]
  have "arm_iregs (arm_context f) 4 = 44 \<and> arm_iregs (arm_context f) 16 = 7"
    using c [THEN conjunct2, THEN conjunct2, THEN spec, of 4] c [THEN conjunct2, THEN conjunct2, THEN spec, of 16]
    by (simp add: arm_regs arm_register_names_def sample_arm_regs_def sample_arm_frame_def RegisterValidFlag_def)
  then show ?thesis using c f by (simp add: sample_arm_regs_def)
qed

end
