(* ===== verification/Stackwalker_ARM64.thy ===== *)
theory Stackwalker_ARM64
  imports Stackwalker_ARM
begin

text \<open>
  \<open>StackwalkerARM64\<close> (\<open>processor/stackwalker_arm64.cc\<close>): callers from CFI rules, from
  the frame pointer, or by scanning, with pointer authentication codes stripped from return
  addresses.  The register loops are those of \<open>Stackwalker_ARM\<close> at 64 bits; the array has
  33 entries, one per name.
\<close>

subsection \<open>The range of addresses\<close>

text \<open>All bits up to the highest one of the end of the highest module.\<close>

definition smear :: "u64 \<Rightarrow> u64" where
  "smear end_address = foldl (\<lambda>m n. m OR drop_bit n m) end_address [1, 2, 4, 8, 16, 32]"

definition address_range_mask :: "CodeModule option \<Rightarrow> u64" where
  "address_range_mask high_module =
     (case high_module of
        None \<Rightarrow> 0xFFFFFFFFFFFFFFFF
      | Some m \<Rightarrow> smear (base_address m + module_size m))"

record arm64_walker =
  arm64_base :: stackwalker
  arm64_context_frame_validity :: u64
  address_mask :: u64

definition new_StackwalkerARM64 :: "stackwalker \<Rightarrow> CodeModule option \<Rightarrow> arm64_walker" where
  "new_StackwalkerARM64 base high_module =
     \<lparr>arm64_base = base, arm64_context_frame_validity = - 1, address_mask = address_range_mask high_module\<rparr>"

definition PtrauthStrip :: "arm64_walker \<Rightarrow> u64 \<Rightarrow> u64" where
  "PtrauthStrip w ptr =
     (let stripped = ptr AND address_mask w in
      case walker_modules (arm64_base w) of
        None \<Rightarrow> ptr
      | Some get_module \<Rightarrow> if get_module stripped \<noteq> None then stripped else ptr)"

subsection \<open>Contexts and frames\<close>

record MDRawContextARM64 =
  arm64_context_flags :: u32
  arm64_cpsr :: u32
  arm64_iregs :: "nat \<Rightarrow> u64"
  arm64_float_save :: "u8 list"
  arm64_debug :: "u8 list"

definition ARM64_REG_FP :: nat where "ARM64_REG_FP = 29"
definition ARM64_REG_LR :: nat where "ARM64_REG_LR = 30"
definition ARM64_REG_SP :: nat where "ARM64_REG_SP = 31"
definition ARM64_REG_PC :: nat where "ARM64_REG_PC = 32"

lemmas arm64_regs = ARM64_REG_FP_def ARM64_REG_LR_def ARM64_REG_SP_def ARM64_REG_PC_def

record StackFrameARM64 = StackFrame +
  arm64_context :: MDRawContextARM64
  arm64_validity :: u64

definition new_StackFrameARM64 :: StackFrameARM64 where
  "new_StackFrameARM64 = StackFrame.extend new_StackFrame
     \<lparr>arm64_context = \<lparr>arm64_context_flags = 0, arm64_cpsr = 0, arm64_iregs = (\<lambda>_. 0),
        arm64_float_save = replicate 520 0, arm64_debug = replicate 120 0\<rparr>,
      arm64_validity = 0\<rparr>"

definition arm64_GetContextFrame :: "arm64_walker \<Rightarrow> MDRawContextARM64 option \<Rightarrow> StackFrameARM64 option" where
  "arm64_GetContextFrame w context =
     map_option (\<lambda>c. new_StackFrameARM64\<lparr>
         arm64_context := c\<lparr>arm64_iregs := (arm64_iregs c)(ARM64_REG_LR := PtrauthStrip w (arm64_iregs c ARM64_REG_LR))\<rparr>,
         arm64_validity := arm64_context_frame_validity w,
         trust := FRAME_TRUST_CONTEXT, instruction := arm64_iregs c ARM64_REG_PC\<rparr>) context"

subsection \<open>The strategies\<close>

definition arm64_register_names :: "string list" where
  "arm64_register_names =
     [''x0'', ''x1'', ''x2'', ''x3'', ''x4'', ''x5'', ''x6'', ''x7'',
      ''x8'', ''x9'', ''x10'', ''x11'', ''x12'', ''x13'', ''x14'', ''x15'',
      ''x16'', ''x17'', ''x18'', ''x19'', ''x20'', ''x21'', ''x22'', ''x23'',
      ''x24'', ''x25'', ''x26'', ''x27'', ''x28'', ''x29'', ''x30'', ''sp'',
      ''pc'']"

definition arm64_callee_saves :: "nat \<Rightarrow> bool" where
  "arm64_callee_saves i = (19 \<le> i \<and> i \<le> 29)"

definition arm64_GetCallerByCFIFrameInfo ::
  "memory_region \<Rightarrow> StackFrameARM64 \<Rightarrow> CFIFrameInfo \<Rightarrow> StackFrameARM64 option run" where
  "arm64_GetCallerByCFIFrameInfo memory last_frame cfi = do {
     let last_iregs = arm64_iregs (arm64_context last_frame);
     let last_validity = arm64_validity last_frame;
     (ok, caller_registers) \<leftarrow> FindCallerRegs cfi
       (array_callee_registers arm64_register_names last_iregs last_validity) (read_u64 memory) Map.empty;
     if \<not> ok then Some None
     else
       let state = array_recover_all arm64_register_names arm64_callee_saves caller_registers last_iregs last_validity;
           state = array_default caller_registers ''.ra'' ARM64_REG_PC state;
           (iregs, validity) = array_default caller_registers ''.cfa'' ARM64_REG_SP state;
           essentials = RegisterValidFlag ARM64_REG_SP OR RegisterValidFlag ARM64_REG_PC
       in Some (if validity AND essentials \<noteq> essentials then None
                else Some (new_StackFrameARM64\<lparr>
                       arm64_context := (arm64_context new_StackFrameARM64)\<lparr>arm64_iregs := iregs\<rparr>,
                       arm64_validity := validity, trust := FRAME_TRUST_CFI\<rparr>))
   }"

definition arm64_GetCallerByStackScan ::
  "arm64_walker \<Rightarrow> memory_region \<Rightarrow> StackFrameARM64 list \<Rightarrow> StackFrameARM64 \<Rightarrow> symbolizer \<Rightarrow>
     (StackFrameARM64 option \<times> symbolizer) run" where
  "arm64_GetCallerByStackScan w memory walked_frames last_frame s = do {
     let c = arm64_context last_frame;
     (found, s) \<leftarrow> ScanForReturnAddress (arm64_base w) (read_u64 memory) (arm64_iregs c ARM64_REG_SP)
       (search_words (length walked_frames = 1)) s;
     Some (map_option (\<lambda>(caller_sp, caller_pc).
         new_StackFrameARM64\<lparr>trust := FRAME_TRUST_SCAN,
           arm64_context := c\<lparr>arm64_iregs := (arm64_iregs c)(ARM64_REG_PC := caller_pc, ARM64_REG_SP := caller_sp + 8)\<rparr>,
           arm64_validity := RegisterValidFlag ARM64_REG_PC OR RegisterValidFlag ARM64_REG_SP\<rparr>) found, s)
   }"

text \<open>Reading through a register that may be zero, which then counts as zero itself.\<close>

definition read_through :: "memory_region \<Rightarrow> u64 \<Rightarrow> u64 \<Rightarrow> u64 option" where
  "read_through memory pointer offset =
     (if pointer = 0 then Some 0 else read_u64 memory (pointer + offset))"

text \<open>The link register of the last frame is corrected from the frame before it.\<close>

definition CorrectRegLRByFramePointer ::
  "arm64_walker \<Rightarrow> memory_region \<Rightarrow> StackFrameARM64 list \<Rightarrow> StackFrameARM64 \<Rightarrow> StackFrameARM64" where
  "CorrectRegLRByFramePointer w memory walked_frames last_frame =
     (let last_iregs = arm64_iregs (arm64_context last_frame) in
      if length walked_frames < 2 \<or> last_iregs ARM64_REG_FP \<le> last_iregs ARM64_REG_SP then last_frame
      else
        let last_last_frame = walked_frames ! (length walked_frames - 2);
            last_last_fp = arm64_iregs (arm64_context last_last_frame) ARM64_REG_FP in
        (case read_through memory last_last_fp 0 of
           None \<Rightarrow> last_frame
         | Some last_fp \<Rightarrow>
             if last_iregs ARM64_REG_FP \<noteq> last_fp then last_frame
             else
               (case read_through memory last_last_fp 8 of
                  None \<Rightarrow> last_frame
                | Some last_lr \<Rightarrow>
                    last_frame\<lparr>arm64_context := (arm64_context last_frame)\<lparr>
                      arm64_iregs := last_iregs(ARM64_REG_LR := PtrauthStrip w last_lr)\<rparr>\<rparr>)))"

text \<open>The caller, and the last frame as it is left.\<close>

definition arm64_GetCallerByFramePointer ::
  "arm64_walker \<Rightarrow> memory_region \<Rightarrow> StackFrameARM64 list \<Rightarrow> StackFrameARM64 option \<times> StackFrameARM64" where
  "arm64_GetCallerByFramePointer w memory walked_frames =
     (let last_frame = last walked_frames;
          last_frame = (if reg_valid (arm64_validity last_frame) ARM64_REG_LR then last_frame
                        else CorrectRegLRByFramePointer w memory walked_frames last_frame);
          c = arm64_context last_frame; last_fp = arm64_iregs c ARM64_REG_FP in
      case (read_through memory last_fp 0, read_through memory last_fp 8) of
        (Some caller_fp, Some caller_lr) \<Rightarrow>
          let caller_lr = PtrauthStrip w caller_lr;
              caller_sp = (if last_fp = 0 then arm64_iregs c ARM64_REG_SP else last_fp + 16) in
          (Some (new_StackFrameARM64\<lparr>trust := FRAME_TRUST_FP,
             arm64_context := c\<lparr>arm64_iregs := (arm64_iregs c)(ARM64_REG_FP := caller_fp,
               ARM64_REG_SP := caller_sp, ARM64_REG_PC := arm64_iregs c ARM64_REG_LR, ARM64_REG_LR := caller_lr)\<rparr>,
             arm64_validity := RegisterValidFlag ARM64_REG_PC OR RegisterValidFlag ARM64_REG_LR OR
               RegisterValidFlag ARM64_REG_FP OR RegisterValidFlag ARM64_REG_SP\<rparr>), last_frame)
      | _ \<Rightarrow> (None, last_frame))"

definition arm64_new_frame ::
  "arm64_walker \<Rightarrow> memory_region \<Rightarrow> StackFrameARM64 list \<Rightarrow> bool \<Rightarrow> symbolizer \<Rightarrow>
     (StackFrameARM64 option \<times> StackFrameARM64 \<times> symbolizer) run" where
  "arm64_new_frame w memory walked_frames stack_scan_allowed s = do {
     let last_frame = last walked_frames;
     frame \<leftarrow> (case Symbolizer_FindCFIFrameInfo s last_frame of
                 None \<Rightarrow> Some None
               | Some cfi \<Rightarrow> arm64_GetCallerByCFIFrameInfo memory last_frame cfi);
     let (frame, last_frame) = (if frame = None then arm64_GetCallerByFramePointer w memory walked_frames
                                else (frame, last_frame));
     (if stack_scan_allowed \<and> frame = None
      then map_option (\<lambda>(f, s). (f, last_frame, s))
        (arm64_GetCallerByStackScan w memory walked_frames last_frame s)
      else Some (frame, last_frame, s))
   }"

definition arm64_GetCallerFrame :: "arm64_walker \<Rightarrow> memory_region option \<Rightarrow> StackFrameARM64 caller_of" where
  "arm64_GetCallerFrame w memory walked_frames stack_scan_allowed s =
     (case memory of
        None \<Rightarrow> Some (None, last walked_frames, s)
      | Some memory \<Rightarrow> do {
          (frame, last_frame, s) \<leftarrow> arm64_new_frame w memory walked_frames stack_scan_allowed s;
          (case frame of
             None \<Rightarrow> Some (None, last_frame, s)
           | Some f \<Rightarrow>
               let iregs = arm64_iregs (arm64_context f) in
               Some (accept_caller (iregs ARM64_REG_PC) (iregs ARM64_REG_SP)
                       (arm64_iregs (arm64_context last_frame) ARM64_REG_SP) (length walked_frames = 1)
                       (iregs ARM64_REG_PC - 4) f, last_frame, s))
        })"

definition arm64_Walk ::
  "arm64_walker \<Rightarrow> memory_region option \<Rightarrow> MDRawContextARM64 option \<Rightarrow> StackFrameARM64 call_stack \<Rightarrow>
     CodeModule list \<Rightarrow> CodeModule list \<Rightarrow> symbolizer \<Rightarrow>
     (bool \<times> StackFrameARM64 call_stack \<times> CodeModule list \<times> CodeModule list \<times> symbolizer) run" where
  "arm64_Walk w memory context stk missing corrupt s =
     Walk (arm64_base w) (arm64_GetCallerFrame w memory) (arm64_GetContextFrame w context) stk missing corrupt s"

subsection \<open>Stripping pointer authentication codes\<close>

lemma spread_step:
  fixes x y :: "'w::len word"
  assumes "\<And>i. bit y i = (\<exists>j<n. bit x (i + j))"
  shows "bit (y OR drop_bit n y) i = (\<exists>j<n + n. bit x (i + j))"
proof -
  have "bit (y OR drop_bit n y) i = ((\<exists>j<n. bit x (i + j)) \<or> (\<exists>j<n. bit x (n + i + j)))"
    by (simp add: bit_or_iff bit_drop_bit_eq assms)
  also have "\<dots> = (\<exists>j<n + n. bit x (i + j))"
  proof
    assume "(\<exists>j<n. bit x (i + j)) \<or> (\<exists>j<n. bit x (n + i + j))"
    then show "\<exists>j<n + n. bit x (i + j)"
    proof
      assume "\<exists>j<n. bit x (n + i + j)"
      then obtain j where "j < n" "bit x (n + i + j)" by blast
      then show ?thesis by (intro exI [of _ "n + j"]) (simp add: ac_simps)
    qed (auto intro: trans_less_add1)
  next
    assume "\<exists>j<n + n. bit x (i + j)"
    then obtain j where j: "j < n + n" "bit x (i + j)" by blast
    show "(\<exists>j<n. bit x (i + j)) \<or> (\<exists>j<n. bit x (n + i + j))"
    proof (cases "j < n")
      case False
      with j have "j - n < n" "bit x (n + i + (j - n))" by simp_all
      then show ?thesis by blast
    qed (use j in blast)
  qed
  finally show ?thesis .
qed

text \<open>A bit of the mask is set when the address has a bit there or above.\<close>

lemma bit_smear: "bit (smear x) i = (\<exists>j\<ge>i. bit x j)"
proof -
  define y where "y n = foldl (\<lambda>m k. m OR drop_bit k m) x (take n [1, 2, 4, 8, 16, 32])" for n
  have y0: "bit (y 0) i = (\<exists>j<1. bit x (i + j))" for i by (simp add: y_def)
  have y1: "bit (y 1) i = (\<exists>j<2. bit x (i + j))" for i
    using spread_step [where y = "y 0" and x = x and n = 1] y0 by (simp add: y_def numeral_2_eq_2)
  have y2: "bit (y 2) i = (\<exists>j<4. bit x (i + j))" for i
    using spread_step [where y = "y 1" and x = x and n = 2] y1 by (simp add: y_def)
  have y3: "bit (y 3) i = (\<exists>j<8. bit x (i + j))" for i
    using spread_step [where y = "y 2" and x = x and n = 4] y2 by (simp add: y_def)
  have y4: "bit (y 4) i = (\<exists>j<16. bit x (i + j))" for i
    using spread_step [where y = "y 3" and x = x and n = 8] y3 by (simp add: y_def)
  have y5: "bit (y 5) i = (\<exists>j<32. bit x (i + j))" for i
    using spread_step [where y = "y 4" and x = x and n = 16] y4 by (simp add: y_def)
  have "bit (smear x) i = (\<exists>j<64. bit x (i + j))"
    using spread_step [where y = "y 5" and x = x and n = 32] y5 by (simp add: y_def smear_def)
  also have "\<dots> = (\<exists>j\<ge>i. bit x j)"
  proof
    assume "\<exists>j\<ge>i. bit x j"
    then obtain j where j: "i \<le> j" "bit x j" by blast
    then have "j < 64" using bit_imp_le_length [of x j] by simp
    with j show "\<exists>j<64. bit x (i + j)" by (intro exI [of _ "j - i"]) simp
  qed (metis le_add1)
  finally show ?thesis .
qed

lemma below_highest_bit:
  fixes a x :: "'w::len word"
  assumes "a \<le> x" and "bit a i"
  shows "\<exists>j\<ge>i. bit x j"
proof (rule ccontr)
  assume "\<not> (\<exists>j\<ge>i. bit x j)"
  then have "take_bit i x = x" by (intro bit_eqI) (metis bit_take_bit_iff not_le)
  then have "unat x < 2 ^ i" by (metis take_bit_nat_less_exp unsigned_take_bit_eq)
  moreover have "2 ^ i \<le> unat a"
  proof (rule ccontr)
    assume "\<not> 2 ^ i \<le> unat a"
    then have "take_bit i (unat a) = unat a" by (simp add: take_bit_nat_eq_self)
    then have "\<not> bit (unat a) i" by (metis bit_take_bit_iff less_irrefl)
    with assms(2) show False by (simp add: bit_unsigned_iff)
  qed
  ultimately show False using assms(1) by (simp add: word_le_nat_alt)
qed

lemma smear_keeps: "a \<le> x \<Longrightarrow> a AND smear x = a"
  by (rule bit_eqI) (auto simp: bit_and_iff bit_smear dest: below_highest_bit)

text \<open>
  An address in a module below the end of the highest one survives signing: whatever code is
  put into the bits above the address range, stripping gives the address back; and stripping
  never turns a pointer into anything but itself or an address of a module.
\<close>

theorem PtrauthStrip_signed:
  assumes "walker_modules base = Some get_module" and "get_module a \<noteq> None"
    and "a \<le> base_address m + module_size m"
  defines "w \<equiv> new_StackwalkerARM64 base (Some m)"
  shows "PtrauthStrip w (a OR (code AND NOT (address_mask w))) = a \<and>
    (\<forall>p. PtrauthStrip w p = p \<or> get_module (PtrauthStrip w p) \<noteq> None)"
proof -
  have a: "a AND address_mask w = a"
    using smear_keeps [OF assms(3)] by (simp add: w_def new_StackwalkerARM64_def address_range_mask_def)
  have "(a OR (code AND NOT (address_mask w))) AND address_mask w = a"
    using a by (simp add: bit.conj_disj_distrib2 and.assoc)
  moreover have "walker_modules (arm64_base w) = Some get_module"
    using assms(1) by (simp add: w_def new_StackwalkerARM64_def)
  ultimately show ?thesis using assms(2) by (simp add: PtrauthStrip_def Let_def)
qed

theorem PtrauthStrip_signed_witness:
  "PtrauthStrip (new_StackwalkerARM64 sample_walker (Some sample_exe)) 0x0035000000401006 = 0x401006"
proof -
  have range: "(0x401006 :: u64) \<le> base_address sample_exe + module_size sample_exe"
    by (simp add: sample_exe_def)
  have mods: "walker_modules sample_walker = Some sample_lookup" "sample_lookup 0x401006 \<noteq> None"
    by (simp_all add: sample_walker_def new_stackwalker_def sample_lookup_def)
  have "address_mask (new_StackwalkerARM64 sample_walker (Some sample_exe)) = 0x7FFFFF"
    by (simp add: new_StackwalkerARM64_def address_range_mask_def sample_exe_def smear_def)
  with PtrauthStrip_signed [OF mods range, of "0x0035000000000000"] show ?thesis by simp
qed

subsection \<open>What a walk over 64-bit ARM frames keeps\<close>

definition arm64_sp :: "StackFrameARM64 \<Rightarrow> u64" where
  "arm64_sp f = arm64_iregs (arm64_context f) ARM64_REG_SP"

lemma arm64_machine: "same_machine_state f g \<Longrightarrow> arm64_sp f = arm64_sp g"
  by (cases f; cases g) (simp add: same_machine_state_def arm64_sp_def)

lemma CorrectRegLR_keeps:
  "arm64_sp (CorrectRegLRByFramePointer w m fs f) = arm64_sp f"
  "trust (CorrectRegLRByFramePointer w m fs f) = trust f"
  by (auto simp: CorrectRegLRByFramePointer_def arm64_sp_def arm64_regs Let_def split: option.split)

lemma arm64_fp_SomeD:
  assumes "arm64_GetCallerByFramePointer w m walked_frames = (nf, lf)"
  shows "arm64_sp lf = arm64_sp (last walked_frames) \<and> trust lf = trust (last walked_frames) \<and>
    (\<forall>f. nf = Some f \<longrightarrow> trust f = FRAME_TRUST_FP)"
  using assms
  by (auto simp: arm64_GetCallerByFramePointer_def CorrectRegLR_keeps Let_def split: option.split_asm if_split_asm)

lemma arm64_new_frame_SomeD:
  assumes "arm64_new_frame w m walked_frames scan s = Some (nf, lf, s')"
  shows "arm64_sp lf = arm64_sp (last walked_frames) \<and> trust lf = trust (last walked_frames) \<and>
    (\<forall>f. nf = Some f \<longrightarrow> \<not> scan \<longrightarrow> \<not> dubious (trust f))"
proof -
  obtain cfi where cfi: "(case Symbolizer_FindCFIFrameInfo s (last walked_frames) of None \<Rightarrow> Some None
      | Some cfi \<Rightarrow> arm64_GetCallerByCFIFrameInfo m (last walked_frames) cfi) = Some cfi"
    using assms by (auto simp: arm64_new_frame_def Let_def bind_eq_Some_conv)
  have trust_cfi: "trust f = FRAME_TRUST_CFI" if "cfi = Some f" for f
    using cfi that by (auto simp: arm64_GetCallerByCFIFrameInfo_def Let_def bind_eq_Some_conv
        split: option.split_asm prod.split_asm if_split_asm)
  obtain frame l where fl: "(if cfi = None then arm64_GetCallerByFramePointer w m walked_frames
      else (cfi, last walked_frames)) = (frame, l)" by fastforce
  have l: "arm64_sp l = arm64_sp (last walked_frames) \<and> trust l = trust (last walked_frames) \<and>
      (\<forall>f. frame = Some f \<longrightarrow> \<not> dubious (trust f))"
    using fl trust_cfi by (auto simp: dubious_def split: if_split_asm dest!: arm64_fp_SomeD)
  have "lf = l \<and> (scan \<or> nf = frame)"
    using assms cfi fl by (auto simp: arm64_new_frame_def Let_def split: if_split_asm)
  with l show ?thesis by auto
qed

lemma arm64_GetCallerFrame_SomeD:
  assumes "arm64_GetCallerFrame w memory walked_frames scan s = Some (nxt, lf, s')"
  shows "arm64_sp lf = arm64_sp (last walked_frames) \<and> trust lf = trust (last walked_frames) \<and>
    (\<forall>f. nxt = Some f \<longrightarrow> above (length walked_frames = 1) (arm64_sp lf) (arm64_sp f) \<and>
       (\<not> scan \<longrightarrow> \<not> dubious (trust f)))"
proof (cases memory)
  case None
  with assms show ?thesis by (simp add: arm64_GetCallerFrame_def)
next
  case (Some m)
  obtain nf lf0 s0 where run: "arm64_new_frame w m walked_frames scan s = Some (nf, lf0, s0)"
    using assms Some by (auto simp: arm64_GetCallerFrame_def bind_eq_Some_conv)
  show ?thesis
    using assms Some run arm64_new_frame_SomeD [OF run]
    by (cases nf) (auto simp: arm64_GetCallerFrame_def arm64_sp_def Let_def dest!: accept_caller_SomeD)
qed

interpretation arm64: scan_limited_walker "arm64_base w" "arm64_GetCallerFrame w memory" arm64_sp 0
  by unfold_locales (auto dest: arm64_GetCallerFrame_SomeD arm64_machine)

lemma arm64_Walk_rising:
  assumes "arm64_Walk w memory ctx stk missing corrupt s = Some (b, stk', missing', corrupt', s')"
    and "frames stk = []"
  shows "rising (map arm64_sp (frames stk')) \<and> length (frames stk') \<le> unat (max_frames (arm64_base w)) + 1 \<and>
    dubious_frames (frames stk') \<le> unat (max_frames_scanned (arm64_base w))"
proof -
  have "\<not> dubious (trust f)" if "arm64_GetContextFrame w ctx = Some f" for f
    using that by (auto simp: arm64_GetContextFrame_def dubious_def)
  from arm64.Walk_scanned [OF assms [unfolded arm64_Walk_def] this]
    arm64.Walk_rising [OF assms [unfolded arm64_Walk_def]]
  show ?thesis by simp
qed

end
