(* ===== verification/Stackwalker_MIPS.thy ===== *)
theory Stackwalker_MIPS
  imports Stackwalker
begin

text \<open>
  \<open>StackwalkerMIPS\<close> (\<open>processor/stackwalker_mips.cc\<close>): callers from CFI rules or by
  scanning.  The code has each strategy twice, for registers of 32 and of 64 bits; where the
  two copies are alike the model has one definition for any width.
\<close>

definition MD_CONTEXT_MIPS :: u32 where "MD_CONTEXT_MIPS = 0x00040000"
definition MD_CONTEXT_MIPS64 :: u32 where "MD_CONTEXT_MIPS64 = 0x00080000"

record MDRawContextMIPS =
  mips_context_flags :: u32
  mips_iregs :: "nat \<Rightarrow> u64"
  mips_mdhi :: u64
  mips_mdlo :: u64
  mips_dsp :: "u8 list"
  mips_epc :: u64
  mips_badvaddr :: u64
  mips_status :: u32
  mips_cause :: u32
  mips_float_save :: "u8 list"

definition MIPS_REG_S0 :: nat where "MIPS_REG_S0 = 16"
definition MIPS_REG_S7 :: nat where "MIPS_REG_S7 = 23"
definition MIPS_REG_GP :: nat where "MIPS_REG_GP = 28"
definition MIPS_REG_SP :: nat where "MIPS_REG_SP = 29"
definition MIPS_REG_FP :: nat where "MIPS_REG_FP = 30"
definition MIPS_REG_RA :: nat where "MIPS_REG_RA = 31"
definition MIPS_REG_PC :: nat where "MIPS_REG_PC = 34"

lemmas mips_regs = MIPS_REG_S0_def MIPS_REG_S7_def MIPS_REG_GP_def MIPS_REG_SP_def MIPS_REG_FP_def
  MIPS_REG_RA_def MIPS_REG_PC_def

text \<open>The flags cover the saved registers only, the other registers have none.\<close>

definition mips_RegisterValidFlag :: "nat \<Rightarrow> u32" where
  "mips_RegisterValidFlag n =
     (if MIPS_REG_S0 \<le> n \<and> n \<le> MIPS_REG_S7 then push_bit (n - MIPS_REG_S0) 1
      else if MIPS_REG_GP \<le> n \<and> n \<le> MIPS_REG_RA then push_bit (n - MIPS_REG_GP + 8) 1
      else if n = MIPS_REG_PC then push_bit 12 1
      else 0)"

record StackFrameMIPS = StackFrame +
  mips_context :: MDRawContextMIPS
  mips_validity :: u32

definition new_StackFrameMIPS :: StackFrameMIPS where
  "new_StackFrameMIPS = StackFrame.extend new_StackFrame
     \<lparr>mips_context = \<lparr>mips_context_flags = 0, mips_iregs = (\<lambda>_. 0), mips_mdhi = 0, mips_mdlo = 0,
        mips_dsp = replicate 32 0, mips_epc = 0, mips_badvaddr = 0, mips_status = 0, mips_cause = 0,
        mips_float_save = replicate 264 0\<rparr>,
      mips_validity = CONTEXT_VALID_NONE\<rparr>"

text \<open>
  The constructor reads the flags of the context when there is a memory, so a missing context is
  then an error.  The check for 32 bits is computed in 64 bits, where the difference wraps.
\<close>

definition mips_memory :: "MDRawContextMIPS option \<Rightarrow> memory_region option \<Rightarrow> memory_region option run" where
  "mips_memory context memory =
     (case memory of
        None \<Rightarrow> Some None
      | Some r \<Rightarrow>
          (case context of
             None \<Rightarrow> None
           | Some c \<Rightarrow>
               let limit = (if mips_context_flags c AND MD_CONTEXT_MIPS64 \<noteq> 0
                            then 0xFFFFFFFFFFFFFFFF else 0xFFFFFFFF)
               in Some (if limit - region_base r < ucast (region_size r - 1) then None else Some r)))"

definition mips_GetContextFrame :: "MDRawContextMIPS option \<Rightarrow> StackFrameMIPS option" where
  "mips_GetContextFrame context =
     map_option (\<lambda>c. new_StackFrameMIPS\<lparr>mips_context := c, mips_validity := CONTEXT_VALID_ALL,
         trust := FRAME_TRUST_CONTEXT, instruction := mips_epc c\<rparr>) context"

subsection \<open>Callers from CFI rules\<close>

definition kRegisterNames :: "string list" where
  "kRegisterNames =
     [''$zero'', ''$at'', ''$v0'', ''$v1'', ''$a0'', ''$a1'', ''$a2'', ''$a3'', ''$to'', ''$t1'',
      ''$t2'', ''$t3'', ''$t4'', ''$t5'', ''$t6'', ''$t7'', ''$s0'', ''$s1'', ''$s2'', ''$s3'',
      ''$s4'', ''$s5'', ''$s6'', ''$s7'', ''$t8'', ''$t9'', ''$k0'', ''$k1'', ''$gp'', ''$sp'',
      ''$fp'', ''$ra'']"

text \<open>All registers of the callee, valid or not, at the width of the rules.\<close>

definition mips_callee_registers :: "(nat \<Rightarrow> u64) \<Rightarrow> (string \<rightharpoonup> 'w::len word)" where
  "mips_callee_registers iregs =
     foldl (\<lambda>m i. m(kRegisterNames ! i \<mapsto> ucast (iregs i))) Map.empty [0..<length kRegisterNames]"

text \<open>The stack pointer, return address and program counter that follow from the rules.\<close>

definition mips_caller_registers :: "(string \<rightharpoonup> 'w::len word) \<Rightarrow> (string \<rightharpoonup> 'w word)" where
  "mips_caller_registers regs =
     (let regs = (case regs ''.cfa'' of None \<Rightarrow> regs | Some v \<Rightarrow> regs(''$sp'' \<mapsto> v)) in
      case regs ''.ra'' of
        None \<Rightarrow> regs(''$pc'' \<mapsto> 0)
      | Some v \<Rightarrow> regs(''$ra'' \<mapsto> v, ''$pc'' \<mapsto> v - of_nat (2 * word_bytes TYPE('w word))))"

definition mips_callee_saves :: "bool \<Rightarrow> nat \<Rightarrow> bool" where
  "mips_callee_saves is_mips32 i =
     (MIPS_REG_S0 \<le> i \<and> i \<le> MIPS_REG_S7 \<or>
      (if is_mips32 then MIPS_REG_GP < i else MIPS_REG_GP \<le> i) \<and> i < MIPS_REG_RA)"

definition mips_recover ::
  "bool \<Rightarrow> (string \<rightharpoonup> 'w::len word) \<Rightarrow> StackFrameMIPS \<Rightarrow> (nat \<Rightarrow> u64) \<times> u32 \<Rightarrow> nat \<Rightarrow> (nat \<Rightarrow> u64) \<times> u32" where
  "mips_recover is_mips32 caller_registers last_frame state i =
     (case state of (iregs, validity) \<Rightarrow>
        (case caller_registers (kRegisterNames ! i) of
           Some v \<Rightarrow> (iregs(i := ucast v), validity OR mips_RegisterValidFlag i)
         | None \<Rightarrow>
             if mips_callee_saves is_mips32 i \<and> mips_validity last_frame AND mips_RegisterValidFlag i \<noteq> 0
             then (iregs(i := mips_iregs (mips_context last_frame) i), validity OR mips_RegisterValidFlag i)
             else (iregs, validity)))"

definition mips_cfi_frame ::
  "bool \<Rightarrow> (string \<rightharpoonup> 'w::len word) \<Rightarrow> StackFrameMIPS \<Rightarrow> StackFrameMIPS" where
  "mips_cfi_frame is_mips32 regs last_frame =
     (let caller_registers = mips_caller_registers regs;
          (iregs, validity) = foldl (mips_recover is_mips32 caller_registers last_frame) (\<lambda>_. 0, 0)
            [0..<length kRegisterNames];
          pc = ucast (dict_value caller_registers ''$pc'')
      in new_StackFrameMIPS\<lparr>
           mips_context := (mips_context new_StackFrameMIPS)\<lparr>
             mips_iregs := iregs(MIPS_REG_RA := ucast (dict_value caller_registers ''$ra'')), mips_epc := pc\<rparr>,
           instruction := pc,
           mips_validity := validity OR mips_RegisterValidFlag MIPS_REG_PC OR mips_RegisterValidFlag MIPS_REG_RA,
           trust := FRAME_TRUST_CFI\<rparr>)"

definition mips_cfi ::
  "bool \<Rightarrow> 'w::len memory \<Rightarrow> StackFrameMIPS \<Rightarrow> CFIFrameInfo \<Rightarrow> StackFrameMIPS option run" where
  "mips_cfi is_mips32 read last_frame cfi = do {
     let callee_registers = mips_callee_registers (mips_iregs (mips_context last_frame));
     (ok, regs) \<leftarrow> FindCallerRegs cfi callee_registers read callee_registers;
     Some (if ok then Some (mips_cfi_frame is_mips32 regs last_frame) else None)
   }"

definition mips_GetCallerByCFIFrameInfo ::
  "MDRawContextMIPS \<Rightarrow> memory_region \<Rightarrow> StackFrameMIPS \<Rightarrow> CFIFrameInfo \<Rightarrow> StackFrameMIPS option run" where
  "mips_GetCallerByCFIFrameInfo context memory last_frame cfi =
     (if mips_context_flags context AND MD_CONTEXT_MIPS \<noteq> 0
      then mips_cfi True (read_u32 memory) last_frame cfi
      else mips_cfi False (read_u64 memory) last_frame cfi)"

subsection \<open>Callers by scanning\<close>

definition kMaxFrameStackSize :: nat where "kMaxFrameStackSize = 1024"
definition kMinArgsOnStack :: nat where "kMinArgsOnStack = 4"

text \<open>
  The scan is repeated until the word below the return address looks like a frame pointer.  The
  count is an \<open>int\<close>, whose new value is computed in 64 bits and cut to 32.
\<close>

partial_function (option) mips_scan ::
  "stackwalker \<Rightarrow> 'w::len memory \<Rightarrow> 'w word \<Rightarrow> int \<Rightarrow> symbolizer \<Rightarrow>
     (('w word \<times> 'w word \<times> 'w word \<times> int) option \<times> symbolizer) run" where
  "mips_scan w read last_sp count s =
     (case ScanForReturnAddress w read last_sp (nat count) s of
        None \<Rightarrow> None
      | Some (None, s) \<Rightarrow> Some (None, s)
      | Some (Some (caller_sp, caller_pc), s) \<Rightarrow>
          (case read (ucast caller_sp - of_nat (word_bytes TYPE('w word))) of
             None \<Rightarrow> Some (None, s)
           | Some caller_fp \<Rightarrow>
               (let words = unat (caller_sp - last_sp) div word_bytes TYPE('w word);
                    new_count = sint (word_of_int (count - int words) :: 32 word) in
                if kMaxFrameStackSize \<le> unat (caller_fp - caller_sp) \<and> 0 < new_count
                then mips_scan w read (caller_sp + of_nat (word_bytes TYPE('w word))) new_count s
                else Some (Some (caller_sp, caller_pc, caller_fp, new_count), s))))"

definition mips_scanned_frame ::
  "StackFrameMIPS \<Rightarrow> 'w::len word \<Rightarrow> 'w word \<Rightarrow> 'w word \<Rightarrow> StackFrameMIPS" where
  "mips_scanned_frame last_frame caller_sp caller_pc caller_fp =
     (let bytes = word_bytes TYPE('w word);
          caller_sp = caller_sp + of_nat bytes; caller_pc = caller_pc - of_nat (2 * bytes);
          c = mips_context last_frame
      in new_StackFrameMIPS\<lparr>trust := FRAME_TRUST_SCAN,
           mips_context := c\<lparr>mips_epc := ucast caller_pc,
             mips_iregs := (mips_iregs c)(MIPS_REG_SP := ucast caller_sp, MIPS_REG_FP := ucast caller_fp,
               MIPS_REG_RA := ucast caller_pc + of_nat (2 * bytes))\<rparr>,
           instruction := ucast caller_pc,
           mips_validity := mips_RegisterValidFlag MIPS_REG_PC OR mips_RegisterValidFlag MIPS_REG_SP OR
             mips_RegisterValidFlag MIPS_REG_FP OR mips_RegisterValidFlag MIPS_REG_RA\<rparr>)"

definition mips_scan_frame ::
  "stackwalker \<Rightarrow> 'w::len memory \<Rightarrow> 'w word \<Rightarrow> nat \<Rightarrow> StackFrameMIPS \<Rightarrow> symbolizer \<Rightarrow>
     (StackFrameMIPS option \<times> symbolizer) run" where
  "mips_scan_frame w read last_sp count last_frame s = do {
     (found, s) \<leftarrow> mips_scan w read last_sp (int count) s;
     Some (case found of
             None \<Rightarrow> None
           | Some (caller_sp, caller_pc, caller_fp, count) \<Rightarrow>
               if count = 0 then None
               else Some (mips_scanned_frame last_frame caller_sp caller_pc caller_fp), s)
   }"

definition mips_GetCallerByStackScan ::
  "stackwalker \<Rightarrow> MDRawContextMIPS \<Rightarrow> memory_region \<Rightarrow> StackFrameMIPS list \<Rightarrow> symbolizer \<Rightarrow>
     (StackFrameMIPS option \<times> symbolizer) run" where
  "mips_GetCallerByStackScan w context memory walked_frames s =
     (let last_frame = last walked_frames; sp = mips_iregs (mips_context last_frame) MIPS_REG_SP in
      if mips_context_flags context AND MD_CONTEXT_MIPS \<noteq> 0 then
        let last_sp = ucast sp :: u32; count = kMaxFrameStackSize div 4;
            (last_sp, count) = (if 1 < length walked_frames
                                then (last_sp + of_nat (kMinArgsOnStack * 4), count - kMinArgsOnStack)
                                else (last_sp, count))
        in mips_scan_frame w (read_u32 memory) last_sp count last_frame s
      else mips_scan_frame w (read_u64 memory) sp (kMaxFrameStackSize div 8) last_frame s)"

definition mips_new_frame ::
  "stackwalker \<Rightarrow> MDRawContextMIPS \<Rightarrow> memory_region \<Rightarrow> StackFrameMIPS list \<Rightarrow> bool \<Rightarrow> symbolizer \<Rightarrow>
     (StackFrameMIPS option \<times> symbolizer) run" where
  "mips_new_frame w context memory walked_frames stack_scan_allowed s = do {
     let last_frame = last walked_frames;
     new_frame \<leftarrow> (case Symbolizer_FindCFIFrameInfo s last_frame of
                     None \<Rightarrow> Some None
                   | Some cfi \<Rightarrow> mips_GetCallerByCFIFrameInfo context memory last_frame cfi);
     (if stack_scan_allowed \<and> new_frame = None
      then mips_GetCallerByStackScan w context memory walked_frames s
      else Some (new_frame, s))
   }"

definition mips_GetCallerFrame ::
  "stackwalker \<Rightarrow> MDRawContextMIPS \<Rightarrow> memory_region option \<Rightarrow> StackFrameMIPS caller_of" where
  "mips_GetCallerFrame w context memory walked_frames stack_scan_allowed s =
     (case memory of
        None \<Rightarrow> Some (None, last walked_frames, s)
      | Some memory \<Rightarrow> do {
          let last_frame = last walked_frames;
          (new_frame, s) \<leftarrow> mips_new_frame w context memory walked_frames stack_scan_allowed s;
          (case new_frame of
             None \<Rightarrow> Some (None, last_frame, s)
           | Some f \<Rightarrow>
               Some (accept_caller (mips_epc (mips_context f)) (mips_iregs (mips_context f) MIPS_REG_SP)
                       (mips_iregs (mips_context last_frame) MIPS_REG_SP) (length walked_frames = 1)
                       (instruction f) f, last_frame, s))
        })"

text \<open>Without a context there is no context frame, and no caller is asked for.\<close>

definition mips_Walk ::
  "stackwalker \<Rightarrow> memory_region option \<Rightarrow> MDRawContextMIPS option \<Rightarrow> StackFrameMIPS call_stack \<Rightarrow>
     CodeModule list \<Rightarrow> CodeModule list \<Rightarrow> symbolizer \<Rightarrow>
     (bool \<times> StackFrameMIPS call_stack \<times> CodeModule list \<times> CodeModule list \<times> symbolizer) run" where
  "mips_Walk w memory context stk missing corrupt s = do {
     memory \<leftarrow> mips_memory context memory;
     Walk w (case context of None \<Rightarrow> (\<lambda>fs _ s. Some (None, last fs, s))
                           | Some c \<Rightarrow> mips_GetCallerFrame w c memory)
       (mips_GetContextFrame context) stk missing corrupt s
   }"

subsection \<open>What a walk over MIPS frames keeps\<close>

definition mips_sp :: "StackFrameMIPS \<Rightarrow> u64" where
  "mips_sp f = mips_iregs (mips_context f) MIPS_REG_SP"

lemma mips_machine: "same_machine_state f g \<Longrightarrow> mips_sp f = mips_sp g"
  by (cases f; cases g) (simp add: same_machine_state_def mips_sp_def)

lemma mips_cfi_trust:
  "mips_cfi b (read :: 'w::len memory) lf cfi = Some (Some f) \<Longrightarrow> trust f = FRAME_TRUST_CFI"
  by (auto simp: mips_cfi_def mips_cfi_frame_def Let_def bind_eq_Some_conv split: if_split_asm prod.split_asm)

lemma mips_new_frame_unscanned:
  assumes "mips_new_frame w c m walked_frames False s = Some (Some f, s')"
  shows "\<not> dubious (trust f)"
  using assms
  by (auto simp: mips_new_frame_def mips_GetCallerByCFIFrameInfo_def bind_eq_Some_conv Let_def dubious_def
      split: option.split_asm if_split_asm dest!: mips_cfi_trust)

lemma mips_GetCallerFrame_SomeD:
  assumes "mips_GetCallerFrame w c memory walked_frames scan s = Some (nxt, lf, s')"
  shows "lf = last walked_frames \<and>
    (\<forall>f. nxt = Some f \<longrightarrow> above (length walked_frames = 1) (mips_sp lf) (mips_sp f) \<and>
       (\<not> scan \<longrightarrow> \<not> dubious (trust f)))"
proof (cases memory)
  case None
  with assms show ?thesis by (simp add: mips_GetCallerFrame_def)
next
  case (Some m)
  obtain nf s0 where run: "mips_new_frame w c m walked_frames scan s = Some (nf, s0)"
    using assms Some by (auto simp: mips_GetCallerFrame_def Let_def bind_eq_Some_conv)
  have unscanned: "\<not> dubious (trust f)" if "\<not> scan" "nf = Some f" for f
    using mips_new_frame_unscanned [of w c m walked_frames s f s0] run that by simp
  show ?thesis
    using assms Some run unscanned
    by (cases nf) (auto simp: mips_GetCallerFrame_def mips_sp_def Let_def dest!: accept_caller_SomeD)
qed

interpretation mips: scan_limited_walker w "mips_GetCallerFrame w c memory" mips_sp 0
  by unfold_locales (auto dest: mips_GetCallerFrame_SomeD mips_machine)

lemma mips_Walk_rising:
  assumes "mips_Walk w memory ctx stk missing corrupt s = Some (b, stk', missing', corrupt', s')"
    and "frames stk = []"
  shows "rising (map mips_sp (frames stk')) \<and> length (frames stk') \<le> unat (max_frames w) + 1 \<and>
    dubious_frames (frames stk') \<le> unat (max_frames_scanned w)"
proof (cases ctx)
  case None
  with assms have "frames stk' = []"
    by (auto simp: mips_Walk_def mips_GetContextFrame_def Walk_def CallStack_Clear_def bind_eq_Some_conv
        walk_loop.simps [where frame = None])
  then show ?thesis by (simp add: rising_def dubious_frames_def)
next
  case (Some c)
  obtain memory' where run: "Walk w (mips_GetCallerFrame w c memory') (mips_GetContextFrame ctx) stk missing corrupt s =
      Some (b, stk', missing', corrupt', s')"
    using assms(1) Some by (auto simp: mips_Walk_def bind_eq_Some_conv)
  have "\<not> dubious (trust f)" if "mips_GetContextFrame ctx = Some f" for f
    using that by (auto simp: mips_GetContextFrame_def dubious_def)
  from mips.Walk_scanned [OF run assms(2) this] mips.Walk_rising [OF run assms(2)]
  show ?thesis by simp
qed

subsection \<open>What CFI recovers\<close>

lemma mips_fold_recover:
  assumes "foldl (mips_recover b regs lf) (iregs, validity) js = (iregs', validity')" and "distinct js"
  shows "iregs' i = (if i \<notin> set js then iregs i else case regs (kRegisterNames ! i) of Some v \<Rightarrow> ucast v
    | None \<Rightarrow> if mips_callee_saves b i \<and> mips_validity lf AND mips_RegisterValidFlag i \<noteq> 0
              then mips_iregs (mips_context lf) i else iregs i)"
  using assms
proof (induction js arbitrary: iregs validity)
  case (Cons j js)
  obtain iregs1 validity1 where step: "mips_recover b regs lf (iregs, validity) j = (iregs1, validity1)" by fastforce
  then have one: "iregs1 k = (if k \<noteq> j then iregs k else case regs (kRegisterNames ! j) of Some v \<Rightarrow> ucast v
    | None \<Rightarrow> if mips_callee_saves b j \<and> mips_validity lf AND mips_RegisterValidFlag j \<noteq> 0
              then mips_iregs (mips_context lf) j else iregs j)" for k
    by (auto simp: mips_recover_def split: option.split_asm if_split_asm)
  have "iregs' i = (if i \<notin> set js then iregs1 i else case regs (kRegisterNames ! i) of Some v \<Rightarrow> ucast v
    | None \<Rightarrow> if mips_callee_saves b i \<and> mips_validity lf AND mips_RegisterValidFlag i \<noteq> 0
              then mips_iregs (mips_context lf) i else iregs1 i)"
    using Cons.IH [of iregs1 validity1] Cons.prems step by simp
  with Cons.prems(2) show ?case
    by (cases "i = j"; cases "regs (kRegisterNames ! i)") (simp_all add: one)
qed simp

lemma kRegisterNames_facts:
  "length kRegisterNames = 32" "kRegisterNames ! 29 = ''$sp''" "kRegisterNames ! 31 = ''$ra''"
  "distinct kRegisterNames" "''.ra'' \<notin> set kRegisterNames" "''.cfa'' \<notin> set kRegisterNames"
  "''$pc'' \<notin> set kRegisterNames"
  by (simp_all add: kRegisterNames_def)

text \<open>
  The frame CFI rules give: the program counter lies two words, not two instructions, before the
  return address; the stack pointer is the frame address; the other registers come from their
  rules, or from a callee that saves them.
\<close>

lemma mips_cfi_frame_correct:
  fixes regs :: "string \<rightharpoonup> 'w::len word"
  assumes "regs ''.ra'' = Some ra" and "regs ''.cfa'' = Some cfa" and f_def: "f = mips_cfi_frame b regs lf"
  shows "instruction f = ucast (ra - of_nat (2 * word_bytes TYPE('w word)))" "mips_epc (mips_context f) = instruction f"
    "mips_iregs (mips_context f) MIPS_REG_RA = ucast ra" "mips_sp f = ucast cfa"
    "i < 32 \<Longrightarrow> i \<notin> {MIPS_REG_SP, MIPS_REG_RA} \<Longrightarrow> mips_iregs (mips_context f) i =
      (case regs (kRegisterNames ! i) of Some v \<Rightarrow> ucast v
       | None \<Rightarrow> if mips_callee_saves b i \<and> mips_validity lf AND mips_RegisterValidFlag i \<noteq> 0
                 then mips_iregs (mips_context lf) i else 0)"
proof -
  let ?regs = "mips_caller_registers regs"
  have caller: "?regs = regs(''$sp'' \<mapsto> cfa, ''$ra'' \<mapsto> ra,
      ''$pc'' \<mapsto> ra - of_nat (2 * word_bytes TYPE('w word)))"
    using assms(1,2) by (simp add: mips_caller_registers_def)
  obtain iregs validity where fold: "foldl (mips_recover b ?regs lf) (\<lambda>_. 0, 0) [0..<length kRegisterNames] =
      (iregs, validity)" by fastforce
  have f: "instruction f = ucast (dict_value ?regs ''$pc'')" "mips_epc (mips_context f) = instruction f"
    "mips_iregs (mips_context f) = iregs(MIPS_REG_RA := ucast (dict_value ?regs ''$ra''))"
    by (simp_all add: f_def mips_cfi_frame_def fold Let_def)
  note rec = mips_fold_recover [OF fold distinct_upt]
  show "instruction f = ucast (ra - of_nat (2 * word_bytes TYPE('w word)))" "mips_epc (mips_context f) = instruction f"
    "mips_iregs (mips_context f) MIPS_REG_RA = ucast ra"
    by (simp_all add: f dict_value_def caller)
  have "iregs 29 = ucast cfa" using rec [of 29] by (simp add: kRegisterNames_facts caller)
  then show "mips_sp f = ucast cfa" by (simp add: mips_sp_def f mips_regs)
  assume i: "i < 32" "i \<notin> {MIPS_REG_SP, MIPS_REG_RA}"
  have "kRegisterNames ! i \<noteq> ''$pc''"
    using nth_mem [of i kRegisterNames] i(1) kRegisterNames_facts(1,7) by metis
  moreover have "kRegisterNames ! i \<noteq> ''$sp''" "kRegisterNames ! i \<noteq> ''$ra''"
    using i nth_eq_iff_index_eq [OF kRegisterNames_facts(4), of i 29] nth_eq_iff_index_eq [OF kRegisterNames_facts(4), of i 31]
      kRegisterNames_facts by (auto simp: mips_regs)
  ultimately show "mips_iregs (mips_context f) i =
      (case regs (kRegisterNames ! i) of Some v \<Rightarrow> ucast v
       | None \<Rightarrow> if mips_callee_saves b i \<and> mips_validity lf AND mips_RegisterValidFlag i \<noteq> 0
                 then mips_iregs (mips_context lf) i else 0)"
    using i rec [of i] by (simp add: f caller kRegisterNames_facts)
qed

lemma FindCallerRegs_defines:
  "FindCallerRegs cfi regs0 m m0 = Some (True, regs) \<Longrightarrow> regs ''.ra'' \<noteq> None \<and> regs ''.cfa'' \<noteq> None"
  by (auto simp: FindCallerRegs_def bind_eq_Some_conv split: if_split_asm option.split_asm)

text \<open>
  The caller CFI rules give a MIPS frame: with 32-bit registers its instruction is 8 bytes
  before the return address, two instructions; with 64-bit registers it is 16 bytes before,
  four instructions.  Its stack pointer is the frame address and its return address register
  the return address of the rules.
\<close>

theorem mips_CFI_caller:
  assumes "mips_GetCallerByCFIFrameInfo c m last_frame cfi = Some (Some f)"
  shows "if mips_context_flags c AND MD_CONTEXT_MIPS \<noteq> 0
    then \<exists>regs ra cfa. FindCallerRegs cfi (mips_callee_registers (mips_iregs (mips_context last_frame)))
        (read_u32 m) (mips_callee_registers (mips_iregs (mips_context last_frame))) =
        Some (True, regs) \<and> regs ''.ra'' = Some ra \<and> regs ''.cfa'' = Some cfa \<and>
      instruction f = ucast (ra - 8) \<and> mips_iregs (mips_context f) MIPS_REG_RA = ucast ra \<and> mips_sp f = ucast cfa
    else \<exists>regs ra cfa. FindCallerRegs cfi (mips_callee_registers (mips_iregs (mips_context last_frame)))
        (read_u64 m) (mips_callee_registers (mips_iregs (mips_context last_frame))) =
        Some (True, regs) \<and> regs ''.ra'' = Some ra \<and> regs ''.cfa'' = Some cfa \<and>
      instruction f = ra - 16 \<and> mips_iregs (mips_context f) MIPS_REG_RA = ra \<and> mips_sp f = cfa"
proof (cases "mips_context_flags c AND MD_CONTEXT_MIPS \<noteq> 0")
  case True
  then obtain regs where regs: "FindCallerRegs cfi (mips_callee_registers (mips_iregs (mips_context last_frame)))
      (read_u32 m) (mips_callee_registers (mips_iregs (mips_context last_frame))) =
        Some (True, regs)" "f = mips_cfi_frame True regs last_frame"
    using assms by (auto simp: mips_GetCallerByCFIFrameInfo_def mips_cfi_def Let_def bind_eq_Some_conv split: if_split_asm)
  from FindCallerRegs_defines [OF regs(1)] obtain ra cfa where "regs ''.ra'' = Some ra" "regs ''.cfa'' = Some cfa"
    by blast
  with True regs mips_cfi_frame_correct [OF this regs(2)] show ?thesis
    by (simp add: word_bytes_def)
next
  case False
  then obtain regs where regs: "FindCallerRegs cfi (mips_callee_registers (mips_iregs (mips_context last_frame)))
      (read_u64 m) (mips_callee_registers (mips_iregs (mips_context last_frame))) =
        Some (True, regs)" "f = mips_cfi_frame False regs last_frame"
    using assms by (auto simp: mips_GetCallerByCFIFrameInfo_def mips_cfi_def Let_def bind_eq_Some_conv split: if_split_asm)
  from FindCallerRegs_defines [OF regs(1)] obtain ra cfa where "regs ''.ra'' = Some ra" "regs ''.cfa'' = Some cfa"
    by blast
  with False regs mips_cfi_frame_correct [OF this regs(2)] show ?thesis
    by (simp add: word_bytes_def)
qed

definition sample_mips_context :: MDRawContextMIPS where
  "sample_mips_context = (mips_context new_StackFrameMIPS)\<lparr>mips_context_flags := MD_CONTEXT_MIPS64,
     mips_iregs := (\<lambda>_. 0x1000)\<rparr>"

definition sample_mips_frame :: StackFrameMIPS where
  "sample_mips_frame = new_StackFrameMIPS\<lparr>mips_context := sample_mips_context\<rparr>"

definition sample_mips_cfi :: CFIFrameInfo where
  "sample_mips_cfi = \<lparr>cfa_rule = ''$sp 16 +'', ra_rule = ''.cfa 8 - ^'', register_rules = []\<rparr>"

definition sample_mips_region :: memory_region where
  "sample_mips_region = \<lparr>region_base = 0x1000, region_size = 0x10, read_u32 = (\<lambda>_. None),
     read_u64 = (\<lambda>a. if a = 0x1008 then Some 0x401020 else None)\<rparr>"

theorem mips_CFI_caller_witness:
  "\<exists>f. mips_GetCallerByCFIFrameInfo sample_mips_context sample_mips_region sample_mips_frame sample_mips_cfi =
      Some (Some f) \<and>
    instruction f = 0x401010 \<and> mips_iregs (mips_context f) MIPS_REG_RA = 0x401020 \<and> mips_sp f = 0x1010"
proof -
  let ?regs = "mips_callee_registers (mips_iregs (mips_context sample_mips_frame)) :: string \<rightharpoonup> u64"
  have idx: "[0..<length kRegisterNames] = [0, 1, 2, 3, 4, 5, 6, 7, 8, 9, 10, 11, 12, 13, 14, 15, 16, 17, 18,
      19, 20, 21, 22, 23, 24, 25, 26, 27, 28, 29, 30, 31]"
    unfolding kRegisterNames_facts(1) by (simp add: upt_conv_Cons)
  have sp: "?regs ''$sp'' = Some 0x1000"
    unfolding mips_callee_registers_def idx
    by (simp add: kRegisterNames_def sample_mips_frame_def sample_mips_context_def)
  have other: "?regs ''16'' = None" "?regs ''8'' = None" "?regs ''.cfa'' = None"
    unfolding mips_callee_registers_def idx by (simp_all add: kRegisterNames_def)
  have found: "FindCallerRegs sample_mips_cfi ?regs (read_u64 sample_mips_region) ?regs =
      Some (True, [''.ra'' \<mapsto> 0x401020, ''.cfa'' \<mapsto> 0x1010])"
    using sp other
    by (simp add: FindCallerRegs_def sample_mips_cfi_def EvaluateForValue_def EvaluateInternal_def evaluator_eval
        PopValue_def sample_mips_region_def text_eval)
  have flags: "mips_context_flags sample_mips_context AND MD_CONTEXT_MIPS = 0"
    by (simp add: sample_mips_context_def MD_CONTEXT_MIPS_def MD_CONTEXT_MIPS64_def)
  then obtain f where f: "mips_GetCallerByCFIFrameInfo sample_mips_context sample_mips_region sample_mips_frame
      sample_mips_cfi = Some (Some f)"
    by (simp add: mips_GetCallerByCFIFrameInfo_def mips_cfi_def found Let_def)
  from mips_CFI_caller [OF f] f found flags show ?thesis by (auto simp: fun_upd_def)
qed

end
