(* ===== verification/Dump_Context.thy ===== *)
theory Dump_Context
  imports Stackwalker_X86 Stackwalker_AMD64 Stackwalker_Chain Stackwalker_ARM64 Stackwalker_MIPS
begin

text \<open>
  \<open>DumpContext\<close> (\<open>processor/dump_context.cc\<close>): the raw context of a thread, a union
  read by the processor bits of its flags.  Reading a member of the union other than the one that
  was stored, or through a null pointer, is the value \<open>None\<close>.
\<close>

definition MD_CONTEXT_CPU_MASK :: u32 where "MD_CONTEXT_CPU_MASK = 0xFFFFFF00"
definition MD_CONTEXT_X86 :: u32 where "MD_CONTEXT_X86 = 0x00010000"
definition MD_CONTEXT_PPC :: u32 where "MD_CONTEXT_PPC = 0x20000000"
definition MD_CONTEXT_PPC64 :: u32 where "MD_CONTEXT_PPC64 = 0x01000000"
definition MD_CONTEXT_AMD64 :: u32 where "MD_CONTEXT_AMD64 = 0x00100000"
definition MD_CONTEXT_SPARC :: u32 where "MD_CONTEXT_SPARC = 0x10000000"
definition MD_CONTEXT_ARM :: u32 where "MD_CONTEXT_ARM = 0x40000000"
definition MD_CONTEXT_ARM64 :: u32 where "MD_CONTEXT_ARM64 = 0x00400000"

lemmas cpu_constants = MD_CONTEXT_X86_def MD_CONTEXT_PPC_def MD_CONTEXT_PPC64_def MD_CONTEXT_AMD64_def
  MD_CONTEXT_SPARC_def MD_CONTEXT_ARM_def MD_CONTEXT_ARM64_def MD_CONTEXT_MIPS_def MD_CONTEXT_MIPS64_def

text \<open>The union of pointers; all its members are null at first.\<close>

datatype raw_context = No_context
  | X86_context MDRawContextX86
  | PPC_context MDRawContextPPC
  | PPC64_context MDRawContextPPC64
  | AMD64_context MDRawContextAMD64
  | SPARC_context MDRawContextSPARC
  | ARM_context MDRawContextARM
  | ARM64_context MDRawContextARM64
  | MIPS_context MDRawContextMIPS

record dump_context =
  dc_valid :: bool
  dc_context :: raw_context
  dc_flags :: u32

definition new_DumpContext :: dump_context where
  "new_DumpContext = \<lparr>dc_valid = False, dc_context = No_context, dc_flags = 0\<rparr>"

definition GetContextCPU :: "dump_context \<Rightarrow> u32" where
  "GetContextCPU dc = (if \<not> dc_valid dc then 0 else dc_flags dc AND MD_CONTEXT_CPU_MASK)"

definition GetContextX86 :: "dump_context \<Rightarrow> MDRawContextX86 option run" where
  "GetContextX86 dc =
     (if GetContextCPU dc \<noteq> MD_CONTEXT_X86 then Some None
      else case dc_context dc of No_context \<Rightarrow> Some None | X86_context c \<Rightarrow> Some (Some c) | _ \<Rightarrow> None)"

definition GetContextPPC :: "dump_context \<Rightarrow> MDRawContextPPC option run" where
  "GetContextPPC dc =
     (if GetContextCPU dc \<noteq> MD_CONTEXT_PPC then Some None
      else case dc_context dc of No_context \<Rightarrow> Some None | PPC_context c \<Rightarrow> Some (Some c) | _ \<Rightarrow> None)"

definition GetContextPPC64 :: "dump_context \<Rightarrow> MDRawContextPPC64 option run" where
  "GetContextPPC64 dc =
     (if GetContextCPU dc \<noteq> MD_CONTEXT_PPC64 then Some None
      else case dc_context dc of No_context \<Rightarrow> Some None | PPC64_context c \<Rightarrow> Some (Some c) | _ \<Rightarrow> None)"

definition GetContextAMD64 :: "dump_context \<Rightarrow> MDRawContextAMD64 option run" where
  "GetContextAMD64 dc =
     (if GetContextCPU dc \<noteq> MD_CONTEXT_AMD64 then Some None
      else case dc_context dc of No_context \<Rightarrow> Some None | AMD64_context c \<Rightarrow> Some (Some c) | _ \<Rightarrow> None)"

definition GetContextSPARC :: "dump_context \<Rightarrow> MDRawContextSPARC option run" where
  "GetContextSPARC dc =
     (if GetContextCPU dc \<noteq> MD_CONTEXT_SPARC then Some None
      else case dc_context dc of No_context \<Rightarrow> Some None | SPARC_context c \<Rightarrow> Some (Some c) | _ \<Rightarrow> None)"

definition GetContextARM :: "dump_context \<Rightarrow> MDRawContextARM option run" where
  "GetContextARM dc =
     (if GetContextCPU dc \<noteq> MD_CONTEXT_ARM then Some None
      else case dc_context dc of No_context \<Rightarrow> Some None | ARM_context c \<Rightarrow> Some (Some c) | _ \<Rightarrow> None)"

definition GetContextARM64 :: "dump_context \<Rightarrow> MDRawContextARM64 option run" where
  "GetContextARM64 dc =
     (if GetContextCPU dc \<noteq> MD_CONTEXT_ARM64 then Some None
      else case dc_context dc of No_context \<Rightarrow> Some None | ARM64_context c \<Rightarrow> Some (Some c) | _ \<Rightarrow> None)"

definition GetContextMIPS :: "dump_context \<Rightarrow> MDRawContextMIPS option run" where
  "GetContextMIPS dc =
     (if GetContextCPU dc \<noteq> MD_CONTEXT_MIPS \<and> GetContextCPU dc \<noteq> MD_CONTEXT_MIPS64 then Some None
      else case dc_context dc of No_context \<Rightarrow> Some None | MIPS_context c \<Rightarrow> Some (Some c) | _ \<Rightarrow> None)"

text \<open>Reading a field of a context: a null pointer is an error.\<close>

definition context_field :: "'c option run \<Rightarrow> ('c \<Rightarrow> u64) \<Rightarrow> (bool \<times> u64) run" where
  "context_field context field =
     (case context of Some (Some c) \<Rightarrow> Some (True, field c) | _ \<Rightarrow> None)"

definition GetInstructionPointer :: "dump_context \<Rightarrow> (bool \<times> u64) run" where
  "GetInstructionPointer dc =
     (if \<not> dc_valid dc then Some (False, 0)
      else let cpu = GetContextCPU dc in
      if cpu = MD_CONTEXT_AMD64 then context_field (GetContextAMD64 dc) rip else
      if cpu = MD_CONTEXT_ARM then context_field (GetContextARM dc) (\<lambda>c. ucast (arm_iregs c ARM_REG_PC)) else
      if cpu = MD_CONTEXT_ARM64 then context_field (GetContextARM64 dc) (\<lambda>c. arm64_iregs c ARM64_REG_PC) else
      if cpu = MD_CONTEXT_PPC then context_field (GetContextPPC dc) (\<lambda>c. ucast (ppc_srr0 c)) else
      if cpu = MD_CONTEXT_PPC64 then context_field (GetContextPPC64 dc) ppc64_srr0 else
      if cpu = MD_CONTEXT_SPARC then context_field (GetContextSPARC dc) sparc_pc else
      if cpu = MD_CONTEXT_X86 then context_field (GetContextX86 dc) (\<lambda>c. ucast (eip c)) else
      if cpu = MD_CONTEXT_MIPS \<or> cpu = MD_CONTEXT_MIPS64 then context_field (GetContextMIPS dc) mips_epc else
      Some (False, 0))"

definition GetStackPointer :: "dump_context \<Rightarrow> (bool \<times> u64) run" where
  "GetStackPointer dc =
     (if \<not> dc_valid dc then Some (False, 0)
      else let cpu = GetContextCPU dc in
      if cpu = MD_CONTEXT_AMD64 then context_field (GetContextAMD64 dc) rsp else
      if cpu = MD_CONTEXT_ARM then context_field (GetContextARM dc) (\<lambda>c. ucast (arm_iregs c ARM_REG_SP)) else
      if cpu = MD_CONTEXT_ARM64 then context_field (GetContextARM64 dc) (\<lambda>c. arm64_iregs c ARM64_REG_SP) else
      if cpu = MD_CONTEXT_PPC then context_field (GetContextPPC dc) (\<lambda>c. ucast (ppc_gpr c 1)) else
      if cpu = MD_CONTEXT_PPC64 then context_field (GetContextPPC64 dc) (\<lambda>c. ppc64_gpr c 1) else
      if cpu = MD_CONTEXT_SPARC then context_field (GetContextSPARC dc) (\<lambda>c. g_r c 14) else
      if cpu = MD_CONTEXT_X86 then context_field (GetContextX86 dc) (\<lambda>c. ucast (esp c)) else
      if cpu = MD_CONTEXT_MIPS \<or> cpu = MD_CONTEXT_MIPS64 then context_field (GetContextMIPS dc) (\<lambda>c. mips_iregs c MIPS_REG_SP) else
      Some (False, 0))"

definition SetContextFlags :: "u32 \<Rightarrow> dump_context \<Rightarrow> dump_context" where
  "SetContextFlags flags dc = dc\<lparr>dc_flags := flags\<rparr>"

definition SetContextX86 :: "MDRawContextX86 \<Rightarrow> dump_context \<Rightarrow> dump_context" where
  "SetContextX86 c dc = dc\<lparr>dc_context := X86_context c\<rparr>"

definition SetContextPPC :: "MDRawContextPPC \<Rightarrow> dump_context \<Rightarrow> dump_context" where
  "SetContextPPC c dc = dc\<lparr>dc_context := PPC_context c\<rparr>"

definition SetContextPPC64 :: "MDRawContextPPC64 \<Rightarrow> dump_context \<Rightarrow> dump_context" where
  "SetContextPPC64 c dc = dc\<lparr>dc_context := PPC64_context c\<rparr>"

definition SetContextAMD64 :: "MDRawContextAMD64 \<Rightarrow> dump_context \<Rightarrow> dump_context" where
  "SetContextAMD64 c dc = dc\<lparr>dc_context := AMD64_context c\<rparr>"

definition SetContextSPARC :: "MDRawContextSPARC \<Rightarrow> dump_context \<Rightarrow> dump_context" where
  "SetContextSPARC c dc = dc\<lparr>dc_context := SPARC_context c\<rparr>"

definition SetContextARM :: "MDRawContextARM \<Rightarrow> dump_context \<Rightarrow> dump_context" where
  "SetContextARM c dc = dc\<lparr>dc_context := ARM_context c\<rparr>"

definition SetContextARM64 :: "MDRawContextARM64 \<Rightarrow> dump_context \<Rightarrow> dump_context" where
  "SetContextARM64 c dc = dc\<lparr>dc_context := ARM64_context c\<rparr>"

definition SetContextMIPS :: "MDRawContextMIPS \<Rightarrow> dump_context \<Rightarrow> dump_context" where
  "SetContextMIPS c dc = dc\<lparr>dc_context := MIPS_context c\<rparr>"

definition FreeContext :: "dump_context \<Rightarrow> dump_context" where
  "FreeContext dc = dc\<lparr>dc_flags := 0, dc_context := No_context\<rparr>"

text \<open>A context is consistent when its flags name the member of the union that is stored.\<close>

fun stored_cpus :: "raw_context \<Rightarrow> u32 set" where
  "stored_cpus No_context = {}"
| "stored_cpus (X86_context _) = {MD_CONTEXT_X86}"
| "stored_cpus (PPC_context _) = {MD_CONTEXT_PPC}"
| "stored_cpus (PPC64_context _) = {MD_CONTEXT_PPC64}"
| "stored_cpus (AMD64_context _) = {MD_CONTEXT_AMD64}"
| "stored_cpus (SPARC_context _) = {MD_CONTEXT_SPARC}"
| "stored_cpus (ARM_context _) = {MD_CONTEXT_ARM}"
| "stored_cpus (ARM64_context _) = {MD_CONTEXT_ARM64}"
| "stored_cpus (MIPS_context _) = {MD_CONTEXT_MIPS, MD_CONTEXT_MIPS64}"

definition dump_context_ok :: "dump_context \<Rightarrow> bool" where
  "dump_context_ok dc = (dc_valid dc \<longrightarrow> GetContextCPU dc \<in> stored_cpus (dc_context dc))"

lemma pointers_defined:
  assumes "dump_context_ok dc"
  shows "\<exists>ip. GetInstructionPointer dc = Some (dc_valid dc, ip)" "\<exists>sp. GetStackPointer dc = Some (dc_valid dc, sp)"
  using assms
  by (cases "dc_context dc";
      auto simp: dump_context_ok_def GetInstructionPointer_def GetStackPointer_def context_field_def cpu_constants
        GetContextX86_def GetContextPPC_def GetContextPPC64_def GetContextAMD64_def GetContextSPARC_def
        GetContextARM_def GetContextARM64_def GetContextMIPS_def Let_def)+

end
