(* ===== verification/Stackwalker_CPU.thy ===== *)
theory Stackwalker_CPU
  imports Dump_Context
begin

text \<open>
  The factory \<open>StackwalkerForCPU\<close> (\<open>processor/stackwalker.cc\<close>): it picks the walker
  of the processor a context belongs to.  A walker is a value of a sum type that holds what its
  constructor was given; its walk yields the frames of its processor.  The last section shows
  what holds whichever walker is picked.
\<close>

record SystemInfo =
  os :: string
  os_short :: string
  os_version :: string
  cpu :: string
  cpu_info :: string
  cpu_count :: int
  gl_version :: string
  gl_vendor :: string
  gl_renderer :: string

definition SystemInfo_Clear :: SystemInfo where
  "SystemInfo_Clear = \<lparr>os = [], os_short = [], os_version = [], cpu = [], cpu_info = [], cpu_count = 0,
     gl_version = [], gl_vendor = [], gl_renderer = []\<rparr>"

datatype cpu_stackwalker =
    X86_walker stackwalker "memory_region option" "MDRawContextX86 option"
  | PPC_walker stackwalker "memory_region option" "MDRawContextPPC option"
  | PPC64_walker stackwalker "memory_region option" "MDRawContextPPC64 option"
  | AMD64_walker bool stackwalker "memory_region option" "MDRawContextAMD64 option"
  | SPARC_walker stackwalker "memory_region option" "MDRawContextSPARC option"
  | ARM_walker arm_walker "memory_region option" "MDRawContextARM option"
  | ARM64_walker arm64_walker "memory_region option" "MDRawContextARM64 option"
  | MIPS_walker stackwalker "memory_region option" "MDRawContextMIPS option"

datatype cpu_frames =
    X86_frames "StackFrameX86 list"
  | PPC_frames "StackFramePPC list"
  | PPC64_frames "StackFramePPC64 list"
  | AMD64_frames "StackFrameAMD64 list"
  | SPARC_frames "StackFrameSPARC list"
  | ARM_frames "StackFrameARM list"
  | ARM64_frames "StackFrameARM64 list"
  | MIPS_frames "StackFrameMIPS list"

text \<open>
  The shared part of a walker: the limits are static members, the modules come from the caller,
  and the list of unloaded modules is set once the walker is made.
\<close>

definition base_walker ::
  "stackwalker \<Rightarrow> basic_code_modules option \<Rightarrow> basic_code_modules option \<Rightarrow> stackwalker" where
  "base_walker limits modules unloaded_modules =
     limits\<lparr>walker_modules := map_option GetModuleForAddress modules,
       walker_unloaded_modules := map_option GetModuleForAddress unloaded_modules\<rparr>"

definition highest_module :: "basic_code_modules option \<Rightarrow> CodeModule option run" where
  "highest_module modules =
     (case modules of
        None \<Rightarrow> Some None
      | Some cm \<Rightarrow>
          if 0 < module_count cm then
            (case GetModuleAtSequence cm (module_count cm - 1) of
               Some (Some m) \<Rightarrow> Some (Some m)
             | _ \<Rightarrow> None)
          else Some None)"

definition StackwalkerForCPU ::
  "stackwalker \<Rightarrow> SystemInfo \<Rightarrow> dump_context option \<Rightarrow> memory_region option \<Rightarrow> basic_code_modules option \<Rightarrow>
     basic_code_modules option \<Rightarrow> cpu_stackwalker option run" where
  "StackwalkerForCPU limits system_info context memory modules unloaded_modules =
     (case context of
        None \<Rightarrow> Some None
      | Some dc \<Rightarrow>
          let cpu = GetContextCPU dc; w = base_walker limits modules unloaded_modules in
          if cpu = MD_CONTEXT_X86 then map_option (\<lambda>c. Some (X86_walker w memory c)) (GetContextX86 dc)
          else if cpu = MD_CONTEXT_PPC then map_option (\<lambda>c. Some (PPC_walker w memory c)) (GetContextPPC dc)
          else if cpu = MD_CONTEXT_PPC64 then map_option (\<lambda>c. Some (PPC64_walker w memory c)) (GetContextPPC64 dc)
          else if cpu = MD_CONTEXT_AMD64 then
            map_option (\<lambda>c. Some (AMD64_walker (os_short system_info = ''nacl'') w memory c)) (GetContextAMD64 dc)
          else if cpu = MD_CONTEXT_SPARC then map_option (\<lambda>c. Some (SPARC_walker w memory c)) (GetContextSPARC dc)
          else if cpu = MD_CONTEXT_MIPS \<or> cpu = MD_CONTEXT_MIPS64 then
            map_option (\<lambda>c. Some (MIPS_walker w memory c)) (GetContextMIPS dc)
          else if cpu = MD_CONTEXT_ARM then
            map_option (\<lambda>c. Some (ARM_walker (new_StackwalkerARM w
                (if os_short system_info = ''ios'' then Some 7 else None) (os system_info = ''iOS'')) memory c))
              (GetContextARM dc)
          else if cpu = MD_CONTEXT_ARM64 then do {
            c \<leftarrow> GetContextARM64 dc;
            high_module \<leftarrow> highest_module modules;
            Some (Some (ARM64_walker (new_StackwalkerARM64 w high_module) memory c))
          }
          else Some None)"

text \<open>The walk of a walker into an empty call stack.\<close>

definition walked_frames ::
  "('f list \<Rightarrow> cpu_frames) \<Rightarrow>
     (bool \<times> 'f call_stack \<times> CodeModule list \<times> CodeModule list \<times> symbolizer) run \<Rightarrow>
     (bool \<times> cpu_frames \<times> CodeModule list \<times> CodeModule list \<times> symbolizer) run" where
  "walked_frames inject = map_option (\<lambda>(ok, stk, rest). (ok, inject (frames stk), rest))"

fun cpu_Walk ::
  "cpu_stackwalker \<Rightarrow> CodeModule list \<Rightarrow> CodeModule list \<Rightarrow> symbolizer \<Rightarrow>
     (bool \<times> cpu_frames \<times> CodeModule list \<times> CodeModule list \<times> symbolizer) run" where
  "cpu_Walk (X86_walker w memory c) missing corrupt s =
     walked_frames X86_frames (x86_Walk w memory c empty_stack missing corrupt s)"
| "cpu_Walk (PPC_walker w memory c) missing corrupt s =
     walked_frames PPC_frames (ppc_Walk w memory c empty_stack missing corrupt s)"
| "cpu_Walk (PPC64_walker w memory c) missing corrupt s =
     walked_frames PPC64_frames (ppc64_Walk w memory c empty_stack missing corrupt s)"
| "cpu_Walk (AMD64_walker nacl w memory c) missing corrupt s =
     walked_frames AMD64_frames (amd64_Walk nacl w memory c empty_stack missing corrupt s)"
| "cpu_Walk (SPARC_walker w memory c) missing corrupt s =
     walked_frames SPARC_frames (sparc_Walk w memory c empty_stack missing corrupt s)"
| "cpu_Walk (ARM_walker w memory c) missing corrupt s =
     walked_frames ARM_frames (arm_Walk w memory c empty_stack missing corrupt s)"
| "cpu_Walk (ARM64_walker w memory c) missing corrupt s =
     walked_frames ARM64_frames (arm64_Walk w memory c empty_stack missing corrupt s)"
| "cpu_Walk (MIPS_walker w memory c) missing corrupt s =
     walked_frames MIPS_frames (mips_Walk w memory c empty_stack missing corrupt s)"

subsection \<open>What holds for every processor\<close>

definition ppc_sp :: "StackFramePPC \<Rightarrow> u64" where "ppc_sp f = ucast (ppc_gpr (ppc_context f) 1)"
definition ppc64_sp :: "StackFramePPC64 \<Rightarrow> u64" where "ppc64_sp f = ppc64_gpr (ppc64_context f) 1"
definition sparc_sp :: "StackFrameSPARC \<Rightarrow> u64" where "sparc_sp f = g_r (sparc_context f) 14"

lemma chain_sp_machine:
  "same_machine_state f g \<Longrightarrow> ppc_sp f = ppc_sp g"
  "same_machine_state f' g' \<Longrightarrow> ppc64_sp f' = ppc64_sp g'"
  "same_machine_state f'' g'' \<Longrightarrow> sparc_sp f'' = sparc_sp g''"
    apply (cases f; cases g; simp add: same_machine_state_def ppc_sp_def)
   apply (cases f'; cases g'; simp add: same_machine_state_def ppc64_sp_def)
  apply (cases f''; cases g''; simp add: same_machine_state_def sparc_sp_def)
  done

lemma chain_SomeD:
  "ppc_GetCallerFrame memory fs scan s = Some (nxt, lf, s') \<Longrightarrow> lf = last fs \<and>
     (\<forall>f. nxt = Some f \<longrightarrow> above (length fs = 1) (ppc_sp lf) (ppc_sp f) \<and> trust f = FRAME_TRUST_FP)"
  "ppc64_GetCallerFrame memory fs' scan s = Some (nxt', lf', s') \<Longrightarrow> lf' = last fs' \<and>
     (\<forall>f. nxt' = Some f \<longrightarrow> above (length fs' = 1) (ppc64_sp lf') (ppc64_sp f) \<and> trust f = FRAME_TRUST_FP)"
  "sparc_GetCallerFrame memory fs'' scan s = Some (nxt'', lf'', s') \<Longrightarrow> lf'' = last fs'' \<and>
     (\<forall>f. nxt'' = Some f \<longrightarrow> above (length fs'' = 1) (sparc_sp lf'') (sparc_sp f) \<and> trust f = FRAME_TRUST_FP)"
  by (auto simp: ppc_GetCallerFrame_def ppc64_GetCallerFrame_def sparc_GetCallerFrame_def Let_def
      ppc_sp_def ppc64_sp_def sparc_sp_def
      split: option.split_asm if_split_asm dest!: accept_caller_SomeD)

interpretation ppc_frames: scan_limited_walker w "ppc_GetCallerFrame memory" ppc_sp 0
  for w :: stackwalker and memory :: "memory_region option"
  by unfold_locales (auto simp: dubious_def dest: chain_SomeD chain_sp_machine)

interpretation ppc64_frames: scan_limited_walker w "ppc64_GetCallerFrame memory" ppc64_sp 0
  for w :: stackwalker and memory :: "memory_region option"
  by unfold_locales (auto simp: dubious_def dest: chain_SomeD chain_sp_machine)

interpretation sparc_frames: scan_limited_walker w "sparc_GetCallerFrame memory" sparc_sp 0
  for w :: stackwalker and memory :: "memory_region option"
  by unfold_locales (auto simp: dubious_def dest: chain_SomeD chain_sp_machine)

text \<open>The stack pointers of the frames, and how many frames are dubious.\<close>

fun cpu_sps :: "cpu_frames \<Rightarrow> u64 list" where
  "cpu_sps (X86_frames fs) = map x86_sp fs"
| "cpu_sps (PPC_frames fs) = map ppc_sp fs"
| "cpu_sps (PPC64_frames fs) = map ppc64_sp fs"
| "cpu_sps (AMD64_frames fs) = map amd64_sp fs"
| "cpu_sps (SPARC_frames fs) = map sparc_sp fs"
| "cpu_sps (ARM_frames fs) = map arm_sp fs"
| "cpu_sps (ARM64_frames fs) = map arm64_sp fs"
| "cpu_sps (MIPS_frames fs) = map mips_sp fs"

fun cpu_dubious :: "cpu_frames \<Rightarrow> nat" where
  "cpu_dubious (X86_frames fs) = dubious_frames fs"
| "cpu_dubious (PPC_frames fs) = dubious_frames fs"
| "cpu_dubious (PPC64_frames fs) = dubious_frames fs"
| "cpu_dubious (AMD64_frames fs) = dubious_frames fs"
| "cpu_dubious (SPARC_frames fs) = dubious_frames fs"
| "cpu_dubious (ARM_frames fs) = dubious_frames fs"
| "cpu_dubious (ARM64_frames fs) = dubious_frames fs"
| "cpu_dubious (MIPS_frames fs) = dubious_frames fs"

fun walker_limits :: "cpu_stackwalker \<Rightarrow> nat \<times> nat" where
  "walker_limits (X86_walker w _ _) = (unat (max_frames w), unat (max_frames_scanned w))"
| "walker_limits (PPC_walker w _ _) = (unat (max_frames w), unat (max_frames_scanned w))"
| "walker_limits (PPC64_walker w _ _) = (unat (max_frames w), unat (max_frames_scanned w))"
| "walker_limits (AMD64_walker _ w _ _) = (unat (max_frames w), unat (max_frames_scanned w))"
| "walker_limits (SPARC_walker w _ _) = (unat (max_frames w), unat (max_frames_scanned w))"
| "walker_limits (ARM_walker w _ _) = (unat (max_frames (arm_base w)), unat (max_frames_scanned (arm_base w)))"
| "walker_limits (ARM64_walker w _ _) = (unat (max_frames (arm64_base w)), unat (max_frames_scanned (arm64_base w)))"
| "walker_limits (MIPS_walker w _ _) = (unat (max_frames w), unat (max_frames_scanned w))"

definition walk_limited :: "nat \<times> nat \<Rightarrow> u64 list \<Rightarrow> nat \<Rightarrow> bool" where
  "walk_limited limits sps dubious_count =
     (rising sps \<and> length sps \<le> fst limits + 1 \<and> dubious_count \<le> max (snd limits) 1)"

lemma walked_frames_SomeD:
  "walked_frames inject r = Some (b, fs, rest) \<Longrightarrow> \<exists>stk. r = Some (b, stk, rest) \<and> fs = inject (frames stk)"
  by (auto simp: walked_frames_def)

lemma ppc_Walk_rising:
  assumes "ppc_Walk w memory c stk missing corrupt s = Some (b, stk', missing', corrupt', s')" and "frames stk = []"
  shows "rising (map ppc_sp (frames stk')) \<and> length (frames stk') \<le> unat (max_frames w) + 1 \<and>
    dubious_frames (frames stk') \<le> unat (max_frames_scanned w)"
proof -
  have "\<not> dubious (trust f)" if "ppc_GetContextFrame c = Some f" for f
    using that by (auto simp: ppc_GetContextFrame_def dubious_def)
  from ppc_frames.Walk_scanned [OF assms [unfolded ppc_Walk_def] this]
    ppc_frames.Walk_rising [OF assms [unfolded ppc_Walk_def]]
  show ?thesis by simp
qed

lemma ppc64_Walk_rising:
  assumes "ppc64_Walk w memory c stk missing corrupt s = Some (b, stk', missing', corrupt', s')" and "frames stk = []"
  shows "rising (map ppc64_sp (frames stk')) \<and> length (frames stk') \<le> unat (max_frames w) + 1 \<and>
    dubious_frames (frames stk') \<le> unat (max_frames_scanned w)"
proof -
  have "\<not> dubious (trust f)" if "ppc64_GetContextFrame c = Some f" for f
    using that by (auto simp: ppc64_GetContextFrame_def dubious_def)
  from ppc64_frames.Walk_scanned [OF assms [unfolded ppc64_Walk_def] this]
    ppc64_frames.Walk_rising [OF assms [unfolded ppc64_Walk_def]]
  show ?thesis by simp
qed

lemma sparc_Walk_rising:
  assumes "sparc_Walk w memory c stk missing corrupt s = Some (b, stk', missing', corrupt', s')" and "frames stk = []"
  shows "rising (map sparc_sp (frames stk')) \<and> length (frames stk') \<le> unat (max_frames w) + 1 \<and>
    dubious_frames (frames stk') \<le> unat (max_frames_scanned w)"
proof -
  have "\<not> dubious (trust f)" if "sparc_GetContextFrame c = Some f" for f
    using that by (auto simp: sparc_GetContextFrame_def dubious_def)
  from sparc_frames.Walk_scanned [OF assms [unfolded sparc_Walk_def] this]
    sparc_frames.Walk_rising [OF assms [unfolded sparc_Walk_def]]
  show ?thesis by simp
qed

lemma cpu_Walk_limited:
  assumes "cpu_Walk walker missing corrupt s = Some (b, fs, missing', corrupt', s')"
  shows "walk_limited (walker_limits walker) (cpu_sps fs) (cpu_dubious fs)"
  using assms
  by (cases walker;
      auto simp: walk_limited_def
        dest!: walked_frames_SomeD x86_Walk_rising ppc_Walk_rising ppc64_Walk_rising amd64_Walk_rising
          sparc_Walk_rising arm_Walk_rising arm64_Walk_rising mips_Walk_rising)

lemma StackwalkerForCPU_limits:
  assumes "StackwalkerForCPU limits system_info context memory modules unloaded_modules = Some (Some walker)"
  shows "walker_limits walker = (unat (max_frames limits), unat (max_frames_scanned limits))"
  using assms
  by (auto simp: StackwalkerForCPU_def base_walker_def new_StackwalkerARM_def new_StackwalkerARM64_def Let_def
      bind_eq_Some_conv split: option.split_asm if_split_asm)

text \<open>
  C23: Whatever processor the context is of, and whatever the stack, the modules and the symbols
  hold: the stack pointers of the frames found rise, strictly from the second on; the frames are
  at most one more than the limit, and those found by scanning at most their limit, or one where
  the limit is zero (the link register of ARM).
\<close>

theorem StackwalkerForCPU_Walk:
  assumes "StackwalkerForCPU limits system_info context memory modules unloaded_modules = Some (Some walker)"
    and "cpu_Walk walker missing corrupt s = Some (b, fs, missing', corrupt', s')"
  shows "rising (cpu_sps fs) \<and> length (cpu_sps fs) \<le> unat (max_frames limits) + 1 \<and>
    cpu_dubious fs \<le> max (unat (max_frames_scanned limits)) 1"
  using cpu_Walk_limited [OF assms(2)] StackwalkerForCPU_limits [OF assms(1)] by (simp add: walk_limited_def)

text \<open>The instruction and stack pointer a walker starts from.\<close>

fun cpu_start :: "cpu_stackwalker \<Rightarrow> (u64 \<times> u64) option" where
  "cpu_start (X86_walker _ _ c) = map_option (\<lambda>f. (instruction f, x86_sp f)) (x86_GetContextFrame c)"
| "cpu_start (PPC_walker _ _ c) = map_option (\<lambda>f. (instruction f, ppc_sp f)) (ppc_GetContextFrame c)"
| "cpu_start (PPC64_walker _ _ c) = map_option (\<lambda>f. (instruction f, ppc64_sp f)) (ppc64_GetContextFrame c)"
| "cpu_start (AMD64_walker _ _ _ c) = map_option (\<lambda>f. (instruction f, amd64_sp f)) (amd64_GetContextFrame c)"
| "cpu_start (SPARC_walker _ _ c) = map_option (\<lambda>f. (instruction f, sparc_sp f)) (sparc_GetContextFrame c)"
| "cpu_start (ARM_walker w _ c) = map_option (\<lambda>f. (instruction f, arm_sp f)) (arm_GetContextFrame w c)"
| "cpu_start (ARM64_walker w _ c) = map_option (\<lambda>f. (instruction f, arm64_sp f)) (arm64_GetContextFrame w c)"
| "cpu_start (MIPS_walker _ _ c) = map_option (\<lambda>f. (instruction f, mips_sp f)) (mips_GetContextFrame c)"

lemma factory_start:
  assumes "dump_context_ok dc" and "dc_valid dc" and "highest_module modules = Some high"
  shows "\<exists>walker ip sp.
    StackwalkerForCPU limits system_info (Some dc) memory modules unloaded_modules = Some (Some walker) \<and>
    GetInstructionPointer dc = Some (True, ip) \<and> GetStackPointer dc = Some (True, sp) \<and>
    cpu_start walker = Some (ip, sp)"
  using assms
  by (cases "dc_context dc")
    (auto simp: dump_context_ok_def StackwalkerForCPU_def GetInstructionPointer_def GetStackPointer_def
      context_field_def cpu_constants GetContextX86_def GetContextPPC_def GetContextPPC64_def GetContextAMD64_def
      GetContextSPARC_def GetContextARM_def GetContextARM64_def GetContextMIPS_def Let_def
      x86_GetContextFrame_def ppc_GetContextFrame_def ppc64_GetContextFrame_def amd64_GetContextFrame_def
      sparc_GetContextFrame_def arm_GetContextFrame_def arm64_GetContextFrame_def mips_GetContextFrame_def
      x86_sp_def ppc_sp_def ppc64_sp_def amd64_sp_def sparc_sp_def arm_sp_def arm64_sp_def mips_sp_def arm64_regs)

text \<open>
  For a valid context whose flags fit what it stores the factory finds a walker, and the
  walk starts where the context says the thread is: at its instruction pointer, with its stack
  pointer.
\<close>

theorem StackwalkerForCPU_start:
  assumes "dump_context_ok dc" and "dc_valid dc" and "highest_module modules = Some high"
  shows "\<exists>walker ip sp.
    StackwalkerForCPU limits system_info (Some dc) memory modules unloaded_modules = Some (Some walker) \<and>
    GetInstructionPointer dc = Some (True, ip) \<and> GetStackPointer dc = Some (True, sp) \<and>
    cpu_start walker = Some (ip, sp)"
  using assms by (rule factory_start)

text \<open>The sample thread of 32-bit PowerPC, walked without modules.\<close>

definition sample_dump_context :: dump_context where
  "sample_dump_context = \<lparr>dc_valid = True, dc_context = PPC_context sample_ppc_context, dc_flags = 0x20000001\<rparr>"

lemma sample_dump_context_ok: "dump_context_ok sample_dump_context" "dc_valid sample_dump_context"
  "GetContextCPU sample_dump_context = MD_CONTEXT_PPC"
  by (simp_all add: dump_context_ok_def sample_dump_context_def GetContextCPU_def MD_CONTEXT_CPU_MASK_def
      MD_CONTEXT_PPC_def)

theorem StackwalkerForCPU_start_witness:
  "\<exists>walker. StackwalkerForCPU sample_walker SystemInfo_Clear (Some sample_dump_context) None None None =
      Some (Some walker) \<and> cpu_start walker = Some (0x401004, 0x1010)"
proof -
  have "highest_module None = Some None" by (simp add: highest_module_def)
  from StackwalkerForCPU_start [OF sample_dump_context_ok(1,2) this, of sample_walker SystemInfo_Clear None None]
  show ?thesis
    by (auto simp: GetInstructionPointer_def GetStackPointer_def context_field_def sample_dump_context_ok
        GetContextPPC_def cpu_constants Let_def)
      (auto simp: sample_dump_context_def sample_ppc_context_def)
qed

theorem StackwalkerForCPU_Walk_witness:
  "\<exists>walker fs missing' corrupt'.
    StackwalkerForCPU sample_walker SystemInfo_Clear (Some sample_dump_context) (Some sample_ppc_stack) None None =
      Some (Some walker) \<and>
    cpu_Walk walker [] [] no_symbols = Some (True, fs, missing', corrupt', no_symbols) \<and>
    rising (cpu_sps fs) \<and> length (cpu_sps fs) = 2"
proof -
  let ?w = "base_walker sample_walker None None"
  have "2 \<le> unat (max_frames ?w)" "1 < max_frames_scanned ?w"
    by (simp_all add: base_walker_def sample_walker_def new_stackwalker_def)
  from sample_ppc_walk [OF this] obtain stk missing' corrupt' where
    run: "ppc_Walk ?w (Some sample_ppc_stack) (Some sample_ppc_context) empty_stack [] [] no_symbols =
      Some (True, stk, missing', corrupt', no_symbols)" "length (frames stk) = 2" by blast
  let ?walker = "PPC_walker ?w (Some sample_ppc_stack) (Some sample_ppc_context)"
  have made: "StackwalkerForCPU sample_walker SystemInfo_Clear (Some sample_dump_context) (Some sample_ppc_stack)
      None None = Some (Some ?walker)"
    by (simp add: StackwalkerForCPU_def sample_dump_context_ok(3) GetContextPPC_def cpu_constants Let_def)
      (simp add: sample_dump_context_def)
  have walk: "cpu_Walk ?walker [] [] no_symbols = Some (True, PPC_frames (frames stk), missing', corrupt', no_symbols)"
    using run by (simp add: walked_frames_def)
  from StackwalkerForCPU_Walk [OF made walk] made walk run(2) show ?thesis by auto
qed

end
