(* ===== verification/Module_Strings.thy ===== *)
theory Module_Strings
  imports Basic_Resolver
begin

text \<open>
  What the strings of a loaded module hold: no terminator, since \<open>LoadMapFromMemory\<close>
  replaces terminators inside the text, and every string of a module is cut out of the
  text.  Frame data is as its constructor leaves it.  The serializer depends on both.
\<close>

definition text_ok :: "string \<Rightarrow> bool" where
  "text_ok s = (NUL \<notin> set s)"

definition module_text_ok :: "Module \<Rightarrow> bool" where
  "module_text_ok m = (
     (\<forall>p\<in>set (files m). fst p \<in> {- (2 ^ 31) ..< 2 ^ 31} \<and> text_ok (snd p)) \<and>
     (\<forall>f\<in>set (function_objects m). text_ok (f_name f)) \<and>
     (\<forall>p\<in>set (public_symbols m). text_ok (p_name (snd p))) \<and>
     (\<forall>n\<in>set (windows_frame_info m). \<forall>(b, k, w)\<in>ranges_of n. valid w = VALID_ALL \<and> text_ok (program_string w)) \<and>
     (\<forall>p\<in>set (rmap (cfi_initial_rules m)). text_ok (r_entry (snd p))) \<and>
     (\<forall>p\<in>set (cfi_delta_rules m). text_ok (snd p)))"

subsection \<open>Strings cut out of a text\<close>

lemma text_ok_subset: "text_ok s \<Longrightarrow> set t \<subseteq> set s \<Longrightarrow> text_ok t"
  by (auto simp: text_ok_def)

lemma text_ok_cut [simp]:
  "text_ok s \<Longrightarrow> text_ok (takeWhile P s)" "text_ok s \<Longrightarrow> text_ok (dropWhile P s)"
  "text_ok s \<Longrightarrow> text_ok (drop n s)" "text_ok []"
  by (auto simp: text_ok_def dest: set_takeWhileD set_dropWhileD in_set_dropD)

lemma text_ok_append [simp]: "text_ok (s @ t) = (text_ok s \<and> text_ok t)"
  by (auto simp: text_ok_def)

lemma strtok_text:
  assumes "strtok seps s = (t, r)" and "text_ok s"
  shows "text_ok r" and "t = Some w \<Longrightarrow> text_ok w"
proof -
  have ok: "text_ok (dropWhile (\<lambda>c. c \<in> set seps) s)" using assms(2) by simp
  have "text_ok r \<and> (\<forall>w. t = Some w \<longrightarrow> text_ok w)"
  proof (cases "dropWhile (\<lambda>c. c \<in> set seps) s")
    case Nil
    with assms(1) show ?thesis by (simp add: strtok_def)
  next
    case (Cons c cs)
    define v where "v = c # cs"
    have "t = Some (takeWhile (\<lambda>c. c \<notin> set seps) v)" "r = drop 1 (dropWhile (\<lambda>c. c \<notin> set seps) v)"
      using assms(1) Cons by (simp_all only: strtok_def v_def list.case prod.inject)
    moreover have "text_ok v" using ok Cons by (simp only: v_def)
    ultimately show ?thesis by simp
  qed
  then show "text_ok r" and "t = Some w \<Longrightarrow> text_ok w" by simp_all
qed

lemma tokenize_loop_text:
  assumes "tokenize_loop seps token s n tokens = (s', n', tokens')"
    and "text_ok s" and "\<And>t. token = Some t \<Longrightarrow> text_ok t" and "\<forall>t\<in>set tokens. text_ok t"
  shows "text_ok s' \<and> (\<forall>t\<in>set tokens'. text_ok t)"
  using assms
proof (induction seps token s n tokens rule: tokenize_loop.induct)
  case (1 seps token s n tokens)
  show ?case
  proof (cases token)
    case None
    with "1.prems" show ?thesis by (simp add: tokenize_loop.simps)
  next
    case (Some t)
    then have tokens: "\<forall>u\<in>set (tokens @ [t]). text_ok u" using "1.prems"(3,4) by simp
    obtain token' r where tok: "strtok seps s = (token', r)" by fastforce
    show ?thesis
    proof (cases "n - 1 > 0")
      case False
      with Some "1.prems" show ?thesis by (simp add: tokenize_loop.simps [of seps "Some t"])
    next
      case more: True
      show ?thesis
      proof (cases "n - 1 > 1")
        case True
        with Some more tok "1.prems"(1) have "tokenize_loop seps token' r (n - 1) (tokens @ [t]) = (s', n', tokens')"
          by (simp add: tokenize_loop.simps [of seps "Some t"])
        from "1.IH"(1) [OF Some more True tok [symmetric] this] show ?thesis
          using strtok_text [OF tok "1.prems"(2)] tokens by blast
      next
        case False
        with Some more "1.prems"(1) have "tokenize_loop seps token s (n - 1) (tokens @ [t]) = (s', n', tokens')"
          by (simp add: tokenize_loop.simps [of seps "Some t"])
        from "1.IH"(2) [OF Some more False this "1.prems"(2,3) tokens] show ?thesis .
      qed
    qed
  qed
qed

lemma Tokenize_text:
  assumes "Tokenize line seps n = (ok, tokens)" and "text_ok line"
  shows "\<forall>t\<in>set tokens. text_ok t" and "ok \<Longrightarrow> int (length tokens) = n mod 2 ^ 32"
proof -
  obtain token s where tok: "strtok seps line = (token, s)" by fastforce
  obtain s' n' tokens' where loop: "tokenize_loop seps token s n [] = (s', n', tokens')"
    by (cases "tokenize_loop seps token s n []")
  have t: "text_ok s' \<and> (\<forall>t\<in>set tokens'. text_ok t)"
    using strtok_text [OF tok assms(2)] by (intro tokenize_loop_text [OF loop]) auto
  obtain w r where last: "strtok [CHR 0x0D, CHR 0x0A] s' = (w, r)" by fastforce
  show "\<forall>t\<in>set tokens. text_ok t"
    using assms(1) t strtok_text(2) [OF last]
    by (auto simp: Tokenize_def tok loop last Let_def split: option.split_asm if_split_asm)
  show "ok \<Longrightarrow> int (length tokens) = n mod 2 ^ 32"
    using assms(1) by (auto simp: Tokenize_def Let_def split: prod.split_asm)
qed

lemma Optional_text:
  assumes "TokenizeWithOptionalField line ''m'' seps n = (True, tokens)" and "text_ok line"
    and n: "4 \<le> n" "n < 100"
  shows "\<forall>t\<in>set tokens. text_ok t"
    and "int (length tokens) = (if tokens ! 0 = ''m'' then n else n - 1)"
proof -
  obtain fields where f: "Tokenize line seps (n - 1) = (True, fields)"
    using assms(1) by (auto simp: TokenizeWithOptionalField_def split: prod.split_asm if_split_asm)
  have fields: "\<forall>t\<in>set fields. text_ok t" and len: "int (length fields) = n - 1"
    using Tokenize_text [OF f assms(2)] n by simp_all
  then have "1 < length fields" using n by simp
  then obtain x y fs where xs: "fields = x # y # fs" by (auto simp: less_eq_Suc_le Suc_le_length_iff)
  have "(\<forall>t\<in>set tokens. text_ok t) \<and> int (length tokens) = (if tokens ! 0 = ''m'' then n else n - 1)"
  proof (cases "x = ''m''")
    case False
    then have m: "hd fields \<noteq> ''m''" "fields ! 0 \<noteq> ''m''" using xs by simp_all
    then have "tokens = fields" using assms(1) f by (simp add: TokenizeWithOptionalField_def)
    with fields len m(2) show ?thesis by simp
  next
    case True
    obtain lasts where l: "Tokenize (last fields) seps 2 = (True, lasts)"
      using assms(1) True f xs by (auto simp: TokenizeWithOptionalField_def split: prod.split_asm if_split_asm)
    have "text_ok (last fields)" using fields xs by simp
    from Tokenize_text [OF l this] have lasts: "\<forall>t\<in>set lasts. text_ok t" "length lasts = 2" by simp_all
    then have "text_ok (lasts ! 0)" "text_ok (lasts ! 1)" by simp_all
    moreover have tokens: "tokens = butlast fields @ [lasts ! 0, lasts ! 1]"
    proof -
      have "hd fields = ''m''" using xs True by simp
      then show ?thesis
        using assms(1) by (simp only: TokenizeWithOptionalField_def f l prod.case simp_thms if_True if_False prod.inject)
    qed
    moreover have "\<forall>t\<in>set (butlast fields). text_ok t" using fields by (meson in_set_butlastD)
    ultimately have "\<forall>t\<in>set tokens. text_ok t" by simp
    moreover have "butlast fields = ''m'' # butlast (y # fs)" using xs True by simp
    then have "tokens ! 0 = ''m''" by (simp only: tokens append_Cons nth_Cons_0)
    moreover have "int (length tokens) = n" using len n by (simp add: tokens)
    ultimately show ?thesis by simp
  qed
  then show "\<forall>t\<in>set tokens. text_ok t"
    and "int (length tokens) = (if tokens ! 0 = ''m'' then n else n - 1)" by blast+
qed

subsection \<open>Strings of the records\<close>

lemma ParseFile_text:
  assumes "Helper_ParseFile l = Some (index, name)" and "text_ok l"
  shows "text_ok name"
proof -
  obtain tokens where t: "Tokenize (drop 5 l) kWhitespace 2 = (True, tokens)" and "name = tokens ! 1"
    using assms(1) by (auto simp: Helper_ParseFile_def split: prod.split_asm if_split_asm)
  with Tokenize_text [OF t] assms(2) show ?thesis by simp
qed

lemma ParseFunction_name_text:
  assumes "Helper_ParseFunction l = Some (multiple, address, sz, params, name)" and "text_ok l"
  shows "text_ok name"
proof -
  obtain tokens where t: "TokenizeWithOptionalField (drop 5 l) ''m'' kWhitespace 5 = (True, tokens)"
    and "name = tokens ! ((if tokens ! 0 = ''m'' then 1 else 0) + 3)"
    using assms(1) by (auto simp: Helper_ParseFunction_def Let_def split: prod.split_asm if_split_asm)
  with Optional_text [OF t] assms(2) show ?thesis by (simp split: if_split_asm)
qed

lemma ParsePublicSymbol_name_text:
  assumes "Helper_ParsePublicSymbol l = Some (multiple, address, params, name)" and "text_ok l"
  shows "text_ok name"
proof -
  obtain tokens where t: "TokenizeWithOptionalField (drop 7 l) ''m'' kWhitespace 4 = (True, tokens)"
    and "name = tokens ! ((if tokens ! 0 = ''m'' then 1 else 0) + 2)"
    using assms(1) by (auto simp: Helper_ParsePublicSymbol_def Let_def split: prod.split_asm if_split_asm)
  with Optional_text [OF t] assms(2) show ?thesis by (simp split: if_split_asm)
qed

lemma ParseFromString_program_text:
  assumes "ParseFromString l = Some (w, t, rva, code_size)" and "text_ok l"
  shows "valid w = VALID_ALL \<and> text_ok (program_string w)"
proof -
  obtain tokens where t: "Tokenize l kWhitespace 11 = (True, tokens)"
    using assms(1) by (auto simp: ParseFromString_def Let_def split: prod.split_asm if_split_asm)
  have "text_ok (tokens ! 10)" using Tokenize_text [OF t assms(2)] by simp
  with assms(1) t show ?thesis
    by (auto simp: ParseFromString_def Let_def make_WindowsFrameInfo_def split: if_split_asm)
qed

subsection \<open>Strings of the module\<close>

lemma module_text_ok_new: "module_text_ok new_Module"
  by (auto simp: module_text_ok_def new_Module_def empty_range_map_def)

lemma int_of_long_range: "int_of_long v \<in> {- (2 ^ 31) ..< 2 ^ 31}"
  using signed_take_bit_int_greater_eq_minus_exp [of 31 v] signed_take_bit_int_less_exp [of 31 v]
  by (simp add: int_of_long_def)

lemma Module_ParseFile_text:
  assumes "module_text_ok m" and "text_ok l"
  shows "module_text_ok (snd (Module_ParseFile l m))"
proof (cases "Helper_ParseFile l")
  case None
  with assms(1) show ?thesis by (simp add: Module_ParseFile_def)
next
  case (Some r)
  obtain index name where r: "r = (index, name)" by (cases r)
  have "text_ok name" using ParseFile_text [of l index name] Some r assms(2) by simp
  with assms(1) Some r int_of_long_range [of index] smap_insert_subset [of "int_of_long index" name "files m"]
  show ?thesis by (auto simp: Module_ParseFile_def module_text_ok_def)
qed

lemma Module_ParsePublicSymbol_text:
  assumes "module_text_ok m" and "text_ok l"
  shows "module_text_ok (snd (Module_ParsePublicSymbol l m))"
proof (cases "Helper_ParsePublicSymbol l")
  case None
  with assms(1) show ?thesis by (simp add: Module_ParsePublicSymbol_def)
next
  case (Some r)
  obtain multiple address params name where r: "r = (multiple, address, params, name)" by (cases r)
  have "text_ok name" using ParsePublicSymbol_name_text [of l] Some r assms(2) by simp
  define symbol where "symbol = \<lparr>p_name = name, p_address = address, p_parameter_size = word_of_int params,
      p_is_multiple = multiple\<rparr>"
  have "\<forall>p\<in>set (fst (Store (public_symbols m) address symbol)). text_ok (p_name (snd p))"
    using assms(1) \<open>text_ok name\<close> smap_insert_subset [of address symbol "public_symbols m"]
    by (auto simp: Store_def module_text_ok_def symbol_def)
  with assms(1) Some r show ?thesis
    by (auto simp: Module_ParsePublicSymbol_def module_text_ok_def symbol_def [symmetric] split: prod.split)
qed

lemma store_strings:
  assumes "exclusive_map m" and "StoreRange m base sz s = Some (m', stored)" and "text_ok s"
    and "\<forall>p\<in>set (rmap m). text_ok (r_entry (snd p))"
  shows "\<forall>p\<in>set (rmap m'). text_ok (r_entry (snd p))"
  using exclusive_store [OF assms(1,2)] assms(3,4) by auto

lemma ParseCFIFrameInfo_text:
  assumes ok: "module_ok m" "module_text_ok m" and l: "text_ok l"
    and run: "ParseCFIFrameInfo l m = Some (b, m')"
  shows "module_text_ok m'"
proof -
  obtain t1 s1 where 1: "strtok kWhitespace l = (t1, s1)" by fastforce
  obtain t2 s2 where 2: "strtok kWhitespace s1 = (t2, s2)" by fastforce
  obtain t3 s3 where 3: "strtok kWhitespace s2 = (t3, s3)" by fastforce
  obtain t4 s4 where 4: "strtok newline s3 = (t4, s4)" by fastforce
  obtain t5 s5 where 5: "strtok newline s1 = (t5, s5)" by fastforce
  have "text_ok s1" by (rule strtok_text(1) [OF 1 l])
  then have s3: "text_ok s3" and t5: "\<And>w. t5 = Some w \<Longrightarrow> text_ok w"
    using strtok_text(1) [OF 3 strtok_text(1) [OF 2]] strtok_text(2) [OF 5] by auto
  have t4: "\<And>w. t4 = Some w \<Longrightarrow> text_ok w" using strtok_text(2) [OF 4 s3] .
  have x: "exclusive_map (cfi_initial_rules m)" using ok(1) by (simp add: module_ok_def)
  have init: "module_text_ok (m\<lparr>cfi_initial_rules := rs\<rparr>)"
    if "StoreRange (cfi_initial_rules m) base sz w = Some (rs, stored)" "t4 = Some w" for rs base sz w stored
    using store_strings [OF x that(1) t4 [OF that(2)]] ok(2) by (simp add: module_text_ok_def)
  have delta: "module_text_ok (m\<lparr>cfi_delta_rules := smap_put k w (cfi_delta_rules m)\<rparr>)" if "t5 = Some w" for k w
    using t5 [OF that] ok(2) smap_put_subset [of k w "cfi_delta_rules m"] by (auto simp: module_text_ok_def)
  show ?thesis
    using run ok(2) init delta
    by (auto simp: ParseCFIFrameInfo_def 1 2 3 4 5 bind_eq_Some_conv split: option.split_asm if_split_asm)
qed

lemma store_frame_info_text:
  assumes "module_ok m" and "module_text_ok m" and "0 \<le> t" and "t < 5"
    and w: "valid w = VALID_ALL \<and> text_ok (program_string w)"
  shows "module_text_ok (m\<lparr>windows_frame_info := (windows_frame_info m)
    [nat t := fst (contained_StoreRange (windows_frame_info m ! nat t) rva code_size w)]\<rparr>)"
proof -
  let ?n = "windows_frame_info m ! nat t"
  have "nat t < length (windows_frame_info m)" using assms by (simp add: module_ok_def)
  then have mem: "?n \<in> set (windows_frame_info m)" by simp
  then have "tree_ok ?n" using assms(1) by (simp add: module_ok_def)
  then have "ranges_of (fst (contained_StoreRange ?n rva code_size w)) \<subseteq>
      insert (rva, rva + code_size - 1, w) (ranges_of ?n)"
    using contained_StoreRange_outcome [of ?n rva code_size w]
    by (auto simp: contained_outcome_def split: prod.split_asm if_split_asm)
  moreover have "\<forall>(b, k, v)\<in>insert (rva, rva + code_size - 1, w) (ranges_of ?n).
      valid v = VALID_ALL \<and> text_ok (program_string v)"
    using assms(2) mem w by (simp add: module_text_ok_def)
  ultimately have "\<forall>(b, k, v)\<in>ranges_of (fst (contained_StoreRange ?n rva code_size w)).
      valid v = VALID_ALL \<and> text_ok (program_string v)" by blast
  with assms(2) show ?thesis
    by (auto simp: module_text_ok_def dest!: subsetD [OF set_update_subset_insert])
qed

lemma ParseStackInfo_text:
  assumes ok: "module_ok m" "module_text_ok m" and l: "text_ok l" "\<And>s. rest = Some s \<Longrightarrow> text_ok s"
    and run: "ParseStackInfo l rest m = Some (b, rest', m')"
  shows "module_text_ok m' \<and> (\<forall>s. rest' = Some s \<longrightarrow> text_ok s)"
proof -
  let ?s = "dropWhile (\<lambda>c. c = CHR '' '') (drop 6 l)"
  define platform where "platform = takeWhile (\<lambda>c. c \<notin> set kWhitespace) ?s"
  define overrun where "overrun = (dropWhile (\<lambda>c. c \<notin> set kWhitespace) ?s = [])"
  define body where "body = (if overrun then rest else Some (drop 1 (dropWhile (\<lambda>c. c \<notin> set kWhitespace) ?s)))"
  have body: "text_ok s" if "body = Some s" for s
    using that l by (auto simp: body_def simp del: One_nat_def split: if_split_asm)
  note eq = ParseStackInfo_def [of l rest m, unfolded Let_def, folded platform_def overrun_def, folded body_def]
  show ?thesis
  proof (cases body)
    case None
    with run ok(2) l(2) show ?thesis by (auto simp: eq split: if_split_asm)
  next
    case (Some s)
    note s = body [OF this]
    have tok: "text_ok w" if "strtok kWhitespace s = (Some w, r)" for w r
      using strtok_text(2) [OF that s refl] .
    have wfi: "module_text_ok (m\<lparr>windows_frame_info := (windows_frame_info m)
        [nat t := fst (contained_StoreRange (windows_frame_info m ! nat t) rva code_size w)]\<rparr>)"
      if "ParseFromString s = Some (w, t, rva, code_size)" for w t rva code_size
      using store_frame_info_text [OF ok] ParseFromString_program_text [OF that s] ParseFromString_type [OF that]
      by blast
    show ?thesis
      using run ok(2) l(2) s wfi ParseCFIFrameInfo_text [OF ok s] Some tok
      by (auto simp: eq bind_eq_Some_conv split: if_split_asm option.split_asm prod.split_asm option.split prod.split)
  qed
qed

lemma Module_ParseFunction_text:
  "Module_ParseFunction l = Some f \<Longrightarrow> text_ok l \<Longrightarrow> text_ok (f_name f)"
  by (auto simp: Module_ParseFunction_def dest: ParseFunction_name_text)

lemma same_strings:
  assumes "module_text_ok m" and "f < length (function_objects m)"
  shows "module_text_ok (m\<lparr>function_objects := (function_objects m)[f := (function_objects m ! f)\<lparr>f_lines := ls\<rparr>]\<rparr>)"
proof -
  have "text_ok (f_name g)" if "g \<in> set ((function_objects m)[f := (function_objects m ! f)\<lparr>f_lines := ls\<rparr>])" for g
    using subsetD [OF set_update_subset_insert that] assms by (auto simp: module_text_ok_def)
  with assms(1) show ?thesis by (simp add: module_text_ok_def)
qed

lemma load_line_text:
  assumes ok: "module_ok m" "module_text_ok m" and cur: "\<forall>f. cur = Some f \<longrightarrow> f < length (function_objects m)"
    and l: "text_ok l" "\<And>s. rest = Some s \<Longrightarrow> text_ok s"
    and run: "load_line l rest m cur errs = Some (rest', m', cur', errs')"
  shows "module_text_ok m' \<and> (\<forall>s. rest' = Some s \<longrightarrow> text_ok s)"
proof -
  consider (file_line) "starts_with ''FILE '' l" | (stack) "\<not> starts_with ''FILE '' l" "starts_with ''STACK '' l"
    | (func) "\<not> starts_with ''FILE '' l" "\<not> starts_with ''STACK '' l" "starts_with ''FUNC '' l"
    | (pub) "\<not> starts_with ''FILE '' l" "\<not> starts_with ''STACK '' l" "\<not> starts_with ''FUNC '' l"
        "starts_with ''PUBLIC '' l"
    | (other) "\<not> starts_with ''FILE '' l" "\<not> starts_with ''STACK '' l" "\<not> starts_with ''FUNC '' l"
        "\<not> starts_with ''PUBLIC '' l" by blast
  then show ?thesis
  proof cases
    case file_line
    with run l Module_ParseFile_text [OF ok(2) l(1)] show ?thesis
      by (auto simp: load_line_def split: prod.split_asm)
  next
    case stack
    with run ParseStackInfo_text [OF ok l] show ?thesis
      by (auto simp: load_line_def bind_eq_Some_conv)
  next
    case func
    show ?thesis
    proof (cases "Module_ParseFunction l")
      case None
      with func run ok l show ?thesis by (auto simp: load_line_def)
    next
      case (Some f)
      have "text_ok (f_name f)" by (rule Module_ParseFunction_text [OF Some l(1)])
      with func run Some ok(2) l(2) show ?thesis
        by (auto simp: load_line_def bind_eq_Some_conv module_text_ok_def)
    qed
  next
    case pub
    with run l Module_ParsePublicSymbol_text [OF ok(2) l(1)] show ?thesis
      by (auto simp: load_line_def split: prod.split_asm)
  next
    case other
    show ?thesis
    proof (cases "starts_with ''MODULE '' l \<or> starts_with ''INFO '' l \<or> cur = None \<or> Module_ParseLine l = None")
      case True
      with other run ok(2) l(2) show ?thesis
        by (auto simp: load_line_def split: if_split_asm option.split_asm)
    next
      case False
      then obtain f line where f: "cur = Some f" and line: "Module_ParseLine l = Some line" by auto
      from cur f have "f < length (function_objects m)" by simp
      with other False run f line same_strings [OF ok(2)] l(2) show ?thesis
        by (auto simp: load_line_def bind_eq_Some_conv)
    qed
  qed
qed

lemma next_line_text:
  assumes "next_line extra s = Some (l, rest)" and "text_ok s"
  shows "text_ok l" and "rest = Some r \<Longrightarrow> text_ok r"
proof -
  define s' where "s' = dropWhile (\<lambda>c. c \<in> set newline) s"
  define e where "e = dropWhile (\<lambda>c. c \<notin> set newline) s'"
  have ok: "text_ok s'" "text_ok e" using assms(2) by (simp_all add: s'_def e_def)
  note d = next_line_SomeD [OF assms(1), folded s'_def, folded e_def]
  show "text_ok l" unfolding d(2) using ok(1) by (rule text_ok_cut)
  show "rest = Some r \<Longrightarrow> text_ok r"
    using d(3) ok(2) by (auto simp: text_ok_def split: list.split_asm if_split_asm)
qed

lemma load_lines_text:
  assumes "module_ok m" and "module_text_ok m" and "\<forall>f. cur = Some f \<longrightarrow> f < length (function_objects m)"
    and "\<And>s. rest = Some s \<Longrightarrow> text_ok s"
    and "load_lines extra rest m cur errs = Some (m', errs')"
  shows "module_text_ok m'"
  using assms
proof (induction extra rest m cur errs rule: load_lines.induct)
  case (1 extra rest m cur errs)
  note run = "1.prems"(5) [unfolded load_lines.simps [of extra rest]]
  show ?case
  proof (cases "\<exists>s l rest1. rest = Some s \<and> next_line extra s = Some (l, rest1)")
    case False
    with "1.prems"(2) run show ?thesis by (auto split: option.split_asm)
  next
    case True
    then obtain s l rest1 where s: "rest = Some s" and n: "next_line extra s = Some (l, rest1)" by blast
    with run obtain r where r: "load_line l rest1 m cur errs = Some r" by (auto split: option.split_asm)
    obtain rest2 m2 cur2 errs2 where r2: "r = (rest2, m2, cur2, errs2)" by (cases r)
    have ok: "module_ok m2 \<and> (\<forall>f. cur2 = Some f \<longrightarrow> f < length (function_objects m2))"
      using load_line_ok [OF "1.prems"(1,3)] r r2 by blast
    have strings: "module_text_ok m2 \<and> (\<forall>s. rest2 = Some s \<longrightarrow> text_ok s)"
      using load_line_text [OF "1.prems"(1-3) next_line_text [OF n "1.prems"(4) [OF s]] r [unfolded r2]] .
    show ?thesis
    proof (cases "kMaxErrorsBeforeBailing < errs2")
      case True
      with run s n r r2 strings show ?thesis by simp
    next
      case False
      with run s n r r2 have "load_lines extra rest2 m2 cur2 errs2 = Some (m', errs')" by simp
      from "1.IH" [OF s n refl r r2 [symmetric] refl refl False _ _ _ _ this] ok strings
      show ?thesis by blast
    qed
  qed
qed

lemma LoadMapFromMemory_text:
  assumes "module_ok m" and "module_text_ok m" and "LoadMapFromMemory buf m = Some (ok, m')"
  shows "module_text_ok m'"
proof (cases "buf = []")
  case True
  with assms show ?thesis by (simp add: LoadMapFromMemory_def)
next
  case False
  let ?body = "rev (dropWhile (\<lambda>c. c = NUL) (rev (butlast buf)))"
  let ?text = "map (\<lambda>c. if c = NUL then CHR ''_'' else c) ?body"
  obtain m1 errs where run: "load_lines (length ?body + 1 < length buf) (Some ?text) m None
        (if NUL \<in> set ?body then 1 else 0) = Some (m1, errs)"
    and m': "m' = m1\<lparr>is_corrupt := (0 < errs)\<rparr>"
    using False assms(3) by (auto simp: LoadMapFromMemory_def Let_def bind_eq_Some_conv)
  have "text_ok ?text" by (auto simp: text_ok_def)
  then have "module_text_ok m1" by (intro load_lines_text [OF assms(1,2) _ _ run]) auto
  with m' show ?thesis by (simp add: module_text_ok_def)
qed

end
