(* ===== verification/Raw_Memory.thy ===== *)
theory Raw_Memory
  imports Prelude "HOL-Library.Monad_Syntax"
begin

text \<open>
  The memory that serialized symbol data lies in.  A pointer into it is the list of the bytes
  from that place to the end of the buffer, so a step forward is a \<open>drop\<close>.  A read
  through a pointer yields \<open>None\<close> when it leaves the buffer.  Integers are written and
  read in the byte order of the host, which is taken to be little-endian.

  \<open>SimpleSerializer\<close> for integers, flags and strings
  (\<open>processor/simple_serializer.h\<close>, \<open>simple_serializer-inl.h\<close>).
\<close>

type_synonym pointer = "char list"

definition word_bytes :: "'a::len word \<Rightarrow> char list" where
  "word_bytes w = map (\<lambda>i. char_of (unat w div 256 ^ i)) [0..<LENGTH('a) div 8]"

definition read_word :: "pointer \<Rightarrow> nat \<Rightarrow> 'a::len word option" where
  "read_word p i =
     (if i + LENGTH('a) div 8 \<le> length p
      then Some (of_nat (horner_sum of_char 256 (take (LENGTH('a) div 8) (drop i p))))
      else None)"

definition bool_bytes :: "bool \<Rightarrow> char list" where
  "bool_bytes b = [if b then CHR 0xFF else NUL]"

definition read_bool :: "pointer \<Rightarrow> (bool \<times> pointer) run" where
  "read_bool p = (case p of [] \<Rightarrow> None | c # p' \<Rightarrow> Some (c \<noteq> NUL, p'))"

text \<open>
  \<open>strcpy\<close> copies a string up to its first terminator, and the result is behind
  \<open>size() + 1\<close> bytes.  The strings of a module hold no terminator, so the copy fills
  these bytes; for other strings the rest is filled with terminators here.
\<close>

definition string_bytes :: "string \<Rightarrow> char list" where
  "string_bytes s = takeWhile (\<lambda>c. c \<noteq> NUL) s @
     replicate (Suc (length (dropWhile (\<lambda>c. c \<noteq> NUL) s))) NUL"

definition string_SizeOf :: "string \<Rightarrow> nat" where
  "string_SizeOf s = length s + 1"

definition read_c_string :: "pointer \<Rightarrow> string run" where
  "read_c_string p = (if NUL \<in> set p then Some (takeWhile (\<lambda>c. c \<noteq> NUL) p) else None)"

subsection \<open>What is written is read back\<close>

named_theorems layout_simps \<open>lengths of encodings and reads of what was written\<close>

lemma horner_char_of:
  "horner_sum of_char 256 (map (\<lambda>i. char_of (n div 256 ^ i)) [0..<k]) = n mod (256 :: nat) ^ k"
proof (induction k arbitrary: n)
  case (Suc k)
  have "map (\<lambda>i. char_of (n div 256 ^ i)) [0..<Suc k] =
      (char_of n :: char) # map (\<lambda>i. char_of (n div 256 div 256 ^ i)) [0..<k]"
    by (simp add: map_upt_Suc div_mult2_eq del: upt_Suc)
  then have "horner_sum of_char 256 (map (\<lambda>i. char_of (n div 256 ^ i) :: char) [0..<Suc k]) =
      n mod 256 + 256 * (n div 256 mod 256 ^ k)"
    using Suc [of "n div 256"] by simp
  then show ?case by (simp add: mod_mult2_eq add.commute)
qed simp

lemma length_word_bytes [simp]: "length (word_bytes (w :: 'a::len word)) = LENGTH('a) div 8"
  by (simp add: word_bytes_def)

lemma read_word_at:
  assumes "8 dvd LENGTH('a)" and "i = length xs"
  shows "read_word (xs @ word_bytes w @ ys) i = Some (w :: 'a::len word)"
proof -
  have "256 ^ (LENGTH('a) div 8) = (2 :: nat) ^ LENGTH('a)"
    using assms(1) power_mult [of "2 :: nat" 8 "LENGTH('a) div 8"] by simp
  then have "horner_sum of_char 256 (word_bytes w) = unat w"
    unfolding word_bytes_def horner_char_of by (simp add: unsigned_less)
  with assms(2) show ?thesis by (simp add: read_word_def)
qed

lemmas read_u32_at [layout_simps] = read_word_at [where ?'a = 32, simplified]
lemmas read_u64_at [layout_simps] = read_word_at [where ?'a = 64, simplified]

lemmas read_u32_0 [layout_simps] = read_u32_at [of 0 "[]", simplified]
lemmas read_u64_0 [layout_simps] = read_u64_at [of 0 "[]", simplified]

lemma read_word_drop:
  "i \<le> length p \<Longrightarrow> read_word (drop i p) j = (read_word p (i + j) :: 'a::len word option)"
  by (simp add: read_word_def add.commute le_diff_conv2 algebra_simps)

lemma read_word_skip [layout_simps]:
  assumes "length xs \<le> i"
  shows "read_word (xs @ p) i = (read_word p (i - length xs) :: 'a::len word option)"
proof -
  obtain j where "i = length xs + j" using assms le_Suc_ex by blast
  then show ?thesis by (simp add: read_word_def add.assoc)
qed

lemma read_bool_at [layout_simps]: "read_bool (bool_bytes b @ p) = Some (b, p)"
  by (simp add: read_bool_def bool_bytes_def)

lemma length_bool_bytes [simp]: "length (bool_bytes b) = 1"
  by (simp add: bool_bytes_def)

lemma length_string_bytes [simp]: "length (string_bytes s) = string_SizeOf s"
proof -
  have "length (takeWhile (\<lambda>c. c \<noteq> NUL) s) + length (dropWhile (\<lambda>c. c \<noteq> NUL) s) = length s"
    by (metis length_append takeWhile_dropWhile_id)
  then show ?thesis by (simp add: string_bytes_def string_SizeOf_def)
qed

lemma string_bytes_c: "NUL \<notin> set s \<Longrightarrow> string_bytes s = s @ [NUL]"
proof -
  assume "NUL \<notin> set s"
  then have all: "\<forall>c\<in>set s. c \<noteq> NUL" by auto
  then have "takeWhile (\<lambda>c. c \<noteq> NUL) s = s" and "dropWhile (\<lambda>c. c \<noteq> NUL) s = []" by simp_all
  then show ?thesis by (simp add: string_bytes_def)
qed

lemma read_c_string_at [layout_simps]:
  assumes "NUL \<notin> set s"
  shows "read_c_string (string_bytes s @ p) = Some s"
proof -
  have "\<forall>c\<in>set s. c \<noteq> NUL" using assms by auto
  then show ?thesis by (simp add: read_c_string_def string_bytes_c [OF assms])
qed

end
