(* ===== verification/Static_Map.thy ===== *)
theory Static_Map
  imports Raw_Memory Std_Map
begin

text \<open>
  \<open>StaticMap\<close> and its iterator (\<open>processor/static_map-inl.h\<close>,
  \<open>static_map_iterator-inl.h\<close>): a read-only map over serialized memory.  Theory
  \<open>Map_Serializers\<close> has the code that writes it.

  A map is its data pointer and its number of nodes; \<open>offsets_\<close> and \<open>keys_\<close> lie
  at fixed places behind the pointer.  An iterator is its index.  The key type is a template
  parameter in the source: its size, its bytes and how it is read.
\<close>

record 'k key_type =
  key_size :: nat
  key_bytes :: "'k \<Rightarrow> char list"
  read_key :: "pointer \<Rightarrow> nat \<Rightarrow> 'k option"

definition int_key :: "int key_type" where
  "int_key = \<lparr>key_size = 4, key_bytes = \<lambda>k. word_bytes (word_of_int k :: u32),
     read_key = \<lambda>p i. map_option sint (read_word p i :: u32 option)\<rparr>"

definition address_key :: "u64 key_type" where
  "address_key = \<lparr>key_size = 8, key_bytes = word_bytes, read_key = read_word\<rparr>"

record static_map =
  raw_data :: pointer
  num_nodes :: int

text \<open>The constructor computes \<open>1 + num_nodes_\<close> in \<open>int\<close>.\<close>

definition new_StaticMap :: "pointer \<Rightarrow> static_map run" where
  "new_StaticMap p = do {
     (n :: u32) \<leftarrow> read_word p 0;
     if sint n = 2 ^ 31 - 1 then None else Some \<lparr>raw_data = p, num_nodes = sint n\<rparr>
   }"

definition DefaultCompare :: "'k::linorder \<Rightarrow> 'k \<Rightarrow> int" where
  "DefaultCompare k1 k2 = (if k1 < k2 then - 1 else if k1 = k2 then 0 else 1)"

definition offset_at_index :: "static_map \<Rightarrow> int \<Rightarrow> u32 run" where
  "offset_at_index m i = read_word (raw_data m) (nat (4 + 4 * i))"

definition key_at_index :: "'k key_type \<Rightarrow> static_map \<Rightarrow> int \<Rightarrow> 'k run" where
  "key_at_index K m i =
     read_key K (raw_data m) (nat ((1 + num_nodes m) * 4 + i * int (key_size K)))"

definition GetKeyAtIndex :: "'k::zero key_type \<Rightarrow> static_map \<Rightarrow> int \<Rightarrow> 'k run" where
  "GetKeyAtIndex K m index =
     (if index < 0 \<or> num_nodes m \<le> index then Some 0 else key_at_index K m index)"

subsection \<open>Lookups by binary search\<close>

text \<open>
  \<open>find\<close>, \<open>lower_bound\<close> and \<open>upper_bound\<close> share their loop; it ends at an
  equal key, with \<open>middle\<close>, or with \<open>begin\<close>.
\<close>

function search_loop ::
  "'k::{linorder,zero} key_type \<Rightarrow> static_map \<Rightarrow> 'k \<Rightarrow> int \<Rightarrow> int \<Rightarrow> (bool \<times> int) run" where
  "search_loop K m key b e =
     (if b < e then
        (let middle = b + (e - b) div 2 in
         case GetKeyAtIndex K m middle of
           None \<Rightarrow> None
         | Some k \<Rightarrow>
             (let compare_result = DefaultCompare key k in
              if compare_result = 0 then Some (True, middle)
              else if compare_result < 0 then search_loop K m key b middle
              else search_loop K m key (middle + 1) e))
      else Some (False, b))"
  by pat_completeness auto
termination
  by (relation "measure (\<lambda>(_, _, _, b, e). nat (e - b))") auto

declare search_loop.simps [simp del]

definition static_find ::
  "'k::{linorder,zero} key_type \<Rightarrow> static_map \<Rightarrow> 'k \<Rightarrow> int run" where
  "static_find K m key = do {
     (found, i) \<leftarrow> search_loop K m key 0 (num_nodes m);
     Some (if found then i else num_nodes m)
   }"

definition static_lower_bound ::
  "'k::{linorder,zero} key_type \<Rightarrow> static_map \<Rightarrow> 'k \<Rightarrow> int run" where
  "static_lower_bound K m key = do {
     (found, i) \<leftarrow> search_loop K m key 0 (num_nodes m);
     Some i
   }"

definition static_upper_bound ::
  "'k::{linorder,zero} key_type \<Rightarrow> static_map \<Rightarrow> 'k \<Rightarrow> int run" where
  "static_upper_bound K m key = do {
     (found, i) \<leftarrow> search_loop K m key 0 (num_nodes m);
     Some (if found then i + 1 else i)
   }"

subsection \<open>Iterators\<close>

definition IsValid :: "static_map \<Rightarrow> int \<Rightarrow> bool" where
  "IsValid m index = (0 \<le> index \<and> index \<le> num_nodes m)"

definition iterator_next :: "static_map \<Rightarrow> int \<Rightarrow> int" where
  "iterator_next m index =
     (if \<not> IsValid m index then index
      else if num_nodes m < index + 1 then num_nodes m else index + 1)"

definition iterator_prev :: "static_map \<Rightarrow> int \<Rightarrow> int" where
  "iterator_prev m index =
     (if \<not> IsValid m index then index else if index - 1 < 0 then 0 else index - 1)"

text \<open>Both follow a null pointer when the iterator is invalid.\<close>

definition GetKey :: "'k key_type \<Rightarrow> static_map \<Rightarrow> int \<Rightarrow> 'k run" where
  "GetKey K m index = (if IsValid m index then key_at_index K m index else None)"

definition GetValuePtr :: "static_map \<Rightarrow> int \<Rightarrow> pointer run" where
  "GetValuePtr m index =
     (if IsValid m index then do {
        offset \<leftarrow> offset_at_index m index;
        Some (drop (unat offset) (raw_data m))
      } else None)"

subsection \<open>Validation\<close>

function validate_nodes ::
  "'k::{linorder,zero} key_type \<Rightarrow> static_map \<Rightarrow> int \<Rightarrow> bool run" where
  "validate_nodes K m node_index =
     (if node_index < num_nodes m then do {
        offset \<leftarrow> offset_at_index m node_index;
        previous \<leftarrow> offset_at_index m (node_index - 1);
        if offset \<le> previous then Some False
        else do {
          key \<leftarrow> GetKeyAtIndex K m node_index;
          previous_key \<leftarrow> GetKeyAtIndex K m (node_index - 1);
          if DefaultCompare key previous_key \<le> 0 then Some False
          else validate_nodes K m (node_index + 1)
        }
      } else Some True)"
  by pat_completeness auto
termination
  by (relation "measure (\<lambda>(_, m, i). nat (num_nodes m - i))") auto

declare validate_nodes.simps [simp del]

definition ValidateInMemoryStructure ::
  "'k::{linorder,zero} key_type \<Rightarrow> static_map \<Rightarrow> bool run" where
  "ValidateInMemoryStructure K m =
     (if num_nodes m < 0 then Some False
      else if num_nodes m = 0 then validate_nodes K m 1
      else
        let first_offset = 4 * (num_nodes m + 1) + int (key_size K) * num_nodes m in
        if 0xFFFFFFFF < first_offset then Some False
        else do {
          offset \<leftarrow> offset_at_index m 0;
          if offset \<noteq> word_of_int first_offset then Some False else validate_nodes K m 1
        })"

subsection \<open>Maps with increasing keys\<close>

definition static_key :: "'k::zero key_type \<Rightarrow> static_map \<Rightarrow> nat \<Rightarrow> 'k" where
  "static_key K m i = the (GetKeyAtIndex K m (int i))"

definition keys_ok :: "'k::{linorder,zero} key_type \<Rightarrow> static_map \<Rightarrow> bool" where
  "keys_ok K m = (0 \<le> num_nodes m \<and>
     (\<forall>i < nat (num_nodes m). GetKeyAtIndex K m (int i) \<noteq> None) \<and>
     (\<forall>i j. i < j \<longrightarrow> j < nat (num_nodes m) \<longrightarrow> static_key K m i < static_key K m j))"

lemma DefaultCompare_cases:
  "(DefaultCompare a b = 0) = (a = b)" "(DefaultCompare a b < 0) = (a < b)"
  "(DefaultCompare a b \<le> 0) = (a \<le> b)"
  by (auto simp: DefaultCompare_def)

lemma keys_okD:
  assumes "keys_ok K m"
  shows "0 \<le> num_nodes m"
    and "i < nat (num_nodes m) \<Longrightarrow> GetKeyAtIndex K m (int i) = Some (static_key K m i)"
    and "i < j \<Longrightarrow> j < nat (num_nodes m) \<Longrightarrow> static_key K m i < static_key K m j"
  using assms by (auto simp: keys_ok_def static_key_def)

text \<open>Where the loop ends: at the key, or between the keys below and above.\<close>

definition search_result ::
  "'k::{linorder,zero} key_type \<Rightarrow> static_map \<Rightarrow> 'k \<Rightarrow> bool \<times> int \<Rightarrow> bool" where
  "search_result K m k r = (case r of (found, pos) \<Rightarrow>
     0 \<le> pos \<and> nat pos \<le> nat (num_nodes m) \<and>
     (if found then nat pos < nat (num_nodes m) \<and> static_key K m (nat pos) = k
      else (\<forall>i < nat pos. static_key K m i < k) \<and>
        (\<forall>i. nat pos \<le> i \<longrightarrow> i < nat (num_nodes m) \<longrightarrow> k < static_key K m i)))"

lemma search_loop_result:
  assumes "keys_ok K m" and "0 \<le> b" and "b \<le> e" and "e \<le> num_nodes m"
    and "\<forall>i < nat b. static_key K m i < k"
    and "\<forall>i. nat e \<le> i \<longrightarrow> i < nat (num_nodes m) \<longrightarrow> k < static_key K m i"
  shows "\<exists>r. search_loop K m k b e = Some r \<and> search_result K m k r"
  using assms
proof (induction K m k b e rule: search_loop.induct)
  case (1 K m k b e)
  note step = search_loop.simps [of K m k b e]
  show ?case
  proof (cases "b < e")
    case False
    then have "search_loop K m k b e = Some (False, b)" by (simp add: step)
    moreover have "search_result K m k (False, b)"
      using False "1.prems" by (simp add: search_result_def)
    ultimately show ?thesis by blast
  next
    case True
    define mid where "mid = b + (e - b) div 2"
    have mid: "b \<le> mid" "mid < e" "0 \<le> mid" using True "1.prems"(2) by (auto simp: mid_def)
    then have n: "nat mid < nat (num_nodes m)" using "1.prems"(4) by simp
    then have get: "GetKeyAtIndex K m mid = Some (static_key K m (nat mid))"
      using keys_okD(2) [OF "1.prems"(1) n] mid(3) by simp
    let ?k = "static_key K m (nat mid)"
    have turn: "search_loop K m k b e =
        (if k = ?k then Some (True, mid) else if k < ?k then search_loop K m k b mid
         else search_loop K m k (mid + 1) e)"
      using True get by (simp add: step mid_def [symmetric] Let_def DefaultCompare_cases)
    consider "k = ?k" | "k < ?k" | "?k < k" by (rule linorder_cases)
    then show ?thesis
    proof cases
      case 1
      then have "search_loop K m k b e = Some (True, mid)" unfolding turn by (rule if_P)
      moreover have "search_result K m k (True, mid)"
        using less_imp_le [OF n] n mid(3) 1 [symmetric] by (simp add: search_result_def del: nat_less_eq_zless zless_nat_conj)
      ultimately show ?thesis by blast
    next
      case 2
      have above: "k < static_key K m i" if "nat mid \<le> i" "i < nat (num_nodes m)" for i
      proof (cases "i = nat mid")
        case False
        with that keys_okD(3) [OF "1.prems"(1), of "nat mid" i] 2 show ?thesis by simp
      qed (use 2 in simp)
      have "\<exists>r. search_loop K m k b mid = Some r \<and> search_result K m k r"
        by (rule "1.IH"(1) [OF True mid_def get refl])
          (use 2 less_imp_neq [OF 2] mid "1.prems" above in \<open>simp_all add: DefaultCompare_cases\<close>)
      with 2 less_imp_neq [OF 2] show ?thesis unfolding turn by simp
    next
      case 3
      have below: "static_key K m i < k" if "i < nat (mid + 1)" for i
      proof (cases "i = nat mid")
        case False
        with that mid(3) n keys_okD(3) [OF "1.prems"(1), of i "nat mid"] 3 show ?thesis by force
      qed (use 3 in simp)
      have "\<exists>r. search_loop K m k (mid + 1) e = Some r \<and> search_result K m k r"
        by (rule "1.IH"(2) [OF True mid_def get refl])
          (use 3 less_imp_neq [OF 3] less_not_sym [OF 3] mid "1.prems" below in \<open>auto simp: DefaultCompare_cases nat_less_iff\<close>)
      with less_imp_neq [OF 3] less_not_sym [OF 3] show ?thesis unfolding turn by simp
    qed
  qed
qed

lemma search_loop_found:
  assumes "keys_ok K m"
  obtains found pos where "search_loop K m k 0 (num_nodes m) = Some (found, pos)"
    and "search_result K m k (found, pos)"
  using search_loop_result [OF assms, of 0 "num_nodes m" k] keys_okD(1) [OF assms] by auto

lemma search_result_bounds:
  assumes "keys_ok K m" and "search_result K m k (found, pos)"
  shows "0 \<le> pos" and "nat pos \<le> nat (num_nodes m)"
    and "i < nat pos \<Longrightarrow> static_key K m i < k"
    and "i < nat (if found then pos + 1 else pos) \<Longrightarrow> static_key K m i \<le> k"
    and "nat pos \<le> i \<Longrightarrow> i < nat (num_nodes m) \<Longrightarrow> k \<le> static_key K m i"
    and "nat (if found then pos + 1 else pos) \<le> i \<Longrightarrow> i < nat (num_nodes m) \<Longrightarrow> k < static_key K m i"
proof -
  note inc = keys_okD(3) [OF assms(1)]
  have r: "0 \<le> pos" "nat pos \<le> nat (num_nodes m)"
    "found \<Longrightarrow> nat pos < nat (num_nodes m) \<and> static_key K m (nat pos) = k"
    "\<not> found \<Longrightarrow> (\<forall>i < nat pos. static_key K m i < k) \<and>
        (\<forall>i. nat pos \<le> i \<longrightarrow> i < nat (num_nodes m) \<longrightarrow> k < static_key K m i)"
    using assms(2) by (auto simp: search_result_def)
  show "0 \<le> pos" "nat pos \<le> nat (num_nodes m)" using r by auto
  show below: "static_key K m i < k" if "i < nat pos" for i
    using r that inc [of i "nat pos"] by (cases found) auto
  show above: "k \<le> static_key K m i" if "nat pos \<le> i" "i < nat (num_nodes m)" for i
    using r that inc [of "nat pos" i] by (cases found; cases "i = nat pos") auto
  show "static_key K m i \<le> k" if "i < nat (if found then pos + 1 else pos)"
  proof (cases "i < nat pos")
    case False
    with that r(1) have "found" "i = nat pos" by (auto split: if_split_asm)
    with r show ?thesis by simp
  qed (simp add: below less_imp_le)
  show "k < static_key K m i"
    if "nat (if found then pos + 1 else pos) \<le> i" "i < nat (num_nodes m)"
    using that r inc [of "nat pos" i] by (cases found) auto
qed

text \<open>The serialized map is an ordered index, as \<open>std::map\<close> is.\<close>

interpretation static: ordered_index "keys_ok K" "\<lambda>m. nat (num_nodes m)" "static_key K"
  "\<lambda>m k. nat (the (static_lower_bound K m k))" "\<lambda>m k. nat (the (static_upper_bound K m k))"
  for K :: "'k::{linorder,zero} key_type"
proof
  fix m and k :: 'k and i j :: nat
  assume m: "keys_ok K m"
  obtain found pos where run: "search_loop K m k 0 (num_nodes m) = Some (found, pos)"
    and result: "search_result K m k (found, pos)" by (rule search_loop_found [OF m])
  have lb: "the (static_lower_bound K m k) = pos" by (simp add: static_lower_bound_def run)
  have ub: "the (static_upper_bound K m k) = (if found then pos + 1 else pos)"
    by (simp add: static_upper_bound_def run)
  note b = search_result_bounds [OF m result]
  show "i < j \<Longrightarrow> j < nat (num_nodes m) \<Longrightarrow> static_key K m i < static_key K m j"
    by (rule keys_okD(3) [OF m])
  show "nat (the (static_lower_bound K m k)) \<le> nat (num_nodes m)" unfolding lb by (rule b(2))
  show "i < nat (the (static_lower_bound K m k)) \<Longrightarrow> static_key K m i < k" unfolding lb by (rule b(3))
  show "nat (the (static_lower_bound K m k)) \<le> i \<Longrightarrow> i < nat (num_nodes m) \<Longrightarrow> k \<le> static_key K m i"
    unfolding lb by (rule b(5))
  show "i < nat (the (static_upper_bound K m k)) \<Longrightarrow> static_key K m i \<le> k" unfolding ub by (rule b(4))
  show "nat (the (static_upper_bound K m k)) \<le> i \<Longrightarrow> i < nat (num_nodes m) \<Longrightarrow> k < static_key K m i"
    unfolding ub by (rule b(6))
  show "nat (the (static_upper_bound K m k)) \<le> nat (num_nodes m)"
    using result unfolding ub by (auto simp: search_result_def split: if_split_asm)
qed

lemma static_bounds_return:
  assumes "keys_ok K m"
  shows "static_lower_bound K m k = Some (int (nat (the (static_lower_bound K m k))))"
    and "static_upper_bound K m k = Some (int (nat (the (static_upper_bound K m k))))"
proof -
  obtain found pos where run: "search_loop K m k 0 (num_nodes m) = Some (found, pos)"
    and result: "search_result K m k (found, pos)" by (rule search_loop_found [OF assms])
  then have "0 \<le> pos" by (simp add: search_result_def)
  then show "static_lower_bound K m k = Some (int (nat (the (static_lower_bound K m k))))"
    "static_upper_bound K m k = Some (int (nat (the (static_upper_bound K m k))))"
    by (simp_all add: static_lower_bound_def static_upper_bound_def run)
qed

subsection \<open>Validated memory\<close>

lemma validate_nodes_keys:
  assumes "validate_nodes K m i = Some True" and "0 < i"
    and "i \<le> j" and "j < num_nodes m"
  shows "\<exists>a b. GetKeyAtIndex K m j = Some a \<and> GetKeyAtIndex K m (j - 1) = Some b \<and> b < a"
  using assms
proof (induction K m i rule: validate_nodes.induct)
  case (1 K m i)
  have i: "i < num_nodes m" using "1.prems" by simp
  have run: "validate_nodes K m i = Some True" by (rule "1.prems"(1))
  obtain o1 where o1: "offset_at_index m i = Some o1"
    using run i by (auto simp: validate_nodes.simps [of K m i] bind_eq_Some_conv)
  obtain o0 where o0: "offset_at_index m (i - 1) = Some o0" "\<not> o1 \<le> o0"
    using run i o1 by (auto simp: validate_nodes.simps [of K m i] bind_eq_Some_conv split: if_split_asm)
  obtain k1 where k1: "GetKeyAtIndex K m i = Some k1"
    using run i o1 o0 by (auto simp: validate_nodes.simps [of K m i] bind_eq_Some_conv)
  obtain k0 where k0: "GetKeyAtIndex K m (i - 1) = Some k0" "\<not> k1 \<le> k0"
    and onward: "validate_nodes K m (i + 1) = Some True"
    using run i o1 o0 k1
    by (auto simp: validate_nodes.simps [of K m i] bind_eq_Some_conv DefaultCompare_cases split: if_split_asm)
  show ?case
  proof (cases "j = i")
    case True
    with k1 k0 show ?thesis by auto
  next
    case False
    have "\<not> DefaultCompare k1 k0 \<le> 0" using k0(2) by (simp add: DefaultCompare_cases)
    from "1.IH" [OF i o1 o0 k1 k0(1) this onward] False "1.prems"(2-4) show ?thesis by simp
  qed
qed

lemma validated_keys_ok:
  assumes "ValidateInMemoryStructure K m = Some True"
    and "num_nodes m = 1 \<Longrightarrow> GetKeyAtIndex K m 0 \<noteq> None"
  shows "keys_ok K m"
proof -
  have n: "0 \<le> num_nodes m" and nodes: "validate_nodes K m 1 = Some True"
    using assms(1) by (auto simp: ValidateInMemoryStructure_def Let_def bind_eq_Some_conv split: if_split_asm)
  have pair: "\<exists>a b. GetKeyAtIndex K m (int (Suc i)) = Some a \<and> GetKeyAtIndex K m (int i) = Some b \<and> b < a"
    if "Suc i < nat (num_nodes m)" for i
    using validate_nodes_keys [OF nodes, of "int (Suc i)"] that by simp
  have "GetKeyAtIndex K m (int i) \<noteq> None" if "i < nat (num_nodes m)" for i
  proof (cases i)
    case 0
    show ?thesis
    proof (cases "num_nodes m = 1")
      case True
      with assms(2) 0 show ?thesis by simp
    next
      case False
      with that 0 pair [of 0] show ?thesis by auto
    qed
  next
    case (Suc j)
    with that pair [of j] show ?thesis by auto
  qed
  moreover have "static_key K m i < static_key K m j" if "i < j" "j < nat (num_nodes m)" for i j
    using that
  proof (induction j)
    case (Suc j)
    have "static_key K m j < static_key K m (Suc j)"
      using pair [of j] Suc.prems(2) by (auto simp: static_key_def)
    with Suc show ?case by (cases "i = j") auto
  qed simp
  ultimately show ?thesis using n by (simp add: keys_ok_def)
qed

text \<open>
  On memory that \<open>ValidateInMemoryStructure\<close> accepts, whoever wrote it, the binary
  searches end without reading outside the data, and yield the first key that is not below,
  or is above, the one asked for.
\<close>

theorem validated_search:
  assumes "ValidateInMemoryStructure K m = Some True"
    and "num_nodes m = 1 \<Longrightarrow> GetKeyAtIndex K m 0 \<noteq> None"
  shows "\<exists>l u. static_lower_bound K m k = Some (int l) \<and> static_upper_bound K m k = Some (int u) \<and>
    l \<le> u \<and> u \<le> nat (num_nodes m) \<and>
    (\<forall>i < nat (num_nodes m). \<exists>x. GetKeyAtIndex K m (int i) = Some x \<and>
       (i < l \<longleftrightarrow> x < k) \<and> (i < u \<longleftrightarrow> x \<le> k))"
proof -
  note ok = validated_keys_ok [OF assms]
  define l where "l = nat (the (static_lower_bound K m k))"
  define u where "u = nat (the (static_upper_bound K m k))"
  have l: "static_lower_bound K m k = Some (int l)"
    unfolding l_def by (rule static_bounds_return(1) [OF ok])
  have u: "static_upper_bound K m k = Some (int u)"
    unfolding u_def by (rule static_bounds_return(2) [OF ok])
  have at: "\<exists>x. GetKeyAtIndex K m (int i) = Some x \<and> (i < l \<longleftrightarrow> x < k) \<and> (i < u \<longleftrightarrow> x \<le> k)"
    if "i < nat (num_nodes m)" for i
    using keys_okD(2) [OF ok that] static.lb_below [OF ok, of i k] static.lb_above [OF ok, of k i]
      static.ub_below [OF ok, of i k] static.ub_above [OF ok, of k i] that
    unfolding l_def u_def by (metis leD not_le)
  have bound: "u \<le> nat (num_nodes m)" "l \<le> nat (num_nodes m)"
    unfolding u_def l_def using static.ub_le [OF ok] static.lb_le [OF ok] by simp_all
  have "l \<le> u"
  proof (rule ccontr)
    assume "\<not> l \<le> u"
    then have "u < nat (num_nodes m)" "u < l" using bound by auto
    with at [of u] show False by auto
  qed
  with l u at bound show ?thesis by blast
qed

text \<open>A map with the keys 10 and 20 and the values \<open>a\<close> and \<open>b\<close>.\<close>

definition sample_static_map :: static_map where
  "sample_static_map = \<lparr>raw_data = word_bytes (2 :: u32) @ word_bytes (28 :: u32) @ word_bytes (29 :: u32) @
     word_bytes (10 :: u64) @ word_bytes (20 :: u64) @ ''ab'', num_nodes = 2\<rparr>"

lemma sample_static_reads:
  "offset_at_index sample_static_map 0 = Some 28" "offset_at_index sample_static_map 1 = Some 29"
  "GetKeyAtIndex address_key sample_static_map 0 = Some 10"
  "GetKeyAtIndex address_key sample_static_map 1 = Some 20"
  by (simp_all add: offset_at_index_def GetKeyAtIndex_def key_at_index_def address_key_def
      sample_static_map_def layout_simps)

lemma sample_static_valid: "ValidateInMemoryStructure address_key sample_static_map = Some True"
proof -
  have n: "num_nodes sample_static_map = 2" by (simp add: sample_static_map_def)
  have "validate_nodes address_key sample_static_map 2 = Some True"
    by (simp add: validate_nodes.simps n)
  then have "validate_nodes address_key sample_static_map 1 = Some True"
    by (simp add: validate_nodes.simps [of _ _ 1] sample_static_reads n DefaultCompare_def)
  then show ?thesis
    by (simp add: ValidateInMemoryStructure_def sample_static_reads n) (simp add: address_key_def)
qed

theorem validated_search_witness:
  "\<exists>l u. static_lower_bound address_key sample_static_map 15 = Some (int l) \<and>
    static_upper_bound address_key sample_static_map 15 = Some (int u) \<and> l \<le> u \<and> u \<le> 2"
  using validated_search [OF sample_static_valid, of 15] by (auto simp: sample_static_map_def)

end
