(* ===== verification/Map_Serializers.thy ===== *)
theory Map_Serializers
  imports Static_Map Address_Map Range_Map Contained_Range_Map "HOL-Library.Sublist"
begin

text \<open>
  The serializers of the map classes (\<open>processor/map_serializers-inl.h\<close>) and the
  static maps that read what they wrote (\<open>static_address_map-inl.h\<close>,
  \<open>static_range_map-inl.h\<close>, \<open>static_contained_range_map-inl.h\<close>).

  The serializer of the values is an argument, as it is a template parameter of the source:
  the size it announces and the bytes it writes.
\<close>

subsection \<open>Writing a map\<close>

text \<open>
  The loop of \<open>Write\<close> fills the offsets, the keys and the values in one pass;
  \<open>dest\<close> is the place of the next value, counted from the start of the map.
\<close>

fun write_nodes ::
  "'k key_type \<Rightarrow> ('v \<Rightarrow> char list) \<Rightarrow> nat \<Rightarrow> ('k, 'v) smap \<Rightarrow> char list \<times> char list \<times> char list" where
  "write_nodes K write dest [] = ([], [], [])"
| "write_nodes K write dest ((k, v) # nodes) =
     (case write_nodes K write (dest + length (write v)) nodes of (offsets, keys, values) \<Rightarrow>
        (word_bytes (of_nat dest :: u32) @ offsets, key_bytes K k @ keys, write v @ values))"

lemma write_nodes_cong [fundef_cong]:
  "K = K' \<Longrightarrow> dest = dest' \<Longrightarrow> m = m' \<Longrightarrow> (\<And>k v. (k, v) \<in> set m' \<Longrightarrow> write v = write' v) \<Longrightarrow>
     write_nodes K write dest m = write_nodes K' write' dest' m'"
proof -
  assume eq: "K = K'" "dest = dest'" "m = m'" and "\<And>k v. (k, v) \<in> set m' \<Longrightarrow> write v = write' v"
  then have "\<forall>p\<in>set m. write (snd p) = write' (snd p)" by auto
  then have "write_nodes K write dest m = write_nodes K write' dest m" for dest
    by (induction m arbitrary: dest) auto
  with eq show ?thesis by simp
qed

definition StdMap_Write ::
  "'k key_type \<Rightarrow> ('v \<Rightarrow> char list) \<Rightarrow> ('k, 'v) smap \<Rightarrow> char list" where
  "StdMap_Write K write m =
     (case write_nodes K write (4 + 4 * length m + key_size K * length m) m of
        (offsets, keys, values) \<Rightarrow>
          word_bytes (of_nat (length m) :: u32) @ offsets @ keys @ values)"

definition StdMap_SizeOf ::
  "'k key_type \<Rightarrow> ('v \<Rightarrow> nat) \<Rightarrow> ('k, 'v) smap \<Rightarrow> nat" where
  "StdMap_SizeOf K size_of m = (1 + length m) * 4 + (\<Sum>(k, v)\<leftarrow>m. key_size K + size_of v)"

text \<open>
  \<open>Serialize\<close> keeps the size in an \<open>unsigned int\<close> and allocates that much; to write
  more than was allocated is \<open>None\<close>.
\<close>

definition serialize_buffer :: "nat \<Rightarrow> char list \<Rightarrow> (char list \<times> u32) run" where
  "serialize_buffer size_of written =
     (let size_to_alloc = (of_nat size_of :: u32) in
      if unat size_to_alloc < length written then None else Some (written, size_to_alloc))"

definition StdMap_Serialize ::
  "'k key_type \<Rightarrow> ('v \<Rightarrow> nat) \<Rightarrow> ('v \<Rightarrow> char list) \<Rightarrow> ('k, 'v) smap \<Rightarrow> (char list \<times> u32) run" where
  "StdMap_Serialize K size_of write m =
     serialize_buffer (StdMap_SizeOf K size_of m) (StdMap_Write K write m)"

text \<open>\<open>AddressMapSerializer\<close> passes \<open>map_\<close> on.\<close>

definition AddressMap_SizeOf :: "('v \<Rightarrow> nat) \<Rightarrow> (u64, 'v) address_map \<Rightarrow> nat" where
  "AddressMap_SizeOf size_of m = StdMap_SizeOf address_key size_of m"

definition AddressMap_Write :: "('v \<Rightarrow> char list) \<Rightarrow> (u64, 'v) address_map \<Rightarrow> char list" where
  "AddressMap_Write write m = StdMap_Write address_key write m"

definition AddressMap_Serialize ::
  "('v \<Rightarrow> nat) \<Rightarrow> ('v \<Rightarrow> char list) \<Rightarrow> (u64, 'v) address_map \<Rightarrow> (char list \<times> u32) run" where
  "AddressMap_Serialize size_of write m = StdMap_Serialize address_key size_of write m"

text \<open>A range is written as its base and its entry; its delta is not written.\<close>

definition range_bytes :: "('e \<Rightarrow> char list) \<Rightarrow> (u64, 'e) Range \<Rightarrow> char list" where
  "range_bytes write r = word_bytes (r_base r) @ write (r_entry r)"

definition RangeMap_SizeOf :: "('e \<Rightarrow> nat) \<Rightarrow> (u64, 'e) range_map \<Rightarrow> nat" where
  "RangeMap_SizeOf size_of m =
     (1 + length (rmap m)) * 4 + (\<Sum>(k, r)\<leftarrow>rmap m. 8 + 8 + size_of (r_entry r))"

definition RangeMap_Write :: "('e \<Rightarrow> char list) \<Rightarrow> (u64, 'e) range_map \<Rightarrow> char list" where
  "RangeMap_Write write m =
     (case write_nodes address_key (range_bytes write)
             (4 + 4 * length (rmap m) + 8 * length (rmap m)) (rmap m) of
        (offsets, keys, values) \<Rightarrow>
          word_bytes (of_nat (length (rmap m)) :: u32) @ offsets @ keys @ values)"

definition RangeMap_Serialize ::
  "('e \<Rightarrow> nat) \<Rightarrow> ('e \<Rightarrow> char list) \<Rightarrow> (u64, 'e) range_map \<Rightarrow> (char list \<times> u32) run" where
  "RangeMap_Serialize size_of write m =
     serialize_buffer (RangeMap_SizeOf size_of m) (RangeMap_Write write m)"

text \<open>
  The entry of the root is the null pointer its constructor leaves there, for which nothing
  is written; the tree of the model has an arbitrary entry in its place.
\<close>

definition entry_bytes :: "bool \<Rightarrow> ('e \<Rightarrow> char list) \<Rightarrow> 'e \<Rightarrow> char list" where
  "entry_bytes root write e = (if root then [] else write e)"

lemma size_member:
  "(k, child) \<in> set m \<Longrightarrow> size child < Suc (size_list (size_prod (\<lambda>_. 0) size) m)"
  by (metis in_set_conv_nth size_child snd_conv)

function contained_SizeOf ::
  "bool \<Rightarrow> ('e \<Rightarrow> nat) \<Rightarrow> (u64, 'e) contained_range_map \<Rightarrow> nat" where
  "contained_SizeOf root size_of (CNode b e m) =
     8 + (if root then 0 else size_of e) + 4 + 4 +
     (4 * length m + (\<Sum>(k, child)\<leftarrow>m. 8 + contained_SizeOf False size_of child))"
  by pat_completeness auto
termination
  by (relation "measure (\<lambda>(_, _, n). size n)") (auto simp: size_member)

function contained_Write ::
  "bool \<Rightarrow> ('e \<Rightarrow> nat) \<Rightarrow> ('e \<Rightarrow> char list) \<Rightarrow> (u64, 'e) contained_range_map \<Rightarrow> char list" where
  "contained_Write root size_of write (CNode b e m) =
     word_bytes b @ word_bytes (of_nat (if root then 0 else size_of e) :: u32) @
     entry_bytes root write e @
     (case write_nodes address_key (\<lambda>child. contained_Write False size_of write child)
             (4 + 4 * length m + 8 * length m) m of
        (offsets, keys, values) \<Rightarrow>
          word_bytes (of_nat (length m) :: u32) @ offsets @ keys @ values)"
  by pat_completeness auto
termination
  by (relation "measure (\<lambda>(_, _, _, n). size n)") (auto simp: size_member)

definition contained_Serialize ::
  "('e \<Rightarrow> nat) \<Rightarrow> ('e \<Rightarrow> char list) \<Rightarrow> (u64, 'e) contained_range_map \<Rightarrow> (char list \<times> u32) run" where
  "contained_Serialize size_of write n =
     serialize_buffer (contained_SizeOf True size_of n) (contained_Write True size_of write n)"

declare contained_SizeOf.simps [simp del] contained_Write.simps [simp del]

subsection \<open>What is written\<close>

lemma concat_map_nth:
  assumes "i < length xs"
  shows "concat (map f xs) = concat (map f (take i xs)) @ f (xs ! i) @ concat (map f (drop (Suc i) xs))"
  by (subst id_take_nth_drop [OF assms]) simp

lemma length_concat_map_const:
  "(\<And>x. x \<in> set xs \<Longrightarrow> length (f x) = c) \<Longrightarrow> length (concat (map f xs)) = c * length xs"
  by (induction xs) auto

text \<open>The place of value \<open>i\<close>, counted from the start of the map.\<close>

definition value_place :: "('v \<Rightarrow> char list) \<Rightarrow> nat \<Rightarrow> ('k, 'v) smap \<Rightarrow> nat \<Rightarrow> nat" where
  "value_place write dest m i = dest + length (concat (map (\<lambda>p. write (snd p)) (take i m)))"

lemma write_nodes_eq:
  "write_nodes K write dest m =
     (concat (map (\<lambda>i. word_bytes (of_nat (value_place write dest m i) :: u32)) [0..<length m]),
      concat (map (\<lambda>p. key_bytes K (fst p)) m), concat (map (\<lambda>p. write (snd p)) m))"
proof (induction m arbitrary: dest)
  case (Cons p m)
  have "[0..<length (p # m)] = 0 # map Suc [0..<length m]" by (simp add: upt_conv_Cons map_Suc_upt del: upt_Suc)
  then show ?case by (cases p) (simp add: Cons value_place_def comp_def add.assoc del: upt_Suc)
qed simp

lemma StdMap_Write_eq:
  "StdMap_Write K write m =
     word_bytes (of_nat (length m) :: u32) @
     concat (map (\<lambda>i. word_bytes (of_nat (value_place write (4 + 4 * length m + key_size K * length m) m i) :: u32))
       [0..<length m]) @
     concat (map (\<lambda>p. key_bytes K (fst p)) m) @ concat (map (\<lambda>p. write (snd p)) m)"
  by (simp add: StdMap_Write_def write_nodes_eq)

lemma RangeMap_Write_eq: "RangeMap_Write write m = StdMap_Write address_key (range_bytes write) (rmap m)"
  by (simp add: RangeMap_Write_def StdMap_Write_def address_key_def)

lemma contained_Write_eq:
  "contained_Write root size_of write (CNode b e m) =
     word_bytes b @ word_bytes (of_nat (if root then 0 else size_of e) :: u32) @
     entry_bytes root write e @ StdMap_Write address_key (contained_Write False size_of write) m"
  by (simp add: contained_Write.simps StdMap_Write_def address_key_def cong: write_nodes_cong)

text \<open>The static map holds the keys of a map, and the bytes of its values.\<close>

definition represents ::
  "'k key_type \<Rightarrow> ('v \<Rightarrow> char list) \<Rightarrow> ('k, 'v) smap \<Rightarrow> static_map \<Rightarrow> bool" where
  "represents K write m sm = (num_nodes sm = int (length m) \<and>
     (\<forall>i < length m. key_at_index K sm (int i) = Some (fst (m ! i))) \<and>
     (\<forall>i < length m. \<exists>p. GetValuePtr sm (int i) = Some p \<and> prefix (write (snd (m ! i))) p))"

subsection \<open>The contract of a key type\<close>

locale key_layout =
  fixes K :: "'k::{linorder,zero} key_type"
    and valid :: "'k \<Rightarrow> bool"
  assumes key_length: "length (key_bytes K k) = key_size K"
    and read_key_at: "valid k \<Longrightarrow> i = length xs \<Longrightarrow> read_key K (xs @ key_bytes K k @ ys) i = Some k"
begin

lemma length_StdMap_Write:
  "length (StdMap_Write K write m) =
     4 + 4 * length m + key_size K * length m + length (concat (map (\<lambda>p. write (snd p)) m))"
proof -
  have "length (concat (map (\<lambda>i. word_bytes (f i :: u32)) [0..<length m])) = 4 * length m" for f
    using length_concat_map_const [of "[0..<length m]" "\<lambda>i. word_bytes (f i :: u32)" 4] by simp
  moreover have "length (concat (map (\<lambda>p. key_bytes K (fst p)) m)) = key_size K * length m"
    by (intro length_concat_map_const key_length)
  ultimately show ?thesis by (simp add: StdMap_Write_eq)
qed

lemma StdMap_SizeOf_eq:
  assumes "\<forall>p\<in>set m. size_of (snd p) = length (write (snd p))"
  shows "StdMap_SizeOf K size_of m = length (StdMap_Write K write m)"
proof -
  have "(\<Sum>(k, v)\<leftarrow>m. key_size K + size_of v) =
      key_size K * length m + length (concat (map (\<lambda>p. write (snd p)) m))"
    using assms by (induction m) (auto simp: algebra_simps)
  then show ?thesis by (simp add: StdMap_SizeOf_def length_StdMap_Write)
qed

text \<open>A static map over what was written has the same nodes.\<close>

lemma new_StaticMap_written:
  assumes valid_keys: "\<forall>p\<in>set m. valid (fst p)" and fits: "length (StdMap_Write K write m) < 2 ^ 32"
  obtains sm where "new_StaticMap (StdMap_Write K write m @ rest) = Some sm"
    and "represents K write m sm"
    and "\<And>i. i < length m \<Longrightarrow> offset_at_index sm (int i) =
      Some (of_nat (value_place write (4 + 4 * length m + key_size K * length m) m i))"
proof -
  define offsets where "offsets = (\<lambda>i. word_bytes (of_nat (value_place write
      (4 + 4 * length m + key_size K * length m) m i) :: u32))"
  define p where "p = StdMap_Write K write m @ rest"
  let ?keys = "\<lambda>m. concat (map (\<lambda>p. key_bytes K (fst p)) m)"
  let ?vals = "\<lambda>m. concat (map (\<lambda>p. write (snd p)) m)"
  have p: "p = word_bytes (of_nat (length m) :: u32) @ concat (map offsets [0..<length m]) @
      ?keys m @ ?vals m @ rest"
    by (simp add: p_def StdMap_Write_eq offsets_def)
  have len: "length (concat (map offsets [0..<n])) = 4 * n" for n
    using length_concat_map_const [of "[0..<n]" offsets 4] by (simp add: offsets_def)
  have klen: "length (?keys m') = key_size K * length m'" for m' :: "('k, 'a) smap"
    by (intro length_concat_map_const key_length)
  have small: "length m < 2 ^ 30" using fits by (simp add: length_StdMap_Write)
  have n: "sint (of_nat (length m) :: u32) = int (length m)"
    using small by (simp add: signed_of_nat signed_take_bit_int_eq_self)
  define sm where "sm = \<lparr>raw_data = p, num_nodes = int (length m)\<rparr>"
  have new: "new_StaticMap p = Some sm"
    using small by (simp add: new_StaticMap_def p read_u32_0 n sm_def)
  have at: "[0..<length m] ! i = i" if "i < length m" for i using that by simp
  have offset: "offset_at_index sm (int i) =
      Some (of_nat (value_place write (4 + 4 * length m + key_size K * length m) m i))" if i: "i < length m" for i
  proof -
    let ?place = "value_place write (4 + 4 * length m + key_size K * length m) m i"
    let ?before = "word_bytes (of_nat (length m) :: u32) @ concat (map offsets (take i [0..<length m]))"
    have "p = ?before @ word_bytes (of_nat ?place :: u32) @
        concat (map offsets (drop (Suc i) [0..<length m])) @ ?keys m @ ?vals m @ rest"
      unfolding p using i by (subst concat_map_nth [of i "[0..<length m]"]) (simp_all add: at, simp add: offsets_def)
    moreover have "4 + 4 * i = length ?before" using i len [of i] by simp
    ultimately have "read_word p (4 + 4 * i) = Some (of_nat ?place :: u32)" by (simp only: read_u32_at)
    moreover have "nat (4 + 4 * int i) = 4 + 4 * i" by simp
    ultimately show ?thesis by (simp only: offset_at_index_def sm_def static_map.simps)
  qed
  have "represents K write m sm"
    unfolding represents_def
  proof (intro conjI allI impI)
    show "num_nodes sm = int (length m)" by (simp add: sm_def)
  next
    fix i assume i: "i < length m"
    have key: "nat ((1 + int (length m)) * 4 + int i * int (key_size K)) = 4 + 4 * length m + key_size K * i"
      by (simp add: nat_add_distrib nat_mult_distrib algebra_simps)
    let ?before = "word_bytes (of_nat (length m) :: u32) @ concat (map offsets [0..<length m]) @ ?keys (take i m)"
    have "p = ?before @ key_bytes K (fst (m ! i)) @ ?keys (drop (Suc i) m) @ ?vals m @ rest"
      unfolding p by (subst concat_map_nth [OF i]) simp
    moreover have "4 + 4 * length m + key_size K * i = length ?before" using i by (simp add: len klen)
    ultimately have "read_key K p (4 + 4 * length m + key_size K * i) = Some (fst (m ! i))"
      using valid_keys i by (simp only: read_key_at nth_mem)
    then show "key_at_index K sm (int i) = Some (fst (m ! i))"
      by (simp only: key_at_index_def sm_def static_map.simps key)
  next
    fix i assume i: "i < length m"
    let ?place = "value_place write (4 + 4 * length m + key_size K * length m) m i"
    have split: "?vals m = ?vals (take i m) @ write (snd (m ! i)) @ ?vals (drop (Suc i) m)"
      by (rule concat_map_nth [OF i])
    have place: "?place = 4 + 4 * length m + key_size K * length m + length (?vals (take i m))"
      by (simp add: value_place_def)
    have "?place < 2 ^ 32" using fits unfolding place length_StdMap_Write by (subst (asm) split) simp
    then have unat_place: "unat (of_nat ?place :: u32) = ?place"
      by (simp add: unsigned_of_nat take_bit_nat_eq_self)
    note offset [OF i]
    moreover have "drop ?place p = write (snd (m ! i)) @ ?vals (drop (Suc i) m) @ rest"
      unfolding p place by (subst split) (simp add: len klen)
    ultimately have "GetValuePtr sm (int i) = Some (write (snd (m ! i)) @ ?vals (drop (Suc i) m) @ rest)"
      using i by (simp add: GetValuePtr_def IsValid_def unat_place) (simp add: sm_def)
    then show "\<exists>p. GetValuePtr sm (int i) = Some p \<and> prefix (write (snd (m ! i))) p" by auto
  qed
  from new [unfolded p_def] this offset show ?thesis by (rule that)
qed

end

interpretation int_key: key_layout int_key "\<lambda>k. k \<in> {- (2 ^ 31) ..< 2 ^ 31}"
proof
  show "length (key_bytes int_key k) = key_size int_key" for k by (simp add: int_key_def)
  show "read_key int_key (xs @ key_bytes int_key k @ ys) i = Some k"
    if "k \<in> {- (2 ^ 31) ..< 2 ^ 31}" "i = length xs" for k xs ys i
  proof -
    have "sint (word_of_int k :: u32) = k"
      using that(1) by (simp add: signed_of_int signed_take_bit_int_eq_self)
    then show ?thesis using that(2) by (simp add: int_key_def read_u32_at)
  qed
qed

interpretation address_key: key_layout address_key "\<lambda>_. True"
  by unfold_locales (simp_all add: address_key_def read_u64_at)

subsection \<open>Static maps that represent a map\<close>

lemma representsD:
  assumes "represents K write m sm"
  shows "num_nodes sm = int (length m)"
    and "i < length m \<Longrightarrow> key_at_index K sm (int i) = Some (fst (m ! i))"
    and "i < length m \<Longrightarrow> GetKeyAtIndex K sm (int i) = Some (fst (m ! i))"
    and "i < length m \<Longrightarrow> GetKey K sm (int i) = Some (fst (m ! i))"
    and "i < length m \<Longrightarrow> static_key K sm i = fst (m ! i)"
  using assms by (auto simp: represents_def GetKeyAtIndex_def GetKey_def IsValid_def static_key_def)

lemma represents_value:
  assumes "represents K write m sm" and "i < length m"
  obtains p where "GetValuePtr sm (int i) = Some p" and "prefix (write (snd (m ! i))) p"
  using assms by (auto simp: represents_def)

lemma represents_keys_ok:
  assumes "represents K write m sm" and "ordered m"
  shows "keys_ok K sm"
  unfolding keys_ok_def using assms by (auto simp: representsD ordered_nth_less)

lemma represents_bounds:
  assumes r: "represents K write m sm" and m: "ordered m"
  shows "static_lower_bound K sm k = Some (int (lower_bound m k))"
    and "static_upper_bound K sm k = Some (int (upper_bound m k))"
proof -
  note ok = represents_keys_ok [OF r m]
  have n: "nat (num_nodes sm) = length m" using representsD(1) [OF r] by simp
  have at: "static_key K sm i = fst (m ! i)" if "i < length m" for i
    using representsD(5) [OF r that] .
  have "nat (the (static_lower_bound K sm k)) = lower_bound m k"
  proof (rule static.lb_eqI [OF ok, unfolded n])
    show "lower_bound m k \<le> length m" by (rule std.lb_le [OF m])
    show "static_key K sm j < k" if "j < lower_bound m k" for j
      using std.lb_below [OF m that] at [of j] that std.lb_le [OF m, of k] by simp
    show "lower_bound m k < length m \<Longrightarrow> k \<le> static_key K sm (lower_bound m k)"
      using std.lb_above [OF m order_refl] at by simp
  qed
  with static_bounds_return(1) [OF ok, of k] show "static_lower_bound K sm k = Some (int (lower_bound m k))"
    by (simp only:)
  have "nat (the (static_upper_bound K sm k)) = upper_bound m k"
  proof (rule static.ub_eqI [OF ok, unfolded n])
    show "upper_bound m k \<le> length m" by (rule std.ub_le [OF m])
    show "static_key K sm j \<le> k" if "j < upper_bound m k" for j
      using std.ub_below [OF m that] at [of j] that std.ub_le [OF m, of k] by simp
    show "upper_bound m k < length m \<Longrightarrow> k < static_key K sm (upper_bound m k)"
      using std.ub_above [OF m order_refl] at by simp
  qed
  with static_bounds_return(2) [OF ok, of k] show "static_upper_bound K sm k = Some (int (upper_bound m k))"
    by (simp only:)
qed

text \<open>\<open>find\<close> is the index of the key, or \<open>end()\<close>.\<close>

lemma represents_find:
  assumes r: "represents K write m sm" and m: "ordered m"
  shows "case map_of m k of
      None \<Rightarrow> static_find K sm k = Some (num_nodes sm)
    | Some v \<Rightarrow> \<exists>i < length m. m ! i = (k, v) \<and> static_find K sm k = Some (int i)"
proof -
  note ok = represents_keys_ok [OF r m]
  obtain found pos where run: "search_loop K sm k 0 (num_nodes sm) = Some (found, pos)"
    and result: "search_result K sm k (found, pos)" by (rule search_loop_found [OF ok])
  have n: "nat (num_nodes sm) = length m" using representsD(1) [OF r] by simp
  have find: "static_find K sm k = Some (if found then pos else num_nodes sm)"
    by (simp add: static_find_def run)
  show ?thesis
  proof (cases found)
    case True
    then have i: "nat pos < length m" "fst (m ! nat pos) = k" "0 \<le> pos"
      using result representsD(5) [OF r, of "nat pos"] by (auto simp: search_result_def n)
    then have "map_of m k = Some (snd (m ! nat pos))" using map_of_ordered_nth [OF m i(1)] by simp
    with i find True show ?thesis by (auto intro!: exI [of _ "nat pos"] prod_eqI)
  next
    case False
    then have "\<forall>i < nat pos. static_key K sm i < k" and "\<forall>i. nat pos \<le> i \<longrightarrow> i < length m \<longrightarrow> k < static_key K sm i"
      using result by (simp_all add: search_result_def n)
    then have "fst (m ! i) \<noteq> k" if "i < length m" for i
      using that representsD(5) [OF r that] by (metis less_irrefl not_less)
    then have "k \<notin> fst ` set m" by (force simp: in_set_conv_nth)
    then have "map_of m k = None" by (simp add: map_of_eq_None_iff)
    with find False show ?thesis by simp
  qed
qed

text \<open>What was written passes the validation of the static map.\<close>

lemma value_place_Suc:
  "Suc i < length m \<Longrightarrow>
     value_place write d m (Suc i) = value_place write d m i + length (write (snd (m ! i)))"
  by (simp add: value_place_def take_Suc_conv_app_nth)

context key_layout
begin

lemma value_place_fits:
  assumes "length (StdMap_Write K write m) < 2 ^ 32"
  shows "value_place write (4 + 4 * length m + key_size K * length m) m i < 2 ^ 32"
proof -
  have "length (concat (map (\<lambda>p. write (snd p)) (take i m))) \<le> length (concat (map (\<lambda>p. write (snd p)) m))"
    by (metis append_take_drop_id concat_append le_add1 length_append map_append)
  with assms show ?thesis by (simp add: value_place_def length_StdMap_Write)
qed

lemma written_validates:
  assumes valid_keys: "\<forall>p\<in>set m. valid (fst p)" and fits: "length (StdMap_Write K write m) < 2 ^ 32"
    and m: "ordered m" and nonempty: "\<forall>p\<in>set m. write (snd p) \<noteq> []"
    and sm: "new_StaticMap (StdMap_Write K write m @ rest) = Some sm"
  shows "ValidateInMemoryStructure K sm = Some True"
proof -
  let ?place = "value_place write (4 + 4 * length m + key_size K * length m) m"
  have r: "represents K write m sm"
    and offset: "\<And>i. i < length m \<Longrightarrow> offset_at_index sm (int i) = Some (of_nat (?place i))"
    using new_StaticMap_written [OF valid_keys fits, of rest] sm by auto
  have place: "unat (of_nat (?place i) :: u32) = ?place i" for i
    using value_place_fits [OF fits, of i] by (simp add: unsigned_of_nat take_bit_nat_eq_self)
  have n: "num_nodes sm = int (length m)" by (rule representsD(1) [OF r])
  have nodes: "validate_nodes K sm (int i) = Some True" if "0 < i" for i
    using that
  proof (induction "length m - i" arbitrary: i)
    case 0
    then show ?case by (simp add: validate_nodes.simps n)
  next
    case (Suc k)
    then obtain j where i: "i = Suc j" "Suc j < length m" by (cases i) auto
    have "write (snd (m ! j)) \<noteq> []" using nonempty i(2) by simp
    then have "?place j < ?place (Suc j)" using value_place_Suc [OF i(2)] by simp
    then have "\<not> (of_nat (?place (Suc j)) :: u32) \<le> of_nat (?place j)"
      by (simp add: word_le_nat_alt place)
    moreover have "offset_at_index sm (int (Suc j)) = Some (of_nat (?place (Suc j)))"
      "offset_at_index sm (int j) = Some (of_nat (?place j))"
      using i(2) by (rule offset, intro offset) simp
    moreover have "GetKeyAtIndex K sm (int (Suc j)) = Some (fst (m ! Suc j))"
      "GetKeyAtIndex K sm (int j) = Some (fst (m ! j))"
      using i(2) representsD(3) [OF r] by (metis Suc_lessD)+
    moreover have "\<not> DefaultCompare (fst (m ! Suc j)) (fst (m ! j)) \<le> 0"
      using ordered_nth_less [OF m, of j "Suc j"] i(2) by (simp add: DefaultCompare_cases)
    moreover have "validate_nodes K sm (int (Suc (Suc j))) = Some True"
      using Suc i by (intro Suc.hyps(1)) auto
    ultimately show ?case
      using i by (simp add: validate_nodes.simps [of K sm "1 + int j"] n add.commute)
  qed
  show ?thesis
  proof (cases "length m = 0")
    case True
    with nodes [of 1] n show ?thesis by (simp add: ValidateInMemoryStructure_def)
  next
    case False
    then have o0: "offset_at_index sm 0 = Some (of_nat (?place 0))" using offset [of 0] by simp
    have first: "4 * (num_nodes sm + 1) + int (key_size K) * num_nodes sm = int (?place 0)"
      by (simp add: n value_place_def algebra_simps)
    have "\<not> 0xFFFFFFFF < int (?place 0)" using value_place_fits [OF fits, of 0] by simp
    with False nodes [of 1] o0 n show ?thesis
      unfolding ValidateInMemoryStructure_def first Let_def by simp
  qed
qed

end

subsection \<open>Static address maps\<close>

definition static_Retrieve :: "static_map \<Rightarrow> u64 \<Rightarrow> (pointer \<times> u64) option run" where
  "static_Retrieve m address = do {
     iterator \<leftarrow> static_upper_bound address_key m address;
     if iterator = 0 then Some None
     else do {
       entry \<leftarrow> GetValuePtr m (iterator_prev m iterator);
       entry_address \<leftarrow> GetKey address_key m (iterator_prev m iterator);
       Some (Some (entry, entry_address))
     }
   }"

subsection \<open>Static range maps\<close>

text \<open>A \<open>Range\<close> is its base with the entry behind it.\<close>

definition range_base :: "pointer \<Rightarrow> u64 run" where
  "range_base rng = read_word rng 0"

definition range_entryptr :: "pointer \<Rightarrow> pointer" where
  "range_entryptr rng = drop 8 rng"

definition static_range_outputs :: "static_map \<Rightarrow> int \<Rightarrow> (pointer \<times> u64 \<times> u64) run" where
  "static_range_outputs m iterator = do {
     rng \<leftarrow> GetValuePtr m iterator;
     base \<leftarrow> range_base rng;
     high \<leftarrow> GetKey address_key m iterator;
     Some (range_entryptr rng, base, high - base + 1)
   }"

definition static_RetrieveRange :: "static_map \<Rightarrow> u64 \<Rightarrow> (pointer \<times> u64 \<times> u64) option run" where
  "static_RetrieveRange m address = do {
     iterator \<leftarrow> static_lower_bound address_key m address;
     if iterator = num_nodes m then Some None
     else do {
       rng \<leftarrow> GetValuePtr m iterator;
       base \<leftarrow> range_base rng;
       if address < base then Some None
       else map_option Some (static_range_outputs m iterator)
     }
   }"

definition static_RetrieveNearestRange ::
  "static_map \<Rightarrow> u64 \<Rightarrow> (pointer \<times> u64 \<times> u64) option run" where
  "static_RetrieveNearestRange m address = do {
     r \<leftarrow> static_RetrieveRange m address;
     case r of
       Some _ \<Rightarrow> Some r
     | None \<Rightarrow> do {
         iterator \<leftarrow> static_upper_bound address_key m address;
         if iterator = 0 then Some None
         else map_option Some (static_range_outputs m (iterator_prev m iterator))
       }
   }"

definition static_RetrieveRangeAtIndex ::
  "static_map \<Rightarrow> int \<Rightarrow> (pointer \<times> u64 \<times> u64) option run" where
  "static_RetrieveRangeAtIndex m index =
     (if num_nodes m \<le> index then Some None else map_option Some (static_range_outputs m index))"

text \<open>
  The static map of a range map answers as the range map does: the entry pointer points to
  the bytes of the entry.
\<close>

definition entry_at :: "('e \<Rightarrow> char list) \<Rightarrow> pointer \<times> u64 \<times> u64 \<Rightarrow> 'e \<times> u64 \<times> u64 \<times> u64 \<Rightarrow> bool" where
  "entry_at write out r = (case out of (p, base, sz) \<Rightarrow> case r of (e, base', delta, sz') \<Rightarrow>
     prefix (write e) p \<and> base = base' \<and> sz = sz')"

lemma prefix_appendD: "prefix (xs @ ys) p \<Longrightarrow> prefix ys (drop (length xs) p)"
  by (auto simp: prefix_def)

lemma range_at:
  assumes r: "represents address_key (range_bytes write) m sm" and i: "i < length m"
  obtains rng where "GetValuePtr sm (int i) = Some rng" and "range_base rng = Some (r_base (snd (m ! i)))"
    and "\<exists>out. static_range_outputs sm (int i) = Some out \<and> entry_at write out (range_outputs (m ! i))"
proof -
  obtain rng where p: "GetValuePtr sm (int i) = Some rng"
    and rng: "prefix (range_bytes write (snd (m ! i))) rng"
    by (rule represents_value [OF r i])
  then have base: "range_base rng = Some (r_base (snd (m ! i)))"
    by (auto simp: range_bytes_def prefix_def range_base_def read_u64_0)
  have "prefix (write (r_entry (snd (m ! i)))) (range_entryptr rng)"
    using rng prefix_appendD [of "word_bytes (r_base (snd (m ! i)))"]
    by (fastforce simp: range_bytes_def range_entryptr_def)
  then have "\<exists>out. static_range_outputs sm (int i) = Some out \<and> entry_at write out (range_outputs (m ! i))"
    by (simp add: static_range_outputs_def p base representsD(4) [OF r i] entry_at_def range_outputs_def)
  with p base that show ?thesis by blast
qed

lemma static_RetrieveRange_represents:
  assumes r: "represents address_key (range_bytes write) (rmap m) sm" and m: "ordered (rmap m)"
  shows "\<exists>out. static_RetrieveRange sm a = Some out \<and> rel_option (entry_at write) out (RetrieveRange m a)"
proof (cases "lower_bound (rmap m) a < length (rmap m)")
  case False
  then have "lower_bound (rmap m) a = length (rmap m)" using std.lb_le [OF m, of a] by simp
  then show ?thesis
    by (simp add: static_RetrieveRange_def RetrieveRange_def represents_bounds [OF r m] representsD(1) [OF r])
next
  case True
  obtain rng where p: "GetValuePtr sm (int (lower_bound (rmap m) a)) = Some rng"
    and "range_base rng = Some (r_base (snd (rmap m ! lower_bound (rmap m) a)))"
    and "\<exists>out. static_range_outputs sm (int (lower_bound (rmap m) a)) = Some out \<and>
      entry_at write out (range_outputs (rmap m ! lower_bound (rmap m) a))"
    by (rule range_at [OF r True])
  with True show ?thesis
    by (auto simp: static_RetrieveRange_def RetrieveRange_def represents_bounds [OF r m] representsD(1) [OF r])
qed

lemma iterator_prev_represents:
  fixes K :: "'k::{linorder,zero} key_type"
  assumes "represents K write m sm" and "0 < i" and "i \<le> length m"
  shows "iterator_prev sm (int i) = int (i - 1)"
  using assms(2,3) by (simp add: iterator_prev_def IsValid_def representsD(1) [OF assms(1)])

lemma static_RetrieveNearestRange_represents:
  assumes r: "represents address_key (range_bytes write) (rmap m) sm" and m: "ordered (rmap m)"
  shows "\<exists>out. static_RetrieveNearestRange sm a = Some out \<and>
    rel_option (entry_at write) out (RetrieveNearestRange m a)"
proof -
  obtain out where out: "static_RetrieveRange sm a = Some out"
    and rel: "rel_option (entry_at write) out (RetrieveRange m a)"
    using static_RetrieveRange_represents [OF r m] by blast
  show ?thesis
  proof (cases "RetrieveRange m a")
    case (Some x)
    with out rel show ?thesis
      by (auto simp: static_RetrieveNearestRange_def RetrieveNearestRange_def option_rel_Some2)
  next
    case None
    with rel have "out = None" by simp
    let ?i = "upper_bound (rmap m) a"
    show ?thesis
    proof (cases "?i = 0")
      case True
      with None out \<open>out = None\<close> show ?thesis
        by (simp add: static_RetrieveNearestRange_def RetrieveNearestRange_def represents_bounds [OF r m])
    next
      case False
      then have i: "?i - 1 < length (rmap m)" "iterator_prev sm (int ?i) = int (?i - 1)"
        using std.ub_le [OF m, of a] iterator_prev_represents [OF r, of ?i] by auto
      obtain rng where "GetValuePtr sm (int (?i - 1)) = Some rng"
        and "\<exists>out. static_range_outputs sm (int (?i - 1)) = Some out \<and>
          entry_at write out (range_outputs (rmap m ! (?i - 1)))"
        by (rule range_at [OF r i(1)])
      with None out \<open>out = None\<close> False i(2) show ?thesis
        by (auto simp: static_RetrieveNearestRange_def RetrieveNearestRange_def represents_bounds [OF r m] Let_def)
    qed
  qed
qed

lemma static_Retrieve_represents:
  assumes r: "represents address_key write m sm" and m: "ordered m"
  shows "\<exists>out. static_Retrieve sm a = Some out \<and>
    rel_option (\<lambda>(p, b) (e, b'). prefix (write e) p \<and> b = b') out (Retrieve m a)"
proof (cases "upper_bound m a = 0")
  case True
  then show ?thesis by (simp add: static_Retrieve_def Retrieve_def represents_bounds [OF r m])
next
  case False
  let ?i = "upper_bound m a"
  have i: "?i - 1 < length m" "iterator_prev sm (int ?i) = int (?i - 1)"
    using False std.ub_le [OF m, of a] iterator_prev_represents [OF r, of ?i] by auto
  obtain p where p: "GetValuePtr sm (int (?i - 1)) = Some p" "prefix (write (snd (m ! (?i - 1)))) p"
    by (rule represents_value [OF r i(1)])
  with False show ?thesis
    using representsD(4) [OF r i(1)]
    by (simp add: static_Retrieve_def Retrieve_def represents_bounds [OF r m] i(2) Let_def)
qed

subsection \<open>Static contained range maps\<close>

text \<open>An entry of size zero is the null pointer.\<close>

record static_contained =
  sc_base :: u64
  sc_entry_size :: u32
  sc_entry_ptr :: "pointer option"
  sc_map :: static_map

definition new_StaticContainedRangeMap :: "pointer \<Rightarrow> static_contained run" where
  "new_StaticContainedRangeMap p = do {
     base \<leftarrow> read_word p 0;
     entry_size \<leftarrow> read_word p 8;
     m \<leftarrow> new_StaticMap (drop (12 + unat entry_size) p);
     Some \<lparr>sc_base = base, sc_entry_size = entry_size,
       sc_entry_ptr = (if entry_size = 0 then None else Some (drop 12 p)), sc_map = m\<rparr>
   }"

text \<open>
  The result is an entry pointer, which may be null, or nothing for \<open>false\<close>.  The map of
  a child lies behind the map of its parent, so the search ends on any memory.
\<close>

lemma new_StaticMap_data: "new_StaticMap p = Some m \<Longrightarrow> raw_data m = p"
  by (auto simp: new_StaticMap_def bind_eq_Some_conv split: if_split_asm)

lemma GetValuePtr_length: "GetValuePtr m i = Some p \<Longrightarrow> length p \<le> length (raw_data m)"
  by (auto simp: GetValuePtr_def bind_eq_Some_conv split: if_split_asm)

lemma read_word_length:
  "read_word p i = Some (w :: 'a::len word) \<Longrightarrow> i + LENGTH('a) div 8 \<le> length p"
  by (simp add: read_word_def split: if_split_asm)

lemma child_map_shorter:
  assumes "GetValuePtr m i = Some p" and "new_StaticContainedRangeMap p = Some child"
  shows "length (raw_data (sc_map child)) < length (raw_data m)"
proof -
  obtain n where "raw_data (sc_map child) = drop (12 + n) p" and "8 \<le> length p"
    using assms(2)
    by (auto simp: new_StaticContainedRangeMap_def bind_eq_Some_conv dest!: new_StaticMap_data read_word_length)
  with GetValuePtr_length [OF assms(1)] show ?thesis by simp
qed

function static_contained_RetrieveRange ::
  "static_contained \<Rightarrow> u64 \<Rightarrow> pointer option option run" where
  "static_contained_RetrieveRange this address = do {
     iterator \<leftarrow> static_lower_bound address_key (sc_map this) address;
     if iterator = num_nodes (sc_map this) then Some None
     else
       (case GetValuePtr (sc_map this) iterator of
          None \<Rightarrow> None
        | Some memory_child \<Rightarrow>
            (case new_StaticContainedRangeMap memory_child of
               None \<Rightarrow> None
             | Some child_map \<Rightarrow>
                 if address < sc_base child_map then Some None
                 else do {
                   found \<leftarrow> static_contained_RetrieveRange child_map address;
                   Some (case found of Some entry \<Rightarrow> Some entry
                         | None \<Rightarrow> Some (sc_entry_ptr child_map))
                 }))
   }"
  by pat_completeness auto
termination
  by (relation "measure (\<lambda>(this, _). length (raw_data (sc_map this)))") (auto intro: child_map_shorter)

declare static_contained_RetrieveRange.simps [simp del]

text \<open>The sizes that the serializer announces are the sizes it writes, and entries are not empty.\<close>

definition entries_ok :: "('e \<Rightarrow> nat) \<Rightarrow> ('e \<Rightarrow> char list) \<Rightarrow> bool" where
  "entries_ok size_of write = (\<forall>e. size_of e = length (write e) \<and> write e \<noteq> [])"

lemma length_value_le:
  assumes "p \<in> set m"
  shows "length (write (snd p)) \<le> length (StdMap_Write address_key write m)"
proof -
  obtain i where i: "i < length m" "p = m ! i" using assms by (metis in_set_conv_nth)
  have "length (write (snd p)) \<le> length (concat (map (\<lambda>p. write (snd p)) m))"
    unfolding i(2) by (subst concat_map_nth [OF i(1)]) simp
  then show ?thesis by (simp add: address_key.length_StdMap_Write)
qed

lemma contained_SizeOf_eq:
  assumes "entries_ok size_of write"
  shows "contained_SizeOf root size_of n = length (contained_Write root size_of write n)"
proof (induction n arbitrary: root)
  case (CNode b e m)
  have "(\<Sum>(k, child)\<leftarrow>m. 8 + contained_SizeOf False size_of child) =
      (\<Sum>(k, child)\<leftarrow>m. 8 + length (contained_Write False size_of write child))"
    using CNode by (intro arg_cong [of _ _ sum_list] map_cong) (auto simp: snds.simps)
  also have "\<dots> = 8 * length m + length (concat (map (\<lambda>p. contained_Write False size_of write (snd p)) m))"
    by (induction m) auto
  finally have sum: "(\<Sum>(k, child)\<leftarrow>m. 8 + contained_SizeOf False size_of child) =
      8 * length m + length (concat (map (\<lambda>p. contained_Write False size_of write (snd p)) m))" .
  have "size_of e = length (write e)" using assms by (simp add: entries_ok_def)
  then show ?case
    by (simp add: contained_SizeOf.simps contained_Write_eq entry_bytes_def sum
        address_key.length_StdMap_Write) (simp add: address_key_def)
qed

text \<open>A static node over what was written, and the node of the tree.\<close>

definition represents_node ::
  "bool \<Rightarrow> ('e \<Rightarrow> nat) \<Rightarrow> ('e \<Rightarrow> char list) \<Rightarrow> (u64, 'e) contained_range_map \<Rightarrow> static_contained \<Rightarrow> bool" where
  "represents_node root size_of write n sc = (sc_base sc = c_base n \<and>
     (root \<or> (\<exists>p. sc_entry_ptr sc = Some p \<and> prefix (write (c_entry n)) p)) \<and>
     represents address_key (contained_Write False size_of write) (c_map n) (sc_map sc))"

lemma new_contained_written:
  assumes e: "entries_ok size_of write" and fits: "length (contained_Write root size_of write n) < 2 ^ 32"
  obtains sc where "new_StaticContainedRangeMap (contained_Write root size_of write n @ rest) = Some sc"
    and "represents_node root size_of write n sc"
proof -
  obtain b x m where n: "n = CNode b x m" by (cases n)
  let ?size = "if root then 0 else size_of x"
  have size: "?size = length (entry_bytes root write x)"
    using e by (simp add: entries_ok_def entry_bytes_def)
  have w: "contained_Write root size_of write n = word_bytes b @ word_bytes (of_nat ?size :: u32) @
      entry_bytes root write x @ StdMap_Write address_key (contained_Write False size_of write) m"
    unfolding n by (rule contained_Write_eq)
  have fits2: "length (StdMap_Write address_key (contained_Write False size_of write) m) < 2 ^ 32"
    and "?size < 2 ^ 32"
    using fits unfolding w size by simp_all
  then have unat_size: "unat (of_nat ?size :: u32) = length (entry_bytes root write x)"
    unfolding size by (simp add: unsigned_of_nat take_bit_nat_eq_self)
  let ?p = "contained_Write root size_of write n @ rest"
  obtain sm where sm: "new_StaticMap (StdMap_Write address_key (contained_Write False size_of write) m @ rest) = Some sm"
    and r: "represents address_key (contained_Write False size_of write) m sm"
    by (rule address_key.new_StaticMap_written [OF _ fits2]) auto
  have reads: "read_word ?p 0 = Some b" "read_word ?p 8 = Some (of_nat ?size :: u32)"
    unfolding w by (simp_all add: read_u64_0 read_u32_at)
  have "drop (12 + unat (of_nat ?size :: u32)) ?p =
      StdMap_Write address_key (contained_Write False size_of write) m @ rest"
    unfolding unat_size w by simp
  then have new: "new_StaticContainedRangeMap ?p = Some \<lparr>sc_base = b, sc_entry_size = of_nat ?size,
      sc_entry_ptr = (if (of_nat ?size :: u32) = 0 then None else Some (drop 12 ?p)), sc_map = sm\<rparr>"
    by (simp add: new_StaticContainedRangeMap_def reads sm)
  have "root \<or> (of_nat ?size :: u32) \<noteq> 0 \<and> prefix (write x) (drop 12 ?p)"
  proof (cases root)
    case False
    with e have "write x \<noteq> []" by (simp add: entries_ok_def)
    with unat_size False have "(of_nat ?size :: u32) \<noteq> 0" by (auto simp: entry_bytes_def)
    moreover have "prefix (write x) (drop 12 ?p)"
      unfolding w using False by (simp add: entry_bytes_def)
    ultimately show ?thesis by blast
  qed simp
  with r have "represents_node root size_of write n \<lparr>sc_base = b, sc_entry_size = of_nat ?size,
      sc_entry_ptr = (if (of_nat ?size :: u32) = 0 then None else Some (drop 12 ?p)), sc_map = sm\<rparr>"
    by (auto simp: represents_node_def n)
  with new that show ?thesis by blast
qed

lemma static_contained_represents:
  assumes e: "entries_ok size_of write" and "tree_ok n"
    and "length (contained_Write root size_of write n) < 2 ^ 32"
    and "represents_node root size_of write n sc"
  shows "\<exists>out. static_contained_RetrieveRange sc a = Some out \<and>
    rel_option (\<lambda>p x. \<exists>q. p = Some q \<and> prefix (write x) q) out (contained_RetrieveRange n a)"
  using assms(2-)
proof (induction n arbitrary: root sc)
  case (CNode b x m)
  let ?w = "contained_Write False size_of write"
  have r: "represents address_key ?w m (sc_map sc)" using CNode.prems(3) by (simp add: represents_node_def)
  have children: "children_ok m" using CNode.prems(1) by simp
  then have m: "ordered m" by (rule children_ok_ordered)
  let ?i = "lower_bound m a"
  show ?case
  proof (cases "?i < length m")
    case False
    then have "?i = length m" using std.lb_le [OF m, of a] by simp
    then show ?thesis
      by (simp add: static_contained_RetrieveRange.simps [of sc] contained_RetrieveRange.simps
          represents_bounds [OF r m] representsD(1) [OF r] Let_def)
  next
    case True
    let ?child = "snd (m ! ?i)"
    have mem: "m ! ?i \<in> set m" using True by simp
    have "length (?w ?child) < 2 ^ 32"
      using CNode.prems(2) length_value_le [OF mem, of ?w] by (simp add: contained_Write_eq)
    obtain q where q: "GetValuePtr (sc_map sc) (int ?i) = Some q" "prefix (?w ?child) q"
      by (rule represents_value [OF r True])
    then obtain rest where rest: "q = ?w ?child @ rest" by (auto simp: prefix_def)
    obtain child where child: "new_StaticContainedRangeMap q = Some child"
      and rc: "represents_node False size_of write ?child child"
      unfolding rest by (rule new_contained_written [OF e \<open>length (?w ?child) < 2 ^ 32\<close>])
    have "tree_ok ?child" using CNode.prems(1) mem by simp
    obtain out where out: "static_contained_RetrieveRange child a = Some out"
      and rel: "rel_option (\<lambda>p x. \<exists>q. p = Some q \<and> prefix (write x) q) out (contained_RetrieveRange ?child a)"
      using CNode.IH [of "m ! ?i" ?child False child] mem \<open>tree_ok ?child\<close> \<open>length (?w ?child) < 2 ^ 32\<close> rc
      by (auto simp: snds.simps)
    have "sc_base child = c_base ?child"
      and "\<exists>p. sc_entry_ptr child = Some p \<and> prefix (write (c_entry ?child)) p"
      using rc by (auto simp: represents_node_def)
    with True q child out rel show ?thesis
      by (cases "contained_RetrieveRange ?child a")
        (auto simp: static_contained_RetrieveRange.simps [of sc] contained_RetrieveRange.simps
          represents_bounds [OF r m] representsD(1) [OF r] Let_def option_rel_Some2)
  qed
qed

subsection \<open>Properties\<close>

text \<open>
  C29: What \<open>StdMapSerializer\<close> writes, with anything behind it, is a static map that
  passes validation, and \<open>find\<close> on it finds the bytes of the value that the map holds
  for a key, or nothing when the map has no such key.
\<close>

theorem StdMap_Write_find:
  assumes "ordered m" and "length (StdMap_Write address_key write m) < 2 ^ 32"
    and "\<forall>p\<in>set m. write (snd p) \<noteq> []"
  shows "\<exists>sm. new_StaticMap (StdMap_Write address_key write m @ rest) = Some sm \<and>
    ValidateInMemoryStructure address_key sm = Some True \<and>
    (\<forall>k. case map_of m k of
       None \<Rightarrow> static_find address_key sm k = Some (num_nodes sm)
     | Some v \<Rightarrow> \<exists>i p. static_find address_key sm k = Some i \<and> GetKey address_key sm i = Some k \<and>
         GetValuePtr sm i = Some p \<and> prefix (write v) p)"
proof -
  obtain sm where sm: "new_StaticMap (StdMap_Write address_key write m @ rest) = Some sm"
    and r: "represents address_key write m sm"
    by (rule address_key.new_StaticMap_written [OF _ assms(2)]) auto
  have "ValidateInMemoryStructure address_key sm = Some True"
    by (rule address_key.written_validates [OF _ assms(2,1,3) sm]) simp
  moreover have "case map_of m k of
       None \<Rightarrow> static_find address_key sm k = Some (num_nodes sm)
     | Some v \<Rightarrow> \<exists>i p. static_find address_key sm k = Some i \<and> GetKey address_key sm i = Some k \<and>
         GetValuePtr sm i = Some p \<and> prefix (write v) p" for k
  proof (cases "map_of m k")
    case None
    with represents_find [OF r assms(1), of k] show ?thesis by simp
  next
    case (Some v)
    with represents_find [OF r assms(1), of k] obtain i where i: "i < length m" "m ! i = (k, v)"
      "static_find address_key sm k = Some (int i)" by auto
    obtain p where "GetValuePtr sm (int i) = Some p" "prefix (write (snd (m ! i))) p"
      by (rule represents_value [OF r i(1)])
    with i representsD(4) [OF r i(1)] Some show ?thesis by auto
  qed
  ultimately show ?thesis using sm by blast
qed

theorem StdMap_Write_find_witness:
  "\<exists>sm i p. new_StaticMap (StdMap_Write address_key string_bytes [(10, ''a''), (20, ''b'')]) = Some sm \<and>
    static_find address_key sm 20 = Some i \<and> GetValuePtr sm i = Some p \<and> prefix (''b'' @ [NUL]) p"
proof -
  let ?m = "[(10, ''a''), (20, ''b'')] :: (u64 \<times> string) list"
  have "length (StdMap_Write address_key string_bytes ?m) < 2 ^ 32"
    by (simp add: address_key.length_StdMap_Write string_SizeOf_def) (simp add: address_key_def)
  moreover have "\<forall>p\<in>set ?m. string_bytes (snd p) \<noteq> []" by (simp add: string_bytes_def)
  moreover have "ordered ?m" by simp
  ultimately obtain sm where sm: "new_StaticMap (StdMap_Write address_key string_bytes ?m @ []) = Some sm"
    and find: "\<And>k. case map_of ?m k of
       None \<Rightarrow> static_find address_key sm k = Some (num_nodes sm)
     | Some v \<Rightarrow> \<exists>i p. static_find address_key sm k = Some i \<and> GetKey address_key sm i = Some k \<and>
         GetValuePtr sm i = Some p \<and> prefix (string_bytes v) p"
    using StdMap_Write_find [of ?m string_bytes "[]"] by blast
  from find [of 20] sm show ?thesis by (auto simp: string_bytes_def)
qed

text \<open>
  The search for an address in a serialized tree of ranges ends on any tree that was
  written, and finds the bytes of the entry that the tree holds innermost around it.
\<close>

theorem contained_Write_retrieve:
  assumes "entries_ok size_of write" and "tree_ok n"
    and "length (contained_Write True size_of write n) < 2 ^ 32"
  shows "\<exists>sc out. new_StaticContainedRangeMap (contained_Write True size_of write n @ rest) = Some sc \<and>
    static_contained_RetrieveRange sc a = Some out \<and>
    (case contained_RetrieveRange n a of
       None \<Rightarrow> out = None
     | Some e \<Rightarrow> \<exists>p. out = Some (Some p) \<and> prefix (write e) p)"
proof -
  obtain sc where sc: "new_StaticContainedRangeMap (contained_Write True size_of write n @ rest) = Some sc"
    and r: "represents_node True size_of write n sc"
    by (rule new_contained_written [OF assms(1,3)])
  obtain out where "static_contained_RetrieveRange sc a = Some out"
    and "rel_option (\<lambda>p x. \<exists>q. p = Some q \<and> prefix (write x) q) out (contained_RetrieveRange n a)"
    using static_contained_represents [OF assms(1,2,3) r] by blast
  with sc show ?thesis by (auto simp: option_rel_Some2 split: option.split)
qed

definition char_bytes :: "char \<Rightarrow> char list" where "char_bytes c = [c]"

definition sample_tree64 :: "(u64, char) contained_range_map" where
  "sample_tree64 = CNode 0 (CHR ''r'') [(20, CNode 10 (CHR ''a'') [(15, CNode 12 (CHR ''b'') [])])]"

theorem contained_Write_retrieve_witness:
  "\<exists>sc p. new_StaticContainedRangeMap (contained_Write True (\<lambda>_. 1) char_bytes sample_tree64) = Some sc \<and>
    static_contained_RetrieveRange sc 13 = Some (Some (Some p)) \<and> prefix ''b'' p"
proof -
  have e: "entries_ok (\<lambda>_. 1) char_bytes" by (simp add: entries_ok_def char_bytes_def)
  have t: "tree_ok sample_tree64" by (simp add: sample_tree64_def children_ok_def strictly_inside_def)
  have "length (contained_Write True (\<lambda>_. 1) char_bytes sample_tree64) < 2 ^ 32"
    unfolding contained_SizeOf_eq [OF e, symmetric] by (simp add: sample_tree64_def contained_SizeOf.simps)
  from contained_Write_retrieve [OF e t this, of "[]" 13] show ?thesis
    by (auto simp: sample_tree64_def contained_RetrieveRange.simps lower_bound_def char_bytes_def)
qed

end
