(* ===== verification/Module_Serializer.thy ===== *)
theory Module_Serializer
  imports Module_Strings Map_Serializers
begin

text \<open>
  \<open>SimpleSerializer\<close> for the records of a module
  (\<open>processor/simple_serializer-inl.h\<close>) and \<open>ModuleSerializer\<close>
  (\<open>processor/module_serializer.cc\<close>), which writes a module that the basic resolver has
  loaded into the memory format of the fast resolver.
\<close>

subsection \<open>Records\<close>

text \<open>
  \<open>SizeOf\<close> of a function and of Windows frame data add up in \<open>unsigned int\<close>.  Their
  results only reach \<open>map_sizes_\<close> and the entry sizes of the trees, which are kept in 32
  bits too, so the wrap is written out there.
\<close>

definition Line_SizeOf :: "Line \<Rightarrow> nat" where
  "Line_SizeOf line = 8 + 8 + 4 + 4"

definition Line_Write :: "Line \<Rightarrow> char list" where
  "Line_Write line = word_bytes (l_address line) @ word_bytes (l_size line) @
     word_bytes (source_file_id line) @ word_bytes (line_number line)"

definition Function_SizeOf :: "Function \<Rightarrow> nat" where
  "Function_SizeOf func = string_SizeOf (f_name func) + 8 + 8 + 4 + RangeMap_SizeOf Line_SizeOf (f_lines func)"

definition Function_Write :: "Function \<Rightarrow> char list" where
  "Function_Write func = string_bytes (f_name func) @ word_bytes (f_address func) @
     word_bytes (f_size func) @ word_bytes (f_parameter_size func) @ RangeMap_Write Line_Write (f_lines func)"

definition PublicSymbol_SizeOf :: "PublicSymbol \<Rightarrow> nat" where
  "PublicSymbol_SizeOf symbol = string_SizeOf (p_name symbol) + 8 + 4"

definition PublicSymbol_Write :: "PublicSymbol \<Rightarrow> char list" where
  "PublicSymbol_Write symbol = string_bytes (p_name symbol) @ word_bytes (p_address symbol) @
     word_bytes (p_parameter_size symbol)"

definition WindowsFrameInfo_SizeOf :: "WindowsFrameInfo \<Rightarrow> nat" where
  "WindowsFrameInfo_SizeOf wfi = 4 + 4 + 4 + 4 + 4 + 4 + 4 + 4 + 1 + string_SizeOf (program_string wfi)"

definition WindowsFrameInfo_Write :: "WindowsFrameInfo \<Rightarrow> char list" where
  "WindowsFrameInfo_Write wfi =
     word_bytes (of_nat (type_number (type_of wfi)) :: u32) @ word_bytes (valid wfi) @
     word_bytes (prolog_size wfi) @ word_bytes (epilog_size wfi) @ word_bytes (parameter_size wfi) @
     word_bytes (saved_register_size wfi) @ word_bytes (local_size wfi) @ word_bytes (max_stack_size wfi) @
     bool_bytes (allocates_base_pointer wfi) @ string_bytes (program_string wfi)"

subsection \<open>Modules\<close>

text \<open>The functions are written through their pointers, the indices of the model.\<close>

definition function_at :: "Module \<Rightarrow> nat \<Rightarrow> Function" where
  "function_at m i = function_objects m ! i"

text \<open>\<open>map_sizes_\<close>: ten sizes of 32 bits.\<close>

definition map_sizes :: "Module \<Rightarrow> u32 list" where
  "map_sizes m =
     [of_nat (StdMap_SizeOf int_key string_SizeOf (files m)),
      of_nat (RangeMap_SizeOf (\<lambda>i. Function_SizeOf (function_at m i)) (function_ranges m)),
      of_nat (AddressMap_SizeOf PublicSymbol_SizeOf (public_symbols m))] @
     map (\<lambda>n. of_nat (contained_SizeOf True WindowsFrameInfo_SizeOf n)) (windows_frame_info m) @
     [of_nat (RangeMap_SizeOf string_SizeOf (cfi_initial_rules m)),
      of_nat (StdMap_SizeOf address_key string_SizeOf (cfi_delta_rules m))]"

definition ModuleSerializer_SizeOf :: "Module \<Rightarrow> nat" where
  "ModuleSerializer_SizeOf m = 1 + 10 * 4 + sum_list (map unat (map_sizes m)) + 1"

definition module_maps :: "Module \<Rightarrow> char list list" where
  "module_maps m =
     [StdMap_Write int_key string_bytes (files m),
      RangeMap_Write (\<lambda>i. Function_Write (function_at m i)) (function_ranges m),
      AddressMap_Write PublicSymbol_Write (public_symbols m)] @
     map (contained_Write True WindowsFrameInfo_SizeOf WindowsFrameInfo_Write) (windows_frame_info m) @
     [RangeMap_Write string_bytes (cfi_initial_rules m),
      StdMap_Write address_key string_bytes (cfi_delta_rules m)]"

definition ModuleSerializer_Write :: "Module \<Rightarrow> char list" where
  "ModuleSerializer_Write m =
     bool_bytes (is_corrupt m) @ concat (map word_bytes (map_sizes m)) @ concat (module_maps m) @ [NUL]"

definition ModuleSerializer_Serialize :: "Module \<Rightarrow> (char list \<times> u32) run" where
  "ModuleSerializer_Serialize m = serialize_buffer (ModuleSerializer_SizeOf m) (ModuleSerializer_Write m)"

text \<open>
  \<open>SerializeSymbolFileData\<close>; the first failure is a load that does not return, the
  second one a null result.
\<close>

definition SerializeSymbolFileData :: "string \<Rightarrow> (char list \<times> u32) option run" where
  "SerializeSymbolFileData symbol_data = do {
     (ok, m) \<leftarrow> LoadMapFromMemory (symbol_data @ [NUL]) new_Module;
     if \<not> ok then Some None else map_option Some (ModuleSerializer_Serialize m)
   }"

subsection \<open>The announced sizes are the written sizes\<close>

lemma length_Line_Write [simp]: "length (Line_Write l) = Line_SizeOf l"
  by (simp add: Line_Write_def Line_SizeOf_def)

lemma RangeMap_SizeOf_eq:
  assumes "\<forall>p\<in>set (rmap m). size_of (r_entry (snd p)) = length (write (r_entry (snd p)))"
  shows "RangeMap_SizeOf size_of m = length (RangeMap_Write write m)"
proof -
  have "RangeMap_SizeOf size_of m = StdMap_SizeOf address_key (\<lambda>r. 8 + size_of (r_entry r)) (rmap m)"
    by (simp add: RangeMap_SizeOf_def StdMap_SizeOf_def address_key_def add.assoc)
  also have "\<dots> = length (RangeMap_Write write m)"
    unfolding RangeMap_Write_eq using assms
    by (intro address_key.StdMap_SizeOf_eq) (simp add: range_bytes_def)
  finally show ?thesis .
qed

lemma length_Function_Write [simp]: "length (Function_Write f) = Function_SizeOf f"
  using RangeMap_SizeOf_eq [of "f_lines f" Line_SizeOf Line_Write]
  by (simp add: Function_Write_def Function_SizeOf_def)

lemma length_PublicSymbol_Write [simp]: "length (PublicSymbol_Write s) = PublicSymbol_SizeOf s"
  by (simp add: PublicSymbol_Write_def PublicSymbol_SizeOf_def)

lemma length_WindowsFrameInfo_Write [simp]: "length (WindowsFrameInfo_Write w) = WindowsFrameInfo_SizeOf w"
  by (simp add: WindowsFrameInfo_Write_def WindowsFrameInfo_SizeOf_def)

lemma WindowsFrameInfo_entries: "entries_ok WindowsFrameInfo_SizeOf WindowsFrameInfo_Write"
proof -
  have "WindowsFrameInfo_Write w \<noteq> []" for w by (simp add: WindowsFrameInfo_Write_def bool_bytes_def)
  then show ?thesis by (auto simp: entries_ok_def)
qed

lemma map_sizes_eq: "map_sizes m = map (\<lambda>bytes. of_nat (length bytes)) (module_maps m)"
proof -
  have "StdMap_SizeOf int_key string_SizeOf (files m) = length (StdMap_Write int_key string_bytes (files m))"
    by (intro int_key.StdMap_SizeOf_eq) simp
  moreover have "StdMap_SizeOf address_key string_SizeOf (cfi_delta_rules m) =
      length (StdMap_Write address_key string_bytes (cfi_delta_rules m))"
    by (intro address_key.StdMap_SizeOf_eq) simp
  moreover have "AddressMap_SizeOf PublicSymbol_SizeOf (public_symbols m) =
      length (AddressMap_Write PublicSymbol_Write (public_symbols m))"
    unfolding AddressMap_SizeOf_def AddressMap_Write_def by (intro address_key.StdMap_SizeOf_eq) simp
  ultimately show ?thesis
    using RangeMap_SizeOf_eq [of "cfi_initial_rules m" string_SizeOf string_bytes]
      RangeMap_SizeOf_eq [of "function_ranges m" "\<lambda>i. Function_SizeOf (function_at m i)"
        "\<lambda>i. Function_Write (function_at m i)"]
    by (simp add: map_sizes_def module_maps_def contained_SizeOf_eq [OF WindowsFrameInfo_entries])
qed

text \<open>A module fits when what is written of it can be addressed with 32 bits.\<close>

definition module_fits :: "Module \<Rightarrow> bool" where
  "module_fits m = (length (ModuleSerializer_Write m) < 2 ^ 32)"

lemma length_module_Write:
  assumes "length (windows_frame_info m) = 5"
  shows "length (ModuleSerializer_Write m) = 42 + sum_list (map length (module_maps m))"
proof -
  have "length (map_sizes m) = 10" using assms by (simp add: map_sizes_def)
  then have "length (concat (map word_bytes (map_sizes m))) = 40"
    using length_concat_map_const [of "map_sizes m" word_bytes 4] by simp
  then show ?thesis by (simp add: ModuleSerializer_Write_def length_concat)
qed

lemma module_map_fits:
  assumes "module_fits m" and "length (windows_frame_info m) = 5" and "bytes \<in> set (module_maps m)"
  shows "length bytes < 2 ^ 32"
proof -
  have "length bytes \<le> sum_list (map length (module_maps m))"
    using assms(3) by (intro member_le_sum_list) auto
  with assms(1,2) show ?thesis by (simp add: module_fits_def length_module_Write)
qed

lemma module_SizeOf_eq:
  assumes "module_fits m" and "length (windows_frame_info m) = 5"
  shows "ModuleSerializer_SizeOf m = length (ModuleSerializer_Write m)"
proof -
  have "unat (of_nat (length bytes) :: u32) = length bytes" if "bytes \<in> set (module_maps m)" for bytes
    using module_map_fits [OF assms that] by (simp add: unsigned_of_nat take_bit_nat_eq_self)
  then have "map unat (map_sizes m) = map length (module_maps m)"
    by (simp add: map_sizes_eq)
  then show ?thesis by (simp add: ModuleSerializer_SizeOf_def length_module_Write [OF assms(2)])
qed

lemma module_Serialize_returns:
  assumes "module_fits m" and "length (windows_frame_info m) = 5"
  shows "ModuleSerializer_Serialize m =
    Some (ModuleSerializer_Write m, of_nat (length (ModuleSerializer_Write m)))"
  using assms(1) module_SizeOf_eq [OF assms]
  by (simp add: ModuleSerializer_Serialize_def serialize_buffer_def module_fits_def Let_def
      unsigned_of_nat take_bit_nat_eq_self)

text \<open>
  C28: \<open>Serialize\<close> returns exactly the modules whose data fits 32 bits, with the size it
  announces equal to the size it writes.  For a larger module it writes past the memory it
  allocated, since the size is kept in an \<open>unsigned int\<close>.
\<close>

theorem Serialize_iff_fits:
  assumes "length (windows_frame_info m) = 5"
  shows "ModuleSerializer_Serialize m =
    (if length (ModuleSerializer_Write m) < 2 ^ 32
     then Some (ModuleSerializer_Write m, of_nat (length (ModuleSerializer_Write m)))
     else None)"
proof (cases "length (ModuleSerializer_Write m) < 2 ^ 32")
  case True
  with module_Serialize_returns [OF _ assms] show ?thesis by (simp add: module_fits_def)
next
  case False
  have "unat (of_nat (ModuleSerializer_SizeOf m) :: u32) < 2 ^ LENGTH(32)" by (rule unsigned_less)
  with False have "unat (of_nat (ModuleSerializer_SizeOf m) :: u32) < length (ModuleSerializer_Write m)" by simp
  with False show ?thesis by (simp add: ModuleSerializer_Serialize_def serialize_buffer_def Let_def)
qed

lemma module_size_eval:
  assumes "length (windows_frame_info m) = 5"
  shows "length (ModuleSerializer_Write m) = 42 +
    (StdMap_SizeOf int_key string_SizeOf (files m) +
     RangeMap_SizeOf (\<lambda>i. Function_SizeOf (function_at m i)) (function_ranges m) +
     AddressMap_SizeOf PublicSymbol_SizeOf (public_symbols m) +
     sum_list (map (contained_SizeOf True WindowsFrameInfo_SizeOf) (windows_frame_info m)) +
     RangeMap_SizeOf string_SizeOf (cfi_initial_rules m) +
     StdMap_SizeOf address_key string_SizeOf (cfi_delta_rules m))"
proof -
  have "sum_list (map (contained_SizeOf True WindowsFrameInfo_SizeOf) ns) =
      sum_list (map (\<lambda>n. length (contained_Write True WindowsFrameInfo_SizeOf WindowsFrameInfo_Write n)) ns)" for ns
    by (intro arg_cong [of _ _ sum_list] map_cong refl contained_SizeOf_eq WindowsFrameInfo_entries)
  then show ?thesis
    using RangeMap_SizeOf_eq [of "cfi_initial_rules m" string_SizeOf string_bytes]
      RangeMap_SizeOf_eq [of "function_ranges m" "\<lambda>i. Function_SizeOf (function_at m i)"
        "\<lambda>i. Function_Write (function_at m i)"]
      int_key.StdMap_SizeOf_eq [of "files m" string_SizeOf string_bytes]
      address_key.StdMap_SizeOf_eq [of "cfi_delta_rules m" string_SizeOf string_bytes]
      address_key.StdMap_SizeOf_eq [of "public_symbols m" PublicSymbol_SizeOf PublicSymbol_Write]
    by (simp add: length_module_Write [OF assms] module_maps_def AddressMap_SizeOf_def AddressMap_Write_def
        comp_def)
qed

lemma sample_module_size: "length (ModuleSerializer_Write sample_module) = 338"
  by (subst module_size_eval) (simp_all add: sample_module_def new_Module_def StdMap_SizeOf_def RangeMap_SizeOf_def
      AddressMap_SizeOf_def contained_SizeOf.simps string_SizeOf_def Function_SizeOf_def Line_SizeOf_def
      function_at_def PublicSymbol_SizeOf_def int_key_def address_key_def empty_range_map_def sum_list_replicate)

theorem Serialize_iff_fits_witness:
  "\<exists>data. ModuleSerializer_Serialize sample_module = Some (data, 338) \<and> length data = 338"
proof -
  have "length (windows_frame_info sample_module) = 5" by (simp add: sample_module_def new_Module_def)
  from Serialize_iff_fits [OF this]
  have "ModuleSerializer_Serialize sample_module = Some (ModuleSerializer_Write sample_module, 338)"
    by (simp add: sample_module_size)
  with sample_module_size show ?thesis by blast
qed

end
