(* ===== verification/Fast_Resolver.thy ===== *)
theory Fast_Resolver
  imports Module_Serializer
begin

text \<open>
  \<open>FastSourceLineResolver::Module\<close> (\<open>processor/fast_source_line_resolver.cc\<close>,
  \<open>fast_source_line_resolver_types.h\<close>): lookups directly in serialized symbol data.
  Every read may leave the data, so every operation is a \<open>run\<close>.
\<close>

subsection \<open>Records read from memory\<close>

definition Line_CopyFrom :: "pointer \<Rightarrow> Line run" where
  "Line_CopyFrom raw = do {
     address \<leftarrow> read_word raw 0;
     sz \<leftarrow> read_word raw 8;
     file_id \<leftarrow> read_word raw (2 * 8);
     line \<leftarrow> read_word raw (2 * 8 + 4);
     Some \<lparr>l_address = address, l_size = sz, source_file_id = file_id, line_number = line\<rparr>
   }"

record fast_Function =
  ff_name :: string
  ff_address :: u64
  ff_size :: u64
  ff_parameter_size :: u32
  ff_lines :: static_map

definition Function_CopyFrom :: "pointer \<Rightarrow> fast_Function run" where
  "Function_CopyFrom raw = do {
     name \<leftarrow> read_c_string raw;
     let name_size = length name + 1;
     address \<leftarrow> read_word raw name_size;
     sz \<leftarrow> read_word raw (name_size + 8);
     parameter_size \<leftarrow> read_word raw (name_size + 2 * 8);
     lines \<leftarrow> new_StaticMap (drop (name_size + 2 * 8 + 4) raw);
     Some \<lparr>ff_name = name, ff_address = address, ff_size = sz, ff_parameter_size = parameter_size,
       ff_lines = lines\<rparr>
   }"

definition PublicSymbol_CopyFrom :: "pointer \<Rightarrow> (string \<times> u64 \<times> u32) run" where
  "PublicSymbol_CopyFrom raw = do {
     name \<leftarrow> read_c_string raw;
     let name_size = length name + 1;
     address \<leftarrow> read_word raw name_size;
     parameter_size \<leftarrow> read_word raw (name_size + 8);
     Some (name, address, parameter_size)
   }"

text \<open>The validity that was written is skipped: the constructor sets it.\<close>

definition CopyWFI :: "pointer \<Rightarrow> WindowsFrameInfo run" where
  "CopyWFI raw = do {
     (type :: u32) \<leftarrow> read_word raw 0;
     let para = drop (2 * 4) raw;
     prolog \<leftarrow> read_word para 0;
     epilog \<leftarrow> read_word para 4;
     params \<leftarrow> read_word para 8;
     saved \<leftarrow> read_word para 12;
     locals \<leftarrow> read_word para 16;
     max_stack \<leftarrow> read_word para 20;
     (allocates, program) \<leftarrow> read_bool (drop 24 para);
     program_string \<leftarrow> read_c_string program;
     Some (make_WindowsFrameInfo (stack_info_type (sint type)) prolog epilog params saved locals max_stack
       (if allocates then 1 else 0) program_string)
   }"

subsection \<open>The module\<close>

record fast_Module =
  fast_files :: static_map
  fast_functions :: static_map
  fast_public_symbols :: static_map
  fast_is_corrupt :: bool
  fast_windows_frame_info :: "static_contained list"
  fast_cfi_initial_rules :: static_map
  fast_cfi_delta_rules :: static_map

text \<open>The maps lie one behind the other, at the sums of their sizes, kept in \<open>unsigned int\<close>.\<close>

fun map_offsets :: "u32 \<Rightarrow> u32 list \<Rightarrow> u32 list" where
  "map_offsets offset [] = []"
| "map_offsets offset (sz # sizes) = offset # map_offsets (offset + sz) sizes"

fun all_run :: "'a run list \<Rightarrow> 'a list run" where
  "all_run [] = Some []"
| "all_run (r # rs) = do { x \<leftarrow> r; xs \<leftarrow> all_run rs; Some (x # xs) }"

text \<open>A null buffer is the option \<open>None\<close>; the module is new, so it is built from nothing.\<close>

definition fast_LoadMapFromMemory :: "pointer option \<Rightarrow> fast_Module option run" where
  "fast_LoadMapFromMemory memory_buffer =
     (case memory_buffer of
        None \<Rightarrow> Some None
      | Some buffer \<Rightarrow> do {
          (corrupt, mem_buffer) \<leftarrow> read_bool buffer;
          sizes \<leftarrow> all_run (map (\<lambda>i. read_word mem_buffer (4 * i)) [0..<9]);
          let offsets = map_offsets 40 (sizes @ [0]);
          let at = (\<lambda>i. drop (unat (offsets ! i)) mem_buffer);
          files \<leftarrow> new_StaticMap (at 0);
          functions \<leftarrow> new_StaticMap (at 1);
          symbols \<leftarrow> new_StaticMap (at 2);
          frame_infos \<leftarrow> all_run (map (\<lambda>i. new_StaticContainedRangeMap (at (3 + i))) [0..<5]);
          initial_rules \<leftarrow> new_StaticMap (at 8);
          delta_rules \<leftarrow> new_StaticMap (at 9);
          Some (Some \<lparr>fast_files = files, fast_functions = functions, fast_public_symbols = symbols,
            fast_is_corrupt = corrupt, fast_windows_frame_info = frame_infos,
            fast_cfi_initial_rules = initial_rules, fast_cfi_delta_rules = delta_rules\<rparr>)
        })"

subsection \<open>Lookups\<close>

text \<open>The parts of \<open>LookupAddress\<close> that fill in a line and a public symbol.\<close>

definition fast_fill_line ::
  "fast_Module \<Rightarrow> u64 \<Rightarrow> pointer \<Rightarrow> u64 \<Rightarrow> 'a StackFrame_scheme \<Rightarrow> 'a StackFrame_scheme run" where
  "fast_fill_line m base line_ptr line_base frame = do {
     line \<leftarrow> Line_CopyFrom line_ptr;
     it \<leftarrow> static_find int_key (fast_files m) (sint (source_file_id line));
     frame \<leftarrow> (if it \<noteq> num_nodes (fast_files m) then do {
         file_ptr \<leftarrow> GetValuePtr (fast_files m) it;
         file \<leftarrow> read_c_string file_ptr;
         Some (frame\<lparr>source_file_name := file\<rparr>)
       } else Some frame);
     Some (frame\<lparr>source_line := line_number line, source_line_base := base + line_base\<rparr>)
   }"

definition fast_fill_public ::
  "fast_Module \<Rightarrow> u64 \<Rightarrow> u64 \<Rightarrow> u64 option \<Rightarrow> 'a StackFrame_scheme \<Rightarrow> 'a StackFrame_scheme run" where
  "fast_fill_public m base address bound frame = do {
     public \<leftarrow> static_Retrieve (fast_public_symbols m) address;
     case public of
       None \<Rightarrow> Some frame
     | Some (symbol_ptr, public_address) \<Rightarrow>
         if (case bound of None \<Rightarrow> True | Some f_base \<Rightarrow> f_base < public_address)
         then do {
           (name, _, _) \<leftarrow> PublicSymbol_CopyFrom symbol_ptr;
           Some (frame\<lparr>function_name := name, function_base := base + public_address\<rparr>)
         }
         else Some frame
   }"

definition fast_LookupAddress ::
  "fast_Module \<Rightarrow> u64 \<Rightarrow> 'a StackFrame_scheme \<Rightarrow> 'a StackFrame_scheme run" where
  "fast_LookupAddress m base frame = do {
     let address = instruction frame - base;
     nearest \<leftarrow> static_RetrieveNearestRange (fast_functions m) address;
     case (case nearest of
             None \<Rightarrow> None
           | Some (f, f_base, f_sz) \<Rightarrow>
               if f_base \<le> address \<and> address - f_base < f_sz then Some (f, f_base) else None) of
       Some (f, f_base) \<Rightarrow> do {
         func \<leftarrow> Function_CopyFrom f;
         let frame = frame\<lparr>function_name := ff_name func, function_base := base + f_base\<rparr>;
         line_found \<leftarrow> static_RetrieveRange (ff_lines func) address;
         case line_found of
           None \<Rightarrow> Some frame
         | Some (line_ptr, line_base, _) \<Rightarrow> fast_fill_line m base line_ptr line_base frame
       }
     | None \<Rightarrow> fast_fill_public m base address (map_option (\<lambda>(_, f_base, _). f_base) nearest) frame
   }"

text \<open>
  The parameter size of a public symbol is read and then dropped with \<open>result\<close>, as in the
  basic resolver.
\<close>

definition fast_FindWindowsFrameInfo :: "fast_Module \<Rightarrow> u64 \<Rightarrow> WindowsFrameInfo option run" where
  "fast_FindWindowsFrameInfo m address = do {
     let result = new_WindowsFrameInfo;
     data_found \<leftarrow> static_contained_RetrieveRange (fast_windows_frame_info m ! 4) address;
     found \<leftarrow> (case data_found of
        Some p \<Rightarrow> Some (Some p)
      | None \<Rightarrow> static_contained_RetrieveRange (fast_windows_frame_info m ! 0) address);
     case found of
       Some None \<Rightarrow> None
     | Some (Some frame_info_ptr) \<Rightarrow> do {
         frame_info \<leftarrow> CopyWFI frame_info_ptr;
         Some (Some (WindowsFrameInfo_CopyFrom frame_info result))
       }
     | None \<Rightarrow> do {
         nearest \<leftarrow> static_RetrieveNearestRange (fast_functions m) address;
         case (case nearest of
                 None \<Rightarrow> None
               | Some (f, f_base, f_sz) \<Rightarrow>
                   if f_base \<le> address \<and> address - f_base < f_sz then Some f else None) of
           Some f \<Rightarrow> do {
             func \<leftarrow> Function_CopyFrom f;
             Some (Some (result\<lparr>parameter_size := ff_parameter_size func,
               valid := valid result OR VALID_PARAMETER_SIZE\<rparr>))
           }
         | None \<Rightarrow> do {
             public \<leftarrow> static_Retrieve (fast_public_symbols m) address;
             case public of
               None \<Rightarrow> Some None
             | Some (symbol_ptr, public_address) \<Rightarrow>
                 if (case nearest of None \<Rightarrow> True | Some (_, f_base, _) \<Rightarrow> f_base < public_address)
                 then map_option (\<lambda>_. None) (PublicSymbol_CopyFrom symbol_ptr)
                 else Some None
           }
       }
   }"

text \<open>The loop over the delta rules, from an iterator on.\<close>

function fast_apply_delta_rules ::
  "static_map \<Rightarrow> u64 \<Rightarrow> int \<Rightarrow> CFIFrameInfo \<Rightarrow> CFIFrameInfo run" where
  "fast_apply_delta_rules m address delta rules =
     (if delta = num_nodes m then Some rules
      else do {
        key \<leftarrow> GetKey address_key m delta;
        if key \<le> address then do {
          p \<leftarrow> GetValuePtr m delta;
          rule_set \<leftarrow> read_c_string p;
          fast_apply_delta_rules m address (iterator_next m delta)
            (snd (CFIRuleParser_Parse frame_info_handler rule_set rules))
        } else Some rules
      })"
  by pat_completeness auto
termination
  by (relation "measure (\<lambda>(m, _, i, _). nat (num_nodes m - i))") 
    (auto simp: iterator_next_def IsValid_def GetKey_def split: if_split_asm)

declare fast_apply_delta_rules.simps [simp del]

definition fast_FindCFIFrameInfo :: "fast_Module \<Rightarrow> u64 \<Rightarrow> CFIFrameInfo option run" where
  "fast_FindCFIFrameInfo m address = do {
     initial \<leftarrow> static_RetrieveRange (fast_cfi_initial_rules m) address;
     case initial of
       None \<Rightarrow> Some None
     | Some (p, initial_base, _) \<Rightarrow> do {
         initial_rules \<leftarrow> read_c_string p;
         case CFIRuleParser_Parse frame_info_handler initial_rules empty_cfi of (ok, rules) \<Rightarrow>
           if \<not> ok then Some None
           else do {
             delta \<leftarrow> static_lower_bound address_key (fast_cfi_delta_rules m) initial_base;
             rules \<leftarrow> fast_apply_delta_rules (fast_cfi_delta_rules m) address delta rules;
             Some (Some rules)
           }
       }
   }"

subsection \<open>Reading back what was written\<close>

definition serializable :: "Module \<Rightarrow> bool" where
  "serializable m = (module_ok m \<and> module_text_ok m \<and> module_fits m)"

lemma text_at: "text_ok s \<Longrightarrow> prefix (string_bytes s) p \<Longrightarrow> read_c_string p = Some s"
  by (auto simp: text_ok_def prefix_def read_c_string_at)

lemma Line_at: "prefix (Line_Write l) p \<Longrightarrow> Line_CopyFrom p = Some l"
  by (auto simp: prefix_def Line_Write_def Line_CopyFrom_def layout_simps)

lemma PublicSymbol_at:
  assumes "prefix (PublicSymbol_Write s) p" and "text_ok (p_name s)"
  shows "PublicSymbol_CopyFrom p = Some (p_name s, p_address s, p_parameter_size s)"
  using assms
  by (auto simp: prefix_def PublicSymbol_Write_def PublicSymbol_CopyFrom_def text_ok_def string_SizeOf_def layout_simps)

lemma Function_at:
  assumes "prefix (Function_Write f) p" and "text_ok (f_name f)"
    and fits: "length (RangeMap_Write Line_Write (f_lines f)) < 2 ^ 32"
  obtains func where "Function_CopyFrom p = Some func" and "ff_name func = f_name f"
    and "ff_parameter_size func = f_parameter_size f"
    and "represents address_key (range_bytes Line_Write) (rmap (f_lines f)) (ff_lines func)"
proof -
  obtain rest where p: "p = Function_Write f @ rest" using assms(1) by (auto simp: prefix_def)
  obtain sm where sm: "new_StaticMap (RangeMap_Write Line_Write (f_lines f) @ rest) = Some sm"
    and r: "represents address_key (range_bytes Line_Write) (rmap (f_lines f)) sm"
    unfolding RangeMap_Write_eq
    by (rule address_key.new_StaticMap_written [OF _ fits [unfolded RangeMap_Write_eq]]) auto
  have "Function_CopyFrom p = Some \<lparr>ff_name = f_name f, ff_address = f_address f, ff_size = f_size f,
      ff_parameter_size = f_parameter_size f, ff_lines = sm\<rparr>"
    using assms(2) sm by (simp add: p Function_Write_def Function_CopyFrom_def text_ok_def string_SizeOf_def layout_simps)
  with r that show ?thesis by simp
qed

lemma stack_info_type_number: "stack_info_type (sint (of_nat (type_number t) :: u32)) = t"
  by (cases t) (simp_all add: type_number_def stack_info_type_def)

lemma CopyWFI_at:
  assumes "prefix (WindowsFrameInfo_Write w) p" and "valid w = VALID_ALL" and "text_ok (program_string w)"
  shows "CopyWFI p = Some w"
proof -
  obtain rest where p: "p = WindowsFrameInfo_Write w @ rest" using assms(1) by (auto simp: prefix_def)
  show ?thesis
    using assms(2,3)
    by (simp add: p WindowsFrameInfo_Write_def CopyWFI_def text_ok_def layout_simps stack_info_type_number
        make_WindowsFrameInfo_def)
qed

subsection \<open>Loading serialized data\<close>

lemma map_offsets_append: "map_offsets o1 (xs @ [y]) = map_offsets o1 xs @ [o1 + sum_list xs]"
  by (induction xs arbitrary: o1) (auto simp: add.assoc)

lemma map_offsets_place:
  assumes "i < length bs" and "unat o1 + length (concat bs) < 2 ^ 32"
  shows "unat (map_offsets o1 (map (\<lambda>b. of_nat (length b)) bs) ! i) = unat o1 + length (concat (take i bs))"
  using assms
proof (induction bs arbitrary: o1 i)
  case (Cons b bs)
  show ?case
  proof (cases i)
    case (Suc j)
    have "unat (of_nat (length b) :: u32) = length b"
      using Cons.prems(2) by (simp add: unsigned_of_nat take_bit_nat_eq_self)
    then have "unat (o1 + of_nat (length b)) = unat o1 + length b"
      using Cons.prems(2) by (simp add: unat_word_ariths)
    with Cons.IH [of j "o1 + of_nat (length b)"] Cons.prems Suc show ?thesis by simp
  qed simp
qed simp

lemma all_run_map: "(\<And>i. i \<in> set ixs \<Longrightarrow> f i = Some (g i)) \<Longrightarrow> all_run (map f ixs) = Some (map g ixs)"
  by (induction ixs) auto

text \<open>The maps of a loaded module represent the maps of the module that was written.\<close>

definition represents_module :: "Module \<Rightarrow> fast_Module \<Rightarrow> bool" where
  "represents_module m fm = (
     represents int_key string_bytes (files m) (fast_files fm) \<and>
     represents address_key (range_bytes (\<lambda>i. Function_Write (function_at m i)))
       (rmap (function_ranges m)) (fast_functions fm) \<and>
     represents address_key PublicSymbol_Write (public_symbols m) (fast_public_symbols fm) \<and>
     fast_is_corrupt fm = is_corrupt m \<and>
     (\<forall>i < 5. represents_node True WindowsFrameInfo_SizeOf WindowsFrameInfo_Write
        (windows_frame_info m ! i) (fast_windows_frame_info fm ! i)) \<and>
     represents address_key (range_bytes string_bytes) (rmap (cfi_initial_rules m)) (fast_cfi_initial_rules fm) \<and>
     represents address_key string_bytes (cfi_delta_rules m) (fast_cfi_delta_rules fm))"

lemma module_maps_nth:
  assumes "length (windows_frame_info m) = 5"
  shows "length (module_maps m) = 10"
    and "module_maps m ! 0 = StdMap_Write int_key string_bytes (files m)"
    and "module_maps m ! 1 = RangeMap_Write (\<lambda>i. Function_Write (function_at m i)) (function_ranges m)"
    and "module_maps m ! 2 = AddressMap_Write PublicSymbol_Write (public_symbols m)"
    and "i < 5 \<Longrightarrow> module_maps m ! (3 + i) =
      contained_Write True WindowsFrameInfo_SizeOf WindowsFrameInfo_Write (windows_frame_info m ! i)"
    and "module_maps m ! 8 = RangeMap_Write string_bytes (cfi_initial_rules m)"
    and "module_maps m ! 9 = StdMap_Write address_key string_bytes (cfi_delta_rules m)"
  using assms by (simp_all add: module_maps_def nth_append)

lemma header_sizes:
  assumes "i < length sizes"
  shows "read_word (concat (map word_bytes sizes) @ rest) (4 * i) = Some (sizes ! i :: u32)"
proof -
  have "length (concat (map word_bytes (take i sizes))) = 4 * i"
    using assms length_concat_map_const [of "take i sizes" word_bytes 4] by simp
  then show ?thesis by (subst concat_map_nth [OF assms]) (simp add: layout_simps)
qed

text \<open>What follows the flag: the sizes, the maps and a terminator.\<close>

definition module_body :: "Module \<Rightarrow> char list \<Rightarrow> char list" where
  "module_body m rest = concat (map word_bytes (map_sizes m)) @ concat (module_maps m) @ NUL # rest"

lemma module_Write_body: "ModuleSerializer_Write m @ rest = bool_bytes (is_corrupt m) @ module_body m rest"
  by (simp add: ModuleSerializer_Write_def module_body_def)

lemma module_sizes:
  assumes "length (windows_frame_info m) = 5"
  shows "all_run (map (\<lambda>i. read_word (module_body m rest) (4 * i)) [0..<9]) = Some (take 9 (map_sizes m))"
    and "map_offsets 40 (take 9 (map_sizes m) @ [0]) = map_offsets 40 (map_sizes m)"
proof -
  have ten: "length (map_sizes m) = 10" by (simp add: map_sizes_eq module_maps_nth(1) [OF assms])
  have "map ((!) (map_sizes m)) [0..<9] = take 9 (map_sizes m)"
    using ten by (intro nth_equalityI) simp_all
  then show "all_run (map (\<lambda>i. read_word (module_body m rest) (4 * i)) [0..<9]) = Some (take 9 (map_sizes m))"
    unfolding module_body_def using ten all_run_map [of "[0..<9]" _ "(!) (map_sizes m)"]
    by (simp add: header_sizes)
  have "map_sizes m = take 9 (map_sizes m) @ [map_sizes m ! 9]"
    using ten take_Suc_conv_app_nth [of 9 "map_sizes m"] by simp
  then show "map_offsets 40 (take 9 (map_sizes m) @ [0]) = map_offsets 40 (map_sizes m)"
    by (metis map_offsets_append)
qed

definition module_pointer :: "Module \<Rightarrow> char list \<Rightarrow> nat \<Rightarrow> pointer" where
  "module_pointer m rest i = drop (unat (map_offsets 40 (map_sizes m) ! i)) (module_body m rest)"

lemma module_pointer_map:
  assumes five: "length (windows_frame_info m) = 5" and fits: "module_fits m" and "i < 10"
  obtains tail where "module_pointer m rest i = module_maps m ! i @ tail"
proof -
  have i: "i < length (module_maps m)" using assms(3) by (simp add: module_maps_nth(1) [OF five])
  have "40 + length (concat (module_maps m)) < 2 ^ 32"
    using fits by (simp add: module_fits_def length_module_Write [OF five] length_concat)
  then have place: "unat (map_offsets 40 (map_sizes m) ! i) = 40 + length (concat (take i (module_maps m)))"
    using map_offsets_place [OF i, of 40] by (simp add: map_sizes_eq)
  have "length (concat (map word_bytes (map_sizes m))) = 40"
    using length_concat_map_const [of "map_sizes m" word_bytes 4]
    by (simp add: map_sizes_eq module_maps_nth(1) [OF five])
  moreover have "concat (module_maps m) = concat (take i (module_maps m)) @ module_maps m ! i @
      concat (drop (Suc i) (module_maps m))"
    using concat_map_nth [OF i, of id] by simp
  ultimately show ?thesis
    using that by (simp add: module_pointer_def module_body_def place)
qed

lemma module_static_map:
  assumes m: "length (windows_frame_info m) = 5" "module_fits m"
    and i: "i < 10" "module_maps m ! i = StdMap_Write K write x"
    and K: "key_layout K good" "\<forall>p\<in>set x. good (fst p)"
  obtains sm where "new_StaticMap (module_pointer m rest i) = Some sm" and "represents K write x sm"
proof -
  obtain tail where tail: "module_pointer m rest i = StdMap_Write K write x @ tail"
    using module_pointer_map [OF m i(1), of rest] i(2) by metis
  have "module_maps m ! i \<in> set (module_maps m)" using i(1) by (simp add: module_maps_nth(1) [OF m(1)])
  then have "length (StdMap_Write K write x) < 2 ^ 32"
    using module_map_fits [OF m(2,1)] i(2) by metis
  from key_layout.new_StaticMap_written [OF K this, of tail] that show ?thesis unfolding tail by blast
qed

lemma module_static_contained:
  assumes m: "length (windows_frame_info m) = 5" "module_fits m" and i: "i < 5"
  obtains sc where "new_StaticContainedRangeMap (module_pointer m rest (3 + i)) = Some sc"
    and "represents_node True WindowsFrameInfo_SizeOf WindowsFrameInfo_Write (windows_frame_info m ! i) sc"
proof -
  let ?w = "contained_Write True WindowsFrameInfo_SizeOf WindowsFrameInfo_Write (windows_frame_info m ! i)"
  have w: "module_maps m ! (3 + i) = ?w" by (rule module_maps_nth(5) [OF m(1) i])
  have "3 + i < 10" using i by simp
  then obtain tail where "module_pointer m rest (3 + i) = module_maps m ! (3 + i) @ tail"
    by (rule module_pointer_map [OF m])
  then have tail: "module_pointer m rest (3 + i) = ?w @ tail" by (simp only: w)
  have "module_maps m ! (3 + i) \<in> set (module_maps m)" using i by (simp add: module_maps_nth(1) [OF m(1)])
  then have "length ?w < 2 ^ 32" using module_map_fits [OF m(2,1)] w by metis
  from new_contained_written [OF WindowsFrameInfo_entries this, of tail] that show ?thesis
    unfolding tail by blast
qed

lemma fast_Load_written:
  assumes m: "module_ok m" and strings: "module_text_ok m" and fits: "module_fits m"
  obtains fm where "fast_LoadMapFromMemory (Some (ModuleSerializer_Write m @ rest)) = Some (Some fm)"
    and "represents_module m fm"
proof -
  have five: "length (windows_frame_info m) = 5" using m by (simp add: module_ok_def)
  note maps = module_maps_nth [OF five]
  let ?at = "module_pointer m rest"
  have keys: "\<forall>p\<in>set (files m). fst p \<in> {- (2 ^ 31) ..< 2 ^ 31}" using strings by (simp add: module_text_ok_def)
  note static = module_static_map [OF five fits]
  obtain s0 where s0: "new_StaticMap (?at 0) = Some s0" "represents int_key string_bytes (files m) s0"
    by (rule static [OF _ maps(2) int_key.key_layout_axioms keys]) auto
  obtain s1 where s1: "new_StaticMap (?at 1) = Some s1" "represents address_key
      (range_bytes (\<lambda>i. Function_Write (function_at m i))) (rmap (function_ranges m)) s1"
    by (rule static [OF _ maps(3) [unfolded RangeMap_Write_eq] address_key.key_layout_axioms]) auto
  obtain s2 where s2: "new_StaticMap (?at 2) = Some s2" "represents address_key PublicSymbol_Write (public_symbols m) s2"
    by (rule static [OF _ maps(4) [unfolded AddressMap_Write_def] address_key.key_layout_axioms]) auto
  obtain s8 where s8: "new_StaticMap (?at 8) = Some s8"
      "represents address_key (range_bytes string_bytes) (rmap (cfi_initial_rules m)) s8"
    by (rule static [OF _ maps(6) [unfolded RangeMap_Write_eq] address_key.key_layout_axioms]) auto
  obtain s9 where s9: "new_StaticMap (?at 9) = Some s9" "represents address_key string_bytes (cfi_delta_rules m) s9"
    by (rule static [OF _ maps(7) address_key.key_layout_axioms]) auto
  have "\<exists>sc. new_StaticContainedRangeMap (?at (3 + i)) = Some sc \<and>
      represents_node True WindowsFrameInfo_SizeOf WindowsFrameInfo_Write (windows_frame_info m ! i) sc"
    if "i < 5" for i
    by (rule module_static_contained [OF five fits that]) blast
  then have "\<forall>i. \<exists>sc. i < 5 \<longrightarrow> new_StaticContainedRangeMap (?at (3 + i)) = Some sc \<and>
      represents_node True WindowsFrameInfo_SizeOf WindowsFrameInfo_Write (windows_frame_info m ! i) sc"
    by blast
  then obtain sc where sc: "\<forall>i. i < 5 \<longrightarrow> new_StaticContainedRangeMap (?at (3 + i)) = Some (sc i) \<and>
      represents_node True WindowsFrameInfo_SizeOf WindowsFrameInfo_Write (windows_frame_info m ! i) (sc i)"
    unfolding choice_iff by blast
  have infos: "all_run (map (\<lambda>i. new_StaticContainedRangeMap (?at (3 + i))) [0..<5]) = Some (map sc [0..<5])"
    using sc by (intro all_run_map) simp
  define fm where "fm = \<lparr>fast_files = s0, fast_functions = s1, fast_public_symbols = s2,
      fast_is_corrupt = is_corrupt m, fast_windows_frame_info = map sc [0..<5],
      fast_cfi_initial_rules = s8, fast_cfi_delta_rules = s9\<rparr>"
  have "fast_LoadMapFromMemory (Some (ModuleSerializer_Write m @ rest)) = Some (Some fm)"
    unfolding fast_LoadMapFromMemory_def module_Write_body
    by (simp only: option.case read_bool_at bind.bind_lunit module_sizes [OF five] Let_def prod.case
        module_pointer_def [symmetric] s0(1) s1(1) s2(1) s8(1) s9(1) infos fm_def)
  moreover have "represents_module m fm"
    using s0(2) s1(2) s2(2) s8(2) s9(2) sc by (simp add: represents_module_def fm_def)
  ultimately show ?thesis by (rule that)
qed

subsection \<open>The lookups agree with the basic resolver\<close>

lemma retrieved_entry:
  assumes "ordered (rmap m)"
  shows "RetrieveRange m a = Some (e, b, d, s) \<Longrightarrow> \<exists>p\<in>set (rmap m). e = r_entry (snd p)"
    and "RetrieveNearestRange m a = Some (e, b, d, s) \<Longrightarrow> \<exists>p\<in>set (rmap m). e = r_entry (snd p)"
proof -
  have range: "\<exists>p\<in>set (rmap m). e = r_entry (snd p)" if "RetrieveRange m a = Some (e, b, d, s)"
  proof -
    have "lower_bound (rmap m) a < length (rmap m)" and "e = r_entry (snd (rmap m ! lower_bound (rmap m) a))"
      using that std.lb_le [OF assms, of a]
      by (auto simp: RetrieveRange_def Let_def range_outputs_def split: if_split_asm)
    then show ?thesis using nth_mem by blast
  qed
  then show "RetrieveRange m a = Some (e, b, d, s) \<Longrightarrow> \<exists>p\<in>set (rmap m). e = r_entry (snd p)" .
  assume near: "RetrieveNearestRange m a = Some (e, b, d, s)"
  show "\<exists>p\<in>set (rmap m). e = r_entry (snd p)"
  proof (cases "RetrieveRange m a")
    case None
    with near have "upper_bound (rmap m) a \<noteq> 0" and e: "e = r_entry (snd (rmap m ! (upper_bound (rmap m) a - 1)))"
      by (auto simp: RetrieveNearestRange_def Let_def range_outputs_def split: if_split_asm)
    then have "upper_bound (rmap m) a - 1 < length (rmap m)" using std.ub_le [OF assms, of a] by simp
    with e show ?thesis using nth_mem by blast
  next
    case (Some r)
    with near range show ?thesis by (simp add: RetrieveNearestRange_def)
  qed
qed

lemma exclusive_ordered: "exclusive_map m \<Longrightarrow> ordered (rmap m)"
  by (simp add: exclusive_map_def range_map_ok_def ranges_ok_ordered)

text \<open>A function found through \<open>functions_\<close>.\<close>

lemma found_function:
  assumes m: "serializable m" and f: "\<exists>p\<in>set (rmap (function_ranges m)). f = r_entry (snd p)"
    and ptr: "prefix (Function_Write (function_at m f)) p"
  obtains func where "Function_CopyFrom p = Some func" and "ff_name func = f_name (function_at m f)"
    and "ff_parameter_size func = f_parameter_size (function_at m f)"
    and "represents address_key (range_bytes Line_Write) (rmap (f_lines (function_at m f))) (ff_lines func)"
    and "ordered (rmap (f_lines (function_at m f)))"
proof -
  have ok: "module_ok m" and strings: "module_text_ok m" and fits: "module_fits m"
    using m by (simp_all add: serializable_def)
  have five: "length (windows_frame_info m) = 5" using ok by (simp add: module_ok_def)
  obtain q where q: "q \<in> set (rmap (function_ranges m))" "f = r_entry (snd q)" using f by blast
  then have "f < length (function_objects m)" using ok by (simp add: module_ok_def)
  then have mem: "function_at m f \<in> set (function_objects m)" by (simp add: function_at_def)
  let ?W = "\<lambda>i. Function_Write (function_at m i)"
  have "length (RangeMap_Write Line_Write (f_lines (function_at m f))) \<le> length (?W f)"
    by (simp only: Function_Write_def length_append)
  also have "\<dots> \<le> length (range_bytes ?W (snd q))" by (simp add: range_bytes_def q(2))
  also have "\<dots> \<le> length (RangeMap_Write ?W (function_ranges m))"
    unfolding RangeMap_Write_eq by (rule length_value_le [OF q(1)])
  also have "\<dots> < 2 ^ 32"
    by (rule module_map_fits [OF fits five]) (simp add: module_maps_def)
  finally have small: "length (RangeMap_Write Line_Write (f_lines (function_at m f))) < 2 ^ 32" .
  have name: "text_ok (f_name (function_at m f))" using strings mem by (simp add: module_text_ok_def)
  have lines: "ordered (rmap (f_lines (function_at m f)))"
    using ok mem by (intro exclusive_ordered) (simp add: module_ok_def)
  show ?thesis by (rule Function_at [OF ptr name small]) (rule that [OF _ _ _ _ lines])
qed

lemma serializableD:
  assumes "serializable m"
  shows "ordered (files m)" and "ordered (rmap (function_ranges m))" and "ordered (public_symbols m)"
    and "ordered (rmap (cfi_initial_rules m))" and "ordered (cfi_delta_rules m)"
    and "i < 5 \<Longrightarrow> tree_ok (windows_frame_info m ! i)"
    and "i < 5 \<Longrightarrow> (b, k, w) \<in> ranges_of (windows_frame_info m ! i) \<Longrightarrow>
      valid w = VALID_ALL \<and> text_ok (program_string w)"
    and "i < 5 \<Longrightarrow> length (contained_Write True WindowsFrameInfo_SizeOf WindowsFrameInfo_Write
      (windows_frame_info m ! i)) < 2 ^ 32"
proof -
  have five: "length (windows_frame_info m) = 5" using assms by (simp add: serializable_def module_ok_def)
  show "ordered (files m)" "ordered (rmap (function_ranges m))" "ordered (public_symbols m)"
    "ordered (rmap (cfi_initial_rules m))" "ordered (cfi_delta_rules m)"
    using assms by (auto simp: serializable_def module_ok_def intro: exclusive_ordered)
  assume i: "i < 5"
  then have mem: "windows_frame_info m ! i \<in> set (windows_frame_info m)" using five by simp
  with assms show "tree_ok (windows_frame_info m ! i)" by (simp add: serializable_def module_ok_def)
  show "length (contained_Write True WindowsFrameInfo_SizeOf WindowsFrameInfo_Write (windows_frame_info m ! i)) < 2 ^ 32"
    using assms five mem by (intro module_map_fits [of m]) (auto simp: serializable_def module_maps_def)
  assume "(b, k, w) \<in> ranges_of (windows_frame_info m ! i)"
  then show "valid w = VALID_ALL \<and> text_ok (program_string w)"
    using assms mem by (auto simp: serializable_def module_text_ok_def)
qed

lemma fast_fill_line_eq:
  assumes m: "serializable m" and fm: "represents_module m fm" and line: "prefix (Line_Write l) p"
  shows "fast_fill_line fm base p line_base frame =
    Some ((case map_of (files m) (sint (source_file_id l)) of
             None \<Rightarrow> frame | Some file \<Rightarrow> frame\<lparr>source_file_name := file\<rparr>)
           \<lparr>source_line := line_number l, source_line_base := base + line_base\<rparr>)"
proof -
  let ?k = "sint (source_file_id l)"
  have r: "represents int_key string_bytes (files m) (fast_files fm)"
    using fm by (simp add: represents_module_def)
  note find = represents_find [OF r serializableD(1) [OF m], of ?k]
  show ?thesis
  proof (cases "map_of (files m) ?k")
    case None
    with find show ?thesis by (simp add: fast_fill_line_def Line_at [OF line])
  next
    case (Some s)
    with find obtain i where i: "i < length (files m)" "files m ! i = (?k, s)"
      and it: "static_find int_key (fast_files fm) ?k = Some (int i)" by auto
    obtain q where q: "GetValuePtr (fast_files fm) (int i) = Some q" "prefix (string_bytes s) q"
      using represents_value [OF r i(1)] i(2) by auto
    have "text_ok s"
      using m i nth_mem [OF i(1)] by (fastforce simp: serializable_def module_text_ok_def)
    then have "read_c_string q = Some s" using q(2) by (rule text_at)
    with Some i(1) q(1) it show ?thesis
      by (simp add: fast_fill_line_def Line_at [OF line] representsD(1) [OF r])
  qed
qed

lemma fast_public_found:
  assumes m: "serializable m" and fm: "represents_module m fm"
  obtains (no) "static_Retrieve (fast_public_symbols fm) a = Some None" "Retrieve (public_symbols m) a = None"
  | (yes) p e b where "static_Retrieve (fast_public_symbols fm) a = Some (Some (p, b))"
      "Retrieve (public_symbols m) a = Some (e, b)"
      "PublicSymbol_CopyFrom p = Some (p_name e, p_address e, p_parameter_size e)"
proof -
  have r: "represents address_key PublicSymbol_Write (public_symbols m) (fast_public_symbols fm)"
    using fm by (simp add: represents_module_def)
  note ordered = serializableD(3) [OF m]
  obtain sym where sym: "static_Retrieve (fast_public_symbols fm) a = Some sym"
    and rel: "rel_option (\<lambda>(p, b) (e, b'). prefix (PublicSymbol_Write e) p \<and> b = b') sym
      (Retrieve (public_symbols m) a)"
    using static_Retrieve_represents [OF r ordered] by blast
  show ?thesis
  proof (cases "Retrieve (public_symbols m) a")
    case None
    with rel sym no show ?thesis by simp
  next
    case (Some r)
    obtain e b where eb: "r = (e, b)" by (cases r)
    then have "map_of (public_symbols m) b = Some e" using Some Retrieve_Some [OF ordered] by simp
    then have "text_ok (p_name e)"
      using m by (auto simp: serializable_def module_text_ok_def dest!: map_of_SomeD)
    moreover obtain p where "sym = Some (p, b)" "prefix (PublicSymbol_Write e) p"
      using rel Some eb by (auto simp: option_rel_Some2)
    ultimately show ?thesis using yes Some eb sym PublicSymbol_at by blast
  qed
qed

lemma fast_fill_public_eq:
  assumes "serializable m" and "represents_module m fm"
  shows "fast_fill_public fm base a bound frame =
    Some (case Retrieve (public_symbols m) a of
       None \<Rightarrow> frame
     | Some (public_symbol, public_address) \<Rightarrow>
         if (case bound of None \<Rightarrow> True | Some f_base \<Rightarrow> f_base < public_address)
         then frame\<lparr>function_name := p_name public_symbol, function_base := base + public_address\<rparr>
         else frame)"
  by (rule fast_public_found [OF assms, of a]) (simp_all add: fast_fill_public_def)

lemma fast_nearest:
  assumes "serializable m" and "represents_module m fm"
  obtains out where "static_RetrieveNearestRange (fast_functions fm) a = Some out"
    and "rel_option (entry_at (\<lambda>i. Function_Write (function_at m i))) out
      (RetrieveNearestRange (function_ranges m) a)"
  using static_RetrieveNearestRange_represents [OF _ serializableD(2) [OF assms(1)],
      of "\<lambda>i. Function_Write (function_at m i)" "fast_functions fm" a] assms(2) that
  by (auto simp: represents_module_def)

lemma fast_LookupAddress_eq:
  assumes m: "serializable m" and fm: "represents_module m fm"
  shows "fast_LookupAddress fm base frame = Some (LookupAddress m base frame)"
proof -
  let ?a = "instruction frame - base"
  obtain out where out: "static_RetrieveNearestRange (fast_functions fm) ?a = Some out"
    and rel: "rel_option (entry_at (\<lambda>i. Function_Write (function_at m i))) out
      (RetrieveNearestRange (function_ranges m) ?a)"
    by (rule fast_nearest [OF m fm])
  show ?thesis
  proof (cases "RetrieveNearestRange (function_ranges m) ?a")
    case None
    with rel out show ?thesis
      by (simp add: fast_LookupAddress_def LookupAddress_def Let_def fast_fill_public_eq [OF m fm] split: option.split)
  next
    case (Some r)
    obtain f b d z where near: "r = (f, b, d, z)" by (cases r)
    obtain p where outp: "out = Some (p, b, z)" and p: "prefix (Function_Write (function_at m f)) p"
      using rel Some near by (auto simp: option_rel_Some2 entry_at_def)
    show ?thesis
    proof (cases "b \<le> ?a \<and> ?a - b < z")
      case False
      from out outp Some near show ?thesis
        by (simp add: fast_LookupAddress_def LookupAddress_def Let_def fast_fill_public_eq [OF m fm] if_not_P [OF False]
            split: option.split)
    next
      case True
      obtain func where func: "Function_CopyFrom p = Some func" "ff_name func = f_name (function_at m f)"
        and rl: "represents address_key (range_bytes Line_Write) (rmap (f_lines (function_at m f))) (ff_lines func)"
        and ol: "ordered (rmap (f_lines (function_at m f)))"
        by (rule found_function [OF m retrieved_entry(2) [OF serializableD(2) [OF m] Some [unfolded near]] p])
      obtain line where line: "static_RetrieveRange (ff_lines func) ?a = Some line"
        and rel3: "rel_option (entry_at Line_Write) line (RetrieveRange (f_lines (function_at m f)) ?a)"
        using static_RetrieveRange_represents [OF rl ol] by blast
      have start: "fast_LookupAddress fm base frame =
          (case line of None \<Rightarrow> Some (frame\<lparr>function_name := ff_name func, function_base := base + b\<rparr>)
           | Some (line_ptr, line_base, _) \<Rightarrow> fast_fill_line fm base line_ptr line_base
               (frame\<lparr>function_name := ff_name func, function_base := base + b\<rparr>))"
        using True by (simp add: fast_LookupAddress_def Let_def out outp func(1) line)
      show ?thesis
      proof (cases "RetrieveRange (f_lines (function_at m f)) ?a")
        case None
        with rel3 have "line = None" by simp
        with None start Some near True func(2) show ?thesis
          by (simp add: LookupAddress_def function_at_def Let_def)
      next
        case (Some x)
        obtain l lb ld ls where x: "x = (l, lb, ld, ls)" by (cases x)
        then obtain q where "line = Some (q, lb, ls)" "prefix (Line_Write l) q"
          using rel3 Some by (auto simp: option_rel_Some2 entry_at_def)
        with start Some x \<open>RetrieveNearestRange _ _ = Some r\<close> near True func(2) show ?thesis
          by (simp add: LookupAddress_def function_at_def Let_def fast_fill_line_eq [OF m fm])
      qed
    qed
  qed
qed

lemma fast_frame_info_found:
  assumes m: "serializable m" and fm: "represents_module m fm" and i: "i < 5"
  obtains (no) "static_contained_RetrieveRange (fast_windows_frame_info fm ! i) a = Some None"
      "contained_RetrieveRange (windows_frame_info m ! i) a = None"
  | (yes) p w where "static_contained_RetrieveRange (fast_windows_frame_info fm ! i) a = Some (Some (Some p))"
      "contained_RetrieveRange (windows_frame_info m ! i) a = Some w" "CopyWFI p = Some w"
proof -
  note d = serializableD(6,7,8) [OF m i]
  have r: "represents_node True WindowsFrameInfo_SizeOf WindowsFrameInfo_Write
      (windows_frame_info m ! i) (fast_windows_frame_info fm ! i)"
    using fm i by (simp add: represents_module_def)
  obtain out where out: "static_contained_RetrieveRange (fast_windows_frame_info fm ! i) a = Some out"
    and rel: "rel_option (\<lambda>p x. \<exists>q. p = Some q \<and> prefix (WindowsFrameInfo_Write x) q) out
      (contained_RetrieveRange (windows_frame_info m ! i) a)"
    using static_contained_represents [OF WindowsFrameInfo_entries d(1) d(3) r] by blast
  show ?thesis
  proof (cases "contained_RetrieveRange (windows_frame_info m ! i) a")
    case None
    with rel out no show ?thesis by simp
  next
    case (Some w)
    then obtain b k where "(b, k, w) \<in> ranges_of (windows_frame_info m ! i)"
      using retrieve_smallest_range [OF d(1), of a] by (auto simp: smallest_at_def)
    then have "valid w = VALID_ALL" "text_ok (program_string w)" using d(2) by auto
    moreover obtain p where "out = Some (Some p)" "prefix (WindowsFrameInfo_Write w) p"
      using rel Some by (auto simp: option_rel_Some2)
    ultimately show ?thesis using Some out yes CopyWFI_at by blast
  qed
qed

lemma fast_FindWindowsFrameInfo_eq:
  assumes m: "serializable m" and fm: "represents_module m fm"
  shows "fast_FindWindowsFrameInfo fm a = Some (Module_FindWindowsFrameInfo m a)"
proof (cases "contained_RetrieveRange (windows_frame_info m ! 4) a = None \<and>
    contained_RetrieveRange (windows_frame_info m ! 0) a = None")
  case False
  have zero: "0 < (5 :: nat)" and four: "4 < (5 :: nat)" by simp_all
  show ?thesis
  proof (rule fast_frame_info_found [OF m fm four, of a])
    assume none: "static_contained_RetrieveRange (fast_windows_frame_info fm ! 4) a = Some None"
      "contained_RetrieveRange (windows_frame_info m ! 4) a = None"
    with False show ?thesis
      by (cases rule: fast_frame_info_found [OF m fm zero, of a])
        (simp_all add: fast_FindWindowsFrameInfo_def Module_FindWindowsFrameInfo_def Let_def)
  qed (simp add: fast_FindWindowsFrameInfo_def Module_FindWindowsFrameInfo_def Let_def)
next
  case True
  have zero: "0 < (5 :: nat)" and four: "4 < (5 :: nat)" by simp_all
  have none: "static_contained_RetrieveRange (fast_windows_frame_info fm ! 4) a = Some None"
    "static_contained_RetrieveRange (fast_windows_frame_info fm ! 0) a = Some None"
    using True fast_frame_info_found [OF m fm four, of a] fast_frame_info_found [OF m fm zero, of a] by auto
  obtain out where out: "static_RetrieveNearestRange (fast_functions fm) a = Some out"
    and rel: "rel_option (entry_at (\<lambda>i. Function_Write (function_at m i))) out
      (RetrieveNearestRange (function_ranges m) a)"
    by (rule fast_nearest [OF m fm])
  show ?thesis
  proof (cases "RetrieveNearestRange (function_ranges m) a")
    case None
    with rel out True none show ?thesis
      by (cases rule: fast_public_found [OF m fm, of a])
        (simp_all add: fast_FindWindowsFrameInfo_def Module_FindWindowsFrameInfo_def Let_def)
  next
    case (Some r)
    obtain f b d z where near: "r = (f, b, d, z)" by (cases r)
    obtain p where outp: "out = Some (p, b, z)" and p: "prefix (Function_Write (function_at m f)) p"
      using rel Some near by (auto simp: option_rel_Some2 entry_at_def)
    show ?thesis
    proof (cases "b \<le> a \<and> a - b < z")
      case outside: False
      from none True out outp Some near show ?thesis
        by (cases rule: fast_public_found [OF m fm, of a])
          (simp_all add: fast_FindWindowsFrameInfo_def Module_FindWindowsFrameInfo_def Let_def
            if_not_P [OF outside])
    next
      case inside: True
      obtain func where "Function_CopyFrom p = Some func"
        "ff_parameter_size func = f_parameter_size (function_at m f)"
        by (rule found_function [OF m retrieved_entry(2) [OF serializableD(2) [OF m] Some [unfolded near]] p])
      with none True out outp Some near inside show ?thesis
        by (simp add: fast_FindWindowsFrameInfo_def Module_FindWindowsFrameInfo_def Let_def function_at_def)
    qed
  qed
qed

lemma fast_apply_delta_rules_eq:
  assumes r: "represents address_key string_bytes m sm" and strings: "\<forall>p\<in>set m. text_ok (snd p)"
    and "i \<le> length m"
  shows "fast_apply_delta_rules sm a (int i) rules = Some (apply_delta_rules a (drop i m) rules)"
  using assms(3)
proof (induction "length m - i" arbitrary: i rules)
  case 0
  then show ?case by (simp add: fast_apply_delta_rules.simps representsD(1) [OF r])
next
  case (Suc n)
  then have i: "i < length m" by simp
  obtain k s where ks: "m ! i = (k, s)" by (cases "m ! i")
  obtain p where p: "GetValuePtr sm (int i) = Some p" "prefix (string_bytes s) p"
    using represents_value [OF r i] ks by auto
  have "text_ok s" using strings nth_mem [OF i] ks by force
  then have str: "read_c_string p = Some s" using p(2) by (rule text_at)
  have key: "GetKey address_key sm (int i) = Some k" using representsD(4) [OF r i] ks by simp
  have "iterator_next sm (int i) = int (Suc i)"
    using i by (simp add: iterator_next_def IsValid_def representsD(1) [OF r])
  moreover have "drop i m = (k, s) # drop (Suc i) m" using i ks by (metis Cons_nth_drop_Suc)
  moreover have "n = length m - Suc i" "Suc i \<le> length m" using Suc.hyps(2) i by simp_all
  ultimately show ?case
    using Suc.hyps(1) [of "Suc i"] i p(1) str key
    by (simp add: fast_apply_delta_rules.simps [of sm a "int i"] representsD(1) [OF r])
qed

lemma fast_FindCFIFrameInfo_eq:
  assumes m: "serializable m" and fm: "represents_module m fm"
  shows "fast_FindCFIFrameInfo fm a = Some (Module_FindCFIFrameInfo m a)"
proof -
  note ordered = serializableD(4,5) [OF m]
  have ri: "represents address_key (range_bytes string_bytes) (rmap (cfi_initial_rules m)) (fast_cfi_initial_rules fm)"
    and rd: "represents address_key string_bytes (cfi_delta_rules m) (fast_cfi_delta_rules fm)"
    using fm by (simp_all add: represents_module_def)
  have strings: "\<forall>p\<in>set (rmap (cfi_initial_rules m)). text_ok (r_entry (snd p))"
    "\<forall>p\<in>set (cfi_delta_rules m). text_ok (snd p)"
    using m by (simp_all add: serializable_def module_text_ok_def)
  obtain out where out: "static_RetrieveRange (fast_cfi_initial_rules fm) a = Some out"
    and rel: "rel_option (entry_at string_bytes) out (RetrieveRange (cfi_initial_rules m) a)"
    using static_RetrieveRange_represents [OF ri ordered(1)] by blast
  show ?thesis
  proof (cases "RetrieveRange (cfi_initial_rules m) a")
    case None
    with rel out show ?thesis by (simp add: fast_FindCFIFrameInfo_def Module_FindCFIFrameInfo_def)
  next
    case (Some r)
    obtain s b d z where r: "r = (s, b, d, z)" by (cases r)
    obtain p where p: "out = Some (p, b, z)" "prefix (string_bytes s) p"
      using rel Some r by (auto simp: option_rel_Some2 entry_at_def)
    have "text_ok s" using retrieved_entry(1) [OF ordered(1) Some [unfolded r]] strings(1) by auto
    then have str: "read_c_string p = Some s" using p(2) by (rule text_at)
    have deltas: "fast_apply_delta_rules (fast_cfi_delta_rules fm) a (int (lower_bound (cfi_delta_rules m) b)) rules =
        Some (apply_delta_rules a (drop (lower_bound (cfi_delta_rules m) b) (cfi_delta_rules m)) rules)" for rules
      by (rule fast_apply_delta_rules_eq [OF rd strings(2) std.lb_le [OF ordered(2)]])
    from Some r out p(1) str show ?thesis
      by (simp add: fast_FindCFIFrameInfo_def Module_FindCFIFrameInfo_def represents_bounds [OF rd ordered(2)]
          deltas split: prod.split)
  qed
qed

subsection \<open>Properties\<close>

text \<open>
  Whatever symbol file the basic resolver loads, the fast resolver reads its serialized
  form without ever leaving the data, and answers every lookup as the basic resolver does:
  the functions, lines and public symbols of addresses, the Windows frame data and the
  call-frame rules.
\<close>

theorem fast_resolver_agrees:
  assumes "LoadMapFromMemory buf new_Module = Some (ok, m)" and "module_fits m"
  shows "\<exists>data fm. ModuleSerializer_Serialize m = Some (data, of_nat (length data)) \<and>
    fast_LoadMapFromMemory (Some (data @ rest)) = Some (Some fm) \<and> fast_is_corrupt fm = is_corrupt m \<and>
    (\<forall>base (frame :: 'a StackFrame_scheme).
       fast_LookupAddress fm base frame = Some (LookupAddress m base frame)) \<and>
    (\<forall>a. fast_FindWindowsFrameInfo fm a = Some (Module_FindWindowsFrameInfo m a)) \<and>
    (\<forall>a. fast_FindCFIFrameInfo fm a = Some (Module_FindCFIFrameInfo m a))"
proof -
  have ok: "module_ok m" "module_text_ok m"
    using LoadMapFromMemory_invariant [OF module_ok_new assms(1)]
      LoadMapFromMemory_text [OF module_ok_new module_text_ok_new assms(1)] by simp_all
  then have m: "serializable m" using assms(2) by (simp add: serializable_def)
  obtain fm where load: "fast_LoadMapFromMemory (Some (ModuleSerializer_Write m @ rest)) = Some (Some fm)"
    and fm: "represents_module m fm"
    by (rule fast_Load_written [OF ok assms(2)])
  have "length (windows_frame_info m) = 5" using ok by (simp add: module_ok_def)
  then have "ModuleSerializer_Serialize m =
      Some (ModuleSerializer_Write m, of_nat (length (ModuleSerializer_Write m)))"
    by (rule module_Serialize_returns [OF assms(2)])
  moreover have "fast_is_corrupt fm = is_corrupt m" using fm by (simp add: represents_module_def)
  ultimately show ?thesis
    using load fast_LookupAddress_eq [OF m fm] fast_FindWindowsFrameInfo_eq [OF m fm]
      fast_FindCFIFrameInfo_eq [OF m fm] by blast
qed

lemma sample_module_fits: "module_fits sample_module"
  by (simp add: module_fits_def sample_module_size)

theorem fast_resolver_agrees_witness:
  "\<exists>data fm. ModuleSerializer_Serialize sample_module = Some (data, 338) \<and>
    fast_LoadMapFromMemory (Some (data @ [])) = Some (Some fm) \<and>
    fast_LookupAddress fm 0x400000 (new_StackFrame\<lparr>instruction := 0x401002\<rparr>) =
      Some (new_StackFrame\<lparr>instruction := 0x401002, function_name := ''main'', function_base := 0x401000,
        source_file_name := ''a.c'', source_line := 7, source_line_base := 0x401000\<rparr>) \<and>
    fast_FindCFIFrameInfo fm 0x1001 = Some (Some (empty_cfi\<lparr>cfa_rule := ''$rsp 16 +''\<rparr>))"
proof -
  have five: "length (windows_frame_info sample_module) = 5" by (simp add: sample_module_def new_Module_def)
  have size: "ModuleSerializer_Serialize sample_module = Some (ModuleSerializer_Write sample_module, 338)"
    using module_Serialize_returns [OF sample_module_fits five] by (simp add: sample_module_size)
  have look: "LookupAddress sample_module 0x400000 (new_StackFrame\<lparr>instruction := 0x401002\<rparr>) =
      new_StackFrame\<lparr>instruction := 0x401002, function_name := ''main'', function_base := 0x401000,
        source_file_name := ''a.c'', source_line := 7, source_line_base := 0x401000\<rparr>"
    unfolding LookupAddress_ranges [OF sample_module_ok]
    by (simp add: sample_module_def new_StackFrame_def)
  have cfi: "Module_FindCFIFrameInfo sample_module 0x1001 = Some (empty_cfi\<lparr>cfa_rule := ''$rsp 16 +''\<rparr>)"
    unfolding FindCFIFrameInfo_deltas [OF sample_module_ok]
    by (simp add: sample_module_def CFIRuleParser_Parse_def strtok_all.simps strtok_def
        token_breaks_def Report_def SetCFARule_def empty_cfi_def)
  obtain data fm where data: "ModuleSerializer_Serialize sample_module = Some (data, of_nat (length data))"
      "fast_LoadMapFromMemory (Some (data @ [])) = Some (Some fm)"
    and f: "\<And>base frame :: StackFrame.
      fast_LookupAddress fm base frame = Some (LookupAddress sample_module base frame)"
    and c: "\<And>a. fast_FindCFIFrameInfo fm a = Some (Module_FindCFIFrameInfo sample_module a)"
    using fast_resolver_agrees [OF sample_load sample_module_fits, of "[]"] by blast
  have "ModuleSerializer_Serialize sample_module = Some (data, 338)" using data(1) size by simp
  then show ?thesis
    by (intro exI [of _ data] exI [of _ fm] conjI data(2)) (simp_all only: f c look cfi)
qed

end
