(* ===== verification/Fast_Resolver_Base.thy ===== *)
theory Fast_Resolver_Base
  imports Resolver_Base Fast_Resolver
begin

text \<open>
  \<open>SourceLineResolverBase\<close> (\<open>processor/source_line_resolver_base.cc\<close>) as the fast
  resolver uses it, and the rest of \<open>ModuleSerializer\<close>
  (\<open>processor/module_serializer.cc\<close>), which moves the modules of a basic resolver into a
  fast one.  Here \<open>ShouldDeleteMemoryBufferAfterLoadModule\<close> is false: the modules point
  into the buffers they were loaded from, which \<open>memory_buffers_\<close> keeps until they are
  unloaded.
\<close>

record fast_resolver =
  fast_modules :: "string \<rightharpoonup> fast_Module"
  fast_corrupt_modules :: "string set"
  memory_buffers :: "string \<rightharpoonup> pointer"

definition new_fast_resolver :: fast_resolver where
  "new_fast_resolver =
     \<lparr>fast_modules = Map.empty, fast_corrupt_modules = {}, memory_buffers = Map.empty\<rparr>"

text \<open>The assertion on a failed load holds vacuously: only a null buffer fails.\<close>

definition fast_LoadModuleUsingMemoryBuffer ::
  "CodeModule option \<Rightarrow> pointer \<Rightarrow> fast_resolver \<Rightarrow> (bool \<times> fast_resolver) run" where
  "fast_LoadModuleUsingMemoryBuffer module memory_buffer r =
     (case module of
        None \<Rightarrow> Some (False, r)
      | Some module \<Rightarrow>
          if fast_modules r (module_key module) \<noteq> None then Some (False, r)
          else
            (case fast_LoadMapFromMemory (Some memory_buffer) of
               Some (Some fast_module) \<Rightarrow>
                 let r' = r\<lparr>fast_modules := (fast_modules r)(module_key module \<mapsto> fast_module)\<rparr> in
                 Some (True,
                   if fast_is_corrupt fast_module
                   then r'\<lparr>fast_corrupt_modules := insert (module_key module) (fast_corrupt_modules r')\<rparr>
                   else r')
             | _ \<Rightarrow> None))"

text \<open>\<open>insert\<close> leaves a buffer that is there already.\<close>

definition keep_buffer :: "CodeModule \<Rightarrow> pointer \<Rightarrow> fast_resolver \<Rightarrow> fast_resolver" where
  "keep_buffer module memory_buffer r =
     (if memory_buffers r (module_key module) \<noteq> None then r
      else r\<lparr>memory_buffers := (memory_buffers r)(module_key module \<mapsto> memory_buffer)\<rparr>)"

definition fast_LoadModuleUsingMapBuffer ::
  "CodeModule option \<Rightarrow> char list \<Rightarrow> fast_resolver \<Rightarrow> (bool \<times> fast_resolver) run" where
  "fast_LoadModuleUsingMapBuffer module map_buffer r =
     (case module of
        None \<Rightarrow> Some (False, r)
      | Some m \<Rightarrow>
          if fast_modules r (module_key m) \<noteq> None then Some (False, r)
          else do {
            let memory_buffer = map_buffer @ [NUL];
            (load_result, r) \<leftarrow> fast_LoadModuleUsingMemoryBuffer module memory_buffer r;
            Some (load_result, if load_result then keep_buffer m memory_buffer r else r)
          })"

definition fast_LoadModule ::
  "(string \<Rightarrow> char list option) \<Rightarrow> CodeModule option \<Rightarrow> string \<Rightarrow> fast_resolver \<Rightarrow>
     (bool \<times> fast_resolver) run" where
  "fast_LoadModule read_file module map_file r =
     (case module of
        None \<Rightarrow> Some (False, r)
      | Some m \<Rightarrow>
          if fast_modules r (module_key m) \<noteq> None then Some (False, r)
          else
            (case read_file map_file of
               None \<Rightarrow> Some (False, r)
             | Some contents \<Rightarrow> do {
                 let memory_buffer = contents @ [NUL];
                 (load_result, r) \<leftarrow> fast_LoadModuleUsingMemoryBuffer module memory_buffer r;
                 Some (load_result, if load_result then keep_buffer m memory_buffer r else r)
               }))"

definition fast_UnloadModule :: "CodeModule option \<Rightarrow> fast_resolver \<Rightarrow> fast_resolver" where
  "fast_UnloadModule code_module r =
     (case code_module of
        None \<Rightarrow> r
      | Some m \<Rightarrow>
          (let r = (if fast_modules r (module_key m) \<noteq> None
                    then r\<lparr>fast_corrupt_modules := fast_corrupt_modules r - {module_key m},
                           fast_modules := (fast_modules r)(module_key m := None)\<rparr>
                    else r) in
           r\<lparr>memory_buffers := (memory_buffers r)(module_key m := None)\<rparr>))"

definition fast_HasModule :: "CodeModule option \<Rightarrow> fast_resolver \<Rightarrow> bool" where
  "fast_HasModule module r =
     (case module of None \<Rightarrow> False | Some m \<Rightarrow> fast_modules r (module_key m) \<noteq> None)"

definition fast_IsModuleCorrupt :: "CodeModule option \<Rightarrow> fast_resolver \<Rightarrow> bool" where
  "fast_IsModuleCorrupt module r =
     (case module of None \<Rightarrow> False | Some m \<Rightarrow> module_key m \<in> fast_corrupt_modules r)"

definition fast_Resolver_FillSourceLineInfo ::
  "fast_resolver \<Rightarrow> 'a StackFrame_scheme \<Rightarrow> 'a StackFrame_scheme run" where
  "fast_Resolver_FillSourceLineInfo r frame =
     (case frame_module frame of
        None \<Rightarrow> Some frame
      | Some m \<Rightarrow>
          (case fast_modules r (module_key m) of
             None \<Rightarrow> Some frame
           | Some symbols \<Rightarrow> fast_LookupAddress symbols (base_address m) frame))"

definition fast_Resolver_FindWindowsFrameInfo ::
  "fast_resolver \<Rightarrow> 'a StackFrame_scheme \<Rightarrow> WindowsFrameInfo option run" where
  "fast_Resolver_FindWindowsFrameInfo r frame =
     (case frame_module frame of
        None \<Rightarrow> Some None
      | Some m \<Rightarrow>
          (case fast_modules r (module_key m) of
             None \<Rightarrow> Some None
           | Some symbols \<Rightarrow> fast_FindWindowsFrameInfo symbols (instruction frame - base_address m)))"

definition fast_Resolver_FindCFIFrameInfo ::
  "fast_resolver \<Rightarrow> 'a StackFrame_scheme \<Rightarrow> CFIFrameInfo option run" where
  "fast_Resolver_FindCFIFrameInfo r frame =
     (case frame_module frame of
        None \<Rightarrow> Some None
      | Some m \<Rightarrow>
          (case fast_modules r (module_key m) of
             None \<Rightarrow> Some None
           | Some symbols \<Rightarrow> fast_FindCFIFrameInfo symbols (instruction frame - base_address m)))"

subsection \<open>Conversion\<close>

text \<open>
  The string passed on has the size that \<open>Serialize\<close> announced.  The new module has only
  a code file.
\<close>

definition converted_module :: "string \<Rightarrow> CodeModule" where
  "converted_module name =
     \<lparr>module_object = 0, base_address = 0, module_size = 0, shrink_down_delta = 0, code_file = name,
      code_ident = [], debug_file = [], debug_ident = [], module_version = [], is_unloaded = False\<rparr>"

definition SerializeModuleAndLoadIntoFastResolver ::
  "string \<Rightarrow> Module \<Rightarrow> fast_resolver \<Rightarrow> (bool \<times> fast_resolver) run" where
  "SerializeModuleAndLoadIntoFastResolver name basic_module fast = do {
     (symbol_data, sz) \<leftarrow> ModuleSerializer_Serialize basic_module;
     let symbol_data_string = take (unat sz) symbol_data;
     fast_LoadModuleUsingMapBuffer (Some (converted_module name)) symbol_data_string fast
   }"

text \<open>The traversal of \<open>modules_\<close> is in the order of its keys.\<close>

primrec convert_modules :: "(string \<rightharpoonup> Module) \<Rightarrow> string list \<Rightarrow> fast_resolver \<Rightarrow> fast_resolver run" where
  "convert_modules modules [] fast = Some fast"
| "convert_modules modules (name # names) fast = do {
     (_, fast) \<leftarrow> SerializeModuleAndLoadIntoFastResolver name (the (modules name)) fast;
     convert_modules modules names fast
   }"

definition ConvertAllModules ::
  "resolver option \<Rightarrow> fast_resolver option \<Rightarrow> fast_resolver option run" where
  "ConvertAllModules basic fast =
     (case (basic, fast) of
        (Some b, Some f) \<Rightarrow>
          map_option Some
            (convert_modules (resolver_modules b) (sorted_list_of_set (dom (resolver_modules b))) f)
      | _ \<Rightarrow> Some fast)"

definition ConvertOneModule ::
  "string \<Rightarrow> resolver option \<Rightarrow> fast_resolver option \<Rightarrow> (bool \<times> fast_resolver option) run" where
  "ConvertOneModule moduleid basic fast =
     (case (basic, fast) of
        (Some b, Some f) \<Rightarrow>
          (case resolver_modules b (takeWhile (\<lambda>c. c \<noteq> NUL) moduleid) of
             None \<Rightarrow> Some (False, fast)
           | Some m \<Rightarrow>
               map_option (map_prod id Some)
                 (SerializeModuleAndLoadIntoFastResolver (takeWhile (\<lambda>c. c \<noteq> NUL) moduleid) m f))
      | _ \<Rightarrow> Some (False, fast))"

subsection \<open>The fast resolver is a resolver\<close>

text \<open>
  Every module that is loaded has its corrupt mark in the table, and a buffer is only kept for a
  module that is loaded.
\<close>

definition fast_resolver_ok :: "fast_resolver \<Rightarrow> bool" where
  "fast_resolver_ok r = ((\<forall>k m. fast_modules r k = Some m \<longrightarrow>
       (k \<in> fast_corrupt_modules r \<longleftrightarrow> fast_is_corrupt m)) \<and>
     fast_corrupt_modules r \<subseteq> dom (fast_modules r) \<and> dom (memory_buffers r) \<subseteq> dom (fast_modules r))"

lemma fast_resolver_ok_new [simp]: "fast_resolver_ok new_fast_resolver"
  by (simp add: fast_resolver_ok_def new_fast_resolver_def)

lemma fast_load_new:
  assumes "fast_modules r (module_key cm) = None"
  shows "fast_LoadModuleUsingMapBuffer (Some cm) data r =
    (case fast_LoadMapFromMemory (Some (data @ [NUL])) of
       Some (Some fm) \<Rightarrow> Some (True, keep_buffer cm (data @ [NUL])
         (r\<lparr>fast_modules := (fast_modules r)(module_key cm \<mapsto> fm),
            fast_corrupt_modules := (if fast_is_corrupt fm then insert (module_key cm) (fast_corrupt_modules r)
              else fast_corrupt_modules r)\<rparr>))
     | _ \<Rightarrow> None)"
  using assms
  by (simp add: fast_LoadModuleUsingMapBuffer_def fast_LoadModuleUsingMemoryBuffer_def Let_def
      split: option.split)

lemma keep_buffer_simps [simp]:
  "fast_modules (keep_buffer m p r) = fast_modules r"
  "fast_corrupt_modules (keep_buffer m p r) = fast_corrupt_modules r"
  "dom (memory_buffers (keep_buffer m p r)) = insert (module_key m) (dom (memory_buffers r))"
  by (auto simp: keep_buffer_def)

lemma fast_load_SomeD:
  assumes "fast_LoadModuleUsingMapBuffer m data r = Some (b, r')"
  obtains "b = False" "r' = r" "m = None \<or> fast_HasModule m r"
  | cm fm where "m = Some cm" "\<not> fast_HasModule m r" "b"
      "fast_LoadMapFromMemory (Some (data @ [NUL])) = Some (Some fm)"
      "fast_modules r' = (fast_modules r)(module_key cm \<mapsto> fm)"
      "fast_corrupt_modules r' = (if fast_is_corrupt fm then insert (module_key cm) (fast_corrupt_modules r)
        else fast_corrupt_modules r)"
      "dom (memory_buffers r') = insert (module_key cm) (dom (memory_buffers r))"
proof (cases m)
  case None
  with assms that(1) show ?thesis by (simp add: fast_LoadModuleUsingMapBuffer_def)
next
  case (Some cm)
  show ?thesis
  proof (cases "fast_modules r (module_key cm)")
    case None
    with assms Some obtain fm where "fast_LoadMapFromMemory (Some (data @ [NUL])) = Some (Some fm)"
      by (auto simp: fast_load_new split: option.split_asm)
    with assms Some None that(2) [OF Some, of fm] show ?thesis by (auto simp: fast_load_new fast_HasModule_def)
  next
    case loaded: (Some fm)
    with assms Some that(1) show ?thesis by (auto simp: fast_LoadModuleUsingMapBuffer_def fast_HasModule_def)
  qed
qed

lemma fast_load_ok:
  assumes "fast_resolver_ok r" and "fast_LoadModuleUsingMapBuffer m data r = Some (b, r')"
  shows "fast_resolver_ok r'"
  using assms(2)
proof (cases rule: fast_load_SomeD)
  case (2 cm fm)
  then have "module_key cm \<notin> fast_corrupt_modules r"
    using assms(1) by (auto simp: fast_resolver_ok_def fast_HasModule_def)
  with 2 assms(1) show ?thesis by (auto simp: fast_resolver_ok_def split: if_split_asm)
qed (use assms(1) in simp)

lemma fast_unload_ok: "fast_resolver_ok r \<Longrightarrow> fast_resolver_ok (fast_UnloadModule m r)"
  by (auto simp: fast_UnloadModule_def fast_resolver_ok_def Let_def split: option.split)

interpretation fast: line_resolver fast_resolver_ok fast_HasModule fast_IsModuleCorrupt
  fast_LoadModuleUsingMapBuffer fast_UnloadModule
proof
  show "fast_resolver_ok r \<Longrightarrow> fast_LoadModuleUsingMapBuffer m buf r = Some (b, r') \<Longrightarrow> fast_resolver_ok r'"
    for r r' m buf b by (rule fast_load_ok)
  show "fast_HasModule m r \<Longrightarrow> fast_LoadModuleUsingMapBuffer m buf r = Some (False, r)" for m r buf
    by (auto simp: fast_HasModule_def fast_LoadModuleUsingMapBuffer_def split: option.split_asm)
  show "fast_LoadModuleUsingMapBuffer m buf r = Some (b, r') \<Longrightarrow> \<not> fast_HasModule m r \<Longrightarrow> m \<noteq> None \<Longrightarrow>
      b \<and> fast_HasModule m r'" for m buf r r' b
    by (erule fast_load_SomeD) (auto simp: fast_HasModule_def)
  show "fast_LoadModuleUsingMapBuffer m buf r = Some (b, r') \<Longrightarrow> fast_HasModule n r \<Longrightarrow> fast_HasModule n r'"
    for m buf r r' b n
    by (erule fast_load_SomeD) (auto simp: fast_HasModule_def split: option.splits)
  show "fast_resolver_ok r \<Longrightarrow> fast_LoadModuleUsingMapBuffer m buf r = Some (b, r') \<Longrightarrow> fast_HasModule n r \<Longrightarrow>
      fast_IsModuleCorrupt n r' = fast_IsModuleCorrupt n r" for m buf r r' b n
    by (erule fast_load_SomeD)
      (auto simp: fast_HasModule_def fast_IsModuleCorrupt_def split: option.split_asm if_split_asm)
  show "fast_resolver_ok r \<Longrightarrow> fast_IsModuleCorrupt m r \<Longrightarrow> fast_HasModule m r" for r m
    by (auto simp: fast_HasModule_def fast_IsModuleCorrupt_def fast_resolver_ok_def split: option.split_asm)
  show "fast_resolver_ok r \<Longrightarrow> fast_resolver_ok (fast_UnloadModule m r)" for r m by (rule fast_unload_ok)
  show "\<not> fast_HasModule m (fast_UnloadModule m r)" for m r
    by (simp add: fast_HasModule_def fast_UnloadModule_def Let_def split: option.split)
qed

subsection \<open>Conversion keeps every answer\<close>

text \<open>What loading keeps of the table of a basic resolver, beside \<open>resolver_ok\<close>.\<close>

definition table_ok :: "resolver \<Rightarrow> bool" where
  "table_ok r = (finite (dom (resolver_modules r)) \<and>
     (\<forall>k m. resolver_modules r k = Some m \<longrightarrow> NUL \<notin> set k \<and> module_text_ok m))"

lemma table_ok_new [simp]: "table_ok new_resolver"
  by (simp add: table_ok_def new_resolver_def)

lemma module_key_no_NUL [simp]: "NUL \<notin> set (module_key m)"
  by (auto simp: module_key_def dest: set_takeWhileD)

lemma load_table_ok:
  assumes "table_ok r" and "LoadModuleUsingMemoryBuffer m buf r = Some (b, r')"
  shows "table_ok r'"
proof (cases "m = None \<or> HasModule m r")
  case True
  with assms basic.load_loaded [of m r buf] show ?thesis
    by (auto simp: LoadModuleUsingMemoryBuffer_def)
next
  case False
  then obtain cm where m: "m = Some cm" "resolver_modules r (module_key cm) = None" by (auto simp: HasModule_def)
  with assms(2) obtain ok bm where "LoadMapFromMemory buf new_Module = Some (ok, bm)"
    and mods: "resolver_modules r' = (resolver_modules r)(module_key cm \<mapsto> bm)"
    by (auto simp: LoadModuleUsingMemoryBuffer_def bind_eq_Some_conv Let_def split: if_split_asm)
  then have "module_text_ok bm" using LoadMapFromMemory_text [OF module_ok_new module_text_ok_new] by blast
  with assms(1) mods show ?thesis by (auto simp: table_ok_def)
qed

lemma unload_table_ok: "table_ok r \<Longrightarrow> table_ok (UnloadModule m r)"
  by (auto simp: table_ok_def UnloadModule_def split: option.split)

text \<open>The modules of the two resolvers that have been converted so far.\<close>

definition converted :: "resolver \<Rightarrow> string set \<Rightarrow> fast_resolver \<Rightarrow> bool" where
  "converted r names fr = (fast_resolver_ok fr \<and>
     (\<forall>k. (k \<in> names \<longrightarrow> rel_option (\<lambda>m fm. represents_module m fm) (resolver_modules r k) (fast_modules fr k)) \<and>
          (k \<notin> names \<longrightarrow> fast_modules fr k = None)))"

lemma converted_new: "converted r {} new_fast_resolver"
  by (simp add: converted_def) (simp add: new_fast_resolver_def)

lemma module_key_converted: "NUL \<notin> set k \<Longrightarrow> module_key (converted_module k) = k"
  by (auto simp: module_key_def converted_module_def takeWhile_eq_all_conv)

lemma convert_module:
  assumes "resolver_ok r" and "table_ok r" and m: "resolver_modules r k = Some m" and "module_fits m"
    and c: "converted r names fr" and "k \<notin> names"
  obtains fr' where "SerializeModuleAndLoadIntoFastResolver k m fr = Some (True, fr')"
    and "converted r (insert k names) fr'"
proof -
  have ok: "module_ok m" "module_text_ok m" "NUL \<notin> set k" using assms(1-3) by (auto simp: resolver_ok_def table_ok_def)
  then have "length (windows_frame_info m) = 5" by (simp add: module_ok_def)
  then have data: "ModuleSerializer_Serialize m =
      Some (ModuleSerializer_Write m, of_nat (length (ModuleSerializer_Write m)))"
    by (rule module_Serialize_returns [OF assms(4)])
  have size: "unat (of_nat (length (ModuleSerializer_Write m)) :: u32) = length (ModuleSerializer_Write m)"
    using assms(4) by (simp add: module_fits_def unsigned_of_nat take_bit_nat_eq_self)
  obtain fm where load: "fast_LoadMapFromMemory (Some (ModuleSerializer_Write m @ [NUL])) = Some (Some fm)"
    and fm: "represents_module m fm"
    by (rule fast_Load_written [OF ok(1,2) assms(4)])
  have new: "fast_modules fr k = None" using c assms(6) by (simp add: converted_def)
  obtain fr' where run: "fast_LoadModuleUsingMapBuffer (Some (converted_module k)) (ModuleSerializer_Write m) fr =
      Some (True, fr')" and mods: "fast_modules fr' = (fast_modules fr)(k \<mapsto> fm)"
    using new load by (simp add: fast_load_new module_key_converted ok(3))
  have "fast_resolver_ok fr'" using fast_load_ok [OF _ run] c by (simp add: converted_def)
  then have "converted r (insert k names) fr'" using c mods m fm by (auto simp: converted_def)
  moreover have "SerializeModuleAndLoadIntoFastResolver k m fr = Some (True, fr')"
    by (simp add: SerializeModuleAndLoadIntoFastResolver_def data size run)
  ultimately show ?thesis by (rule that [rotated])
qed

lemma convert_modules_all:
  assumes "resolver_ok r" and "table_ok r" and "\<forall>k m. resolver_modules r k = Some m \<longrightarrow> module_fits m"
    and "distinct ks" and "set ks \<subseteq> dom (resolver_modules r)" and "set ks \<inter> names = {}"
    and "converted r names fr"
  shows "\<exists>fr'. convert_modules (resolver_modules r) ks fr = Some fr' \<and> converted r (set ks \<union> names) fr'"
  using assms(4-7)
proof (induction ks arbitrary: names fr)
  case (Cons k ks)
  then obtain m where m: "resolver_modules r k = Some m" by auto
  have "module_fits m" "k \<notin> names" using assms(3) m Cons.prems(3) by auto
  then obtain fr1 where "SerializeModuleAndLoadIntoFastResolver k m fr = Some (True, fr1)"
    and c: "converted r (insert k names) fr1"
    using convert_module [OF assms(1,2) m _ Cons.prems(4)] by blast
  moreover obtain fr' where "convert_modules (resolver_modules r) ks fr1 = Some fr'"
    and "converted r (set ks \<union> insert k names) fr'"
    using Cons.IH [OF _ _ _ c] Cons.prems by auto
  ultimately show ?case by (simp add: m)
qed simp

text \<open>A fast resolver whose modules represent those of a basic one gives the same answers.\<close>

lemma represents_same_answers:
  assumes "resolver_ok r" and "table_ok r" and "\<forall>k m. resolver_modules r k = Some m \<longrightarrow> module_fits m"
    and "fast_resolver_ok fr" and rel: "\<forall>k. rel_option represents_module (resolver_modules r k) (fast_modules fr k)"
  shows "fast_HasModule n fr = HasModule n r"
    and "fast_IsModuleCorrupt n fr = IsModuleCorrupt n r"
    and "fast_Resolver_FillSourceLineInfo fr frame = Some (Resolver_FillSourceLineInfo r frame)"
    and "fast_Resolver_FindWindowsFrameInfo fr frame = Some (Resolver_FindWindowsFrameInfo r frame)"
    and "fast_Resolver_FindCFIFrameInfo fr frame = Some (Resolver_FindCFIFrameInfo r frame)"
proof -
  have both: "(resolver_modules r k = None \<and> fast_modules fr k = None) \<or>
      (\<exists>m fm. resolver_modules r k = Some m \<and> fast_modules fr k = Some fm \<and> serializable m \<and> represents_module m fm)"
    for k
    using rel [rule_format, of k] assms(1-3)
    by (cases "resolver_modules r k"; cases "fast_modules fr k")
      (auto simp: serializable_def resolver_ok_def table_ok_def)
  have corrupt: "(k \<in> fast_corrupt_modules fr) = (k \<in> corrupt_modules r)" for k
    using both [of k] assms(1,4)
    by (auto simp: fast_resolver_ok_def resolver_ok_def represents_module_def)
  show "fast_HasModule n fr = HasModule n r"
    using both [of "module_key (the n)"] by (cases n) (auto simp: fast_HasModule_def HasModule_def)
  show "fast_IsModuleCorrupt n fr = IsModuleCorrupt n r"
    by (auto simp: fast_IsModuleCorrupt_def IsModuleCorrupt_def corrupt split: option.split)
  show "fast_Resolver_FillSourceLineInfo fr frame = Some (Resolver_FillSourceLineInfo r frame)"
    "fast_Resolver_FindWindowsFrameInfo fr frame = Some (Resolver_FindWindowsFrameInfo r frame)"
    "fast_Resolver_FindCFIFrameInfo fr frame = Some (Resolver_FindCFIFrameInfo r frame)"
    using both [of "module_key (the (frame_module frame))"]
    by (auto simp: fast_Resolver_FillSourceLineInfo_def Resolver_FillSourceLineInfo_def
        fast_Resolver_FindWindowsFrameInfo_def Resolver_FindWindowsFrameInfo_def
        fast_Resolver_FindCFIFrameInfo_def Resolver_FindCFIFrameInfo_def
        fast_LookupAddress_eq fast_FindWindowsFrameInfo_eq fast_FindCFIFrameInfo_eq split: option.split)
qed

text \<open>
  C27: Converting a basic resolver, however it was filled, gives a fast resolver that knows the
  same modules and the same corrupt ones, and answers every query for a frame as the basic one:
  its source position, its Windows frame data and its call-frame rules, without ever reading
  outside the serialized data.  The modules have to fit into 32-bit sizes.
\<close>

theorem ConvertAllModules_agrees:
  assumes "resolver_ok r" and "table_ok r" and "\<forall>k m. resolver_modules r k = Some m \<longrightarrow> module_fits m"
  shows "\<exists>fr. ConvertAllModules (Some r) (Some new_fast_resolver) = Some (Some fr) \<and>
    (\<forall>n. fast_HasModule n fr = HasModule n r \<and> fast_IsModuleCorrupt n fr = IsModuleCorrupt n r) \<and>
    (\<forall>frame :: 'a StackFrame_scheme.
       fast_Resolver_FillSourceLineInfo fr frame = Some (Resolver_FillSourceLineInfo r frame) \<and>
       fast_Resolver_FindWindowsFrameInfo fr frame = Some (Resolver_FindWindowsFrameInfo r frame) \<and>
       fast_Resolver_FindCFIFrameInfo fr frame = Some (Resolver_FindCFIFrameInfo r frame))"
proof -
  let ?names = "sorted_list_of_set (dom (resolver_modules r))"
  have "finite (dom (resolver_modules r))" using assms(2) by (simp add: table_ok_def)
  then have names: "set ?names = dom (resolver_modules r)" by simp
  obtain fr where run: "convert_modules (resolver_modules r) ?names new_fast_resolver = Some fr"
    and c: "converted r (set ?names \<union> {}) fr"
    using convert_modules_all [OF assms _ _ _ converted_new, of ?names] names by auto
  have ok: "fast_resolver_ok fr" using c by (simp add: converted_def)
  have "\<forall>k. rel_option represents_module (resolver_modules r k) (fast_modules fr k)"
  proof
    fix k
    show "rel_option represents_module (resolver_modules r k) (fast_modules fr k)"
      using c names by (cases "k \<in> dom (resolver_modules r)") (auto simp: converted_def)
  qed
  note same = represents_same_answers [OF assms ok this]
  from run same show ?thesis by (intro exI [of _ fr]) (auto simp: ConvertAllModules_def)
qed

lemma sample_resolver_ok: "resolver_ok sample_resolver" "table_ok sample_resolver"
  using load_resolver_ok [OF resolver_ok_new] load_table_ok [OF table_ok_new] sample_resolver_load
  by (auto simp: LoadModuleUsingMapBuffer_def split: if_split_asm)

theorem ConvertAllModules_agrees_witness:
  "\<exists>fr. ConvertAllModules (Some sample_resolver) (Some new_fast_resolver) = Some (Some fr) \<and>
    fast_HasModule (Some sample_exe) fr \<and> \<not> fast_IsModuleCorrupt (Some sample_exe) fr \<and>
    fast_Resolver_FillSourceLineInfo fr (new_StackFrame\<lparr>instruction := 0x401002, frame_module := Some sample_exe\<rparr>) =
      Some (new_StackFrame\<lparr>instruction := 0x401002, frame_module := Some sample_exe, function_name := ''main'',
        function_base := 0x401000, source_file_name := ''a.c'', source_line := 7, source_line_base := 0x401000\<rparr>)"
proof -
  have fits: "\<forall>k m. resolver_modules sample_resolver k = Some m \<longrightarrow> module_fits m"
    using sample_module_fits by (simp add: sample_resolver_def)
  let ?f = "new_StackFrame\<lparr>instruction := 0x401002, frame_module := Some sample_exe\<rparr>"
  have look: "Resolver_FillSourceLineInfo sample_resolver ?f =
      new_StackFrame\<lparr>instruction := 0x401002, frame_module := Some sample_exe, function_name := ''main'',
        function_base := 0x401000, source_file_name := ''a.c'', source_line := 7, source_line_base := 0x401000\<rparr>"
    by (simp add: Resolver_FillSourceLineInfo_def sample_resolver_def module_key_def sample_exe_def
        LookupAddress_ranges [OF sample_module_ok])
      (simp add: sample_module_def new_StackFrame_def)
  have "HasModule (Some sample_exe) sample_resolver" "\<not> IsModuleCorrupt (Some sample_exe) sample_resolver"
    by (simp_all add: HasModule_def IsModuleCorrupt_def sample_resolver_def module_key_def sample_exe_def)
  with ConvertAllModules_agrees [OF sample_resolver_ok fits] look show ?thesis by metis
qed

end
