(* ===== verification/Minidump_Format.thy ===== *)
theory Minidump_Format
  imports Raw_Memory
begin

text \<open>
  The records of a minidump file (\<open>google_breakpad/common/minidump_format.h\<close>), how they
  are read from its bytes, and the routines of \<open>processor/minidump.cc\<close> that swap their
  bytes and that convert UTF-16 text.  A record is read in the byte order of the host, which
  is little-endian here, and its fields are swapped afterwards when the file is of the other
  byte order.
\<close>

subsection \<open>Words in a buffer\<close>

text \<open>Reads inside a buffer of known size; \<open>read_word\<close> is the checked read.\<close>

definition word_at :: "pointer \<Rightarrow> nat \<Rightarrow> 'a::len word" where
  "word_at p i = of_nat (horner_sum of_char 256 (take (LENGTH('a) div 8) (drop i p)))"

lemma read_word_word_at:
  "read_word p i = (if i + LENGTH('a) div 8 \<le> length p then Some (word_at p i :: 'a::len word) else None)"
  by (simp add: read_word_def word_at_def)

subsection \<open>Swapping\<close>

definition Swap16 :: "u16 \<Rightarrow> u16" where
  "Swap16 v = drop_bit 8 v OR push_bit 8 v"

definition Swap32 :: "u32 \<Rightarrow> u32" where
  "Swap32 v = drop_bit 24 v OR (drop_bit 8 v AND 0x0000ff00) OR (push_bit 8 v AND 0x00ff0000) OR
     push_bit 24 v"

text \<open>The two halves are swapped in place and exchanged.\<close>

definition Swap64 :: "u64 \<Rightarrow> u64" where
  "Swap64 v =
     (let low = Swap32 (ucast v); high = Swap32 (ucast (drop_bit 32 v)) in
      ucast high OR push_bit 32 (ucast low))"

text \<open>What the calls of \<open>Swap\<close> under \<open>if (swap())\<close> amount to for one field.\<close>

definition u16_at :: "bool \<Rightarrow> pointer \<Rightarrow> nat \<Rightarrow> u16" where
  "u16_at swap p i = (if swap then Swap16 (word_at p i) else word_at p i)"

definition u32_at :: "bool \<Rightarrow> pointer \<Rightarrow> nat \<Rightarrow> u32" where
  "u32_at swap p i = (if swap then Swap32 (word_at p i) else word_at p i)"

definition u64_at :: "bool \<Rightarrow> pointer \<Rightarrow> nat \<Rightarrow> u64" where
  "u64_at swap p i = (if swap then Swap64 (word_at p i) else word_at p i)"

text \<open>A word in the byte order of the file.\<close>

definition file_bytes :: "bool \<Rightarrow> 'a::len word \<Rightarrow> char list" where
  "file_bytes swap w = (if swap then rev (word_bytes w) else word_bytes w)"

subsection \<open>Swapping reverses bytes\<close>

lemma byte_word: "of_nat (of_char c) = (ucast (of_char c :: u8) :: 'a::len word)"
proof -
  have "unat (of_nat (of_char c) :: u8) = of_char c"
    using nat_of_char_less_256 [of c] by (simp add: unsigned_of_nat take_bit_nat_eq_self)
  moreover have "(of_char c :: u8) = of_nat (of_char c)" by (simp only: of_nat_of_char)
  ultimately have "unat (of_char c :: u8) = of_char c" by (simp only:)
  then show ?thesis by (metis of_nat_unat)
qed

lemma add_byte: "ucast (b :: u8) + 256 * w = ucast b OR push_bit 8 (w :: 'a::len word)"
proof -
  have "ucast b AND push_bit 8 w = (0 :: 'a word)"
    by (rule bit_word_eqI) (auto simp: bit_simps dest: bit_imp_le_length)
  moreover have "256 * w = push_bit 8 w" by (simp add: push_bit_eq_mult mult.commute)
  ultimately show ?thesis by (simp add: disjunctive_add_eq_or)
qed

lemma bytes_word:
  "of_nat (horner_sum of_char 256 (c # cs)) =
     (ucast (of_char c :: u8) OR push_bit 8 (of_nat (horner_sum of_char 256 cs)) :: 'a::len word)"
proof -
  have "of_nat (horner_sum of_char 256 (c # cs)) =
      (of_nat (of_char c) + 256 * of_nat (horner_sum of_char 256 cs) :: 'a word)"
    by simp
  then show ?thesis by (simp only: byte_word add_byte)
qed

lemma bytes_word_Nil: "of_nat (horner_sum of_char 256 []) = (0 :: 'a::len word)"
  by simp

lemma byte_bits: "bit (b :: u8) n \<Longrightarrow> n < 8"
  using bit_imp_le_length by fastforce

lemma Swap16_bytes:
  assumes "length bs = 2"
  shows "Swap16 (of_nat (horner_sum of_char 256 bs)) = of_nat (horner_sum of_char 256 (rev bs))"
proof -
  obtain a b where bs: "bs = [a, b]"
    using assms by (auto simp: length_Suc_conv numeral_eq_Suc)
  show ?thesis
    unfolding bs Swap16_def rev.simps append.simps bytes_word bytes_word_Nil
    by (rule bit_word_eqI) (auto simp: bit_simps dest: byte_bits)
qed

lemma Swap32_masks:
  "(0x0000ff00 :: u32) = push_bit 8 (mask 8)" "(0x00ff0000 :: u32) = push_bit 16 (mask 8)"
  by (simp_all add: mask_eq_exp_minus_1)

lemma Swap32_word:
  fixes a b c d :: u8
  shows "Swap32 (ucast a OR push_bit 8 (ucast b OR push_bit 8 (ucast c OR push_bit 8 (ucast d OR push_bit 8 0)))) =
    ucast d OR push_bit 8 (ucast c OR push_bit 8 (ucast b OR push_bit 8 (ucast a OR push_bit 8 0)))"
    (is "Swap32 ?w = ?w'")
proof (rule bit_word_eqI)
  fix n assume "n < LENGTH(32)"
  then consider "n < 8" | "8 \<le> n" "n < 16" | "16 \<le> n" "n < 24" | "24 \<le> n" "n < 32" by fastforce
  then show "bit (Swap32 ?w) n = bit ?w' n"
    unfolding Swap32_def Swap32_masks by cases (auto simp: bit_simps dest: byte_bits)
qed

lemma Swap32_bytes:
  assumes "length bs = 4"
  shows "Swap32 (of_nat (horner_sum of_char 256 bs)) = of_nat (horner_sum of_char 256 (rev bs))"
proof -
  obtain a b c d where bs: "bs = [a, b, c, d]"
    using assms by (auto simp: length_Suc_conv numeral_eq_Suc)
  show ?thesis
    unfolding bs rev.simps append.simps bytes_word bytes_word_Nil by (rule Swap32_word)
qed

lemma word_halves:
  "of_nat (horner_sum of_char 256 (xs @ ys)) =
     (of_nat (horner_sum of_char 256 xs) + 256 ^ length xs * of_nat (horner_sum of_char 256 ys) :: 'a::len word)"
  by (induction xs) (simp_all add: algebra_simps)

lemma ucast_bytes:
  assumes "length bs = 4"
  shows "(ucast (of_nat (horner_sum of_char 256 (bs @ cs)) :: u64) :: u32) = of_nat (horner_sum of_char 256 bs)"
    and "(of_nat (horner_sum of_char 256 bs) :: u64) = ucast (of_nat (horner_sum of_char 256 bs) :: u32)"
proof -
  obtain a b c d where bs: "bs = [a, b, c, d]"
    using assms by (auto simp: length_Suc_conv numeral_eq_Suc)
  show "(ucast (of_nat (horner_sum of_char 256 (bs @ cs)) :: u64) :: u32) = of_nat (horner_sum of_char 256 bs)"
    unfolding bs append.simps bytes_word bytes_word_Nil
    by (rule bit_word_eqI) (auto simp: bit_simps dest: byte_bits)
  show "(of_nat (horner_sum of_char 256 bs) :: u64) = ucast (of_nat (horner_sum of_char 256 bs) :: u32)"
    unfolding bs append.simps bytes_word bytes_word_Nil
    by (rule bit_word_eqI) (auto simp: bit_simps dest: byte_bits)
qed

lemma word_halves_or:
  assumes "length bs = 4"
  shows "(of_nat (horner_sum of_char 256 (bs @ cs)) :: u64) =
    ucast (of_nat (horner_sum of_char 256 bs) :: u32) OR push_bit 32 (of_nat (horner_sum of_char 256 cs))"
proof -
  have "ucast (w :: u32) AND push_bit 32 v = (0 :: u64)" for w v
    by (rule bit_word_eqI) (auto simp: bit_simps dest: bit_imp_le_length)
  moreover have "256 ^ 4 * v = push_bit 32 (v :: u64)" for v by (simp add: push_bit_eq_mult mult.commute)
  ultimately show ?thesis
    by (simp add: word_halves ucast_bytes(2) [OF assms] assms disjunctive_add_eq_or)
qed

lemma Swap64_bytes:
  assumes "length bs = 8"
  shows "Swap64 (of_nat (horner_sum of_char 256 bs)) = of_nat (horner_sum of_char 256 (rev bs))"
proof -
  define xs ys where "xs = take 4 bs" and "ys = drop 4 bs"
  have bs: "bs = xs @ ys" and len: "length xs = 4" "length ys = 4" using assms by (simp_all add: xs_def ys_def)
  let ?w = "\<lambda>bs. of_nat (horner_sum of_char 256 bs) :: u32"
  have cut: "(ucast (ucast (w :: u32) :: u64) :: u32) = w" for w
    by (rule bit_word_eqI) (auto simp: bit_simps)
  have "(drop_bit 32 (ucast (?w xs) OR push_bit 32 (ucast (?w ys))) :: u64) = ucast (?w ys)"
    by (rule bit_word_eqI) (auto simp: bit_simps dest: bit_imp_le_length)
  then have high: "(ucast (drop_bit 32 (of_nat (horner_sum of_char 256 bs) :: u64)) :: u32) = ?w ys"
    unfolding bs word_halves_or [OF len(1)] ucast_bytes(2) [OF len(2)] by (simp only: cut)
  have low: "(ucast (of_nat (horner_sum of_char 256 bs) :: u64) :: u32) = ?w xs"
    unfolding bs by (rule ucast_bytes(1) [OF len(1)])
  show ?thesis
    unfolding Swap64_def Let_def low high Swap32_bytes [OF len(1)] Swap32_bytes [OF len(2)]
    by (simp add: bs word_halves_or len ucast_bytes(2))
qed

lemma horner_word_bytes:
  assumes "8 dvd LENGTH('a)"
  shows "of_nat (horner_sum of_char 256 (word_bytes w)) = (w :: 'a::len word)"
proof -
  have "read_word ([] @ word_bytes w @ []) 0 = Some w" by (rule read_word_at) (simp_all add: assms)
  then show ?thesis by (simp add: read_word_def)
qed

lemmas horner_words = horner_word_bytes [where ?'a = 16, simplified] horner_word_bytes [where ?'a = 32, simplified]
  horner_word_bytes [where ?'a = 64, simplified]

lemma length_file_bytes [simp]: "length (file_bytes swap (w :: 'a::len word)) = LENGTH('a) div 8"
  by (simp add: file_bytes_def)

text \<open>Whichever the byte order of the file, a field is read as it was written.\<close>

lemma u16_at_file: "i = length xs \<Longrightarrow> u16_at swap (xs @ file_bytes swap w @ ys) i = w"
  by (simp add: u16_at_def word_at_def file_bytes_def Swap16_bytes horner_words)

lemma u32_at_file: "i = length xs \<Longrightarrow> u32_at swap (xs @ file_bytes swap w @ ys) i = w"
  by (simp add: u32_at_def word_at_def file_bytes_def Swap32_bytes horner_words)

lemma u64_at_file: "i = length xs \<Longrightarrow> u64_at swap (xs @ file_bytes swap w @ ys) i = w"
  by (simp add: u64_at_def word_at_def file_bytes_def Swap64_bytes horner_words)

lemma word_at_skip:
  assumes "length xs \<le> i"
  shows "word_at (xs @ p) i = (word_at p (i - length xs) :: 'a::len word)"
  using assms by (simp add: word_at_def)

lemma word_at_prefix:
  assumes "i + LENGTH('a) div 8 \<le> length p"
  shows "word_at (p @ q) i = (word_at p i :: 'a::len word)"
  using assms by (simp add: word_at_def)

subsection \<open>Records of the file\<close>

record MDLocationDescriptor =
  loc_size :: u32
  loc_rva :: u32

record MDMemoryDescriptor =
  start_of_memory_range :: u64
  memory_location :: MDLocationDescriptor

record MDRawHeader =
  h_signature :: u32
  h_version :: u32
  stream_count :: u32
  stream_directory_rva :: u32
  h_checksum :: u32
  h_time_date_stamp :: u32
  h_flags :: u64

definition MD_HEADER_SIGNATURE :: u32 where "MD_HEADER_SIGNATURE = 0x504d444d"
definition MD_HEADER_VERSION :: u32 where "MD_HEADER_VERSION = 0x0000a793"

record MDRawDirectory =
  dir_stream_type :: u32
  dir_location :: MDLocationDescriptor

record MDRawThread =
  raw_thread_id :: u32
  suspend_count :: u32
  priority_class :: u32
  thread_priority :: u32
  teb :: u64
  thread_stack :: MDMemoryDescriptor
  thread_context :: MDLocationDescriptor

record MDRawModule =
  base_of_image :: u64
  size_of_image :: u32
  m_checksum :: u32
  m_time_date_stamp :: u32
  module_name_rva :: u32
  version_info :: "u32 list"
  cv_location :: MDLocationDescriptor
  misc_location :: MDLocationDescriptor

record MDException =
  exception_code :: u32
  exception_flags :: u32
  nested_exception_record :: u64
  exception_address :: u64
  number_parameters :: u32
  exception_information :: "u64 list"

record MDRawExceptionStream =
  exception_thread_id :: u32
  exception_record :: MDException
  exception_context :: MDLocationDescriptor

text \<open>Sizes in the file; modules are read without the padding some platforms add.\<close>

definition MDLocationDescriptor_at :: "bool \<Rightarrow> pointer \<Rightarrow> nat \<Rightarrow> MDLocationDescriptor" where
  "MDLocationDescriptor_at swap p i = \<lparr>loc_size = u32_at swap p i, loc_rva = u32_at swap p (i + 4)\<rparr>"

definition MDMemoryDescriptor_at :: "bool \<Rightarrow> pointer \<Rightarrow> nat \<Rightarrow> MDMemoryDescriptor" where
  "MDMemoryDescriptor_at swap p i =
     \<lparr>start_of_memory_range = u64_at swap p i, memory_location = MDLocationDescriptor_at swap p (i + 8)\<rparr>"

definition MDRawHeader_at :: "bool \<Rightarrow> pointer \<Rightarrow> MDRawHeader" where
  "MDRawHeader_at swap p =
     \<lparr>h_signature = u32_at swap p 0, h_version = u32_at swap p 4, stream_count = u32_at swap p 8,
      stream_directory_rva = u32_at swap p 12, h_checksum = u32_at swap p 16,
      h_time_date_stamp = u32_at swap p 20, h_flags = u64_at swap p 24\<rparr>"

definition MDRawDirectory_at :: "bool \<Rightarrow> pointer \<Rightarrow> nat \<Rightarrow> MDRawDirectory" where
  "MDRawDirectory_at swap p i =
     \<lparr>dir_stream_type = u32_at swap p i, dir_location = MDLocationDescriptor_at swap p (i + 4)\<rparr>"

definition MDRawThread_at :: "bool \<Rightarrow> pointer \<Rightarrow> MDRawThread" where
  "MDRawThread_at swap p =
     \<lparr>raw_thread_id = u32_at swap p 0, suspend_count = u32_at swap p 4, priority_class = u32_at swap p 8,
      thread_priority = u32_at swap p 12, teb = u64_at swap p 16,
      thread_stack = MDMemoryDescriptor_at swap p 24, thread_context = MDLocationDescriptor_at swap p 40\<rparr>"

text \<open>\<open>version_info\<close> is the 13 words of \<open>MDVSFixedFileInfo\<close>.\<close>

definition MDRawModule_at :: "bool \<Rightarrow> pointer \<Rightarrow> MDRawModule" where
  "MDRawModule_at swap p =
     \<lparr>base_of_image = u64_at swap p 0, size_of_image = u32_at swap p 8, m_checksum = u32_at swap p 12,
      m_time_date_stamp = u32_at swap p 16, module_name_rva = u32_at swap p 20,
      version_info = map (\<lambda>i. u32_at swap p (24 + 4 * i)) [0..<13],
      cv_location = MDLocationDescriptor_at swap p 76, misc_location = MDLocationDescriptor_at swap p 84\<rparr>"

definition MDException_at :: "bool \<Rightarrow> pointer \<Rightarrow> nat \<Rightarrow> MDException" where
  "MDException_at swap p i =
     \<lparr>exception_code = u32_at swap p i, exception_flags = u32_at swap p (i + 4),
      nested_exception_record = u64_at swap p (i + 8), exception_address = u64_at swap p (i + 16),
      number_parameters = u32_at swap p (i + 24),
      exception_information = map (\<lambda>j. u64_at swap p (i + 32 + 8 * j)) [0..<15]\<rparr>"

definition MDRawExceptionStream_at :: "bool \<Rightarrow> pointer \<Rightarrow> MDRawExceptionStream" where
  "MDRawExceptionStream_at swap p =
     \<lparr>exception_thread_id = u32_at swap p 0, exception_record = MDException_at swap p 8,
      exception_context = MDLocationDescriptor_at swap p 160\<rparr>"

text \<open>
  The processor information is a union of six words (x86), two words (ARM) and two 64-bit
  words (others); the 24 bytes of it are kept.  A swap reverses the bytes of each word of the
  x86 variant on x86, and of the two 64-bit words on all other processors.
\<close>

record MDRawSystemInfo =
  processor_architecture :: u16
  processor_level :: u16
  processor_revision :: u16
  number_of_processors :: u8
  product_type :: u8
  major_version :: u32
  minor_version :: u32
  build_number :: u32
  platform_id :: u32
  csd_version_rva :: u32
  suite_mask :: u16
  cpu_bytes :: "char list"

definition MD_CPU_ARCHITECTURE_X86 :: u16 where "MD_CPU_ARCHITECTURE_X86 = 0"
definition MD_CPU_ARCHITECTURE_X86_WIN64 :: u16 where "MD_CPU_ARCHITECTURE_X86_WIN64 = 10"

definition swap_chunk :: "nat \<Rightarrow> nat \<Rightarrow> char list \<Rightarrow> char list" where
  "swap_chunk i n p = take i p @ rev (take n (drop i p)) @ drop (i + n) p"

definition cpu_information :: "bool \<Rightarrow> u16 \<Rightarrow> char list \<Rightarrow> char list" where
  "cpu_information swap architecture cpu =
     (if \<not> swap then cpu
      else if architecture = MD_CPU_ARCHITECTURE_X86 \<or> architecture = MD_CPU_ARCHITECTURE_X86_WIN64
      then fold (\<lambda>i. swap_chunk (4 * i) 4) [0..<6] cpu
      else fold (\<lambda>i. swap_chunk (8 * i) 8) [0..<2] cpu)"

definition MDRawSystemInfo_at :: "bool \<Rightarrow> pointer \<Rightarrow> MDRawSystemInfo" where
  "MDRawSystemInfo_at swap p =
     \<lparr>processor_architecture = u16_at swap p 0, processor_level = u16_at swap p 2,
      processor_revision = u16_at swap p 4, number_of_processors = word_at p 6, product_type = word_at p 7,
      major_version = u32_at swap p 8, minor_version = u32_at swap p 12, build_number = u32_at swap p 16,
      platform_id = u32_at swap p 20, csd_version_rva = u32_at swap p 24, suite_mask = u16_at swap p 28,
      cpu_bytes = cpu_information swap (u16_at swap p 0) (take 24 (drop 32 p))\<rparr>"

subsection \<open>UTF-16 to UTF-8\<close>

definition utf8_char :: "u32 \<Rightarrow> char" where
  "utf8_char w = char_of (unat w)"

text \<open>
  Appending a code point to the output, or failing.  The low half of a surrogate pair is taken
  as it is, also when \<open>swap\<close> is set.
\<close>

definition append_utf8 :: "u32 \<Rightarrow> string \<Rightarrow> string option" where
  "append_utf8 unichar out =
     (if unichar < 0x80 then Some (out @ [utf8_char unichar])
      else if unichar < 0x800 then
        Some (out @ [utf8_char (0xc0 OR drop_bit 6 unichar), utf8_char (0x80 OR (unichar AND 0x3f))])
      else if unichar < 0x10000 then
        Some (out @ [utf8_char (0xe0 OR drop_bit 12 unichar),
          utf8_char (0x80 OR (drop_bit 6 unichar AND 0x3f)), utf8_char (0x80 OR (unichar AND 0x3f))])
      else if unichar < 0x200000 then
        Some (out @ [utf8_char (0xf0 OR drop_bit 18 unichar),
          utf8_char (0x80 OR (drop_bit 12 unichar AND 0x3f)),
          utf8_char (0x80 OR (drop_bit 6 unichar AND 0x3f)), utf8_char (0x80 OR (unichar AND 0x3f))])
      else None)"

fun utf16_loop :: "bool \<Rightarrow> u16 list \<Rightarrow> string \<Rightarrow> string option" where
  "utf16_loop swap [] out = Some out"
| "utf16_loop swap (w # ws) out =
     (let in_word = (if swap then Swap16 w else w) in
      if 0xdc00 \<le> in_word \<and> in_word \<le> 0xdcff then None
      else if 0xd800 \<le> in_word \<and> in_word \<le> 0xdbff then
        (case ws of
           [] \<Rightarrow> None
         | low # ws' \<Rightarrow>
             if low < 0xdc00 \<or> 0xdcff < low then None
             else
               (case append_utf8 (push_bit 10 (ucast in_word - 0xd7c0) OR (ucast low AND 0x03ff)) out of
                  None \<Rightarrow> None
                | Some out' \<Rightarrow> utf16_loop swap ws' out'))
      else
        (case append_utf8 (ucast in_word) out of
           None \<Rightarrow> None
         | Some out' \<Rightarrow> utf16_loop swap ws out'))"

definition UTF16ToUTF8 :: "u16 list \<Rightarrow> bool \<Rightarrow> string option" where
  "UTF16ToUTF8 in_words swap = utf16_loop swap in_words []"

definition UTF16codeunits :: "u16 list \<Rightarrow> nat \<Rightarrow> nat" where
  "UTF16codeunits s maxlen = length (takeWhile (\<lambda>w. w \<noteq> 0) (take maxlen s))"

text \<open>The result stays as it was when the conversion fails.\<close>

definition ConvertUTF16BufferToUTF8String :: "u16 list \<Rightarrow> nat \<Rightarrow> string \<Rightarrow> bool \<Rightarrow> string" where
  "ConvertUTF16BufferToUTF8String utf16_data max_length_in_bytes utf8_result swap =
     (let word_length = UTF16codeunits utf16_data (max_length_in_bytes div 2) in
      if 0 < word_length then
        (case UTF16ToUTF8 (take word_length utf16_data) swap of None \<Rightarrow> utf8_result | Some s \<Rightarrow> s)
      else [])"

subsection \<open>What the conversion gives\<close>

text \<open>The encodings of a code point in UTF-16 and in UTF-8, by arithmetic.\<close>

definition utf16_units :: "nat \<Rightarrow> u16 list" where
  "utf16_units c =
     (if c < 0x10000 then [of_nat c]
      else [of_nat (0xd800 + (c - 0x10000) div 0x400), of_nat (0xdc00 + (c - 0x10000) mod 0x400)])"

definition utf8_encoding :: "nat \<Rightarrow> string" where
  "utf8_encoding c =
     (if c < 0x80 then [char_of c]
      else if c < 0x800 then [char_of (0xc0 + c div 0x40), char_of (0x80 + c mod 0x40)]
      else if c < 0x10000 then
        [char_of (0xe0 + c div 0x1000), char_of (0x80 + c div 0x40 mod 0x40), char_of (0x80 + c mod 0x40)]
      else [char_of (0xf0 + c div 0x40000), char_of (0x80 + c div 0x1000 mod 0x40),
        char_of (0x80 + c div 0x40 mod 0x40), char_of (0x80 + c mod 0x40)])"

lemma or_low_word:
  assumes "unat w < 2 ^ k"
  shows "push_bit k x AND w = 0" and "push_bit k x OR w = push_bit k x + (w :: u32)"
proof -
  have w: "w = take_bit k w"
    using assms unfolding word_unat_eq_iff unsigned_take_bit_eq by (simp only: take_bit_nat_eq_self)
  have "push_bit k x AND take_bit k w = 0" by (rule bit_word_eqI) (auto simp: bit_simps)
  then show "push_bit k x AND w = 0" by (simp only: w [symmetric])
  then show "push_bit k x OR w = push_bit k x + w" by (simp only: disjunctive_add_eq_or)
qed

lemma or_low_bits:
  assumes "unat w < 2 ^ k"
  shows "unat (push_bit k x OR w :: u32) = unat (push_bit k x) + unat w"
proof -
  have "unat (push_bit k x) AND unat w = 0"
    using or_low_word(1) [OF assms, of x] by (metis unsigned_0 unsigned_and_eq)
  then show ?thesis by (simp add: unsigned_or_eq disjunctive_add_eq_or)
qed

lemma unat_nat32: "c < 2 ^ 32 \<Longrightarrow> unat (of_nat c :: u32) = c"
  by (simp add: unsigned_of_nat take_bit_nat_eq_self)

lemma unat_drop32:
  assumes "c < 2 ^ 32"
  shows "unat (drop_bit n (of_nat c :: u32)) = c div 2 ^ n"
  using assms unfolding unsigned_drop_bit_eq
  by (simp add: unat_nat32 drop_bit_eq_div take_bit_nat_eq_self)

text \<open>The bytes of an encoding: a leading pattern above the bits of the code point.\<close>

lemma utf8_byte:
  assumes "c < 2 ^ 32" and "c div 2 ^ n < 2 ^ k"
  shows "utf8_char (push_bit k x OR drop_bit n (of_nat c)) = char_of (unat (push_bit k x) + c div 2 ^ n)"
proof -
  note u = unat_drop32 [OF assms(1), of n]
  show ?thesis unfolding utf8_char_def by (subst or_low_bits) (simp_all only: u assms(2))
qed

lemma utf8_tail:
  assumes "c < 2 ^ 32"
  shows "utf8_char (0x80 OR (drop_bit n (of_nat c) AND 0x3f)) = char_of (0x80 + c div 2 ^ n mod 0x40)"
proof -
  have mask: "drop_bit n (of_nat c) AND 0x3f = (take_bit 6 (drop_bit n (of_nat c)) :: u32)"
    by (simp add: take_bit_eq_mask mask_eq_exp_minus_1)
  have u: "unat (take_bit 6 (drop_bit n (of_nat c)) :: u32) = c div 2 ^ n mod 0x40"
    unfolding unsigned_take_bit_eq unat_drop32 [OF assms] by (simp add: take_bit_eq_mod)
  have "unat (push_bit 7 1 OR take_bit 6 (drop_bit n (of_nat c)) :: u32) =
      unat (push_bit 7 1 :: u32) + c div 2 ^ n mod 0x40"
    by (subst or_low_bits) (simp_all only: u, simp)
  then show ?thesis by (simp add: mask utf8_char_def)
qed

lemma append_utf8_encoding:
  assumes "c < 0x110000"
  shows "append_utf8 (of_nat c) out = Some (out @ utf8_encoding c)"
proof -
  have small: "c < 2 ^ 32" using assms by simp
  have less: "of_nat c < (numeral m :: u32) \<longleftrightarrow> c < unat (numeral m :: u32)" for m
    by (simp only: word_less_nat_alt unat_nat32 [OF small])
  have plain: "utf8_char (of_nat c) = char_of c" by (simp only: utf8_char_def unat_nat32 [OF small])
  have lead: "c < 0x800 \<Longrightarrow> utf8_char (0xc0 OR drop_bit 6 (of_nat c)) = char_of (0xc0 + c div 0x40)"
    "c < 0x10000 \<Longrightarrow> utf8_char (0xe0 OR drop_bit 12 (of_nat c)) = char_of (0xe0 + c div 0x1000)"
    "utf8_char (0xf0 OR drop_bit 18 (of_nat c)) = char_of (0xf0 + c div 0x40000)"
    using utf8_byte [OF small, of 6 6 3] utf8_byte [OF small, of 12 5 7] utf8_byte [OF small, of 18 4 15] assms
    by simp_all
  have tail: "utf8_char (0x80 OR (of_nat c AND 0x3f)) = char_of (0x80 + c mod 0x40)"
    "utf8_char (0x80 OR (drop_bit 6 (of_nat c) AND 0x3f)) = char_of (0x80 + c div 0x40 mod 0x40)"
    "utf8_char (0x80 OR (drop_bit 12 (of_nat c) AND 0x3f)) = char_of (0x80 + c div 0x1000 mod 0x40)"
    using utf8_tail [OF small, of 0] utf8_tail [OF small, of 6] utf8_tail [OF small, of 12] by simp_all
  have top: "c < unat (0x200000 :: u32)" using assms by simp
  show ?thesis
    unfolding append_utf8_def less plain tail lead(3) utf8_encoding_def using top lead(1,2) by simp
qed

lemma unat_nat16: "c < 2 ^ 16 \<Longrightarrow> unat (of_nat c :: u16) = c"
  by (simp add: unsigned_of_nat take_bit_nat_eq_self)

lemma ucast_nat16: "c < 2 ^ 16 \<Longrightarrow> (ucast (of_nat c :: u16) :: u32) = of_nat c"
  by (metis of_nat_unat unat_nat16)

definition code_point :: "nat \<Rightarrow> bool" where
  "code_point c = (c < 0x110000 \<and> \<not> (0xd800 \<le> c \<and> c < 0xe000))"

lemma utf16_plain:
  assumes "code_point c" and "c < 0x10000"
  shows "utf16_loop swap ((if swap then Swap16 (of_nat c) else of_nat c) # ws) out =
    utf16_loop swap ws (out @ utf8_encoding c)"
proof -
  have small: "c < 2 ^ 16" using assms(2) by simp
  have twice: "Swap16 (Swap16 w) = w" for w
  proof (rule bit_word_eqI)
    fix n assume "n < LENGTH(16)"
    then show "bit (Swap16 (Swap16 w)) n = bit w n"
      unfolding Swap16_def by (cases "n < 8") (auto simp: bit_simps)
  qed
  have le: "(numeral m :: u16) \<le> of_nat c \<longleftrightarrow> unat (numeral m :: u16) \<le> c"
    "of_nat c \<le> (numeral m :: u16) \<longleftrightarrow> c \<le> unat (numeral m :: u16)" for m
    by (simp_all only: word_le_nat_alt unat_nat16 [OF small])
  have "append_utf8 (ucast (of_nat c :: u16)) out = Some (out @ utf8_encoding c)"
    using assms by (simp only: ucast_nat16 [OF small]) (simp add: append_utf8_encoding)
  with assms(1) show ?thesis by (auto simp: twice Let_def le code_point_def)
qed

lemma surrogate_pair:
  assumes "d < 0x100000"
  shows "push_bit 10 (ucast (of_nat (0xd800 + d div 0x400) :: u16) - 0xd7c0) OR
      (ucast (of_nat (0xdc00 + d mod 0x400) :: u16) AND 0x03ff) = (of_nat (0x10000 + d) :: u32)"
proof -
  have hi: "0xd800 + d div 0x400 < 2 ^ 16" and lo: "0xdc00 + d mod 0x400 < 2 ^ 16" using assms by auto
  have "ucast (of_nat (0xd800 + d div 0x400) :: u16) - 0xd7c0 = (of_nat (0x40 + d div 0x400) :: u32)"
    unfolding ucast_nat16 [OF hi] by simp
  moreover have "push_bit 10 (of_nat (0x40 + d div 0x400)) = (of_nat (0x400 * (0x40 + d div 0x400)) :: u32)"
    by (simp add: push_bit_eq_mult algebra_simps)
  moreover have "ucast (of_nat (0xdc00 + d mod 0x400) :: u16) AND 0x03ff = (of_nat (d mod 0x400) :: u32)"
  proof -
    have "of_nat (0xdc00 + d mod 0x400) AND 0x03ff = (take_bit 10 (of_nat (0xdc00 + d mod 0x400)) :: u32)"
      by (simp add: take_bit_eq_mask mask_eq_exp_minus_1)
    also have "\<dots> = of_nat (take_bit 10 (0xdc00 + d mod 0x400))" by (simp only: of_nat_take_bit)
    also have "take_bit 10 (0xdc00 + d mod 0x400) = d mod 0x400"
    proof -
      have "(0xdc00 + d mod 0x400) mod 0x400 = (d mod 0x400) mod (0x400 :: nat)"
        using mod_mult_self3 [of 55 "0x400 :: nat" "d mod 0x400"] by simp
      then show ?thesis by (simp add: take_bit_eq_mod)
    qed
    finally show ?thesis by (simp only: ucast_nat16 [OF lo])
  qed
  moreover have "push_bit 10 x OR of_nat (d mod 0x400) = push_bit 10 x + of_nat (d mod 0x400)" for x :: u32
  proof -
    have "unat (of_nat (d mod 0x400) :: u32) < 2 ^ 10" by (subst unat_nat32) simp_all
    then show ?thesis by (rule or_low_word(2))
  qed
  moreover have "0x400 * (0x40 + d div 0x400) + d mod 0x400 = 0x10000 + d"
    by (simp add: algebra_simps)
  ultimately show ?thesis by (metis of_nat_add)
qed

lemma utf16_pair:
  assumes "d < 0x100000"
  shows "utf16_loop False (of_nat (0xd800 + d div 0x400) # of_nat (0xdc00 + d mod 0x400) # ws) out =
    (if d mod 0x400 < 0x100 then utf16_loop False ws (out @ utf8_encoding (0x10000 + d)) else None)"
proof -
  have hi: "0xd800 + d div 0x400 < 2 ^ 16" and lo: "0xdc00 + d mod 0x400 < 2 ^ 16" using assms by auto
  have top: "d div 0x400 < 0x400" using assms by auto
  have le_hi: "(numeral m :: u16) \<le> of_nat (0xd800 + d div 0x400) \<longleftrightarrow> unat (numeral m :: u16) \<le> 0xd800 + d div 0x400"
    "of_nat (0xd800 + d div 0x400) \<le> (numeral m :: u16) \<longleftrightarrow> 0xd800 + d div 0x400 \<le> unat (numeral m :: u16)" for m
    by (simp_all only: word_le_nat_alt unat_nat16 [OF hi])
  have le_lo: "of_nat (0xdc00 + d mod 0x400) < (numeral m :: u16) \<longleftrightarrow> 0xdc00 + d mod 0x400 < unat (numeral m :: u16)"
    "(numeral m :: u16) < of_nat (0xdc00 + d mod 0x400) \<longleftrightarrow> unat (numeral m :: u16) < 0xdc00 + d mod 0x400" for m
    by (simp_all only: word_less_nat_alt unat_nat16 [OF lo])
  have append: "append_utf8 (of_nat (0x10000 + d)) out = Some (out @ utf8_encoding (0x10000 + d))"
    using assms by (intro append_utf8_encoding) simp
  show ?thesis
    unfolding utf16_loop.simps Let_def if_False list.case surrogate_pair [OF assms] append option.case le_hi le_lo
    using top by auto
qed

lemma utf16_loop_valid:
  assumes "\<forall>c\<in>set cs. code_point c"
  shows "utf16_loop False (concat (map utf16_units cs)) out =
    (if \<forall>c\<in>set cs. c < 0x10000 \<or> (c - 0x10000) mod 0x400 < 0x100
     then Some (out @ concat (map utf8_encoding cs)) else None)"
  using assms
proof (induction cs arbitrary: out)
  case (Cons c cs)
  show ?case
  proof (cases "c < 0x10000")
    case True
    with Cons utf16_plain [of c False] show ?thesis by (simp add: utf16_units_def)
  next
    case False
    define d where "d = c - 0x10000"
    with False Cons.prems have c: "c = 0x10000 + d" "d < 0x100000" by (auto simp: code_point_def)
    with Cons show ?thesis by (simp add: utf16_units_def utf16_pair del: utf16_loop.simps of_nat_add)
  qed
qed simp

text \<open>
  C36: On text that is valid UTF-16, in the byte order of the host, \<open>UTF16ToUTF8\<close> gives the
  UTF-8 encoding of the same code points, unless a code point above \<open>0xffff\<close> has a low
  surrogate above \<open>0xdcff\<close>: then the whole text is refused, although it is valid.
\<close>

theorem UTF16ToUTF8_valid:
  assumes "\<forall>c\<in>set cs. code_point c"
  shows "UTF16ToUTF8 (concat (map utf16_units cs)) False =
    (if \<forall>c\<in>set cs. c < 0x10000 \<or> (c - 0x10000) mod 0x400 < 0x100
     then Some (concat (map utf8_encoding cs)) else None)"
  using utf16_loop_valid [OF assms, of "[]"] by (simp add: UTF16ToUTF8_def)

theorem UTF16ToUTF8_valid_witness:
  "UTF16ToUTF8 [0x0041, 0x20ac, 0xd83c, 0xdc00] False =
     Some [CHR ''A'', CHR 0xE2, CHR 0x82, CHR 0xAC, CHR 0xF0, CHR 0x9F, CHR 0x80, CHR 0x80] \<and>
   UTF16ToUTF8 [0xd83d, 0xde00] False = None"
proof -
  have "\<forall>c\<in>set [0x41, 0x20ac, 0x1f000]. code_point c" "\<forall>c\<in>set [0x1f600]. code_point c"
    by (simp_all add: code_point_def)
  note UTF16ToUTF8_valid [OF this(1)] UTF16ToUTF8_valid [OF this(2)]
  then show ?thesis by (simp add: utf16_units_def utf8_encoding_def char_of_def bit_Suc_0_iff)
qed

end
