(* ===== verification/Minidump_Aux_Format.thy ===== *)
theory Minidump_Aux_Format
  imports Minidump_Format
begin

text \<open>
  The structures of the streams that describe the process and its surroundings
  (\<open>google_breakpad/common/minidump_format.h\<close>): assertions, unloaded modules, miscellaneous
  information, memory information and the annotations of Crashpad, as they are after the byte
  swap.  Text is kept as the 16-bit units of the file: its swap is left to the conversion.
\<close>

definition units_at :: "pointer \<Rightarrow> nat \<Rightarrow> nat \<Rightarrow> u16 list" where
  "units_at p i n = map (\<lambda>j. word_at p (i + 2 * j)) [0..<n]"

record MDRawAssertionInfo =
  raw_expression :: "u16 list"
  raw_function :: "u16 list"
  raw_file :: "u16 list"
  raw_line :: u32
  raw_type :: u32

definition MDRawAssertionInfo_at :: "bool \<Rightarrow> pointer \<Rightarrow> MDRawAssertionInfo" where
  "MDRawAssertionInfo_at swap p =
     \<lparr>raw_expression = units_at p 0 128, raw_function = units_at p 256 128, raw_file = units_at p 512 128,
      raw_line = u32_at swap p 768, raw_type = u32_at swap p 772\<rparr>"

record MDRawUnloadedModule =
  un_base_of_image :: u64
  un_size_of_image :: u32
  un_checksum :: u32
  un_time_date_stamp :: u32
  un_module_name_rva :: u32

definition MDRawUnloadedModule_at :: "bool \<Rightarrow> pointer \<Rightarrow> MDRawUnloadedModule" where
  "MDRawUnloadedModule_at swap p =
     \<lparr>un_base_of_image = u64_at swap p 0, un_size_of_image = u32_at swap p 8, un_checksum = u32_at swap p 12,
      un_time_date_stamp = u32_at swap p 16, un_module_name_rva = u32_at swap p 20\<rparr>"

subsection \<open>Miscellaneous information\<close>

text \<open>The eight words of \<open>MDSystemTime\<close> are kept as a list.\<close>

record MDTimeZoneInformation =
  tz_bias :: u32
  tz_standard_name :: "u16 list"
  tz_standard_date :: "u16 list"
  tz_standard_bias :: u32
  tz_daylight_name :: "u16 list"
  tz_daylight_date :: "u16 list"
  tz_daylight_bias :: u32

definition MDSystemTime_at :: "bool \<Rightarrow> pointer \<Rightarrow> nat \<Rightarrow> u16 list" where
  "MDSystemTime_at swap p i = map (\<lambda>j. u16_at swap p (i + 2 * j)) [0..<8]"

definition MDTimeZoneInformation_at :: "bool \<Rightarrow> pointer \<Rightarrow> nat \<Rightarrow> MDTimeZoneInformation" where
  "MDTimeZoneInformation_at swap p i =
     \<lparr>tz_bias = u32_at swap p i, tz_standard_name = units_at p (i + 4) 32,
      tz_standard_date = MDSystemTime_at swap p (i + 68), tz_standard_bias = u32_at swap p (i + 84),
      tz_daylight_name = units_at p (i + 88) 32, tz_daylight_date = MDSystemTime_at swap p (i + 152),
      tz_daylight_bias = u32_at swap p (i + 168)\<rparr>"

record MDXStateConfigFeatureMscInfo =
  xs_size_of_info :: u32
  xs_context_size :: u32
  xs_enabled_features :: u64
  xs_features :: "(u32 \<times> u32) list"

definition MD_MAXIMUM_XSTATE_FEATURES :: nat where "MD_MAXIMUM_XSTATE_FEATURES = 64"

definition MDXStateConfigFeatureMscInfo_at :: "bool \<Rightarrow> pointer \<Rightarrow> nat \<Rightarrow> MDXStateConfigFeatureMscInfo" where
  "MDXStateConfigFeatureMscInfo_at swap p i =
     \<lparr>xs_size_of_info = u32_at swap p i, xs_context_size = u32_at swap p (i + 4),
      xs_enabled_features = u64_at swap p (i + 8),
      xs_features = map (\<lambda>j. (u32_at swap p (i + 16 + 8 * j), u32_at swap p (i + 20 + 8 * j)))
        [0..<MD_MAXIMUM_XSTATE_FEATURES]\<rparr>"

record MDRawMiscInfo =
  misc_size_of_info :: u32
  misc_flags1 :: u32
  misc_process_id :: u32
  misc_process_create_time :: u32
  misc_process_user_time :: u32
  misc_process_kernel_time :: u32
  misc_processor_max_mhz :: u32
  misc_processor_current_mhz :: u32
  misc_processor_mhz_limit :: u32
  misc_processor_max_idle_state :: u32
  misc_processor_current_idle_state :: u32
  misc_process_integrity_level :: u32
  misc_process_execute_flags :: u32
  misc_protected_process :: u32
  misc_time_zone_id :: u32
  misc_time_zone :: MDTimeZoneInformation
  misc_build_string :: "u16 list"
  misc_dbg_bld_str :: "u16 list"
  misc_xstate_data :: MDXStateConfigFeatureMscInfo
  misc_process_cookie :: u32

definition MD_MISCINFO_SIZE :: nat where "MD_MISCINFO_SIZE = 24"
definition MD_MISCINFO2_SIZE :: nat where "MD_MISCINFO2_SIZE = 44"
definition MD_MISCINFO3_SIZE :: nat where "MD_MISCINFO3_SIZE = 232"
definition MD_MISCINFO4_SIZE :: nat where "MD_MISCINFO4_SIZE = 832"
definition MD_MISCINFO5_SIZE :: nat where "MD_MISCINFO5_SIZE = 1364"

lemmas miscinfo_sizes = MD_MISCINFO_SIZE_def MD_MISCINFO2_SIZE_def MD_MISCINFO3_SIZE_def
  MD_MISCINFO4_SIZE_def MD_MISCINFO5_SIZE_def

text \<open>
  The fields of a later version are swapped when the size that the structure itself states says
  that they are there.
\<close>

definition MDRawMiscInfo_at :: "bool \<Rightarrow> pointer \<Rightarrow> MDRawMiscInfo" where
  "MDRawMiscInfo_at swap p =
     (let size = unat (u32_at swap p 0);
          swap2 = (swap \<and> MD_MISCINFO_SIZE < size);
          swap3 = (swap \<and> MD_MISCINFO2_SIZE < size);
          swap5 = (swap \<and> MD_MISCINFO4_SIZE < size) in
      \<lparr>misc_size_of_info = u32_at swap p 0, misc_flags1 = u32_at swap p 4, misc_process_id = u32_at swap p 8,
       misc_process_create_time = u32_at swap p 12, misc_process_user_time = u32_at swap p 16,
       misc_process_kernel_time = u32_at swap p 20, misc_processor_max_mhz = u32_at swap2 p 24,
       misc_processor_current_mhz = u32_at swap2 p 28, misc_processor_mhz_limit = u32_at swap2 p 32,
       misc_processor_max_idle_state = u32_at swap2 p 36, misc_processor_current_idle_state = u32_at swap2 p 40,
       misc_process_integrity_level = u32_at swap3 p 44, misc_process_execute_flags = u32_at swap3 p 48,
       misc_protected_process = u32_at swap3 p 52, misc_time_zone_id = u32_at swap3 p 56,
       misc_time_zone = MDTimeZoneInformation_at swap3 p 60, misc_build_string = units_at p 232 260,
       misc_dbg_bld_str = units_at p 752 40, misc_xstate_data = MDXStateConfigFeatureMscInfo_at swap5 p 832,
       misc_process_cookie = u32_at swap5 p 1360\<rparr>)"

subsection \<open>Memory information\<close>

record MDRawMemoryInfo =
  mem_base_address :: u64
  mem_allocation_base :: u64
  mem_allocation_protection :: u32
  mem_region_size :: u64
  mem_state :: u32
  mem_protection :: u32
  mem_type :: u32

definition MDRawMemoryInfo_at :: "bool \<Rightarrow> pointer \<Rightarrow> MDRawMemoryInfo" where
  "MDRawMemoryInfo_at swap p =
     \<lparr>mem_base_address = u64_at swap p 0, mem_allocation_base = u64_at swap p 8,
      mem_allocation_protection = u32_at swap p 16, mem_region_size = u64_at swap p 24,
      mem_state = u32_at swap p 32, mem_protection = u32_at swap p 36, mem_type = u32_at swap p 40\<rparr>"

definition MD_MEMORY_PROTECT_READWRITE :: u32 where "MD_MEMORY_PROTECT_READWRITE = 0x04"
definition MD_MEMORY_PROTECT_WRITECOPY :: u32 where "MD_MEMORY_PROTECT_WRITECOPY = 0x08"
definition MD_MEMORY_PROTECT_EXECUTE :: u32 where "MD_MEMORY_PROTECT_EXECUTE = 0x10"
definition MD_MEMORY_PROTECT_EXECUTE_READ :: u32 where "MD_MEMORY_PROTECT_EXECUTE_READ = 0x20"
definition MD_MEMORY_PROTECT_EXECUTE_READWRITE :: u32 where "MD_MEMORY_PROTECT_EXECUTE_READWRITE = 0x40"
definition MD_MEMORY_PROTECT_EXECUTE_WRITECOPY :: u32 where "MD_MEMORY_PROTECT_EXECUTE_WRITECOPY = 0x80"
definition MD_MEMORY_PROTECTION_ACCESS_MASK :: u32 where "MD_MEMORY_PROTECTION_ACCESS_MASK = 0xFF"

definition MemoryInfo_IsExecutable :: "MDRawMemoryInfo \<Rightarrow> bool" where
  "MemoryInfo_IsExecutable info =
     (mem_protection info AND MD_MEMORY_PROTECTION_ACCESS_MASK \<in>
        {MD_MEMORY_PROTECT_EXECUTE, MD_MEMORY_PROTECT_EXECUTE_READ, MD_MEMORY_PROTECT_EXECUTE_READWRITE})"

definition MemoryInfo_IsWritable :: "MDRawMemoryInfo \<Rightarrow> bool" where
  "MemoryInfo_IsWritable info =
     (mem_protection info AND MD_MEMORY_PROTECTION_ACCESS_MASK \<in>
        {MD_MEMORY_PROTECT_READWRITE, MD_MEMORY_PROTECT_WRITECOPY, MD_MEMORY_PROTECT_EXECUTE_READWRITE,
         MD_MEMORY_PROTECT_EXECUTE_WRITECOPY})"

subsection \<open>Crashpad\<close>

record MDGUID =
  guid_data1 :: u32
  guid_data2 :: u16
  guid_data3 :: u16
  guid_data4 :: "char list"

definition MDGUID_at :: "bool \<Rightarrow> pointer \<Rightarrow> nat \<Rightarrow> MDGUID" where
  "MDGUID_at swap p i =
     \<lparr>guid_data1 = u32_at swap p i, guid_data2 = u16_at swap p (i + 4), guid_data3 = u16_at swap p (i + 6),
      guid_data4 = take 8 (drop (i + 8) p)\<rparr>"

record MDRawCrashpadInfo =
  cp_version :: u32
  cp_report_id :: MDGUID
  cp_client_id :: MDGUID
  cp_simple_annotations :: MDLocationDescriptor
  cp_module_list :: MDLocationDescriptor

definition MDRawCrashpadInfo_at :: "bool \<Rightarrow> pointer \<Rightarrow> MDRawCrashpadInfo" where
  "MDRawCrashpadInfo_at swap p =
     \<lparr>cp_version = u32_at swap p 0, cp_report_id = MDGUID_at swap p 4, cp_client_id = MDGUID_at swap p 20,
      cp_simple_annotations = MDLocationDescriptor_at swap p 36, cp_module_list = MDLocationDescriptor_at swap p 44\<rparr>"

record MDRawModuleCrashpadInfo =
  cpm_version :: u32
  cpm_list_annotations :: MDLocationDescriptor
  cpm_simple_annotations :: MDLocationDescriptor

definition MDRawModuleCrashpadInfo_at :: "bool \<Rightarrow> pointer \<Rightarrow> MDRawModuleCrashpadInfo" where
  "MDRawModuleCrashpadInfo_at swap p =
     \<lparr>cpm_version = u32_at swap p 0, cpm_list_annotations = MDLocationDescriptor_at swap p 4,
      cpm_simple_annotations = MDLocationDescriptor_at swap p 12\<rparr>"

text \<open>A link: the index of a module and where its information is.\<close>

definition MDRawModuleCrashpadInfoLink_at :: "bool \<Rightarrow> pointer \<Rightarrow> nat \<Rightarrow> u32 \<times> MDLocationDescriptor" where
  "MDRawModuleCrashpadInfoLink_at swap p i = (u32_at swap p i, MDLocationDescriptor_at swap p (i + 4))"

end
