(* ===== verification/Proc_Maps.thy ===== *)
theory Proc_Maps
  imports C_String "HOL-Library.Monad_Syntax"
begin

text \<open>
  \<open>ParseProcMaps\<close> (\<open>processor/proc_maps_linux.cc\<close>): the text of \<open>/proc/<pid>/maps\<close>, line
  by line with \<open>sscanf\<close>.  Its integer conversions are those of \<open>strtoull\<close> and \<open>strtol\<close>, which fail
  when there is no digit.  A prefix \<open>0x\<close> without digits, which \<open>sscanf\<close> refuses and
  \<open>strtoull\<close> reads as zero, ends in a refused line either way.
\<close>

record MappedMemoryRegion =
  region_start :: u64
  region_end :: u64
  region_offset :: u64
  region_permissions :: u8
  major_device :: u8
  minor_device :: u8
  region_inode :: u64
  region_path :: string
  region_line :: string

definition READ :: u8 where "READ = 1"
definition WRITE :: u8 where "WRITE = 2"
definition EXECUTE :: u8 where "EXECUTE = 4"
definition PRIVATE :: u8 where "PRIVATE = 8"

lemmas permission_bits = READ_def WRITE_def EXECUTE_def PRIVATE_def

text \<open>The lines, which may end in either break; empty ones are dropped.  \<open>None\<close>: text after the last.\<close>

fun split_lines :: "string \<Rightarrow> string \<Rightarrow> string list option" where
  "split_lines l [] = (if l = [] then Some [] else None)"
| "split_lines l (c # cs) =
     (if c \<noteq> CHR 0x0A \<and> c \<noteq> CHR 0x0D then split_lines (l @ [c]) cs
      else if l \<noteq> [] then map_option ((#) l) (split_lines [] cs)
      else split_lines [] cs)"

definition scan_u64 :: "string \<Rightarrow> (u64 \<times> string) option" where
  "scan_u64 text = (if scan_number 16 text = None then None else Some (strtoull 16 text))"

definition scan_u8 :: "string \<Rightarrow> (u8 \<times> string) option" where
  "scan_u8 text = map_option (\<lambda>(w, rest). (ucast w, rest)) (scan_u64 text)"

definition scan_i64 :: "string \<Rightarrow> (u64 \<times> string) option" where
  "scan_i64 text =
     (if scan_number 10 text = None then None else map_option (\<lambda>(v, rest). (word_of_int v, rest)) (Some (strtol 10 text)))"

definition scan_literal :: "char \<Rightarrow> string \<Rightarrow> string option" where
  "scan_literal c text = (case text of [] \<Rightarrow> None | x # rest \<Rightarrow> if x = c then Some rest else None)"

text \<open>
  The seven conversions; the permissions are four characters behind white space.  The last item
  is the text behind the white space that follows the inode, which \<open>%n\<close> points to.
\<close>

definition scan_maps_line ::
  "string \<Rightarrow> (u64 \<times> u64 \<times> string \<times> u64 \<times> u8 \<times> u8 \<times> u64 \<times> string) option" where
  "scan_maps_line line = do {
     (start, s) \<leftarrow> scan_u64 line;
     s \<leftarrow> scan_literal (CHR ''-'') s;
     (end_address, s) \<leftarrow> scan_u64 s;
     let s = dropWhile isspace s;
     (if length s < 4 then None else Some ());
     let permissions = take 4 s;
     (offset, s) \<leftarrow> scan_u64 (drop 4 s);
     (major, s) \<leftarrow> scan_u8 s;
     s \<leftarrow> scan_literal (CHR '':'') s;
     (minor, s) \<leftarrow> scan_u8 s;
     (inode, s) \<leftarrow> scan_i64 s;
     Some (start, end_address, permissions, offset, major, minor, inode, dropWhile isspace s)
   }"

text \<open>One permission: the letter sets its bit, a minus sign does not, anything else is refused.\<close>

definition permission_bit :: "char \<Rightarrow> char \<Rightarrow> u8 \<Rightarrow> u8 option" where
  "permission_bit letter c flag = (if c = letter then Some flag else if c = CHR ''-'' then Some 0 else None)"

definition parse_permissions :: "string \<Rightarrow> u8 option" where
  "parse_permissions p = do {
     r \<leftarrow> permission_bit (CHR ''r'') (p ! 0) READ;
     w \<leftarrow> permission_bit (CHR ''w'') (p ! 1) WRITE;
     x \<leftarrow> permission_bit (CHR ''x'') (p ! 2) EXECUTE;
     private \<leftarrow> (if p ! 3 = CHR ''p'' then Some PRIVATE
                else if p ! 3 \<noteq> CHR ''s'' \<and> p ! 3 \<noteq> CHR ''S'' then None else Some 0);
     Some (r OR w OR x OR private)
   }"

definition parse_maps_line :: "string \<Rightarrow> MappedMemoryRegion option" where
  "parse_maps_line l = do {
     let line = takeWhile (\<lambda>c. c \<noteq> NUL) l;
     (start, end_address, p, offset, major, minor, inode, path) \<leftarrow> scan_maps_line line;
     permissions \<leftarrow> parse_permissions p;
     Some \<lparr>region_start = start, region_end = end_address, region_offset = offset, region_permissions = permissions,
       major_device = major, minor_device = minor, region_inode = inode, region_path = path, region_line = line\<rparr>
   }"

definition ParseProcMaps :: "string \<Rightarrow> MappedMemoryRegion list option" where
  "ParseProcMaps input = do {
     lines \<leftarrow> split_lines [] input;
     those (map parse_maps_line lines)
   }"

subsection \<open>A written line is read back\<close>

definition permission_text :: "u8 \<Rightarrow> string" where
  "permission_text p =
     [if bit p 0 then CHR ''r'' else CHR ''-'', if bit p 1 then CHR ''w'' else CHR ''-'',
      if bit p 2 then CHR ''x'' else CHR ''-'', if bit p 3 then CHR ''p'' else CHR ''s'']"

text \<open>
  A line as the kernel prints it: addresses and offset with at least eight hexadecimal digits, the
  numbers of the device with at least two, and blanks behind the inode, even without a path.  The
  numbers of the device are bytes here as in the code, which cuts the larger ones a kernel may print.
\<close>

definition maps_line :: "nat \<Rightarrow> MappedMemoryRegion \<Rightarrow> string" where
  "maps_line blanks r =
     padded 8 (hex (unat (region_start r))) @ ''-'' @ padded 8 (hex (unat (region_end r))) @ '' '' @
     permission_text (region_permissions r) @ '' '' @ padded 8 (hex (unat (region_offset r))) @ '' '' @
     padded 2 (hex (unat (major_device r))) @ '':'' @ padded 2 (hex (unat (minor_device r))) @ '' '' @
     digits_of 10 (unat (region_inode r)) @ replicate blanks (CHR '' '') @ region_path r"

text \<open>Four permission bits, a path on one line that does not begin with a blank.\<close>

definition printable_region :: "nat \<Rightarrow> MappedMemoryRegion \<Rightarrow> bool" where
  "printable_region blanks r =
     (0 < blanks \<and> region_permissions r < 16 \<and> unat (region_inode r) < 2 ^ 63 \<and> region_line r = maps_line blanks r \<and>
      (\<forall>c\<in>set (region_path r). c \<notin> {NUL, CHR 0x0A, CHR 0x0D}) \<and>
      (region_path r = [] \<or> \<not> isspace (hd (region_path r))))"

definition line_char :: "char \<Rightarrow> bool" where
  "line_char c = (c \<noteq> NUL \<and> c \<noteq> CHR 0x0A \<and> c \<noteq> CHR 0x0D)"

lemma digit_line_char: "is_digit base c \<Longrightarrow> line_char c"
  by (auto simp: is_digit_def digit_value_def line_char_def Let_def)

lemma digits_line_chars: "1 < base \<Longrightarrow> base \<le> 16 \<Longrightarrow> c \<in> set (digits_of base n) \<Longrightarrow> line_char c"
  using digits_of_digits digit_line_char by blast

lemma maps_line_chars:
  assumes "printable_region blanks r" and "c \<in> set (maps_line blanks r)"
  shows "line_char c"
proof -
  have path: "list_all line_char (region_path r)"
    using assms(1) by (simp add: printable_region_def line_char_def list_all_iff)
  have digits: "list_all line_char (digits_of base n)" if "1 < base" "base \<le> 16" for base n
    using digits_line_chars [OF that] by (simp add: list_all_iff)
  have "line_char (CHR '' '')" "line_char (CHR ''-'')" "line_char (CHR '':'')" by (simp_all add: line_char_def)
  moreover have "list_all line_char (padded width (hex n))" for width n
    using padded_digits [of 16 _ width n] digit_line_char by (auto simp: list_all_iff hex_def)
  moreover have "list_all line_char (replicate blanks (CHR '' ''))"
    by (simp add: list_all_iff line_char_def)
  moreover have "list_all line_char (permission_text p)" for p
    by (simp add: permission_text_def line_char_def)
  ultimately have "list_all line_char (maps_line blanks r)"
    unfolding maps_line_def by (simp add: path digits)
  with assms(2) show ?thesis by (simp add: list_all_iff)
qed

lemma split_lines_line:
  "\<forall>c\<in>set l. line_char c \<Longrightarrow> acc @ l \<noteq> [] \<Longrightarrow>
     split_lines acc (l @ CHR 0x0A # rest) = map_option ((#) (acc @ l)) (split_lines [] rest)"
proof (induction l arbitrary: acc)
  case (Cons c l)
  from Cons.IH [of "acc @ [c]"] Cons.prems show ?case by (simp add: line_char_def)
qed simp

lemma split_lines_text:
  "\<forall>l\<in>set ls. l \<noteq> [] \<and> (\<forall>c\<in>set l. line_char c) \<Longrightarrow>
     split_lines [] (concat (map (\<lambda>l. l @ [CHR 0x0A]) ls)) = Some ls"
  by (induction ls) (simp_all add: split_lines_line)

text \<open>The conversions.\<close>

lemma isspace_line [simp]: "\<not> isspace (CHR ''-'')" "\<not> isspace (CHR ''r'')" "isspace (CHR '' '')"
  by (simp_all add: isspace_def)

lemma scan_number_blank [simp]: "scan_number base (CHR '' '' # s) = scan_number base s"
  by (simp add: scan_number_def)

lemma scan_blank [simp]:
  "scan_u64 (CHR '' '' # s) = scan_u64 s" "scan_i64 (CHR '' '' # s) = scan_i64 s" "scan_u8 (CHR '' '' # s) = scan_u8 s"
  by (auto simp: scan_u64_def scan_i64_def scan_u8_def strtoull_def strtol_def split: option.split)

definition ends_number :: "char \<Rightarrow> bool" where
  "ends_number c = (c \<in> {CHR ''-'', CHR '' '', CHR '':''})"

lemma ends_number_digit: "ends_number c \<Longrightarrow> \<not> is_digit base c \<and> c \<noteq> CHR ''x'' \<and> c \<noteq> CHR ''X''"
  by (auto simp: ends_number_def is_digit_def digit_value_def)

lemma scan_u64_hex: "ends_number c \<Longrightarrow> scan_u64 (padded width (hex (unat w)) @ c # s) = Some (w :: u64, c # s)"
  using ends_number_digit [of c 16] unsigned_less [of w, where ?'a = nat]
  by (simp add: scan_u64_def hex_def scan_padded strtoull_padded)

lemma scan_u8_hex: "ends_number c \<Longrightarrow> scan_u8 (padded width (hex (unat w)) @ c # s) = Some (w :: u8, c # s)"
proof -
  assume c: "ends_number c"
  have "unat w < 2 ^ 64" using unsigned_less [of w, where ?'a = nat] by simp
  then have "unat (ucast w :: u64) = unat w" by (simp add: unsigned_ucast_eq take_bit_nat_eq_self)
  moreover have "ucast (ucast w :: u64) = w" by (rule bit_word_eqI) (simp add: bit_simps)
  ultimately show ?thesis using scan_u64_hex [OF c, of width "ucast w" s] by (simp add: scan_u8_def)
qed

lemma scan_i64_decimal:
  "unat w < 2 ^ 63 \<Longrightarrow> ends_number c \<Longrightarrow> scan_i64 (digits_of 10 (unat w) @ c # s) = Some (w :: u64, c # s)"
proof -
  assume small: "unat w < 2 ^ 63" and c: "ends_number c"
  have "int (unat w) < int (2 ^ 63)" using small by (simp only: of_nat_less_iff)
  then have "int (unat w) \<le> LONG_MAX" by (simp add: LONG_MAX_def)
  then have "word_of_int (min LONG_MAX (int (unat w))) = w" by (simp add: min_absorb2)
  moreover have "strtol 10 (digits_of 10 (unat w) @ c # s) = (min LONG_MAX (int (unat w)), c # s)"
    using ends_number_digit [OF c, of 10] by (intro strtol_digits) simp_all
  moreover have "scan_number 10 (digits_of 10 (unat w) @ c # s) \<noteq> None"
    using ends_number_digit [OF c, of 10] by (subst scan_digits) simp_all
  ultimately show ?thesis by (simp only: scan_i64_def if_False option.map prod.case)
qed

lemma permission_text_length [simp]: "length (permission_text p) = 4"
  by (simp add: permission_text_def)

lemma permission_text_scan:
  "dropWhile isspace (permission_text p @ s) = permission_text p @ s"
  by (simp add: permission_text_def isspace_def)

lemma parse_permission_text: "p < 16 \<Longrightarrow> parse_permissions (permission_text p) = Some p"
proof -
  assume "p < 16"
  then have "unat p \<in> {0, 1, 2, 3, 4, 5, 6, 7, 8, 9, 10, 11, 12, 13, 14, 15}" by (simp add: word_less_nat_alt) presburger
  then have "p \<in> of_nat ` {0, 1, 2, 3, 4, 5, 6, 7, 8, 9, 10, 11, 12, 13, 14, 15}" by (intro image_eqI [of p of_nat "unat p"]) simp_all
  then show ?thesis
    by (auto simp: parse_permissions_def permission_text_def permission_bit_def permission_bits)
qed

lemma blanks_before_path:
  assumes "printable_region blanks r"
  obtains n where "replicate blanks (CHR '' '') @ region_path r = CHR '' '' # replicate n (CHR '' '') @ region_path r"
    and "dropWhile isspace (replicate n (CHR '' '') @ region_path r) = region_path r"
proof -
  obtain n where n: "blanks = Suc n" using assms by (cases blanks) (auto simp: printable_region_def)
  have "dropWhile isspace (region_path r) = region_path r"
    using assms by (cases "region_path r") (auto simp: printable_region_def)
  then have "dropWhile isspace (replicate n (CHR '' '') @ region_path r) = region_path r"
    by (induction n) simp_all
  with that n show ?thesis by simp
qed

text \<open>The seven conversions of a line, one after the other.\<close>

lemma scan_maps_fields:
  assumes "unat inode < 2 ^ 63"
  shows "scan_maps_line (padded 8 (hex (unat start)) @ ''-'' @ padded 8 (hex (unat limit)) @ '' '' @ permission_text p @ '' '' @
      padded 8 (hex (unat offset)) @ '' '' @ padded 2 (hex (unat major)) @ '':'' @ padded 2 (hex (unat minor)) @ '' '' @
      digits_of 10 (unat inode) @ CHR '' '' # rest) =
    Some (start, limit, permission_text p, offset, major, minor, inode, dropWhile isspace rest)"
proof -
  have ends: "ends_number (CHR ''-'')" "ends_number (CHR '' '')" "ends_number (CHR '':'')"
    by (simp_all add: ends_number_def)
  have literal: "scan_literal c (c # s) = Some s" for c s by (simp add: scan_literal_def)
  have take: "take 4 (permission_text p @ s) = permission_text p" "drop 4 (permission_text p @ s) = s"
    "\<not> length (permission_text p @ s) < 4" for s by simp_all
  show ?thesis
    unfolding scan_maps_line_def Let_def append_Cons append_Nil
    by (simp only: scan_u64_hex ends literal scan_blank dropWhile.simps isspace_line if_True permission_text_scan
        take if_False scan_u8_hex scan_i64_decimal assms bind.bind_lunit prod.case)
qed

lemma parse_maps_line_text:
  assumes "printable_region blanks r"
  shows "parse_maps_line (maps_line blanks r) = Some r"
proof -
  obtain n where path: "replicate blanks (CHR '' '') @ region_path r = CHR '' '' # replicate n (CHR '' '') @ region_path r"
    "dropWhile isspace (replicate n (CHR '' '') @ region_path r) = region_path r"
    by (rule blanks_before_path [OF assms])
  have "takeWhile (\<lambda>c. c \<noteq> NUL) (maps_line blanks r) = maps_line blanks r"
    using maps_line_chars [OF assms] by (simp only: takeWhile_eq_all_conv line_char_def) blast
  moreover have "scan_maps_line (maps_line blanks r) = Some (region_start r, region_end r, permission_text (region_permissions r),
      region_offset r, major_device r, minor_device r, region_inode r, region_path r)"
    using assms unfolding maps_line_def path(1) by (subst scan_maps_fields) (simp_all add: path(2) printable_region_def)
  moreover have "parse_permissions (permission_text (region_permissions r)) = Some (region_permissions r)"
    and "region_line r = maps_line blanks r"
    using assms by (simp_all add: printable_region_def parse_permission_text)
  ultimately show ?thesis
    unfolding parse_maps_line_def by (simp only: Let_def bind.bind_lunit prod.case) simp
qed

text \<open>
  C38: The text of the memory maps of a process, in the format of the kernel with padded numbers
  and any number of blanks before the path, parses to the regions it was printed from.
\<close>

theorem ParseProcMaps_text:
  assumes "\<forall>(blanks, r)\<in>set rs. printable_region blanks r"
  shows "ParseProcMaps (concat (map (\<lambda>(blanks, r). maps_line blanks r @ [CHR 0x0A]) rs)) = Some (map snd rs)"
proof -
  let ?lines = "map (\<lambda>(blanks, r). maps_line blanks r) rs"
  have "maps_line blanks r \<noteq> []" for blanks r by (simp add: maps_line_def)
  then have split: "split_lines [] (concat (map (\<lambda>l. l @ [CHR 0x0A]) ?lines)) = Some ?lines"
    using maps_line_chars assms by (intro split_lines_text) (simp add: split_def, meson)
  have those: "those (map parse_maps_line ?lines) = Some (map snd rs)"
    using assms by (induction rs) (auto simp: parse_maps_line_text)
  have lines: "map (\<lambda>l. l @ [CHR 0x0A]) ?lines = map (\<lambda>(blanks, r). maps_line blanks r @ [CHR 0x0A]) rs"
    by (simp add: split_def)
  from split those show ?thesis unfolding ParseProcMaps_def lines by (simp only: bind.bind_lunit)
qed

text \<open>The line of the manual page \<open>proc(5)\<close>, and one of a mapping without a file.\<close>

definition sample_maps :: "(nat \<times> MappedMemoryRegion) list" where
  "sample_maps =
     [(3, \<lparr>region_start = 0x8048000, region_end = 0x8056000, region_offset = 0, region_permissions = 13,
        major_device = 3, minor_device = 12, region_inode = 64593, region_path = ''/usr/sbin/gpm'',
        region_line = ''08048000-08056000 r-xp 00000000 03:0c 64593   /usr/sbin/gpm''\<rparr>),
      (1, \<lparr>region_start = 0x400000, region_end = 0x40b000, region_offset = 0, region_permissions = 11,
        major_device = 0, minor_device = 0, region_inode = 0, region_path = [],
        region_line = ''00400000-0040b000 rw-p 00000000 00:00 0 ''\<rparr>)]"

theorem ParseProcMaps_text_witness:
  "ParseProcMaps (''08048000-08056000 r-xp 00000000 03:0c 64593   /usr/sbin/gpm'' @ CHR 0x0A #
     ''00400000-0040b000 rw-p 00000000 00:00 0 '' @ [CHR 0x0A]) = Some (map snd sample_maps)"
proof -
  have hex: "hex 0x8048000 = ''8048000''" "hex 0x8056000 = ''8056000''" "hex 0x400000 = ''400000''" "hex 0x40b000 = ''40b000''"
      "hex 0 = ''0''" "hex 3 = ''3''" "hex 12 = ''c''" "digits_of 10 64593 = ''64593''" "digits_of 10 0 = ''0''"
    by (simp_all add: hex_def digits_of.simps)
  have pad: "padded 8 ''8048000'' = ''08048000''" "padded 8 ''8056000'' = ''08056000''" "padded 8 ''400000'' = ''00400000''"
      "padded 8 ''40b000'' = ''0040b000''" "padded 8 ''0'' = ''00000000''" "padded 2 ''0'' = ''00''" "padded 2 ''3'' = ''03''"
      "padded 2 ''c'' = ''0c''" "replicate 3 (CHR '' '') = ''   ''"
    by (simp_all add: padded_def eval_nat_numeral)
  have lines: "map (\<lambda>(blanks, r). maps_line blanks r) sample_maps =
      [''08048000-08056000 r-xp 00000000 03:0c 64593   /usr/sbin/gpm'', ''00400000-0040b000 rw-p 00000000 00:00 0 '']"
    by (simp add: maps_line_def sample_maps_def hex pad permission_text_def)
  then have "\<forall>(blanks, r)\<in>set sample_maps. printable_region blanks r"
    by (simp add: sample_maps_def printable_region_def isspace_def)
  from ParseProcMaps_text [OF this] lines show ?thesis by (simp add: sample_maps_def)
qed

end
