(* ===== verification/Minidump.thy ===== *)
theory Minidump
  imports Minidump_Aux_Format Proc_Maps Dump_Context Code_Modules
begin

text \<open>
  \<open>Minidump\<close> (\<open>processor/minidump.cc\<close>, \<open>google_breakpad/processor/minidump.h\<close>): the
  file, its header and directory, and the streams that are read when they are first asked for
  and then kept.  The objects of the streams are records here; their operations are in the
  theories that import this one.
\<close>

subsection \<open>The file\<close>

text \<open>
  An \<open>ifstream\<close>: its contents, the position and whether a read has failed.  A read that
  meets the end of the file yields what there is and sets the failure bit; from then on reads
  yield nothing and seeks do nothing, since nobody clears the bit.  A seek beyond the end is not
  an error.
\<close>

record istream =
  stream_data :: "char list"
  stream_pos :: nat
  stream_failed :: bool

definition istream_read :: "nat \<Rightarrow> istream \<Rightarrow> char list \<times> istream" where
  "istream_read n st =
     (if stream_failed st then ([], st)
      else let bytes = take n (drop (stream_pos st) (stream_data st)) in
        (bytes, st\<lparr>stream_pos := stream_pos st + length bytes, stream_failed := (length bytes < n)\<rparr>))"

definition istream_seek :: "nat \<Rightarrow> istream \<Rightarrow> istream" where
  "istream_seek offset st = (if stream_failed st then st else st\<lparr>stream_pos := offset\<rparr>)"

definition opened :: "char list \<Rightarrow> istream" where
  "opened contents = \<lparr>stream_data = contents, stream_pos = 0, stream_failed = False\<rparr>"

subsection \<open>The objects of the streams\<close>

record MinidumpMemoryRegion =
  mr_descriptor :: "MDMemoryDescriptor option"
  mr_valid :: bool
  mr_memory :: "char list option"

record MinidumpThread =
  mt_valid :: bool
  mt_thread :: MDRawThread
  mt_memory :: "MinidumpMemoryRegion option"
  mt_context :: "dump_context option"

text \<open>The map from identifiers holds the index of a thread in the list.\<close>

record MinidumpThreadList =
  tl_ids :: "u32 \<rightharpoonup> nat"
  tl_threads :: "MinidumpThread list"
  thread_count :: u32

record MinidumpModule =
  mm_valid :: bool
  mm_module_valid :: bool
  mm_has_debug_info :: bool
  mm_module :: MDRawModule
  mm_name :: "string option"
  mm_cv_record :: "char list option"
  mm_cv_signature :: u32
  mm_misc_record :: "char list option"

record MinidumpModuleList =
  ml_range_map :: "(u64, u32) range_map"
  ml_modules :: "MinidumpModule list"
  ml_count :: u32

record MinidumpMemoryList =
  yl_range_map :: "(u64, u32) range_map"
  yl_regions :: "MinidumpMemoryRegion list"
  yl_count :: u32

record MinidumpException =
  me_exception :: MDRawExceptionStream
  me_context :: "dump_context option"

record MDRawBreakpadInfo =
  bi_validity :: u32
  bi_dump_thread_id :: u32
  bi_requesting_thread_id :: u32

record MinidumpAssertion =
  ma_assertion :: MDRawAssertionInfo
  ma_expression :: string
  ma_function :: string
  ma_file :: string

record MinidumpUnloadedModule =
  mu_valid :: bool
  mu_module_valid :: bool
  mu_module :: MDRawUnloadedModule
  mu_name :: "string option"

record MinidumpUnloadedModuleList =
  ul_range_map :: "(u64, u32) range_map"
  ul_modules :: "MinidumpUnloadedModule list"
  ul_count :: u32

record MinidumpMiscInfo =
  mx_misc_info :: MDRawMiscInfo
  mx_standard_name :: string
  mx_daylight_name :: string
  mx_build_string :: string
  mx_dbg_bld_str :: string

record MinidumpMemoryInfoList =
  il_range_map :: "(u64, u32) range_map"
  il_infos :: "MDRawMemoryInfo list"
  il_count :: u32

text \<open>The vectors that \<open>Read\<close> extends together are one list.\<close>

record module_annotations =
  an_module_index :: u32
  an_module_info :: MDRawModuleCrashpadInfo
  an_list :: "string list"
  an_simple :: "string \<rightharpoonup> string"

record MinidumpCrashpadInfo =
  mp_crashpad_info :: MDRawCrashpadInfo
  mp_simple_annotations :: "string \<rightharpoonup> string"
  mp_modules :: "module_annotations list"

text \<open>
  A stream that was read; it is valid, since \<open>GetStream\<close> keeps only streams whose
  \<open>Read\<close> succeeded.
\<close>

datatype md_stream =
    Thread_list MinidumpThreadList
  | Module_list MinidumpModuleList
  | Memory_list MinidumpMemoryList
  | Exception_stream MinidumpException
  | System_info MDRawSystemInfo
  | Breakpad_info MDRawBreakpadInfo
  | Assertion_info MinidumpAssertion
  | Unloaded_module_list MinidumpUnloadedModuleList
  | Misc_info MinidumpMiscInfo
  | Memory_info_list MinidumpMemoryInfoList
  | Linux_maps "MappedMemoryRegion list"
  | Crashpad_info MinidumpCrashpadInfo

definition MD_THREAD_LIST_STREAM :: u32 where "MD_THREAD_LIST_STREAM = 3"
definition MD_MODULE_LIST_STREAM :: u32 where "MD_MODULE_LIST_STREAM = 4"
definition MD_MEMORY_LIST_STREAM :: u32 where "MD_MEMORY_LIST_STREAM = 5"
definition MD_EXCEPTION_STREAM :: u32 where "MD_EXCEPTION_STREAM = 6"
definition MD_SYSTEM_INFO_STREAM :: u32 where "MD_SYSTEM_INFO_STREAM = 7"
definition MD_MISC_INFO_STREAM :: u32 where "MD_MISC_INFO_STREAM = 15"
definition MD_BREAKPAD_INFO_STREAM :: u32 where "MD_BREAKPAD_INFO_STREAM = 0x47670001"
definition MD_CRASHPAD_INFO_STREAM :: u32 where "MD_CRASHPAD_INFO_STREAM = 0x43500001"
definition MD_UNLOADED_MODULE_LIST_STREAM :: u32 where "MD_UNLOADED_MODULE_LIST_STREAM = 14"
definition MD_MEMORY_INFO_LIST_STREAM :: u32 where "MD_MEMORY_INFO_LIST_STREAM = 16"
definition MD_ASSERTION_INFO_STREAM :: u32 where "MD_ASSERTION_INFO_STREAM = 0x47670002"
definition MD_LINUX_MAPS :: u32 where "MD_LINUX_MAPS = 0x47670009"

lemmas stream_types = MD_THREAD_LIST_STREAM_def MD_MODULE_LIST_STREAM_def MD_MEMORY_LIST_STREAM_def
  MD_EXCEPTION_STREAM_def MD_SYSTEM_INFO_STREAM_def MD_MISC_INFO_STREAM_def MD_BREAKPAD_INFO_STREAM_def
  MD_CRASHPAD_INFO_STREAM_def MD_UNLOADED_MODULE_LIST_STREAM_def MD_MEMORY_INFO_LIST_STREAM_def
  MD_ASSERTION_INFO_STREAM_def MD_LINUX_MAPS_def

record stream_info =
  stream_index :: u32
  cached_stream :: "md_stream option"

record minidump =
  md_header :: MDRawHeader
  md_directory :: "MDRawDirectory list"
  md_stream_map :: "(u32, stream_info) smap"
  md_path :: string
  md_file :: "istream option"
  md_swap :: bool
  md_is_big_endian :: bool
  md_valid :: bool

definition zero_header :: MDRawHeader where
  "zero_header = \<lparr>h_signature = 0, h_version = 0, stream_count = 0, stream_directory_rva = 0,
     h_checksum = 0, h_time_date_stamp = 0, h_flags = 0\<rparr>"

definition new_Minidump :: "string \<Rightarrow> istream option \<Rightarrow> minidump" where
  "new_Minidump path file =
     \<lparr>md_header = zero_header, md_directory = [], md_stream_map = [], md_path = path, md_file = file,
      md_swap = False, md_is_big_endian = False, md_valid = False\<rparr>"

definition dump_header :: "minidump \<Rightarrow> MDRawHeader option" where
  "dump_header d = (if md_valid d then Some (md_header d) else None)"

definition dump_swap :: "minidump \<Rightarrow> bool" where
  "dump_swap d = (if md_valid d then md_swap d else False)"

definition is_big_endian :: "minidump \<Rightarrow> bool" where
  "is_big_endian d = (if md_valid d then md_is_big_endian d else False)"

definition max_streams :: nat where "max_streams = 128"
definition max_string_length :: nat where "max_string_length = 1024"

subsection \<open>Reading and seeking\<close>

text \<open>On failure the buffer of the caller is partly filled; no caller looks at it then.\<close>

definition ReadBytes :: "nat \<Rightarrow> minidump \<Rightarrow> char list option \<times> minidump" where
  "ReadBytes count d =
     (case md_file d of
        None \<Rightarrow> (None, d)
      | Some st \<Rightarrow>
          (case istream_read count st of (bytes, st') \<Rightarrow>
             (if length bytes = count then Some bytes else None, d\<lparr>md_file := Some st'\<rparr>)))"

definition SeekSet :: "nat \<Rightarrow> minidump \<Rightarrow> bool \<times> minidump" where
  "SeekSet offset d =
     (case md_file d of
        None \<Rightarrow> (False, d)
      | Some st \<Rightarrow>
          (let st' = istream_seek offset st in (\<not> stream_failed st', d\<lparr>md_file := Some st'\<rparr>)))"

definition Tell :: "minidump \<Rightarrow> nat option" where
  "Tell d =
     (if \<not> md_valid d then None
      else case md_file d of
        None \<Rightarrow> None
      | Some st \<Rightarrow> if stream_failed st then None else Some (stream_pos st))"

text \<open>
  \<open>Open\<close>; a file that cannot be opened leaves a stream behind that is not good.  The file
  system is an argument.
\<close>

definition Minidump_Open :: "(string \<Rightarrow> char list option) \<Rightarrow> minidump \<Rightarrow> bool \<times> minidump" where
  "Minidump_Open file_system d =
     (case md_file d of
        Some _ \<Rightarrow> SeekSet 0 d
      | None \<Rightarrow>
          (case file_system (md_path d) of
             None \<Rightarrow> (False, d\<lparr>md_file := Some ((opened [])\<lparr>stream_failed := True\<rparr>)\<rparr>)
           | Some contents \<Rightarrow> (True, d\<lparr>md_file := Some (opened contents)\<rparr>)))"

text \<open>
  The loop over the directory: the types that the library reads occur once, of others the last
  entry counts.
\<close>

definition unique_stream_types :: "u32 list" where
  "unique_stream_types = [MD_THREAD_LIST_STREAM, MD_MODULE_LIST_STREAM, MD_MEMORY_LIST_STREAM,
     MD_EXCEPTION_STREAM, MD_SYSTEM_INFO_STREAM, MD_MISC_INFO_STREAM, MD_BREAKPAD_INFO_STREAM,
     MD_CRASHPAD_INFO_STREAM]"

fun add_streams ::
  "nat \<Rightarrow> MDRawDirectory list \<Rightarrow> (u32, stream_info) smap \<Rightarrow> bool \<times> (u32, stream_info) smap" where
  "add_streams index [] m = (True, m)"
| "add_streams index (entry # entries) m =
     (let stream_type = dir_stream_type entry in
      if stream_type \<in> set unique_stream_types \<and> map_of m stream_type \<noteq> None then (False, m)
      else add_streams (index + 1) entries
        (smap_put stream_type
           \<lparr>stream_index = of_nat index,
            cached_stream = (case map_of m stream_type of None \<Rightarrow> None | Some info \<Rightarrow> cached_stream info)\<rparr> m))"

definition read_directory :: "minidump \<Rightarrow> bool \<times> minidump" where
  "read_directory d =
     (let count = unat (stream_count (md_header d)) in
      if count = 0 then (True, d)
      else
        (case ReadBytes (12 * count) d of
           (None, d) \<Rightarrow> (False, d)
         | (Some bytes, d) \<Rightarrow>
             (let entries = map (\<lambda>i. MDRawDirectory_at (md_swap d) bytes (12 * i)) [0..<count] in
              case add_streams 0 entries (md_stream_map d) of (ok, m) \<Rightarrow>
                (if ok then (True, d\<lparr>md_stream_map := m, md_directory := entries\<rparr>)
                 else (False, d\<lparr>md_stream_map := m\<rparr>)))))"

text \<open>The byte order follows from the signature.\<close>

definition read_header :: "minidump \<Rightarrow> bool \<times> minidump" where
  "read_header d =
     (case ReadBytes 32 d of
        (None, d) \<Rightarrow> (False, d)
      | (Some bytes, d) \<Rightarrow>
          (let h = MDRawHeader_at False bytes in
           if h_signature h = MD_HEADER_SIGNATURE then
             (True, d\<lparr>md_header := h, md_swap := False, md_is_big_endian := False\<rparr>)
           else if Swap32 (h_signature h) \<noteq> MD_HEADER_SIGNATURE then (False, d\<lparr>md_header := h\<rparr>)
           else (True, d\<lparr>md_header := MDRawHeader_at True bytes, md_swap := True, md_is_big_endian := True\<rparr>)))"

definition Minidump_Read :: "(string \<Rightarrow> char list option) \<Rightarrow> minidump \<Rightarrow> bool \<times> minidump" where
  "Minidump_Read file_system d =
     (let d = d\<lparr>md_directory := [], md_stream_map := [], md_valid := False\<rparr> in
      case Minidump_Open file_system d of
        (False, d) \<Rightarrow> (False, d)
      | (True, d) \<Rightarrow>
          (case read_header d of
             (False, d) \<Rightarrow> (False, d)
           | (True, d) \<Rightarrow>
               if h_version (md_header d) AND 0x0000ffff \<noteq> MD_HEADER_VERSION then (False, d)
               else
                 (case SeekSet (unat (stream_directory_rva (md_header d))) d of
                    (False, d) \<Rightarrow> (False, d)
                  | (True, d) \<Rightarrow>
                      if max_streams < unat (stream_count (md_header d)) then (False, d)
                      else
                        (case read_directory d of
                           (False, d) \<Rightarrow> (False, d)
                         | (True, d) \<Rightarrow> (True, d\<lparr>md_valid := True\<rparr>)))))"

definition GetDirectoryEntryCount :: "minidump \<Rightarrow> u32" where
  "GetDirectoryEntryCount d = (if md_valid d then stream_count (md_header d) else 0)"

definition GetDirectoryEntryAtIndex :: "minidump \<Rightarrow> nat \<Rightarrow> MDRawDirectory option" where
  "GetDirectoryEntryAtIndex d index =
     (if \<not> md_valid d then None
      else if unat (stream_count (md_header d)) \<le> index then None
      else Some (md_directory d ! index))"

subsection \<open>Strings\<close>

definition read_u32_field :: "minidump \<Rightarrow> u32 option \<times> minidump" where
  "read_u32_field d =
     (case ReadBytes 4 d of
        (None, d) \<Rightarrow> (None, d)
      | (Some bytes, d) \<Rightarrow> (Some (u32_at (md_swap d) bytes 0), d))"

definition ReadString :: "nat \<Rightarrow> minidump \<Rightarrow> string option \<times> minidump" where
  "ReadString offset d =
     (if \<not> md_valid d then (None, d)
      else case SeekSet offset d of
        (False, d) \<Rightarrow> (None, d)
      | (True, d) \<Rightarrow>
          (case read_u32_field d of
             (None, d) \<Rightarrow> (None, d)
           | (Some bytes, d) \<Rightarrow>
               if bytes mod 2 \<noteq> 0 then (None, d)
               else
                 let utf16_words = unat bytes div 2 in
                 if max_string_length < utf16_words then (None, d)
                 else if utf16_words = 0 then (UTF16ToUTF8 [] (md_swap d), d)
                 else
                   (case ReadBytes (unat bytes) d of
                      (None, d) \<Rightarrow> (None, d)
                    | (Some p, d) \<Rightarrow>
                        (UTF16ToUTF8 (map (\<lambda>i. word_at p (2 * i)) [0..<utf16_words]) (md_swap d), d))))"

definition ReadUTF8String :: "nat \<Rightarrow> minidump \<Rightarrow> string option \<times> minidump" where
  "ReadUTF8String offset d =
     (if \<not> md_valid d then (None, d)
      else case SeekSet offset d of
        (False, d) \<Rightarrow> (None, d)
      | (True, d) \<Rightarrow>
          (case read_u32_field d of
             (None, d) \<Rightarrow> (None, d)
           | (Some bytes, d) \<Rightarrow>
               if max_string_length < unat bytes then (None, d) else ReadBytes (unat bytes) d))"

text \<open>The loops of \<open>ReadStringList\<close> and \<open>ReadSimpleStringDictionary\<close>.\<close>

fun read_strings :: "u32 list \<Rightarrow> minidump \<Rightarrow> string list option \<times> minidump" where
  "read_strings [] d = (Some [], d)"
| "read_strings (rva # rvas) d =
     (case ReadUTF8String (unat rva) d of
        (None, d) \<Rightarrow> (None, d)
      | (Some entry, d) \<Rightarrow>
          (case read_strings rvas d of
             (None, d) \<Rightarrow> (None, d)
           | (Some entries, d) \<Rightarrow> (Some (entry # entries), d)))"

definition ReadStringList :: "nat \<Rightarrow> minidump \<Rightarrow> string list option \<times> minidump" where
  "ReadStringList offset d =
     (case SeekSet offset d of
        (False, d) \<Rightarrow> (None, d)
      | (True, d) \<Rightarrow>
          (case read_u32_field d of
             (None, d) \<Rightarrow> (None, d)
           | (Some count, d) \<Rightarrow>
               (case ReadBytes (4 * unat count) d of
                  (None, d) \<Rightarrow> (None, d)
                | (Some p, d) \<Rightarrow>
                    read_strings (map (\<lambda>i. u32_at (md_swap d) p (4 * i)) [0..<unat count]) d)))"

text \<open>Of entries with the same key the first one is kept.\<close>

fun read_dictionary ::
  "(u32 \<times> u32) list \<Rightarrow> (string \<rightharpoonup> string) \<Rightarrow> minidump \<Rightarrow> (string \<rightharpoonup> string) option \<times> minidump" where
  "read_dictionary [] m d = (Some m, d)"
| "read_dictionary ((key_rva, value_rva) # entries) m d =
     (case ReadUTF8String (unat key_rva) d of
        (None, d) \<Rightarrow> (None, d)
      | (Some key, d) \<Rightarrow>
          (case ReadUTF8String (unat value_rva) d of
             (None, d) \<Rightarrow> (None, d)
           | (Some v, d) \<Rightarrow>
               read_dictionary entries (if m key \<noteq> None then m else m(key \<mapsto> v)) d))"

definition ReadSimpleStringDictionary :: "nat \<Rightarrow> minidump \<Rightarrow> (string \<rightharpoonup> string) option \<times> minidump" where
  "ReadSimpleStringDictionary offset d =
     (case SeekSet offset d of
        (False, d) \<Rightarrow> (None, d)
      | (True, d) \<Rightarrow>
          (case read_u32_field d of
             (None, d) \<Rightarrow> (None, d)
           | (Some count, d) \<Rightarrow>
               (case ReadBytes (8 * unat count) d of
                  (None, d) \<Rightarrow> (None, d)
                | (Some p, d) \<Rightarrow>
                    read_dictionary (map (\<lambda>i. (u32_at (md_swap d) p (8 * i), u32_at (md_swap d) p (8 * i + 4)))
                      [0..<unat count]) Map.empty d)))"

subsection \<open>Streams\<close>

definition SeekToStreamType :: "u32 \<Rightarrow> minidump \<Rightarrow> u32 option \<times> minidump" where
  "SeekToStreamType stream_type d =
     (if \<not> md_valid d then (None, d)
      else case map_of (md_stream_map d) stream_type of
        None \<Rightarrow> (None, d)
      | Some info \<Rightarrow>
          if stream_count (md_header d) \<le> stream_index info then (None, d)
          else
            let location = dir_location (md_directory d ! unat (stream_index info)) in
            (case SeekSet (unat (loc_rva location)) d of
               (False, d) \<Rightarrow> (None, d)
             | (True, d) \<Rightarrow> (Some (loc_size location), d)))"

text \<open>
  \<open>GetStream\<close> for a stream whose \<open>Read\<close> is the given function.  \<open>Read\<close> may get other
  streams, never its own.
\<close>

definition keep_stream :: "u32 \<Rightarrow> md_stream \<Rightarrow> minidump \<Rightarrow> minidump" where
  "keep_stream stream_type st d =
     d\<lparr>md_stream_map := (case map_of (md_stream_map d) stream_type of
          None \<Rightarrow> md_stream_map d
        | Some info \<Rightarrow> smap_put stream_type (info\<lparr>cached_stream := Some st\<rparr>) (md_stream_map d))\<rparr>"

definition GetStream ::
  "u32 \<Rightarrow> (u32 \<Rightarrow> minidump \<Rightarrow> (md_stream option \<times> minidump) run) \<Rightarrow> minidump \<Rightarrow>
     (md_stream option \<times> minidump) run" where
  "GetStream stream_type read_stream d =
     (if \<not> md_valid d then Some (None, d)
      else case map_of (md_stream_map d) stream_type of
        None \<Rightarrow> Some (None, d)
      | Some info \<Rightarrow>
          (case cached_stream info of
             Some st \<Rightarrow> Some (Some st, d)
           | None \<Rightarrow>
               (case SeekToStreamType stream_type d of
                  (None, d) \<Rightarrow> Some (None, d)
                | (Some stream_length, d) \<Rightarrow> do {
                    (result, d) \<leftarrow> read_stream stream_length d;
                    Some (case result of
                        None \<Rightarrow> (None, d)
                      | Some st \<Rightarrow> (Some st, keep_stream stream_type st d))
                  })))"

subsection \<open>System information\<close>

definition SystemInfo_Read :: "u32 \<Rightarrow> minidump \<Rightarrow> (md_stream option \<times> minidump) run" where
  "SystemInfo_Read expected_size d =
     Some (if expected_size \<noteq> 56 then (None, d)
           else case ReadBytes 56 d of
             (None, d) \<Rightarrow> (None, d)
           | (Some bytes, d) \<Rightarrow> (Some (System_info (MDRawSystemInfo_at (md_swap d) bytes)), d))"

text \<open>The cast of the stored stream to its class: a stream of another class is an error.\<close>

definition GetSystemInfo :: "minidump \<Rightarrow> (MDRawSystemInfo option \<times> minidump) run" where
  "GetSystemInfo d =
     (case GetStream MD_SYSTEM_INFO_STREAM SystemInfo_Read d of
        Some (None, d) \<Rightarrow> Some (None, d)
      | Some (Some (System_info info), d) \<Rightarrow> Some (Some info, d)
      | _ \<Rightarrow> None)"

definition MD_OS_WIN32_WINDOWS :: u32 where "MD_OS_WIN32_WINDOWS = 1"
definition MD_OS_WIN32_NT :: u32 where "MD_OS_WIN32_NT = 2"
definition MD_OS_MAC_OS_X :: u32 where "MD_OS_MAC_OS_X = 0x8101"
definition MD_OS_IOS :: u32 where "MD_OS_IOS = 0x8102"
definition MD_OS_LINUX :: u32 where "MD_OS_LINUX = 0x8201"
definition MD_OS_SOLARIS :: u32 where "MD_OS_SOLARIS = 0x8202"
definition MD_OS_ANDROID :: u32 where "MD_OS_ANDROID = 0x8203"
definition MD_OS_PS3 :: u32 where "MD_OS_PS3 = 0x8204"
definition MD_OS_NACL :: u32 where "MD_OS_NACL = 0x8205"
definition MD_OS_FUCHSIA :: u32 where "MD_OS_FUCHSIA = 0x8206"

definition GetOS :: "MDRawSystemInfo \<Rightarrow> string" where
  "GetOS info =
     (let platform = platform_id info in
      if platform = MD_OS_WIN32_NT \<or> platform = MD_OS_WIN32_WINDOWS then ''windows''
      else if platform = MD_OS_MAC_OS_X then ''mac''
      else if platform = MD_OS_IOS then ''ios''
      else if platform = MD_OS_LINUX then ''linux''
      else if platform = MD_OS_SOLARIS then ''solaris''
      else if platform = MD_OS_ANDROID then ''android''
      else if platform = MD_OS_PS3 then ''ps3''
      else if platform = MD_OS_NACL then ''nacl''
      else if platform = MD_OS_FUCHSIA then ''fuchsia''
      else [])"

definition MD_CPU_ARCHITECTURE_MIPS :: u16 where "MD_CPU_ARCHITECTURE_MIPS = 1"
definition MD_CPU_ARCHITECTURE_ALPHA :: u16 where "MD_CPU_ARCHITECTURE_ALPHA = 2"
definition MD_CPU_ARCHITECTURE_PPC :: u16 where "MD_CPU_ARCHITECTURE_PPC = 3"
definition MD_CPU_ARCHITECTURE_SHX :: u16 where "MD_CPU_ARCHITECTURE_SHX = 4"
definition MD_CPU_ARCHITECTURE_ARM :: u16 where "MD_CPU_ARCHITECTURE_ARM = 5"
definition MD_CPU_ARCHITECTURE_IA64 :: u16 where "MD_CPU_ARCHITECTURE_IA64 = 6"
definition MD_CPU_ARCHITECTURE_AMD64 :: u16 where "MD_CPU_ARCHITECTURE_AMD64 = 9"
definition MD_CPU_ARCHITECTURE_ARM64 :: u16 where "MD_CPU_ARCHITECTURE_ARM64 = 12"
definition MD_CPU_ARCHITECTURE_SPARC :: u16 where "MD_CPU_ARCHITECTURE_SPARC = 0x8001"
definition MD_CPU_ARCHITECTURE_PPC64 :: u16 where "MD_CPU_ARCHITECTURE_PPC64 = 0x8002"
definition MD_CPU_ARCHITECTURE_ARM64_OLD :: u16 where "MD_CPU_ARCHITECTURE_ARM64_OLD = 0x8003"
definition MD_CPU_ARCHITECTURE_MIPS64 :: u16 where "MD_CPU_ARCHITECTURE_MIPS64 = 0x8004"

lemmas cpu_architectures = MD_CPU_ARCHITECTURE_X86_def MD_CPU_ARCHITECTURE_MIPS_def MD_CPU_ARCHITECTURE_ALPHA_def
  MD_CPU_ARCHITECTURE_PPC_def MD_CPU_ARCHITECTURE_SHX_def MD_CPU_ARCHITECTURE_ARM_def MD_CPU_ARCHITECTURE_IA64_def
  MD_CPU_ARCHITECTURE_AMD64_def MD_CPU_ARCHITECTURE_X86_WIN64_def MD_CPU_ARCHITECTURE_ARM64_def
  MD_CPU_ARCHITECTURE_SPARC_def MD_CPU_ARCHITECTURE_PPC64_def MD_CPU_ARCHITECTURE_ARM64_OLD_def
  MD_CPU_ARCHITECTURE_MIPS64_def

definition GetCPU :: "MDRawSystemInfo \<Rightarrow> string" where
  "GetCPU info =
     (let architecture = processor_architecture info in
      if architecture = MD_CPU_ARCHITECTURE_X86 \<or> architecture = MD_CPU_ARCHITECTURE_X86_WIN64 then ''x86''
      else if architecture = MD_CPU_ARCHITECTURE_AMD64 then ''x86-64''
      else if architecture = MD_CPU_ARCHITECTURE_PPC then ''ppc''
      else if architecture = MD_CPU_ARCHITECTURE_PPC64 then ''ppc64''
      else if architecture = MD_CPU_ARCHITECTURE_SPARC then ''sparc''
      else if architecture = MD_CPU_ARCHITECTURE_ARM then ''arm''
      else if architecture = MD_CPU_ARCHITECTURE_ARM64 \<or> architecture = MD_CPU_ARCHITECTURE_ARM64_OLD then ''arm64''
      else [])"

text \<open>The vendor is printed character by character into a C string, which a zero byte ends.\<close>

definition GetCPUVendor :: "MDRawSystemInfo \<Rightarrow> string option" where
  "GetCPUVendor info =
     (if processor_architecture info = MD_CPU_ARCHITECTURE_X86 \<or>
         processor_architecture info = MD_CPU_ARCHITECTURE_X86_WIN64
      then Some (takeWhile (\<lambda>c. c \<noteq> NUL) (take 12 (cpu_bytes info))) else None)"

definition GetCSDVersion :: "MDRawSystemInfo \<Rightarrow> minidump \<Rightarrow> string option \<times> minidump" where
  "GetCSDVersion info d = ReadString (unat (csd_version_rva info)) d"

definition MD_CONTEXT_ALPHA :: u32 where "MD_CONTEXT_ALPHA = 0x00020000"
definition MD_CONTEXT_SHX :: u32 where "MD_CONTEXT_SHX = 0x000000c0"
definition MD_CONTEXT_IA64 :: u32 where "MD_CONTEXT_IA64 = 0x00080000"
definition MD_CONTEXT_ARM64_OLD :: u32 where "MD_CONTEXT_ARM64_OLD = 0x80000000"

definition architecture_flags :: "u16 \<Rightarrow> u32" where
  "architecture_flags architecture =
     (if architecture = MD_CPU_ARCHITECTURE_X86 then MD_CONTEXT_X86
      else if architecture = MD_CPU_ARCHITECTURE_MIPS then MD_CONTEXT_MIPS
      else if architecture = MD_CPU_ARCHITECTURE_MIPS64 then MD_CONTEXT_MIPS64
      else if architecture = MD_CPU_ARCHITECTURE_ALPHA then MD_CONTEXT_ALPHA
      else if architecture = MD_CPU_ARCHITECTURE_PPC then MD_CONTEXT_PPC
      else if architecture = MD_CPU_ARCHITECTURE_PPC64 then MD_CONTEXT_PPC64
      else if architecture = MD_CPU_ARCHITECTURE_SHX then MD_CONTEXT_SHX
      else if architecture = MD_CPU_ARCHITECTURE_ARM then MD_CONTEXT_ARM
      else if architecture = MD_CPU_ARCHITECTURE_ARM64 then MD_CONTEXT_ARM64
      else if architecture = MD_CPU_ARCHITECTURE_ARM64_OLD then MD_CONTEXT_ARM64_OLD
      else if architecture = MD_CPU_ARCHITECTURE_IA64 then MD_CONTEXT_IA64
      else if architecture = MD_CPU_ARCHITECTURE_AMD64 then MD_CONTEXT_AMD64
      else if architecture = MD_CPU_ARCHITECTURE_SPARC then MD_CONTEXT_SPARC
      else 0)"

definition GetContextCPUFlagsFromSystemInfo :: "minidump \<Rightarrow> (bool \<times> u32 \<times> minidump) run" where
  "GetContextCPUFlagsFromSystemInfo d =
     (case Tell d of
        None \<Rightarrow> Some (True, 0, d)
      | Some saved_position \<Rightarrow> do {
          (system_info, d) \<leftarrow> GetSystemInfo d;
          let context_cpu_flags = (case system_info of None \<Rightarrow> 0
                | Some info \<Rightarrow> architecture_flags (processor_architecture info));
          let (ok, d) = SeekSet saved_position d;
          Some (ok, context_cpu_flags, d)
        })"

definition GetPlatform :: "minidump \<Rightarrow> (u32 option \<times> minidump) run" where
  "GetPlatform d =
     (case Tell d of
        None \<Rightarrow> Some (None, d)
      | Some saved_position \<Rightarrow> do {
          (system_info, d) \<leftarrow> GetSystemInfo d;
          let (ok, d) = SeekSet saved_position d;
          Some (if ok then map_option platform_id system_info else None, d)
        })"

definition IsAndroid :: "minidump \<Rightarrow> (bool \<times> minidump) run" where
  "IsAndroid d = do {
     (platform, d) \<leftarrow> GetPlatform d;
     Some (platform = Some MD_OS_ANDROID, d)
   }"

end
