(* ===== verification/Minidump_File.thy ===== *)
theory Minidump_File
  imports Minidump
begin

text \<open>
  What a minidump that was written in either byte order is read as: the encodings of the records,
  and the round trip of the header and the directory through \<open>Minidump_Read\<close>.
\<close>

subsection \<open>Encodings\<close>

text \<open>
  What a writer puts into a file, with its words in the byte order of the file;
  \<open>swap\<close> is whether that is the other byte order than the reader's.
\<close>

definition location_bytes :: "bool \<Rightarrow> MDLocationDescriptor \<Rightarrow> char list" where
  "location_bytes swap l = file_bytes swap (loc_size l) @ file_bytes swap (loc_rva l)"

definition memory_descriptor_bytes :: "bool \<Rightarrow> MDMemoryDescriptor \<Rightarrow> char list" where
  "memory_descriptor_bytes swap m =
     file_bytes swap (start_of_memory_range m) @ location_bytes swap (memory_location m)"

definition header_bytes :: "bool \<Rightarrow> MDRawHeader \<Rightarrow> char list" where
  "header_bytes swap h =
     file_bytes swap (h_signature h) @ file_bytes swap (h_version h) @ file_bytes swap (stream_count h) @
     file_bytes swap (stream_directory_rva h) @ file_bytes swap (h_checksum h) @
     file_bytes swap (h_time_date_stamp h) @ file_bytes swap (h_flags h)"

definition directory_bytes :: "bool \<Rightarrow> MDRawDirectory \<Rightarrow> char list" where
  "directory_bytes swap e = file_bytes swap (dir_stream_type e) @ location_bytes swap (dir_location e)"

definition thread_bytes :: "bool \<Rightarrow> MDRawThread \<Rightarrow> char list" where
  "thread_bytes swap t =
     file_bytes swap (raw_thread_id t) @ file_bytes swap (suspend_count t) @
     file_bytes swap (priority_class t) @ file_bytes swap (thread_priority t) @ file_bytes swap (teb t) @
     memory_descriptor_bytes swap (thread_stack t) @ location_bytes swap (thread_context t)"

lemma length_encodings [simp]:
  "length (location_bytes swap l) = 8" "length (memory_descriptor_bytes swap m) = 16"
  "length (header_bytes swap h) = 32" "length (directory_bytes swap e) = 12"
  "length (thread_bytes swap t) = 48"
  by (simp_all add: location_bytes_def memory_descriptor_bytes_def header_bytes_def directory_bytes_def
      thread_bytes_def)

lemma u32_at_offset: "length xs \<le> i \<Longrightarrow> u32_at swap (xs @ p) i = u32_at swap p (i - length xs)"
  by (simp add: u32_at_def word_at_skip)

lemma u64_at_offset: "length xs \<le> i \<Longrightarrow> u64_at swap (xs @ p) i = u64_at swap p (i - length xs)"
  by (simp add: u64_at_def word_at_skip)

lemma field_at_start:
  "u32_at swap (file_bytes swap w @ ys) 0 = w" "u64_at swap (file_bytes swap v @ ys) 0 = v"
  "u32_at swap (file_bytes swap w) 0 = w" "u64_at swap (file_bytes swap v) 0 = v"
  using u32_at_file [of 0 "[]"] u64_at_file [of 0 "[]"] u32_at_file [of 0 "[]" swap w "[]"]
    u64_at_file [of 0 "[]" swap v "[]"] by simp_all

lemmas field_simps = u32_at_offset u64_at_offset field_at_start

lemma records_at_file:
  "MDLocationDescriptor_at swap (xs @ location_bytes swap l @ ys) (length xs) = l"
  "MDMemoryDescriptor_at swap (xs @ memory_descriptor_bytes swap m @ ys) (length xs) = m"
  "MDRawHeader_at swap (header_bytes swap h) = h"
  "MDRawDirectory_at swap (xs @ directory_bytes swap e @ ys) (length xs) = e"
  "MDRawThread_at swap (thread_bytes swap t) = t"
  by (simp_all add: MDLocationDescriptor_at_def MDMemoryDescriptor_at_def MDRawHeader_at_def
      MDRawDirectory_at_def MDRawThread_at_def location_bytes_def memory_descriptor_bytes_def
      header_bytes_def directory_bytes_def thread_bytes_def field_simps)

lemma encoded_list_at:
  assumes "\<And>x. length (encode x) = k" and "\<And>xs x ys. decode (xs @ encode x @ ys) (length xs) = x"
    and "n = length entries"
  shows "map (\<lambda>i. decode (concat (map encode entries)) (k * i)) [0..<n] = entries"
proof (rule nth_equalityI)
  have len: "length (concat (map encode es)) = k * length es" for es
    using assms(1) by (induction es) simp_all
  fix i assume "i < length (map (\<lambda>i. decode (concat (map encode entries)) (k * i)) [0..<n])"
  then have i: "i < length entries" by (simp add: assms(3))
  have "concat (map encode entries) =
      concat (map encode (take i entries)) @ encode (entries ! i) @ concat (map encode (drop (Suc i) entries))"
    by (subst id_take_nth_drop [OF i]) (simp add: nth_append i)
  moreover have "k * i = length (concat (map encode (take i entries)))" using i by (simp add: len)
  ultimately show "map (\<lambda>i. decode (concat (map encode entries)) (k * i)) [0..<n] ! i = entries ! i"
    using i by (simp add: assms(2,3))
qed (simp add: assms(3))

subsection \<open>Reading what was written\<close>

definition at_position :: "nat \<Rightarrow> istream \<Rightarrow> minidump \<Rightarrow> minidump" where
  "at_position i st d = d\<lparr>md_file := Some (st\<lparr>stream_pos := i\<rparr>)\<rparr>"

lemma ReadBytes_next:
  assumes "md_file d = Some st" and "\<not> stream_failed st"
    and "take n (drop (stream_pos st) (stream_data st)) = xs" and "n = length xs"
  shows "ReadBytes n d = (Some xs, at_position (stream_pos st + n) st d)"
  using assms by (simp add: ReadBytes_def istream_read_def Let_def at_position_def)

lemma ReadBytes_between:
  assumes "md_file d = Some st" and "\<not> stream_failed st"
    and "stream_data st = pre @ xs @ post" and "stream_pos st = length pre" and "n = length xs"
  shows "ReadBytes n d = (Some xs, at_position (stream_pos st + n) st d)"
  using assms by (intro ReadBytes_next) simp_all

lemma SeekSet_good:
  assumes "md_file d = Some st" and "\<not> stream_failed st"
  shows "SeekSet offset d = (True, at_position offset st d)"
  using assms by (simp add: SeekSet_def istream_seek_def at_position_def)

definition unique_type :: "u32 \<Rightarrow> bool" where
  "unique_type t = (t \<in> set unique_stream_types)"

text \<open>The index of the last entry of a type.\<close>

definition last_of_type :: "nat \<Rightarrow> MDRawDirectory list \<Rightarrow> u32 \<Rightarrow> nat option" where
  "last_of_type i entries t =
     map_option fst (find (\<lambda>(j, e). dir_stream_type e = t) (rev (enumerate i entries)))"

lemma find_append: "find P (xs @ ys) = (case find P xs of None \<Rightarrow> find P ys | Some x \<Rightarrow> Some x)"
  by (induction xs) auto

lemma last_of_type_simps [simp]:
  "last_of_type i [] t = None"
  "last_of_type i (e # es) t =
     (case last_of_type (i + 1) es t of
        None \<Rightarrow> if dir_stream_type e = t then Some i else None
      | Some j \<Rightarrow> Some j)"
  by (auto simp: last_of_type_def find_append split: option.splits)

lemma add_streams_ok:
  "fst (add_streams i entries m) \<longleftrightarrow>
     distinct (filter unique_type (map dir_stream_type entries)) \<and>
     (\<forall>t\<in>dir_stream_type ` set entries. unique_type t \<longrightarrow> map_of m t = None)"
  by (induction entries arbitrary: i m) (auto simp: Let_def unique_type_def image_iff)

lemma add_streams_map:
  assumes "add_streams i entries m = (True, m')" and "\<forall>t info. map_of m t = Some info \<longrightarrow> cached_stream info = None"
  shows "map_of m' t =
    (case last_of_type i entries t of
       None \<Rightarrow> map_of m t
     | Some j \<Rightarrow> Some \<lparr>stream_index = of_nat j, cached_stream = None\<rparr>)"
  using assms
proof (induction entries arbitrary: i m)
  case (Cons e entries)
  let ?t = "dir_stream_type e"
  let ?info = "\<lparr>stream_index = of_nat i,
      cached_stream = (case map_of m ?t of None \<Rightarrow> None | Some info \<Rightarrow> cached_stream info)\<rparr>"
  have fresh: "?info = \<lparr>stream_index = of_nat i, cached_stream = None\<rparr>"
    using Cons.prems(2) by (auto split: option.splits)
  have "add_streams (i + 1) entries (smap_put ?t ?info m) = (True, m')"
    using Cons.prems(1) by (simp add: Let_def split: if_splits)
  from Cons.IH [OF this] Cons.prems(2) show ?case
    unfolding fresh by (auto split: option.splits)
qed simp

lemma last_of_type_less: "last_of_type i entries t = Some j \<Longrightarrow> i \<le> j \<and> j < i + length entries"
proof (induction entries arbitrary: i)
  case (Cons e entries)
  show ?case
  proof (cases "last_of_type (i + 1) entries t")
    case (Some k)
    with Cons.prems have "k = j" by simp
    with Some Cons.IH [of "i + 1"] show ?thesis by simp
  qed (use Cons.prems in \<open>simp split: if_splits\<close>)
qed simp

lemma last_of_type_find:
  "find (\<lambda>e. dir_stream_type e = t) (rev entries) = map_option ((!) entries) (last_of_type 0 entries t)"
proof -
  have "map_option (\<lambda>j. entries ! (j - i)) (last_of_type i entries t) = find (\<lambda>e. dir_stream_type e = t) (rev entries)" for i
  proof (induction entries arbitrary: i)
    case (Cons e entries)
    have "(e # entries) ! (j - i) = entries ! (j - (i + 1))" if "last_of_type (i + 1) entries t = Some j" for j
      using last_of_type_less [OF that] by (simp add: nth_Cons')
    with Cons.IH [of "i + 1", symmetric] show ?case by (auto simp: find_append split: option.splits)
  qed simp
  from this [of 0] show ?thesis by simp
qed

text \<open>What \<open>Read\<close> is to find in a file.\<close>

definition wellformed_dump :: "bool \<Rightarrow> MDRawHeader \<Rightarrow> MDRawDirectory list \<Rightarrow> char list \<Rightarrow> bool" where
  "wellformed_dump swap h entries contents =
     (take 32 contents = header_bytes swap h \<and>
      take (12 * length entries) (drop (unat (stream_directory_rva h)) contents) =
        concat (map (directory_bytes swap) entries) \<and>
      h_signature h = MD_HEADER_SIGNATURE \<and> h_version h AND 0x0000ffff = MD_HEADER_VERSION \<and>
      stream_count h = of_nat (length entries) \<and> length entries \<le> max_streams)"

lemma read_header_ok:
  assumes "md_file d = Some st" and "\<not> stream_failed st" and "stream_pos st = 0"
    and "take 32 (stream_data st) = header_bytes swap h" and signature: "h_signature h = MD_HEADER_SIGNATURE"
  shows "read_header d =
    (True, (at_position 32 st d)\<lparr>md_header := h, md_swap := swap, md_is_big_endian := swap\<rparr>)"
proof -
  have read: "ReadBytes 32 d = (Some (header_bytes swap h), at_position 32 st d)"
    using ReadBytes_next [OF assms(1,2), of 32 "header_bytes swap h"]
    unfolding assms(3) drop_0 assms(4) length_encodings add_0 by (simp only: simp_thms)
  let ?raw = "h_signature (MDRawHeader_at False (header_bytes swap h))"
  have signatures: "Swap32 MD_HEADER_SIGNATURE \<noteq> MD_HEADER_SIGNATURE"
    by (simp add: Swap32_def MD_HEADER_SIGNATURE_def)
  show ?thesis
  proof (cases swap)
    case True
    have "Swap32 ?raw = h_signature (MDRawHeader_at True (header_bytes swap h))"
      by (simp add: MDRawHeader_at_def u32_at_def)
    then have "Swap32 ?raw = MD_HEADER_SIGNATURE"
      using True signature records_at_file(3) [of True h] by simp
    with signatures have "?raw \<noteq> MD_HEADER_SIGNATURE" "Swap32 ?raw = MD_HEADER_SIGNATURE" by auto
    with True show ?thesis
      using records_at_file(3) [of True h] by (simp add: read_header_def read Let_def)
  next
    case False
    with signature show ?thesis
      using records_at_file(3) [of False h] by (simp add: read_header_def read Let_def)
  qed
qed

lemma directory_of_file:
  "map (\<lambda>i. MDRawDirectory_at swap (concat (map (directory_bytes swap) entries)) (12 * i)) [0..<length entries] = entries"
  by (rule encoded_list_at [where encode = "directory_bytes swap"]) (simp_all add: records_at_file)

lemma read_directory_ok:
  assumes there: "md_file d = Some st" "\<not> stream_failed st" and empty: "md_stream_map d = []" "md_directory d = []"
    and bytes: "take (12 * length entries) (drop (stream_pos st) (stream_data st)) =
        concat (map (directory_bytes (md_swap d)) entries)"
    and count: "stream_count (md_header d) = of_nat (length entries)" "length entries \<le> max_streams"
    and d': "read_directory d = (ok, d')"
  shows "ok = distinct (filter unique_type (map dir_stream_type entries))"
    and "ok \<Longrightarrow> \<exists>m. d' = (at_position (stream_pos st + 12 * length entries) st d)\<lparr>md_stream_map := m, md_directory := entries\<rparr> \<and>
      (\<forall>t. map_of m t = map_option (\<lambda>j. \<lparr>stream_index = of_nat j, cached_stream = None\<rparr>) (last_of_type 0 entries t))"
proof -
  have n: "unat (stream_count (md_header d)) = length entries"
    using count by (simp add: max_streams_def unat_nat32)
  have "length (concat (map (directory_bytes swap) es)) = 12 * length es" for swap es
    by (induction es) simp_all
  then have read: "ReadBytes (12 * length entries) d =
      (Some (concat (map (directory_bytes (md_swap d)) entries)), at_position (stream_pos st + 12 * length entries) st d)"
    by (intro ReadBytes_next [OF there bytes]) simp
  obtain good m where run: "add_streams 0 entries [] = (good, m)" by fastforce
  have good: "good = distinct (filter unique_type (map dir_stream_type entries))"
    using add_streams_ok [of 0 entries "[]"] run by simp
  have map: "good \<Longrightarrow> map_of m t = map_option (\<lambda>j. \<lparr>stream_index = of_nat j, cached_stream = None\<rparr>) (last_of_type 0 entries t)"
    for t using add_streams_map [of 0 entries "[]" m t] run by (auto split: option.splits)
  have "(ok, d') =
      (if good then (True, (at_position (stream_pos st + 12 * length entries) st d)\<lparr>md_stream_map := m, md_directory := entries\<rparr>)
       else (False, (at_position (stream_pos st + 12 * length entries) st d)\<lparr>md_stream_map := m\<rparr>))"
    if "entries \<noteq> []"
    using that d' directory_of_file [of "md_swap d" entries]
    by (cases good) (simp_all add: read_directory_def n read Let_def at_position_def empty run)
  moreover have "(ok, d') = (True, d)" "m = []" "good" if "entries = []"
    using that d' run n by (simp_all add: read_directory_def)
  moreover have "d = (at_position (stream_pos st + 12 * length entries) st d)\<lparr>md_stream_map := [], md_directory := entries\<rparr>"
    if "entries = []" using that there empty by (simp add: at_position_def)
  ultimately show "ok = distinct (filter unique_type (map dir_stream_type entries))"
    and "ok \<Longrightarrow> \<exists>m. d' = (at_position (stream_pos st + 12 * length entries) st d)\<lparr>md_stream_map := m, md_directory := entries\<rparr> \<and>
      (\<forall>t. map_of m t = map_option (\<lambda>j. \<lparr>stream_index = of_nat j, cached_stream = None\<rparr>) (last_of_type 0 entries t))"
    unfolding good [symmetric] using map by (cases "entries = []"; cases good; auto)+
qed

text \<open>
  C31: Reading a file that holds a header and a directory, in either byte order, gives a valid
  dump with that header and that directory, in which a stream is sought at its last entry; unless
  the directory has two entries of one of the types the library reads, then \<open>Read\<close> fails.
\<close>

theorem Minidump_Read_roundtrip:
  assumes "file_system path = Some contents" and "wellformed_dump swap h entries contents"
    and "Minidump_Read file_system (new_Minidump path None) = (ok, d)"
  shows "ok = distinct (filter unique_type (map dir_stream_type entries)) \<and>
    (ok \<longrightarrow> dump_header d = Some h \<and> dump_swap d = swap \<and>
      (\<forall>i<length entries. GetDirectoryEntryAtIndex d i = Some (entries ! i)) \<and>
      (\<forall>t. fst (SeekToStreamType t d) =
         map_option (\<lambda>e. loc_size (dir_location e)) (find (\<lambda>e. dir_stream_type e = t) (rev entries))))"
proof -
  note wf = assms(2) [unfolded wellformed_dump_def]
  define d0 where "d0 = (new_Minidump path None)\<lparr>md_directory := [], md_stream_map := [], md_valid := False,
      md_file := Some (opened contents)\<rparr>"
  define d1 where "d1 = (at_position 32 (opened contents) d0)\<lparr>md_header := h, md_swap := swap, md_is_big_endian := swap\<rparr>"
  define st where "st = (opened contents)\<lparr>stream_pos := unat (stream_directory_rva h)\<rparr>"
  define d2 where "d2 = d1\<lparr>md_file := Some st\<rparr>"
  have start: "Minidump_Open file_system ((new_Minidump path None)\<lparr>md_directory := [], md_stream_map := [], md_valid := False\<rparr>)
      = (True, d0)"
    by (simp add: Minidump_Open_def new_Minidump_def assms(1) d0_def)
  have header: "read_header d0 = (True, d1)"
    unfolding d1_def using wf by (intro read_header_ok) (simp_all add: d0_def opened_def)
  have seek: "SeekSet (unat (stream_directory_rva h)) d1 = (True, d2)"
    by (simp add: SeekSet_def d1_def d2_def st_def at_position_def istream_seek_def opened_def)
  obtain good d3 where run: "read_directory d2 = (good, d3)" by fastforce
  have d2: "md_header d2 = h" "md_swap d2 = swap" "md_file d2 = Some st" "md_stream_map d2 = []" "md_directory d2 = []"
    by (simp_all add: d2_def d1_def d0_def at_position_def)
  have st: "\<not> stream_failed st" "stream_pos st = unat (stream_directory_rva h)" "stream_data st = contents"
    by (simp_all add: st_def opened_def)
  note directory = read_directory_ok [OF d2(3) st(1) d2(4,5) _ _ _ run, of entries, unfolded d2 st]
  have good: "good = distinct (filter unique_type (map dir_stream_type entries))"
    by (rule directory(1)) (use wf in simp_all)
  have d1: "md_header d1 = h" by (simp add: d1_def)
  have "(ok, d) = (if good then (True, d3\<lparr>md_valid := True\<rparr>) else (False, d3))"
    using assms(3) wf unfolding Minidump_Read_def Let_def start
    by (simp add: header d1 seek run d2(1) max_streams_def unat_nat32 split: bool.splits)
  moreover have ?thesis if fine: "good" "ok" "d = d3\<lparr>md_valid := True\<rparr>"
  proof -
    obtain m where d3: "d3 = (at_position (unat (stream_directory_rva h) + 12 * length entries) st d2)
          \<lparr>md_stream_map := m, md_directory := entries\<rparr>"
      and m: "\<And>t. map_of m t = map_option (\<lambda>j. \<lparr>stream_index = of_nat j, cached_stream = None\<rparr>) (last_of_type 0 entries t)"
      using directory(2) [OF _ _ _ fine(1)] wf by auto
    have d: "md_valid d" "md_header d = h" "md_swap d = swap" "md_directory d = entries" "md_stream_map d = m"
      "md_file d = Some (st\<lparr>stream_pos := unat (stream_directory_rva h) + 12 * length entries\<rparr>)"
      by (simp_all add: fine(3) d3 d2 at_position_def)
    have count: "stream_count h = of_nat (length entries)" "length entries < 2 ^ 32" "unat (stream_count h) = length entries"
      using wf by (simp_all add: max_streams_def unat_nat32)
    have "fst (SeekToStreamType t d) =
        map_option (\<lambda>e. loc_size (dir_location e)) (find (\<lambda>e. dir_stream_type e = t) (rev entries))" for t
    proof -
      have found: "find (\<lambda>e. dir_stream_type e = t) (rev entries) = map_option ((!) entries) (last_of_type 0 entries t)"
        by (rule last_of_type_find)
      show ?thesis
      proof (cases "last_of_type 0 entries t")
        case None
        then show ?thesis by (simp add: SeekToStreamType_def d m found)
      next
        case (Some j)
        then have "j < length entries" using last_of_type_less [of 0 entries t j] by simp
        then have "unat (of_nat j :: u32) = j" "\<not> stream_count h \<le> of_nat j"
          using count by (simp_all add: unat_nat32 word_le_nat_alt)
        then show ?thesis
          using Some st(1) by (simp add: SeekToStreamType_def d m found Let_def SeekSet_def istream_seek_def)
      qed
    qed
    then show ?thesis
      using fine(1,2) good count(3) by (simp add: dump_header_def dump_swap_def GetDirectoryEntryAtIndex_def d)
  qed
  ultimately show ?thesis using good by (cases good) simp_all
qed

definition sample_header :: MDRawHeader where
  "sample_header = \<lparr>h_signature = MD_HEADER_SIGNATURE, h_version = 0x0001a793, stream_count = 2,
     stream_directory_rva = 32, h_checksum = 0, h_time_date_stamp = 0x5f000000, h_flags = 7\<rparr>"

definition sample_directory :: "MDRawDirectory list" where
  "sample_directory =
     [\<lparr>dir_stream_type = MD_SYSTEM_INFO_STREAM, dir_location = \<lparr>loc_size = 56, loc_rva = 56\<rparr>\<rparr>,
      \<lparr>dir_stream_type = 0x47670005, dir_location = \<lparr>loc_size = 100, loc_rva = 112\<rparr>\<rparr>]"

definition sample_file :: "char list \<Rightarrow> char list" where
  "sample_file rest = header_bytes True sample_header @ concat (map (directory_bytes True) sample_directory) @ rest"

lemma sample_file_wellformed: "wellformed_dump True sample_header sample_directory (sample_file rest)"
proof -
  have "take (12 * length sample_directory) (concat (map (directory_bytes True) sample_directory) @ rest) =
      concat (map (directory_bytes True) sample_directory)"
    by (simp add: sample_directory_def)
  then show ?thesis
    by (simp add: wellformed_dump_def sample_file_def sample_header_def max_streams_def MD_HEADER_VERSION_def)
       (simp add: sample_directory_def)
qed

theorem Minidump_Read_roundtrip_witness:
  "\<exists>d. Minidump_Read (\<lambda>_. Some (sample_file [])) (new_Minidump ''a.dmp'' None) = (True, d) \<and>
     dump_header d = Some sample_header \<and> dump_swap d \<and> fst (SeekToStreamType MD_SYSTEM_INFO_STREAM d) = Some 56"
proof -
  obtain ok d where read: "Minidump_Read (\<lambda>_. Some (sample_file [])) (new_Minidump ''a.dmp'' None) = (ok, d)"
    by fastforce
  have "distinct (filter unique_type (map dir_stream_type sample_directory))"
    by (simp add: unique_type_def unique_stream_types_def sample_directory_def stream_types)
  with Minidump_Read_roundtrip [OF _ sample_file_wellformed read] read show ?thesis
    by (auto simp: sample_directory_def stream_types)
qed

subsection \<open>What reading leaves as it was\<close>

text \<open>
  The cast in \<open>GetStream\<close> relies on the streams that are kept being of the class that
  belongs to their type.
\<close>

fun stream_class :: "md_stream \<Rightarrow> u32" where
  "stream_class (Thread_list _) = MD_THREAD_LIST_STREAM"
| "stream_class (Module_list _) = MD_MODULE_LIST_STREAM"
| "stream_class (Memory_list _) = MD_MEMORY_LIST_STREAM"
| "stream_class (Exception_stream _) = MD_EXCEPTION_STREAM"
| "stream_class (System_info _) = MD_SYSTEM_INFO_STREAM"
| "stream_class (Breakpad_info _) = MD_BREAKPAD_INFO_STREAM"
| "stream_class (Assertion_info _) = MD_ASSERTION_INFO_STREAM"
| "stream_class (Unloaded_module_list _) = MD_UNLOADED_MODULE_LIST_STREAM"
| "stream_class (Misc_info _) = MD_MISC_INFO_STREAM"
| "stream_class (Memory_info_list _) = MD_MEMORY_INFO_LIST_STREAM"
| "stream_class (Linux_maps _) = MD_LINUX_MAPS"
| "stream_class (Crashpad_info _) = MD_CRASHPAD_INFO_STREAM"

definition kept_stream :: "minidump \<Rightarrow> u32 \<Rightarrow> md_stream option" where
  "kept_stream d t = (case map_of (md_stream_map d) t of None \<Rightarrow> None | Some info \<Rightarrow> cached_stream info)"

definition streams_typed :: "minidump \<Rightarrow> bool" where
  "streams_typed d = (\<forall>t st. kept_stream d t = Some st \<longrightarrow> stream_class st = t)"

text \<open>
  Reading changes the position in the file and may fail for good; it keeps more and more streams.
\<close>

definition dump_extends :: "minidump \<Rightarrow> minidump \<Rightarrow> bool" where
  "dump_extends d d' =
     (md_header d' = md_header d \<and> md_directory d' = md_directory d \<and> md_swap d' = md_swap d \<and>
      md_is_big_endian d' = md_is_big_endian d \<and> md_valid d' = md_valid d \<and> md_path d' = md_path d \<and>
      map_option stream_data (md_file d') = map_option stream_data (md_file d) \<and>
      (\<forall>t st. kept_stream d t = Some st \<longrightarrow> kept_stream d' t = Some st) \<and>
      (streams_typed d \<longrightarrow> streams_typed d'))"

lemma dump_extends_refl [simp, intro]: "dump_extends d d"
  by (simp add: dump_extends_def)

lemma dump_extends_trans [trans]: "dump_extends d d' \<Longrightarrow> dump_extends d' d'' \<Longrightarrow> dump_extends d d''"
  by (simp add: dump_extends_def)

lemma dump_extends_typed: "dump_extends d d' \<Longrightarrow> streams_typed d \<Longrightarrow> streams_typed d'"
  by (simp add: dump_extends_def)

lemma kept_stream_file [simp]: "kept_stream (d\<lparr>md_file := f\<rparr>) t = kept_stream d t"
  by (simp add: kept_stream_def)

lemma streams_typed_file [simp]: "streams_typed (d\<lparr>md_file := f\<rparr>) = streams_typed d"
  by (simp add: streams_typed_def)

lemma dump_extends_file:
  "map_option stream_data f = map_option stream_data (md_file d) \<Longrightarrow> dump_extends d (d\<lparr>md_file := f\<rparr>)"
  by (simp add: dump_extends_def)

named_theorems extends_intros \<open>operations that extend the dump\<close>

lemma SeekSet_file: "SeekSet offset d = (ok, d') \<Longrightarrow> d' = d\<lparr>md_file := md_file d'\<rparr>"
  by (auto simp: SeekSet_def Let_def split: option.splits)

lemma ReadBytes_file: "ReadBytes n d = (result, d') \<Longrightarrow> d' = d\<lparr>md_file := md_file d'\<rparr>"
  by (auto simp: ReadBytes_def split: option.splits prod.splits)

lemma SeekToStreamType_file: "SeekToStreamType t d = (n, d') \<Longrightarrow> d' = d\<lparr>md_file := md_file d'\<rparr>"
  by (auto simp: SeekToStreamType_def Let_def dest: SeekSet_file split: if_splits option.splits prod.splits bool.splits)

lemma SeekSet_extends [extends_intros]: "SeekSet offset d = (ok, d') \<Longrightarrow> dump_extends d d'"
  by (auto simp: SeekSet_def istream_seek_def Let_def intro!: dump_extends_file split: option.splits if_splits)

lemma ReadBytes_extends [extends_intros]: "ReadBytes n d = (bytes, d') \<Longrightarrow> dump_extends d d'"
  by (auto simp: ReadBytes_def istream_read_def Let_def intro!: dump_extends_file split: option.splits if_splits)

lemma read_u32_field_extends [extends_intros]: "read_u32_field d = (result, d') \<Longrightarrow> dump_extends d d'"
  by (auto simp: read_u32_field_def dest!: ReadBytes_extends split: prod.splits option.splits)

lemma ReadString_extends [extends_intros]:
  assumes "ReadString offset d = (result, d')"
  shows "dump_extends d d'"
proof -
  obtain ok d1 where seek: "SeekSet offset d = (ok, d1)" by fastforce
  obtain bytes d2 where count: "read_u32_field d1 = (bytes, d2)" by fastforce
  obtain p d3 where bytes: "ReadBytes (unat (the bytes)) d2 = (p, d3)" by fastforce
  have "d' \<in> {d, d1, d2, d3}"
    using assms seek count bytes
    by (cases ok; cases bytes; cases p) (auto simp: ReadString_def Let_def split: if_splits)
  with SeekSet_extends [OF seek] read_u32_field_extends [OF count] ReadBytes_extends [OF bytes] show ?thesis
    by (auto intro: dump_extends_trans)
qed

lemma SeekToStreamType_extends [extends_intros]: "SeekToStreamType t d = (result, d') \<Longrightarrow> dump_extends d d'"
  by (auto simp: SeekToStreamType_def Let_def dest: SeekSet_extends
      split: if_splits option.splits prod.splits bool.splits)

lemma kept_stream_keep:
  "kept_stream (keep_stream t st d) t' =
     (if t' = t \<and> map_of (md_stream_map d) t \<noteq> None then Some st else kept_stream d t')"
  by (auto simp: kept_stream_def keep_stream_def split: option.splits)

lemma keep_stream_extends:
  assumes "stream_class st = t" and "kept_stream d t = None"
  shows "dump_extends d (keep_stream t st d)"
  using assms
  by (auto simp: dump_extends_def kept_stream_keep streams_typed_def) (simp_all add: keep_stream_def)

text \<open>
  The contract of a reader of a stream: it returns, what it reads is of its class, and it does not
  keep a stream of its own type itself.
\<close>

definition reader_ok :: "u32 \<Rightarrow> (u32 \<Rightarrow> minidump \<Rightarrow> (md_stream option \<times> minidump) run) \<Rightarrow> bool" where
  "reader_ok t read_stream =
     (\<forall>n d. streams_typed d \<longrightarrow>
        (\<exists>result d'. read_stream n d = Some (result, d') \<and> dump_extends d d' \<and>
           kept_stream d' t = kept_stream d t \<and> (\<forall>st. result = Some st \<longrightarrow> stream_class st = t)))"

lemma GetStream_run:
  assumes reader: "reader_ok t read_stream" and typed: "streams_typed d"
  shows "\<exists>result d'. GetStream t read_stream d = Some (result, d') \<and> dump_extends d d' \<and>
    (\<forall>st. result = Some st \<longrightarrow> stream_class st = t)"
proof (cases "md_valid d \<and> map_of (md_stream_map d) t \<noteq> None")
  case False
  then show ?thesis by (auto simp: GetStream_def)
next
  case True
  then obtain info where info: "map_of (md_stream_map d) t = Some info" by auto
  show ?thesis
  proof (cases "cached_stream info")
    case (Some st)
    with typed info have "stream_class st = t" by (auto simp: streams_typed_def kept_stream_def)
    with True info Some show ?thesis by (simp add: GetStream_def)
  next
    case None
    obtain n d1 where seek: "SeekToStreamType t d = (n, d1)" by fastforce
    note d1 = SeekToStreamType_extends [OF seek]
    have empty: "kept_stream d1 t = None"
    proof -
      have "d1 = d\<lparr>md_file := md_file d1\<rparr>" by (rule SeekToStreamType_file [OF seek])
      then have "md_stream_map d1 = md_stream_map d" by (metis minidump.select_convs(3) minidump.surjective minidump.update_convs(5))
      with info None show ?thesis by (simp add: kept_stream_def)
    qed
    show ?thesis
    proof (cases n)
      case None': None
      with True info None seek d1 show ?thesis by (simp add: GetStream_def)
    next
      case (Some len)
      obtain result d2 where read: "read_stream len d1 = Some (result, d2)" "dump_extends d1 d2"
        "kept_stream d2 t = None" "\<forall>st. result = Some st \<longrightarrow> stream_class st = t"
        using reader dump_extends_typed [OF d1 typed] empty unfolding reader_ok_def by metis
      then have "GetStream t read_stream d =
          Some (case result of None \<Rightarrow> (None, d2) | Some st \<Rightarrow> (Some st, keep_stream t st d2))"
        using True info None Some seek by (simp add: GetStream_def)
      moreover have "dump_extends d (case result of None \<Rightarrow> d2 | Some st \<Rightarrow> keep_stream t st d2)"
        using d1 read keep_stream_extends by (auto intro: dump_extends_trans split: option.splits)
      ultimately show ?thesis using read(4) by (cases result) auto
    qed
  qed
qed

lemma kept_stream_same_map: "md_stream_map d' = md_stream_map d \<Longrightarrow> kept_stream d' t = kept_stream d t"
  by (simp add: kept_stream_def)

lemma file_map: "d' = d\<lparr>md_file := f\<rparr> \<Longrightarrow> md_stream_map d' = md_stream_map d"
  by simp

lemma ReadBytes_map: "ReadBytes n d = (result, d') \<Longrightarrow> md_stream_map d' = md_stream_map d"
  using ReadBytes_file file_map by blast

text \<open>A reader that leaves the map of streams alone meets the contract.\<close>

lemma reader_okI:
  assumes "\<And>n d. \<exists>result d'. read_stream n d = Some (result, d') \<and> dump_extends d d' \<and>
      md_stream_map d' = md_stream_map d \<and> (\<forall>st. result = Some st \<longrightarrow> stream_class st = t)"
  shows "reader_ok t read_stream"
  unfolding reader_ok_def using assms kept_stream_same_map by (metis (no_types, lifting))

text \<open>
  The interface of a stream of one class: what \<open>GetStream\<close> is given for it, the getter, and
  the constructor of the class.
\<close>

locale typed_stream =
  fixes stream_type :: u32
    and read_stream :: "u32 \<Rightarrow> minidump \<Rightarrow> (md_stream option \<times> minidump) run"
    and get_stream :: "minidump \<Rightarrow> ('a option \<times> minidump) run"
    and wrap :: "'a \<Rightarrow> md_stream"
  assumes reader: "reader_ok stream_type read_stream"
    and get_None: "GetStream stream_type read_stream d = Some (None, d') \<Longrightarrow> get_stream d = Some (None, d')"
    and get_Some: "GetStream stream_type read_stream d = Some (Some (wrap x), d') \<Longrightarrow> get_stream d = Some (Some x, d')"
    and class_wrap: "stream_class st = stream_type \<Longrightarrow> \<exists>x. st = wrap x"
begin

text \<open>The cast never meets a stream of another class.\<close>

lemma get_run:
  assumes "streams_typed d"
  shows "\<exists>result d'. get_stream d = Some (result, d') \<and> dump_extends d d'"
proof -
  obtain result d' where run: "GetStream stream_type read_stream d = Some (result, d')" "dump_extends d d'"
    "\<forall>st. result = Some st \<longrightarrow> stream_class st = stream_type"
    using GetStream_run [OF reader assms] by blast
  then show ?thesis
  proof (cases result)
    case None
    with run get_None show ?thesis by blast
  next
    case (Some st)
    with run(3) class_wrap obtain x where "st = wrap x" by blast
    with run Some get_Some show ?thesis by blast
  qed
qed

end

lemma SystemInfo_Read_ok: "reader_ok MD_SYSTEM_INFO_STREAM SystemInfo_Read"
proof (rule reader_okI)
  fix n d
  obtain bytes d1 where bytes: "ReadBytes 56 d = (bytes, d1)" by fastforce
  with ReadBytes_extends [OF bytes] ReadBytes_map [OF bytes]
  show "\<exists>result d'. SystemInfo_Read n d = Some (result, d') \<and> dump_extends d d' \<and>
      md_stream_map d' = md_stream_map d \<and> (\<forall>st. result = Some st \<longrightarrow> stream_class st = MD_SYSTEM_INFO_STREAM)"
    by (cases bytes) (auto simp: SystemInfo_Read_def)
qed

interpretation system_info: typed_stream MD_SYSTEM_INFO_STREAM SystemInfo_Read GetSystemInfo System_info
  by (unfold_locales, rule SystemInfo_Read_ok) (auto simp: GetSystemInfo_def stream_types elim!: stream_class.elims)

lemmas GetSystemInfo_run = system_info.get_run

lemma GetContextCPUFlagsFromSystemInfo_run:
  assumes "streams_typed d"
  shows "\<exists>ok flags d'. GetContextCPUFlagsFromSystemInfo d = Some (ok, flags, d') \<and> dump_extends d d'"
proof (cases "Tell d")
  case None
  then show ?thesis by (auto simp: GetContextCPUFlagsFromSystemInfo_def)
next
  case (Some position)
  obtain info d1 where info: "GetSystemInfo d = Some (info, d1)" "dump_extends d d1"
    using GetSystemInfo_run [OF assms] by blast
  obtain ok d2 where seek: "SeekSet position d1 = (ok, d2)" by fastforce
  from info(2) SeekSet_extends [OF this] have "dump_extends d d2" by (rule dump_extends_trans)
  with Some info(1) seek show ?thesis by (auto simp: GetContextCPUFlagsFromSystemInfo_def Let_def)
qed

lemma GetPlatform_run:
  assumes "streams_typed d"
  shows "\<exists>platform d'. GetPlatform d = Some (platform, d') \<and> dump_extends d d'"
proof (cases "Tell d")
  case None
  then show ?thesis by (auto simp: GetPlatform_def)
next
  case (Some position)
  obtain info d1 where info: "GetSystemInfo d = Some (info, d1)" "dump_extends d d1"
    using GetSystemInfo_run [OF assms] by blast
  obtain ok d2 where seek: "SeekSet position d1 = (ok, d2)" by fastforce
  from info(2) SeekSet_extends [OF this] have "dump_extends d d2" by (rule dump_extends_trans)
  with Some info(1) seek show ?thesis by (auto simp: GetPlatform_def Let_def)
qed

end
