(* ===== verification/Minidump_Memory.thy ===== *)
theory Minidump_Memory
  imports Minidump_File
begin

text \<open>
  \<open>MinidumpMemoryRegion\<close> and \<open>MinidumpMemoryList\<close>: memory of the crashed process that the
  dump holds.  A region reads its bytes from the file when it is first asked for them and keeps
  them.  The walkers see a region as the record \<open>memory_region\<close> of pure reads; the reads of
  one region do not disturb each other, so that view is exact as long as nothing else reads the
  file in between.
\<close>

subsection \<open>Regions\<close>

definition max_bytes :: nat where "max_bytes = 64 * 1024 * 1024"

definition new_region :: MinidumpMemoryRegion where
  "new_region = \<lparr>mr_descriptor = None, mr_valid = False, mr_memory = None\<rparr>"

definition range_fits :: "MDMemoryDescriptor \<Rightarrow> bool" where
  "range_fits descriptor = (ucast (loc_size (memory_location descriptor)) \<le> - 1 - start_of_memory_range descriptor)"

definition SetDescriptor :: "MDMemoryDescriptor \<Rightarrow> MinidumpMemoryRegion \<Rightarrow> MinidumpMemoryRegion" where
  "SetDescriptor descriptor r = r\<lparr>mr_descriptor := Some descriptor, mr_valid := range_fits descriptor\<rparr>"

text \<open>The descriptor of a valid region is there.\<close>

definition descriptor :: "MinidumpMemoryRegion \<Rightarrow> MDMemoryDescriptor" where
  "descriptor r = the (mr_descriptor r)"

definition Region_GetMemory ::
  "MinidumpMemoryRegion \<Rightarrow> minidump \<Rightarrow> char list option \<times> MinidumpMemoryRegion \<times> minidump" where
  "Region_GetMemory r d =
     (if \<not> mr_valid r then (None, r, d)
      else case mr_memory r of
        Some bytes \<Rightarrow> (Some bytes, r, d)
      | None \<Rightarrow>
          let location = memory_location (descriptor r) in
          if loc_size location = 0 then (None, r, d)
          else
            (case SeekSet (unat (loc_rva location)) d of
               (False, d) \<Rightarrow> (None, r, d)
             | (True, d) \<Rightarrow>
                 if max_bytes < unat (loc_size location) then (None, r, d)
                 else
                   (case ReadBytes (unat (loc_size location)) d of
                      (None, d) \<Rightarrow> (None, r, d)
                    | (Some bytes, d) \<Rightarrow> (Some bytes, r\<lparr>mr_memory := Some bytes\<rparr>, d))))"

definition Region_GetBase :: "MinidumpMemoryRegion \<Rightarrow> u64" where
  "Region_GetBase r = (if \<not> mr_valid r then - 1 else start_of_memory_range (descriptor r))"

definition Region_GetSize :: "MinidumpMemoryRegion \<Rightarrow> u32" where
  "Region_GetSize r = (if \<not> mr_valid r then 0 else loc_size (memory_location (descriptor r)))"

definition FreeMemory :: "MinidumpMemoryRegion \<Rightarrow> MinidumpMemoryRegion" where
  "FreeMemory r = r\<lparr>mr_memory := None\<rparr>"

text \<open>
  The template over the type of the value; the read of that type from a buffer, with its
  \<open>Swap\<close>, is the first argument.
\<close>

definition out_of_region :: "nat \<Rightarrow> u64 \<Rightarrow> MinidumpMemoryRegion \<Rightarrow> bool" where
  "out_of_region n address r =
     (address < start_of_memory_range (descriptor r) \<or> - 1 - address < of_nat n \<or>
      start_of_memory_range (descriptor r) + ucast (loc_size (memory_location (descriptor r))) < address + of_nat n)"

definition GetMemoryAtAddressInternal ::
  "(bool \<Rightarrow> pointer \<Rightarrow> nat \<Rightarrow> 'a::len word) \<Rightarrow> u64 \<Rightarrow> MinidumpMemoryRegion \<Rightarrow> minidump \<Rightarrow>
     'a word option \<times> MinidumpMemoryRegion \<times> minidump" where
  "GetMemoryAtAddressInternal read_at address r d =
     (if \<not> mr_valid r then (None, r, d)
      else if out_of_region (LENGTH('a) div 8) address r then (None, r, d)
      else
        (case Region_GetMemory r d of
           (None, r, d) \<Rightarrow> (None, r, d)
         | (Some bytes, r, d) \<Rightarrow>
             (Some (read_at (dump_swap d) bytes (unat (address - start_of_memory_range (descriptor r)))), r, d)))"

definition GetMemoryAtAddress8 :: "u64 \<Rightarrow> MinidumpMemoryRegion \<Rightarrow> minidump \<Rightarrow> u8 option \<times> MinidumpMemoryRegion \<times> minidump" where
  "GetMemoryAtAddress8 = GetMemoryAtAddressInternal (\<lambda>_. word_at)"

definition GetMemoryAtAddress16 :: "u64 \<Rightarrow> MinidumpMemoryRegion \<Rightarrow> minidump \<Rightarrow> u16 option \<times> MinidumpMemoryRegion \<times> minidump" where
  "GetMemoryAtAddress16 = GetMemoryAtAddressInternal u16_at"

definition GetMemoryAtAddress32 :: "u64 \<Rightarrow> MinidumpMemoryRegion \<Rightarrow> minidump \<Rightarrow> u32 option \<times> MinidumpMemoryRegion \<times> minidump" where
  "GetMemoryAtAddress32 = GetMemoryAtAddressInternal u32_at"

definition GetMemoryAtAddress64 :: "u64 \<Rightarrow> MinidumpMemoryRegion \<Rightarrow> minidump \<Rightarrow> u64 option \<times> MinidumpMemoryRegion \<times> minidump" where
  "GetMemoryAtAddress64 = GetMemoryAtAddressInternal u64_at"

text \<open>The region as the walkers see it.\<close>

definition walker_memory :: "MinidumpMemoryRegion \<Rightarrow> minidump \<Rightarrow> memory_region" where
  "walker_memory r d =
     \<lparr>region_base = Region_GetBase r, region_size = Region_GetSize r,
      read_u32 = (\<lambda>address. fst (GetMemoryAtAddress32 address r d)),
      read_u64 = (\<lambda>address. fst (GetMemoryAtAddress64 address r d))\<rparr>"

subsection \<open>The list\<close>

definition max_regions :: nat where "max_regions = 4096"

text \<open>
  The count at the head of a list and the check of the size of the stream, which may contain four
  bytes of padding: what the lists of threads, of modules and of regions have in common.  The
  sizes are computed in \<open>size_t\<close> and do not wrap.
\<close>

definition read_list_count :: "nat \<Rightarrow> u32 \<Rightarrow> minidump \<Rightarrow> nat option \<times> minidump" where
  "read_list_count entry_size expected_size d =
     (if unat expected_size < 4 then (None, d)
      else case read_u32_field d of
        (None, d) \<Rightarrow> (None, d)
      | (Some count, d) \<Rightarrow>
          if (2 ^ 32 - 1) div entry_size < unat count then (None, d)
          else if unat expected_size = 4 + unat count * entry_size then (Some (unat count), d)
          else if unat expected_size = 8 + unat count * entry_size then
            (case ReadBytes 4 d of
               (None, d) \<Rightarrow> (None, d)
             | (Some _, d) \<Rightarrow> (Some (unat count), d))
          else (None, d))"

fun store_regions ::
  "nat \<Rightarrow> MDMemoryDescriptor list \<Rightarrow> (u64, u32) range_map \<Rightarrow> (bool \<times> (u64, u32) range_map) run" where
  "store_regions i [] m = Some (True, m)"
| "store_regions i (desc # rest) m =
     (let base_address = start_of_memory_range desc; region_size = loc_size (memory_location desc) in
      if region_size = 0 \<or> - 1 - base_address < ucast region_size then Some (False, m)
      else do {
        (m, stored) \<leftarrow> StoreRange m base_address (ucast region_size) (of_nat i);
        if \<not> stored then Some (False, m) else store_regions (i + 1) rest m
      })"

definition MemoryList_Read :: "u32 \<Rightarrow> minidump \<Rightarrow> (md_stream option \<times> minidump) run" where
  "MemoryList_Read expected_size d =
     (let m = \<lparr>merge_strategy = kExclusiveRanges, rmap = []\<rparr> in
      case read_list_count 16 expected_size d of
        (None, d) \<Rightarrow> Some (None, d)
      | (Some region_count, d) \<Rightarrow>
          if max_regions < region_count then Some (None, d)
          else if region_count = 0 then
            Some (Some (Memory_list \<lparr>yl_range_map = m, yl_regions = [], yl_count = 0\<rparr>), d)
          else
            (case ReadBytes (16 * region_count) d of
               (None, d) \<Rightarrow> Some (None, d)
             | (Some bytes, d) \<Rightarrow>
                 let descriptors = map (\<lambda>i. MDMemoryDescriptor_at (md_swap d) bytes (16 * i)) [0..<region_count]
                 in do {
                   (ok, m) \<leftarrow> store_regions 0 descriptors m;
                   Some (if ok then
                       Some (Memory_list \<lparr>yl_range_map = m,
                         yl_regions = map (\<lambda>desc. SetDescriptor desc new_region) descriptors,
                         yl_count = of_nat region_count\<rparr>)
                     else None, d)
                 }))"

definition GetMemoryRegionAtIndex :: "MinidumpMemoryList \<Rightarrow> u32 \<Rightarrow> MinidumpMemoryRegion option" where
  "GetMemoryRegionAtIndex l index =
     (if yl_count l \<le> index then None else Some (yl_regions l ! unat index))"

definition GetMemoryRegionForAddress :: "MinidumpMemoryList \<Rightarrow> u64 \<Rightarrow> MinidumpMemoryRegion option" where
  "GetMemoryRegionForAddress l address =
     (case RetrieveRange (yl_range_map l) address of
        None \<Rightarrow> None
      | Some (region_index, _) \<Rightarrow> GetMemoryRegionAtIndex l region_index)"

definition GetMemoryList :: "minidump \<Rightarrow> (MinidumpMemoryList option \<times> minidump) run" where
  "GetMemoryList d =
     (case GetStream MD_MEMORY_LIST_STREAM MemoryList_Read d of
        Some (None, d) \<Rightarrow> Some (None, d)
      | Some (Some (Memory_list l), d) \<Rightarrow> Some (Some l, d)
      | _ \<Rightarrow> None)"

subsection \<open>The reads of a region do not disturb each other\<close>

lemma dump_swap_file [simp]: "dump_swap (d\<lparr>md_file := f\<rparr>) = dump_swap d"
  by (simp add: dump_swap_def)

lemma SeekSet_False_again:
  assumes "SeekSet offset d = (False, d')"
  shows "SeekSet offset d' = (False, d')"
  using assms by (auto simp: SeekSet_def istream_seek_def Let_def split: option.splits if_splits)

lemma SeekSet_True_again:
  assumes "SeekSet offset d = (True, d')"
  shows "SeekSet offset d' = (True, d')"
  using assms by (auto simp: SeekSet_def istream_seek_def Let_def split: option.splits if_splits)

lemma ReadBytes_fails_for_good:
  assumes "ReadBytes n d = (None, d')"
  shows "SeekSet offset d' = (False, d')"
  using assms
  by (auto simp: ReadBytes_def SeekSet_def istream_read_def istream_seek_def Let_def split: option.splits if_splits)

lemma SeekSet_swap: "SeekSet offset d = (ok, d') \<Longrightarrow> dump_swap d' = dump_swap d"
  using SeekSet_file by (metis dump_swap_file)

lemma ReadBytes_swap: "ReadBytes n d = (result, d') \<Longrightarrow> dump_swap d' = dump_swap d"
  using ReadBytes_file by (metis dump_swap_file)

lemma Region_GetMemory_again:
  assumes "Region_GetMemory r d = (result, r', d')"
  shows "fst (Region_GetMemory r' d') = result \<and> mr_descriptor r' = mr_descriptor r \<and>
    mr_valid r' = mr_valid r \<and> dump_swap d' = dump_swap d"
proof (cases "mr_valid r \<and> mr_memory r = None \<and> loc_size (memory_location (descriptor r)) \<noteq> 0")
  case False
  with assms show ?thesis by (auto simp: Region_GetMemory_def Let_def split: if_splits option.splits)
next
  case True
  let ?location = "memory_location (descriptor r)"
  obtain ok d1 where seek: "SeekSet (unat (loc_rva ?location)) d = (ok, d1)" by fastforce
  obtain bytes d2 where bytes: "ReadBytes (unat (loc_size ?location)) d1 = (bytes, d2)" by fastforce
  note swap = SeekSet_swap [OF seek] ReadBytes_swap [OF bytes]
  consider "\<not> ok" | "ok" "max_bytes < unat (loc_size ?location)" | "ok" "unat (loc_size ?location) \<le> max_bytes"
    by fastforce
  then show ?thesis
  proof cases
    case 1
    with seek have again: "SeekSet (unat (loc_rva ?location)) d1 = (False, d1)" by (simp add: SeekSet_False_again)
    from assms True seek 1 have "r' = r" "d' = d1" "result = None" by (simp_all add: Region_GetMemory_def Let_def)
    with True again swap show ?thesis by (simp add: Region_GetMemory_def Let_def)
  next
    case 2
    with seek have again: "SeekSet (unat (loc_rva ?location)) d1 = (True, d1)" by (simp add: SeekSet_True_again)
    from assms True seek 2 have "r' = r" "d' = d1" "result = None" by (simp_all add: Region_GetMemory_def Let_def)
    with True again swap 2 show ?thesis by (simp add: Region_GetMemory_def Let_def)
  next
    case 3
    show ?thesis
    proof (cases bytes)
      case None
      with bytes have again: "SeekSet (unat (loc_rva ?location)) d2 = (False, d2)"
        by (simp add: ReadBytes_fails_for_good)
      from assms True seek 3 bytes None have "r' = r" "d' = d2" "result = None"
        by (simp_all add: Region_GetMemory_def Let_def)
      with True again swap show ?thesis by (simp add: Region_GetMemory_def Let_def)
    next
      case (Some p)
      with assms True seek 3 bytes have "r' = r\<lparr>mr_memory := Some p\<rparr>" "d' = d2" "result = Some p"
        by (auto simp: Region_GetMemory_def Let_def)
      with True swap show ?thesis by (simp add: Region_GetMemory_def)
    qed
  qed
qed

lemma GetMemoryAtAddress_again:
  assumes "GetMemoryAtAddressInternal f a r d = (v, r', d')"
  shows "fst (GetMemoryAtAddressInternal g b r' d') = fst (GetMemoryAtAddressInternal g b r d) \<and>
    Region_GetBase r' = Region_GetBase r \<and> Region_GetSize r' = Region_GetSize r"
proof (cases "mr_valid r \<and> (v \<noteq> None \<or> (r', d') \<noteq> (r, d))")
  case False
  with assms show ?thesis
    by (auto simp: GetMemoryAtAddressInternal_def split: if_splits option.splits prod.splits)
next
  case True
  obtain result where memory: "Region_GetMemory r d = (result, r', d')"
    using assms True
    by (auto simp: GetMemoryAtAddressInternal_def split: if_splits option.splits prod.splits)
  note again = Region_GetMemory_again [OF memory]
  then have same: "out_of_region n b r' = out_of_region n b r" for n
    by (simp add: out_of_region_def descriptor_def)
  obtain result' r2 d2 where memory': "Region_GetMemory r' d' = (result', r2, d2)"
    by (cases "Region_GetMemory r' d'") auto
  note again' = Region_GetMemory_again [OF memory']
  show ?thesis
    using again again' by (auto simp: GetMemoryAtAddressInternal_def memory memory' same Region_GetBase_def
      Region_GetSize_def descriptor_def split: option.splits)
qed

text \<open>
  A read of a region leaves the walkers' view of the region as it was, whichever address is
  read and whether or not it succeeds; also when the read is the first one and fetches the bytes
  of the region from the file, or fails to.
\<close>

theorem walker_memory_stable:
  assumes "GetMemoryAtAddressInternal f a r d = (v, r', d')"
  shows "walker_memory r' d' = walker_memory r d"
  using GetMemoryAtAddress_again [OF assms, where g = u32_at] GetMemoryAtAddress_again [OF assms, where g = u64_at]
  by (simp add: walker_memory_def GetMemoryAtAddress32_def GetMemoryAtAddress64_def)

subsection \<open>What the reads give\<close>

text \<open>The bytes of a region in the file, when they are all there and not too many.\<close>

definition region_bytes :: "MinidumpMemoryRegion \<Rightarrow> char list \<Rightarrow> char list option" where
  "region_bytes r contents =
     (let location = memory_location (descriptor r); n = unat (loc_size location); rva = unat (loc_rva location) in
      if 0 < n \<and> n \<le> max_bytes \<and> rva + n \<le> length contents then Some (take n (drop rva contents)) else None)"

definition in_region :: "nat \<Rightarrow> u64 \<Rightarrow> MinidumpMemoryRegion \<Rightarrow> bool" where
  "in_region n address r =
     (unat (start_of_memory_range (descriptor r)) \<le> unat address \<and>
      unat address + n \<le> unat (start_of_memory_range (descriptor r)) + unat (loc_size (memory_location (descriptor r))))"

definition readable :: "minidump \<Rightarrow> char list \<Rightarrow> bool" where
  "readable d contents =
     (case md_file d of None \<Rightarrow> False | Some st \<Rightarrow> stream_data st = contents \<and> \<not> stream_failed st)"

lemma Region_GetMemory_bytes:
  assumes "mr_valid r" and "mr_memory r = None" and "readable d contents"
  shows "fst (Region_GetMemory r d) = region_bytes r contents"
proof -
  let ?location = "memory_location (descriptor r)"
  obtain st where st: "md_file d = Some st" "stream_data st = contents" "\<not> stream_failed st"
    using assms(3) by (auto simp: readable_def split: option.splits)
  have seek: "SeekSet offset d = (True, d\<lparr>md_file := Some (st\<lparr>stream_pos := offset\<rparr>)\<rparr>)" for offset
    using st by (simp add: SeekSet_def istream_seek_def)
  have bytes: "fst (ReadBytes n (d\<lparr>md_file := Some (st\<lparr>stream_pos := offset\<rparr>)\<rparr>)) =
      (if n \<le> length contents - offset then Some (take n (drop offset contents)) else None)" for n offset
    using st by (simp add: ReadBytes_def istream_read_def Let_def)
  let ?n = "unat (loc_size ?location)" and ?rva = "unat (loc_rva ?location)"
  obtain result d2 where run: "ReadBytes ?n (d\<lparr>md_file := Some (st\<lparr>stream_pos := ?rva\<rparr>)\<rparr>) = (result, d2)"
    by fastforce
  show ?thesis
  proof (cases "?n = 0")
    case True
    with assms(1,2) show ?thesis by (simp add: Region_GetMemory_def region_bytes_def unat_eq_zero)
  next
    case False
    then have "?n \<le> length contents - ?rva \<longleftrightarrow> ?rva + ?n \<le> length contents" by linarith
    with bytes [of ?n ?rva] run
    have "result = (if ?rva + ?n \<le> length contents then Some (take ?n (drop ?rva contents)) else None)" by simp
    with False run assms(1,2) show ?thesis
      by (auto simp: Region_GetMemory_def region_bytes_def seek Let_def unat_eq_zero)
  qed
qed

lemma range_fits_sum:
  assumes "range_fits desc"
  shows "unat (start_of_memory_range desc) + unat (loc_size (memory_location desc)) < 2 ^ 64"
proof -
  have "unat (loc_size (memory_location desc)) \<le> unat (- 1 - start_of_memory_range desc)"
    using assms by (simp add: range_fits_def word_le_nat_alt)
  also have "\<dots> = 2 ^ 64 - 1 - unat (start_of_memory_range desc)"
    by (subst unat_sub) (simp_all add: unsigned_minus_1_eq_mask mask_eq_exp_minus_1)
  finally show ?thesis using unsigned_less [of "start_of_memory_range desc", where ?'a = nat] by simp
qed

lemma out_of_region_iff:
  assumes fits: "range_fits (descriptor r)" and n: "n \<le> 8"
  shows "out_of_region n address r \<longleftrightarrow> \<not> in_region n address r"
proof -
  let ?base = "start_of_memory_range (descriptor r)" and ?size = "loc_size (memory_location (descriptor r))"
  have sum: "unat (?base + ucast ?size) = unat ?base + unat ?size"
    using range_fits_sum [OF fits] by (simp add: unat_word_ariths)
  have un: "unat (of_nat n :: u64) = n" using n by (simp add: unsigned_of_nat take_bit_nat_eq_self)
  have "unat (- 1 - address) = 2 ^ 64 - 1 - unat address"
    by (subst unat_sub) (simp_all add: unsigned_minus_1_eq_mask mask_eq_exp_minus_1)
  then have room: "- 1 - address < of_nat n \<longleftrightarrow> 2 ^ 64 \<le> unat address + n"
    using unsigned_less [of address, where ?'a = nat] by (auto simp: word_less_nat_alt un)
  show ?thesis
  proof (cases "unat address + n < 2 ^ 64")
    case True
    then have "unat (address + of_nat n) = unat address + n" by (simp add: unat_word_ariths un)
    with True show ?thesis
      unfolding out_of_region_def in_region_def room by (auto simp: word_less_nat_alt sum)
  next
    case False
    with range_fits_sum [OF fits] show ?thesis
      unfolding out_of_region_def in_region_def room by auto
  qed
qed

lemma region_reads:
  fixes read_at :: "bool \<Rightarrow> pointer \<Rightarrow> nat \<Rightarrow> 'a::len word"
  assumes desc: "range_fits desc" and there: "readable d contents" and width: "LENGTH('a) div 8 \<le> 8"
  shows "fst (GetMemoryAtAddressInternal read_at a (SetDescriptor desc new_region) d) =
    (if in_region (LENGTH('a) div 8) a (SetDescriptor desc new_region)
     then map_option (\<lambda>bytes. read_at (dump_swap d) bytes (unat a - unat (start_of_memory_range desc)))
       (region_bytes (SetDescriptor desc new_region) contents)
     else None)"
proof -
  let ?r = "SetDescriptor desc new_region"
  have r: "mr_valid ?r" "mr_memory ?r = None" "descriptor ?r = desc"
    using desc by (simp_all add: SetDescriptor_def new_region_def descriptor_def)
  obtain bytes r' d' where memory: "Region_GetMemory ?r d = (bytes, r', d')"
    by (cases "Region_GetMemory ?r d") auto
  have bytes: "bytes = region_bytes ?r contents"
    using Region_GetMemory_bytes [OF r(1,2) there] memory by simp
  note again = Region_GetMemory_again [OF memory]
  then have desc': "descriptor r' = desc" by (simp add: descriptor_def r(3) [unfolded descriptor_def])
  show ?thesis
  proof (cases "in_region (LENGTH('a) div 8) a ?r")
    case True
    then have "unat (a - start_of_memory_range desc) = unat a - unat (start_of_memory_range desc)"
      unfolding in_region_def r(3) by (intro unat_sub) (simp add: word_le_nat_alt)
    with True show ?thesis
      using out_of_region_iff [of ?r, OF _ width] desc again
      by (auto simp: GetMemoryAtAddressInternal_def r memory bytes desc' split: option.splits)
  next
    case False
    then show ?thesis
      using out_of_region_iff [of ?r, OF _ width] desc
      by (simp add: GetMemoryAtAddressInternal_def r)
  qed
qed

text \<open>
  C32: The words the walkers read from a region that was set up from a descriptor: a read succeeds
  exactly when all its bytes lie in the region and the file holds the region's bytes, of which
  there must be some and at most 64 MiB; then it is the word at its offset in those bytes, in the
  byte order of the dump.
\<close>

theorem walker_memory_contents:
  assumes "range_fits desc" and "readable d contents" and r: "r = SetDescriptor desc new_region"
  shows "read_u32 (walker_memory r d) a =
      (if in_region 4 a r
       then map_option (\<lambda>bytes. u32_at (dump_swap d) bytes (unat a - unat (start_of_memory_range desc)))
         (region_bytes r contents)
       else None) \<and>
     read_u64 (walker_memory r d) a =
      (if in_region 8 a r
       then map_option (\<lambda>bytes. u64_at (dump_swap d) bytes (unat a - unat (start_of_memory_range desc)))
         (region_bytes r contents)
       else None)"
  using region_reads [OF assms(1,2), where read_at = u32_at] region_reads [OF assms(1,2), where read_at = u64_at]
  by (simp_all add: r walker_memory_def GetMemoryAtAddress32_def GetMemoryAtAddress64_def)

subsection \<open>Looking up a region by address\<close>

definition region_entry :: "nat \<times> MDMemoryDescriptor \<Rightarrow> u64 \<times> (u64, u32) Range" where
  "region_entry = (\<lambda>(i, desc).
     (start_of_memory_range desc + (ucast (loc_size (memory_location desc)) - 1),
      \<lparr>r_base = start_of_memory_range desc, r_delta = 0, r_entry = of_nat i\<rparr>))"

definition good_region :: "MDMemoryDescriptor \<Rightarrow> bool" where
  "good_region desc = (loc_size (memory_location desc) \<noteq> 0 \<and> range_fits desc)"

lemma store_regions_run:
  assumes "range_map_ok m" and "merge_strategy m = kExclusiveRanges"
  shows "\<exists>ok m'. store_regions i descs m = Some (ok, m') \<and> range_map_ok m' \<and>
    (ok \<longrightarrow> (\<forall>desc\<in>set descs. good_region desc) \<and>
      set (rmap m') = set (rmap m) \<union> region_entry ` set (enumerate i descs))"
  using assms
proof (induction descs arbitrary: i m)
  case (Cons desc rest)
  let ?base = "start_of_memory_range desc" and ?size = "loc_size (memory_location desc)"
  obtain m' stored where store: "StoreRange m ?base (ucast ?size) (of_nat i) = Some (m', stored)"
    "range_map_ok m'" "merge_strategy m' = kExclusiveRanges"
    "stored \<longrightarrow> set (rmap m') = insert (region_entry (i, desc)) (set (rmap m))"
    using store_exclusive_run [OF Cons.prems, of ?base "ucast ?size" "of_nat i"]
    by (auto simp: region_entry_def split: if_splits)
  obtain ok m2 where rest: "store_regions (i + 1) rest m' = Some (ok, m2)" "range_map_ok m2"
    "ok \<longrightarrow> (\<forall>desc\<in>set rest. good_region desc) \<and>
      set (rmap m2) = set (rmap m') \<union> region_entry ` set (enumerate (i + 1) rest)"
    using Cons.IH [OF store(2,3), of "i + 1"] by blast
  show ?case
  proof (cases "stored \<and> good_region desc")
    case True
    then have "\<not> (?size = 0 \<or> - 1 - ?base < ucast ?size)" by (auto simp: good_region_def range_fits_def)
    with True store(1,4) rest show ?thesis by (auto simp: Let_def)
  next
    case False
    with Cons.prems store(1,2) show ?thesis
      by (auto simp: Let_def good_region_def range_fits_def)
  qed
qed auto

lemma last_of_region:
  assumes "good_region desc"
  shows "start_of_memory_range desc \<le> a \<and>
      a \<le> start_of_memory_range desc + (ucast (loc_size (memory_location desc)) - 1) \<longleftrightarrow>
    in_region 1 a (SetDescriptor desc new_region)"
proof -
  let ?base = "start_of_memory_range desc" and ?size = "loc_size (memory_location desc)"
  have size: "0 < unat ?size" using assms by (simp add: good_region_def unat_gt_0)
  then have "unat (ucast ?size - 1 :: u64) = unat ?size - 1"
    by (subst unat_sub) (simp_all add: word_le_nat_alt)
  moreover have "unat ?base + unat ?size < 2 ^ 64" using assms range_fits_sum by (simp add: good_region_def)
  ultimately have "unat (?base + (ucast ?size - 1)) = unat ?base + (unat ?size - 1)"
    using size by (simp add: unat_word_ariths)
  with size show ?thesis
    by (auto simp: in_region_def word_le_nat_alt SetDescriptor_def new_region_def descriptor_def)
qed

definition memory_list_ok :: "MinidumpMemoryList \<Rightarrow> bool" where
  "memory_list_ok l =
     (\<exists>descs. range_map_ok (yl_range_map l) \<and> (\<forall>desc\<in>set descs. good_region desc) \<and>
        length descs \<le> max_regions \<and> yl_count l = of_nat (length descs) \<and>
        yl_regions l = map (\<lambda>desc. SetDescriptor desc new_region) descs \<and>
        set (rmap (yl_range_map l)) = region_entry ` set (enumerate 0 descs))"

lemma MemoryList_Read_total:
  "\<exists>result d'. MemoryList_Read expected_size d = Some (result, d') \<and>
     (\<forall>st. result = Some st \<longrightarrow> (\<exists>l. st = Memory_list l \<and> memory_list_ok l))"
proof -
  let ?m = "\<lparr>merge_strategy = kExclusiveRanges, rmap = []\<rparr> :: (u64, u32) range_map"
  have ok: "range_map_ok ?m" by (simp add: range_map_ok_def)
  obtain n d1 where count: "read_list_count 16 expected_size d = (n, d1)" by fastforce
  show ?thesis
  proof (cases n)
    case None
    with count show ?thesis by (simp add: MemoryList_Read_def)
  next
    case (Some region_count)
    obtain bytes d2 where bytes: "ReadBytes (16 * region_count) d1 = (bytes, d2)" by fastforce
    let ?descs = "\<lambda>bytes. map (\<lambda>i. MDMemoryDescriptor_at (md_swap d2) bytes (16 * i)) [0..<region_count]"
    consider "max_regions < region_count" | "region_count = 0" |
      "0 < region_count" "region_count \<le> max_regions" "bytes = None" |
      p where "0 < region_count" "region_count \<le> max_regions" "bytes = Some p"
      by (metis bot_nat_0.not_eq_extremum not_less option.exhaust)
    then show ?thesis
    proof cases
      case 2
      with ok show ?thesis
        by (auto simp: MemoryList_Read_def count Some memory_list_ok_def intro!: exI [of _ "[]"])
    next
      case 4
      obtain stored m' where run: "store_regions 0 (?descs p) ?m = Some (stored, m')" "range_map_ok m'"
        "stored \<longrightarrow> (\<forall>desc\<in>set (?descs p). good_region desc) \<and>
          set (rmap m') = region_entry ` set (enumerate 0 (?descs p))"
        using store_regions_run [OF ok, of 0 "?descs p"] by auto
      then have "stored \<Longrightarrow> memory_list_ok \<lparr>yl_range_map = m',
          yl_regions = map (\<lambda>desc. SetDescriptor desc new_region) (?descs p), yl_count = of_nat region_count\<rparr>"
        unfolding memory_list_ok_def using 4 by (intro exI [of _ "?descs p"]) simp
      with run(1) 4 bytes show ?thesis by (simp add: MemoryList_Read_def count Some Let_def)
    qed (simp_all add: MemoryList_Read_def count Some bytes Let_def)
  qed
qed

text \<open>What the index holds for the region at an index of the list.\<close>

lemma memory_list_entry:
  assumes "memory_list_ok l"
  shows "range_map_ok (yl_range_map l)" and "length (yl_regions l) < 2 ^ 32"
    and "yl_count l = of_nat (length (yl_regions l))"
    and "j < length (yl_regions l) \<Longrightarrow> in_region 1 a (yl_regions l ! j) \<Longrightarrow>
      \<exists>p. range_of (rmap (yl_range_map l)) a = Some p \<and> r_entry (snd p) = of_nat j"
    and "range_of (rmap (yl_range_map l)) a = Some p \<Longrightarrow>
      \<exists>j<length (yl_regions l). in_region 1 a (yl_regions l ! j)"
proof -
  obtain descs where ok: "range_map_ok (yl_range_map l)" and good: "\<forall>desc\<in>set descs. good_region desc"
    and count: "length descs \<le> max_regions" "yl_count l = of_nat (length descs)"
    and regions: "yl_regions l = map (\<lambda>desc. SetDescriptor desc new_region) descs"
    and entries: "set (rmap (yl_range_map l)) = region_entry ` set (enumerate 0 descs)"
    using assms unfolding memory_list_ok_def by blast
  show "range_map_ok (yl_range_map l)" by (rule ok)
  show "length (yl_regions l) < 2 ^ 32" "yl_count l = of_nat (length (yl_regions l))"
    using count by (simp_all add: max_regions_def regions)
  have inside: "r_base (snd (region_entry (j, descs ! j))) \<le> a \<and> a \<le> fst (region_entry (j, descs ! j)) \<longleftrightarrow>
      in_region 1 a (yl_regions l ! j)" if "j < length descs" for j
    using last_of_region [of "descs ! j" a] good that by (simp add: region_entry_def regions)
  show "\<exists>p. range_of (rmap (yl_range_map l)) a = Some p \<and> r_entry (snd p) = of_nat j"
    if "j < length (yl_regions l)" "in_region 1 a (yl_regions l ! j)"
  proof -
    from that have j: "j < length descs" by (simp add: regions)
    then have "region_entry (j, descs ! j) \<in> set (rmap (yl_range_map l))"
      unfolding entries by (force simp: in_set_enumerate_eq)
    then have "range_of (rmap (yl_range_map l)) a = Some (region_entry (j, descs ! j))"
      using ok inside [OF j] that(2) unfolding range_map_ok_def by (subst range_of_iff) auto
    then show ?thesis by (simp add: region_entry_def)
  qed
  show "\<exists>j<length (yl_regions l). in_region 1 a (yl_regions l ! j)"
    if found: "range_of (rmap (yl_range_map l)) a = Some p"
  proof -
    obtain j where "j < length descs" "p = region_entry (j, descs ! j)"
      using range_of_SomeD [OF found] unfolding entries by (auto simp: in_set_enumerate_eq)
    then show ?thesis using range_of_SomeD [OF found] inside by (intro exI [of _ j]) (simp add: regions)
  qed
qed

lemma regions_disjoint:
  assumes ok: "memory_list_ok l" and j: "j < length (yl_regions l)" "in_region 1 a (yl_regions l ! j)"
    and k: "k < length (yl_regions l)" "in_region 1 a (yl_regions l ! k)"
  shows "j = k"
proof -
  have "(of_nat j :: u32) = of_nat k"
    using memory_list_entry(4) [OF ok j] memory_list_entry(4) [OF ok k] by auto
  moreover have "unat (of_nat j :: u32) = j" "unat (of_nat k :: u32) = k"
    using j(1) k(1) memory_list_entry(2) [OF ok] by (simp_all add: unat_nat32)
  ultimately show ?thesis by metis
qed

lemma GetMemoryRegionForAddress_find:
  assumes ok: "memory_list_ok l"
  shows "GetMemoryRegionForAddress l a = find (in_region 1 a) (yl_regions l)"
proof -
  note facts = memory_list_entry [OF ok]
  show ?thesis
  proof (cases "find (in_region 1 a) (yl_regions l)")
    case (Some r)
    then obtain j where j: "j < length (yl_regions l)" "in_region 1 a (yl_regions l ! j)" "r = yl_regions l ! j"
      by (auto simp: find_Some_iff)
    then obtain p where "range_of (rmap (yl_range_map l)) a = Some p" and entry: "r_entry (snd p) = of_nat j"
      using facts(4) by blast
    then have "RetrieveRange (yl_range_map l) a = Some (range_outputs p)"
      by (simp add: RetrieveRange_range_of [OF facts(1)])
    moreover have "(of_nat j :: u32) < yl_count l" "unat (of_nat j :: u32) = j"
      using j(1) facts(2) unfolding facts(3) by (simp_all add: word_less_nat_alt unat_nat32)
    ultimately show ?thesis
      using j Some entry by (simp add: GetMemoryRegionForAddress_def GetMemoryRegionAtIndex_def range_outputs_def)
  next
    case None
    then have "\<not> in_region 1 a (yl_regions l ! j)" if "j < length (yl_regions l)" for j
      using that by (auto simp: find_None_iff)
    then have "range_of (rmap (yl_range_map l)) a = None"
      using facts(5) [of a] by (cases "range_of (rmap (yl_range_map l)) a") blast+
    then show ?thesis
      using None by (simp add: GetMemoryRegionForAddress_def RetrieveRange_range_of [OF facts(1)])
  qed
qed

text \<open>
  C33: Reading the memory list returns for every file.  When it gives a list, looking up an
  address in it is a search for the first region that holds the address, and no two of the
  regions hold the same address.
\<close>

theorem MemoryList_Read_lookup:
  "\<exists>result d'. MemoryList_Read expected_size d = Some (result, d') \<and>
     (\<forall>st. result = Some st \<longrightarrow>
        (\<exists>l. st = Memory_list l \<and>
           (\<forall>a. GetMemoryRegionForAddress l a = find (in_region 1 a) (yl_regions l) \<and>
             length (filter (in_region 1 a) (yl_regions l)) \<le> 1)))"
proof -
  have "length (filter P xs) \<le> 1" if "\<And>j k. j < length xs \<Longrightarrow> k < length xs \<Longrightarrow> P (xs ! j) \<Longrightarrow> P (xs ! k) \<Longrightarrow> j = k"
    for P and xs :: "MinidumpMemoryRegion list"
  proof -
    have "card {i. i < length xs \<and> P (xs ! i)} \<le> 1"
      using that by (intro card_le_Suc0_iff_eq [THEN iffD2, unfolded One_nat_def [symmetric]]) auto
    then show ?thesis by (simp only: length_filter_conv_card)
  qed
  then show ?thesis
    using MemoryList_Read_total [of expected_size d] GetMemoryRegionForAddress_find regions_disjoint by metis
qed

subsection \<open>An example\<close>

definition sample_descriptor :: MDMemoryDescriptor where
  "sample_descriptor = \<lparr>start_of_memory_range = 0x1000, memory_location = \<lparr>loc_size = 8, loc_rva = 20\<rparr>\<rparr>"

definition sample_regions :: "char list" where
  "sample_regions = file_bytes True (1 :: u32) @ memory_descriptor_bytes True sample_descriptor @
     file_bytes True (0x11223344 :: u32) @ file_bytes True (0x55667788 :: u32)"

definition sample_dump :: "char list \<Rightarrow> minidump" where
  "sample_dump contents = (new_Minidump [] (Some (opened contents)))\<lparr>md_swap := True, md_valid := True\<rparr>"

lemma sample_dump_simps [simp]:
  "md_file (sample_dump contents) = Some (opened contents)" "md_swap (sample_dump contents)"
  "md_valid (sample_dump contents)" "dump_swap (sample_dump contents)" "readable (sample_dump contents) contents"
  by (simp_all add: sample_dump_def new_Minidump_def dump_swap_def readable_def opened_def)

lemma sample_region_facts:
  "range_fits sample_descriptor"
  "descriptor (SetDescriptor sample_descriptor new_region) = sample_descriptor"
  "region_bytes (SetDescriptor sample_descriptor new_region) sample_regions =
     Some (file_bytes True (0x11223344 :: u32) @ file_bytes True (0x55667788 :: u32))"
proof -
  show desc: "descriptor (SetDescriptor sample_descriptor new_region) = sample_descriptor"
    by (simp add: SetDescriptor_def descriptor_def)
  show "range_fits sample_descriptor" by (simp add: range_fits_def sample_descriptor_def)
  show "region_bytes (SetDescriptor sample_descriptor new_region) sample_regions =
     Some (file_bytes True (0x11223344 :: u32) @ file_bytes True (0x55667788 :: u32))"
    unfolding region_bytes_def desc
    by (simp add: sample_descriptor_def sample_regions_def max_bytes_def)
qed

theorem walker_memory_contents_witness:
  "read_u32 (walker_memory (SetDescriptor sample_descriptor new_region) (sample_dump sample_regions)) 0x1004 =
     Some 0x55667788 \<and>
   read_u32 (walker_memory (SetDescriptor sample_descriptor new_region) (sample_dump sample_regions)) 0x1005 = None"
proof -
  let ?r = "SetDescriptor sample_descriptor new_region" and ?d = "sample_dump sample_regions"
  have read: "read_u32 (walker_memory ?r ?d) a =
      (if in_region 4 a ?r
       then map_option (\<lambda>bytes. u32_at (dump_swap ?d) bytes (unat a - unat (start_of_memory_range sample_descriptor)))
         (region_bytes ?r sample_regions)
       else None)" for a
    by (rule walker_memory_contents [OF sample_region_facts(1) sample_dump_simps(5) refl, THEN conjunct1])
  show ?thesis
    using read [of "0x1004"] read [of "0x1005"]
    by (simp add: sample_region_facts field_simps in_region_def)
       (simp add: sample_descriptor_def field_simps)
qed

theorem walker_memory_stable_witness:
  "\<exists>v r' d'. GetMemoryAtAddressInternal u32_at 0x1004 (SetDescriptor sample_descriptor new_region)
      (sample_dump sample_regions) = (v, r', d') \<and>
     walker_memory r' d' = walker_memory (SetDescriptor sample_descriptor new_region) (sample_dump sample_regions)"
proof -
  obtain v r' d' where read: "GetMemoryAtAddressInternal u32_at 0x1004 (SetDescriptor sample_descriptor new_region)
      (sample_dump sample_regions) = (v, r', d')" by (metis prod_cases3)
  with walker_memory_stable [OF this] show ?thesis by blast
qed

theorem MemoryList_Read_lookup_witness:
  "\<exists>l d'. MemoryList_Read 20 (sample_dump sample_regions) = Some (Some (Memory_list l), d') \<and>
     GetMemoryRegionForAddress l 0x1007 = Some (SetDescriptor sample_descriptor new_region) \<and>
     GetMemoryRegionForAddress l 0x1008 = None"
proof -
  let ?st = "opened sample_regions"
  have st: "\<not> stream_failed ?st" "stream_pos ?st = 0" "stream_data ?st = sample_regions" by (simp_all add: opened_def)
  let ?rest = "file_bytes True (0x11223344 :: u32) @ file_bytes True (0x55667788 :: u32)"
  have "ReadBytes 4 (sample_dump sample_regions) =
      (Some (file_bytes True (1 :: u32)), at_position (stream_pos ?st + 4) ?st (sample_dump sample_regions))"
    by (rule ReadBytes_between [where pre = "[]" and post = "memory_descriptor_bytes True sample_descriptor @ ?rest"])
       (simp_all add: st, simp add: sample_regions_def)
  then have count: "read_list_count 16 20 (sample_dump sample_regions) =
      (Some 1, at_position 4 ?st (sample_dump sample_regions))"
    by (simp add: read_list_count_def read_u32_field_def field_at_start at_position_def st)
  let ?d = "at_position 4 ?st (sample_dump sample_regions)"
  have "ReadBytes 16 ?d = (Some (memory_descriptor_bytes True sample_descriptor),
      at_position (stream_pos (?st\<lparr>stream_pos := 4\<rparr>) + 16) (?st\<lparr>stream_pos := 4\<rparr>) ?d)"
    by (rule ReadBytes_between [where pre = "file_bytes True (1 :: u32)" and post = ?rest])
       (simp_all add: st at_position_def, simp add: sample_regions_def)
  moreover have "MDMemoryDescriptor_at True (memory_descriptor_bytes True sample_descriptor) 0 = sample_descriptor"
    using records_at_file(2) [of True "[]" sample_descriptor "[]"] by simp
  moreover obtain m where "store_regions 0 [sample_descriptor] \<lparr>merge_strategy = kExclusiveRanges, rmap = []\<rparr> = Some (True, m)"
    by (simp add: sample_descriptor_def store_eval)
  ultimately obtain l d' where read: "MemoryList_Read 20 (sample_dump sample_regions) = Some (Some (Memory_list l), d')"
    and l: "yl_regions l = [SetDescriptor sample_descriptor new_region]"
    by (simp add: MemoryList_Read_def count max_regions_def at_position_def)
  have "find (in_region 1 0x1007) (yl_regions l) = Some (SetDescriptor sample_descriptor new_region)"
    "find (in_region 1 0x1008) (yl_regions l) = None"
    unfolding l by (simp_all add: in_region_def sample_region_facts) (simp_all add: sample_descriptor_def)
  with MemoryList_Read_lookup [of 20 "sample_dump sample_regions"] read show ?thesis by auto
qed

end
