(* ===== verification/Minidump_Context.thy ===== *)
theory Minidump_Context
  imports Minidump_File
begin

text \<open>
  \<open>MinidumpContext\<close>: the processor state of a thread.  The raw structure of each processor
  is read from the file, its words are swapped when the byte order asks for it, and the result is
  one of the members of the union of \<open>DumpContext\<close>.
\<close>

subsection \<open>The raw structures\<close>

definition sizeof_ContextX86 :: nat where "sizeof_ContextX86 = 716"
definition sizeof_ContextPPC :: nat where "sizeof_ContextPPC = 1004"
definition sizeof_ContextPPC64 :: nat where "sizeof_ContextPPC64 = 1160"
definition sizeof_ContextAMD64 :: nat where "sizeof_ContextAMD64 = 1232"
definition sizeof_ContextSPARC :: nat where "sizeof_ContextSPARC = 584"
definition sizeof_ContextARM :: nat where "sizeof_ContextARM = 368"
definition sizeof_ContextARM64 :: nat where "sizeof_ContextARM64 = 912"
definition sizeof_ContextARM64_Old :: nat where "sizeof_ContextARM64_Old = 796"
definition sizeof_ContextMIPS :: nat where "sizeof_ContextMIPS = 600"

lemmas context_sizes = sizeof_ContextX86_def sizeof_ContextPPC_def sizeof_ContextPPC64_def
  sizeof_ContextAMD64_def sizeof_ContextSPARC_def sizeof_ContextARM_def sizeof_ContextARM64_def
  sizeof_ContextARM64_Old_def sizeof_ContextMIPS_def

definition IsContextSizeUnique :: "nat \<Rightarrow> bool" where
  "IsContextSizeUnique context_size =
     (length (filter (\<lambda>n. context_size = n)
        [sizeof_ContextX86, sizeof_ContextPPC, sizeof_ContextPPC64, sizeof_ContextAMD64, sizeof_ContextSPARC,
         sizeof_ContextARM, sizeof_ContextARM64, sizeof_ContextARM64_Old, sizeof_ContextMIPS]) = 1)"

text \<open>
  A part of a structure that is kept as bytes: \<open>ws\<close> are the offsets and widths of the
  words in it that are swapped.
\<close>

definition swap_fields :: "bool \<Rightarrow> (nat \<times> nat) list \<Rightarrow> char list \<Rightarrow> char list" where
  "swap_fields swap ws p = (if swap then fold (\<lambda>(i, n). swap_chunk i n) ws p else p)"

definition area :: "pointer \<Rightarrow> nat \<Rightarrow> nat \<Rightarrow> char list" where
  "area p i n = take n (drop i p)"

definition area_bytes :: "char list \<Rightarrow> u8 list" where
  "area_bytes = map of_char"

definition word_fields :: "nat \<Rightarrow> nat \<Rightarrow> nat \<Rightarrow> (nat \<times> nat) list" where
  "word_fields i width count = map (\<lambda>j. (i + width * j, width)) [0..<count]"

text \<open>\<open>Normalize128\<close> exchanges the halves of a little-endian 128-bit value.\<close>

definition Normalize128 :: "bool \<Rightarrow> nat \<Rightarrow> char list \<Rightarrow> char list" where
  "Normalize128 big_endian i p =
     (if big_endian then p
      else take i p @ take 8 (drop (i + 8) p) @ take 8 (drop i p) @ drop (i + 16) p)"

definition normalize_all :: "bool \<Rightarrow> nat \<Rightarrow> char list \<Rightarrow> char list" where
  "normalize_all big_endian count p = fold (\<lambda>j. Normalize128 big_endian (16 * j)) [0..<count] p"

definition MDRawContextX86_at :: "bool \<Rightarrow> u32 \<Rightarrow> pointer \<Rightarrow> MDRawContextX86" where
  "MDRawContextX86_at swap flags p =
     \<lparr>context_flags = flags, dr0 = u32_at swap p 4, dr1 = u32_at swap p 8, dr2 = u32_at swap p 12,
      dr3 = u32_at swap p 16, dr6 = u32_at swap p 20, dr7 = u32_at swap p 24,
      float_save = area_bytes (swap_fields swap (word_fields 0 4 7 @ [(108, 4)]) (area p 28 112)),
      seg_gs = u32_at swap p 140, seg_fs = u32_at swap p 144, seg_es = u32_at swap p 148,
      seg_ds = u32_at swap p 152, edi = u32_at swap p 156, esi = u32_at swap p 160, ebx = u32_at swap p 164,
      edx = u32_at swap p 168, ecx = u32_at swap p 172, eax = u32_at swap p 176, ebp = u32_at swap p 180,
      eip = u32_at swap p 184, seg_cs = u32_at swap p 188, eflags = u32_at swap p 192,
      esp = u32_at swap p 196, seg_ss = u32_at swap p 200, extended_registers = area_bytes (area p 204 512)\<rparr>"

text \<open>The float and vector areas of the two PowerPC structures.\<close>

definition ppc_float_fields :: "(nat \<times> nat) list" where
  "ppc_float_fields = word_fields 0 8 32 @ [(260, 4)]"

definition ppc_vector_fields :: "(nat \<times> nat) list" where
  "ppc_vector_fields = word_fields 0 8 64 @ word_fields 512 8 2 @ [(544, 4)]"

definition MDRawContextPPC_at :: "bool \<Rightarrow> u32 \<Rightarrow> pointer \<Rightarrow> MDRawContextPPC" where
  "MDRawContextPPC_at swap flags p =
     \<lparr>ppc_context_flags = flags, ppc_srr0 = u32_at swap p 4, ppc_srr1 = u32_at swap p 8,
      ppc_gpr = (\<lambda>i. u32_at swap p (12 + 4 * i)), ppc_cr = u32_at swap p 140, ppc_xer = u32_at swap p 144,
      ppc_lr = u32_at swap p 148, ppc_ctr = u32_at swap p 152, ppc_mq = u32_at swap p 156,
      ppc_vrsave = u32_at swap p 160,
      ppc_float_save = area_bytes (swap_fields swap ppc_float_fields (area p 164 264)),
      ppc_vector_save =
        area_bytes (swap_fields swap ppc_vector_fields (normalize_all True 32 (area p 428 576)))\<rparr>"

definition MDRawContextPPC64_at :: "bool \<Rightarrow> u64 \<Rightarrow> pointer \<Rightarrow> MDRawContextPPC64" where
  "MDRawContextPPC64_at swap flags p =
     \<lparr>ppc64_context_flags = flags, ppc64_srr0 = u64_at swap p 8, ppc64_srr1 = u64_at swap p 16,
      ppc64_gpr = (\<lambda>i. u64_at swap p (24 + 8 * i)), ppc64_cr = u64_at swap p 280,
      ppc64_xer = u64_at swap p 288, ppc64_lr = u64_at swap p 296, ppc64_ctr = u64_at swap p 304,
      ppc64_vrsave = u64_at swap p 312,
      ppc64_float_save = area_bytes (swap_fields swap ppc_float_fields (area p 320 264)),
      ppc64_vector_save = area_bytes (swap_fields swap ppc_vector_fields
        (if swap then normalize_all True 32 (area p 584 576) else area p 584 576))\<rparr>"

text \<open>\<open>gs\<close> and the \<open>flt_save\<close> area are not swapped.\<close>

definition MDRawContextAMD64_at :: "bool \<Rightarrow> u32 \<Rightarrow> pointer \<Rightarrow> MDRawContextAMD64" where
  "MDRawContextAMD64_at swap flags p =
     \<lparr>p1_home = u64_at swap p 0, p2_home = u64_at swap p 8, p3_home = u64_at swap p 16,
      p4_home = u64_at swap p 24, p5_home = u64_at swap p 32, p6_home = u64_at swap p 40,
      amd64_context_flags = flags, mx_csr = u32_at swap p 52, amd64_cs = u16_at swap p 56,
      amd64_ds = u16_at swap p 58, amd64_es = u16_at swap p 60, amd64_fs = u16_at swap p 62,
      amd64_gs = word_at p 64, amd64_ss = u16_at swap p 66, amd64_eflags = u32_at swap p 68,
      amd64_dr0 = u64_at swap p 72, amd64_dr1 = u64_at swap p 80, amd64_dr2 = u64_at swap p 88,
      amd64_dr3 = u64_at swap p 96, amd64_dr6 = u64_at swap p 104, amd64_dr7 = u64_at swap p 112,
      rax = u64_at swap p 120, rcx = u64_at swap p 128, rdx = u64_at swap p 136, rbx = u64_at swap p 144,
      rsp = u64_at swap p 152, rbp = u64_at swap p 160, rsi = u64_at swap p 168, rdi = u64_at swap p 176,
      r8 = u64_at swap p 184, r9 = u64_at swap p 192, r10 = u64_at swap p 200, r11 = u64_at swap p 208,
      r12 = u64_at swap p 216, r13 = u64_at swap p 224, r14 = u64_at swap p 232, r15 = u64_at swap p 240,
      rip = u64_at swap p 248, flt_save = area_bytes (area p 256 512),
      vector_register = area_bytes (swap_fields swap (word_fields 0 8 52) (normalize_all False 26 (area p 768 416))),
      vector_control = u64_at swap p 1184, debug_control = u64_at swap p 1192,
      last_branch_to_rip = u64_at swap p 1200, last_branch_from_rip = u64_at swap p 1208,
      last_exception_to_rip = u64_at swap p 1216, last_exception_from_rip = u64_at swap p 1224\<rparr>"

definition MDRawContextSPARC_at :: "bool \<Rightarrow> u32 \<Rightarrow> pointer \<Rightarrow> MDRawContextSPARC" where
  "MDRawContextSPARC_at swap flags p =
     \<lparr>sparc_context_flags = flags, sparc_flag_pad = word_at p 4, g_r = (\<lambda>i. u64_at swap p (8 + 8 * i)),
      sparc_ccr = u64_at swap p 264, sparc_pc = u64_at swap p 272, sparc_npc = u64_at swap p 280,
      sparc_y = u64_at swap p 288, sparc_asi = u64_at swap p 296, sparc_fprs = u64_at swap p 304,
      sparc_float_save = area_bytes (swap_fields swap (word_fields 0 8 34) (area p 312 272))\<rparr>"

text \<open>The registers, the status word and the float area of ARM are words behind each other.\<close>

definition arm_fields :: "(nat \<times> nat) list" where
  "arm_fields = word_fields 4 4 16 @ [(68, 4), (72, 8)] @ word_fields 80 8 32 @ word_fields 336 4 8"

definition MDRawContextARM_at :: "bool \<Rightarrow> u32 \<Rightarrow> pointer \<Rightarrow> MDRawContextARM" where
  "MDRawContextARM_at swap flags p =
     \<lparr>arm_context_flags = flags, arm_iregs = (\<lambda>i. word_at (swap_fields swap arm_fields p) (4 + 4 * i))\<rparr>"

definition arm64_vectors :: "bool \<Rightarrow> bool \<Rightarrow> char list \<Rightarrow> char list" where
  "arm64_vectors swap big_endian p =
     (if swap then swap_fields True (word_fields 0 8 64) (normalize_all big_endian 32 p) else p)"

definition MDRawContextARM64_at :: "bool \<Rightarrow> bool \<Rightarrow> u32 \<Rightarrow> pointer \<Rightarrow> MDRawContextARM64" where
  "MDRawContextARM64_at swap big_endian flags p =
     \<lparr>arm64_context_flags = flags, arm64_cpsr = u32_at swap p 4, arm64_iregs = (\<lambda>i. u64_at swap p (8 + 8 * i)),
      arm64_float_save = area_bytes (arm64_vectors swap big_endian (area p 272 512) @
        swap_fields swap (word_fields 0 4 2) (area p 784 8)),
      arm64_debug = area_bytes (area p 792 120)\<rparr>"

record MDRawContextARM64_Old =
  old_context_flags :: u64
  old_iregs :: "nat \<Rightarrow> u64"
  old_cpsr :: u32
  old_fpsr :: u32
  old_fpcr :: u32
  old_regs :: "char list"

definition MDRawContextARM64_Old_at :: "bool \<Rightarrow> bool \<Rightarrow> u64 \<Rightarrow> pointer \<Rightarrow> MDRawContextARM64_Old" where
  "MDRawContextARM64_Old_at swap big_endian flags p =
     \<lparr>old_context_flags = flags, old_iregs = (\<lambda>i. u64_at swap p (8 + 8 * i)), old_cpsr = u32_at swap p 272,
      old_fpsr = u32_at swap p 276, old_fpcr = u32_at swap p 280,
      old_regs = arm64_vectors swap big_endian (area p 284 512)\<rparr>"

definition MD_CONTEXT_ARM64_CONTROL :: u32 where "MD_CONTEXT_ARM64_CONTROL = MD_CONTEXT_ARM64 OR 1"
definition MD_CONTEXT_ARM64_INTEGER :: u32 where "MD_CONTEXT_ARM64_INTEGER = MD_CONTEXT_ARM64 OR 2"
definition MD_CONTEXT_ARM64_FLOATING_POINT :: u32 where "MD_CONTEXT_ARM64_FLOATING_POINT = MD_CONTEXT_ARM64 OR 4"
definition MD_CONTEXT_ARM64_INTEGER_OLD :: u32 where "MD_CONTEXT_ARM64_INTEGER_OLD = MD_CONTEXT_ARM64_OLD OR 2"
definition MD_CONTEXT_ARM64_FLOATING_POINT_OLD :: u32 where
  "MD_CONTEXT_ARM64_FLOATING_POINT_OLD = MD_CONTEXT_ARM64_OLD OR 4"

text \<open>A test with \<open>&\<close> of a mask with several bits holds when one of them is set.\<close>

definition ConvertOldARM64Context :: "MDRawContextARM64_Old \<Rightarrow> MDRawContextARM64" where
  "ConvertOldARM64Context old =
     (let flags = MD_CONTEXT_ARM64;
          flags = (if old_context_flags old AND ucast MD_CONTEXT_ARM64_INTEGER_OLD \<noteq> 0
            then flags OR (MD_CONTEXT_ARM64_INTEGER OR MD_CONTEXT_ARM64_CONTROL) else flags);
          flags = (if old_context_flags old AND ucast MD_CONTEXT_ARM64_FLOATING_POINT_OLD \<noteq> 0
            then flags OR MD_CONTEXT_ARM64_FLOATING_POINT else flags) in
      \<lparr>arm64_context_flags = flags, arm64_cpsr = old_cpsr old, arm64_iregs = old_iregs old,
       arm64_float_save = area_bytes (old_regs old @ Raw_Memory.word_bytes (old_fpcr old) @
         Raw_Memory.word_bytes (old_fpsr old)),
       arm64_debug = replicate 120 0\<rparr>)"

definition MDRawContextMIPS_at :: "bool \<Rightarrow> u32 \<Rightarrow> pointer \<Rightarrow> MDRawContextMIPS" where
  "MDRawContextMIPS_at swap flags p =
     \<lparr>mips_context_flags = flags, mips_iregs = (\<lambda>i. u64_at swap p (8 + 8 * i)),
      mips_mdhi = u64_at swap p 264, mips_mdlo = u64_at swap p 272,
      mips_dsp = area_bytes (swap_fields swap (word_fields 0 4 7) (area p 280 32)),
      mips_epc = u64_at swap p 312, mips_badvaddr = u64_at swap p 320, mips_status = u32_at swap p 328,
      mips_cause = u32_at swap p 332,
      mips_float_save = area_bytes (swap_fields swap (word_fields 0 8 32 @ word_fields 256 4 2) (area p 336 264))\<rparr>"

subsection \<open>Reading a context\<close>

definition expected_architectures :: "u32 \<Rightarrow> u16 list" where
  "expected_architectures cpu =
     (if cpu = MD_CONTEXT_X86
      then [MD_CPU_ARCHITECTURE_X86, MD_CPU_ARCHITECTURE_X86_WIN64, MD_CPU_ARCHITECTURE_AMD64]
      else if cpu = MD_CONTEXT_PPC then [MD_CPU_ARCHITECTURE_PPC]
      else if cpu = MD_CONTEXT_PPC64 then [MD_CPU_ARCHITECTURE_PPC64]
      else if cpu = MD_CONTEXT_AMD64 then [MD_CPU_ARCHITECTURE_AMD64]
      else if cpu = MD_CONTEXT_SPARC then [MD_CPU_ARCHITECTURE_SPARC]
      else if cpu = MD_CONTEXT_ARM then [MD_CPU_ARCHITECTURE_ARM]
      else if cpu = MD_CONTEXT_ARM64 then [MD_CPU_ARCHITECTURE_ARM64]
      else if cpu = MD_CONTEXT_ARM64_OLD then [MD_CPU_ARCHITECTURE_ARM64_OLD]
      else if cpu = MD_CONTEXT_MIPS then [MD_CPU_ARCHITECTURE_MIPS]
      else if cpu = MD_CONTEXT_MIPS64 then [MD_CPU_ARCHITECTURE_MIPS64]
      else [])"

definition CheckAgainstSystemInfo :: "u32 \<Rightarrow> minidump \<Rightarrow> (bool \<times> minidump) run" where
  "CheckAgainstSystemInfo context_cpu_type d = do {
     (system_info, d) \<leftarrow> GetSystemInfo d;
     Some (case system_info of
         None \<Rightarrow> True
       | Some info \<Rightarrow> processor_architecture info \<in> set (expected_architectures context_cpu_type), d)
   }"

text \<open>
  The type of the processor: the bits of the flags or, when there are none, what the system
  information says; \<open>None\<close> when the position in the file is lost over that.
\<close>

definition context_cpu_type :: "u32 \<Rightarrow> minidump \<Rightarrow> (u32 option \<times> minidump) run" where
  "context_cpu_type flag_bits d =
     (if flag_bits \<noteq> 0 then Some (Some flag_bits, d)
      else do {
        (ok, cpu_type, d) \<leftarrow> GetContextCPUFlagsFromSystemInfo d;
        Some (if ok then Some cpu_type else None, d)
      })"

text \<open>
  The bytes of a structure whose first \<open>flags_size\<close> bytes, the flags, have been read
  already; what stands in their place is not looked at.
\<close>

definition read_structure :: "nat \<Rightarrow> nat \<Rightarrow> u32 \<Rightarrow> minidump \<Rightarrow> (char list option \<times> minidump) run" where
  "read_structure flags_size structure_size cpu_type d =
     (case ReadBytes (structure_size - flags_size) d of
        (None, d) \<Rightarrow> Some (None, d)
      | (Some bytes, d) \<Rightarrow> do {
          (ok, d) \<leftarrow> CheckAgainstSystemInfo cpu_type d;
          Some (if ok then Some (replicate flags_size NUL @ bytes) else None, d)
        })"

definition read_amd64_context :: "minidump \<Rightarrow> (dump_context option \<times> minidump) run" where
  "read_amd64_context d =
     (case ReadBytes sizeof_ContextAMD64 d of
        (None, d) \<Rightarrow> Some (None, d)
      | (Some p, d) \<Rightarrow> do {
          let flags = u32_at (md_swap d) p 48;
          (cpu, d) \<leftarrow> context_cpu_type (flags AND MD_CONTEXT_CPU_MASK) d;
          (case cpu of
             None \<Rightarrow> Some (None, d)
           | Some cpu_type \<Rightarrow>
               if cpu_type \<noteq> MD_CONTEXT_AMD64 then Some (None, d)
               else do {
                 let flags = (if flags AND MD_CONTEXT_CPU_MASK = 0 then flags OR cpu_type else flags);
                 (ok, d) \<leftarrow> CheckAgainstSystemInfo cpu_type d;
                 Some (if ok then
                     Some (SetContextAMD64 (MDRawContextAMD64_at (md_swap d) flags p)
                       (SetContextFlags flags new_DumpContext))
                   else None, d)
               })
        })"

text \<open>
  The flags of this structure are set from the bits that were in the file, also when the type of
  the processor came from the system information.
\<close>

definition read_ppc64_context :: "minidump \<Rightarrow> (dump_context option \<times> minidump) run" where
  "read_ppc64_context d =
     (case ReadBytes 8 d of
        (None, d) \<Rightarrow> Some (None, d)
      | (Some p, d) \<Rightarrow> do {
          let flags = u64_at (md_swap d) p 0;
          (cpu, d) \<leftarrow> context_cpu_type (ucast flags AND MD_CONTEXT_CPU_MASK) d;
          (case cpu of
             None \<Rightarrow> Some (None, d)
           | Some cpu_type \<Rightarrow>
               if cpu_type \<noteq> MD_CONTEXT_PPC64 then Some (None, d)
               else do {
                 (p, d) \<leftarrow> read_structure 8 sizeof_ContextPPC64 cpu_type d;
                 Some (case p of
                     None \<Rightarrow> None
                   | Some p \<Rightarrow>
                       if ucast (ucast flags :: u32) \<noteq> flags then None
                       else Some (SetContextPPC64 (MDRawContextPPC64_at (md_swap d) flags p)
                         (SetContextFlags (ucast flags) new_DumpContext)), d)
               })
        })"

definition read_old_arm64_context :: "minidump \<Rightarrow> (dump_context option \<times> minidump) run" where
  "read_old_arm64_context d =
     (case ReadBytes 8 d of
        (None, d) \<Rightarrow> Some (None, d)
      | (Some p, d) \<Rightarrow> do {
          let flags = u64_at (md_swap d) p 0;
          (cpu, d) \<leftarrow> context_cpu_type (ucast flags AND MD_CONTEXT_CPU_MASK) d;
          (case cpu of
             None \<Rightarrow> Some (None, d)
           | Some cpu_type \<Rightarrow>
               if cpu_type \<noteq> MD_CONTEXT_ARM64_OLD then Some (None, d)
               else do {
                 (p, d) \<leftarrow> read_structure 8 sizeof_ContextARM64_Old cpu_type d;
                 Some (case p of
                     None \<Rightarrow> None
                   | Some p \<Rightarrow>
                       let context = ConvertOldARM64Context
                             (MDRawContextARM64_Old_at (md_swap d) (is_big_endian d) flags p) in
                       Some (SetContextARM64 context (SetContextFlags (arm64_context_flags context) new_DumpContext)),
                   d)
               })
        })"

text \<open>All other structures start with 32 bits of flags.  ARM once had another flag.\<close>

definition MD_CONTEXT_ARM_OLD :: u32 where "MD_CONTEXT_ARM_OLD = 0x40"

definition legacy_arm_flags :: "u32 \<Rightarrow> u32" where
  "legacy_arm_flags flags =
     (if flags AND MD_CONTEXT_CPU_MASK = 0 \<and> flags AND MD_CONTEXT_ARM_OLD \<noteq> 0
      then (flags OR MD_CONTEXT_ARM) AND NOT MD_CONTEXT_ARM_OLD else flags)"

text \<open>The member of the union that a type of processor stands for, with its size.\<close>

definition context_of_cpu :: "u32 \<Rightarrow> bool \<Rightarrow> bool \<Rightarrow> u32 \<Rightarrow> (nat \<times> (pointer \<Rightarrow> raw_context)) option" where
  "context_of_cpu cpu swap big_endian flags =
     (if cpu = MD_CONTEXT_X86 then Some (sizeof_ContextX86, X86_context \<circ> MDRawContextX86_at swap flags)
      else if cpu = MD_CONTEXT_PPC then Some (sizeof_ContextPPC, PPC_context \<circ> MDRawContextPPC_at swap flags)
      else if cpu = MD_CONTEXT_SPARC then Some (sizeof_ContextSPARC, SPARC_context \<circ> MDRawContextSPARC_at swap flags)
      else if cpu = MD_CONTEXT_ARM then Some (sizeof_ContextARM, ARM_context \<circ> MDRawContextARM_at swap flags)
      else if cpu = MD_CONTEXT_ARM64 then
        Some (sizeof_ContextARM64, ARM64_context \<circ> MDRawContextARM64_at swap big_endian flags)
      else if cpu = MD_CONTEXT_MIPS \<or> cpu = MD_CONTEXT_MIPS64 then
        Some (sizeof_ContextMIPS, MIPS_context \<circ> MDRawContextMIPS_at swap flags)
      else None)"

definition read_flagged_context :: "nat \<Rightarrow> minidump \<Rightarrow> (dump_context option \<times> minidump) run" where
  "read_flagged_context expected_size d =
     (case read_u32_field d of
        (None, d) \<Rightarrow> Some (None, d)
      | (Some flags, d) \<Rightarrow> do {
          let flags = legacy_arm_flags flags;
          (cpu, d) \<leftarrow> context_cpu_type (flags AND MD_CONTEXT_CPU_MASK) d;
          (case cpu of
             None \<Rightarrow> Some (None, d)
           | Some cpu_type \<Rightarrow>
               let flags = (if flags AND MD_CONTEXT_CPU_MASK = 0 then flags OR cpu_type else flags) in
               (case context_of_cpu cpu_type (md_swap d) (is_big_endian d) flags of
                  None \<Rightarrow> Some (None, d)
                | Some (structure_size, decode) \<Rightarrow>
                    if expected_size \<noteq> structure_size then Some (None, d)
                    else do {
                      (p, d) \<leftarrow> read_structure 4 structure_size cpu_type d;
                      Some (map_option (\<lambda>p. SetContextFlags flags (new_DumpContext\<lparr>dc_context := decode p\<rparr>)) p, d)
                    }))
        })"

definition MinidumpContext_Read :: "u32 \<Rightarrow> minidump \<Rightarrow> (dump_context option \<times> minidump) run" where
  "MinidumpContext_Read expected_size d =
     (if \<not> IsContextSizeUnique sizeof_ContextAMD64 \<or> \<not> IsContextSizeUnique sizeof_ContextPPC64 \<or>
         \<not> IsContextSizeUnique sizeof_ContextARM64_Old
      then Some (None, d)
      else do {
        (context, d) \<leftarrow>
          (if unat expected_size = sizeof_ContextAMD64 then read_amd64_context d
           else if unat expected_size = sizeof_ContextPPC64 then read_ppc64_context d
           else if unat expected_size = sizeof_ContextARM64_Old then read_old_arm64_context d
           else read_flagged_context (unat expected_size) d);
        Some (map_option (\<lambda>dc. dc\<lparr>dc_valid := True\<rparr>) context, d)
      })"

subsection \<open>What is read is consistent\<close>

lemma sizes_unique [simp]:
  "IsContextSizeUnique sizeof_ContextAMD64" "IsContextSizeUnique sizeof_ContextPPC64"
  "IsContextSizeUnique sizeof_ContextARM64_Old"
  by (simp_all add: IsContextSizeUnique_def context_sizes)

lemma CheckAgainstSystemInfo_run:
  assumes "streams_typed d"
  shows "\<exists>ok d'. CheckAgainstSystemInfo cpu d = Some (ok, d') \<and> dump_extends d d'"
  using GetSystemInfo_run [OF assms] by (auto simp: CheckAgainstSystemInfo_def)

lemma context_cpu_type_run:
  assumes "streams_typed d"
  shows "\<exists>cpu d'. context_cpu_type flag_bits d = Some (cpu, d') \<and> dump_extends d d' \<and>
    (flag_bits \<noteq> 0 \<longrightarrow> cpu = Some flag_bits)"
  using GetContextCPUFlagsFromSystemInfo_run [OF assms] by (auto simp: context_cpu_type_def)

lemma read_structure_run:
  assumes "streams_typed d"
  shows "\<exists>p d'. read_structure k n cpu d = Some (p, d') \<and> dump_extends d d'"
proof -
  obtain bytes d1 where read: "ReadBytes (n - k) d = (bytes, d1)" by fastforce
  note d1 = ReadBytes_extends [OF read]
  from CheckAgainstSystemInfo_run [OF dump_extends_typed [OF d1 assms]]
  obtain ok d2 where "CheckAgainstSystemInfo cpu d1 = Some (ok, d2)" "dump_extends d1 d2" by blast
  with read d1 show ?thesis by (cases bytes) (auto simp: read_structure_def intro: dump_extends_trans)
qed

lemma flags_of_cpu:
  assumes "flags AND MD_CONTEXT_CPU_MASK \<noteq> 0 \<longrightarrow> cpu = flags AND MD_CONTEXT_CPU_MASK"
    and "cpu AND MD_CONTEXT_CPU_MASK = cpu"
  shows "(if flags AND MD_CONTEXT_CPU_MASK = 0 then flags OR cpu else flags) AND MD_CONTEXT_CPU_MASK = cpu"
  using assms by (auto simp: bit.conj_disj_distrib2)

text \<open>What a read of a context gives, up to the mark that it is valid.\<close>

definition context_result :: "dump_context option \<Rightarrow> bool" where
  "context_result result =
     (\<forall>dc. result = Some dc \<longrightarrow>
        dc_flags dc AND MD_CONTEXT_CPU_MASK \<in> stored_cpus (dc_context dc) \<or>
        dc_flags dc AND MD_CONTEXT_CPU_MASK = 0 \<and> (\<exists>c. dc_context dc = PPC64_context c))"

lemma context_result_None [simp]: "context_result None"
  by (simp add: context_result_def)

text \<open>The four ways to read a context have a common shape: the flags, the type, the rest.\<close>

lemma read_amd64_context_run:
  assumes "streams_typed d"
  shows "\<exists>result d'. read_amd64_context d = Some (result, d') \<and> dump_extends d d' \<and> context_result result"
proof -
  obtain p d1 where read: "ReadBytes sizeof_ContextAMD64 d = (p, d1)" by fastforce
  note d1 = ReadBytes_extends [OF read]
  note typed1 = dump_extends_typed [OF d1 assms]
  show ?thesis
  proof (cases p)
    case None
    with read d1 show ?thesis by (simp add: read_amd64_context_def)
  next
    case (Some p)
    define flags where "flags = u32_at (md_swap d1) p 48"
    obtain cpu d2 where cpu: "context_cpu_type (flags AND MD_CONTEXT_CPU_MASK) d1 = Some (cpu, d2)" "dump_extends d1 d2"
      "flags AND MD_CONTEXT_CPU_MASK \<noteq> 0 \<longrightarrow> cpu = Some (flags AND MD_CONTEXT_CPU_MASK)"
      using context_cpu_type_run [OF typed1] by blast
    note d2 = dump_extends_trans [OF d1 cpu(2)]
    obtain ok d3 where check: "CheckAgainstSystemInfo MD_CONTEXT_AMD64 d2 = Some (ok, d3)" "dump_extends d2 d3"
      using CheckAgainstSystemInfo_run dump_extends_typed [OF d2 assms] by blast
    note d3 = dump_extends_trans [OF d2 check(2)]
    have "cpu = Some MD_CONTEXT_AMD64 \<Longrightarrow>
        (if flags AND MD_CONTEXT_CPU_MASK = 0 then flags OR MD_CONTEXT_AMD64 else flags) AND MD_CONTEXT_CPU_MASK =
        MD_CONTEXT_AMD64"
      by (rule flags_of_cpu) (use cpu(3) in \<open>auto simp: cpu_constants MD_CONTEXT_CPU_MASK_def\<close>)
    with read Some cpu(1) check(1) d2 d3 show ?thesis
      by (auto simp: read_amd64_context_def Let_def flags_def [symmetric] context_result_def SetContextAMD64_def
          SetContextFlags_def split: option.splits)
  qed
qed

lemma read_ppc64_context_run:
  assumes "streams_typed d"
  shows "\<exists>result d'. read_ppc64_context d = Some (result, d') \<and> dump_extends d d' \<and> context_result result"
proof -
  obtain p d1 where read: "ReadBytes 8 d = (p, d1)" by fastforce
  note d1 = ReadBytes_extends [OF read]
  note typed1 = dump_extends_typed [OF d1 assms]
  show ?thesis
  proof (cases p)
    case None
    with read d1 show ?thesis by (simp add: read_ppc64_context_def)
  next
    case (Some p)
    define flags where "flags = u64_at (md_swap d1) p 0"
    obtain cpu d2 where cpu: "context_cpu_type (ucast flags AND MD_CONTEXT_CPU_MASK) d1 = Some (cpu, d2)"
      "dump_extends d1 d2"
      "ucast flags AND MD_CONTEXT_CPU_MASK \<noteq> 0 \<longrightarrow> cpu = Some (ucast flags AND MD_CONTEXT_CPU_MASK)"
      using context_cpu_type_run [OF typed1] by blast
    note d2 = dump_extends_trans [OF d1 cpu(2)]
    obtain q d3 where rest: "read_structure 8 sizeof_ContextPPC64 MD_CONTEXT_PPC64 d2 = Some (q, d3)" "dump_extends d2 d3"
      using read_structure_run dump_extends_typed [OF d2 assms] by blast
    note d3 = dump_extends_trans [OF d2 rest(2)]
    from read Some cpu(1,3) rest(1) d2 d3 show ?thesis
      by (auto simp: read_ppc64_context_def Let_def flags_def [symmetric] context_result_def SetContextPPC64_def
          SetContextFlags_def split: option.splits)
  qed
qed

lemma read_old_arm64_context_run:
  assumes "streams_typed d"
  shows "\<exists>result d'. read_old_arm64_context d = Some (result, d') \<and> dump_extends d d' \<and> context_result result"
proof -
  obtain p d1 where read: "ReadBytes 8 d = (p, d1)" by fastforce
  note d1 = ReadBytes_extends [OF read]
  note typed1 = dump_extends_typed [OF d1 assms]
  have convert: "arm64_context_flags (ConvertOldARM64Context old) AND MD_CONTEXT_CPU_MASK = MD_CONTEXT_ARM64" for old
    by (simp add: ConvertOldARM64Context_def Let_def cpu_constants MD_CONTEXT_CPU_MASK_def
        MD_CONTEXT_ARM64_CONTROL_def MD_CONTEXT_ARM64_INTEGER_def MD_CONTEXT_ARM64_FLOATING_POINT_def)
  show ?thesis
  proof (cases p)
    case None
    with read d1 show ?thesis by (simp add: read_old_arm64_context_def)
  next
    case (Some p)
    define flags where "flags = u64_at (md_swap d1) p 0"
    obtain cpu d2 where cpu: "context_cpu_type (ucast flags AND MD_CONTEXT_CPU_MASK) d1 = Some (cpu, d2)"
      "dump_extends d1 d2" using context_cpu_type_run [OF typed1] by blast
    note d2 = dump_extends_trans [OF d1 cpu(2)]
    obtain q d3 where rest: "read_structure 8 sizeof_ContextARM64_Old MD_CONTEXT_ARM64_OLD d2 = Some (q, d3)"
      "dump_extends d2 d3" using read_structure_run dump_extends_typed [OF d2 assms] by blast
    note d3 = dump_extends_trans [OF d2 rest(2)]
    from read Some cpu(1) rest(1) d2 d3 convert show ?thesis
      by (auto simp: read_old_arm64_context_def Let_def flags_def [symmetric] context_result_def SetContextARM64_def
          SetContextFlags_def split: option.splits)
  qed
qed

lemma context_of_cpu_stored:
  assumes "context_of_cpu cpu swap big_endian flags = Some (n, decode)"
  shows "cpu AND MD_CONTEXT_CPU_MASK = cpu" and "cpu \<in> stored_cpus (decode p)"
  using assms
  by (auto simp: context_of_cpu_def cpu_constants MD_CONTEXT_CPU_MASK_def split: if_splits)

lemma read_flagged_context_run:
  assumes "streams_typed d"
  shows "\<exists>result d'. read_flagged_context n d = Some (result, d') \<and> dump_extends d d' \<and> context_result result"
proof -
  obtain w d1 where read: "read_u32_field d = (w, d1)" by fastforce
  note d1 = read_u32_field_extends [OF read]
  note typed1 = dump_extends_typed [OF d1 assms]
  show ?thesis
  proof (cases w)
    case None
    with read d1 show ?thesis by (simp add: read_flagged_context_def)
  next
    case (Some w)
    define flags where "flags = legacy_arm_flags w"
    obtain cpu d2 where cpu: "context_cpu_type (flags AND MD_CONTEXT_CPU_MASK) d1 = Some (cpu, d2)" "dump_extends d1 d2"
      "flags AND MD_CONTEXT_CPU_MASK \<noteq> 0 \<longrightarrow> cpu = Some (flags AND MD_CONTEXT_CPU_MASK)"
      using context_cpu_type_run [OF typed1] by blast
    note d2 = dump_extends_trans [OF d1 cpu(2)]
    define flags' where "flags' = (if flags AND MD_CONTEXT_CPU_MASK = 0 then flags OR the cpu else flags)"
    define kind where "kind = context_of_cpu (the cpu) (md_swap d2) (is_big_endian d2) flags'"
    have run: "read_flagged_context n d =
        (if cpu = None \<or> kind = None \<or> n \<noteq> fst (the kind) then Some (None, d2)
         else do {
           (q, d3) \<leftarrow> read_structure 4 n (the cpu) d2;
           Some (map_option (\<lambda>p. SetContextFlags flags' (new_DumpContext\<lparr>dc_context := snd (the kind) p\<rparr>)) q, d3)
         })"
    proof (cases cpu)
      case None
      then show ?thesis by (simp add: read_flagged_context_def read Some flags_def [symmetric] cpu(1) Let_def)
    next
      case c: (Some c)
      have "(if flags AND MD_CONTEXT_CPU_MASK = 0 then flags OR c else flags) = flags'"
        "context_of_cpu c (md_swap d2) (is_big_endian d2) flags' = kind"
        by (simp_all add: flags'_def kind_def c)
      then show ?thesis
        by (cases kind) (simp_all add: read_flagged_context_def read Some flags_def [symmetric] cpu(1) c Let_def
          split: prod.splits)
    qed
    show ?thesis
    proof (cases "cpu = None \<or> kind = None \<or> n \<noteq> fst (the kind)")
      case True
      with run d2 show ?thesis by auto
    next
      case False
      then obtain c decode where c: "cpu = Some c" "kind = Some (n, decode)" by auto
      obtain q d3 where rest: "read_structure 4 n c d2 = Some (q, d3)" "dump_extends d2 d3"
        using read_structure_run dump_extends_typed [OF d2 assms] by blast
      note d3 = dump_extends_trans [OF d2 rest(2)]
      note stored = context_of_cpu_stored [OF c(2) [unfolded kind_def c option.sel]]
      have "flags' AND MD_CONTEXT_CPU_MASK = c"
        unfolding flags'_def c option.sel using cpu(3) c(1) stored(1) by (intro flags_of_cpu) auto
      then have "context_result (map_option (\<lambda>p. SetContextFlags flags' (new_DumpContext\<lparr>dc_context := decode p\<rparr>)) q)"
        using stored(2) by (auto simp: context_result_def SetContextFlags_def)
      moreover have "read_flagged_context n d =
          Some (map_option (\<lambda>p. SetContextFlags flags' (new_DumpContext\<lparr>dc_context := decode p\<rparr>)) q, d3)"
        unfolding run using c rest(1) by simp
      ultimately show ?thesis using d3 by blast
    qed
  qed
qed

lemma MinidumpContext_Read_run:
  assumes "streams_typed d"
  shows "\<exists>result d'. MinidumpContext_Read n d = Some (result, d') \<and> dump_extends d d' \<and>
    (\<forall>dc. result = Some dc \<longrightarrow> dc_valid dc \<and>
       (dump_context_ok dc \<or> GetContextCPU dc = 0 \<and> (\<exists>c. dc_context dc = PPC64_context c)))"
proof -
  let ?read = "if unat n = sizeof_ContextAMD64 then read_amd64_context d
      else if unat n = sizeof_ContextPPC64 then read_ppc64_context d
      else if unat n = sizeof_ContextARM64_Old then read_old_arm64_context d
      else read_flagged_context (unat n) d"
  obtain result d' where run: "?read = Some (result, d')" "dump_extends d d'" "context_result result"
    using read_amd64_context_run [OF assms] read_ppc64_context_run [OF assms]
      read_old_arm64_context_run [OF assms] read_flagged_context_run [OF assms] by (metis (full_types))
  have "MinidumpContext_Read n d = Some (map_option (\<lambda>dc. dc\<lparr>dc_valid := True\<rparr>) result, d')"
    unfolding MinidumpContext_Read_def run(1) by simp
  with run(2,3) show ?thesis
    by (auto simp: context_result_def dump_context_ok_def GetContextCPU_def)
qed

text \<open>
  C34: Reading a context returns, whatever the file holds, and keeps the streams of the dump in
  their classes.  A context that was read never makes the later accesses read another member of
  the union than the one that was stored, so its instruction and stack pointers are defined;
  they are there unless the context has no processor, which only happens for \<open>PPC64\<close>.
\<close>

theorem MinidumpContext_Read_sound:
  assumes "streams_typed d"
  shows "\<exists>result d'. MinidumpContext_Read n d = Some (result, d') \<and> streams_typed d' \<and>
    (\<forall>dc. result = Some dc \<longrightarrow>
       (\<exists>found ip. GetInstructionPointer dc = Some (found, ip)) \<and>
       (\<exists>found sp. GetStackPointer dc = Some (found, sp)) \<and>
       ((\<exists>ip. GetInstructionPointer dc = Some (True, ip)) \<or> (\<exists>c. dc_context dc = PPC64_context c)))"
proof -
  obtain result d' where run: "MinidumpContext_Read n d = Some (result, d')" "dump_extends d d'"
    "\<forall>dc. result = Some dc \<longrightarrow> dc_valid dc \<and>
       (dump_context_ok dc \<or> GetContextCPU dc = 0 \<and> (\<exists>c. dc_context dc = PPC64_context c))"
    using MinidumpContext_Read_run [OF assms] by blast
  have pointers: "(\<exists>found ip. GetInstructionPointer dc = Some (found, ip)) \<and>
      (\<exists>found sp. GetStackPointer dc = Some (found, sp)) \<and>
      ((\<exists>ip. GetInstructionPointer dc = Some (True, ip)) \<or> (\<exists>c. dc_context dc = PPC64_context c))"
    if "result = Some dc" for dc
  proof (cases "dump_context_ok dc")
    case True
    with run(3) that pointers_defined [OF True] show ?thesis by auto
  next
    case False
    with run(3) that have "dc_valid dc" "GetContextCPU dc = 0" "\<exists>c. dc_context dc = PPC64_context c" by auto
    then have "GetInstructionPointer dc = Some (False, 0)" "GetStackPointer dc = Some (False, 0)"
      by (simp_all add: GetInstructionPointer_def GetStackPointer_def Let_def cpu_constants)
    with \<open>\<exists>c. dc_context dc = PPC64_context c\<close> show ?thesis by blast
  qed
  with run dump_extends_typed [OF run(2) assms] show ?thesis by blast
qed

subsection \<open>A context that loses its processor\<close>

text \<open>
  A 64-bit PowerPC context whose flags name no processor, in a dump whose system information does.
\<close>

definition ppc64_system :: MDRawSystemInfo where
  "ppc64_system = \<lparr>processor_architecture = MD_CPU_ARCHITECTURE_PPC64, processor_level = 0,
     processor_revision = 0, number_of_processors = 1, product_type = 0, major_version = 0,
     minor_version = 0, build_number = 0, platform_id = MD_OS_LINUX, csd_version_rva = 0, suite_mask = 0,
     cpu_bytes = replicate 24 NUL\<rparr>"

definition ppc64_dump :: minidump where
  "ppc64_dump = (new_Minidump [] (Some (opened (replicate 1160 NUL))))\<lparr>md_valid := True,
     md_stream_map := [(MD_SYSTEM_INFO_STREAM, \<lparr>stream_index = 0, cached_stream = Some (System_info ppc64_system)\<rparr>)]\<rparr>"

lemma ppc64_dump_typed: "streams_typed ppc64_dump"
  by (simp add: streams_typed_def kept_stream_def ppc64_dump_def split: if_splits)

text \<open>
  The processor type that is inferred from the system information is lost for \<open>PPC64\<close>:
  the context is read and valid, but it is of no processor, so no walker is made for it.  (The
  branches for the other processors keep the type they inferred.)
\<close>

lemma ppc64_context_read:
  "\<exists>dc d'. MinidumpContext_Read 1160 ppc64_dump = Some (Some dc, d') \<and> dc_valid dc \<and> GetContextCPU dc = 0 \<and>
     (\<exists>c. dc_context dc = PPC64_context c)"
proof -
  let ?d = ppc64_dump and ?st = "opened (replicate 1160 NUL)"
  have system: "GetSystemInfo (ppc64_dump\<lparr>md_file := f\<rparr>) = Some (Some ppc64_system, ppc64_dump\<lparr>md_file := f\<rparr>)" for f
    by (simp add: GetSystemInfo_def GetStream_def ppc64_dump_def)
  have st: "md_file ?d = Some ?st" "\<not> stream_failed ?st" "stream_pos ?st = 0"
    "stream_data ?st = replicate 1160 NUL" "md_valid ?d" "\<not> md_swap ?d"
    by (simp_all add: ppc64_dump_def new_Minidump_def opened_def)
  have first: "ReadBytes 8 ?d = (Some (replicate 8 NUL), at_position (stream_pos ?st + 8) ?st ?d)"
    by (rule ReadBytes_between [where pre = "[]" and post = "replicate 1152 NUL"])
       (simp_all add: st replicate_add [symmetric])
  have "horner_sum of_char 256 (replicate n NUL) = (0 :: nat)" for n by (induction n) simp_all
  then have flags: "u64_at False (replicate 8 NUL) 0 = 0" by (simp add: u64_at_def word_at_def)
  let ?d1 = "at_position 8 ?st ?d"
  have cpu: "context_cpu_type 0 ?d1 = Some (Some MD_CONTEXT_PPC64, ?d1)"
    by (simp add: context_cpu_type_def GetContextCPUFlagsFromSystemInfo_def Tell_def at_position_def st system
        SeekSet_def istream_seek_def ppc64_system_def architecture_flags_def cpu_architectures)
  have second: "ReadBytes (1160 - 8) ?d1 =
      (Some (replicate 1152 NUL), at_position (stream_pos (?st\<lparr>stream_pos := 8\<rparr>) + (1160 - 8)) (?st\<lparr>stream_pos := 8\<rparr>) ?d1)"
    by (rule ReadBytes_between [where pre = "replicate 8 NUL" and post = "[]"])
       (simp_all add: st at_position_def replicate_add [symmetric])
  have rest: "\<exists>d'. read_structure 8 1160 MD_CONTEXT_PPC64 ?d1 =
      Some (Some (replicate 8 NUL @ replicate 1152 NUL), d')"
    unfolding read_structure_def second
    by (simp add: CheckAgainstSystemInfo_def at_position_def system expected_architectures_def cpu_constants
        ppc64_system_def)
  then obtain d' where rest: "read_structure 8 1160 MD_CONTEXT_PPC64 ?d1 =
      Some (Some (replicate 8 NUL @ replicate 1152 NUL), d')" by blast
  let ?dc = "SetContextPPC64 (MDRawContextPPC64_at (md_swap d') 0 (replicate 8 NUL @ replicate 1152 NUL))
      (SetContextFlags 0 new_DumpContext)"
  have "md_swap ?d1 = False" by (simp add: at_position_def st)
  then have "read_ppc64_context ?d = Some (Some ?dc, d')"
    using first flags cpu rest st(3) by (simp add: read_ppc64_context_def sizeof_ContextPPC64_def)
  then have "MinidumpContext_Read 1160 ?d = Some (Some (?dc\<lparr>dc_valid := True\<rparr>), d')"
    by (simp add: MinidumpContext_Read_def) (simp add: context_sizes)
  then show ?thesis
    by (intro exI [of _ "?dc\<lparr>dc_valid := True\<rparr>"] exI [of _ d'])
       (simp add: GetContextCPU_def SetContextPPC64_def SetContextFlags_def)
qed

theorem MinidumpContext_Read_sound_witness:
  "\<exists>dc d'. MinidumpContext_Read 1160 ppc64_dump = Some (Some dc, d') \<and> GetContextCPU dc = 0 \<and>
     streams_typed d' \<and> (\<exists>found ip. GetInstructionPointer dc = Some (found, ip))"
  using MinidumpContext_Read_sound [OF ppc64_dump_typed, of 1160] ppc64_context_read by fastforce

text \<open>
  A test of a mask that contains the bit of the processor holds for every old context that has
  that bit: converted contexts claim to hold integer and floating-point registers.
\<close>

lemma ConvertOldARM64Context_claims_all:
  assumes "bit (old_context_flags old) 31"
  shows "arm64_context_flags (ConvertOldARM64Context old) =
    MD_CONTEXT_ARM64_CONTROL OR MD_CONTEXT_ARM64_INTEGER OR MD_CONTEXT_ARM64_FLOATING_POINT"
proof -
  have mask: "bit (old_context_flags old AND ucast m) 31" if "bit m 31" for m :: u32
    using assms that by (simp add: bit_simps)
  have bits: "bit MD_CONTEXT_ARM64_INTEGER_OLD 31" "bit MD_CONTEXT_ARM64_FLOATING_POINT_OLD 31"
    by (simp_all add: MD_CONTEXT_ARM64_INTEGER_OLD_def MD_CONTEXT_ARM64_FLOATING_POINT_OLD_def MD_CONTEXT_ARM64_OLD_def
        bit_simps)
  have "old_context_flags old AND ucast MD_CONTEXT_ARM64_INTEGER_OLD \<noteq> 0"
    "old_context_flags old AND ucast MD_CONTEXT_ARM64_FLOATING_POINT_OLD \<noteq> 0"
    using mask bits by (metis bit_0_eq bot_apply bot_bool_def)+
  then show ?thesis
    by (simp add: ConvertOldARM64Context_def Let_def MD_CONTEXT_ARM64_CONTROL_def MD_CONTEXT_ARM64_INTEGER_def
        MD_CONTEXT_ARM64_FLOATING_POINT_def MD_CONTEXT_ARM64_def)
qed

end
