(* ===== verification/Minidump_Threads.thy ===== *)
theory Minidump_Threads
  imports Minidump_Memory Minidump_Context
begin

text \<open>
  \<open>MinidumpThread\<close>, \<open>MinidumpThreadList\<close>, \<open>MinidumpException\<close> and
  \<open>MinidumpBreakpadInfo\<close>: the threads of the crashed process, the exception that was raised,
  and which thread wrote the dump or asked for it.
\<close>

subsection \<open>Threads\<close>

definition stack_usable :: "MDMemoryDescriptor \<Rightarrow> bool" where
  "stack_usable stk =
     (\<not> (loc_rva (memory_location stk) = 0 \<or> loc_size (memory_location stk) = 0 \<or>
         - 1 - start_of_memory_range stk < ucast (loc_size (memory_location stk))))"

definition thread_of_raw :: "MDRawThread \<Rightarrow> MinidumpThread" where
  "thread_of_raw raw =
     \<lparr>mt_valid = True, mt_thread = raw,
      mt_memory = (if stack_usable (thread_stack raw) then Some (SetDescriptor (thread_stack raw) new_region) else None),
      mt_context = None\<rparr>"

definition Thread_Read :: "minidump \<Rightarrow> MinidumpThread option \<times> minidump" where
  "Thread_Read d =
     (case ReadBytes 48 d of
        (None, d) \<Rightarrow> (None, d)
      | (Some bytes, d) \<Rightarrow> (Some (thread_of_raw (MDRawThread_at (md_swap d) bytes)), d))"

definition GetStartOfStackMemoryRange :: "MinidumpThread \<Rightarrow> u64" where
  "GetStartOfStackMemoryRange t = (if \<not> mt_valid t then 0 else start_of_memory_range (thread_stack (mt_thread t)))"

definition Thread_GetMemory :: "MinidumpThread \<Rightarrow> MinidumpMemoryRegion option" where
  "Thread_GetMemory t = (if \<not> mt_valid t then None else mt_memory t)"

definition GetThreadID :: "MinidumpThread \<Rightarrow> u32 option" where
  "GetThreadID t = (if \<not> mt_valid t then None else Some (raw_thread_id (mt_thread t)))"

text \<open>The context is read when it is first asked for, and kept.\<close>

definition read_context_at ::
  "MDLocationDescriptor \<Rightarrow> minidump \<Rightarrow> (dump_context option \<times> minidump) run" where
  "read_context_at location d =
     (case SeekSet (unat (loc_rva location)) d of
        (False, d) \<Rightarrow> Some (None, d)
      | (True, d) \<Rightarrow> MinidumpContext_Read (loc_size location) d)"

definition Thread_GetContext ::
  "MinidumpThread \<Rightarrow> minidump \<Rightarrow> (dump_context option \<times> MinidumpThread \<times> minidump) run" where
  "Thread_GetContext t d =
     (if \<not> mt_valid t then Some (None, t, d)
      else case mt_context t of
        Some dc \<Rightarrow> Some (Some dc, t, d)
      | None \<Rightarrow> do {
          (context, d) \<leftarrow> read_context_at (thread_context (mt_thread t)) d;
          Some (context, t\<lparr>mt_context := context\<rparr>, d)
        })"

subsection \<open>The list of threads\<close>

definition max_threads :: nat where "max_threads = 4096"

text \<open>The loop of \<open>Read\<close>: \<open>n\<close> threads, the first of them at \<open>index\<close>.\<close>

fun read_threads ::
  "nat \<Rightarrow> nat \<Rightarrow> (u32 \<rightharpoonup> nat) \<Rightarrow> minidump \<Rightarrow> ((u32 \<rightharpoonup> nat) \<times> MinidumpThread list) option \<times> minidump" where
  "read_threads 0 index ids d = (Some (ids, []), d)"
| "read_threads (Suc n) index ids d =
     (case Thread_Read d of
        (None, d) \<Rightarrow> (None, d)
      | (Some t, d) \<Rightarrow>
          (case GetThreadID t of
             None \<Rightarrow> (None, d)
           | Some thread_id \<Rightarrow>
               if ids thread_id \<noteq> None then (None, d)
               else
                 (case read_threads n (index + 1) (ids(thread_id \<mapsto> index)) d of
                    (None, d) \<Rightarrow> (None, d)
                  | (Some (ids, threads), d) \<Rightarrow> (Some (ids, t # threads), d))))"

definition ThreadList_Read :: "u32 \<Rightarrow> minidump \<Rightarrow> (md_stream option \<times> minidump) run" where
  "ThreadList_Read expected_size d =
     Some (case read_list_count 48 expected_size d of
         (None, d) \<Rightarrow> (None, d)
       | (Some count, d) \<Rightarrow>
           if max_threads < count then (None, d)
           else
             (case read_threads count 0 Map.empty d of
                (None, d) \<Rightarrow> (None, d)
              | (Some (ids, threads), d) \<Rightarrow>
                  (Some (Thread_list \<lparr>tl_ids = ids, tl_threads = threads, thread_count = of_nat count\<rparr>), d)))"

definition GetThreadAtIndex :: "MinidumpThreadList \<Rightarrow> u32 \<Rightarrow> MinidumpThread option" where
  "GetThreadAtIndex l index = (if thread_count l \<le> index then None else Some (tl_threads l ! unat index))"

definition GetThreadByID :: "MinidumpThreadList \<Rightarrow> u32 \<Rightarrow> MinidumpThread option" where
  "GetThreadByID l thread_id = map_option (\<lambda>i. tl_threads l ! i) (tl_ids l thread_id)"

definition GetThreadList :: "minidump \<Rightarrow> (MinidumpThreadList option \<times> minidump) run" where
  "GetThreadList d =
     (case GetStream MD_THREAD_LIST_STREAM ThreadList_Read d of
        Some (None, d) \<Rightarrow> Some (None, d)
      | Some (Some (Thread_list l), d) \<Rightarrow> Some (Some l, d)
      | _ \<Rightarrow> None)"

subsection \<open>The exception\<close>

definition Exception_Read :: "u32 \<Rightarrow> minidump \<Rightarrow> (md_stream option \<times> minidump) run" where
  "Exception_Read expected_size d =
     Some (if expected_size \<noteq> 168 then (None, d)
           else case ReadBytes 168 d of
             (None, d) \<Rightarrow> (None, d)
           | (Some bytes, d) \<Rightarrow>
               (Some (Exception_stream
                 \<lparr>me_exception = MDRawExceptionStream_at (md_swap d) bytes, me_context = None\<rparr>), d))"

definition Exception_GetThreadID :: "MinidumpException \<Rightarrow> u32" where
  "Exception_GetThreadID e = exception_thread_id (me_exception e)"

definition Exception_GetContext ::
  "MinidumpException \<Rightarrow> minidump \<Rightarrow> (dump_context option \<times> MinidumpException \<times> minidump) run" where
  "Exception_GetContext e d =
     (case me_context e of
        Some dc \<Rightarrow> Some (Some dc, e, d)
      | None \<Rightarrow> do {
          (context, d) \<leftarrow> read_context_at (exception_context (me_exception e)) d;
          Some (context, e\<lparr>me_context := context\<rparr>, d)
        })"

definition GetException :: "minidump \<Rightarrow> (MinidumpException option \<times> minidump) run" where
  "GetException d =
     (case GetStream MD_EXCEPTION_STREAM Exception_Read d of
        Some (None, d) \<Rightarrow> Some (None, d)
      | Some (Some (Exception_stream e), d) \<Rightarrow> Some (Some e, d)
      | _ \<Rightarrow> None)"

subsection \<open>Which thread wrote the dump\<close>

definition BreakpadInfo_Read :: "u32 \<Rightarrow> minidump \<Rightarrow> (md_stream option \<times> minidump) run" where
  "BreakpadInfo_Read expected_size d =
     Some (if expected_size \<noteq> 12 then (None, d)
           else case ReadBytes 12 d of
             (None, d) \<Rightarrow> (None, d)
           | (Some bytes, d) \<Rightarrow>
               (Some (Breakpad_info
                 \<lparr>bi_validity = u32_at (md_swap d) bytes 0, bi_dump_thread_id = u32_at (md_swap d) bytes 4,
                  bi_requesting_thread_id = u32_at (md_swap d) bytes 8\<rparr>), d))"

definition MD_BREAKPAD_INFO_VALID_DUMP_THREAD_ID :: u32 where "MD_BREAKPAD_INFO_VALID_DUMP_THREAD_ID = 1"
definition MD_BREAKPAD_INFO_VALID_REQUESTING_THREAD_ID :: u32 where
  "MD_BREAKPAD_INFO_VALID_REQUESTING_THREAD_ID = 2"

definition GetDumpThreadID :: "MDRawBreakpadInfo \<Rightarrow> u32 option" where
  "GetDumpThreadID info =
     (if bi_validity info AND MD_BREAKPAD_INFO_VALID_DUMP_THREAD_ID = 0 then None
      else Some (bi_dump_thread_id info))"

definition GetRequestingThreadID :: "MDRawBreakpadInfo \<Rightarrow> u32 option" where
  "GetRequestingThreadID info =
     (if bi_validity info AND MD_BREAKPAD_INFO_VALID_REQUESTING_THREAD_ID = 0 then None
      else Some (bi_requesting_thread_id info))"

definition GetBreakpadInfo :: "minidump \<Rightarrow> (MDRawBreakpadInfo option \<times> minidump) run" where
  "GetBreakpadInfo d =
     (case GetStream MD_BREAKPAD_INFO_STREAM BreakpadInfo_Read d of
        Some (None, d) \<Rightarrow> Some (None, d)
      | Some (Some (Breakpad_info info), d) \<Rightarrow> Some (Some info, d)
      | _ \<Rightarrow> None)"

subsection \<open>Every read returns\<close>

lemma Thread_Read_extends [extends_intros]: "Thread_Read d = (result, d') \<Longrightarrow> dump_extends d d'"
  by (auto simp: Thread_Read_def dest!: ReadBytes_extends split: prod.splits option.splits)

lemma read_list_count_extends [extends_intros]:
  assumes "read_list_count k n d = (result, d')"
  shows "dump_extends d d'"
proof -
  obtain w d1 where count: "read_u32_field d = (w, d1)" by fastforce
  obtain p d2 where padding: "ReadBytes 4 d1 = (p, d2)" by fastforce
  have "d' \<in> {d, d1, d2}"
    using assms count padding by (cases w; cases p) (auto simp: read_list_count_def split: if_splits)
  with read_u32_field_extends [OF count] ReadBytes_extends [OF padding] show ?thesis
    by (auto intro: dump_extends_trans)
qed

lemma read_threads_extends [extends_intros]:
  "read_threads n i ids d = (result, d') \<Longrightarrow> dump_extends d d'"
proof (induction n arbitrary: i ids d d' result)
  case (Suc n)
  obtain t d1 where read: "Thread_Read d = (t, d1)" by fastforce
  note d1 = Thread_Read_extends [OF read]
  show ?case
  proof (cases "t = None \<or> GetThreadID (the t) = None \<or> ids (the (GetThreadID (the t))) \<noteq> None")
    case True
    with Suc.prems read d1 show ?thesis by (auto split: option.splits)
  next
    case False
    then obtain thread tid where t: "t = Some thread" "GetThreadID thread = Some tid" "ids tid = None" by auto
    obtain rest d2 where rest: "read_threads n (i + 1) (ids(tid \<mapsto> i)) d1 = (rest, d2)" by fastforce
    with Suc.prems read t have "d' = d2" by (auto split: option.splits)
    with Suc.IH [OF rest] d1 show ?thesis by (auto intro: dump_extends_trans)
  qed
qed simp

lemma read_list_count_map: "read_list_count k n d = (result, d') \<Longrightarrow> md_stream_map d' = md_stream_map d"
  by (auto simp: read_list_count_def read_u32_field_def dest!: ReadBytes_map split: if_splits prod.splits option.splits)

lemma read_threads_map: "read_threads n i ids d = (result, d') \<Longrightarrow> md_stream_map d' = md_stream_map d"
  by (induction n arbitrary: i ids d d' result)
     (force simp: Thread_Read_def dest!: ReadBytes_map split: prod.splits option.splits if_splits)+

lemma ThreadList_Read_ok: "reader_ok MD_THREAD_LIST_STREAM ThreadList_Read"
proof (rule reader_okI)
  fix n d
  obtain count d1 where count: "read_list_count 48 n d = (count, d1)" by fastforce
  obtain threads d2 where threads: "read_threads (the count) 0 Map.empty d1 = (threads, d2)" by fastforce
  note read_list_count_extends [OF count] read_threads_extends [OF threads]
    read_list_count_map [OF count] read_threads_map [OF threads]
  with count threads show "\<exists>result d'. ThreadList_Read n d = Some (result, d') \<and> dump_extends d d' \<and>
      md_stream_map d' = md_stream_map d \<and> (\<forall>st. result = Some st \<longrightarrow> stream_class st = MD_THREAD_LIST_STREAM)"
    by (cases count; cases threads) (auto simp: ThreadList_Read_def intro: dump_extends_trans)
qed

lemma Exception_Read_ok: "reader_ok MD_EXCEPTION_STREAM Exception_Read"
proof (rule reader_okI)
  fix n d
  obtain bytes d1 where bytes: "ReadBytes 168 d = (bytes, d1)" by fastforce
  with ReadBytes_extends [OF bytes] ReadBytes_map [OF bytes]
  show "\<exists>result d'. Exception_Read n d = Some (result, d') \<and> dump_extends d d' \<and>
      md_stream_map d' = md_stream_map d \<and> (\<forall>st. result = Some st \<longrightarrow> stream_class st = MD_EXCEPTION_STREAM)"
    by (cases bytes) (auto simp: Exception_Read_def)
qed

lemma BreakpadInfo_Read_ok: "reader_ok MD_BREAKPAD_INFO_STREAM BreakpadInfo_Read"
proof (rule reader_okI)
  fix n d
  obtain bytes d1 where bytes: "ReadBytes 12 d = (bytes, d1)" by fastforce
  with ReadBytes_extends [OF bytes] ReadBytes_map [OF bytes]
  show "\<exists>result d'. BreakpadInfo_Read n d = Some (result, d') \<and> dump_extends d d' \<and>
      md_stream_map d' = md_stream_map d \<and> (\<forall>st. result = Some st \<longrightarrow> stream_class st = MD_BREAKPAD_INFO_STREAM)"
    by (cases bytes) (auto simp: BreakpadInfo_Read_def)
qed

lemma MemoryList_Read_ok: "reader_ok MD_MEMORY_LIST_STREAM MemoryList_Read"
proof (rule reader_okI)
  fix n d
  obtain count d1 where count: "read_list_count 16 n d = (count, d1)" by fastforce
  obtain bytes d2 where bytes: "ReadBytes (16 * the count) d1 = (bytes, d2)" by fastforce
  obtain result d' where run: "MemoryList_Read n d = Some (result, d')"
    "\<forall>st. result = Some st \<longrightarrow> (\<exists>l. st = Memory_list l \<and> memory_list_ok l)"
    using MemoryList_Read_total by blast
  have "d' \<in> {d1, d2}"
    using run(1) count bytes
    by (cases count; cases bytes) (auto simp: MemoryList_Read_def Let_def split: if_splits prod.splits bind_splits)
  with read_list_count_extends [OF count] ReadBytes_extends [OF bytes] read_list_count_map [OF count]
    ReadBytes_map [OF bytes] run
  show "\<exists>result d'. MemoryList_Read n d = Some (result, d') \<and> dump_extends d d' \<and>
      md_stream_map d' = md_stream_map d \<and> (\<forall>st. result = Some st \<longrightarrow> stream_class st = MD_MEMORY_LIST_STREAM)"
    by (auto intro: dump_extends_trans)
qed

interpretation thread_list: typed_stream MD_THREAD_LIST_STREAM ThreadList_Read GetThreadList Thread_list
  by (unfold_locales, rule ThreadList_Read_ok) (auto simp: GetThreadList_def stream_types elim!: stream_class.elims)

interpretation memory_list: typed_stream MD_MEMORY_LIST_STREAM MemoryList_Read GetMemoryList Memory_list
  by (unfold_locales, rule MemoryList_Read_ok) (auto simp: GetMemoryList_def stream_types elim!: stream_class.elims)

interpretation exception: typed_stream MD_EXCEPTION_STREAM Exception_Read GetException Exception_stream
  by (unfold_locales, rule Exception_Read_ok) (auto simp: GetException_def stream_types elim!: stream_class.elims)

interpretation breakpad_info: typed_stream MD_BREAKPAD_INFO_STREAM BreakpadInfo_Read GetBreakpadInfo Breakpad_info
  by (unfold_locales, rule BreakpadInfo_Read_ok) (auto simp: GetBreakpadInfo_def stream_types elim!: stream_class.elims)

subsection \<open>Threads by their identifiers\<close>

abbreviation thread_id_of :: "MinidumpThread \<Rightarrow> u32" where
  "thread_id_of t \<equiv> raw_thread_id (mt_thread t)"

lemma Thread_Read_valid: "Thread_Read d = (Some t, d') \<Longrightarrow> mt_valid t"
  by (auto simp: Thread_Read_def thread_of_raw_def split: prod.splits option.splits)

lemma read_threads_ids:
  assumes "read_threads n i ids d = (Some (ids', ts), d')"
  shows "length ts = n" and "\<forall>t\<in>set ts. mt_valid t" and "distinct (map thread_id_of ts)"
    and "\<forall>t\<in>set ts. ids (thread_id_of t) = None"
    and "\<forall>x. ids' x = (if x \<in> thread_id_of ` set ts then map_option fst (find (\<lambda>(j, t). thread_id_of t = x) (enumerate i ts))
      else ids x)"
proof -
  have "length ts = n \<and> (\<forall>t\<in>set ts. mt_valid t) \<and> distinct (map thread_id_of ts) \<and>
      (\<forall>t\<in>set ts. ids (thread_id_of t) = None) \<and>
      (\<forall>x. ids' x = (if x \<in> thread_id_of ` set ts then map_option fst (find (\<lambda>(j, t). thread_id_of t = x) (enumerate i ts))
        else ids x))"
    using assms
  proof (induction n arbitrary: i ids d d' ts)
    case (Suc n)
    obtain t d1 where read: "Thread_Read d = (t, d1)" by fastforce
    with Suc.prems obtain thread where t: "t = Some thread" by (auto split: option.splits)
    with read have valid: "mt_valid thread" using Thread_Read_valid by blast
    let ?x = "thread_id_of thread"
    from Suc.prems read t valid have new: "ids ?x = None"
      by (auto simp: GetThreadID_def split: if_splits)
    obtain rest d2 where rest: "read_threads n (i + 1) (ids(?x \<mapsto> i)) d1 = (rest, d2)" by fastforce
    with Suc.prems read t valid new obtain ts' where ts: "rest = Some (ids', ts')" "ts = thread # ts'"
      by (auto simp: GetThreadID_def split: option.splits)
    note IH = Suc.IH [OF rest [unfolded ts(1)]]
    then have "?x \<notin> thread_id_of ` set ts'" by fastforce
    with IH show ?case using valid new by (auto simp: ts(2) split: if_splits)
  qed simp
  then show "length ts = n" "\<forall>t\<in>set ts. mt_valid t" "distinct (map thread_id_of ts)"
    "\<forall>t\<in>set ts. ids (thread_id_of t) = None"
    "\<forall>x. ids' x = (if x \<in> thread_id_of ` set ts then map_option fst (find (\<lambda>(j, t). thread_id_of t = x) (enumerate i ts))
      else ids x)"
    by simp_all
qed

lemma find_enumerate:
  "map_option (\<lambda>j. xs ! (j - i)) (map_option fst (find (\<lambda>(j, x). P x) (enumerate i xs))) = find P xs"
proof (induction xs arbitrary: i)
  case (Cons x xs)
  have "j \<ge> i + 1" if "find (\<lambda>(j, x). P x) (enumerate (i + 1) xs) = Some (j, y)" for j y
    using that by (auto simp: find_Some_iff nth_enumerate_eq)
  then have "map_option (\<lambda>j. (x # xs) ! (j - i)) (map_option fst (find (\<lambda>(j, x). P x) (enumerate (i + 1) xs))) =
      map_option (\<lambda>j. xs ! (j - (i + 1))) (map_option fst (find (\<lambda>(j, x). P x) (enumerate (i + 1) xs)))"
    by (cases "find (\<lambda>(j, x). P x) (enumerate (i + 1) xs)") (auto simp: nth_Cons' intro: arg_cong)
  with Cons [of "i + 1"] show ?case by simp
qed simp

definition thread_list_ok :: "MinidumpThreadList \<Rightarrow> bool" where
  "thread_list_ok l =
     (length (tl_threads l) \<le> max_threads \<and> thread_count l = of_nat (length (tl_threads l)) \<and>
      (\<forall>t\<in>set (tl_threads l). mt_valid t) \<and> distinct (map thread_id_of (tl_threads l)) \<and>
      (\<forall>x. GetThreadByID l x = find (\<lambda>t. thread_id_of t = x) (tl_threads l)))"

lemma ThreadList_Read_list:
  assumes "ThreadList_Read n d = Some (Some (Thread_list l), d')"
  shows "thread_list_ok l"
proof -
  obtain count d1 where count: "read_list_count 48 n d = (count, d1)" by fastforce
  obtain threads d2 where threads: "read_threads (the count) 0 Map.empty d1 = (threads, d2)" by fastforce
  from assms count threads obtain ids ts where ts: "threads = Some (ids, ts)" "the count \<le> max_threads"
    and l: "l = \<lparr>tl_ids = ids, tl_threads = ts, thread_count = of_nat (the count)\<rparr>"
    by (cases count; cases threads) (auto simp: ThreadList_Read_def split: if_splits)
  note facts = read_threads_ids [OF threads [unfolded ts(1)]]
  have "GetThreadByID l x = find (\<lambda>t. thread_id_of t = x) (tl_threads l)" for x
  proof (cases "x \<in> thread_id_of ` set ts")
    case True
    then show ?thesis
      using facts(5) find_enumerate [where i = 0 and P = "\<lambda>t. thread_id_of t = x" and xs = ts]
      by (simp add: GetThreadByID_def l)
  next
    case False
    then have "find (\<lambda>t. thread_id_of t = x) ts = None" by (auto simp: find_None_iff)
    with False show ?thesis using facts(5) by (simp add: GetThreadByID_def l)
  qed
  with facts(1-3) ts(2) show ?thesis by (simp add: thread_list_ok_def l)
qed

subsection \<open>Threads that were written are read back\<close>

lemma read_threads_file:
  assumes "md_file d = Some st" and "\<not> stream_failed st"
    and "stream_data st = pre @ concat (map (thread_bytes (md_swap d)) raws) @ post" and "stream_pos st = length pre"
  shows "map_option snd (fst (read_threads (length raws) i ids d)) =
    (if distinct (map raw_thread_id raws) \<and> (\<forall>raw\<in>set raws. ids (raw_thread_id raw) = None)
     then Some (map thread_of_raw raws) else None)"
  using assms
proof (induction raws arbitrary: i ids d st pre)
  case (Cons raw raws)
  let ?d = "at_position (stream_pos st + 48) st d"
  have "ReadBytes 48 d = (Some (thread_bytes (md_swap d) raw), ?d)"
    using Cons.prems by (intro ReadBytes_between [where pre = pre and post = "concat (map (thread_bytes (md_swap d)) raws) @ post"]) simp_all
  then have read: "Thread_Read d = (Some (thread_of_raw raw), ?d)"
    by (simp add: Thread_Read_def records_at_file(5) at_position_def)
  have tid: "GetThreadID (thread_of_raw raw) = Some (raw_thread_id raw)"
    by (simp add: GetThreadID_def thread_of_raw_def)
  have "map_option snd (fst (read_threads (length raws) (i + 1) (ids(raw_thread_id raw \<mapsto> i)) ?d)) =
      (if distinct (map raw_thread_id raws) \<and> (\<forall>r\<in>set raws. (ids(raw_thread_id raw \<mapsto> i)) (raw_thread_id r) = None)
       then Some (map thread_of_raw raws) else None)"
    using Cons.prems
    by (intro Cons.IH [where st = "st\<lparr>stream_pos := stream_pos st + 48\<rparr>" and pre = "pre @ thread_bytes (md_swap d) raw"])
       (simp_all add: at_position_def)
  moreover have "(\<forall>r\<in>set raws. (ids(raw_thread_id raw \<mapsto> i)) (raw_thread_id r) = None) \<longleftrightarrow>
      raw_thread_id raw \<notin> raw_thread_id ` set raws \<and> (\<forall>r\<in>set raws. ids (raw_thread_id r) = None)"
    by (auto simp: image_iff)
  ultimately show ?case
    using tid by (auto simp: read split: option.splits prod.splits if_splits)
qed simp

text \<open>
  C35: A list of threads that was written in either byte order is read back thread by thread when
  the identifiers are distinct, and is refused when two threads have the same.  In a list that was
  read, a thread is found by its identifier exactly when a search of the list finds it.
\<close>

theorem ThreadList_Read_roundtrip:
  assumes st: "md_file d = Some st" "\<not> stream_failed st"
    and contents: "stream_data st = pre @ file_bytes (md_swap d) (of_nat (length raws) :: u32) @
      concat (map (thread_bytes (md_swap d)) raws) @ post"
    and position: "stream_pos st = length pre" and small: "length raws \<le> max_threads"
    and size: "unat expected_size = 4 + 48 * length raws"
  shows "\<exists>result d'. ThreadList_Read expected_size d = Some (result, d') \<and>
    (if distinct (map raw_thread_id raws)
     then \<exists>l. result = Some (Thread_list l) \<and> tl_threads l = map thread_of_raw raws \<and>
       (\<forall>x. GetThreadByID l x = find (\<lambda>t. thread_id_of t = x) (tl_threads l))
     else result = None)"
proof -
  let ?n = "length raws" and ?st = "st\<lparr>stream_pos := stream_pos st + 4\<rparr>"
  let ?d = "at_position (stream_pos st + 4) st d"
  have "ReadBytes 4 d = (Some (file_bytes (md_swap d) (of_nat ?n :: u32)), ?d)"
    by (rule ReadBytes_between [OF st contents position]) simp
  then have word: "read_u32_field d = (Some (of_nat ?n), ?d)"
    by (simp add: read_u32_field_def field_at_start at_position_def)
  have n: "unat (of_nat ?n :: u32) = ?n" using small by (simp add: max_threads_def unat_nat32)
  have count: "read_list_count 48 expected_size d = (Some ?n, ?d)"
    using small size by (simp add: read_list_count_def word n max_threads_def)
  obtain threads d' where threads: "read_threads ?n 0 Map.empty ?d = (threads, d')" by fastforce
  have "map_option snd (fst (read_threads ?n 0 Map.empty ?d)) =
      (if distinct (map raw_thread_id raws) \<and> (\<forall>raw\<in>set raws. Map.empty (raw_thread_id raw) = (None :: nat option))
       then Some (map thread_of_raw raws) else None)"
    by (rule read_threads_file [where st = ?st and pre = "pre @ file_bytes (md_swap d) (of_nat ?n :: u32)" and post = post])
       (use st contents position in \<open>simp_all add: at_position_def\<close>)
  then have outcome: "map_option snd threads =
      (if distinct (map raw_thread_id raws) then Some (map thread_of_raw raws) else None)"
    by (simp add: threads)
  show ?thesis
  proof (cases threads)
    case None
    with outcome count threads small show ?thesis
      by (auto simp: ThreadList_Read_def split: if_splits)
  next
    case (Some p)
    obtain ids ts where p: "p = (ids, ts)" by fastforce
    let ?l = "\<lparr>tl_ids = ids, tl_threads = ts, thread_count = of_nat ?n\<rparr>"
    have run: "ThreadList_Read expected_size d = Some (Some (Thread_list ?l), d')"
      using count threads small Some p by (simp add: ThreadList_Read_def)
    have "distinct (map raw_thread_id raws) \<and> ts = map thread_of_raw raws"
      using outcome by (simp add: Some p split: if_splits)
    moreover have "\<forall>x. GetThreadByID ?l x = find (\<lambda>t. thread_id_of t = x) ts"
      using ThreadList_Read_list [OF run] by (metis thread_list_ok_def MinidumpThreadList.select_convs(2))
    ultimately show ?thesis using run by (intro exI [of _ "Some (Thread_list ?l)"] exI [of _ d']) simp
  qed
qed

definition sample_thread :: "u32 \<Rightarrow> MDRawThread" where
  "sample_thread thread_id = \<lparr>raw_thread_id = thread_id, suspend_count = 0, priority_class = 0, thread_priority = 0, teb = 0,
     thread_stack = sample_descriptor, thread_context = \<lparr>loc_size = 716, loc_rva = 400\<rparr>\<rparr>"

definition sample_threads :: "u32 list \<Rightarrow> char list" where
  "sample_threads thread_ids =
     file_bytes True (of_nat (length thread_ids) :: u32) @ concat (map (thread_bytes True) (map sample_thread thread_ids))"

theorem ThreadList_Read_roundtrip_witness:
  "(\<exists>l d'. ThreadList_Read 100 (sample_dump (sample_threads [7, 9])) = Some (Some (Thread_list l), d') \<and>
      tl_threads l = map thread_of_raw [sample_thread 7, sample_thread 9] \<and>
      GetThreadByID l 9 = Some (thread_of_raw (sample_thread 9))) \<and>
   (\<exists>d'. ThreadList_Read 100 (sample_dump (sample_threads [7, 7])) = Some (None, d'))"
proof -
  have read: "\<exists>result d'. ThreadList_Read 100 (sample_dump (sample_threads [a, b])) = Some (result, d') \<and>
      (if distinct (map raw_thread_id [sample_thread a, sample_thread b])
       then \<exists>l. result = Some (Thread_list l) \<and> tl_threads l = map thread_of_raw [sample_thread a, sample_thread b] \<and>
         (\<forall>x. GetThreadByID l x = find (\<lambda>t. thread_id_of t = x) (tl_threads l))
       else result = None)" for a b
    by (rule ThreadList_Read_roundtrip [where st = "opened (sample_threads [a, b])" and pre = "[]" and post = "[]"])
       (simp_all add: opened_def sample_threads_def max_threads_def)
  from read [of 7 9] read [of 7 7] show ?thesis
    by (auto simp: sample_thread_def thread_of_raw_def)
qed

end
