(* ===== verification/Minidump_Modules.thy ===== *)
theory Minidump_Modules
  imports Minidump_Threads
begin

text \<open>
  \<open>MinidumpModule\<close> and \<open>MinidumpModuleList\<close>: the code modules that were loaded in the
  crashed process, with the debugging records that identify them, and their copy into the form
  the walkers use.
\<close>

subsection \<open>Numbers in identifiers\<close>

text \<open>The conversions \<open>%x\<close>, \<open>%X\<close> and \<open>%u\<close> of \<open>snprintf\<close>, with zeros in front.\<close>

definition hex_digit :: "bool \<Rightarrow> nat \<Rightarrow> char" where
  "hex_digit upper k = char_of (if k < 10 then 48 + k else (if upper then 55 else 87) + k)"

fun print_number :: "(nat \<Rightarrow> char) \<Rightarrow> nat \<Rightarrow> nat \<Rightarrow> string" where
  "print_number digit b n =
     (if b < 2 \<or> n < b then [digit n] else print_number digit b (n div b) @ [digit (n mod b)])"

declare print_number.simps [simp del]

definition pad_zeros :: "nat \<Rightarrow> string \<Rightarrow> string" where
  "pad_zeros width s = replicate (width - length s) (CHR ''0'') @ s"

definition hex_upper :: "nat \<Rightarrow> 'a::len word \<Rightarrow> string" where
  "hex_upper width w = pad_zeros width (print_number (hex_digit True) 16 (unat w))"

definition hex_lower :: "nat \<Rightarrow> 'a::len word \<Rightarrow> string" where
  "hex_lower width w = pad_zeros width (print_number (hex_digit False) 16 (unat w))"

definition decimal :: "'a::len word \<Rightarrow> string" where
  "decimal w = print_number (hex_digit False) 10 (unat w)"

subsection \<open>Debugging records\<close>

definition MD_CVINFOPDB20_SIGNATURE :: u32 where "MD_CVINFOPDB20_SIGNATURE = 0x3031424e"
definition MD_CVINFOPDB70_SIGNATURE :: u32 where "MD_CVINFOPDB70_SIGNATURE = 0x53445352"
definition MD_CVINFOELF_SIGNATURE :: u32 where "MD_CVINFOELF_SIGNATURE = 0x4270454c"
definition MD_CVINFOUNKNOWN_SIGNATURE :: u32 where "MD_CVINFOUNKNOWN_SIGNATURE = 0xffffffff"

definition MDCVInfoPDB20_minsize :: nat where "MDCVInfoPDB20_minsize = 16"
definition MDCVInfoPDB70_minsize :: nat where "MDCVInfoPDB70_minsize = 24"
definition MDCVInfoELF_minsize :: nat where "MDCVInfoELF_minsize = 4"
definition MDImageDebugMisc_minsize :: nat where "MDImageDebugMisc_minsize = 12"

definition max_cv_bytes :: nat where "max_cv_bytes = 32768"
definition max_misc_bytes :: nat where "max_misc_bytes = 32768"

text \<open>
  The checks of a CodeView record once its bytes are read: its signature and its bytes with the
  words of the known kinds swapped, or failure.
\<close>

definition checked_cv_record :: "bool \<Rightarrow> char list \<Rightarrow> (u32 \<times> char list) option" where
  "checked_cv_record swap p =
     (let signature = (if 4 < length p then u32_at swap p 0 else MD_CVINFOUNKNOWN_SIGNATURE) in
      if signature = MD_CVINFOPDB70_SIGNATURE then
        (if length p < MDCVInfoPDB70_minsize + 1 then None
         else let p = swap_fields swap [(0, 4), (4, 4), (8, 2), (10, 2), (20, 4)] p in
           if last p \<noteq> NUL then None else Some (signature, p))
      else if signature = MD_CVINFOPDB20_SIGNATURE then
        (if length p < MDCVInfoPDB20_minsize + 1 then None
         else let p = swap_fields swap (word_fields 0 4 4) p in
           if last p \<noteq> NUL then None else Some (signature, p))
      else if signature = MD_CVINFOELF_SIGNATURE then
        (if length p < MDCVInfoELF_minsize then None else Some (signature, swap_fields swap [(0, 4)] p))
      else Some (signature, p))"

definition GetCVRecord :: "MinidumpModule \<Rightarrow> minidump \<Rightarrow> char list option \<times> MinidumpModule \<times> minidump" where
  "GetCVRecord m d =
     (if \<not> mm_module_valid m then (None, m, d)
      else case mm_cv_record m of
        Some p \<Rightarrow> (Some p, m, d)
      | None \<Rightarrow>
          let location = cv_location (mm_module m) in
          if loc_size location = 0 then (None, m, d)
          else
            (case SeekSet (unat (loc_rva location)) d of
               (False, d) \<Rightarrow> (None, m, d)
             | (True, d) \<Rightarrow>
                 if max_cv_bytes < unat (loc_size location) then (None, m, d)
                 else
                   (case ReadBytes (unat (loc_size location)) d of
                      (None, d) \<Rightarrow> (None, m, d)
                    | (Some p, d) \<Rightarrow>
                        (case checked_cv_record (md_swap d) p of
                           None \<Rightarrow> (None, m, d)
                         | Some (signature, p) \<Rightarrow>
                             (Some p, m\<lparr>mm_cv_record := Some p, mm_cv_signature := signature\<rparr>, d)))))"

text \<open>The old kind of record: its length is checked against the size that was read.\<close>

definition checked_misc_record :: "bool \<Rightarrow> char list \<Rightarrow> char list option" where
  "checked_misc_record swap p =
     (let p = swap_fields swap (word_fields 0 4 2) p;
          p = (if word_at p 8 \<noteq> (0 :: u8)
            then swap_fields swap (word_fields 12 2 ((length p - MDImageDebugMisc_minsize) div 2)) p else p) in
      if length p \<noteq> unat (word_at p 4 :: u32) then None else Some p)"

definition GetMiscRecord :: "MinidumpModule \<Rightarrow> minidump \<Rightarrow> char list option \<times> MinidumpModule \<times> minidump" where
  "GetMiscRecord m d =
     (if \<not> mm_module_valid m then (None, m, d)
      else case mm_misc_record m of
        Some p \<Rightarrow> (Some p, m, d)
      | None \<Rightarrow>
          let location = misc_location (mm_module m) in
          if loc_size location = 0 then (None, m, d)
          else if unat (loc_size location) < MDImageDebugMisc_minsize then (None, m, d)
          else
            (case SeekSet (unat (loc_rva location)) d of
               (False, d) \<Rightarrow> (None, m, d)
             | (True, d) \<Rightarrow>
                 if max_misc_bytes < unat (loc_size location) then (None, m, d)
                 else
                   (case ReadBytes (unat (loc_size location)) d of
                      (None, d) \<Rightarrow> (None, m, d)
                    | (Some p, d) \<Rightarrow>
                        (case checked_misc_record (md_swap d) p of
                           None \<Rightarrow> (None, m, d)
                         | Some p \<Rightarrow> (Some p, m\<lparr>mm_misc_record := Some p\<rparr>, d)))))"

subsection \<open>Modules\<close>

definition module_of_raw :: "MDRawModule \<Rightarrow> MinidumpModule" where
  "module_of_raw raw =
     \<lparr>mm_valid = False, mm_module_valid = True, mm_has_debug_info = False, mm_module = raw, mm_name = None,
      mm_cv_record = None, mm_cv_signature = MD_CVINFOUNKNOWN_SIGNATURE, mm_misc_record = None\<rparr>"

definition Module_Read :: "minidump \<Rightarrow> MinidumpModule option \<times> minidump" where
  "Module_Read d =
     (case ReadBytes 108 d of
        (None, d) \<Rightarrow> (None, d)
      | (Some bytes, d) \<Rightarrow>
          (let raw = MDRawModule_at (md_swap d) bytes in
           if size_of_image raw = 0 \<or> - 1 - base_of_image raw < ucast (size_of_image raw) then (None, d)
           else (Some (module_of_raw raw), d)))"

definition ReadAuxiliaryData :: "MinidumpModule \<Rightarrow> minidump \<Rightarrow> bool \<times> MinidumpModule \<times> minidump" where
  "ReadAuxiliaryData m d =
     (if \<not> mm_module_valid m then (False, m, d)
      else case ReadString (unat (module_name_rva (mm_module m))) d of
        (None, d) \<Rightarrow> (False, m\<lparr>mm_name := None\<rparr>, d)
      | (Some name, d) \<Rightarrow>
          (let m = m\<lparr>mm_name := Some name, mm_valid := True\<rparr> in
           case (if loc_size (cv_location (mm_module m)) = 0 then (Some [], m, d) else GetCVRecord m d) of
             (None, m, d) \<Rightarrow> (False, m, d)
           | (Some _, m, d) \<Rightarrow>
               (case (if loc_size (misc_location (mm_module m)) = 0 then (Some [], m, d) else GetMiscRecord m d) of
                  (None, m, d) \<Rightarrow> (False, m, d)
                | (Some _, m, d) \<Rightarrow> (True, m\<lparr>mm_has_debug_info := True\<rparr>, d))))"

definition mm_base_address :: "MinidumpModule \<Rightarrow> u64" where
  "mm_base_address m = (if mm_valid m then base_of_image (mm_module m) else - 1)"

definition mm_size :: "MinidumpModule \<Rightarrow> u64" where
  "mm_size m = (if mm_valid m then ucast (size_of_image (mm_module m)) else 0)"

definition mm_code_file :: "MinidumpModule \<Rightarrow> string" where
  "mm_code_file m = (if \<not> mm_valid m then [] else case mm_name m of None \<Rightarrow> [] | Some name \<Rightarrow> name)"

text \<open>The build id of an ELF record, byte by byte.\<close>

definition build_id :: "char list \<Rightarrow> char list" where
  "build_id p = drop MDCVInfoELF_minsize p"

definition identifier_of_platform :: "MinidumpModule \<Rightarrow> u32 \<Rightarrow> string" where
  "identifier_of_platform m platform =
     (if platform = MD_OS_WIN32_NT \<or> platform = MD_OS_WIN32_WINDOWS then
        hex_upper 8 (m_time_date_stamp (mm_module m)) @ hex_lower 0 (size_of_image (mm_module m))
      else if platform \<in> {MD_OS_ANDROID, MD_OS_FUCHSIA, MD_OS_LINUX} \<and>
          mm_cv_record m \<noteq> None \<and> mm_cv_signature m = MD_CVINFOELF_SIGNATURE then
        concat (map (\<lambda>c. hex_lower 2 (of_char c :: u8)) (build_id (the (mm_cv_record m))))
      else if platform \<in> {MD_OS_ANDROID, MD_OS_FUCHSIA, MD_OS_LINUX, MD_OS_MAC_OS_X, MD_OS_IOS,
          MD_OS_SOLARIS, MD_OS_NACL, MD_OS_PS3} then ''id''
      else [])"

definition mm_code_identifier :: "MinidumpModule \<Rightarrow> minidump \<Rightarrow> (string \<times> minidump) run" where
  "mm_code_identifier m d =
     (if \<not> mm_valid m \<or> \<not> mm_has_debug_info m then Some ([], d)
      else do {
        (system_info, d) \<leftarrow> GetSystemInfo d;
        Some (case system_info of None \<Rightarrow> [] | Some info \<Rightarrow> identifier_of_platform m (platform_id info), d)
      })"

definition c_string_at :: "char list \<Rightarrow> nat \<Rightarrow> string" where
  "c_string_at p i = takeWhile (\<lambda>c. c \<noteq> NUL) (drop i p)"

definition cv_file :: "MinidumpModule \<Rightarrow> string" where
  "cv_file m =
     (case mm_cv_record m of
        None \<Rightarrow> []
      | Some p \<Rightarrow>
          if mm_cv_signature m = MD_CVINFOPDB70_SIGNATURE then c_string_at p MDCVInfoPDB70_minsize
          else if mm_cv_signature m = MD_CVINFOPDB20_SIGNATURE then c_string_at p MDCVInfoPDB20_minsize
          else if mm_cv_signature m = MD_CVINFOELF_SIGNATURE then mm_code_file m
          else [])"

definition misc_file :: "MinidumpModule \<Rightarrow> string" where
  "misc_file m =
     (case mm_misc_record m of
        None \<Rightarrow> []
      | Some p \<Rightarrow>
          let bytes = unat (loc_size (misc_location (mm_module m))) - MDImageDebugMisc_minsize in
          if word_at p 8 = (0 :: u8) then take bytes (drop MDImageDebugMisc_minsize p)
          else if bytes mod 2 = 0 then
            (case UTF16ToUTF8 (map (\<lambda>i. word_at p (MDImageDebugMisc_minsize + 2 * i)) [0..<bytes div 2]) False of
               None \<Rightarrow> []
             | Some new_file \<Rightarrow> new_file)
          else [])"

definition mm_debug_file :: "MinidumpModule \<Rightarrow> string" where
  "mm_debug_file m =
     (if \<not> mm_valid m \<or> \<not> mm_has_debug_info m then []
      else if cv_file m = [] then misc_file m else cv_file m)"

text \<open>A GUID in memory and an age, as symbol servers write them.\<close>

definition guid_and_age_to_debug_id :: "char list \<Rightarrow> u32 \<Rightarrow> string" where
  "guid_and_age_to_debug_id guid age =
     hex_upper 8 (word_at guid 0 :: u32) @ hex_upper 4 (word_at guid 4 :: u16) @ hex_upper 4 (word_at guid 6 :: u16) @
     concat (map (\<lambda>i. hex_upper 2 (word_at guid (8 + i) :: u8)) [0..<8]) @ hex_lower 0 age"

definition mm_debug_identifier :: "MinidumpModule \<Rightarrow> string" where
  "mm_debug_identifier m =
     (if \<not> mm_valid m \<or> \<not> mm_has_debug_info m then []
      else case mm_cv_record m of
        None \<Rightarrow> []
      | Some p \<Rightarrow>
          if mm_cv_signature m = MD_CVINFOPDB70_SIGNATURE then
            guid_and_age_to_debug_id (take 16 (drop 4 p)) (word_at p 20)
          else if mm_cv_signature m = MD_CVINFOPDB20_SIGNATURE then
            hex_upper 8 (word_at p 8 :: u32) @ hex_lower 0 (word_at p 12 :: u32)
          else if mm_cv_signature m = MD_CVINFOELF_SIGNATURE then
            guid_and_age_to_debug_id (take 16 (take 16 (build_id p) @ replicate 16 NUL)) 0
          else [])"

definition MD_VSFIXEDFILEINFO_SIGNATURE :: u32 where "MD_VSFIXEDFILEINFO_SIGNATURE = 0xfeef04bd"
definition MD_VSFIXEDFILEINFO_VERSION :: u32 where "MD_VSFIXEDFILEINFO_VERSION = 0x00010000"

definition mm_version :: "MinidumpModule \<Rightarrow> string" where
  "mm_version m =
     (if \<not> mm_valid m then []
      else let info = version_info (mm_module m) in
        if info ! 0 = MD_VSFIXEDFILEINFO_SIGNATURE \<and> info ! 1 AND MD_VSFIXEDFILEINFO_VERSION \<noteq> 0 then
          decimal (drop_bit 16 (info ! 2)) @ ''.'' @ decimal (info ! 2 AND 0xffff) @ ''.'' @
          decimal (drop_bit 16 (info ! 3)) @ ''.'' @ decimal (info ! 3 AND 0xffff)
        else [])"

text \<open>A module as the \<open>CodeModule\<close> interface shows it.\<close>

definition code_module_of :: "MinidumpModule \<Rightarrow> minidump \<Rightarrow> (CodeModule \<times> minidump) run" where
  "code_module_of m d = do {
     (identifier, d) \<leftarrow> mm_code_identifier m d;
     Some (\<lparr>module_object = 0, base_address = mm_base_address m, module_size = mm_size m, shrink_down_delta = 0,
        code_file = mm_code_file m, code_ident = identifier, debug_file = mm_debug_file m,
        debug_ident = mm_debug_identifier m, module_version = mm_version m, is_unloaded = False\<rparr>, d)
   }"

subsection \<open>The list of modules\<close>

definition max_modules :: nat where "max_modules = 2048"

definition IsDevAshmem :: "string \<Rightarrow> bool" where
  "IsDevAshmem filename = (take (length ''/dev/ashmem/'') filename = ''/dev/ashmem/'')"

fun read_modules :: "nat \<Rightarrow> minidump \<Rightarrow> MinidumpModule list option \<times> minidump" where
  "read_modules 0 d = (Some [], d)"
| "read_modules (Suc n) d =
     (case Module_Read d of
        (None, d) \<Rightarrow> (None, d)
      | (Some m, d) \<Rightarrow>
          (case read_modules n d of
             (None, d) \<Rightarrow> (None, d)
           | (Some ms, d) \<Rightarrow> (Some (m # ms), d)))"

definition ModuleList_StoreRange ::
  "(u64, u32) range_map \<Rightarrow> MinidumpModule \<Rightarrow> u64 \<Rightarrow> u32 \<Rightarrow> bool \<Rightarrow> ((u64, u32) range_map \<times> bool) run" where
  "ModuleList_StoreRange rm m base module_index is_android = do {
     (rm, stored) \<leftarrow> StoreRange rm base (mm_size m) module_index;
     Some (rm, stored \<or> is_android \<and> IsDevAshmem (mm_code_file m))
   }"

text \<open>Whether a module repeats the one whose range holds its base.\<close>

definition duplicate_module ::
  "(u64, u32) range_map \<Rightarrow> MinidumpModule list \<Rightarrow> MinidumpModule \<Rightarrow> minidump \<Rightarrow> (bool \<times> minidump) run" where
  "duplicate_module rm ms m d =
     (case RetrieveRange rm (mm_base_address m) of
        None \<Rightarrow> Some (False, d)
      | Some (existing_index, _) \<Rightarrow>
          if of_nat (length ms) \<le> existing_index then Some (False, d)
          else
            let existing = ms ! unat existing_index in
            if mm_base_address existing = mm_base_address m \<and> mm_size existing = mm_size m \<and>
               mm_code_file existing = mm_code_file m
            then do {
              (identifier1, d) \<leftarrow> mm_code_identifier existing d;
              (identifier2, d) \<leftarrow> mm_code_identifier m d;
              Some (identifier1 = identifier2, d)
            }
            else Some (False, d))"

text \<open>
  Storing the range of one module.  On Android a module may begin below the end of the one
  before it; then only the part above that end is stored.  The result is the end of the module,
  or failure.
\<close>

definition store_module_range ::
  "(u64, u32) range_map \<Rightarrow> MinidumpModule \<Rightarrow> u32 \<Rightarrow> u64 \<Rightarrow> bool \<Rightarrow> ((u64, u32) range_map \<times> u64 option) run" where
  "store_module_range rm m module_index last_end_address is_android = do {
     let base = mm_base_address m;
     let size = mm_size m;
     (rm, stored) \<leftarrow> ModuleList_StoreRange rm m base module_index is_android;
     if stored then Some (rm, Some (base + size))
     else if \<not> is_android \<or> last_end_address \<le> base then Some (rm, None)
     else do {
       let size = size - (last_end_address - base);
       (rm, stored) \<leftarrow> StoreRange rm last_end_address size module_index;
       Some (rm, if stored then Some (last_end_address + size) else None)
     }
   }"

text \<open>The second loop of \<open>Read\<close>, over the indices that are left.\<close>

fun store_module_ranges ::
  "nat list \<Rightarrow> MinidumpModule list \<Rightarrow> (u64, u32) range_map \<Rightarrow> u64 \<Rightarrow> minidump \<Rightarrow>
     ((MinidumpModule list \<times> (u64, u32) range_map) option \<times> minidump) run" where
  "store_module_ranges [] ms rm last_end_address d = Some (Some (ms, rm), d)"
| "store_module_ranges (i # is) ms rm last_end_address d =
     (case ReadAuxiliaryData (ms ! i) d of
        (ok, m, d) \<Rightarrow>
          let ms = ms[i := m] in
          if \<not> ok \<and> \<not> mm_valid m then Some (None, d)
          else if mm_base_address m = - 1 then Some (None, d)
          else do {
            (duplicate, d) \<leftarrow> duplicate_module rm ms m d;
            if duplicate then store_module_ranges is ms rm last_end_address d
            else do {
              (is_android, d) \<leftarrow> IsAndroid d;
              (rm, end_address) \<leftarrow> store_module_range rm m (of_nat i) last_end_address is_android;
              (case end_address of
                 None \<Rightarrow> Some (None, d)
               | Some end_address \<Rightarrow> store_module_ranges is ms rm end_address d)
            }
          })"

text \<open>
  The constructor, which picks the strategy, and \<open>Read\<close>.  Looking up the platform restores
  the position in the file.
\<close>

definition ModuleList_Read :: "u32 \<Rightarrow> minidump \<Rightarrow> (md_stream option \<times> minidump) run" where
  "ModuleList_Read expected_size d = do {
     (platform, d) \<leftarrow> GetPlatform d;
     let rm = \<lparr>merge_strategy =
           (if platform = Some MD_OS_ANDROID \<or> platform = Some MD_OS_LINUX then kTruncateLower else kExclusiveRanges),
         rmap = []\<rparr>;
     (case read_list_count 108 expected_size d of
        (None, d) \<Rightarrow> Some (None, d)
      | (Some count, d) \<Rightarrow>
          if max_modules < count then Some (None, d)
          else
            (case read_modules count d of
               (None, d) \<Rightarrow> Some (None, d)
             | (Some ms, d) \<Rightarrow> do {
                 (result, d) \<leftarrow> store_module_ranges [0..<count] ms rm 0 d;
                 Some (map_option (\<lambda>(ms, rm). Module_list
                     \<lparr>ml_range_map = rm, ml_modules = ms, ml_count = of_nat count\<rparr>) result, d)
               }))
   }"

definition ModuleList_GetModuleAtIndex :: "MinidumpModuleList \<Rightarrow> u32 \<Rightarrow> MinidumpModule option" where
  "ModuleList_GetModuleAtIndex l index = (if ml_count l \<le> index then None else Some (ml_modules l ! unat index))"

definition ModuleList_GetModuleForAddress :: "MinidumpModuleList \<Rightarrow> u64 \<Rightarrow> MinidumpModule option" where
  "ModuleList_GetModuleForAddress l address =
     (case RetrieveRange (ml_range_map l) address of
        None \<Rightarrow> None
      | Some (module_index, _) \<Rightarrow> ModuleList_GetModuleAtIndex l module_index)"

definition ModuleList_GetMainModule :: "MinidumpModuleList \<Rightarrow> MinidumpModule option" where
  "ModuleList_GetMainModule l = ModuleList_GetModuleAtIndex l 0"

definition ModuleList_GetModuleAtSequence :: "MinidumpModuleList \<Rightarrow> u32 \<Rightarrow> MinidumpModule option run" where
  "ModuleList_GetModuleAtSequence l sequence =
     (if ml_count l \<le> sequence then Some None
      else case RetrieveRangeAtIndex (ml_range_map l) (sint sequence) of
        None \<Rightarrow> None
      | Some None \<Rightarrow> Some None
      | Some (Some (module_index, _)) \<Rightarrow> Some (ModuleList_GetModuleAtIndex l module_index))"

fun code_modules_of :: "MinidumpModule list \<Rightarrow> minidump \<Rightarrow> (CodeModule list \<times> minidump) run" where
  "code_modules_of [] d = Some ([], d)"
| "code_modules_of (m # ms) d = do {
     (c, d) \<leftarrow> code_module_of m d;
     (cs, d) \<leftarrow> code_modules_of ms d;
     Some (c # cs, d)
   }"

definition ModuleList_Copy :: "MinidumpModuleList \<Rightarrow> minidump \<Rightarrow> (basic_code_modules \<times> minidump) run" where
  "ModuleList_Copy l d = do {
     (cs, d) \<leftarrow> code_modules_of (ml_modules l) d;
     copy \<leftarrow> BasicCodeModules cs (case cs of [] \<Rightarrow> None | c # _ \<Rightarrow> Some c) (merge_strategy (ml_range_map l));
     Some (copy, d)
   }"

definition GetModuleList :: "minidump \<Rightarrow> (MinidumpModuleList option \<times> minidump) run" where
  "GetModuleList d =
     (case GetStream MD_MODULE_LIST_STREAM ModuleList_Read d of
        Some (None, d) \<Rightarrow> Some (None, d)
      | Some (Some (Module_list l), d) \<Rightarrow> Some (Some l, d)
      | _ \<Rightarrow> None)"

subsection \<open>Reading the modules keeps no other stream than the system information\<close>

definition system_extends :: "minidump \<Rightarrow> minidump \<Rightarrow> bool" where
  "system_extends d d' =
     (dump_extends d d' \<and> (\<forall>t. t \<noteq> MD_SYSTEM_INFO_STREAM \<longrightarrow> kept_stream d' t = kept_stream d t))"

lemma system_extends_refl [simp, intro]: "system_extends d d"
  by (simp add: system_extends_def)

lemma system_extends_trans [trans]: "system_extends d d' \<Longrightarrow> system_extends d' d'' \<Longrightarrow> system_extends d d''"
  using dump_extends_trans by (auto simp: system_extends_def)

lemma system_extends_typed: "system_extends d d' \<Longrightarrow> streams_typed d \<Longrightarrow> streams_typed d'"
  using dump_extends_typed by (auto simp: system_extends_def)

lemma system_extends_map:
  "dump_extends d d' \<Longrightarrow> md_stream_map d' = md_stream_map d \<Longrightarrow> system_extends d d'"
  unfolding system_extends_def using kept_stream_same_map by blast

lemma SeekSet_system: "SeekSet offset d = (ok, d') \<Longrightarrow> system_extends d d'"
  using SeekSet_extends SeekSet_file file_map system_extends_map by blast

lemma ReadBytes_system: "ReadBytes n d = (bytes, d') \<Longrightarrow> system_extends d d'"
  using ReadBytes_extends ReadBytes_map system_extends_map by blast

lemma read_u32_field_system: "read_u32_field d = (w, d') \<Longrightarrow> system_extends d d'"
  by (auto simp: read_u32_field_def dest!: ReadBytes_system split: prod.splits option.splits)

lemma read_list_count_system: "read_list_count k n d = (w, d') \<Longrightarrow> system_extends d d'"
  using read_list_count_extends read_list_count_map system_extends_map by blast

lemma ReadString_system:
  assumes "ReadString offset d = (result, d')"
  shows "system_extends d d'"
proof -
  obtain ok d1 where seek: "SeekSet offset d = (ok, d1)" by fastforce
  obtain bytes d2 where count: "read_u32_field d1 = (bytes, d2)" by fastforce
  obtain p d3 where bytes: "ReadBytes (unat (the bytes)) d2 = (p, d3)" by fastforce
  have "d' \<in> {d, d1, d2, d3}"
    using assms seek count bytes
    by (cases ok; cases bytes; cases p) (auto simp: ReadString_def Let_def split: if_splits)
  with SeekSet_system [OF seek] read_u32_field_system [OF count] ReadBytes_system [OF bytes] show ?thesis
    by (auto intro: system_extends_trans)
qed

lemma GetStream_other:
  assumes run: "GetStream t read_stream d = Some (result, d')"
    and reader: "\<And>n d1 r d2. read_stream n d1 = Some (r, d2) \<Longrightarrow> md_stream_map d2 = md_stream_map d1"
    and other: "t' \<noteq> t"
  shows "kept_stream d' t' = kept_stream d t'"
proof (cases "md_valid d \<and> map_of (md_stream_map d) t \<noteq> None \<and> kept_stream d t = None")
  case False
  with run have "d' = d" by (auto simp: GetStream_def kept_stream_def split: option.splits if_splits)
  then show ?thesis by simp
next
  case True
  obtain n d1 where seek: "SeekToStreamType t d = (n, d1)" by fastforce
  have map1: "md_stream_map d1 = md_stream_map d" using file_map [OF SeekToStreamType_file [OF seek]] .
  show ?thesis
  proof (cases n)
    case None
    with run True seek have "d' = d1" by (auto simp: GetStream_def kept_stream_def split: option.splits)
    then show ?thesis using kept_stream_same_map [OF map1] by simp
  next
    case (Some len)
    with run True seek obtain r d2 where read: "read_stream len d1 = Some (r, d2)"
      and d': "d' = (case r of None \<Rightarrow> d2 | Some st \<Rightarrow> keep_stream t st d2)"
      by (auto simp: GetStream_def kept_stream_def split: option.splits bind_splits)
    have "kept_stream d2 t' = kept_stream d t'"
      using kept_stream_same_map [OF reader [OF read]] kept_stream_same_map [OF map1] by simp
    then show ?thesis using other by (cases r) (simp_all add: d' kept_stream_keep)
  qed
qed

lemma GetSystemInfo_system:
  assumes "streams_typed d"
  shows "\<exists>result d'. GetSystemInfo d = Some (result, d') \<and> system_extends d d'"
proof -
  obtain result d' where run: "GetSystemInfo d = Some (result, d')" "dump_extends d d'"
    using GetSystemInfo_run [OF assms] by blast
  obtain st where "GetStream MD_SYSTEM_INFO_STREAM SystemInfo_Read d = Some (st, d')"
    using run(1) by (auto simp: GetSystemInfo_def split: option.splits prod.splits md_stream.splits)
  moreover have "md_stream_map d2 = md_stream_map d1" if "SystemInfo_Read n d1 = Some (r, d2)" for n d1 r d2
    using that by (auto simp: SystemInfo_Read_def dest: ReadBytes_map split: if_splits prod.splits option.splits)
  ultimately have "kept_stream d' t = kept_stream d t" if "t \<noteq> MD_SYSTEM_INFO_STREAM" for t
    using GetStream_other that by blast
  with run show ?thesis by (auto simp: system_extends_def)
qed

lemma GetPlatform_system:
  assumes "streams_typed d"
  shows "\<exists>platform d'. GetPlatform d = Some (platform, d') \<and> system_extends d d'"
proof (cases "Tell d")
  case None
  then show ?thesis by (auto simp: GetPlatform_def)
next
  case (Some position)
  obtain info d1 where info: "GetSystemInfo d = Some (info, d1)" "system_extends d d1"
    using GetSystemInfo_system [OF assms] by blast
  obtain ok d2 where seek: "SeekSet position d1 = (ok, d2)" by fastforce
  from info(2) SeekSet_system [OF this] have "system_extends d d2" by (rule system_extends_trans)
  with Some info(1) seek show ?thesis by (auto simp: GetPlatform_def Let_def)
qed

lemma IsAndroid_system:
  assumes "streams_typed d"
  shows "\<exists>b d'. IsAndroid d = Some (b, d') \<and> system_extends d d'"
  using GetPlatform_system [OF assms] by (auto simp: IsAndroid_def)

lemma mm_code_identifier_system:
  assumes "streams_typed d"
  shows "\<exists>s d'. mm_code_identifier m d = Some (s, d') \<and> system_extends d d'"
  using GetSystemInfo_system [OF assms] by (auto simp: mm_code_identifier_def)

lemma duplicate_module_system:
  assumes "streams_typed d"
  shows "\<exists>b d'. duplicate_module rm ms m d = Some (b, d') \<and> system_extends d d'"
proof -
  have "\<exists>b d'. (do {
          (identifier1, d) \<leftarrow> mm_code_identifier x d;
          (identifier2, d) \<leftarrow> mm_code_identifier m d;
          Some (identifier1 = identifier2, d)
        }) = Some (b, d') \<and> system_extends d d'" for x
  proof -
    obtain s1 d1 where first: "mm_code_identifier x d = Some (s1, d1)" "system_extends d d1"
      using mm_code_identifier_system [OF assms] by blast
    obtain s2 d2 where second: "mm_code_identifier m d1 = Some (s2, d2)" "system_extends d1 d2"
      using mm_code_identifier_system [OF system_extends_typed [OF first(2) assms]] by blast
    with first show ?thesis by (auto intro: system_extends_trans)
  qed
  then show ?thesis
    by (cases "RetrieveRange rm (mm_base_address m)") (auto simp: duplicate_module_def Let_def)
qed

lemma GetCVRecord_system:
  assumes "GetCVRecord m d = (result, m', d')"
  shows "system_extends d d' \<and> mm_module m' = mm_module m \<and> mm_valid m' = mm_valid m"
proof -
  let ?location = "cv_location (mm_module m)"
  obtain ok d1 where seek: "SeekSet (unat (loc_rva ?location)) d = (ok, d1)" by fastforce
  obtain p d2 where bytes: "ReadBytes (unat (loc_size ?location)) d1 = (p, d2)" by fastforce
  have "d' \<in> {d, d1, d2} \<and> mm_module m' = mm_module m \<and> mm_valid m' = mm_valid m"
    using assms seek bytes
    by (cases ok; cases p) (auto simp: GetCVRecord_def Let_def split: if_splits option.splits)
  with SeekSet_system [OF seek] ReadBytes_system [OF bytes] show ?thesis
    by (auto intro: system_extends_trans)
qed

lemma GetMiscRecord_system:
  assumes "GetMiscRecord m d = (result, m', d')"
  shows "system_extends d d' \<and> mm_module m' = mm_module m \<and> mm_valid m' = mm_valid m"
proof -
  let ?location = "misc_location (mm_module m)"
  obtain ok d1 where seek: "SeekSet (unat (loc_rva ?location)) d = (ok, d1)" by fastforce
  obtain p d2 where bytes: "ReadBytes (unat (loc_size ?location)) d1 = (p, d2)" by fastforce
  have "d' \<in> {d, d1, d2} \<and> mm_module m' = mm_module m \<and> mm_valid m' = mm_valid m"
    using assms seek bytes
    by (cases ok; cases p) (auto simp: GetMiscRecord_def Let_def split: if_splits option.splits)
  with SeekSet_system [OF seek] ReadBytes_system [OF bytes] show ?thesis
    by (auto intro: system_extends_trans)
qed

lemma ReadAuxiliaryData_system:
  assumes "ReadAuxiliaryData m d = (ok, m', d')"
  shows "system_extends d d'" and "mm_module m' = mm_module m" and "ok \<Longrightarrow> mm_valid m'"
proof -
  obtain name d1 where name: "ReadString (unat (module_name_rva (mm_module m))) d = (name, d1)" by fastforce
  let ?m = "m\<lparr>mm_name := name, mm_valid := True\<rparr>"
  obtain cv m2 d2 where cv: "(if loc_size (cv_location (mm_module ?m)) = 0 then (Some [], ?m, d1) else GetCVRecord ?m d1) = (cv, m2, d2)"
    by (metis prod_cases3)
  obtain misc m3 d3 where misc: "(if loc_size (misc_location (mm_module m2)) = 0 then (Some [], m2, d2) else GetMiscRecord m2 d2) = (misc, m3, d3)"
    by (metis prod_cases3)
  have m2: "system_extends d1 d2 \<and> mm_module m2 = mm_module m \<and> mm_valid m2"
    using cv GetCVRecord_system [of ?m d1 cv m2 d2] by (auto split: if_splits)
  have m3: "system_extends d2 d3 \<and> mm_module m3 = mm_module m2 \<and> mm_valid m3"
    using misc m2 GetMiscRecord_system [of m2 d2 misc m3 d3] by (auto split: if_splits)
  have "(ok, m', d') =
      (if \<not> mm_module_valid m then (False, m, d)
       else if name = None then (False, m\<lparr>mm_name := None\<rparr>, d1)
       else if cv = None then (False, m2, d2)
       else if misc = None then (False, m3, d3)
       else (True, m3\<lparr>mm_has_debug_info := True\<rparr>, d3))"
  proof (cases name)
    case None
    with assms name show ?thesis by (auto simp: ReadAuxiliaryData_def split: if_splits)
  next
    case (Some n)
    have "ReadAuxiliaryData m d =
        (if \<not> mm_module_valid m then (False, m, d)
         else case (cv, m2, d2) of
             (None, m, d) \<Rightarrow> (False, m, d)
           | (Some _, m, d) \<Rightarrow>
               (case (if loc_size (misc_location (mm_module m)) = 0 then (Some [], m, d) else GetMiscRecord m d) of
                  (None, m, d) \<Rightarrow> (False, m, d)
                | (Some _, m, d) \<Rightarrow> (True, m\<lparr>mm_has_debug_info := True\<rparr>, d)))"
      using name unfolding ReadAuxiliaryData_def Some cv [symmetric, unfolded Some] by simp
    also have "\<dots> = (if \<not> mm_module_valid m then (False, m, d)
       else if name = None then (False, m\<lparr>mm_name := None\<rparr>, d1)
       else if cv = None then (False, m2, d2)
       else if misc = None then (False, m3, d3)
       else (True, m3\<lparr>mm_has_debug_info := True\<rparr>, d3))"
      using misc Some by (cases cv; cases misc) simp_all
    finally show ?thesis by (simp only: assms)
  qed
  with m2 m3 ReadString_system [OF name]
  show "system_extends d d'" "mm_module m' = mm_module m" "ok \<Longrightarrow> mm_valid m'"
    by (auto split: if_splits intro: system_extends_trans)
qed

subsection \<open>Every module is found inside its own range\<close>

definition raw_module_ok :: "MDRawModule \<Rightarrow> bool" where
  "raw_module_ok raw = (size_of_image raw \<noteq> 0 \<and> ucast (size_of_image raw) \<le> - 1 - base_of_image raw)"

definition module_holds :: "MinidumpModule \<Rightarrow> u64 \<Rightarrow> bool" where
  "module_holds m a =
     (mm_valid m \<and> unat (base_of_image (mm_module m)) \<le> unat a \<and>
      unat a < unat (base_of_image (mm_module m)) + unat (size_of_image (mm_module m)))"

definition index_sound :: "MinidumpModule list \<Rightarrow> (u64, u32) range_map \<Rightarrow> bool" where
  "index_sound ms rm =
     (range_map_ok rm \<and>
      (\<forall>a k off. offset_at rm a = Some (k, off) \<longrightarrow> (\<exists>i<length ms. k = of_nat i \<and> module_holds (ms ! i) a)))"

lemma raw_module_sum:
  assumes "raw_module_ok raw"
  shows "unat (base_of_image raw) + unat (size_of_image raw) < 2 ^ 64"
proof -
  have "unat (size_of_image raw) \<le> unat (- 1 - base_of_image raw)"
    using assms by (simp add: raw_module_ok_def word_le_nat_alt)
  also have "\<dots> = 2 ^ 64 - 1 - unat (base_of_image raw)"
    by (subst unat_sub) (simp_all add: unsigned_minus_1_eq_mask mask_eq_exp_minus_1)
  finally show ?thesis using unsigned_less [of "base_of_image raw", where ?'a = nat] by simp
qed

lemma last_of_module:
  assumes ok: "raw_module_ok (mm_module m)" and valid: "mm_valid m"
    and a: "base_of_image (mm_module m) \<le> a" "a \<le> base_of_image (mm_module m) + (ucast (size_of_image (mm_module m)) - 1)"
  shows "module_holds m a"
proof -
  let ?base = "base_of_image (mm_module m)" and ?size = "size_of_image (mm_module m)"
  have size: "0 < unat ?size" using ok by (simp add: raw_module_ok_def unat_gt_0)
  then have "unat (ucast ?size - 1 :: u64) = unat ?size - 1"
    by (subst unat_sub) (simp_all add: word_le_nat_alt)
  then have "unat (?base + (ucast ?size - 1)) = unat ?base + (unat ?size - 1)"
    using size raw_module_sum [OF ok] by (simp add: unat_word_ariths)
  with size a valid show ?thesis by (auto simp: module_holds_def word_le_nat_alt)
qed

lemma store_index_sound:
  assumes sound: "index_sound ms rm" and run: "StoreRange rm base sz (of_nat i) = Some (rm', stored)"
    and i: "i < length ms"
    and inside: "\<And>a. sz \<noteq> 0 \<Longrightarrow> base \<le> a \<Longrightarrow> a \<le> base + (sz - 1) \<Longrightarrow> module_holds (ms ! i) a"
  shows "index_sound ms rm'"
proof -
  have ok: "range_map_ok rm" using sound by (simp add: index_sound_def)
  have "range_map_ok rm'"
    using StoreRangeInternal_outcome [OF ok, of base 0 sz "of_nat i"] run
    by (auto simp: StoreRange_def store_outcome_def split: option.split_asm)
  moreover have "\<exists>j<length ms. k = of_nat j \<and> module_holds (ms ! j) a" if "offset_at rm' a = Some (k, off)" for a k off
    using store_offsets [OF ok run that] sound i inside by (auto simp: index_sound_def)
  ultimately show ?thesis by (auto simp: index_sound_def)
qed

lemma StoreRange_run:
  assumes "range_map_ok rm"
  shows "\<exists>rm' stored. StoreRange rm base sz e = Some (rm', stored)"
  using StoreRangeInternal_outcome [OF assms, of base 0 sz e]
  by (auto simp: store_outcome_def StoreRange_def split: option.split_asm)

lemma store_module_range_sound:
  assumes sound: "index_sound ms rm" and i: "i < length ms" and m: "ms ! i = m"
    and ok: "raw_module_ok (mm_module m)" and valid: "mm_valid m"
  shows "\<exists>rm' end_address. store_module_range rm m (of_nat i) last_end android = Some (rm', end_address) \<and> index_sound ms rm'"
proof -
  let ?base = "base_of_image (mm_module m)" and ?size = "ucast (size_of_image (mm_module m)) :: u64"
  have mm: "mm_base_address m = ?base" "mm_size m = ?size" using valid by (simp_all add: mm_base_address_def mm_size_def)
  obtain rm1 stored where first: "StoreRange rm ?base ?size (of_nat i) = Some (rm1, stored)"
    using StoreRange_run sound index_sound_def by metis
  have sound1: "index_sound ms rm1"
    by (rule store_index_sound [OF sound first i]) (use last_of_module [OF ok valid] m in auto)
  let ?stored = "stored \<or> android \<and> IsDevAshmem (mm_code_file m)"
  show ?thesis
  proof (cases "?stored \<or> \<not> android \<or> last_end \<le> ?base")
    case True
    with first sound1 show ?thesis
      by (auto simp: store_module_range_def ModuleList_StoreRange_def mm Let_def)
  next
    case False
    let ?cut = "?size - (last_end - ?base)"
    obtain rm2 stored2 where second: "StoreRange rm1 last_end ?cut (of_nat i) = Some (rm2, stored2)"
      using StoreRange_run sound1 index_sound_def by metis
    have "index_sound ms rm2"
    proof (rule store_index_sound [OF sound1 second i])
      fix a assume "last_end \<le> a" "a \<le> last_end + (?cut - 1)"
      moreover have "last_end + (?cut - 1) = ?base + (?size - 1)" by simp
      ultimately show "module_holds (ms ! i) a"
        unfolding m using False by (intro last_of_module [OF ok valid]) auto
    qed
    with False first second show ?thesis
      by (auto simp: store_module_range_def ModuleList_StoreRange_def mm Let_def)
  qed
qed

lemma index_sound_update:
  assumes "index_sound ms rm" and "mm_module m = mm_module (ms ! i)" and "mm_valid m"
  shows "index_sound (ms[i := m]) rm"
proof -
  have "module_holds (ms[i := m] ! j) a" if "module_holds (ms ! j) a" "j < length ms" for j a
    using that assms(2,3) by (cases "j = i") (simp_all add: module_holds_def)
  then show ?thesis using assms(1) unfolding index_sound_def length_list_update by blast
qed

text \<open>What one call of the loop over the read modules leaves of the list: the records are the
same ones, those visited are valid, and no valid module has become invalid.\<close>

definition ranges_stored ::
  "nat list \<Rightarrow> MinidumpModule list \<Rightarrow> (MinidumpModule list \<times> (u64, u32) range_map) option \<Rightarrow> bool" where
  "ranges_stored ids ms result =
     (case result of None \<Rightarrow> True
      | Some (ms', rm) \<Rightarrow> index_sound ms' rm \<and> map mm_module ms' = map mm_module ms \<and>
          (\<forall>i\<in>set ids. mm_valid (ms' ! i)) \<and> (\<forall>i<length ms. mm_valid (ms ! i) \<longrightarrow> mm_valid (ms' ! i)))"

lemma ranges_stored_Cons:
  assumes "ranges_stored ids (ms[i := m]) result" and "i < length ms"
    and "mm_module m = mm_module (ms ! i)" and "mm_valid m"
  shows "ranges_stored (i # ids) ms result"
proof (cases result)
  case (Some p)
  obtain ms' rm where p: "p = (ms', rm)" by fastforce
  have "map mm_module (ms[i := m]) = map mm_module ms"
    by (simp add: map_update assms(2,3) list_update_same_conv)
  then have index: "index_sound ms' rm" and modules: "map mm_module ms' = map mm_module ms"
    and rest: "\<forall>j\<in>set ids. mm_valid (ms' ! j)"
    and kept: "\<And>j. j < length ms \<Longrightarrow> mm_valid (ms[i := m] ! j) \<Longrightarrow> mm_valid (ms' ! j)"
    using assms(1) by (simp_all add: ranges_stored_def Some p)
  have "mm_valid (ms' ! i)" using kept [of i] assms(2,4) by simp
  moreover have "mm_valid (ms' ! j)" if "j < length ms" "mm_valid (ms ! j)" for j
    using kept [of j] that assms(4) by (cases "j = i") simp_all
  ultimately show ?thesis using index modules rest by (simp add: ranges_stored_def Some p)
qed (simp add: ranges_stored_def)

lemma store_module_ranges_run:
  assumes "streams_typed d" and "index_sound ms rm" and "\<forall>i\<in>set ids. i < length ms"
    and "\<forall>m\<in>set ms. raw_module_ok (mm_module m)"
  shows "\<exists>result d'. store_module_ranges ids ms rm last_end d = Some (result, d') \<and>
    system_extends d d' \<and> ranges_stored ids ms result"
  using assms
proof (induction ids arbitrary: ms rm last_end d)
  case Nil
  then show ?case by (simp add: ranges_stored_def)
next
  case (Cons i ids)
  obtain ok m d1 where aux: "ReadAuxiliaryData (ms ! i) d = (ok, m, d1)" by (metis prod_cases3)
  note facts = ReadAuxiliaryData_system [OF aux]
  note typed1 = system_extends_typed [OF facts(1) Cons.prems(1)]
  let ?ms = "ms[i := m]"
  have i: "i < length ms" using Cons.prems(3) by simp
  show ?case
  proof (cases "\<not> ok \<and> \<not> mm_valid m \<or> mm_base_address m = - 1")
    case True
    with aux facts(1) show ?thesis by (auto simp: Let_def ranges_stored_def)
  next
    case False
    then have valid: "mm_valid m" using facts(3) by blast
    have sound: "index_sound ?ms rm" by (rule index_sound_update [OF Cons.prems(2) facts(2) valid])
    have raw: "\<forall>m\<in>set ?ms. raw_module_ok (mm_module m)"
      using Cons.prems(4) facts(2) i set_update_subset_insert [of ms i m] nth_mem [OF i] by fastforce
    have ids: "\<forall>j\<in>set ids. j < length ?ms" using Cons.prems(3) by simp
    have carry: "\<exists>result d'. store_module_ranges (i # ids) ms rm last_end d = Some (result, d') \<and>
        system_extends d d' \<and> ranges_stored (i # ids) ms result"
      if "streams_typed e" "index_sound ?ms rm'" "system_extends d e"
        "store_module_ranges (i # ids) ms rm last_end d = store_module_ranges ids ?ms rm' end_address e"
      for e rm' end_address
    proof -
      from Cons.IH [OF that(1,2) ids raw] obtain result d' where
        "store_module_ranges ids ?ms rm' end_address e = Some (result, d')" "system_extends e d'"
        "ranges_stored ids ?ms result" by blast
      with that(3,4) system_extends_trans [OF that(3)] ranges_stored_Cons [OF _ i facts(2) valid]
      show ?thesis by auto
    qed
    obtain duplicate d2 where dup: "duplicate_module rm ?ms m d1 = Some (duplicate, d2)" "system_extends d1 d2"
      using duplicate_module_system [OF typed1] by blast
    note ext2 = system_extends_trans [OF facts(1) dup(2)]
    note typed2 = system_extends_typed [OF ext2 Cons.prems(1)]
    show ?thesis
    proof (cases duplicate)
      case True
      show ?thesis
        by (rule carry [OF typed2 sound ext2, of last_end]) (use aux False dup(1) True in \<open>auto simp: Let_def\<close>)
    next
      case no: False
      obtain android d3 where android: "IsAndroid d2 = Some (android, d3)" "system_extends d2 d3"
        using IsAndroid_system [OF typed2] by blast
      note ext3 = system_extends_trans [OF ext2 android(2)]
      note typed3 = system_extends_typed [OF ext3 Cons.prems(1)]
      obtain rm2 end_address where store: "store_module_range rm m (of_nat i) last_end android = Some (rm2, end_address)"
        "index_sound ?ms rm2"
        using store_module_range_sound [OF sound _ _ _ valid, of i last_end android] i raw
          set_update_memI [OF i, of m] by auto
      show ?thesis
      proof (cases end_address)
        case None
        then have "store_module_ranges (i # ids) ms rm last_end d = Some (None, d3)"
          using aux False dup(1) no android(1) store(1) by (auto simp: Let_def)
        with ext3 show ?thesis by (simp add: ranges_stored_def)
      next
        case (Some e)
        show ?thesis
          by (rule carry [OF typed3 store(2) ext3, of e])
            (use aux False dup(1) no android(1) store(1) Some in \<open>auto simp: Let_def\<close>)
      qed
    qed
  qed
qed

lemma read_modules_sound:
  assumes "read_modules n d = (result, d')"
  shows "system_extends d d'"
    and "result = Some ms \<Longrightarrow> length ms = n \<and> (\<forall>m\<in>set ms. raw_module_ok (mm_module m))"
proof -
  have "system_extends d d' \<and>
      (\<forall>ms. result = Some ms \<longrightarrow> length ms = n \<and> (\<forall>m\<in>set ms. raw_module_ok (mm_module m)))"
    using assms
  proof (induction n arbitrary: d d' result)
    case (Suc n)
    obtain m d1 where read: "Module_Read d = (m, d1)" by fastforce
    obtain rest d2 where rest: "read_modules n d1 = (rest, d2)" by fastforce
    obtain bytes d0 where bytes: "ReadBytes 108 d = (bytes, d0)" by fastforce
    then have d1: "system_extends d d1" and m: "\<And>x. m = Some x \<Longrightarrow> raw_module_ok (mm_module x)"
      using read ReadBytes_system [OF bytes]
      by (auto simp: Module_Read_def Let_def raw_module_ok_def module_of_raw_def split: option.splits if_splits)
    show ?case
    proof (cases m)
      case None
      with Suc.prems read d1 show ?thesis by simp
    next
      case (Some x)
      with Suc.prems read rest have "d' = d2" "result = map_option ((#) x) rest" by (auto split: option.splits)
      with Suc.IH [OF rest] system_extends_trans [OF d1] m [OF Some] show ?thesis by auto
    qed
  qed simp
  then show "system_extends d d'"
    and "result = Some ms \<Longrightarrow> length ms = n \<and> (\<forall>m\<in>set ms. raw_module_ok (mm_module m))" by simp_all
qed

text \<open>The list that \<open>Read\<close> leaves, and what it promises of a look up.\<close>

definition module_list_ok :: "MinidumpModuleList \<Rightarrow> bool" where
  "module_list_ok l =
     (unat (ml_count l) = length (ml_modules l) \<and> length (ml_modules l) \<le> max_modules \<and>
      (\<forall>m\<in>set (ml_modules l). mm_valid m \<and> raw_module_ok (mm_module m)) \<and>
      index_sound (ml_modules l) (ml_range_map l))"

lemma ModuleList_Read_run:
  assumes typed: "streams_typed d"
  shows "\<exists>result d'. ModuleList_Read n d = Some (result, d') \<and> system_extends d d' \<and>
    (\<forall>st. result = Some st \<longrightarrow> (\<exists>l. st = Module_list l \<and> module_list_ok l))"
proof -
  obtain platform d1 where platform: "GetPlatform d = Some (platform, d1)" "system_extends d d1"
    using GetPlatform_system [OF typed] by blast
  let ?rm = "\<lparr>merge_strategy = (if platform = Some MD_OS_ANDROID \<or> platform = Some MD_OS_LINUX then kTruncateLower
      else kExclusiveRanges), rmap = []\<rparr> :: (u64, u32) range_map"
  obtain count d2 where count: "read_list_count 108 n d1 = (count, d2)" by fastforce
  obtain modules d3 where modules: "read_modules (the count) d2 = (modules, d3)" by fastforce
  note ext2 = system_extends_trans [OF platform(2) read_list_count_system [OF count]]
  note ext3 = system_extends_trans [OF ext2 read_modules_sound(1) [OF modules]]
  have read: "ModuleList_Read n d =
      (case count of None \<Rightarrow> Some (None, d2)
       | Some c \<Rightarrow> if max_modules < c then Some (None, d2)
         else case modules of None \<Rightarrow> Some (None, d3)
              | Some ms \<Rightarrow> do {
                  (result, d) \<leftarrow> store_module_ranges [0..<c] ms ?rm 0 d3;
                  Some (map_option (\<lambda>(ms, rm). Module_list
                    \<lparr>ml_range_map = rm, ml_modules = ms, ml_count = of_nat c\<rparr>) result, d)
                })"
    using platform(1) count modules by (cases count) (simp_all add: ModuleList_Read_def Let_def)
  show ?thesis
  proof (cases "\<exists>c ms. count = Some c \<and> c \<le> max_modules \<and> modules = Some ms")
    case False
    with read have "ModuleList_Read n d = Some (None, d2) \<or> ModuleList_Read n d = Some (None, d3)"
      by (cases count; cases modules) auto
    with ext2 ext3 show ?thesis by auto
  next
    case True
    then obtain c ms where c: "count = Some c" "c \<le> max_modules" "modules = Some ms" by blast
    have ms: "length ms = c" "\<forall>m\<in>set ms. raw_module_ok (mm_module m)"
      using read_modules_sound(2) [OF modules c(3)] c(1) by simp_all
    have "index_sound ms ?rm" by (simp add: index_sound_def empty_map_facts)
    then obtain result d4 where run: "store_module_ranges [0..<c] ms ?rm 0 d3 = Some (result, d4)"
        "system_extends d3 d4" "ranges_stored [0..<c] ms result"
      using store_module_ranges_run [OF system_extends_typed [OF ext3 typed] _ _ ms(2), of ?rm "[0..<c]" 0] ms(1)
      by auto
    have "module_list_ok \<lparr>ml_range_map = rm, ml_modules = ms', ml_count = of_nat c\<rparr>"
      if "result = Some (ms', rm)" for ms' rm
    proof -
      have modules': "map mm_module ms' = map mm_module ms" and valid: "\<forall>i<c. mm_valid (ms' ! i)"
        and sound: "index_sound ms' rm"
        using run(3) that by (auto simp: ranges_stored_def)
      have len: "length ms' = c" using map_eq_imp_length_eq [OF modules'] ms(1) by simp
      have "mm_module ` set ms' = mm_module ` set ms" using modules' by (metis list.set_map)
      then have "\<forall>m\<in>set ms'. raw_module_ok (mm_module m)" using ms(2) by (metis imageE imageI)
      moreover have "unat (of_nat c :: u32) = c" using c(2) by (simp add: max_modules_def unat_nat32)
      ultimately show ?thesis using len valid sound c(2) by (auto simp: module_list_ok_def in_set_conv_nth)
    qed
    moreover have "ModuleList_Read n d = Some (map_option (\<lambda>(ms, rm). Module_list
        \<lparr>ml_range_map = rm, ml_modules = ms, ml_count = of_nat c\<rparr>) result, d4)"
      using read c run(1) by simp
    ultimately show ?thesis using system_extends_trans [OF ext3 run(2)] by (cases result) auto
  qed
qed

lemma ModuleList_Read_ok: "reader_ok MD_MODULE_LIST_STREAM ModuleList_Read"
  unfolding reader_ok_def
proof (intro allI impI)
  fix n d assume "streams_typed d"
  from ModuleList_Read_run [OF this, of n]
  obtain result d' where "ModuleList_Read n d = Some (result, d')" "system_extends d d'"
      "\<forall>st. result = Some st \<longrightarrow> (\<exists>l. st = Module_list l \<and> module_list_ok l)" by blast
  then show "\<exists>result d'. ModuleList_Read n d = Some (result, d') \<and> dump_extends d d' \<and>
      kept_stream d' MD_MODULE_LIST_STREAM = kept_stream d MD_MODULE_LIST_STREAM \<and>
      (\<forall>st. result = Some st \<longrightarrow> stream_class st = MD_MODULE_LIST_STREAM)"
    by (auto simp: system_extends_def stream_types)
qed

interpretation module_list: typed_stream MD_MODULE_LIST_STREAM ModuleList_Read GetModuleList Module_list
  by (unfold_locales, rule ModuleList_Read_ok) (auto simp: GetModuleList_def stream_types elim!: stream_class.elims)

lemma index_lookup:
  assumes "index_sound ms rm" and "RetrieveRange rm a = Some (k, rest)"
  shows "\<exists>i<length ms. k = of_nat i \<and> module_holds (ms ! i) a"
  using assms by (cases rest) (auto simp: index_sound_def offset_at_def)

lemma GetModuleForAddress_holds:
  assumes ok: "module_list_ok l" and found: "ModuleList_GetModuleForAddress l a = Some m"
  shows "m \<in> set (ml_modules l)" and "module_holds m a"
proof -
  obtain k rest where k: "RetrieveRange (ml_range_map l) a = Some (k, rest)"
      "ModuleList_GetModuleAtIndex l k = Some m"
    using found by (auto simp: ModuleList_GetModuleForAddress_def split: option.splits)
  obtain i where i: "i < length (ml_modules l)" "k = of_nat i" "module_holds (ml_modules l ! i) a"
    using index_lookup [OF _ k(1)] ok by (auto simp: module_list_ok_def)
  moreover have "unat (of_nat i :: u32) = i" using i(1) ok by (simp add: module_list_ok_def max_modules_def unat_nat32)
  ultimately have "m = ml_modules l ! i" using k(2) by (simp add: ModuleList_GetModuleAtIndex_def split: if_splits)
  with i show "m \<in> set (ml_modules l)" "module_holds m a" by simp_all
qed

text \<open>
  C30: Reading the list of modules ends for every dump, whatever its bytes, and a list that is
  returned holds valid modules only.  A module that the list finds for an address is one of its
  modules, and the address lies inside the module's image.
\<close>

theorem ModuleList_Read_sound:
  assumes "streams_typed d"
  shows "\<exists>result d'. ModuleList_Read expected_size d = Some (result, d') \<and>
    (\<forall>st. result = Some st \<longrightarrow> (\<exists>l. st = Module_list l \<and> (\<forall>m\<in>set (ml_modules l). mm_valid m) \<and>
       (\<forall>a m. ModuleList_GetModuleForAddress l a = Some m \<longrightarrow> m \<in> set (ml_modules l) \<and>
          unat (mm_base_address m) \<le> unat a \<and> unat a < unat (mm_base_address m) + unat (mm_size m))))"
proof -
  obtain result d' where run: "ModuleList_Read expected_size d = Some (result, d')"
      "\<forall>st. result = Some st \<longrightarrow> (\<exists>l. st = Module_list l \<and> module_list_ok l)"
    using ModuleList_Read_run [OF assms] by blast
  have holds: "unat (mm_base_address m) \<le> unat a \<and> unat a < unat (mm_base_address m) + unat (mm_size m)"
    if "module_holds m a" for m a
    using that by (simp add: module_holds_def mm_base_address_def mm_size_def)
  show ?thesis
  proof (intro exI [of _ result] exI [of _ d'] conjI allI impI run(1))
    fix st assume "result = Some st"
    with run(2) obtain l where l: "st = Module_list l" "module_list_ok l" by blast
    with holds GetModuleForAddress_holds [OF l(2)]
    show "\<exists>l. st = Module_list l \<and> (\<forall>m\<in>set (ml_modules l). mm_valid m) \<and>
       (\<forall>a m. ModuleList_GetModuleForAddress l a = Some m \<longrightarrow> m \<in> set (ml_modules l) \<and>
          unat (mm_base_address m) \<le> unat a \<and> unat a < unat (mm_base_address m) + unat (mm_size m))"
      by (intro exI [of _ l]) (simp add: module_list_ok_def)
  qed
qed

subsection \<open>A list of one module\<close>

definition sample_raw_module :: "char list" where
  "sample_raw_module = file_bytes True (0x400000 :: u64) @ file_bytes True (0x1000 :: u32) @ replicate 8 NUL @
     file_bytes True (112 :: u32) @ replicate 52 NUL @
     location_bytes True \<lparr>loc_size = 0, loc_rva = 0\<rparr> @ location_bytes True \<lparr>loc_size = 0, loc_rva = 0\<rparr> @ replicate 16 NUL"

definition sample_modules :: "char list" where
  "sample_modules = file_bytes True (1 :: u32) @ sample_raw_module @ file_bytes True (0 :: u32)"

lemma sample_module_fields:
  "base_of_image (MDRawModule_at True sample_raw_module) = 0x400000"
  "size_of_image (MDRawModule_at True sample_raw_module) = 0x1000"
  "module_name_rva (MDRawModule_at True sample_raw_module) = 112"
  "loc_size (cv_location (MDRawModule_at True sample_raw_module)) = 0"
  "loc_size (misc_location (MDRawModule_at True sample_raw_module)) = 0"
  by (simp_all add: MDRawModule_at_def MDLocationDescriptor_at_def sample_raw_module_def location_bytes_def field_simps)

lemma length_sample_module [simp]: "length sample_raw_module = 108"
  by (simp add: sample_raw_module_def)

lemma sample_modules_read:
  "\<exists>l d'. ModuleList_Read 112 (sample_dump sample_modules) = Some (Some (Module_list l), d') \<and>
     ModuleList_GetModuleForAddress l 0x400FFF \<noteq> None \<and> ModuleList_GetModuleForAddress l 0x401000 = None"
proof -
  let ?d = "sample_dump sample_modules" and ?st = "opened sample_modules"
  have st: "\<not> stream_failed ?st" "stream_pos ?st = 0" "stream_data ?st = sample_modules" by (simp_all add: opened_def)
  have platform: "GetPlatform (at_position n ?st ?d) = Some (None, at_position n ?st ?d)" for n
    using st(1) by (auto simp: GetPlatform_def Tell_def GetSystemInfo_def GetStream_def at_position_def sample_dump_def
        new_Minidump_def SeekSet_def istream_seek_def)
  have start: "?d = at_position 0 ?st ?d" using st(2) by (simp add: at_position_def sample_dump_def new_Minidump_def)
  let ?raw = "MDRawModule_at True sample_raw_module"
  let ?name = "file_bytes True (0 :: u32)" and ?count = "file_bytes True (1 :: u32)"
  have "ReadBytes 4 ?d = (Some ?count, at_position (stream_pos ?st + 4) ?st ?d)"
    by (rule ReadBytes_between [where pre = "[]" and post = "sample_raw_module @ ?name"])
      (simp_all add: opened_def sample_modules_def)
  then have count: "read_list_count 108 112 ?d = (Some 1, at_position 4 ?st ?d)"
    by (simp add: read_list_count_def read_u32_field_def field_at_start at_position_def st)
  let ?st4 = "?st\<lparr>stream_pos := 4\<rparr>" and ?d4 = "at_position 4 ?st ?d"
  have "ReadBytes 108 ?d4 = (Some sample_raw_module, at_position (stream_pos ?st4 + 108) ?st4 ?d4)"
    by (rule ReadBytes_between [where pre = ?count and post = ?name])
      (simp_all add: opened_def sample_modules_def at_position_def)
  then have modules: "read_modules 1 ?d4 = (Some [module_of_raw ?raw], at_position 112 ?st ?d)"
    by (simp add: Module_Read_def Let_def sample_module_fields at_position_def st)
  let ?st112 = "?st\<lparr>stream_pos := 112\<rparr>" and ?d112 = "at_position 112 ?st ?d"
  have "ReadBytes 4 ?d112 = (Some ?name, at_position (stream_pos ?st112 + 4) ?st112 ?d112)"
    by (rule ReadBytes_between [where pre = "?count @ sample_raw_module" and post = "[]"])
      (simp_all add: opened_def sample_modules_def at_position_def)
  then have "ReadString 112 ?d112 = (UTF16ToUTF8 [] True, at_position 116 ?st ?d)"
    by (simp add: ReadString_def SeekSet_def istream_seek_def read_u32_field_def field_at_start at_position_def st
        max_string_length_def)
  then have name: "ReadString 112 ?d112 = (Some [], at_position 116 ?st ?d)" by (simp add: UTF16ToUTF8_def)
  let ?m = "(module_of_raw ?raw)\<lparr>mm_name := Some [], mm_valid := True, mm_has_debug_info := True\<rparr>"
  have aux: "ReadAuxiliaryData (module_of_raw ?raw) ?d112 = (True, ?m, at_position 116 ?st ?d)"
    using name by (simp add: ReadAuxiliaryData_def module_of_raw_def sample_module_fields)
  let ?rm = "\<lparr>merge_strategy = kExclusiveRanges, rmap = []\<rparr> :: (u64, u32) range_map"
  let ?rm' = "?rm\<lparr>rmap := [(0x400FFF, \<lparr>r_base = 0x400000, r_delta = 0, r_entry = 0\<rparr>)]\<rparr>"
  have store: "StoreRange ?rm 0x400000 0x1000 0 = Some (?rm', True)"
    by (simp add: StoreRange_def StoreRangeInternal.simps lower_bound_def Let_def)
  have "store_module_ranges [0] [module_of_raw ?raw] ?rm 0 ?d112 = Some (Some ([?m], ?rm'), at_position 116 ?st ?d)"
    using aux store platform [of 116]
    by (simp add: Let_def mm_base_address_def mm_size_def module_of_raw_def sample_module_fields duplicate_module_def
        RetrieveRange_def lower_bound_def IsAndroid_def store_module_range_def ModuleList_StoreRange_def)
  then have "ModuleList_Read 112 ?d = Some (Some (Module_list \<lparr>ml_range_map = ?rm', ml_modules = [?m], ml_count = 1\<rparr>),
      at_position 116 ?st ?d)"
    using count modules platform [of 0, folded start]
    by (simp add: ModuleList_Read_def max_modules_def Let_def at_position_def st)
  then show ?thesis
    by (simp add: ModuleList_GetModuleForAddress_def ModuleList_GetModuleAtIndex_def RetrieveRange_def
        lower_bound_def range_outputs_def)
qed

theorem ModuleList_Read_sound_witness:
  "\<exists>l d' m. ModuleList_Read 112 (sample_dump sample_modules) = Some (Some (Module_list l), d') \<and>
     ModuleList_GetModuleForAddress l 0x400FFF = Some m \<and> mm_valid m \<and>
     unat (mm_base_address m) \<le> 0x400FFF \<and> 0x400FFF < unat (mm_base_address m) + unat (mm_size m)"
proof -
  obtain l d' m where read: "ModuleList_Read 112 (sample_dump sample_modules) = Some (Some (Module_list l), d')"
      "ModuleList_GetModuleForAddress l 0x400FFF = Some m"
    using sample_modules_read by blast
  have "streams_typed (sample_dump sample_modules)"
    by (simp add: streams_typed_def kept_stream_def sample_dump_def new_Minidump_def)
  from ModuleList_Read_sound [OF this, of 112] read(1)
  have sound: "(\<forall>m\<in>set (ml_modules l). mm_valid m) \<and>
      (\<forall>a m. ModuleList_GetModuleForAddress l a = Some m \<longrightarrow> m \<in> set (ml_modules l) \<and>
         unat (mm_base_address m) \<le> unat a \<and> unat a < unat (mm_base_address m) + unat (mm_size m))"
    by simp
  from sound [THEN conjunct2, rule_format, OF read(2)] sound read show ?thesis by (intro exI conjI) auto
qed

subsection \<open>The copy that outlives the dump\<close>

text \<open>\<open>Copy\<close> returns for every list, because the map of the copied modules accepts every store.\<close>

lemma code_modules_of_run:
  assumes "streams_typed d"
  shows "\<exists>cs d'. code_modules_of ms d = Some (cs, d') \<and> length cs = length ms \<and> system_extends d d'"
  using assms
proof (induction ms arbitrary: d)
  case (Cons m ms)
  obtain ident d1 where first: "mm_code_identifier m d = Some (ident, d1)" "system_extends d d1"
    using mm_code_identifier_system [OF Cons.prems] by blast
  obtain cs d2 where rest: "code_modules_of ms d1 = Some (cs, d2)" "length cs = length ms" "system_extends d1 d2"
    using Cons.IH [OF system_extends_typed [OF first(2) Cons.prems]] by blast
  with first system_extends_trans [OF first(2) rest(3)] show ?case by (simp add: code_module_of_def)
qed simp

lemma ModuleList_Copy_run:
  assumes "streams_typed d"
  shows "\<exists>copy d'. ModuleList_Copy l d = Some (copy, d') \<and> system_extends d d'"
proof -
  obtain cs d' where cs: "code_modules_of (ml_modules l) d = Some (cs, d')" "system_extends d d'"
    using code_modules_of_run [OF assms] by blast
  obtain m where "store_modules 0 cs \<lparr>merge_strategy = merge_strategy (ml_range_map l), rmap = []\<rparr> = Some m"
    using store_modules_outcome [OF empty_map_facts(1), of 0 cs "merge_strategy (ml_range_map l)"] by blast
  with cs show ?thesis by (simp add: ModuleList_Copy_def BasicCodeModules_def)
qed

lemma GetModuleList_typed:
  assumes "streams_typed d"
  shows "\<exists>result d'. GetModuleList d = Some (result, d') \<and> streams_typed d'"
  using module_list.get_run [OF assms] dump_extends_typed [OF _ assms] by blast

end
