(* ===== verification/Minidump_Streams.thy ===== *)
theory Minidump_Streams
  imports Minidump_Modules
begin

text \<open>
  The remaining streams of a dump: \<open>MinidumpAssertion\<close>, \<open>MinidumpUnloadedModuleList\<close>,
  \<open>MinidumpMiscInfo\<close>, \<open>MinidumpMemoryInfoList\<close>, \<open>MinidumpLinuxMapsList\<close> and
  \<open>MinidumpCrashpadInfo\<close> (\<open>processor/minidump.cc\<close>).  The lemmas show that every reader
  returns for every file and meets the contract of \<open>GetStream\<close>, and what the look ups find.
\<close>

subsection \<open>Assertions\<close>

definition Assertion_Read :: "u32 \<Rightarrow> minidump \<Rightarrow> (md_stream option \<times> minidump) run" where
  "Assertion_Read expected_size d =
     (if expected_size \<noteq> 776 then Some (None, d)
      else case ReadBytes 776 d of
        (None, d) \<Rightarrow> Some (None, d)
      | (Some p, d) \<Rightarrow>
          (let raw = MDRawAssertionInfo_at (md_swap d) p;
               text = (\<lambda>units. ConvertUTF16BufferToUTF8String units 256 [] (md_swap d)) in
           Some (Some (Assertion_info \<lparr>ma_assertion = raw, ma_expression = text (raw_expression raw),
             ma_function = text (raw_function raw), ma_file = text (raw_file raw)\<rparr>), d)))"

definition GetAssertion :: "minidump \<Rightarrow> (MinidumpAssertion option \<times> minidump) run" where
  "GetAssertion d =
     (case GetStream MD_ASSERTION_INFO_STREAM Assertion_Read d of
        Some (None, d) \<Rightarrow> Some (None, d)
      | Some (Some (Assertion_info a), d) \<Rightarrow> Some (Some a, d)
      | _ \<Rightarrow> None)"

subsection \<open>Miscellaneous information\<close>

text \<open>The structure is cleared first; a longer stream is read in part and the rest of it skipped.\<close>

definition misc_strings :: "bool \<Rightarrow> MDRawMiscInfo \<Rightarrow> MinidumpMiscInfo" where
  "misc_strings swap raw =
     (let text = (\<lambda>units. ConvertUTF16BufferToUTF8String units (2 * length units) [] swap);
          size = unat (misc_size_of_info raw) in
      \<lparr>mx_misc_info = raw,
       mx_standard_name = (if MD_MISCINFO2_SIZE < size then text (tz_standard_name (misc_time_zone raw)) else []),
       mx_daylight_name = (if MD_MISCINFO2_SIZE < size then text (tz_daylight_name (misc_time_zone raw)) else []),
       mx_build_string = (if MD_MISCINFO3_SIZE < size then text (misc_build_string raw) else []),
       mx_dbg_bld_str = (if MD_MISCINFO3_SIZE < size then text (misc_dbg_bld_str raw) else [])\<rparr>)"

definition misc_of_bytes :: "bool \<Rightarrow> nat \<Rightarrow> char list \<Rightarrow> MinidumpMiscInfo option" where
  "misc_of_bytes swap stream_size p =
     (let raw = MDRawMiscInfo_at swap (p @ replicate (MD_MISCINFO5_SIZE - length p) NUL) in
      if stream_size \<noteq> unat (misc_size_of_info raw) then None else Some (misc_strings swap raw))"

definition skip_padding :: "nat \<Rightarrow> minidump \<Rightarrow> bool \<times> minidump" where
  "skip_padding padding d =
     (if padding = 0 then (True, d)
      else case Tell d of None \<Rightarrow> (False, d) | Some saved_position \<Rightarrow> SeekSet (saved_position + padding) d)"

definition MiscInfo_Read :: "u32 \<Rightarrow> minidump \<Rightarrow> (md_stream option \<times> minidump) run" where
  "MiscInfo_Read expected_size d =
     (let n = unat expected_size;
          known = (n \<in> {MD_MISCINFO_SIZE, MD_MISCINFO2_SIZE, MD_MISCINFO3_SIZE, MD_MISCINFO4_SIZE, MD_MISCINFO5_SIZE});
          padding = (if known then 0 else n - MD_MISCINFO5_SIZE) in
      if \<not> known \<and> n \<le> MD_MISCINFO5_SIZE then Some (None, d)
      else case ReadBytes (n - padding) d of
        (None, d) \<Rightarrow> Some (None, d)
      | (Some p, d) \<Rightarrow>
          (case skip_padding padding d of
             (False, d) \<Rightarrow> Some (None, d)
           | (True, d) \<Rightarrow> Some (map_option Misc_info (misc_of_bytes (md_swap d) n p), d)))"

definition GetMiscInfo :: "minidump \<Rightarrow> (MinidumpMiscInfo option \<times> minidump) run" where
  "GetMiscInfo d =
     (case GetStream MD_MISC_INFO_STREAM MiscInfo_Read d of
        Some (None, d) \<Rightarrow> Some (None, d)
      | Some (Some (Misc_info m), d) \<Rightarrow> Some (Some m, d)
      | _ \<Rightarrow> None)"

subsection \<open>Memory information\<close>

definition MemoryInfo_Read :: "minidump \<Rightarrow> MDRawMemoryInfo option \<times> minidump" where
  "MemoryInfo_Read d =
     (case ReadBytes 48 d of
        (None, d) \<Rightarrow> (None, d)
      | (Some p, d) \<Rightarrow>
          (let info = MDRawMemoryInfo_at (md_swap d) p in
           if mem_region_size info = 0 \<or> - 1 - mem_base_address info < mem_region_size info then (None, d)
           else (Some info, d)))"

text \<open>The loop; \<open>None\<close> in the first component is a region that is unusable or overlaps.\<close>

fun read_memory_infos ::
  "nat \<Rightarrow> u32 \<Rightarrow> (u64, u32) range_map \<Rightarrow> minidump \<Rightarrow>
     ((MDRawMemoryInfo list \<times> (u64, u32) range_map) option \<times> minidump) run" where
  "read_memory_infos 0 index rm d = Some (Some ([], rm), d)"
| "read_memory_infos (Suc n) index rm d =
     (case MemoryInfo_Read d of
        (None, d) \<Rightarrow> Some (None, d)
      | (Some info, d) \<Rightarrow>
          (case StoreRange rm (mem_base_address info) (mem_region_size info) index of
             None \<Rightarrow> None
           | Some (rm, stored) \<Rightarrow>
               if \<not> stored then Some (None, d)
               else
                 (case read_memory_infos n (index + 1) rm d of
                    None \<Rightarrow> None
                  | Some (result, d) \<Rightarrow> Some (map_option (\<lambda>(infos, rm). (info # infos, rm)) result, d))))"

definition memory_info_header :: "u32 \<Rightarrow> minidump \<Rightarrow> u64 option \<times> minidump" where
  "memory_info_header expected_size d =
     (if expected_size < 16 then (None, d)
      else case ReadBytes 16 d of
        (None, d) \<Rightarrow> (None, d)
      | (Some p, d) \<Rightarrow>
          (let count = u64_at (md_swap d) p 8 in
           if u32_at (md_swap d) p 0 \<noteq> 16 then (None, d)
           else if u32_at (md_swap d) p 4 \<noteq> 48 then (None, d)
           else if 0xffffffff div 48 < count then (None, d)
           else if ucast expected_size \<noteq> 16 + count * 48 then (None, d)
           else if ucast (ucast count :: u32) \<noteq> count then (None, d)
           else (Some count, d)))"

definition MemoryInfoList_Read :: "u32 \<Rightarrow> minidump \<Rightarrow> (md_stream option \<times> minidump) run" where
  "MemoryInfoList_Read expected_size d =
     (case memory_info_header expected_size d of
        (None, d) \<Rightarrow> Some (None, d)
      | (Some count, d) \<Rightarrow> do {
          (result, d) \<leftarrow> read_memory_infos (unat count) 0 \<lparr>merge_strategy = kExclusiveRanges, rmap = []\<rparr> d;
          Some (map_option (\<lambda>(infos, rm). Memory_info_list
            \<lparr>il_range_map = rm, il_infos = infos, il_count = ucast count\<rparr>) result, d)
        })"

definition GetMemoryInfoAtIndex :: "MinidumpMemoryInfoList \<Rightarrow> u32 \<Rightarrow> MDRawMemoryInfo option" where
  "GetMemoryInfoAtIndex l index = (if il_count l \<le> index then None else Some (il_infos l ! unat index))"

definition GetMemoryInfoForAddress :: "MinidumpMemoryInfoList \<Rightarrow> u64 \<Rightarrow> MDRawMemoryInfo option" where
  "GetMemoryInfoForAddress l address =
     (case RetrieveRange (il_range_map l) address of
        None \<Rightarrow> None
      | Some (info_index, _) \<Rightarrow> GetMemoryInfoAtIndex l info_index)"

definition GetMemoryInfoList :: "minidump \<Rightarrow> (MinidumpMemoryInfoList option \<times> minidump) run" where
  "GetMemoryInfoList d =
     (case GetStream MD_MEMORY_INFO_LIST_STREAM MemoryInfoList_Read d of
        Some (None, d) \<Rightarrow> Some (None, d)
      | Some (Some (Memory_info_list l), d) \<Rightarrow> Some (Some l, d)
      | _ \<Rightarrow> None)"

subsection \<open>The maps of a Linux process\<close>

definition LinuxMaps_GetBase :: "MappedMemoryRegion \<Rightarrow> u64" where
  "LinuxMaps_GetBase = region_start"

definition LinuxMaps_GetSize :: "MappedMemoryRegion \<Rightarrow> u64" where
  "LinuxMaps_GetSize r = region_end r - region_start r"

text \<open>\<open>Read\<close> looks for the stream itself, and finds the one it is being read for.\<close>

definition LinuxMaps_Read :: "u32 \<Rightarrow> minidump \<Rightarrow> (md_stream option \<times> minidump) run" where
  "LinuxMaps_Read expected_size d =
     (case SeekToStreamType MD_LINUX_MAPS d of
        (None, d) \<Rightarrow> Some (None, d)
      | (Some stream_length, d) \<Rightarrow>
          if expected_size \<noteq> stream_length then Some (None, d)
          else
            (case ReadBytes (unat stream_length) d of
               (None, d) \<Rightarrow> Some (None, d)
             | (Some p, d) \<Rightarrow> Some (map_option Linux_maps (ParseProcMaps p), d)))"

definition maps_count :: "MappedMemoryRegion list \<Rightarrow> u32" where
  "maps_count maps = of_nat (length maps)"

definition GetLinuxMapsForAddress :: "MappedMemoryRegion list \<Rightarrow> u64 \<Rightarrow> MappedMemoryRegion option" where
  "GetLinuxMapsForAddress maps address =
     find (\<lambda>r. LinuxMaps_GetBase r \<le> address \<and> address < LinuxMaps_GetBase r + LinuxMaps_GetSize r)
       (take (unat (maps_count maps)) maps)"

definition GetLinuxMapsAtIndex :: "MappedMemoryRegion list \<Rightarrow> u32 \<Rightarrow> MappedMemoryRegion option" where
  "GetLinuxMapsAtIndex maps index = (if maps_count maps \<le> index then None else Some (maps ! unat index))"

definition GetLinuxMapsList :: "minidump \<Rightarrow> (MappedMemoryRegion list option \<times> minidump) run" where
  "GetLinuxMapsList d =
     (case GetStream MD_LINUX_MAPS LinuxMaps_Read d of
        Some (None, d) \<Rightarrow> Some (None, d)
      | Some (Some (Linux_maps l), d) \<Rightarrow> Some (Some l, d)
      | _ \<Rightarrow> None)"

subsection \<open>Crashpad\<close>

text \<open>Annotations are read when their location has a size; otherwise there are none.\<close>

definition read_annotation_list :: "MDLocationDescriptor \<Rightarrow> minidump \<Rightarrow> string list option \<times> minidump" where
  "read_annotation_list location d =
     (if loc_size location = 0 then (Some [], d) else ReadStringList (unat (loc_rva location)) d)"

definition read_annotation_map :: "MDLocationDescriptor \<Rightarrow> minidump \<Rightarrow> (string \<rightharpoonup> string) option \<times> minidump" where
  "read_annotation_map location d =
     (if loc_size location = 0 then (Some Map.empty, d) else ReadSimpleStringDictionary (unat (loc_rva location)) d)"

fun read_module_annotations ::
  "(u32 \<times> MDLocationDescriptor) list \<Rightarrow> minidump \<Rightarrow> module_annotations list option \<times> minidump" where
  "read_module_annotations [] d = (Some [], d)"
| "read_module_annotations ((module_index, location) # links) d =
     (case SeekSet (unat (loc_rva location)) d of
        (False, d) \<Rightarrow> (None, d)
      | (True, d) \<Rightarrow>
          (case ReadBytes 20 d of
             (None, d) \<Rightarrow> (None, d)
           | (Some p, d) \<Rightarrow>
               (let info = MDRawModuleCrashpadInfo_at (md_swap d) p in
                case read_annotation_list (cpm_list_annotations info) d of
                  (None, d) \<Rightarrow> (None, d)
                | (Some annotation_list, d) \<Rightarrow>
                    (case read_annotation_map (cpm_simple_annotations info) d of
                       (None, d) \<Rightarrow> (None, d)
                     | (Some simple, d) \<Rightarrow>
                         (case read_module_annotations links d of
                            (None, d) \<Rightarrow> (None, d)
                          | (Some rest, d) \<Rightarrow>
                              (Some (\<lparr>an_module_index = module_index, an_module_info = info,
                                 an_list = annotation_list, an_simple = simple\<rparr> # rest), d))))))"

definition read_crashpad_modules ::
  "MDLocationDescriptor \<Rightarrow> minidump \<Rightarrow> module_annotations list option \<times> minidump" where
  "read_crashpad_modules location d =
     (if loc_size location = 0 then (Some [], d)
      else case SeekSet (unat (loc_rva location)) d of
        (False, d) \<Rightarrow> (None, d)
      | (True, d) \<Rightarrow>
          (case read_u32_field d of
             (None, d) \<Rightarrow> (None, d)
           | (Some count, d) \<Rightarrow>
               (case ReadBytes (12 * unat count) d of
                  (None, d) \<Rightarrow> (None, d)
                | (Some p, d) \<Rightarrow>
                    read_module_annotations
                      (map (\<lambda>i. MDRawModuleCrashpadInfoLink_at (md_swap d) p (12 * i)) [0..<unat count]) d)))"

definition CrashpadInfo_Read :: "u32 \<Rightarrow> minidump \<Rightarrow> (md_stream option \<times> minidump) run" where
  "CrashpadInfo_Read expected_size d =
     (if expected_size \<noteq> 52 then Some (None, d)
      else Some
        (case ReadBytes 52 d of
           (None, d) \<Rightarrow> (None, d)
         | (Some p, d) \<Rightarrow>
             (let info = MDRawCrashpadInfo_at (md_swap d) p in
              case read_annotation_map (cp_simple_annotations info) d of
                (None, d) \<Rightarrow> (None, d)
              | (Some simple, d) \<Rightarrow>
                  (case read_crashpad_modules (cp_module_list info) d of
                     (None, d) \<Rightarrow> (None, d)
                   | (Some modules, d) \<Rightarrow>
                       (Some (Crashpad_info \<lparr>mp_crashpad_info = info, mp_simple_annotations = simple,
                          mp_modules = modules\<rparr>), d)))))"

definition GetCrashpadInfo :: "minidump \<Rightarrow> (MinidumpCrashpadInfo option \<times> minidump) run" where
  "GetCrashpadInfo d =
     (case GetStream MD_CRASHPAD_INFO_STREAM CrashpadInfo_Read d of
        Some (None, d) \<Rightarrow> Some (None, d)
      | Some (Some (Crashpad_info c), d) \<Rightarrow> Some (Some c, d)
      | _ \<Rightarrow> None)"

subsection \<open>Unloaded modules\<close>

text \<open>
  An entry may be longer than the structure; the rest is skipped.  \<open>Tell\<close> yields \<open>- 1\<close> when the
  position is lost.
\<close>

definition skip_rest :: "u32 \<Rightarrow> minidump \<Rightarrow> bool \<times> minidump" where
  "skip_rest bytes_remaining d =
     (if bytes_remaining = 0 then (True, d)
      else SeekSet (case Tell d of None \<Rightarrow> unat bytes_remaining - 1 | Some pos \<Rightarrow> pos + unat bytes_remaining) d)"

definition UnloadedModule_Read :: "u32 \<Rightarrow> minidump \<Rightarrow> MinidumpUnloadedModule option \<times> minidump" where
  "UnloadedModule_Read expected_size d =
     (if expected_size < 24 then (None, d)
      else case ReadBytes 24 d of
        (None, d) \<Rightarrow> (None, d)
      | (Some p, d) \<Rightarrow>
          (case skip_rest (expected_size - 24) d of
             (False, d) \<Rightarrow> (None, d)
           | (True, d) \<Rightarrow>
               (let raw = MDRawUnloadedModule_at (md_swap d) p in
                if un_size_of_image raw = 0 \<or> - 1 - un_base_of_image raw < ucast (un_size_of_image raw)
                then (None, d)
                else (Some \<lparr>mu_valid = False, mu_module_valid = True, mu_module = raw, mu_name = None\<rparr>, d))))"

definition Unloaded_ReadAuxiliaryData ::
  "MinidumpUnloadedModule \<Rightarrow> minidump \<Rightarrow> bool \<times> MinidumpUnloadedModule \<times> minidump" where
  "Unloaded_ReadAuxiliaryData m d =
     (if \<not> mu_module_valid m then (False, m, d)
      else case ReadString (unat (un_module_name_rva (mu_module m))) d of
        (None, d) \<Rightarrow> (False, m\<lparr>mu_name := None\<rparr>, d)
      | (Some name, d) \<Rightarrow> (True, m\<lparr>mu_name := Some name, mu_valid := True\<rparr>, d))"

definition mu_base_address :: "MinidumpUnloadedModule \<Rightarrow> u64" where
  "mu_base_address m = (if mu_valid m then un_base_of_image (mu_module m) else 0)"

definition mu_size :: "MinidumpUnloadedModule \<Rightarrow> u64" where
  "mu_size m = (if mu_valid m then ucast (un_size_of_image (mu_module m)) else 0)"

definition mu_code_file :: "MinidumpUnloadedModule \<Rightarrow> string" where
  "mu_code_file m = (if \<not> mu_valid m then [] else case mu_name m of None \<Rightarrow> [] | Some name \<Rightarrow> name)"

definition mu_code_identifier :: "MinidumpUnloadedModule \<Rightarrow> minidump \<Rightarrow> (string \<times> minidump) run" where
  "mu_code_identifier m d =
     (if \<not> mu_valid m then Some ([], d)
      else do {
        (system_info, d) \<leftarrow> GetSystemInfo d;
        Some (case system_info of
            None \<Rightarrow> []
          | Some info \<Rightarrow>
              if platform_id info = MD_OS_WIN32_NT \<or> platform_id info = MD_OS_WIN32_WINDOWS
              then hex_upper 8 (un_time_date_stamp (mu_module m)) @ hex_lower 0 (un_size_of_image (mu_module m))
              else if platform_id info \<in> {MD_OS_ANDROID, MD_OS_LINUX, MD_OS_MAC_OS_X, MD_OS_IOS, MD_OS_SOLARIS,
                  MD_OS_NACL, MD_OS_PS3}
              then ''id''
              else [], d)
      })"

definition code_module_of_unloaded :: "MinidumpUnloadedModule \<Rightarrow> minidump \<Rightarrow> (CodeModule \<times> minidump) run" where
  "code_module_of_unloaded m d = do {
     (identifier, d) \<leftarrow> mu_code_identifier m d;
     Some (\<lparr>module_object = 0, base_address = mu_base_address m, module_size = mu_size m, shrink_down_delta = 0,
        code_file = mu_code_file m, code_ident = identifier, debug_file = [], debug_ident = [],
        module_version = [], is_unloaded = True\<rparr>, d)
   }"

fun read_unloaded_modules :: "u32 \<Rightarrow> nat \<Rightarrow> minidump \<Rightarrow> MinidumpUnloadedModule list option \<times> minidump" where
  "read_unloaded_modules entry_size 0 d = (Some [], d)"
| "read_unloaded_modules entry_size (Suc n) d =
     (case UnloadedModule_Read entry_size d of
        (None, d) \<Rightarrow> (None, d)
      | (Some m, d) \<Rightarrow>
          (case read_unloaded_modules entry_size n d of
             (None, d) \<Rightarrow> (None, d)
           | (Some ms, d) \<Rightarrow> (Some (m # ms), d)))"

text \<open>The second loop: a range that conflicts is not stored, and that is no error.\<close>

fun store_unloaded_modules ::
  "u32 \<Rightarrow> MinidumpUnloadedModule list \<Rightarrow> (u64, u32) range_map \<Rightarrow> minidump \<Rightarrow>
     ((MinidumpUnloadedModule list \<times> (u64, u32) range_map) option \<times> minidump) run" where
  "store_unloaded_modules index [] rm d = Some (Some ([], rm), d)"
| "store_unloaded_modules index (m # ms) rm d =
     (case Unloaded_ReadAuxiliaryData m d of
        (False, _, d) \<Rightarrow> Some (None, d)
      | (True, m, d) \<Rightarrow>
          (case StoreRange rm (mu_base_address m) (mu_size m) index of
             None \<Rightarrow> None
           | Some (rm, _) \<Rightarrow>
               (case store_unloaded_modules (index + 1) ms rm d of
                  None \<Rightarrow> None
                | Some (result, d) \<Rightarrow> Some (map_option (\<lambda>(ms, rm). (m # ms, rm)) result, d))))"

text \<open>The three words of the header; what is left of it is skipped, modulo \<open>2 ^ 32\<close>.\<close>

definition unloaded_header :: "u32 \<Rightarrow> minidump \<Rightarrow> (u32 \<times> nat) option \<times> minidump" where
  "unloaded_header expected_size d =
     (case read_u32_field d of
        (None, d) \<Rightarrow> (None, d)
      | (Some size_of_header, d) \<Rightarrow>
          (case read_u32_field d of
             (None, d) \<Rightarrow> (None, d)
           | (Some size_of_entry, d) \<Rightarrow>
               (case read_u32_field d of
                  (None, d) \<Rightarrow> (None, d)
                | (Some number_of_entries, d) \<Rightarrow>
                    (case skip_rest (size_of_header - 12) d of
                       (False, d) \<Rightarrow> (None, d)
                     | (True, d) \<Rightarrow>
                         if expected_size \<noteq> size_of_header + size_of_entry * number_of_entries then (None, d)
                         else if max_modules < unat number_of_entries then (None, d)
                         else (Some (size_of_entry, unat number_of_entries), d)))))"

definition UnloadedModuleList_Read :: "u32 \<Rightarrow> minidump \<Rightarrow> (md_stream option \<times> minidump) run" where
  "UnloadedModuleList_Read expected_size d =
     (case unloaded_header expected_size d of
        (None, d) \<Rightarrow> Some (None, d)
      | (Some (size_of_entry, count), d) \<Rightarrow>
          (case read_unloaded_modules size_of_entry count d of
             (None, d) \<Rightarrow> Some (None, d)
           | (Some ms, d) \<Rightarrow> do {
               (result, d) \<leftarrow> store_unloaded_modules 0 ms \<lparr>merge_strategy = kTruncateLower, rmap = []\<rparr> d;
               Some (map_option (\<lambda>(ms, rm). Unloaded_module_list
                 \<lparr>ul_range_map = rm, ul_modules = ms, ul_count = of_nat count\<rparr>) result, d)
             }))"

definition Unloaded_GetModuleAtIndex :: "MinidumpUnloadedModuleList \<Rightarrow> u32 \<Rightarrow> MinidumpUnloadedModule option" where
  "Unloaded_GetModuleAtIndex l index = (if ul_count l \<le> index then None else Some (ul_modules l ! unat index))"

definition Unloaded_GetModuleForAddress ::
  "MinidumpUnloadedModuleList \<Rightarrow> u64 \<Rightarrow> MinidumpUnloadedModule option" where
  "Unloaded_GetModuleForAddress l address =
     (case RetrieveRange (ul_range_map l) address of
        None \<Rightarrow> None
      | Some (module_index, _) \<Rightarrow> Unloaded_GetModuleAtIndex l module_index)"

definition Unloaded_GetModuleAtSequence ::
  "MinidumpUnloadedModuleList \<Rightarrow> u32 \<Rightarrow> MinidumpUnloadedModule option run" where
  "Unloaded_GetModuleAtSequence l sequence =
     (if ul_count l \<le> sequence then Some None
      else case RetrieveRangeAtIndex (ul_range_map l) (sint sequence) of
        None \<Rightarrow> None
      | Some None \<Rightarrow> Some None
      | Some (Some (module_index, _)) \<Rightarrow> Some (Unloaded_GetModuleAtIndex l module_index))"

fun code_modules_of_unloaded :: "MinidumpUnloadedModule list \<Rightarrow> minidump \<Rightarrow> (CodeModule list \<times> minidump) run" where
  "code_modules_of_unloaded [] d = Some ([], d)"
| "code_modules_of_unloaded (m # ms) d = do {
     (c, d) \<leftarrow> code_module_of_unloaded m d;
     (cs, d) \<leftarrow> code_modules_of_unloaded ms d;
     Some (c # cs, d)
   }"

text \<open>
  There is no main module.  The copied objects are not those of any other list: they are numbered
  behind the copies, with those of shrunk modules, that another list can have.
\<close>

definition renumber :: "nat \<Rightarrow> CodeModule \<Rightarrow> CodeModule" where
  "renumber n m = m\<lparr>module_object := n + module_object m\<rparr>"

definition renumber_modules :: "nat \<Rightarrow> basic_code_modules \<Rightarrow> basic_code_modules" where
  "renumber_modules n cm =
     cm\<lparr>code_map := (code_map cm)\<lparr>rmap := map (\<lambda>(key, r). (key, r\<lparr>r_entry := renumber n (r_entry r)\<rparr>)) (rmap (code_map cm))\<rparr>,
       shrunk_range_modules := map (renumber n) (shrunk_range_modules cm)\<rparr>"

definition UnloadedModuleList_Copy ::
  "MinidumpUnloadedModuleList \<Rightarrow> minidump \<Rightarrow> (basic_code_modules \<times> minidump) run" where
  "UnloadedModuleList_Copy l d = do {
     (cs, d) \<leftarrow> code_modules_of_unloaded (ul_modules l) d;
     copy \<leftarrow> BasicCodeModules cs None (merge_strategy (ul_range_map l));
     Some (renumber_modules (2 * max_modules) copy, d)
   }"

definition GetUnloadedModuleList :: "minidump \<Rightarrow> (MinidumpUnloadedModuleList option \<times> minidump) run" where
  "GetUnloadedModuleList d =
     (case GetStream MD_UNLOADED_MODULE_LIST_STREAM UnloadedModuleList_Read d of
        Some (None, d) \<Rightarrow> Some (None, d)
      | Some (Some (Unloaded_module_list l), d) \<Rightarrow> Some (Some l, d)
      | _ \<Rightarrow> None)"

subsection \<open>Readers that only move in the file\<close>

text \<open>
  A dump after reads that touched nothing but the file, and functions that leave such a dump.
  The rules follow the shape of the readers, so that a proof is one call of \<open>intro\<close>.
\<close>

definition moves :: "minidump \<Rightarrow> minidump \<Rightarrow> bool" where
  "moves d d' = (dump_extends d d' \<and> md_stream_map d' = md_stream_map d)"

lemma moves_refl [simp, intro]: "moves d d"
  by (simp add: moves_def)

lemma moves_trans [trans]: "moves d d' \<Longrightarrow> moves d' d'' \<Longrightarrow> moves d d''"
  using dump_extends_trans by (auto simp: moves_def)

definition reads :: "(minidump \<Rightarrow> 'r \<times> minidump) \<Rightarrow> bool" where
  "reads f = (\<forall>d. moves d (snd (f d)))"

lemma readsD: "reads f \<Longrightarrow> f d = (r, d') \<Longrightarrow> moves d d'"
  by (metis reads_def snd_conv)

lemma readsI: "(\<And>d r d'. f d = (r, d') \<Longrightarrow> moves d d') \<Longrightarrow> reads f"
  unfolding reads_def by (metis prod.collapse)

named_theorems reads_intros \<open>readers that only move in the file\<close>

lemma reads_return [reads_intros]: "reads (\<lambda>d. (r d, d))"
  by (simp add: reads_def)

lemma reads_if [reads_intros]: "reads f \<Longrightarrow> reads g \<Longrightarrow> reads (\<lambda>d. if c d then f d else g d)"
  by (simp add: reads_def)

lemma reads_let [reads_intros]: "(\<And>x. reads (f x)) \<Longrightarrow> reads (\<lambda>d. let x = e d in f x d)"
  by (simp add: reads_def)

lemma reads_option [reads_intros]:
  assumes "reads f" and "\<And>x. reads (g x)"
  shows "reads (\<lambda>d. case f d of (None, d) \<Rightarrow> (None, d) | (Some x, d) \<Rightarrow> g x d)"
  unfolding reads_def
proof
  fix d
  obtain r d' where f: "f d = (r, d')" by fastforce
  with assms have "moves d d'" "moves d' (snd (g x d'))" for x
    using readsD [of f d r d'] by (simp_all add: reads_def)
  with f moves_trans show "moves d (snd (case f d of (None, d) \<Rightarrow> (None, d) | (Some x, d) \<Rightarrow> g x d))"
    by (cases r) auto
qed

lemma reads_bool [reads_intros]:
  assumes "reads f" and "reads g"
  shows "reads (\<lambda>d. case f d of (False, d) \<Rightarrow> (None, d) | (True, d) \<Rightarrow> g d)"
  unfolding reads_def
proof
  fix d
  obtain r d' where f: "f d = (r, d')" by fastforce
  with assms have "moves d d'" "moves d' (snd (g d'))"
    using readsD [of f d r d'] by (simp_all add: reads_def)
  with f moves_trans show "moves d (snd (case f d of (False, d) \<Rightarrow> (None, d) | (True, d) \<Rightarrow> g d))"
    by (cases r) auto
qed

lemma reads_SeekSet [reads_intros]: "reads (\<lambda>d. SeekSet (k d) d)"
proof (rule readsI)
  fix d r d' assume run: "SeekSet (k d) d = (r, d')"
  show "moves d d'" using SeekSet_extends [OF run] file_map [OF SeekSet_file [OF run]] by (simp add: moves_def)
qed

lemma reads_ReadBytes [reads_intros]: "reads (\<lambda>d. ReadBytes (k d) d)"
proof (rule readsI)
  fix d r d' assume run: "ReadBytes (k d) d = (r, d')"
  show "moves d d'" using ReadBytes_extends [OF run] ReadBytes_map [OF run] by (simp add: moves_def)
qed

lemma reads_SeekToStreamType [reads_intros]: "reads (\<lambda>d. SeekToStreamType (t d) d)"
proof (rule readsI)
  fix d r d' assume run: "SeekToStreamType (t d) d = (r, d')"
  show "moves d d'" using SeekToStreamType_extends [OF run] file_map [OF SeekToStreamType_file [OF run]] by (simp add: moves_def)
qed

lemma reads_read_u32_field [reads_intros]: "reads read_u32_field"
  unfolding read_u32_field_def by (intro reads_intros)

lemma reads_ReadString [reads_intros]: "reads (\<lambda>d. ReadString (k d) d)"
proof -
  have "reads (ReadString n)" for n
    unfolding ReadString_def by (intro reads_intros)
  then show ?thesis by (simp add: reads_def)
qed

lemma reads_ReadUTF8String [reads_intros]: "reads (\<lambda>d. ReadUTF8String (k d) d)"
proof -
  have "reads (ReadUTF8String n)" for n
    unfolding ReadUTF8String_def by (intro reads_intros)
  then show ?thesis by (simp add: reads_def)
qed

text \<open>A function of an argument that the dump determines.\<close>

lemma reads_arg: "(\<And>x. reads (f x)) \<Longrightarrow> reads (\<lambda>d. f (k d) d)"
  by (simp add: reads_def)

lemma reads_read_strings: "reads (read_strings rvas)"
proof (induction rvas)
  case (Cons rva rvas)
  then show ?case unfolding read_strings.simps by (intro reads_intros)
qed (simp add: reads_def)

lemma reads_ReadStringList [reads_intros]: "reads (\<lambda>d. ReadStringList (k d) d)"
proof (rule reads_arg [where f = ReadStringList])
  show "reads (ReadStringList n)" for n
    unfolding ReadStringList_def by (intro reads_intros reads_arg [OF reads_read_strings])
qed

lemma reads_read_dictionary: "reads (read_dictionary entries m)"
proof (induction entries arbitrary: m)
  case (Cons entry entries)
  obtain k v where "entry = (k, v)" by fastforce
  with Cons show ?case by (auto simp only: read_dictionary.simps intro!: reads_intros)
qed (simp add: reads_def)

lemma reads_ReadSimpleStringDictionary [reads_intros]: "reads (\<lambda>d. ReadSimpleStringDictionary (k d) d)"
proof (rule reads_arg [where f = ReadSimpleStringDictionary])
  show "reads (ReadSimpleStringDictionary n)" for n
    unfolding ReadSimpleStringDictionary_def by (intro reads_intros reads_arg [OF reads_read_dictionary])
qed

lemma reads_annotations [reads_intros]:
  "reads (read_annotation_list location)" "reads (read_annotation_map location)"
  unfolding read_annotation_list_def read_annotation_map_def by (intro reads_intros)+

lemma reads_module_annotations: "reads (read_module_annotations links)"
proof (induction links)
  case (Cons link links)
  obtain i location where "link = (i, location)" by fastforce
  with Cons show ?case by (simp only: read_module_annotations.simps) (intro reads_intros)
qed (simp add: reads_def)

lemma reads_crashpad_modules [reads_intros]: "reads (read_crashpad_modules location)"
  unfolding read_crashpad_modules_def by (intro reads_intros reads_arg [OF reads_module_annotations])

lemma reads_case [reads_intros]:
  "reads g \<Longrightarrow> (\<And>x. reads (f x)) \<Longrightarrow> reads (\<lambda>d. case e d of None \<Rightarrow> g d | Some x \<Rightarrow> f x d)"
  by (simp add: reads_def split: option.split)

lemma reads_skip [reads_intros]: "reads (skip_rest n)" "reads (skip_padding k)"
  unfolding skip_rest_def skip_padding_def by (intro reads_intros)+

lemma reads_UnloadedModule_Read [reads_intros]: "reads (UnloadedModule_Read n)"
  unfolding UnloadedModule_Read_def by (intro reads_intros)

lemma reads_unloaded_modules [reads_intros]: "reads (read_unloaded_modules entry_size n)"
proof (induction n)
  case (Suc n)
  then show ?case unfolding read_unloaded_modules.simps by (intro reads_intros)
qed (simp add: reads_def)

lemma reads_headers [reads_intros]: "reads (unloaded_header n)" "reads (memory_info_header n)" "reads MemoryInfo_Read"
  unfolding unloaded_header_def memory_info_header_def MemoryInfo_Read_def by (intro reads_intros)+

subsection \<open>The readers meet the contract of \<open>GetStream\<close>\<close>

text \<open>A reader that returns, only moves in the file, and yields streams with a property.\<close>

definition returns :: "(md_stream \<Rightarrow> bool) \<Rightarrow> (minidump \<Rightarrow> (md_stream option \<times> minidump) run) \<Rightarrow> bool" where
  "returns P f = (\<forall>d. \<exists>r d'. f d = Some (r, d') \<and> moves d d' \<and> (\<forall>st. r = Some st \<longrightarrow> P st))"

lemma returns_None: "returns P (\<lambda>d. Some (None, d))"
  by (simp add: returns_def)

lemma returns_Some: "(\<And>d st. r d = Some st \<Longrightarrow> P st) \<Longrightarrow> returns P (\<lambda>d. Some (r d, d))"
  by (simp add: returns_def)

lemma returns_if: "returns P f \<Longrightarrow> returns P g \<Longrightarrow> returns P (\<lambda>d. if c d then f d else g d)"
  by (simp add: returns_def)

lemma returns_let: "(\<And>x. returns P (f x)) \<Longrightarrow> returns P (\<lambda>d. let x = e d in f x d)"
  by (simp add: returns_def)

lemma returns_after:
  assumes "moves d d'" and "returns P g"
  shows "\<exists>r d''. g d' = Some (r, d'') \<and> moves d d'' \<and> (\<forall>st. r = Some st \<longrightarrow> P st)"
  using assms moves_trans unfolding returns_def by metis

lemma returns_option:
  assumes "reads f" and "\<And>x. returns P (g x)"
  shows "returns P (\<lambda>d. case f d of (None, d) \<Rightarrow> Some (None, d) | (Some x, d) \<Rightarrow> g x d)"
  unfolding returns_def
proof
  fix d
  obtain r d' where f: "f d = (r, d')" by fastforce
  with readsD [OF assms(1) f] returns_after [OF _ assms(2), of d d']
  show "\<exists>r d'. (case f d of (None, d) \<Rightarrow> Some (None, d) | (Some x, d) \<Rightarrow> g x d) = Some (r, d') \<and> moves d d' \<and>
      (\<forall>st. r = Some st \<longrightarrow> P st)"
    by (cases r) simp_all
qed

lemma returns_bool:
  assumes "reads f" and "returns P g"
  shows "returns P (\<lambda>d. case f d of (False, d) \<Rightarrow> Some (None, d) | (True, d) \<Rightarrow> g d)"
  unfolding returns_def
proof
  fix d
  obtain r d' where f: "f d = (r, d')" by fastforce
  with readsD [OF assms(1) f] returns_after [OF _ assms(2), of d d']
  show "\<exists>r d'. (case f d of (False, d) \<Rightarrow> Some (None, d) | (True, d) \<Rightarrow> g d) = Some (r, d') \<and> moves d d' \<and>
      (\<forall>st. r = Some st \<longrightarrow> P st)"
    by (cases r) simp_all
qed

lemmas returns_intros = returns_None returns_Some returns_if returns_let returns_option returns_bool

lemma returns_reader_ok:
  assumes "\<And>n. returns (\<lambda>st. stream_class st = t) (read_stream n)"
  shows "reader_ok t read_stream"
proof (rule reader_okI)
  fix n d
  show "\<exists>result d'. read_stream n d = Some (result, d') \<and> dump_extends d d' \<and>
      md_stream_map d' = md_stream_map d \<and> (\<forall>st. result = Some st \<longrightarrow> stream_class st = t)"
    using assms [of n] unfolding returns_def moves_def by blast
qed

lemma Assertion_Read_ok: "reader_ok MD_ASSERTION_INFO_STREAM Assertion_Read"
  by (rule returns_reader_ok, unfold Assertion_Read_def, intro returns_intros reads_intros) auto

interpretation assertion: typed_stream MD_ASSERTION_INFO_STREAM Assertion_Read GetAssertion Assertion_info
  by (unfold_locales, rule Assertion_Read_ok) (auto simp: GetAssertion_def stream_types elim!: stream_class.elims)

lemma MiscInfo_Read_ok: "reader_ok MD_MISC_INFO_STREAM MiscInfo_Read"
  by (rule returns_reader_ok, unfold MiscInfo_Read_def Let_def, intro returns_intros reads_intros) auto

interpretation misc_info: typed_stream MD_MISC_INFO_STREAM MiscInfo_Read GetMiscInfo Misc_info
  by (unfold_locales, rule MiscInfo_Read_ok) (auto simp: GetMiscInfo_def stream_types elim!: stream_class.elims)

lemma LinuxMaps_Read_ok: "reader_ok MD_LINUX_MAPS LinuxMaps_Read"
  by (rule returns_reader_ok, unfold LinuxMaps_Read_def, intro returns_intros reads_intros) auto

interpretation linux_maps: typed_stream MD_LINUX_MAPS LinuxMaps_Read GetLinuxMapsList Linux_maps
  by (unfold_locales, rule LinuxMaps_Read_ok) (auto simp: GetLinuxMapsList_def stream_types elim!: stream_class.elims)

lemma returns_pure:
  assumes "reads f" and "\<And>d r d'. f d = (Some r, d') \<Longrightarrow> P r"
  shows "returns P (\<lambda>d. Some (f d))"
  unfolding returns_def
proof
  fix d
  obtain r d' where f: "f d = (r, d')" by fastforce
  with assms(2) readsD [OF assms(1) f] show "\<exists>r d'. Some (f d) = Some (r, d') \<and> moves d d' \<and> (\<forall>st. r = Some st \<longrightarrow> P st)"
    by auto
qed

lemma CrashpadInfo_Read_ok: "reader_ok MD_CRASHPAD_INFO_STREAM CrashpadInfo_Read"
  by (rule returns_reader_ok, unfold CrashpadInfo_Read_def, intro returns_if returns_None returns_pure reads_intros)
    (auto split: option.splits prod.splits simp: Let_def)

interpretation crashpad_info: typed_stream MD_CRASHPAD_INFO_STREAM CrashpadInfo_Read GetCrashpadInfo Crashpad_info
  by (unfold_locales, rule CrashpadInfo_Read_ok) (auto simp: GetCrashpadInfo_def stream_types elim!: stream_class.elims)

subsection \<open>Lists that are indexed by address\<close>

text \<open>A range map whose entries are indices of a list, each of which covers the address it is found for.\<close>

definition covers :: "u64 \<Rightarrow> u64 \<Rightarrow> u64 \<Rightarrow> bool" where
  "covers base sz a = (unat base \<le> unat a \<and> unat a < unat base + unat sz)"

definition indexed :: "('x \<Rightarrow> u64 \<Rightarrow> bool) \<Rightarrow> 'x list \<Rightarrow> (u64, u32) range_map \<Rightarrow> bool" where
  "indexed holds xs rm =
     (range_map_ok rm \<and>
      (\<forall>a k off. offset_at rm a = Some (k, off) \<longrightarrow> (\<exists>i<length xs. k = of_nat i \<and> holds (xs ! i) a)))"

lemma indexed_empty: "indexed holds [] \<lparr>merge_strategy = strategy, rmap = []\<rparr>"
  by (simp add: indexed_def empty_map_facts)

lemma range_covers:
  assumes "sz \<le> - 1 - base" and "sz \<noteq> 0" and "base \<le> a" and "a \<le> base + (sz - 1)"
  shows "covers base sz a"
proof -
  have "unat (- 1 - base) = 2 ^ 64 - 1 - unat base"
    by (subst unat_sub) (simp_all add: unsigned_minus_1_eq_mask mask_eq_exp_minus_1)
  then have "unat sz \<le> 2 ^ 64 - 1 - unat base" using assms(1) by (simp add: word_le_nat_alt)
  moreover have "unat base < 2 ^ 64" using unsigned_less [of base, where ?'a = nat] by simp
  moreover have sz: "0 < unat sz" using assms(2) by (simp add: unat_gt_0)
  then have "unat (sz - 1) = unat sz - 1" by (subst unat_sub) (simp_all add: word_le_nat_alt)
  ultimately have "unat (base + (sz - 1)) = unat base + (unat sz - 1)" by (simp add: unat_word_ariths)
  with sz assms(3,4) show ?thesis by (auto simp: covers_def word_le_nat_alt)
qed

lemma store_indexed:
  assumes sound: "indexed holds xs rm" and run: "StoreRange rm base sz (of_nat (length xs)) = Some (rm', stored)"
    and inside: "\<And>a. sz \<noteq> 0 \<Longrightarrow> base \<le> a \<Longrightarrow> a \<le> base + (sz - 1) \<Longrightarrow> holds x a"
  shows "indexed holds (xs @ [x]) rm'"
proof -
  have ok: "range_map_ok rm" using sound by (simp add: indexed_def)
  have "range_map_ok rm'"
    using StoreRangeInternal_outcome [OF ok, of base 0 sz "of_nat (length xs)"] run
    by (auto simp: StoreRange_def store_outcome_def split: option.split_asm)
  moreover have "\<exists>j<length (xs @ [x]). k = of_nat j \<and> holds ((xs @ [x]) ! j) a" if found: "offset_at rm' a = Some (k, off)" for a k off
  proof (cases "offset_at rm a = Some (k, off)")
    case True
    with sound obtain j where "j < length xs" "k = of_nat j" "holds (xs ! j) a" by (auto simp: indexed_def)
    then show ?thesis by (intro exI [of _ j]) (simp add: nth_append)
  next
    case False
    with store_offsets [OF ok run found] inside show ?thesis by (intro exI [of _ "length xs"]) auto
  qed
  ultimately show ?thesis by (auto simp: indexed_def)
qed

lemma indexed_lookup:
  assumes "indexed holds xs rm" and "RetrieveRange rm a = Some (k, rest)" and "length xs < 2 ^ 32"
  shows "unat k < length xs \<and> holds (xs ! unat k) a"
proof -
  obtain i where i: "i < length xs" "k = of_nat i" "holds (xs ! i) a"
    using assms(1,2) by (cases rest) (simp add: indexed_def offset_at_def, blast)
  moreover have "unat (of_nat i :: u32) = i" using i(1) assms(3) by (simp add: unat_nat32)
  ultimately show ?thesis by simp
qed

subsection \<open>Unloaded modules\<close>

definition unloaded_ok :: "MinidumpUnloadedModule \<Rightarrow> bool" where
  "unloaded_ok m =
     (mu_module_valid m \<and> un_size_of_image (mu_module m) \<noteq> 0 \<and>
      ucast (un_size_of_image (mu_module m)) \<le> - 1 - un_base_of_image (mu_module m))"

definition unloaded_holds :: "MinidumpUnloadedModule \<Rightarrow> u64 \<Rightarrow> bool" where
  "unloaded_holds m a = (mu_valid m \<and> covers (mu_base_address m) (mu_size m) a)"

lemma UnloadedModule_Read_sound: "UnloadedModule_Read n d = (Some m, d') \<Longrightarrow> unloaded_ok m"
  by (auto simp: UnloadedModule_Read_def unloaded_ok_def Let_def split: if_splits option.splits prod.splits bool.splits)

lemma read_unloaded_modules_sound:
  "read_unloaded_modules entry_size n d = (Some ms, d') \<Longrightarrow> length ms = n \<and> (\<forall>m\<in>set ms. unloaded_ok m)"
proof (induction n arbitrary: d ms)
  case (Suc n)
  obtain m d1 where read: "UnloadedModule_Read entry_size d = (m, d1)" by fastforce
  obtain rest d2 where rest: "read_unloaded_modules entry_size n d1 = (rest, d2)" by fastforce
  from Suc.prems read rest obtain x xs where "m = Some x" "rest = Some xs" "ms = x # xs" "d2 = d'"
    by (auto split: option.splits)
  with Suc.IH [of d1 xs] read rest UnloadedModule_Read_sound [of entry_size d x d1] show ?case by simp
qed simp

lemma store_unloaded_run:
  assumes "indexed unloaded_holds pre rm" and "\<forall>m\<in>set ms. unloaded_ok m"
  shows "\<exists>result d'. store_unloaded_modules (of_nat (length pre)) ms rm d = Some (result, d') \<and> moves d d' \<and>
    (\<forall>ms' rm'. result = Some (ms', rm') \<longrightarrow> length ms' = length ms \<and> indexed unloaded_holds (pre @ ms') rm')"
  using assms
proof (induction ms arbitrary: pre rm d)
  case (Cons m ms)
  obtain name d1 where name: "ReadString (unat (un_module_name_rva (mu_module m))) d = (name, d1)" by fastforce
  have ok: "unloaded_ok m" and rest_ok: "\<forall>m\<in>set ms. unloaded_ok m" using Cons.prems(2) by simp_all
  have move: "moves d d1" using readsD [OF reads_ReadString [of "\<lambda>_. n" for n] name] .
  show ?case
  proof (cases name)
    case None
    with name move ok show ?thesis by (simp add: Unloaded_ReadAuxiliaryData_def unloaded_ok_def)
  next
    case (Some s)
    let ?m = "m\<lparr>mu_name := Some s, mu_valid := True\<rparr>"
    have aux: "Unloaded_ReadAuxiliaryData m d = (True, ?m, d1)"
      using name Some ok by (simp add: Unloaded_ReadAuxiliaryData_def unloaded_ok_def)
    have "range_map_ok rm" using Cons.prems(1) by (simp add: indexed_def)
    then obtain rm1 stored where store: "StoreRange rm (mu_base_address ?m) (mu_size ?m) (of_nat (length pre)) = Some (rm1, stored)"
      using StoreRange_run [of rm "mu_base_address ?m" "mu_size ?m" "of_nat (length pre)"] by blast
    have "unloaded_holds ?m a"
      if "mu_size ?m \<noteq> 0" "mu_base_address ?m \<le> a" "a \<le> mu_base_address ?m + (mu_size ?m - 1)" for a
      using range_covers [OF _ that] ok by (simp add: unloaded_holds_def unloaded_ok_def mu_base_address_def mu_size_def)
    then have "indexed unloaded_holds (pre @ [?m]) rm1" by (rule store_indexed [OF Cons.prems(1) store])
    from Cons.IH [OF this rest_ok, of d1] obtain result d' where
      rest: "store_unloaded_modules (of_nat (length pre) + 1) ms rm1 d1 = Some (result, d')" "moves d1 d'"
        "\<forall>ms' rm'. result = Some (ms', rm') \<longrightarrow> length ms' = length ms \<and> indexed unloaded_holds ((pre @ [?m]) @ ms') rm'"
      by (auto simp: add.commute)
    have "store_unloaded_modules (of_nat (length pre)) (m # ms) rm d =
        Some (map_option (\<lambda>(ms, rm). (?m # ms, rm)) result, d')"
      using aux store rest(1) by simp
    with rest(2,3) moves_trans [OF move] show ?thesis by (cases result) auto
  qed
qed auto

lemma UnloadedModuleList_Read_run:
  "\<exists>result d'. UnloadedModuleList_Read n d = Some (result, d') \<and> moves d d' \<and>
     (\<forall>st. result = Some st \<longrightarrow> (\<exists>l. st = Unloaded_module_list l \<and> unat (ul_count l) = length (ul_modules l) \<and>
        length (ul_modules l) \<le> max_modules \<and> indexed unloaded_holds (ul_modules l) (ul_range_map l)))"
proof -
  obtain header d1 where header: "unloaded_header n d = (header, d1)" by fastforce
  obtain entry_size count where some: "header = Some (the header) \<Longrightarrow> header = Some (entry_size, count)"
    by (cases header) fastforce+
  obtain modules d2 where modules: "read_unloaded_modules entry_size count d1 = (modules, d2)" by fastforce
  have move1: "moves d d1" using readsD [OF reads_headers(1) header] .
  have move2: "moves d d2" using moves_trans [OF move1 readsD [OF reads_unloaded_modules modules]] .
  show ?thesis
  proof (cases header)
    case None
    with header move1 show ?thesis by (simp add: UnloadedModuleList_Read_def)
  next
    case h: (Some h)
    then have h': "header = Some (entry_size, count)" using some by simp
    then have count: "count \<le> max_modules"
      using header by (auto simp: unloaded_header_def split: if_splits option.splits prod.splits bool.splits)
    show ?thesis
    proof (cases modules)
      case None
      with header h' modules move2 show ?thesis by (simp add: UnloadedModuleList_Read_def)
    next
      case (Some ms)
      note facts = read_unloaded_modules_sound [OF modules [unfolded Some]]
      let ?rm = "\<lparr>merge_strategy = kTruncateLower, rmap = []\<rparr> :: (u64, u32) range_map"
      obtain result d3 where store: "store_unloaded_modules 0 ms ?rm d2 = Some (result, d3)" "moves d2 d3"
          "\<forall>ms' rm'. result = Some (ms', rm') \<longrightarrow> length ms' = length ms \<and> indexed unloaded_holds ms' rm'"
        using store_unloaded_run [OF indexed_empty, of ms kTruncateLower d2] facts by auto
      have "UnloadedModuleList_Read n d = Some (map_option (\<lambda>(ms, rm). Unloaded_module_list
          \<lparr>ul_range_map = rm, ul_modules = ms, ul_count = of_nat count\<rparr>) result, d3)"
        using header h' modules Some store(1) by (simp add: UnloadedModuleList_Read_def)
      moreover have "unat (of_nat count :: u32) = count" using count by (simp add: max_modules_def unat_nat32)
      ultimately show ?thesis using store(3) facts count moves_trans [OF move2 store(2)] by (cases result) auto
    qed
  qed
qed

lemma UnloadedModuleList_Read_ok: "reader_ok MD_UNLOADED_MODULE_LIST_STREAM UnloadedModuleList_Read"
proof (rule reader_okI)
  fix n d
  show "\<exists>result d'. UnloadedModuleList_Read n d = Some (result, d') \<and> dump_extends d d' \<and>
      md_stream_map d' = md_stream_map d \<and> (\<forall>st. result = Some st \<longrightarrow> stream_class st = MD_UNLOADED_MODULE_LIST_STREAM)"
    using UnloadedModuleList_Read_run [of n d] by (auto simp: moves_def)
qed

interpretation unloaded_module_list:
  typed_stream MD_UNLOADED_MODULE_LIST_STREAM UnloadedModuleList_Read GetUnloadedModuleList Unloaded_module_list
  by (unfold_locales, rule UnloadedModuleList_Read_ok)
    (auto simp: GetUnloadedModuleList_def stream_types elim!: stream_class.elims)

lemma Unloaded_lookup:
  assumes "indexed unloaded_holds (ul_modules l) (ul_range_map l)" and "unat (ul_count l) = length (ul_modules l)"
    and "Unloaded_GetModuleForAddress l a = Some m"
  shows "m \<in> set (ul_modules l) \<and> unloaded_holds m a"
proof -
  obtain k rest where k: "RetrieveRange (ul_range_map l) a = Some (k, rest)" "Unloaded_GetModuleAtIndex l k = Some m"
    using assms(3) by (auto simp: Unloaded_GetModuleForAddress_def split: option.splits)
  have "length (ul_modules l) < 2 ^ 32" using assms(2) unsigned_less [of "ul_count l", where ?'a = nat] by simp
  from indexed_lookup [OF assms(1) k(1) this] k(2) show ?thesis
    by (auto simp: Unloaded_GetModuleAtIndex_def split: if_splits)
qed

lemma mu_code_identifier_system:
  assumes "streams_typed d"
  shows "\<exists>s d'. mu_code_identifier m d = Some (s, d') \<and> system_extends d d'"
proof (cases "mu_valid m")
  case True
  obtain info d' where "GetSystemInfo d = Some (info, d')" "system_extends d d'"
    using GetSystemInfo_system [OF assms] by blast
  with True show ?thesis by (simp add: mu_code_identifier_def)
next
  case False
  then show ?thesis by (simp add: mu_code_identifier_def system_extends_refl)
qed

lemma code_modules_of_unloaded_run:
  assumes "streams_typed d"
  shows "\<exists>cs d'. code_modules_of_unloaded ms d = Some (cs, d') \<and> length cs = length ms \<and> system_extends d d'"
  using assms
proof (induction ms arbitrary: d)
  case (Cons m ms)
  obtain s d1 where first: "mu_code_identifier m d = Some (s, d1)" "system_extends d d1"
    using mu_code_identifier_system [OF Cons.prems] by blast
  obtain cs d2 where rest: "code_modules_of_unloaded ms d1 = Some (cs, d2)" "length cs = length ms" "system_extends d1 d2"
    using Cons.IH [OF system_extends_typed [OF first(2) Cons.prems]] by blast
  with first system_extends_trans [OF first(2) rest(3)] show ?case by (simp add: code_module_of_unloaded_def)
qed simp

lemma UnloadedModuleList_Copy_run:
  assumes "streams_typed d"
  shows "\<exists>copy d'. UnloadedModuleList_Copy l d = Some (copy, d') \<and> system_extends d d'"
proof -
  obtain cs d' where cs: "code_modules_of_unloaded (ul_modules l) d = Some (cs, d')" "system_extends d d'"
    using code_modules_of_unloaded_run [OF assms] by blast
  obtain m where "store_modules 0 cs \<lparr>merge_strategy = merge_strategy (ul_range_map l), rmap = []\<rparr> = Some m"
    using store_modules_outcome [OF empty_map_facts(1), of 0 cs "merge_strategy (ul_range_map l)"] by blast
  with cs show ?thesis by (simp add: UnloadedModuleList_Copy_def BasicCodeModules_def)
qed

subsection \<open>Memory information is found by address\<close>

definition info_holds :: "MDRawMemoryInfo \<Rightarrow> u64 \<Rightarrow> bool" where
  "info_holds info a = covers (mem_base_address info) (mem_region_size info) a"

lemma MemoryInfo_Read_sound:
  "MemoryInfo_Read d = (Some info, d') \<Longrightarrow>
     mem_region_size info \<noteq> 0 \<and> mem_region_size info \<le> - 1 - mem_base_address info"
  by (auto simp: MemoryInfo_Read_def Let_def split: if_splits option.splits prod.splits)

lemma read_memory_infos_run:
  assumes "indexed info_holds pre rm"
  shows "\<exists>result d'. read_memory_infos n (of_nat (length pre)) rm d = Some (result, d') \<and> moves d d' \<and>
    (\<forall>infos rm'. result = Some (infos, rm') \<longrightarrow> length infos = n \<and> indexed info_holds (pre @ infos) rm')"
  using assms
proof (induction n arbitrary: pre rm d)
  case (Suc n)
  obtain info d1 where info: "MemoryInfo_Read d = (info, d1)" by fastforce
  have move: "moves d d1" using readsD [OF reads_headers(3) info] .
  show ?case
  proof (cases info)
    case None
    with info move show ?thesis by simp
  next
    case (Some i)
    note ok = MemoryInfo_Read_sound [OF info [unfolded Some]]
    have "range_map_ok rm" using Suc.prems by (simp add: indexed_def)
    then obtain rm1 stored where
      store: "StoreRange rm (mem_base_address i) (mem_region_size i) (of_nat (length pre)) = Some (rm1, stored)"
      using StoreRange_run [of rm "mem_base_address i" "mem_region_size i" "of_nat (length pre)"] by blast
    have "info_holds i a"
      if "mem_region_size i \<noteq> 0" "mem_base_address i \<le> a" "a \<le> mem_base_address i + (mem_region_size i - 1)" for a
      using range_covers [OF _ that] ok by (simp add: info_holds_def)
    then have "indexed info_holds (pre @ [i]) rm1" by (rule store_indexed [OF Suc.prems store])
    from Suc.IH [OF this, of d1] obtain result d' where
      rest: "read_memory_infos n (of_nat (length pre) + 1) rm1 d1 = Some (result, d')" "moves d1 d'"
        "\<forall>infos rm'. result = Some (infos, rm') \<longrightarrow> length infos = n \<and> indexed info_holds ((pre @ [i]) @ infos) rm'"
      by (auto simp: add.commute)
    show ?thesis
    proof (cases stored)
      case False
      with info Some store move show ?thesis by simp
    next
      case True
      then have "read_memory_infos (Suc n) (of_nat (length pre)) rm d =
          Some (map_option (\<lambda>(infos, rm). (i # infos, rm)) result, d')"
        using info Some store rest(1) by simp
      with rest(2,3) moves_trans [OF move] show ?thesis by (cases result) auto
    qed
  qed
qed auto

lemma memory_info_header_small:
  "memory_info_header n d = (Some count, d') \<Longrightarrow> unat count < 2 ^ 32 \<and> unat (ucast count :: u32) = unat count"
proof -
  assume "memory_info_header n d = (Some count, d')"
  then have "count \<le> 0xffffffff div 48"
    by (auto simp: memory_info_header_def Let_def not_less split: if_splits option.splits prod.splits)
  then have "unat count \<le> 89478485" by (simp add: word_le_nat_alt)
  then show ?thesis by (simp add: unsigned_ucast_eq take_bit_nat_eq_self)
qed

lemma MemoryInfoList_Read_run:
  "\<exists>result d'. MemoryInfoList_Read n d = Some (result, d') \<and> moves d d' \<and>
     (\<forall>st. result = Some st \<longrightarrow> (\<exists>l. st = Memory_info_list l \<and> unat (il_count l) = length (il_infos l) \<and>
        length (il_infos l) < 2 ^ 32 \<and> indexed info_holds (il_infos l) (il_range_map l)))"
proof -
  obtain count d1 where header: "memory_info_header n d = (count, d1)" by fastforce
  have move: "moves d d1" using readsD [OF reads_headers(2) header] .
  show ?thesis
  proof (cases count)
    case None
    with header move show ?thesis by (simp add: MemoryInfoList_Read_def)
  next
    case (Some c)
    obtain result d2 where infos: "read_memory_infos (unat c) 0 \<lparr>merge_strategy = kExclusiveRanges, rmap = []\<rparr> d1 = Some (result, d2)"
        "moves d1 d2" "\<forall>infos rm'. result = Some (infos, rm') \<longrightarrow> length infos = unat c \<and> indexed info_holds infos rm'"
      using read_memory_infos_run [OF indexed_empty, of "unat c" kExclusiveRanges d1] by auto
    have "MemoryInfoList_Read n d = Some (map_option (\<lambda>(infos, rm). Memory_info_list
        \<lparr>il_range_map = rm, il_infos = infos, il_count = ucast c\<rparr>) result, d2)"
      using header Some infos(1) by (simp add: MemoryInfoList_Read_def)
    with infos(3) memory_info_header_small [OF header [unfolded Some]] moves_trans [OF move infos(2)]
    show ?thesis by (cases result) auto
  qed
qed

lemma MemoryInfoList_Read_ok: "reader_ok MD_MEMORY_INFO_LIST_STREAM MemoryInfoList_Read"
proof (rule reader_okI)
  fix n d
  show "\<exists>result d'. MemoryInfoList_Read n d = Some (result, d') \<and> dump_extends d d' \<and>
      md_stream_map d' = md_stream_map d \<and> (\<forall>st. result = Some st \<longrightarrow> stream_class st = MD_MEMORY_INFO_LIST_STREAM)"
    using MemoryInfoList_Read_run [of n d] by (auto simp: moves_def)
qed

interpretation memory_info_list:
  typed_stream MD_MEMORY_INFO_LIST_STREAM MemoryInfoList_Read GetMemoryInfoList Memory_info_list
  by (unfold_locales, rule MemoryInfoList_Read_ok)
    (auto simp: GetMemoryInfoList_def stream_types elim!: stream_class.elims)

text \<open>An address lies in a mapping when it is between its ends, whatever the difference of the ends.\<close>

lemma GetLinuxMapsForAddress_find:
  assumes "length maps < 2 ^ 32"
  shows "GetLinuxMapsForAddress maps a = find (\<lambda>r. region_start r \<le> a \<and> a < region_end r) maps"
  using assms by (simp add: GetLinuxMapsForAddress_def maps_count_def unat_nat32 LinuxMaps_GetBase_def LinuxMaps_GetSize_def)

text \<open>
  Reading the list of memory information ends for every dump, whatever is in the file and
  whatever the size of its stream is said to be.  When it succeeds, what the list finds for an
  address is one of its entries, and the address lies inside the region of that entry, which does
  not wrap around.
\<close>

theorem MemoryInfoList_Read_lookup:
  "\<exists>result d'. MemoryInfoList_Read n d = Some (result, d') \<and>
     (\<forall>st. result = Some st \<longrightarrow> (\<exists>l. st = Memory_info_list l \<and>
        (\<forall>a info. GetMemoryInfoForAddress l a = Some info \<longrightarrow>
           info \<in> set (il_infos l) \<and> unat (mem_base_address info) \<le> unat a \<and>
           unat a < unat (mem_base_address info) + unat (mem_region_size info))))"
proof -
  obtain result d' where run: "MemoryInfoList_Read n d = Some (result, d')"
    "\<forall>st. result = Some st \<longrightarrow> (\<exists>l. st = Memory_info_list l \<and> unat (il_count l) = length (il_infos l) \<and>
       length (il_infos l) < 2 ^ 32 \<and> indexed info_holds (il_infos l) (il_range_map l))"
    using MemoryInfoList_Read_run [of n d] by blast
  have "info \<in> set (il_infos l) \<and> info_holds info a"
    if get: "GetMemoryInfoForAddress l a = Some info" and "unat (il_count l) = length (il_infos l)"
      "length (il_infos l) < 2 ^ 32" "indexed info_holds (il_infos l) (il_range_map l)" for l a info
  proof -
    obtain k rest where k: "RetrieveRange (il_range_map l) a = Some (k, rest)" "GetMemoryInfoAtIndex l k = Some info"
      using get by (cases "RetrieveRange (il_range_map l) a") (auto simp: GetMemoryInfoForAddress_def)
    from indexed_lookup [OF that(4) k(1) that(3)] k(2) show ?thesis
      by (auto simp: GetMemoryInfoAtIndex_def split: if_splits)
  qed
  then show ?thesis
    using run by (intro exI [of _ result] exI [of _ d'] conjI) (fastforce simp: info_holds_def covers_def)+
qed

text \<open>A list with one entry, written in the other byte order.\<close>

definition sample_info :: MDRawMemoryInfo where
  "sample_info = \<lparr>mem_base_address = 0x1000, mem_allocation_base = 0x1000, mem_allocation_protection = 4,
     mem_region_size = 0x2000, mem_state = 0x1000, mem_protection = 4, mem_type = 0x20000\<rparr>"

definition sample_info_list :: "char list" where
  "sample_info_list = file_bytes True (16 :: u32) @ file_bytes True (48 :: u32) @ file_bytes True (1 :: u64) @
     file_bytes True (0x1000 :: u64) @ file_bytes True (0x1000 :: u64) @ file_bytes True (4 :: u32) @
     file_bytes True (0 :: u32) @ file_bytes True (0x2000 :: u64) @ file_bytes True (0x1000 :: u32) @
     file_bytes True (4 :: u32) @ file_bytes True (0x20000 :: u32) @ file_bytes True (0 :: u32)"

theorem MemoryInfoList_Read_lookup_witness:
  "\<exists>l d'. MemoryInfoList_Read 64 (sample_dump sample_info_list) = Some (Some (Memory_info_list l), d') \<and>
     il_infos l = [sample_info] \<and> (\<forall>info. GetMemoryInfoForAddress l 0x3000 \<noteq> Some info)"
proof -
  let ?st = "opened sample_info_list" and ?d = "sample_dump sample_info_list"
  have st: "\<not> stream_failed ?st" "stream_pos ?st = 0" "stream_data ?st = sample_info_list" by (simp_all add: opened_def)
  have len: "length sample_info_list = 64" by (simp add: sample_info_list_def)
  have "ReadBytes 16 ?d = (Some (take 16 sample_info_list), at_position (stream_pos ?st + 16) ?st ?d)"
    by (rule ReadBytes_next) (simp_all add: st len)
  then have header: "memory_info_header 64 ?d = (Some 1, at_position 16 ?st ?d)"
    by (simp add: memory_info_header_def st) (simp add: sample_info_list_def field_simps at_position_def)
  let ?e = "at_position 16 ?st ?d"
  have "ReadBytes 48 ?e = (Some (drop 16 sample_info_list),
      at_position (stream_pos (?st\<lparr>stream_pos := 16\<rparr>) + 48) (?st\<lparr>stream_pos := 16\<rparr>) ?e)"
    by (rule ReadBytes_next) (simp_all add: st len at_position_def)
  then obtain d' where info: "MemoryInfo_Read ?e = (Some sample_info, d')"
    by (simp add: MemoryInfo_Read_def at_position_def)
      (simp add: sample_info_list_def MDRawMemoryInfo_at_def field_simps sample_info_def Let_def)
  obtain rm where "StoreRange \<lparr>merge_strategy = kExclusiveRanges, rmap = []\<rparr> (0x1000 :: u64) 0x2000 (0 :: u32) = Some (rm, True)"
    by (simp add: store_eval)
  with info have "read_memory_infos 1 0 \<lparr>merge_strategy = kExclusiveRanges, rmap = []\<rparr> ?e = Some (Some ([sample_info], rm), d')"
    by (simp add: sample_info_def)
  with header obtain l where l: "MemoryInfoList_Read 64 ?d = Some (Some (Memory_info_list l), d')" "il_infos l = [sample_info]"
    by (simp add: MemoryInfoList_Read_def)
  have "\<forall>a info. GetMemoryInfoForAddress l a = Some info \<longrightarrow> info \<in> set (il_infos l) \<and>
      unat (mem_base_address info) \<le> unat a \<and> unat a < unat (mem_base_address info) + unat (mem_region_size info)"
    using MemoryInfoList_Read_lookup [of 64 ?d] l(1) by simp
  from this [rule_format, of "0x3000"] have "GetMemoryInfoForAddress l 0x3000 \<noteq> Some info" for info
    by (auto simp: l(2) sample_info_def)
  with l show ?thesis by blast
qed

end
