(* ===== verification/Crash_Reason.thy ===== *)
theory Crash_Reason
  imports NT_Status Minidump_Streams
begin

text \<open>
  Why a process crashed: \<open>GetCrashReason\<close> of \<open>processor/minidump_processor.cc\<close>.  Exception
  codes and flags are turned into text by platform and processor.  The cases of the
  \<open>switch\<close> statements are tables, in the order of the source; the values of their labels
  are those of the headers \<open>minidump_exception_*.h\<close>.  The lemmas say where the address of a
  crash comes from and which bits of it count.
\<close>

subsection \<open>The tables\<close>

definition fuchsia_exceptions :: "(u32 \<times> string) list" where
  "fuchsia_exceptions =
    [(0x8, ''GENERAL / ''),
     (0x108, ''FATAL_PAGE_FAULT / ''),
     (0x208, ''UNDEFINED_INSTRUCTION / ''),
     (0x308, ''SW_BREAKPOINT / ''),
     (0x408, ''HW_BREAKPOINT / ''),
     (0x508, ''UNALIGNED_ACCESS / ''),
     (0x8008, ''THREAD_STARTING / ''),
     (0x8108, ''THREAD_EXITING / ''),
     (0x8208, ''POLICY_ERROR / ''),
     (0x8308, ''PROCESS_STARTING / '')]"

definition mac_kernel_flags :: "(u32 \<times> string) list" where
  "mac_kernel_flags =
    [(0x1, ''KERN_INVALID_ADDRESS''),
     (0x2, ''KERN_PROTECTION_FAILURE''),
     (0x8, ''KERN_NO_ACCESS''),
     (0x9, ''KERN_MEMORY_FAILURE''),
     (0xA, ''KERN_MEMORY_ERROR''),
     (0x32, ''KERN_CODESIGN_ERROR'')]"

definition mac_arm_access_flags :: "(u32 \<times> string) list" where
  "mac_arm_access_flags =
    [(0x101, ''EXC_ARM_DA_ALIGN''),
     (0x102, ''EXC_ARM_DA_DEBUG'')]"

definition mac_ppc_access_flags :: "(u32 \<times> string) list" where
  "mac_ppc_access_flags =
    [(0x101, ''EXC_PPC_VM_PROT_READ''),
     (0x102, ''EXC_PPC_BADSPACE''),
     (0x103, ''EXC_PPC_UNALIGNED'')]"

definition mac_x86_access_flags :: "(u32 \<times> string) list" where
  "mac_x86_access_flags =
    [(0xD, ''EXC_I386_GPFLT'')]"

definition mac_arm_instruction_flags :: "(u32 \<times> string) list" where
  "mac_arm_instruction_flags =
    [(0x1, ''EXC_ARM_UNDEFINED'')]"

definition mac_ppc_instruction_flags :: "(u32 \<times> string) list" where
  "mac_ppc_instruction_flags =
    [(0x1, ''EXC_PPC_INVALID_SYSCALL''),
     (0x2, ''EXC_PPC_UNIPL_INST''),
     (0x3, ''EXC_PPC_PRIVINST''),
     (0x4, ''EXC_PPC_PRIVREG''),
     (0x5, ''EXC_PPC_TRACE''),
     (0x6, ''EXC_PPC_PERFMON'')]"

definition mac_x86_instruction_flags :: "(u32 \<times> string) list" where
  "mac_x86_instruction_flags =
    [(0x1, ''EXC_I386_INVOP''),
     (0xA, ''EXC_I386_INVTSSFLT''),
     (0xB, ''EXC_I386_SEGNPFLT''),
     (0xC, ''EXC_I386_STKFLT''),
     (0xD, ''EXC_I386_GPFLT''),
     (0x11, ''EXC_I386_ALIGNFLT'')]"

definition mac_arm_breakpoint_flags :: "(u32 \<times> string) list" where
  "mac_arm_breakpoint_flags =
    [(0x101, ''EXC_ARM_DA_ALIGN''),
     (0x102, ''EXC_ARM_DA_DEBUG''),
     (0x1, ''EXC_ARM_BREAKPOINT'')]"

definition mac_ppc_breakpoint_flags :: "(u32 \<times> string) list" where
  "mac_ppc_breakpoint_flags =
    [(0x1, ''EXC_PPC_BREAKPOINT'')]"

definition mac_x86_breakpoint_flags :: "(u32 \<times> string) list" where
  "mac_x86_breakpoint_flags =
    [(0x1, ''EXC_I386_SGL''),
     (0x2, ''EXC_I386_BPT'')]"

definition mac_ppc_arithmetic_flags :: "(u32 \<times> string) list" where
  "mac_ppc_arithmetic_flags =
    [(0x1, ''EXC_PPC_OVERFLOW''),
     (0x2, ''EXC_PPC_ZERO_DIVIDE''),
     (0x3, ''EXC_FLT_INEXACT''),
     (0x4, ''EXC_PPC_FLT_ZERO_DIVIDE''),
     (0x5, ''EXC_PPC_FLT_UNDERFLOW''),
     (0x6, ''EXC_PPC_FLT_OVERFLOW''),
     (0x7, ''EXC_PPC_FLT_NOT_A_NUMBER''),
     (0x8, ''EXC_PPC_NOEMULATION''),
     (0x9, ''EXC_PPC_ALTIVECASSIST'')]"

definition mac_x86_arithmetic_flags :: "(u32 \<times> string) list" where
  "mac_x86_arithmetic_flags =
    [(0x1, ''EXC_I386_DIV''),
     (0x2, ''EXC_I386_INTO''),
     (0x3, ''EXC_I386_NOEXT''),
     (0x4, ''EXC_I386_EXTOVR''),
     (0x5, ''EXC_I386_EXTERR''),
     (0x6, ''EXC_I386_EMERR''),
     (0x7, ''EXC_I386_BOUND''),
     (0x8, ''EXC_I386_SSEEXTERR'')]"

definition mac_software_flags :: "(u32 \<times> string) list" where
  "mac_software_flags =
    [(0x10002, ''SIGABRT''),
     (0xDEADC0DE, ''UNCAUGHT_NS_EXCEPTION''),
     (0x1, ''EXC_PPC_TRAP''),
     (0x10100, ''EXC_PPC_MIGRATE'')]"

definition win_exceptions :: "(u32 \<times> string) list" where
  "win_exceptions =
    [(0x40010005, ''DBG_CONTROL_C''),
     (0x80000001, ''EXCEPTION_GUARD_PAGE''),
     (0x80000002, ''EXCEPTION_DATATYPE_MISALIGNMENT''),
     (0x80000003, ''EXCEPTION_BREAKPOINT''),
     (0x80000004, ''EXCEPTION_SINGLE_STEP''),
     (0xC0000008, ''EXCEPTION_INVALID_HANDLE''),
     (0xC000001D, ''EXCEPTION_ILLEGAL_INSTRUCTION''),
     (0xC0000025, ''EXCEPTION_NONCONTINUABLE_EXCEPTION''),
     (0xC0000026, ''EXCEPTION_INVALID_DISPOSITION''),
     (0xC000008C, ''EXCEPTION_BOUNDS_EXCEEDED''),
     (0xC000008D, ''EXCEPTION_FLT_DENORMAL_OPERAND''),
     (0xC000008E, ''EXCEPTION_FLT_DIVIDE_BY_ZERO''),
     (0xC000008F, ''EXCEPTION_FLT_INEXACT_RESULT''),
     (0xC0000090, ''EXCEPTION_FLT_INVALID_OPERATION''),
     (0xC0000091, ''EXCEPTION_FLT_OVERFLOW''),
     (0xC0000092, ''EXCEPTION_FLT_STACK_CHECK''),
     (0xC0000093, ''EXCEPTION_FLT_UNDERFLOW''),
     (0xC0000094, ''EXCEPTION_INT_DIVIDE_BY_ZERO''),
     (0xC0000095, ''EXCEPTION_INT_OVERFLOW''),
     (0xC0000096, ''EXCEPTION_PRIV_INSTRUCTION''),
     (0xC00000FD, ''EXCEPTION_STACK_OVERFLOW''),
     (0xC00000FF, ''EXCEPTION_BAD_FUNCTION_TABLE''),
     (0xC0000194, ''EXCEPTION_POSSIBLE_DEADLOCK''),
     (0xC0000409, ''EXCEPTION_STACK_BUFFER_OVERRUN''),
     (0xC0000374, ''EXCEPTION_HEAP_CORRUPTION''),
     (0xE0000008, ''Out of Memory''),
     (0xE06D7363, ''Unhandled C++ Exception''),
     (0x517A7ED, ''Simulated Exception'')]"

definition lin_ill_flags :: "(u32 \<times> string) list" where
  "lin_ill_flags =
    [(0x1, ''ILL_ILLOPC''),
     (0x2, ''ILL_ILLOPN''),
     (0x3, ''ILL_ILLADR''),
     (0x4, ''ILL_ILLTRP''),
     (0x5, ''ILL_PRVOPC''),
     (0x6, ''ILL_PRVREG''),
     (0x7, ''ILL_COPROC''),
     (0x8, ''ILL_BADSTK'')]"

definition lin_bus_flags :: "(u32 \<times> string) list" where
  "lin_bus_flags =
    [(0x1, ''BUS_ADRALN''),
     (0x2, ''BUS_ADRERR''),
     (0x3, ''BUS_OBJERR''),
     (0x4, ''BUS_MCEERR_AR''),
     (0x5, ''BUS_MCEERR_AO'')]"

definition lin_fpe_flags :: "(u32 \<times> string) list" where
  "lin_fpe_flags =
    [(0x1, ''FPE_INTDIV''),
     (0x2, ''FPE_INTOVF''),
     (0x3, ''FPE_FLTDIV''),
     (0x4, ''FPE_FLTOVF''),
     (0x5, ''FPE_FLTUND''),
     (0x6, ''FPE_FLTRES''),
     (0x7, ''FPE_FLTINV''),
     (0x8, ''FPE_FLTSUB'')]"

definition lin_segv_flags :: "(u32 \<times> string) list" where
  "lin_segv_flags =
    [(0x1, ''SEGV_MAPERR''),
     (0x2, ''SEGV_ACCERR''),
     (0x3, ''SEGV_BNDERR''),
     (0x4, ''SEGV_PKUERR'')]"

definition lin_signals :: "(u32 \<times> string) list" where
  "lin_signals =
    [(0x1, ''SIGHUP''),
     (0x2, ''SIGINT''),
     (0x3, ''SIGQUIT''),
     (0x5, ''SIGTRAP''),
     (0x6, ''SIGABRT''),
     (0x9, ''SIGKILL''),
     (0xA, ''SIGUSR1''),
     (0xC, ''SIGUSR2''),
     (0xD, ''SIGPIPE''),
     (0xE, ''SIGALRM''),
     (0xF, ''SIGTERM''),
     (0x10, ''SIGSTKFLT''),
     (0x11, ''SIGCHLD''),
     (0x12, ''SIGCONT''),
     (0x13, ''SIGSTOP''),
     (0x14, ''SIGTSTP''),
     (0x15, ''SIGTTIN''),
     (0x16, ''SIGTTOU''),
     (0x17, ''SIGURG''),
     (0x18, ''SIGXCPU''),
     (0x19, ''SIGXFSZ''),
     (0x1A, ''SIGVTALRM''),
     (0x1B, ''SIGPROF''),
     (0x1C, ''SIGWINCH''),
     (0x1D, ''SIGIO''),
     (0x1E, ''SIGPWR''),
     (0x1F, ''SIGSYS''),
     (0xFFFFFFFF, ''DUMP_REQUESTED'')]"

definition sol_signals :: "(u32 \<times> string) list" where
  "sol_signals =
    [(0x1, ''SIGHUP''),
     (0x2, ''SIGINT''),
     (0x3, ''SIGQUIT''),
     (0x4, ''SIGILL''),
     (0x5, ''SIGTRAP''),
     (0x6, ''SIGIOT | SIGABRT''),
     (0x7, ''SIGEMT''),
     (0x8, ''SIGFPE''),
     (0x9, ''SIGKILL''),
     (0xA, ''SIGBUS''),
     (0xB, ''SIGSEGV''),
     (0xC, ''SIGSYS''),
     (0xD, ''SIGPIPE''),
     (0xE, ''SIGALRM''),
     (0xF, ''SIGTERM''),
     (0x10, ''SIGUSR1''),
     (0x11, ''SIGUSR2''),
     (0x12, ''SIGCLD | SIGCHLD''),
     (0x13, ''SIGPWR''),
     (0x14, ''SIGWINCH''),
     (0x15, ''SIGURG''),
     (0x16, ''SIGPOLL | SIGIO''),
     (0x17, ''SIGSTOP''),
     (0x18, ''SIGTSTP''),
     (0x19, ''SIGCONT''),
     (0x1A, ''SIGTTIN''),
     (0x1B, ''SIGTTOU''),
     (0x1C, ''SIGVTALRM''),
     (0x1D, ''SIGPROF''),
     (0x1E, ''SIGXCPU''),
     (0x1F, ''SIGXFSZ''),
     (0x20, ''SIGWAITING''),
     (0x21, ''SIGLWP''),
     (0x22, ''SIGFREEZE''),
     (0x23, ''SIGTHAW''),
     (0x24, ''SIGCANCEL''),
     (0x25, ''SIGLOST''),
     (0x26, ''SIGXRES''),
     (0x27, ''SIGJVM1''),
     (0x28, ''SIGJVM2'')]"

definition ps3_exceptions :: "(u32 \<times> string) list" where
  "ps3_exceptions =
    [(0x0, ''UNKNOWN''),
     (0x1, ''TRAP_EXCEP''),
     (0x2, ''PRIV_INSTR''),
     (0x3, ''ILLEGAL_INSTR''),
     (0x4, ''INSTR_STORAGE''),
     (0x5, ''INSTR_SEGMENT''),
     (0x6, ''DATA_STORAGE''),
     (0x7, ''DATA_SEGMENT''),
     (0x8, ''FLOAT_POINT''),
     (0x9, ''DABR_MATCH''),
     (0xA, ''ALIGN_EXCEP''),
     (0xB, ''MEMORY_ACCESS''),
     (0xC, ''COPRO_ALIGN''),
     (0xD, ''COPRO_INVALID_COM''),
     (0xE, ''COPRO_ERR''),
     (0xF, ''COPRO_FIR''),
     (0x10, ''COPRO_DATA_SEGMENT''),
     (0x11, ''COPRO_DATA_STORAGE''),
     (0x12, ''COPRO_STOP_INSTR''),
     (0x13, ''COPRO_HALT_INSTR''),
     (0x14, ''COPRO_HALTINSTR_UNKNOWN''),
     (0x15, ''COPRO_MEMORY_ACCESS''),
     (0x16, ''GRAPHIC'')]"

subsection \<open>Text for a code\<close>

definition hex_text :: "u32 \<Rightarrow> string" where
  "hex_text w = ''0x'' @ hex_lower 8 w"

text \<open>The reason when nothing better is known: code and flags.\<close>

definition numeric_reason :: "MDException \<Rightarrow> string" where
  "numeric_reason e = hex_text (exception_code e) @ '' / '' @ hex_text (exception_flags e)"

definition flag_name :: "(u32 \<times> string) list \<Rightarrow> MDException \<Rightarrow> string" where
  "flag_name table e =
     (case map_of table (exception_flags e) of Some name \<Rightarrow> name | None \<Rightarrow> hex_text (exception_flags e))"

definition fuchsia_reason :: "MDException \<Rightarrow> string" where
  "fuchsia_reason e =
     (case map_of fuchsia_exceptions (exception_code e) of
        Some name \<Rightarrow> name @ hex_text (exception_flags e)
      | None \<Rightarrow> numeric_reason e)"

text \<open>On macOS the flags mean what the processor makes of them.\<close>

definition cpu_flags ::
  "(u32 \<times> string) list \<Rightarrow> (u32 \<times> string) list \<Rightarrow> (u32 \<times> string) list \<Rightarrow> u16 \<Rightarrow> (u32 \<times> string) list" where
  "cpu_flags arm ppc x86 architecture =
     (if architecture = MD_CPU_ARCHITECTURE_ARM \<or> architecture = MD_CPU_ARCHITECTURE_ARM64_OLD then arm
      else if architecture = MD_CPU_ARCHITECTURE_PPC then ppc
      else if architecture = MD_CPU_ARCHITECTURE_X86 \<or> architecture = MD_CPU_ARCHITECTURE_AMD64 then x86
      else [])"

definition mac_reason :: "u16 \<Rightarrow> MDException \<Rightarrow> string" where
  "mac_reason architecture e =
     (let code = exception_code e; flags = hex_text (exception_flags e) in
      if code = 1 then ''EXC_BAD_ACCESS / '' @
        flag_name (mac_kernel_flags @
          cpu_flags mac_arm_access_flags mac_ppc_access_flags mac_x86_access_flags architecture) e
      else if code = 2 then ''EXC_BAD_INSTRUCTION / '' @
        flag_name (cpu_flags mac_arm_instruction_flags mac_ppc_instruction_flags mac_x86_instruction_flags
          architecture) e
      else if code = 3 then ''EXC_ARITHMETIC / '' @
        flag_name (cpu_flags [] mac_ppc_arithmetic_flags mac_x86_arithmetic_flags architecture) e
      else if code = 4 then ''EXC_EMULATION / '' @ flags
      else if code = 5 then ''EXC_SOFTWARE / '' @ flag_name mac_software_flags e
      else if code = 6 then ''EXC_BREAKPOINT / '' @
        flag_name (cpu_flags mac_arm_breakpoint_flags mac_ppc_breakpoint_flags mac_x86_breakpoint_flags
          architecture) e
      else if code = 7 then ''EXC_SYSCALL / '' @ flags
      else if code = 8 then ''EXC_MACH_SYSCALL / '' @ flags
      else if code = 9 then ''EXC_RPC_ALERT / '' @ flags
      else if code = 0x43507378 then ''Simulated Exception''
      else numeric_reason e)"

definition MD_EXCEPTION_CODE_WIN_ACCESS_VIOLATION :: u32 where
  "MD_EXCEPTION_CODE_WIN_ACCESS_VIOLATION = 0xc0000005"
definition MD_EXCEPTION_CODE_WIN_IN_PAGE_ERROR :: u32 where
  "MD_EXCEPTION_CODE_WIN_IN_PAGE_ERROR = 0xc0000006"

text \<open>The first parameter, cut to the 32 bits of an enumeration, says what was attempted.\<close>

definition attempted_access :: "MDException \<Rightarrow> string" where
  "attempted_access e =
     (if number_parameters e < 1 then []
      else case map_of [(0, ''_READ''), (1, ''_WRITE''), (8, ''_EXEC'')]
          (ucast (exception_information e ! 0) :: u32) of
        Some kind \<Rightarrow> kind
      | None \<Rightarrow> [])"

definition win_reason :: "MDException \<Rightarrow> string" where
  "win_reason e =
     (let code = exception_code e in
      if code = MD_EXCEPTION_CODE_WIN_ACCESS_VIOLATION then ''EXCEPTION_ACCESS_VIOLATION'' @ attempted_access e
      else if code = MD_EXCEPTION_CODE_WIN_IN_PAGE_ERROR then
        ''EXCEPTION_IN_PAGE_ERROR'' @ attempted_access e @
          (if 3 \<le> number_parameters e then '' / '' @ NTStatusToString (ucast (exception_information e ! 2)) else [])
      else case map_of win_exceptions code of Some name \<Rightarrow> name | None \<Rightarrow> numeric_reason e)"

definition lin_reason :: "MDException \<Rightarrow> string" where
  "lin_reason e =
     (let code = exception_code e in
      if code = 4 then ''SIGILL / '' @ flag_name lin_ill_flags e
      else if code = 7 then ''SIGBUS / '' @ flag_name lin_bus_flags e
      else if code = 8 then ''SIGFPE / '' @ flag_name lin_fpe_flags e
      else if code = 11 then ''SIGSEGV /'' @ flag_name lin_segv_flags e
      else case map_of lin_signals code of Some name \<Rightarrow> name | None \<Rightarrow> numeric_reason e)"

definition crash_reason :: "MDRawSystemInfo \<Rightarrow> MDException \<Rightarrow> string" where
  "crash_reason info e =
     (let platform = platform_id info in
      if platform = MD_OS_FUCHSIA then fuchsia_reason e
      else if platform = MD_OS_MAC_OS_X \<or> platform = MD_OS_IOS then mac_reason (processor_architecture info) e
      else if platform = MD_OS_WIN32_NT \<or> platform = MD_OS_WIN32_WINDOWS then win_reason e
      else if platform = MD_OS_ANDROID \<or> platform = MD_OS_LINUX then lin_reason e
      else if platform = MD_OS_SOLARIS then
        (case map_of sol_signals (exception_code e) of Some name \<Rightarrow> name | None \<Rightarrow> numeric_reason e)
      else if platform = MD_OS_PS3 then
        (case map_of ps3_exceptions (exception_code e) of Some name \<Rightarrow> name | None \<Rightarrow> numeric_reason e)
      else numeric_reason e)"

subsection \<open>The address\<close>

definition GetAddressForArchitecture :: "u16 \<Rightarrow> u64 \<Rightarrow> u64" where
  "GetAddressForArchitecture architecture raw_address =
     (if architecture \<in> {MD_CPU_ARCHITECTURE_X86, MD_CPU_ARCHITECTURE_MIPS, MD_CPU_ARCHITECTURE_PPC,
         MD_CPU_ARCHITECTURE_SHX, MD_CPU_ARCHITECTURE_ARM, MD_CPU_ARCHITECTURE_X86_WIN64}
      then raw_address AND 0xffffffff
      else raw_address)"

text \<open>On Windows a memory fault carries the address of the data.\<close>

definition crash_address :: "MDRawSystemInfo \<Rightarrow> MDException \<Rightarrow> u64" where
  "crash_address info e =
     GetAddressForArchitecture (processor_architecture info)
       (if (platform_id info = MD_OS_WIN32_NT \<or> platform_id info = MD_OS_WIN32_WINDOWS) \<and>
          (exception_code e = MD_EXCEPTION_CODE_WIN_ACCESS_VIOLATION \<or>
           exception_code e = MD_EXCEPTION_CODE_WIN_IN_PAGE_ERROR) \<and>
          2 \<le> number_parameters e
        then exception_information e ! 1
        else exception_address e)"

text \<open>The address is written only when there is an exception.\<close>

definition GetCrashReason :: "u64 \<Rightarrow> minidump \<Rightarrow> ((string \<times> u64) \<times> minidump) run" where
  "GetCrashReason address d = do {
     (exception, d) \<leftarrow> GetException d;
     (case exception of
        None \<Rightarrow> Some (([], address), d)
      | Some ex \<Rightarrow> do {
          (system_info, d) \<leftarrow> GetSystemInfo d;
          Some (let e = exception_record (me_exception ex) in
            case system_info of
              None \<Rightarrow> (numeric_reason e, exception_address e)
            | Some info \<Rightarrow> (crash_reason info e, crash_address info e), d)
        })
   }"

subsection \<open>What is told of a crash\<close>

lemma map_of_named: "map_of table c = Some name \<Longrightarrow> list_all (\<lambda>(_, n). n \<noteq> []) table \<Longrightarrow> name \<noteq> []"
  using map_of_SomeD by (fastforce simp: list_all_iff)

lemma signals_named:
  "list_all (\<lambda>(_, n). n \<noteq> []) win_exceptions" "list_all (\<lambda>(_, n). n \<noteq> []) lin_signals"
  "list_all (\<lambda>(_, n). n \<noteq> []) sol_signals" "list_all (\<lambda>(_, n). n \<noteq> []) ps3_exceptions"
  by (simp_all add: win_exceptions_def lin_signals_def sol_signals_def ps3_exceptions_def)

text \<open>There is always a reason, whatever the codes and the platform are.\<close>

lemma numeric_reason_given: "numeric_reason e \<noteq> []" "hex_text w \<noteq> []"
  by (simp_all add: numeric_reason_def hex_text_def)

lemma reasons_given: "fuchsia_reason e \<noteq> []" "mac_reason architecture e \<noteq> []" "win_reason e \<noteq> []" "lin_reason e \<noteq> []"
  unfolding fuchsia_reason_def mac_reason_def win_reason_def lin_reason_def Let_def
  by (simp_all add: numeric_reason_given signals_named map_of_named split: option.split)

lemma crash_reason_given: "crash_reason info e \<noteq> []"
  unfolding crash_reason_def Let_def
  by (simp add: reasons_given numeric_reason_given signals_named map_of_named split: option.split)

text \<open>On a processor with addresses of 32 bits no other bits of the address of a crash are told.\<close>

lemma crash_address_bounded:
  assumes "processor_architecture info \<in> {MD_CPU_ARCHITECTURE_X86, MD_CPU_ARCHITECTURE_MIPS,
    MD_CPU_ARCHITECTURE_PPC, MD_CPU_ARCHITECTURE_SHX, MD_CPU_ARCHITECTURE_ARM, MD_CPU_ARCHITECTURE_X86_WIN64}"
  shows "unat (crash_address info e) < 2 ^ 32"
proof -
  have "unat (a AND 0xffffffff) < 2 ^ 32" for a :: u64
  proof -
    have "a AND 0xffffffff = take_bit 32 a" by (simp add: take_bit_eq_mask mask_eq_exp_minus_1)
    then show ?thesis using take_bit_nat_less_exp [of 32 "unat a"] by (simp only: unsigned_take_bit_eq)
  qed
  with assms show ?thesis unfolding crash_address_def GetAddressForArchitecture_def by presburger
qed

text \<open>A memory fault on Windows is at the address of the data when the exception has that parameter.\<close>

lemma crash_address_fault:
  assumes "platform_id info = MD_OS_WIN32_NT" and "exception_code e = MD_EXCEPTION_CODE_WIN_ACCESS_VIOLATION"
    and "processor_architecture info = MD_CPU_ARCHITECTURE_AMD64"
  shows "crash_address info e =
    (if 2 \<le> number_parameters e then exception_information e ! 1 else exception_address e)"
  using assms by (simp add: crash_address_def GetAddressForArchitecture_def cpu_architectures)

end
