(* ===== verification/Process_Description.thy ===== *)
theory Process_Description
  imports Crash_Reason Stackwalker_CPU
begin

text \<open>
  What the processor says about the machine and the process (\<open>processor/minidump_processor.cc\<close>):
  the processor and the operating system in words, the time the process was made, and the
  assertion that failed.  The processor of an ARM machine is told from its identification word by
  tables of vendors, parts and features.  The lemmas show that the text of the processor is the
  one \<open>MinidumpSystemInfo::GetCPU\<close> gives, but for the processors where it is not.
\<close>

subsection \<open>The processor\<close>

definition arm_vendors :: "(u32 \<times> string) list" where
  "arm_vendors = [(0x41, ''ARM''), (0x51, ''Qualcomm''), (0x56, ''Marvell''), (0x69, ''Intel/Marvell'')]"

definition arm_parts :: "(u32 \<times> string) list" where
  "arm_parts =
    [(0x4100c050, ''Cortex-A5''),
     (0x4100c080, ''Cortex-A8''),
     (0x4100c090, ''Cortex-A9''),
     (0x4100c0f0, ''Cortex-A15''),
     (0x4100c140, ''Cortex-R4''),
     (0x4100c150, ''Cortex-R5''),
     (0x4100b360, ''ARM1136''),
     (0x4100b560, ''ARM1156''),
     (0x4100b760, ''ARM1176''),
     (0x4100b020, ''ARM11-MPCore''),
     (0x41009260, ''ARM926''),
     (0x41009460, ''ARM946''),
     (0x41009660, ''ARM966''),
     (0x510006f0, ''Krait''),
     (0x510000f0, ''Scorpion'')]"

text \<open>Bit \<open>i\<close> of the hardware capabilities is feature \<open>i\<close>.\<close>

definition arm_features :: "(u32 \<times> string) list" where
  "arm_features =
    [(0x1, ''swp''), (0x2, ''half''), (0x4, ''thumb''), (0x8, ''26bit''), (0x10, ''fastmult''), (0x20, ''fpa''),
     (0x40, ''vfpv2''), (0x80, ''edsp''), (0x100, ''java''), (0x200, ''iwmmxt''), (0x400, ''crunch''),
     (0x800, ''thumbee''), (0x1000, ''neon''), (0x2000, ''vfpv3''), (0x4000, ''vfpv3d16''), (0x8000, ''tls''),
     (0x10000, ''vfpv4''), (0x20000, ''idiva''), (0x40000, ''idivt'')]"

definition arm_vendor_name :: "u32 \<Rightarrow> string" where
  "arm_vendor_name vendor_id =
     (case map_of arm_vendors vendor_id of
        Some name \<Rightarrow> name
      | None \<Rightarrow> ''vendor(0x'' @ hex_lower 0 vendor_id @ '')'')"

definition arm_part_name :: "u32 \<Rightarrow> string" where
  "arm_part_name part_id =
     (case map_of arm_parts part_id of
        Some name \<Rightarrow> name
      | None \<Rightarrow> ''part(0x'' @ hex_lower 0 part_id @ '')'')"

fun comma_separated :: "string list \<Rightarrow> string" where
  "comma_separated [] = []"
| "comma_separated (s # ss) = s @ concat (map (\<lambda>t. '','' @ t) ss)"

definition GetARMCpuInfo :: "MDRawSystemInfo \<Rightarrow> string" where
  "GetARMCpuInfo info =
     (let cpuid = word_at (cpu_bytes info) 0 :: u32;
          elf_hwcaps = word_at (cpu_bytes info) 4 :: u32 in
      ''ARMv'' @ decimal (processor_level info) @
      (if cpuid = 0 then []
       else '' '' @ arm_vendor_name (drop_bit 24 cpuid AND 0xff) @ '' '' @ arm_part_name (cpuid AND 0xff00fff0)) @
      (if elf_hwcaps = 0 then []
       else '' features: '' @
         comma_separated (map snd (filter (\<lambda>(hwcap, _). elf_hwcaps AND hwcap \<noteq> 0) arm_features))))"

definition x86_cpu_info :: "MDRawSystemInfo \<Rightarrow> string" where
  "x86_cpu_info info =
     (case GetCPUVendor info of None \<Rightarrow> [] | Some vendor \<Rightarrow> vendor @ '' '') @
     ''family '' @ decimal (processor_level info) @
     '' model '' @ decimal (drop_bit 8 (processor_revision info)) @
     '' stepping '' @ decimal (processor_revision info AND 0xff)"

text \<open>The texts \<open>cpu\<close> and \<open>cpu_info\<close>; an unknown processor is its number.\<close>

definition cpu_description :: "MDRawSystemInfo \<Rightarrow> string \<times> string" where
  "cpu_description info =
     (let architecture = processor_architecture info in
      if architecture = MD_CPU_ARCHITECTURE_X86 then (''x86'', x86_cpu_info info)
      else if architecture = MD_CPU_ARCHITECTURE_AMD64 then (''amd64'', x86_cpu_info info)
      else if architecture = MD_CPU_ARCHITECTURE_PPC then (''ppc'', [])
      else if architecture = MD_CPU_ARCHITECTURE_PPC64 then (''ppc64'', [])
      else if architecture = MD_CPU_ARCHITECTURE_SPARC then (''sparc'', [])
      else if architecture = MD_CPU_ARCHITECTURE_ARM then (''arm'', GetARMCpuInfo info)
      else if architecture = MD_CPU_ARCHITECTURE_ARM64 \<or> architecture = MD_CPU_ARCHITECTURE_ARM64_OLD
      then (''arm64'', [])
      else if architecture = MD_CPU_ARCHITECTURE_MIPS then (''mips'', [])
      else if architecture = MD_CPU_ARCHITECTURE_MIPS64 then (''mips64'', [])
      else (''0x'' @ hex_lower 4 architecture, []))"

definition GetCPUInfo :: "SystemInfo \<Rightarrow> minidump \<Rightarrow> ((bool \<times> SystemInfo) \<times> minidump) run" where
  "GetCPUInfo info d = do {
     (system_info, d) \<leftarrow> GetSystemInfo d;
     Some (case system_info of
         None \<Rightarrow> (False, info\<lparr>cpu := [], cpu_info := []\<rparr>)
       | Some raw \<Rightarrow>
           (True, info\<lparr>cpu := fst (cpu_description raw), cpu_info := snd (cpu_description raw),
              cpu_count := int (unat (number_of_processors raw))\<rparr>), d)
   }"

subsection \<open>The operating system\<close>

definition os_name :: "u32 \<Rightarrow> string" where
  "os_name platform =
     (if platform = MD_OS_WIN32_NT then ''Windows NT''
      else if platform = MD_OS_WIN32_WINDOWS then ''Windows''
      else if platform = MD_OS_MAC_OS_X then ''Mac OS X''
      else if platform = MD_OS_IOS then ''iOS''
      else if platform = MD_OS_LINUX then ''Linux''
      else if platform = MD_OS_SOLARIS then ''Solaris''
      else if platform = MD_OS_ANDROID then ''Android''
      else if platform = MD_OS_PS3 then ''PS3''
      else if platform = MD_OS_NACL then ''NaCl''
      else if platform = MD_OS_FUCHSIA then ''Fuchsia''
      else hex_text platform)"

definition os_version_text :: "MDRawSystemInfo \<Rightarrow> string" where
  "os_version_text raw =
     decimal (major_version raw) @ ''.'' @ decimal (minor_version raw) @ ''.'' @ decimal (build_number raw)"

definition GetOSInfo :: "SystemInfo \<Rightarrow> minidump \<Rightarrow> ((bool \<times> SystemInfo) \<times> minidump) run" where
  "GetOSInfo info d = do {
     (system_info, d) \<leftarrow> GetSystemInfo d;
     (case system_info of
        None \<Rightarrow> Some ((False, info\<lparr>os := [], os_short := [], os_version := []\<rparr>), d)
      | Some raw \<Rightarrow> do {
          (csd_version, d) \<leftarrow> Some (GetCSDVersion raw d);
          Some ((True, info\<lparr>os := os_name (platform_id raw), os_short := GetOS raw,
            os_version := os_version_text raw @
              (case csd_version of None \<Rightarrow> [] | Some csd \<Rightarrow> '' '' @ csd)\<rparr>), d)
        })
   }"

subsection \<open>The process\<close>

definition MD_MISCINFO_FLAGS1_PROCESS_TIMES :: u32 where "MD_MISCINFO_FLAGS1_PROCESS_TIMES = 2"

definition GetProcessCreateTime :: "minidump \<Rightarrow> ((bool \<times> u32) \<times> minidump) run" where
  "GetProcessCreateTime d = do {
     (misc_info, d) \<leftarrow> GetMiscInfo d;
     Some (case misc_info of
         None \<Rightarrow> (False, 0)
       | Some m \<Rightarrow>
           if misc_flags1 (mx_misc_info m) AND MD_MISCINFO_FLAGS1_PROCESS_TIMES = 0 then (False, 0)
           else (True, misc_process_create_time (mx_misc_info m)), d)
   }"

definition assertion_kind :: "u32 \<Rightarrow> string" where
  "assertion_kind kind =
     (if kind = 1 then ''Invalid parameter passed to library function''
      else if kind = 2 then ''Pure virtual function called''
      else ''Unknown assertion type '' @ hex_text kind)"

text \<open>A part that is empty is left out, with the words that introduce it.\<close>

definition unless_empty :: "string \<Rightarrow> string \<Rightarrow> string" where
  "unless_empty words s = (if s = [] then [] else words @ s)"

definition assertion_text :: "MinidumpAssertion \<Rightarrow> string" where
  "assertion_text a =
     assertion_kind (raw_type (ma_assertion a)) @
     unless_empty '' '' (ma_expression a) @
     unless_empty '' in function '' (ma_function a) @
     unless_empty '', in file '' (ma_file a) @
     (if raw_line (ma_assertion a) = 0 then [] else '' at line '' @ decimal (raw_line (ma_assertion a)))"

definition Processor_GetAssertion :: "minidump \<Rightarrow> (string \<times> minidump) run" where
  "Processor_GetAssertion d = do {
     (assertion, d) \<leftarrow> GetAssertion d;
     Some (case assertion of None \<Rightarrow> [] | Some a \<Rightarrow> assertion_text a, d)
   }"

subsection \<open>The two names of a processor\<close>

text \<open>
  The text \<open>cpu\<close> is the one \<open>MinidumpSystemInfo::GetCPU\<close> gives for the processors it
  knows, but for AMD64 and for 32-bit processes on 64-bit Windows, where it is another.
\<close>

lemma cpu_description_GetCPU:
  assumes "GetCPU info \<noteq> []"
  shows "fst (cpu_description info) = GetCPU info \<longleftrightarrow>
    processor_architecture info \<notin> {MD_CPU_ARCHITECTURE_AMD64, MD_CPU_ARCHITECTURE_X86_WIN64}"
  using assms by (auto simp: cpu_description_def GetCPU_def Let_def cpu_architectures split: if_splits)

end
