(* ===== verification/Minidump_Processor.thy ===== *)
theory Minidump_Processor
  imports Process_Description
begin

text \<open>
  \<open>MinidumpProcessor::Process\<close> (\<open>processor/minidump_processor.cc\<close>) and the
  \<open>ProcessState\<close> it fills: a dump is described, and the stack of every thread but the one
  that wrote the dump is walked.  The lemmas say which threads come out, in which order, which of
  them is the requesting thread, and which of the error results cannot occur.

  A walk reads the memory of its thread from the dump when it first needs it, and a read beyond
  the end of the file makes every later read fail.  Whether a walk needs memory at all is not
  visible in the functions of the walkers: it is the argument \<open>pr_touches\<close> of the model, and
  what is proved holds for every value of it.  So does the analysis of exploitability, which runs
  after everything else and yields a rating, for the argument \<open>pr_engine\<close>.
\<close>

subsection \<open>The state of a process\<close>

record ExceptionRecord =
  er_code :: u32
  er_code_description :: string
  er_flags :: u32
  er_flags_description :: string
  er_nested_exception_record_address :: u64
  er_address :: u64
  er_parameters :: "(u64 \<times> string) list"

text \<open>The stack of a thread; there are no frames when no walker was found for the thread.\<close>

record thread_stack =
  stack_frames :: "cpu_frames option"
  stack_tid :: u32

datatype ExploitabilityRating =
    EXPLOITABILITY_HIGH
  | EXPLOITABILITY_MEDIUM
  | EXPLOITABILITY_LOW
  | EXPLOITABILITY_INTERESTING
  | EXPLOITABILITY_NONE
  | EXPLOITABILITY_NOT_ANALYZED
  | EXPLOITABILITY_ERR_NOENGINE
  | EXPLOITABILITY_ERR_PROCESSING

record ProcessState =
  ps_time_date_stamp :: u32
  ps_process_create_time :: u32
  ps_crashed :: bool
  ps_crash_reason :: string
  ps_crash_address :: u64
  ps_assertion :: string
  ps_requesting_thread :: int
  ps_exception_record :: ExceptionRecord
  ps_threads :: "thread_stack list"
  ps_thread_memory_regions :: "MinidumpMemoryRegion option list"
  ps_system_info :: SystemInfo
  ps_modules :: "basic_code_modules option"
  ps_unloaded_modules :: "basic_code_modules option"
  ps_shrunk_range_modules :: "CodeModule list"
  ps_modules_without_symbols :: "CodeModule list"
  ps_modules_with_corrupt_symbols :: "CodeModule list"
  ps_exploitability :: ExploitabilityRating

text \<open>
  \<open>Clear\<close> leaves the exception record, the memory regions, the shrunk modules and the rating
  as they are.
\<close>

definition ProcessState_Clear :: "ProcessState \<Rightarrow> ProcessState" where
  "ProcessState_Clear ps = ps\<lparr>ps_time_date_stamp := 0, ps_process_create_time := 0, ps_crashed := False,
     ps_crash_reason := [], ps_crash_address := 0, ps_assertion := [], ps_requesting_thread := - 1,
     ps_threads := [], ps_system_info := SystemInfo_Clear, ps_modules_without_symbols := [],
     ps_modules_with_corrupt_symbols := [], ps_modules := None, ps_unloaded_modules := None\<rparr>"

datatype ProcessResult =
    PROCESS_OK
  | PROCESS_ERROR_MINIDUMP_NOT_FOUND
  | PROCESS_ERROR_NO_MINIDUMP_HEADER
  | PROCESS_ERROR_NO_THREAD_LIST
  | PROCESS_ERROR_GETTING_THREAD
  | PROCESS_ERROR_GETTING_THREAD_ID
  | PROCESS_ERROR_DUPLICATE_REQUESTING_THREADS
  | PROCESS_SYMBOL_SUPPLIER_INTERRUPTED

text \<open>
  The processor; \<open>pr_limits\<close> has the limits on frames, which are static members of
  \<open>Stackwalker\<close>.  Its symbolizer is passed along.
\<close>

record MinidumpProcessor =
  pr_limits :: stackwalker
  pr_touches :: "cpu_stackwalker \<Rightarrow> symbolizer \<Rightarrow> bool"
  pr_enable_exploitability :: bool
  pr_engine :: "minidump \<Rightarrow> ProcessState \<Rightarrow> ExploitabilityRating option"

subsection \<open>The exception\<close>

definition MD_EXCEPTION_MAXIMUM_PARAMETERS :: nat where "MD_EXCEPTION_MAXIMUM_PARAMETERS = 15"

text \<open>Parameters are added behind those the record has.\<close>

definition record_exception :: "MDException \<Rightarrow> u64 \<Rightarrow> ExceptionRecord \<Rightarrow> ExceptionRecord" where
  "record_exception e address er = er\<lparr>er_code := exception_code e, er_code_description := [],
     er_flags := exception_flags e, er_flags_description := [],
     er_nested_exception_record_address := nested_exception_record e, er_address := address,
     er_parameters := er_parameters er @ map (\<lambda>i. (exception_information e ! i, []))
       [0..<min (unat (number_parameters e)) MD_EXCEPTION_MAXIMUM_PARAMETERS]\<rparr>"

definition process_exception ::
  "MinidumpException option \<Rightarrow> ProcessState \<Rightarrow> minidump \<Rightarrow> (ProcessState \<times> minidump) run" where
  "process_exception exception ps d =
     (case exception of
        None \<Rightarrow> Some (ps, d)
      | Some ex \<Rightarrow> do {
          ((reason, address), d) \<leftarrow> GetCrashReason (ps_crash_address ps) d;
          Some (ps\<lparr>ps_crashed := True, ps_crash_reason := reason, ps_crash_address := address,
            ps_exception_record :=
              record_exception (exception_record (me_exception ex)) address (ps_exception_record ps)\<rparr>, d)
        })"

subsection \<open>The lists of modules\<close>

definition process_modules :: "ProcessState \<Rightarrow> minidump \<Rightarrow> (ProcessState \<times> minidump) run" where
  "process_modules ps d = do {
     (module_list, d) \<leftarrow> GetModuleList d;
     (case module_list of
        None \<Rightarrow> Some (ps, d)
      | Some l \<Rightarrow> do {
          (copy, d) \<leftarrow> ModuleList_Copy l d;
          Some (ps\<lparr>ps_modules := Some copy, ps_shrunk_range_modules := shrunk_range_modules copy\<rparr>, d)
        })
   }"

definition process_unloaded_modules :: "ProcessState \<Rightarrow> minidump \<Rightarrow> (ProcessState \<times> minidump) run" where
  "process_unloaded_modules ps d = do {
     (module_list, d) \<leftarrow> GetUnloadedModuleList d;
     (case module_list of
        None \<Rightarrow> Some (ps, d)
      | Some l \<Rightarrow> do {
          (copy, d) \<leftarrow> UnloadedModuleList_Copy l d;
          Some (ps\<lparr>ps_unloaded_modules := Some copy\<rparr>, d)
        })
   }"

subsection \<open>The threads\<close>

text \<open>Which thread wrote the dump and which one asked for it, when the dump says so.\<close>

record thread_roles =
  dump_thread :: "u32 option"
  requesting_thread :: "u32 option"

text \<open>
  What the loop over the threads changes.  The dump does not keep what the objects of its streams
  learn, so the list of memory regions and the exception are passed along as well.
\<close>

record walk_progress =
  w_dump :: minidump
  w_memory_list :: "MinidumpMemoryList option"
  w_exception :: "MinidumpException option"
  w_symbolizer :: symbolizer
  w_state :: ProcessState
  w_found_requesting_thread :: bool
  w_interrupted :: bool

text \<open>The region of a thread's stack: its own, or else the one of the list that holds its start.\<close>

definition thread_memory :: "MinidumpThread \<Rightarrow> MinidumpMemoryList option \<Rightarrow> MinidumpMemoryRegion option" where
  "thread_memory t memory_list =
     (case (Thread_GetMemory t, memory_list) of
        (Some region, _) \<Rightarrow> Some region
      | (None, None) \<Rightarrow> None
      | (None, Some l) \<Rightarrow>
          if GetStartOfStackMemoryRange t = 0 then None
          else GetMemoryRegionForAddress l (GetStartOfStackMemoryRange t))"

text \<open>A region of the list that was read stays read.\<close>

definition update_region :: "u64 \<Rightarrow> MinidumpMemoryRegion \<Rightarrow> MinidumpMemoryList \<Rightarrow> MinidumpMemoryList" where
  "update_region address region l =
     (case RetrieveRange (yl_range_map l) address of
        None \<Rightarrow> l
      | Some (region_index, _) \<Rightarrow> l\<lparr>yl_regions := (yl_regions l)[unat region_index := region]\<rparr>)"

definition region_after ::
  "bool \<Rightarrow> MinidumpThread \<Rightarrow> walk_progress \<Rightarrow> MinidumpMemoryRegion option \<times> walk_progress" where
  "region_after touched t p =
     (case thread_memory t (w_memory_list p) of
        None \<Rightarrow> (None, p)
      | Some region \<Rightarrow>
          if \<not> touched then (Some region, p)
          else (case Region_GetMemory region (w_dump p) of (_, region, d) \<Rightarrow>
            (Some region, p\<lparr>w_dump := d,
               w_memory_list :=
                 (if Thread_GetMemory t = None
                  then map_option (update_region (GetStartOfStackMemoryRange t) region) (w_memory_list p)
                  else w_memory_list p)\<rparr>)))"

definition push_stack ::
  "thread_stack \<Rightarrow> MinidumpMemoryRegion option \<Rightarrow> walk_progress \<Rightarrow> walk_progress" where
  "push_stack stk region p = p\<lparr>w_state := (w_state p)\<lparr>ps_threads := ps_threads (w_state p) @ [stk],
     ps_thread_memory_regions := ps_thread_memory_regions (w_state p) @ [region]\<rparr>\<rparr>"

text \<open>The walk of one thread with the context found for it.\<close>

definition walk_thread ::
  "MinidumpProcessor \<Rightarrow> u32 \<Rightarrow> dump_context option \<Rightarrow> MinidumpThread \<Rightarrow> walk_progress \<Rightarrow> walk_progress run" where
  "walk_thread pr thread_id ctx t p =
     (let ps = w_state p;
          memory = map_option (\<lambda>r. walker_memory r (w_dump p)) (thread_memory t (w_memory_list p)) in do {
        walker \<leftarrow> StackwalkerForCPU (pr_limits pr) (ps_system_info ps) ctx memory (ps_modules ps)
          (ps_unloaded_modules ps);
        (case walker of
           None \<Rightarrow>
             Some (push_stack \<lparr>stack_frames = None, stack_tid = thread_id\<rparr> (thread_memory t (w_memory_list p)) p)
         | Some w \<Rightarrow> do {
             (ok, fs, missing, corrupt, s) \<leftarrow>
               cpu_Walk w (ps_modules_without_symbols ps) (ps_modules_with_corrupt_symbols ps) (w_symbolizer p);
             (case region_after (pr_touches pr w (w_symbolizer p)) t p of (region, p) \<Rightarrow>
                Some (push_stack \<lparr>stack_frames = Some fs, stack_tid = thread_id\<rparr> region
                  (p\<lparr>w_symbolizer := s, w_interrupted := (w_interrupted p \<or> \<not> ok),
                     w_state := ps\<lparr>ps_modules_without_symbols := missing,
                       ps_modules_with_corrupt_symbols := corrupt\<rparr>\<rparr>)))
           })
      })"

text \<open>
  The requesting thread: its place among the stacks is noted, and when the process crashed it is
  walked from the context of the exception, or from its own where that cannot be read.
\<close>

definition requesting_context ::
  "dump_context option \<Rightarrow> MinidumpThread \<Rightarrow> walk_progress \<Rightarrow>
     (dump_context option \<times> MinidumpThread \<times> walk_progress) run" where
  "requesting_context ctx t p =
     (let ps = w_state p;
          p = p\<lparr>w_state := ps\<lparr>ps_requesting_thread := int (length (ps_threads ps))\<rparr>,
            w_found_requesting_thread := True\<rparr> in
      if \<not> ps_crashed ps then Some (ctx, t, p)
      else
        (case w_exception p of
           None \<Rightarrow> None
         | Some e \<Rightarrow> do {
             (exception_ctx, e, d) \<leftarrow> Exception_GetContext e (w_dump p);
             (case exception_ctx of
                Some c \<Rightarrow> Some (Some c, t, p\<lparr>w_exception := Some e, w_dump := d\<rparr>)
              | None \<Rightarrow> do {
                  (ctx, t, d) \<leftarrow> Thread_GetContext t d;
                  Some (ctx, t, p\<lparr>w_exception := Some e, w_dump := d\<rparr>)
                })
           }))"

text \<open>One round of the loop; a result ends it.\<close>

definition process_thread ::
  "MinidumpProcessor \<Rightarrow> thread_roles \<Rightarrow> MinidumpThread option \<Rightarrow> walk_progress \<Rightarrow>
     (ProcessResult option \<times> walk_progress) run" where
  "process_thread pr roles thread p =
     (case thread of
        None \<Rightarrow> Some (Some PROCESS_ERROR_GETTING_THREAD, p)
      | Some t \<Rightarrow>
          (case GetThreadID t of
             None \<Rightarrow> Some (Some PROCESS_ERROR_GETTING_THREAD_ID, p)
           | Some thread_id \<Rightarrow>
               if dump_thread roles = Some thread_id then Some (None, p)
               else do {
                 (ctx, t, d) \<leftarrow> Thread_GetContext t (w_dump p);
                 (let p = p\<lparr>w_dump := d\<rparr> in
                  if requesting_thread roles = Some thread_id then
                    if w_found_requesting_thread p
                    then Some (Some PROCESS_ERROR_DUPLICATE_REQUESTING_THREADS, p)
                    else do {
                      (ctx, t, p) \<leftarrow> requesting_context ctx t p;
                      p \<leftarrow> walk_thread pr thread_id ctx t p;
                      Some (None, p)
                    }
                  else do {
                    p \<leftarrow> walk_thread pr thread_id ctx t p;
                    Some (None, p)
                  })
               }))"

fun process_threads ::
  "MinidumpProcessor \<Rightarrow> thread_roles \<Rightarrow> MinidumpThreadList \<Rightarrow> nat \<Rightarrow> u32 \<Rightarrow> walk_progress \<Rightarrow>
     (ProcessResult option \<times> walk_progress) run" where
  "process_threads pr roles l 0 thread_index p = Some (None, p)"
| "process_threads pr roles l (Suc n) thread_index p = do {
     (result, p) \<leftarrow> process_thread pr roles (GetThreadAtIndex l thread_index) p;
     (case result of
        Some r \<Rightarrow> Some (Some r, p)
      | None \<Rightarrow> process_threads pr roles l n (thread_index + 1) p)
   }"

subsection \<open>The dump\<close>

definition process_roles ::
  "MDRawBreakpadInfo option \<Rightarrow> MinidumpException option \<Rightarrow> thread_roles" where
  "process_roles breakpad_info exception =
     \<lparr>dump_thread = (case breakpad_info of None \<Rightarrow> None | Some info \<Rightarrow> GetDumpThreadID info),
      requesting_thread = (case exception of
          Some e \<Rightarrow> Some (Exception_GetThreadID e)
        | None \<Rightarrow> (case breakpad_info of None \<Rightarrow> None | Some info \<Rightarrow> GetRequestingThreadID info))\<rparr>"

text \<open>Everything up to the list of threads.\<close>

definition process_description ::
  "MDRawHeader \<Rightarrow> ProcessState \<Rightarrow> minidump \<Rightarrow>
     ((thread_roles \<times> MinidumpException option \<times> MinidumpMemoryList option \<times> ProcessState) \<times> minidump) run" where
  "process_description header ps d = do {
     ((_, create_time), d) \<leftarrow> GetProcessCreateTime d;
     ((_, info), d) \<leftarrow> GetCPUInfo (ps_system_info ps) d;
     ((_, info), d) \<leftarrow> GetOSInfo info d;
     (breakpad_info, d) \<leftarrow> GetBreakpadInfo d;
     (exception, d) \<leftarrow> GetException d;
     (ps, d) \<leftarrow> process_exception exception
       (ps\<lparr>ps_time_date_stamp := h_time_date_stamp header, ps_process_create_time := create_time,
          ps_system_info := info\<rparr>) d;
     (assertion, d) \<leftarrow> Processor_GetAssertion d;
     (ps, d) \<leftarrow> process_modules (ps\<lparr>ps_assertion := assertion\<rparr>) d;
     (ps, d) \<leftarrow> process_unloaded_modules ps d;
     (memory_list, d) \<leftarrow> GetMemoryList d;
     Some ((process_roles breakpad_info exception, exception, memory_list, ps), d)
   }"

text \<open>What follows the loop.\<close>

definition process_result ::
  "MinidumpProcessor \<Rightarrow> thread_roles \<Rightarrow> walk_progress \<Rightarrow> ProcessResult \<times> ProcessState" where
  "process_result pr roles p =
     (let ps = w_state p in
      if w_interrupted p then (PROCESS_SYMBOL_SUPPLIER_INTERRUPTED, ps)
      else
        let ps = ps\<lparr>ps_requesting_thread :=
              (if requesting_thread roles \<noteq> None \<and> \<not> w_found_requesting_thread p then - 1
               else ps_requesting_thread ps),
            ps_exploitability := EXPLOITABILITY_NOT_ANALYZED\<rparr> in
        (PROCESS_OK,
          if \<not> pr_enable_exploitability pr then ps
          else case pr_engine pr (w_dump p) ps of
            Some rating \<Rightarrow> ps\<lparr>ps_exploitability := rating\<rparr>
          | None \<Rightarrow> ps\<lparr>ps_exploitability := EXPLOITABILITY_ERR_NOENGINE\<rparr>))"

definition Process ::
  "MinidumpProcessor \<Rightarrow> minidump \<Rightarrow> ProcessState \<Rightarrow> symbolizer \<Rightarrow>
     (ProcessResult \<times> ProcessState \<times> symbolizer \<times> minidump) run" where
  "Process pr d ps s =
     (let ps = ProcessState_Clear ps in
      case dump_header d of
        None \<Rightarrow> Some (PROCESS_ERROR_NO_MINIDUMP_HEADER, ps, s, d)
      | Some header \<Rightarrow> do {
          ((roles, exception, memory_list, ps), d) \<leftarrow> process_description header ps d;
          (threads, d) \<leftarrow> GetThreadList d;
          (case threads of
             None \<Rightarrow> Some (PROCESS_ERROR_NO_THREAD_LIST, ps, s, d)
           | Some l \<Rightarrow> do {
               (result, p) \<leftarrow> process_threads pr roles l (unat (thread_count l)) 0
                 \<lparr>w_dump = d, w_memory_list = memory_list, w_exception = exception,
                  w_symbolizer = symbolizer_Reset s, w_state = ps, w_found_requesting_thread = False,
                  w_interrupted = False\<rparr>;
               (case result of
                  Some r \<Rightarrow> Some (r, w_state p, w_symbolizer p, w_dump p)
                | None \<Rightarrow>
                    (case process_result pr roles p of (r, ps) \<Rightarrow> Some (r, ps, w_symbolizer p, w_dump p)))
             })
        })"

definition Process_file ::
  "(string \<Rightarrow> char list option) \<Rightarrow> MinidumpProcessor \<Rightarrow> string \<Rightarrow> ProcessState \<Rightarrow> symbolizer \<Rightarrow>
     (ProcessResult \<times> ProcessState \<times> symbolizer) run" where
  "Process_file file_system pr minidump_file ps s =
     (case Minidump_Read file_system (new_Minidump minidump_file None) of
        (False, _) \<Rightarrow> Some (PROCESS_ERROR_MINIDUMP_NOT_FOUND, ps, s)
      | (True, d) \<Rightarrow> do {
          (result, ps, s, _) \<leftarrow> Process pr d ps s;
          Some (result, ps, s)
        })"

subsection \<open>Describing a dump returns and leaves the list of threads alone\<close>

text \<open>A reader that keeps at most the system information.\<close>

definition reader_local :: "(u32 \<Rightarrow> minidump \<Rightarrow> (md_stream option \<times> minidump) run) \<Rightarrow> bool" where
  "reader_local read_stream =
     (\<forall>n d r d'. streams_typed d \<longrightarrow> read_stream n d = Some (r, d') \<longrightarrow> system_extends d d')"

lemma reader_localI:
  "(\<And>n d. streams_typed d \<Longrightarrow> \<exists>r d'. read_stream n d = Some (r, d') \<and> system_extends d d') \<Longrightarrow> reader_local read_stream"
  unfolding reader_local_def by (metis option.inject prod.inject)

lemma moves_system: "moves d d' \<Longrightarrow> system_extends d d'"
  using system_extends_map by (auto simp: moves_def)

lemma returns_local:
  assumes "\<And>n. returns P (read_stream n)"
  shows "reader_local read_stream"
  using assms moves_system unfolding returns_def by (blast intro!: reader_localI)

lemma reader_locals:
  "reader_local Assertion_Read" "reader_local MiscInfo_Read" "reader_local ModuleList_Read"
  "reader_local UnloadedModuleList_Read" "reader_local MemoryList_Read" "reader_local Exception_Read"
  "reader_local BreakpadInfo_Read" "reader_local SystemInfo_Read"
proof -
  show "reader_local Assertion_Read"
    by (rule returns_local [where P = "\<lambda>_. True"], unfold Assertion_Read_def, intro returns_intros reads_intros) auto
  show "reader_local MiscInfo_Read"
    by (rule returns_local [where P = "\<lambda>_. True"], unfold MiscInfo_Read_def Let_def, intro returns_intros reads_intros) auto
  show "reader_local ModuleList_Read" using ModuleList_Read_run by (blast intro!: reader_localI)
  show "reader_local UnloadedModuleList_Read"
    using UnloadedModuleList_Read_run moves_system by (blast intro!: reader_localI)
  show "reader_local MemoryList_Read"
  proof (rule reader_localI)
    fix n d
    obtain count d1 where count: "read_list_count 16 n d = (count, d1)" by fastforce
    obtain bytes d2 where bytes: "ReadBytes (16 * the count) d1 = (bytes, d2)" by fastforce
    obtain result d' where run: "MemoryList_Read n d = Some (result, d')" using MemoryList_Read_total by blast
    have "d' \<in> {d1, d2}"
      using run(1) count bytes
      by (cases count; cases bytes) (auto simp: MemoryList_Read_def Let_def split: if_splits prod.splits bind_splits)
    with read_list_count_system [OF count] ReadBytes_system [OF bytes] run
    show "\<exists>r d'. MemoryList_Read n d = Some (r, d') \<and> system_extends d d'" by (auto intro: system_extends_trans)
  qed
  have "system_extends d d'" if "Exception_Read n d = Some (r, d')" for n d r d'
    using that by (auto simp: Exception_Read_def dest!: ReadBytes_system split: if_splits prod.splits option.splits)
  then show "reader_local Exception_Read" unfolding reader_local_def by blast
  have "system_extends d d'" if "BreakpadInfo_Read n d = Some (r, d')" for n d r d'
    using that by (auto simp: BreakpadInfo_Read_def dest!: ReadBytes_system split: if_splits prod.splits option.splits)
  then show "reader_local BreakpadInfo_Read" unfolding reader_local_def by blast
  have "system_extends d d'" if "SystemInfo_Read n d = Some (r, d')" for n d r d'
    using that by (auto simp: SystemInfo_Read_def dest!: ReadBytes_system split: if_splits prod.splits option.splits)
  then show "reader_local SystemInfo_Read" unfolding reader_local_def by blast
qed

text \<open>Dumps related by reads that do not touch the list of threads.\<close>

definition threads_alone :: "minidump \<Rightarrow> minidump \<Rightarrow> bool" where
  "threads_alone d d' =
     (dump_extends d d' \<and> kept_stream d' MD_THREAD_LIST_STREAM = kept_stream d MD_THREAD_LIST_STREAM)"

lemma threads_alone_refl [simp, intro]: "threads_alone d d"
  by (simp add: threads_alone_def)

lemma threads_alone_trans [trans]: "threads_alone d d' \<Longrightarrow> threads_alone d' d'' \<Longrightarrow> threads_alone d d''"
  using dump_extends_trans by (auto simp: threads_alone_def)

lemma threads_alone_typed: "threads_alone d d' \<Longrightarrow> streams_typed d \<Longrightarrow> streams_typed d'"
  using dump_extends_typed by (auto simp: threads_alone_def)

lemma system_alone: "system_extends d d' \<Longrightarrow> threads_alone d d'"
  by (auto simp: system_extends_def threads_alone_def stream_types)

lemma GetStream_alone:
  assumes run: "GetStream t read_stream d = Some (result, d')" and typed: "streams_typed d"
    and reader: "reader_local read_stream" and other: "t \<noteq> MD_THREAD_LIST_STREAM"
  shows "kept_stream d' MD_THREAD_LIST_STREAM = kept_stream d MD_THREAD_LIST_STREAM"
proof (cases "md_valid d \<and> map_of (md_stream_map d) t \<noteq> None \<and> kept_stream d t = None")
  case False
  with run have "d' = d" by (auto simp: GetStream_def kept_stream_def split: option.splits if_splits)
  then show ?thesis by simp
next
  case True
  obtain n d1 where seek: "SeekToStreamType t d = (n, d1)" by fastforce
  have map1: "md_stream_map d1 = md_stream_map d" using file_map [OF SeekToStreamType_file [OF seek]] .
  show ?thesis
  proof (cases n)
    case None
    with run True seek have "d' = d1" by (auto simp: GetStream_def kept_stream_def split: option.splits)
    then show ?thesis using kept_stream_same_map [OF map1] by simp
  next
    case (Some len)
    with run True seek obtain r d2 where read: "read_stream len d1 = Some (r, d2)"
      and d': "d' = (case r of None \<Rightarrow> d2 | Some st \<Rightarrow> keep_stream t st d2)"
      by (auto simp: GetStream_def kept_stream_def split: option.splits bind_splits)
    have "streams_typed d1" using dump_extends_typed [OF SeekToStreamType_extends [OF seek] typed] .
    with reader read have "system_extends d1 d2" unfolding reader_local_def by blast
    then have "kept_stream d2 MD_THREAD_LIST_STREAM = kept_stream d1 MD_THREAD_LIST_STREAM"
      by (auto simp: system_extends_def stream_types)
    then show ?thesis using other kept_stream_same_map [OF map1] by (cases r) (simp_all add: d' kept_stream_keep)
  qed
qed

text \<open>What a computation over a dump does that returns and leaves the list of threads alone.\<close>

definition describes :: "(minidump \<Rightarrow> ('r \<times> minidump) run) \<Rightarrow> bool" where
  "describes f = (\<forall>d. streams_typed d \<longrightarrow> (\<exists>r d'. f d = Some (r, d') \<and> threads_alone d d'))"

lemma describesD:
  assumes "describes f" and "streams_typed d"
  obtains r d' where "f d = Some (r, d')" and "threads_alone d d'" and "streams_typed d'"
  using assms threads_alone_typed unfolding describes_def by blast

named_theorems describes_intros \<open>computations that leave the list of threads alone\<close>

lemma describes_return [describes_intros]: "describes (\<lambda>d. Some (r d, d))"
  by (simp add: describes_def)

lemma describes_bind [describes_intros]:
  assumes "describes f" and "\<And>x. describes (g x)"
  shows "describes (\<lambda>d. f d \<bind> (\<lambda>(x, d). g x d))"
  unfolding describes_def
proof (intro allI impI)
  fix d assume "streams_typed d"
  then obtain x d1 where x: "f d = Some (x, d1)" "threads_alone d d1" "streams_typed d1"
    using describesD [OF assms(1)] by blast
  obtain y d2 where "g x d1 = Some (y, d2)" "threads_alone d1 d2" using describesD [OF assms(2) x(3)] by blast
  with x show "\<exists>r d'. f d \<bind> (\<lambda>(x, d). g x d) = Some (r, d') \<and> threads_alone d d'"
    by (auto intro: threads_alone_trans)
qed

lemma describes_option [describes_intros]:
  "describes g \<Longrightarrow> (\<And>x. describes (f x)) \<Longrightarrow> describes (\<lambda>d. case e of None \<Rightarrow> g d | Some x \<Rightarrow> f x d)"
  by (cases e) simp_all

lemma describes_if [describes_intros]:
  "describes f \<Longrightarrow> describes g \<Longrightarrow> describes (\<lambda>d. if c then f d else g d)"
  by (cases c) simp_all

lemma describes_prod [describes_intros]:
  "(\<And>x y. describes (f x y)) \<Longrightarrow> describes (case p of (x, y) \<Rightarrow> f x y)"
  by (cases p) simp

lemma describes_system:
  "(\<And>d. streams_typed d \<Longrightarrow> \<exists>r d'. f d = Some (r, d') \<and> system_extends d d') \<Longrightarrow> describes f"
  unfolding describes_def using system_alone by blast

text \<open>The getters, from the contract of \<open>typed_stream\<close>.\<close>

context typed_stream
begin

lemma get_describes:
  assumes "reader_local read_stream" and "stream_type \<noteq> MD_THREAD_LIST_STREAM"
  shows "describes get_stream"
  unfolding describes_def
proof (intro allI impI)
  fix d assume typed: "streams_typed d"
  obtain result d' where run: "GetStream stream_type read_stream d = Some (result, d')" "dump_extends d d'"
    "\<forall>st. result = Some st \<longrightarrow> stream_class st = stream_type"
    using GetStream_run [OF reader typed] by blast
  have alone: "threads_alone d d'"
    using run(2) GetStream_alone [OF run(1) typed assms] by (simp add: threads_alone_def)
  show "\<exists>r d'. get_stream d = Some (r, d') \<and> threads_alone d d'"
  proof (cases result)
    case None
    with run(1) get_None alone show ?thesis by blast
  next
    case (Some st)
    with run(3) class_wrap obtain x where "st = wrap x" by blast
    with run(1) Some get_Some alone show ?thesis by blast
  qed
qed

end

lemma getters_describe [describes_intros]:
  "describes GetAssertion" "describes GetMiscInfo" "describes GetModuleList" "describes GetUnloadedModuleList"
  "describes GetMemoryList" "describes GetException" "describes GetBreakpadInfo" "describes GetSystemInfo"
  by (rule assertion.get_describes misc_info.get_describes module_list.get_describes
      unloaded_module_list.get_describes memory_list.get_describes exception.get_describes
      breakpad_info.get_describes system_info.get_describes; simp add: reader_locals stream_types)+

lemma GetCSDVersion_describes [describes_intros]: "describes (\<lambda>d. Some (GetCSDVersion raw d))"
proof (rule describes_system)
  fix d
  obtain r d' where "GetCSDVersion raw d = (r, d')" by fastforce
  then show "\<exists>r d'. Some (GetCSDVersion raw d) = Some (r, d') \<and> system_extends d d'"
    using ReadString_system by (simp add: GetCSDVersion_def)
qed

lemma copies_describe [describes_intros]: "describes (ModuleList_Copy l)" "describes (UnloadedModuleList_Copy u)"
  by (rule describes_system, erule ModuleList_Copy_run UnloadedModuleList_Copy_run)+

lemma description_describes [describes_intros]:
  "describes GetProcessCreateTime" "describes (GetCPUInfo info)" "describes (GetOSInfo info)"
  "describes (GetCrashReason address)" "describes Processor_GetAssertion"
  unfolding GetProcessCreateTime_def GetCPUInfo_def GetOSInfo_def GetCrashReason_def Processor_GetAssertion_def
  by (intro describes_intros)+

lemma parts_describe [describes_intros]:
  "describes (process_exception exception ps)" "describes (process_modules ps)"
  "describes (process_unloaded_modules ps)"
  unfolding process_exception_def process_modules_def process_unloaded_modules_def
  by (intro describes_intros)+

lemma process_description_describes: "describes (process_description header ps)"
  unfolding process_description_def by (intro describes_intros)

subsection \<open>The stacks of the threads\<close>

text \<open>What the limits of the walkers promise of a stack.\<close>

definition stack_limited :: "MinidumpProcessor \<Rightarrow> thread_stack \<Rightarrow> bool" where
  "stack_limited pr stk =
     (case stack_frames stk of
        None \<Rightarrow> True
      | Some fs \<Rightarrow> rising (cpu_sps fs) \<and> length (cpu_sps fs) \<le> unat (max_frames (pr_limits pr)) + 1)"

lemma region_after_state: "w_state (snd (region_after touched t p)) = w_state p"
  "w_found_requesting_thread (snd (region_after touched t p)) = w_found_requesting_thread p"
  by (auto simp: region_after_def split: option.splits prod.splits)

lemma walk_thread_pushes:
  assumes "walk_thread pr thread_id ctx t p = Some p'"
  shows "\<exists>stk region. ps_threads (w_state p') = ps_threads (w_state p) @ [stk] \<and>
    stack_tid stk = thread_id \<and> stack_limited pr stk \<and>
    ps_thread_memory_regions (w_state p') = ps_thread_memory_regions (w_state p) @ [region] \<and>
    ps_requesting_thread (w_state p') = ps_requesting_thread (w_state p) \<and>
    w_found_requesting_thread p' = w_found_requesting_thread p"
proof -
  let ?memory = "map_option (\<lambda>r. walker_memory r (w_dump p)) (thread_memory t (w_memory_list p))"
  let ?ps = "w_state p"
  obtain walker where walker: "StackwalkerForCPU (pr_limits pr) (ps_system_info ?ps) ctx ?memory (ps_modules ?ps)
      (ps_unloaded_modules ?ps) = Some walker"
    using assms by (auto simp: walk_thread_def Let_def split: bind_splits)
  show ?thesis
  proof (cases walker)
    case None
    with assms walker
    have "p' = push_stack \<lparr>stack_frames = None, stack_tid = thread_id\<rparr> (thread_memory t (w_memory_list p)) p"
      by (simp add: walk_thread_def Let_def)
    then show ?thesis by (simp add: push_stack_def stack_limited_def)
  next
    case (Some w)
    with assms walker obtain ok fs missing corrupt s where walk:
      "cpu_Walk w (ps_modules_without_symbols ?ps) (ps_modules_with_corrupt_symbols ?ps) (w_symbolizer p) =
         Some (ok, fs, missing, corrupt, s)"
      by (auto simp: walk_thread_def Let_def split: bind_splits)
    obtain region q where after: "region_after (pr_touches pr w (w_symbolizer p)) t p = (region, q)" by fastforce
    have q: "w_found_requesting_thread q = w_found_requesting_thread p"
      using region_after_state(2) [of "pr_touches pr w (w_symbolizer p)" t p] after by simp
    have "rising (cpu_sps fs) \<and> length (cpu_sps fs) \<le> unat (max_frames (pr_limits pr)) + 1"
      using cpu_Walk_limited [OF walk] StackwalkerForCPU_limits [OF walker [unfolded Some]]
      by (simp add: walk_limited_def)
    moreover have "p' = push_stack \<lparr>stack_frames = Some fs, stack_tid = thread_id\<rparr> region
        (q\<lparr>w_symbolizer := s, w_interrupted := (w_interrupted q \<or> \<not> ok),
           w_state := ?ps\<lparr>ps_modules_without_symbols := missing, ps_modules_with_corrupt_symbols := corrupt\<rparr>\<rparr>)"
      using assms walker Some walk after by (simp add: walk_thread_def Let_def)
    ultimately show ?thesis using q by (simp add: push_stack_def stack_limited_def)
  qed
qed

lemma requesting_context_notes:
  assumes "requesting_context ctx t p = Some (ctx', t', p')"
  shows "w_state p' = (w_state p)\<lparr>ps_requesting_thread := int (length (ps_threads (w_state p)))\<rparr> \<and>
    w_found_requesting_thread p'"
  using assms by (auto simp: requesting_context_def Let_def split: if_splits option.splits bind_splits)

text \<open>The place of the requesting thread among the identifiers of the stacks.\<close>

definition position_of :: "u32 option \<Rightarrow> u32 list \<Rightarrow> int" where
  "position_of request ids =
     (case request of
        None \<Rightarrow> - 1
      | Some x \<Rightarrow> if x \<in> set ids then int (length (takeWhile (\<lambda>y. y \<noteq> x) ids)) else - 1)"

lemma takeWhile_found: "x \<notin> set ids \<Longrightarrow> takeWhile (\<lambda>y. y \<noteq> x) (ids @ [x]) = ids"
  by (induction ids) auto

lemma takeWhile_shorter: "x \<in> set ids \<Longrightarrow> length (takeWhile (\<lambda>y. y \<noteq> x) ids) < length ids"
  by (induction ids) auto

lemma position_of_snoc:
  "x \<notin> set ids \<Longrightarrow> position_of (Some x) (ids @ [y]) = (if x = y then int (length ids) else - 1)"
  "x \<in> set ids \<Longrightarrow> position_of (Some x) (ids @ [y]) = position_of (Some x) ids"
  by (auto simp: position_of_def takeWhile_append1 takeWhile_found)

lemma position_of_lookup:
  "position_of request ids = - 1 \<or>
   (0 \<le> position_of request ids \<and> position_of request ids < int (length ids) \<and>
    request = Some (ids ! nat (position_of request ids)))"
proof (cases request)
  case (Some x)
  show ?thesis
  proof (cases "x \<in> set ids")
    case True
    note less = takeWhile_shorter [OF this]
    from nth_length_takeWhile [OF less] less True Some show ?thesis by (auto simp: position_of_def)
  qed (simp add: position_of_def Some)
qed (simp add: position_of_def)

text \<open>
  The state of the loop when the threads with the identifiers \<open>ids\<close> are done.
\<close>

definition threads_done ::
  "MinidumpProcessor \<Rightarrow> thread_roles \<Rightarrow> MinidumpMemoryRegion option list \<Rightarrow> u32 list \<Rightarrow> walk_progress \<Rightarrow> bool" where
  "threads_done pr roles regions ids p =
     (let walked = filter (\<lambda>x. dump_thread roles \<noteq> Some x) ids; ps = w_state p in
      map stack_tid (ps_threads ps) = walked \<and>
      (\<forall>stk\<in>set (ps_threads ps). stack_limited pr stk) \<and>
      (\<exists>new. length new = length walked \<and> ps_thread_memory_regions ps = regions @ new) \<and>
      w_found_requesting_thread p = (\<exists>x\<in>set walked. requesting_thread roles = Some x) \<and>
      ps_requesting_thread ps = position_of (requesting_thread roles) walked)"

lemma process_thread_done:
  assumes run: "process_thread pr roles (Some t) p = Some (result, p')" and valid: "mt_valid t"
    and before: "threads_done pr roles regions ids p" and new: "thread_id_of t \<notin> set ids"
  shows "result = None \<and> threads_done pr roles regions (ids @ [thread_id_of t]) p'"
proof (cases "dump_thread roles = Some (thread_id_of t)")
  case True
  with run valid before show ?thesis by (auto simp: process_thread_def GetThreadID_def threads_done_def)
next
  case False
  let ?id = "thread_id_of t"
  obtain ctx t1 d where ctx: "Thread_GetContext t (w_dump p) = Some (ctx, t1, d)"
    using run valid False by (auto simp: process_thread_def GetThreadID_def split: bind_splits)
  let ?p = "p\<lparr>w_dump := d\<rparr>"
  have found: "\<not> w_found_requesting_thread ?p" if "requesting_thread roles = Some ?id"
    using that before new by (auto simp: threads_done_def Let_def)
  show ?thesis
  proof (cases "requesting_thread roles = Some ?id")
    case True
    with run valid False ctx found obtain ctx2 t2 q where noted: "requesting_context ctx t1 ?p = Some (ctx2, t2, q)"
      and walk: "walk_thread pr ?id ctx2 t2 q = Some p'" and "result = None"
      by (auto simp: process_thread_def GetThreadID_def split: bind_splits)
    moreover note requesting_context_notes [OF noted] walk_thread_pushes [OF walk]
    ultimately show ?thesis
      using before new False True
      by (auto simp: threads_done_def Let_def position_of_snoc)
        (metis length_map)
  next
    case other: False
    with run valid False ctx have walk: "walk_thread pr ?id ctx t1 ?p = Some p'" and "result = None"
      by (auto simp: process_thread_def GetThreadID_def split: bind_splits)
    moreover note walk_thread_pushes [OF walk]
    ultimately show ?thesis
      using before new False other
      by (cases "requesting_thread roles") (auto simp: threads_done_def Let_def position_of_def)
  qed
qed

lemma process_threads_done:
  assumes "process_threads pr roles l n i p = Some (result, p')" and ok: "thread_list_ok l"
    and "unat i + n = length (tl_threads l)"
    and "threads_done pr roles regions (map thread_id_of (take (unat i) (tl_threads l))) p"
  shows "result = None \<and> threads_done pr roles regions (map thread_id_of (tl_threads l)) p'"
  using assms(1,3,4)
proof (induction n arbitrary: i p)
  case (Suc n)
  let ?ts = "tl_threads l" and ?ids = "map thread_id_of (take (unat i) (tl_threads l))"
  have small: "length ?ts < 2 ^ 32" using ok by (simp add: thread_list_ok_def max_threads_def)
  have i: "unat i < length ?ts" using Suc.prems(2) by simp
  then have t: "GetThreadAtIndex l i = Some (?ts ! unat i)"
    using ok small by (simp add: GetThreadAtIndex_def thread_list_ok_def word_le_nat_alt unat_of_nat)
  obtain r q where step: "process_thread pr roles (Some (?ts ! unat i)) p = Some (r, q)"
    using Suc.prems(1) t by (auto split: bind_splits)
  have valid: "mt_valid (?ts ! unat i)" using ok i by (simp add: thread_list_ok_def)
  have "distinct (map thread_id_of ?ts)" using ok by (simp add: thread_list_ok_def)
  then have new: "thread_id_of (?ts ! unat i) \<notin> set ?ids"
    using i by (auto simp: distinct_conv_nth in_set_conv_nth)
  have next_index: "unat (i + 1) = unat i + 1"
    using i small by (simp add: unat_word_ariths)
  from process_thread_done [OF step valid Suc.prems(3) new]
  have r: "r = None" and q: "threads_done pr roles regions (map thread_id_of (take (unat (i + 1)) ?ts)) q"
    using i by (simp_all add: next_index take_Suc_conv_app_nth)
  have "process_threads pr roles l n (i + 1) q = Some (result, p')"
    using Suc.prems(1) t step r by simp
  from Suc.IH [OF this _ q] Suc.prems(2) show ?case by (simp add: next_index)
qed simp

subsection \<open>What comes out of a dump\<close>

text \<open>
  The threads in a state after a dump with threads \<open>ids\<close>: all but the one that wrote the dump,
  in their order; the requesting thread is where its stack is.  One memory region for each of
  them comes behind those the state had before.
\<close>

definition threads_processed ::
  "MinidumpProcessor \<Rightarrow> thread_roles \<Rightarrow> u32 list \<Rightarrow> ProcessState \<Rightarrow> ProcessState \<Rightarrow> bool" where
  "threads_processed pr roles ids ps ps' =
     (map stack_tid (ps_threads ps') = filter (\<lambda>x. dump_thread roles \<noteq> Some x) ids \<and>
      (\<forall>stk\<in>set (ps_threads ps'). stack_limited pr stk) \<and>
      (\<exists>new. length new = length (ps_threads ps') \<and>
         ps_thread_memory_regions ps' = ps_thread_memory_regions ps @ new) \<and>
      ps_requesting_thread ps' = position_of (requesting_thread roles) (map stack_tid (ps_threads ps')))"

lemma process_description_state:
  assumes "process_description header ps d = Some ((roles, exception, memory_list, ps'), d')"
  shows "ps_threads ps' = ps_threads ps \<and> ps_thread_memory_regions ps' = ps_thread_memory_regions ps \<and>
    ps_requesting_thread ps' = ps_requesting_thread ps"
proof -
  have exception: "ps_threads q' = ps_threads q \<and> ps_thread_memory_regions q' = ps_thread_memory_regions q \<and>
      ps_requesting_thread q' = ps_requesting_thread q" if "process_exception e q d = Some (q', d')" for e q d q' d'
    using that by (auto simp: process_exception_def split: option.splits bind_splits)
  have modules: "ps_threads q' = ps_threads q \<and> ps_thread_memory_regions q' = ps_thread_memory_regions q \<and>
      ps_requesting_thread q' = ps_requesting_thread q" if "process_modules q d = Some (q', d')" for q d q' d'
    using that by (auto simp: process_modules_def split: option.splits bind_splits)
  have unloaded: "ps_threads q' = ps_threads q \<and> ps_thread_memory_regions q' = ps_thread_memory_regions q \<and>
      ps_requesting_thread q' = ps_requesting_thread q" if "process_unloaded_modules q d = Some (q', d')" for q d q' d'
    using that by (auto simp: process_unloaded_modules_def split: option.splits bind_splits)
  show ?thesis
    using assms by (auto simp: process_description_def split: bind_splits dest!: exception modules unloaded)
qed

lemma GetThreadList_fresh:
  assumes run: "GetThreadList d = Some (Some l, d')" and fresh: "kept_stream d MD_THREAD_LIST_STREAM = None"
  shows "thread_list_ok l"
proof -
  obtain st where stream: "GetStream MD_THREAD_LIST_STREAM ThreadList_Read d = Some (Some st, d')" "st = Thread_list l"
    using run by (auto simp: GetThreadList_def split: option.splits prod.splits md_stream.splits)
  obtain n d1 where seek: "SeekToStreamType MD_THREAD_LIST_STREAM d = (n, d1)" by fastforce
  from stream fresh seek obtain len d2 where "ThreadList_Read len d1 = Some (Some (Thread_list l), d2)"
    by (auto simp: GetStream_def kept_stream_def split: option.splits if_splits bind_splits)
  then show ?thesis by (rule ThreadList_Read_list)
qed

lemma process_result_state:
  assumes "process_result pr roles p = (result, ps)"
    and "threads_done pr roles regions ids p"
  shows "result \<in> {PROCESS_OK, PROCESS_SYMBOL_SUPPLIER_INTERRUPTED} \<and>
    ps_threads ps = ps_threads (w_state p) \<and>
    ps_thread_memory_regions ps = ps_thread_memory_regions (w_state p) \<and>
    ps_requesting_thread ps = ps_requesting_thread (w_state p)"
proof -
  have "ps_requesting_thread (w_state p) = - 1"
    if "requesting_thread roles \<noteq> None" "\<not> w_found_requesting_thread p"
    using assms(2) that by (auto simp: threads_done_def Let_def position_of_def)
  then show ?thesis using assms(1)
    by (auto simp: process_result_def Let_def split: if_splits option.splits)
qed

lemma Process_outcome:
  assumes "Process pr d ps s = Some (result, ps', s', d')"
    and "streams_typed d" and "kept_stream d MD_THREAD_LIST_STREAM = None"
  shows "(result = PROCESS_ERROR_NO_MINIDUMP_HEADER \<and> dump_header d = None) \<or> result = PROCESS_ERROR_NO_THREAD_LIST \<or>
    (result \<in> {PROCESS_OK, PROCESS_SYMBOL_SUPPLIER_INTERRUPTED} \<and>
     (\<exists>roles exception memory_list ps1 d1 l d2.
        process_description (md_header d) (ProcessState_Clear ps) d =
          Some ((roles, exception, memory_list, ps1), d1) \<and>
        GetThreadList d1 = Some (Some l, d2) \<and> thread_list_ok l \<and>
        threads_processed pr roles (map thread_id_of (tl_threads l)) ps ps'))"
proof (cases "dump_header d")
  case None
  with assms(1) show ?thesis by (simp add: Process_def)
next
  case (Some header)
  then have header: "header = md_header d" by (simp add: dump_header_def split: if_splits)
  obtain r d1 where description: "process_description header (ProcessState_Clear ps) d = Some (r, d1)"
    and alone: "threads_alone d d1"
    using describesD [OF process_description_describes assms(2)] by blast
  obtain roles exception memory_list ps1 where r: "r = (roles, exception, memory_list, ps1)" by (cases r)
  obtain threads d2 where list: "GetThreadList d1 = Some (threads, d2)"
    using assms(1) Some description r by (auto simp: Process_def Let_def split: bind_splits)
  show ?thesis
  proof (cases threads)
    case None
    with assms(1) Some description r list show ?thesis by (simp add: Process_def Let_def)
  next
    case l: (Some l)
    let ?p = "\<lparr>w_dump = d2, w_memory_list = memory_list, w_exception = exception,
      w_symbolizer = symbolizer_Reset s, w_state = ps1, w_found_requesting_thread = False, w_interrupted = False\<rparr>"
    have ok: "thread_list_ok l"
      using GetThreadList_fresh [OF list [unfolded l]] alone assms(3) by (simp add: threads_alone_def)
    then have count: "unat (thread_count l) = length (tl_threads l)"
      by (simp add: thread_list_ok_def max_threads_def unat_of_nat)
    have ps1: "ps_threads ps1 = []" "ps_thread_memory_regions ps1 = ps_thread_memory_regions ps"
      "ps_requesting_thread ps1 = - 1"
      using process_description_state [OF description [unfolded r]] by (simp_all add: ProcessState_Clear_def)
    obtain res p where loop: "process_threads pr roles l (length (tl_threads l)) 0 ?p = Some (res, p)"
      using assms(1) Some description r list l count by (auto simp: Process_def Let_def split: bind_splits)
    have "threads_done pr roles (ps_thread_memory_regions ps) (map thread_id_of (take (unat (0 :: u32)) (tl_threads l))) ?p"
      by (simp add: threads_done_def ps1 position_of_def split: option.splits)
    from process_threads_done [OF loop ok _ this]
    have res: "res = None" and finished: "threads_done pr roles (ps_thread_memory_regions ps) (map thread_id_of (tl_threads l)) p"
      by simp_all
    have final: "process_result pr roles p = (result, ps')"
      using assms(1) Some description r list l count loop res
      by (auto simp: Process_def Let_def split: prod.splits)
    from process_result_state [OF this finished]
    have outcome: "result \<in> {PROCESS_OK, PROCESS_SYMBOL_SUPPLIER_INTERRUPTED}"
      and same: "ps_threads ps' = ps_threads (w_state p)"
        "ps_thread_memory_regions ps' = ps_thread_memory_regions (w_state p)"
        "ps_requesting_thread ps' = ps_requesting_thread (w_state p)" by simp_all
    have tids: "map stack_tid (ps_threads (w_state p)) =
        filter (\<lambda>x. dump_thread roles \<noteq> Some x) (map thread_id_of (tl_threads l))"
      using finished by (simp add: threads_done_def Let_def)
    have walked: "length (filter (\<lambda>x. dump_thread roles \<noteq> Some x) (map thread_id_of (tl_threads l))) =
        length (ps_threads (w_state p))"
      unfolding tids [symmetric] by simp
    have "threads_processed pr roles (map thread_id_of (tl_threads l)) ps ps'"
      using finished unfolding threads_processed_def threads_done_def Let_def same tids walked by blast
    with outcome description [unfolded r header] list [unfolded l] ok show ?thesis by blast
  qed
qed

text \<open>
  C37: When a dump whose list of threads was not read before is processed: the errors for threads
  that cannot be got, have no identifier or request the dump twice never occur.  Unless there is no
  header or no list of threads, the dump is processed completely, or until the end with the
  supplier of symbols having interrupted walks.  Then the stacks are those of the threads of the
  dump without the one that wrote it, in their order; each has rising stack pointers and at most
  one frame more than the limit; the requesting thread is the place of its stack, or - 1 without
  one.  The memory regions of an earlier dump, which nothing clears, stay in front, and every stack
  adds one behind them.
\<close>

theorem Process_threads:
  assumes "Process pr d ps s = Some (result, ps', s', d')"
    and "streams_typed d" and "kept_stream d MD_THREAD_LIST_STREAM = None"
  shows "result \<in> {PROCESS_ERROR_NO_MINIDUMP_HEADER, PROCESS_ERROR_NO_THREAD_LIST} \<or>
    (result \<in> {PROCESS_OK, PROCESS_SYMBOL_SUPPLIER_INTERRUPTED} \<and>
     (\<exists>roles exception memory_list ps1 d1 l d2.
        process_description (md_header d) (ProcessState_Clear ps) d =
          Some ((roles, exception, memory_list, ps1), d1) \<and>
        GetThreadList d1 = Some (Some l, d2) \<and> thread_list_ok l \<and>
        threads_processed pr roles (map thread_id_of (tl_threads l)) ps ps'))"
  using Process_outcome [OF assms] by blast

subsection \<open>A dump with two threads\<close>

text \<open>The contexts of the threads lie behind the end of the file, so no walker is found for them.\<close>

definition sample_thread_dump :: minidump where
  "sample_thread_dump = (sample_dump (sample_threads [7, 9]))\<lparr>md_header := zero_header\<lparr>stream_count := 1\<rparr>,
     md_directory := [\<lparr>dir_stream_type = MD_THREAD_LIST_STREAM, dir_location = \<lparr>loc_size = 100, loc_rva = 0\<rparr>\<rparr>],
     md_stream_map := [(MD_THREAD_LIST_STREAM, \<lparr>stream_index = 0, cached_stream = None\<rparr>)]\<rparr>"

definition sample_processor :: MinidumpProcessor where
  "sample_processor = \<lparr>pr_limits = sample_walker, pr_touches = (\<lambda>_ _. True), pr_enable_exploitability = False,
     pr_engine = (\<lambda>_ _. None)\<rparr>"

text \<open>A state that was used for a dump with one thread.\<close>

definition sample_state :: ProcessState where
  "sample_state = \<lparr>ps_time_date_stamp = 1, ps_process_create_time = 2, ps_crashed = True, ps_crash_reason = ''SIGSEGV'',
     ps_crash_address = 3, ps_assertion = [], ps_requesting_thread = 0,
     ps_exception_record = \<lparr>er_code = 11, er_code_description = [], er_flags = 1, er_flags_description = [],
       er_nested_exception_record_address = 0, er_address = 3, er_parameters = []\<rparr>,
     ps_threads = [\<lparr>stack_frames = None, stack_tid = 5\<rparr>], ps_thread_memory_regions = [None],
     ps_system_info = SystemInfo_Clear, ps_modules = None, ps_unloaded_modules = None, ps_shrunk_range_modules = [],
     ps_modules_without_symbols = [], ps_modules_with_corrupt_symbols = [],
     ps_exploitability = EXPLOITABILITY_LOW\<rparr>"

lemma sample_thread_dump_facts:
  "streams_typed sample_thread_dump" "kept_stream sample_thread_dump t = None" "md_valid sample_thread_dump"
  "map_option stream_data (md_file sample_thread_dump) = Some (sample_threads [7, 9])"
  "length (sample_threads [7, 9]) = 100"
  by (simp_all add: streams_typed_def kept_stream_def sample_thread_dump_def sample_dump_def new_Minidump_def
      opened_def sample_threads_def)

lemma sample_no_stream:
  "t \<noteq> MD_THREAD_LIST_STREAM \<Longrightarrow> GetStream t f sample_thread_dump = Some (None, sample_thread_dump)"
  by (simp add: GetStream_def sample_thread_dump_def)

lemma sample_description:
  "process_description header ps sample_thread_dump =
     Some ((\<lparr>dump_thread = None, requesting_thread = None\<rparr>, None, None,
       ps\<lparr>ps_time_date_stamp := h_time_date_stamp header, ps_process_create_time := 0,
         ps_system_info := (ps_system_info ps)\<lparr>cpu := [], cpu_info := [], os := [], os_short := [], os_version := []\<rparr>,
         ps_assertion := []\<rparr>), sample_thread_dump)"
  by (simp add: process_description_def GetProcessCreateTime_def GetMiscInfo_def GetCPUInfo_def GetOSInfo_def
      GetSystemInfo_def GetBreakpadInfo_def GetException_def process_exception_def Processor_GetAssertion_def
      GetAssertion_def process_modules_def GetModuleList_def process_unloaded_modules_def GetUnloadedModuleList_def
      GetMemoryList_def process_roles_def sample_no_stream stream_types)

lemma sample_thread_list:
  "\<exists>l d'. GetThreadList sample_thread_dump = Some (Some l, d') \<and> dump_extends sample_thread_dump d' \<and>
     tl_threads l = map thread_of_raw [sample_thread 7, sample_thread 9] \<and> thread_count l = 2"
proof -
  let ?d = "sample_thread_dump" and ?st = "opened (sample_threads [7, 9])"
  let ?raws = "[sample_thread 7, sample_thread 9]"
  have contents: "md_file ?d = Some ?st" "\<not> stream_failed ?st" "md_swap ?d"
    by (simp_all add: sample_thread_dump_def opened_def)
  obtain result d' where run: "GetThreadList ?d = Some (result, d')" "dump_extends ?d d'"
    using thread_list.get_run [OF sample_thread_dump_facts(1)] by blast
  have info: "map_of (md_stream_map ?d) MD_THREAD_LIST_STREAM = Some \<lparr>stream_index = 0, cached_stream = None\<rparr>"
    by (simp add: sample_thread_dump_def)
  have seek: "SeekToStreamType MD_THREAD_LIST_STREAM ?d = (Some 100, at_position 0 ?st ?d)"
    using SeekSet_good [OF contents(1,2), of 0] by (simp add: SeekToStreamType_def sample_thread_dump_def)
  let ?e = "at_position 0 ?st ?d" and ?start = "?st\<lparr>stream_pos := 0\<rparr>"
  have "ReadBytes 4 ?e = (Some (file_bytes True (2 :: u32)), at_position (stream_pos ?start + 4) ?start ?e)"
    by (rule ReadBytes_between [where pre = "[]" and post = "concat (map (thread_bytes True) ?raws)"])
       (simp_all add: at_position_def opened_def sample_threads_def)
  then have count: "read_list_count 48 100 ?e = (Some 2, at_position 4 ?st ?d)"
    by (simp add: read_list_count_def read_u32_field_def field_at_start at_position_def contents(3))
  have threads: "map_option snd (fst (read_threads (length ?raws) 0 Map.empty (at_position 4 ?st ?d))) =
      (if distinct (map raw_thread_id ?raws) \<and> (\<forall>raw\<in>set ?raws. Map.empty (raw_thread_id raw) = (None :: nat option))
       then Some (map thread_of_raw ?raws) else None)"
    by (rule read_threads_file [where st = "?st\<lparr>stream_pos := 4\<rparr>" and pre = "file_bytes True (2 :: u32)" and post = "[]"])
       (simp_all add: at_position_def opened_def sample_threads_def contents(3))
  obtain r d2 where r: "read_threads 2 0 Map.empty (at_position 4 ?st ?d) = (r, d2)" by fastforce
  with threads obtain ids where ids: "r = Some (ids, map thread_of_raw ?raws)"
    by (auto simp: numeral_2_eq_2 sample_thread_def)
  have "ThreadList_Read 100 ?e = Some (Some (Thread_list
      \<lparr>tl_ids = ids, tl_threads = map thread_of_raw ?raws, thread_count = 2\<rparr>), d2)"
    using count r ids by (simp add: ThreadList_Read_def max_threads_def)
  then have "GetThreadList ?d = Some (Some \<lparr>tl_ids = ids, tl_threads = map thread_of_raw ?raws, thread_count = 2\<rparr>,
      keep_stream MD_THREAD_LIST_STREAM (Thread_list
        \<lparr>tl_ids = ids, tl_threads = map thread_of_raw ?raws, thread_count = 2\<rparr>) d2)"
    unfolding GetThreadList_def GetStream_def info seek using sample_thread_dump_facts(3) by simp
  with run show ?thesis by (cases result) auto
qed

text \<open>A context behind the end of the file cannot be read.\<close>

lemma context_behind_end:
  assumes data: "map_option stream_data (md_file d) = Some contents" and short: "length contents \<le> unat (loc_rva location)"
    and size: "unat (loc_size location) = 716"
  shows "\<exists>d'. read_context_at location d = Some (None, d') \<and> dump_extends d d'"
proof -
  obtain st where st: "md_file d = Some st" "stream_data st = contents" using data by auto
  obtain ok d1 where seek: "SeekSet (unat (loc_rva location)) d = (ok, d1)" by fastforce
  note d1 = SeekSet_extends [OF seek]
  show ?thesis
  proof (cases ok)
    case False
    with seek d1 show ?thesis by (simp add: read_context_at_def)
  next
    case True
    then have good: "\<not> stream_failed st" "d1 = at_position (unat (loc_rva location)) st d"
      using seek st by (auto simp: SeekSet_def istream_seek_def Let_def at_position_def split: if_splits)
    obtain w d2 where read: "read_u32_field d1 = (w, d2)" by fastforce
    have "ReadBytes 4 d1 = (None, d2)" "w = None"
      using read short st by (auto simp: read_u32_field_def ReadBytes_def istream_read_def good at_position_def)
    with read have "read_u32_field d1 = (None, d2)" by simp
    moreover have "sizeof_ContextAMD64 \<noteq> 716" "sizeof_ContextPPC64 \<noteq> 716" "sizeof_ContextARM64_Old \<noteq> 716"
      by (simp_all add: context_sizes)
    ultimately have "MinidumpContext_Read (loc_size location) d1 = Some (None, d2)"
      using size by (simp add: MinidumpContext_Read_def read_flagged_context_def)
    with True seek d1 read_u32_field_extends [OF read] show ?thesis
      by (auto simp: read_context_at_def intro: dump_extends_trans)
  qed
qed

lemma sample_thread_processed:
  assumes "map_option stream_data (md_file (w_dump p)) = Some contents" and "length contents \<le> 400"
    and roles: "dump_thread roles = None" "requesting_thread roles = None"
  shows "\<exists>p'. process_thread pr roles (Some (thread_of_raw (sample_thread i))) p = Some (None, p') \<and>
    map_option stream_data (md_file (w_dump p')) = Some contents \<and>
    w_interrupted p' = w_interrupted p \<and> w_memory_list p' = w_memory_list p"
proof -
  let ?t = "thread_of_raw (sample_thread i)"
  obtain d' where "read_context_at (thread_context (sample_thread i)) (w_dump p) = Some (None, d')"
    and d': "dump_extends (w_dump p) d'"
    using context_behind_end [OF assms(1), of "thread_context (sample_thread i)"] assms(2)
    by (auto simp: sample_thread_def)
  then have "Thread_GetContext ?t (w_dump p) = Some (None, ?t, d')"
    by (simp add: Thread_GetContext_def thread_of_raw_def)
  moreover have "GetThreadID ?t = Some i" by (simp add: GetThreadID_def thread_of_raw_def sample_thread_def)
  moreover have "map_option stream_data (md_file d') = Some contents"
    using d' assms(1) by (simp add: dump_extends_def)
  ultimately show ?thesis
    using roles by (simp add: process_thread_def walk_thread_def StackwalkerForCPU_def push_stack_def Let_def)
qed

theorem Process_threads_witness:
  "\<exists>ps' s' d'. Process sample_processor sample_thread_dump sample_state sample_symbolizer =
       Some (PROCESS_OK, ps', s', d') \<and>
     map stack_tid (ps_threads ps') = [7, 9] \<and> ps_requesting_thread ps' = - 1 \<and>
     (\<exists>r1 r2. ps_thread_memory_regions ps' = [None, r1, r2])"
proof -
  let ?d = sample_thread_dump and ?ts = "map thread_of_raw [sample_thread 7, sample_thread 9]"
  let ?roles = "\<lparr>dump_thread = None, requesting_thread = None\<rparr> :: thread_roles"
  obtain l d2 where l: "GetThreadList ?d = Some (Some l, d2)" "dump_extends ?d d2" "tl_threads l = ?ts" "thread_count l = 2"
    using sample_thread_list by blast
  obtain r ps1 where r: "process_description (md_header ?d) (ProcessState_Clear sample_state) ?d = Some ((?roles, None, None, ps1), ?d)"
    using sample_description by blast
  let ?p = "\<lparr>w_dump = d2, w_memory_list = None, w_exception = None, w_symbolizer = symbolizer_Reset sample_symbolizer,
    w_state = ps1, w_found_requesting_thread = False, w_interrupted = False\<rparr>"
  have data: "map_option stream_data (md_file (w_dump ?p)) = Some (sample_threads [7, 9])"
    "length (sample_threads [7, 9]) \<le> 400"
    using l(2) sample_thread_dump_facts(4,5) by (simp_all add: dump_extends_def)
  obtain p1 where p1: "process_thread sample_processor ?roles (Some (thread_of_raw (sample_thread 7))) ?p = Some (None, p1)"
    "map_option stream_data (md_file (w_dump p1)) = Some (sample_threads [7, 9])" "\<not> w_interrupted p1"
    using sample_thread_processed [OF data, of ?roles sample_processor 7] by auto
  obtain p2 where p2: "process_thread sample_processor ?roles (Some (thread_of_raw (sample_thread 9))) p1 = Some (None, p2)"
    "\<not> w_interrupted p2"
    using sample_thread_processed [OF p1(2) data(2), of ?roles sample_processor 9] p1(3) by auto
  have loop: "process_threads sample_processor ?roles l (unat (thread_count l)) 0 ?p = Some (None, p2)"
  proof -
    have "unat (thread_count l) = Suc (Suc 0)" using l(4) by simp
    moreover have "GetThreadAtIndex l 0 = Some (thread_of_raw (sample_thread 7))"
      "GetThreadAtIndex l 1 = Some (thread_of_raw (sample_thread 9))"
      using l(3,4) by (simp_all add: GetThreadAtIndex_def word_le_nat_alt)
    ultimately show ?thesis using p1(1) p2(1) by (simp only: process_threads.simps) simp
  qed
  obtain ps' where final: "process_result sample_processor ?roles p2 = (PROCESS_OK, ps')"
    using p2(2) by (simp add: process_result_def Let_def)
  have run: "Process sample_processor ?d sample_state sample_symbolizer = Some (PROCESS_OK, ps', w_symbolizer p2, w_dump p2)"
    using r l(1) loop final sample_thread_dump_facts(3) by (simp add: Process_def dump_header_def)
  from Process_threads [OF run sample_thread_dump_facts(1,2)]
  obtain roles exception memory_list ps2 d1 l2 d3 where processed:
    "process_description (md_header ?d) (ProcessState_Clear sample_state) ?d = Some ((roles, exception, memory_list, ps2), d1)"
    "GetThreadList d1 = Some (Some l2, d3)"
    "threads_processed sample_processor roles (map thread_id_of (tl_threads l2)) sample_state ps'"
    by auto
  with r l have "roles = ?roles" "l2 = l" by simp_all
  with processed(3) l(3) have tids: "map stack_tid (ps_threads ps') = [7, 9]"
    and rest: "ps_requesting_thread ps' = - 1"
      "\<exists>new. length new = length (ps_threads ps') \<and>
         ps_thread_memory_regions ps' = ps_thread_memory_regions sample_state @ new"
    by (simp_all add: threads_processed_def position_of_def thread_of_raw_def sample_thread_def)
  from arg_cong [where f = length, OF tids] have "length (ps_threads ps') = 2" by simp
  with rest(2) have "\<exists>r1 r2. ps_thread_memory_regions ps' = [None, r1, r2]"
    by (auto simp: sample_state_def length_Suc_conv numeral_2_eq_2)
  with rest(1) tids run show ?thesis by auto
qed

end
