(* ===== verification/Stackwalker_Returns.thy ===== *)
theory Stackwalker_Returns
  imports Stackwalker_CPU
begin

text \<open>
  Walks end.  A walk can go wrong in the symbols: a rule of a symbol file may follow a null pointer
  or divide the smallest number.  Where no symbols can be had, the loops of the walkers remain: the
  scans for return addresses and the walk itself.  This theory shows that they end, on every
  processor, for every stack memory that keeps to its bounds, whatever the memory, the registers
  and the modules hold.
\<close>

subsection \<open>Without symbols\<close>

text \<open>There is no resolver, or it has nothing loaded and the supplier has nothing to load.\<close>

definition without_symbols :: "symbolizer \<Rightarrow> bool" where
  "without_symbols s =
     (case sym_resolver s of
        None \<Rightarrow> True
      | Some r \<Rightarrow> resolver_modules r = Map.empty \<and>
          (\<forall>supplier m data. sym_supplier s = Some supplier \<longrightarrow> supplier m \<noteq> FOUND data))"

lemma without_symbols_Reset: "without_symbols s \<Longrightarrow> without_symbols (symbolizer_Reset s)"
  by (simp add: without_symbols_def symbolizer_Reset_def split: option.splits)

lemma without_symbols_lookups [simp]:
  assumes "without_symbols s"
  shows "Symbolizer_FindWindowsFrameInfo s f = None" "Symbolizer_FindCFIFrameInfo s f = None"
  using assms
  by (auto simp: without_symbols_def Symbolizer_FindWindowsFrameInfo_def Symbolizer_FindCFIFrameInfo_def
      Resolver_FindWindowsFrameInfo_def Resolver_FindCFIFrameInfo_def split: option.splits)

lemma without_symbols_fill:
  assumes "without_symbols s"
  shows "\<exists>r s' f'. FillSourceLineInfo modules unloaded_modules s f = Some (r, s', f') \<and> without_symbols s'"
proof (cases "module_of modules unloaded_modules (instruction f)")
  case None
  with assms show ?thesis by (simp add: FillSourceLineInfo_def)
next
  case module: (Some m)
  show ?thesis
  proof (cases "sym_resolver s")
    case None
    with assms module show ?thesis by (simp add: FillSourceLineInfo_def)
  next
    case (Some r)
    with assms have empty: "resolver_modules r = Map.empty" by (simp add: without_symbols_def)
    show ?thesis
    proof (cases "sym_supplier s")
      case None
      with assms module Some empty show ?thesis by (simp add: FillSourceLineInfo_def HasModule_def Let_def)
    next
      case supplier: (Some supplier)
      with assms Some have "supplier m \<noteq> FOUND data" for data by (auto simp: without_symbols_def)
      with assms module Some empty supplier show ?thesis
        by (cases "supplier m") (auto simp: FillSourceLineInfo_def HasModule_def Let_def without_symbols_def)
    qed
  qed
qed

lemma without_symbols_returns: "symbolizer_returns w without_symbols"
  unfolding symbolizer_returns_def
proof (intro allI impI)
  fix s a assume "without_symbols s"
  then obtain r s' f' where "FillSourceLineInfo (walker_modules w) (walker_unloaded_modules w) s
      (new_StackFrame\<lparr>instruction := a\<rparr>) = Some (r, s', f')" "without_symbols s'"
    using without_symbols_fill by blast
  then show "\<exists>ok s'. InstructionAddressSeemsValid w a s = Some (ok, s') \<and> without_symbols s'"
    by (simp add: InstructionAddressSeemsValid_def)
qed

subsection \<open>Scans\<close>

text \<open>
  A region is shorter than the address space, so that the addresses behind a wrap lie below its
  start: behind a word of the region comes a higher one, or one that cannot be read.
\<close>

lemma next_word:
  fixes location :: "'w::len word" and read :: "'w memory"
  defines "B \<equiv> word_bytes TYPE('w word)"
  assumes within: "reads_within read base sz" and width: "32 \<le> LENGTH('w)" "LENGTH('w) \<le> 64"
    and here: "read (ucast location) \<noteq> None"
  shows "0 < B" "unat base \<le> unat location" "unat location + B \<le> unat base + unat sz"
    "unat (location + of_nat B) = unat location + B \<or> read (ucast (location + of_nat B)) = None"
proof -
  let ?next = "location + of_nat B"
  have B: "0 < B" "B < 2 ^ LENGTH('w)"
    using width le_less_trans [OF div_le_dividend less_exp, of "LENGTH('w)" 8]
    by (auto simp: word_bytes_def B_def)
  have up: "unat (ucast x :: u64) = unat x" for x :: "'w word"
  proof -
    have "(2 :: nat) ^ LENGTH('w) \<le> 2 ^ 64" using width(2) by (intro power_increasing) auto
    then have "unat x < 2 ^ 64" using unsigned_less [of x] by (rule less_le_trans [rotated])
    then show ?thesis by (simp add: unsigned_ucast_eq take_bit_nat_eq_self)
  qed
  show inside: "unat base \<le> unat location" "unat location + B \<le> unat base + unat sz"
    using within here up [of location] by (auto simp: reads_within_def B_def)
  show "unat ?next = unat location + B \<or> read (ucast ?next) = None"
  proof (cases "unat location + B < 2 ^ LENGTH('w)")
    case True
    then show ?thesis using B by (simp add: unat_word_ariths unat_of_nat)
  next
    case False
    have "unat ?next = (unat location + B) mod 2 ^ LENGTH('w)"
      using B(2) by (simp add: unat_word_ariths unat_of_nat mod_add_right_eq)
    also have "\<dots> = (unat location + B - 2 ^ LENGTH('w)) mod 2 ^ LENGTH('w)"
      using False by (intro le_mod_geq) simp
    also have "\<dots> = unat location + B - 2 ^ LENGTH('w)"
      using B(2) unsigned_less [of location, where ?'a = nat] by (intro mod_less) linarith
    finally have "unat ?next = unat location + B - 2 ^ LENGTH('w)" .
    moreover have "(2 :: nat) ^ 32 \<le> 2 ^ LENGTH('w)" using width by (intro power_increasing) auto
    moreover have "unat sz < 2 ^ 32" using unsigned_less [of sz, where ?'a = nat] by simp
    ultimately have "unat ?next < unat base" using False inside by simp
    then have "read (ucast ?next) = None"
      using within up [of ?next] by (cases "read (ucast ?next)") (auto simp: reads_within_def)
    then show ?thesis ..
  qed
qed (use width in \<open>simp add: B_def word_bytes_def\<close>)

lemma scan_words_unreadable: "read (ucast location) = None \<Longrightarrow> scan_words w read bound location s = Some (None, s)"
  by (subst scan_words.simps) simp

text \<open>So a scan ends, at the latest where it leaves the region, and finds words above its start.\<close>

lemma scan_words_ends:
  fixes location :: "'w::len word"
  assumes within: "reads_within read base sz" and width: "32 \<le> LENGTH('w)" "LENGTH('w) \<le> 64"
    and sym: "symbolizer_returns w keeps" and "keeps s"
  shows "\<exists>r s'. scan_words w read bound location s = Some (r, s') \<and> keeps s' \<and>
    (\<forall>loc ip. r = Some (loc, ip) \<longrightarrow> unat location \<le> unat loc \<and> read (ucast loc) \<noteq> None)"
  using \<open>keeps s\<close>
proof (induction "unat base + unat sz - unat location" arbitrary: location s rule: less_induct)
  case less
  let ?next = "location + of_nat (word_bytes TYPE('w word))"
  show ?case
  proof (cases "read (ucast location)")
    case None
    with less.prems show ?thesis by (simp add: scan_words_unreadable)
  next
    case (Some ip)
    then have "read (ucast location) \<noteq> None" by simp
    note word = next_word [OF within width this]
    have again: "\<exists>r s2. scan_words w read bound ?next s1 = Some (r, s2) \<and> keeps s2 \<and>
        (\<forall>loc ip. r = Some (loc, ip) \<longrightarrow> unat location \<le> unat loc \<and> read (ucast loc) \<noteq> None)" if "keeps s1" for s1
      using word(4)
    proof
      assume above: "unat ?next = unat location + word_bytes TYPE('w word)"
      with word(1,3) have "unat base + unat sz - unat ?next < unat base + unat sz - unat location" by simp
      from less.hyps [OF this that] obtain r s2 where "scan_words w read bound ?next s1 = Some (r, s2)" "keeps s2"
        "\<forall>loc ip. r = Some (loc, ip) \<longrightarrow> unat ?next \<le> unat loc \<and> read (ucast loc) \<noteq> None" by blast
      moreover from this(3) have "\<forall>loc ip. r = Some (loc, ip) \<longrightarrow> unat location \<le> unat loc \<and> read (ucast loc) \<noteq> None"
        by (auto simp: above)
      ultimately show ?thesis by blast
    qed (use that in \<open>simp add: scan_words_unreadable\<close>)
    obtain ok s' where "InstructionAddressSeemsValid w (ucast (ip - 1)) s = Some (ok, s')" "keeps s'"
      using sym less.prems unfolding symbolizer_returns_def by blast
    note valid = this
    obtain r1 s1 where next1: "scan_words w read bound ?next s = Some (r1, s1)" "keeps s1"
        "\<forall>loc ip. r1 = Some (loc, ip) \<longrightarrow> unat location \<le> unat loc \<and> read (ucast loc) \<noteq> None"
      using again [OF less.prems] by blast
    obtain r2 s2 where next2: "scan_words w read bound ?next s' = Some (r2, s2)" "keeps s2"
        "\<forall>loc ip. r2 = Some (loc, ip) \<longrightarrow> unat location \<le> unat loc \<and> read (ucast loc) \<noteq> None"
      using again [OF valid(2)] by blast
    have "scan_words w read bound location s \<in>
        {Some (None, s), Some (r1, s1), Some (Some (location, ip), s'), Some (r2, s2)}"
      by (subst scan_words.simps) (simp add: Some valid(1) next1(1) next2(1))
    then consider "scan_words w read bound location s = Some (None, s)"
      | "scan_words w read bound location s = Some (r1, s1)"
      | "scan_words w read bound location s = Some (Some (location, ip), s')"
      | "scan_words w read bound location s = Some (r2, s2)" by blast
    then show ?thesis
    proof cases
      case 1
      with less.prems show ?thesis by simp
    next
      case 2
      with next1 show ?thesis by simp
    next
      case 3
      with Some valid show ?thesis by simp
    next
      case 4
      with next2 show ?thesis by simp
    qed
  qed
qed

text \<open>Stack memory of either width that keeps to its bounds.\<close>

definition memory_within :: "memory_region \<Rightarrow> bool" where
  "memory_within m =
     (reads_within (read_u32 m) (region_base m) (region_size m) \<and>
      reads_within (read_u64 m) (region_base m) (region_size m))"

lemma Scan_ends:
  fixes start :: "'w::len word"
  assumes "reads_within read base sz" and "32 \<le> LENGTH('w)" "LENGTH('w) \<le> 64" and "without_symbols s"
  shows "\<exists>r s'. ScanForReturnAddress w read start n s = Some (r, s') \<and> without_symbols s' \<and>
    (\<forall>loc ip. r = Some (loc, ip) \<longrightarrow> unat start \<le> unat loc \<and> read (ucast loc) \<noteq> None)"
  unfolding ScanForReturnAddress_def
  by (rule scan_words_ends [OF assms(1-3) without_symbols_returns assms(4)])

lemma Scan_returns:
  assumes "memory_within m" and "without_symbols s"
  obtains r s' where "ScanForReturnAddress w (read_u32 m) start n s = Some (r, s')" and "without_symbols s'"
  using Scan_ends [of "read_u32 m" "region_base m" "region_size m" s w start n] assms
  by (auto simp: memory_within_def)

lemma Scan_returns64:
  assumes "memory_within m" and "without_symbols s"
  obtains r s' where "ScanForReturnAddress w (read_u64 m) start n s = Some (r, s')" and "without_symbols s'"
  using Scan_ends [of "read_u64 m" "region_base m" "region_size m" s w start n] assms
  by (auto simp: memory_within_def)

subsection \<open>The walk\<close>

text \<open>What a walk needs of the function that gives the caller.\<close>

definition caller_returns :: "'a StackFrame_scheme caller_of \<Rightarrow> bool" where
  "caller_returns get_caller =
     (\<forall>walked_frames scan s. without_symbols s \<longrightarrow>
        (\<exists>nxt lf s'. get_caller walked_frames scan s = Some (nxt, lf, s') \<and> without_symbols s'))"

lemma add_frame_returns:
  assumes "without_symbols (walk_symbolizer st)"
  shows "\<exists>ok st'. add_frame w f st = Some (ok, st') \<and> without_symbols (walk_symbolizer st')"
proof -
  obtain r s' f' where "FillSourceLineInfo (walker_modules w) (walker_unloaded_modules w) (walk_symbolizer st) f =
      Some (r, s', f')" "without_symbols s'"
    using without_symbols_fill [OF assms] by blast
  then show ?thesis by (cases "r = kInterrupt") (auto simp: add_frame_def Let_def)
qed

lemma walk_loop_returns:
  assumes "caller_returns get_caller" and "without_symbols (walk_symbolizer st)"
  shows "\<exists>ok st'. walk_loop w get_caller frame st = Some (ok, st') \<and> without_symbols (walk_symbolizer st')"
  using assms
proof (induction w get_caller frame st rule: walk_loop.induct)
  case (1 w get_caller frame st)
  show ?case
  proof (cases frame)
    case None
    then have "walk_loop w get_caller frame st = Some (True, st)" by (subst walk_loop.simps) simp
    with "1.prems" show ?thesis by blast
  next
    case (Some f)
    obtain ok st1 where add: "add_frame w f st = Some (ok, st1)" "without_symbols (walk_symbolizer st1)"
      using add_frame_returns [OF "1.prems"(2)] by blast
    show ?thesis
    proof (cases "ok \<and> \<not> unat (max_frames w) < length (walked st1)")
      case False
      then have "walk_loop w get_caller frame st = Some (ok, st1)"
        using Some add(1) by (subst walk_loop.simps) auto
      with add(2) show ?thesis by blast
    next
      case True
      obtain nxt lf s where gc: "get_caller (walked st1) (scanned_frames st1 < max_frames_scanned w)
          (walk_symbolizer st1) = Some (nxt, lf, s)" and s: "without_symbols s"
        using "1.prems"(1) add(2) unfolding caller_returns_def by blast
      let ?st = "st1\<lparr>walked := butlast (walked st1) @ [lf], walk_symbolizer := s\<rparr>"
      have "\<exists>ok st'. walk_loop w get_caller nxt ?st = Some (ok, st') \<and> without_symbols (walk_symbolizer st')"
        using "1.IH" [OF Some add(1) refl _ _ gc refl refl "1.prems"(1)] True s by simp
      moreover have "walk_loop w get_caller frame st = walk_loop w get_caller nxt ?st"
        using Some add(1) True gc by (subst walk_loop.simps) simp
      ultimately show ?thesis by simp
    qed
  qed
qed

text \<open>What is shown of each walk.\<close>

definition walk_returns :: "(bool \<times> 'f \<times> CodeModule list \<times> CodeModule list \<times> symbolizer) run \<Rightarrow> bool" where
  "walk_returns r =
     (\<exists>ok fs missing corrupt s. r = Some (ok, fs, missing, corrupt, s) \<and> without_symbols s)"

lemma Walk_returns:
  assumes "caller_returns get_caller" and "without_symbols s"
  shows "walk_returns (Walk w get_caller frame cs missing corrupt s)"
proof -
  let ?st = "\<lparr>walked = frames (CallStack_Clear cs), scanned_frames = 0, modules_without_symbols = missing,
    modules_with_corrupt_symbols = corrupt, walk_symbolizer = s\<rparr>"
  obtain ok st' where "walk_loop w get_caller frame ?st = Some (ok, st')" "without_symbols (walk_symbolizer st')"
    using walk_loop_returns [OF assms(1), of ?st w frame] assms(2) by auto
  then show ?thesis by (simp add: Walk_def walk_returns_def)
qed

definition region_within :: "memory_region option \<Rightarrow> bool" where
  "region_within memory = (case memory of None \<Rightarrow> True | Some m \<Rightarrow> memory_within m)"

lemma region_within_simps [simp]: "region_within None" "region_within (Some m) = memory_within m"
  by (simp_all add: region_within_def)

subsection \<open>The callers of each processor\<close>

lemma x86_callers_return:
  assumes "region_within memory"
  shows "caller_returns (x86_GetCallerFrame w memory)"
  unfolding caller_returns_def
proof (intro allI impI)
  fix fs scan s assume s: "without_symbols s"
  show "\<exists>nxt lf s'. x86_GetCallerFrame w memory fs scan s = Some (nxt, lf, s') \<and> without_symbols s'"
  proof (cases memory)
    case None
    with s show ?thesis by (simp add: x86_GetCallerFrame_def)
  next
    case (Some m)
    obtain found s' where "ScanForReturnAddress w (read_u32 m) (esp (x86_context (last fs)))
        (search_words (length fs = 1)) s = Some (found, s')" "without_symbols s'"
      using Scan_returns s assms Some by (metis region_within_simps(2))
    then have "\<exists>r s2. ebp_at_base w m (length fs = 1) (last fs) scan s = Some (r, s2) \<and> without_symbols s2"
      using s by (simp add: ebp_at_base_def Let_def split: option.split)
    then obtain r s2 where "ebp_at_base w m (length fs = 1) (last fs) scan s = Some (r, s2)" "without_symbols s2"
      by blast
    then show ?thesis
      using s Some
      by (auto simp: x86_GetCallerFrame_def x86_new_frame_def x86_try_windows_def x86_try_cfi_def
          GetCallerByEBPAtBase_def split: option.splits)
  qed
qed

lemma amd64_callers_return:
  assumes "region_within memory"
  shows "caller_returns (amd64_GetCallerFrame nacl w memory)"
  unfolding caller_returns_def
proof (intro allI impI)
  fix fs scan s assume s: "without_symbols s"
  show "\<exists>nxt lf s'. amd64_GetCallerFrame nacl w memory fs scan s = Some (nxt, lf, s') \<and> without_symbols s'"
  proof (cases memory)
    case None
    with s show ?thesis by (simp add: amd64_GetCallerFrame_def)
  next
    case (Some m)
    obtain found s' where "ScanForReturnAddress w (read_u64 m) (rsp (amd64_context (last fs)))
        (search_words (length fs = 1)) s = Some (found, s')" "without_symbols s'"
      using Scan_returns64 s assms Some by (metis region_within_simps(2))
    then obtain f s2 where "amd64_new_frame w m fs scan s = Some (f, s2)" "without_symbols s2"
      using s by (cases "scan \<and> GetCallerByFramePointerRecovery m (last fs) = None")
        (auto simp: amd64_new_frame_def amd64_GetCallerByStackScan_def Let_def)
    then show ?thesis
      using Some by (cases f) (simp_all add: amd64_GetCallerFrame_def Let_def)
  qed
qed

lemma chain_callers_return:
  "caller_returns (ppc_GetCallerFrame memory)" "caller_returns (ppc64_GetCallerFrame memory)"
  "caller_returns (sparc_GetCallerFrame memory)"
  by (simp_all add: caller_returns_def ppc_GetCallerFrame_def ppc64_GetCallerFrame_def sparc_GetCallerFrame_def Let_def
      split: option.splits)

lemma arm_callers_return:
  assumes "region_within memory"
  shows "caller_returns (arm_GetCallerFrame w memory)"
  unfolding caller_returns_def
proof (intro allI impI)
  fix fs scan s assume s: "without_symbols s"
  show "\<exists>nxt lf s'. arm_GetCallerFrame w memory fs scan s = Some (nxt, lf, s') \<and> without_symbols s'"
  proof (cases memory)
    case None
    with s show ?thesis by (simp add: arm_GetCallerFrame_def)
  next
    case (Some m)
    obtain linked s1 where link: "arm_GetCallerByLinkRegister w (last fs) s = Some (linked, s1)" "without_symbols s1"
    proof (cases "reg_valid (arm_validity (last fs)) ARM_REG_LR")
      case False
      with s that show ?thesis by (simp add: arm_GetCallerByLinkRegister_def Let_def)
    next
      case True
      obtain ok t where "InstructionAddressSeemsValid (arm_base w)
          (ucast (arm_iregs (arm_context (last fs)) ARM_REG_LR)) s = Some (ok, t)" "without_symbols t"
        using without_symbols_returns s unfolding symbolizer_returns_def by blast
      with True that show ?thesis by (simp add: arm_GetCallerByLinkRegister_def Let_def)
    qed
    have scan: "\<exists>f s2. arm_GetCallerByStackScan w m fs t = Some (f, s2) \<and> without_symbols s2"
      if t: "without_symbols t" for t
    proof -
      obtain found s2 where "ScanForReturnAddress (arm_base w) (read_u32 m) (arm_iregs (arm_context (last fs)) ARM_REG_SP)
          (search_words (length fs = 1)) t = Some (found, s2)" "without_symbols s2"
        using Scan_returns t assms Some by (metis region_within_simps(2))
      then show ?thesis by (simp add: arm_GetCallerByStackScan_def Let_def)
    qed
    let ?frame = "case fp_register w of None \<Rightarrow> None | Some fp \<Rightarrow> arm_GetCallerByFramePointer m (last fs) fp"
    have "\<exists>f t. (if length fs = 1 \<and> ?frame = None then arm_GetCallerByLinkRegister w (last fs) s
        else Some (?frame, s)) = Some (f, t) \<and> without_symbols t"
      using link s by simp
    then obtain f t where f: "(if length fs = 1 \<and> ?frame = None then arm_GetCallerByLinkRegister w (last fs) s
        else Some (?frame, s)) = Some (f, t)" "without_symbols t" by blast
    obtain g t2 where g: "arm_GetCallerByStackScan w m fs t = Some (g, t2)" "without_symbols t2"
      using scan [OF f(2)] by blast
    have "arm_new_frame w m fs scan s = (if scan \<and> f = None then arm_GetCallerByStackScan w m fs t else Some (f, t))"
      using f(1) s unfolding arm_new_frame_def Let_def by (simp cong: if_cong option.case_cong)
    then obtain f s2 where "arm_new_frame w m fs scan s = Some (f, s2)" "without_symbols s2"
      using f(2) g by (cases "scan \<and> f = None") auto
    then show ?thesis
      using Some by (cases f) (simp_all add: arm_GetCallerFrame_def Let_def)
  qed
qed

lemma arm64_callers_return:
  assumes "region_within memory"
  shows "caller_returns (arm64_GetCallerFrame w memory)"
  unfolding caller_returns_def
proof (intro allI impI)
  fix fs scan s assume s: "without_symbols s"
  show "\<exists>nxt lf s'. arm64_GetCallerFrame w memory fs scan s = Some (nxt, lf, s') \<and> without_symbols s'"
  proof (cases memory)
    case None
    with s show ?thesis by (simp add: arm64_GetCallerFrame_def)
  next
    case (Some m)
    have scan: "\<exists>f s2. arm64_GetCallerByStackScan w m fs lf s = Some (f, s2) \<and> without_symbols s2" for lf
    proof -
      obtain found s2 where "ScanForReturnAddress (arm64_base w) (read_u64 m) (arm64_iregs (arm64_context lf) ARM64_REG_SP)
          (search_words (length fs = 1)) s = Some (found, s2)" "without_symbols s2"
        using Scan_returns64 s assms Some by (metis region_within_simps(2))
      then show ?thesis by (simp add: arm64_GetCallerByStackScan_def Let_def)
    qed
    obtain frame lf where fp: "arm64_GetCallerByFramePointer w m fs = (frame, lf)" by fastforce
    obtain f s2 where "arm64_new_frame w m fs scan s = Some (f, lf, s2)" "without_symbols s2"
      using s fp scan [of lf] by (cases "scan \<and> frame = None") (auto simp: arm64_new_frame_def)
    then show ?thesis
      using Some by (cases f) (simp_all add: arm64_GetCallerFrame_def Let_def)
  qed
qed

text \<open>The repeated scan of MIPS goes on behind the word that was found, so it ends as well.\<close>

lemma mips_scan_returns:
  fixes last_sp :: "'w::len word"
  assumes within: "reads_within read base sz" and width: "32 \<le> LENGTH('w)" "LENGTH('w) \<le> 64"
    and "without_symbols s"
  shows "\<exists>r s'. mips_scan w read last_sp count s = Some (r, s') \<and> without_symbols s'"
  using \<open>without_symbols s\<close>
proof (induction "unat base + unat sz - unat last_sp" arbitrary: last_sp count s rule: less_induct)
  case less
  obtain found s1 where scan: "ScanForReturnAddress w read last_sp (nat count) s = Some (found, s1)" "without_symbols s1"
    "\<forall>loc ip. found = Some (loc, ip) \<longrightarrow> unat last_sp \<le> unat loc \<and> read (ucast loc) \<noteq> None"
    using Scan_ends [OF within width less.prems] by blast
  show ?case
  proof (cases found)
    case None
    with scan show ?thesis by (subst mips_scan.simps) simp
  next
    case (Some r)
    obtain caller_sp caller_pc where r: "r = (caller_sp, caller_pc)" by fastforce
    with scan(3) Some have found: "unat last_sp \<le> unat caller_sp" "read (ucast caller_sp) \<noteq> None" by auto
    note word = next_word [OF within width found(2)]
    let ?next = "caller_sp + of_nat (word_bytes TYPE('w word))"
    have again: "\<exists>r s'. mips_scan w read ?next count' s1 = Some (r, s') \<and> without_symbols s'" for count'
      using word(4)
    proof
      assume "unat ?next = unat caller_sp + word_bytes TYPE('w word)"
      with word(1,3) found(1) have "unat base + unat sz - unat ?next < unat base + unat sz - unat last_sp" by simp
      from less.hyps [OF this scan(2)] show ?thesis .
    next
      assume "read (ucast ?next) = None"
      with scan(2) show ?thesis
        by (subst mips_scan.simps) (simp add: ScanForReturnAddress_def scan_words_unreadable)
    qed
    with scan Some r show ?thesis
      by (subst mips_scan.simps) (simp add: Let_def split: option.split)
  qed
qed

lemma mips_callers_return:
  assumes "region_within memory"
  shows "caller_returns (mips_GetCallerFrame w context memory)"
  unfolding caller_returns_def
proof (intro allI impI)
  fix fs scan s assume s: "without_symbols s"
  show "\<exists>nxt lf s'. mips_GetCallerFrame w context memory fs scan s = Some (nxt, lf, s') \<and> without_symbols s'"
  proof (cases memory)
    case None
    with s show ?thesis by (simp add: mips_GetCallerFrame_def)
  next
    case (Some m)
    then have within: "reads_within (read_u32 m) (region_base m) (region_size m)"
      "reads_within (read_u64 m) (region_base m) (region_size m)"
      using assms by (simp_all add: memory_within_def)
    have frame32: "\<exists>f s2. mips_scan_frame w (read_u32 m) last_sp count lf s = Some (f, s2) \<and> without_symbols s2"
      for last_sp count lf
      using mips_scan_returns [OF within(1) _ _ s, of w last_sp "int count"] by (auto simp: mips_scan_frame_def)
    have frame64: "\<exists>f s2. mips_scan_frame w (read_u64 m) last_sp count lf s = Some (f, s2) \<and> without_symbols s2"
      for last_sp count lf
      using mips_scan_returns [OF within(2) _ _ s, of w last_sp "int count"] by (auto simp: mips_scan_frame_def)
    have "\<exists>f s2. mips_GetCallerByStackScan w context m fs s = Some (f, s2) \<and> without_symbols s2"
      unfolding mips_GetCallerByStackScan_def Let_def
      using frame32 frame64 by (simp split: prod.split)
    then obtain f s2 where "mips_GetCallerByStackScan w context m fs s = Some (f, s2)" "without_symbols s2" by blast
    then obtain f s2 where "mips_new_frame w context m fs scan s = Some (f, s2)" "without_symbols s2"
      using s by (cases scan) (auto simp: mips_new_frame_def Let_def)
    then show ?thesis
      using Some by (cases f) (simp_all add: mips_GetCallerFrame_def Let_def)
  qed
qed

subsection \<open>Every walker that is made walks to an end\<close>

text \<open>A context whose accesses are defined; one without a processor has no walker.\<close>

definition context_good :: "dump_context \<Rightarrow> bool" where
  "context_good dc = (dc_valid dc \<and> (dump_context_ok dc \<or> GetContextCPU dc = 0))"

lemma walked_frames_returns: "walk_returns r \<Longrightarrow> walk_returns (walked_frames inject r)"
  by (auto simp: walk_returns_def walked_frames_def)

lemma limited_memory_within: "region_within memory \<Longrightarrow> region_within (x86_memory memory)"
  by (auto simp: x86_memory_def split: option.split)

fun walker_ready :: "cpu_stackwalker \<Rightarrow> bool" where
  "walker_ready (X86_walker w memory c) = region_within memory"
| "walker_ready (PPC_walker w memory c) = True"
| "walker_ready (PPC64_walker w memory c) = True"
| "walker_ready (AMD64_walker nacl w memory c) = region_within memory"
| "walker_ready (SPARC_walker w memory c) = True"
| "walker_ready (ARM_walker w memory c) = region_within memory"
| "walker_ready (ARM64_walker w memory c) = region_within memory"
| "walker_ready (MIPS_walker w memory c) = (region_within memory \<and> c \<noteq> None)"

lemma cpu_Walk_returns:
  assumes "walker_ready walker" and s: "without_symbols s"
  shows "walk_returns (cpu_Walk walker missing corrupt s)"
proof (cases walker)
  case (MIPS_walker w memory ctx)
  with assms(1) obtain c where within: "region_within memory" and c: "ctx = Some c" by auto
  obtain memory' where memory': "mips_memory ctx memory = Some memory'" "region_within memory'"
    using within c by (cases memory) (auto simp: mips_memory_def Let_def)
  have "walk_returns (mips_Walk w memory ctx empty_stack missing corrupt s)"
    using Walk_returns [OF mips_callers_return [OF memory'(2)] s] by (simp add: mips_Walk_def memory'(1) [unfolded c] c)
  with MIPS_walker show ?thesis by (simp add: walked_frames_returns)
next
  case (X86_walker w memory c)
  with assms(1) Walk_returns [OF x86_callers_return [OF limited_memory_within] s] show ?thesis
    by (simp add: x86_Walk_def walked_frames_returns)
next
  case (AMD64_walker nacl w memory c)
  with assms(1) Walk_returns [OF amd64_callers_return s] show ?thesis
    by (simp add: amd64_Walk_def walked_frames_returns)
next
  case (ARM_walker w memory c)
  with assms(1) Walk_returns [OF arm_callers_return s] show ?thesis
    by (simp add: arm_Walk_def walked_frames_returns)
next
  case (ARM64_walker w memory c)
  with assms(1) Walk_returns [OF arm64_callers_return s] show ?thesis
    by (simp add: arm64_Walk_def walked_frames_returns)
qed (simp_all add: ppc_Walk_def ppc64_Walk_def sparc_Walk_def walked_frames_returns Walk_returns [OF _ s]
    chain_callers_return)

lemma StackwalkerForCPU_returns:
  assumes "\<And>dc. context = Some dc \<Longrightarrow> context_good dc" and "highest_module modules = Some high"
    and "region_within memory"
  shows "\<exists>walker. StackwalkerForCPU limits system_info context memory modules unloaded_modules = Some walker \<and>
    (\<forall>w. walker = Some w \<longrightarrow> walker_ready w)"
proof (cases "context")
  case None
  then show ?thesis by (simp add: StackwalkerForCPU_def)
next
  case (Some dc)
  with assms(1) have good: "context_good dc" by simp
  show ?thesis
  proof (cases "GetContextCPU dc = 0")
    case True
    with Some show ?thesis by (simp add: StackwalkerForCPU_def cpu_constants Let_def)
  next
    case False
    with good have "GetContextCPU dc \<in> stored_cpus (dc_context dc)"
      by (simp add: context_good_def dump_context_ok_def)
    with Some assms(2,3) show ?thesis
      by (cases "dc_context dc")
        (auto simp: StackwalkerForCPU_def cpu_constants Let_def GetContextX86_def GetContextPPC_def GetContextPPC64_def
          GetContextAMD64_def GetContextSPARC_def GetContextARM_def GetContextARM64_def GetContextMIPS_def)
  qed
qed

subsection \<open>The highest module\<close>

text \<open>
  The walker for ARM64 asks for the highest module by its number, which must fit an \<open>int\<close>.
  Storing a range adds at most one entry, whatever is cut off the others.
\<close>

lemma length_smap_insert: "length (smap_insert k v m) \<le> Suc (length m)"
  by (induction m) (auto split: if_splits)

lemma length_smap_erase: "i < length m \<Longrightarrow> Suc (length (smap_erase i m)) = length m"
  by (simp add: smap_erase_def)

lemma length_smap_replace: "i < length m \<Longrightarrow> length (smap_insert k v (smap_erase i m)) \<le> length m"
  using length_smap_insert [of k v "smap_erase i m"] length_smap_erase [of i m] by simp

lemma lower_bound_le: "lower_bound m k \<le> length m"
  by (simp add: lower_bound_def length_takeWhile_le)

lemma lower_bound_mono: "k \<le> k' \<Longrightarrow> lower_bound m k \<le> lower_bound m k'"
  unfolding lower_bound_def by (induction m) auto

lemma StoreRangeInternal_length:
  assumes "StoreRangeInternal m base delta sz e = Some r"
  shows "length (rmap (fst r)) \<le> Suc (length (rmap m))"
proof (induction rule: StoreRangeInternal.raw_induct [rotated, OF assms, consumes 0])
  case (1 store m base delta sz e r)
  let ?high = "base + (sz - 1)"
  let ?b = "lower_bound (rmap m) base" and ?h = "lower_bound (rmap m) ?high"
  note IH = "1"(1)
  have run: "store m' base' delta' sz' e = Some r \<Longrightarrow> length (rmap m') \<le> length (rmap m) \<Longrightarrow>
      length (rmap (fst r)) \<le> Suc (length (rmap m))" for m' base' delta' sz'
    using IH by fastforce
  show ?case
  proof (cases "sz = 0 \<or> ?high < base")
    case True
    with "1"(2) show ?thesis by (auto simp: Let_def)
  next
    case False
    then have "base \<le> ?high" using leI by blast
    then have le: "?b \<le> ?h" "?h \<le> length (rmap m)" using lower_bound_mono lower_bound_le by blast+
    show ?thesis
    proof (cases "?b = ?h")
      case False
      with le have b: "?b < length (rmap m)" by simp
      show ?thesis
        using "1"(2) \<open>\<not> (sz = 0 \<or> _)\<close> False
        by (auto simp: Let_def length_smap_replace [OF b] split: if_split_asm option.split_asm dest!: run)
    next
      case True
      show ?thesis
      proof (cases "?h = length (rmap m)")
        case False
        with le have b: "?h < length (rmap m)" by simp
        show ?thesis
          using "1"(2) \<open>\<not> (sz = 0 \<or> _)\<close> False True
          by (auto simp: Let_def length_smap_replace [OF b] length_smap_insert split: if_split_asm option.split_asm dest!: run)
      next
        case outside: True
        show ?thesis
          using "1"(2) \<open>\<not> (sz = 0 \<or> _)\<close> outside True by (auto simp: Let_def length_smap_insert)
      qed
    qed
  qed
qed

text \<open>Every module is stored at most once, so the highest one can be asked for.\<close>

lemma store_modules_length:
  "store_modules fresh ms m = Some m' \<Longrightarrow> length (rmap m') \<le> length (rmap m) + length ms"
proof (induction ms arbitrary: fresh m)
  case (Cons c ms)
  obtain m1 stored where store: "StoreRange m (base_address c) (module_size c) (CodeModule_Copy fresh c) = Some (m1, stored)"
    and rest: "store_modules (fresh + 1) ms m1 = Some m'"
    using Cons.prems by (auto split: bind_splits)
  from StoreRangeInternal_length [OF store [unfolded StoreRange_def]] Cons.IH [OF rest] show ?case by simp
qed simp

lemma highest_module_copied:
  assumes "BasicCodeModules ms main strategy = Some cm" and "length ms < 2 ^ 31"
  shows "\<exists>high. highest_module (Some cm) = Some high"
proof -
  let ?n = "length (rmap (code_map cm))"
  have "store_modules 0 ms \<lparr>merge_strategy = strategy, rmap = []\<rparr> = Some (code_map cm)"
    using assms(1) by (auto simp: BasicCodeModules_def split: bind_splits)
  from store_modules_length [OF this] assms(2) have n: "?n < 2 ^ 31" by simp
  show ?thesis
  proof (cases "?n = 0")
    case True
    then show ?thesis by (simp add: highest_module_def module_count_def GetCount_def)
  next
    case False
    then obtain k where k: "?n = Suc k" by (cases ?n) auto
    then have "module_count cm - 1 = of_nat k" by (simp add: module_count_def GetCount_def)
    moreover have "sint (of_nat k :: u32) = int k"
      using n k by (simp add: signed_of_nat signed_take_bit_int_eq_self)
    ultimately have "GetModuleAtSequence cm (module_count cm - 1) = Some (Some (r_entry (snd (rmap (code_map cm) ! k))))"
      using k by (auto simp: GetModuleAtSequence_def RetrieveRangeAtIndex_def GetCount_def range_outputs_def)
    then show ?thesis by (simp add: highest_module_def)
  qed
qed

end
