(* ===== verification/Process_Returns.thy ===== *)
theory Process_Returns
  imports Minidump_Processor Stackwalker_Returns
begin

text \<open>
  Processing ends.  For every file, and every processor, \<open>MinidumpProcessor::Process\<close> returns a
  result when there are no symbols: no pointer to nothing is followed, no member of a union is read
  that was not stored, no loop goes on forever.  The invariants are those of what the objects of a
  dump learn when they are read: the streams it keeps, the contexts threads and exception keep,
  and the regions of memory.
\<close>

subsection \<open>Regions, contexts, and what the streams hold\<close>

definition region_sane :: "MinidumpMemoryRegion \<Rightarrow> bool" where
  "region_sane r = (mr_valid r \<longrightarrow> range_fits (descriptor r))"

lemma region_sane_descriptor: "region_sane (SetDescriptor desc new_region)"
  by (simp add: region_sane_def SetDescriptor_def descriptor_def)

lemma region_sane_memory:
  "Region_GetMemory r d = (result, r', d') \<Longrightarrow> region_sane r \<Longrightarrow> region_sane r'"
  using Region_GetMemory_again [of r d result r' d'] by (simp add: region_sane_def descriptor_def)

text \<open>Such a region keeps to its bounds when a walker reads it.\<close>

lemma internal_read_within:
  fixes read_at :: "bool \<Rightarrow> pointer \<Rightarrow> nat \<Rightarrow> 'a::len word"
  assumes "fst (GetMemoryAtAddressInternal read_at a r d) \<noteq> None" and "region_sane r" and "LENGTH('a) div 8 \<le> 8"
  shows "unat (Region_GetBase r) \<le> unat a \<and> unat a + LENGTH('a) div 8 \<le> unat (Region_GetBase r) + unat (Region_GetSize r)"
proof -
  have valid: "mr_valid r" and "\<not> out_of_region (LENGTH('a) div 8) a r"
    using assms(1) by (auto simp: GetMemoryAtAddressInternal_def split: if_splits)
  with assms(2,3) have "in_region (LENGTH('a) div 8) a r"
    using out_of_region_iff by (auto simp: region_sane_def)
  with valid show ?thesis by (simp add: in_region_def Region_GetBase_def Region_GetSize_def)
qed

lemma walker_memory_within:
  assumes "region_sane r"
  shows "memory_within (walker_memory r d)"
  using internal_read_within [where r = r and d = d and read_at = u32_at]
    internal_read_within [where r = r and d = d and read_at = u64_at] assms
  by (auto simp: memory_within_def reads_within_def walker_memory_def word_bytes_def
      GetMemoryAtAddress32_def GetMemoryAtAddress64_def)

definition thread_sane :: "MinidumpThread \<Rightarrow> bool" where
  "thread_sane t =
     ((\<forall>dc. mt_context t = Some dc \<longrightarrow> context_good dc) \<and> (\<forall>r. mt_memory t = Some r \<longrightarrow> region_sane r))"

definition exception_sane :: "MinidumpException \<Rightarrow> bool" where
  "exception_sane e = (\<forall>dc. me_context e = Some dc \<longrightarrow> context_good dc)"

definition regions_sane :: "MinidumpMemoryList \<Rightarrow> bool" where
  "regions_sane l = (unat (yl_count l) = length (yl_regions l) \<and> (\<forall>r\<in>set (yl_regions l). region_sane r))"

definition stream_sane :: "md_stream \<Rightarrow> bool" where
  "stream_sane st =
     (case st of
        Thread_list l \<Rightarrow> thread_list_ok l \<and> (\<forall>t\<in>set (tl_threads l). thread_sane t)
      | Module_list l \<Rightarrow> module_list_ok l
      | Memory_list l \<Rightarrow> regions_sane l
      | Exception_stream e \<Rightarrow> exception_sane e
      | _ \<Rightarrow> True)"

definition dump_sane :: "minidump \<Rightarrow> bool" where
  "dump_sane d = (streams_typed d \<and> (\<forall>t st. kept_stream d t = Some st \<longrightarrow> stream_sane st))"

lemma system_stream_sane: "stream_class st = MD_SYSTEM_INFO_STREAM \<Longrightarrow> stream_sane st"
  by (cases st) (simp_all add: stream_sane_def stream_types)

lemma dump_sane_system:
  assumes "dump_sane d" and "system_extends d d'"
  shows "dump_sane d'"
proof -
  have typed: "streams_typed d'" using assms system_extends_typed by (auto simp: dump_sane_def)
  have "stream_sane st" if "kept_stream d' t = Some st" for t st
  proof (cases "t = MD_SYSTEM_INFO_STREAM")
    case True
    with that typed have "stream_class st = MD_SYSTEM_INFO_STREAM" by (simp add: streams_typed_def)
    then show ?thesis by (rule system_stream_sane)
  next
    case False
    with that assms show ?thesis by (auto simp: system_extends_def dump_sane_def)
  qed
  with typed show ?thesis by (simp add: dump_sane_def)
qed

subsection \<open>What the readers yield\<close>

definition reader_sane :: "(u32 \<Rightarrow> minidump \<Rightarrow> (md_stream option \<times> minidump) run) \<Rightarrow> bool" where
  "reader_sane read_stream =
     (\<forall>n d st d'. streams_typed d \<longrightarrow> read_stream n d = Some (Some st, d') \<longrightarrow> stream_sane st)"

lemma Thread_Read_sane: "Thread_Read d = (Some t, d') \<Longrightarrow> thread_sane t"
  by (auto simp: Thread_Read_def thread_of_raw_def thread_sane_def region_sane_descriptor
      split: prod.splits option.splits if_splits)

lemma read_threads_sane:
  "read_threads n i ids d = (Some (ids', ts), d') \<Longrightarrow> \<forall>t\<in>set ts. thread_sane t"
proof (induction n arbitrary: i ids d ids' ts)
  case (Suc n)
  obtain t d1 where t: "Thread_Read d = (t, d1)" by fastforce
  with Suc.prems obtain thread x rest where "t = Some thread"
    and "read_threads n (i + 1) (ids(x \<mapsto> i)) d1 = (Some (ids', rest), d')" "ts = thread # rest"
    by (auto split: option.splits prod.splits if_splits)
  with Suc.IH Thread_Read_sane t show ?case by auto
qed simp

lemma ThreadList_Read_sane: "reader_sane ThreadList_Read"
  unfolding reader_sane_def
proof (intro allI impI)
  fix n d st d' assume run: "ThreadList_Read n d = Some (Some st, d')"
  obtain count d1 where count: "read_list_count 48 n d = (count, d1)" by fastforce
  obtain threads d2 where threads: "read_threads (the count) 0 Map.empty d1 = (threads, d2)" by fastforce
  from run count threads obtain ids ts where ts: "threads = Some (ids, ts)"
    and st: "st = Thread_list \<lparr>tl_ids = ids, tl_threads = ts, thread_count = of_nat (the count)\<rparr>"
    by (cases count; cases threads) (auto simp: ThreadList_Read_def split: if_splits)
  from run st have "thread_list_ok \<lparr>tl_ids = ids, tl_threads = ts, thread_count = of_nat (the count)\<rparr>"
    using ThreadList_Read_list by blast
  with read_threads_sane [OF threads [unfolded ts]] show "stream_sane st" by (simp add: st stream_sane_def)
qed

lemma memory_list_sane: "memory_list_ok l \<Longrightarrow> regions_sane l"
  by (auto simp: memory_list_ok_def regions_sane_def region_sane_descriptor max_regions_def unat_nat32)

lemma readers_sane:
  "reader_sane ModuleList_Read" "reader_sane MemoryList_Read" "reader_sane Exception_Read"
proof -
  have "stream_sane st" if typed: "streams_typed d" and run: "ModuleList_Read n d = Some (Some st, d')" for n d st d'
  proof -
    obtain l where "st = Module_list l" "module_list_ok l"
      using ModuleList_Read_run [OF typed, of n] run by auto
    then show ?thesis by (simp add: stream_sane_def)
  qed
  then show "reader_sane ModuleList_Read" unfolding reader_sane_def by blast
  have "stream_sane st" if run: "MemoryList_Read n d = Some (Some st, d')" for n d st d'
  proof -
    obtain l where "st = Memory_list l" "memory_list_ok l"
      using MemoryList_Read_total [of n d] run by auto
    with memory_list_sane show ?thesis by (simp add: stream_sane_def)
  qed
  then show "reader_sane MemoryList_Read" unfolding reader_sane_def by blast
  show "reader_sane Exception_Read"
    unfolding reader_sane_def
    by (auto simp: Exception_Read_def stream_sane_def exception_sane_def split: option.splits prod.splits if_splits)
qed

text \<open>The streams of the other classes carry no condition.\<close>

lemma reader_sane_class:
  assumes "reader_ok t read_stream"
    and "t \<notin> {MD_THREAD_LIST_STREAM, MD_MODULE_LIST_STREAM, MD_MEMORY_LIST_STREAM, MD_EXCEPTION_STREAM}"
  shows "reader_sane read_stream"
  unfolding reader_sane_def
proof (intro allI impI)
  fix n d st d' assume typed: "streams_typed d" and run: "read_stream n d = Some (Some st, d')"
  obtain result d1 where "read_stream n d = Some (result, d1)" "\<forall>st. result = Some st \<longrightarrow> stream_class st = t"
    using assms(1) typed unfolding reader_ok_def by blast
  with run have "stream_class st = t" by simp
  with assms(2) show "stream_sane st" by (cases st) (simp_all add: stream_sane_def stream_types)
qed

lemma ThreadList_Read_local: "reader_local ThreadList_Read"
proof (rule reader_localI)
  fix n d assume "streams_typed d"
  obtain count d1 where count: "read_list_count 48 n d = (count, d1)" by fastforce
  obtain threads d2 where threads: "read_threads (the count) 0 Map.empty d1 = (threads, d2)" by fastforce
  have "dump_extends d d2 \<and> md_stream_map d2 = md_stream_map d" "dump_extends d d1 \<and> md_stream_map d1 = md_stream_map d"
    using read_list_count_extends [OF count] read_threads_extends [OF threads] read_list_count_map [OF count]
      read_threads_map [OF threads] by (auto intro: dump_extends_trans)
  then have "system_extends d d1" "system_extends d d2" using system_extends_map by blast+
  with count threads show "\<exists>r d'. ThreadList_Read n d = Some (r, d') \<and> system_extends d d'"
    by (cases count; cases threads) (auto simp: ThreadList_Read_def)
qed

lemma GetStream_sane:
  assumes reader: "reader_ok t read_stream" "reader_local read_stream" "reader_sane read_stream" and d: "dump_sane d"
  shows "\<exists>result d'. GetStream t read_stream d = Some (result, d') \<and> dump_sane d' \<and>
    (\<forall>st. result = Some st \<longrightarrow> stream_class st = t \<and> stream_sane st)"
proof -
  have typed: "streams_typed d" using d by (simp add: dump_sane_def)
  obtain result d' where run: "GetStream t read_stream d = Some (result, d')"
    and ext: "dump_extends d d'" and cls: "\<forall>st. result = Some st \<longrightarrow> stream_class st = t"
    using GetStream_run [OF reader(1) typed] by blast
  have typed': "streams_typed d'" using dump_extends_typed [OF ext typed] .
  show ?thesis
  proof (cases "md_valid d \<and> map_of (md_stream_map d) t \<noteq> None \<and> kept_stream d t = None")
    case False
    with run have "d' = d \<and> (\<forall>st. result = Some st \<longrightarrow> kept_stream d t = Some st)"
      by (auto simp: GetStream_def kept_stream_def split: option.splits if_splits)
    with run cls d show ?thesis by (auto simp: dump_sane_def)
  next
    case True
    obtain n d1 where seek: "SeekToStreamType t d = (n, d1)" by fastforce
    have map1: "md_stream_map d1 = md_stream_map d" using file_map [OF SeekToStreamType_file [OF seek]] .
    have typed1: "streams_typed d1" using dump_extends_typed [OF SeekToStreamType_extends [OF seek] typed] .
    have d1: "dump_sane d1"
      using d typed1 kept_stream_same_map [OF map1] by (simp add: dump_sane_def)
    show ?thesis
    proof (cases n)
      case None
      with run True seek have "d' = d1 \<and> result = None" by (auto simp: GetStream_def kept_stream_def split: option.splits)
      with run d1 show ?thesis by simp
    next
      case (Some len)
      with run True seek obtain r d2 where read: "read_stream len d1 = Some (r, d2)"
        and d': "d' = (case r of None \<Rightarrow> d2 | Some st \<Rightarrow> keep_stream t st d2)" "result = r"
        by (auto simp: GetStream_def kept_stream_def split: option.splits bind_splits)
      have "system_extends d1 d2" using reader(2) typed1 read unfolding reader_local_def by blast
      then have d2: "dump_sane d2" by (rule dump_sane_system [OF d1])
      show ?thesis
      proof (cases r)
        case None
        with run d' d2 show ?thesis by simp
      next
        case st: (Some st)
        then have sane: "stream_sane st" using reader(3) typed1 read unfolding reader_sane_def by blast
        have "dump_sane d'"
          using d2 sane typed' by (auto simp: dump_sane_def d' st kept_stream_keep)
        with run cls d' st sane show ?thesis by auto
      qed
    qed
  qed
qed

subsection \<open>Describing a dump\<close>

text \<open>A computation over a dump that returns, with a result that has a property.\<close>

definition safely :: "('r \<Rightarrow> bool) \<Rightarrow> (minidump \<Rightarrow> ('r \<times> minidump) run) \<Rightarrow> bool" where
  "safely P f = (\<forall>d. dump_sane d \<longrightarrow> (\<exists>r d'. f d = Some (r, d') \<and> dump_sane d' \<and> P r))"

lemma safelyD:
  assumes "safely P f" and "dump_sane d"
  obtains r d' where "f d = Some (r, d')" and "dump_sane d'" and "P r"
  using assms unfolding safely_def by blast

named_theorems safely_intros \<open>computations over a dump that return\<close>

lemma safely_return: "P r \<Longrightarrow> safely P (\<lambda>d. Some (r, d))"
  by (simp add: safely_def)

lemma safely_returns [safely_intros]: "safely (\<lambda>_. True) (\<lambda>d. Some (r d, d))"
  by (simp add: safely_def)

lemma safely_bind:
  assumes "safely P f" and "\<And>x. P x \<Longrightarrow> safely Q (g x)"
  shows "safely Q (\<lambda>d. f d \<bind> (\<lambda>(x, d). g x d))"
  unfolding safely_def
proof (intro allI impI)
  fix d assume "dump_sane d"
  with assms(1) obtain x d1 where x: "f d = Some (x, d1)" "dump_sane d1" "P x" by (rule safelyD)
  from safelyD [OF assms(2) [OF x(3)] x(2)] obtain y d2 where "g x d1 = Some (y, d2)" "dump_sane d2" "Q y" by blast
  with x show "\<exists>r d'. f d \<bind> (\<lambda>(x, d). g x d) = Some (r, d') \<and> dump_sane d' \<and> Q r" by simp
qed

lemma safely_then [safely_intros]:
  "safely (\<lambda>_. True) f \<Longrightarrow> (\<And>x. safely Q (g x)) \<Longrightarrow> safely Q (\<lambda>d. f d \<bind> (\<lambda>(x, d). g x d))"
  by (rule safely_bind)

lemma safely_weaken: "safely P f \<Longrightarrow> (\<And>r. P r \<Longrightarrow> Q r) \<Longrightarrow> safely Q f"
  unfolding safely_def by blast

lemma safely_option [safely_intros]:
  "safely P g \<Longrightarrow> (\<And>x. safely P (f x)) \<Longrightarrow> safely P (\<lambda>d. case e of None \<Rightarrow> g d | Some x \<Rightarrow> f x d)"
  by (cases e) simp_all

lemma safely_prod [safely_intros]:
  "(\<And>x y. safely P (f x y)) \<Longrightarrow> safely P (case p of (x, y) \<Rightarrow> f x y)"
  by (cases p) simp

lemma safely_system:
  "(\<And>d. streams_typed d \<Longrightarrow> \<exists>r d'. f d = Some (r, d') \<and> system_extends d d') \<Longrightarrow> safely (\<lambda>_. True) f"
  unfolding safely_def using dump_sane_system by (metis dump_sane_def)

context typed_stream
begin

lemma get_safely:
  assumes "reader_local read_stream" and "reader_sane read_stream"
  shows "safely (\<lambda>r. \<forall>x. r = Some x \<longrightarrow> stream_sane (wrap x)) get_stream"
  unfolding safely_def
proof (intro allI impI)
  fix d assume "dump_sane d"
  with GetStream_sane [OF reader assms] obtain result d' where run: "GetStream stream_type read_stream d = Some (result, d')"
    "dump_sane d'" "\<forall>st. result = Some st \<longrightarrow> stream_class st = stream_type \<and> stream_sane st" by blast
  show "\<exists>r d'. get_stream d = Some (r, d') \<and> dump_sane d' \<and> (\<forall>x. r = Some x \<longrightarrow> stream_sane (wrap x))"
  proof (cases result)
    case None
    with run get_None show ?thesis by blast
  next
    case (Some st)
    with run(3) class_wrap obtain x where "st = wrap x" by blast
    with run Some get_Some show ?thesis by blast
  qed
qed

lemma get_safely_class:
  assumes "reader_local read_stream"
    and "stream_type \<notin> {MD_THREAD_LIST_STREAM, MD_MODULE_LIST_STREAM, MD_MEMORY_LIST_STREAM, MD_EXCEPTION_STREAM}"
  shows "safely (\<lambda>_. True) get_stream"
  using get_safely [OF assms(1) reader_sane_class [OF reader assms(2)]] by (rule safely_weaken) simp

end

lemma getters_safely [safely_intros]:
  "safely (\<lambda>_. True) GetAssertion" "safely (\<lambda>_. True) GetMiscInfo" "safely (\<lambda>_. True) GetUnloadedModuleList"
  "safely (\<lambda>_. True) GetBreakpadInfo" "safely (\<lambda>_. True) GetSystemInfo"
  by (rule assertion.get_safely_class misc_info.get_safely_class unloaded_module_list.get_safely_class
      breakpad_info.get_safely_class system_info.get_safely_class; simp add: reader_locals stream_types)+

lemma GetModuleList_safely: "safely (\<lambda>r. \<forall>l. r = Some l \<longrightarrow> module_list_ok l) GetModuleList"
  using module_list.get_safely [OF reader_locals(3) readers_sane(1)] by (simp add: stream_sane_def)

lemma GetMemoryList_safely: "safely (\<lambda>r. \<forall>l. r = Some l \<longrightarrow> regions_sane l) GetMemoryList"
  using memory_list.get_safely [OF reader_locals(5) readers_sane(2)] by (simp add: stream_sane_def)

lemma GetException_safely: "safely (\<lambda>r. \<forall>e. r = Some e \<longrightarrow> exception_sane e) GetException"
  using exception.get_safely [OF reader_locals(6) readers_sane(3)] by (simp add: stream_sane_def)

lemma GetException_returns [safely_intros]: "safely (\<lambda>_. True) GetException"
  using GetException_safely by (rule safely_weaken) simp

lemma GetThreadList_safely:
  "safely (\<lambda>r. \<forall>l. r = Some l \<longrightarrow> thread_list_ok l \<and> (\<forall>t\<in>set (tl_threads l). thread_sane t)) GetThreadList"
  using thread_list.get_safely [OF ThreadList_Read_local ThreadList_Read_sane] by (simp add: stream_sane_def)

lemma GetCSDVersion_safely [safely_intros]: "safely (\<lambda>_. True) (\<lambda>d. Some (GetCSDVersion raw d))"
proof (rule safely_system)
  fix d
  obtain r d' where "GetCSDVersion raw d = (r, d')" by fastforce
  then show "\<exists>r d'. Some (GetCSDVersion raw d) = Some (r, d') \<and> system_extends d d'"
    using ReadString_system by (simp add: GetCSDVersion_def)
qed

lemma UnloadedModuleList_Copy_safely [safely_intros]: "safely (\<lambda>_. True) (UnloadedModuleList_Copy l)"
  by (rule safely_system, erule UnloadedModuleList_Copy_run)

lemma description_safely [safely_intros]:
  "safely (\<lambda>_. True) GetProcessCreateTime" "safely (\<lambda>_. True) (GetCPUInfo info)"
  "safely (\<lambda>_. True) (GetOSInfo info)" "safely (\<lambda>_. True) (GetCrashReason address)"
  "safely (\<lambda>_. True) Processor_GetAssertion"
  unfolding GetProcessCreateTime_def GetCPUInfo_def GetOSInfo_def GetCrashReason_def Processor_GetAssertion_def
  by (intro safely_intros)+

text \<open>A copied list of modules has a highest module, or none.\<close>

definition modules_sane :: "basic_code_modules option \<Rightarrow> bool" where
  "modules_sane modules = (\<exists>high. highest_module modules = Some high)"

lemma modules_sane_None: "modules_sane None"
  by (simp add: modules_sane_def highest_module_def)

lemma ModuleList_Copy_safely:
  assumes "module_list_ok l"
  shows "safely (\<lambda>copy. modules_sane (Some copy)) (ModuleList_Copy l)"
  unfolding safely_def
proof (intro allI impI)
  fix d assume d: "dump_sane d"
  then have typed: "streams_typed d" by (simp add: dump_sane_def)
  obtain cs d1 where cs: "code_modules_of (ml_modules l) d = Some (cs, d1)" "length cs = length (ml_modules l)"
    using code_modules_of_run [OF typed] by blast
  obtain copy d' where copy: "ModuleList_Copy l d = Some (copy, d')" "system_extends d d'"
    using ModuleList_Copy_run [OF typed] by blast
  with cs obtain main where "BasicCodeModules cs main (merge_strategy (ml_range_map l)) = Some copy"
    by (auto simp: ModuleList_Copy_def split: bind_splits)
  moreover have "length cs < 2 ^ 31" using assms cs(2) by (simp add: module_list_ok_def max_modules_def)
  ultimately have "modules_sane (Some copy)" unfolding modules_sane_def by (rule highest_module_copied)
  with copy dump_sane_system [OF d]
  show "\<exists>r d'. ModuleList_Copy l d = Some (r, d') \<and> dump_sane d' \<and> modules_sane (Some r)" by blast
qed

text \<open>What the loop over the threads relies on in the state.\<close>

definition state_ready :: "bool \<Rightarrow> ProcessState \<Rightarrow> bool" where
  "state_ready has_exception ps = ((ps_crashed ps \<longrightarrow> has_exception) \<and> modules_sane (ps_modules ps))"

lemma process_exception_safely:
  assumes "\<not> ps_crashed ps" and "modules_sane (ps_modules ps)"
  shows "safely (state_ready (exception \<noteq> None)) (process_exception exception ps)"
proof (cases exception)
  case None
  then have "process_exception exception ps = (\<lambda>d. Some (ps, d))" by (simp add: process_exception_def fun_eq_iff)
  with assms show ?thesis by (simp add: safely_return state_ready_def)
next
  case (Some e)
  have "safely (state_ready True) (\<lambda>d. GetCrashReason (ps_crash_address ps) d \<bind> (\<lambda>((reason, address), d).
      Some (ps\<lparr>ps_crashed := True, ps_crash_reason := reason, ps_crash_address := address,
        ps_exception_record := record_exception (exception_record (me_exception e)) address (ps_exception_record ps)\<rparr>, d)))"
    using assms(2)
    by (intro safely_then description_safely safely_prod safely_return) (simp add: state_ready_def)
  moreover have "process_exception exception ps = (\<lambda>d. GetCrashReason (ps_crash_address ps) d \<bind> (\<lambda>((reason, address), d).
      Some (ps\<lparr>ps_crashed := True, ps_crash_reason := reason, ps_crash_address := address,
        ps_exception_record := record_exception (exception_record (me_exception e)) address (ps_exception_record ps)\<rparr>, d)))"
    using Some by (simp add: process_exception_def fun_eq_iff)
  ultimately show ?thesis using Some by simp
qed

lemma process_modules_safely:
  assumes "state_ready b ps"
  shows "safely (state_ready b) (process_modules ps)"
  unfolding process_modules_def
proof (rule safely_bind [OF GetModuleList_safely])
  fix r assume r: "\<forall>l. r = Some l \<longrightarrow> module_list_ok l"
  show "safely (state_ready b) (\<lambda>d. case r of None \<Rightarrow> Some (ps, d)
      | Some l \<Rightarrow> ModuleList_Copy l d \<bind> (\<lambda>(copy, d).
          Some (ps\<lparr>ps_modules := Some copy, ps_shrunk_range_modules := shrunk_range_modules copy\<rparr>, d)))"
  proof (cases r)
    case None
    with assms show ?thesis by (simp add: safely_return)
  next
    case (Some l)
    have "safely (state_ready b) (\<lambda>d. ModuleList_Copy l d \<bind> (\<lambda>(copy, d).
        Some (ps\<lparr>ps_modules := Some copy, ps_shrunk_range_modules := shrunk_range_modules copy\<rparr>, d)))"
      using r Some assms
      by (intro safely_bind [OF ModuleList_Copy_safely] safely_return) (auto simp: state_ready_def)
    with Some show ?thesis by simp
  qed
qed

lemma process_unloaded_modules_safely:
  assumes "state_ready b ps"
  shows "safely (state_ready b) (process_unloaded_modules ps)"
  unfolding process_unloaded_modules_def
  using assms
  by (intro safely_then getters_safely safely_option UnloadedModuleList_Copy_safely safely_return)
    (simp_all add: state_ready_def)

definition described :: "thread_roles \<times> MinidumpException option \<times> MinidumpMemoryList option \<times> ProcessState \<Rightarrow> bool" where
  "described = (\<lambda>(roles, exception, memory_list, ps).
     state_ready (exception \<noteq> None) ps \<and> (\<forall>e. exception = Some e \<longrightarrow> exception_sane e) \<and>
     (\<forall>l. memory_list = Some l \<longrightarrow> regions_sane l))"

lemma process_description_safely:
  assumes "\<not> ps_crashed ps" and "modules_sane (ps_modules ps)"
  shows "safely described (process_description header ps)"
  unfolding safely_def
proof (intro allI impI)
  fix d assume d: "dump_sane d"
  obtain created d1 where d1: "GetProcessCreateTime d = Some (created, d1)" "dump_sane d1"
    by (rule safelyD [OF description_safely(1) d])
  obtain cpu d2 where d2: "GetCPUInfo (ps_system_info ps) d1 = Some (cpu, d2)" "dump_sane d2"
    by (rule safelyD [OF description_safely(2) d1(2)])
  obtain os d3 where d3: "GetOSInfo (snd cpu) d2 = Some (os, d3)" "dump_sane d3"
    by (rule safelyD [OF description_safely(3) d2(2)])
  obtain info d4 where d4: "GetBreakpadInfo d3 = Some (info, d4)" "dump_sane d4"
    by (rule safelyD [OF getters_safely(4) d3(2)])
  obtain exception d5 where d5: "GetException d4 = Some (exception, d5)" "dump_sane d5"
    "\<forall>e. exception = Some e \<longrightarrow> exception_sane e"
    by (rule safelyD [OF GetException_safely d4(2)])
  let ?ps = "ps\<lparr>ps_time_date_stamp := h_time_date_stamp header, ps_process_create_time := snd created,
    ps_system_info := snd os\<rparr>"
  have "\<not> ps_crashed ?ps" "modules_sane (ps_modules ?ps)" using assms by simp_all
  from safelyD [OF process_exception_safely [OF this] d5(2)] obtain ps1 d6 where
    d6: "process_exception exception ?ps d5 = Some (ps1, d6)" "dump_sane d6" "state_ready (exception \<noteq> None) ps1" by blast
  obtain assertion d7 where d7: "Processor_GetAssertion d6 = Some (assertion, d7)" "dump_sane d7"
    by (rule safelyD [OF description_safely(5) d6(2)])
  have "state_ready (exception \<noteq> None) (ps1\<lparr>ps_assertion := assertion\<rparr>)" using d6(3) by (simp add: state_ready_def)
  from safelyD [OF process_modules_safely [OF this] d7(2)] obtain ps2 d8 where
    d8: "process_modules (ps1\<lparr>ps_assertion := assertion\<rparr>) d7 = Some (ps2, d8)" "dump_sane d8"
      "state_ready (exception \<noteq> None) ps2" by blast
  from safelyD [OF process_unloaded_modules_safely [OF d8(3)] d8(2)] obtain ps3 d9 where
    d9: "process_unloaded_modules ps2 d8 = Some (ps3, d9)" "dump_sane d9" "state_ready (exception \<noteq> None) ps3" by blast
  obtain memory_list d10 where d10: "GetMemoryList d9 = Some (memory_list, d10)" "dump_sane d10"
    "\<forall>l. memory_list = Some l \<longrightarrow> regions_sane l"
    by (rule safelyD [OF GetMemoryList_safely d9(2)])
  have "process_description header ps d = Some ((process_roles info exception, exception, memory_list, ps3), d10)"
    using d1(1) d2(1) d3(1) d4(1) d5(1) d6(1) d7(1) d8(1) d9(1) d10(1)
    by (simp add: process_description_def case_prod_unfold)
  with d5(3) d9(3) d10(2,3)
  show "\<exists>r d'. process_description header ps d = Some (r, d') \<and> dump_sane d' \<and> described r"
    by (simp add: described_def)
qed

subsection \<open>The loop over the threads\<close>

lemma context_read_returns:
  assumes "streams_typed d"
  shows "\<exists>result d'. read_context_at location d = Some (result, d') \<and> streams_typed d' \<and>
    (\<forall>dc. result = Some dc \<longrightarrow> context_good dc)"
proof -
  obtain ok d1 where seek: "SeekSet (unat (loc_rva location)) d = (ok, d1)" by fastforce
  have typed: "streams_typed d1" using dump_extends_typed [OF SeekSet_extends [OF seek] assms] .
  obtain result d2 where "MinidumpContext_Read (loc_size location) d1 = Some (result, d2)" "dump_extends d1 d2"
    "\<forall>dc. result = Some dc \<longrightarrow> context_good dc"
    using MinidumpContext_Read_run [OF typed, of "loc_size location"] unfolding context_good_def by blast
  with seek typed dump_extends_typed [OF _ typed] show ?thesis
    by (cases ok) (auto simp: read_context_at_def)
qed

lemma Thread_GetContext_returns:
  assumes "streams_typed d" and "thread_sane t"
  shows "\<exists>ctx t' d'. Thread_GetContext t d = Some (ctx, t', d') \<and> streams_typed d' \<and> thread_sane t' \<and>
    (\<forall>dc. ctx = Some dc \<longrightarrow> context_good dc)"
  using context_read_returns [OF assms(1), of "thread_context (mt_thread t)"] assms
  by (cases "mt_context t") (auto simp: Thread_GetContext_def thread_sane_def)

lemma Exception_GetContext_returns:
  assumes "streams_typed d" and "exception_sane e"
  shows "\<exists>ctx e' d'. Exception_GetContext e d = Some (ctx, e', d') \<and> streams_typed d' \<and> exception_sane e' \<and>
    (\<forall>dc. ctx = Some dc \<longrightarrow> context_good dc)"
  using context_read_returns [OF assms(1), of "exception_context (me_exception e)"] assms
  by (cases "me_context e") (auto simp: Exception_GetContext_def exception_sane_def)

lemma thread_memory_sane:
  assumes "thread_sane t" and "\<forall>l. memory_list = Some l \<longrightarrow> regions_sane l" and "thread_memory t memory_list = Some r"
  shows "region_sane r"
proof (cases "Thread_GetMemory t")
  case (Some region)
  with assms show ?thesis by (auto simp: thread_memory_def thread_sane_def Thread_GetMemory_def split: if_splits)
next
  case None
  with assms(3) obtain l where l: "memory_list = Some l"
    "GetMemoryRegionForAddress l (GetStartOfStackMemoryRange t) = Some r"
    by (auto simp: thread_memory_def split: option.splits if_splits)
  then obtain i where "\<not> yl_count l \<le> i" "r = yl_regions l ! unat i"
    by (auto simp: GetMemoryRegionForAddress_def GetMemoryRegionAtIndex_def split: option.splits if_splits)
  with l(1) assms(2) show ?thesis by (auto simp: regions_sane_def word_le_nat_alt)
qed

lemma update_region_sane: "regions_sane l \<Longrightarrow> region_sane r \<Longrightarrow> regions_sane (update_region a r l)"
  by (auto simp: update_region_def regions_sane_def dest!: set_update_subset_insert [THEN subsetD] split: option.split)

lemma Region_GetMemory_typed:
  assumes "Region_GetMemory r d = (result, r', d')" and "streams_typed d"
  shows "streams_typed d'"
proof -
  obtain ok d1 where seek: "SeekSet (unat (loc_rva (memory_location (descriptor r)))) d = (ok, d1)" by fastforce
  obtain bytes d2 where read: "ReadBytes (unat (loc_size (memory_location (descriptor r)))) d1 = (bytes, d2)" by fastforce
  have "d' \<in> {d, d1, d2}"
    using assms(1) seek read
    by (cases ok; cases bytes) (auto simp: Region_GetMemory_def Let_def split: if_splits option.splits)
  with dump_extends_typed [OF SeekSet_extends [OF seek] assms(2)]
    dump_extends_typed [OF ReadBytes_extends [OF read] dump_extends_typed [OF SeekSet_extends [OF seek] assms(2)]] assms(2)
  show ?thesis by auto
qed

text \<open>The invariant of the loop.\<close>

definition progress_sane :: "walk_progress \<Rightarrow> bool" where
  "progress_sane p =
     (streams_typed (w_dump p) \<and> state_ready (w_exception p \<noteq> None) (w_state p) \<and>
      (\<forall>e. w_exception p = Some e \<longrightarrow> exception_sane e) \<and>
      (\<forall>l. w_memory_list p = Some l \<longrightarrow> regions_sane l) \<and> without_symbols (w_symbolizer p))"

lemma region_after_sane:
  assumes "progress_sane p" and "thread_sane t" and "region_after touched t p = (region, q)"
  shows "progress_sane q"
proof (cases "touched \<and> thread_memory t (w_memory_list p) \<noteq> None")
  case False
  with assms show ?thesis by (auto simp: region_after_def split: option.splits if_splits)
next
  case True
  then obtain r where r: "touched" "thread_memory t (w_memory_list p) = Some r" by auto
  obtain bytes r' d where memory: "Region_GetMemory r (w_dump p) = (bytes, r', d)" by (cases "Region_GetMemory r (w_dump p)")
  have "region_sane r"
    using thread_memory_sane [OF assms(2) _ r(2)] assms(1) by (simp add: progress_sane_def)
  then have "region_sane r'" by (rule region_sane_memory [OF memory])
  moreover have "streams_typed d"
    using Region_GetMemory_typed [OF memory] assms(1) by (simp add: progress_sane_def)
  ultimately show ?thesis
    using assms(1,3) r memory by (auto simp: region_after_def progress_sane_def update_region_sane split: if_splits)
qed

lemma push_stack_sane: "progress_sane p \<Longrightarrow> progress_sane (push_stack stk region p)"
  by (simp add: push_stack_def progress_sane_def state_ready_def)

lemma walk_thread_returns:
  assumes p: "progress_sane p" and t: "thread_sane t" and ctx: "\<And>dc. ctx = Some dc \<Longrightarrow> context_good dc"
  shows "\<exists>p'. walk_thread pr thread_id ctx t p = Some p' \<and> progress_sane p'"
proof -
  let ?memory = "map_option (\<lambda>r. walker_memory r (w_dump p)) (thread_memory t (w_memory_list p))"
  let ?ps = "w_state p"
  have "region_within ?memory"
    using thread_memory_sane [OF t] p walker_memory_within
    by (cases "thread_memory t (w_memory_list p)") (auto simp: progress_sane_def)
  moreover obtain high where "highest_module (ps_modules ?ps) = Some high"
    using p by (auto simp: progress_sane_def state_ready_def modules_sane_def)
  ultimately obtain walker where walker: "StackwalkerForCPU (pr_limits pr) (ps_system_info ?ps) ctx ?memory (ps_modules ?ps)
      (ps_unloaded_modules ?ps) = Some walker" "\<forall>w. walker = Some w \<longrightarrow> walker_ready w"
    using StackwalkerForCPU_returns [OF ctx] by blast
  show ?thesis
  proof (cases walker)
    case None
    with walker p show ?thesis by (simp add: walk_thread_def Let_def push_stack_sane)
  next
    case (Some w)
    have "without_symbols (w_symbolizer p)" using p by (simp add: progress_sane_def)
    with cpu_Walk_returns walker(2) Some obtain ok fs missing corrupt s where walk:
      "cpu_Walk w (ps_modules_without_symbols ?ps) (ps_modules_with_corrupt_symbols ?ps) (w_symbolizer p) =
         Some (ok, fs, missing, corrupt, s)" "without_symbols s"
      unfolding walk_returns_def by blast
    obtain region q where after: "region_after (pr_touches pr w (w_symbolizer p)) t p = (region, q)" by fastforce
    have q: "progress_sane q" by (rule region_after_sane [OF p t after])
    let ?q = "q\<lparr>w_symbolizer := s, w_interrupted := (w_interrupted q \<or> \<not> ok),
      w_state := ?ps\<lparr>ps_modules_without_symbols := missing, ps_modules_with_corrupt_symbols := corrupt\<rparr>\<rparr>"
    have "w_state q = ?ps" using region_after_state(1) [of "pr_touches pr w (w_symbolizer p)" t p] after by simp
    with q walk(2) have "progress_sane ?q" by (simp add: progress_sane_def state_ready_def)
    moreover have "walk_thread pr thread_id ctx t p =
        Some (push_stack \<lparr>stack_frames = Some fs, stack_tid = thread_id\<rparr> region ?q)"
      using walker(1) Some walk(1) after by (simp add: walk_thread_def Let_def)
    ultimately show ?thesis by (simp add: push_stack_sane)
  qed
qed

lemma requesting_context_returns:
  assumes p: "progress_sane p" and t: "thread_sane t" and ctx: "\<forall>dc. ctx = Some dc \<longrightarrow> context_good dc"
  shows "\<exists>ctx' t' p'. requesting_context ctx t p = Some (ctx', t', p') \<and> progress_sane p' \<and> thread_sane t' \<and>
    (\<forall>dc. ctx' = Some dc \<longrightarrow> context_good dc)"
proof -
  let ?p = "p\<lparr>w_state := (w_state p)\<lparr>ps_requesting_thread := int (length (ps_threads (w_state p)))\<rparr>,
    w_found_requesting_thread := True\<rparr>"
  have sane: "progress_sane (?p\<lparr>w_exception := Some e, w_dump := d\<rparr>)" if "exception_sane e" "streams_typed d" for e d
    using p that by (simp add: progress_sane_def state_ready_def)
  show ?thesis
  proof (cases "ps_crashed (w_state p)")
    case False
    moreover have "progress_sane ?p" using p by (simp add: progress_sane_def state_ready_def)
    ultimately show ?thesis using t ctx by (simp add: requesting_context_def Let_def)
  next
    case True
    with p obtain e where e: "w_exception p = Some e" "exception_sane e" "streams_typed (w_dump p)"
      by (auto simp: progress_sane_def state_ready_def)
    obtain c e' d where c: "Exception_GetContext e (w_dump p) = Some (c, e', d)" "streams_typed d" "exception_sane e'"
      "\<forall>dc. c = Some dc \<longrightarrow> context_good dc"
      using Exception_GetContext_returns [OF e(3,2)] by blast
    obtain c2 t' d2 where c2: "Thread_GetContext t d = Some (c2, t', d2)" "streams_typed d2" "thread_sane t'"
      "\<forall>dc. c2 = Some dc \<longrightarrow> context_good dc"
      using Thread_GetContext_returns [OF c(2) t] by blast
    show ?thesis
    proof (cases c)
      case None
      with True e(1) c c2 sane show ?thesis by (simp add: requesting_context_def Let_def)
    next
      case (Some dc)
      with True e(1) c sane t show ?thesis by (simp add: requesting_context_def Let_def)
    qed
  qed
qed

lemma process_thread_returns:
  assumes p: "progress_sane p" and t: "\<forall>t. thread = Some t \<longrightarrow> thread_sane t"
  shows "\<exists>result p'. process_thread pr roles thread p = Some (result, p') \<and> progress_sane p'"
proof (cases "thread = None \<or> GetThreadID (the thread) = None \<or> dump_thread roles = GetThreadID (the thread)")
  case True
  with p show ?thesis by (auto simp: process_thread_def split: option.split)
next
  case False
  then obtain t x where thread: "thread = Some t" "GetThreadID t = Some x" "dump_thread roles \<noteq> Some x" by auto
  have typed: "streams_typed (w_dump p)" using p by (simp add: progress_sane_def)
  obtain ctx t1 d where ctx: "Thread_GetContext t (w_dump p) = Some (ctx, t1, d)" "streams_typed d" "thread_sane t1"
    "\<forall>dc. ctx = Some dc \<longrightarrow> context_good dc"
    using Thread_GetContext_returns [OF typed] t thread(1) by blast
  let ?p = "p\<lparr>w_dump := d\<rparr>"
  have p1: "progress_sane ?p" using p ctx(2) by (simp add: progress_sane_def)
  obtain p2 where p2: "walk_thread pr x ctx t1 ?p = Some p2" "progress_sane p2"
    using walk_thread_returns [OF p1 ctx(3)] ctx(4) by blast
  obtain ctx3 t3 p3 where p3: "requesting_context ctx t1 ?p = Some (ctx3, t3, p3)" "progress_sane p3" "thread_sane t3"
    "\<forall>dc. ctx3 = Some dc \<longrightarrow> context_good dc"
    using requesting_context_returns [OF p1 ctx(3,4)] by blast
  obtain p4 where p4: "walk_thread pr x ctx3 t3 p3 = Some p4" "progress_sane p4"
    using walk_thread_returns [OF p3(2,3)] p3(4) by blast
  show ?thesis
    using thread ctx(1) p1 p2 p3(1) p4
    by (cases "requesting_thread roles = Some x"; cases "w_found_requesting_thread p")
      (simp_all add: process_thread_def Let_def)
qed

lemma process_threads_return:
  assumes "thread_list_ok l" and "\<forall>t\<in>set (tl_threads l). thread_sane t" and "progress_sane p"
  shows "\<exists>result p'. process_threads pr roles l n i p = Some (result, p') \<and> progress_sane p'"
  using assms(3)
proof (induction n arbitrary: i p)
  case (Suc n)
  have "\<forall>t. GetThreadAtIndex l i = Some t \<longrightarrow> thread_sane t"
    using assms(1,2)
    by (auto simp: GetThreadAtIndex_def thread_list_ok_def max_threads_def word_le_nat_alt unat_of_nat split: if_splits)
  from process_thread_returns [OF Suc.prems this] obtain result q where
    q: "process_thread pr roles (GetThreadAtIndex l i) p = Some (result, q)" "progress_sane q" by blast
  with Suc.IH [OF q(2)] show ?case by (cases result) simp_all
qed simp

subsection \<open>Processing returns\<close>

lemma Process_ends:
  assumes d: "dump_sane d" and s: "without_symbols s"
  shows "\<exists>result ps' s' d'. Process pr d ps s = Some (result, ps', s', d') \<and> without_symbols s'"
proof (cases "dump_header d")
  case None
  with s show ?thesis by (simp add: Process_def)
next
  case (Some header)
  have "\<not> ps_crashed (ProcessState_Clear ps)" "modules_sane (ps_modules (ProcessState_Clear ps))"
    by (simp_all add: ProcessState_Clear_def modules_sane_None)
  from safelyD [OF process_description_safely [OF this] d] obtain roles exception memory_list ps1 d1 where
    description: "process_description header (ProcessState_Clear ps) d = Some ((roles, exception, memory_list, ps1), d1)"
      "dump_sane d1" "described (roles, exception, memory_list, ps1)" by (metis prod_cases4)
  obtain threads d2 where threads: "GetThreadList d1 = Some (threads, d2)" "dump_sane d2"
    "\<forall>l. threads = Some l \<longrightarrow> thread_list_ok l \<and> (\<forall>t\<in>set (tl_threads l). thread_sane t)"
    by (rule safelyD [OF GetThreadList_safely description(2)])
  show ?thesis
  proof (cases threads)
    case None
    with Some description threads s show ?thesis by (simp add: Process_def)
  next
    case l: (Some l)
    let ?p = "\<lparr>w_dump = d2, w_memory_list = memory_list, w_exception = exception,
      w_symbolizer = symbolizer_Reset s, w_state = ps1, w_found_requesting_thread = False, w_interrupted = False\<rparr>"
    have "progress_sane ?p"
      using description(3) threads(2) s
      by (simp add: progress_sane_def described_def dump_sane_def without_symbols_Reset)
    with process_threads_return threads(3) l obtain result p where
      p: "process_threads pr roles l (unat (thread_count l)) 0 ?p = Some (result, p)" "progress_sane p" by blast
    show ?thesis
      using Some description(1) threads(1) l p
      by (cases result) (auto simp: Process_def progress_sane_def split: prod.split)
  qed
qed

text \<open>A dump that was just opened keeps no stream.\<close>

lemma add_streams_uncached:
  "add_streams i entries m = (ok, m') \<Longrightarrow> \<forall>t info. map_of m t = Some info \<longrightarrow> cached_stream info = None \<Longrightarrow>
     \<forall>t info. map_of m' t = Some info \<longrightarrow> cached_stream info = None"
proof (induction entries arbitrary: i m)
  case (Cons entry entries)
  let ?t = "dir_stream_type entry"
  show ?case
  proof (cases "?t \<in> set unique_stream_types \<and> map_of m ?t \<noteq> None")
    case True
    with Cons.prems show ?thesis by (simp add: Let_def)
  next
    case False
    let ?m = "smap_put ?t \<lparr>stream_index = of_nat i,
      cached_stream = (case map_of m ?t of None \<Rightarrow> None | Some info \<Rightarrow> cached_stream info)\<rparr> m"
    from False Cons.prems(1) have rest: "add_streams (i + 1) entries ?m = (ok, m')" by (auto simp: Let_def split: if_splits)
    have "\<forall>t info. map_of ?m t = Some info \<longrightarrow> cached_stream info = None"
      using Cons.prems(2) by (auto split: option.splits)
    from Cons.IH [OF rest this] show ?thesis .
  qed
qed simp

lemma Minidump_Read_fresh:
  assumes "Minidump_Read file_system d = (True, d')"
  shows "md_valid d' \<and> kept_stream d' t = None"
proof -
  let ?d = "d\<lparr>md_directory := [], md_stream_map := [], md_valid := False\<rparr>"
  obtain ok1 d1 where open1: "Minidump_Open file_system ?d = (ok1, d1)" by fastforce
  obtain ok2 d2 where header: "read_header d1 = (ok2, d2)" by fastforce
  obtain ok3 d3 where seek: "SeekSet (unat (stream_directory_rva (md_header d2))) d2 = (ok3, d3)" by fastforce
  obtain ok4 d4 where directory: "read_directory d3 = (ok4, d4)" by fastforce
  have d': "d' = d4\<lparr>md_valid := True\<rparr>" and ok: "ok4"
    using assms open1 header seek directory by (auto simp: Minidump_Read_def Let_def split: if_splits bool.splits)
  have "md_stream_map d1 = []"
    using open1 by (auto simp: Minidump_Open_def SeekSet_def Let_def split: option.splits if_splits)
  moreover have "md_stream_map d2 = md_stream_map d1"
    using header by (auto simp: read_header_def Let_def dest!: ReadBytes_map split: prod.splits option.splits if_splits)
  moreover have "md_stream_map d3 = md_stream_map d2"
    using file_map [OF SeekSet_file [OF seek]] .
  ultimately have d3: "md_stream_map d3 = []" by simp
  obtain bytes d5 where bytes: "ReadBytes (12 * unat (stream_count (md_header d3))) d3 = (bytes, d5)" by fastforce
  have "\<forall>t info. map_of (md_stream_map d4) t = Some info \<longrightarrow> cached_stream info = None"
  proof (cases "unat (stream_count (md_header d3)) = 0")
    case True
    with directory d3 show ?thesis by (simp add: read_directory_def)
  next
    case False
    with directory bytes ok obtain contents entries m where "bytes = Some contents"
      "add_streams 0 entries (md_stream_map d5) = (True, m)" "md_stream_map d4 = m"
      by (auto simp: read_directory_def Let_def split: option.splits prod.splits if_splits)
    with add_streams_uncached [of 0 entries "md_stream_map d5" True m] ReadBytes_map [OF bytes] d3 show ?thesis by simp
  qed
  then show ?thesis by (auto simp: d' kept_stream_def split: option.split)
qed

lemma opened_sane: "(\<And>t. kept_stream d t = None) \<Longrightarrow> dump_sane d"
  by (simp add: dump_sane_def streams_typed_def)

text \<open>
  C39: Processing a file returns, for every file system, file and processor, and whatever the
  file holds, when there are no symbols: no walk and no reader goes on forever or reads what is
  not there.  The result is one of four; what was found is limited: the threads have different
  identifiers and are no more than a list may hold, the stack of each rises and is limited, and
  the requesting thread is one of them or - 1.
\<close>

theorem Process_file_returns:
  assumes "without_symbols s"
  shows "\<exists>result ps' s'. Process_file file_system pr path ps s = Some (result, ps', s') \<and> without_symbols s' \<and>
    result \<in> {PROCESS_OK, PROCESS_ERROR_MINIDUMP_NOT_FOUND, PROCESS_ERROR_NO_THREAD_LIST,
      PROCESS_SYMBOL_SUPPLIER_INTERRUPTED} \<and>
    (result \<in> {PROCESS_OK, PROCESS_SYMBOL_SUPPLIER_INTERRUPTED} \<longrightarrow>
       length (ps_threads ps') \<le> max_threads \<and> distinct (map stack_tid (ps_threads ps')) \<and>
       (\<forall>stk\<in>set (ps_threads ps'). stack_limited pr stk) \<and>
       - 1 \<le> ps_requesting_thread ps' \<and> ps_requesting_thread ps' < int (length (ps_threads ps')))"
proof -
  obtain ok d where read: "Minidump_Read file_system (new_Minidump path None) = (ok, d)" by fastforce
  show ?thesis
  proof (cases ok)
    case False
    with read assms show ?thesis by (simp add: Process_file_def)
  next
    case True
    with read have "Minidump_Read file_system (new_Minidump path None) = (True, d)" by simp
    note fresh_both = Minidump_Read_fresh [OF this]
    have fresh: "md_valid d" "\<And>t. kept_stream d t = None" using fresh_both by simp_all
    then have sane: "dump_sane d" by (intro opened_sane)
    obtain result ps' s' d' where run: "Process pr d ps s = Some (result, ps', s', d')" "without_symbols s'"
      using Process_ends [OF sane assms] by blast
    have whole: "Process_file file_system pr path ps s = Some (result, ps', s')"
      using read True run(1) by (simp add: Process_file_def)
    have header: "dump_header d \<noteq> None" using fresh(1) by (simp add: dump_header_def)
    have typed: "streams_typed d" using sane by (simp add: dump_sane_def)
    show ?thesis
    proof (cases "result = PROCESS_ERROR_NO_THREAD_LIST")
      case True
      with whole run(2) show ?thesis by simp
    next
      case False
      with header Process_outcome [OF run(1) typed fresh(2)] obtain roles l where
        result: "result \<in> {PROCESS_OK, PROCESS_SYMBOL_SUPPLIER_INTERRUPTED}" and l: "thread_list_ok l"
        and processed: "threads_processed pr roles (map thread_id_of (tl_threads l)) ps ps'" by auto
      let ?ids = "map thread_id_of (tl_threads l)"
      have tids: "map stack_tid (ps_threads ps') = filter (\<lambda>x. dump_thread roles \<noteq> Some x) ?ids"
        using processed by (simp add: threads_processed_def)
      have "length (ps_threads ps') = length (filter (\<lambda>x. dump_thread roles \<noteq> Some x) ?ids)"
        unfolding tids [symmetric] by simp
      then have "length (ps_threads ps') \<le> length ?ids" by (simp only: length_filter_le)
      moreover have "length ?ids \<le> max_threads" using l by (simp add: thread_list_ok_def)
      moreover have "distinct (map stack_tid (ps_threads ps'))"
        unfolding tids using l by (intro distinct_filter) (simp add: thread_list_ok_def)
      moreover note position_of_lookup [of "requesting_thread roles" "map stack_tid (ps_threads ps')"]
      ultimately show ?thesis
        using whole run(2) result processed by (auto simp: threads_processed_def)
    qed
  qed
qed

text \<open>A file with a header and a directory of two streams that lie beyond its end.\<close>

theorem Process_file_returns_witness:
  "\<exists>result ps' s'. Process_file (\<lambda>_. Some (sample_file [])) sample_processor ''a.dmp'' sample_state no_symbols =
       Some (result, ps', s') \<and>
     result \<in> {PROCESS_OK, PROCESS_ERROR_MINIDUMP_NOT_FOUND, PROCESS_ERROR_NO_THREAD_LIST,
       PROCESS_SYMBOL_SUPPLIER_INTERRUPTED}"
proof -
  have "without_symbols no_symbols" by (simp add: without_symbols_def)
  from Process_file_returns [OF this, of "\<lambda>_. Some (sample_file [])" sample_processor "''a.dmp''" sample_state]
  show ?thesis by blast
qed

end
