(* ===== verification/Module_Writer.thy ===== *)
theory Module_Writer
  imports Symbol_File "HOL-Library.Product_Lexorder"
begin

text \<open>
  \<open>google_breakpad::Module\<close> of the symbol dumpers (\<open>common/module.h\<close>,
  \<open>common/module.cc\<close>): the functions, files, public symbols and call frame entries that a
  dumper collected, and \<open>Write\<close>, which prints them as a symbol file.  At the end both sides of
  the format meet: what \<open>Write\<close> prints is loaded by the resolver.

  A \<open>File\<close> is owned by its module and unique by its name, so a pointer to it is its name, the key
  in \<open>files_\<close>.  The record of the class has the prefix \<open>sm\<close>, since the resolver has a
  \<open>Module\<close> of its own.
\<close>

subsection \<open>The output stream\<close>

text \<open>
  An \<open>std::ostream\<close> stops to take characters at some point that depends on what lies behind it;
  then it is not good any more and drops everything.
\<close>

record ostream =
  written :: string
  accepts :: "string \<Rightarrow> bool"
  broken :: bool

definition put :: "string \<Rightarrow> ostream \<Rightarrow> ostream" where
  "put s out =
     (if broken out then out
      else if accepts out (written out @ s) then out\<lparr>written := written out @ s\<rparr>
      else out\<lparr>broken := True\<rparr>)"

fun puts :: "string list \<Rightarrow> ostream \<Rightarrow> ostream" where
  "puts [] out = out"
| "puts (s # ss) out = puts ss (put s out)"

abbreviation good :: "ostream \<Rightarrow> bool" where "good out \<equiv> \<not> broken out"

text \<open>Statements that may leave a writing function with \<open>false\<close>, one after the other.\<close>

definition and_then :: "bool \<times> ostream \<Rightarrow> (ostream \<Rightarrow> bool \<times> ostream) \<Rightarrow> bool \<times> ostream" where
  "and_then r f = (case r of (ok, out) \<Rightarrow> if ok then f out else (False, out))"

text \<open>A statement with the test \<open>if (!stream.good()) return ReportError()\<close> behind it.\<close>

definition puts_checked :: "string list \<Rightarrow> ostream \<Rightarrow> bool \<times> ostream" where
  "puts_checked ss out = (let out = puts ss out in (good out, out))"

text \<open>How a stream prints an \<open>int\<close>.\<close>

definition int_text :: "int \<Rightarrow> string" where
  "int_text n = (if n < 0 then CHR ''-'' # digits_of 10 (nat (- n)) else digits_of 10 (nat n))"

abbreviation newline_text :: string where "newline_text \<equiv> [CHR 0x0A]"

subsection \<open>The data of a module\<close>

record Module_Range =
  mr_address :: u64
  mr_size :: u64

record Module_Line =
  ml_address :: u64
  ml_size :: u64
  ml_file :: string
  ml_number :: int

record Module_Function =
  mf_name :: string
  mf_address :: u64
  mf_ranges :: "Module_Range list"
  mf_parameter_size :: u64
  mf_lines :: "Module_Line list"

type_synonym RuleMap = "(string, string) smap"

record StackFrameEntry =
  se_address :: u64
  se_size :: u64
  se_initial_rules :: RuleMap
  se_rule_changes :: "(u64, RuleMap) smap"

text \<open>
  \<open>FunctionCompare\<close> orders functions by address and then by name, \<open>ExternCompare\<close> orders
  public symbols by address; the sets are maps from what is compared.  \<open>sm_files\<close> is
  \<open>files_\<close> with the \<open>source_id\<close> of each file.
\<close>

record SymbolModule =
  sm_name :: string
  sm_os :: string
  sm_architecture :: string
  sm_id :: string
  sm_code_id :: string
  sm_load_address :: u64
  sm_address_ranges :: "Module_Range list"
  sm_files :: "(string, int) smap"
  sm_functions :: "(u64 \<times> string, Module_Function) smap"
  sm_externs :: "(u64, string) smap"
  sm_stack_frame_entries :: "StackFrameEntry list"

definition new_SymbolModule :: "string \<Rightarrow> string \<Rightarrow> string \<Rightarrow> string \<Rightarrow> string \<Rightarrow> SymbolModule" where
  "new_SymbolModule nam os architecture ident code_id = \<lparr>sm_name = nam, sm_os = os, sm_architecture = architecture,
     sm_id = ident, sm_code_id = code_id, sm_load_address = 0, sm_address_ranges = [], sm_files = [], sm_functions = [],
     sm_externs = [], sm_stack_frame_entries = []\<rparr>"

definition SetLoadAddress :: "u64 \<Rightarrow> SymbolModule \<Rightarrow> SymbolModule" where
  "SetLoadAddress address m = m\<lparr>sm_load_address := address\<rparr>"

definition SetAddressRanges :: "Module_Range list \<Rightarrow> SymbolModule \<Rightarrow> SymbolModule" where
  "SetAddressRanges ranges m = m\<lparr>sm_address_ranges := ranges\<rparr>"

definition in_range :: "Module_Range \<Rightarrow> u64 \<Rightarrow> bool" where
  "in_range r address = (mr_address r \<le> address \<and> address < mr_address r + mr_size r)"

definition AddressIsInModule :: "SymbolModule \<Rightarrow> u64 \<Rightarrow> bool" where
  "AddressIsInModule m address =
     (sm_address_ranges m = [] \<or> list_ex (\<lambda>segment. in_range segment address) (sm_address_ranges m))"

subsection \<open>Adding to a module\<close>

text \<open>
  A function takes the place of a public symbol at its address, or, on ARM, of one at the address
  with the lowest bit set.  \<open>None\<close> is the failed assertion for an empty name.  The checks under
  \<open>_DEBUG\<close> are not built.
\<close>

definition extern_of_function :: "SymbolModule \<Rightarrow> u64 \<Rightarrow> u64 option" where
  "extern_of_function m address =
     (if map_of (sm_externs m) address \<noteq> None then Some address
      else if sm_architecture m = ''arm'' \<and> address AND 1 = 0 \<and> map_of (sm_externs m) (address OR 1) \<noteq> None
      then Some (address OR 1)
      else None)"

definition erase_extern :: "u64 option \<Rightarrow> (u64, string) smap \<Rightarrow> (u64, string) smap" where
  "erase_extern k externs = filter (\<lambda>e. Some (fst e) \<noteq> k) externs"

definition AddFunction :: "Module_Function \<Rightarrow> SymbolModule \<Rightarrow> SymbolModule run" where
  "AddFunction f m =
     (if mf_name f = [] then None
      else if \<not> AddressIsInModule m (mf_address f) then Some m
      else Some (m\<lparr>sm_externs := erase_extern (extern_of_function m (mf_address f)) (sm_externs m),
             sm_functions := smap_insert (mf_address f, mf_name f) f (sm_functions m)\<rparr>))"

fun AddFunctions :: "Module_Function list \<Rightarrow> SymbolModule \<Rightarrow> SymbolModule run" where
  "AddFunctions [] m = Some m"
| "AddFunctions (f # fs) m = do { m \<leftarrow> AddFunction f m; AddFunctions fs m }"

definition AddStackFrameEntry :: "StackFrameEntry \<Rightarrow> SymbolModule \<Rightarrow> SymbolModule" where
  "AddStackFrameEntry e m =
     (if \<not> AddressIsInModule m (se_address e) then m
      else m\<lparr>sm_stack_frame_entries := sm_stack_frame_entries m @ [e]\<rparr>)"

definition AddExtern :: "u64 \<Rightarrow> string \<Rightarrow> SymbolModule \<Rightarrow> SymbolModule" where
  "AddExtern address nam m =
     (if \<not> AddressIsInModule m address then m
      else m\<lparr>sm_externs := smap_insert address nam (sm_externs m)\<rparr>)"

definition FindFile :: "string \<Rightarrow> SymbolModule \<Rightarrow> string \<times> SymbolModule" where
  "FindFile nam m = (nam, m\<lparr>sm_files := smap_insert nam (- 1) (sm_files m)\<rparr>)"

definition FindExistingFile :: "string \<Rightarrow> SymbolModule \<Rightarrow> string option" where
  "FindExistingFile nam m = map_option (\<lambda>_. nam) (map_of (sm_files m) nam)"

definition GetFunctions :: "Module_Function list \<Rightarrow> nat \<Rightarrow> SymbolModule \<Rightarrow> Module_Function list" where
  "GetFunctions vec i m = take i vec @ map snd (sm_functions m) @ drop i vec"

definition GetExterns :: "(u64 \<times> string) list \<Rightarrow> nat \<Rightarrow> SymbolModule \<Rightarrow> (u64 \<times> string) list" where
  "GetExterns vec i m = take i vec @ sm_externs m @ drop i vec"

definition GetFiles :: "SymbolModule \<Rightarrow> (string \<times> int) list" where
  "GetFiles m = sm_files m"

definition GetStackFrameEntries :: "SymbolModule \<Rightarrow> StackFrameEntry list" where
  "GetStackFrameEntries m = sm_stack_frame_entries m"

subsection \<open>Source identifiers\<close>

definition mark_file :: "string \<Rightarrow> (string, int) smap \<Rightarrow> (string, int) smap" where
  "mark_file nam srcs = map (\<lambda>(k, i). (k, if k = nam then 0 else i)) srcs"

fun number_files :: "int \<Rightarrow> (string, int) smap \<Rightarrow> (string, int) smap" where
  "number_files next_id [] = []"
| "number_files next_id ((nam, i) # srcs) =
     (if i = 0 then (nam, next_id) # number_files (next_id + 1) srcs
      else (nam, i) # number_files next_id srcs)"

definition cited_files :: "SymbolModule \<Rightarrow> string list" where
  "cited_files m = concat (map (\<lambda>f. map ml_file (mf_lines (snd f))) (sm_functions m))"

definition AssignSourceIds :: "SymbolModule \<Rightarrow> SymbolModule" where
  "AssignSourceIds m =
     (let cleared = map (\<lambda>(nam, _). (nam, - 1)) (sm_files m);
          marked = fold mark_file (cited_files m) cleared in
      m\<lparr>sm_files := number_files 0 marked\<rparr>)"

text \<open>
  The identifier that is printed for a file.  A line may refer to a file that \<open>FindFile\<close> of
  another module made: it was marked with 0 like the others, and stays so.
\<close>

definition source_id :: "(string, int) smap \<Rightarrow> string \<Rightarrow> int" where
  "source_id srcs nam = (case map_of srcs nam of Some i \<Rightarrow> i | None \<Rightarrow> 0)"

subsection \<open>Writing\<close>

datatype SymbolData = ALL_SYMBOL_DATA | NO_CFI | ONLY_CFI

fun write_files :: "(string \<times> int) list \<Rightarrow> ostream \<Rightarrow> bool \<times> ostream" where
  "write_files [] out = (True, out)"
| "write_files ((nam, i) # srcs) out =
     (if 0 \<le> i
      then and_then (puts_checked [''FILE '', int_text i, '' '', nam, newline_text] out) (write_files srcs)
      else write_files srcs out)"

text \<open>The lines that follow inside a range; the third component are the lines that are left.\<close>

fun write_lines ::
  "SymbolModule \<Rightarrow> Module_Range \<Rightarrow> Module_Line list \<Rightarrow> ostream \<Rightarrow> (bool \<times> ostream) \<times> Module_Line list" where
  "write_lines m r [] out = ((True, out), [])"
| "write_lines m r (l # ls) out =
     (if in_range r (ml_address l) then
        (case puts_checked [hex (unat (ml_address l - sm_load_address m)), '' '', hex (unat (ml_size l)), '' '',
             int_text (ml_number l), '' '', int_text (source_id (sm_files m) (ml_file l)), newline_text] out of
           (ok, out) \<Rightarrow> if ok then write_lines m r ls out else ((False, out), l # ls))
      else ((True, out), l # ls))"

fun write_ranges ::
  "SymbolModule \<Rightarrow> Module_Function \<Rightarrow> Module_Range list \<Rightarrow> Module_Line list \<Rightarrow> ostream \<Rightarrow> bool \<times> ostream" where
  "write_ranges m f [] ls out = (True, out)"
| "write_ranges m f (r # rs) ls out =
     and_then (puts_checked [''FUNC '', hex (unat (mr_address r - sm_load_address m)), '' '', hex (unat (mr_size r)),
         '' '', hex (unat (mf_parameter_size f)), '' '', mf_name f, newline_text] out)
       (\<lambda>out. case write_lines m r ls out of (result, ls) \<Rightarrow> and_then result (write_ranges m f rs ls))"

fun write_functions :: "SymbolModule \<Rightarrow> Module_Function list \<Rightarrow> ostream \<Rightarrow> bool \<times> ostream" where
  "write_functions m [] out = (True, out)"
| "write_functions m (f # fs) out = and_then (write_ranges m f (mf_ranges f) (mf_lines f) out) (write_functions m fs)"

text \<open>Whether the stream took a public symbol is not looked at.\<close>

fun write_externs :: "SymbolModule \<Rightarrow> (u64 \<times> string) list \<Rightarrow> ostream \<Rightarrow> ostream" where
  "write_externs m [] out = out"
| "write_externs m ((address, nam) # externs) out =
     write_externs m externs
       (puts [''PUBLIC '', hex (unat (address - sm_load_address m)), '' 0 '', nam, newline_text] out)"

fun write_rules :: "bool \<Rightarrow> (string \<times> string) list \<Rightarrow> ostream \<Rightarrow> ostream" where
  "write_rules first [] out = out"
| "write_rules first ((reg, rule) # rules) out =
     write_rules False rules (puts [reg, '': '', rule] (if first then out else put '' '' out))"

definition WriteRuleMap :: "RuleMap \<Rightarrow> ostream \<Rightarrow> bool \<times> ostream" where
  "WriteRuleMap rule_map out = (let out = write_rules True rule_map out in (good out, out))"

fun write_deltas :: "SymbolModule \<Rightarrow> (u64 \<times> RuleMap) list \<Rightarrow> ostream \<Rightarrow> bool \<times> ostream" where
  "write_deltas m [] out = (True, out)"
| "write_deltas m ((address, rules) # deltas) out =
     and_then (and_then (puts_checked [''STACK CFI '', hex (unat (address - sm_load_address m)), '' ''] out)
         (WriteRuleMap rules))
       (\<lambda>out. write_deltas m deltas (put newline_text out))"

fun write_entries :: "SymbolModule \<Rightarrow> StackFrameEntry list \<Rightarrow> ostream \<Rightarrow> bool \<times> ostream" where
  "write_entries m [] out = (True, out)"
| "write_entries m (e # es) out =
     and_then (and_then (puts_checked [''STACK CFI INIT '', hex (unat (se_address e - sm_load_address m)), '' '',
         hex (unat (se_size e)), '' ''] out) (WriteRuleMap (se_initial_rules e)))
       (\<lambda>out. and_then (write_deltas m (se_rule_changes e) (put newline_text out)) (write_entries m es))"

definition write_symbols :: "SymbolModule \<Rightarrow> ostream \<Rightarrow> bool \<times> ostream" where
  "write_symbols m out =
     and_then (and_then (write_files (sm_files m) out) (write_functions m (map snd (sm_functions m))))
       (\<lambda>out. (True, write_externs m (sm_externs m) out))"

text \<open>The module after the call has new source identifiers.\<close>

definition Module_Write :: "SymbolModule \<Rightarrow> ostream \<Rightarrow> SymbolData \<Rightarrow> bool \<times> ostream \<times> SymbolModule" where
  "Module_Write m out symbol_data =
     (case puts_checked [''MODULE '', sm_os m, '' '', sm_architecture m, '' '', sm_id m, '' '', sm_name m,
          newline_text] out of
        (False, out) \<Rightarrow> (False, out, m)
      | (True, out) \<Rightarrow>
          (let out = (if sm_code_id m \<noteq> [] then puts [''INFO CODE_ID '', sm_code_id m, newline_text] out else out);
               m = (if symbol_data \<noteq> ONLY_CFI then AssignSourceIds m else m);
               symbols = (if symbol_data \<noteq> ONLY_CFI then write_symbols m out else (True, out)) in
           case and_then symbols (\<lambda>out. if symbol_data \<noteq> NO_CFI then write_entries m (sm_stack_frame_entries m) out
               else (True, out)) of (ok, out) \<Rightarrow> (ok, out, m)))"

subsection \<open>What a stream without limits gets\<close>

definition free :: "ostream \<Rightarrow> bool" where
  "free out = (good out \<and> (\<forall>s. accepts out s))"

definition appended :: "string \<Rightarrow> ostream \<Rightarrow> ostream" where
  "appended s out = out\<lparr>written := written out @ s\<rparr>"

lemma appended_free [simp]: "free (appended s out) = free out"
  by (simp add: free_def appended_def)

lemma appended_more [simp]: "appended s (appended t out) = appended (t @ s) out"
  by (simp add: appended_def)

lemma appended_Nil [simp]: "appended [] out = out"
  by (simp add: appended_def)

lemma put_free [simp]: "free out \<Longrightarrow> put s out = appended s out"
  by (simp add: put_def free_def appended_def)

lemma puts_free [simp]: "free out \<Longrightarrow> puts ss out = appended (concat ss) out"
  by (induction ss arbitrary: out) simp_all

lemma free_good: "free out \<Longrightarrow> good out"
  by (simp add: free_def)

lemma puts_checked_free [simp]: "free out \<Longrightarrow> puts_checked ss out = (True, appended (concat ss) out)"
  by (simp add: puts_checked_def Let_def free_good)

lemma and_then_simps [simp]:
  "and_then (True, out) f = f out" "and_then (False, out) f = (False, out)"
  by (simp_all add: and_then_def)

definition rules_text :: "RuleMap \<Rightarrow> string" where
  "rules_text rules = join_fields (CHR '' '') (map (\<lambda>(reg, rule). reg @ '': '' @ rule) rules)"

lemma join_fields_rest: "join_fields c (f # fs) = f @ concat (map (\<lambda>g. c # g) fs)"
  by (induction fs arbitrary: f) simp_all

lemma write_rules_free:
  "free out \<Longrightarrow> write_rules False rules out = appended (concat (map (\<lambda>(reg, rule). CHR '' '' # reg @ '': '' @ rule) rules)) out"
  by (induction rules arbitrary: out) auto

lemma WriteRuleMap_free [simp]:
  assumes "free out"
  shows "WriteRuleMap rules out = (True, appended (rules_text rules) out)"
proof (cases rules)
  case Nil
  with assms show ?thesis by (simp add: WriteRuleMap_def rules_text_def free_good)
next
  case (Cons r rs)
  have "free (appended t out)" "good (appended t out)" for t using assms by (simp_all add: free_good)
  with Cons assms show ?thesis
    by (cases r) (simp add: WriteRuleMap_def rules_text_def write_rules_free join_fields_rest Let_def comp_def
        split_def)
qed

definition delta_text :: "SymbolModule \<Rightarrow> u64 \<times> RuleMap \<Rightarrow> string" where
  "delta_text m d = ''STACK CFI '' @ hex (unat (fst d - sm_load_address m)) @ CHR '' '' # rules_text (snd d)"

definition entry_text :: "SymbolModule \<Rightarrow> StackFrameEntry \<Rightarrow> string" where
  "entry_text m e = ''STACK CFI INIT '' @ hex (unat (se_address e - sm_load_address m)) @ CHR '' '' #
     hex (unat (se_size e)) @ CHR '' '' # rules_text (se_initial_rules e)"

definition text_lines :: "string list \<Rightarrow> string" where
  "text_lines ls = concat (map (\<lambda>l. l @ newline_text) ls)"

lemma text_lines_simps [simp]:
  "text_lines [] = []" "text_lines (l # ls) = l @ newline_text @ text_lines ls"
  "text_lines (ls @ ls') = text_lines ls @ text_lines ls'"
  by (simp_all add: text_lines_def)

lemma write_deltas_free: "free out \<Longrightarrow> write_deltas m deltas out = (True, appended (text_lines (map (delta_text m) deltas)) out)"
  by (induction deltas arbitrary: out) (auto simp: delta_text_def)

definition entry_texts :: "SymbolModule \<Rightarrow> StackFrameEntry \<Rightarrow> string list" where
  "entry_texts m e = entry_text m e # map (delta_text m) (se_rule_changes e)"

lemma write_entries_free:
  "free out \<Longrightarrow> write_entries m es out = (True, appended (text_lines (concat (map (entry_texts m) es))) out)"
  by (induction es arbitrary: out) (simp_all add: entry_texts_def entry_text_def write_deltas_free)

lemma write_externs_free:
  "free out \<Longrightarrow> write_externs m externs out =
     appended (text_lines (map (\<lambda>(address, nam). public_text False (address - sm_load_address m) 0 nam) externs)) out"
  by (induction externs arbitrary: out) (auto simp: public_text_def func_fields_def hex_def digits_of.simps)

lemma write_files_free:
  "free out \<Longrightarrow> write_files srcs out =
     (True, appended (text_lines (map (\<lambda>(nam, i). file_text (nat i) nam) (filter (\<lambda>p. 0 \<le> snd p) srcs))) out)"
  by (induction srcs arbitrary: out) (auto simp: file_text_def int_text_def)

subsection \<open>Functions as records of a symbol file\<close>

definition line_spec_of :: "SymbolModule \<Rightarrow> Module_Line \<Rightarrow> line_spec" where
  "line_spec_of m l = \<lparr>ls_address = ml_address l - sm_load_address m, ls_size = ml_size l, ls_line = nat (ml_number l),
     ls_file = nat (source_id (sm_files m) (ml_file l))\<rparr>"

fun range_specs :: "SymbolModule \<Rightarrow> Module_Function \<Rightarrow> Module_Range list \<Rightarrow> Module_Line list \<Rightarrow> func_spec list" where
  "range_specs m f [] ls = []"
| "range_specs m f (r # rs) ls =
     \<lparr>fs_multiple = False, fs_address = mr_address r - sm_load_address m, fs_size = mr_size r,
      fs_params = unat (mf_parameter_size f), fs_name = mf_name f,
      fs_lines = map (line_spec_of m) (takeWhile (\<lambda>l. in_range r (ml_address l)) ls)\<rparr> #
     range_specs m f rs (dropWhile (\<lambda>l. in_range r (ml_address l)) ls)"

definition module_specs :: "SymbolModule \<Rightarrow> func_spec list" where
  "module_specs m = concat (map (\<lambda>f. range_specs m f (mf_ranges f) (mf_lines f)) (map snd (sm_functions m)))"

definition line_printable :: "SymbolModule \<Rightarrow> Module_Line \<Rightarrow> bool" where
  "line_printable m l = (0 \<le> ml_number l \<and> 0 \<le> source_id (sm_files m) (ml_file l))"

lemma write_lines_free:
  "free out \<Longrightarrow> \<forall>l\<in>set ls. line_printable m l \<Longrightarrow> write_lines m r ls out =
     ((True, appended (concat (map (line_block \<circ> line_spec_of m) (takeWhile (\<lambda>l. in_range r (ml_address l)) ls))) out),
      dropWhile (\<lambda>l. in_range r (ml_address l)) ls)"
proof (induction ls arbitrary: out)
  case (Cons l ls)
  then have "line_printable m l" by simp
  then have printed: "hex (unat (ml_address l - sm_load_address m)) @ CHR '' '' # hex (unat (ml_size l)) @ CHR '' '' #
      int_text (ml_number l) @ CHR '' '' # int_text (source_id (sm_files m) (ml_file l)) @ newline_text =
      line_block (line_spec_of m l)"
    by (simp add: line_printable_def line_block_def line_text_def line_spec_of_def int_text_def)
  show ?case using Cons.IH [of "appended (line_block (line_spec_of m l)) out"] Cons.prems by (simp add: printed)
qed simp

lemma write_ranges_free:
  "free out \<Longrightarrow> \<forall>l\<in>set ls. line_printable m l \<Longrightarrow>
     write_ranges m f rs ls out = (True, appended (symbol_text (range_specs m f rs ls)) out)"
proof (induction rs arbitrary: ls out)
  case (Cons r rs)
  have rest: "\<forall>l\<in>set (dropWhile (\<lambda>l. in_range r (ml_address l)) ls). line_printable m l"
    using Cons.prems(2) by (auto dest: set_dropWhileD)
  from Cons.IH [OF _ rest] Cons.prems show ?case
    by (simp add: write_lines_free symbol_text_def func_block_def func_text_def func_fields_def comp_def)
qed (simp add: symbol_text_def)

lemma symbol_text_append: "symbol_text (fs @ gs) = symbol_text fs @ symbol_text gs"
  by (simp add: symbol_text_def)

lemma write_functions_free:
  "free out \<Longrightarrow> \<forall>f\<in>set fs. \<forall>l\<in>set (mf_lines f). line_printable m l \<Longrightarrow>
     write_functions m fs out =
     (True, appended (symbol_text (concat (map (\<lambda>f. range_specs m f (mf_ranges f) (mf_lines f)) fs))) out)"
  by (induction fs arbitrary: out) (simp_all add: write_ranges_free symbol_text_append, simp add: symbol_text_def)

subsection \<open>Source identifiers number the cited files\<close>

lemma mark_files:
  "fold mark_file cs srcs = map (\<lambda>(k, i). (k, if k \<in> set cs then 0 else i)) srcs"
  by (induction cs arbitrary: srcs) (auto simp: mark_file_def)

lemma fst_number_files [simp]: "map fst (number_files k srcs) = map fst srcs"
  by (induction k srcs rule: number_files.induct) auto

lemma number_marked:
  "0 \<le> k \<Longrightarrow> filter (\<lambda>p. 0 \<le> snd p) (number_files k (map (\<lambda>n. (n, if P n then 0 else - 1)) ns)) =
     zip (filter P ns) (map (\<lambda>i. k + int i) [0..<length (filter P ns)])"
proof (induction ns arbitrary: k)
  case (Cons n ns)
  have shift: "map (\<lambda>i. k + 1 + int i) [0..<j] = map (\<lambda>i. k + int i) [Suc 0..<Suc j]" for j
    by (simp add: map_Suc_upt [symmetric] comp_def add.assoc del: upt_Suc)
  show ?case
    using Cons.IH [of "k + 1"] Cons.IH [of k] Cons.prems
    by (simp add: shift upt_conv_Cons del: upt_Suc)
qed simp

definition cited_names :: "SymbolModule \<Rightarrow> string list" where
  "cited_names m = filter (\<lambda>n. n \<in> set (cited_files m)) (map fst (sm_files m))"

lemma AssignSourceIds_marked:
  "sm_files (AssignSourceIds m) =
     number_files 0 (map (\<lambda>n. (n, if n \<in> set (cited_files m) then 0 else - 1)) (map fst (sm_files m)))"
  by (simp add: AssignSourceIds_def mark_files split_def comp_def cong: if_cong)

lemma AssignSourceIds_ids:
  "map fst (sm_files (AssignSourceIds m)) = map fst (sm_files m) \<and>
   filter (\<lambda>p. 0 \<le> snd p) (sm_files (AssignSourceIds m)) =
     zip (cited_names m) (map int [0..<length (cited_names m)])"
  unfolding AssignSourceIds_marked cited_names_def
  using number_marked [of 0 "\<lambda>n. n \<in> set (cited_files m)" "map fst (sm_files m)"] by (simp del: map_map length_filter_map, simp add: comp_def)

lemma source_id_cited:
  assumes "ordered (sm_files m)" and "i < length (cited_names m)"
  shows "source_id (sm_files (AssignSourceIds m)) (cited_names m ! i) = int i"
proof -
  let ?ids = "sm_files (AssignSourceIds m)"
  have "(cited_names m ! i, int i) \<in> set (zip (cited_names m) (map int [0..<length (cited_names m)]))"
    using assms(2) by (auto simp: in_set_zip)
  then have "(cited_names m ! i, int i) \<in> set ?ids"
    unfolding AssignSourceIds_ids [THEN conjunct2, symmetric] by simp
  moreover have "distinct (map fst ?ids)"
    using ordered_distinct [OF assms(1)] AssignSourceIds_ids by simp
  ultimately show ?thesis by (simp add: source_id_def)
qed

lemma source_id_printable:
  assumes "ordered (sm_files m)" and "nam \<in> set (cited_files m)"
  shows "0 \<le> source_id (sm_files (AssignSourceIds m)) nam"
proof (cases "nam \<in> fst ` set (sm_files m)")
  case True
  then have "nam \<in> set (cited_names m)" using assms(2) by (simp add: cited_names_def)
  then obtain i where "i < length (cited_names m)" "nam = cited_names m ! i" by (auto simp: in_set_conv_nth)
  with source_id_cited [OF assms(1)] show ?thesis by simp
next
  case False
  then have "map_of (sm_files (AssignSourceIds m)) nam = None"
    using AssignSourceIds_ids [of m] by (metis list.set_map map_of_eq_None_iff)
  then show ?thesis by (simp add: source_id_def)
qed

lemma AssignSourceIds_rest [simp]:
  "sm_functions (AssignSourceIds m) = sm_functions m" "sm_load_address (AssignSourceIds m) = sm_load_address m"
  "sm_externs (AssignSourceIds m) = sm_externs m"
  "sm_stack_frame_entries (AssignSourceIds m) = sm_stack_frame_entries m"
  by (simp_all add: AssignSourceIds_def Let_def)

subsection \<open>The text of a module\<close>

definition header_texts :: "SymbolModule \<Rightarrow> string list" where
  "header_texts m = (''MODULE '' @ sm_os m @ '' '' @ sm_architecture m @ '' '' @ sm_id m @ '' '' @ sm_name m) #
     (if sm_code_id m \<noteq> [] then [''INFO CODE_ID '' @ sm_code_id m] else [])"

definition file_texts :: "SymbolModule \<Rightarrow> string list" where
  "file_texts m = map (\<lambda>i. file_text i (cited_names m ! i)) [0..<length (cited_names m)]"

definition public_texts :: "SymbolModule \<Rightarrow> string list" where
  "public_texts m = map (\<lambda>(address, nam). public_text False (address - sm_load_address m) 0 nam) (sm_externs m)"

definition cfi_texts :: "SymbolModule \<Rightarrow> string list" where
  "cfi_texts m = concat (map (entry_texts m) (sm_stack_frame_entries m))"

definition module_text :: "SymbolModule \<Rightarrow> SymbolData \<Rightarrow> string" where
  "module_text m symbol_data = text_lines (header_texts m) @
     (if symbol_data = ONLY_CFI then []
      else text_lines (file_texts m) @ symbol_text (module_specs (AssignSourceIds m)) @ text_lines (public_texts m)) @
     (if symbol_data = NO_CFI then [] else text_lines (cfi_texts m))"

definition lines_counted :: "SymbolModule \<Rightarrow> bool" where
  "lines_counted m = (\<forall>f\<in>set (sm_functions m). \<forall>l\<in>set (mf_lines (snd f)). 0 \<le> ml_number l)"

lemma zip_upt: "zip xs (map int [0..<length xs]) = map (\<lambda>i. (xs ! i, int i)) [0..<length xs]"
  by (rule nth_equalityI) auto

lemma write_symbols_free:
  assumes "free out" and "ordered (sm_files m)" and "lines_counted m"
  shows "write_symbols (AssignSourceIds m) out =
    (True, appended (text_lines (file_texts m) @ symbol_text (module_specs (AssignSourceIds m)) @
      text_lines (public_texts m)) out)"
proof -
  have "\<forall>f\<in>set (map snd (sm_functions m)). \<forall>l\<in>set (mf_lines f). line_printable (AssignSourceIds m) l"
    using assms(3) source_id_printable [OF assms(2)]
    by (force simp: line_printable_def lines_counted_def cited_files_def)
  with assms(1) show ?thesis
    by (simp add: write_symbols_def write_files_free write_functions_free write_externs_free AssignSourceIds_ids
        zip_upt comp_def file_texts_def public_texts_def module_specs_def)
qed

lemma Module_Write_free:
  assumes "free out" and "ordered (sm_files m)" and "lines_counted m"
  shows "Module_Write m out symbol_data =
    (True, appended (module_text m symbol_data) out, if symbol_data = ONLY_CFI then m else AssignSourceIds m)"
proof -
  have entries: "write_entries (AssignSourceIds m) es out' = write_entries m es out'" for es out'
  proof -
    have "write_deltas (AssignSourceIds m) ds o' = write_deltas m ds o'" for ds o'
      by (induction ds arbitrary: o') (auto simp: and_then_def split: prod.split)
    then show ?thesis by (induction es arbitrary: out') (auto simp: and_then_def split: prod.split)
  qed
  show ?thesis
    using assms write_symbols_free
    by (cases symbol_data)
      (simp_all add: Module_Write_def Let_def module_text_def header_texts_def entries write_entries_free cfi_texts_def)
qed

subsection \<open>What adding keeps\<close>

text \<open>The order of the sets and the map, and that a function is found under its address and name.\<close>

definition symbols_ok :: "SymbolModule \<Rightarrow> bool" where
  "symbols_ok m = (ordered (sm_files m) \<and> ordered (sm_functions m) \<and> ordered (sm_externs m) \<and>
     (\<forall>(k, f)\<in>set (sm_functions m). k = (mf_address f, mf_name f) \<and> mf_name f \<noteq> []))"

lemma symbols_ok_new: "symbols_ok (new_SymbolModule nam os architecture ident code_id)"
  by (simp add: symbols_ok_def new_SymbolModule_def)

lemma ordered_erase: "ordered externs \<Longrightarrow> ordered (erase_extern k externs)"
  by (simp add: erase_extern_def ordered_def sorted_wrt_map sorted_wrt_filter)

lemma symbols_ok_AddFunction:
  assumes "symbols_ok m" and "AddFunction f m = Some m'"
  shows "symbols_ok m'"
proof -
  have sub: "set (smap_insert (mf_address f, mf_name f) f (sm_functions m)) \<subseteq>
      insert ((mf_address f, mf_name f), f) (set (sm_functions m))"
    by (rule smap_insert_subset)
  from assms show ?thesis
    by (auto simp: AddFunction_def symbols_ok_def ordered_erase ordered_smap_insert split: if_splits dest!: subsetD [OF sub])
qed

lemma symbols_ok_AddFunctions: "symbols_ok m \<Longrightarrow> AddFunctions fs m = Some m' \<Longrightarrow> symbols_ok m'"
  by (induction fs arbitrary: m) (auto simp: bind_eq_Some_conv dest: symbols_ok_AddFunction)

lemma symbols_ok_add:
  assumes "symbols_ok m"
  shows "symbols_ok (AddStackFrameEntry e m)" "symbols_ok (AddExtern a n m)" "symbols_ok (snd (FindFile n m))"
    "symbols_ok (SetLoadAddress a m)" "symbols_ok (SetAddressRanges rs m)" "symbols_ok (AssignSourceIds m)"
proof -
  show "symbols_ok (AssignSourceIds m)"
    using assms AssignSourceIds_ids [of m] by (simp add: symbols_ok_def ordered_def)
qed (use assms in \<open>simp_all add: symbols_ok_def AddStackFrameEntry_def AddExtern_def FindFile_def SetLoadAddress_def
    SetAddressRanges_def ordered_smap_insert\<close>)

text \<open>
  Nothing tells the caller that public symbols did not reach the file: the stream is not looked at
  behind them.
\<close>

lemma Module_Write_unchecked:
  "case Module_Write ((new_SymbolModule ''a'' ''Linux'' ''x86'' ''0'' [])\<lparr>sm_externs := [(16, ''f'')]\<rparr>)
       \<lparr>written = [], accepts = (\<lambda>s. length s \<le> 30), broken = False\<rparr> NO_CFI of
     (ok, out, _) \<Rightarrow> ok \<and> broken out \<and> written out = ''MODULE Linux x86 0 a'' @ newline_text @ ''PUBLIC 10''"
  by code_simp

end
