(* ===== verification/Module_Roundtrip.thy ===== *)
theory Module_Roundtrip
  imports Module_Writer
begin

text \<open>
  The symbol file that \<open>Module::Write\<close> of the dumpers prints, loaded by
  \<open>BasicSourceLineResolver::Module::LoadMapFromMemory\<close>: it loads without an error, and the
  resolver then answers for every address what the module said of it.
\<close>

subsection \<open>One record of each kind\<close>

lemma load_line_header:
  "load_line (''MODULE '' @ t) rest m cur errs = Some (rest, m, cur, errs)"
  "load_line (''INFO '' @ t) rest m cur errs = Some (rest, m, cur, errs)"
  by (simp_all add: load_line_def starts_with_def)

lemma load_line_file:
  assumes "is_token newline nam" and "i < 2 ^ 31"
  shows "load_line (file_text i nam) rest m cur errs =
    Some (rest, m\<lparr>files := smap_insert (int i) nam (files m)\<rparr>, cur, errs)"
proof -
  have "Helper_ParseFile (file_text i nam) = Some (int i, nam)"
    using ParseRecords_roundtrip [of 0 0 0 nam 0 i] assms by (simp add: LONG_MAX_def)
  moreover have "int_of_long (int i) = int i"
    using assms(2) by (simp add: int_of_long_def signed_take_bit_int_eq_self)
  moreover have "starts_with ''FILE '' (file_text i nam)" by (simp add: starts_with_def file_text_def)
  ultimately show ?thesis by (simp add: load_line_def Module_ParseFile_def)
qed

definition public_object :: "u64 \<Rightarrow> string \<Rightarrow> PublicSymbol" where
  "public_object address nam = \<lparr>p_name = nam, p_address = address, p_parameter_size = 0, p_is_multiple = False\<rparr>"

lemma load_line_public:
  assumes "is_token newline nam" and "address \<noteq> - 1" and "map_of (public_symbols m) address = None"
  shows "load_line (public_text False address 0 nam) rest m cur errs =
    Some (rest, if address = 0 then m
      else m\<lparr>public_symbols := smap_insert address (public_object address nam) (public_symbols m)\<rparr>, None, errs)"
proof -
  have "Helper_ParsePublicSymbol (public_text False address 0 nam) = Some (False, address, 0, nam)"
    using ParsePublicSymbol_roundtrip [of address 0 nam False] assms(1,2) by (simp add: LONG_MAX_def)
  then show ?thesis
    using assms(3)
    by (simp add: load_line_def starts_with_def Module_ParsePublicSymbol_def Store_def public_object_def
        public_text_def func_fields_def)
qed

lemma word_of_text: "is_token kWhitespace w \<Longrightarrow> strtok kWhitespace (w @ CHR '' '' # s) = (Some w, s)"
  using strtok_token [of kWhitespace w "CHR '' '' # s"] by simp

lemma line_of_text: "is_token newline t \<Longrightarrow> strtok newline t = (Some t, [])"
  using strtok_token [of newline t "[]"] by simp

lemma hex_word: "is_token kWhitespace (hex n)"
  by (rule hex_token) (simp add: kWhitespace_def is_digit_def digit_value_def)

lemma hex_not_INIT: "hex n \<noteq> ''INIT''"
  using digits_of_digits [of 16 "CHR ''I''" n] by (auto simp: hex_def is_digit_def digit_value_def)

lemma load_line_cfi:
  assumes "ParseCFIFrameInfo t m = Some (ok, m')"
  shows "load_line (''STACK CFI '' @ t) rest m cur errs = Some (rest, m', cur, if ok then errs else errs + 1)"
  using assms by (simp add: load_line_def starts_with_def ParseStackInfo_def kWhitespace_def)

lemma load_line_init:
  assumes "is_token newline rules" and "StoreRange (cfi_initial_rules m) a sz rules = Some (r, stored)"
  shows "load_line (''STACK CFI INIT '' @ hex (unat a) @ CHR '' '' # hex (unat sz) @ CHR '' '' # rules) rest m cur errs =
    Some (rest, m\<lparr>cfi_initial_rules := r\<rparr>, cur, errs)"
proof -
  have "is_token kWhitespace ''INIT''" by (simp add: is_token_def kWhitespace_def)
  with word_of_text [of "''INIT''"] assms
  have "ParseCFIFrameInfo (''INIT'' @ CHR '' '' # hex (unat a) @ CHR '' '' # hex (unat sz) @ CHR '' '' # rules) m =
      Some (True, m\<lparr>cfi_initial_rules := r\<rparr>)"
    by (simp add: ParseCFIFrameInfo_def word_of_text [OF hex_word] line_of_text strtoull_hex_u64_pair)
  from load_line_cfi [OF this] show ?thesis by simp
qed

lemma load_line_delta:
  assumes "is_token newline rules"
  shows "load_line (''STACK CFI '' @ hex (unat a) @ CHR '' '' # rules) rest m cur errs =
    Some (rest, m\<lparr>cfi_delta_rules := smap_put a rules (cfi_delta_rules m)\<rparr>, cur, errs)"
proof -
  have "ParseCFIFrameInfo (hex (unat a) @ CHR '' '' # rules) m =
      Some (True, m\<lparr>cfi_delta_rules := smap_put a rules (cfi_delta_rules m)\<rparr>)"
    using assms by (simp add: ParseCFIFrameInfo_def word_of_text [OF hex_word] line_of_text hex_not_INIT
        strtoull_hex_u64_pair)
  from load_line_cfi [OF this] show ?thesis by simp
qed

subsection \<open>The blocks of the file\<close>

lemma load_text_line:
  assumes "is_token newline l" and "load_line l (Some rest) m cur 0 = Some (Some rest, m', cur', 0)"
  shows "load_lines extra (Some (l @ CHR 0x0A # rest)) m cur 0 = load_lines extra (Some rest) m' cur' 0"
  using load_lines_step [OF assms] by simp

lemma load_header:
  assumes "\<forall>l\<in>set ls. is_token newline l \<and> (starts_with ''MODULE '' l \<or> starts_with ''INFO '' l)"
  shows "load_lines extra (Some (text_lines ls @ rest)) m cur 0 = load_lines extra (Some rest) m cur 0"
  using assms
proof (induction ls)
  case (Cons l ls)
  then obtain t where "l = ''MODULE '' @ t \<or> l = ''INFO '' @ t"
    by (metis append_take_drop_id list.set_intros(1) starts_with_def)
  with load_line_header have "load_line l (Some (text_lines ls @ rest)) m cur 0 = Some (Some (text_lines ls @ rest), m, cur, 0)"
    by blast
  from load_text_line [OF _ this] Cons show ?case by simp
qed simp

lemma load_files:
  assumes "\<forall>(i, nam)\<in>set srcs. is_token newline nam \<and> i < 2 ^ 31"
    and "distinct (map fst srcs)" and "ordered (files m)" and "\<forall>(i, nam)\<in>set srcs. map_of (files m) (int i) = None"
  shows "\<exists>F. load_lines extra (Some (text_lines (map (\<lambda>(i, nam). file_text i nam) srcs) @ rest)) m cur 0 =
      load_lines extra (Some rest) (m\<lparr>files := F\<rparr>) cur 0 \<and> ordered F \<and>
    (\<forall>(i, nam)\<in>set srcs. map_of F (int i) = Some nam) \<and> (\<forall>k. k \<notin> (int \<circ> fst) ` set srcs \<longrightarrow> map_of F k = map_of (files m) k)"
  using assms
proof (induction srcs arbitrary: m)
  case Nil
  then show ?case by (intro exI [of _ "files m"]) simp
next
  case (Cons p srcs)
  obtain i nam where p: "p = (i, nam)" by (cases p)
  let ?m = "m\<lparr>files := smap_insert (int i) nam (files m)\<rparr>"
  have new: "int i \<notin> fst ` set (files m)" using Cons.prems(4) p by (simp add: map_of_eq_None_iff)
  have "is_token newline (digits_of 10 i @ CHR '' '' # nam)"
    using Cons.prems(1) p by (intro token_join) simp_all
  then have "is_token newline (file_text i nam)" by (simp add: file_text_def is_token_def)
  from load_text_line [OF this load_line_file] Cons.prems(1) p
  have first: "load_lines extra (Some (file_text i nam @ CHR 0x0A # t)) m cur 0 = load_lines extra (Some t) ?m cur 0" for t
    by simp
  have map: "map_of (files ?m) = (map_of (files m))(int i \<mapsto> nam)"
    using map_of_smap_insert [OF Cons.prems(3)] new by simp
  have "\<forall>(j, n)\<in>set srcs. map_of (files ?m) (int j) = None"
    using Cons.prems(2,4) p unfolding map by (force simp: case_prod_unfold)
  then obtain F where F: "load_lines extra (Some (text_lines (map (\<lambda>(i, nam). file_text i nam) srcs) @ rest)) ?m cur 0 =
      load_lines extra (Some rest) (?m\<lparr>files := F\<rparr>) cur 0" "ordered F"
    "\<forall>(i, nam)\<in>set srcs. map_of F (int i) = Some nam"
    "\<forall>k. k \<notin> (int \<circ> fst) ` set srcs \<longrightarrow> map_of F k = map_of (files ?m) k"
    using Cons.IH [of ?m] Cons.prems(1-3) ordered_smap_insert [OF Cons.prems(3)] by auto
  have "map_of F (int i) = Some nam"
    using F(4) Cons.prems(2) p map by (force simp: image_iff)
  with F first map p show ?case by (intro exI [of _ F]) (auto simp: image_iff)
qed

lemma load_publics:
  assumes "\<forall>(a, nam)\<in>set externs. is_token newline nam \<and> a \<noteq> - 1"
    and "distinct (map fst externs)" and "ordered (public_symbols m)"
    and "\<forall>(a, nam)\<in>set externs. map_of (public_symbols m) a = None"
  shows "\<exists>P cur'. load_lines extra (Some (text_lines (map (\<lambda>(a, nam). public_text False a 0 nam) externs) @ rest)) m cur 0 =
      load_lines extra (Some rest) (m\<lparr>public_symbols := P\<rparr>) cur' 0 \<and> ordered P \<and>
    (\<forall>a. map_of P a = (case map_of externs a of
       Some nam \<Rightarrow> if a = 0 then None else Some (public_object a nam) | None \<Rightarrow> map_of (public_symbols m) a))"
  using assms
proof (induction externs arbitrary: m cur)
  case Nil
  then show ?case by (intro exI [of _ "public_symbols m"] exI [of _ cur]) simp
next
  case (Cons p externs)
  obtain a nam where p: "p = (a, nam)" by (cases p)
  let ?m = "if a = 0 then m else m\<lparr>public_symbols := smap_insert a (public_object a nam) (public_symbols m)\<rparr>"
  have new: "map_of (public_symbols m) a = None" using Cons.prems(4) p by simp
  then have absent: "a \<notin> fst ` set (public_symbols m)" by (simp add: map_of_eq_None_iff)
  have "is_token newline (hex (unat a) @ CHR '' '' # hex 0 @ CHR '' '' # nam)"
    using Cons.prems(1) p by (intro token_join) simp_all
  then have "is_token newline (public_text False a 0 nam)"
    by (simp add: public_text_def func_fields_def is_token_def)
  from load_text_line [OF this load_line_public] Cons.prems(1) p new
  have first: "load_lines extra (Some (public_text False a 0 nam @ CHR 0x0A # t)) m cur 0 = load_lines extra (Some t) ?m None 0" for t
    by simp
  have map: "map_of (public_symbols ?m) = (if a = 0 then map_of (public_symbols m)
      else (map_of (public_symbols m))(a \<mapsto> public_object a nam))"
    using map_of_smap_insert [OF Cons.prems(3)] absent by simp
  have others: "\<forall>(b, n)\<in>set externs. b \<noteq> a" using Cons.prems(2) p by force
  then have "\<forall>(b, n)\<in>set externs. map_of (public_symbols ?m) b = None"
    using Cons.prems(4) unfolding map by auto
  moreover have "ordered (public_symbols ?m)" using Cons.prems(3) by (simp add: ordered_smap_insert)
  ultimately obtain P cur' where P:
    "load_lines extra (Some (text_lines (map (\<lambda>(a, nam). public_text False a 0 nam) externs) @ rest)) ?m None 0 =
      load_lines extra (Some rest) (?m\<lparr>public_symbols := P\<rparr>) cur' 0" "ordered P"
    "\<forall>b. map_of P b = (case map_of externs b of
       Some nam \<Rightarrow> if b = 0 then None else Some (public_object b nam) | None \<Rightarrow> map_of (public_symbols ?m) b)"
    using Cons.IH [of ?m None] Cons.prems(1,2) by auto
  have "map_of externs a = None" using others by (force simp: map_of_eq_None_iff)
  then have "map_of P b = (case map_of (p # externs) b of
       Some nam \<Rightarrow> if b = 0 then None else Some (public_object b nam) | None \<Rightarrow> map_of (public_symbols m) b)" for b
    using P(3) new p map by (auto split: option.split)
  moreover have "?m\<lparr>public_symbols := P\<rparr> = m\<lparr>public_symbols := P\<rparr>" by simp
  ultimately show ?case using P(1,2) first p by (intro exI [of _ P] exI [of _ cur']) simp
qed

lemma load_deltas:
  "\<forall>(a, t)\<in>set ds. is_token newline t \<Longrightarrow>
     load_lines extra (Some (text_lines (map (\<lambda>(a, t). ''STACK CFI '' @ hex (unat a) @ CHR '' '' # t) ds) @ rest)) m cur 0 =
     load_lines extra (Some rest) (m\<lparr>cfi_delta_rules := fold (\<lambda>(a, t). smap_put a t) ds (cfi_delta_rules m)\<rparr>) cur 0"
proof (induction ds arbitrary: m)
  case (Cons d ds)
  obtain a t where d: "d = (a, t)" by (cases d)
  then have t: "is_token newline t" using Cons.prems by simp
  then have "is_token newline (hex (unat a) @ CHR '' '' # t)" by (intro token_join) simp_all
  then have "is_token newline (''STACK CFI '' @ hex (unat a) @ CHR '' '' # t)" by (simp add: is_token_def)
  from load_text_line [OF this load_line_delta [OF t]] Cons d show ?case by simp
qed simp

text \<open>An entry as the resolver sees it: the range, the initial rules and the changes.\<close>

record cfi_spec =
  cs_address :: u64
  cs_size :: u64
  cs_rules :: string
  cs_changes :: "(u64 \<times> string) list"

definition cfi_spec_of :: "SymbolModule \<Rightarrow> StackFrameEntry \<Rightarrow> cfi_spec" where
  "cfi_spec_of m e = \<lparr>cs_address = se_address e - sm_load_address m, cs_size = se_size e,
     cs_rules = rules_text (se_initial_rules e),
     cs_changes = map (\<lambda>(a, rules). (a - sm_load_address m, rules_text rules)) (se_rule_changes e)\<rparr>"

definition cfi_block :: "cfi_spec \<Rightarrow> string list" where
  "cfi_block c = (''STACK CFI INIT '' @ hex (unat (cs_address c)) @ CHR '' '' # hex (unat (cs_size c)) @ CHR '' '' # cs_rules c) #
     map (\<lambda>(a, t). ''STACK CFI '' @ hex (unat a) @ CHR '' '' # t) (cs_changes c)"

lemma entry_texts_block: "entry_texts m e = cfi_block (cfi_spec_of m e)"
  by (simp add: entry_texts_def entry_text_def delta_text_def cfi_block_def cfi_spec_of_def split_def)

definition cfi_spec_ok :: "cfi_spec \<Rightarrow> bool" where
  "cfi_spec_ok c = (range_fits (cs_address c) (cs_size c) \<and> is_token newline (cs_rules c) \<and>
     ordered (cs_changes c) \<and>
     (\<forall>(a, t)\<in>set (cs_changes c). is_token newline t \<and> covers (cs_address c) (cs_size c) a))"

definition cfi_range :: "cfi_spec \<Rightarrow> u64 \<times> (u64, string) Range" where
  "cfi_range c = range_entry (cs_address c) (cs_size c) (cs_rules c)"

definition all_changes :: "cfi_spec list \<Rightarrow> (u64 \<times> string) list" where
  "all_changes cs = concat (map cs_changes cs)"

lemma load_entries:
  assumes "\<forall>c\<in>set cs. cfi_spec_ok c" and "sorted_wrt apart (map (\<lambda>c. (cs_address c, cs_size c)) cs)"
    and "exclusive_map (cfi_initial_rules m)"
    and "\<forall>c\<in>set cs. \<forall>p\<in>set (rmap (cfi_initial_rules m)).
      fst p < cs_address c \<or> cs_address c + (cs_size c - 1) < r_base (snd p)"
  shows "\<exists>R. load_lines extra (Some (text_lines (concat (map cfi_block cs)) @ rest)) m cur 0 =
      load_lines extra (Some rest) (m\<lparr>cfi_initial_rules := R,
        cfi_delta_rules := fold (\<lambda>(a, t). smap_put a t) (all_changes cs) (cfi_delta_rules m)\<rparr>) cur 0 \<and>
    exclusive_map R \<and> set (rmap R) = cfi_range ` set cs \<union> set (rmap (cfi_initial_rules m))"
  using assms
proof (induction cs arbitrary: m)
  case Nil
  then show ?case by (intro exI [of _ "cfi_initial_rules m"]) (simp add: all_changes_def)
next
  case (Cons c cs)
  have c: "range_fits (cs_address c) (cs_size c)" "is_token newline (cs_rules c)"
    "\<forall>(a, t)\<in>set (cs_changes c). is_token newline t" using Cons.prems(1) by (auto simp: cfi_spec_ok_def)
  obtain R1 where store: "StoreRange (cfi_initial_rules m) (cs_address c) (cs_size c) (cs_rules c) = Some (R1, True)"
    and R1: "exclusive_map R1" "set (rmap R1) = insert (cfi_range c) (set (rmap (cfi_initial_rules m)))"
    using store_apart [OF Cons.prems(3) c(1), of "cs_rules c"] Cons.prems(4) by (auto simp: cfi_range_def)
  let ?m1 = "m\<lparr>cfi_initial_rules := R1\<rparr>"
  let ?m2 = "?m1\<lparr>cfi_delta_rules := fold (\<lambda>(a, t). smap_put a t) (cs_changes c) (cfi_delta_rules m)\<rparr>"
  let ?rest = "text_lines (concat (map cfi_block cs)) @ rest"
  have "is_token newline (hex (unat (cs_address c)) @ CHR '' '' # hex (unat (cs_size c)) @ CHR '' '' # cs_rules c)"
    using c(2) by (intro token_join) simp_all
  then have "is_token newline
      (''STACK CFI INIT '' @ hex (unat (cs_address c)) @ CHR '' '' # hex (unat (cs_size c)) @ CHR '' '' # cs_rules c)"
    by (simp add: is_token_def)
  note init = load_text_line [OF this load_line_init [OF c(2) store]]
  have first: "load_lines extra (Some (text_lines (cfi_block c) @ ?rest)) m cur 0 = load_lines extra (Some ?rest) ?m2 cur 0"
    using init load_deltas [OF c(3), of extra ?rest ?m1 cur] by (simp add: cfi_block_def)
  have "\<forall>d\<in>set cs. \<forall>p\<in>set (rmap (cfi_initial_rules ?m2)).
      fst p < cs_address d \<or> cs_address d + (cs_size d - 1) < r_base (snd p)"
    using Cons.prems(2,4) by (auto simp: R1(2) cfi_range_def range_entry_def apart_def)
  then obtain R where "load_lines extra (Some ?rest) ?m2 cur 0 = load_lines extra (Some rest) (?m2\<lparr>cfi_initial_rules := R,
        cfi_delta_rules := fold (\<lambda>(a, t). smap_put a t) (all_changes cs) (cfi_delta_rules ?m2)\<rparr>) cur 0"
    "exclusive_map R" "set (rmap R) = cfi_range ` set cs \<union> set (rmap R1)"
    using Cons.IH [of ?m2] Cons.prems(1,2) R1(1) by auto
  with first R1(2) show ?case by (intro exI [of _ R]) (auto simp: all_changes_def)
qed

subsection \<open>The whole file\<close>

lemma change_entries:
  assumes "distinct (map fst ds)"
  shows "ordered D \<Longrightarrow> fst ` set D \<inter> fst ` set ds = {} \<Longrightarrow>
    ordered (fold (\<lambda>(a, t). smap_put a t) ds D) \<and> set (fold (\<lambda>(a, t). smap_put a t) ds D) = set ds \<union> set D"
  using assms
proof (induction ds arbitrary: D)
  case (Cons d ds)
  obtain a t where d: "d = (a, t)" by (cases d)
  let ?D = "smap_put a t D"
  have new: "a \<notin> fst ` set D" using Cons.prems(2) d by auto
  have o: "ordered ?D" using Cons.prems(1) by (rule ordered_smap_put)
  have "(k, v) \<in> set ?D \<longleftrightarrow> (if k = a then v = t else (k, v) \<in> set D)" for k v
    using map_of_eq_Some_iff [OF ordered_distinct [OF o], of k v]
      map_of_eq_Some_iff [OF ordered_distinct [OF Cons.prems(1)], of k v]
    by (auto split: if_splits)
  with new have D: "set ?D = insert (a, t) (set D)" by (force split: if_splits)
  have "fst ` set ?D \<inter> fst ` set ds = {}" using Cons.prems(2,3) d unfolding D by auto
  from Cons.IH [OF o this] Cons.prems(3) d D show ?case by auto
qed simp

lemma ordered_unique:
  assumes "ordered xs" and "ordered ys" and "set xs = set ys"
  shows "xs = ys"
proof -
  have "sorted (map fst xs)" "distinct (map fst xs)" "sorted (map fst ys)" "distinct (map fst ys)"
    using assms(1,2) by (simp_all add: ordered_def strict_sorted_iff)
  moreover from this have "inj_on fst (set xs \<union> set ys)" using assms(3) by (simp add: distinct_map)
  ultimately show ?thesis using assms(3) map_sorted_distinct_set_unique by blast
qed

lemma ordered_filter_keep: "ordered m \<Longrightarrow> ordered (filter P m)"
  by (simp add: ordered_def sorted_wrt_map sorted_wrt_filter)

definition cfi_table_ok :: "cfi_spec list \<Rightarrow> bool" where
  "cfi_table_ok cs = ((\<forall>c\<in>set cs. cfi_spec_ok c) \<and> sorted_wrt apart (map (\<lambda>c. (cs_address c, cs_size c)) cs))"

lemma covers_apart: "apart (b, z) (b', z') \<Longrightarrow> covers b z a \<Longrightarrow> \<not> covers b' z' a"
  by (auto simp: apart_def covers_def)

lemma table_same:
  assumes "cfi_table_ok cs" and "c \<in> set cs" and "d \<in> set cs"
    and "covers (cs_address c) (cs_size c) a" and "covers (cs_address d) (cs_size d) a"
  shows "c = d"
proof -
  obtain i j where i: "i < length cs" "cs ! i = c" and j: "j < length cs" "cs ! j = d"
    using assms(2,3) by (auto simp: in_set_conv_nth)
  have "apart (cs_address (cs ! i), cs_size (cs ! i)) (cs_address (cs ! j), cs_size (cs ! j))" if "i < j" "j < length cs" for i j
    using assms(1) sorted_wrt_nth_less [of apart "map (\<lambda>c. (cs_address c, cs_size c)) cs" i j] that
    by (simp add: cfi_table_ok_def)
  then have "\<not> i < j" "\<not> j < i" using covers_apart assms(4,5) i j by blast+
  with i j show ?thesis by simp
qed

lemma change_keys_distinct:
  assumes "cfi_table_ok cs"
  shows "distinct (map fst (all_changes cs))"
  using assms
proof (induction cs)
  case (Cons c cs)
  have tail: "cfi_table_ok cs" using Cons.prems by (simp add: cfi_table_ok_def)
  have "fst ` set (cs_changes c) \<inter> fst ` set (all_changes cs) = {}"
  proof (rule ccontr)
    assume "fst ` set (cs_changes c) \<inter> fst ` set (all_changes cs) \<noteq> {}"
    then obtain a t t' d where "(a, t) \<in> set (cs_changes c)" "d \<in> set cs" "(a, t') \<in> set (cs_changes d)"
      by (auto simp: all_changes_def)
    with Cons.prems have "covers (cs_address c) (cs_size c) a" "covers (cs_address d) (cs_size d) a"
      and "apart (cs_address c, cs_size c) (cs_address d, cs_size d)"
      by (auto simp: cfi_table_ok_def cfi_spec_ok_def)
    with covers_apart show False by blast
  qed
  moreover have "distinct (map fst (cs_changes c))"
    using Cons.prems by (simp add: cfi_table_ok_def cfi_spec_ok_def ordered_distinct)
  ultimately show ?case using Cons.IH [OF tail] by (simp add: all_changes_def)
qed (simp add: all_changes_def)

lemma table_changes:
  assumes "cfi_table_ok cs" and c: "c \<in> set cs" "covers (cs_address c) (cs_size c) a"
    and D: "ordered D" "set D = set (all_changes cs)"
  shows "filter (\<lambda>d. cs_address c \<le> fst d \<and> fst d \<le> a) D = filter (\<lambda>d. fst d \<le> a) (cs_changes c)"
proof (rule ordered_unique)
  have ok: "cfi_spec_ok c" using assms(1) c(1) by (simp add: cfi_table_ok_def)
  then show "ordered (filter (\<lambda>d. fst d \<le> a) (cs_changes c))"
    by (simp add: cfi_spec_ok_def ordered_filter_keep)
  show "ordered (filter (\<lambda>d. cs_address c \<le> fst d \<and> fst d \<le> a) D)" using D(1) by (rule ordered_filter_keep)
  have own: "(k, t) \<in> set (cs_changes c)"
    if "d \<in> set cs" "(k, t) \<in> set (cs_changes d)" "cs_address c \<le> k" "k \<le> a" for d k t
  proof -
    have "covers (cs_address d) (cs_size d) k"
      using assms(1) that(1,2) by (auto simp: cfi_table_ok_def cfi_spec_ok_def)
    moreover have "covers (cs_address c) (cs_size c) k" using c(2) that(3,4) by (auto simp: covers_def)
    ultimately show ?thesis using table_same [OF assms(1) c(1) that(1)] that(2) by blast
  qed
  have "cs_address c \<le> k" if "(k, t) \<in> set (cs_changes c)" for k t
    using ok that by (auto simp: cfi_spec_ok_def covers_def)
  with own c(1) show "set (filter (\<lambda>d. cs_address c \<le> fst d \<and> fst d \<le> a) D) = set (filter (\<lambda>d. fst d \<le> a) (cs_changes c))"
    unfolding D(2) set_filter by (fastforce simp: D(2) all_changes_def)
qed

subsection \<open>What the module says\<close>

text \<open>The lines that \<open>Write\<close> prints, each with the range it is printed in.\<close>

fun printed_lines :: "Module_Range list \<Rightarrow> Module_Line list \<Rightarrow> (Module_Range \<times> Module_Line) list" where
  "printed_lines [] ls = []"
| "printed_lines (r # rs) ls =
     map (Pair r) (takeWhile (\<lambda>l. in_range r (ml_address l)) ls) @
     printed_lines rs (dropWhile (\<lambda>l. in_range r (ml_address l)) ls)"

definition module_functions :: "SymbolModule \<Rightarrow> Module_Function list" where
  "module_functions m = map snd (sm_functions m)"

definition offset :: "SymbolModule \<Rightarrow> u64 \<Rightarrow> u64" where
  "offset m address = address - sm_load_address m"

text \<open>\<open>found\<close> is the frame the resolver filled for an address inside the module.\<close>

definition function_answer :: "SymbolModule \<Rightarrow> u64 \<Rightarrow> u64 \<Rightarrow> StackFrame \<Rightarrow> bool" where
  "function_answer m base a found =
    (\<forall>f\<in>set (module_functions m). \<forall>rg\<in>set (mf_ranges f). covers (offset m (mr_address rg)) (mr_size rg) a \<longrightarrow>
       function_name found = mf_name f \<and> function_base found = base + offset m (mr_address rg) \<and>
       (\<forall>l. (rg, l) \<in> set (printed_lines (mf_ranges f) (mf_lines f)) \<longrightarrow>
          covers (offset m (ml_address l)) (ml_size l) a \<longrightarrow>
          source_file_name found = ml_file l \<and> source_line found = of_int (ml_number l) \<and>
          source_line_base found = base + offset m (ml_address l)))"

definition function_answers :: "SymbolModule \<Rightarrow> Module \<Rightarrow> bool" where
  "function_answers m r =
     (\<forall>base frame. function_answer m base (instruction frame - base) (LookupAddress r base frame))"

definition public_answer :: "SymbolModule \<Rightarrow> u64 \<Rightarrow> u64 \<Rightarrow> StackFrame \<Rightarrow> bool" where
  "public_answer m base a found =
    ((\<forall>f\<in>set (module_functions m). \<forall>rg\<in>set (mf_ranges f). \<not> covers (offset m (mr_address rg)) (mr_size rg) a) \<longrightarrow>
     (\<forall>(address, nam)\<in>set (sm_externs m). let p = offset m address in
        p \<noteq> 0 \<longrightarrow> p \<le> a \<longrightarrow>
        (\<forall>(other, _)\<in>set (sm_externs m). offset m other \<le> a \<longrightarrow> offset m other \<le> p) \<longrightarrow>
        (\<forall>f\<in>set (module_functions m). \<forall>rg\<in>set (mf_ranges f).
           offset m (mr_address rg) \<le> a \<longrightarrow> offset m (mr_address rg) < p) \<longrightarrow>
        function_name found = nam \<and> function_base found = base + p))"

definition public_answers :: "SymbolModule \<Rightarrow> Module \<Rightarrow> bool" where
  "public_answers m r =
     (\<forall>base frame. public_answer m base (instruction frame - base) (LookupAddress r base frame))"

definition cfi_answers :: "SymbolModule \<Rightarrow> Module \<Rightarrow> bool" where
  "cfi_answers m r = (\<forall>a. \<forall>e\<in>set (sm_stack_frame_entries m). covers (offset m (se_address e)) (se_size e) a \<longrightarrow>
     Module_FindCFIFrameInfo r a =
       (case CFIRuleParser_Parse frame_info_handler (rules_text (se_initial_rules e)) empty_cfi of (ok, rules) \<Rightarrow>
          if \<not> ok then None
          else Some (foldl (\<lambda>f (_, rules). snd (CFIRuleParser_Parse frame_info_handler (rules_text rules) f)) rules
            (filter (\<lambda>d. offset m (fst d) \<le> a) (se_rule_changes e)))))"

lemma range_specs_range:
  "rg \<in> set rs \<Longrightarrow> \<exists>s\<in>set (range_specs m f rs ls). fs_address s = offset m (mr_address rg) \<and> fs_size s = mr_size rg \<and>
     fs_name s = mf_name f"
  by (induction rs arbitrary: ls) (auto simp: offset_def)

lemma range_specs_line:
  "(rg, l) \<in> set (printed_lines rs ls) \<Longrightarrow>
     \<exists>s\<in>set (range_specs m f rs ls). fs_address s = offset m (mr_address rg) \<and> fs_size s = mr_size rg \<and>
       line_spec_of m l \<in> set (fs_lines s)"
  by (induction rs arbitrary: ls) (fastforce simp: offset_def)+

lemma range_specs_from:
  "s \<in> set (range_specs m f rs ls) \<Longrightarrow> \<exists>rg\<in>set rs. fs_address s = offset m (mr_address rg) \<and> fs_size s = mr_size rg"
  by (induction rs arbitrary: ls) (auto simp: offset_def)

lemma printed_lines_sub: "(rg, l) \<in> set (printed_lines rs ls) \<Longrightarrow> l \<in> set ls"
  by (induction rs arbitrary: ls) (auto dest: set_takeWhileD set_dropWhileD)

lemma module_specs_functions:
  "module_specs m = concat (map (\<lambda>f. range_specs m f (mf_ranges f) (mf_lines f)) (module_functions m))"
  by (simp add: module_specs_def module_functions_def)

lemma no_spec_covers:
  "(\<forall>f\<in>set (module_functions m). \<forall>rg\<in>set (mf_ranges f). P (offset m (mr_address rg)) (mr_size rg)) \<Longrightarrow>
     s \<in> set (module_specs m) \<Longrightarrow> P (fs_address s) (fs_size s)"
  by (auto simp: module_specs_functions dest!: range_specs_from)

lemma AssignSourceIds_offset [simp]: "offset (AssignSourceIds m) = offset m"
  "module_functions (AssignSourceIds m) = module_functions m"
  by (simp_all add: fun_eq_iff offset_def module_functions_def)

text \<open>A name with a terminator inside would end the text.\<close>

definition no_terminators :: "SymbolModule \<Rightarrow> bool" where
  "no_terminators m =
     ((\<forall>l\<in>set (header_texts m). NUL \<notin> set l) \<and> (\<forall>nam\<in>fst ` set (sm_files m). NUL \<notin> set nam) \<and>
      (\<forall>e\<in>set (sm_externs m). NUL \<notin> set (snd e)) \<and>
      (\<forall>e\<in>set (sm_stack_frame_entries m). NUL \<notin> set (rules_text (se_initial_rules e)) \<and>
         (\<forall>d\<in>set (se_rule_changes e). NUL \<notin> set (rules_text (snd d)))))"

lemma hex_no_NUL [simp]: "NUL \<notin> set (hex n)"
  by (simp add: hex_def digits_no_NUL)

lemma text_lines_no_NUL: "NUL \<notin> set (text_lines ls) \<longleftrightarrow> (\<forall>l\<in>set ls. NUL \<notin> set l)"
  by (induction ls) auto

lemma module_text_no_NUL:
  assumes "no_terminators m" and "symbol_spec_ok (module_specs (AssignSourceIds m))"
  shows "NUL \<notin> set (module_text m ALL_SYMBOL_DATA)"
proof -
  have "NUL \<notin> set (text_lines (header_texts m))" using assms(1) by (simp add: text_lines_no_NUL no_terminators_def)
  moreover have "NUL \<notin> set (file_text i nam)" if "NUL \<notin> set nam" for i nam
    using that by (simp add: file_text_def digits_no_NUL)
  moreover have "\<forall>nam\<in>set (cited_names m). NUL \<notin> set nam"
    using assms(1) by (auto simp: no_terminators_def cited_names_def)
  ultimately have "NUL \<notin> set (text_lines (header_texts m))" "NUL \<notin> set (text_lines (file_texts m))"
    by (auto simp: text_lines_no_NUL file_texts_def)
  moreover have "NUL \<notin> set (symbol_text (module_specs (AssignSourceIds m)))"
    using assms(2) func_block_no_NUL by (auto simp: symbol_text_def symbol_spec_ok_def func_spec_ok_def)
  moreover have "NUL \<notin> set (text_lines (public_texts m))"
    using assms(1) by (auto simp: text_lines_no_NUL no_terminators_def public_texts_def public_text_def func_fields_def)
  moreover have "NUL \<notin> set (text_lines (cfi_texts m))"
    using assms(1) by (auto simp: text_lines_no_NUL no_terminators_def cfi_texts_def entry_texts_def entry_text_def delta_text_def)
  ultimately show ?thesis by (simp add: module_text_def)
qed

definition module_writable :: "SymbolModule \<Rightarrow> bool" where
  "module_writable m =
     (symbols_ok m \<and> lines_counted m \<and> length (sm_files m) < 2 ^ 31 \<and>
      (\<forall>f\<in>set (module_functions m). \<forall>l\<in>set (mf_lines f). ml_file l \<in> fst ` set (sm_files m)) \<and>
      (\<forall>nam\<in>fst ` set (sm_files m). is_token newline nam) \<and>
      (\<forall>l\<in>set (header_texts m). is_token newline l) \<and>
      symbol_spec_ok (module_specs (AssignSourceIds m)) \<and>
      (\<forall>(address, nam)\<in>set (sm_externs m). is_token newline nam \<and> offset m address \<noteq> - 1) \<and>
      cfi_table_ok (map (cfi_spec_of m) (sm_stack_frame_entries m)) \<and>
      no_terminators m)"

definition empty_stream :: ostream where
  "empty_stream = \<lparr>written = [], accepts = (\<lambda>_. True), broken = False\<rparr>"

text \<open>The module the resolver builds.\<close>

definition resolved :: "SymbolModule \<Rightarrow> Module \<Rightarrow> bool" where
  "resolved m r = (loaded (module_specs (AssignSourceIds m)) r \<and>
     (\<forall>i<length (cited_names m). map_of (files r) (int i) = Some (cited_names m ! i)) \<and>
     (\<forall>p. map_of (public_symbols r) p = (case map_of (map (\<lambda>(a, nam). (offset m a, nam)) (sm_externs m)) p of
        Some nam \<Rightarrow> if p = 0 then None else Some (public_object p nam) | None \<Rightarrow> None)) \<and>
     set (rmap (cfi_initial_rules r)) = (cfi_range \<circ> cfi_spec_of m) ` set (sm_stack_frame_entries m) \<and>
     set (cfi_delta_rules r) = set (all_changes (map (cfi_spec_of m) (sm_stack_frame_entries m))))"

lemma load_parts:
  assumes header: "\<forall>l\<in>set hs. is_token newline l \<and> (starts_with ''MODULE '' l \<or> starts_with ''INFO '' l)"
    and srcs: "\<forall>(i, nam)\<in>set srcs. is_token newline nam \<and> i < 2 ^ 31" "distinct (map fst srcs)"
    and specs: "symbol_spec_ok specs"
    and externs: "\<forall>(a, nam)\<in>set externs. is_token newline nam \<and> a \<noteq> - 1" "distinct (map fst externs)"
    and table: "cfi_table_ok cs"
  shows "\<exists>r. load_lines False (Some (text_lines hs @ text_lines (map (\<lambda>(i, nam). file_text i nam) srcs) @
      symbol_text specs @ text_lines (map (\<lambda>(a, nam). public_text False a 0 nam) externs) @
      text_lines (concat (map cfi_block cs)))) new_Module None 0 = Some (r, 0) \<and>
    loaded specs r \<and> (\<forall>(i, nam)\<in>set srcs. map_of (files r) (int i) = Some nam) \<and>
    (\<forall>p. map_of (public_symbols r) p = (case map_of externs p of
       Some nam \<Rightarrow> if p = 0 then None else Some (public_object p nam) | None \<Rightarrow> None)) \<and>
    set (rmap (cfi_initial_rules r)) = cfi_range ` set cs \<and> set (cfi_delta_rules r) = set (all_changes cs)"
proof -
  let ?cfi = "text_lines (concat (map cfi_block cs))"
  let ?publics = "text_lines (map (\<lambda>(a, nam). public_text False a 0 nam) externs)"
  have new: "files new_Module = []" "public_symbols new_Module = []" "cfi_initial_rules new_Module = empty_range_map"
    "cfi_delta_rules new_Module = []" "function_objects new_Module = []" "function_ranges new_Module = empty_range_map"
    "rmap empty_range_map = []"
    by (simp_all add: new_Module_def empty_range_map_def)
  have none0: "ordered (files new_Module)" "\<forall>(i, nam)\<in>set srcs. map_of (files new_Module) (int i) = None"
    by (simp_all add: new)
  obtain F where srcfiles: "load_lines False (Some (text_lines (map (\<lambda>(i, nam). file_text i nam) srcs) @
        symbol_text specs @ ?publics @ ?cfi)) new_Module None 0 =
      load_lines False (Some (symbol_text specs @ ?publics @ ?cfi)) (new_Module\<lparr>files := F\<rparr>) None 0" "ordered F"
    "\<forall>(i, nam)\<in>set srcs. map_of F (int i) = Some nam"
    using load_files [OF srcs none0, of False "symbol_text specs @ ?publics @ ?cfi" None] by blast
  let ?m1 = "new_Module\<lparr>files := F\<rparr>"
  have ok1: "module_ok ?m1" using module_ok_new srcfiles(2) by (simp add: module_ok_def)
  have objects: "function_objects ?m1 = []" "length [] = 0" and empty: "set (rmap (function_ranges ?m1)) = {}"
    by (simp_all add: new)
  have no_func: "\<forall>f. None = Some f \<longrightarrow> f < length (function_objects ?m1)" by simp
  have fs: "\<forall>s\<in>set specs. func_spec_ok s" "sorted_wrt apart (map (\<lambda>s. (fs_address s, fs_size s)) specs)"
    "\<forall>s\<in>set specs. \<forall>p\<in>set (rmap (function_ranges ?m1)).
      fst p < fs_address s \<or> fs_address s + (fs_size s - 1) < r_base (snd p)"
    using specs by (simp_all add: symbol_spec_ok_def new)
  obtain m2 cur2 where funcs: "load_lines False (Some (symbol_text specs @ ?publics @ ?cfi)) ?m1 None 0 =
      load_lines False (Some (?publics @ ?cfi)) m2 cur2 0" "module_ok m2"
    "list_all2 spec_object specs (function_objects m2)" "rest_of_module m2 = rest_of_module ?m1"
    "set (rmap (function_ranges m2)) = {func_range i (specs ! i) |i. i < length specs}"
    using load_func_blocks_rest [OF ok1 no_func fs, of False "?publics @ ?cfi"]
    by (simp only: objects empty append_Nil Un_empty_left add_0) blast
  have m2: "public_symbols m2 = []" "cfi_initial_rules m2 = empty_range_map" "cfi_delta_rules m2 = []" "files m2 = F"
    using funcs(4) by (simp_all add: new)
  have none: "ordered (public_symbols m2)" "\<forall>(a, nam)\<in>set externs. map_of (public_symbols m2) a = None"
    by (simp_all add: m2)
  obtain P cur3 where publics: "load_lines False (Some (?publics @ ?cfi)) m2 cur2 0 =
      load_lines False (Some ?cfi) (m2\<lparr>public_symbols := P\<rparr>) cur3 0" "ordered P"
    "\<forall>p. map_of P p = (case map_of externs p of Some nam \<Rightarrow> if p = 0 then None else Some (public_object p nam) | None \<Rightarrow> None)"
    using load_publics [OF externs none, of False ?cfi cur2] unfolding m2(1) map_of.simps by blast
  let ?m3 = "m2\<lparr>public_symbols := P\<rparr>"
  let ?D = "fold (\<lambda>(a, t). smap_put a t) (all_changes cs) []"
  have cs: "\<forall>c\<in>set cs. cfi_spec_ok c" "sorted_wrt apart (map (\<lambda>c. (cs_address c, cs_size c)) cs)"
    using table by (simp_all add: cfi_table_ok_def)
  have start: "set (rmap (cfi_initial_rules ?m3)) = {}" "cfi_delta_rules ?m3 = []" by (simp_all add: m2 new)
  have rules: "exclusive_map (cfi_initial_rules ?m3)" "\<forall>c\<in>set cs. \<forall>p\<in>set (rmap (cfi_initial_rules ?m3)).
      fst p < cs_address c \<or> cs_address c + (cs_size c - 1) < r_base (snd p)"
    by (simp_all add: m2 new)
  obtain R where cfi: "load_lines False (Some ?cfi) ?m3 cur3 0 =
      load_lines False (Some []) (?m3\<lparr>cfi_initial_rules := R, cfi_delta_rules := ?D\<rparr>) cur3 0"
    "exclusive_map R" "set (rmap R) = cfi_range ` set cs"
    using load_entries [OF cs rules, of False "[]" cur3] by (simp only: start append_Nil2 Un_empty_right) blast
  have D: "ordered ?D" "set ?D = set (all_changes cs)"
    using change_entries [OF change_keys_distinct [OF table], of "[]"] by simp_all
  let ?r = "?m3\<lparr>cfi_initial_rules := R, cfi_delta_rules := ?D\<rparr>"
  have run: "load_lines False (Some (text_lines hs @ text_lines (map (\<lambda>(i, nam). file_text i nam) srcs) @
      symbol_text specs @ ?publics @ ?cfi)) new_Module None 0 = Some (?r, 0)"
    unfolding load_header [OF header] srcfiles(1) funcs(1) publics(1) cfi(1) by (rule load_end)
  have ok: "loaded specs ?r"
    using funcs(2,3,5) publics(2) cfi(2) D(1) by (simp add: loaded_def module_ok_def)
  show ?thesis
    using run ok srcfiles(3) m2(4) publics(3) cfi(3) D(2) by (intro exI [of _ ?r] conjI) simp_all
qed

lemma load_module_text:
  assumes w: "module_writable m"
  shows "\<exists>r. load_lines False (Some (module_text m ALL_SYMBOL_DATA)) new_Module None 0 = Some (r, 0) \<and> resolved m r"
proof -
  let ?specs = "module_specs (AssignSourceIds m)"
  let ?srcs = "map (\<lambda>i. (i, cited_names m ! i)) [0..<length (cited_names m)]"
  let ?externs = "map (\<lambda>(a, nam). (offset m a, nam)) (sm_externs m)"
  let ?cs = "map (cfi_spec_of m) (sm_stack_frame_entries m)"
  have cfi_texts: "cfi_texts m = concat (map cfi_block ?cs)"
    by (simp add: cfi_texts_def entry_texts_block [abs_def] comp_def)
  have module_texts: "module_text m ALL_SYMBOL_DATA = text_lines (header_texts m) @
      text_lines (map (\<lambda>(i, nam). file_text i nam) ?srcs) @ symbol_text ?specs @
      text_lines (map (\<lambda>(a, nam). public_text False a 0 nam) ?externs) @ text_lines (concat (map cfi_block ?cs))"
    by (simp add: module_text_def file_texts_def public_texts_def cfi_texts comp_def split_def offset_def)
  have header: "\<forall>l\<in>set (header_texts m). is_token newline l \<and> (starts_with ''MODULE '' l \<or> starts_with ''INFO '' l)"
    using w by (auto simp: module_writable_def header_texts_def starts_with_def)
  have names: "set (cited_names m) \<subseteq> fst ` set (sm_files m)" "length (cited_names m) \<le> length (sm_files m)"
    using length_filter_le [of _ "map fst (sm_files m)"] by (auto simp: cited_names_def simp del: length_filter_map)
  have "\<forall>nam\<in>fst ` set (sm_files m). is_token newline nam" "length (sm_files m) < 2 ^ 31"
    using w unfolding module_writable_def by blast+
  with names have tokens: "\<forall>nam\<in>set (cited_names m). is_token newline nam" and few: "length (cited_names m) < 2 ^ 31"
    by (blast, linarith)
  have srcs: "\<forall>(i, nam)\<in>set ?srcs. is_token newline nam \<and> i < 2 ^ 31"
    using tokens few nth_mem [of _ "cited_names m"] by auto
  have srcs_distinct: "distinct (map fst ?srcs)" by (simp add: comp_def)
  have specs: "symbol_spec_ok ?specs" using w by (simp add: module_writable_def)
  have externs: "\<forall>(a, nam)\<in>set ?externs. is_token newline nam \<and> a \<noteq> - 1"
    using w by (auto simp: module_writable_def)
  have "distinct (map fst (sm_externs m))" using w by (auto simp: module_writable_def symbols_ok_def ordered_distinct)
  then have distinct: "distinct (map fst ?externs)"
    by (simp add: comp_def split_def distinct_map inj_on_def offset_def)
  have table: "cfi_table_ok ?cs" using w by (simp add: module_writable_def)
  note parts = load_parts [OF header srcs srcs_distinct specs externs distinct table, folded module_texts]
  obtain r where
    r: "load_lines False (Some (module_text m ALL_SYMBOL_DATA)) new_Module None 0 = Some (r, 0)"
    "loaded ?specs r" "\<forall>(i, nam)\<in>set ?srcs. map_of (files r) (int i) = Some nam"
    "\<forall>p. map_of (public_symbols r) p = (case map_of ?externs p of
       Some nam \<Rightarrow> if p = 0 then None else Some (public_object p nam) | None \<Rightarrow> None)"
    "set (rmap (cfi_initial_rules r)) = cfi_range ` set ?cs" "set (cfi_delta_rules r) = set (all_changes ?cs)"
    using parts by (elim exE conjE)
  then have "resolved m r" by (simp add: resolved_def image_comp)
  with r(1) show ?thesis by blast
qed

subsection \<open>The answers\<close>

lemma line_of_module:
  assumes w: "module_writable m" and r: "resolved m r" and f: "f \<in> set (module_functions m)" and l: "l \<in> set (mf_lines f)"
  shows "map_of (files r) (sint (source_file_id (line_object (line_spec_of (AssignSourceIds m) l)))) = Some (ml_file l) \<and>
    of_nat (ls_line (line_spec_of (AssignSourceIds m) l)) = (of_int (ml_number l) :: u32)"
proof -
  have "ml_file l \<in> fst ` set (sm_files m)" "0 \<le> ml_number l" "ordered (sm_files m)" "length (sm_files m) < 2 ^ 31"
    using w f l by (auto simp: module_writable_def lines_counted_def module_functions_def symbols_ok_def)
  moreover have "ml_file l \<in> set (cited_files m)" using f l by (auto simp: cited_files_def module_functions_def)
  ultimately have "ml_file l \<in> set (cited_names m)" by (simp add: cited_names_def)
  then obtain i where i: "i < length (cited_names m)" "ml_file l = cited_names m ! i" by (auto simp: in_set_conv_nth)
  have "length (cited_names m) \<le> length (sm_files m)"
    using length_filter_le [of _ "map fst (sm_files m)"] by (simp add: cited_names_def del: length_filter_map)
  with i(1) \<open>length (sm_files m) < 2 ^ 31\<close> have small: "i < 2 ^ 31" by simp
  have "ls_file (line_spec_of (AssignSourceIds m) l) = i"
    using source_id_cited [OF \<open>ordered (sm_files m)\<close> i(1)] i(2) by (simp add: line_spec_of_def)
  moreover have "sint (of_nat i :: 32 word) = int i"
    using small by (simp add: signed_of_nat signed_take_bit_int_eq_self)
  moreover have "map_of (files r) (int i) = Some (ml_file l)" using r i by (simp add: resolved_def)
  ultimately show ?thesis
    using \<open>0 \<le> ml_number l\<close> by (simp add: line_object_def) (simp add: line_spec_of_def)
qed

lemma functions_answered:
  assumes w: "module_writable m" and r: "resolved m r"
  shows "function_answers m r"
  unfolding function_answers_def function_answer_def
proof (intro allI ballI impI)
  fix base and frame :: StackFrame and f rg
  let ?a = "instruction frame - base" and ?n = "AssignSourceIds m"
  assume f: "f \<in> set (module_functions m)" and rg: "rg \<in> set (mf_ranges f)"
    and a: "covers (offset m (mr_address rg)) (mr_size rg) ?a"
  let ?specs = "range_specs ?n f (mf_ranges f) (mf_lines f)"
  have specs: "loaded (module_specs ?n) r" using r by (simp add: resolved_def)
  have sub: "set ?specs \<subseteq> set (module_specs ?n)" using f by (auto simp: module_specs_functions)
  obtain s where s: "s \<in> set ?specs" "fs_address s = offset m (mr_address rg)" "fs_size s = mr_size rg" "fs_name s = mf_name f"
    using range_specs_range [OF rg, of ?n f "mf_lines f"] by auto
  have func: "function_name (LookupAddress r base frame) = mf_name f \<and>
      function_base (LookupAddress r base frame) = base + offset m (mr_address rg)"
    using lookup_covered [OF specs, of s frame base] s sub a by auto
  have line: "source_file_name (LookupAddress r base frame) = ml_file l \<and>
      source_line (LookupAddress r base frame) = of_int (ml_number l) \<and>
      source_line_base (LookupAddress r base frame) = base + offset m (ml_address l)"
    if l: "(rg, l) \<in> set (printed_lines (mf_ranges f) (mf_lines f))" "covers (offset m (ml_address l)) (ml_size l) ?a" for l
  proof -
    let ?l = "line_spec_of ?n l"
    obtain s where s: "s \<in> set ?specs" "fs_address s = offset m (mr_address rg)" "fs_size s = mr_size rg" "?l \<in> set (fs_lines s)"
      using range_specs_line [OF l(1), of ?n f] by auto
    have at: "ls_address ?l = offset m (ml_address l)" "ls_size ?l = ml_size l" by (simp_all add: line_spec_of_def offset_def)
    have "s \<in> set (module_specs ?n)" "covers (fs_address s) (fs_size s) ?a" using s sub a by auto
    from lookup_covered [OF specs this] s(4) l(2) at
    have "LookupAddress r base frame =
        (let frame = frame\<lparr>function_name := fs_name s, function_base := base + fs_address s\<rparr> in
         (case map_of (files r) (sint (source_file_id (line_object ?l))) of
            None \<Rightarrow> frame | Some srcfile \<Rightarrow> frame\<lparr>source_file_name := srcfile\<rparr>)
           \<lparr>source_line := of_nat (ls_line ?l), source_line_base := base + ls_address ?l\<rparr>)" by auto
    with line_of_module [OF w r f printed_lines_sub [OF l(1)]] at show ?thesis by (simp add: Let_def)
  qed
  show "function_name (LookupAddress r base frame) = mf_name f \<and>
    function_base (LookupAddress r base frame) = base + offset m (mr_address rg) \<and>
    (\<forall>l. (rg, l) \<in> set (printed_lines (mf_ranges f) (mf_lines f)) \<longrightarrow> covers (offset m (ml_address l)) (ml_size l) ?a \<longrightarrow>
      source_file_name (LookupAddress r base frame) = ml_file l \<and>
      source_line (LookupAddress r base frame) = of_int (ml_number l) \<and>
      source_line_base (LookupAddress r base frame) = base + offset m (ml_address l))"
    using func line by blast
qed

lemma publics_answered:
  assumes w: "module_writable m" and r: "resolved m r"
  shows "public_answers m r"
  unfolding public_answers_def public_answer_def Let_def
proof (intro allI impI ballI, clarify)
  fix base and frame :: StackFrame and address nam
  let ?a = "instruction frame - base" and ?n = "AssignSourceIds m" and ?p = "offset m address"
  let ?externs = "map (\<lambda>(a, nam). (offset m a, nam)) (sm_externs m)"
  assume none: "\<forall>f\<in>set (module_functions m). \<forall>rg\<in>set (mf_ranges f). \<not> covers (offset m (mr_address rg)) (mr_size rg) ?a"
    and e: "(address, nam) \<in> set (sm_externs m)" and p: "?p \<noteq> 0" "?p \<le> ?a"
    and last: "\<forall>(other, _)\<in>set (sm_externs m). offset m other \<le> ?a \<longrightarrow> offset m other \<le> ?p"
    and starts: "\<forall>f\<in>set (module_functions m). \<forall>rg\<in>set (mf_ranges f).
      offset m (mr_address rg) \<le> ?a \<longrightarrow> offset m (mr_address rg) < ?p"
  have specs: "loaded (module_specs ?n) r" using r by (simp add: resolved_def)
  then have symbols: "ordered (public_symbols r)" by (simp add: loaded_def module_ok_def)
  have publics: "map_of (public_symbols r) q = (case map_of ?externs q of
      Some nam \<Rightarrow> if q = 0 then None else Some (public_object q nam) | None \<Rightarrow> None)" for q
    using r by (simp add: resolved_def)
  have "distinct (map fst (sm_externs m))"
    using w by (auto simp: module_writable_def symbols_ok_def ordered_distinct)
  then have "distinct (map fst ?externs)"
    by (simp add: comp_def split_def distinct_map inj_on_def offset_def)
  moreover have "(?p, nam) \<in> set ?externs" using e by force
  ultimately have "map_of ?externs ?p = Some nam" by (simp only: map_of_eq_Some_iff)
  then have this_one: "map_of (public_symbols r) ?p = Some (public_object ?p nam)" using p(1) publics by simp
  have "q \<le> ?p" if q: "map_of (public_symbols r) q \<noteq> None" "q \<le> ?a" for q
  proof -
    obtain n where "map_of ?externs q = Some n" using q(1) publics [of q] by (cases "map_of ?externs q") simp_all
    then have "(q, n) \<in> set ?externs" by (rule map_of_SomeD)
    then obtain other where "(other, n) \<in> set (sm_externs m)" "q = offset m other" by auto
    with last q(2) show ?thesis by auto
  qed
  with this_one p(2) have found: "Retrieve (public_symbols r) ?a = Some (public_object ?p nam, ?p)"
    unfolding Retrieve_Some [OF symbols] by blast
  have outside: "\<forall>s\<in>set (module_specs ?n). \<not> covers (fs_address s) (fs_size s) ?a"
    using no_spec_covers [of ?n "\<lambda>b z. \<not> covers b z ?a"] none by simp
  have before: "\<forall>s\<in>set (module_specs ?n). fs_address s \<le> ?a \<longrightarrow> fs_address s < ?p"
    using no_spec_covers [of ?n "\<lambda>b z. b \<le> ?a \<longrightarrow> b < ?p"] starts by simp
  show "function_name (LookupAddress r base frame) = nam \<and> function_base (LookupAddress r base frame) = base + ?p"
    using before unfolding lookup_outside [OF specs outside] found by (simp add: public_object_def)
qed

lemma cfi_answered:
  assumes w: "module_writable m" and r: "resolved m r"
  shows "cfi_answers m r"
  unfolding cfi_answers_def
proof (intro allI ballI impI)
  fix a e
  assume e: "e \<in> set (sm_stack_frame_entries m)" and a: "covers (offset m (se_address e)) (se_size e) a"
  let ?cs = "map (cfi_spec_of m) (sm_stack_frame_entries m)" and ?c = "cfi_spec_of m e"
  have ok: "module_ok r" using r by (simp add: resolved_def loaded_def)
  then have ranges: "ranges_ok (rmap (cfi_initial_rules r))" and D: "ordered (cfi_delta_rules r)"
    by (auto simp: module_ok_def exclusive_map_def range_map_ok_def)
  have c: "?c \<in> set ?cs" "covers (cs_address ?c) (cs_size ?c) a" using e a by (simp_all add: cfi_spec_of_def offset_def)
  have "cfi_range ?c \<in> set (rmap (cfi_initial_rules r))" using r e by (simp add: resolved_def)
  then have range: "range_of (rmap (cfi_initial_rules r)) a = Some (cfi_range ?c)"
    using c(2) unfolding range_of_iff [OF ranges] by (simp add: cfi_range_def range_entry_def covers_def)
  have table: "cfi_table_ok ?cs" using w by (simp add: module_writable_def)
  have entries: "set (cfi_delta_rules r) = set (all_changes ?cs)" using r by (simp add: resolved_def)
  have deltas: "filter (\<lambda>d. cs_address ?c \<le> fst d \<and> fst d \<le> a) (cfi_delta_rules r) =
      map (\<lambda>(k, rules). (offset m k, rules_text rules)) (filter (\<lambda>d. offset m (fst d) \<le> a) (se_rule_changes e))"
    using table_changes [OF table c D entries]
    by (simp add: cfi_spec_of_def filter_map comp_def split_def offset_def)
  have fold: "foldl (\<lambda>f (k, rule). h rule f) x (map (\<lambda>(k, rules). (offset m k, rules_text rules)) ds) =
      foldl (\<lambda>f (_, rules). h (rules_text rules) f) x ds" for h :: "string \<Rightarrow> CFIFrameInfo \<Rightarrow> CFIFrameInfo" and x ds
    by (induction ds arbitrary: x) auto
  have base: "r_base (snd (cfi_range ?c)) = cs_address ?c" "r_entry (snd (cfi_range ?c)) = rules_text (se_initial_rules e)"
    by (simp_all add: cfi_range_def range_entry_def cfi_spec_of_def)
  show "Module_FindCFIFrameInfo r a =
      (case CFIRuleParser_Parse frame_info_handler (rules_text (se_initial_rules e)) empty_cfi of (ok, rules) \<Rightarrow>
         if \<not> ok then None
         else Some (foldl (\<lambda>f (_, rules). snd (CFIRuleParser_Parse frame_info_handler (rules_text rules) f)) rules
           (filter (\<lambda>d. offset m (fst d) \<le> a) (se_rule_changes e))))"
    unfolding FindCFIFrameInfo_deltas [OF ok] range option.case base deltas fold ..
qed

text \<open>
  C40: \<open>Module::Write\<close> and the resolver agree on the format.  A module whose names and ranges can be
  written is printed without an error, the text loads without an error, and then the resolver gives
  for every address what the module has: the function, its base, the source file and line of the
  address; outside of functions the nearest public symbol; and the call frame rules of the entry
  around the address, changed by its changes up to the address.
\<close>

theorem Module_Write_LoadMap:
  assumes "module_writable m"
  shows "\<exists>out r. Module_Write m empty_stream ALL_SYMBOL_DATA = (True, out, AssignSourceIds m) \<and>
    LoadMapFromMemory (written out @ [NUL]) new_Module = Some (True, r) \<and> \<not> is_corrupt r \<and>
    function_answers m r \<and> public_answers m r \<and> cfi_answers m r"
proof -
  have nul: "NUL \<notin> set (module_text m ALL_SYMBOL_DATA)"
    using assms by (intro module_text_no_NUL) (simp_all add: module_writable_def)
  have "free empty_stream" "ordered (sm_files m)" "lines_counted m"
    using assms by (simp_all add: free_def empty_stream_def module_writable_def symbols_ok_def)
  then have run: "Module_Write m empty_stream ALL_SYMBOL_DATA =
      (True, appended (module_text m ALL_SYMBOL_DATA) empty_stream, AssignSourceIds m)"
    by (simp add: Module_Write_free)
  obtain r where load: "load_lines False (Some (module_text m ALL_SYMBOL_DATA)) new_Module None 0 = Some (r, 0)"
    and "resolved m r" using load_module_text [OF assms] by blast
  then have r: "resolved m (r\<lparr>is_corrupt := False\<rparr>)" by (simp add: resolved_def loaded_def module_ok_def)
  have "LoadMapFromMemory (module_text m ALL_SYMBOL_DATA @ [NUL]) new_Module = Some (True, r\<lparr>is_corrupt := False\<rparr>)"
    by (rule LoadMapFromMemory_plain [OF nul load])
  moreover have "written (appended (module_text m ALL_SYMBOL_DATA) empty_stream) = module_text m ALL_SYMBOL_DATA"
    by (simp add: appended_def empty_stream_def)
  ultimately show ?thesis
    using run functions_answered [OF assms r] publics_answered [OF assms r] cfi_answered [OF assms r]
    by (intro exI [of _ "appended (module_text m ALL_SYMBOL_DATA) empty_stream"] exI [of _ "r\<lparr>is_corrupt := False\<rparr>"]) simp
qed

text \<open>A module with one function of two ranges, loaded at 0x400000.\<close>

definition sample_symbol_module :: SymbolModule where
  "sample_symbol_module = (new_SymbolModule ''app'' ''Linux'' ''x86_64'' ''0'' [])
     \<lparr>sm_load_address := 0x400000, sm_files := [(''a.c'', - 1), (''b.c'', - 1)],
      sm_functions := [((0x401000, ''main''), \<lparr>mf_name = ''main'', mf_address = 0x401000,
        mf_ranges = [\<lparr>mr_address = 0x401000, mr_size = 0x10\<rparr>, \<lparr>mr_address = 0x402000, mr_size = 8\<rparr>],
        mf_parameter_size = 0,
        mf_lines = [\<lparr>ml_address = 0x401000, ml_size = 4, ml_file = ''b.c'', ml_number = 7\<rparr>,
          \<lparr>ml_address = 0x402000, ml_size = 8, ml_file = ''b.c'', ml_number = 9\<rparr>]\<rparr>)],
      sm_externs := [(0x403000, ''end'')],
      sm_stack_frame_entries := [\<lparr>se_address = 0x401000, se_size = 0x10,
        se_initial_rules = [(''.cfa'', ''$rsp 8 +''), (''.ra'', ''.cfa 8 - ^'')],
        se_rule_changes = [(0x401001, [(''.cfa'', ''$rsp 16 +'')])]\<rparr>]\<rparr>"

lemma sample_specs: "module_specs (AssignSourceIds sample_symbol_module) =
    [\<lparr>fs_multiple = False, fs_address = 0x1000, fs_size = 0x10, fs_params = 0, fs_name = ''main'',
      fs_lines = [\<lparr>ls_address = 0x1000, ls_size = 4, ls_line = 7, ls_file = 0\<rparr>]\<rparr>,
     \<lparr>fs_multiple = False, fs_address = 0x2000, fs_size = 8, fs_params = 0, fs_name = ''main'',
      fs_lines = [\<lparr>ls_address = 0x2000, ls_size = 8, ls_line = 9, ls_file = 0\<rparr>]\<rparr>]"
  by code_simp

lemma sample_module_writable: "module_writable sample_symbol_module"
  unfolding module_writable_def
proof (intro conjI)
  show "symbol_spec_ok (module_specs (AssignSourceIds sample_symbol_module))"
    unfolding sample_specs
    by (simp add: symbol_spec_ok_def func_spec_ok_def line_spec_ok_def range_fits_def apart_def LONG_MAX_def is_token_def)
  show "cfi_table_ok (map (cfi_spec_of sample_symbol_module) (sm_stack_frame_entries sample_symbol_module))"
    by (simp add: sample_symbol_module_def cfi_table_ok_def cfi_spec_ok_def cfi_spec_of_def new_SymbolModule_def
        range_fits_def covers_def is_token_def rules_text_def)
  show "no_terminators sample_symbol_module"
    by (simp add: sample_symbol_module_def new_SymbolModule_def no_terminators_def header_texts_def rules_text_def)
qed (simp_all add: sample_symbol_module_def new_SymbolModule_def symbols_ok_def lines_counted_def module_functions_def
    is_token_def header_texts_def offset_def)

theorem Module_Write_LoadMap_witness:
  "\<exists>out r. Module_Write sample_symbol_module empty_stream ALL_SYMBOL_DATA =
       (True, out, AssignSourceIds sample_symbol_module) \<and>
     LoadMapFromMemory (written out @ [NUL]) new_Module = Some (True, r) \<and>
     source_file_name (LookupAddress r 0x500000 (new_StackFrame\<lparr>instruction := 0x502003\<rparr>)) = ''b.c'' \<and>
     source_line (LookupAddress r 0x500000 (new_StackFrame\<lparr>instruction := 0x502003\<rparr>)) = 9 \<and>
     function_name (LookupAddress r 0x500000 (new_StackFrame\<lparr>instruction := 0x503010\<rparr>)) = ''end''"
proof -
  let ?m = sample_symbol_module
  obtain out r where run: "Module_Write ?m empty_stream ALL_SYMBOL_DATA = (True, out, AssignSourceIds ?m)"
    "LoadMapFromMemory (written out @ [NUL]) new_Module = Some (True, r)"
    and f: "function_answers ?m r" and p: "public_answers ?m r"
    using Module_Write_LoadMap [OF sample_module_writable] by blast
  have "source_file_name (LookupAddress r 0x500000 (new_StackFrame\<lparr>instruction := 0x502003\<rparr>)) = ''b.c'' \<and>
     source_line (LookupAddress r 0x500000 (new_StackFrame\<lparr>instruction := 0x502003\<rparr>)) = 9"
    using f [unfolded function_answers_def, THEN spec [of _ "0x500000"], THEN spec [of _ "new_StackFrame\<lparr>instruction := 0x502003\<rparr>"]]
    by (simp add: function_answer_def sample_symbol_module_def new_SymbolModule_def module_functions_def offset_def covers_def
        in_range_def)
  moreover have "function_name (LookupAddress r 0x500000 (new_StackFrame\<lparr>instruction := 0x503010\<rparr>)) = ''end''"
    using p [unfolded public_answers_def, THEN spec [of _ "0x500000"], THEN spec [of _ "new_StackFrame\<lparr>instruction := 0x503010\<rparr>"]]
    by (simp add: public_answer_def Let_def sample_symbol_module_def new_SymbolModule_def module_functions_def offset_def covers_def)
  ultimately show ?thesis using run by blast
qed

end
