(* ===== verification/Spec2Isabelle.thy ===== *)
theory Spec2Isabelle
  imports Symbol_File Contained_Range_Map Stackwalker_CPU Fast_Resolver_Base Process_Returns
    Module_Roundtrip
begin

text \<open>
  The crash-report processor of the repository: the C++ sources under
  \<open>src/optimize-crash/src/main/cpp/breakpad/src\<close>, here called \<open>BP\<close>.  The processor
  reads the memory and registers of a crashed thread, walks its stack, and names functions and
  lines from symbol files.  File names below are relative to \<open>BP/processor\<close> unless they
  start with another directory of \<open>BP\<close>.

  PARTS AND HOW THEY INTERACT.

  A symbol file is text.  \<open>BasicSourceLineResolver\<close> loads it line by line: the record
  parsers take a line apart with \<open>strtok_r\<close> and the string-to-number functions, and the
  results go into address maps, range maps and contained range maps.  Lookups in these maps
  name the function, line or public symbol of an address, the Windows frame data and the
  call-frame rules in force there.  \<open>ModuleSerializer\<close> writes a loaded module into a flat
  memory format, in which \<open>FastSourceLineResolver\<close> looks things up without building maps.
  \<open>StackFrameSymbolizer\<close> finds the module of a frame, fetches its symbols once and fills the
  frame.  A \<open>Stackwalker\<close> starts from the context of a thread and asks, for each frame,
  for the caller: by call-frame rules, evaluated by \<open>PostfixEvaluator\<close>, by Windows program
  strings, by saved frame pointers, or by scanning the stack for a word that is a plausible
  return address.

  THEORIES, IN THE ORDER OF THEIR IMPORTS.

  \<open>Prelude\<close>: machine types, the type \<open>run\<close> of executions that may not return
  (\<open>None\<close>: a trap, a read outside an object, an endless loop), theorem collections, and
  facts on lists and words.  \<open>C_String\<close>: \<open>strtok_r\<close>, \<open>strtol\<close>, \<open>strtoull\<close> and
  stream extraction on character lists.  \<open>Std_Map\<close>: \<open>std::map\<close> as an ordered association
  list, with the locale \<open>ordered_index\<close> for anything that has increasing keys by index and
  the two binary searches, interpreted on \<open>std::map\<close> and, in \<open>Static_Map\<close>, on serialized
  maps.

  Maps.  \<open>Address_Map\<close> (\<open>address_map-inl.h\<close>), \<open>Range_Map\<close> (\<open>range_map-inl.h\<close>,
  over words of any width, with the three merge strategies and the recursion between them) and
  \<open>Contained_Range_Map\<close> (\<open>contained_range_map-inl.h\<close>, a tree).  The lemmas show what
  every store does on every branch, that the invariants (disjoint ranges with increasing keys,
  children strictly inside their parents and apart from each other) are kept, that stores end,
  and what lookups find.

  Parsers and expressions.  \<open>Tokenize\<close> (\<open>tokenize.cc\<close>), \<open>Windows_Frame_Info\<close>
  (\<open>windows_frame_info.h\<close>), \<open>Symbol_Parse_Helper\<close> (\<open>SymbolParseHelper\<close> in
  \<open>basic_source_line_resolver.cc\<close>): each record parses to the values it was written from.
  \<open>Postfix_Evaluator\<close> (\<open>postfix_evaluator-inl.h\<close>): the stack machine at any word width;
  it refines the semantics of expression trees, keeps the constants of its dictionary, returns
  on every program without division, and has one branch that follows a null pointer.
  \<open>CFI_Frame_Info\<close> (\<open>cfi_frame_info.cc\<close>, \<open>cfi_frame_info-inl.h\<close>): rule sets and
  their text form, which parses back, and the step from the registers of a frame to those of its
  caller over a register table, the locale \<open>register_table\<close>.

  Symbols.  \<open>Basic_Resolver\<close> (\<open>basic_source_line_resolver.cc\<close>): loading, with the error
  count, and the lookups.  \<open>Symbol_File\<close> states the meaning of a symbol file and that lookups
  answer it.  \<open>Resolver_Base\<close> (\<open>source_line_resolver_base.cc\<close>): the table of modules, and
  the locale \<open>line_resolver\<close> with what a client may rely on.  \<open>Module_Strings\<close>: the strings
  of a loaded module have no terminator inside.  \<open>Raw_Memory\<close> and \<open>Map_Serializers\<close>
  (\<open>simple_serializer-inl.h\<close>, \<open>map_serializers-inl.h\<close>), \<open>Static_Map\<close>
  (\<open>static_map-inl.h\<close> and its iterator), \<open>Module_Serializer\<close> (\<open>module_serializer.cc\<close>),
  \<open>Fast_Resolver\<close> (\<open>fast_source_line_resolver.cc\<close>) and \<open>Fast_Resolver_Base\<close>: the
  serialized form, the proof that every read stays inside it, and that a fast resolver gives the
  answers of the basic resolver it was converted from.

  The writer of symbol files.  \<open>Module_Writer\<close> (\<open>common/module.cc\<close>) is the module that the
  symbol dumpers fill, with its order of functions, files and public symbols, the numbers of the
  source files, and \<open>Module::Write\<close> on a stream that may stop to take text.
  \<open>Module_Roundtrip\<close> loads what it writes into \<open>Basic_Resolver\<close> and shows that the resolver
  gives the answers of the module.

  Stacks.  \<open>Stack_Frame\<close> (\<open>google_breakpad/processor/stack_frame.h\<close>), \<open>Code_Modules\<close>
  (\<open>basic_code_modules.cc\<close>), \<open>Stack_Frame_Symbolizer\<close> (\<open>stack_frame_symbolizer.cc\<close>),
  and \<open>Stackwalker\<close> (\<open>stackwalker.cc\<close>): the walk, its end test and the scan, once for all
  processors.  Every walk has a history, the list of its visits: which frame was found from
  which, with which symbolizer, whether scanning was allowed, and how the walk ended; what the
  theories of the processors show of whole walks rests on it.  A frame of a processor extends the record \<open>StackFrame\<close> with its registers, and
  a walker of a processor is the function that gives the caller of a list of frames.
  \<open>Stackwalker_X86\<close>, \<open>Stackwalker_AMD64\<close>, \<open>Stackwalker_Chain\<close> (PowerPC, PowerPC64,
  SPARC), \<open>Stackwalker_ARM\<close>, \<open>Stackwalker_ARM64\<close> and \<open>Stackwalker_MIPS\<close> model
  \<open>stackwalker_x86.cc\<close> and its siblings.  \<open>Dump_Context\<close> (\<open>dump_context.cc\<close>) is the
  union of the contexts, and \<open>Stackwalker_CPU\<close> the factory that picks a walker.  The locales
  \<open>linked_walker\<close>, \<open>frame_walker\<close> and \<open>scan_limited_walker\<close> hold what any walk satisfies
  once its callers are linked, rise on the stack, and are scanned for only within the limit;
  \<open>chain_walker\<close> is for the processors that follow a chain of saved pointers.  Each is
  interpreted on the code's callers of every processor it fits.

  Minidumps.  \<open>Minidump_Format\<close> has the structures of a dump file after the byte swap
  (\<open>google_breakpad/common/minidump_format.h\<close>) and the conversion of UTF-16 text, and the
  other \<open>Minidump\<close> theories model \<open>minidump.cc\<close>.  \<open>Minidump\<close>: the file, its header and
  directory, strings, the cache of streams, system information.  \<open>Minidump_File\<close>: a dump
  that was written in either byte order is opened with its header and directory; the invariant
  \<open>streams_typed\<close> (a cached stream has the class of its type), the relation
  \<open>dump_extends\<close> between a dump and the dump after reads, and the locale \<open>typed_stream\<close>
  with the contract of \<open>GetStream\<close>, interpreted on every stream class.  \<open>Minidump_Memory\<close>:
  regions that fetch their bytes when first asked, and that the memory the stack walkers see is
  those bytes.  \<open>Minidump_Context\<close>: the contexts of all processors.  \<open>Minidump_Threads\<close>:
  threads, exception and Breakpad information.  \<open>Minidump_Modules\<close>: modules, their debugging
  records and identifiers, and the range map of the list.  \<open>Minidump_Aux_Format\<close> and
  \<open>Minidump_Streams\<close>: the streams for assertions, misc information, memory information, Linux
  maps, unloaded modules and Crashpad.  \<open>Proc_Maps\<close> (\<open>proc_maps_linux.cc\<close>) is the parser
  the stream of Linux maps uses; it reads the lines the kernel prints, with their padding.  For every stream it is shown that
  reading it returns, whatever the bytes of the file are.

  The processor.  \<open>NT_Status\<close> (\<open>symbolic_constants_win.cc\<close>) has the names of the status
  codes of Windows, \<open>Crash_Reason\<close> the reason and the address of a crash on each platform, and
  \<open>Process_Description\<close> the texts for the machine, the creation time and the assertion
  (\<open>minidump_processor.cc\<close>).  \<open>Minidump_Processor\<close> has \<open>ProcessState\<close> and
  \<open>MinidumpProcessor::Process\<close>, which composes the dump, the walkers and the symbolizer: it
  describes the dump, then walks every thread but the one that wrote the dump.  The predicate
  \<open>describes\<close> says that an operation on the dump returns and leaves the list of threads alone;
  the invariant \<open>threads_done\<close> of the loop gives what comes out for the threads.
  \<open>Stackwalker_Returns\<close> and \<open>Process_Returns\<close> show that without symbols every walk on every
  processor returns, and so does the processing of any file: the invariants \<open>dump_sane\<close> and
  \<open>progress_sane\<close> keep what the walkers need of contexts, regions and modules.

  LOOPS.  \<open>walk_loop\<close> ends because every frame is accepted only below \<open>max_frames\<close>;
  the measure is the number of frames left.  Loops whose bound lies in the data
  (\<open>scan_words\<close>, the search for a saved frame pointer on x86, the scan on MIPS) are partial
  functions into \<open>option\<close>, and that they return is proved (for whole walks and for the
  processing of a file in \<open>Stackwalker_Returns\<close> and \<open>Process_Returns\<close>).  The loops over text, over lines,
  over the delta rules and over serialized maps have measures; the search in a serialized tree
  ends because a child lies behind the map of its parent.

  PARAMETERS.  The memory of the crashed process is a function from addresses to bytes inside a
  region; the symbol supplier is a function from modules to results; reading a file gives its
  contents or nothing, and the file system of a dump is a function from paths to contents;
  \<open>malloc\<close> does not fail.  Serialized data is read with the byte order of a little-endian host.
  Whether a walk reads the memory of its thread is the argument \<open>pr_touches\<close> of the processor:
  the first read fetches the bytes from the file, and the functions of the walkers do not show it.  Log messages are left out.  \<open>std::map\<close> keys that the code
  compares with \<open>strcmp\<close> are cut at their first terminator.

  NOT MODELLED.  The microdump format, the exploitability rating (it rests on a third-party
  disassembler; the processor takes its rating as an argument), the printing tools, the readers of
  debugging information that fill a module before it is written, the crash handlers that run inside the crashed process, and the application
  around them: they are operating-system calls, file and text output, or code of other languages.
\<close>

end
